(* ===== verification/Rust_Prelude.thy ===== *)
theory Rust_Prelude
  imports Main "HOL-Library.Code_Target_Nat"
begin

text \<open>
  The parts of Rust's standard library that the modelled code uses, and the generic
  lemmas the components share.

  \<^item> A byte (\<^verbatim>\<open>u8\<close>) is a HOL \<^typ>\<open>char\<close>, which has exactly 256 values; a \<^verbatim>\<open>Vec<u8>\<close> and a
    \<^verbatim>\<open>String\<close> are both lists of bytes, as they are in Rust, so \<^verbatim>\<open>len()\<close> is \<^const>\<open>length\<close>. A
    \<^verbatim>\<open>String\<close> is a byte list that satisfies \<open>valid_utf8\<close>. A Rust \<^verbatim>\<open>char\<close> is
    the slice of bytes that encodes it (\<open>chars\<close> splits a string into them).
  \<^item> \<^verbatim>\<open>u64\<close> and \<^verbatim>\<open>usize\<close> (64-bit targets) are \<^typ>\<open>nat\<close> with the saturation of
    \<^verbatim>\<open>saturating_add\<close> and \<^verbatim>\<open>saturating_mul\<close> written out (\<open>sat_add\<close>, \<open>sat_mul\<close>);
    \<^verbatim>\<open>saturating_sub\<close> is subtraction on \<^typ>\<open>nat\<close>. \<^verbatim>\<open>Code_Target_Nat\<close> is imported so that
    concrete inputs evaluate with binary numerals.
  \<^item> \<open>utf8_first\<close> and \<open>from_utf8\<close> are \<^verbatim>\<open>std::str::from_utf8\<close> with the \<^verbatim>\<open>valid_up_to\<close> and
    \<^verbatim>\<open>error_len\<close> of its error; \<open>from_utf8_lossy\<close> replaces each maximal invalid
    sequence by U+FFFD.
\<close>

section \<open>Collections of simplification rules\<close>

named_theorems rust_simps \<open>unfoldings of small standard-library functions\<close>
named_theorems wf_intros \<open>introduction rules for the components' well-formedness predicates\<close>

section \<open>Integers\<close>

type_synonym u8 = char
type_synonym bytes = "char list"

definition u64_max :: nat where
  "u64_max = 2 ^ 64 - 1"

definition sat_add :: "nat \<Rightarrow> nat \<Rightarrow> nat" where
  "sat_add a b = min (a + b) u64_max"

definition sat_mul :: "nat \<Rightarrow> nat \<Rightarrow> nat" where
  "sat_mul a b = min (a * b) u64_max"

definition div_ceil :: "nat \<Rightarrow> nat \<Rightarrow> nat" where
  "div_ceil a b = (a + b - 1) div b"

definition clamp :: "nat \<Rightarrow> nat \<Rightarrow> nat \<Rightarrow> nat" where
  "clamp x lo hi = min (max x lo) hi"

abbreviation ord :: "char \<Rightarrow> nat" where
  "ord c \<equiv> of_char c"

section \<open>Options and slices\<close>

definition unwrap_or :: "'a option \<Rightarrow> 'a \<Rightarrow> 'a" where
  "unwrap_or x d = (case x of None \<Rightarrow> d | Some v \<Rightarrow> v)"

definition list_get :: "'a list \<Rightarrow> nat \<Rightarrow> 'a option" where
  "list_get xs i = (if i < length xs then Some (xs ! i) else None)"

definition slice :: "'a list \<Rightarrow> nat \<Rightarrow> nat \<Rightarrow> 'a list" where
  "slice xs i j = take (j - i) (drop i xs)"

text \<open>
  \<^verbatim>\<open>partition_point\<close> on a slice that is partitioned by the predicate (which the sorted lists
  of this development are), and \<^verbatim>\<open>binary_search\<close> on a strictly increasing one.
\<close>

definition partition_point :: "('a \<Rightarrow> bool) \<Rightarrow> 'a list \<Rightarrow> nat" where
  "partition_point p xs = length (takeWhile p xs)"

definition binary_search :: "nat list \<Rightarrow> nat \<Rightarrow> nat + nat" where
  "binary_search xs x =
     (let i = partition_point (\<lambda>y. y < x) xs
      in if i < length xs \<and> xs ! i = x then Inr i else Inl i)"

fun position :: "('a \<Rightarrow> bool) \<Rightarrow> 'a list \<Rightarrow> nat option" where
  "position p [] = None"
| "position p (x # xs) = (if p x then Some 0 else map_option Suc (position p xs))"

fun split_on :: "('a \<Rightarrow> bool) \<Rightarrow> 'a list \<Rightarrow> 'a list list" where
  "split_on p [] = [[]]"
| "split_on p (x # xs) =
     (if p x then [] # split_on p xs
      else case split_on p xs of [] \<Rightarrow> [[x]] | w # ws \<Rightarrow> (x # w) # ws)"

section \<open>UTF-8\<close>

text \<open>
  The first character of a byte sequence: \<open>Utf8Char n\<close> is a well-formed character of \<open>n\<close>
  bytes, \<open>Utf8Bad n\<close> an invalid sequence whose \<^verbatim>\<open>error_len\<close> is \<^verbatim>\<open>Some(n)\<close>, and \<open>Utf8Short\<close> a
  sequence that ends inside a character that is well formed so far (\<^verbatim>\<open>error_len\<close> is \<^verbatim>\<open>None\<close>).
\<close>

datatype utf8_step = Utf8Char nat | Utf8Bad nat | Utf8Short

definition utf8_width :: "char \<Rightarrow> nat" where
  "utf8_width b =
     (if ord b < 128 then 1
      else if 194 \<le> ord b \<and> ord b \<le> 223 then 2
      else if 224 \<le> ord b \<and> ord b \<le> 239 then 3
      else if 240 \<le> ord b \<and> ord b \<le> 244 then 4
      else 0)"

definition is_cont :: "char \<Rightarrow> bool" where
  "is_cont b \<longleftrightarrow> 128 \<le> ord b \<and> ord b \<le> 191"

definition second_of_three :: "char \<Rightarrow> char \<Rightarrow> bool" where
  "second_of_three a b \<longleftrightarrow>
     (if ord a = 224 then 160 \<le> ord b \<and> ord b \<le> 191
      else if ord a = 237 then 128 \<le> ord b \<and> ord b \<le> 159
      else is_cont b)"

definition second_of_four :: "char \<Rightarrow> char \<Rightarrow> bool" where
  "second_of_four a b \<longleftrightarrow>
     (if ord a = 240 then 144 \<le> ord b \<and> ord b \<le> 191
      else if ord a = 244 then 128 \<le> ord b \<and> ord b \<le> 143
      else is_cont b)"

definition utf8_tail1 :: "nat \<Rightarrow> bytes \<Rightarrow> utf8_step" where
  "utf8_tail1 k bs =
     (case bs of [] \<Rightarrow> Utf8Short | b # _ \<Rightarrow> if is_cont b then Utf8Char (Suc k) else Utf8Bad k)"

fun utf8_first :: "bytes \<Rightarrow> utf8_step" where
  "utf8_first [] = Utf8Short"
| "utf8_first (a # r) =
     (if utf8_width a = 1 then Utf8Char 1
      else if utf8_width a = 2 then utf8_tail1 1 r
      else if utf8_width a = 3 then
        (case r of [] \<Rightarrow> Utf8Short
         | b # r' \<Rightarrow> if second_of_three a b then utf8_tail1 2 r' else Utf8Bad 1)
      else if utf8_width a = 4 then
        (case r of [] \<Rightarrow> Utf8Short
         | b # r' \<Rightarrow>
             if second_of_four a b then
               (case r' of [] \<Rightarrow> Utf8Short
                | c # r'' \<Rightarrow> if is_cont c then utf8_tail1 3 r'' else Utf8Bad 2)
             else Utf8Bad 1)
      else Utf8Bad 1)"

declare utf8_first.simps(2) [simp del]

lemma utf8_tail1_Char: "utf8_tail1 k bs = Utf8Char n \<Longrightarrow> n = Suc k \<and> bs \<noteq> []"
  by (auto simp: utf8_tail1_def split: list.splits if_splits)

lemma utf8_tail1_Bad: "utf8_tail1 k bs = Utf8Bad n \<Longrightarrow> n = k \<and> bs \<noteq> []"
  by (auto simp: utf8_tail1_def split: list.splits if_splits)

lemma utf8_tail1_Short: "utf8_tail1 k bs = Utf8Short \<Longrightarrow> bs = []"
  by (auto simp: utf8_tail1_def split: list.splits if_splits)

lemma utf8_first_Char_bounds:
  assumes "utf8_first bs = Utf8Char n"
  shows "1 \<le> n \<and> n \<le> 4 \<and> n \<le> length bs"
proof (cases bs)
  case Nil
  with assms show ?thesis by simp
next
  case (Cons a r)
  with assms show ?thesis
    by (auto simp: utf8_first.simps(2) Suc_le_eq dest!: utf8_tail1_Char
        split: if_splits list.splits)
qed

lemma utf8_first_Bad_bounds:
  assumes "utf8_first bs = Utf8Bad n"
  shows "1 \<le> n \<and> n \<le> 3 \<and> n \<le> length bs"
proof (cases bs)
  case Nil
  with assms show ?thesis by simp
next
  case (Cons a r)
  with assms show ?thesis
    by (auto simp: utf8_first.simps(2) dest!: utf8_tail1_Bad split: if_splits list.splits)
qed

lemma utf8_first_Short_length:
  assumes "utf8_first bs = Utf8Short"
  shows "length bs \<le> 3"
proof (cases bs)
  case Nil
  then show ?thesis by simp
next
  case (Cons a r)
  with assms show ?thesis
    by (auto simp: utf8_first.simps(2) dest!: utf8_tail1_Short split: if_splits list.splits)
qed

text \<open>\<^verbatim>\<open>std::str::from_utf8\<close>: \<^verbatim>\<open>Ok\<close>, or the error's \<^verbatim>\<open>valid_up_to\<close> and \<^verbatim>\<open>error_len\<close>.\<close>

datatype utf8_result = Utf8Ok | Utf8Err (valid_up_to: nat) (error_len: "nat option")

function from_utf8 :: "bytes \<Rightarrow> utf8_result" where
  "from_utf8 bs =
     (if bs = [] then Utf8Ok
      else case utf8_first bs of
        Utf8Char n \<Rightarrow>
          (case from_utf8 (drop n bs) of
             Utf8Ok \<Rightarrow> Utf8Ok
           | Utf8Err k e \<Rightarrow> Utf8Err (n + k) e)
      | Utf8Bad n \<Rightarrow> Utf8Err 0 (Some n)
      | Utf8Short \<Rightarrow> Utf8Err 0 None)"
  by pat_completeness auto
termination
  by (relation "measure length") (auto dest: utf8_first_Char_bounds)

declare from_utf8.simps [simp del]

definition valid_utf8 :: "bytes \<Rightarrow> bool" where
  "valid_utf8 bs \<longleftrightarrow> from_utf8 bs = Utf8Ok"

text \<open>The characters of a string, each as the slice of bytes that encodes it.\<close>

type_synonym rchar = "char list"

function chars :: "bytes \<Rightarrow> rchar list" where
  "chars bs =
     (if bs = [] then []
      else case utf8_first bs of
        Utf8Char n \<Rightarrow> take n bs # chars (drop n bs)
      | _ \<Rightarrow> take 1 bs # chars (drop 1 bs))"
  by pat_completeness auto
termination
  by (relation "measure length") (auto dest: utf8_first_Char_bounds)

declare chars.simps [simp del]

definition replacement :: bytes where
  "replacement = [CHR 0xEF, CHR 0xBF, CHR 0xBD]"

function from_utf8_lossy :: "bytes \<Rightarrow> bytes" where
  "from_utf8_lossy bs =
     (if bs = [] then []
      else case utf8_first bs of
        Utf8Char n \<Rightarrow> take n bs @ from_utf8_lossy (drop n bs)
      | Utf8Bad n \<Rightarrow> replacement @ from_utf8_lossy (drop n bs)
      | Utf8Short \<Rightarrow> replacement)"
  by pat_completeness auto
termination
  by (relation "measure length") (auto dest: utf8_first_Char_bounds utf8_first_Bad_bounds)

declare from_utf8_lossy.simps [simp del]

fun code_point :: "rchar \<Rightarrow> nat" where
  "code_point [a] = ord a"
| "code_point [a, b] = (ord a - 192) * 64 + (ord b - 128)"
| "code_point [a, b, c] = (ord a - 224) * 4096 + (ord b - 128) * 64 + (ord c - 128)"
| "code_point [a, b, c, d] =
     (ord a - 240) * 262144 + (ord b - 128) * 4096 + (ord c - 128) * 64 + (ord d - 128)"
| "code_point _ = 0"

text \<open>\<^verbatim>\<open>char::is_whitespace\<close>: the code points with the Unicode property \<^verbatim>\<open>White_Space\<close>.\<close>

definition is_whitespace :: "rchar \<Rightarrow> bool" where
  "is_whitespace c \<longleftrightarrow>
     (let p = code_point c
      in (9 \<le> p \<and> p \<le> 13) \<or> p = 32 \<or> p = 133 \<or> p = 160 \<or> p = 5760 \<or>
         (8192 \<le> p \<and> p \<le> 8202) \<or> p = 8232 \<or> p = 8233 \<or> p = 8239 \<or> p = 8287 \<or> p = 12288)"

definition is_ascii_whitespace :: "char \<Rightarrow> bool" where
  "is_ascii_whitespace b \<longleftrightarrow> ord b \<in> {9, 10, 12, 13, 32}"

section \<open>Strings\<close>

abbreviation nl :: bytes where
  "nl \<equiv> [CHR 0x0A]"

definition trim_start_matches :: "(rchar \<Rightarrow> bool) \<Rightarrow> string \<Rightarrow> string" where
  "trim_start_matches p s = concat (dropWhile p (chars s))"

definition trim_end_matches :: "(rchar \<Rightarrow> bool) \<Rightarrow> string \<Rightarrow> string" where
  "trim_end_matches p s = concat (rev (dropWhile p (rev (chars s))))"

abbreviation trim_start :: "string \<Rightarrow> string" where
  "trim_start \<equiv> trim_start_matches is_whitespace"

abbreviation trim_end :: "string \<Rightarrow> string" where
  "trim_end \<equiv> trim_end_matches is_whitespace"

definition trim :: "string \<Rightarrow> string" where
  "trim s = trim_end (trim_start s)"

definition starts_with :: "string \<Rightarrow> string \<Rightarrow> bool" where
  "starts_with s p \<longleftrightarrow> take (length p) s = p"

definition ends_with :: "string \<Rightarrow> string \<Rightarrow> bool" where
  "ends_with s p \<longleftrightarrow> length p \<le> length s \<and> drop (length s - length p) s = p"

definition strip_prefix :: "string \<Rightarrow> string \<Rightarrow> string option" where
  "strip_prefix s p = (if starts_with s p then Some (drop (length p) s) else None)"

definition strip_suffix :: "string \<Rightarrow> string \<Rightarrow> string option" where
  "strip_suffix s p = (if ends_with s p then Some (take (length s - length p) s) else None)"

definition split_whitespace :: "string \<Rightarrow> string list" where
  "split_whitespace s = filter (\<lambda>w. w \<noteq> []) (map concat (split_on is_whitespace (chars s)))"

fun join :: "string \<Rightarrow> string list \<Rightarrow> string" where
  "join sep [] = []"
| "join sep [w] = w"
| "join sep (w # ws) = w @ sep @ join sep ws"

definition ascii_lower :: "char \<Rightarrow> char" where
  "ascii_lower b = (if 65 \<le> ord b \<and> ord b \<le> 90 then char_of (ord b + 32) else b)"

definition ascii_upper :: "char \<Rightarrow> char" where
  "ascii_upper b = (if 97 \<le> ord b \<and> ord b \<le> 122 then char_of (ord b - 32) else b)"

definition to_ascii_lowercase :: "string \<Rightarrow> string" where
  "to_ascii_lowercase s = map ascii_lower s"

definition is_digit :: "char \<Rightarrow> bool" where
  "is_digit b \<longleftrightarrow> 48 \<le> ord b \<and> ord b \<le> 57"

text \<open>\<^verbatim>\<open>str::parse::<u64>()\<close>, with the error dropped: an optional \<^verbatim>\<open>+\<close>, then decimal digits, no overflow.\<close>

definition digits_value :: "string \<Rightarrow> nat" where
  "digits_value s = foldl (\<lambda>acc b. 10 * acc + (ord b - 48)) 0 s"

definition parse_u64 :: "string \<Rightarrow> nat option" where
  "parse_u64 s =
     (let d = (case s of [] \<Rightarrow> [] | b # r \<Rightarrow> if b = CHR ''+'' then r else s)
      in if d = [] \<or> \<not> list_all is_digit d then None
         else if digits_value d \<le> u64_max then Some (digits_value d) else None)"

text \<open>Decimal formatting of an unsigned integer (\<^verbatim>\<open>format!("{n}")\<close>).\<close>

fun dec :: "nat \<Rightarrow> string" where
  "dec n = (if n < 10 then [char_of (48 + n)] else dec (n div 10) @ [char_of (48 + n mod 10)])"

declare dec.simps [simp del]

text \<open>\<^verbatim>\<open>\x{byte:02X}\<close>: a backslash, an x and two upper-case hexadecimal digits.\<close>

definition hex_digit :: "nat \<Rightarrow> char" where
  "hex_digit n = (if n < 10 then char_of (48 + n) else char_of (55 + n))"

definition hex_escape :: "char \<Rightarrow> bytes" where
  "hex_escape b = [CHR 0x5C, CHR ''x'', hex_digit (ord b div 16), hex_digit (ord b mod 16)]"

section \<open>Lemmas: UTF-8 and characters\<close>

lemma utf8_first_prefix:
  assumes "utf8_first xs = Utf8Char n"
  shows "utf8_first (xs @ ys) = Utf8Char n"
proof (cases xs)
  case Nil
  with assms show ?thesis by simp
next
  case (Cons a r)
  with assms show ?thesis
    by (auto simp: utf8_first.simps(2) utf8_tail1_def split: if_splits list.splits)
qed

lemma utf8_first_take:
  assumes "utf8_first xs = Utf8Char n"
  shows "utf8_first (take n xs) = Utf8Char n"
proof (cases xs)
  case Nil
  with assms show ?thesis by simp
next
  case (Cons a r)
  show ?thesis
  proof (cases "utf8_width a = 1")
    case True
    with assms Cons have "n = 1" by (simp add: utf8_first.simps(2))
    with True Cons show ?thesis by (simp add: utf8_first.simps(2))
  next
    case False
    with assms Cons show ?thesis
      by (auto simp: utf8_first.simps(2) utf8_tail1_def split: if_splits list.splits)
  qed
qed

lemma chars_Nil [simp]: "chars [] = []"
  by (subst chars.simps) simp

lemma chars_eq_Nil [simp]: "chars s = [] \<longleftrightarrow> s = []"
  by (subst chars.simps) (auto split: utf8_step.split)

lemma concat_chars [simp]: "concat (chars s) = s"
  by (induction s rule: chars.induct) (subst chars.simps, auto split: utf8_step.split)

text \<open>The head of \<^const>\<open>chars\<close>: its width, and that it does not depend on what follows.\<close>

definition head_width :: "bytes \<Rightarrow> nat" where
  "head_width s = (case utf8_first s of Utf8Char n \<Rightarrow> n | _ \<Rightarrow> 1)"

lemma head_width_bounds: "s \<noteq> [] \<Longrightarrow> 1 \<le> head_width s \<and> head_width s \<le> length s \<and> head_width s \<le> 4"
  by (auto simp: head_width_def Suc_le_eq split: utf8_step.split dest: utf8_first_Char_bounds)

lemma chars_unfold:
  "s \<noteq> [] \<Longrightarrow> chars s = take (head_width s) s # chars (drop (head_width s) s)"
  by (subst chars.simps) (simp add: head_width_def split: utf8_step.split)

lemma chars_induct [case_names Nil Char]:
  assumes "P []"
    and "\<And>s. s \<noteq> [] \<Longrightarrow> P (drop (head_width s) s) \<Longrightarrow> P s"
  shows "P s"
proof (induction s rule: length_induct)
  case (1 s)
  show ?case
  proof (cases "s = []")
    case False
    with head_width_bounds [OF False] have "length (drop (head_width s) s) < length s" by simp
    with 1 assms(2) [OF False] show ?thesis by blast
  qed (simp add: assms(1))
qed

lemma chars_ne: "c \<in> set (chars s) \<Longrightarrow> c \<noteq> []"
proof (induction s rule: chars_induct)
  case (Char s)
  with head_width_bounds [of s] show ?case by (auto simp: chars_unfold Suc_le_eq)
qed simp

lemma chars_width: "c \<in> set (chars s) \<Longrightarrow> length c \<le> 4"
proof (induction s rule: chars_induct)
  case (Char s)
  with head_width_bounds [of s] show ?case by (auto simp: chars_unfold)
qed simp

lemma chars_drop: "chars (concat (drop k (chars s))) = drop k (chars s)"
proof (induction s arbitrary: k rule: chars_induct)
  case (Char s)
  then show ?case by (cases k) (simp_all add: chars_unfold [OF Char.hyps])
qed simp

lemma head_width_prefix:
  assumes "s = take (head_width s) s @ r @ z"
  shows "head_width (take (head_width s) s @ r) = head_width s"
proof (cases "utf8_first s")
  case (Utf8Char n)
  then have "utf8_first (take n s @ r) = Utf8Char n"
    by (intro utf8_first_prefix utf8_first_take)
  with Utf8Char show ?thesis by (simp add: head_width_def)
next
  case other: (Utf8Bad k)
  have "utf8_first (take 1 s @ r) \<noteq> Utf8Char m" for m
    using utf8_first_prefix [of "take 1 s @ r" m z] assms other
    by (auto simp: head_width_def)
  with other show ?thesis by (auto simp: head_width_def split: utf8_step.split)
next
  case other: Utf8Short
  have "utf8_first (take 1 s @ r) \<noteq> Utf8Char m" for m
    using utf8_first_prefix [of "take 1 s @ r" m z] assms other
    by (auto simp: head_width_def)
  with other show ?thesis by (auto simp: head_width_def split: utf8_step.split)
qed

lemma chars_append_head: "head_width (a @ r) = length a \<Longrightarrow> a \<noteq> [] \<Longrightarrow> chars (a @ r) = a # chars r"
  using chars_unfold [of "a @ r"] by simp

lemma chars_take: "chars (concat (take k (chars s))) = take k (chars s)"
proof (induction s arbitrary: k rule: chars_induct)
  case (Char s)
  show ?case
  proof (cases k)
    case (Suc j)
    let ?w = "head_width s" and ?r = "concat (take j (chars (drop (head_width s) s)))"
    have "s = take ?w s @ ?r @ concat (drop j (chars (drop ?w s)))"
      by (metis append_take_drop_id concat_append concat_chars)
    then have w: "head_width (take ?w s @ ?r) = ?w" by (rule head_width_prefix)
    have "length (take ?w s) = ?w" and "take ?w s \<noteq> []"
      using head_width_bounds [OF Char.hyps] Char.hyps by auto
    with w have "chars (take ?w s @ ?r) = take ?w s # chars ?r"
      by (intro chars_append_head) (simp_all only: not_False_eq_True)
    with Char Suc show ?thesis by (simp add: chars_unfold [OF Char.hyps])
  qed simp
qed simp

lemma chars_dropWhile: "chars (concat (dropWhile p (chars s))) = dropWhile p (chars s)"
  by (simp add: dropWhile_eq_drop chars_drop)

lemma chars_takeWhile: "chars (concat (takeWhile p (chars s))) = takeWhile p (chars s)"
  by (metis takeWhile_eq_take chars_take)

lemma length_concat_dropWhile_le: "length (concat (dropWhile p xs)) \<le> length (concat xs)"
  by (induction xs) auto

lemma length_trim_start_le: "length (trim_start_matches p s) \<le> length s"
  using length_concat_dropWhile_le [of p "chars s"] by (simp add: trim_start_matches_def)

lemma chars_trim_start: "chars (trim_start_matches p s) = dropWhile p (chars s)"
  by (simp add: trim_start_matches_def chars_dropWhile)

lemma chars_trim_end: "chars (trim_end_matches p s) = rev (dropWhile p (rev (chars s)))"
  by (simp add: trim_end_matches_def dropWhile_eq_drop rev_drop chars_take)

lemma trim_Nil [simp]: "trim_start_matches p [] = []" "trim_end_matches p [] = []" "trim [] = []"
  by (simp_all add: trim_start_matches_def trim_end_matches_def trim_def)

subsection \<open>ASCII strings\<close>

definition is_ascii :: "string \<Rightarrow> bool" where
  "is_ascii s \<longleftrightarrow> list_all (\<lambda>b. ord b < 128) s"

definition ascii_ws :: "char \<Rightarrow> bool" where
  "ascii_ws b \<longleftrightarrow> (9 \<le> ord b \<and> ord b \<le> 13) \<or> ord b = 32"

lemma is_ascii_simps [simp]:
  "is_ascii []" "is_ascii (b # s) \<longleftrightarrow> ord b < 128 \<and> is_ascii s"
  "is_ascii (s @ t) \<longleftrightarrow> is_ascii s \<and> is_ascii t"
  by (auto simp: is_ascii_def)

lemma chars_ascii_Cons: "ord b < 128 \<Longrightarrow> chars (b # s) = [b] # chars s"
  by (subst chars.simps) (simp add: utf8_first.simps(2) utf8_width_def)

lemma chars_ascii: "is_ascii s \<Longrightarrow> chars s = map (\<lambda>b. [b]) s"
  by (induction s) (simp_all add: chars_ascii_Cons)

lemma is_whitespace_ascii: "ord b < 128 \<Longrightarrow> is_whitespace [b] \<longleftrightarrow> ascii_ws b"
  by (auto simp: is_whitespace_def ascii_ws_def Let_def)

lemma concat_map_single [simp]: "concat (map (\<lambda>b. [b]) s) = s"
  by (induction s) auto

lemma trim_start_ascii_ne:
  "ord b < 128 \<Longrightarrow> \<not> ascii_ws b \<Longrightarrow> trim_start (b # s) = b # s"
  by (simp add: trim_start_matches_def chars_ascii_Cons is_whitespace_ascii)

lemma trim_start_ws: "ord b < 128 \<Longrightarrow> ascii_ws b \<Longrightarrow> trim_start (b # s) = trim_start s"
  by (simp add: trim_start_matches_def chars_ascii_Cons is_whitespace_ascii)

subsection \<open>Valid UTF-8\<close>

lemma valid_utf8_Nil [simp]: "valid_utf8 []"
  by (simp add: valid_utf8_def from_utf8.simps)

lemma valid_utf8_Char: "utf8_first bs = Utf8Char n \<Longrightarrow> valid_utf8 bs \<longleftrightarrow> valid_utf8 (drop n bs)"
  by (auto simp: valid_utf8_def from_utf8.simps [of bs] split: utf8_result.splits)

lemma valid_utf8_append: "valid_utf8 a \<Longrightarrow> valid_utf8 b \<Longrightarrow> valid_utf8 (a @ b)"
proof (induction a rule: from_utf8.induct)
  case (1 a)
  show ?case
  proof (cases "a = []")
    case False
    with "1.prems"(1) obtain n where n: "utf8_first a = Utf8Char n"
      by (auto simp: valid_utf8_def from_utf8.simps [of a] split: utf8_step.splits)
    from utf8_first_Char_bounds [OF n] have "drop n (a @ b) = drop n a @ b" by simp
    with "1.IH" [OF False n] "1.prems" n utf8_first_prefix [OF n] show ?thesis
      by (simp add: valid_utf8_Char)
  qed (use 1 in simp)
qed

lemma valid_utf8_ascii_Cons: "ord b < 128 \<Longrightarrow> valid_utf8 (b # s) \<longleftrightarrow> valid_utf8 s"
  by (subst valid_utf8_Char [of _ 1]) (simp_all add: utf8_first.simps(2) utf8_width_def)

lemma valid_utf8_ascii: "is_ascii s \<Longrightarrow> valid_utf8 s"
  by (induction s) (simp_all add: valid_utf8_ascii_Cons)

lemma valid_utf8_prefix: "from_utf8 bs = Utf8Err k e \<Longrightarrow> valid_utf8 (take k bs)"
proof (induction bs arbitrary: k rule: from_utf8.induct)
  case (1 bs)
  show ?case
  proof (cases "utf8_first bs")
    case (Utf8Char n)
    note b = utf8_first_Char_bounds [OF Utf8Char]
    have ne: "bs \<noteq> []" using Utf8Char by auto
    with "1.prems" Utf8Char obtain j where j: "from_utf8 (drop n bs) = Utf8Err j e" "k = n + j"
      by (auto simp: from_utf8.simps [of bs] split: utf8_result.splits)
    have "utf8_first (take k bs) = Utf8Char n"
      using utf8_first_prefix [OF utf8_first_take [OF Utf8Char], of "take j (drop n bs)"]
      by (simp add: j(2) take_add)
    moreover have "drop n (take k bs) = take j (drop n bs)" by (simp add: j(2) drop_take)
    ultimately show ?thesis using "1.IH" [OF ne Utf8Char j(1)] by (simp add: valid_utf8_Char)
  qed (use "1.prems" in \<open>auto simp: from_utf8.simps [of bs] split: if_splits\<close>)
qed

lemma hex_escape_ascii: "is_ascii (hex_escape b)"
proof -
  have "ord b div 16 < (16 :: nat)" by (rule less_mult_imp_div_less) simp
  moreover have "ord b mod 16 < (16 :: nat)" by simp
  ultimately show ?thesis by (auto simp: hex_escape_def hex_digit_def)
qed

lemma valid_utf8_escapes: "valid_utf8 (concat (map hex_escape bs))"
  by (induction bs) (simp_all add: valid_utf8_append valid_utf8_ascii hex_escape_ascii)

lemma hex_escape_ne: "hex_escape b \<noteq> []"
  by (simp add: hex_escape_def)

section \<open>Lemmas: numbers and options\<close>

lemma parse_u64_le: "parse_u64 s = Some n \<Longrightarrow> n \<le> u64_max"
  by (auto simp: parse_u64_def Let_def split: if_splits)

lemma sat_add_le: "sat_add a b \<le> a + b" "sat_add a b \<le> u64_max"
  by (simp_all add: sat_add_def)

lemma sat_add_exact: "a + b \<le> u64_max \<Longrightarrow> sat_add a b = a + b"
  by (simp add: sat_add_def)

lemma sat_mul_le: "sat_mul a b \<le> u64_max"
  by (simp add: sat_mul_def)

lemma digits_value_snoc: "digits_value (s @ [b]) = 10 * digits_value s + (ord b - 48)"
  by (simp add: digits_value_def)

lemma ord_char_of [simp]: "n < 256 \<Longrightarrow> ord (char_of n) = n"
  by (simp add: of_char_of)

lemma dec_digits: "dec n \<noteq> [] \<and> list_all is_digit (dec n)"
proof (induction n rule: dec.induct)
  case (1 n)
  then show ?case
    by (cases "n < 10") (simp_all add: dec.simps [of n] is_digit_def)
qed

lemma dec_value: "digits_value (dec n) = n"
proof (induction n rule: dec.induct)
  case (1 n)
  then show ?case
    by (cases "n < 10")
      (simp_all add: dec.simps [of n] digits_value_snoc, simp add: digits_value_def)
qed

lemma dec_Cons: "\<exists>b r. dec n = b # r \<and> is_digit b"
  using dec_digits [of n] by (cases "dec n") auto

lemma parse_u64_dec: "n \<le> u64_max \<Longrightarrow> parse_u64 (dec n) = Some n"
proof -
  assume "n \<le> u64_max"
  moreover obtain b r where br: "dec n = b # r" and "is_digit b"
    using dec_Cons by blast
  moreover from this have "b \<noteq> CHR ''+''" by (auto simp: is_digit_def)
  ultimately show ?thesis
    using dec_digits [of n] dec_value [of n] by (simp add: parse_u64_def)
qed

lemma pred_option_code [code]:
  "pred_option P None = True" "pred_option P (Some x) = P x"
  by simp_all

lemma pred_option_intros:
  "pred_option P None"
  "P x \<Longrightarrow> pred_option P (Some x)"
  "pred_option P s \<Longrightarrow> pred_option P t \<Longrightarrow> pred_option P (if c then s else t)"
  "pred_option P s \<Longrightarrow> (\<And>v. x = Some v \<Longrightarrow> pred_option P (f v)) \<Longrightarrow>
     pred_option P (case x of None \<Rightarrow> s | Some v \<Rightarrow> f v)"
  "pred_option (\<lambda>v. P (g v)) x \<Longrightarrow> pred_option P (map_option g x)"
  by (auto simp: option.pred_map comp_def split: option.split)

section \<open>Lemmas: lists and slices\<close>

lemma slice_append:
  "slice (xs @ ys) i j = slice xs i (min j (length xs)) @ slice ys (i - length xs) (j - length xs)"
proof (cases "i \<le> length xs")
  case True
  then have "j - i - (length xs - i) = j - length xs" by simp
  moreover have "take (j - i) (drop i xs) = take (min j (length xs) - i) (drop i xs)"
    by (simp add: min_def)
  ultimately show ?thesis using True by (simp add: slice_def)
qed (simp add: slice_def)

lemma slice_empty [simp]: "slice xs i i = []" "slice [] i j = []" "j \<le> i \<Longrightarrow> slice xs i j = []"
  by (simp_all add: slice_def)

lemma slice_slice: "b \<le> j - i \<Longrightarrow> slice (slice xs i j) a b = slice xs (i + a) (i + b)"
  by (simp add: slice_def drop_take min_def add.commute)

lemma dropWhile_sorted_filter:
  assumes "sorted (map f xs)" and "\<And>x y. f x \<le> f y \<Longrightarrow> p y \<Longrightarrow> p x"
  shows "dropWhile p xs = filter (\<lambda>x. \<not> p x) xs"
  using assms(1)
proof (induction xs)
  case (Cons x xs)
  show ?case
  proof (cases "p x")
    case False
    with Cons.prems assms(2) have "\<And>y. y \<in> set xs \<Longrightarrow> \<not> p y" by auto
    with False show ?thesis by (simp add: filter_True)
  qed (use Cons in simp)
qed simp

lemma sat_add_gt: "capacity < u64_max \<Longrightarrow> sat_add a b > capacity \<longleftrightarrow> a + b > capacity"
  by (auto simp: sat_add_def)

lemma position_less: "position p xs = Some i \<Longrightarrow> i < length xs \<and> p (xs ! i)"
proof (induction xs arbitrary: i)
  case (Cons x xs)
  then show ?case by (cases "p x") auto
qed simp

lemma partition_point_le: "partition_point p xs \<le> length xs"
  by (simp add: partition_point_def length_takeWhile_le)

lemma partition_point_pred:
  "partition_point p xs = Suc i \<Longrightarrow> list_get xs i = Some x \<Longrightarrow> p x"
  by (metis list_get_def nth_mem option.distinct(1) option.inject partition_point_def
      set_takeWhileD takeWhile_nth lessI)

lemma list_get_Some: "list_get xs i = Some x \<longleftrightarrow> i < length xs \<and> xs ! i = x"
  by (auto simp: list_get_def)

end
