(* ===== verification/Worker_Protocol.thy ===== *)
theory Worker_Protocol
  imports Rust_Prelude
begin

text \<open>
  \<^verbatim>\<open>src/src/worker_protocol.rs\<close>: the reply types shared by the worker supervisor, the pager and
  the server, with the constructors of \<^verbatim>\<open>WorkerContent\<close>.
\<close>

datatype worker_error_code =
    Busy
  | Timeout
  | InputRejectedPendingOutput
  | InputRejectedBackgroundOutput
  | SessionStartFailed
  | WorkerExecutionFailed
  | Interrupted

datatype content_origin = Worker | Server

datatype content_visibility = ReplyAndTranscript | TranscriptOnly

definition is_reply_visible :: "content_visibility \<Rightarrow> bool" where
  "is_reply_visible v = (case v of ReplyAndTranscript \<Rightarrow> True | TranscriptOnly \<Rightarrow> False)"

datatype text_stream = Stdout | Stderr

datatype worker_content =
    ContentText (content_text: string) (content_stream: text_stream)
      (content_orig: content_origin) (content_vis: content_visibility)
  | ContentImage (image_data: string) (image_mime_type: string) (image_id: string)
      (image_is_new: bool)

record worker_reply =
  reply_contents :: "worker_content list"
  reply_is_error :: bool
  reply_error_code :: "worker_error_code option"
  reply_prompt :: "string option"
  reply_prompt_variants :: "string list option"

definition worker_stdout :: "string \<Rightarrow> worker_content" where
  "worker_stdout t = ContentText t Stdout Worker ReplyAndTranscript"

definition worker_stdout_transcript_only :: "string \<Rightarrow> worker_content" where
  "worker_stdout_transcript_only t = ContentText t Stdout Worker TranscriptOnly"

definition worker_stderr :: "string \<Rightarrow> worker_content" where
  "worker_stderr t = ContentText t Stderr Worker ReplyAndTranscript"

definition server_stdout :: "string \<Rightarrow> worker_content" where
  "server_stdout t = ContentText t Stdout Server ReplyAndTranscript"

definition server_stderr :: "string \<Rightarrow> worker_content" where
  "server_stderr t = ContentText t Stderr Server ReplyAndTranscript"

lemmas content_defs =
  worker_stdout_def worker_stdout_transcript_only_def worker_stderr_def server_stdout_def
  server_stderr_def

definition is_image :: "worker_content \<Rightarrow> bool" where
  "is_image c = (case c of ContentImage _ _ _ _ \<Rightarrow> True | _ \<Rightarrow> False)"

lemma is_image_simps [simp]:
  "is_image (ContentImage d m i n)" "\<not> is_image (ContentText t s orig v)"
  by (simp_all add: is_image_def)

end
