(* ===== verification/Resolved_Output.thy ===== *)
theory Resolved_Output
  imports Worker_Protocol
begin

text \<open>
  \<^verbatim>\<open>src/src/resolved_output.rs\<close>: turning a range of captured output (bytes, the spans that say
  which stream and origin each byte has, and the events at byte offsets) into reply contents.

  The traits \<^verbatim>\<open>EventView\<close> and \<^verbatim>\<open>TextSpanView\<close> are the records \<open>output_event\<close> and \<open>span_view\<close>, which
  hold exactly what the traits' methods return. A \<^verbatim>\<open>&mut\<close> argument (the contents and the state
  of the last rendered text) is passed in and returned.
\<close>

section \<open>Model\<close>

datatype output_text_source = Raw | Ipc

record output_text_span =
  start_byte :: nat
  end_byte :: nat
  ospan_is_stderr :: bool
  ospan_origin :: content_origin
  ospan_source :: output_text_source

datatype output_event_kind =
    Image (ev_id: string) (ev_data: string) (ev_mime_type: string) (ev_is_new: bool)
  | TextEvent (ev_text: string) (ev_is_stderr: bool) (ev_origin: content_origin)
  | InputEcho (echo_text: string)
  | InputWait
  | RequestBoundary
  | SessionEnd

record output_event =
  event_offset :: nat
  event_kind :: output_event_kind

record output_range =
  or_start_offset :: nat
  or_end_offset :: nat
  or_bytes :: bytes
  or_events :: "output_event list"
  or_text_spans :: "output_text_span list"

datatype projection_mode = Reply | Transcript | PagerMode | Bundle

definition input_echo_visibility :: "projection_mode \<Rightarrow> content_visibility option" where
  "input_echo_visibility m =
     (case m of
        Reply \<Rightarrow> None
      | Transcript \<Rightarrow> Some ReplyAndTranscript
      | PagerMode \<Rightarrow> Some TranscriptOnly
      | Bundle \<Rightarrow> Some TranscriptOnly)"

record span_view =
  view_start :: nat
  view_end :: nat
  view_is_stderr :: bool
  view_origin :: content_origin

definition span_view_of :: "output_text_span \<Rightarrow> span_view" where
  "span_view_of s =
     \<lparr>view_start = start_byte s, view_end = end_byte s, view_is_stderr = ospan_is_stderr s,
      view_origin = ospan_origin s\<rparr>"

definition text_ends_with_newline :: "output_event_kind \<Rightarrow> bool option" where
  "text_ends_with_newline k =
     (case k of TextEvent t _ _ \<Rightarrow> Some (ends_with t nl) | _ \<Rightarrow> None)"

definition mergeable ::
  "worker_content list \<Rightarrow> bool \<Rightarrow> text_stream \<Rightarrow> content_origin \<Rightarrow> (content_visibility \<Rightarrow> bool) \<Rightarrow>
   bool" where
  "mergeable contents merge stream orig vis_ok \<longleftrightarrow>
     contents \<noteq> [] \<and> merge \<and>
     (case last contents of
        ContentText _ last_stream last_origin vis \<Rightarrow>
          last_stream = stream \<and> last_origin = orig \<and> vis_ok vis
      | ContentImage _ _ _ _ \<Rightarrow> False)"

definition push_str_last :: "worker_content list \<Rightarrow> string \<Rightarrow> worker_content list" where
  "push_str_last contents t =
     butlast contents @
     [case last contents of
        ContentText last_text s orig v \<Rightarrow> ContentText (last_text @ t) s orig v
      | c \<Rightarrow> c]"

definition push_text_with_merge ::
  "worker_content list \<Rightarrow> string \<Rightarrow> text_stream \<Rightarrow> content_origin \<Rightarrow> bool \<Rightarrow>
   worker_content list \<times> bool" where
  "push_text_with_merge contents t stream orig merge_with_previous =
     (if t = [] then (contents, False)
      else if mergeable contents merge_with_previous stream orig is_reply_visible
        then (push_str_last contents t, True)
      else (contents @ [ContentText t stream orig ReplyAndTranscript], True))"

record rendered_text_state =
  rts_stream :: text_stream
  rts_origin :: content_origin
  rts_terminated :: bool

definition continuation :: "text_stream \<Rightarrow> content_origin \<Rightarrow> rendered_text_state" where
  "continuation stream orig =
     \<lparr>rts_stream = stream, rts_origin = orig, rts_terminated = False\<rparr>"

definition render_stderr_text ::
  "rendered_text_state option \<Rightarrow> content_origin \<Rightarrow> string \<Rightarrow> string" where
  "render_stderr_text previous_text orig rendered =
     (if pred_option (\<lambda>st. rts_stream st = Stderr \<and> rts_origin st = orig \<and> \<not> rts_terminated st)
           previous_text \<and> previous_text \<noteq> None
      then rendered
      else if previous_text \<noteq> None \<and> pred_option (\<lambda>st. \<not> rts_terminated st) previous_text
        then nl @ ''stderr: '' @ rendered
      else ''stderr: '' @ rendered)"

definition rendered_state ::
  "text_stream \<Rightarrow> content_origin \<Rightarrow> string \<Rightarrow> rendered_text_state" where
  "rendered_state stream orig t =
     \<lparr>rts_stream = stream, rts_origin = orig, rts_terminated = ends_with t nl\<rparr>"

text \<open>
  \<^verbatim>\<open>render_bytes\<close>: valid UTF-8 is kept, every byte of an invalid sequence becomes \<^verbatim>\<open>\xNN\<close>.
\<close>

lemma from_utf8_Err_bounds:
  "from_utf8 bs = Utf8Err k e \<Longrightarrow>
   k \<le> length bs \<and> (\<forall>n. e = Some n \<longrightarrow> 1 \<le> n \<and> n \<le> 3 \<and> k + n \<le> length bs)"
proof (induction bs arbitrary: k rule: from_utf8.induct)
  case (1 bs)
  show ?case
  proof (cases "utf8_first bs")
    case (Utf8Char n)
    with "1.prems" obtain k' where "from_utf8 (drop n bs) = Utf8Err k' e" and "k = n + k'"
      by (auto simp: from_utf8.simps [of bs] split: if_splits utf8_result.splits)
    moreover have "bs \<noteq> []" using Utf8Char by auto
    ultimately show ?thesis
      using "1.IH" [OF _ Utf8Char, of k'] utf8_first_Char_bounds [OF Utf8Char] by fastforce
  next
    case (Utf8Bad n)
    with "1.prems" utf8_first_Bad_bounds [OF Utf8Bad] show ?thesis
      by (auto simp: from_utf8.simps [of bs] split: if_splits)
  next
    case Utf8Short
    with "1.prems" show ?thesis by (auto simp: from_utf8.simps [of bs] split: if_splits)
  qed
qed

function render_remaining :: "bytes \<Rightarrow> string" where
  "render_remaining remaining =
     (if remaining = [] then []
      else case from_utf8 remaining of
        Utf8Ok \<Rightarrow> remaining
      | Utf8Err valid_up_to_k err_len \<Rightarrow>
          (let invalid_end = (case err_len of
                 Some len \<Rightarrow> valid_up_to_k + len
               | None \<Rightarrow> length remaining)
           in take valid_up_to_k remaining @
              concat (map hex_escape (slice remaining valid_up_to_k invalid_end)) @
              render_remaining (drop invalid_end remaining)))"
  by pat_completeness auto
termination
  by (relation "measure length")
    (auto dest!: from_utf8_Err_bounds split: option.splits)

declare render_remaining.simps [simp del]

definition render_bytes :: "bytes \<Rightarrow> nat \<Rightarrow> nat \<Rightarrow> string" where
  "render_bytes bs start end = render_remaining (slice bs start end)"

type_synonym render_state = "worker_content list \<times> rendered_text_state option"

definition push_default_stdout ::
  "bytes \<Rightarrow> nat \<Rightarrow> nat \<Rightarrow> bool \<Rightarrow> render_state \<Rightarrow> render_state \<times> bool" where
  "push_default_stdout bs start end merge_with_previous st =
     (let (contents, last_rendered) = st
      in if start \<ge> end \<or> end > length bs then (st, False)
         else
           (let t = render_bytes bs start end;
                (contents', pushed) =
                  push_text_with_merge contents t Stdout Worker merge_with_previous
            in ((contents', if pushed then Some (rendered_state Stdout Worker t)
                            else last_rendered), pushed)))"

definition push_span_text ::
  "bytes \<Rightarrow> nat \<Rightarrow> nat \<Rightarrow> span_view \<Rightarrow> bool \<Rightarrow> render_state \<Rightarrow> render_state \<times> bool" where
  "push_span_text bs start end span merge_with_previous st =
     (let (contents, last_rendered) = st
      in if start \<ge> end \<or> end > length bs then (st, False)
         else
           (let rendered = render_bytes bs start end;
                stream = (if view_is_stderr span then Stderr else Stdout);
                t = (if view_is_stderr span
                     then render_stderr_text last_rendered (view_origin span) rendered
                     else rendered);
                (contents', pushed) =
                  push_text_with_merge contents t stream (view_origin span) merge_with_previous
            in ((contents', if pushed then Some (rendered_state stream (view_origin span) t)
                            else last_rendered), pushed)))"

definition push_generated_echo ::
  "worker_content list \<Rightarrow> string \<Rightarrow> projection_mode \<Rightarrow> bool \<Rightarrow>
   worker_content list \<times> bool \<times> rendered_text_state option" where
  "push_generated_echo contents t projection_mode merge_with_previous_echo =
     (if t = [] then (contents, False, None)
      else case input_echo_visibility projection_mode of
        None \<Rightarrow> (contents, False, None)
      | Some vis \<Rightarrow>
          (let rendered_text = (if is_reply_visible vis
                 then Some (rendered_state Stdout Worker t) else None)
           in if mergeable contents merge_with_previous_echo Stdout Worker (\<lambda>v. v = vis)
              then (push_str_last contents t, True, rendered_text)
              else (contents @ [ContentText t Stdout Worker vis], True, rendered_text)))"

text \<open>
  \<^verbatim>\<open>TextRangeEmitter::emit\<close>: the loop over the spans (\<^verbatim>\<open>continue\<close> skips a span that ends before the
  range, \<^verbatim>\<open>break\<close> stops at one that starts behind it) and the text after the last span.
\<close>

record emit_state =
  em_state :: render_state
  em_emitted :: bool
  em_can_merge :: bool
  em_cursor :: nat

definition note_push :: "render_state \<times> bool \<Rightarrow> emit_state \<Rightarrow> emit_state" where
  "note_push r es =
     (if snd r then es\<lparr>em_state := fst r, em_emitted := True, em_can_merge := True\<rparr>
      else es\<lparr>em_state := fst r\<rparr>)"

fun emit_spans ::
  "bytes \<Rightarrow> nat \<Rightarrow> nat \<Rightarrow> nat \<Rightarrow> span_view list \<Rightarrow> emit_state \<Rightarrow> emit_state" where
  "emit_spans bs base start end [] es = es"
| "emit_spans bs base start end (span # spans) es =
     (if view_end span \<le> start then emit_spans bs base start end spans es
      else if view_start span \<ge> end then es
      else
        (let span_start = max (view_start span) start;
             es1 = (if em_cursor es < span_start
                    then note_push (push_default_stdout bs (em_cursor es - base) (span_start - base)
                           (em_can_merge es) (em_state es)) es
                    else es);
             span_end = min (view_end span) end;
             es2 = note_push (push_span_text bs (span_start - base) (span_end - base) span
                     (em_can_merge es1) (em_state es1)) es1
         in emit_spans bs base start end spans (es2\<lparr>em_cursor := span_end\<rparr>)))"

definition emit ::
  "bytes \<Rightarrow> nat \<Rightarrow> span_view list \<Rightarrow> nat \<Rightarrow> nat \<Rightarrow> bool \<Rightarrow> render_state \<Rightarrow>
   render_state \<times> bool" where
  "emit bs base spans start_offset end_offset merge_with_previous st =
     (let end_offset = min end_offset (sat_add base (length bs));
          start_offset = min start_offset end_offset
      in if start_offset \<ge> end_offset then (st, False)
         else
           (let es = emit_spans bs base start_offset end_offset spans
                  \<lparr>em_state = st, em_emitted = False, em_can_merge = merge_with_previous,
                   em_cursor = start_offset\<rparr>;
                es' = (if em_cursor es < end_offset
                   then note_push (push_default_stdout bs (em_cursor es - base) (end_offset - base)
                          (em_can_merge es) (em_state es)) es
                   else es)
            in (em_state es', em_emitted es')))"

definition output_event_to_content :: "output_event_kind \<Rightarrow> worker_content option" where
  "output_event_to_content k =
     (case k of
        Image i data mime_type is_new \<Rightarrow> Some (ContentImage data mime_type i is_new)
      | TextEvent t is_stderr orig \<Rightarrow>
          Some (if is_stderr
                then (case orig of Worker \<Rightarrow> worker_stderr t | Server \<Rightarrow> server_stderr t)
                else (case orig of Worker \<Rightarrow> worker_stdout t | Server \<Rightarrow> server_stdout t))
      | _ \<Rightarrow> None)"

text \<open>
  The body of the loop over the events: the state is the contents with the last rendered text,
  the cursor, and whether the last content was an input echo. \<^verbatim>\<open>output_event_to_content\<close> is
  \<^verbatim>\<open>unreachable!\<close> on the kinds for which the model returns \<^const>\<open>None\<close>; it is called on the others.
\<close>

record loop_state =
  ls_render :: render_state
  ls_cursor :: nat
  ls_echo :: bool

definition render_event ::
  "projection_mode \<Rightarrow> output_event_kind \<Rightarrow> loop_state \<Rightarrow> loop_state" where
  "render_event mode kind ls =
     (let (contents, last_rendered) = ls_render ls
      in case kind of
           InputEcho t \<Rightarrow>
             (let (contents', pushed, rendered) =
                    push_generated_echo contents t mode (ls_echo ls);
                  last' = (case rendered of
                      Some r \<Rightarrow> Some r
                    | None \<Rightarrow>
                        (if pushed \<and> last_rendered \<noteq> None \<and>
                            pred_option (\<lambda>s. rts_stream s = Stderr \<and> \<not> rts_terminated s)
                              last_rendered
                         then None else last_rendered))
              in ls\<lparr>ls_render := (contents', last'), ls_echo := (pushed \<or> ls_echo ls)\<rparr>)
         | InputWait \<Rightarrow> ls\<lparr>ls_echo := False\<rparr>
         | RequestBoundary \<Rightarrow> ls\<lparr>ls_render := (contents, None), ls_echo := False\<rparr>
         | SessionEnd \<Rightarrow> ls\<lparr>ls_render := (contents, None), ls_echo := False\<rparr>
         | _ \<Rightarrow>
             (case output_event_to_content kind of
                Some c \<Rightarrow> ls\<lparr>ls_render := (contents @ [c], None), ls_echo := False\<rparr>
              | None \<Rightarrow> ls))"

fun render_events ::
  "bytes \<Rightarrow> nat \<Rightarrow> span_view list \<Rightarrow> projection_mode \<Rightarrow> output_event list \<Rightarrow> loop_state \<Rightarrow>
   loop_state" where
  "render_events bs base spans mode [] ls = ls"
| "render_events bs base spans mode (ev # evs) ls =
     (if event_offset ev > sat_add base (length bs) then ls
      else
        (let ls1 = (if event_offset ev > ls_cursor ls
               then (let (rs, emitted) = emit bs base spans (ls_cursor ls) (event_offset ev)
                           (\<not> ls_echo ls) (ls_render ls)
                     in ls\<lparr>ls_render := rs, ls_echo := (\<not> emitted \<and> ls_echo ls)\<rparr>)
               else ls);
             ls2 = render_event mode (event_kind ev) ls1
         in render_events bs base spans mode evs (ls2\<lparr>ls_cursor := event_offset ev\<rparr>)))"

definition render_with_state ::
  "bytes \<Rightarrow> nat \<Rightarrow> nat \<Rightarrow> span_view list \<Rightarrow> output_event list \<Rightarrow> projection_mode \<Rightarrow>
   rendered_text_state option \<Rightarrow> render_state" where
  "render_with_state bs base_offset end_offset spans events mode previous =
     (let ls = render_events bs base_offset spans mode
                 (filter (\<lambda>e. base_offset \<le> event_offset e \<and> event_offset e \<le> end_offset) events)
                 \<lparr>ls_render = ([], previous), ls_cursor = base_offset, ls_echo = False\<rparr>
      in if ls_cursor ls < end_offset
         then fst (emit bs base_offset spans (ls_cursor ls) end_offset (\<not> ls_echo ls) (ls_render ls))
         else ls_render ls)"

definition contents_from_output_range_with_state ::
  "output_range \<Rightarrow> projection_mode \<Rightarrow> rendered_text_state option \<Rightarrow> render_state" where
  "contents_from_output_range_with_state r mode previous =
     (if or_bytes r = [] \<and> or_events r = [] then ([], previous)
      else
        (let base = or_start_offset r;
             events = map (\<lambda>e. e\<lparr>event_offset := event_offset e - base\<rparr>)
               (filter (\<lambda>e. base \<le> event_offset e \<and> event_offset e \<le> or_end_offset r) (or_events r))
         in render_with_state (or_bytes r) 0 (length (or_bytes r))
              (map span_view_of (or_text_spans r)) events mode previous))"

section \<open>Rendered text is UTF-8\<close>

lemma render_remaining_valid: "valid_utf8 (render_remaining bs)"
proof (induction bs rule: render_remaining.induct)
  case (1 bs)
  show ?case
  proof (cases "from_utf8 bs")
    case Utf8Ok
    then show ?thesis by (cases "bs = []") (simp_all add: render_remaining.simps [of bs] render_remaining.simps [of "[]"] valid_utf8_def)
  next
    case (Utf8Err k e)
    with 1 show ?thesis
      by (simp add: render_remaining.simps [of bs] Let_def valid_utf8_append valid_utf8_prefix
          valid_utf8_escapes)
  qed
qed

lemma render_remaining_id: "valid_utf8 bs \<Longrightarrow> render_remaining bs = bs"
  by (simp add: render_remaining.simps [of bs] valid_utf8_def)

lemma render_remaining_ne:
  assumes "bs \<noteq> []"
  shows "render_remaining bs \<noteq> []"
proof (cases "from_utf8 bs")
  case Utf8Ok
  with assms show ?thesis by (simp add: render_remaining.simps)
next
  case (Utf8Err k e)
  note b = from_utf8_Err_bounds [OF Utf8Err]
  show ?thesis
  proof (cases "k = 0")
    case False
    with assms Utf8Err show ?thesis by (simp add: render_remaining.simps [of bs] Let_def)
  next
    case True
    let ?stop = "case e of Some len \<Rightarrow> k + len | None \<Rightarrow> length bs"
    have "slice bs k ?stop \<noteq> []"
      using assms b True by (auto simp: slice_def split: option.splits)
    then have "concat (map hex_escape (slice bs k ?stop)) \<noteq> []"
      using hex_escape_ne by (cases "slice bs k ?stop") auto
    with assms Utf8Err show ?thesis by (simp add: render_remaining.simps [of bs] Let_def)
  qed
qed

text \<open>
  Rendering captured bytes always gives a valid Rust string, gives the bytes themselves where
  they are valid UTF-8, and never makes captured output disappear.
\<close>

theorem render_bytes_utf8:
  "valid_utf8 (render_bytes bs start end) \<and>
   (valid_utf8 (slice bs start end) \<longrightarrow> render_bytes bs start end = slice bs start end) \<and>
   (render_bytes bs start end = [] \<longleftrightarrow> slice bs start end = [])"
  using render_remaining_valid render_remaining_id render_remaining_ne [of "slice bs start end"]
  by (auto simp: render_bytes_def render_remaining.simps [of "[]"])

theorem render_bytes_utf8_witness:
  "render_bytes ''grepl'' 1 4 = ''rep''"
proof -
  have "valid_utf8 (slice ''grepl'' 1 4)" by code_simp
  moreover have "slice ''grepl'' 1 4 = ''rep''" by (simp add: slice_def)
  ultimately show ?thesis using render_bytes_utf8 [of "''grepl''" 1 4] by simp
qed

section \<open>What the renderer keeps of its input\<close>

text \<open>
  A property of contents that every text push keeps: \<open>P\<close> holds of a list whenever text is appended
  to it or merged into its last text.
\<close>

definition images_of :: "worker_content list \<Rightarrow> worker_content list" where
  "images_of cs = filter is_image cs"

definition all_visible :: "worker_content list \<Rightarrow> bool" where
  "all_visible cs \<longleftrightarrow>
     list_all (\<lambda>c. case c of ContentText _ _ _ v \<Rightarrow> v = ReplyAndTranscript | _ \<Rightarrow> True) cs"

lemma all_visible_Nil [simp]: "all_visible []"
  by (simp add: all_visible_def)

lemma mergeable_last:
  assumes "mergeable cs m st orig ok"
  obtains ds t v where "cs = ds @ [ContentText t st orig v]" "ok v"
proof -
  from assms have "cs \<noteq> []" by (simp add: mergeable_def)
  then obtain ds c where "cs = ds @ [c]" by (meson rev_exhaust)
  with assms that show ?thesis by (cases c) (auto simp: mergeable_def)
qed

lemma push_str_last_images: "mergeable cs m st orig ok \<Longrightarrow> images_of (push_str_last cs t) = images_of cs"
  by (auto elim!: mergeable_last simp: push_str_last_def images_of_def)

lemma push_str_last_visible:
  "mergeable cs m st orig ok \<Longrightarrow> all_visible (push_str_last cs t) = all_visible cs"
  by (auto elim!: mergeable_last simp: push_str_last_def all_visible_def)

lemma push_text_images: "images_of (fst (push_text_with_merge cs t st orig m)) = images_of cs"
  by (simp add: push_text_with_merge_def push_str_last_images) (simp add: images_of_def)

lemma push_text_visible: "all_visible cs \<Longrightarrow> all_visible (fst (push_text_with_merge cs t st orig m))"
  by (simp add: push_text_with_merge_def push_str_last_visible) (simp add: all_visible_def)

text \<open>A predicate on contents that both text pushes keep is kept by the whole emitter.\<close>

lemma emit_keeps:
  assumes push: "\<And>cs t st orig m. P cs \<Longrightarrow> P (fst (push_text_with_merge cs t st orig m))"
    and "P (fst rs)"
  shows "P (fst (fst (emit bs base spans a b m rs)))"
proof -
  have out: "P (fst (fst (push_default_stdout bs i j m rs)))" if "P (fst rs)" for bs i j m rs
    using that push by (auto simp: push_default_stdout_def case_prod_beta Let_def)
  have span: "P (fst (fst (push_span_text bs i j sp m rs)))" if "P (fst rs)" for bs i j sp m rs
    using that push by (auto simp: push_span_text_def case_prod_beta Let_def)
  have note': "P (fst (em_state (note_push r es)))" if "P (fst (fst r))" for r es
    using that by (simp add: note_push_def)
  have spans': "P (fst (em_state (emit_spans bs base a b sps es)))"
    if "P (fst (em_state es))" for bs base a b sps es
    using that
    by (induction bs base a b sps es rule: emit_spans.induct)
      (simp_all add: Let_def note' out span)
  show ?thesis
    using assms(2) by (simp add: emit_def Let_def note' out spans')
qed

lemma render_event_images:
  "images_of (fst (ls_render (render_event mode kind ls))) =
   images_of (fst (ls_render ls)) @ images_of (case output_event_to_content kind of Some c \<Rightarrow> [c] | None \<Rightarrow> [])"
proof (cases kind)
  case (InputEcho t)
  then show ?thesis
    by (simp add: render_event_def Let_def case_prod_beta push_generated_echo_def
        output_event_to_content_def push_str_last_images split: option.splits)
       (simp add: images_of_def)
qed (auto simp: render_event_def Let_def case_prod_beta output_event_to_content_def images_of_def)

lemma emit_images: "images_of (fst (fst (emit bs base spans a b m rs))) = images_of (fst rs)"
  using emit_keeps [of "\<lambda>cs. images_of cs = images_of (fst rs)" rs bs base spans a b m]
  by (simp add: push_text_images)

lemma render_events_images:
  assumes "list_all (\<lambda>e. event_offset e \<le> sat_add base (length bs)) evs"
  shows "images_of (fst (ls_render (render_events bs base spans mode evs ls))) =
    images_of (fst (ls_render ls)) @
    images_of (concat (map (\<lambda>e. case output_event_to_content (event_kind e) of Some c \<Rightarrow> [c] | None \<Rightarrow> []) evs))"
  using assms
proof (induction evs arbitrary: ls)
  case Nil
  then show ?case by (simp add: images_of_def)
next
  case (Cons ev evs)
  then show ?case
    by (simp add: Let_def case_prod_beta render_event_images emit_images)
      (simp add: images_of_def)
qed

text \<open>
  Rendering loses, duplicates and reorders no image: the images among the rendered contents are
  the images of the events in the range, in their order, whatever the text, the spans and the mode.
\<close>

theorem render_keeps_images:
  assumes "list_all (\<lambda>e. base \<le> event_offset e \<and> event_offset e \<le> end_offset) events"
    and "end_offset \<le> sat_add base (length bs)"
  shows "images_of (fst (render_with_state bs base end_offset spans events mode previous)) =
    map (\<lambda>e. the (output_event_to_content (event_kind e)))
      (filter (\<lambda>e. case event_kind e of Image _ _ _ _ \<Rightarrow> True | _ \<Rightarrow> False) events)"
proof -
  have "images_of (concat (map (\<lambda>e. case output_event_to_content (event_kind e) of Some c \<Rightarrow> [c] | None \<Rightarrow> []) events)) =
      map (\<lambda>e. the (output_event_to_content (event_kind e)))
        (filter (\<lambda>e. case event_kind e of Image _ _ _ _ \<Rightarrow> True | _ \<Rightarrow> False) events)"
    by (induction events)
      (auto simp: images_of_def output_event_to_content_def content_defs
        split: output_event_kind.splits content_origin.splits)
  moreover have "filter (\<lambda>e. base \<le> event_offset e \<and> event_offset e \<le> end_offset) events = events"
    using assms(1) by (auto simp: list_all_iff intro: filter_True)
  moreover have "list_all (\<lambda>e. event_offset e \<le> sat_add base (length bs)) events"
    using assms by (auto simp: list_all_iff)
  ultimately show ?thesis
    by (simp add: render_with_state_def Let_def emit_images render_events_images)
      (simp add: images_of_def)
qed

definition example_range :: output_range where
  "example_range =
     \<lparr>or_start_offset = 0, or_end_offset = 4, or_bytes = ''plot'',
      or_events = [\<lparr>event_offset = 4, event_kind = Image ''a'' ''data'' ''image/png'' True\<rparr>],
      or_text_spans = []\<rparr>"

theorem render_keeps_images_witness:
  "images_of (fst (render_with_state ''plot'' 0 4 [] (or_events example_range) PagerMode None)) =
   [ContentImage ''data'' ''image/png'' ''a'' True]"
  using render_keeps_images [of 0 4 "or_events example_range" "''plot''" "[]" PagerMode None]
  by (simp add: example_range_def sat_add_def u64_max_def output_event_to_content_def)

lemma render_event_visible:
  "all_visible (fst (ls_render ls)) \<Longrightarrow> all_visible (fst (ls_render (render_event Reply kind ls)))"
  by (cases kind)
    (auto simp: render_event_def Let_def case_prod_beta push_generated_echo_def input_echo_visibility_def
      output_event_to_content_def all_visible_def content_defs split: content_origin.splits)

lemma emit_visible: "all_visible (fst rs) \<Longrightarrow> all_visible (fst (fst (emit bs base spans a b m rs)))"
  by (rule emit_keeps) (simp_all add: push_text_visible)

lemma render_events_visible:
  "all_visible (fst (ls_render ls)) \<Longrightarrow>
   all_visible (fst (ls_render (render_events bs base spans Reply evs ls)))"
  by (induction evs arbitrary: ls)
    (simp_all add: Let_def case_prod_beta render_event_visible emit_visible)

text \<open>
  A reply never contains transcript-only contents: in the mode for replies every rendered text is
  visible, input echoes are left out.
\<close>

theorem reply_contents_visible:
  "all_visible (fst (contents_from_output_range_with_state r Reply previous))"
proof -
  have "all_visible (fst (render_with_state bs base e spans events Reply prev))" for bs base e spans events prev
    by (simp add: render_with_state_def Let_def emit_visible render_events_visible)
  then show ?thesis
    by (simp add: contents_from_output_range_with_state_def Let_def)
qed

end
