(* ===== verification/Ranges.thy ===== *)
theory Ranges
  imports Rust_Prelude
begin

text \<open>
  \<^verbatim>\<open>src/src/pager/ranges.rs\<close>: the set of character offsets already shown by the pager, kept as
  sorted disjoint half-open ranges (\<^verbatim>\<open>RangeSet\<close>), and the record of the ranges one command
  showed (\<^verbatim>\<open>RangeSpan\<close>). The contract of a set of offsets is the locale \<open>interval_store\<close>; the
  code's \<^verbatim>\<open>RangeSet\<close> is its interpretation \<open>seen\<close>, which the paging proofs use.
\<close>

section \<open>Model\<close>

type_synonym range = "nat \<times> nat"

record range_set =
  ranges :: "range list"

definition range_set_default :: range_set where
  "range_set_default = \<lparr>ranges = []\<rparr>"

definition range_containing :: "range_set \<Rightarrow> nat \<Rightarrow> range option" where
  "range_containing rs offset =
     (let idx = partition_point (\<lambda>(start, _). start \<le> offset) (ranges rs)
      in if idx = 0 then None
         else let (start, end) = ranges rs ! (idx - 1)
              in if offset < end then Some (start, end) else None)"

definition covers :: "range_set \<Rightarrow> nat \<Rightarrow> nat \<Rightarrow> bool" where
  "covers rs start end =
     (if start \<ge> end then True
      else case range_containing rs start of
        None \<Rightarrow> False
      | Some (_, range_end) \<Rightarrow> range_end \<ge> end)"

definition next_range_start_after :: "range_set \<Rightarrow> nat \<Rightarrow> nat option" where
  "next_range_start_after rs offset =
     map_option fst
       (list_get (ranges rs) (partition_point (\<lambda>(start, _). start < offset) (ranges rs)))"

text \<open>
  The loop of \<^verbatim>\<open>RangeSet::insert\<close>: the ranges before \<^verbatim>\<open>idx\<close> are kept, a range that touches the
  new one is removed and merged into it, and the loop stops at the first range beyond it.
\<close>

fun insert_loop :: "nat \<Rightarrow> nat \<Rightarrow> range list \<Rightarrow> range list" where
  "insert_loop start end [] = [(start, end)]"
| "insert_loop start end ((range_start, range_end) # rest) =
     (if end < range_start then (start, end) # (range_start, range_end) # rest
      else if start > range_end then (range_start, range_end) # insert_loop start end rest
      else insert_loop (min start range_start) (max end range_end) rest)"

definition range_insert :: "nat \<Rightarrow> nat \<Rightarrow> range_set \<Rightarrow> range_set" where
  "range_insert start end rs =
     (if start \<ge> end then rs else rs\<lparr>ranges := insert_loop start end (ranges rs)\<rparr>)"

record range_span =
  span_first :: "range option"
  span_last :: "range option"
  span_ranges :: "range list"

definition range_span_default :: range_span where
  "range_span_default = \<lparr>span_first = None, span_last = None, span_ranges = []\<rparr>"

definition span_record :: "range option \<Rightarrow> range_span \<Rightarrow> range_span" where
  "span_record r sp =
     (case r of
        None \<Rightarrow> sp
      | Some rg \<Rightarrow>
          (let sp1 = (if span_first sp = None then sp\<lparr>span_first := Some rg\<rparr> else sp);
               sp2 = sp1\<lparr>span_last := Some rg\<rparr>
           in if span_ranges sp2 \<noteq> [] \<and> fst rg \<le> snd (last (span_ranges sp2))
              then sp2\<lparr>span_ranges := butlast (span_ranges sp2) @
                     [(fst (last (span_ranges sp2)),
                       max (snd (last (span_ranges sp2))) (snd rg))]\<rparr>
              else sp2\<lparr>span_ranges := span_ranges sp2 @ [rg]\<rparr>))"

definition span_extend :: "range_span \<Rightarrow> range_span \<Rightarrow> range_span" where
  "span_extend other sp = foldl (\<lambda>acc r. span_record (Some r) acc) sp (span_ranges other)"

section \<open>The contract of a set of shown offsets\<close>

locale interval_store =
  fixes pts :: "'s \<Rightarrow> nat set"
    and inv :: "'s \<Rightarrow> bool"
    and emp :: "'s"
    and ins :: "nat \<Rightarrow> nat \<Rightarrow> 's \<Rightarrow> 's"
    and cov :: "'s \<Rightarrow> nat \<Rightarrow> nat \<Rightarrow> bool"
    and containing :: "'s \<Rightarrow> nat \<Rightarrow> range option"
    and next_start :: "'s \<Rightarrow> nat \<Rightarrow> nat option"
  assumes inv_emp: "inv emp"
    and pts_emp: "pts emp = {}"
    and inv_ins: "inv s \<Longrightarrow> inv (ins a b s)"
    and pts_ins: "inv s \<Longrightarrow> pts (ins a b s) = pts s \<union> {a..<b}"
    and cov_iff: "inv s \<Longrightarrow> cov s a b \<longleftrightarrow> {a..<b} \<subseteq> pts s"
    and containing_Some:
      "inv s \<Longrightarrow> containing s x = Some (a, b) \<Longrightarrow>
       a \<le> x \<and> x < b \<and> {a..<b} \<subseteq> pts s \<and> b \<notin> pts s"
    and containing_None: "inv s \<Longrightarrow> containing s x = None \<Longrightarrow> x \<notin> pts s"
    and next_start_Some:
      "inv s \<Longrightarrow> x \<notin> pts s \<Longrightarrow> next_start s x = Some n \<Longrightarrow>
       x < n \<and> n \<in> pts s \<and> {x..<n} \<inter> pts s = {}"
    and next_start_None:
      "inv s \<Longrightarrow> x \<notin> pts s \<Longrightarrow> next_start s x = None \<Longrightarrow> {x..} \<inter> pts s = {}"
begin

lemma ins_cov: "inv s \<Longrightarrow> cov (ins a b s) a b"
  by (simp add: cov_iff inv_ins pts_ins)

lemma ins_cov_mono: "inv s \<Longrightarrow> cov s c d \<Longrightarrow> cov (ins a b s) c d"
  by (auto simp: cov_iff inv_ins pts_ins)

lemma cov_ins_iff: "inv s \<Longrightarrow> cov (ins a b s) c d \<longleftrightarrow> {c..<d} - {a..<b} \<subseteq> pts s"
  by (auto simp: cov_iff inv_ins pts_ins)

lemma containing_iff: "inv s \<Longrightarrow> containing s x = None \<longleftrightarrow> x \<notin> pts s"
  using containing_None containing_Some by (metis atLeastLessThan_iff option.exhaust prod.exhaust subsetD)

lemma containing_skip:
  assumes "inv s" and "containing s x = Some (a, b)"
  shows "x < b \<and> {x..<b} \<subseteq> pts s \<and> b \<notin> pts s"
  using containing_Some [OF assms] by auto

text \<open>
  The two queries look forward only: sets that agree from an offset on answer alike there.
\<close>

lemma containing_agree:
  assumes inv: "inv s" "inv t" and eq: "\<And>y. y \<ge> x \<Longrightarrow> y \<in> pts s \<longleftrightarrow> y \<in> pts t"
  shows "map_option snd (containing s x) = map_option snd (containing t x)"
proof (cases "containing s x")
  case None
  then have "containing t x = None" using inv eq by (simp add: containing_iff)
  with None show ?thesis by simp
next
  case (Some r)
  obtain a b where r: "r = (a, b)" by fastforce
  have "containing t x \<noteq> None" using Some inv eq by (metis containing_iff option.distinct(1) order_refl)
  then obtain c d where t: "containing t x = Some (c, d)" by (auto simp: prod_eq_iff)
  note s' = containing_skip [OF inv(1) Some [unfolded r]] and t' = containing_skip [OF inv(2) t]
  have "\<not> b < d" using s' t' eq [of b] by (metis atLeastLessThan_iff less_imp_le subsetD)
  moreover have "\<not> d < b" using s' t' eq [of d] by (metis atLeastLessThan_iff less_imp_le subsetD)
  ultimately show ?thesis using Some r t by simp
qed

lemma next_start_agree:
  assumes inv: "inv s" "inv t" and eq: "\<And>y. y \<ge> x \<Longrightarrow> y \<in> pts s \<longleftrightarrow> y \<in> pts t"
    and x: "x \<notin> pts s"
  shows "next_start s x = next_start t x"
proof -
  have x': "x \<notin> pts t" using eq x by blast
  note s = next_start_Some [OF inv(1) x] next_start_None [OF inv(1) x]
    and t = next_start_Some [OF inv(2) x'] next_start_None [OF inv(2) x']
  show ?thesis
  proof (cases "next_start s x")
    case None
    with s(2) have "pts s \<inter> {x..} = {}" by auto
    with eq have "pts t \<inter> {x..} = {}" by auto
    with t(1) None show ?thesis
      by (cases "next_start t x") (force dest: less_imp_le)+
  next
    case (Some n)
    with s(1) have n: "x < n" "n \<in> pts s" "{x..<n} \<inter> pts s = {}" by auto
    then have "n \<in> pts t" using eq by auto
    then obtain m where m: "next_start t x = Some m" using t(2) n by (cases "next_start t x") (auto simp: disjoint_iff)
    with t(1) have m': "x < m" "m \<in> pts t" "{x..<m} \<inter> pts t = {}" by auto
    then have "m \<in> pts s" using eq by auto
    then have "\<not> m < n" using n m' by (auto simp: disjoint_iff)
    moreover have "\<not> n < m" using n m' \<open>n \<in> pts t\<close> by (auto simp: disjoint_iff)
    ultimately show ?thesis using Some m by simp
  qed
qed

text \<open>
  The scan every paging loop makes: at an offset that is not shown and below the end, the
  distance to the next shown range (cut at the end) is positive and holds no shown offset.
\<close>

lemma unseen_gap:
  assumes "inv s" and "containing s x = None" and "x < e"
  defines "n \<equiv> min (unwrap_or (next_start s x) e) e"
  shows "x < n \<and> n \<le> e \<and> {x..<n} \<inter> pts s = {}"
proof (cases "next_start s x")
  case None
  with next_start_None [OF assms(1) containing_None [OF assms(1,2)]] assms(3) show ?thesis
    by (auto simp: n_def unwrap_or_def)
next
  case (Some k)
  with next_start_Some [OF assms(1) containing_None [OF assms(1,2)]] assms(3)
  show ?thesis by (auto simp: n_def unwrap_or_def)
qed

end

section \<open>The code's set satisfies it\<close>

text \<open>The invariant: every range is non-empty and ends strictly before the next one starts.\<close>

fun wf_ranges :: "range list \<Rightarrow> bool" where
  "wf_ranges [] = True"
| "wf_ranges ((a, b) # rs) = (a < b \<and> (\<forall>(c, d) \<in> set rs. b < c) \<and> wf_ranges rs)"

definition wf_range_set :: "range_set \<Rightarrow> bool" where
  "wf_range_set rs \<longleftrightarrow> wf_ranges (ranges rs)"

definition list_points :: "range list \<Rightarrow> nat set" where
  "list_points rs = (\<Union>(a, b) \<in> set rs. {a..<b})"

definition points :: "range_set \<Rightarrow> nat set" where
  "points rs = list_points (ranges rs)"

lemma range_set_eta [simp]: "\<lparr>ranges = ranges s\<rparr> = s"
  by simp

lemma list_points_simps [simp]:
  "list_points [] = {}"
  "list_points ((a, b) # rs) = {a..<b} \<union> list_points rs"
  "list_points (xs @ ys) = list_points xs \<union> list_points ys"
  by (auto simp: list_points_def)

lemma list_points_le: "wf_ranges ((a, b) # rs) \<Longrightarrow> x \<in> list_points rs \<Longrightarrow> b < x"
  by (fastforce simp: list_points_def)

lemma wf_ranges_Cons_bound:
  "(\<forall>(c, d) \<in> set rs. m < c) \<Longrightarrow> wf_ranges rs \<Longrightarrow> x \<in> list_points rs \<Longrightarrow> m < x"
  by (fastforce simp: list_points_def)

lemma set_insert_loop_lower:
  "\<forall>(c, d) \<in> set rs. m < c \<Longrightarrow> m < s \<Longrightarrow> (c, d) \<in> set (insert_loop s e rs) \<Longrightarrow> m < c"
  by (induction s e rs rule: insert_loop.induct) (auto split: if_splits)

lemma wf_insert_loop: "s < e \<Longrightarrow> wf_ranges rs \<Longrightarrow> wf_ranges (insert_loop s e rs)"
proof (induction s e rs rule: insert_loop.induct)
  case (1 s e)
  then show ?case by simp
next
  case (2 s e a b rs)
  consider "e < a" | "b < s" "\<not> e < a" | "\<not> e < a" "\<not> b < s" by linarith
  then show ?case
  proof cases
    case 1
    with 2 show ?thesis by fastforce
  next
    case 2
    with "2.IH" "2.prems" have "wf_ranges (insert_loop s e rs)" by simp
    moreover have "b < c" if "(c, d) \<in> set (insert_loop s e rs)" for c d
      using "2.prems" \<open>b < s\<close> that by (intro set_insert_loop_lower [of rs b s c d e]) simp_all
    ultimately show ?thesis using 2 "2.prems" by auto
  next
    case 3
    with "2.IH" "2.prems" show ?thesis by simp
  qed
qed

lemma points_insert_loop:
  "s < e \<Longrightarrow> wf_ranges rs \<Longrightarrow> list_points (insert_loop s e rs) = list_points rs \<union> {s..<e}"
proof (induction s e rs rule: insert_loop.induct)
  case (1 s e)
  then show ?case by simp
next
  case (2 s e a b rs)
  consider "e < a" | "b < s" "\<not> e < a" | "\<not> e < a" "\<not> b < s" by linarith
  then show ?case
  proof cases
    case 1
    then show ?thesis by auto
  next
    case 2
    with "2.IH" "2.prems" show ?thesis by auto
  next
    case 3
    with "2.prems" have "{min s a..<max e b} = {a..<b} \<union> {s..<e}" by auto
    with "2.IH" "2.prems" 3 show ?thesis by auto
  qed
qed

lemma range_containing_Cons:
  "wf_ranges ((a, b) # rs) \<Longrightarrow>
   range_containing \<lparr>ranges = (a, b) # rs\<rparr> x =
     (if x < a then None else if x < b then Some (a, b) else range_containing \<lparr>ranges = rs\<rparr> x)"
proof (cases rs)
  case (Cons r rs')
  moreover assume "wf_ranges ((a, b) # rs)"
  ultimately show ?thesis
    by (cases r) (auto simp: range_containing_def partition_point_def Let_def split: prod.splits)
qed (auto simp: range_containing_def partition_point_def)

lemma range_containing_list_Some:
  "wf_ranges rs \<Longrightarrow> range_containing \<lparr>ranges = rs\<rparr> x = Some (a, b) \<Longrightarrow>
   a \<le> x \<and> x < b \<and> (a, b) \<in> set rs"
proof (induction rs)
  case Nil
  then show ?case by (simp add: range_containing_def partition_point_def)
next
  case (Cons r rs)
  then show ?case
    by (cases r) (fastforce simp: range_containing_Cons split: if_splits)
qed

lemma range_containing_list_None:
  "wf_ranges rs \<Longrightarrow> range_containing \<lparr>ranges = rs\<rparr> x = None \<longleftrightarrow> x \<notin> list_points rs"
proof (induction rs)
  case Nil
  then show ?case by (simp add: range_containing_def partition_point_def)
next
  case (Cons r rs)
  obtain a b where r: "r = (a, b)" by fastforce
  have "x < a \<Longrightarrow> x \<notin> list_points rs"
    using Cons.prems list_points_le [of a b rs x] r by auto
  with Cons show ?case by (auto simp: r range_containing_Cons)
qed

lemma wf_ranges_mem: "wf_ranges rs \<Longrightarrow> (a, b) \<in> set rs \<Longrightarrow> a < b"
  by (induction rs) auto

lemma range_end_not_point: "wf_ranges rs \<Longrightarrow> (a, b) \<in> set rs \<Longrightarrow> b \<notin> list_points rs"
proof (induction rs)
  case (Cons r rs)
  obtain c d where r: "r = (c, d)" by fastforce
  show ?case
  proof (cases "(a, b) = (c, d)")
    case True
    with Cons.prems r show ?thesis using list_points_le [of c d rs b] by auto
  next
    case False
    with Cons.prems r have ab: "(a, b) \<in> set rs" by auto
    with Cons.prems r have "a < b" "d < a"
      using wf_ranges_mem [of rs a b] by auto
    with ab Cons r show ?thesis by auto
  qed
qed simp

lemma next_start_list:
  assumes "wf_ranges rs" and "x \<notin> list_points rs"
  shows "(\<forall>n. next_range_start_after \<lparr>ranges = rs\<rparr> x = Some n \<longrightarrow>
            x < n \<and> n \<in> list_points rs \<and> {x..<n} \<inter> list_points rs = {}) \<and>
         (next_range_start_after \<lparr>ranges = rs\<rparr> x = None \<longrightarrow> {x..} \<inter> list_points rs = {})"
  using assms
proof (induction rs)
  case Nil
  then show ?case by (simp add: next_range_start_after_def list_get_def)
next
  case (Cons r rs)
  obtain a b where r: "r = (a, b)" by fastforce
  have beyond: "y \<in> list_points rs \<Longrightarrow> b < y" for y
    using Cons.prems r list_points_le by blast
  show ?case
  proof (cases "a < x")
    case True
    with Cons.prems r have "b \<le> x" by auto
    moreover have "next_range_start_after \<lparr>ranges = r # rs\<rparr> x =
        next_range_start_after \<lparr>ranges = rs\<rparr> x"
      using True r by (simp add: next_range_start_after_def list_get_def partition_point_def)
    ultimately show ?thesis using Cons r by auto
  next
    case False
    with Cons.prems r have "x < a" by (cases "a = x") auto
    moreover from this have "next_range_start_after \<lparr>ranges = r # rs\<rparr> x = Some a"
      using r by (simp add: next_range_start_after_def list_get_def partition_point_def)
    ultimately show ?thesis using Cons.prems r beyond by fastforce
  qed
qed

lemma covers_list:
  assumes "wf_ranges rs"
  shows "covers \<lparr>ranges = rs\<rparr> s e \<longleftrightarrow> {s..<e} \<subseteq> list_points rs"
proof (cases "s < e")
  case True
  show ?thesis
  proof (cases "range_containing \<lparr>ranges = rs\<rparr> s")
    case None
    with True assms range_containing_list_None [of rs s] show ?thesis
      by (auto simp: covers_def)
  next
    case (Some r)
    obtain a b where r: "r = (a, b)" by fastforce
    note ab = range_containing_list_Some [OF assms Some [unfolded r]]
    then have sub: "{a..<b} \<subseteq> list_points rs" and "b \<notin> list_points rs"
      using range_end_not_point [OF assms] by (auto simp: list_points_def)
    then have "{s..<e} \<subseteq> list_points rs \<longleftrightarrow> e \<le> b"
      using ab True by (auto simp: subset_iff not_le)
    with True Some r show ?thesis by (simp add: covers_def)
  qed
qed (simp add: covers_def)

text \<open>
  \<open>seen\<close> discharges the contract for \<^verbatim>\<open>RangeSet\<close>.
\<close>

interpretation seen: interval_store points wf_range_set range_set_default range_insert covers
  range_containing next_range_start_after
proof unfold_locales
  show "wf_range_set range_set_default"
    by (simp add: wf_range_set_def range_set_default_def)
  show "points range_set_default = {}"
    by (simp add: points_def range_set_default_def)
next
  fix s :: range_set and a b x :: nat
  assume wf: "wf_range_set s"
  show "wf_range_set (range_insert a b s)"
    using wf by (simp add: wf_range_set_def range_insert_def wf_insert_loop)
  show "points (range_insert a b s) = points s \<union> {a..<b}"
    using wf by (simp add: wf_range_set_def points_def range_insert_def points_insert_loop)
  show "covers s a b = ({a..<b} \<subseteq> points s)"
    using wf covers_list [of "ranges s" a b] by (simp add: wf_range_set_def points_def)
  show "x \<notin> points s" if "range_containing s x = None"
    using that wf range_containing_list_None [of "ranges s" x]
    by (simp add: wf_range_set_def points_def)
  show "a \<le> x \<and> x < b \<and> {a..<b} \<subseteq> points s \<and> b \<notin> points s"
    if "range_containing s x = Some (a, b)"
  proof -
    from that wf have "a \<le> x \<and> x < b \<and> (a, b) \<in> set (ranges s)"
      using range_containing_list_Some [of "ranges s" x a b] by (simp add: wf_range_set_def)
    with wf range_end_not_point [of "ranges s" a b] show ?thesis
      by (auto simp: wf_range_set_def points_def list_points_def)
  qed
  show "x < a \<and> a \<in> points s \<and> {x..<a} \<inter> points s = {}"
    if "x \<notin> points s" and "next_range_start_after s x = Some a"
    using that wf next_start_list [of "ranges s" x]
    by (simp add: wf_range_set_def points_def)
  show "{x..} \<inter> points s = {}" if "x \<notin> points s" and "next_range_start_after s x = None"
    using that wf next_start_list [of "ranges s" x]
    by (simp add: wf_range_set_def points_def)
qed

section \<open>Recording spans in order\<close>

text \<open>
  The ranges of a span, all of them non-empty and below a bound. A range recorded at or behind the
  bound adds exactly its own offsets.
\<close>

definition span_points :: "range_span \<Rightarrow> nat set" where
  "span_points sp = list_points (span_ranges sp)"

definition span_below :: "range_span \<Rightarrow> nat \<Rightarrow> bool" where
  "span_below sp n \<longleftrightarrow> (\<forall>(a, b) \<in> set (span_ranges sp). a < b \<and> b \<le> n)"

lemma span_below_default [simp]: "span_below range_span_default n"
  by (simp add: span_below_def range_span_default_def)

lemma span_points_default [simp]: "span_points range_span_default = {}"
  by (simp add: span_points_def range_span_default_def)

lemma span_below_mono: "span_below sp m \<Longrightarrow> m \<le> n \<Longrightarrow> span_below sp n"
  by (fastforce simp: span_below_def)

lemma span_below_points: "span_below sp n \<Longrightarrow> span_points sp \<subseteq> {..<n}"
  by (fastforce simp: span_below_def span_points_def list_points_def)

lemma finite_span_points [simp]: "finite (span_points sp)"
  by (auto simp: span_points_def list_points_def)

lemma span_record_ranges:
  "span_ranges (span_record (Some (a, b)) sp) =
     (if span_ranges sp \<noteq> [] \<and> a \<le> snd (last (span_ranges sp))
      then butlast (span_ranges sp) @
             [(fst (last (span_ranges sp)), max (snd (last (span_ranges sp))) b)]
      else span_ranges sp @ [(a, b)])"
  by (simp add: span_record_def Let_def)

lemma span_record_below:
  assumes "span_below sp a" and "a < b"
  shows "span_below (span_record (Some (a, b)) sp) b"
    and "span_points (span_record (Some (a, b)) sp) = span_points sp \<union> {a..<b}"
proof -
  have "span_below (span_record (Some (a, b)) sp) b \<and>
        span_points (span_record (Some (a, b)) sp) = span_points sp \<union> {a..<b}"
  proof (cases "span_ranges sp" rule: rev_cases)
    case Nil
    with assms show ?thesis
      by (simp add: span_below_def span_points_def span_record_ranges)
  next
    case (snoc rs r)
    obtain c d where r: "r = (c, d)" by fastforce
    have cd: "c < d" "d \<le> a" using assms(1) snoc r by (auto simp: span_below_def)
    then have "a \<le> d \<Longrightarrow> {c..<max d b} = {c..<d} \<union> {a..<b}" using assms(2) by auto
    with assms snoc r cd show ?thesis
      by (auto simp: span_below_def span_points_def span_record_ranges)
  qed
  then show "span_below (span_record (Some (a, b)) sp) b"
    and "span_points (span_record (Some (a, b)) sp) = span_points sp \<union> {a..<b}"
    by blast+
qed

section \<open>Properties\<close>

text \<open>
  C22. Marking a range as shown is exact and keeps the set in normal form: afterwards the shown offsets
  are the old ones and those of the range, and the stored ranges are again non-empty, sorted and
  separated by a gap.
\<close>

theorem range_insert_exact:
  assumes "wf_range_set rs"
  shows "wf_range_set (range_insert a b rs) \<and> points (range_insert a b rs) = points rs \<union> {a..<b}"
  using seen.inv_ins [OF assms] seen.pts_ins [OF assms] by simp

theorem range_insert_exact_witness:
  "points (range_insert 3 9 (range_insert 8 12 range_set_default)) = {3..<12}"
proof -
  have "{8..<12} \<union> {3..<9} = {3..<12 :: nat}" by auto
  then show ?thesis
    using range_insert_exact [OF seen.inv_ins [OF seen.inv_emp], of 3 9 8 12]
      seen.pts_ins [OF seen.inv_emp, of 8 12] seen.pts_emp by simp
qed

text \<open>
  The binary search behind \<^verbatim>\<open>covers\<close> answers the question it stands for: a range counts as covered
  exactly if every one of its offsets has been marked, also when it was marked piece by piece.
\<close>

theorem covers_exact:
  assumes "wf_range_set rs"
  shows "covers (range_insert a b rs) c d \<longleftrightarrow> (\<forall>x. c \<le> x \<and> x < d \<longrightarrow> x \<in> points rs \<or> a \<le> x \<and> x < b)"
  using seen.cov_ins_iff [OF assms, of a b c d] by auto

theorem covers_exact_witness: "covers (range_insert 3 9 (range_insert 8 12 range_set_default)) 4 11"
proof -
  have "points (range_insert 8 12 range_set_default) = {8..<12}"
    using seen.pts_ins [OF seen.inv_emp, of 8 12] seen.pts_emp by simp
  then show ?thesis
    using covers_exact [OF seen.inv_ins [OF seen.inv_emp], of 3 9 8 12 4 11] by auto
qed

end
