(* ===== verification/Pager_Buffer.thy ===== *)
theory Pager_Buffer
  imports Resolved_Output Ranges
begin

text \<open>
  \<^verbatim>\<open>PagerBuffer\<close> of \<^verbatim>\<open>src/src/pager/mod.rs\<close>: the captured output as the pager sees it. Offsets are
  character offsets; \<open>char_to_byte\<close> maps them to byte offsets, \<open>line_ends\<close> holds the character
  offset after every newline, and events and text spans are placed at character offsets.

  The crate \<^verbatim>\<open>memchr\<close> is not part of the repository: its four functions are fields of the record
  \<open>pager_lib\<close>, an argument of every definition that calls them, and what its documentation
  promises is the predicate \<open>lib_documented\<close>. A fifth field is the Unicode table that
  \<^verbatim>\<open>char::is_alphanumeric\<close> consults outside ASCII; nothing is assumed of it.
\<close>

section \<open>Library code\<close>

record pager_lib =
  memchr :: "u8 \<Rightarrow> bytes \<Rightarrow> nat option"
  memchr2 :: "u8 \<Rightarrow> u8 \<Rightarrow> bytes \<Rightarrow> nat option"
  memchr_iter :: "u8 \<Rightarrow> bytes \<Rightarrow> nat list"
  memmem_find :: "bytes \<Rightarrow> bytes \<Rightarrow> nat option"
  alnum_table :: "nat \<Rightarrow> bool"

text \<open>The leftmost index at which a window satisfies a test, below a bound.\<close>

fun find_index :: "(nat \<Rightarrow> bool) \<Rightarrow> nat \<Rightarrow> nat \<Rightarrow> nat option" where
  "find_index p i 0 = None"
| "find_index p i (Suc k) = (if p i then Some i else find_index p (Suc i) k)"

definition occurs_at :: "bytes \<Rightarrow> bytes \<Rightarrow> nat \<Rightarrow> bool" where
  "occurs_at haystack needle i \<longleftrightarrow> take (length needle) (drop i haystack) = needle"

definition byte_positions :: "u8 \<Rightarrow> bytes \<Rightarrow> nat list" where
  "byte_positions b h = filter (\<lambda>i. h ! i = b) [0..<length h]"

definition lib_documented :: "pager_lib \<Rightarrow> bool" where
  "lib_documented lib \<longleftrightarrow>
     (\<forall>b h. memchr lib b h = find_index (\<lambda>i. h ! i = b) 0 (length h)) \<and>
     (\<forall>a b h. memchr2 lib a b h = find_index (\<lambda>i. h ! i = a \<or> h ! i = b) 0 (length h)) \<and>
     (\<forall>b h. memchr_iter lib b h = byte_positions b h) \<and>
     (\<forall>h n. n \<noteq> [] \<longrightarrow> memmem_find lib h n = find_index (occurs_at h n) 0 (length h))"

text \<open>A concrete library with that behaviour, for evaluation.\<close>

definition lib_reference :: pager_lib where
  "lib_reference =
     \<lparr>memchr = (\<lambda>b h. find_index (\<lambda>i. h ! i = b) 0 (length h)),
      memchr2 = (\<lambda>a b h. find_index (\<lambda>i. h ! i = a \<or> h ! i = b) 0 (length h)),
      memchr_iter = byte_positions,
      memmem_find = (\<lambda>h n. find_index (occurs_at h n) 0 (length h)),
      alnum_table = (\<lambda>n. 192 \<le> n \<and> n \<noteq> 215 \<and> n \<noteq> 247)\<rparr>"

section \<open>Model\<close>

record pager_text_span =
  pspan_start :: nat
  pspan_end :: nat
  pspan_is_stderr :: bool
  pspan_origin :: content_origin

text \<open>\<^verbatim>\<open>PagerEvent\<close> has the fields of \<^typ>\<open>output_event\<close>; its offset is a character offset.\<close>

record pager_buffer =
  buf_bytes :: bytes
  char_to_byte :: "nat list"
  source_offsets :: "nat list"
  line_ends :: "nat list"
  cursor :: nat
  buf_events :: "output_event list"
  buf_spans :: "pager_text_span list"
  source_end :: nat

definition empty_at :: "nat \<Rightarrow> pager_buffer" where
  "empty_at source_offset =
     \<lparr>buf_bytes = [], char_to_byte = [0], source_offsets = [source_offset], line_ends = [],
      cursor = 0, buf_events = [], buf_spans = [], source_end = source_offset\<rparr>"

subsection \<open>Character indices\<close>

fun offsets_from :: "nat \<Rightarrow> rchar list \<Rightarrow> nat list" where
  "offsets_from k [] = [k]"
| "offsets_from k (c # cs) = k # offsets_from (k + length c) cs"

definition build_char_index :: "bytes \<Rightarrow> nat list" where
  "build_char_index bs =
     (if valid_utf8 bs then offsets_from 0 (chars bs) else [0..<Suc (length bs)])"

definition extend_char_index :: "nat list \<Rightarrow> nat list \<Rightarrow> nat \<Rightarrow> nat list" where
  "extend_char_index target appended base_byte =
     (if target = [] then [0] else target) @ map (sat_add base_byte) (drop 1 appended)"

definition extend_source_offsets :: "nat list \<Rightarrow> nat list \<Rightarrow> (nat \<Rightarrow> nat) \<Rightarrow> nat list" where
  "extend_source_offsets target appended source_offset_for_byte =
     (if target = [] then [source_offset_for_byte 0] else target) @
     map source_offset_for_byte (drop 1 appended)"

definition char_len :: "nat list \<Rightarrow> nat" where
  "char_len index = length index - 1"

definition index_byte :: "nat list \<Rightarrow> nat \<Rightarrow> nat \<Rightarrow> nat" where
  "index_byte index offset len_bytes =
     (if index = [] then 0
      else unwrap_or (list_get index (min offset (length index - 1))) len_bytes)"

definition index_char :: "nat list \<Rightarrow> nat \<Rightarrow> nat" where
  "index_char index byte_index =
     (if index = [] then 0
      else case binary_search index byte_index of Inr pos \<Rightarrow> pos | Inl pos \<Rightarrow> pos - 1)"

definition line_end_offsets :: "pager_lib \<Rightarrow> bytes \<Rightarrow> nat list \<Rightarrow> nat \<Rightarrow> nat list" where
  "line_end_offsets lib bs index base_char =
     map (\<lambda>idx. sat_add base_char (index_char index (sat_add idx 1)))
       (memchr_iter lib CHR 0x0A bs)"

definition buf_len :: "pager_buffer \<Rightarrow> nat" where
  "buf_len b = char_len (char_to_byte b)"

definition current_offset :: "pager_buffer \<Rightarrow> nat" where
  "current_offset b = cursor b"

definition advance_offset_to :: "nat \<Rightarrow> pager_buffer \<Rightarrow> pager_buffer" where
  "advance_offset_to offset b = b\<lparr>cursor := min offset (buf_len b)\<rparr>"

definition byte_index_for_char_offset :: "pager_buffer \<Rightarrow> nat \<Rightarrow> nat" where
  "byte_index_for_char_offset b offset = index_byte (char_to_byte b) offset (length (buf_bytes b))"

definition char_offset_for_byte_index :: "pager_buffer \<Rightarrow> nat \<Rightarrow> nat" where
  "char_offset_for_byte_index b byte_index = index_char (char_to_byte b) byte_index"

definition source_offset_for_char_offset :: "pager_buffer \<Rightarrow> nat \<Rightarrow> nat" where
  "source_offset_for_char_offset b offset =
     (if source_offsets b = [] then source_end b
      else unwrap_or (list_get (source_offsets b) (min offset (length (source_offsets b) - 1)))
             (source_end b))"

subsection \<open>Appending output\<close>

definition append_bytes_with_source_offsets ::
  "pager_lib \<Rightarrow> bytes \<Rightarrow> (nat \<Rightarrow> nat) \<Rightarrow> pager_buffer \<Rightarrow> pager_buffer" where
  "append_bytes_with_source_offsets lib bs source_offset_for_byte b =
     (if bs = [] then b
      else
        (let old_byte_len = length (buf_bytes b);
             old_char_len = buf_len b;
             chunk_index = build_char_index bs
         in b\<lparr>buf_bytes := buf_bytes b @ bs,
              char_to_byte := extend_char_index (char_to_byte b) chunk_index old_byte_len,
              source_offsets :=
                extend_source_offsets (source_offsets b) chunk_index source_offset_for_byte,
              line_ends := line_ends b @ line_end_offsets lib bs chunk_index old_char_len\<rparr>))"

definition append_bytes_at_source_offset ::
  "pager_lib \<Rightarrow> bytes \<Rightarrow> nat \<Rightarrow> pager_buffer \<Rightarrow> pager_buffer" where
  "append_bytes_at_source_offset lib bs source_offset b =
     append_bytes_with_source_offsets lib bs (\<lambda>_. source_offset) b"

definition push_span :: "nat \<Rightarrow> nat \<Rightarrow> bool \<Rightarrow> content_origin \<Rightarrow> pager_buffer \<Rightarrow> pager_buffer" where
  "push_span start end is_stderr orig b =
     b\<lparr>buf_spans := buf_spans b @
         [\<lparr>pspan_start = start, pspan_end = end, pspan_is_stderr = is_stderr,
           pspan_origin = orig\<rparr>]\<rparr>"

definition append_text_at_source_offset ::
  "pager_lib \<Rightarrow> bytes \<Rightarrow> nat \<Rightarrow> bool \<Rightarrow> content_origin \<Rightarrow> pager_buffer \<Rightarrow> pager_buffer" where
  "append_text_at_source_offset lib bs source_offset is_stderr orig b =
     (let start = buf_len b;
          b' = append_bytes_at_source_offset lib bs source_offset b;
          end = buf_len b'
      in if start < end then push_span start end is_stderr orig b' else b')"

definition raw_slice_span ::
  "nat \<Rightarrow> nat \<Rightarrow> nat \<Rightarrow> nat list \<Rightarrow> output_text_span \<Rightarrow> pager_buffer \<Rightarrow> pager_buffer" where
  "raw_slice_span start end old_char_len chunk_char_index span b =
     (if end_byte span \<le> start \<or> start_byte span \<ge> end then b
      else
        (let span_start = max (start_byte span) start - start;
             span_end = min (end_byte span) end - start
         in if span_start \<ge> span_end then b
            else push_span (sat_add old_char_len (index_char chunk_char_index span_start))
                   (sat_add old_char_len (index_char chunk_char_index span_end))
                   (ospan_is_stderr span) (ospan_origin span) b))"

definition append_raw_slice ::
  "pager_lib \<Rightarrow> bytes \<Rightarrow> nat \<Rightarrow> nat \<Rightarrow> nat \<Rightarrow> output_text_span list \<Rightarrow> pager_buffer \<Rightarrow>
   pager_buffer" where
  "append_raw_slice lib bs start end source_base_offset text_spans b =
     (if start \<ge> end \<or> end > length bs then b
      else
        (let old_char_len = buf_len b;
             sl = slice bs start end;
             b' = append_bytes_with_source_offsets lib sl
                    (\<lambda>byte_offset. sat_add source_base_offset (sat_add start byte_offset)) b;
             chunk_char_index = build_char_index sl
         in foldl (\<lambda>acc span. raw_slice_span start end old_char_len chunk_char_index span acc)
              b' text_spans))"

text \<open>One turn of the loop over the events of an appended range; the state holds \<^verbatim>\<open>cursor\<close>.\<close>

definition append_event_turn ::
  "pager_lib \<Rightarrow> output_range \<Rightarrow> output_event \<Rightarrow> nat \<times> pager_buffer \<Rightarrow> nat \<times> pager_buffer" where
  "append_event_turn lib r ev st =
     (let (cur, b) = st;
          relative = min (event_offset ev - or_start_offset r) (length (or_bytes r));
          b1 = append_raw_slice lib (or_bytes r) cur relative (or_start_offset r)
                 (or_text_spans r) b;
          b2 = (case event_kind ev of
              TextEvent t is_stderr orig \<Rightarrow>
                (let start = buf_len b1;
                     b' = append_bytes_at_source_offset lib t (event_offset ev) b1;
                     end = buf_len b'
                 in if start < end then push_span start end is_stderr orig b' else b')
            | kind \<Rightarrow>
                b1\<lparr>buf_events := buf_events b1 @ [\<lparr>event_offset = buf_len b1, event_kind = kind\<rparr>]\<rparr>)
      in (relative, b2))"

definition append_timeline_range ::
  "pager_lib \<Rightarrow> output_range \<Rightarrow> pager_buffer \<Rightarrow> pager_buffer" where
  "append_timeline_range lib r b0 =
     (let b1 =
          (if or_start_offset r > source_end b0 then
             (let gap = or_start_offset r - source_end b0;
                  notice = ''[pager] output gap detected ('' @ dec gap @ '' bytes skipped)'' @ nl
              in (append_text_at_source_offset lib notice (source_end b0) True Server b0)
                   \<lparr>source_end := or_start_offset r\<rparr>)
           else b0)
      in if or_bytes r = [] \<and> or_events r = [] then
           b1\<lparr>source_end := max (source_end b1) (or_end_offset r)\<rparr>
         else
           (let events = sort_key event_offset
                  (filter (\<lambda>e. or_start_offset r \<le> event_offset e \<and>
                               event_offset e \<le> or_end_offset r) (or_events r));
                (cur, b2) = foldl (\<lambda>st ev. append_event_turn lib r ev st) (0, b1) events;
                b3 = append_raw_slice lib (or_bytes r) cur (length (or_bytes r))
                       (or_start_offset r) (or_text_spans r) b2
            in b3\<lparr>source_end := max (or_end_offset r) (source_end b3)\<rparr>))"

definition from_timeline_range :: "pager_lib \<Rightarrow> output_range \<Rightarrow> pager_buffer" where
  "from_timeline_range lib r = append_timeline_range lib r (empty_at (or_start_offset r))"

subsection \<open>Reading a range\<close>

definition read_text_range :: "pager_buffer \<Rightarrow> nat \<Rightarrow> nat \<Rightarrow> string" where
  "read_text_range b start_offset end_offset =
     (let end_offset = min end_offset (buf_len b);
          start_offset = min start_offset end_offset
      in if start_offset \<ge> end_offset then []
         else from_utf8_lossy (slice (buf_bytes b) (byte_index_for_char_offset b start_offset)
                (byte_index_for_char_offset b end_offset)))"

definition events_in_byte_offsets :: "pager_buffer \<Rightarrow> nat \<Rightarrow> nat \<Rightarrow> output_event list" where
  "events_in_byte_offsets b start_offset end_offset =
     map (\<lambda>e. e\<lparr>event_offset := byte_index_for_char_offset b (event_offset e)\<rparr>)
       (filter (\<lambda>e. start_offset \<le> event_offset e \<and> event_offset e \<le> end_offset) (buf_events b))"

definition text_spans_in_byte_offsets :: "pager_buffer \<Rightarrow> nat \<Rightarrow> nat \<Rightarrow> span_view list" where
  "text_spans_in_byte_offsets b start_offset end_offset =
     map (\<lambda>s. \<lparr>view_start = byte_index_for_char_offset b (max (pspan_start s) start_offset),
               view_end = byte_index_for_char_offset b (min (pspan_end s) end_offset),
               view_is_stderr = pspan_is_stderr s,
               view_origin = pspan_origin s\<rparr>)
       (filter (\<lambda>s. \<not> (pspan_end s \<le> start_offset \<or> pspan_start s \<ge> end_offset)) (buf_spans b))"

definition rendered_state_for_span :: "pager_text_span \<Rightarrow> rendered_text_state" where
  "rendered_state_for_span s =
     continuation (if pspan_is_stderr s then Stderr else Stdout) (pspan_origin s)"

definition span_ends_with_newline :: "pager_buffer \<Rightarrow> pager_text_span \<Rightarrow> bool" where
  "span_ends_with_newline b s =
     (let end = byte_index_for_char_offset b (pspan_end s)
      in end > 0 \<and> list_get (buf_bytes b) (end - 1) = Some CHR 0x0A)"

fun render_state_loop ::
  "pager_buffer \<Rightarrow> nat \<Rightarrow> pager_text_span list \<Rightarrow> rendered_text_state option \<Rightarrow>
   rendered_text_state option" where
  "render_state_loop b start_offset [] boundary_continuation = boundary_continuation"
| "render_state_loop b start_offset (s # ss) boundary_continuation =
     (if pspan_start s < start_offset \<and> start_offset < pspan_end s
      then Some (rendered_state_for_span s)
      else if pspan_end s = start_offset \<and> pspan_start s < pspan_end s \<and>
              \<not> span_ends_with_newline b s
        then render_state_loop b start_offset ss (Some (rendered_state_for_span s))
      else render_state_loop b start_offset ss boundary_continuation)"

definition render_state_before_range :: "pager_buffer \<Rightarrow> nat \<Rightarrow> rendered_text_state option" where
  "render_state_before_range b start_offset = render_state_loop b start_offset (buf_spans b) None"

definition contents_for_range_with_projection_mode ::
  "pager_buffer \<Rightarrow> nat \<Rightarrow> nat \<Rightarrow> projection_mode \<Rightarrow> worker_content list" where
  "contents_for_range_with_projection_mode b start_offset end_offset mode =
     (let end_offset = min end_offset (buf_len b);
          start_offset = min start_offset end_offset;
          start = byte_index_for_char_offset b start_offset;
          end = byte_index_for_char_offset b end_offset
      in if start_offset > end_offset then []
         else fst (render_with_state (slice (buf_bytes b) start end) start end
                (text_spans_in_byte_offsets b start_offset end_offset)
                (events_in_byte_offsets b start_offset end_offset) mode
                (render_state_before_range b start_offset)))"

definition contents_for_range :: "pager_buffer \<Rightarrow> nat \<Rightarrow> nat \<Rightarrow> worker_content list" where
  "contents_for_range b start_offset end_offset =
     contents_for_range_with_projection_mode b start_offset end_offset PagerMode"

subsection \<open>Lines and pages\<close>

definition page_end_offset :: "pager_buffer \<Rightarrow> nat \<Rightarrow> nat \<Rightarrow> nat \<Rightarrow> nat" where
  "page_end_offset b start_offset end_offset target_bytes =
     (let end_offset = min end_offset (buf_len b)
      in if start_offset \<ge> end_offset then end_offset
         else
           (let effective_start = min start_offset end_offset;
                desired = min (sat_add effective_start target_bytes) end_offset;
                idx = partition_point (\<lambda>line_end. line_end \<le> desired) (line_ends b)
            in case (if idx = 0 then None else list_get (line_ends b) (idx - 1)) of
                 None \<Rightarrow> desired
               | Some line_end \<Rightarrow> if line_end \<le> effective_start then desired else line_end))"

definition last_line_end_before :: "pager_buffer \<Rightarrow> nat \<Rightarrow> nat option" where
  "last_line_end_before b offset =
     (let offset = min offset (buf_len b);
          idx = partition_point (\<lambda>line_end. line_end \<le> offset) (line_ends b)
      in if idx = 0 then None else list_get (line_ends b) (idx - 1))"

definition tail_start_offset_for_lines :: "pager_buffer \<Rightarrow> nat \<Rightarrow> nat \<Rightarrow> nat" where
  "tail_start_offset_for_lines b end_offset lines =
     (if lines = 0 then min end_offset (buf_len b)
      else
        (let end_offset = min end_offset (buf_len b)
         in if buf_bytes b = [] then end_offset
            else
              (let ends = filter (\<lambda>line_end. line_end \<le> end_offset) (rev (line_ends b));
                   has_trailing_newline = (list_get ends 0 = Some end_offset);
                   needed_index = (if has_trailing_newline then lines else lines - 1)
               in unwrap_or (list_get ends needed_index) 0)))"

definition buffer_line_count :: "pager_buffer \<Rightarrow> nat" where
  "buffer_line_count b =
     (if buf_bytes b \<noteq> [] \<and> last (buf_bytes b) \<noteq> CHR 0x0A
      then sat_add (length (line_ends b)) 1 else length (line_ends b))"

definition line_start_offset :: "pager_buffer \<Rightarrow> nat \<Rightarrow> nat option" where
  "line_start_offset b line =
     (if line = 0 then None else if line = 1 then Some 0 else list_get (line_ends b) (line - 2))"

definition line_end_offset :: "pager_buffer \<Rightarrow> nat \<Rightarrow> nat option" where
  "line_end_offset b line =
     (if line = 0 then None
      else if line \<le> length (line_ends b) then list_get (line_ends b) (line - 1)
      else if line = buffer_line_count b then Some (buf_len b)
      else None)"

definition line_range_offsets :: "pager_buffer \<Rightarrow> nat \<Rightarrow> nat \<Rightarrow> (nat \<times> nat) option" where
  "line_range_offsets b start_line end_line =
     (if start_line = 0 \<or> end_line = 0 then None
      else
        (let (start_line, end_line) =
               (if start_line \<le> end_line then (start_line, end_line) else (end_line, start_line))
         in case line_start_offset b start_line of
              None \<Rightarrow> None
            | Some start_offset \<Rightarrow>
                (case line_end_offset b end_line of
                   None \<Rightarrow> None
                 | Some end_offset \<Rightarrow>
                     if start_offset \<ge> end_offset then None else Some (start_offset, end_offset))))"

subsection \<open>Images\<close>

definition is_image_event :: "output_event \<Rightarrow> bool" where
  "is_image_event e = (case event_kind e of Image _ _ _ _ \<Rightarrow> True | _ \<Rightarrow> False)"

text \<open>The loop: events before the range are skipped, one behind it or the limit ends the loop.\<close>

fun image_offsets_loop :: "nat \<Rightarrow> nat \<Rightarrow> nat \<Rightarrow> output_event list \<Rightarrow> nat list \<Rightarrow> nat list" where
  "image_offsets_loop start end limit [] offsets = offsets"
| "image_offsets_loop start end limit (e # es) offsets =
     (if event_offset e < start then image_offsets_loop start end limit es offsets
      else if event_offset e > end then offsets
      else if is_image_event e then
        (let offsets' = offsets @ [event_offset e]
         in if length offsets' \<ge> limit then offsets'
            else image_offsets_loop start end limit es offsets')
      else image_offsets_loop start end limit es offsets)"

definition image_offsets_in_range :: "pager_buffer \<Rightarrow> nat \<Rightarrow> nat \<Rightarrow> nat \<Rightarrow> nat list" where
  "image_offsets_in_range b start_offset end_offset limit =
     (if limit = 0 then []
      else
        (let end_offset = min end_offset (buf_len b);
             start_offset = min start_offset end_offset
         in image_offsets_loop start_offset end_offset limit (buf_events b) []))"

fun count_images_loop :: "nat \<Rightarrow> nat \<Rightarrow> output_event list \<Rightarrow> nat \<Rightarrow> nat" where
  "count_images_loop start end [] count = count"
| "count_images_loop start end (e # es) count =
     (if event_offset e < start then count_images_loop start end es count
      else if event_offset e > end then count
      else count_images_loop start end es (if is_image_event e then sat_add count 1 else count))"

definition count_images_in_range :: "pager_buffer \<Rightarrow> nat \<Rightarrow> nat \<Rightarrow> nat" where
  "count_images_in_range b start_offset end_offset =
     (let end_offset = min end_offset (buf_len b);
          start_offset = min start_offset end_offset
      in count_images_loop start_offset end_offset (buf_events b) 0)"

subsection \<open>Searching\<close>

definition find_next_bytes ::
  "pager_lib \<Rightarrow> pager_buffer \<Rightarrow> nat \<Rightarrow> nat \<Rightarrow> bytes \<Rightarrow> nat option" where
  "find_next_bytes lib b start_offset end_offset needle =
     (if needle = [] then None
      else
        (let end_offset = min end_offset (buf_len b);
             start_offset = min start_offset end_offset
         in if start_offset \<ge> end_offset then None
            else
              (let start = byte_index_for_char_offset b start_offset;
                   end = byte_index_for_char_offset b end_offset;
                   haystack = slice (buf_bytes b) start end
               in if length needle > length haystack then None
                  else map_option (\<lambda>idx. char_offset_for_byte_index b (start + idx))
                         (if length needle = 1 then memchr lib (hd needle) haystack
                          else memmem_find lib haystack needle))))"

text \<open>
  The scan for the ASCII case-insensitive search: \<open>memchr\<close> or \<open>memchr2\<close> finds the next candidate
  for the first byte, and the window there is compared byte by byte. \<open>fuel\<close> bounds the turns;
  every turn moves \<open>offset\<close> forward, so the length of the haystack is enough.
\<close>

fun case_insensitive_scan ::
  "pager_lib \<Rightarrow> nat \<Rightarrow> bytes \<Rightarrow> bytes \<Rightarrow> nat \<Rightarrow> nat option" where
  "case_insensitive_scan lib 0 haystack needle offset = None"
| "case_insensitive_scan lib (Suc fuel) haystack needle offset =
     (if offset + length needle \<le> length haystack then
        (let first = ascii_lower (hd needle);
             alt = (if 97 \<le> ord first \<and> ord first \<le> 122 then ascii_upper first else first);
             remaining = drop offset haystack
         in case (if first = alt then memchr lib first remaining
                  else memchr2 lib first alt remaining) of
              None \<Rightarrow> None
            | Some pos \<Rightarrow>
                (let idx = offset + pos
                 in if idx + length needle > length haystack then None
                    else if map ascii_lower (slice haystack idx (idx + length needle)) =
                            map ascii_lower needle
                      then Some idx
                    else case_insensitive_scan lib fuel haystack needle (idx + 1)))
      else None)"

definition find_next_bytes_ascii_case_insensitive ::
  "pager_lib \<Rightarrow> pager_buffer \<Rightarrow> nat \<Rightarrow> nat \<Rightarrow> bytes \<Rightarrow> nat option" where
  "find_next_bytes_ascii_case_insensitive lib b start_offset end_offset needle =
     (if needle = [] then None
      else
        (let end_offset = min end_offset (buf_len b);
             start_offset = min start_offset end_offset
         in if start_offset \<ge> end_offset then None
            else
              (let start = byte_index_for_char_offset b start_offset;
                   end = byte_index_for_char_offset b end_offset;
                   haystack = slice (buf_bytes b) start end;
                   first = ascii_lower (hd needle);
                   alt = (if 97 \<le> ord first \<and> ord first \<le> 122 then ascii_upper first else first)
               in if length needle > length haystack then None
                  else map_option (\<lambda>idx. char_offset_for_byte_index b (start + idx))
                         (if length needle = 1 then
                            (if first = alt then memchr lib first haystack
                             else memchr2 lib first alt haystack)
                          else case_insensitive_scan lib (Suc (length haystack)) haystack needle 0))))"

definition find_next_bytes_with_options ::
  "pager_lib \<Rightarrow> pager_buffer \<Rightarrow> nat \<Rightarrow> nat \<Rightarrow> bytes \<Rightarrow> bool \<Rightarrow> nat option" where
  "find_next_bytes_with_options lib b start_offset end_offset needle case_insensitive =
     (if case_insensitive
      then find_next_bytes_ascii_case_insensitive lib b start_offset end_offset needle
      else find_next_bytes lib b start_offset end_offset needle)"

end
