(* ===== verification/Presentation.thy ===== *)
theory Presentation
  imports Worker_Protocol Ranges
begin

text \<open>
  \<^verbatim>\<open>src/src/pager/presentation.rs\<close>: the texts the pager adds to a reply (footer, position
  marker, elision markers) and \<^verbatim>\<open>truncate_with_ellipsis\<close>.
\<close>

definition footer_min :: "nat \<Rightarrow> string" where
  "footer_min pages_left =
     (if pages_left = 0 then ''(END)'' else ''--More-- ('' @ dec pages_left @ ''p)'')"

definition non_command_input_message :: "string \<Rightarrow> string" where
  "non_command_input_message input =
     (let trimmed = trim input
      in if trimmed = [] then ''[pager] empty command''
         else if starts_with trimmed '':''
           then ''[pager] unrecognized command: '' @ trimmed @ '' (use :help for pager commands)''
         else ''[pager] input blocked while pager is active: '' @ trimmed @
                '' (use :q to exit pager)'')"

definition position_permille :: "nat \<Rightarrow> nat \<Rightarrow> nat" where
  "position_permille current_offset total_chars =
     min (sat_mul current_offset 1000 div total_chars) 1000"

definition position_marker :: "nat \<Rightarrow> nat \<Rightarrow> range option \<Rightarrow> string" where
  "position_marker current_offset total_chars last_range =
     (if total_chars = 0 then []
      else
        (let permille = position_permille current_offset total_chars;
             pct_int = permille div 10;
             pct_dec = permille mod 10;
             rng = (case last_range of
                Some (start, end) \<Rightarrow>
                  if end = current_offset
                  then ''@'' @ dec start @ ''..'' @ dec end @ ''/'' @ dec total_chars
                  else ''@'' @ dec current_offset @ ''/'' @ dec total_chars
              | None \<Rightarrow> ''@'' @ dec current_offset @ ''/'' @ dec total_chars)
         in dec pct_int @ ''.'' @ dec pct_dec @ ''%, '' @ rng))"

definition elision_marker :: "nat \<Rightarrow> nat \<Rightarrow> worker_content" where
  "elision_marker start end =
     server_stderr (''[pager] elided output (already shown): @'' @ dec start @ ''..'' @ dec end @ nl)"

definition gap_marker_if_needed ::
  "range option \<Rightarrow> range option \<Rightarrow> range_set \<Rightarrow> worker_content option" where
  "gap_marker_if_needed last_range first_range seen_ranges =
     (case last_range of
        None \<Rightarrow> None
      | Some (_, last_end) \<Rightarrow>
          (case first_range of
             None \<Rightarrow> None
           | Some (first_start, _) \<Rightarrow>
               if first_start > last_end \<and> covers seen_ranges last_end first_start
               then Some (elision_marker last_end first_start)
               else None))"

text \<open>
  The loop over \<^verbatim>\<open>char_indices\<close>: a character is kept when the byte index where it \<^emph>\<open>starts\<close> is
  below \<^verbatim>\<open>keep_bytes\<close>.
\<close>

fun push_while_below :: "nat \<Rightarrow> nat \<Rightarrow> rchar list \<Rightarrow> string" where
  "push_while_below keep_bytes idx [] = []"
| "push_while_below keep_bytes idx (ch # cs) =
     (if idx \<ge> keep_bytes then []
      else ch @ push_while_below keep_bytes (idx + length ch) cs)"

definition truncate_with_ellipsis :: "string \<Rightarrow> nat \<Rightarrow> string" where
  "truncate_with_ellipsis txt max_bytes =
     (if length txt \<le> max_bytes then txt
      else if max_bytes \<le> 3 then take max_bytes ''...''
      else push_while_below (max_bytes - 3) 0 (chars txt) @ ''...'')"

definition pager_help_text :: string where
  "pager_help_text = concat (map (\<lambda>line. line @ nl)
     [''[pager] quick rules:'',
      ''  - Pager commands must start with `:`.'',
      ''  - Empty input shows next page.'',
      ''  - Non-`:` input exits pager and runs in backend.'',
      '''',
      ''[pager] core:'',
      ''  :q                           quit pager'',
      ''  :help                        show this help'',
      ''  :/PATTERN                    start compact search mode for the full buffer'',
      ''  :n [N]                       jump to next search hit (or next page if no search is active)'',
      ''  :p [N]                       jump to previous search hit'',
      ''  :goto N                      jump to the Nth search hit'',
      '''',
      ''[pager] navigation:'',
      ''  :next [N]                    next page (alias for empty input)'',
      ''  :skip N                      skip N pages, then show next page'',
      ''  :seek OFFSET | PCT% | line N jump to location'',
      ''                               OFFSET is UTF-8 char offset; suffixes: k=1024, m=1024^2, b=bytes'',
      ''  :tail [N|8k|20l]             jump near end (N lines, or bytes with k/m/b) and exit pager'',
      ''  :range START END             show line range (1-based)'',
      ''  :a                           show all remaining (deduped)'',
      '''',
      ''[pager] search tools:'',
      ''  :where [-i] PATTERN          show distance to next match (no cursor move)'',
      ''  :matches [-i] [-n N|all] [-C N] [PATTERN]'',
      ''  :hits [-i] [-C N] [--count N] PATTERN''])"

section \<open>Truncation\<close>

lemma push_while_below_take:
  "\<exists>k. push_while_below keep idx cs = concat (take k cs) \<and>
       (k < length cs \<longrightarrow> keep \<le> idx + length (concat (take k cs))) \<and>
       (k = 0 \<or> idx + length (concat (take (k - 1) cs)) < keep)"
proof (induction keep idx cs rule: push_while_below.induct)
  case (2 keep idx c cs)
  show ?case
  proof (cases "idx \<ge> keep")
    case True
    then show ?thesis by (intro exI [of _ 0]) simp
  next
    case False
    with 2 obtain k where k: "push_while_below keep (idx + length c) cs = concat (take k cs)"
      "k < length cs \<longrightarrow> keep \<le> idx + length c + length (concat (take k cs))"
      "k = 0 \<or> idx + length c + length (concat (take (k - 1) cs)) < keep" by auto
    with False show ?thesis
      by (intro exI [of _ "Suc k"]) (cases k, auto simp: add.assoc)
  qed
qed simp

lemma length_concat_take_Suc:
  assumes "\<forall>c \<in> set cs. length c \<le> w"
  shows "length (concat (take (Suc k) cs)) \<le> length (concat (take k cs)) + w"
proof (cases "k < length cs")
  case True
  with assms show ?thesis by (simp add: take_Suc_conv_app_nth)
qed simp

text \<open>The kept part of a string that is cut to \<open>max_bytes\<close> bytes.\<close>

lemma truncate_kept:
  assumes "max_bytes < length s" and "3 < max_bytes" and w: "\<forall>c \<in> set (chars s). length c \<le> w"
  obtains k where "truncate_with_ellipsis s max_bytes = concat (take k (chars s)) @ ''...''"
    "max_bytes - 3 \<le> length (concat (take k (chars s)))"
    "length (concat (take k (chars s))) < max_bytes - 3 + w"
proof -
  obtain k where k: "push_while_below (max_bytes - 3) 0 (chars s) = concat (take k (chars s))"
    "k < length (chars s) \<longrightarrow> max_bytes - 3 \<le> 0 + length (concat (take k (chars s)))"
    "k = 0 \<or> 0 + length (concat (take (k - 1) (chars s))) < max_bytes - 3"
    using push_while_below_take by blast
  have lo: "max_bytes - 3 \<le> length (concat (take k (chars s)))"
    using k(2) assms(1) by (cases "k < length (chars s)") simp_all
  then have "k \<noteq> 0" using assms(2) by (cases k) auto
  with k(3) obtain j where j: "k = Suc j" "length (concat (take j (chars s))) < max_bytes - 3"
    by (cases k) auto
  with length_concat_take_Suc [OF w, of j] have "length (concat (take k (chars s))) < max_bytes - 3 + w"
    by simp
  with lo k(1) assms(1,2) show ?thesis
    by (intro that [of k]) (simp_all add: truncate_with_ellipsis_def)
qed

text \<open>
  Truncation cuts between characters and keeps the bound up to one character: of a string
  that does not fit, the result is a prefix made of whole characters with an ellipsis behind it; ASCII text never exceeds \<^verbatim>\<open>max_bytes\<close>, other text exceeds it by at most three bytes.
\<close>

theorem truncate_bounds:
  assumes "max_bytes < length s" and "3 < max_bytes"
  shows "(\<exists>k. truncate_with_ellipsis s max_bytes = concat (take k (chars s)) @ ''...'') \<and>
         length (truncate_with_ellipsis s max_bytes) \<le> max_bytes + 3 \<and>
         (is_ascii s \<longrightarrow> length (truncate_with_ellipsis s max_bytes) = max_bytes)"
proof -
  have w4: "\<forall>c \<in> set (chars s). length c \<le> 4" using chars_width by blast
  obtain k where k: "truncate_with_ellipsis s max_bytes = concat (take k (chars s)) @ ''...''"
    "length (concat (take k (chars s))) < max_bytes - 3 + 4"
    using truncate_kept [OF assms w4] by blast
  have "length (truncate_with_ellipsis s max_bytes) = max_bytes" if "is_ascii s"
  proof -
    have "\<forall>c \<in> set (chars s). length c \<le> 1" using that by (auto simp: chars_ascii)
    from truncate_kept [OF assms this] obtain j
      where "truncate_with_ellipsis s max_bytes = concat (take j (chars s)) @ ''...''"
        "max_bytes - 3 \<le> length (concat (take j (chars s)))"
        "length (concat (take j (chars s))) < max_bytes - 3 + 1" by blast
    then show ?thesis using assms(2) by simp
  qed
  with k assms(2) show ?thesis by auto
qed

theorem truncate_bounds_witness: "length (truncate_with_ellipsis ''abcdefgh'' 6) = 6"
proof -
  have "is_ascii ''abcdefgh''" by code_simp
  then show ?thesis using truncate_bounds [of 6 "''abcdefgh''"] by simp
qed

text \<open>
  The bound is missed by a wide character: a character is kept when its first byte lies below
  the limit, so a string of 200 bytes and more whose 197th to 199th byte are one character is
  cut to 202 bytes, although 200 were asked for.
\<close>

theorem truncate_exceeds_max_bytes:
  "length (truncate_with_ellipsis (replicate 196 CHR ''a'' @ [CHR 0xE2, CHR 0x82, CHR 0xAC] @ ''bbb'') 200) = 202"
  by code_simp

end
