(* ===== verification/Pager_Command.thy ===== *)
theory Pager_Command
  imports Rust_Prelude
begin

text \<open>
  \<^verbatim>\<open>src/src/pager/command.rs\<close>: the command language of the pager and its parser. A rejected
  input (\<^verbatim>\<open>None\<close> in the code, also through the \<^verbatim>\<open>?\<close> operator) is \<^const>\<open>None\<close>.
\<close>

section \<open>Model\<close>

definition DEFAULT_MATCH_LIMIT :: nat where "DEFAULT_MATCH_LIMIT = 50"
definition MAX_MATCH_LIMIT :: nat where "MAX_MATCH_LIMIT = 500"
definition DEFAULT_MATCH_CONTEXT :: nat where "DEFAULT_MATCH_CONTEXT = 0"
definition MAX_MATCH_CONTEXT :: nat where "MAX_MATCH_CONTEXT = 5"

lemmas match_consts =
  DEFAULT_MATCH_LIMIT_def MAX_MATCH_LIMIT_def DEFAULT_MATCH_CONTEXT_def MAX_MATCH_CONTEXT_def

datatype tail_spec = TailDefault | TailBytes nat | TailLines nat

datatype seek_spec = SeekOffset nat | SeekPercent nat | SeekLine nat

record search_pattern =
  pattern :: string
  case_insensitive_ascii :: bool

record match_spec =
  match_pattern :: "search_pattern option"
  match_limit :: nat
  match_context :: nat

record hit_spec =
  hit_pattern :: search_pattern
  hit_context :: nat
  hit_count :: nat

datatype pager_command =
    Next nat
  | Skip nat
  | All
  | Range nat nat
  | Tail tail_spec
  | Search search_pattern
  | Where search_pattern
  | Matches match_spec
  | Hits hit_spec
  | SearchNext nat
  | SearchPrev nat
  | Goto nat
  | Seek seek_spec
  | Help
  | Quit

record search_flags =
  flag_case_insensitive :: bool
  flag_context :: "nat option"
  flag_n_value :: "string option"

record search_args =
  arg_pattern :: string
  arg_case_insensitive :: bool
  arg_context :: nat
  arg_n_value :: "string option"

datatype search_count_flag = LimitFlag | CountFlag

definition long_flag :: "search_count_flag \<Rightarrow> string" where
  "long_flag f = (case f of LimitFlag \<Rightarrow> ''--limit'' | CountFlag \<Rightarrow> ''--count'')"

definition strip_trailing_newlines :: "string \<Rightarrow> string" where
  "strip_trailing_newlines raw =
     (let raw1 = unwrap_or (strip_suffix raw nl) raw
      in unwrap_or (strip_suffix raw1 [CHR 0x0D]) raw1)"

definition consume_one_whitespace :: "string \<Rightarrow> string option" where
  "consume_one_whitespace raw =
     (case chars raw of
        [] \<Rightarrow> None
      | first # rest \<Rightarrow> if is_whitespace first then Some (concat rest) else None)"

definition strip_word_prefix :: "string \<Rightarrow> string \<Rightarrow> string option" where
  "strip_word_prefix raw word =
     (case strip_prefix raw word of
        None \<Rightarrow> None
      | Some rest \<Rightarrow>
          if rest = [] \<or> is_ascii_whitespace (hd rest) then Some rest else None)"

definition split_first_token :: "string \<Rightarrow> (string \<times> string) option" where
  "split_first_token raw =
     (let trimmed = trim_start raw
      in if trimmed = [] then None
         else Some (concat (takeWhile (\<lambda>ch. \<not> is_whitespace ch) (chars trimmed)),
                    concat (dropWhile (\<lambda>ch. \<not> is_whitespace ch) (chars trimmed))))"

definition parse_number_token :: "string \<Rightarrow> nat option" where
  "parse_number_token raw =
     (let trimmed = trim raw in if trimmed = [] then None else parse_u64 trimmed)"

definition parse_limit_token :: "string \<Rightarrow> nat option" where
  "parse_limit_token raw =
     (let trimmed = trim raw
      in if trimmed = [] then None
         else
           (let lowercase = to_ascii_lowercase trimmed
            in if lowercase = ''all'' \<or> lowercase = ''max'' then Some MAX_MATCH_LIMIT
               else
                 (case parse_u64 trimmed of
                    None \<Rightarrow> None
                  | Some parsed \<Rightarrow> if parsed = 0 then Some MAX_MATCH_LIMIT else Some parsed)))"

definition search_flags_default :: search_flags where
  "search_flags_default =
     \<lparr>flag_case_insensitive = False, flag_context = None, flag_n_value = None\<rparr>"

text \<open>
  The loop of \<^verbatim>\<open>parse_search_flags\<close>. It ends because every turn takes a non-empty token off
  \<^verbatim>\<open>rest\<close>; the two lemmas before it are that termination argument.
\<close>

lemma split_first_token_shorter:
  assumes "split_first_token raw = Some (token, rest)"
  shows "token \<noteq> [] \<and> length rest < length raw"
proof -
  let ?t = "trim_start raw"
  from assms have ne: "?t \<noteq> []" and tok: "token = concat (takeWhile (\<lambda>ch. \<not> is_whitespace ch) (chars ?t))"
    and rest: "rest = concat (dropWhile (\<lambda>ch. \<not> is_whitespace ch) (chars ?t))"
    by (auto simp: split_first_token_def Let_def split: if_splits)
  from ne obtain c cs where c: "chars ?t = c # cs" by (metis chars_eq_Nil neq_Nil_conv)
  then have "\<not> is_whitespace c"
    by (metis chars_trim_start dropWhile_eq_Cons_conv)
  moreover from c have "c \<noteq> []" using chars_ne [of c ?t] by simp
  ultimately have "token \<noteq> []" using tok c by simp
  moreover have "token @ rest = ?t"
    unfolding tok rest by (metis concat_append concat_chars takeWhile_dropWhile_id)
  ultimately show ?thesis
    using length_trim_start_le [of is_whitespace raw] by (metis length_append length_greater_0_conv
        less_le_trans less_add_same_cancel2)
qed

text \<open>One turn of the loop: \<^verbatim>\<open>break\<close> with the flags and the rest, another turn, or the early \<^verbatim>\<open>None\<close>.\<close>

datatype flags_turn = FlagsBreak search_flags string | FlagsAgain search_flags string | FlagsNone

definition with_value ::
  "string \<Rightarrow> (string \<Rightarrow> search_flags option) \<Rightarrow> flags_turn" where
  "with_value nxt upd =
     (case split_first_token nxt of
        None \<Rightarrow> FlagsNone
      | Some (value, tail) \<Rightarrow>
          (case upd value of None \<Rightarrow> FlagsNone | Some fl \<Rightarrow> FlagsAgain fl tail))"

definition parse_flags_turn ::
  "search_count_flag \<Rightarrow> search_flags \<Rightarrow> string \<Rightarrow> flags_turn" where
  "parse_flags_turn n_flag flags rest =
     (let set_n = (\<lambda>value. Some (flags\<lparr>flag_n_value := Some value\<rparr>));
          set_context = (\<lambda>value. map_option (\<lambda>parsed. flags\<lparr>flag_context := Some parsed\<rparr>)
                                  (parse_number_token value))
      in case split_first_token rest of
           None \<Rightarrow> FlagsNone
         | Some (token, nxt) \<Rightarrow>
             if token = ''--'' then FlagsBreak flags nxt
             else if \<not> starts_with token ''-'' then FlagsBreak flags (trim_start rest)
             else if token = ''-i'' \<or> token = ''--ignore-case'' then
               FlagsAgain (flags\<lparr>flag_case_insensitive := True\<rparr>) nxt
             else if token = ''-n'' then with_value nxt set_n
             else if token = ''-C'' \<or> token = ''--context'' then with_value nxt set_context
             else if token = long_flag n_flag then with_value nxt set_n
             else
               (case strip_prefix token ''-n'' of
                  Some value \<Rightarrow> FlagsAgain (flags\<lparr>flag_n_value := Some value\<rparr>) nxt
                | None \<Rightarrow>
                    (case strip_prefix token ''-C'' of
                       None \<Rightarrow> FlagsNone
                     | Some value \<Rightarrow>
                         (case set_context value of
                            None \<Rightarrow> FlagsNone
                          | Some fl \<Rightarrow> FlagsAgain fl nxt))))"

definition turn_within :: "nat \<Rightarrow> flags_turn \<Rightarrow> bool" where
  "turn_within n t = (case t of FlagsAgain _ r \<Rightarrow> length r \<le> n | _ \<Rightarrow> True)"

lemma turn_within_intros:
  "turn_within n FlagsNone"
  "turn_within n (FlagsBreak fl r)"
  "length r \<le> n \<Longrightarrow> turn_within n (FlagsAgain fl r)"
  "turn_within n s \<Longrightarrow> turn_within n t \<Longrightarrow> turn_within n (if c then s else t)"
  "turn_within n s \<Longrightarrow> (\<And>v. turn_within n (f v)) \<Longrightarrow>
     turn_within n (case x of None \<Rightarrow> s | Some v \<Rightarrow> f v)"
  by (auto simp: turn_within_def split: option.split)

lemma turn_within_with_value: "turn_within (length nxt) (with_value nxt upd)"
  using split_first_token_shorter [of nxt]
  by (auto simp: with_value_def turn_within_def order.strict_iff_not split: option.split)

lemma parse_flags_turn_shorter:
  assumes "parse_flags_turn n_flag flags rest = FlagsAgain fl r"
  shows "length r < length rest"
proof -
  obtain token nxt where sp: "split_first_token rest = Some (token, nxt)"
    using assms by (cases "split_first_token rest") (auto simp: parse_flags_turn_def Let_def)
  then have "length nxt < length rest" by (auto dest: split_first_token_shorter)
  moreover have "turn_within (length nxt) (parse_flags_turn n_flag flags rest)"
    unfolding parse_flags_turn_def Let_def sp option.case prod.case
    by (intro turn_within_intros turn_within_with_value order_refl)
  ultimately show ?thesis by (simp add: assms turn_within_def)
qed

function parse_flags_loop ::
  "search_count_flag \<Rightarrow> search_flags \<Rightarrow> string \<Rightarrow> (search_flags \<times> string) option" where
  "parse_flags_loop n_flag flags rest =
     (case parse_flags_turn n_flag flags rest of
        FlagsBreak fl r \<Rightarrow> Some (fl, r)
      | FlagsAgain fl r \<Rightarrow> parse_flags_loop n_flag fl r
      | FlagsNone \<Rightarrow> None)"
  by pat_completeness auto
termination
  by (relation "measure (\<lambda>(n_flag, flags, rest). length rest)")
    (auto dest: parse_flags_turn_shorter)

declare parse_flags_loop.simps [simp del]

definition parse_search_flags ::
  "string \<Rightarrow> search_count_flag \<Rightarrow> (search_flags \<times> string) option" where
  "parse_search_flags raw n_flag =
     parse_flags_loop n_flag search_flags_default (trim_start raw)"

definition parse_search_args :: "string \<Rightarrow> search_count_flag \<Rightarrow> search_args option" where
  "parse_search_args raw n_flag =
     (case parse_search_flags raw n_flag of
        None \<Rightarrow> None
      | Some (flags, rest) \<Rightarrow>
          (let pat = trim_start rest
           in if pat = [] then None
              else Some \<lparr>arg_pattern = pat,
                         arg_case_insensitive = flag_case_insensitive flags,
                         arg_context = min (unwrap_or (flag_context flags) DEFAULT_MATCH_CONTEXT)
                                           MAX_MATCH_CONTEXT,
                         arg_n_value = flag_n_value flags\<rparr>))"

definition parse_match_spec :: "string \<Rightarrow> match_spec option" where
  "parse_match_spec raw0 =
     (let raw = trim_start raw0
      in if raw = [] then
           Some \<lparr>match_pattern = None, match_limit = DEFAULT_MATCH_LIMIT,
                 match_context = DEFAULT_MATCH_CONTEXT\<rparr>
         else
           (case parse_search_flags raw LimitFlag of
              None \<Rightarrow> None
            | Some (flags, rest) \<Rightarrow>
                (let context = min (unwrap_or (flag_context flags) DEFAULT_MATCH_CONTEXT)
                                   MAX_MATCH_CONTEXT
                 in case (case flag_n_value flags of
                            Some value \<Rightarrow> parse_limit_token value
                          | None \<Rightarrow> Some DEFAULT_MATCH_LIMIT) of
                      None \<Rightarrow> None
                    | Some limit \<Rightarrow>
                        Some \<lparr>match_pattern =
                                (if trim rest = [] then None
                                 else Some \<lparr>pattern = trim_start rest,
                                            case_insensitive_ascii = flag_case_insensitive flags\<rparr>),
                              match_limit = clamp limit 1 MAX_MATCH_LIMIT,
                              match_context = context\<rparr>)))"

definition parse_hit_spec :: "string \<Rightarrow> hit_spec option" where
  "parse_hit_spec raw =
     (case parse_search_args raw CountFlag of
        None \<Rightarrow> None
      | Some args \<Rightarrow>
          (case (case arg_n_value args of
                   Some value \<Rightarrow> map_option (\<lambda>n. max n 1) (parse_number_token value)
                 | None \<Rightarrow> Some 1) of
             None \<Rightarrow> None
           | Some count \<Rightarrow>
               Some \<lparr>hit_pattern = \<lparr>pattern = arg_pattern args,
                                    case_insensitive_ascii = arg_case_insensitive args\<rparr>,
                     hit_context = arg_context args,
                     hit_count = clamp count 1 MAX_MATCH_LIMIT\<rparr>))"

text \<open>\<^verbatim>\<open>str::split_once\<close> at a one-byte separator.\<close>

fun split_once :: "char \<Rightarrow> string \<Rightarrow> (string \<times> string) option" where
  "split_once c [] = None"
| "split_once c (b # s) =
     (if b = c then Some ([], s) else map_option (\<lambda>(l, r). (b # l, r)) (split_once c s))"

definition parse_range_spec :: "string \<Rightarrow> (nat \<times> nat) option" where
  "parse_range_spec raw =
     (let trimmed = trim raw
      in if trimmed = [] then None
         else case split_whitespace trimmed of
           [] \<Rightarrow> None
         | [first] \<Rightarrow>
             (case split_once CHR ''-'' first of
                None \<Rightarrow> None
              | Some (left, right) \<Rightarrow>
                  (case (parse_u64 (trim left), parse_u64 (trim right)) of
                     (Some start, Some end) \<Rightarrow>
                       if start = 0 \<or> end = 0 then None else Some (start, end)
                   | _ \<Rightarrow> None))
         | [first, second] \<Rightarrow>
             (case (parse_u64 first, parse_u64 second) of
                (Some start, Some end) \<Rightarrow>
                  if start = 0 \<or> end = 0 then None else Some (start, end)
              | _ \<Rightarrow> None)
         | _ \<Rightarrow> None)"

text \<open>The number and the multiplier of a size suffix; \<open>none\<close> is the multiplier without one.\<close>

definition size_suffix :: "string \<Rightarrow> nat \<Rightarrow> string \<times> nat" where
  "size_suffix lowercase none =
     (let final = (if lowercase = [] then [] else last (chars lowercase));
          strip = (\<lambda>c. trim_end_matches (\<lambda>ch. ch = [c]) lowercase)
      in if final = ''k'' then (strip CHR ''k'', 1024)
         else if final = ''m'' then (strip CHR ''m'', 1024 * 1024)
         else if final = ''b'' then (strip CHR ''b'', 1)
         else (lowercase, none))"

definition parse_tail_spec :: "string \<Rightarrow> tail_spec option" where
  "parse_tail_spec raw0 =
     (let raw = trim raw0
      in if raw = [] then None
         else
           (let lowercase = to_ascii_lowercase raw
            in case strip_suffix lowercase ''l'' of
                 Some value \<Rightarrow> map_option TailLines (parse_u64 (trim value))
               | None \<Rightarrow>
                   (let (number, multiplier) = size_suffix lowercase 0
                    in if multiplier \<noteq> 0 then
                         map_option (\<lambda>bs. TailBytes (sat_mul bs multiplier))
                           (parse_u64 (trim number))
                       else map_option TailLines (parse_u64 lowercase))))"

definition parse_line_number :: "string \<Rightarrow> nat option" where
  "parse_line_number raw =
     (let value = trim (trim_start_matches (\<lambda>ch. is_whitespace ch \<or> ch = '':'') raw)
      in if value = [] then None
         else case parse_u64 value of
           None \<Rightarrow> None
         | Some line \<Rightarrow> if line = 0 then None else Some line)"

definition parse_seek_spec :: "string \<Rightarrow> seek_spec option" where
  "parse_seek_spec raw0 =
     (let raw = trim_start_matches (\<lambda>ch. ch = ''@'') (trim raw0)
      in if raw = [] then None
         else
           (let lowercase = to_ascii_lowercase raw
            in case strip_prefix lowercase ''lines'' of
                 Some rest \<Rightarrow> map_option SeekLine (parse_line_number rest)
               | None \<Rightarrow>
                   (case strip_prefix lowercase ''line'' of
                      Some rest \<Rightarrow> map_option SeekLine (parse_line_number rest)
                    | None \<Rightarrow>
                        (case strip_suffix lowercase ''%'' of
                           Some value \<Rightarrow>
                             map_option (\<lambda>p. SeekPercent (min p 100)) (parse_u64 (trim value))
                         | None \<Rightarrow>
                             (let (number, multiplier) = size_suffix lowercase 1
                              in map_option (\<lambda>bs. SeekOffset (sat_mul bs multiplier))
                                   (parse_u64 (trim number)))))))"

text \<open>The optional count of \<^verbatim>\<open>next\<close>, \<^verbatim>\<open>skip\<close>, \<^verbatim>\<open>n\<close> and \<^verbatim>\<open>p\<close>.\<close>

definition count_arg :: "string list \<Rightarrow> nat" where
  "count_arg parts =
     max (case parts of [] \<Rightarrow> 1 | part # _ \<Rightarrow> unwrap_or (parse_u64 part) 1) 1"

definition parse_slash :: "string \<Rightarrow> pager_command option" where
  "parse_slash pat0 =
     (if pat0 = [] then None
      else
        (case (case strip_word_prefix pat0 ''i'' of
                 Some rest \<Rightarrow> map_option (\<lambda>r. (True, r)) (consume_one_whitespace rest)
               | None \<Rightarrow>
                   (case strip_word_prefix pat0 ''I'' of
                      Some rest \<Rightarrow> map_option (\<lambda>r. (True, r)) (consume_one_whitespace rest)
                    | None \<Rightarrow> Some (False, pat0))) of
           None \<Rightarrow> None
         | Some (ci, pat) \<Rightarrow>
             if pat = [] then None
             else Some (Search \<lparr>pattern = pat, case_insensitive_ascii = ci\<rparr>)))"

definition parse_where :: "string \<Rightarrow> pager_command option" where
  "parse_where after_head =
     (case consume_one_whitespace after_head of
        None \<Rightarrow> None
      | Some rest0 \<Rightarrow>
          (case (case strip_word_prefix rest0 ''-i'' of
                   Some after \<Rightarrow> map_option (\<lambda>r. (True, r)) (consume_one_whitespace after)
                 | None \<Rightarrow>
                     (case strip_word_prefix rest0 ''--ignore-case'' of
                        Some after \<Rightarrow> map_option (\<lambda>r. (True, r)) (consume_one_whitespace after)
                      | None \<Rightarrow> Some (False, rest0))) of
             None \<Rightarrow> None
           | Some (ci, rest) \<Rightarrow>
               if rest = [] then None
               else Some (Where \<lparr>pattern = rest, case_insensitive_ascii = ci\<rparr>)))"

text \<open>The match on the head word; \<open>leading\<close> is the input after the colon.\<close>

definition parse_head :: "string \<Rightarrow> pager_command option" where
  "parse_head leading =
     (let ws = split_whitespace leading;
          head_raw = (case ws of [] \<Rightarrow> [] | w # _ \<Rightarrow> w);
          parts = tl ws;
          rest = drop (length head_raw) leading
      in if head_raw = ''next'' then Some (Next (count_arg parts))
         else if head_raw = ''skip'' then Some (Skip (count_arg parts))
         else if head_raw = ''where'' then parse_where rest
         else if head_raw = ''matches'' then map_option Matches (parse_match_spec rest)
         else if head_raw = ''hits'' then map_option Hits (parse_hit_spec rest)
         else if head_raw = ''a'' then Some All
         else if head_raw = ''range'' then map_option (\<lambda>(s, e). Range s e) (parse_range_spec rest)
         else if head_raw = ''tail'' then
           Some (Tail (case parts of
                         [] \<Rightarrow> TailDefault
                       | arg # _ \<Rightarrow> unwrap_or (parse_tail_spec arg) TailDefault))
         else if head_raw = ''seek'' then map_option Seek (parse_seek_spec (join '' '' parts))
         else if head_raw = ''goto'' then
           (case parts of
              [] \<Rightarrow> None
            | part # _ \<Rightarrow>
                (case parse_u64 part of
                   None \<Rightarrow> None
                 | Some index \<Rightarrow> if index > 0 then Some (Goto index) else None))
         else if head_raw = ''q'' then Some Quit
         else if head_raw = ''n'' then Some (SearchNext (count_arg parts))
         else if head_raw = ''p'' then Some (SearchPrev (count_arg parts))
         else None)"

definition parse_command :: "string \<Rightarrow> pager_command option" where
  "parse_command input =
     (let line = strip_trailing_newlines input
      in if trim line = [] then Some (Next 1)
         else
           (case strip_prefix (trim line) '':'' of
              None \<Rightarrow> None
            | Some rest \<Rightarrow>
                (let trimmed = trim_start rest
                 in if trimmed = [] then None
                    else if trimmed = ''help'' then Some Help
                    else
                      (case strip_prefix trimmed ''/'' of
                         Some pat \<Rightarrow> parse_slash pat
                       | None \<Rightarrow> parse_head trimmed))))"

section \<open>Parsed commands are well formed\<close>

definition wf_pattern :: "search_pattern \<Rightarrow> bool" where
  "wf_pattern p \<longleftrightarrow> pattern p \<noteq> []"

definition wf_match_spec :: "match_spec \<Rightarrow> bool" where
  "wf_match_spec m \<longleftrightarrow>
     pred_option wf_pattern (match_pattern m) \<and> 1 \<le> match_limit m \<and>
     match_limit m \<le> MAX_MATCH_LIMIT \<and> match_context m \<le> MAX_MATCH_CONTEXT"

definition wf_hit_spec :: "hit_spec \<Rightarrow> bool" where
  "wf_hit_spec h \<longleftrightarrow>
     wf_pattern (hit_pattern h) \<and> 1 \<le> hit_count h \<and> hit_count h \<le> MAX_MATCH_LIMIT \<and>
     hit_context h \<le> MAX_MATCH_CONTEXT"

fun wf_seek :: "seek_spec \<Rightarrow> bool" where
  "wf_seek (SeekOffset n) = (n \<le> u64_max)"
| "wf_seek (SeekPercent p) = (p \<le> 100)"
| "wf_seek (SeekLine n) = (1 \<le> n \<and> n \<le> u64_max)"

fun wf_tail :: "tail_spec \<Rightarrow> bool" where
  "wf_tail TailDefault = True"
| "wf_tail (TailBytes n) = (n \<le> u64_max)"
| "wf_tail (TailLines n) = (n \<le> u64_max)"

fun wf_command :: "pager_command \<Rightarrow> bool" where
  "wf_command (Next n) = (1 \<le> n \<and> n \<le> u64_max)"
| "wf_command (Skip n) = (1 \<le> n \<and> n \<le> u64_max)"
| "wf_command (SearchNext n) = (1 \<le> n \<and> n \<le> u64_max)"
| "wf_command (SearchPrev n) = (1 \<le> n \<and> n \<le> u64_max)"
| "wf_command (Goto n) = (1 \<le> n \<and> n \<le> u64_max)"
| "wf_command (Range s e) = (1 \<le> s \<and> 1 \<le> e \<and> s \<le> u64_max \<and> e \<le> u64_max)"
| "wf_command (Tail t) = wf_tail t"
| "wf_command (Search p) = wf_pattern p"
| "wf_command (Where p) = wf_pattern p"
| "wf_command (Matches m) = wf_match_spec m"
| "wf_command (Hits h) = wf_hit_spec h"
| "wf_command (Seek s) = wf_seek s"
| "wf_command All = True"
| "wf_command Help = True"
| "wf_command Quit = True"

lemma count_arg_bounds: "1 \<le> count_arg parts \<and> count_arg parts \<le> u64_max"
  by (auto simp: count_arg_def unwrap_or_def u64_max_def dest!: parse_u64_le
      split: list.split option.split)

lemma pred_parse_u64: "(\<And>n. n \<le> u64_max \<Longrightarrow> P n) \<Longrightarrow> pred_option P (parse_u64 s)"
  by (cases "parse_u64 s") (auto dest: parse_u64_le)

lemma parse_line_number_wf: "pred_option (\<lambda>n. 1 \<le> n \<and> n \<le> u64_max) (parse_line_number raw)"
  by (auto simp: parse_line_number_def Let_def dest: parse_u64_le split: option.split)

lemma parse_seek_spec_wf: "pred_option wf_seek (parse_seek_spec raw)"
  using parse_line_number_wf
  by (auto simp: parse_seek_spec_def Let_def sat_mul_le option.pred_map comp_def
      intro!: pred_parse_u64 split: option.split prod.split)

lemma parse_tail_spec_wf: "pred_option wf_tail (parse_tail_spec raw)"
  by (auto simp: parse_tail_spec_def Let_def sat_mul_le option.pred_map comp_def
      intro!: pred_parse_u64 split: option.split prod.split)

lemma parse_range_spec_wf:
  "pred_option (\<lambda>(s, e). wf_command (Range s e)) (parse_range_spec raw)"
  by (auto simp: parse_range_spec_def Let_def dest: parse_u64_le split: list.split option.split)

lemma parse_match_spec_wf: "pred_option wf_match_spec (parse_match_spec raw)"
  by (auto simp: parse_match_spec_def Let_def wf_match_spec_def wf_pattern_def clamp_def
      match_consts trim_def split: option.split)

lemma parse_search_args_wf:
  "pred_option (\<lambda>a. arg_pattern a \<noteq> [] \<and> arg_context a \<le> MAX_MATCH_CONTEXT)
     (parse_search_args raw n_flag)"
  by (auto simp: parse_search_args_def Let_def split: option.split)

lemma parse_hit_spec_wf: "pred_option wf_hit_spec (parse_hit_spec raw)"
  using parse_search_args_wf [of raw CountFlag]
  by (auto simp: parse_hit_spec_def wf_hit_spec_def wf_pattern_def clamp_def match_consts
      split: option.split)

lemma parse_slash_wf: "pred_option wf_command (parse_slash pat)"
  by (auto simp: parse_slash_def wf_pattern_def split: option.split prod.split)

lemma parse_where_wf: "pred_option wf_command (parse_where s)"
  by (auto simp: parse_where_def wf_pattern_def split: option.split prod.split)

lemma tail_arg_wf:
  "wf_tail (case parts of [] \<Rightarrow> TailDefault | arg # _ \<Rightarrow> unwrap_or (parse_tail_spec arg) TailDefault)"
  using parse_tail_spec_wf by (auto simp: unwrap_or_def split: list.split option.split)
    (metis option.pred_inject(2))

lemma goto_arg_wf:
  "pred_option wf_command
     (case parts of [] \<Rightarrow> None
      | part # _ \<Rightarrow> (case parse_u64 part of None \<Rightarrow> None
                    | Some index \<Rightarrow> if index > 0 then Some (Goto index) else None))"
  by (auto dest: parse_u64_le split: list.split option.split)

lemma parse_head_wf: "pred_option wf_command (parse_head s)"
proof -
  have if_wf: "pred_option wf_command a \<Longrightarrow> pred_option wf_command b \<Longrightarrow>
      pred_option wf_command (if c then a else b)" for a b c
    by simp
  show ?thesis
    unfolding parse_head_def Let_def
    by (intro if_wf goto_arg_wf parse_where_wf)
      (simp_all add: option.pred_map comp_def case_prod_unfold count_arg_bounds [simplified] tail_arg_wf
        parse_match_spec_wf parse_hit_spec_wf parse_seek_spec_wf
        parse_range_spec_wf [unfolded case_prod_unfold, simplified])
qed

lemma parse_command_wf: "pred_option wf_command (parse_command input)"
  using parse_slash_wf parse_head_wf
  by (simp add: parse_command_def Let_def u64_max_def split: option.split)

text \<open>
  every command the parser accepts satisfies the bounds the pager relies on: counts and line
  numbers are at least 1, a match limit lies in 1..500, a context is at most 5 lines, a seek
  percentage at most 100, search patterns are non-empty, and all numbers fit in 64 bits.
\<close>

theorem parsed_command_bounds:
  assumes "parse_command input = Some command"
  shows "wf_command command"
  using parse_command_wf [of input] by (simp add: assms)

theorem parsed_command_bounds_witness:
  "wf_command (Hits \<lparr>hit_pattern = \<lparr>pattern = ''bar'', case_insensitive_ascii = False\<rparr>,
                     hit_context = 5, hit_count = 500\<rparr>)"
  by (rule parsed_command_bounds [of "'':hits -C 999 -n 9999 bar''"]) code_simp

section \<open>Round trip: canonical spellings\<close>

text \<open>
  A canonical spelling of every command without free text, as a list of words, and of searches.
\<close>

fun command_words :: "pager_command \<Rightarrow> string list" where
  "command_words (Next n) = [''next'', dec n]"
| "command_words (Skip n) = [''skip'', dec n]"
| "command_words (SearchNext n) = [''n'', dec n]"
| "command_words (SearchPrev n) = [''p'', dec n]"
| "command_words (Goto n) = [''goto'', dec n]"
| "command_words (Range s e) = [''range'', dec s, dec e]"
| "command_words (Tail TailDefault) = [''tail'']"
| "command_words (Tail (TailBytes n)) = [''tail'', dec n @ ''b'']"
| "command_words (Tail (TailLines n)) = [''tail'', dec n @ ''l'']"
| "command_words (Seek (SeekOffset n)) = [''seek'', ''@'' @ dec n]"
| "command_words (Seek (SeekPercent n)) = [''seek'', dec n @ ''%'']"
| "command_words (Seek (SeekLine n)) = [''seek'', ''line'', dec n]"
| "command_words All = [''a'']"
| "command_words Help = [''help'']"
| "command_words Quit = [''q'']"
| "command_words _ = []"

definition print_command :: "pager_command \<Rightarrow> string" where
  "print_command c = '':'' @ join '' '' (command_words c) @ nl"

definition word :: "string \<Rightarrow> bool" where
  "word w \<longleftrightarrow> w \<noteq> [] \<and> list_all (\<lambda>b. ord b < 128 \<and> \<not> ascii_ws b) w"

lemma word_dec: "word (dec n)"
  using dec_digits [of n] by (auto simp: word_def list_all_iff is_digit_def ascii_ws_def)

lemma word_append: "word v \<Longrightarrow> list_all (\<lambda>b. ord b < 128 \<and> \<not> ascii_ws b) w \<Longrightarrow> word (v @ w) \<and> word (w @ v)"
  by (auto simp: word_def)

lemma word_ascii: "word w \<Longrightarrow> is_ascii w"
  by (auto simp: word_def is_ascii_def list_all_iff)

lemma split_on_none: "list_all (\<lambda>x. \<not> p x) w \<Longrightarrow> split_on p w = [w]"
  by (induction w) auto

lemma split_on_sep: "list_all (\<lambda>x. \<not> p x) w \<Longrightarrow> p x \<Longrightarrow> split_on p (w @ x # v) = w # split_on p v"
  by (induction w) auto

lemma join_words_ascii: "list_all word ws \<Longrightarrow> is_ascii (join '' '' ws)"
  by (induction "'' ''" ws rule: join.induct) (auto dest: word_ascii)

lemma chars_word_no_ws: "word w \<Longrightarrow> list_all (\<lambda>c. \<not> is_whitespace c) (map (\<lambda>b. [b]) w)"
  by (auto simp: word_def list_all_iff is_whitespace_ascii)

lemma split_whitespace_word: "word w \<Longrightarrow> split_whitespace w = [w]"
  by (simp add: split_whitespace_def chars_ascii [OF word_ascii] split_on_none chars_word_no_ws)
    (simp add: word_def)

lemma split_whitespace_Cons:
  assumes "word w" and "is_ascii s"
  shows "split_whitespace (w @ '' '' @ s) = w # split_whitespace s"
proof -
  have "is_whitespace '' ''" by (simp add: is_whitespace_def)
  moreover have "chars (w @ '' '' @ s) = map (\<lambda>b. [b]) w @ '' '' # chars s"
    using assms by (simp add: chars_ascii word_ascii)
  ultimately show ?thesis
    using assms(1) by (simp add: split_whitespace_def split_on_sep chars_word_no_ws)
      (simp add: word_def)
qed

lemma split_whitespace_join: "list_all word ws \<Longrightarrow> split_whitespace (join '' '' ws) = ws"
proof (induction "'' ''" ws rule: join.induct)
  case (3 w w' ws)
  then show ?case
    using split_whitespace_Cons [of w "join '' '' (w' # ws)"] join_words_ascii [of "w' # ws"]
    by simp
next
  case 1
  show ?case by (simp add: split_whitespace_def)
next
  case (2 w)
  then show ?case by (simp add: split_whitespace_word)
qed

text \<open>A line of ASCII text without blanks at its ends is unchanged by trimming.\<close>

definition tight :: "string \<Rightarrow> bool" where
  "tight s \<longleftrightarrow> is_ascii s \<and> s \<noteq> [] \<and> \<not> ascii_ws (hd s) \<and> \<not> ascii_ws (last s)"

lemma tight_trim_start: "tight s \<Longrightarrow> trim_start s = s"
  by (cases s) (auto simp: tight_def trim_start_ascii_ne)

lemma tight_trim_end:
  assumes "tight s"
  shows "trim_end s = s"
proof -
  have "chars s = map (\<lambda>b. [b]) (butlast s @ [last s])"
    using assms by (simp add: tight_def chars_ascii del: map_append)
  moreover have "ord (last s) < 128"
    using assms by (auto simp: tight_def is_ascii_def list_all_iff)
  ultimately show ?thesis
    using assms by (simp add: trim_end_matches_def is_whitespace_ascii tight_def)
qed

lemma tight_trim: "tight s \<Longrightarrow> trim s = s"
  by (simp add: trim_def tight_trim_start tight_trim_end)

lemma strip_newline_tight:
  assumes "tight s"
  shows "strip_trailing_newlines (s @ nl) = s"
proof -
  have "last s \<noteq> CHR 0x0D" using assms by (auto simp: tight_def ascii_ws_def)
  then have "strip_suffix s [CHR 0x0D] = None"
    using assms by (auto simp: strip_suffix_def ends_with_def tight_def)
      (metis append_butlast_last_id append_eq_conv_conj append_take_drop_id last_appendR last_ConsL
        list.distinct(1))
  moreover have "strip_suffix (s @ nl) nl = Some s"
    by (simp add: strip_suffix_def ends_with_def)
  ultimately show ?thesis by (simp add: strip_trailing_newlines_def unwrap_or_def Let_def)
qed

lemma word_tight: "word w \<Longrightarrow> tight w"
  by (auto simp: word_def tight_def is_ascii_def list_all_iff)

lemma join_words_ends:
  assumes "list_all word ws" and "ws \<noteq> []"
  shows "join '' '' ws \<noteq> [] \<and> hd (join '' '' ws) = hd (hd ws) \<and>
         last (join '' '' ws) = last (last ws)"
  using assms
proof (induction "'' ''" ws rule: join.induct)
  case (3 w w' ws)
  then show ?case by (auto simp: word_def)
qed (auto simp: word_def)

lemma tight_join:
  assumes "list_all word ws" and "ws \<noteq> []"
  shows "tight (join '' '' ws)"
proof -
  have "word (hd ws)" "word (last ws)"
    using assms by (auto simp: list_all_iff)
  then show ?thesis
    using join_words_ends [OF assms] join_words_ascii [OF assms(1)] word_tight
    by (auto simp: tight_def)
qed

text \<open>The front end of the parser on a canonical line.\<close>

lemma parse_command_words:
  assumes "list_all word ws" and "ws \<noteq> []" and "hd (hd ws) \<noteq> CHR ''/''"
  shows "parse_command ('':'' @ join '' '' ws @ nl) =
     (if join '' '' ws = ''help'' then Some Help else parse_head (join '' '' ws))"
proof -
  let ?s = "join '' '' ws"
  have s: "tight ?s" "?s \<noteq> []" using tight_join [OF assms(1,2)] by (auto simp: tight_def)
  then have t: "tight ('':'' @ ?s)" by (simp add: tight_def ascii_ws_def)
  have "strip_prefix ('':'' @ ?s) '':'' = Some ?s"
    by (simp add: strip_prefix_def starts_with_def)
  moreover have "strip_prefix ?s ''/'' = None"
    using assms(3) join_words_ends [OF assms(1,2)] s(2)
    by (cases ?s) (auto simp: strip_prefix_def starts_with_def)
  ultimately show ?thesis
    using s strip_newline_tight [OF t] tight_trim [OF t]
    by (simp add: parse_command_def Let_def tight_trim_start)
qed

lemma strip_suffix_snoc: "strip_suffix (s @ [c]) [d] = (if c = d then Some s else None)"
  by (simp add: strip_suffix_def ends_with_def)

lemma to_ascii_lowercase_append [simp]:
  "to_ascii_lowercase (s @ t) = to_ascii_lowercase s @ to_ascii_lowercase t"
  by (simp add: to_ascii_lowercase_def)

lemma lower_dec [simp]: "to_ascii_lowercase (dec n) = dec n"
  using dec_digits [of n]
  by (auto simp: to_ascii_lowercase_def list_all_iff is_digit_def ascii_lower_def intro!: map_idI)

lemma dec_snoc: "\<exists>r b. dec n = r @ [b] \<and> is_digit b"
  using dec_digits [of n] by (cases "dec n" rule: rev_cases) auto

lemma size_suffix_b: "size_suffix (dec n @ ''b'') k = (dec n, 1)"
proof -
  obtain r b where r: "dec n = r @ [b]" and b: "is_digit b" using dec_snoc by blast
  have "is_ascii (dec n)" using word_ascii [OF word_dec] .
  then have "chars (dec n @ ''b'') = map (\<lambda>b. [b]) r @ [[b], ''b'']"
    using r by (simp add: chars_ascii)
  moreover have "b \<noteq> CHR ''b''" using b by (auto simp: is_digit_def)
  ultimately show ?thesis
    using r by (simp add: size_suffix_def Let_def trim_end_matches_def)
qed

lemma size_suffix_digits: "size_suffix (dec n) k = (dec n, k)"
proof -
  obtain r b where r: "dec n = r @ [b]" and b: "is_digit b" using dec_snoc by blast
  have "is_ascii (dec n)" using word_ascii [OF word_dec] .
  then have "last (chars (dec n)) = [b]" using r by (simp add: chars_ascii)
  moreover have "b \<noteq> CHR ''k''" "b \<noteq> CHR ''m''" "b \<noteq> CHR ''b''"
    using b by (auto simp: is_digit_def)
  moreover have "dec n \<noteq> []" using r by simp
  ultimately show ?thesis by (simp add: size_suffix_def Let_def)
qed

lemma strip_suffix_dec: "\<not> is_digit c \<Longrightarrow> strip_suffix (dec n) [c] = None"
  using dec_snoc [of n] by (auto simp: strip_suffix_snoc)

lemma hd_dec_ne: "\<not> is_digit c \<Longrightarrow> hd (dec n) \<noteq> c"
  using dec_Cons [of n] by auto

lemma strip_prefix_dec:
  "\<not> is_digit c \<Longrightarrow> strip_prefix (dec n @ s) (c # p) = None"
  "\<not> is_digit c \<Longrightarrow> strip_prefix (dec n) (c # p) = None"
  using dec_Cons [of n] by (auto simp: strip_prefix_def starts_with_def)

lemma trim_dec [simp]: "trim (dec n) = dec n"
  by (rule tight_trim [OF word_tight [OF word_dec]])

lemma dec_not_Nil [simp]: "dec n \<noteq> []"
  using dec_digits by blast

lemma trim_start_dec: "\<not> p [hd (dec n)] \<Longrightarrow> trim_start_matches p (dec n) = dec n"
proof -
  assume "\<not> p [hd (dec n)]"
  moreover have "chars (dec n) = map (\<lambda>b. [b]) (dec n)"
    using word_ascii [OF word_dec] by (rule chars_ascii)
  ultimately show ?thesis
    by (cases "dec n") (simp_all add: trim_start_matches_def)
qed

lemma hd_dec_digit: "is_digit (hd (dec n))"
  using dec_Cons [of n] by auto

lemma parse_tail_spec_words:
  "n \<le> u64_max \<Longrightarrow> parse_tail_spec (dec n @ ''b'') = Some (TailBytes n)"
  "n \<le> u64_max \<Longrightarrow> parse_tail_spec (dec n @ ''l'') = Some (TailLines n)"
proof -
  have w: "word (dec n @ ''b'')" "word (dec n @ ''l'')"
    using word_append [OF word_dec [of n]] by (simp_all add: ascii_ws_def)
  assume "n \<le> u64_max"
  with w show "parse_tail_spec (dec n @ ''b'') = Some (TailBytes n)"
    by (simp add: parse_tail_spec_def Let_def tight_trim word_tight strip_suffix_snoc
        size_suffix_b parse_u64_dec sat_mul_def to_ascii_lowercase_def [of "''b''"] ascii_lower_def)
  from \<open>n \<le> u64_max\<close> w show "parse_tail_spec (dec n @ ''l'') = Some (TailLines n)"
    by (simp add: parse_tail_spec_def Let_def tight_trim word_tight strip_suffix_snoc
        parse_u64_dec to_ascii_lowercase_def [of "''l''"] ascii_lower_def)
qed

lemma parse_seek_offset: "n \<le> u64_max \<Longrightarrow> parse_seek_spec (''@'' @ dec n) = Some (SeekOffset n)"
proof -
  assume n: "n \<le> u64_max"
  have w: "word (''@'' @ dec n)" using word_append [OF word_dec [of n], of "''@''"] by (simp add: ascii_ws_def)
  have "trim_start_matches (\<lambda>ch. ch = ''@'') (''@'' @ dec n) = dec n"
    using hd_dec_ne [of "CHR ''@''" n] trim_start_dec [of "\<lambda>ch. ch = ''@''" n]
    by (simp add: trim_start_matches_def chars_ascii_Cons is_digit_def)
  moreover have "\<not> is_digit CHR ''l''" "\<not> is_digit CHR ''%''" by (simp_all add: is_digit_def)
  ultimately show ?thesis
    using n w tight_trim [OF word_tight [OF w]]
    by (simp add: parse_seek_spec_def Let_def size_suffix_digits parse_u64_dec sat_mul_def
        strip_suffix_dec strip_prefix_dec)
qed

lemma parse_seek_percent: "n \<le> 100 \<Longrightarrow> parse_seek_spec (dec n @ ''%'') = Some (SeekPercent n)"
proof -
  assume n: "n \<le> 100"
  have w: "word (dec n @ ''%'')" using word_append [OF word_dec [of n]] by (simp add: ascii_ws_def)
  have "trim_start_matches (\<lambda>ch. ch = ''@'') (dec n @ ''%'') = dec n @ ''%''"
    using dec_Cons [of n]
    by (auto simp: trim_start_matches_def chars_ascii_Cons is_digit_def)
  moreover have "\<not> is_digit CHR ''l''" by (simp add: is_digit_def)
  moreover have "n \<le> u64_max" using n by (simp add: u64_max_def)
  ultimately show ?thesis
    using n w tight_trim [OF word_tight [OF w]] parse_u64_dec [of n]
    by (simp add: parse_seek_spec_def Let_def strip_prefix_dec strip_suffix_snoc
        to_ascii_lowercase_def [of "''%''"] ascii_lower_def)
qed

lemma parse_seek_line:
  "1 \<le> n \<Longrightarrow> n \<le> u64_max \<Longrightarrow> parse_seek_spec (''line '' @ dec n) = Some (SeekLine n)"
proof -
  assume n: "1 \<le> n" "n \<le> u64_max"
  have t: "tight (''line '' @ dec n)"
    using word_tight [OF word_dec [of n]] by (simp add: tight_def ascii_ws_def)
  have lower: "to_ascii_lowercase (''line '' @ dec n) = ''line '' @ dec n"
    unfolding to_ascii_lowercase_append by (simp add: to_ascii_lowercase_def [of "''line ''"] ascii_lower_def)
  have "trim_start_matches (\<lambda>ch. ch = ''@'') (''line '' @ dec n) = ''line '' @ dec n"
    by (simp add: trim_start_matches_def chars_ascii_Cons)
  moreover have "trim_start_matches (\<lambda>ch. is_whitespace ch \<or> ch = '':'') ('' '' @ dec n) = dec n"
    using trim_start_dec [of "\<lambda>ch. is_whitespace ch \<or> ch = '':''" n] hd_dec_ne [of "CHR '':''" n]
      hd_dec_digit [of n]
    by (simp add: trim_start_matches_def chars_ascii_Cons is_whitespace_ascii ascii_ws_def
        is_digit_def)
  ultimately show ?thesis
    using n lower tight_trim [OF t] parse_u64_dec [of n]
    by (simp add: parse_seek_spec_def Let_def strip_prefix_def starts_with_def parse_line_number_def)
qed

lemma parse_range_words:
  assumes "1 \<le> s" "1 \<le> e" "s \<le> u64_max" "e \<le> u64_max"
  shows "parse_range_spec ('' '' @ dec s @ '' '' @ dec e) = Some (s, e)"
proof -
  have ws: "list_all word [dec s, dec e]" by (simp add: word_dec)
  have "trim ('' '' @ dec s @ '' '' @ dec e) = dec s @ '' '' @ dec e"
    using tight_join [OF ws] tight_trim_end tight_trim_start
    by (simp add: trim_def trim_start_ws ascii_ws_def)
  with assms split_whitespace_join [OF ws] show ?thesis
    by (simp add: parse_range_spec_def Let_def parse_u64_dec)
qed

lemma count_arg_dec: "1 \<le> n \<Longrightarrow> n \<le> u64_max \<Longrightarrow> count_arg [dec n] = n"
  by (simp add: count_arg_def parse_u64_dec unwrap_or_def)

lemma command_words_word: "list_all word (command_words c)"
  by (cases c rule: command_words.cases)
    (simp_all add: word_dec word_append [OF word_dec, THEN conjunct1]
      word_append [OF word_dec, of "''@''", THEN conjunct2, simplified] ascii_ws_def,
     simp_all add: word_def ascii_ws_def)

lemma parse_head_command_words:
  assumes "wf_command c" and "command_words c \<noteq> []" and "c \<noteq> Help"
  shows "parse_head (join '' '' (command_words c)) = Some c"
  using assms split_whitespace_join [OF command_words_word [of c]]
    parse_seek_offset [simplified] parse_seek_line [simplified] parse_range_words [simplified]
  by (cases c rule: command_words.cases)
    (simp_all add: parse_head_def Let_def count_arg_dec parse_u64_dec parse_tail_spec_words
      unwrap_or_def parse_seek_percent)

text \<open>
  C23. parsing is the inverse of the canonical spelling: for every well-formed command without
  free text, the line that spells it (with its trailing newline) parses back to that command.
\<close>

theorem parse_print_round_trip:
  assumes "wf_command c" and "command_words c \<noteq> []"
  shows "parse_command (print_command c) = Some c"
proof -
  have "hd (hd (command_words c)) \<noteq> CHR ''/''"
    using assms(2) by (cases c rule: command_words.cases) simp_all
  then have *: "parse_command (print_command c) =
      (if join '' '' (command_words c) = ''help'' then Some Help
       else parse_head (join '' '' (command_words c)))"
    using parse_command_words [OF command_words_word assms(2)] by (simp add: print_command_def)
  show ?thesis
  proof (cases "c = Help")
    case False
    with assms have "join '' '' (command_words c) \<noteq> ''help''"
      by (cases c rule: command_words.cases) simp_all
    with * parse_head_command_words [OF assms False] show ?thesis by simp
  next
    case True
    with * show ?thesis by simp
  qed
qed

theorem parse_print_round_trip_witness:
  "parse_command ('':seek line 42'' @ nl) = Some (Seek (SeekLine 42))"
proof -
  have "wf_command (Seek (SeekLine 42))" and "command_words (Seek (SeekLine 42)) \<noteq> []"
    by code_simp+
  from parse_print_round_trip [OF this] show ?thesis by code_simp
qed

section \<open>Flags without a pattern\<close>

lemma split_first_token_word:
  assumes "word w" and "is_ascii r" and "r = [] \<or> ascii_ws (hd r)"
  shows "split_first_token (w @ r) = Some (w, r)"
proof -
  have w: "w \<noteq> []" "is_ascii w" using assms(1) word_ascii by (auto simp: word_def)
  have "trim_start (w @ r) = w @ r"
    using assms(1) by (cases w) (auto simp: word_def trim_start_ascii_ne)
  moreover have "chars (w @ r) = map (\<lambda>b. [b]) w @ map (\<lambda>b. [b]) r"
    using w assms(2) by (simp add: chars_ascii)
  moreover have "takeWhile (\<lambda>ch. \<not> is_whitespace ch) (map (\<lambda>b. [b]) r) = []"
    and "dropWhile (\<lambda>ch. \<not> is_whitespace ch) (map (\<lambda>b. [b]) r) = map (\<lambda>b. [b]) r"
    using assms(2,3) by (cases r; simp add: is_whitespace_ascii)+
  moreover have "takeWhile (\<lambda>ch. \<not> is_whitespace ch) (map (\<lambda>b. [b]) w @ s) =
      map (\<lambda>b. [b]) w @ takeWhile (\<lambda>ch. \<not> is_whitespace ch) s"
    and "dropWhile (\<lambda>ch. \<not> is_whitespace ch) (map (\<lambda>b. [b]) w @ s) =
      dropWhile (\<lambda>ch. \<not> is_whitespace ch) s" for s
    using chars_word_no_ws [OF assms(1)]
    by (auto simp: list_all_iff intro!: takeWhile_append2 dropWhile_append2)
  ultimately show ?thesis
    using w(1) by (simp add: split_first_token_def Let_def)
qed

lemma parse_flags_loop_end: "parse_flags_loop n_flag flags [] = None"
  by (simp add: parse_flags_loop.simps [of n_flag flags "[]"] parse_flags_turn_def Let_def
      split_first_token_def)

text \<open>
  \<^verbatim>\<open>:matches -n N\<close> without a pattern is not a command, for every \<^verbatim>\<open>N\<close> (in particular
  \<^verbatim>\<open>all\<close>): the flag loop wants another token after the flags. The pager's help declares the
  pattern optional and its own hint tells the user to type \<^verbatim>\<open>:matches -n all\<close>.
\<close>

theorem matches_flags_without_pattern_rejected:
  assumes "word v"
  shows "parse_command ('':matches -n '' @ v @ nl) = None"
proof -
  have ws: "list_all word [''matches'', ''-n'', v]"
    using assms by (simp add: word_def ascii_ws_def)
  have v: "split_first_token ('' '' @ v) = Some (v, [])"
    using split_first_token_word [OF assms, of "[]"]
    by (simp add: split_first_token_def trim_start_ws ascii_ws_def)
  have "split_first_token (''-n'' @ '' '' @ v) = Some (''-n'', '' '' @ v)"
    using assms word_ascii by (intro split_first_token_word) (simp_all add: word_def ascii_ws_def)
  with v have "parse_flags_loop LimitFlag search_flags_default (''-n '' @ v) = None"
    by (subst parse_flags_loop.simps)
      (simp add: parse_flags_turn_def Let_def with_value_def starts_with_def parse_flags_loop_end)
  moreover have "trim_start (''-n '' @ v) = ''-n '' @ v"
    by (simp add: trim_start_ascii_ne ascii_ws_def)
  ultimately have "parse_match_spec ('' -n '' @ v) = None"
    by (simp add: parse_match_spec_def parse_search_flags_def trim_start_ws ascii_ws_def)
  then show ?thesis
    using parse_command_words [OF ws] split_whitespace_join [OF ws]
    by (simp add: parse_head_def Let_def)
qed

theorem matches_flags_without_pattern_rejected_witness:
  "parse_command ('':matches -n all'' @ nl) = None"
  using matches_flags_without_pattern_rejected [of "''all''"] by (simp add: word_def ascii_ws_def)

end
