(* ===== verification/Pager_Pages.thy ===== *)
theory Pager_Pages
  imports Pager_Buffer Presentation Pager_Command
begin

text \<open>
  The paging functions of \<^verbatim>\<open>src/src/pager/mod.rs\<close>: how much text a page takes, which text is
  elided because it was already shown, and how the cursor moves. The \<^verbatim>\<open>while\<close> loops are
  functions whose termination is proved: each turn moves the cursor towards the end.
\<close>

section \<open>Model\<close>

definition DEFAULT_PAGER_PAGE_CHARS :: nat where "DEFAULT_PAGER_PAGE_CHARS = 3500"
definition MIN_PAGER_PAGE_CHARS :: nat where "MIN_PAGER_PAGE_CHARS = 64"
definition MAX_IMAGES_PER_PAGE :: nat where "MAX_IMAGES_PER_PAGE = 2"
definition IMAGE_EQUIV_CHARS :: nat where "IMAGE_EQUIV_CHARS = 800"

lemmas pager_consts =
  DEFAULT_PAGER_PAGE_CHARS_def MIN_PAGER_PAGE_CHARS_def MAX_IMAGES_PER_PAGE_def
  IMAGE_EQUIV_CHARS_def

text \<open>\<^verbatim>\<open>page_bytes\<close> reads two environment variables; \<open>chars_env\<close> and \<open>bytes_env\<close> are their values.\<close>

definition page_bytes :: "string option \<Rightarrow> string option \<Rightarrow> nat" where
  "page_bytes chars_env bytes_env =
     (let parsed = (case Option.bind chars_env (\<lambda>v. parse_u64 (trim v)) of
            Some n \<Rightarrow> Some n
          | None \<Rightarrow> Option.bind bytes_env (\<lambda>v. parse_u64 (trim v)))
      in max (unwrap_or parsed DEFAULT_PAGER_PAGE_CHARS) MIN_PAGER_PAGE_CHARS)"

definition pages_left :: "pager_buffer \<Rightarrow> nat \<Rightarrow> nat \<Rightarrow> nat \<Rightarrow> nat" where
  "pages_left b current end_offset page =
     (let end_offset = min end_offset (buf_len b);
          current = min current end_offset;
          remaining_text = end_offset - current;
          remaining_images = count_images_in_range b current end_offset
      in if remaining_text = 0 \<and> remaining_images = 0 then 0
         else
           (let page = max page 1
            in if remaining_text \<le> page \<and>
                  (MAX_IMAGES_PER_PAGE = 0 \<or> remaining_images \<le> MAX_IMAGES_PER_PAGE)
               then 0
               else
                 (let image_cost = sat_mul remaining_images IMAGE_EQUIV_CHARS;
                      cost_pages = div_ceil (sat_add remaining_text image_cost) page;
                      image_pages = (if MAX_IMAGES_PER_PAGE = 0 then 0
                                     else div_ceil remaining_images MAX_IMAGES_PER_PAGE)
                  in max cost_pages image_pages)))"

definition pages_left_for_buffer :: "pager_buffer \<Rightarrow> nat \<Rightarrow> nat" where
  "pages_left_for_buffer b page = pages_left b (current_offset b) (buf_len b) (max page 1)"

text \<open>The candidate end of a page that shows the first \<open>k\<close> images of the range.\<close>

definition image_candidate ::
  "pager_buffer \<Rightarrow> nat \<Rightarrow> nat \<Rightarrow> nat \<Rightarrow> nat list \<Rightarrow> nat \<Rightarrow> nat option" where
  "image_candidate b start_offset end_offset target image_offsets k =
     (let image_cost = sat_mul k IMAGE_EQUIV_CHARS;
          text_budget = target - image_cost;
          budget_end = sat_add start_offset text_budget;
          segment_start = (if k = 0 then start_offset else image_offsets ! (k - 1));
          segment_end_exclusive =
            (if k < length image_offsets then image_offsets ! k else sat_add end_offset 1)
      in if segment_end_exclusive = 0 then None
         else
           (let segment_end_inclusive = segment_end_exclusive - 1;
                candidate_end = min (min end_offset budget_end) segment_end_inclusive
            in if candidate_end < segment_start then None
               else
                 (let aligned_budget = candidate_end - start_offset
                  in if aligned_budget > 0 then
                       (let aligned = page_end_offset b start_offset candidate_end aligned_budget
                        in Some (if aligned \<ge> segment_start then aligned else candidate_end))
                     else Some candidate_end)))"

definition page_end_offset_with_images ::
  "pager_buffer \<Rightarrow> nat \<Rightarrow> nat \<Rightarrow> nat \<Rightarrow> nat \<Rightarrow> nat" where
  "page_end_offset_with_images b start_offset end_offset target max_images =
     (let end_offset = min end_offset (buf_len b)
      in if start_offset \<ge> end_offset then end_offset
         else
           (let remaining_text = end_offset - start_offset;
                remaining_images = count_images_in_range b start_offset end_offset
            in if remaining_text \<le> target \<and> (max_images = 0 \<or> remaining_images \<le> max_images)
               then end_offset
               else if max_images = 0 then page_end_offset b start_offset end_offset target
               else
                 (let image_offsets =
                        image_offsets_in_range b start_offset end_offset (max_images + 1);
                      max_k = min (length image_offsets) max_images
                  in foldl (\<lambda>best_end k.
                       case image_candidate b start_offset end_offset target image_offsets k of
                         None \<Rightarrow> best_end
                       | Some candidate_end \<Rightarrow>
                           if candidate_end > best_end then candidate_end else best_end)
                     start_offset [0..<Suc max_k])))"

subsection \<open>take\_next\_page\<close>

record page_state =
  pg_cursor :: nat
  pg_budget :: nat
  pg_contents :: "worker_content list"
  pg_span :: range_span
  pg_gap :: "range option"
  pg_seen :: range_set

text \<open>The local variables before the loop.\<close>

definition page_start :: "nat \<Rightarrow> nat \<Rightarrow> range_set \<Rightarrow> page_state" where
  "page_start cur budget sn =
     \<lparr>pg_cursor = cur, pg_budget = budget, pg_contents = [], pg_span = range_span_default,
      pg_gap = None, pg_seen = sn\<rparr>"

text \<open>The end of one turn of a paging loop: leave the loop, or go round again.\<close>

datatype 'a turn = Leave 'a | Again 'a

definition extend_gap :: "nat \<Rightarrow> nat \<Rightarrow> range option \<Rightarrow> range option" where
  "extend_gap cur gap_end gap =
     Some (case gap of Some (gap_start, _) \<Rightarrow> (gap_start, gap_end) | None \<Rightarrow> (cur, gap_end))"

definition gap_contents :: "range option \<Rightarrow> worker_content list" where
  "gap_contents gap =
     (case gap of None \<Rightarrow> [] | Some (gap_start, gap_end) \<Rightarrow> [elision_marker gap_start gap_end])"

definition next_seen_start :: "range_set \<Rightarrow> nat \<Rightarrow> nat \<Rightarrow> nat" where
  "next_seen_start sn cur end_offset =
     min (unwrap_or (next_range_start_after sn cur) end_offset) end_offset"

text \<open>What a shown piece of text costs of the page's budget.\<close>

definition used_budget :: "pager_buffer \<Rightarrow> nat \<Rightarrow> nat \<Rightarrow> nat \<Rightarrow> nat \<Rightarrow> nat" where
  "used_budget b cur visible_end desired_end remaining_budget =
     (let images = count_images_in_range b cur visible_end
      in if visible_end < desired_end then remaining_budget
         else sat_add (visible_end - cur) (sat_mul images IMAGE_EQUIV_CHARS))"

definition page_turn ::
  "pager_buffer \<Rightarrow> projection_mode \<Rightarrow> nat \<Rightarrow> page_state \<Rightarrow> page_state turn" where
  "page_turn b mode end_offset st =
     (let cur = pg_cursor st; budget = pg_budget st
      in if budget > 0 \<and> cur < end_offset then
           (case range_containing (pg_seen st) cur of
              Some (_, range_end) \<Rightarrow>
                (let gap_end = min range_end end_offset
                 in Again (st\<lparr>pg_gap := extend_gap cur gap_end (pg_gap st),
                              pg_cursor := gap_end\<rparr>))
            | None \<Rightarrow>
                (let next_seen = next_seen_start (pg_seen st) cur end_offset
                 in if next_seen \<le> cur then Leave st
                    else
                      (let desired_end = max (min (sat_add cur budget) next_seen) cur;
                           visible_end = page_end_offset_with_images b cur next_seen budget
                                           MAX_IMAGES_PER_PAGE
                       in if visible_end \<le> cur then Leave st
                          else
                            (let used = used_budget b cur visible_end desired_end budget;
                                 st' = st\<lparr>pg_gap := None,
                                          pg_contents := pg_contents st @ gap_contents (pg_gap st) @
                                            contents_for_range_with_projection_mode b cur
                                              visible_end mode,
                                          pg_seen := range_insert cur visible_end (pg_seen st),
                                          pg_span := span_record (Some (cur, visible_end))
                                            (pg_span st),
                                          pg_cursor := visible_end\<rparr>
                             in if used \<ge> budget then Leave st'
                                else Again (st'\<lparr>pg_budget := budget - used\<rparr>)))))
         else Leave st)"

lemma range_containing_gt: "range_containing sn x = Some (a, b) \<Longrightarrow> x < b"
  by (auto simp: range_containing_def Let_def split: if_splits prod.splits)

lemma page_turn_progress:
  "page_turn b mode e st = Again st' \<Longrightarrow> pg_cursor st < pg_cursor st' \<and> pg_cursor st < e"
  by (auto simp: page_turn_def Let_def dest: range_containing_gt
      split: if_splits option.splits prod.splits)

function page_loop :: "pager_buffer \<Rightarrow> projection_mode \<Rightarrow> nat \<Rightarrow> page_state \<Rightarrow> page_state" where
  "page_loop b mode end_offset st =
     (case page_turn b mode end_offset st of
        Leave st' \<Rightarrow> st'
      | Again st' \<Rightarrow> page_loop b mode end_offset st')"
  by pat_completeness auto
termination
  by (relation "measure (\<lambda>(b, mode, e, st). e - pg_cursor st)")
    (auto dest: page_turn_progress)

declare page_loop.simps [simp del]

type_synonym page_result = "worker_content list \<times> nat \<times> range_span"

definition take_next_page ::
  "nat \<Rightarrow> projection_mode \<Rightarrow> pager_buffer \<Rightarrow> range_set \<Rightarrow>
   page_result \<times> pager_buffer \<times> range_set" where
  "take_next_page target mode b sn =
     (let target = max target 1;
          st = page_loop b mode (buf_len b) (page_start (current_offset b) target sn);
          b' = advance_offset_to (pg_cursor st) b
      in ((pg_contents st @ gap_contents (pg_gap st), pages_left_for_buffer b' target, pg_span st),
          b', pg_seen st))"

text \<open>The \<^verbatim>\<open>for _ in 0..count\<close> loop of \<^verbatim>\<open>take_next_pages\<close>, with its two early exits.\<close>

fun take_pages_loop ::
  "nat \<Rightarrow> nat \<Rightarrow> page_result \<Rightarrow> pager_buffer \<Rightarrow> range_set \<Rightarrow>
   page_result \<times> pager_buffer \<times> range_set" where
  "take_pages_loop target 0 acc b sn = (acc, b, sn)"
| "take_pages_loop target (Suc n) acc b sn =
     (let ((page_contents, left, rng), b', sn') = take_next_page target PagerMode b sn;
          (contents, _, span) = acc
      in if page_contents = [] then ((contents, left, span), b', sn')
         else
           (let acc' = (contents @ page_contents, left, span_extend rng span)
            in if left = 0 then (acc', b', sn') else take_pages_loop target n acc' b' sn'))"

definition take_next_pages ::
  "nat \<Rightarrow> nat \<Rightarrow> pager_buffer \<Rightarrow> range_set \<Rightarrow> page_result \<times> pager_buffer \<times> range_set" where
  "take_next_pages target count b sn =
     (let ((contents, left, span), b', sn') =
            take_pages_loop target (clamp count 1 50) ([], 0, range_span_default) b sn
      in if contents = [] then (([], left, range_span_default), b', sn')
         else ((contents, left, span), b', sn'))"

subsection \<open>advance\_cursor\_for\_page and skip\<close>

definition advance_turn ::
  "pager_buffer \<Rightarrow> range_set \<Rightarrow> nat \<Rightarrow> nat \<times> nat \<Rightarrow> (nat \<times> nat) turn" where
  "advance_turn b sn end_offset st =
     (let (cur, budget) = st
      in if budget > 0 \<and> cur < end_offset then
           (case range_containing sn cur of
              Some (_, range_end) \<Rightarrow> Again (min range_end end_offset, budget)
            | None \<Rightarrow>
                (let next_seen = next_seen_start sn cur end_offset
                 in if next_seen \<le> cur then Leave st
                    else
                      (let desired_end = max (min (sat_add cur budget) next_seen) cur;
                           visible_end = page_end_offset_with_images b cur next_seen budget
                                           MAX_IMAGES_PER_PAGE
                       in if visible_end \<le> cur then Leave st
                          else
                            (let used = used_budget b cur visible_end desired_end budget
                             in if used \<ge> budget then Leave (visible_end, budget)
                                else Again (visible_end, budget - used)))))
         else Leave st)"

lemma advance_turn_progress:
  "advance_turn b sn e st = Again st' \<Longrightarrow> fst st < fst st' \<and> fst st < e"
  by (auto simp: advance_turn_def Let_def dest: range_containing_gt
      split: if_splits option.splits prod.splits)

function advance_loop :: "pager_buffer \<Rightarrow> range_set \<Rightarrow> nat \<Rightarrow> nat \<times> nat \<Rightarrow> nat" where
  "advance_loop b sn end_offset st =
     (case advance_turn b sn end_offset st of
        Leave st' \<Rightarrow> fst st'
      | Again st' \<Rightarrow> advance_loop b sn end_offset st')"
  by pat_completeness auto
termination
  by (relation "measure (\<lambda>(b, sn, e, st). e - fst st)") (auto dest: advance_turn_progress)

declare advance_loop.simps [simp del]

definition advance_cursor_for_page ::
  "pager_buffer \<Rightarrow> nat \<Rightarrow> nat \<Rightarrow> nat \<Rightarrow> range_set \<Rightarrow> nat" where
  "advance_cursor_for_page b start_offset end_offset page sn =
     (let end_offset = min end_offset (buf_len b)
      in advance_loop b sn end_offset (min start_offset end_offset, max page 1))"

fun skip_loop :: "pager_buffer \<Rightarrow> nat \<Rightarrow> range_set \<Rightarrow> nat \<Rightarrow> nat \<Rightarrow> nat \<Rightarrow> nat" where
  "skip_loop b page sn end_offset 0 cur = cur"
| "skip_loop b page sn end_offset (Suc n) cur =
     (let nxt = advance_cursor_for_page b cur end_offset page sn
      in if nxt \<le> cur then cur
         else if nxt \<ge> end_offset then nxt
         else skip_loop b page sn end_offset n nxt)"

definition skip_pages_and_take_next ::
  "nat \<Rightarrow> nat \<Rightarrow> pager_buffer \<Rightarrow> range_set \<Rightarrow> page_result \<times> pager_buffer \<times> range_set" where
  "skip_pages_and_take_next page count b sn =
     (let end_offset = buf_len b
      in if current_offset b \<ge> end_offset then (([], 0, range_span_default), b, sn)
         else
           (let cur = skip_loop b page sn end_offset (clamp count 1 500) (current_offset b)
            in take_next_page page PagerMode (advance_offset_to cur b) sn))"

subsection \<open>Everything not yet shown in a range\<close>

definition segment_turn :: "pager_buffer \<Rightarrow> nat \<Rightarrow> page_state \<Rightarrow> page_state turn" where
  "segment_turn b end_offset st =
     (let cur = pg_cursor st
      in if cur < end_offset then
           (case range_containing (pg_seen st) cur of
              Some (_, range_end) \<Rightarrow>
                (let gap_end = min range_end end_offset
                 in Again (st\<lparr>pg_gap := extend_gap cur gap_end (pg_gap st),
                              pg_cursor := gap_end\<rparr>))
            | None \<Rightarrow>
                (let next_seen = next_seen_start (pg_seen st) cur end_offset
                 in if next_seen \<le> cur then Leave st
                    else
                      (let contents = contents_for_range b cur next_seen
                       in if contents \<noteq> [] then
                            Again (st\<lparr>pg_gap := None,
                                      pg_contents := pg_contents st @ gap_contents (pg_gap st) @
                                        contents,
                                      pg_seen := range_insert cur next_seen (pg_seen st),
                                      pg_span := span_record (Some (cur, next_seen)) (pg_span st),
                                      pg_cursor := next_seen\<rparr>)
                          else Again (st\<lparr>pg_cursor := next_seen\<rparr>))))
         else Leave st)"

lemma segment_turn_progress:
  "segment_turn b e st = Again st' \<Longrightarrow> pg_cursor st < pg_cursor st' \<and> pg_cursor st < e"
  by (auto simp: segment_turn_def Let_def dest: range_containing_gt
      split: if_splits option.splits prod.splits)

function segment_loop :: "pager_buffer \<Rightarrow> nat \<Rightarrow> page_state \<Rightarrow> page_state" where
  "segment_loop b end_offset st =
     (case segment_turn b end_offset st of
        Leave st' \<Rightarrow> st'
      | Again st' \<Rightarrow> segment_loop b end_offset st')"
  by pat_completeness auto
termination
  by (relation "measure (\<lambda>(b, e, st). e - pg_cursor st)") (auto dest: segment_turn_progress)

declare segment_loop.simps [simp del]

definition take_unseen_segments_in_range ::
  "pager_buffer \<Rightarrow> nat \<Rightarrow> nat \<Rightarrow> range_set \<Rightarrow> (worker_content list \<times> range_span) \<times> range_set" where
  "take_unseen_segments_in_range b start_offset end_offset sn =
     (let st = segment_loop b end_offset (page_start (min start_offset end_offset) 0 sn)
      in ((pg_contents st, pg_span st), pg_seen st))"

definition take_all ::
  "nat \<Rightarrow> pager_buffer \<Rightarrow> range_set \<Rightarrow> page_result \<times> pager_buffer \<times> range_set" where
  "take_all page b sn =
     (let ((contents, span), sn') =
            take_unseen_segments_in_range b (current_offset b) (buf_len b) sn;
          b' = advance_offset_to (buf_len b) b
      in ((contents, pages_left_for_buffer b' page, span), b', sn'))"

definition take_tail_from ::
  "nat \<Rightarrow> pager_buffer \<Rightarrow> range_set \<Rightarrow> page_result \<times> pager_buffer \<times> range_set" where
  "take_tail_from start_offset b sn =
     (let start = min (max (current_offset b) start_offset) (buf_len b);
          ((contents, span), sn') = take_unseen_segments_in_range b start (buf_len b) sn;
          b' = advance_offset_to (buf_len b) b
      in if contents = [] then (([], 0, range_span_default), b', sn')
         else ((contents, 0, span), b', sn'))"

definition take_tail ::
  "nat \<Rightarrow> pager_buffer \<Rightarrow> range_set \<Rightarrow> page_result \<times> pager_buffer \<times> range_set" where
  "take_tail page b sn =
     (let desired_start = max (current_offset b) (buf_len b - page);
          snapped = unwrap_or (last_line_end_before b desired_start) desired_start
      in take_tail_from snapped b sn)"

definition take_tail_lines ::
  "nat \<Rightarrow> pager_buffer \<Rightarrow> range_set \<Rightarrow> page_result \<times> pager_buffer \<times> range_set" where
  "take_tail_lines lines b sn =
     take_tail_from (tail_start_offset_for_lines b (buf_len b) lines) b sn"

definition take_line_range ::
  "nat \<Rightarrow> nat \<Rightarrow> pager_buffer \<Rightarrow> range_set \<Rightarrow> (worker_content list \<times> range_span) \<times> range_set" where
  "take_line_range start_line end_line b sn =
     (case line_range_offsets b start_line end_line of
        None \<Rightarrow> (([server_stderr ''[pager] line range out of bounds''], range_span_default), sn)
      | Some (start_offset, end_offset) \<Rightarrow>
          take_unseen_segments_in_range b start_offset end_offset sn)"

section \<open>The end of a page\<close>

lemma page_end_offset_bounds:
  assumes "s < min e (buf_len b)"
  shows "s \<le> page_end_offset b s e t \<or> sat_add s t < s"
    and "page_end_offset b s e t \<le> min (sat_add s t) (min e (buf_len b))"
    and "s < sat_add s t \<Longrightarrow> s < page_end_offset b s e t"
proof -
  define d where "d = min (sat_add s t) (min e (buf_len b))"
  define idx where "idx = partition_point (\<lambda>line_end. line_end \<le> d) (line_ends b)"
  define found where "found = (if idx = 0 then None else list_get (line_ends b) (idx - 1))"
  have "min s (min e (buf_len b)) = s" and "\<not> min e (buf_len b) \<le> s"
    using assms by (simp_all add: min_le_iff_disj not_le)
  then have eq: "page_end_offset b s e t =
      (case found of None \<Rightarrow> d | Some line_end \<Rightarrow> if line_end \<le> s then d else line_end)"
    by (simp only: page_end_offset_def Let_def if_False d_def idx_def found_def)
  have le: "x \<le> d" if "found = Some x" for x
    using partition_point_pred [of "\<lambda>line_end. line_end \<le> d" "line_ends b" "idx - 1" x] that
    by (auto simp: found_def idx_def split: if_split_asm)
  have "page_end_offset b s e t = d \<or> s < page_end_offset b s e t \<and> page_end_offset b s e t \<le> d"
    unfolding eq using le by (cases found) auto
  moreover have "s \<le> d \<or> sat_add s t < s" and "s < sat_add s t \<Longrightarrow> s < d"
    using assms by (auto simp: d_def)
  ultimately show "s \<le> page_end_offset b s e t \<or> sat_add s t < s"
    and "page_end_offset b s e t \<le> min (sat_add s t) (min e (buf_len b))"
    and "s < sat_add s t \<Longrightarrow> s < page_end_offset b s e t"
    unfolding d_def [symmetric] by linarith+
qed

lemma image_candidate_bounds:
  assumes "s < e" and "e \<le> buf_len b"
    and "image_candidate b s e t offs k = Some c"
  shows "c \<le> e \<and> c \<le> sat_add s t"
proof -
  define cand where
    "cand = min (min e (sat_add s (t - sat_mul k IMAGE_EQUIV_CHARS)))
      ((if k < length offs then offs ! k else sat_add e 1) - 1)"
  have budget: "cand \<le> sat_add s t" "cand \<le> e"
    by (auto simp: cand_def sat_add_def)
  have aligned: "page_end_offset b s cand (cand - s) \<le> cand" if "cand - s > 0"
    using page_end_offset_bounds(2) [of s cand b "cand - s"] that assms(2) budget by simp
  have "c = cand \<or> cand - s > 0 \<and> c = page_end_offset b s cand (cand - s)"
    using assms(3) unfolding image_candidate_def Let_def cand_def [symmetric]
    by (auto split: if_split_asm)
  with aligned budget show ?thesis by fastforce
qed

lemma foldl_best_bounds:
  fixes f :: "nat \<Rightarrow> nat option"
  defines "step \<equiv> \<lambda>best k. case f k of None \<Rightarrow> best | Some c \<Rightarrow> if c > best then c else best"
  assumes "\<And>k c. k \<in> set ks \<Longrightarrow> f k = Some c \<Longrightarrow> P c" and "P best" and "best \<ge> lo"
  shows "P (foldl step best ks) \<and> lo \<le> foldl step best ks"
  using assms(2-)
proof (induction ks arbitrary: best)
  case (Cons k ks)
  have "P (step best k)" "lo \<le> step best k"
    using Cons.prems by (auto simp: step_def split: option.split)
  with Cons.IH [of "step best k"] Cons.prems(1) show ?case
    by (metis foldl_Cons list.set_intros(2))
qed simp

text \<open>A page ends between its start and the end of the text, and takes at most its target.\<close>

lemma page_end_offset_with_images_bounds:
  assumes "s < min e (buf_len b)" and "buf_len b \<le> u64_max"
  shows "s \<le> page_end_offset_with_images b s e t m"
    and "page_end_offset_with_images b s e t m \<le> min e (buf_len b)"
    and "page_end_offset_with_images b s e t m \<le> s + t"
proof -
  let ?e = "min e (buf_len b)"
  have lt: "\<not> ?e \<le> s" using assms by (simp add: min_le_iff_disj not_le)
  have s_le: "s \<le> sat_add s t" using assms by (simp add: sat_add_def)
  have fold: "P r \<and> s \<le> r"
    if "r = foldl (\<lambda>best_end k. case image_candidate b s ?e t offs k of None \<Rightarrow> best_end
            | Some candidate_end \<Rightarrow> if candidate_end > best_end then candidate_end else best_end)
          s ks" and "P = (\<lambda>c. c \<le> ?e \<and> c \<le> sat_add s t)" for P r offs ks
    unfolding that(1)
    by (rule foldl_best_bounds)
      (use assms s_le that(2) in \<open>auto dest!: image_candidate_bounds [rotated 2]\<close>)
  have "s \<le> page_end_offset_with_images b s e t m \<and>
      page_end_offset_with_images b s e t m \<le> ?e \<and>
      page_end_offset_with_images b s e t m \<le> s + t"
    using page_end_offset_bounds(1,2) [of s ?e b t] lt assms s_le sat_add_le(1) [of s t]
      fold [OF refl refl]
    unfolding page_end_offset_with_images_def Let_def
    by (auto simp del: foldl_append upt.simps simp: le_diff_conv intro: order.trans)
  then show "s \<le> page_end_offset_with_images b s e t m"
    and "page_end_offset_with_images b s e t m \<le> ?e"
    and "page_end_offset_with_images b s e t m \<le> s + t" by blast+
qed

section \<open>What a paging loop shows\<close>

text \<open>
  The invariant of the paging loops that started at \<open>c0\<close> with the shown set \<open>sn\<close>: the recorded
  span holds exactly the offsets between \<open>c0\<close> and the cursor that were not shown before, and all
  offsets up to the cursor are now shown. \<open>page_inv_skip\<close> and \<open>page_inv_show\<close> are the two ways a
  turn moves the cursor.
\<close>

definition page_inv :: "nat \<Rightarrow> nat \<Rightarrow> range_set \<Rightarrow> page_state \<Rightarrow> bool" where
  "page_inv e c0 sn st \<longleftrightarrow>
     wf_range_set (pg_seen st) \<and> c0 \<le> pg_cursor st \<and> pg_cursor st \<le> e \<and>
     span_below (pg_span st) (pg_cursor st) \<and>
     span_points (pg_span st) = {c0..<pg_cursor st} - points sn \<and>
     points (pg_seen st) = points sn \<union> {c0..<pg_cursor st}"

lemma page_inv_cong:
  "page_inv e c0 sn st \<Longrightarrow> pg_cursor st' = pg_cursor st \<Longrightarrow> pg_span st' = pg_span st \<Longrightarrow>
   pg_seen st' = pg_seen st \<Longrightarrow> page_inv e c0 sn st'"
  by (simp add: page_inv_def)

lemma page_start_simps [simp]:
  "pg_cursor (page_start c n sn) = c" "pg_budget (page_start c n sn) = n"
  "pg_span (page_start c n sn) = range_span_default" "pg_seen (page_start c n sn) = sn"
  "pg_contents (page_start c n sn) = []" "pg_gap (page_start c n sn) = None"
  by (simp_all add: page_start_def)

lemma page_inv_start: "wf_range_set sn \<Longrightarrow> c \<le> e \<Longrightarrow> page_inv e c sn (page_start c n sn)"
  by (simp add: page_inv_def)

lemma page_inv_skip:
  assumes inv: "page_inv e c0 sn st" and lt: "pg_cursor st < e"
    and seen: "range_containing (pg_seen st) (pg_cursor st) = Some (a, range_end)"
    and st': "pg_cursor st' = min range_end e" "pg_span st' = pg_span st" "pg_seen st' = pg_seen st"
  shows "page_inv e c0 sn st'"
proof -
  note sk = seen.containing_skip [OF _ seen]
  from inv have wf: "wf_range_set (pg_seen st)" by (simp add: page_inv_def)
  have le: "pg_cursor st \<le> pg_cursor st'" using sk [OF wf] lt st' by simp
  have "{pg_cursor st..<pg_cursor st'} \<subseteq> points (pg_seen st)" using sk [OF wf] st' by auto
  with inv have "{pg_cursor st..<pg_cursor st'} \<subseteq> points sn" by (auto simp: page_inv_def)
  moreover have "{c0..<pg_cursor st'} = {c0..<pg_cursor st} \<union> {pg_cursor st..<pg_cursor st'}"
    using inv le by (auto simp: page_inv_def)
  ultimately show ?thesis
    using inv le st' by (auto simp: page_inv_def intro: span_below_mono)
qed

lemma page_inv_show:
  assumes inv: "page_inv e c0 sn st" and lt: "pg_cursor st < v" and le: "v \<le> e"
    and unseen: "{pg_cursor st..<v} \<inter> points (pg_seen st) = {}"
    and st': "pg_cursor st' = v" "pg_span st' = span_record (Some (pg_cursor st, v)) (pg_span st)"
      "pg_seen st' = range_insert (pg_cursor st) v (pg_seen st)"
  shows "page_inv e c0 sn st'"
proof -
  from inv have wf: "wf_range_set (pg_seen st)" and below: "span_below (pg_span st) (pg_cursor st)"
    by (auto simp: page_inv_def)
  have "{c0..<v} = {c0..<pg_cursor st} \<union> {pg_cursor st..<v}"
    using inv lt by (auto simp: page_inv_def)
  moreover have "{pg_cursor st..<v} \<inter> points sn = {}" using inv unseen by (auto simp: page_inv_def)
  ultimately show ?thesis
    using inv st' lt le span_record_below [OF below lt] seen.inv_ins [OF wf] seen.pts_ins [OF wf]
    by (auto simp: page_inv_def)
qed

text \<open>The offset up to which a turn may show, and that it was not shown before.\<close>

lemma next_seen_start_unseen:
  assumes "wf_range_set sn" and "range_containing sn c = None" and "c < e"
  shows "c < next_seen_start sn c e \<and> next_seen_start sn c e \<le> e \<and>
         {c..<next_seen_start sn c e} \<inter> points sn = {}"
  using seen.unseen_gap [OF assms] by (simp add: next_seen_start_def)

text \<open>What one turn of \<^verbatim>\<open>take_next_page\<close> does, as the three ways it can go.\<close>

lemma page_turn_cases:
  assumes inv: "page_inv (buf_len b) c0 sn st" and len: "buf_len b \<le> u64_max"
  obtains (stop) "page_turn b mode (buf_len b) st = Leave st"
  | (skip) a range_end st' where
      "page_turn b mode (buf_len b) st = Again st'" "pg_cursor st < buf_len b"
      "range_containing (pg_seen st) (pg_cursor st) = Some (a, range_end)"
      "pg_cursor st' = min range_end (buf_len b)" "pg_span st' = pg_span st"
      "pg_seen st' = pg_seen st" "pg_budget st' = pg_budget st"
  | (shown) v st' where
      "page_turn b mode (buf_len b) st = Leave st' \<or>
       page_turn b mode (buf_len b) st = Again st' \<and>
         pg_budget st' + (v - pg_cursor st) \<le> pg_budget st"
      "pg_cursor st < v" "v \<le> buf_len b" "v \<le> pg_cursor st + pg_budget st"
      "{pg_cursor st..<v} \<inter> points (pg_seen st) = {}" "pg_cursor st' = v"
      "pg_span st' = span_record (Some (pg_cursor st, v)) (pg_span st)"
      "pg_seen st' = range_insert (pg_cursor st) v (pg_seen st)"
proof (cases "pg_budget st > 0 \<and> pg_cursor st < buf_len b")
  case False
  then show ?thesis by (intro stop) (auto simp: page_turn_def Let_def)
next
  case go: True
  show ?thesis
  proof (cases "range_containing (pg_seen st) (pg_cursor st)")
    case (Some r)
    obtain a ends where r: "r = (a, ends)" by fastforce
    let ?g = "min ends (buf_len b)"
    from go Some r show ?thesis
      by (intro skip [of "st\<lparr>pg_gap := extend_gap (pg_cursor st) ?g (pg_gap st), pg_cursor := ?g\<rparr>"])
        (auto simp: page_turn_def Let_def)
  next
    case None
    let ?n = "next_seen_start (pg_seen st) (pg_cursor st) (buf_len b)"
    let ?v = "page_end_offset_with_images b (pg_cursor st) ?n (pg_budget st) MAX_IMAGES_PER_PAGE"
    let ?d = "max (min (sat_add (pg_cursor st) (pg_budget st)) ?n) (pg_cursor st)"
    let ?u = "used_budget b (pg_cursor st) ?v ?d (pg_budget st)"
    have n: "pg_cursor st < ?n" "?n \<le> buf_len b" "{pg_cursor st..<?n} \<inter> points (pg_seen st) = {}"
      using next_seen_start_unseen [OF _ None] inv go by (auto simp: page_inv_def)
    have v: "?v \<le> ?n" "?v \<le> pg_cursor st + pg_budget st"
      using page_end_offset_with_images_bounds [of "pg_cursor st" ?n b] n len go by auto
    have w: "{pg_cursor st..<?v} \<inter> points (pg_seen st) = {}" using n(3) v(1) by fastforce
    have u: "?v - pg_cursor st \<le> ?u \<or> ?u \<ge> pg_budget st"
      using v n len by (auto simp: used_budget_def Let_def sat_add_def)
    show ?thesis
    proof (cases "?v \<le> pg_cursor st")
      case True
      with go None n show ?thesis by (intro stop) (simp add: page_turn_def Let_def)
    next
      case False
      show ?thesis
      proof (cases "?u \<ge> pg_budget st")
        case True
        with go None n(1,2) v w False show ?thesis
          by (intro shown [of _ ?v]) (auto simp: page_turn_def Let_def)
      next
        case u': False
        with go None n(1,2) v w False u show ?thesis
          by (intro shown [of _ ?v]) (auto simp: page_turn_def Let_def)
      qed
    qed
  qed
qed

text \<open>The whole loop, with the bound on how much new text it shows.\<close>

lemma card_span_show:
  assumes "span_below sp c" and "c < v"
  shows "card (span_points (span_record (Some (c, v)) sp)) = card (span_points sp) + (v - c)"
proof -
  have "span_points sp \<inter> {c..<v} = {}" using span_below_points [OF assms(1)] by auto
  then show ?thesis by (simp add: span_record_below(2) [OF assms] card_Un_disjoint)
qed

lemma page_loop_shows:
  assumes "page_inv (buf_len b) c0 sn st" and "buf_len b \<le> u64_max"
    and "card (span_points (pg_span st)) + pg_budget st \<le> target"
  shows "page_inv (buf_len b) c0 sn (page_loop b mode (buf_len b) st) \<and>
         card (span_points (pg_span (page_loop b mode (buf_len b) st))) \<le> target"
  using assms(1,3)
proof (induction "buf_len b - pg_cursor st" arbitrary: st rule: less_induct)
  case less
  let ?go = "\<lambda>st. page_inv (buf_len b) c0 sn st \<and> card (span_points (pg_span st)) \<le> target"
  have again: "?go (page_loop b mode (buf_len b) st)"
    if "page_turn b mode (buf_len b) st = Again st'" and "page_inv (buf_len b) c0 sn st'"
      and "card (span_points (pg_span st')) + pg_budget st' \<le> target" for st'
    using less.hyps [of st'] that page_turn_progress [OF that(1)]
    by (simp add: page_loop.simps [of b mode "buf_len b" st] diff_less_mono2)
  have leave: "?go (page_loop b mode (buf_len b) st)"
    if "page_turn b mode (buf_len b) st = Leave st'" and "?go st'" for st'
    using that by (simp add: page_loop.simps [of b mode "buf_len b" st])
  show ?case using less.prems(1) assms(2)
  proof (cases rule: page_turn_cases [where mode = mode])
    case stop
    then show ?thesis by (rule leave) (use less.prems in simp)
  next
    case (skip a range_end st')
    then show ?thesis
      by (intro again [of st'] page_inv_skip [OF less.prems(1)]) (use less.prems in simp_all)
  next
    case (shown v st')
    have inv': "page_inv (buf_len b) c0 sn st'"
      by (rule page_inv_show [OF less.prems(1)]) (use shown in simp_all)
    moreover have "card (span_points (pg_span st')) =
        card (span_points (pg_span st)) + (v - pg_cursor st)"
      using shown less.prems by (simp add: page_inv_def card_span_show)
    ultimately show ?thesis
      using shown less.prems(2) again [of st'] leave [of st'] by auto
  qed
qed

text \<open>
  C2. A page shows each offset at most once and skips none. For a well-formed set of shown offsets
  and a cursor inside the buffer, \<^verbatim>\<open>take_next_page\<close> moves the cursor from \<open>c\<close> to some \<open>c'\<close> with
  \<open>c \<le> c' \<le> len\<close>; the span it reports is exactly the offsets between them that had not been shown;
  afterwards exactly those offsets have been added to the shown set, which is again well formed;
  and the new text fits the page's target.
\<close>

theorem take_next_page_shows_unseen:
  assumes "wf_range_set sn" and "cursor b \<le> buf_len b" and "buf_len b \<le> u64_max"
    and "take_next_page target mode b sn = ((contents, left, span), b', sn')"
  shows "cursor b \<le> cursor b' \<and> cursor b' \<le> buf_len b \<and>
         span_points span = {cursor b..<cursor b'} - points sn \<and>
         wf_range_set sn' \<and> points sn' = points sn \<union> {cursor b..<cursor b'} \<and>
         card (span_points span) \<le> max target 1"
proof -
  let ?st = "page_start (cursor b) (max target 1) sn"
  have "page_inv (buf_len b) (cursor b) sn (page_loop b mode (buf_len b) ?st) \<and>
      card (span_points (pg_span (page_loop b mode (buf_len b) ?st))) \<le> max target 1"
    using assms(1-3) by (intro page_loop_shows page_inv_start) simp_all
  moreover have "b' = advance_offset_to (pg_cursor (page_loop b mode (buf_len b) ?st)) b"
    and "span = pg_span (page_loop b mode (buf_len b) ?st)"
    and "sn' = pg_seen (page_loop b mode (buf_len b) ?st)"
    using assms(4) by (auto simp: take_next_page_def current_offset_def Let_def)
  ultimately show ?thesis by (auto simp: page_inv_def advance_offset_to_def)
qed

section \<open>Skipping a page is paging without showing\<close>

lemma page_inv_agree:
  "page_inv e c0 sn st \<Longrightarrow> y \<ge> pg_cursor st \<Longrightarrow> y \<in> points (pg_seen st) \<longleftrightarrow> y \<in> points sn"
  by (auto simp: page_inv_def)

text \<open>One turn of \<^verbatim>\<open>advance_cursor_for_page\<close> makes the moves of one turn of \<^verbatim>\<open>take_next_page\<close>.\<close>

lemma advance_turn_simulates:
  assumes inv: "page_inv e c0 sn st" and wf: "wf_range_set sn"
  shows "advance_turn b sn e (pg_cursor st, pg_budget st) = Leave st1 \<Longrightarrow>
         \<exists>st'. page_turn b mode e st = Leave st' \<and> pg_cursor st' = fst st1"
    and "advance_turn b sn e (pg_cursor st, pg_budget st) = Again st2 \<Longrightarrow>
         \<exists>st'. page_turn b mode e st = Again st' \<and> st2 = (pg_cursor st', pg_budget st')"
proof -
  have wf': "wf_range_set (pg_seen st)" using inv by (simp add: page_inv_def)
  note agree = page_inv_agree [OF inv]
  have cont: "map_option snd (range_containing (pg_seen st) (pg_cursor st)) =
      map_option snd (range_containing sn (pg_cursor st))"
    by (rule seen.containing_agree [OF wf' wf agree])
  have nxt: "next_seen_start sn (pg_cursor st) e = next_seen_start (pg_seen st) (pg_cursor st) e"
    if "range_containing sn (pg_cursor st) = None"
    using seen.next_start_agree [OF wf wf' agree [symmetric] seen.containing_None [OF wf that]]
    by (simp add: next_seen_start_def)
  show "advance_turn b sn e (pg_cursor st, pg_budget st) = Leave st1 \<Longrightarrow>
         \<exists>st'. page_turn b mode e st = Leave st' \<and> pg_cursor st' = fst st1"
    using cont nxt
    by (cases "range_containing sn (pg_cursor st)")
      (auto simp: advance_turn_def page_turn_def Let_def split: if_splits prod.splits)
  show "advance_turn b sn e (pg_cursor st, pg_budget st) = Again st2 \<Longrightarrow>
         \<exists>st'. page_turn b mode e st = Again st' \<and> st2 = (pg_cursor st', pg_budget st')"
    using cont nxt
    by (cases "range_containing sn (pg_cursor st)")
      (auto simp: advance_turn_def page_turn_def Let_def split: if_splits prod.splits)
qed

lemma page_turn_keeps_inv:
  assumes "page_inv (buf_len b) c0 sn st" and "buf_len b \<le> u64_max"
    and "page_turn b mode (buf_len b) st = Again st'"
  shows "page_inv (buf_len b) c0 sn st'"
  using assms(1,2)
proof (cases rule: page_turn_cases [where mode = mode])
  case (skip a range_end st'')
  with assms show ?thesis using page_inv_skip [OF assms(1)] by (metis turn.inject(2))
next
  case (shown v st'')
  with assms show ?thesis using page_inv_show [OF assms(1)] by (metis turn.distinct(1) turn.inject(2))
qed (use assms in simp)

lemma advance_loop_simulates:
  assumes "page_inv (buf_len b) c0 sn st" and "wf_range_set sn" and "buf_len b \<le> u64_max"
  shows "advance_loop b sn (buf_len b) (pg_cursor st, pg_budget st) =
         pg_cursor (page_loop b mode (buf_len b) st)"
  using assms(1)
proof (induction "buf_len b - pg_cursor st" arbitrary: st rule: less_induct)
  case less
  note sim = advance_turn_simulates [OF less.prems assms(2), where b = b and mode = mode]
  show ?case
  proof (cases "advance_turn b sn (buf_len b) (pg_cursor st, pg_budget st)")
    case (Leave st1)
    with sim(1) show ?thesis
      by (subst advance_loop.simps, subst page_loop.simps) fastforce
  next
    case (Again st2)
    with sim(2) obtain st' where st': "page_turn b mode (buf_len b) st = Again st'"
      and st2: "st2 = (pg_cursor st', pg_budget st')" by blast
    have "advance_loop b sn (buf_len b) st2 = pg_cursor (page_loop b mode (buf_len b) st')"
      unfolding st2 using less.hyps [of st'] page_turn_progress [OF st']
        page_turn_keeps_inv [OF less.prems assms(3) st'] by (simp add: diff_less_mono2)
    with Again st' show ?thesis
      by (subst advance_loop.simps, subst page_loop.simps) simp
  qed
qed

lemma advance_cursor_page:
  assumes "wf_range_set sn" and "cursor b \<le> buf_len b" and "buf_len b \<le> u64_max"
  shows "advance_cursor_for_page b (cursor b) (buf_len b) page sn =
         cursor (fst (snd (take_next_page page mode b sn)))"
proof -
  let ?st = "page_start (cursor b) (max page 1) sn"
  have inv: "page_inv (buf_len b) (cursor b) sn ?st"
    using assms by (intro page_inv_start) simp_all
  have "advance_loop b sn (buf_len b) (cursor b, max page 1) =
      pg_cursor (page_loop b mode (buf_len b) ?st)"
    using advance_loop_simulates [OF inv assms(1,3), of mode] by simp
  moreover have "pg_cursor (page_loop b mode (buf_len b) ?st) \<le> buf_len b"
    using page_loop_shows [OF inv assms(3), of "max page 1" mode] by (simp add: page_inv_def)
  ultimately show ?thesis
    using assms(2)
    by (simp add: advance_cursor_for_page_def take_next_page_def Let_def current_offset_def
        advance_offset_to_def)
qed

text \<open>
  \<^verbatim>\<open>advance_cursor_for_page\<close>, which \<^verbatim>\<open>:skip\<close> and the distances of \<^verbatim>\<open>:where\<close> use, is a second
  implementation of the paging loop that renders nothing. It ends at the very offset at which
  \<^verbatim>\<open>take_next_page\<close> leaves the cursor, although the latter marks what it shows while it runs.
\<close>

theorem advance_cursor_for_page_agrees:
  assumes "wf_range_set sn" and "cursor b \<le> buf_len b" and "buf_len b \<le> u64_max"
  shows "advance_cursor_for_page b (cursor b) (buf_len b) page sn =
         cursor (fst (snd (take_next_page page mode b sn)))"
  by (rule advance_cursor_page [OF assms])

section \<open>Paging through text without images\<close>

definition image_free :: "pager_buffer \<Rightarrow> bool" where
  "image_free b \<longleftrightarrow> list_all (\<lambda>e. \<not> is_image_event e) (buf_events b)"

lemma image_free_counts:
  assumes "image_free b"
  shows "count_images_in_range b s e = 0" and "image_offsets_in_range b s e limit = []"
proof -
  have "list_all (\<lambda>e. \<not> is_image_event e) evs \<Longrightarrow> count_images_loop s e evs 0 = 0"
    and "list_all (\<lambda>e. \<not> is_image_event e) evs \<Longrightarrow> image_offsets_loop s e limit evs [] = []" for s e evs
    by (induction evs) simp_all
  with assms show "count_images_in_range b s e = 0" and "image_offsets_in_range b s e limit = []"
    by (simp_all add: image_free_def count_images_in_range_def image_offsets_in_range_def Let_def)
qed

lemma page_end_progress:
  assumes "image_free b" and "s < e" and "e \<le> buf_len b" and "buf_len b < u64_max" and "t \<ge> 1"
  shows "s < page_end_offset_with_images b s e t MAX_IMAGES_PER_PAGE"
proof (cases "e - s \<le> t")
  case True
  with assms show ?thesis
    by (simp add: page_end_offset_with_images_def Let_def image_free_counts min_absorb1)
next
  case False
  define c where "c = min e (sat_add s t)"
  have e1: "sat_add e 1 = Suc e" and st: "s < sat_add s t" using assms by (simp_all add: sat_add_def)
  then have c: "s < c" "c \<le> e" "min c e = c" using assms by (simp_all add: c_def)
  then have "sat_add s (c - s) = c" using assms by (simp add: sat_add_exact)
  with c assms have p: "s < page_end_offset b s c (c - s)"
    by (intro page_end_offset_bounds(3)) simp_all
  then have "image_candidate b s e t [] 0 = Some (page_end_offset b s c (c - s))"
    using c e1 by (simp add: image_candidate_def Let_def sat_mul_def c_def [symmetric])
  with p show ?thesis
    using assms False
    by (simp add: page_end_offset_with_images_def Let_def image_free_counts min_absorb1
        pager_consts)
qed

lemma page_turn_leaves_ahead:
  assumes inv: "page_inv (buf_len b) c0 sn st" and free: "image_free b" and len: "buf_len b < u64_max"
    and lt: "pg_cursor st < buf_len b" and budget: "pg_budget st > 0"
    and turn: "page_turn b mode (buf_len b) st = Leave st' \<or> page_turn b mode (buf_len b) st = Again st'"
  shows "pg_cursor st < pg_cursor st'"
proof (cases "range_containing (pg_seen st) (pg_cursor st)")
  case (Some r)
  with lt budget turn show ?thesis
    by (cases r) (auto simp: page_turn_def Let_def dest: range_containing_gt)
next
  case None
  let ?n = "next_seen_start (pg_seen st) (pg_cursor st) (buf_len b)"
  have n: "pg_cursor st < ?n" "?n \<le> buf_len b"
    using next_seen_start_unseen [OF _ None lt] inv by (auto simp: page_inv_def)
  have "pg_cursor st < page_end_offset_with_images b (pg_cursor st) ?n (pg_budget st) MAX_IMAGES_PER_PAGE"
    using n free len budget by (intro page_end_progress) simp_all
  with None lt budget n turn show ?thesis
    by (auto simp: page_turn_def Let_def split: if_splits)
qed

lemma page_turn_leave_mono:
  "page_turn b mode e st = Leave st' \<Longrightarrow> pg_cursor st \<le> pg_cursor st'"
  by (auto simp: page_turn_def Let_def split: if_splits option.splits prod.splits)

lemma page_loop_cursor_mono: "pg_cursor st \<le> pg_cursor (page_loop b mode e st)"
proof (induction b mode e st rule: page_loop.induct)
  case (1 b mode e st)
  then show ?case
    by (cases "page_turn b mode e st")
      (auto simp: page_loop.simps [of b mode e st] dest: page_turn_progress page_turn_leave_mono)
qed

text \<open>The state a page leaves behind, for iterating the command.\<close>

definition page_step ::
  "nat \<Rightarrow> projection_mode \<Rightarrow> pager_buffer \<times> range_set \<Rightarrow> pager_buffer \<times> range_set" where
  "page_step target mode st = snd (take_next_page target mode (fst st) (snd st))"

lemma page_step_buffer:
  "fst (page_step target mode (b, sn)) = b\<lparr>cursor := cursor (fst (page_step target mode (b, sn)))\<rparr>"
  by (simp add: page_step_def take_next_page_def Let_def advance_offset_to_def)

lemma buf_len_cursor [simp]: "buf_len (b\<lparr>cursor := c\<rparr>) = buf_len b"
  by (simp add: buf_len_def)

lemma image_free_cursor [simp]: "image_free (b\<lparr>cursor := c\<rparr>) = image_free b"
  by (simp add: image_free_def)

lemma page_step_shows:
  assumes "wf_range_set sn" and "cursor b \<le> buf_len b" and "buf_len b \<le> u64_max"
    and "page_step target mode (b, sn) = (b', sn')"
  shows "cursor b \<le> cursor b'" and "cursor b' \<le> buf_len b" and "wf_range_set sn'"
    and "points sn' = points sn \<union> {cursor b..<cursor b'}" and "b' = b\<lparr>cursor := cursor b'\<rparr>"
proof -
  let ?st = "page_start (cursor b) (max target 1) sn"
  have inv: "page_inv (buf_len b) (cursor b) sn (page_loop b mode (buf_len b) ?st)"
    using page_loop_shows [OF page_inv_start, of sn "cursor b" b "max target 1" "max target 1" mode] assms(1-3)
    by simp
  with assms(4) show "cursor b \<le> cursor b'" and "cursor b' \<le> buf_len b" and "wf_range_set sn'"
    and "points sn' = points sn \<union> {cursor b..<cursor b'}"
    by (auto simp: page_step_def take_next_page_def Let_def current_offset_def
        advance_offset_to_def page_inv_def)
  show "b' = b\<lparr>cursor := cursor b'\<rparr>"
    using page_step_buffer [of target mode b sn] assms(4) by simp
qed

lemma page_step_progress:
  assumes "wf_range_set sn" and "cursor b < buf_len b" and "buf_len b < u64_max" and "image_free b"
  shows "cursor b < cursor (fst (page_step target mode (b, sn)))"
proof -
  define t where "t = max target 1"
  let ?st = "page_start (cursor b) t sn"
  let ?turn = "page_turn b mode (buf_len b) ?st"
  have inv: "page_inv (buf_len b) (cursor b) sn ?st"
    using assms by (intro page_inv_start) simp_all
  have "pg_cursor ?st < pg_cursor st'" if "?turn = Leave st' \<or> ?turn = Again st'" for st'
    using assms by (intro page_turn_leaves_ahead [OF inv _ _ _ _ that]) (simp_all add: t_def)
  then have "cursor b < pg_cursor (page_loop b mode (buf_len b) ?st)"
    using page_loop_cursor_mono [of _ b mode "buf_len b"]
    by (cases ?turn) (auto simp: page_loop.simps [of b mode _ ?st] intro: less_le_trans)
  with assms(2) show ?thesis
    by (simp add: page_step_def take_next_page_def Let_def current_offset_def advance_offset_to_def
        t_def)
qed

text \<open>
  C20. Paging reaches the end: on a buffer without images, taking pages (of any size) again and
  again brings the cursor to the end of the output after at most as many pages as there are
  characters left, and by then everything from the starting cursor on has been shown.
\<close>

theorem paging_reaches_end:
  assumes "wf_range_set sn" and "cursor b \<le> buf_len b" and "buf_len b < u64_max" and "image_free b"
  shows "\<exists>n \<le> buf_len b - cursor b.
           cursor (fst ((page_step target mode ^^ n) (b, sn))) = buf_len b \<and>
           points (snd ((page_step target mode ^^ n) (b, sn))) = points sn \<union> {cursor b..<buf_len b}"
  using assms
proof (induction "buf_len b - cursor b" arbitrary: b sn rule: less_induct)
  case less
  show ?case
  proof (cases "cursor b = buf_len b")
    case True
    then show ?thesis by (intro exI [of _ 0]) simp
  next
    case False
    obtain b' sn' where st': "page_step target mode (b, sn) = (b', sn')" by fastforce
    note sh = page_step_shows [OF less.prems(1,2) less_imp_le [OF less.prems(3)] st']
    have len: "buf_len b' = buf_len b" and free: "image_free b'"
      using sh(5) less.prems(4) by (metis buf_len_cursor, metis image_free_cursor)
    have lt: "cursor b < cursor b'"
      using page_step_progress [of sn b target mode] less.prems False st' by simp
    with less.hyps [of b' sn'] less.prems sh len free obtain n
      where n: "n \<le> buf_len b - cursor b'"
        "cursor (fst ((page_step target mode ^^ n) (b', sn'))) = buf_len b"
        "points (snd ((page_step target mode ^^ n) (b', sn'))) = points sn' \<union> {cursor b'..<buf_len b}"
      by (auto simp: diff_less_mono2)
    have "points sn' \<union> {cursor b'..<buf_len b} = points sn \<union> {cursor b..<buf_len b}"
      using sh lt by auto
    with n lt sh(2) st' show ?thesis
      by (intro exI [of _ "Suc n"]) (auto simp: funpow_Suc_right simp del: funpow.simps)
  qed
qed

section \<open>Three images at one offset\<close>

lemma image_offsets_loop_pre:
  "list_all (\<lambda>e. event_offset e < s) pre \<Longrightarrow>
   image_offsets_loop s e limit (pre @ evs) offs = image_offsets_loop s e limit evs offs"
  "list_all (\<lambda>e. event_offset e < s) pre \<Longrightarrow>
   count_images_loop s e (pre @ evs) n = count_images_loop s e evs n"
  by (induction pre) simp_all

lemma count_images_loop_ge: "n \<le> u64_max \<Longrightarrow> n \<le> count_images_loop s e evs n"
proof (induction evs arbitrary: n)
  case (Cons ev evs)
  have "n \<le> (if is_image_event ev then sat_add n 1 else n)"
    and "(if is_image_event ev then sat_add n 1 else n) \<le> u64_max"
    using Cons.prems by (auto simp: sat_add_def)
  with Cons show ?case by (auto intro: order.trans)
qed simp

text \<open>The images at offset \<open>c\<close> are more than a page may hold.\<close>

definition image_pile :: "pager_buffer \<Rightarrow> nat \<Rightarrow> bool" where
  "image_pile b c \<longleftrightarrow>
     (let evs = dropWhile (\<lambda>e. event_offset e < c) (buf_events b)
      in length evs > MAX_IMAGES_PER_PAGE \<and>
         list_all (\<lambda>e. is_image_event e \<and> event_offset e = c) (take 3 evs))"

lemma image_pile_split:
  assumes "image_pile b c"
  obtains pre i j k post where "buf_events b = pre @ i # j # k # post"
    "list_all (\<lambda>e. event_offset e < c) pre"
    "list_all (\<lambda>e. is_image_event e \<and> event_offset e = c) [i, j, k]"
proof -
  let ?evs = "dropWhile (\<lambda>e. event_offset e < c) (buf_events b)"
  let ?pre = "takeWhile (\<lambda>e. event_offset e < c) (buf_events b)"
  from assms have "length ?evs \<ge> 3" by (simp add: image_pile_def Let_def pager_consts)
  then obtain i j k post where e: "?evs = i # j # k # post"
    by (cases ?evs; cases "tl ?evs"; cases "tl (tl ?evs)") auto
  have "buf_events b = ?pre @ i # j # k # post" using e by (metis takeWhile_dropWhile_id)
  moreover have "list_all (\<lambda>e. event_offset e < c) ?pre" by (auto simp: list_all_iff dest: set_takeWhileD)
  moreover have "list_all (\<lambda>e. is_image_event e \<and> event_offset e = c) [i, j, k]"
    using assms e by (simp add: image_pile_def Let_def)
  ultimately show ?thesis by (rule that)
qed

lemma image_pile_counts:
  assumes "image_pile b c" and "c \<le> e" and "e \<le> buf_len b"
  shows "image_offsets_in_range b c e 3 = [c, c, c]" and "3 \<le> count_images_in_range b c e"
proof -
  obtain pre i j k post where evs: "buf_events b = pre @ i # j # k # post"
    "list_all (\<lambda>e. event_offset e < c) pre"
    "list_all (\<lambda>e. is_image_event e \<and> event_offset e = c) [i, j, k]"
    using assms(1) by (rule image_pile_split)
  from assms have b: "min e (buf_len b) = e" "min c e = c" by simp_all
  show "image_offsets_in_range b c e 3 = [c, c, c]"
    using assms evs by (simp add: image_offsets_in_range_def Let_def b image_offsets_loop_pre)
  show "3 \<le> count_images_in_range b c e"
    using assms evs count_images_loop_ge [of "Suc (Suc (Suc 0))" c e post]
    by (simp add: count_images_in_range_def Let_def b image_offsets_loop_pre sat_add_def u64_max_def
        numeral_3_eq_3)
qed

lemma image_pile_page_end:
  assumes "image_pile b c" and "c < e" and "e \<le> buf_len b"
  shows "page_end_offset_with_images b c e t MAX_IMAGES_PER_PAGE = c"
proof -
  have none: "image_candidate b c e t [c, c, c] k = None" if "k < 3" for k
  proof -
    have offs: "[c, c, c] ! (k - 1) = c" "[c, c, c] ! k = c" "k < length [c, c, c]"
      using that by (auto simp: numeral_3_eq_3 less_Suc_eq)
    have cand: "min x (c - 1) < c" if "c \<noteq> 0" for x using that by (simp add: min_less_iff_disj)
    show ?thesis
      unfolding image_candidate_def Let_def offs(1,2) if_P [OF offs(3)]
      using cand by (simp only: if_cancel split: if_split) blast
  qed
  have eb: "min e (buf_len b) = e" using assms by simp
  have "[0..<Suc 2] = [0, 1, 2]" by (simp add: upt_rec)
  with none [of 0] none [of 1] none [of 2] image_pile_counts [OF assms(1) _ assms(3)] assms(2)
  show ?thesis
    by (simp add: page_end_offset_with_images_def Let_def eb pager_consts numeral_3_eq_3
        del: upt.simps)
qed

text \<open>
  C24. Three images at one offset, as a loop that draws three plots without printing produces
  them, stop the pager: with the cursor at that offset, not shown yet, a page shows nothing, does
  not move the cursor and does not change what is shown, while the pages left stay positive, so
  every further page is empty, too.
\<close>

theorem image_pile_blocks_paging:
  assumes "wf_range_set sn" and "image_pile b (cursor b)" and "cursor b < buf_len b"
    and "cursor b \<notin> points sn"
  shows "\<exists>left > 0. take_next_page target mode b sn = (([], left, range_span_default), b, sn)"
proof -
  let ?c = "cursor b"
  let ?n = "next_seen_start sn ?c (buf_len b)"
  have none: "range_containing sn ?c = None"
    using assms(1,4) by (simp add: seen.containing_iff)
  note n = next_seen_start_unseen [OF assms(1) none assms(3)]
  have "page_end_offset_with_images b ?c ?n t MAX_IMAGES_PER_PAGE = ?c" for t
    using image_pile_page_end [OF assms(2)] n by simp
  then have "page_turn b mode (buf_len b) (page_start ?c t sn) = Leave (page_start ?c t sn)" for t
    using none n by (simp add: page_turn_def Let_def)
  then have loop: "page_loop b mode (buf_len b) (page_start ?c t sn) = page_start ?c t sn" for t
    by (simp add: page_loop.simps [of b mode _ "page_start ?c t sn"])
  have "3 \<le> count_images_in_range b ?c (buf_len b)"
    using image_pile_counts(2) [OF assms(2), of "buf_len b"] assms(3) by simp
  then have "pages_left b ?c (buf_len b) page > 0" for page
    using assms(3) by (auto simp: pages_left_def Let_def pager_consts div_ceil_def)
  with loop show ?thesis
    using assms(3) by (simp add: take_next_page_def Let_def current_offset_def advance_offset_to_def
        gap_contents_def pages_left_for_buffer_def)
qed

section \<open>Concrete inputs\<close>

definition example_buffer :: pager_buffer where
  "example_buffer =
     from_timeline_range lib_reference
       \<lparr>or_start_offset = 0, or_end_offset = 18,
        or_bytes = ''one'' @ nl @ ''two'' @ nl @ ''three'' @ nl @ ''four'',
        or_events = [], or_text_spans = []\<rparr>"

definition example_seen :: range_set where
  "example_seen = range_insert 4 8 range_set_default"

definition example_plots :: pager_buffer where
  "example_plots =
     advance_offset_to 4 (from_timeline_range lib_reference
       \<lparr>or_start_offset = 0, or_end_offset = 9, or_bytes = ''one'' @ nl @ ''done'' @ nl,
        or_events = map (\<lambda>i. \<lparr>event_offset = 4, event_kind = Image i [] ''image/png'' True\<rparr>)
          [''a'', ''b'', ''c''],
        or_text_spans = []\<rparr>)"

lemma example_seen_points: "wf_range_set example_seen" "points example_seen = {4..<8}"
  using seen.inv_ins [OF seen.inv_emp, of 4 8] seen.pts_ins [OF seen.inv_emp, of 4 8] seen.pts_emp
  by (simp_all add: example_seen_def)

lemma example_buffer_facts:
  "cursor example_buffer = 0" "buf_len example_buffer = 18" "image_free example_buffer"
  "cursor (fst (snd (take_next_page 10 PagerMode example_buffer example_seen))) = 14"
  by code_simp+

lemma example_plots_facts:
  "cursor example_plots = 4" "buf_len example_plots = 9" "image_pile example_plots 4"
  by code_simp+

theorem take_next_page_shows_unseen_witness:
  "case take_next_page 10 PagerMode example_buffer example_seen of
     ((contents, left, span), b', sn') \<Rightarrow>
       cursor b' = 14 \<and> span_points span = {0..<14} - {4..<8} \<and> points sn' = {4..<8} \<union> {0..<14}"
proof -
  obtain contents left span b' sn' where
    eq: "take_next_page 10 PagerMode example_buffer example_seen = ((contents, left, span), b', sn')"
    by (metis prod.exhaust)
  have "cursor b' = 14" using example_buffer_facts(4) eq by simp
  moreover note take_next_page_shows_unseen [OF example_seen_points(1) _ _ eq]
  ultimately show ?thesis
    using example_buffer_facts example_seen_points(2) eq by (simp add: u64_max_def)
qed

theorem advance_cursor_for_page_agrees_witness:
  "advance_cursor_for_page example_buffer 0 18 10 example_seen = 14"
  using advance_cursor_for_page_agrees [OF example_seen_points(1), of example_buffer 10 PagerMode]
    example_buffer_facts by (simp add: u64_max_def)

theorem paging_reaches_end_witness:
  "\<exists>n \<le> 18. cursor (fst ((page_step 5 PagerMode ^^ n) (example_buffer, example_seen))) = 18 \<and>
             points (snd ((page_step 5 PagerMode ^^ n) (example_buffer, example_seen))) = {0..<18}"
proof -
  have "{4..<8} \<union> {0..<18} = {0..<18 :: nat}" by auto
  then show ?thesis
    using paging_reaches_end [OF example_seen_points(1) _ _ example_buffer_facts(3), of 5 PagerMode]
      example_buffer_facts example_seen_points by (simp add: u64_max_def)
qed

theorem image_pile_blocks_paging_witness:
  "\<exists>left > 0. take_next_page 3500 PagerMode example_plots range_set_default =
     (([], left, range_span_default), example_plots, range_set_default)"
  using image_pile_blocks_paging [OF seen.inv_emp, of example_plots 3500 PagerMode]
    example_plots_facts seen.pts_emp by simp

end
