(* ===== verification/Pager_Search.thy ===== *)
theory Pager_Search
  imports Pager_Pages
begin

text \<open>
  \<^verbatim>\<open>src/src/pager/search.rs\<close>: search sessions over a \<^verbatim>\<open>PagerBuffer\<close>, the headings above a match, the
  snippet shown for a match, and the commands \<^verbatim>\<open>:where\<close>, \<^verbatim>\<open>:matches\<close> and \<^verbatim>\<open>:hits\<close>.

  The loops that go from one match to the next take \<open>fuel\<close> turns at most. In a well-formed buffer
  every turn moves the search offset forward, so \<open>Suc (buf_len b)\<close> turns are enough; the lemmas
  on fuel below prove it.
\<close>

section \<open>Model\<close>

definition MATCH_LINE_MAX_BYTES :: nat where "MATCH_LINE_MAX_BYTES = 200"
definition MATCH_BREADCRUMB_MAX_BYTES :: nat where "MATCH_BREADCRUMB_MAX_BYTES = 160"

subsection \<open>Strings\<close>

definition is_alphanumeric :: "pager_lib \<Rightarrow> rchar \<Rightarrow> bool" where
  "is_alphanumeric lib c =
     (let n = code_point c
      in if n < 128
         then 48 \<le> n \<and> n \<le> 57 \<or> 65 \<le> n \<and> n \<le> 90 \<or> 97 \<le> n \<and> n \<le> 122
         else alnum_table lib n)"

text \<open>\<^verbatim>\<open>str::find\<close> and \<^verbatim>\<open>str::rfind\<close>: the first and the last index at which a string occurs.\<close>

definition str_find :: "string \<Rightarrow> string \<Rightarrow> nat option" where
  "str_find s p = find_index (occurs_at s p) 0 (Suc (length s))"

definition str_rfind :: "string \<Rightarrow> string \<Rightarrow> nat option" where
  "str_rfind s p = find (occurs_at s p) (rev [0..<Suc (length s)])"

text \<open>\<^verbatim>\<open>str::replace(pat, "")\<close> for a pattern that is not empty.\<close>

function remove_all :: "string \<Rightarrow> string \<Rightarrow> string" where
  "remove_all p [] = []"
| "remove_all p (c # s) =
     (if p \<noteq> [] \<and> starts_with (c # s) p then remove_all p (drop (length p) (c # s))
      else c # remove_all p s)"
  by pat_completeness auto
termination
proof (relation "measure (\<lambda>(p, s). length s)", goal_cases)
  case (2 p c s)
  then show ?case by (cases p) (simp_all add: le_imp_less_Suc)
qed simp_all

definition is_char_boundary :: "string \<Rightarrow> nat \<Rightarrow> bool" where
  "is_char_boundary s i \<longleftrightarrow> i = 0 \<or> i = length s \<or> (i < length s \<and> \<not> is_cont (s ! i))"

fun floor_loop :: "string \<Rightarrow> nat \<Rightarrow> nat" where
  "floor_loop s 0 = 0"
| "floor_loop s (Suc n) = (if is_char_boundary s (Suc n) then Suc n else floor_loop s n)"

definition floor_char_boundary :: "string \<Rightarrow> nat \<Rightarrow> nat" where
  "floor_char_boundary s offset = floor_loop s (min offset (length s))"

function ceil_loop :: "string \<Rightarrow> nat \<Rightarrow> nat" where
  "ceil_loop s n = (if n < length s \<and> \<not> is_char_boundary s n then ceil_loop s (Suc n) else n)"
  by pat_completeness auto
termination
  by (relation "measure (\<lambda>(s, n). length s - n)") auto

declare ceil_loop.simps [simp del]

definition ceil_char_boundary :: "string \<Rightarrow> nat \<Rightarrow> nat" where
  "ceil_char_boundary s offset = ceil_loop s (min offset (length s))"

subsection \<open>Lines\<close>

definition line_index_for_offset :: "pager_buffer \<Rightarrow> nat \<Rightarrow> nat" where
  "line_index_for_offset b offset =
     partition_point (\<lambda>line_end. line_end \<le> min offset (buf_len b)) (line_ends b)"

definition line_count :: "pager_buffer \<Rightarrow> nat" where
  "line_count b =
     (if buf_bytes b = [] then 0
      else
        (let count = length (line_ends b);
             last_end = (if line_ends b = [] then 0 else last (line_ends b))
         in if last_end < buf_len b then count + 1 else count))"

definition line_bounds_for_index :: "pager_buffer \<Rightarrow> nat \<Rightarrow> nat \<times> nat" where
  "line_bounds_for_index b idx =
     (if idx = 0 then 0 else unwrap_or (list_get (line_ends b) (idx - 1)) (buf_len b),
      unwrap_or (list_get (line_ends b) idx) (buf_len b))"

definition read_line_text :: "pager_buffer \<Rightarrow> nat \<Rightarrow> string" where
  "read_line_text b idx =
     (let (start, end) = line_bounds_for_index b idx
      in trim_end_matches (\<lambda>c. c = [CHR 0x0A] \<or> c = [CHR 0x0D]) (read_text_range b start end))"

definition decoded_match_start_in_line :: "pager_buffer \<Rightarrow> nat \<Rightarrow> nat \<Rightarrow> nat" where
  "decoded_match_start_in_line b line_start match_start =
     length (from_utf8_lossy (slice (buf_bytes b) (byte_index_for_char_offset b line_start)
       (byte_index_for_char_offset b match_start)))"

subsection \<open>Headings\<close>

record heading =
  heading_level :: nat
  heading_text :: string

record heading_state =
  headings :: "heading list"
  last_scanned_line_idx :: nat
  in_fence :: "rchar option"

definition heading_state_new :: heading_state where
  "heading_state_new = \<lparr>headings = [], last_scanned_line_idx = 0, in_fence = None\<rparr>"

definition strip_trailing_anchor_link :: "pager_lib \<Rightarrow> string \<Rightarrow> string" where
  "strip_trailing_anchor_link lib txt =
     (let trimmed = trim_end txt
      in case str_rfind trimmed ''['' of
           None \<Rightarrow> trimmed
         | Some open_idx \<Rightarrow>
             (let link = drop open_idx trimmed
              in if \<not> ends_with link '')'' then trimmed
                 else
                   (case str_find link ''](''  of
                      None \<Rightarrow> trimmed
                    | Some close_idx \<Rightarrow>
                        (let label = slice link 1 close_idx;
                             target = slice link (close_idx + 2) (length link - 1)
                         in if \<not> starts_with target ''#'' then trimmed
                            else if list_ex (is_alphanumeric lib) (chars label) then trimmed
                            else trim_end (take open_idx trimmed)))))"

definition parse_atx_heading :: "pager_lib \<Rightarrow> string \<Rightarrow> (nat \<times> string) option" where
  "parse_atx_heading lib line =
     (let trimmed = trim_start line
      in if \<not> starts_with trimmed ''#'' then None
         else
           (let level = length (takeWhile (\<lambda>b. b = CHR ''#'') trimmed)
            in if level = 0 \<or> level > 6 then None
               else
                 (let rest = drop level trimmed
                  in if rest = [] \<or> \<not> is_ascii_whitespace (hd rest) then None
                     else
                       (let content = trim rest
                        in if content = [] then None
                           else
                             (let content = strip_trailing_anchor_link lib
                                    (trim_end (trim_end_matches (\<lambda>c. c = ''#'') content))
                              in if content = [] then None else Some (level, content))))))"

definition fence_marker :: "string \<Rightarrow> rchar option" where
  "fence_marker line =
     (case chars (trim_start line) of
        [] \<Rightarrow> None
      | first # rest \<Rightarrow>
          if first \<noteq> ''`'' \<and> first \<noteq> ''~'' then None
          else if 1 + length (takeWhile (\<lambda>ch. ch = first) rest) \<ge> 3 then Some first
          else None)"

text \<open>The last heading of the list is the innermost one.\<close>

definition update_heading_stack ::
  "pager_lib \<Rightarrow> string \<Rightarrow> rchar option \<times> heading list \<Rightarrow> rchar option \<times> heading list" where
  "update_heading_stack lib line st =
     (let (fence, hs) = st
      in case fence_marker line of
           Some marker \<Rightarrow>
             if fence = Some marker then (None, hs)
             else if fence = None then (Some marker, hs)
             else (fence, hs)
         | None \<Rightarrow>
             if fence \<noteq> None then (fence, hs)
             else
               (let trimmed = trim_start line
                in if starts_with trimmed ''>'' then (fence, hs)
                   else if starts_with line [CHR 0x09] \<or> starts_with line ''    '' then (fence, hs)
                   else
                     (case parse_atx_heading lib trimmed of
                        None \<Rightarrow> (fence, hs)
                      | Some (level, txt) \<Rightarrow>
                          (fence,
                           rev (dropWhile (\<lambda>h. heading_level h \<ge> level) (rev hs)) @
                             [\<lparr>heading_level = level, heading_text = txt\<rparr>]))))"

definition scan_line :: "pager_lib \<Rightarrow> pager_buffer \<Rightarrow> nat \<Rightarrow> heading_state \<Rightarrow> heading_state" where
  "scan_line lib b idx hs =
     (let (fence, stack) = update_heading_stack lib (read_line_text b idx) (in_fence hs, headings hs)
      in hs\<lparr>in_fence := fence, headings := stack\<rparr>)"

definition scan_to :: "pager_lib \<Rightarrow> pager_buffer \<Rightarrow> nat \<Rightarrow> heading_state \<Rightarrow> heading_state" where
  "scan_to lib b line_idx hs =
     (if line_idx < last_scanned_line_idx hs then hs
      else (foldl (\<lambda>acc idx. scan_line lib b idx acc) hs [last_scanned_line_idx hs..<Suc line_idx])
             \<lparr>last_scanned_line_idx := sat_add line_idx 1\<rparr>)"

definition heading_breadcrumb :: "heading list \<Rightarrow> string" where
  "heading_breadcrumb hs =
     (if hs = [] then ''root''
      else truncate_with_ellipsis (join '' > '' (map heading_text hs)) MATCH_BREADCRUMB_MAX_BYTES)"

definition clean_breadcrumb :: "string \<Rightarrow> string" where
  "clean_breadcrumb breadcrumb =
     trim (remove_all [CHR ''['', CHR 0xC2, CHR 0xB6, CHR '']'']
       (remove_all [CHR ''['', CHR 0xC2, CHR 0xB6, CHR '']'', CHR ''('', CHR '')''] breadcrumb))"

subsection \<open>Sessions\<close>

record search_hit =
  sh_match_start :: nat
  sh_line_idx :: nat
  sh_line_start :: nat
  sh_line_end :: nat
  sh_breadcrumb :: string

record search_session =
  ss_pattern :: search_pattern
  ss_hits :: "search_hit list"
  ss_current_index :: nat
  ss_anchor_offset :: nat
  ss_max_indexed_hits :: "nat option"
  ss_buffer_len :: nat
  ss_next_search_offset :: nat
  ss_complete :: bool
  ss_indexed_from_start :: bool
  ss_headings :: heading_state

record match_line =
  ml_match_start :: nat
  ml_line_idx :: nat
  ml_line_start :: nat
  ml_line_end :: nat

definition line_of_match :: "pager_buffer \<Rightarrow> nat \<Rightarrow> match_line" where
  "line_of_match b match_offset =
     (let line_idx = line_index_for_offset b match_offset;
          (line_start, line_end) = line_bounds_for_index b line_idx
      in \<lparr>ml_match_start = match_offset, ml_line_idx = line_idx, ml_line_start = line_start,
          ml_line_end = line_end\<rparr>)"

definition find_pattern ::
  "pager_lib \<Rightarrow> pager_buffer \<Rightarrow> search_pattern \<Rightarrow> nat \<Rightarrow> nat \<Rightarrow> nat option" where
  "find_pattern lib b pat start_offset end_offset =
     find_next_bytes_with_options lib b start_offset end_offset (pattern pat)
       (case_insensitive_ascii pat)"

definition first_hit_index_for_offset :: "search_hit list \<Rightarrow> nat \<Rightarrow> nat" where
  "first_hit_index_for_offset hs offset =
     unwrap_or (position (\<lambda>h. sh_match_start h \<ge> offset) hs) (length hs)"

definition boundary_hit_index :: "search_hit list \<Rightarrow> nat \<Rightarrow> nat" where
  "boundary_hit_index hs offset = partition_point (\<lambda>h. sh_match_start h < offset) hs"

definition build_search_hit ::
  "pager_lib \<Rightarrow> pager_buffer \<Rightarrow> heading_state \<Rightarrow> nat \<Rightarrow> nat \<Rightarrow> (search_hit \<times> heading_state) option"
where
  "build_search_hit lib b hstate match_offset total_lines =
     (let line_idx = line_index_for_offset b match_offset
      in if line_idx \<ge> total_lines then None
         else
           (let hstate' = scan_to lib b line_idx hstate;
                (line_start, line_end) = line_bounds_for_index b line_idx
            in Some (\<lparr>sh_match_start = match_offset, sh_line_idx = line_idx,
                      sh_line_start = line_start, sh_line_end = line_end,
                      sh_breadcrumb = clean_breadcrumb (heading_breadcrumb (headings hstate'))\<rparr>,
                     hstate')))"

definition full_session_match_offset_for_line ::
  "pager_lib \<Rightarrow> pager_buffer \<Rightarrow> search_pattern \<Rightarrow> nat \<Rightarrow> nat \<Rightarrow> nat \<Rightarrow> nat" where
  "full_session_match_offset_for_line lib b pat start_offset match_offset line_end =
     (if match_offset \<ge> start_offset \<or> start_offset \<ge> line_end then match_offset
      else unwrap_or (find_pattern lib b pat start_offset line_end) match_offset)"

text \<open>
  The loop of \<^verbatim>\<open>build_indexed_search_session\<close>: the state is the search offset, the headings and the
  hits so far; the result adds whether the end of the buffer was reached.
\<close>

fun index_loop ::
  "pager_lib \<Rightarrow> pager_buffer \<Rightarrow> search_pattern \<Rightarrow> nat \<Rightarrow> nat option \<Rightarrow> nat \<Rightarrow> nat \<Rightarrow>
   heading_state \<Rightarrow> search_hit list \<Rightarrow> nat \<times> heading_state \<times> search_hit list \<times> bool" where
  "index_loop lib b pat start_offset limit 0 search_offset hstate hits =
     (search_offset, hstate, hits, False)"
| "index_loop lib b pat start_offset limit (Suc fuel) search_offset hstate hits =
     (case find_pattern lib b pat search_offset (buf_len b) of
        None \<Rightarrow> (search_offset, hstate, hits, True)
      | Some match_offset \<Rightarrow>
          (let line = line_of_match b match_offset
           in if ml_line_idx line \<ge> line_count b then (search_offset, hstate, hits, False)
              else
                (case build_search_hit lib b hstate
                        (full_session_match_offset_for_line lib b pat start_offset match_offset
                           (ml_line_end line)) (line_count b) of
                   None \<Rightarrow> (search_offset, hstate, hits, False)
                 | Some (hit, hstate') \<Rightarrow>
                     (let hits' = hits @ [hit];
                          search_offset' = sh_line_end hit
                      in if pred_option (\<lambda>l. length hits' < l) limit \<and> search_offset' < buf_len b
                         then index_loop lib b pat start_offset limit fuel search_offset' hstate'
                                hits'
                         else (search_offset', hstate', hits',
                               pred_option (\<lambda>l. length hits' < l) limit)))))"

definition build_indexed_search_session ::
  "pager_lib \<Rightarrow> pager_buffer \<Rightarrow> search_pattern \<Rightarrow> nat \<Rightarrow> nat option \<Rightarrow> search_session option" where
  "build_indexed_search_session lib b pat start_offset limit =
     (let end_offset = buf_len b
      in if end_offset = 0 \<or> line_count b = 0 then None
         else
           (let (search_offset, hstate, hits, indexed_to_end) =
                  index_loop lib b pat start_offset limit (Suc end_offset) 0 heading_state_new []
            in if hits = [] then None
               else Some \<lparr>ss_pattern = pat, ss_hits = hits,
                          ss_current_index = first_hit_index_for_offset hits start_offset,
                          ss_anchor_offset = start_offset, ss_max_indexed_hits = limit,
                          ss_buffer_len = buf_len b,
                          ss_next_search_offset =
                            (if indexed_to_end then end_offset else search_offset),
                          ss_complete = indexed_to_end, ss_indexed_from_start = True,
                          ss_headings = hstate\<rparr>))"

definition build_full_search_session ::
  "pager_lib \<Rightarrow> pager_buffer \<Rightarrow> search_pattern \<Rightarrow> nat \<Rightarrow> search_session option" where
  "build_full_search_session lib b pat start_offset =
     build_indexed_search_session lib b pat start_offset None"

definition build_bounded_search_session ::
  "pager_lib \<Rightarrow> pager_buffer \<Rightarrow> search_pattern \<Rightarrow> nat \<Rightarrow> nat \<Rightarrow> search_session option" where
  "build_bounded_search_session lib b pat start_offset max_indexed_hits =
     build_indexed_search_session lib b pat start_offset (Some max_indexed_hits)"

definition build_forward_search_session ::
  "pager_lib \<Rightarrow> pager_buffer \<Rightarrow> search_pattern \<Rightarrow> nat \<Rightarrow> search_session option" where
  "build_forward_search_session lib b pat start_offset =
     (let end_offset = buf_len b
      in if end_offset = 0 \<or> line_count b = 0 \<or> start_offset \<ge> end_offset then None
         else
           (case find_pattern lib b pat start_offset end_offset of
              None \<Rightarrow> None
            | Some match_offset \<Rightarrow>
                (case build_search_hit lib b heading_state_new match_offset (line_count b) of
                   None \<Rightarrow> None
                 | Some (hit, hstate) \<Rightarrow>
                     Some \<lparr>ss_pattern = pat, ss_hits = [hit], ss_current_index = 0,
                           ss_anchor_offset = match_offset, ss_max_indexed_hits = None,
                           ss_buffer_len = buf_len b, ss_next_search_offset = sh_line_end hit,
                           ss_complete = False, ss_indexed_from_start = (start_offset = 0),
                           ss_headings = hstate\<rparr>)))"

definition current_search_anchor :: "search_session \<Rightarrow> nat option" where
  "current_search_anchor ss = (if ss_hits ss \<noteq> [] then Some (ss_anchor_offset ss) else None)"

definition session_exhausted :: "pager_buffer \<Rightarrow> search_session \<Rightarrow> search_session" where
  "session_exhausted b ss = ss\<lparr>ss_complete := True, ss_next_search_offset := buf_len b\<rparr>"

text \<open>The loop of \<^verbatim>\<open>extend_search_session_forward\<close>; every turn adds a hit or ends it.\<close>

function extend_loop ::
  "pager_lib \<Rightarrow> pager_buffer \<Rightarrow> nat \<Rightarrow> search_session \<Rightarrow> search_session" where
  "extend_loop lib b needed_hits ss =
     (if length (ss_hits ss) < needed_hits then
        (case find_pattern lib b (ss_pattern ss) (ss_next_search_offset ss) (buf_len b) of
           None \<Rightarrow> session_exhausted b ss
         | Some match_offset \<Rightarrow>
             (case build_search_hit lib b (ss_headings ss) match_offset (line_count b) of
                None \<Rightarrow> session_exhausted b ss
              | Some (hit, hstate) \<Rightarrow>
                  (let ss' = ss\<lparr>ss_headings := hstate, ss_hits := ss_hits ss @ [hit],
                                ss_next_search_offset := sh_line_end hit\<rparr>
                   in if sh_line_end hit \<ge> buf_len b then session_exhausted b ss'
                      else extend_loop lib b needed_hits ss')))
      else ss)"
  by pat_completeness auto
termination
  by (relation "measure (\<lambda>(lib, b, n, ss). n - length (ss_hits ss))") auto

declare extend_loop.simps [simp del]

definition extend_search_session_forward ::
  "pager_lib \<Rightarrow> pager_buffer \<Rightarrow> nat \<Rightarrow> search_session \<Rightarrow> search_session" where
  "extend_search_session_forward lib b needed_hits ss =
     (if ss_complete ss \<or> ss_hits ss = [] then ss else extend_loop lib b needed_hits ss)"

datatype search_step_outcome = Moved | Boundary

definition moved_index :: "search_session \<Rightarrow> nat \<Rightarrow> bool \<Rightarrow> nat" where
  "moved_index ss count forward =
     (let n = length (ss_hits ss);
          last = n - 1;
          boundary = boundary_hit_index (ss_hits ss) (ss_anchor_offset ss);
          current = ss_current_index ss
      in if forward then
           (if current \<ge> n then
              (if boundary \<ge> n then current else min (sat_add boundary (count - 1)) last)
            else min (sat_add current count) last)
         else if current \<ge> n then
           (if boundary = 0 then current else boundary - count)
         else current - count)"

definition move_search_session ::
  "nat \<Rightarrow> bool \<Rightarrow> search_session \<Rightarrow> search_step_outcome \<times> search_session" where
  "move_search_session count forward ss =
     (if ss_hits ss = [] then (Boundary, ss)
      else
        (let new = moved_index ss (max count 1) forward;
             ss' = ss\<lparr>ss_current_index := new\<rparr>
         in if new = ss_current_index ss then (Boundary, ss')
            else (Moved, ss'\<lparr>ss_anchor_offset := sh_match_start (ss_hits ss ! new)\<rparr>)))"

definition goto_search_hit :: "nat \<Rightarrow> search_session \<Rightarrow> bool \<times> search_session" where
  "goto_search_hit index ss =
     (if index = 0 \<or> index > length (ss_hits ss) then (False, ss)
      else (True, ss\<lparr>ss_current_index := index - 1,
                     ss_anchor_offset := sh_match_start (ss_hits ss ! (index - 1))\<rparr>))"

definition search_boundary_message :: "search_session \<Rightarrow> bool \<Rightarrow> string" where
  "search_boundary_message ss forward =
     (let edge = (if forward then ''last'' else ''first'');
          n = length (ss_hits ss);
          display_index = (if n = 0 then 0 else min (ss_current_index ss) (n - 1) + 1)
      in if ss_indexed_from_start ss \<and> ss_complete ss then
           ''[pager] already at the '' @ edge @ '' search hit #'' @ dec display_index @ ''/'' @
           dec n @ '' for `'' @ pattern (ss_pattern ss) @ ''`''
         else if ss_indexed_from_start ss then
           ''[pager] already at the '' @ edge @ '' known search hit #'' @ dec display_index @
           '' for `'' @ pattern (ss_pattern ss) @ ''`''
         else
           ''[pager] already at the '' @ edge @ '' known search hit for `'' @
           pattern (ss_pattern ss) @ ''`'')"

subsection \<open>Messages\<close>

definition all_matches_shown_message :: "string \<Rightarrow> string" where
  "all_matches_shown_message pat =
     ''[pager] all matches already shown (pager does not repeat output): '' @ pat"

definition plain_pattern_not_found_message :: "string \<Rightarrow> string" where
  "plain_pattern_not_found_message pat = ''[pager] pattern not found: '' @ pat"

definition pattern_not_found_message :: "string \<Rightarrow> nat \<Rightarrow> string" where
  "pattern_not_found_message pat start_offset =
     (if start_offset = 0 then plain_pattern_not_found_message pat
      else ''[pager] pattern not found (search is forward-only over unseen output; use `:matches -n all '' @
             pat @ ''` to locate offsets, then `:seek @OFFSET` to jump)'')"

definition match_limit_hint :: "nat \<Rightarrow> string" where
  "match_limit_hint limit =
     (if limit < MAX_MATCH_LIMIT then ''use `:matches -n all`, `:goto N`, or `:n`/`:p`''
      else ''use `:goto N` or `:n`/`:p`'')"

definition match_header :: "nat \<Rightarrow> nat \<Rightarrow> bool \<Rightarrow> string" where
  "match_header matches limit more_available =
     (if more_available then
        ''[pager] matches: '' @ dec matches @ '' shown (limit '' @ dec limit @
        ''), more available; '' @ match_limit_hint limit
      else ''[pager] matches: '' @ dec matches @ '' (limit '' @ dec limit @ ''); '' @
        match_limit_hint limit)"

definition prior_view_message :: "range list \<Rightarrow> nat \<Rightarrow> string option" where
  "prior_view_message view_history match_start =
     map_option (\<lambda>(start, end). ''[pager] shown earlier @'' @ dec start @ ''..'' @ dec end)
       (find (\<lambda>(start, end). start \<le> match_start \<and> match_start < end) (rev view_history))"

subsection \<open>The first match that has not been shown\<close>

datatype match_search_result = FoundLine match_line | NotFound | SeenOnly

fun unseen_match_loop ::
  "pager_lib \<Rightarrow> pager_buffer \<Rightarrow> search_pattern \<Rightarrow> range_set \<Rightarrow> nat \<Rightarrow> nat \<Rightarrow> bool \<Rightarrow>
   match_search_result" where
  "unseen_match_loop lib b pat sn 0 search_offset saw_match = SeenOnly"
| "unseen_match_loop lib b pat sn (Suc fuel) search_offset saw_match =
     (case find_pattern lib b pat search_offset (buf_len b) of
        None \<Rightarrow> if saw_match then SeenOnly else NotFound
      | Some match_offset \<Rightarrow>
          (let line = line_of_match b match_offset
           in if ml_line_idx line \<ge> line_count b then SeenOnly
              else if \<not> covers sn (ml_line_start line) (ml_line_end line) then FoundLine line
              else
                (let search_offset' = max (ml_line_end line) (sat_add match_offset 1)
                 in if search_offset' \<ge> buf_len b then SeenOnly
                    else unseen_match_loop lib b pat sn fuel search_offset' True)))"

definition find_next_unseen_match_line ::
  "pager_lib \<Rightarrow> pager_buffer \<Rightarrow> nat \<Rightarrow> search_pattern \<Rightarrow> range_set \<Rightarrow> match_search_result" where
  "find_next_unseen_match_line lib b start_offset pat sn =
     (if start_offset \<ge> buf_len b \<or> line_count b = 0 then NotFound
      else unseen_match_loop lib b pat sn (Suc (buf_len b)) start_offset False)"

subsection \<open>The command where\<close>

datatype where_match_kind = WhereForward | WhereEarlier

record where_match =
  where_kind :: where_match_kind
  where_matched :: match_line

fun earlier_match_loop ::
  "pager_lib \<Rightarrow> pager_buffer \<Rightarrow> search_pattern \<Rightarrow> nat \<Rightarrow> nat \<Rightarrow> nat \<Rightarrow> match_line option \<Rightarrow>
   match_line option" where
  "earlier_match_loop lib b pat search_end 0 search_offset found = found"
| "earlier_match_loop lib b pat search_end (Suc fuel) search_offset found =
     (if search_offset < search_end then
        (case find_pattern lib b pat search_offset search_end of
           None \<Rightarrow> found
         | Some match_offset \<Rightarrow>
             (let line = line_of_match b match_offset
              in if ml_line_idx line \<ge> line_count b then found
                 else earlier_match_loop lib b pat search_end fuel
                        (max (ml_line_end line) (sat_add match_offset 1)) (Some line)))
      else found)"

definition find_where_match ::
  "pager_lib \<Rightarrow> pager_buffer \<Rightarrow> search_pattern \<Rightarrow> nat \<Rightarrow> where_match option" where
  "find_where_match lib b pat start_offset =
     (let end_offset = buf_len b;
          forward = (if start_offset < end_offset then find_pattern lib b pat start_offset end_offset
                     else None);
          earlier = map_option (\<lambda>m. \<lparr>where_kind = WhereEarlier, where_matched = m\<rparr>)
            (earlier_match_loop lib b pat (min start_offset end_offset) (Suc end_offset) 0 None)
      in if end_offset = 0 \<or> line_count b = 0 then None
         else
           (case forward of
              None \<Rightarrow> earlier
            | Some match_offset \<Rightarrow>
                (let line = line_of_match b match_offset
                 in if ml_line_idx line < line_count b
                    then Some \<lparr>where_kind = WhereForward, where_matched = line\<rparr>
                    else earlier)))"

text \<open>The loop that counts the pages before the match; every turn moves the cursor forward.\<close>

function where_loop ::
  "pager_buffer \<Rightarrow> range_set \<Rightarrow> nat \<Rightarrow> nat \<Rightarrow> nat \<Rightarrow> nat \<Rightarrow> nat \<Rightarrow> nat" where
  "where_loop b sn page end_offset line_start cur pages_to_skip =
     (let page_end = advance_cursor_for_page b cur end_offset page sn
      in if page_end \<le> cur then pages_to_skip
         else if page_end \<le> line_start then
           (if page_end \<ge> end_offset then sat_add pages_to_skip 1
            else where_loop b sn page end_offset line_start page_end (sat_add pages_to_skip 1))
         else pages_to_skip)"
  by pat_completeness auto
termination
  by (relation "measure (\<lambda>(b, sn, page, e, ls, cur, k). e - cur)") auto

declare where_loop.simps [simp del]

definition where_in_buffer ::
  "pager_lib \<Rightarrow> pager_buffer \<Rightarrow> range_set \<Rightarrow> nat \<Rightarrow> search_pattern \<Rightarrow> string" where
  "where_in_buffer lib b sn page pat =
     (let start_offset = current_offset b;
          end_offset = buf_len b;
          search_cmd = (if case_insensitive_ascii pat then '':/i '' else '':/'') @ pattern pat
      in if end_offset = 0 then ''[pager] no remaining output''
         else
           (case find_where_match lib b pat start_offset of
              None \<Rightarrow> plain_pattern_not_found_message (pattern pat)
            | Some target \<Rightarrow>
                (if where_kind target = WhereEarlier then
                   ''[pager] no later match; nearest earlier match is behind the cursor @'' @
                   dec (ml_match_start (where_matched target)) @ '': use '' @ search_cmd
                 else
                   (let pages_to_skip = where_loop b sn page end_offset
                          (ml_line_start (where_matched target)) start_offset 0
                    in if pages_to_skip = 0
                       then ''[pager] match is on the current/next page: use '' @ search_cmd
                       else ''[pager] next match is ~'' @ dec pages_to_skip @
                         '' page(s) ahead: use '' @ search_cmd @ '' or `:skip '' @
                         dec pages_to_skip @ ''`''))))"

subsection \<open>Snippets\<close>

record snippet_window =
  win_start_byte :: nat
  win_end_byte :: nat
  has_prefix_ellipsis :: bool
  has_suffix_ellipsis :: bool

definition stream_of :: "bool \<Rightarrow> text_stream" where
  "stream_of is_stderr = (if is_stderr then Stderr else Stdout)"

definition decoded_match_style ::
  "pager_buffer \<Rightarrow> nat \<Rightarrow> string \<Rightarrow> text_stream \<Rightarrow> text_stream \<times> content_origin" where
  "decoded_match_style b match_start line default_stream =
     (case find (\<lambda>s. pspan_start s \<le> match_start \<and> match_start < pspan_end s) (buf_spans b) of
        Some s \<Rightarrow> (stream_of (pspan_is_stderr s), pspan_origin s)
      | None \<Rightarrow> if starts_with line ''stderr: '' then (Stderr, Worker) else (default_stream, Worker))"

definition has_style :: "text_stream \<times> content_origin \<Rightarrow> worker_content \<Rightarrow> bool" where
  "has_style style c =
     (case c of ContentText _ s orig _ \<Rightarrow> (s, orig) = style | ContentImage _ _ _ _ \<Rightarrow> False)"

definition styled_text :: "string \<Rightarrow> text_stream \<times> content_origin \<Rightarrow> worker_content" where
  "styled_text txt style = ContentText txt (fst style) (snd style) ReplyAndTranscript"

definition append_text_content ::
  "string \<Rightarrow> text_stream \<times> content_origin \<Rightarrow> worker_content list \<Rightarrow> worker_content list" where
  "append_text_content txt style contents =
     (if txt = [] then contents
      else if contents \<noteq> [] \<and> has_style style (last contents)
        then butlast contents @ [case last contents of
               ContentText t s orig v \<Rightarrow> ContentText (t @ txt) s orig v | c \<Rightarrow> c]
      else contents @ [styled_text txt style])"

definition prepend_text_content ::
  "string \<Rightarrow> text_stream \<times> content_origin \<Rightarrow> worker_content list \<Rightarrow> worker_content list" where
  "prepend_text_content txt style contents =
     (if txt = [] then contents
      else if contents \<noteq> [] \<and> has_style style (hd contents)
        then (case hd contents of
               ContentText t s orig v \<Rightarrow> ContentText (txt @ t) s orig v | c \<Rightarrow> c) # tl contents
      else styled_text txt style # contents)"

fun first_text_style :: "worker_content list \<Rightarrow> (text_stream \<times> content_origin) option" where
  "first_text_style [] = None"
| "first_text_style (ContentText _ s orig _ # cs) = Some (s, orig)"
| "first_text_style (ContentImage _ _ _ _ # cs) = first_text_style cs"

definition last_text_style :: "worker_content list \<Rightarrow> (text_stream \<times> content_origin) option" where
  "last_text_style contents = first_text_style (rev contents)"

definition byte_index_for_char_in_text :: "string \<Rightarrow> nat \<Rightarrow> nat" where
  "byte_index_for_char_in_text txt target =
     (if target = 0 then 0
      else unwrap_or (list_get (butlast (offsets_from 0 (chars txt))) target) (length txt))"

definition push_line_segment ::
  "string \<Rightarrow> nat \<Rightarrow> nat \<Rightarrow> nat \<Rightarrow> text_stream \<times> content_origin \<Rightarrow> worker_content list \<Rightarrow>
   worker_content list" where
  "push_line_segment line line_start segment_start segment_end style contents =
     (if segment_start \<ge> segment_end then contents
      else
        (let start_byte = byte_index_for_char_in_text line (segment_start - line_start);
             end_byte = byte_index_for_char_in_text line (segment_end - line_start)
         in if start_byte \<ge> end_byte then contents
            else append_text_content (slice line start_byte end_byte) style contents))"

text \<open>One turn of the loop over the text spans; the state is the contents and \<^verbatim>\<open>cursor\<close>.\<close>

definition snippet_span ::
  "string \<Rightarrow> nat \<Rightarrow> nat \<Rightarrow> nat \<Rightarrow> text_stream \<times> content_origin \<Rightarrow> pager_text_span \<Rightarrow>
   worker_content list \<times> nat \<Rightarrow> worker_content list \<times> nat" where
  "snippet_span trimmed line_start snippet_start snippet_end style span st =
     (let (contents, cur) = st
      in if pspan_end span \<le> snippet_start \<or> pspan_start span \<ge> snippet_end then st
         else
           (let segment_start = max (pspan_start span) snippet_start;
                contents1 = (if segment_start > cur
                  then push_line_segment trimmed line_start cur segment_start style contents
                  else contents);
                segment_end = min (pspan_end span) snippet_end
            in (push_line_segment trimmed line_start segment_start segment_end
                  (stream_of (pspan_is_stderr span), pspan_origin span) contents1,
                segment_end)))"

definition render_match_snippet_contents ::
  "pager_buffer \<Rightarrow> nat \<Rightarrow> nat \<Rightarrow> string \<Rightarrow> snippet_window \<Rightarrow> text_stream \<Rightarrow> worker_content list" where
  "render_match_snippet_contents b line_start match_start line window default_stream =
     (let trimmed = trim_end line;
          style = decoded_match_style b match_start line default_stream;
          snippet_start =
            sat_add line_start (length (chars (take (win_start_byte window) trimmed)));
          snippet_end =
            sat_add line_start (length (chars (take (win_end_byte window) trimmed)));
          (contents, cur) =
            foldl (\<lambda>st span. snippet_span trimmed line_start snippet_start snippet_end style span st)
              ([], snippet_start) (buf_spans b);
          contents1 = (if cur < snippet_end
            then push_line_segment trimmed line_start cur snippet_end style contents
            else contents);
          contents2 = (if contents1 = []
            then append_text_content
                   (slice trimmed (win_start_byte window) (win_end_byte window)) style contents1
            else contents1);
          prefix = ''[match] '' @ (if has_prefix_ellipsis window then ''...'' else []);
          contents3 = prepend_text_content prefix
            (unwrap_or (first_text_style contents2) style) contents2;
          suffix = (if has_suffix_ellipsis window then ''...'' @ nl else nl)
      in append_text_content suffix (unwrap_or (last_text_style contents3) style) contents3)"

fun visible_end_loop :: "nat \<Rightarrow> nat \<Rightarrow> rchar list \<Rightarrow> nat \<Rightarrow> nat" where
  "visible_end_loop keep_bytes idx [] end = end"
| "visible_end_loop keep_bytes idx (ch # cs) end =
     (if idx \<ge> keep_bytes then end
      else visible_end_loop keep_bytes (idx + length ch) cs (idx + length ch))"

definition visible_prefix_end_byte :: "string \<Rightarrow> nat \<Rightarrow> nat" where
  "visible_prefix_end_byte txt max_bytes =
     (if length txt \<le> max_bytes then length txt
      else if max_bytes \<le> 3 then 0
      else visible_end_loop (max_bytes - 3) 0 (chars txt) 0)"

definition visible_prefix_range :: "nat \<Rightarrow> nat \<Rightarrow> string \<Rightarrow> range option" where
  "visible_prefix_range line_start line_end line =
     (let trimmed = trim_end line;
          visible_end_byte = visible_prefix_end_byte trimmed MATCH_LINE_MAX_BYTES
      in if visible_end_byte = 0 then None
         else
           (let visible_chars = length (chars (take visible_end_byte trimmed));
                visible_end = min (sat_add line_start visible_chars) line_end
            in if visible_end > line_start then Some (line_start, visible_end) else None))"

definition prefix_snippet_shows_match :: "string \<Rightarrow> nat \<Rightarrow> string \<Rightarrow> bool" where
  "prefix_snippet_shows_match line match_start_in_line pat =
     (let trimmed = trim_end line;
          visible_end_byte = visible_prefix_end_byte trimmed MATCH_LINE_MAX_BYTES
      in visible_end_byte \<ge> length trimmed \<or>
         min (sat_add match_start_in_line (length pat)) (length trimmed) \<le> visible_end_byte)"

definition snippet_window_around_match :: "string \<Rightarrow> nat \<Rightarrow> string \<Rightarrow> snippet_window" where
  "snippet_window_around_match line match_start_in_line pat =
     (let trimmed = trim_end line; n = length trimmed
      in if n \<le> MATCH_LINE_MAX_BYTES then
           \<lparr>win_start_byte = 0, win_end_byte = n, has_prefix_ellipsis = False,
            has_suffix_ellipsis = False\<rparr>
         else
           (let match_start = min match_start_in_line n;
                match_end = min (sat_add match_start (length pat)) n;
                (start0, end0) =
                  (if min MATCH_LINE_MAX_BYTES n < match_end then
                     (let s1 = match_start - MATCH_LINE_MAX_BYTES div 2;
                          e1 = min (sat_add s1 MATCH_LINE_MAX_BYTES) n
                      in if e1 < match_end then (match_end - MATCH_LINE_MAX_BYTES, match_end)
                         else (s1, e1))
                   else (0, min MATCH_LINE_MAX_BYTES n));
                window_start = floor_char_boundary trimmed start0;
                window_end = ceil_char_boundary trimmed end0
            in \<lparr>win_start_byte = window_start, win_end_byte = window_end,
                has_prefix_ellipsis = (window_start > 0),
                has_suffix_ellipsis = (window_end < n)\<rparr>))"

subsection \<open>The card of a search hit\<close>

definition search_header :: "search_session \<Rightarrow> search_hit \<Rightarrow> string" where
  "search_header ss hit =
     (let pat = pattern (ss_pattern ss)
      in if ss_indexed_from_start ss \<and> ss_complete ss then
           ''[pager] search #'' @ dec (ss_current_index ss + 1) @ ''/'' @
           dec (length (ss_hits ss)) @ '' for `'' @ pat @ ''` @'' @ dec (sh_match_start hit)
         else if ss_indexed_from_start ss then
           ''[pager] search #'' @ dec (ss_current_index ss + 1) @ ''/? for `'' @ pat @ ''` @'' @
           dec (sh_match_start hit)
         else ''[pager] search for `'' @ pat @ ''` @'' @ dec (sh_match_start hit))"

text \<open>The range a card counts as shown, and the offset at which paging resumes.\<close>

definition card_ranges :: "nat \<Rightarrow> search_session \<Rightarrow> search_hit \<Rightarrow> range option \<times> nat option" where
  "card_ranges current ss hit =
     (let match_char_len = max (length (chars (pattern (ss_pattern ss)))) 1;
          match_end = min (sat_add (sh_match_start hit) match_char_len) (sh_line_end hit);
          on_current_line = (sh_line_start hit \<le> current \<and> current < sh_line_end hit)
      in if on_current_line
         then (None, if sh_match_start hit < current then Some (sh_line_start hit) else None)
         else (Some (sh_match_start hit, match_end), Some (sh_line_start hit)))"

definition render_search_card ::
  "pager_buffer \<Rightarrow> search_session \<Rightarrow> range list \<Rightarrow> text_stream \<Rightarrow>
   worker_content list \<times> range option \<times> nat option" where
  "render_search_card b ss view_history default_stream =
     (case list_get (ss_hits ss) (ss_current_index ss) of
        None \<Rightarrow>
          ([server_stderr (pattern_not_found_message (pattern (ss_pattern ss))
              (current_offset b))], None, None)
      | Some hit \<Rightarrow>
          (let prior = (case prior_view_message view_history (sh_match_start hit) of
                 None \<Rightarrow> [] | Some message \<Rightarrow> [server_stderr message]);
               line = read_line_text b (sh_line_idx hit);
               match_start_in_line =
                 decoded_match_start_in_line b (sh_line_start hit) (sh_match_start hit);
               crumb = (if sh_breadcrumb hit \<noteq> ''root'' then [server_stderr (sh_breadcrumb hit @ nl)]
                        else []);
               window = snippet_window_around_match line match_start_in_line
                 (pattern (ss_pattern ss))
           in ([server_stderr (search_header ss hit)] @ prior @ crumb @
                 render_match_snippet_contents b (sh_line_start hit) (sh_match_start hit) line
                   window default_stream,
               card_ranges (current_offset b) ss hit)))"

subsection \<open>The command matches\<close>

record listing =
  lst_output :: string
  lst_span :: range_span
  lst_views :: "range list"

definition opt_list :: "'a option \<Rightarrow> 'a list" where
  "opt_list x = (case x of None \<Rightarrow> [] | Some v \<Rightarrow> [v])"

definition snippet_of :: "string \<Rightarrow> string" where
  "snippet_of line = truncate_with_ellipsis (trim_end line) MATCH_LINE_MAX_BYTES"

text \<open>One line of the context of a match.\<close>

definition match_context_line :: "pager_buffer \<Rightarrow> nat \<Rightarrow> nat \<Rightarrow> listing \<Rightarrow> listing" where
  "match_context_line b match_idx line_idx l =
     (let (line_start, line_end) = line_bounds_for_index b line_idx;
          line = read_line_text b line_idx;
          marker = (if line_idx = match_idx then ''>'' else '' '')
      in l\<lparr>lst_output := lst_output l @ ''  '' @ marker @ '' '' @ snippet_of line @ nl,
           lst_span := span_record (Some (line_start, line_end)) (lst_span l),
           lst_views := lst_views l @ opt_list (visible_prefix_range line_start line_end line)\<rparr>)"

definition match_entry ::
  "pager_buffer \<Rightarrow> string \<Rightarrow> nat \<Rightarrow> nat \<times> search_hit \<Rightarrow> listing \<Rightarrow> listing" where
  "match_entry b pat context labelled l =
     (let (idx, entry) = labelled;
          label = ''#'' @ dec (idx + 1) @ '' @'' @ dec (sh_match_start entry) @ '' '' @
            sh_breadcrumb entry
      in if context = 0 then
           (let line = read_line_text b (sh_line_idx entry);
                match_start_in_line =
                  decoded_match_start_in_line b (sh_line_start entry) (sh_match_start entry)
            in l\<lparr>lst_output := lst_output l @ label @ '' | '' @ snippet_of line @ nl,
                 lst_span := span_record (Some (sh_line_start entry, sh_line_end entry)) (lst_span l),
                 lst_views := lst_views l @
                   (if prefix_snippet_shows_match line match_start_in_line pat
                    then opt_list (visible_prefix_range (sh_line_start entry) (sh_line_end entry) line)
                    else [])\<rparr>)
         else
           (let start_idx = sh_line_idx entry - context;
                end_idx = min (sh_line_idx entry + context) (line_count b - 1)
            in foldl (\<lambda>acc line_idx. match_context_line b (sh_line_idx entry) line_idx acc)
                 (l\<lparr>lst_output := lst_output l @ label @ nl\<rparr>) [start_idx..<Suc end_idx]))"

definition take_matches ::
  "pager_buffer \<Rightarrow> match_spec \<Rightarrow> search_session \<Rightarrow>
   worker_content list \<times> range_span \<times> range list" where
  "take_matches b spec ss =
     (if ss_hits ss = [] then
        ([server_stderr (pattern_not_found_message (pattern (ss_pattern ss)) (current_offset b))],
         range_span_default, [])
      else
        (let more_available = (length (ss_hits ss) > match_limit spec);
             l = foldl (\<lambda>acc labelled.
                   match_entry b (pattern (ss_pattern ss)) (match_context spec) labelled acc)
                 \<lparr>lst_output = [], lst_span = range_span_default, lst_views = []\<rparr>
                 (enumerate 0 (take (match_limit spec) (ss_hits ss)))
         in ([server_stderr (match_header (min (length (ss_hits ss)) (match_limit spec))
                (match_limit spec) more_available),
              server_stdout (lst_output l)], lst_span l, lst_views l)))"

subsection \<open>The command hits\<close>

record hit_state =
  hst_pattern :: search_pattern
  hst_context :: nat
  hst_hit_index :: nat
  hst_last_emitted_line :: "nat option"
  hst_headings :: heading_state

definition hit_state_new :: "search_pattern \<Rightarrow> nat \<Rightarrow> hit_state" where
  "hit_state_new pat context =
     \<lparr>hst_pattern = pat, hst_context = context, hst_hit_index = 0, hst_last_emitted_line = None,
      hst_headings = heading_state_new\<rparr>"

record hit_output =
  ho_text :: string
  ho_first_range :: "range option"
  ho_last_range :: "range option"
  ho_view_ranges :: "range list"

datatype hit_take_result = HitFound hit_output | HitNotFound | HitSeenOnly

text \<open>One line of the loop that prints a hit with its context, and marks the line as shown.\<close>

record hit_lines =
  hl_out :: hit_output
  hl_seen :: range_set
  hl_last_line :: "nat option"

definition hit_line :: "pager_buffer \<Rightarrow> nat \<Rightarrow> nat \<Rightarrow> hit_lines \<Rightarrow> hit_lines" where
  "hit_line b match_idx idx st =
     (let (line_start, line_end) = line_bounds_for_index b idx;
          out = hl_out st
      in if covers (hl_seen st) line_start line_end then st
         else
           (let line = read_line_text b idx;
                marker = (if idx = match_idx then ''>'' else '' '')
            in \<lparr>hl_out =
                  \<lparr>ho_text = ho_text out @ ''  '' @ marker @ '' '' @ snippet_of line @ nl,
                   ho_first_range = (case ho_first_range out of
                      None \<Rightarrow> Some (line_start, line_end) | r \<Rightarrow> r),
                   ho_last_range = Some (line_start, line_end),
                   ho_view_ranges = ho_view_ranges out @
                     opt_list (visible_prefix_range line_start line_end line)\<rparr>,
                hl_seen = range_insert line_start line_end (hl_seen st),
                hl_last_line = Some idx\<rparr>))"

definition take_next_hit ::
  "pager_lib \<Rightarrow> pager_buffer \<Rightarrow> hit_state \<Rightarrow> range_set \<Rightarrow>
   hit_take_result \<times> pager_buffer \<times> hit_state \<times> range_set" where
  "take_next_hit lib b hst sn =
     (let start_offset = current_offset b
      in if start_offset \<ge> buf_len b \<or> line_count b = 0 then (HitNotFound, b, hst, sn)
         else
           (case find_next_unseen_match_line lib b start_offset (hst_pattern hst) sn of
              NotFound \<Rightarrow> (HitNotFound, b, hst, sn)
            | SeenOnly \<Rightarrow> (HitSeenOnly, b, hst, sn)
            | FoundLine matched \<Rightarrow>
                (let line_idx = ml_line_idx matched;
                     hstate = scan_to lib b line_idx (hst_headings hst);
                     b' = advance_offset_to (ml_line_end matched) b;
                     hst1 = hst\<lparr>hst_headings := hstate,
                               hst_hit_index := sat_add (hst_hit_index hst) 1\<rparr>;
                     label = ''#'' @ dec (hst_hit_index hst1) @ '' @'' @
                       dec (ml_line_start matched) @ '' '' @
                       heading_breadcrumb (headings hstate) @ nl;
                     end_idx = min (line_idx + hst_context hst) (line_count b - 1);
                     already_shown = pred_option (\<lambda>l. line_idx \<le> l) (hst_last_emitted_line hst) \<and>
                       hst_last_emitted_line hst \<noteq> None;
                     start0 = line_idx - hst_context hst;
                     start_idx = (case hst_last_emitted_line hst of
                         None \<Rightarrow> start0
                       | Some l \<Rightarrow> if start0 \<le> l then sat_add l 1 else start0);
                     shown_note = ''  > (match line already shown)'' @ nl;
                     out0 = \<lparr>ho_text = label, ho_first_range = None, ho_last_range = None,
                             ho_view_ranges = []\<rparr>
                 in if start_idx > end_idx then
                      (HitFound (out0\<lparr>ho_text :=
                           label @ (if already_shown then shown_note else [])\<rparr>), b', hst1, sn)
                    else
                      (let st = foldl (\<lambda>acc idx. hit_line b line_idx idx acc)
                             \<lparr>hl_out = out0, hl_seen = sn, hl_last_line = None\<rparr>
                             [start_idx..<Suc end_idx];
                           out = hl_out st;
                           out1 = (if hl_last_line st = None \<and> already_shown
                             then out\<lparr>ho_text := ho_text out @ shown_note\<rparr> else out);
                           hst2 = (case hl_last_line st of
                               None \<Rightarrow> hst1
                             | Some last_line \<Rightarrow>
                                 hst1\<lparr>hst_last_emitted_line :=
                                   Some (case hst_last_emitted_line hst1 of
                                           Some l \<Rightarrow> max l last_line | None \<Rightarrow> last_line)\<rparr>)
                       in (HitFound out1, b', hst2, hl_seen st)))))"

definition hits_reply :: "string \<Rightarrow> string \<Rightarrow> range_span \<Rightarrow> range list \<Rightarrow>
   worker_content list \<times> range_span \<times> range list" where
  "hits_reply empty_message output span view_ranges =
     (if output = [] then ([server_stderr empty_message], range_span_default, [])
      else ([server_stdout output], span, view_ranges))"

text \<open>The \<^verbatim>\<open>for _ in 0..count\<close> loop of \<^verbatim>\<open>take_hits_next\<close> with its early returns.\<close>

fun hits_loop ::
  "pager_lib \<Rightarrow> nat \<Rightarrow> nat \<Rightarrow> pager_buffer \<Rightarrow> hit_state \<Rightarrow> range_set \<Rightarrow>
   string \<Rightarrow> range_span \<Rightarrow> range list \<Rightarrow>
   (worker_content list \<times> nat \<times> range_span \<times> range list) \<times> pager_buffer \<times> range_set" where
  "hits_loop lib page 0 b hst sn output span views =
     ((if output = [] then ([], pages_left_for_buffer b page, range_span_default, [])
       else ([server_stdout output], pages_left_for_buffer b page, span, views)), b, sn)"
| "hits_loop lib page (Suc n) b hst sn output span views =
     (case take_next_hit lib b hst sn of
        (HitFound out, b', hst', sn') \<Rightarrow>
          hits_loop lib page n b' hst' sn' (output @ ho_text out)
            (span_record (ho_last_range out) (span_record (ho_first_range out) span))
            (views @ ho_view_ranges out)
      | (HitSeenOnly, b', hst', sn') \<Rightarrow>
          (let (contents, span', views') =
                 hits_reply (all_matches_shown_message (pattern (hst_pattern hst'))) output span views
           in ((contents, pages_left_for_buffer b' page, span', views'), b', sn'))
      | (HitNotFound, b', hst', sn') \<Rightarrow>
          (let (contents, span', views') =
                 hits_reply (pattern_not_found_message (pattern (hst_pattern hst'))
                   (current_offset b')) output span views
           in ((contents, pages_left_for_buffer b' page, span', views'), b', sn')))"

definition take_hits_next ::
  "pager_lib \<Rightarrow> pager_buffer \<Rightarrow> hit_state \<Rightarrow> nat \<Rightarrow> nat \<Rightarrow> range_set \<Rightarrow>
   (worker_content list \<times> nat \<times> range_span \<times> range list) \<times> pager_buffer \<times> range_set" where
  "take_hits_next lib b hst page count sn =
     hits_loop lib page (clamp count 1 MAX_MATCH_LIMIT) b hst sn [] range_span_default []"

end
