(* ===== verification/Ring_Refinement.thy ===== *)
theory Ring_Refinement
  imports Output_Ring
begin

text \<open>
  The invariant of the output ring and its refinement of the captured byte stream: in a ring that
  keeps the newest output, chunks, counters and events always describe a suffix of the stream that
  was written, within the capacity, whatever the interleaving of the locked sections. The two
  cleaning steps of the front share the contract \<open>front_cleanup\<close>, over which the trimming loop is
  verified once.
\<close>

section \<open>The ring's invariant\<close>

text \<open>
  \<open>chunks_from s cs e\<close>: the chunks are non-empty and cover the offsets from \<open>s\<close> to \<open>e\<close> without a
  gap. \<open>ring_text\<close> is the text they hold.
\<close>

definition chunk_ok :: "output_chunk \<Rightarrow> bool" where
  "chunk_ok c \<longleftrightarrow> fst (chunk_range c) < snd (chunk_range c) \<and>
     snd (chunk_range c) \<le> length (chunk_bytes c) \<and> length (chunk_bytes c) \<le> u64_max"

definition chunk_text :: "output_chunk \<Rightarrow> bytes" where
  "chunk_text c = slice (chunk_bytes c) (fst (chunk_range c)) (snd (chunk_range c))"

fun chunks_from :: "nat \<Rightarrow> output_chunk list \<Rightarrow> nat \<Rightarrow> bool" where
  "chunks_from s [] e \<longleftrightarrow> s = e"
| "chunks_from s (c # cs) e \<longleftrightarrow> chunk_start c = s \<and> chunk_ok c \<and> chunks_from (s + chunk_len c) cs e"

definition chunks_text :: "output_chunk list \<Rightarrow> bytes" where
  "chunks_text cs = concat (map chunk_text cs)"

definition ring_text :: "ring_inner \<Rightarrow> bytes" where
  "ring_text g = chunks_text (ring_chunks g)"

definition event_sizes :: "output_event list \<Rightarrow> nat" where
  "event_sizes es = sum_list (map (\<lambda>e. event_size_bytes (event_kind e)) es)"

definition events_ok :: "ring_inner \<Rightarrow> bool" where
  "events_ok g \<longleftrightarrow> sorted (map event_offset (ring_events g)) \<and>
     buffered_event_bytes g = event_sizes (ring_events g)"

definition bytes_ok :: "ring_inner \<Rightarrow> bool" where
  "bytes_ok g \<longleftrightarrow> chunks_from (ring_start g) (ring_chunks g) (ring_end g) \<and>
     buffered_bytes g = sum_list (map chunk_len (ring_chunks g)) \<and> ring_end g \<le> u64_max"

definition ring_inv :: "ring_inner \<Rightarrow> bool" where
  "ring_inv g \<longleftrightarrow> bytes_ok g \<and> events_ok g \<and>
     list_all (\<lambda>e. ring_start g \<le> event_offset e \<and> event_offset e \<le> ring_end g) (ring_events g)"

lemma chunk_ok_len: "chunk_ok c \<Longrightarrow> 0 < chunk_len c \<and> length (chunk_text c) = chunk_len c"
  by (auto simp: chunk_ok_def chunk_len_def chunk_text_def slice_def)

lemma chunks_from_le: "chunks_from s cs e \<Longrightarrow> s \<le> e"
  by (induction s cs e rule: chunks_from.induct) auto

lemma chunks_from_append:
  "chunks_from s (cs @ ds) e \<longleftrightarrow> (\<exists>m. chunks_from s cs m \<and> chunks_from m ds e)"
  by (induction cs arbitrary: s) auto

lemma chunks_from_length: "chunks_from s cs e \<Longrightarrow> length (chunks_text cs) = e - s \<and>
    sum_list (map chunk_len cs) = e - s"
proof (induction s cs e rule: chunks_from.induct)
  case (2 s c cs e)
  then show ?case
    using chunks_from_le [of "s + chunk_len c" cs e] chunk_ok_len [of c]
    by (simp add: chunks_text_def)
qed (simp add: chunks_text_def)

lemma bytes_ok_len: "bytes_ok g \<Longrightarrow> buffered_bytes g = ring_end g - ring_start g"
  using chunks_from_length by (auto simp: bytes_ok_def)

lemma chunks_text_simps [simp]:
  "chunks_text [] = []" "chunks_text (c # cs) = chunk_text c @ chunks_text cs"
  "chunks_text (cs @ ds) = chunks_text cs @ chunks_text ds"
  by (simp_all add: chunks_text_def)

lemma event_sizes_simps [simp]:
  "event_sizes [] = 0" "event_sizes (e # es) = event_size_bytes (event_kind e) + event_sizes es"
  "event_sizes (es @ fs) = event_sizes es + event_sizes fs"
  by (simp_all add: event_sizes_def)

lemma trim_chunk_ok:
  assumes "chunk_ok c" and "d < chunk_len c" and "chunk_start c + d \<le> u64_max"
  shows "chunk_ok (trim_chunk d c) \<and> chunk_start (trim_chunk d c) = chunk_start c + d \<and>
         chunk_len (trim_chunk d c) = chunk_len c - d \<and>
         chunk_text (trim_chunk d c) = drop d (chunk_text c)"
proof -
  have "fst (chunk_range c) + d \<le> u64_max" using assms by (auto simp: chunk_ok_def chunk_len_def)
  with assms have "sat_add (fst (chunk_range c)) d = fst (chunk_range c) + d"
    and "sat_add (chunk_start c) d = chunk_start c + d" by (simp_all add: sat_add_exact)
  with assms show ?thesis
    by (auto simp: chunk_ok_def chunk_len_def chunk_text_def trim_chunk_def slice_def
        drop_take add.commute)
qed

lemma ring_start_same: "ring_start g = s \<Longrightarrow> g\<lparr>ring_start := s\<rparr> = g"
  by auto

section \<open>Cleaning the front\<close>

lemma pop_front_while_eq:
  "buffered_event_bytes g = event_sizes (ring_events g) \<Longrightarrow>
   pop_front_while p g = g\<lparr>ring_events := dropWhile p (ring_events g),
      buffered_event_bytes := event_sizes (dropWhile p (ring_events g))\<rparr>"
proof (induction p g rule: pop_front_while.induct)
  case (1 p g)
  then show ?case
    by (cases "ring_events g"; subst pop_front_while.simps)
      (auto simp: pop_front_event_def release_event_def)
qed

lemma cleanup_front_before_boundary_eq:
  assumes "events_ok g"
  shows "cleanup_front_before_boundary g =
    g\<lparr>ring_line_ends := dropWhile (\<lambda>line_end. line_end \<le> ring_start g) (ring_line_ends g),
      ring_events := filter (\<lambda>e. ring_start g \<le> event_offset e) (ring_events g),
      buffered_event_bytes := event_sizes (filter (\<lambda>e. ring_start g \<le> event_offset e) (ring_events g))\<rparr>"
proof -
  have "dropWhile (\<lambda>e. event_offset e < ring_start g) (ring_events g) =
      filter (\<lambda>e. ring_start g \<le> event_offset e) (ring_events g)"
    using assms dropWhile_sorted_filter [of event_offset "ring_events g"
        "\<lambda>e. event_offset e < ring_start g"]
    by (simp add: events_ok_def not_less)
  with assms show ?thesis
    by (simp add: cleanup_front_before_boundary_def pop_front_while_eq events_ok_def)
qed

lemma events_ok_filter:
  "events_ok g \<Longrightarrow> ring_events h = filter P (ring_events g) \<Longrightarrow>
   buffered_event_bytes h = event_sizes (ring_events h) \<Longrightarrow> events_ok h"
  by (simp add: events_ok_def sorted_filter)

lemma cleanup_front_eq:
  assumes "events_ok g"
  shows "cleanup_front g =
    g\<lparr>ring_line_ends := dropWhile (\<lambda>line_end. line_end \<le> ring_start g) (ring_line_ends g),
      ring_events := filter (\<lambda>e. ring_start g < event_offset e) (ring_events g),
      buffered_event_bytes := event_sizes (filter (\<lambda>e. ring_start g < event_offset e) (ring_events g))\<rparr>"
proof -
  let ?h = "cleanup_front_before_boundary g"
  have ok: "events_ok ?h"
    using assms by (intro events_ok_filter [OF assms]) (auto simp: cleanup_front_before_boundary_eq)
  then have "dropWhile (\<lambda>e. event_offset e \<le> ring_start g) (ring_events ?h) =
      filter (\<lambda>e. ring_start g < event_offset e) (ring_events ?h)"
    using dropWhile_sorted_filter [of event_offset "ring_events ?h"
        "\<lambda>e. event_offset e \<le> ring_start g"]
    by (simp add: events_ok_def not_le)
  moreover have "filter (\<lambda>e. ring_start g < event_offset e) (ring_events ?h) =
      filter (\<lambda>e. ring_start g < event_offset e) (ring_events g)"
    using assms by (auto simp: cleanup_front_before_boundary_eq intro: filter_cong)
  ultimately show ?thesis
    using ok by (simp add: cleanup_front_def pop_front_while_eq events_ok_def
        cleanup_front_before_boundary_eq [OF assms])
qed

text \<open>The state after the front has been trimmed to an offset.\<close>

definition trimmed :: "(nat \<Rightarrow> output_event \<Rightarrow> bool) \<Rightarrow> nat \<Rightarrow> ring_inner \<Rightarrow> ring_inner \<Rightarrow> bool" where
  "trimmed keep offset g h \<longleftrightarrow> bytes_ok h \<and> events_ok h \<and> ring_start h = offset \<and>
     ring_end h = ring_end g \<and> ring_text h = drop (offset - ring_start g) (ring_text g) \<and>
     ring_events h = filter (keep offset) (ring_events g)"

text \<open>The contract both cleaning steps satisfy, and the trimming loop over it.\<close>

locale front_cleanup =
  fixes cleanup :: "ring_inner \<Rightarrow> ring_inner"
    and keep :: "nat \<Rightarrow> output_event \<Rightarrow> bool"
  assumes cleanup_frame: "events_ok g \<Longrightarrow>
      ring_chunks (cleanup g) = ring_chunks g \<and> ring_start (cleanup g) = ring_start g \<and>
      ring_end (cleanup g) = ring_end g \<and> buffered_bytes (cleanup g) = buffered_bytes g"
    and cleanup_events: "events_ok g \<Longrightarrow>
      ring_events (cleanup g) = filter (keep (ring_start g)) (ring_events g)"
    and cleanup_ok: "events_ok g \<Longrightarrow> events_ok (cleanup g)"
    and keep_antimono: "s \<le> t \<Longrightarrow> keep t e \<Longrightarrow> keep s e"
begin

lemma filter_keep:
  "s \<le> t \<Longrightarrow> filter (\<lambda>e. keep s e \<and> keep t e) es = filter (keep t) es"
  by (rule filter_cong) (auto intro: keep_antimono)

lemma trim_loop_trimmed:
  assumes "bytes_ok g" and "events_ok g" and "ring_start g < offset" and "offset \<le> ring_end g"
  shows "trimmed keep offset g (trim_loop cleanup offset (ring_chunks g) g)"
  using assms
proof (induction "ring_chunks g" arbitrary: g)
  case Nil
  then show ?case by (auto simp: bytes_ok_def)
next
  case (Cons c cs)
  let ?s = "ring_start g" and ?e = "ring_end g"
  have frm: "chunk_start c = ?s" "chunk_ok c" "chunks_from (?s + chunk_len c) cs ?e"
    and acct: "buffered_bytes g = chunk_len c + sum_list (map chunk_len cs)" and u: "?e \<le> u64_max"
    using Cons.prems(1) Cons.hyps(2) [symmetric] by (auto simp: bytes_ok_def)
  have le: "?s + chunk_len c \<le> ?e" using frm(3) by (rule chunks_from_le)
  then have fe: "sat_add (chunk_start c) (chunk_len c) = ?s + chunk_len c"
    using frm u by (simp add: sat_add_exact)
  note len = chunk_ok_len [OF frm(2)]
  show ?case
  proof (cases "?s + chunk_len c \<le> offset")
    case True
    let ?g = "g\<lparr>ring_chunks := cs, ring_start := ?s + chunk_len c,
                buffered_bytes := buffered_bytes g - chunk_len c\<rparr>"
    have ok: "events_ok ?g" using Cons.prems(2) by (simp add: events_ok_def)
    note fr = cleanup_frame [OF ok] and ev = cleanup_events [OF ok]
    have b: "bytes_ok (cleanup ?g)" using frm acct u fr by (simp add: bytes_ok_def)
    have tx: "ring_text g = chunk_text c @ ring_text (cleanup ?g)"
      using fr Cons.hyps(2) [symmetric] by (simp add: ring_text_def)
    show ?thesis
    proof (cases "?s + chunk_len c = offset")
      case True
      with fe have "trim_loop cleanup offset (ring_chunks g) g = cleanup ?g"
        using fr Cons.hyps(2) [symmetric] by (simp add: Let_def)
      moreover have "trimmed keep offset g (cleanup ?g)"
        using b cleanup_ok [OF ok] fr ev tx len True by (auto simp: trimmed_def)
      ultimately show ?thesis by simp
    next
      case False
      with True have lt: "?s + chunk_len c < offset" by simp
      have "trimmed keep offset (cleanup ?g) (trim_loop cleanup offset (ring_chunks (cleanup ?g)) (cleanup ?g))"
        using Cons.hyps(1) [of "cleanup ?g"] fr b cleanup_ok [OF ok] lt Cons.prems(4) by simp
      moreover have "trim_loop cleanup offset (ring_chunks g) g =
          trim_loop cleanup offset (ring_chunks (cleanup ?g)) (cleanup ?g)"
        using fr fe lt Cons.hyps(2) [symmetric] by (simp add: Let_def)
      moreover have "drop (offset - ?s) (ring_text g) =
          drop (offset - (?s + chunk_len c)) (ring_text (cleanup ?g))"
        using tx len lt by simp
      ultimately show ?thesis
        using fr ev lt by (simp add: trimmed_def filter_keep)
    qed
  next
    case False
    obtain d where d: "offset = ?s + d" "0 < d"
      using Cons.prems(3) less_imp_add_positive by metis
    with False have dc: "d < chunk_len c" by simp
    let ?g = "g\<lparr>ring_chunks := trim_chunk d c # cs, ring_start := offset,
                buffered_bytes := buffered_bytes g - d\<rparr>"
    have tc: "chunk_ok (trim_chunk d c) \<and> chunk_start (trim_chunk d c) = offset \<and>
        chunk_len (trim_chunk d c) = chunk_len c - d \<and>
        chunk_text (trim_chunk d c) = drop d (chunk_text c)"
      using trim_chunk_ok [OF frm(2) dc] frm d Cons.prems u by simp
    have ok: "events_ok ?g" using Cons.prems(2) by (simp add: events_ok_def)
    note fr = cleanup_frame [OF ok] and ev = cleanup_events [OF ok]
    have "offset + (chunk_len c - d) = ?s + chunk_len c" using d dc by simp
    then have "bytes_ok (cleanup ?g)"
      using frm(3) acct u fr tc d dc by (simp add: bytes_ok_def)
    moreover have "ring_text (cleanup ?g) = drop d (ring_text g)"
      using fr tc len d dc Cons.hyps(2) [symmetric] by (simp add: ring_text_def)
    moreover have "trim_loop cleanup offset (ring_chunks g) g = cleanup ?g"
      using fe False frm d dc Cons.hyps(2) [symmetric] by (simp add: Let_def)
    ultimately show ?thesis
      using fr ev cleanup_ok [OF ok] d by (simp add: trimmed_def)
  qed
qed

end

interpretation before_boundary: front_cleanup cleanup_front_before_boundary
  "\<lambda>s e. s \<le> event_offset e"
proof unfold_locales
  fix g :: ring_inner
  assume ok: "events_ok g"
  note eq = cleanup_front_before_boundary_eq [OF ok]
  show "ring_chunks (cleanup_front_before_boundary g) = ring_chunks g \<and>
      ring_start (cleanup_front_before_boundary g) = ring_start g \<and>
      ring_end (cleanup_front_before_boundary g) = ring_end g \<and>
      buffered_bytes (cleanup_front_before_boundary g) = buffered_bytes g"
    and "ring_events (cleanup_front_before_boundary g) =
      filter (\<lambda>e. ring_start g \<le> event_offset e) (ring_events g)"
    by (simp_all add: eq)
  show "events_ok (cleanup_front_before_boundary g)"
    by (rule events_ok_filter [OF ok]) (simp_all add: eq)
qed simp

interpretation at_boundary: front_cleanup cleanup_front "\<lambda>s e. s < event_offset e"
proof unfold_locales
  fix g :: ring_inner
  assume ok: "events_ok g"
  note eq = cleanup_front_eq [OF ok]
  show "ring_chunks (cleanup_front g) = ring_chunks g \<and> ring_start (cleanup_front g) = ring_start g \<and>
      ring_end (cleanup_front g) = ring_end g \<and> buffered_bytes (cleanup_front g) = buffered_bytes g"
    and "ring_events (cleanup_front g) = filter (\<lambda>e. ring_start g < event_offset e) (ring_events g)"
    by (simp_all add: eq)
  show "events_ok (cleanup_front g)"
    by (rule events_ok_filter [OF ok]) (simp_all add: eq)
qed simp

lemma trimmed_inv:
  assumes "trimmed keep offset g h" and "ring_inv g" and "\<And>e. keep offset e \<Longrightarrow> offset \<le> event_offset e"
  shows "ring_inv h"
  using assms by (auto simp: trimmed_def ring_inv_def list_all_iff)

context front_cleanup
begin

lemma cleanup_trimmed:
  assumes "trimmed keep offset g h"
  shows "trimmed keep offset g (cleanup (h\<lparr>ring_start := offset\<rparr>))"
proof -
  have h: "h\<lparr>ring_start := offset\<rparr> = h" using assms by (simp add: trimmed_def)
  have ok: "events_ok h" using assms by (simp add: trimmed_def)
  show ?thesis
    using assms cleanup_frame [OF ok] cleanup_events [OF ok] cleanup_ok [OF ok]
    by (auto simp: trimmed_def h bytes_ok_def ring_text_def)
qed

end

lemma trim_to_offset_trimmed:
  assumes "ring_inv g" and "ring_start g < offset" and "offset \<le> ring_end g"
  shows "trimmed (\<lambda>s e. s < event_offset e) offset g (trim_to_offset offset g)"
proof -
  have "trimmed (\<lambda>s e. s < event_offset e) offset g (trim_loop cleanup_front offset (ring_chunks g) g)"
    using assms by (intro at_boundary.trim_loop_trimmed) (auto simp: ring_inv_def)
  with assms at_boundary.cleanup_trimmed show ?thesis
    by (auto simp: trim_to_offset_def Let_def min_absorb1)
qed

section \<open>Making room\<close>

text \<open>What every locked section that only drops content does to the ring.\<close>

definition only_drops :: "ring_inner \<Rightarrow> ring_inner \<Rightarrow> bool" where
  "only_drops g h \<longleftrightarrow> ring_start g \<le> ring_start h \<and> ring_end h = ring_end g \<and>
     ring_text h = drop (ring_start h - ring_start g) (ring_text g)"

lemma only_drops_refl [simp]: "only_drops g g"
  by (simp add: only_drops_def)

lemma only_drops_trans: "only_drops g h \<Longrightarrow> only_drops h k \<Longrightarrow> only_drops g k"
  by (auto simp: only_drops_def)

lemma trimmed_only_drops: "trimmed keep offset g h \<Longrightarrow> ring_start g \<le> offset \<Longrightarrow> only_drops g h"
  by (auto simp: trimmed_def only_drops_def)

lemma remove_event_inv:
  assumes "ring_inv g" and "ring_events g = xs @ e # ys"
    and "h = release_event e (g\<lparr>ring_events := xs @ ys\<rparr>)"
  shows "ring_inv h \<and> only_drops g h \<and> ring_chunks h = ring_chunks g"
  using assms
  by (auto simp: ring_inv_def bytes_ok_def events_ok_def release_event_def only_drops_def
      ring_text_def sorted_append)

lemma pop_oldest_input_echo_event_inv:
  assumes "ring_inv g" and "pop_oldest_input_echo_event g = (h, popped)"
  shows "ring_inv h \<and> only_drops g h \<and> ring_chunks h = ring_chunks g"
proof (cases "position is_input_echo (ring_events g)")
  case None
  with assms show ?thesis by (auto simp: pop_oldest_input_echo_event_def)
next
  case (Some i)
  then have "ring_events g = take i (ring_events g) @ ring_events g ! i # drop (Suc i) (ring_events g)"
    using position_less id_take_nth_drop by blast
  from remove_event_inv [OF assms(1) this] assms(2) Some show ?thesis
    by (auto simp: pop_oldest_input_echo_event_def)
qed

lemma drop_input_echoes_inv:
  assumes "ring_inv g"
  shows "ring_inv (fst (drop_input_echoes_for_room n c g)) \<and>
         only_drops g (fst (drop_input_echoes_for_room n c g)) \<and>
         ring_chunks (fst (drop_input_echoes_for_room n c g)) = ring_chunks g"
  using assms
proof (induction n c g rule: drop_input_echoes_for_room.induct)
  case (1 n c g)
  obtain h popped where h: "pop_oldest_input_echo_event g = (h, popped)" by fastforce
  note inv = pop_oldest_input_echo_event_inv [OF "1.prems" h]
  from 1 h inv show ?case
    by (subst (1 2 3) drop_input_echoes_for_room.simps)
      (auto simp: Let_def split: prod.splits intro: only_drops_trans)
qed

lemma make_room_turn_inv:
  assumes "ring_inv g" and "make_room_turn needed capacity (g, d) = Some (h, d')"
  shows "ring_inv h \<and> only_drops g h \<and>
         length (ring_chunks h) + length (ring_events h) < length (ring_chunks g) + length (ring_events g)"
proof (cases "ring_chunks g")
  case Nil
  with assms obtain e es where "ring_events g = e # es" and "h = release_event e (g\<lparr>ring_events := es\<rparr>)"
    by (auto simp: make_room_turn_def Let_def pop_front_event_def split: if_splits list.splits)
  with remove_event_inv [OF assms(1), of "[]" e es h] Nil show ?thesis
    by (auto simp: release_event_def)
next
  case (Cons c cs)
  let ?s = "ring_start g" and ?o = "ring_start g + chunk_len c"
  have c: "chunk_start c = ?s" "chunk_ok c" "chunks_from ?o cs (ring_end g)" "ring_end g \<le> u64_max"
    and ev: "events_ok g"
    using assms(1) Cons by (auto simp: ring_inv_def bytes_ok_def)
  have le: "?o \<le> ring_end g" using c(3) by (rule chunks_from_le)
  have pos: "0 < chunk_len c" using chunk_ok_len [OF c(2)] by simp
  have "max (sat_add (chunk_start c) (chunk_len c)) (sat_add ?s 1) = ?o"
    using c le pos by (auto simp: sat_add_def)
  then have h: "h = trim_to_offset ?o g"
    using assms(2) Cons by (auto simp: make_room_turn_def Let_def split: if_splits)
  have t: "trimmed (\<lambda>s e. s < event_offset e) ?o g h"
    unfolding h using pos le by (intro trim_to_offset_trimmed [OF assms(1)]) simp_all
  have "chunks_from ?o (ring_chunks h) (ring_end g)"
    using t by (auto simp: trimmed_def bytes_ok_def)
  let ?g = "g\<lparr>ring_chunks := cs, ring_start := ?o, buffered_bytes := buffered_bytes g - chunk_len c\<rparr>"
  have ok: "events_ok ?g" using ev by (simp add: events_ok_def)
  have "trim_loop cleanup_front ?o (ring_chunks g) g = cleanup_front ?g"
    using Cons c le at_boundary.cleanup_frame [OF ok] by (simp add: Let_def sat_add_exact)
  then have "ring_chunks h = cs"
    using at_boundary.cleanup_frame [OF ok] pos le
      at_boundary.cleanup_frame [OF at_boundary.cleanup_ok [OF ok]]
    by (auto simp: h trim_to_offset_def Let_def ring_start_same)
  moreover have "length (ring_events h) \<le> length (ring_events g)"
    using t by (simp add: trimmed_def)
  ultimately show ?thesis
    using trimmed_inv [OF t assms(1)] trimmed_only_drops [OF t] Cons by auto
qed

lemma make_room_loop_inv:
  assumes "ring_inv g" and "length (ring_chunks g) + length (ring_events g) \<le> fuel"
  shows "ring_inv (fst (make_room_loop fuel n c (g, d))) \<and>
         only_drops g (fst (make_room_loop fuel n c (g, d))) \<and>
         make_room_turn n c (make_room_loop fuel n c (g, d)) = None"
  using assms
proof (induction fuel arbitrary: g d)
  case 0
  then show ?case by (simp add: make_room_turn_def)
next
  case (Suc fuel)
  show ?case
  proof (cases "make_room_turn n c (g, d)")
    case (Some st)
    obtain h d' where st: "st = (h, d')" by fastforce
    note inv = make_room_turn_inv [OF Suc.prems(1) Some [unfolded st]]
    with Suc.IH [of h d'] Suc.prems(2) Some st show ?thesis
      by (auto intro: only_drops_trans)
  qed (use Suc.prems in simp)
qed

text \<open>
  After \<^verbatim>\<open>make_room_for\<close> the content fits: the fuel of its loop is enough, and the loop stops only
  because there is room.
\<close>

lemma room_left:
  assumes "ring_inv h" and "make_room_turn n c (h, d) = None" and "n < c" and "c < u64_max"
  shows "buffered_bytes h + buffered_event_bytes h + n \<le> c"
proof (cases "ring_chunks h = [] \<and> ring_events h = []")
  case True
  with assms show ?thesis by (simp add: ring_inv_def bytes_ok_def events_ok_def)
next
  case False
  with assms(2) have "\<not> sat_add (total_buffered_bytes h) n > c"
    by (auto simp: make_room_turn_def Let_def split: if_splits list.splits prod.splits)
  with assms(3,4) show ?thesis by (auto simp: sat_add_def total_buffered_bytes_def)
qed

lemma make_room_for_fits:
  assumes "ring_inv g" and "needed \<le> capacity" and "capacity < u64_max"
  defines "h \<equiv> fst (make_room_for needed capacity g)"
  shows "ring_inv h" and "only_drops g h"
    and "buffered_bytes h + buffered_event_bytes h + needed \<le> capacity"
proof -
  have "ring_inv h \<and> only_drops g h \<and> buffered_bytes h + buffered_event_bytes h + needed \<le> capacity"
  proof (cases "needed \<ge> capacity")
    case True
    moreover have "ring_start g \<le> ring_end g" "length (ring_text g) = ring_end g - ring_start g"
      using assms(1) chunks_from_le chunks_from_length
      by (auto simp: ring_inv_def bytes_ok_def ring_text_def)
    ultimately show ?thesis
      using assms(1,2)
      by (simp add: h_def make_room_for_def ring_inv_def bytes_ok_def events_ok_def only_drops_def
          ring_text_def)
  next
    case False
    define g' where "g' = fst (drop_input_echoes_for_room needed capacity g)"
    define st where "st = make_room_loop (length (ring_chunks g') + length (ring_events g')) needed
        capacity (g', drop_stats_default)"
    have g': "ring_inv g'" "only_drops g g'"
      using drop_input_echoes_inv [OF assms(1), of needed capacity] by (simp_all add: g'_def)
    have st: "ring_inv (fst st) \<and> only_drops g' (fst st) \<and> make_room_turn needed capacity st = None"
      unfolding st_def by (rule make_room_loop_inv [OF g'(1)]) simp
    have h: "h = fst st" using False by (simp add: h_def make_room_for_def Let_def g'_def st_def)
    have "buffered_bytes h + buffered_event_bytes h + needed \<le> capacity"
      using st False assms(3) by (intro room_left [of h needed capacity "snd st"]) (simp_all add: h)
    with st g' show ?thesis by (auto simp: h intro: only_drops_trans)
  qed
  then show "ring_inv h" and "only_drops g h"
    and "buffered_bytes h + buffered_event_bytes h + needed \<le> capacity" by blast+
qed

section \<open>The captured stream\<close>

text \<open>
  \<open>holds stream capacity g\<close>: the ring holds a suffix of everything that was written to it, within
  its capacity. This is the contract of the ring that keeps the newest output.
\<close>

definition holds :: "bytes \<Rightarrow> nat \<Rightarrow> ring_inner \<Rightarrow> bool" where
  "holds stream capacity g \<longleftrightarrow> ring_inv g \<and> ring_end g = length stream \<and>
     ring_text g = drop (ring_start g) stream \<and>
     buffered_bytes g + buffered_event_bytes g \<le> capacity"

lemma holds_empty: "holds [] capacity ring_inner_empty"
  by (simp add: holds_def ring_inv_def bytes_ok_def events_ok_def ring_inner_empty_def ring_text_def)

lemma only_drops_holds:
  "holds stream capacity' g \<Longrightarrow> only_drops g h \<Longrightarrow> ring_inv h \<Longrightarrow>
   buffered_bytes h + buffered_event_bytes h \<le> capacity \<Longrightarrow> holds stream capacity h"
  by (auto simp: holds_def only_drops_def)

lemma note_progress_holds [simp]: "holds stream capacity (note_progress g) = holds stream capacity g"
  by (simp add: holds_def ring_inv_def bytes_ok_def events_ok_def note_progress_def ring_text_def)

lemma holds_mono: "holds stream c g \<Longrightarrow> c \<le> d \<Longrightarrow> holds stream d g"
  by (simp add: holds_def)

lemma holds_make_room:
  assumes "holds stream capacity g" and "needed \<le> capacity" and "capacity < u64_max"
  shows "holds stream (capacity - needed) (fst (make_room_for needed capacity g))"
proof -
  have inv: "ring_inv g" using assms(1) by (simp add: holds_def)
  note fits = make_room_for_fits [OF inv assms(2,3)]
  show ?thesis using only_drops_holds [OF assms(1) fits(2,1)] fits(3) by simp
qed

lemma holds_append_chunk:
  assumes "holds stream (capacity - length bs) g" and "length bs \<le> capacity" and "capacity < u64_max"
    and "length stream + length bs \<le> u64_max"
  shows "holds (stream @ bs) capacity (append_chunk_locked bs is_stderr orig source g)"
proof (cases "bs = []")
  case True
  with assms show ?thesis by (simp add: append_chunk_locked_def)
next
  case False
  let ?c = "\<lparr>chunk_start = ring_end g, chunk_bytes = bs, chunk_range = (0, length bs),
             chunk_is_stderr = is_stderr, chunk_origin = orig, chunk_source = source\<rparr>"
  let ?h = "append_chunk_locked bs is_stderr orig source g"
  have g: "ring_inv g" "ring_end g = length stream" "ring_text g = drop (ring_start g) stream"
    "buffered_bytes g + buffered_event_bytes g \<le> capacity - length bs"
    using assms(1) by (auto simp: holds_def)
  then have b: "bytes_ok g" "events_ok g" and s: "ring_start g \<le> length stream"
    using chunks_from_le by (fastforce simp: ring_inv_def bytes_ok_def)+
  have exact: "sat_add (ring_end g) (length bs) = ring_end g + length bs"
    "sat_add (buffered_bytes g) (length bs) = buffered_bytes g + length bs"
    using assms g by (simp_all add: sat_add_exact)
  have c: "chunk_ok ?c" "chunk_text ?c = bs" "chunk_len ?c = length bs"
    using False assms(2,3) by (simp_all add: chunk_ok_def chunk_text_def slice_def chunk_len_def)
  have h: "ring_chunks ?h = ring_chunks g @ [?c]" "ring_start ?h = ring_start g"
    "ring_end ?h = ring_end g + length bs" "ring_events ?h = ring_events g"
    "buffered_bytes ?h = buffered_bytes g + length bs"
    "buffered_event_bytes ?h = buffered_event_bytes g"
    using False exact by (simp_all add: append_chunk_locked_def Let_def)
  have "bytes_ok ?h"
    using b(1) c h assms(4) g(2) by (auto simp: bytes_ok_def chunks_from_append)
  moreover have "events_ok ?h" using b(2) h by (simp add: events_ok_def)
  moreover have "list_all (\<lambda>e. ring_start ?h \<le> event_offset e \<and> event_offset e \<le> ring_end ?h) (ring_events ?h)"
    using g(1) h by (auto simp: ring_inv_def list_all_iff)
  moreover have "ring_text ?h = drop (ring_start ?h) (stream @ bs)"
    using g(3) c h s by (simp add: ring_text_def)
  ultimately show ?thesis
    using g assms(2) h by (simp add: holds_def ring_inv_def)
qed

lemma holds_push_event:
  assumes "holds stream capacity g" and "event_size_bytes kind = 0"
  shows "holds stream capacity (push_event (ring_end g) kind g)"
  using assms
  by (auto simp: holds_def ring_inv_def bytes_ok_def events_ok_def push_event_def ring_text_def
      sorted_append list_all_iff dest: chunks_from_le)

lemma holds_push_sized_event:
  assumes "holds stream (capacity - event_size_bytes kind) g" and "event_size_bytes kind \<le> capacity"
    and "capacity < u64_max"
  shows "holds stream capacity (push_sized_event (ring_end g) kind g)"
proof -
  have "sat_add (buffered_event_bytes g) (event_size_bytes kind) =
      buffered_event_bytes g + event_size_bytes kind"
    using assms by (intro sat_add_exact) (auto simp: holds_def)
  with assms show ?thesis
    by (auto simp: holds_def ring_inv_def bytes_ok_def events_ok_def push_event_def
        push_sized_event_def ring_text_def sorted_append list_all_iff dest: chunks_from_le)
qed

lemma holds_start_le: "holds stream capacity g \<Longrightarrow> ring_start g \<le> ring_end g \<and> ring_end g = length stream"
  by (auto simp: holds_def ring_inv_def bytes_ok_def dest: chunks_from_le)

lemma note_progress_simps [simp]:
  "ring_end (note_progress g) = ring_end g" "ring_start (note_progress g) = ring_start g"
  "ring_events (note_progress g) = ring_events g" "ring_chunks (note_progress g) = ring_chunks g"
  by (simp_all add: note_progress_def)

lemma holds_truncation_notice:
  assumes "holds stream (capacity - extra) g" and "extra \<le> capacity" and "capacity < u64_max"
  shows "holds stream (capacity - extra) (append_truncation_notice_locked capacity (ring_end g) extra g)"
proof (cases "sat_add (event_size_bytes truncation_notice_kind) extra > capacity")
  case True
  with assms show ?thesis by (simp add: append_truncation_notice_locked_def Let_def)
next
  case False
  define n where "n = event_size_bytes truncation_notice_kind"
  from False assms(3) have n: "n + extra \<le> capacity" "sat_add n extra = n + extra"
    by (auto simp: n_def sat_add_def)
  define h where "h = fst (make_room_for (n + extra) capacity g)"
  have "holds stream capacity g" using assms(1) holds_mono diff_le_self by blast
  from holds_make_room [OF this n(1) assms(3)]
  have h: "holds stream (capacity - extra - n) h"
    by (simp only: h_def diff_diff_left add.commute)
  have e: "max (ring_end g) (ring_start h) = ring_end (note_progress h)"
    using holds_start_le [OF h] holds_start_le [OF assms(1)] by simp
  have "holds stream (capacity - extra)
      (push_sized_event (ring_end (note_progress h)) truncation_notice_kind (note_progress h))"
    using h n(1) assms(3) by (intro holds_push_sized_event) (simp_all add: n_def)
  with False n e show ?thesis
    by (simp add: append_truncation_notice_locked_def Let_def n_def [symmetric] h_def [symmetric])
qed

lemma append_chunk_len_le: "1 \<le> capacity \<Longrightarrow> output_ring_append_chunk_len capacity \<le> capacity"
  by (auto simp: output_ring_append_chunk_len_def clamp_def min_def max_def
      intro: order.trans [OF div_le_dividend])

lemma holds_append_tail_chunk:
  assumes "holds stream capacity g" and "length head \<le> capacity" and "capacity < u64_max"
    and "length stream + length head \<le> u64_max"
  shows "holds (stream @ head) capacity (fst (append_tail_chunk capacity head is_stderr orig source g))"
  using holds_append_chunk [OF holds_make_room [OF assms(1-3)] assms(2-4)]
  by (simp add: append_tail_chunk_def case_prod_beta)

lemma holds_append_tail_loop:
  assumes "holds stream capacity (fst st)" and "1 \<le> capacity" and "capacity < u64_max"
    and "length stream + length remaining \<le> u64_max"
  shows "holds (stream @ remaining) capacity
           (fst (append_tail_loop capacity remaining is_stderr orig source st))"
  using assms
proof (induction "length remaining" arbitrary: remaining stream st rule: less_induct)
  case less
  show ?case
  proof (cases "remaining = []")
    case True
    with less show ?thesis by (simp add: append_tail_loop.simps)
  next
    case False
    obtain g dropped_any where st: "st = (g, dropped_any)" by fastforce
    define n where "n = min (length remaining) (output_ring_append_chunk_len capacity)"
    obtain g' dropped where
      g': "append_tail_chunk capacity (take n remaining) is_stderr orig source g = (g', dropped)"
      by fastforce
    have n: "length (take n remaining) \<le> capacity"
      using append_chunk_len_le [OF less.prems(2)] by (simp add: n_def)
    have len: "length stream + length (take n remaining) \<le> u64_max" using less.prems(4) by simp
    have "holds (stream @ take n remaining) capacity g'"
      using holds_append_tail_chunk [OF _ n less.prems(3) len, of g is_stderr orig source] less.prems(1) g' st
      by simp
    moreover have shorter: "length (drop n remaining) < length remaining"
      using False append_chunk_len_pos [of capacity] by (simp add: n_def)
    moreover have "length (stream @ take n remaining) + length (drop n remaining) \<le> u64_max"
      using less.prems(4) by (simp add: n_def)
    ultimately have "holds ((stream @ take n remaining) @ drop n remaining) capacity
        (fst (append_tail_loop capacity (drop n remaining) is_stderr orig source (g', dropped_any \<or> dropped)))"
      using shorter less.prems(2,3)
      by (intro less.hyps) simp_all
    with False st g' show ?thesis
      by (subst append_tail_loop.simps) (simp add: Let_def n_def [symmetric])
  qed
qed

lemma holds_append_tail:
  assumes "holds stream capacity g" and "1 \<le> capacity" and "capacity < u64_max"
    and "length stream + length bs \<le> u64_max"
  shows "holds (stream @ bs) capacity (append_bytes_retaining_tail capacity bs is_stderr orig source g)"
proof -
  obtain g' dropped where g': "append_tail_loop capacity bs is_stderr orig source (g, False) = (g', dropped)"
    by fastforce
  have "holds (stream @ bs) capacity g'"
    using holds_append_tail_loop [of stream capacity "(g, False)" bs is_stderr orig source] assms g' by simp
  then show ?thesis
    using holds_truncation_notice [of "stream @ bs" capacity 0 g'] assms(3) g'
    by (simp add: append_bytes_retaining_tail_def)
qed

lemma holds_visible_event:
  assumes "holds stream capacity g" and "capacity < u64_max"
  shows "holds stream capacity (append_visible_event_locked capacity RetainTail kind g)"
proof (cases "event_size_bytes kind > capacity")
  case True
  with assms show ?thesis by (simp add: append_visible_event_locked_def Let_def)
next
  case False
  define n where "n = event_size_bytes kind"
  define h where "h = note_progress g"
  obtain g1 d where g1: "make_room_for n capacity h = (g1, d)" by fastforce
  define g2 where "g2 = (if dropped_visible d
      then append_truncation_notice_locked capacity (ring_end h) n g1 else g1)"
  have n: "n \<le> capacity" using False by (simp add: n_def)
  have h: "holds stream capacity h" using assms by (simp add: h_def)
  have h1: "holds stream (capacity - n) g1" using holds_make_room [OF h n assms(2)] g1 by simp
  have e: "ring_end h = ring_end g1"
    using holds_start_le [OF h] holds_start_le [OF h1] by simp
  have h2: "holds stream (capacity - n) g2"
    using holds_truncation_notice [OF h1 n assms(2)] h1 by (simp add: g2_def e)
  have off: "max (ring_end h) (ring_start h) = ring_end h" "max (ring_end h) (ring_start g2) = ring_end h"
    and e2: "ring_end h = ring_end g2"
    using holds_start_le [OF h] holds_start_le [OF h2] by simp_all
  have "append_visible_event_locked capacity RetainTail kind g = push_sized_event (ring_end h) kind g2"
    using False g1 off
    by (cases "dropped_visible d")
      (simp_all add: append_visible_event_locked_def Let_def n_def [symmetric] h_def [symmetric] g2_def)
  with holds_push_sized_event [of stream capacity kind g2] h2 n assms(2) e2 show ?thesis
    by (simp add: n_def)
qed

lemma remove_event_smaller:
  assumes "ring_inv g" and "pop_oldest_input_echo_event g = (h, popped)"
  shows "buffered_bytes h + buffered_event_bytes h \<le> buffered_bytes g + buffered_event_bytes g"
  using assms
  by (auto simp: pop_oldest_input_echo_event_def release_event_def split: option.splits)

lemma drop_echoes_smaller:
  assumes "ring_inv g"
  shows "buffered_bytes (fst (drop_input_echoes_for_room n c g)) +
         buffered_event_bytes (fst (drop_input_echoes_for_room n c g))
         \<le> buffered_bytes g + buffered_event_bytes g"
  using assms
proof (induction n c g rule: drop_input_echoes_for_room.induct)
  case (1 n c g)
  obtain h popped where h: "pop_oldest_input_echo_event g = (h, popped)" by fastforce
  with 1 pop_oldest_input_echo_event_inv [OF "1.prems" h] remove_event_smaller [OF "1.prems" h]
  show ?case
    by (subst (1 2) drop_input_echoes_for_room.simps) (fastforce simp: Let_def split: prod.splits)
qed

lemma holds_drop_echoes:
  assumes "holds stream capacity g"
  shows "holds stream capacity (fst (drop_input_echoes_for_room n c g))"
proof -
  have inv: "ring_inv g" using assms by (simp add: holds_def)
  show ?thesis
    using drop_input_echoes_inv [OF inv, of n c] drop_echoes_smaller [OF inv, of n c] assms
    by (intro only_drops_holds [OF assms]) (auto simp: holds_def)
qed

lemma holds_input_echo:
  assumes "holds stream capacity g" and "capacity < u64_max"
  shows "holds stream capacity (append_input_echo_event_locked capacity RetainTail kind g)"
proof -
  define n where "n = event_size_bytes kind"
  define h where "h = note_progress g"
  define g1 where "g1 = fst (drop_input_echoes_for_room n capacity h)"
  have h: "holds stream capacity h" using assms by (simp add: h_def)
  have h1: "holds stream capacity g1" using holds_drop_echoes [OF h] by (simp add: g1_def)
  have push: "holds stream capacity (push_sized_event (max (ring_end g1) (ring_start g1)) kind g1)"
    if room: "sat_add (total_buffered_bytes g1) n \<le> capacity" and le: "\<not> n > capacity"
  proof -
    have "buffered_bytes g1 + buffered_event_bytes g1 + n \<le> capacity"
      using room assms(2) by (auto simp: sat_add_def total_buffered_bytes_def)
    then have "holds stream (capacity - n) g1" using h1 by (simp add: holds_def)
    moreover have "max (ring_end g1) (ring_start g1) = ring_end g1" using holds_start_le [OF h1] by simp
    ultimately show ?thesis
      using holds_push_sized_event [of stream capacity kind g1] assms(2) le by (simp add: n_def)
  qed
  show ?thesis
    using h h1 push
    by (auto simp: append_input_echo_event_locked_def Let_def make_room_for_input_echo_def
        n_def [symmetric] h_def [symmetric] g1_def [symmetric] split: if_splits)
qed

lemma holds_marker:
  assumes "holds stream capacity g" and "event_size_bytes kind = 0"
  shows "holds stream capacity (append_marker_event_locked kind g)"
  using holds_push_event [of stream capacity "note_progress g" kind] holds_start_le [OF assms(1)] assms
  by (simp add: append_marker_event_locked_def Let_def max_absorb1)

lemma trimmed_holds:
  assumes "holds stream capacity g" and t: "trimmed keep offset g h" and "ring_start g \<le> offset"
    and "\<And>e. keep offset e \<Longrightarrow> offset \<le> event_offset e"
  shows "holds stream capacity h"
proof -
  have inv: "ring_inv g" using assms(1) by (simp add: holds_def)
  have "event_sizes (filter P es) \<le> event_sizes es" for P es by (induction es) auto
  then have "buffered_event_bytes h \<le> buffered_event_bytes g"
    using t inv by (auto simp: trimmed_def events_ok_def ring_inv_def)
  moreover have "buffered_bytes h \<le> buffered_bytes g"
    using t inv assms(3) bytes_ok_len [of g] bytes_ok_len [of h]
    by (simp add: trimmed_def ring_inv_def)
  ultimately show ?thesis
    using assms(1)
    by (intro only_drops_holds [OF assms(1) trimmed_only_drops [OF t assms(3)]
          trimmed_inv [OF t inv assms(4)]]) (simp_all add: holds_def)
qed

lemma consume_boundary_inv:
  assumes "ring_inv g"
  shows "ring_inv (consume_boundary_events n g) \<and> only_drops g (consume_boundary_events n g) \<and>
         buffered_bytes (consume_boundary_events n g) = buffered_bytes g \<and>
         buffered_event_bytes (consume_boundary_events n g) \<le> buffered_event_bytes g"
  using assms
proof (induction n g rule: consume_boundary_events.induct)
  case (2 n g)
  show ?case
  proof (cases "ring_events g")
    case (Cons e es)
    let ?h = "fst (pop_front_event g)"
    have h: "?h = release_event e (g\<lparr>ring_events := es\<rparr>)" by (simp add: pop_front_event_def Cons)
    note rm = remove_event_inv [OF "2.prems", of "[]" e es ?h] 
    have "buffered_bytes ?h = buffered_bytes g" "buffered_event_bytes ?h \<le> buffered_event_bytes g"
      by (simp_all add: h release_event_def)
    with rm h Cons "2.IH" [OF Cons] "2.prems" show ?thesis
      by (auto intro: only_drops_trans order.trans)
  qed (use "2.prems" in simp)
qed simp

lemma holds_consume_boundary:
  assumes "holds stream capacity g"
  shows "holds stream capacity (consume_boundary_events n g)"
proof -
  have "ring_inv g" using assms by (simp add: holds_def)
  note inv = consume_boundary_inv [OF this, of n]
  have "buffered_bytes g + buffered_event_bytes g \<le> capacity" using assms by (simp add: holds_def)
  with inv have "buffered_bytes (consume_boundary_events n g) +
      buffered_event_bytes (consume_boundary_events n g) \<le> capacity" by linarith
  with inv only_drops_holds [OF assms] show ?thesis by blast
qed

lemma holds_consume_to:
  assumes "holds stream capacity g"
  shows "holds stream capacity (consume_to offset g)"
proof -
  define off where "off = min offset (ring_end g)"
  have ok: "ring_inv g" "events_ok g" "off \<le> ring_end g"
    using assms by (auto simp: holds_def ring_inv_def off_def)
  have "trimmed (\<lambda>s e. s < event_offset e) (ring_start g) g (cleanup_front g)"
    using at_boundary.cleanup_frame [OF ok(2)] at_boundary.cleanup_events [OF ok(2)]
      at_boundary.cleanup_ok [OF ok(2)] ok by (simp add: trimmed_def ring_inv_def bytes_ok_def ring_text_def)
  then have "holds stream capacity (cleanup_front g)"
    by (rule trimmed_holds [OF assms]) simp_all
  moreover have "holds stream capacity (trim_to_offset off g)" if "ring_start g < off"
    using trimmed_holds [OF assms trim_to_offset_trimmed [OF ok(1) that ok(3)]] that by simp
  ultimately show ?thesis
    using assms unfolding consume_to_def Let_def off_def [symmetric] by auto
qed

lemma holds_before_boundary:
  assumes "holds stream capacity g"
  shows "holds stream capacity (cleanup_front_before_boundary g)"
proof -
  have ok: "ring_inv g" "events_ok g" using assms by (auto simp: holds_def ring_inv_def)
  have "trimmed (\<lambda>s e. s \<le> event_offset e) (ring_start g) g (cleanup_front_before_boundary g)"
    using before_boundary.cleanup_frame [OF ok(2)] before_boundary.cleanup_events [OF ok(2)]
      before_boundary.cleanup_ok [OF ok(2)] ok
    by (simp add: trimmed_def ring_inv_def bytes_ok_def ring_text_def)
  then show ?thesis by (rule trimmed_holds [OF assms]) simp_all
qed

lemma trim_consuming_eq:
  assumes "ring_inv g" and "ring_start g < offset" and "offset \<le> ring_end g"
  shows "\<exists>h. trimmed (\<lambda>s e. s \<le> event_offset e) offset g h \<and>
     trim_to_offset_consuming_boundary_events offset n g = consume_boundary_events n h"
proof -
  let ?keep = "\<lambda>s e. s \<le> event_offset e"
  let ?t = "trim_loop cleanup_front_before_boundary offset (ring_chunks g) g"
  have t: "trimmed ?keep offset g ?t"
    using assms by (intro before_boundary.trim_loop_trimmed) (auto simp: ring_inv_def)
  define u where "u = (if ring_chunks ?t = []
      then cleanup_front_before_boundary (?t\<lparr>ring_start := offset\<rparr>) else ?t)"
  have u: "trimmed ?keep offset g u"
    using t before_boundary.cleanup_trimmed [OF t] by (simp add: u_def)
  then have "u\<lparr>ring_start := offset\<rparr> = u" by (simp add: trimmed_def ring_start_same)
  with before_boundary.cleanup_trimmed [OF u]
  have "trimmed ?keep offset g (cleanup_front_before_boundary u)" by simp
  moreover have "trim_to_offset_consuming_boundary_events offset n g =
      consume_boundary_events n (cleanup_front_before_boundary u)"
    using assms by (simp add: trim_to_offset_consuming_boundary_events_def Let_def min_absorb1
        cleanup_front_consuming_boundary_events_def u_def [symmetric])
  ultimately show ?thesis by blast
qed

lemma holds_consume_with_boundary:
  assumes "holds stream capacity g"
  shows "holds stream capacity (consume_to_with_boundary_events offset n g)"
proof -
  define off where "off = min offset (ring_end g)"
  have inv: "ring_inv g" "off \<le> ring_end g" using assms by (auto simp: holds_def off_def)
  have eq: "consume_to_with_boundary_events offset n g =
      (if off < ring_start g then g else trim_to_offset_consuming_boundary_events off n g)"
    by (simp add: consume_to_with_boundary_events_def Let_def off_def)
  consider "off < ring_start g" | "off = ring_start g" | "ring_start g < off" by linarith
  then show ?thesis
  proof cases
    case 1
    with assms eq show ?thesis by simp
  next
    case 2
    then have "consume_to_with_boundary_events offset n g =
        consume_boundary_events n (cleanup_front_before_boundary g)"
      using inv eq by (simp add: Let_def min_absorb1
          trim_to_offset_consuming_boundary_events_def cleanup_front_consuming_boundary_events_def)
    with assms show ?thesis by (simp add: holds_consume_boundary holds_before_boundary)
  next
    case 3
    from trim_consuming_eq [OF inv(1) 3 inv(2), of n] obtain h
      where t: "trimmed (\<lambda>s e. s \<le> event_offset e) off g h"
        and h: "trim_to_offset_consuming_boundary_events off n g = consume_boundary_events n h"
      by blast
    have "holds stream capacity h" using trimmed_holds [OF assms t] 3 by simp
    with 3 eq h show ?thesis by (simp add: holds_consume_boundary)
  qed
qed

section \<open>Reading\<close>

lemma collect_slices_text:
  assumes "chunks_from s cs e" and "e \<le> u64_max" and "a < b" and "b \<le> e"
  shows "assemble_bytes (collect_slices a b cs) = slice (chunks_text cs) (a - s) (b - s)"
  using assms
proof (induction s cs e rule: chunks_from.induct)
  case (1 s e)
  then show ?case by (simp add: assemble_bytes_def)
next
  case (2 s c cs e)
  let ?l = "chunk_len c" and ?r = "fst (chunk_range c)"
  have c: "chunk_start c = s" "chunk_ok c" "chunks_from (s + ?l) cs e" using "2.prems" by simp_all
  note len = chunk_ok_len [OF c(2)]
  have fe: "sat_add s ?l = s + ?l"
    using chunks_from_le [OF c(3)] "2.prems"(2) by (simp add: sat_add_exact)
  have IH: "assemble_bytes (collect_slices a b cs) = slice (chunks_text cs) (a - (s + ?l)) (b - (s + ?l))"
    using "2.IH" c(3) "2.prems" by simp
  have txt_eq: "slice (chunks_text (c # cs)) (a - s) (b - s) =
      slice (chunk_text c) (a - s) (min (b - s) ?l) @
      slice (chunks_text cs) (a - (s + ?l)) (b - (s + ?l))"
    using len by (simp add: slice_append)
  consider "b \<le> s" | "s < b" "s + ?l \<le> a" | "s < b" "a < s + ?l" by linarith
  then show ?case
  proof cases
    case 1
    then show ?thesis using c by (simp add: assemble_bytes_def)
  next
    case 2
    then show ?thesis unfolding txt_eq using c fe IH by simp
  next
    case 3
    let ?i = "a - s" and ?j = "min (b - s) ?l"
    have ij: "?i < ?j" using 3 "2.prems"(3) len by auto
    have bound: "?r + ?l = snd (chunk_range c)" "snd (chunk_range c) \<le> u64_max"
      using c(2) by (auto simp: chunk_ok_def chunk_len_def)
    have sat: "sat_add ?r ?i = ?r + ?i" "sat_add ?r ?j = ?r + ?j"
      using bound ij by (auto simp: sat_add_def)
    have ok: "\<not> (?i \<ge> ?j \<or> sat_add ?r ?i \<ge> sat_add ?r ?j \<or> sat_add ?r ?j > snd (chunk_range c))"
      using ij bound min.cobounded2 [of "b - s" ?l] unfolding sat by linarith
    have "slice (chunk_bytes c) (?r + ?i) (?r + ?j) = slice (chunk_text c) ?i ?j"
      using bound(1) by (simp add: chunk_text_def slice_slice chunk_len_def)
    moreover have "\<not> chunk_start c \<ge> b" "\<not> sat_add (chunk_start c) ?l \<le> a" using 3 c fe by simp_all
    ultimately have "assemble_bytes (collect_slices a b (c # cs)) =
        slice (chunk_text c) ?i ?j @ assemble_bytes (collect_slices a b cs)"
      using ok c(1) sat by (simp only: collect_slices.simps Let_def if_False assemble_bytes_def
          list.map concat.simps slice_text_def output_slice.select_convs fst_conv snd_conv)
    then show ?thesis unfolding txt_eq IH .
  qed
qed

lemma collect_events_filter:
  "sorted (map event_offset es) \<Longrightarrow>
   collect_events a b es = filter (\<lambda>e. a \<le> event_offset e \<and> event_offset e \<le> b) es"
proof (induction es)
  case (Cons e es)
  then show ?case by (auto simp: filter_empty_conv not_le eq_commute [of "[]"])
qed simp

lemma read_range_fields:
  assumes "holds stream capacity g"
  shows "or_bytes (read_range s e g) = slice stream (max s (ring_start g)) (min e (length stream))"
    and "or_start_offset (read_range s e g) = max s (ring_start g)"
    and "or_end_offset (read_range s e g) = min e (length stream)"
    and "or_events (read_range s e g) =
      filter (\<lambda>ev. max s (ring_start g) \<le> event_offset ev \<and> event_offset ev \<le> min e (length stream))
        (ring_events g)"
proof -
  define a b where "a = max s (ring_start g)" and "b = min e (length stream)"
  have g: "chunks_from (ring_start g) (ring_chunks g) (length stream)" "length stream \<le> u64_max"
    "chunks_text (ring_chunks g) = drop (ring_start g) stream" "ring_end g = length stream"
    "sorted (map event_offset (ring_events g))"
    using assms by (auto simp: holds_def ring_inv_def bytes_ok_def events_ok_def ring_text_def)
  have a: "ring_start g \<le> a" and b: "b \<le> length stream" by (simp_all add: a_def b_def)
  have tx: "assemble_bytes (collect_slices a b (ring_chunks g)) = slice stream a b" if "a < b"
    using collect_slices_text [OF g(1,2) that b] g(3) a that
    by (simp add: slice_def)
  have col: "collect_range s (Some e) g =
      \<lparr>col_slices = (if a < b then collect_slices a b (ring_chunks g) else []),
       col_events = (if a \<le> b then collect_events a b (ring_events g) else []),
       col_start = a, col_end = b\<rparr>"
    using g(4) by (simp add: collect_range_def Let_def unwrap_or_def a_def b_def)
  show "or_bytes (read_range s e g) = slice stream (max s (ring_start g)) (min e (length stream))"
    using tx unfolding a_def [symmetric] b_def [symmetric]
    by (simp add: read_range_def Let_def col) (simp add: assemble_bytes_def)
  show "or_start_offset (read_range s e g) = max s (ring_start g)"
    and "or_end_offset (read_range s e g) = min e (length stream)"
    by (simp_all add: read_range_def Let_def col a_def b_def)
  show "or_events (read_range s e g) =
      filter (\<lambda>ev. max s (ring_start g) \<le> event_offset ev \<and> event_offset ev \<le> min e (length stream))
        (ring_events g)"
    unfolding a_def [symmetric] b_def [symmetric]
    by (auto simp: read_range_def Let_def col collect_events_filter [OF g(5)] filter_empty_conv
        eq_commute [of "[]"])
qed

section \<open>Interleaved writers and readers\<close>

text \<open>
  Writers, the reader and resets share the ring behind a mutex: any thread may run its next locked
  section. A state is the stream written so far with the ring; \<open>ring_step\<close> is one locked section of
  the ring that keeps the newest output, in the pieces in which the code takes the lock.
\<close>

definition is_marker_kind :: "output_event_kind \<Rightarrow> bool" where
  "is_marker_kind k \<longleftrightarrow> k = InputWait \<or> k = RequestBoundary \<or> k = SessionEnd"

inductive ring_step :: "nat \<Rightarrow> bytes \<times> ring_inner \<Rightarrow> bytes \<times> ring_inner \<Rightarrow> bool"
  for capacity :: nat where
  progress: "ring_step capacity (stream, g) (stream, note_progress g)"
| chunk: "length head \<le> output_ring_append_chunk_len capacity \<Longrightarrow>
    length stream + length head \<le> u64_max \<Longrightarrow>
    ring_step capacity (stream, g)
      (stream @ head, fst (append_tail_chunk capacity head is_stderr orig source g))"
| notice: "ring_step capacity (stream, g)
    (stream, append_truncation_notice_locked capacity (ring_end g) 0 g)"
| visible: "ring_step capacity (stream, g)
    (stream, append_visible_event_locked capacity RetainTail kind g)"
| echo: "ring_step capacity (stream, g)
    (stream, append_input_echo_event_locked capacity RetainTail kind g)"
| marker: "is_marker_kind kind \<Longrightarrow>
    ring_step capacity (stream, g) (stream, append_marker_event_locked kind g)"
| consume: "ring_step capacity (stream, g) (stream, consume_to offset g)"
| consume_boundary: "ring_step capacity (stream, g)
    (stream, consume_to_with_boundary_events offset n g)"
| reset: "ring_step capacity (stream, g) ([], ring_reset g)"

lemma ring_step_holds:
  assumes "ring_step capacity st st'" and "holds (fst st) capacity (snd st)"
    and "1 \<le> capacity" and "capacity < u64_max"
  shows "holds (fst st') capacity (snd st')"
  using assms
proof (induction rule: ring_step.induct)
  case (chunk head stream g is_stderr orig source)
  have "length head \<le> capacity"
    using chunk.hyps(1) append_chunk_len_le [OF chunk.prems(2)] by simp
  then show ?case using holds_append_tail_chunk chunk by simp
next
  case (notice stream g)
  then show ?case using holds_truncation_notice [of stream capacity 0 g] by simp
next
  case (marker kind stream g)
  then show ?case
    by (auto simp: is_marker_kind_def event_size_bytes_def intro!: holds_marker)
qed (simp_all add: holds_visible_event holds_input_echo holds_consume_to holds_consume_with_boundary
    holds_empty ring_reset_def)

text \<open>
  C1. Whatever the order in which threads append output, images, echoes and markers, consume and
  reset, a ring of capacity \<open>capacity\<close> holds exactly the newest part of the stream that was written:
  its chunks are \<open>stream\<close> from \<^verbatim>\<open>start_offset\<close> on, \<^verbatim>\<open>end_offset\<close> is the length of the stream, its
  events are sorted inside that window, and text and events together never exceed the capacity.
\<close>

theorem ring_holds_newest_output:
  assumes "(ring_step capacity)\<^sup>*\<^sup>* ([], ring_inner_empty) (stream, g)"
    and "1 \<le> capacity" and "capacity < u64_max"
  shows "ring_text g = drop (ring_start g) stream \<and> ring_end g = length stream \<and>
         sorted (map event_offset (ring_events g)) \<and>
         (\<forall>e \<in> set (ring_events g). ring_start g \<le> event_offset e \<and> event_offset e \<le> length stream) \<and>
         length (ring_text g) + event_sizes (ring_events g) \<le> capacity"
proof -
  have "holds (fst (stream, g)) capacity (snd (stream, g))"
    using assms(1)
  proof (induction rule: rtranclp_induct)
    case base
    show ?case by (simp add: holds_empty)
  next
    case (step st st')
    then show ?case using ring_step_holds assms(2,3) by blast
  qed
  then have h: "holds stream capacity g" by simp
  then have "buffered_bytes g = length (ring_text g)"
    using bytes_ok_len [of g] by (simp add: holds_def ring_inv_def)
  with h show ?thesis
    by (auto simp: holds_def ring_inv_def events_ok_def list_all_iff)
qed

definition example_ring :: ring_inner where
  "example_ring =
     consume_to 2 (fst (append_tail_chunk 100 ''hello'' False Worker Raw ring_inner_empty))"

lemma example_ring_reachable: "(ring_step 100)\<^sup>*\<^sup>* ([], ring_inner_empty) (''hello'', example_ring)"
proof -
  have "ring_step 100 ([], ring_inner_empty)
      ([] @ ''hello'', fst (append_tail_chunk 100 ''hello'' False Worker Raw ring_inner_empty))"
    by (rule ring_step.chunk) (simp_all add: output_ring_append_chunk_len_def clamp_def
        OUTPUT_RING_APPEND_CHUNK_MAX_BYTES_def u64_max_def)
  from r_into_rtranclp [of "ring_step 100", OF this] ring_step.consume show ?thesis
    unfolding example_ring_def by (auto intro: rtranclp.rtrancl_into_rtrancl)
qed

theorem ring_holds_newest_output_witness:
  "ring_start example_ring = 2 \<and> ring_text example_ring = ''llo'' \<and> ring_end example_ring = 5"
proof -
  have "ring_start example_ring = 2" by code_simp
  then show ?thesis
    using ring_holds_newest_output [OF example_ring_reachable] by (simp add: u64_max_def)
qed

text \<open>
  Reading a range of the ring returns exactly the bytes of the stream in that range, as far as
  they are still held, with the events of that range and the offsets it covers.
\<close>

theorem read_range_is_stream_slice:
  assumes "holds stream capacity g"
  shows "or_bytes (read_range s e g) = slice stream (max s (ring_start g)) (min e (length stream)) \<and>
         or_start_offset (read_range s e g) = max s (ring_start g) \<and>
         or_end_offset (read_range s e g) = min e (length stream) \<and>
         set (or_events (read_range s e g)) =
           {ev \<in> set (ring_events g). max s (ring_start g) \<le> event_offset ev \<and>
                                      event_offset ev \<le> min e (length stream)}"
  using read_range_fields [OF assms] by auto

lemma example_ring_holds: "holds ''hello'' 100 example_ring"
  unfolding example_ring_def
  using holds_append_tail_chunk [OF holds_empty, of "''hello''" 100 False Worker Raw]
  by (intro holds_consume_to) (simp add: u64_max_def)

theorem read_range_is_stream_slice_witness: "or_bytes (read_range 0 4 example_ring) = ''ll''"
proof -
  have "ring_start example_ring = 2" by code_simp
  then show ?thesis
    using read_range_is_stream_slice [OF example_ring_holds, of 0 4] by (simp add: slice_def)
qed

section \<open>The contract of the reader\<close>

text \<open>
  What the reader of the ring relies on: reading returns slices of the stream, and consuming moves
  the base without touching what lies behind it.
\<close>

locale stream_store =
  fixes rep :: "bytes \<Rightarrow> 's \<Rightarrow> bool"
    and base :: "'s \<Rightarrow> nat"
    and read :: "nat \<Rightarrow> nat \<Rightarrow> 's \<Rightarrow> bytes"
    and consume :: "nat \<Rightarrow> 's \<Rightarrow> 's"
  assumes read_slice: "rep stream s \<Longrightarrow> read a b s = slice stream (max a (base s)) (min b (length stream))"
    and rep_consume: "rep stream s \<Longrightarrow> rep stream (consume n s)"
    and base_consume: "rep stream s \<Longrightarrow> base s \<le> n \<Longrightarrow> n \<le> length stream \<Longrightarrow> base (consume n s) = n"
begin

lemma read_split:
  assumes "rep stream s" and "base s \<le> a" and "a \<le> b" and "b \<le> c"
  shows "read a b s @ read b c s = read a c s"
proof -
  have "slice stream a (min b (length stream)) @ slice stream b (min c (length stream)) =
      slice stream a (min c (length stream))"
  proof (cases "b \<le> length stream")
    case True
    define d where "d = min c (length stream)"
    have d: "a \<le> b" "b \<le> d" using assms True by (simp_all add: d_def)
    then have "drop b stream = drop (b - a) (drop a stream)" by simp
    moreover have "take (d - a) (drop a stream) =
        take (b - a) (drop a stream) @ take (d - b) (drop (b - a) (drop a stream))"
      using d by (metis add_diff_assoc2 diff_add_inverse2 le_add_diff_inverse2 take_add
          Nat.add_diff_assoc le_add_diff_inverse)
    ultimately show ?thesis using True by (simp add: slice_def d_def [symmetric])
  next
    case False
    then have "min b (length stream) = length stream" "min c (length stream) = length stream"
      using assms by simp_all
    with False show ?thesis by (simp add: slice_def)
  qed
  with assms show ?thesis by (simp add: read_slice max_absorb1)
qed

lemma consume_keeps_rest:
  "rep stream s \<Longrightarrow> base s \<le> n \<Longrightarrow> n \<le> length stream \<Longrightarrow> n \<le> a \<Longrightarrow>
   read a b (consume n s) = read a b s"
  by (simp add: read_slice [OF rep_consume] read_slice base_consume max_absorb1)

lemma consume_forgets:
  "rep stream s \<Longrightarrow> base s \<le> n \<Longrightarrow> n \<le> length stream \<Longrightarrow> b \<le> n \<Longrightarrow> read a b (consume n s) = []"
  by (simp add: read_slice [OF rep_consume] base_consume le_max_iff_disj min_le_iff_disj)

end

lemma consume_to_start:
  assumes "holds stream capacity g" and "ring_start g \<le> n" and "n \<le> length stream"
  shows "ring_start (consume_to n g) = n"
proof (cases "ring_start g = n")
  case True
  have "events_ok g" using assms(1) by (simp add: holds_def ring_inv_def)
  with True assms show ?thesis
    by (simp add: consume_to_def Let_def holds_start_le [OF assms(1)] at_boundary.cleanup_frame)
next
  case False
  have "ring_inv g" "ring_end g = length stream" using assms(1) by (auto simp: holds_def)
  with False assms trim_to_offset_trimmed [of g n] show ?thesis
    by (simp add: consume_to_def Let_def trimmed_def)
qed

interpretation captured: stream_store "\<lambda>stream g. holds stream OUTPUT_RING_CAPACITY_BYTES g" ring_start
  "\<lambda>a b g. or_bytes (read_range a b g)" consume_to
  by unfold_locales (auto simp: read_range_fields holds_consume_to consume_to_start)

text \<open>
  Reading the pager's ring piece by piece gives the stream without loss or repetition, also when
  what was read is consumed in between: the bytes from \<open>a\<close> to \<open>b\<close>, followed by those from \<open>b\<close> to \<open>c\<close>
  read after consuming up to \<open>b\<close>, are the bytes from \<open>a\<close> to \<open>c\<close>.
\<close>

theorem incremental_reads:
  assumes "holds stream OUTPUT_RING_CAPACITY_BYTES g"
    and "ring_start g \<le> a" and "a \<le> b" and "b \<le> c" and "b \<le> length stream"
  shows "or_bytes (read_range a b g) @ or_bytes (read_range b c (consume_to b g)) =
         or_bytes (read_range a c g)"
  using captured.read_split [OF assms(1-4)] captured.consume_keeps_rest [of stream g b b c] assms
  by simp

theorem incremental_reads_witness:
  "or_bytes (read_range 2 3 example_ring) @ or_bytes (read_range 3 5 (consume_to 3 example_ring)) =
   or_bytes (read_range 2 5 example_ring)"
proof -
  have "ring_start example_ring = 2" by code_simp
  moreover have "holds ''hello'' OUTPUT_RING_CAPACITY_BYTES example_ring"
    using example_ring_holds by (rule holds_mono) (simp add: OUTPUT_RING_CAPACITY_BYTES_def)
  ultimately show ?thesis
    using incremental_reads [of "''hello''" example_ring 2 3 5] by simp
qed

end
