(* ===== verification/Output_Timeline.thy ===== *)
theory Output_Timeline
  imports Ring_Refinement
begin

text \<open>
  The rest of \<^verbatim>\<open>src/src/output_capture.rs\<close> and \<^verbatim>\<open>src/src/pending_output_tape.rs\<close>: the timeline
  in front of the ring, which holds back bytes that end inside a UTF-8 character until they are
  completed or sealed (\<^verbatim>\<open>OutputUtf8Tails\<close>), the reader (\<^verbatim>\<open>OutputBuffer\<close>) and the tape that owns
  both.

  A timeline and its buffer share one ring through an \<^verbatim>\<open>Arc\<close>; the record \<open>output_state\<close> has the
  shared ring once, with the timeline's tails and the buffer's cursor beside it, and the methods of
  both types are functions on it. The arguments \<^verbatim>\<open>_readline_results_seen\<close> are not used by the code
  and left out.
\<close>

section \<open>UTF-8 tails\<close>

record tail_key =
  key_is_stderr :: bool
  key_origin :: content_origin
  key_source :: output_text_source

record utf8_tail =
  tail_of :: tail_key
  tail_bytes :: bytes
  tail_sealed :: bool

datatype pending_entry = PendingText utf8_tail | PendingEvent output_event_kind

definition is_marker_event :: "pending_entry \<Rightarrow> bool" where
  "is_marker_event p =
     (case p of PendingEvent k \<Rightarrow> k = InputWait \<or> k = RequestBoundary \<or> k = SessionEnd | _ \<Rightarrow> False)"

function flushable_loop :: "bytes \<Rightarrow> nat \<Rightarrow> nat \<Rightarrow> nat" where
  "flushable_loop remaining offset whole =
     (if remaining = [] then offset
      else case from_utf8 remaining of
        Utf8Ok \<Rightarrow> whole
      | Utf8Err valid_up_to_k err_len \<Rightarrow>
          (case err_len of
             Some len \<Rightarrow>
               (let invalid_end = valid_up_to_k + len
                in flushable_loop (drop invalid_end remaining) (sat_add offset invalid_end) whole)
           | None \<Rightarrow> sat_add offset valid_up_to_k))"
  by pat_completeness auto
termination
  by (relation "measure (\<lambda>(remaining, _). length remaining)") (auto dest!: from_utf8_Err_bounds)

declare flushable_loop.simps [simp del]

definition flushable_prefix_len :: "bytes \<Rightarrow> nat" where
  "flushable_prefix_len bs = flushable_loop bs 0 (length bs)"

definition is_flushable :: "utf8_tail \<Rightarrow> bool" where
  "is_flushable t \<longleftrightarrow> tail_sealed t \<or> flushable_prefix_len (tail_bytes t) = length (tail_bytes t)"

definition escape_incomplete_utf8_tail :: "bytes \<Rightarrow> bytes" where
  "escape_incomplete_utf8_tail bs =
     (let flushable_len = flushable_prefix_len bs
      in if flushable_len = length bs then bs
         else take flushable_len bs @ concat (map hex_escape (drop flushable_len bs)))"

definition materialize :: "utf8_tail \<Rightarrow> utf8_tail" where
  "materialize t =
     (if tail_sealed t then t\<lparr>tail_bytes := escape_incomplete_utf8_tail (tail_bytes t)\<rparr> else t)"

definition materialize_pending_entry :: "pending_entry \<Rightarrow> pending_entry" where
  "materialize_pending_entry p =
     (case p of PendingText t \<Rightarrow> PendingText (materialize t) | PendingEvent k \<Rightarrow> PendingEvent k)"

definition pending_entry_size_bytes :: "pending_entry \<Rightarrow> nat" where
  "pending_entry_size_bytes p =
     (case p of PendingText t \<Rightarrow> length (tail_bytes t) | PendingEvent k \<Rightarrow> event_size_bytes k)"

type_synonym utf8_tails = "pending_entry list"

text \<open>The flushed part of a front entry, and what stays of it.\<close>

definition flushed_part :: "nat \<Rightarrow> utf8_tail \<Rightarrow> pending_entry" where
  "flushed_part n t =
     PendingText \<lparr>tail_of = tail_of t, tail_bytes = take n (tail_bytes t), tail_sealed = True\<rparr>"

definition kept_part :: "nat \<Rightarrow> utf8_tail \<Rightarrow> utf8_tail" where
  "kept_part n t = t\<lparr>tail_bytes := drop n (tail_bytes t)\<rparr>"

fun drain_ready :: "utf8_tails \<Rightarrow> pending_entry list \<times> utf8_tails" where
  "drain_ready [] = ([], [])"
| "drain_ready (PendingEvent k # es) =
     (let (ready, rest) = drain_ready es in (PendingEvent k # ready, rest))"
| "drain_ready (PendingText front # es) =
     (if tail_sealed front then
        (let (ready, rest) = drain_ready es
         in (materialize_pending_entry (PendingText front) # ready, rest))
      else
        (let flushable_len = flushable_prefix_len (tail_bytes front)
         in if flushable_len = 0 then ([], PendingText front # es)
            else if flushable_len = length (tail_bytes front) then
              (let (ready, rest) = drain_ready es in (PendingText front # ready, rest))
            else ([flushed_part flushable_len front],
                  PendingText (kept_part flushable_len front) # es)))"

definition tails_volume :: "utf8_tails \<Rightarrow> nat" where
  "tails_volume es =
     length es + sum_list (map (\<lambda>p. case p of PendingText t \<Rightarrow> length (tail_bytes t) | _ \<Rightarrow> 0) es)"

lemma tails_volume_Cons:
  "tails_volume (p # es) =
     Suc (case p of PendingText t \<Rightarrow> length (tail_bytes t) | _ \<Rightarrow> 0) + tails_volume es"
  by (simp add: tails_volume_def)

lemma flushable_loop_le:
  assumes "offset + length remaining = whole" and "whole \<le> u64_max"
  shows "offset \<le> flushable_loop remaining offset whole \<and> flushable_loop remaining offset whole \<le> whole"
  using assms
proof (induction remaining offset whole rule: flushable_loop.induct)
  case (1 remaining offset whole)
  show ?case
  proof (cases "from_utf8 remaining")
    case Utf8Ok
    with 1 show ?thesis by (simp add: flushable_loop.simps [of remaining])
  next
    case (Utf8Err k e)
    note b = from_utf8_Err_bounds [OF Utf8Err]
    show ?thesis
    proof (cases "remaining = []")
      case False
      show ?thesis
      proof (cases e)
        case None
        with Utf8Err b 1 show ?thesis
          by (simp add: flushable_loop.simps [of remaining] sat_add_def)
      next
        case (Some n)
        with b have n: "k + n \<le> length remaining" by simp
        then have "sat_add offset (k + n) = offset + (k + n)" using "1.prems" by (simp add: sat_add_def)
        with "1.IH" [OF False Utf8Err Some refl] "1.prems" n Some Utf8Err show ?thesis
          by (simp add: flushable_loop.simps [of remaining] Let_def)
      qed
    qed (use 1 in \<open>simp add: flushable_loop.simps [of "[]"]\<close>)
  qed
qed

lemma flushable_prefix_pos: "0 < flushable_prefix_len bs \<Longrightarrow> 0 < length bs"
  by (cases bs) (auto simp: flushable_prefix_len_def flushable_loop.simps)

function drain_after_gaps :: "utf8_tails \<Rightarrow> pending_entry list \<times> utf8_tails" where
  "drain_after_gaps [] = ([], [])"
| "drain_after_gaps (PendingEvent k # es) =
     (let (ready, rest) = drain_after_gaps es in (PendingEvent k # ready, rest))"
| "drain_after_gaps (PendingText front # es) =
     (let has_later_visible_entries = list_ex (\<lambda>p. \<not> is_marker_event p) es
      in if tail_sealed front then
           (let (ready, rest) = drain_after_gaps es
            in (materialize_pending_entry (PendingText front) # ready, rest))
         else
           (let flushable_len = flushable_prefix_len (tail_bytes front)
            in if flushable_len = 0 then
                 (if has_later_visible_entries then
                    (let (ready, rest) = drain_after_gaps es
                     in (materialize_pending_entry (PendingText (front\<lparr>tail_sealed := True\<rparr>)) # ready,
                         rest))
                  else ([], PendingText front # es))
               else if flushable_len = length (tail_bytes front) then
                 (let (ready, rest) = drain_after_gaps es in (PendingText front # ready, rest))
               else if \<not> has_later_visible_entries then
                 ([flushed_part flushable_len front],
                  PendingText (kept_part flushable_len front) # es)
               else
                 (let (ready, rest) =
                        drain_after_gaps (PendingText (kept_part flushable_len front) # es)
                  in (flushed_part flushable_len front # ready, rest))))"
  by pat_completeness auto
termination
  by (relation "measure tails_volume")
    (auto simp: tails_volume_Cons kept_part_def intro!: diff_less flushable_prefix_pos)

definition drain_ready_after_visible_gaps :: "utf8_tails \<Rightarrow> pending_entry list \<times> utf8_tails" where
  "drain_ready_after_visible_gaps es = drain_after_gaps es"

definition blocked_side_buffer_bytes :: "utf8_tails \<Rightarrow> nat" where
  "blocked_side_buffer_bytes es =
     (case es of
        PendingText front # rest \<Rightarrow>
          if tail_sealed front \<or> is_flushable front then 0
          else foldl (\<lambda>total p. sat_add total (pending_entry_size_bytes p)) 0 rest
      | _ \<Rightarrow> 0)"

definition drain_ready_bounded :: "nat \<Rightarrow> utf8_tails \<Rightarrow> pending_entry list \<times> utf8_tails" where
  "drain_ready_bounded side_buffer_capacity_bytes es =
     (let (ready, es') = drain_ready es
      in if blocked_side_buffer_bytes es' > side_buffer_capacity_bytes then
           (let (more, es'') = drain_ready_after_visible_gaps es' in (ready @ more, es''))
         else (ready, es'))"

definition drain_tails :: "utf8_tails \<Rightarrow> pending_entry list \<times> utf8_tails" where
  "drain_tails es =
     drain_ready (map (\<lambda>p. case p of PendingText t \<Rightarrow> PendingText (t\<lparr>tail_sealed := True\<rparr>) | _ \<Rightarrow> p) es)"

definition has_unflushable_tail :: "utf8_tails \<Rightarrow> bool" where
  "has_unflushable_tail es =
     list_ex (\<lambda>p. case p of PendingText t \<Rightarrow> \<not> tail_sealed t \<and> \<not> is_flushable t | _ \<Rightarrow> False) es"

definition continues :: "tail_key \<Rightarrow> pending_entry \<Rightarrow> bool" where
  "continues key p =
     (case p of PendingText t \<Rightarrow> tail_of t = key \<and> \<not> tail_sealed t \<and> \<not> is_flushable t | _ \<Rightarrow> False)"

definition update_tail :: "(utf8_tail \<Rightarrow> utf8_tail) \<Rightarrow> pending_entry \<Rightarrow> pending_entry" where
  "update_tail f p = (case p of PendingText t \<Rightarrow> PendingText (f t) | _ \<Rightarrow> p)"

definition update_first :: "('a \<Rightarrow> bool) \<Rightarrow> ('a \<Rightarrow> 'a) \<Rightarrow> 'a list \<Rightarrow> 'a list" where
  "update_first p f xs = (case position p xs of None \<Rightarrow> xs | Some i \<Rightarrow> xs[i := f (xs ! i)])"

definition push_tail ::
  "tail_key \<Rightarrow> bytes \<Rightarrow> bool \<Rightarrow> nat \<Rightarrow> utf8_tails \<Rightarrow> pending_entry list \<times> utf8_tails" where
  "push_tail key bs continue_previous_tail side_buffer_capacity_bytes es =
     (if bs = [] then ([], es)
      else
        (let es' =
             (if continue_previous_tail \<and> position (continues key) es \<noteq> None
              then update_first (continues key)
                     (update_tail (\<lambda>t. t\<lparr>tail_bytes := tail_bytes t @ bs\<rparr>)) es
              else update_first (continues key) (update_tail (\<lambda>t. t\<lparr>tail_sealed := True\<rparr>)) es @
                     [PendingText \<lparr>tail_of = key, tail_bytes = bs, tail_sealed = False\<rparr>])
         in drain_ready_bounded side_buffer_capacity_bytes es'))"

definition push_event_tail ::
  "output_event_kind \<Rightarrow> nat \<Rightarrow> utf8_tails \<Rightarrow> pending_entry list \<times> utf8_tails" where
  "push_event_tail kind side_buffer_capacity_bytes es =
     drain_ready_bounded side_buffer_capacity_bytes (es @ [PendingEvent kind])"

section \<open>OutputTimeline\<close>

record output_state =
  os_ring :: output_ring
  os_tails :: utf8_tails
  os_offset :: "nat option"
  os_rendered :: "rendered_text_state option"

definition os_inner :: "output_state \<Rightarrow> ring_inner" where
  "os_inner s = ring_guard (os_ring s)"

definition with_capacity :: "nat \<Rightarrow> output_state" where
  "with_capacity capacity =
     \<lparr>os_ring = with_retention capacity RetainTail, os_tails = [], os_offset = None,
      os_rendered = None\<rparr>"

definition with_head_retention_capacity :: "nat \<Rightarrow> output_state" where
  "with_head_retention_capacity capacity =
     \<lparr>os_ring = with_retention capacity RetainHead, os_tails = [], os_offset = None,
      os_rendered = None\<rparr>"

definition append_pending_entry :: "pending_entry \<Rightarrow> output_ring \<Rightarrow> output_ring" where
  "append_pending_entry p r =
     (case p of
        PendingText t \<Rightarrow>
          append_bytes_with_source (tail_bytes t) (key_is_stderr (tail_of t)) (key_origin (tail_of t))
            (key_source (tail_of t)) r
      | PendingEvent k \<Rightarrow> append_materialized_event k r)"

definition append_pending_locked :: "pending_entry list \<Rightarrow> output_ring \<Rightarrow> output_ring" where
  "append_pending_locked pending r = foldl (\<lambda>r p. append_pending_entry p r) r pending"

text \<open>Every append runs one operation of the tails and appends what it made ready to the ring.\<close>

definition apply_tails ::
  "(utf8_tails \<Rightarrow> pending_entry list \<times> utf8_tails) \<Rightarrow> output_state \<Rightarrow> output_state" where
  "apply_tails f s =
     (let (pending, tails) = f (os_tails s)
      in s\<lparr>os_tails := tails, os_ring := append_pending_locked pending (os_ring s)\<rparr>)"

definition timeline_clear :: "output_state \<Rightarrow> output_state" where
  "timeline_clear s =
     s\<lparr>os_tails := [], os_ring := (os_ring s)\<lparr>ring_guard := ring_reset (os_inner s)\<rparr>\<rparr>"

definition append_text_with_source ::
  "bytes \<Rightarrow> bool \<Rightarrow> content_origin \<Rightarrow> bool \<Rightarrow> output_text_source \<Rightarrow> output_state \<Rightarrow> output_state" where
  "append_text_with_source bs is_stderr orig is_continuation source s =
     (if bs = [] then s
      else apply_tails
        (push_tail \<lparr>key_is_stderr = is_stderr, key_origin = orig, key_source = source\<rparr> bs
           (is_continuation \<or> source = Raw) (capacity_bytes (os_ring s))) s)"

definition append_text :: "bytes \<Rightarrow> bool \<Rightarrow> content_origin \<Rightarrow> output_state \<Rightarrow> output_state" where
  "append_text bs is_stderr orig s = append_text_with_source bs is_stderr orig False Raw s"

definition append_text_with_continuation ::
  "bytes \<Rightarrow> bool \<Rightarrow> content_origin \<Rightarrow> bool \<Rightarrow> output_state \<Rightarrow> output_state" where
  "append_text_with_continuation bs is_stderr orig is_continuation s =
     append_text_with_source bs is_stderr orig is_continuation Raw s"

definition append_ipc_text_with_continuation ::
  "bytes \<Rightarrow> bool \<Rightarrow> content_origin \<Rightarrow> bool \<Rightarrow> output_state \<Rightarrow> output_state" where
  "append_ipc_text_with_continuation bs is_stderr orig is_continuation s =
     append_text_with_source bs is_stderr orig is_continuation Ipc s"

definition timeline_append_event :: "output_event_kind \<Rightarrow> output_state \<Rightarrow> output_state" where
  "timeline_append_event kind s = apply_tails (push_event_tail kind (capacity_bytes (os_ring s))) s"

definition append_image :: "string \<Rightarrow> string \<Rightarrow> string \<Rightarrow> bool \<Rightarrow> output_state \<Rightarrow> output_state" where
  "append_image i mime_type data is_new s =
     timeline_append_event (Image i data mime_type is_new) s"

definition append_text_event :: "string \<Rightarrow> bool \<Rightarrow> content_origin \<Rightarrow> output_state \<Rightarrow> output_state" where
  "append_text_event t is_stderr orig s = timeline_append_event (TextEvent t is_stderr orig) s"

definition input_echo_text :: "string \<Rightarrow> string \<Rightarrow> string option" where
  "input_echo_text prompt line = (if prompt = [] \<and> line = [] then None else Some (prompt @ line))"

definition input_echo_kind :: "string \<Rightarrow> string \<Rightarrow> output_event_kind option" where
  "input_echo_kind prompt line = map_option InputEcho (input_echo_text prompt line)"

definition append_input_echo :: "string \<Rightarrow> string \<Rightarrow> output_state \<Rightarrow> output_state" where
  "append_input_echo prompt line s =
     (case input_echo_kind prompt line of
        Some kind \<Rightarrow> timeline_append_event kind s
      | None \<Rightarrow> s)"

definition append_input_wait :: "output_state \<Rightarrow> output_state" where
  "append_input_wait s = timeline_append_event InputWait s"

definition append_request_boundary :: "output_state \<Rightarrow> output_state" where
  "append_request_boundary s = timeline_append_event RequestBoundary s"

definition append_session_end :: "output_state \<Rightarrow> output_state" where
  "append_session_end s = timeline_append_event SessionEnd s"

definition seal_utf8_tails :: "output_state \<Rightarrow> output_state" where
  "seal_utf8_tails s = apply_tails drain_tails s"

definition seal_utf8_tails_blocking_visible_output :: "output_state \<Rightarrow> output_state" where
  "seal_utf8_tails_blocking_visible_output s = apply_tails drain_ready_after_visible_gaps s"

section \<open>OutputBuffer\<close>

definition update_inner :: "(ring_inner \<Rightarrow> ring_inner) \<Rightarrow> output_state \<Rightarrow> output_state" where
  "update_inner f s = s\<lparr>os_ring := (os_ring s)\<lparr>ring_guard := f (os_inner s)\<rparr>\<rparr>"

definition start_capture :: "output_state \<Rightarrow> output_state" where
  "start_capture s =
     (if os_offset s \<noteq> None then s else s\<lparr>os_offset := Some (ring_start (os_inner s))\<rparr>)"

definition buffer_advance_offset_to :: "nat \<Rightarrow> output_state \<Rightarrow> output_state" where
  "buffer_advance_offset_to offset s =
     update_inner (consume_to offset) (s\<lparr>os_offset := Some offset, os_rendered := None\<rparr>)"

definition advance_offset_with_rendered_text ::
  "nat \<Rightarrow> rendered_text_state option \<Rightarrow> nat \<Rightarrow> output_state \<Rightarrow> output_state" where
  "advance_offset_with_rendered_text offset last_rendered boundary_events_consumed s =
     update_inner (consume_to_with_boundary_events offset boundary_events_consumed)
       (s\<lparr>os_offset := Some offset, os_rendered := last_rendered\<rparr>)"

definition has_pending_output :: "output_state \<Rightarrow> bool" where
  "has_pending_output s =
     (case os_offset s of
        None \<Rightarrow> False
      | Some offset \<Rightarrow>
          ring_end (os_inner s) > offset \<or> has_materialized_events_at_or_after offset (os_inner s))"

definition buffer_clear :: "output_state \<Rightarrow> output_state" where
  "buffer_clear s = update_inner ring_reset (s\<lparr>os_offset := None, os_rendered := None\<rparr>)"

definition current_settle_state :: "output_state \<Rightarrow> timeline_settle_state" where
  "current_settle_state s =
     (case os_offset s of
        None \<Rightarrow> \<lparr>settle_progress_seq = progress_seq (os_inner s), settle_input_echoes_seen = 0,
                 settle_has_image = False\<rparr>
      | Some offset \<Rightarrow> settle_state_at_or_after offset (os_inner s))"

definition trim_range_to_complete_utf8 :: "output_range \<Rightarrow> output_range \<times> nat" where
  "trim_range_to_complete_utf8 r =
     (let flushable_len = flushable_prefix_len (or_bytes r)
      in if flushable_len = length (or_bytes r) then (r, or_end_offset r)
         else
           (let consumed_end = sat_add (or_start_offset r) flushable_len
            in (r\<lparr>or_bytes := take flushable_len (or_bytes r), or_end_offset := consumed_end,
                  or_events := filter (\<lambda>e. event_offset e \<le> consumed_end) (or_events r),
                  or_text_spans := filter (\<lambda>s. start_byte s < end_byte s)
                    (map (\<lambda>s. s\<lparr>end_byte := min (end_byte s) flushable_len\<rparr>)
                      (filter (\<lambda>s. start_byte s < flushable_len) (or_text_spans r)))\<rparr>,
                consumed_end)))"

definition output_range_boundary_event_count :: "output_range \<Rightarrow> nat \<Rightarrow> nat" where
  "output_range_boundary_event_count r offset =
     length (filter (\<lambda>e. event_offset e = offset) (or_events r))"

record formatted_pending_output =
  fmt_contents :: "worker_content list"
  fmt_saw_stderr :: bool

definition formatted_default :: formatted_pending_output where
  "formatted_default = \<lparr>fmt_contents = [], fmt_saw_stderr = False\<rparr>"

definition drain_formatted ::
  "projection_mode \<Rightarrow> bool \<Rightarrow> output_state \<Rightarrow> formatted_pending_output \<times> output_state" where
  "drain_formatted mode flush_incomplete s =
     (case os_offset s of
        None \<Rightarrow> (formatted_default, s)
      | Some start_offset \<Rightarrow>
          (let g = os_inner s;
               end_offset = ring_end g;
               r0 = read_range start_offset end_offset g;
               (r, consumed_end) =
                 (if flush_incomplete then (r0, or_end_offset r0)
                  else trim_range_to_complete_utf8 r0);
               boundary = output_range_boundary_event_count r consumed_end;
               saw_stderr = saw_stderr_in_range (min start_offset consumed_end) consumed_end g;
               (contents, last_rendered) =
                 contents_from_output_range_with_state r mode (os_rendered s)
           in (\<lparr>fmt_contents = contents, fmt_saw_stderr = saw_stderr\<rparr>,
               advance_offset_with_rendered_text consumed_end last_rendered boundary s)))"

section \<open>PendingOutputTape\<close>

datatype pending_sideband_kind =
    SidebandInputWait string
  | SidebandReadlineResult string string
  | SidebandRequestBoundary
  | SidebandSessionEnd

record pending_output_settle_state =
  pos_progress_seq :: nat
  pos_readline_results_seen :: nat
  pos_has_image :: bool

definition with_timeline :: "output_state \<Rightarrow> output_state" where
  "with_timeline s = start_capture (s\<lparr>os_offset := None, os_rendered := None\<rparr>)"

definition append_server_stderr_bytes :: "bytes \<Rightarrow> output_state \<Rightarrow> output_state" where
  "append_server_stderr_bytes bs s = append_text bs True Server s"

definition append_stdout_status_line :: "bytes \<Rightarrow> output_state \<Rightarrow> output_state" where
  "append_stdout_status_line bs s =
     (if bs = [] then s
      else
        (let s1 = seal_utf8_tails s
         in if last_text_ends_with_newline (os_inner s1) \<or> starts_with bs nl
            then append_text bs False Server s1
            else append_text (nl @ bs) False Server s1))"

definition append_sideband :: "pending_sideband_kind \<Rightarrow> output_state \<Rightarrow> output_state" where
  "append_sideband kind s =
     (case kind of
        SidebandInputWait _ \<Rightarrow> append_input_wait s
      | SidebandReadlineResult prompt line \<Rightarrow> append_input_echo prompt line s
      | SidebandRequestBoundary \<Rightarrow> append_request_boundary s
      | SidebandSessionEnd \<Rightarrow> append_session_end s)"

definition tape_clear :: "output_state \<Rightarrow> output_state" where
  "tape_clear s = start_capture (buffer_clear (timeline_clear s))"

definition tape_settle_state :: "output_state \<Rightarrow> pending_output_settle_state" where
  "tape_settle_state s =
     (let st = current_settle_state s
      in \<lparr>pos_progress_seq = settle_progress_seq st,
          pos_readline_results_seen = settle_input_echoes_seen st,
          pos_has_image = settle_has_image st\<rparr>)"

definition drain_output :: "output_state \<Rightarrow> formatted_pending_output \<times> output_state" where
  "drain_output s = drain_formatted Bundle False (seal_utf8_tails_blocking_visible_output s)"

definition drain_final_output :: "output_state \<Rightarrow> formatted_pending_output \<times> output_state" where
  "drain_final_output s = drain_formatted Bundle True (seal_utf8_tails s)"

definition drain_sealed_output :: "output_state \<Rightarrow> formatted_pending_output \<times> output_state" where
  "drain_sealed_output s = drain_formatted Bundle True (seal_utf8_tails s)"

section \<open>What is held back\<close>

text \<open>The same length, one character at a time: complete and invalid sequences are passed.\<close>

function complete_len :: "bytes \<Rightarrow> nat" where
  "complete_len bs =
     (if bs = [] then 0
      else case utf8_first bs of
        Utf8Char n \<Rightarrow> n + complete_len (drop n bs)
      | Utf8Bad n \<Rightarrow> n + complete_len (drop n bs)
      | Utf8Short \<Rightarrow> 0)"
  by pat_completeness auto
termination
  by (relation "measure length") (auto dest: utf8_first_Char_bounds utf8_first_Bad_bounds)

declare complete_len.simps [simp del]

lemma complete_len_props:
  "complete_len bs \<le> length bs \<and> length bs - complete_len bs \<le> 3 \<and>
   (complete_len bs = length bs \<or> utf8_first (drop (complete_len bs) bs) = Utf8Short)"
proof (induction bs rule: complete_len.induct)
  case (1 bs)
  show ?case
  proof (cases "bs = []")
    case False
    show ?thesis
    proof (cases "utf8_first bs")
      case (Utf8Char n)
      with 1 False utf8_first_Char_bounds [OF Utf8Char] show ?thesis
        by (auto simp: complete_len.simps [of bs] add.commute)
    next
      case (Utf8Bad n)
      with 1 False utf8_first_Bad_bounds [OF Utf8Bad] show ?thesis
        by (auto simp: complete_len.simps [of bs] add.commute)
    next
      case Utf8Short
      with False utf8_first_Short_length [OF Utf8Short] show ?thesis
        by (simp add: complete_len.simps [of bs])
    qed
  qed (simp add: complete_len.simps)
qed

lemma complete_len_from_utf8:
  "complete_len bs =
     (case from_utf8 bs of
        Utf8Ok \<Rightarrow> length bs
      | Utf8Err k None \<Rightarrow> k
      | Utf8Err k (Some n) \<Rightarrow> k + n + complete_len (drop (k + n) bs))"
proof (induction bs rule: from_utf8.induct)
  case (1 bs)
  show ?case
  proof (cases "bs = []")
    case True
    then show ?thesis by (simp add: complete_len.simps from_utf8.simps)
  next
    case False
    show ?thesis
    proof (cases "utf8_first bs")
      case (Utf8Char n)
      note IH = "1.IH" [OF False Utf8Char] and b = utf8_first_Char_bounds [OF Utf8Char]
      show ?thesis
        using False Utf8Char b IH
        by (cases "from_utf8 (drop n bs)")
          (auto simp: complete_len.simps [of bs] from_utf8.simps [of bs] ac_simps split: option.splits)
    qed (simp_all add: False complete_len.simps [of bs] from_utf8.simps [of bs])
  qed
qed

lemma flushable_loop_complete_len:
  assumes "offset + length remaining = whole" and "whole \<le> u64_max"
  shows "flushable_loop remaining offset whole = offset + complete_len remaining"
  using assms
proof (induction remaining offset whole rule: flushable_loop.induct)
  case (1 remaining offset whole)
  show ?case
  proof (cases "remaining = []")
    case True
    with 1 show ?thesis by (simp add: flushable_loop.simps complete_len.simps)
  next
    case False
    show ?thesis
    proof (cases "from_utf8 remaining")
      case Utf8Ok
      with 1 False show ?thesis
        by (simp add: flushable_loop.simps [of remaining] complete_len_from_utf8 [of remaining])
    next
      case (Utf8Err k e)
      note b = from_utf8_Err_bounds [OF Utf8Err]
      show ?thesis
      proof (cases e)
        case None
        with Utf8Err b "1.prems" False show ?thesis
          by (simp add: flushable_loop.simps [of remaining] complete_len_from_utf8 [of remaining]
              sat_add_exact)
      next
        case (Some n)
        with b have n: "k + n \<le> length remaining" by simp
        then have "sat_add offset (k + n) = offset + (k + n)"
          using "1.prems" by (simp add: sat_add_exact)
        with "1.IH" [OF False Utf8Err Some refl] "1.prems" n Some Utf8Err False show ?thesis
          by (simp add: flushable_loop.simps [of remaining] complete_len_from_utf8 [of remaining] Let_def)
      qed
    qed
  qed
qed

lemma flushable_prefix_len_complete:
  "length bs \<le> u64_max \<Longrightarrow> flushable_prefix_len bs = complete_len bs"
  by (simp add: flushable_prefix_len_def flushable_loop_complete_len)

text \<open>
  \<^verbatim>\<open>flushable_prefix_len\<close>, which jumps from one error of \<^verbatim>\<open>str::from_utf8\<close> to the next, passes the
  bytes exactly as a scan of one character after the other does. What it holds back is at most
  three bytes long, and if it is not empty, it is the well-formed beginning of a character whose
  remaining bytes have not arrived.
\<close>

theorem flushable_prefix_len_scans_characters:
  assumes "length bs \<le> u64_max"
  shows "flushable_prefix_len bs = complete_len bs \<and> flushable_prefix_len bs \<le> length bs \<and>
         length bs - flushable_prefix_len bs \<le> 3 \<and>
         (flushable_prefix_len bs = length bs \<or>
          utf8_first (drop (flushable_prefix_len bs) bs) = Utf8Short)"
  using flushable_prefix_len_complete [OF assms] complete_len_props [of bs] by simp

theorem flushable_prefix_len_scans_characters_witness:
  "flushable_prefix_len [CHR ''a'', CHR 0xFF, CHR 0xE2, CHR 0x82] = 2"
proof -
  have "complete_len [CHR ''a'', CHR 0xFF, CHR 0xE2, CHR 0x82] = 2" by code_simp
  then show ?thesis
    using flushable_prefix_len_scans_characters [of "[CHR ''a'', CHR 0xFF, CHR 0xE2, CHR 0x82]"]
    by (simp add: u64_max_def)
qed

section \<open>Draining the tails\<close>

text \<open>
  What an entry stands for: the bytes with the stream they belong to, or the event. A sealed entry
  will be escaped when it is delivered.
\<close>

definition entry_items :: "pending_entry \<Rightarrow> (tail_key \<times> char + output_event_kind) list" where
  "entry_items p =
     (case p of
        PendingText t \<Rightarrow> map (\<lambda>b. Inl (tail_of t, b))
          (if tail_sealed t then escape_incomplete_utf8_tail (tail_bytes t) else tail_bytes t)
      | PendingEvent k \<Rightarrow> [Inr k])"

definition delivered_items :: "pending_entry \<Rightarrow> (tail_key \<times> char + output_event_kind) list" where
  "delivered_items p =
     (case p of
        PendingText t \<Rightarrow> map (\<lambda>b. Inl (tail_of t, b)) (tail_bytes t)
      | PendingEvent k \<Rightarrow> [Inr k])"

definition seal_entry :: "pending_entry \<Rightarrow> pending_entry" where
  "seal_entry = update_tail (\<lambda>t. t\<lparr>tail_sealed := True\<rparr>)"

lemma drain_tails_eq: "drain_tails es = drain_ready (map seal_entry es)"
  by (simp add: drain_tails_def seal_entry_def update_tail_def [abs_def])

lemma drain_ready_conserves:
  "concat (map delivered_items (fst (drain_ready es))) @ concat (map entry_items (snd (drain_ready es))) =
   concat (map entry_items es)"
proof (induction es rule: drain_ready.induct)
  case (3 front es)
  then show ?case
    by (auto simp: Let_def case_prod_beta entry_items_def delivered_items_def flushed_part_def
        kept_part_def materialize_pending_entry_def materialize_def map_append [symmetric]
        simp del: map_append)
qed (simp_all add: case_prod_beta entry_items_def delivered_items_def)

lemma drain_ready_sealed: "snd (drain_ready (map seal_entry es)) = []"
proof (induction es)
  case (Cons p es)
  then show ?case
    by (cases p) (simp_all add: seal_entry_def update_tail_def case_prod_beta)
qed simp

text \<open>
  Sealing the tails delivers everything that was held back, in order: the entries made ready are
  the pending ones with every incomplete character escaped, and nothing stays pending.
\<close>

theorem drain_tails_delivers_everything:
  "snd (drain_tails es) = [] \<and>
   concat (map delivered_items (fst (drain_tails es))) =
   concat (map (\<lambda>p. entry_items (seal_entry p)) es)"
  using drain_ready_sealed [of es] drain_ready_conserves [of "map seal_entry es"]
  by (simp add: drain_tails_eq comp_def)

text \<open>
  An append delivers a prefix of what is pending, in order, and keeps the rest: draining neither
  loses, duplicates nor reorders bytes or events.
\<close>

theorem drain_ready_keeps_order:
  "concat (map entry_items es) =
   concat (map delivered_items (fst (drain_ready es))) @ concat (map entry_items (snd (drain_ready es)))"
  using drain_ready_conserves [of es] by simp

section \<open>The side buffer is bounded\<close>

definition blocked_by_markers :: "utf8_tails \<Rightarrow> bool" where
  "blocked_by_markers es \<longleftrightarrow> es = [] \<or> list_all is_marker_event (tl es)"

lemma drain_after_gaps_blocked: "blocked_by_markers (snd (drain_after_gaps es))"
proof (induction es rule: drain_after_gaps.induct)
  case (3 front es)
  have "\<not> list_ex (\<lambda>p. \<not> is_marker_event p) es \<Longrightarrow> list_all is_marker_event es"
    by (auto simp: list_ex_iff list_all_iff)
  with 3 show ?case
    by (auto simp: Let_def case_prod_beta blocked_by_markers_def)
qed (simp_all add: blocked_by_markers_def case_prod_beta)

lemma marker_size: "is_marker_event p \<Longrightarrow> pending_entry_size_bytes p = 0"
  by (auto simp: is_marker_event_def pending_entry_size_bytes_def event_size_bytes_def
      split: pending_entry.splits)

lemma foldl_markers: "list_all is_marker_event es \<Longrightarrow>
    foldl (\<lambda>total p. sat_add total (pending_entry_size_bytes p)) 0 es = 0"
proof (induction es rule: rev_induct)
  case (snoc p es)
  then show ?case by (simp add: marker_size sat_add_def)
qed simp

lemma blocked_by_markers_bytes: "blocked_by_markers es \<Longrightarrow> blocked_side_buffer_bytes es = 0"
  by (auto simp: blocked_by_markers_def blocked_side_buffer_bytes_def foldl_markers
      split: list.splits pending_entry.splits)

lemma drain_ready_bounded_bytes: "blocked_side_buffer_bytes (snd (drain_ready_bounded capacity es)) \<le> capacity"
  using blocked_by_markers_bytes [OF drain_after_gaps_blocked]
  by (auto simp: drain_ready_bounded_def drain_ready_after_visible_gaps_def case_prod_beta Let_def)

text \<open>
  What waits behind an incomplete character never exceeds the capacity of the ring: after every
  append of text or of an event, the bytes blocked in the side buffer are at most the capacity.
\<close>

theorem side_buffer_bounded:
  "bs \<noteq> [] \<Longrightarrow> blocked_side_buffer_bytes (snd (push_tail key bs continue capacity es)) \<le> capacity"
  using drain_ready_bounded_bytes by (simp add: push_tail_def Let_def)

theorem side_buffer_bounded_witness:
  "blocked_side_buffer_bytes
     (snd (push_tail \<lparr>key_is_stderr = True, key_origin = Worker, key_source = Raw\<rparr> ''late'' True 2
        [PendingText \<lparr>tail_of = \<lparr>key_is_stderr = False, key_origin = Worker, key_source = Raw\<rparr>,
                      tail_bytes = [CHR 0xE2], tail_sealed = False\<rparr>])) \<le> 2"
  by (rule side_buffer_bounded) simp

section \<open>The timeline writes to the captured stream\<close>

definition pending_bytes :: "pending_entry list \<Rightarrow> bytes" where
  "pending_bytes ps = concat (map (\<lambda>p. case p of PendingText t \<Rightarrow> tail_bytes t | _ \<Rightarrow> []) ps)"

definition ring_holds :: "bytes \<Rightarrow> output_ring \<Rightarrow> bool" where
  "ring_holds stream r \<longleftrightarrow> retention r = RetainTail \<and> 1 \<le> capacity_bytes r \<and>
     capacity_bytes r < u64_max \<and> holds stream (capacity_bytes r) (ring_guard r)"

lemma ring_holds_event: "ring_holds stream r \<Longrightarrow> ring_holds stream (append_materialized_event k r)"
  by (cases k)
    (auto simp: ring_holds_def append_materialized_event_def holds_visible_event holds_input_echo
      event_size_bytes_def intro!: holds_marker)

lemma ring_holds_bytes:
  assumes "ring_holds stream r" and "length stream + length bs \<le> u64_max"
  shows "ring_holds (stream @ bs) (append_bytes_with_source bs is_stderr orig source r)"
  using assms by (auto simp: ring_holds_def append_bytes_with_source_def Let_def intro!: holds_append_tail)

lemma ring_holds_pending:
  assumes "ring_holds stream r" and "length stream + length (pending_bytes ps) \<le> u64_max"
  shows "ring_holds (stream @ pending_bytes ps) (append_pending_locked ps r)"
  using assms
proof (induction ps arbitrary: stream r)
  case Nil
  then show ?case by (simp add: pending_bytes_def append_pending_locked_def)
next
  case (Cons p ps)
  show ?case
  proof (cases p)
    case (PendingText t)
    let ?r = "append_pending_entry p r"
    have "ring_holds (stream @ tail_bytes t) ?r"
      using Cons.prems PendingText
      by (auto simp: append_pending_entry_def pending_bytes_def intro!: ring_holds_bytes)
    from Cons.IH [OF this] Cons.prems(2) PendingText show ?thesis
      by (simp add: pending_bytes_def append_pending_locked_def)
  next
    case (PendingEvent k)
    then have "ring_holds stream (append_pending_entry p r)"
      using Cons.prems by (simp add: append_pending_entry_def ring_holds_event)
    from Cons.IH [OF this] Cons.prems(2) PendingEvent show ?thesis
      by (simp add: pending_bytes_def append_pending_locked_def)
  qed
qed

lemma apply_tails_extends:
  assumes "ring_holds stream (os_ring s)" and "f (os_tails s) = (ready, rest)"
    and "length stream + length (pending_bytes ready) \<le> u64_max"
  shows "ring_holds (stream @ pending_bytes ready) (os_ring (apply_tails f s)) \<and>
         os_tails (apply_tails f s) = rest"
  using ring_holds_pending [OF assms(1,3)] assms(2) by (simp add: apply_tails_def)


section \<open>Draining\<close>

lemma update_inner_simps [simp]:
  "os_inner (update_inner f s) = f (os_inner s)" "os_offset (update_inner f s) = os_offset s"
  "os_tails (update_inner f s) = os_tails s"
  "os_inner (s\<lparr>os_offset := off, os_rendered := rt\<rparr>) = os_inner s"
  by (simp_all add: update_inner_def os_inner_def)

lemma consume_boundary_all:
  "list_all (\<lambda>e. event_offset e = ring_start g) (ring_events g) \<Longrightarrow> length (ring_events g) \<le> n \<Longrightarrow>
   ring_events (consume_boundary_events n g) = []"
proof (induction n g rule: consume_boundary_events.induct)
  case (2 n g)
  then show ?case
    by (cases "ring_events g") (auto simp: pop_front_event_def release_event_def)
qed simp

lemma consume_boundary_frame:
  "ring_start (consume_boundary_events n g) = ring_start g \<and> ring_end (consume_boundary_events n g) = ring_end g"
proof (induction n g rule: consume_boundary_events.induct)
  case (2 n g)
  then show ?case
    by (cases "ring_events g") (auto simp: pop_front_event_def release_event_def)
qed simp

text \<open>Consuming to the end with all its events leaves no event and an empty window.\<close>

lemma consume_everything:
  assumes "holds stream capacity g"
    and "n = length (filter (\<lambda>e. event_offset e = length stream) (ring_events g))"
  shows "ring_events (consume_to_with_boundary_events (length stream) n g) = [] \<and>
         ring_start (consume_to_with_boundary_events (length stream) n g) = length stream \<and>
         ring_end (consume_to_with_boundary_events (length stream) n g) = length stream"
proof -
  let ?e = "length stream"
  have inv: "ring_inv g" "ring_end g = ?e" "ring_start g \<le> ?e" "events_ok g"
    using holds_start_le [OF assms(1)] assms(1) by (simp_all add: holds_def ring_inv_def)
  have le: "\<And>e. e \<in> set (ring_events g) \<Longrightarrow> event_offset e \<le> ?e"
    using inv(1,2) by (auto simp: ring_inv_def list_all_iff)
  have at_end: "filter (\<lambda>e. ?e \<le> event_offset e) (ring_events g) =
      filter (\<lambda>e. event_offset e = ?e) (ring_events g)"
    by (intro filter_cong refl) (use le in \<open>auto intro: order_antisym\<close>)
  obtain h where h: "trimmed (\<lambda>s e. s \<le> event_offset e) ?e g h"
    and eq: "consume_to_with_boundary_events ?e n g = consume_boundary_events n h"
  proof (cases "ring_start g = ?e")
    case True
    let ?h = "cleanup_front_before_boundary g"
    have "trimmed (\<lambda>s e. s \<le> event_offset e) ?e g ?h"
      using before_boundary.cleanup_frame [OF inv(4)] before_boundary.cleanup_events [OF inv(4)]
        before_boundary.cleanup_ok [OF inv(4)] inv True
      by (simp add: trimmed_def ring_inv_def bytes_ok_def ring_text_def)
    moreover have "consume_to_with_boundary_events ?e n g = consume_boundary_events n ?h"
      using True inv by (simp add: consume_to_with_boundary_events_def Let_def
          trim_to_offset_consuming_boundary_events_def cleanup_front_consuming_boundary_events_def)
    ultimately show ?thesis by (rule that)
  next
    case False
    then have lt: "ring_start g < ?e" using inv by simp
    from trim_consuming_eq [OF inv(1) lt, of n] inv(2) obtain h where
      "trimmed (\<lambda>s e. s \<le> event_offset e) ?e g h"
      "trim_to_offset_consuming_boundary_events ?e n g = consume_boundary_events n h" by auto
    with lt inv(2) show ?thesis
      by (intro that [of h]) (simp_all add: consume_to_with_boundary_events_def Let_def)
  qed
  from h have ev: "ring_events h = filter (\<lambda>e. event_offset e = ?e) (ring_events g)"
    and st: "ring_start h = ?e" "ring_end h = ?e"
    using at_end inv(2) by (simp_all add: trimmed_def)
  have "ring_events (consume_boundary_events n h) = []"
    using assms(2) by (intro consume_boundary_all) (simp_all add: ev st list_all_iff)
  with consume_boundary_frame [of n h] st eq show ?thesis by simp
qed


definition example_state :: output_state where
  "example_state =
     append_text ''done'' False Worker (with_timeline (with_capacity OUTPUT_RING_CAPACITY_BYTES))"

lemma ring_holds_new:
  "1 \<le> capacity \<Longrightarrow> capacity < u64_max \<Longrightarrow> ring_holds [] (os_ring (with_timeline (with_capacity capacity)))"
  by (simp add: ring_holds_def with_timeline_def with_capacity_def start_capture_def
      with_retention_def holds_empty)

lemma example_state_holds: "ring_holds ''done'' (os_ring example_state)" "os_offset example_state = Some 0"
  "os_tails example_state = []"
proof -
  let ?s = "with_timeline (with_capacity OUTPUT_RING_CAPACITY_BYTES)"
  let ?f = "push_tail \<lparr>key_is_stderr = False, key_origin = Worker, key_source = Raw\<rparr> ''done'' True
      (capacity_bytes (os_ring ?s))"
  have "pending_bytes (fst (?f (os_tails ?s))) = ''done''" by code_simp
  moreover have "ring_holds [] (os_ring ?s)"
    by (rule ring_holds_new) (simp_all add: OUTPUT_RING_CAPACITY_BYTES_def u64_max_def)
  ultimately show "ring_holds ''done'' (os_ring example_state)"
    using ring_holds_pending [of "[]" "os_ring ?s" "fst (?f (os_tails ?s))"]
    by (simp add: example_state_def append_text_def append_text_with_source_def apply_tails_def
        case_prod_beta u64_max_def)
  show "os_offset example_state = Some 0" "os_tails example_state = []" by code_simp+
qed



end
