(* ===== verification/Pager.thy ===== *)
theory Pager
  imports Pager_Search Output_Timeline
begin

text \<open>
  The \<^verbatim>\<open>Pager\<close> of \<^verbatim>\<open>src/src/pager/mod.rs\<close>: its state while a long output is being paged, the
  handler of pager commands, and the first page of an output, taken from the output ring.
  \<^verbatim>\<open>page_bytes\<close> reads the environment, so the two variables are arguments of the handler.
\<close>

section \<open>Model\<close>

record pager_state =
  ps_is_error :: bool
  ps_last_range :: "range option"
  ps_last_emitted :: "range option"
  ps_buffer :: pager_buffer
  ps_seen :: range_set
  ps_seen_images :: "string set"
  ps_image_numbers :: "string \<rightharpoonup> nat"
  ps_next_image_number :: nat
  ps_session :: "search_session option"
  ps_needs_reseed :: bool
  ps_view_history :: "range list"

type_synonym pager = "pager_state option"

record command_outcome =
  co_contents :: "worker_content list"
  co_pages_left :: nat
  co_dismiss :: bool
  co_is_error :: bool
  co_update_range :: bool
  co_update_last_emitted :: bool
  co_first_range :: "range option"
  co_last_range :: "range option"
  co_view_ranges :: "range list"

definition outcome_new ::
  "worker_content list \<Rightarrow> nat \<Rightarrow> bool \<Rightarrow> bool \<Rightarrow> range option \<Rightarrow> range option \<Rightarrow> bool option \<Rightarrow>
   command_outcome" where
  "outcome_new contents left is_error update_range first_range last_range dismiss =
     \<lparr>co_contents = contents, co_pages_left = left,
      co_dismiss = unwrap_or dismiss (left = 0),
      co_is_error = is_error, co_update_range = update_range, co_update_last_emitted = True,
      co_first_range = first_range, co_last_range = last_range, co_view_ranges = []\<rparr>"

definition with_single_view_range :: "range option \<Rightarrow> command_outcome \<Rightarrow> command_outcome" where
  "with_single_view_range r co = co\<lparr>co_view_ranges := opt_list r\<rparr>"

definition with_view_ranges :: "range list \<Rightarrow> command_outcome \<Rightarrow> command_outcome" where
  "with_view_ranges rs co = co\<lparr>co_view_ranges := rs\<rparr>"

definition without_last_emitted_update :: "command_outcome \<Rightarrow> command_outcome" where
  "without_last_emitted_update co = co\<lparr>co_update_last_emitted := False\<rparr>"

definition outcome_page ::
  "worker_content list \<Rightarrow> nat \<Rightarrow> bool \<Rightarrow> range_span \<Rightarrow> command_outcome" where
  "outcome_page contents left is_error span =
     with_view_ranges (span_ranges span)
       (outcome_new contents left is_error True (span_first span) (span_last span) None)"

definition outcome_page_keep ::
  "worker_content list \<Rightarrow> nat \<Rightarrow> bool \<Rightarrow> range_span \<Rightarrow> command_outcome" where
  "outcome_page_keep contents left is_error span =
     with_view_ranges (span_ranges span)
       (outcome_new contents left is_error True (span_first span) (span_last span) (Some False))"

definition outcome_page_dismiss ::
  "worker_content list \<Rightarrow> nat \<Rightarrow> bool \<Rightarrow> range_span \<Rightarrow> command_outcome" where
  "outcome_page_dismiss contents left is_error span =
     with_view_ranges (span_ranges span)
       (outcome_new contents left is_error True (span_first span) (span_last span) (Some True))"

definition outcome_no_range :: "worker_content list \<Rightarrow> nat \<Rightarrow> bool \<Rightarrow> command_outcome" where
  "outcome_no_range contents left is_error =
     outcome_new contents left is_error False None None None"

definition outcome_no_range_keep :: "worker_content list \<Rightarrow> nat \<Rightarrow> bool \<Rightarrow> command_outcome" where
  "outcome_no_range_keep contents left is_error =
     outcome_new contents left is_error False None None (Some False)"

lemmas outcome_defs =
  outcome_new_def with_single_view_range_def with_view_ranges_def without_last_emitted_update_def
  outcome_page_def outcome_page_keep_def outcome_page_dismiss_def outcome_no_range_def
  outcome_no_range_keep_def

definition pager_reply :: "worker_content list \<Rightarrow> bool \<Rightarrow> worker_error_code option \<Rightarrow> worker_reply"
where
  "pager_reply contents is_error code =
     \<lparr>reply_contents = contents, reply_is_error = is_error, reply_error_code = code,
      reply_prompt = None, reply_prompt_variants = None\<rparr>"

subsection \<open>Activating, refreshing and dismissing\<close>

definition is_active :: "pager \<Rightarrow> bool" where
  "is_active p \<longleftrightarrow> p \<noteq> None"

definition activate :: "pager_buffer \<Rightarrow> bool \<Rightarrow> pager \<Rightarrow> pager" where
  "activate b is_error p =
     Some \<lparr>ps_is_error = is_error, ps_last_range = None, ps_last_emitted = None, ps_buffer = b,
           ps_seen = range_set_default, ps_seen_images = {}, ps_image_numbers = Map.empty,
           ps_next_image_number = 1, ps_session = None, ps_needs_reseed = False,
           ps_view_history = []\<rparr>"

definition dismiss :: "pager \<Rightarrow> pager" where
  "dismiss p = None"

definition refresh_from_output ::
  "pager_lib \<Rightarrow> pager \<Rightarrow> output_state \<Rightarrow> pager \<times> output_state" where
  "refresh_from_output lib p out =
     (case p of
        None \<Rightarrow> (p, out)
      | Some st \<Rightarrow>
          (let out1 = start_capture out;
               end_offset = ring_end (os_inner out1);
               start_offset = source_end (ps_buffer st)
           in if end_offset \<le> start_offset then (p, out1)
              else
                (let r = read_range start_offset end_offset (os_inner out1);
                     out2 = buffer_advance_offset_to end_offset out1
                 in (Some (st\<lparr>ps_buffer := append_timeline_range lib r (ps_buffer st),
                              ps_session := map_option (\<lambda>ss. ss\<lparr>ss_buffer_len := 0\<rparr>)
                                (ps_session st)\<rparr>), out2))))"

subsection \<open>Images\<close>

definition already_shown_note :: "nat \<Rightarrow> worker_content" where
  "already_shown_note num = server_stderr (''[pager] image #'' @ dec num @ '' already shown'' @ nl)"

definition dedupe_image :: "worker_content \<Rightarrow> pager_state \<Rightarrow> worker_content \<times> pager_state" where
  "dedupe_image c st =
     (case c of
        ContentText _ _ _ _ \<Rightarrow> (c, st)
      | ContentImage _ _ i _ \<Rightarrow>
          (let (num, st1) =
                 (case ps_image_numbers st i of
                    Some n \<Rightarrow> (n, st)
                  | None \<Rightarrow>
                      (let n = ps_next_image_number st
                       in (n, st\<lparr>ps_next_image_number := sat_add n 1,
                                 ps_image_numbers := (ps_image_numbers st)(i \<mapsto> n)\<rparr>)))
           in if i \<in> ps_seen_images st1 then (already_shown_note num, st1)
              else (c, st1\<lparr>ps_seen_images := insert i (ps_seen_images st1)\<rparr>)))"

fun dedupe_loop ::
  "worker_content list \<Rightarrow> pager_state \<Rightarrow> worker_content list \<times> pager_state" where
  "dedupe_loop [] st = ([], st)"
| "dedupe_loop (c # cs) st =
     (let (c', st1) = dedupe_image c st; (cs', st2) = dedupe_loop cs st1 in (c' # cs', st2))"

definition dedupe_images ::
  "worker_content list \<Rightarrow> pager \<Rightarrow> worker_content list \<times> pager" where
  "dedupe_images contents p =
     (case p of
        None \<Rightarrow> (contents, None)
      | Some st \<Rightarrow> (let (cs, st') = dedupe_loop contents st in (cs, Some st')))"

subsection \<open>Footer\<close>

definition footer :: "pager \<Rightarrow> nat \<Rightarrow> string" where
  "footer p left =
     (case p of
        None \<Rightarrow> footer_min left
      | Some st \<Rightarrow>
          (let marker = position_marker (current_offset (ps_buffer st)) (buf_len (ps_buffer st))
                 (ps_last_range st)
           in if marker = [] then footer_min left
              else if left = 0 then ''(END, '' @ marker @ '')''
              else ''--More-- ('' @ dec left @ ''p, '' @ marker @ '')''))"

definition pages_left_for_help :: "pager \<Rightarrow> nat \<Rightarrow> nat" where
  "pages_left_for_help p page =
     (case p of
        None \<Rightarrow> 0
      | Some st \<Rightarrow> pages_left (ps_buffer st) (current_offset (ps_buffer st))
                     (buf_len (ps_buffer st)) (max page 1))"

subsection \<open>Search sessions of the pager\<close>

definition ensure_search_session_from_pattern ::
  "pager_lib \<Rightarrow> search_pattern \<Rightarrow> nat \<Rightarrow> bool \<Rightarrow> pager_state \<Rightarrow> bool \<times> pager_state" where
  "ensure_search_session_from_pattern lib pat start_offset full st =
     (case (if full then build_full_search_session lib (ps_buffer st) pat start_offset
            else build_forward_search_session lib (ps_buffer st) pat start_offset) of
        Some ss \<Rightarrow> (True, st\<lparr>ps_session := Some ss\<rparr>)
      | None \<Rightarrow> (False, st))"

definition build_matches_session ::
  "pager_lib \<Rightarrow> pager_buffer \<Rightarrow> search_pattern \<Rightarrow> nat \<Rightarrow> search_session option" where
  "build_matches_session lib b pat limit =
     build_bounded_search_session lib b pat 0 (sat_add limit 1)"

definition rebuild_search_session ::
  "pager_lib \<Rightarrow> pager_buffer \<Rightarrow> search_session \<Rightarrow> nat \<Rightarrow> bool \<Rightarrow> search_session option" where
  "rebuild_search_session lib b existing start_offset preserve_boundary =
     map_option (\<lambda>ss.
         if preserve_boundary \<and> ss_current_index existing \<ge> length (ss_hits existing)
         then ss\<lparr>ss_current_index := length (ss_hits ss)\<rparr> else ss)
       (case ss_max_indexed_hits existing of
          Some limit \<Rightarrow>
            build_bounded_search_session lib b (ss_pattern existing) start_offset
              (max (length (ss_hits existing)) limit)
        | None \<Rightarrow>
            (if ss_complete existing \<or> ss_indexed_from_start existing
             then build_full_search_session lib b (ss_pattern existing) start_offset
             else build_forward_search_session lib b (ss_pattern existing) start_offset))"

definition reseed_search_session ::
  "pager_lib \<Rightarrow> pager_buffer \<Rightarrow> search_session \<Rightarrow> nat \<Rightarrow> search_session option" where
  "reseed_search_session lib b existing start_offset =
     map_option (\<lambda>ss. ss\<lparr>ss_anchor_offset := start_offset, ss_current_index := length (ss_hits ss)\<rparr>)
       (build_full_search_session lib b (ss_pattern existing) start_offset)"

definition ensure_search_session_fresh ::
  "pager_lib \<Rightarrow> pager_state \<Rightarrow> bool \<times> pager_state" where
  "ensure_search_session_fresh lib st =
     (case ps_session st of
        None \<Rightarrow> (False, st)
      | Some existing \<Rightarrow>
          if ss_buffer_len existing = buf_len (ps_buffer st) \<and> \<not> ps_needs_reseed st then (True, st)
          else
            (let session =
                   (if ps_needs_reseed st
                    then reseed_search_session lib (ps_buffer st) existing
                           (current_offset (ps_buffer st))
                    else rebuild_search_session lib (ps_buffer st) existing
                           (ss_anchor_offset existing) True)
             in (session \<noteq> None, st\<lparr>ps_session := session, ps_needs_reseed := False\<rparr>)))"

definition ensure_search_session_complete ::
  "pager_lib \<Rightarrow> pager_state \<Rightarrow> bool \<times> pager_state" where
  "ensure_search_session_complete lib st =
     (case ps_session st of
        None \<Rightarrow> (False, st)
      | Some existing \<Rightarrow>
          if ss_complete existing \<and> ss_indexed_from_start existing then (True, st)
          else if current_search_anchor existing = None then (False, st)
          else
            (let session = build_full_search_session lib (ps_buffer st) (ss_pattern existing)
                   (ss_anchor_offset existing)
             in (session \<noteq> None, st\<lparr>ps_session := session\<rparr>)))"

text \<open>\<^verbatim>\<open>ensure_search_session_fresh(state) && ensure_search_session_complete(state)\<close>\<close>

definition ensure_fresh_and_complete :: "pager_lib \<Rightarrow> pager_state \<Rightarrow> bool \<times> pager_state" where
  "ensure_fresh_and_complete lib st =
     (let (fresh, st1) = ensure_search_session_fresh lib st
      in if fresh then ensure_search_session_complete lib st1 else (False, st1))"

subsection \<open>The commands\<close>

text \<open>
  The branches of \<^verbatim>\<open>handle_command\<close>'s \<^verbatim>\<open>match\<close>, one definition per command or group of commands.
  Where the code takes the session out of the state with \<^verbatim>\<open>expect\<close> after it was made, the missing
  session is treated like the failed guard before it; it cannot occur.
\<close>

definition default_stream :: "pager_state \<Rightarrow> text_stream" where
  "default_stream st = (if ps_is_error st then Stderr else Stdout)"

definition search_card_outcome ::
  "nat \<Rightarrow> search_session \<Rightarrow> pager_state \<Rightarrow> command_outcome \<times> pager_state" where
  "search_card_outcome page ss st =
     (let (contents, range, resume_offset) =
            render_search_card (ps_buffer st) ss (ps_view_history st) (default_stream st);
          b = (case resume_offset of
                 Some offset \<Rightarrow> advance_offset_to offset (ps_buffer st)
               | None \<Rightarrow> ps_buffer st);
          left = pages_left_for_buffer b page
      in (without_last_emitted_update (with_single_view_range range
            (outcome_new contents left (ps_is_error st) True range range (Some False))),
          st\<lparr>ps_session := Some ss, ps_buffer := b\<rparr>))"

definition message_outcome :: "nat \<Rightarrow> string \<Rightarrow> pager_state \<Rightarrow> command_outcome \<times> pager_state" where
  "message_outcome page message st =
     (outcome_no_range_keep [server_stderr message] (pages_left_for_buffer (ps_buffer st) page)
        (ps_is_error st), st)"

definition page_outcome ::
  "(worker_content list \<Rightarrow> nat \<Rightarrow> bool \<Rightarrow> range_span \<Rightarrow> command_outcome) \<Rightarrow>
   page_result \<times> pager_buffer \<times> range_set \<Rightarrow> pager_state \<Rightarrow> command_outcome \<times> pager_state" where
  "page_outcome mk result st =
     (let ((contents, left, span), b, sn) = result
      in (mk contents left (ps_is_error st) span, st\<lparr>ps_buffer := b, ps_seen := sn\<rparr>))"

definition run_search ::
  "pager_lib \<Rightarrow> nat \<Rightarrow> search_pattern \<Rightarrow> pager_state \<Rightarrow> command_outcome \<times> pager_state" where
  "run_search lib page pat st =
     (let start_offset = current_offset (ps_buffer st);
          (found, st1) = ensure_search_session_from_pattern lib pat start_offset False st
      in case (found, ps_session st1) of
           (True, Some ss) \<Rightarrow> search_card_outcome page ss st1
         | _ \<Rightarrow>
             (let (found', st2) = ensure_search_session_from_pattern lib pat start_offset True st1
              in case (found', ps_session st2) of
                   (True, Some ss) \<Rightarrow>
                     search_card_outcome page (snd (move_search_session 1 False ss)) st2
                 | _ \<Rightarrow> message_outcome page (''[pager] pattern not found: '' @ pattern pat)
                          (st2\<lparr>ps_session := None\<rparr>)))"

definition matches_outcome ::
  "nat \<Rightarrow> match_spec \<Rightarrow> search_session \<Rightarrow> pager_state \<Rightarrow> command_outcome \<times> pager_state" where
  "matches_outcome page spec ss st =
     (let (contents, span, view_ranges) = take_matches (ps_buffer st) spec ss
      in (without_last_emitted_update (with_view_ranges view_ranges
            (outcome_new contents (pages_left_for_buffer (ps_buffer st) page) (ps_is_error st) False
              (span_first span) (span_last span) (Some False))),
          st))"

definition run_matches ::
  "pager_lib \<Rightarrow> nat \<Rightarrow> match_spec \<Rightarrow> pager_state \<Rightarrow> command_outcome \<times> pager_state" where
  "run_matches lib page spec st =
     (case match_pattern spec of
        Some pat \<Rightarrow>
          (case build_matches_session lib (ps_buffer st) pat (match_limit spec) of
             Some ss \<Rightarrow>
               (let ss' = snd (goto_search_hit 1 ss)
                in matches_outcome page spec ss' (st\<lparr>ps_session := Some ss'\<rparr>))
           | None \<Rightarrow> message_outcome page (''[pager] pattern not found: '' @ pattern pat)
                      (st\<lparr>ps_session := None\<rparr>))
      | None \<Rightarrow>
          (let (ok, st1) = ensure_fresh_and_complete lib st
           in case (ok, ps_session st1) of
                (True, Some ss) \<Rightarrow> matches_outcome page spec ss st1
              | _ \<Rightarrow> message_outcome page
                       ''[pager] no active search; use `:/PATTERN` or `:matches PATTERN`'' st1))"

definition run_hits ::
  "pager_lib \<Rightarrow> nat \<Rightarrow> hit_spec \<Rightarrow> pager_state \<Rightarrow> command_outcome \<times> pager_state" where
  "run_hits lib page spec st =
     (let ((contents, left, span, view_ranges), b, sn) =
            take_hits_next lib (ps_buffer st) (hit_state_new (hit_pattern spec) (hit_context spec))
              page (hit_count spec) (ps_seen st)
      in (with_view_ranges view_ranges (outcome_page_keep contents left (ps_is_error st) span),
          st\<lparr>ps_buffer := b, ps_seen := sn\<rparr>))"

text \<open>
  \<^verbatim>\<open>count.max(1) as usize + 1\<close> is a plain addition of 64-bit integers: a release build wraps, a
  build with overflow checks panics. The model wraps.
\<close>

definition wrap_add :: "nat \<Rightarrow> nat \<Rightarrow> nat" where
  "wrap_add a b = (a + b) mod 2 ^ 64"

definition run_search_next ::
  "pager_lib \<Rightarrow> nat \<Rightarrow> nat \<Rightarrow> pager_state \<Rightarrow> command_outcome \<times> pager_state" where
  "run_search_next lib page count st =
     (let (fresh, st1) = ensure_search_session_fresh lib st
      in case (fresh, ps_session st1) of
           (True, Some ss) \<Rightarrow>
             (let needed_hits = sat_add (ss_current_index ss) (wrap_add (max count 1) 1);
                  ss1 = extend_search_session_forward lib (ps_buffer st1) needed_hits ss;
                  (moved, ss2) = move_search_session count True ss1
              in if moved = Boundary
                 then message_outcome page (search_boundary_message ss2 True)
                        (st1\<lparr>ps_session := Some ss2\<rparr>)
                 else search_card_outcome page ss2 st1)
         | _ \<Rightarrow> page_outcome outcome_page_keep
                  (take_next_pages page count (ps_buffer st1) (ps_seen st1)) st1)"

definition no_active_search :: string where
  "no_active_search = ''[pager] no active search; use `:/PATTERN` first''"

definition run_search_prev ::
  "pager_lib \<Rightarrow> nat \<Rightarrow> nat \<Rightarrow> pager_state \<Rightarrow> command_outcome \<times> pager_state" where
  "run_search_prev lib page count st =
     (let (ok, st1) = ensure_fresh_and_complete lib st
      in case (ok, ps_session st1) of
           (True, Some ss) \<Rightarrow>
             (let (moved, ss') = move_search_session count False ss
              in if moved = Boundary
                 then message_outcome page (search_boundary_message ss' False)
                        (st1\<lparr>ps_session := Some ss'\<rparr>)
                 else search_card_outcome page ss' st1)
         | _ \<Rightarrow> message_outcome page no_active_search st1)"

definition run_goto ::
  "pager_lib \<Rightarrow> nat \<Rightarrow> nat \<Rightarrow> pager_state \<Rightarrow> command_outcome \<times> pager_state" where
  "run_goto lib page index st =
     (let (ok, st1) = ensure_fresh_and_complete lib st
      in case (ok, ps_session st1) of
           (True, Some ss) \<Rightarrow>
             (let (found, ss') = goto_search_hit index ss
              in if found then search_card_outcome page ss' st1
                 else message_outcome page (''[pager] search hit out of range: '' @ dec index)
                        (st1\<lparr>ps_session := Some ss'\<rparr>))
         | _ \<Rightarrow> message_outcome page no_active_search st1)"

definition run_range ::
  "nat \<Rightarrow> nat \<Rightarrow> nat \<Rightarrow> pager_state \<Rightarrow> command_outcome \<times> pager_state" where
  "run_range page start_line end_line st =
     (let left = pages_left_for_buffer (ps_buffer st) page;
          ((contents, span), sn) = take_line_range start_line end_line (ps_buffer st) (ps_seen st);
          contents' = (if contents = []
            then [server_stderr ''[pager] no remaining output in range''] else contents)
      in (with_view_ranges (span_ranges span)
            (outcome_new contents' left (ps_is_error st) False (span_first span) (span_last span)
              None),
          st\<lparr>ps_seen := sn\<rparr>))"

definition run_seek :: "nat \<Rightarrow> seek_spec \<Rightarrow> pager_state \<Rightarrow> command_outcome \<times> pager_state" where
  "run_seek page spec st =
     (let b = ps_buffer st;
          end_offset = buf_len b;
          desired =
            (case spec of
               SeekOffset offset \<Rightarrow> Inr (min offset end_offset)
             | SeekPercent percent \<Rightarrow> Inr (sat_mul end_offset percent div 100)
             | SeekLine line \<Rightarrow>
                 (case line_start_offset b line of
                    Some offset \<Rightarrow> Inr offset
                  | None \<Rightarrow> Inl (''[pager] line out of range: '' @ dec line)))
      in case desired of
           Inl message \<Rightarrow>
             (outcome_no_range [server_stderr message] (pages_left_for_buffer b page)
                (ps_is_error st), st)
         | Inr offset \<Rightarrow>
             page_outcome outcome_page
               (take_next_page page PagerMode (advance_offset_to offset b) (ps_seen st)) st)"

definition run_tail :: "nat \<Rightarrow> tail_spec \<Rightarrow> pager_state \<Rightarrow> command_outcome \<times> pager_state" where
  "run_tail page spec st =
     page_outcome outcome_page_dismiss
       (case spec of
          TailDefault \<Rightarrow> take_tail page (ps_buffer st) (ps_seen st)
        | TailBytes n \<Rightarrow> take_tail (max n 1) (ps_buffer st) (ps_seen st)
        | TailLines lines \<Rightarrow> take_tail_lines lines (ps_buffer st) (ps_seen st)) st"

fun run_command ::
  "pager_lib \<Rightarrow> nat \<Rightarrow> pager_command \<Rightarrow> pager_state \<Rightarrow> command_outcome \<times> pager_state" where
  "run_command lib page (Next count) st =
     page_outcome outcome_page (take_next_pages page count (ps_buffer st) (ps_seen st)) st"
| "run_command lib page (Skip count) st =
     page_outcome outcome_page (skip_pages_and_take_next page count (ps_buffer st) (ps_seen st)) st"
| "run_command lib page All st =
     page_outcome outcome_page (take_all page (ps_buffer st) (ps_seen st)) st"
| "run_command lib page (Tail spec) st = run_tail page spec st"
| "run_command lib page (Search pat) st = run_search lib page pat st"
| "run_command lib page (Where pat) st =
     (outcome_new [server_stderr (where_in_buffer lib (ps_buffer st) (ps_seen st) page pat)]
        (pages_left_for_buffer (ps_buffer st) page) (ps_is_error st) True None None None, st)"
| "run_command lib page (Matches spec) st = run_matches lib page spec st"
| "run_command lib page (Hits spec) st = run_hits lib page spec st"
| "run_command lib page (SearchNext count) st = run_search_next lib page count st"
| "run_command lib page (SearchPrev count) st = run_search_prev lib page count st"
| "run_command lib page (Goto index) st = run_goto lib page index st"
| "run_command lib page (Range start_line end_line) st = run_range page start_line end_line st"
| "run_command lib page (Seek spec) st = run_seek page spec st"
| "run_command lib page Help st =
     (outcome_no_range [server_stderr pager_help_text] (pages_left_for_buffer (ps_buffer st) page)
        (ps_is_error st), st)"
| "run_command lib page Quit st =
     (outcome_no_range [] 0 (ps_is_error st), st)"

text \<open>\<^verbatim>\<open>Quit\<close> never reaches the \<^verbatim>\<open>match\<close>: the handler returns before it.\<close>

definition command_keeps_search_anchor :: "pager_command \<Rightarrow> bool" where
  "command_keeps_search_anchor c =
     (case c of
        Search _ \<Rightarrow> True | Matches _ \<Rightarrow> True | SearchNext _ \<Rightarrow> True | SearchPrev _ \<Rightarrow> True
      | Goto _ \<Rightarrow> True | _ \<Rightarrow> False)"

text \<open>What happens after the \<^verbatim>\<open>match\<close>: bookkeeping and the gap marker.\<close>

definition note_outcome ::
  "pager_command \<Rightarrow> nat \<Rightarrow> command_outcome \<Rightarrow> worker_content list \<Rightarrow> pager_state \<Rightarrow>
   worker_content list \<times> pager_state" where
  "note_outcome command cursor_before co contents st =
     (let cursor_after = current_offset (ps_buffer st);
          st1 = (if ps_session st = None \<or> command_keeps_search_anchor command
                 then st\<lparr>ps_needs_reseed := False\<rparr>
                 else if cursor_after \<noteq> cursor_before then st\<lparr>ps_needs_reseed := True\<rparr>
                 else st);
          contents' = opt_list (gap_marker_if_needed (ps_last_emitted st1) (co_first_range co)
                        (ps_seen st1)) @ contents;
          st2 = st1\<lparr>ps_view_history := ps_view_history st1 @ co_view_ranges co\<rparr>
      in (contents',
          if co_update_last_emitted co \<and> co_last_range co \<noteq> None
          then st2\<lparr>ps_last_emitted := co_last_range co\<rparr> else st2))"

definition handle_command ::
  "pager_lib \<Rightarrow> string option \<Rightarrow> string option \<Rightarrow> string \<Rightarrow> pager \<Rightarrow> worker_reply \<times> pager" where
  "handle_command lib chars_env bytes_env input p =
     (let page = page_bytes chars_env bytes_env
      in case p of
           None \<Rightarrow> (pager_reply [server_stderr ''[pager] no pager active''] True None, None)
         | Some st \<Rightarrow>
             (case parse_command input of
                None \<Rightarrow>
                  (pager_reply [server_stderr (non_command_input_message input),
                     server_stderr (footer p (pages_left_for_help p page))] False None, p)
              | Some command \<Rightarrow>
                  (if command = Quit
                   then (pager_reply [server_stderr (footer p 0)] False None, dismiss p)
                   else
                     (let (co, st1) = run_command lib page command st;
                          st2 = (if co_update_range co then st1\<lparr>ps_last_range := co_last_range co\<rparr>
                                 else st1);
                          (contents, st3) = dedupe_loop (co_contents co) st2;
                          (contents', st4) = note_outcome command (current_offset (ps_buffer st))
                             co contents st3;
                          left = (if co_dismiss co then 0 else co_pages_left co)
                      in (pager_reply (contents' @ [server_stderr (footer (Some st4) left)])
                            (co_is_error co) None,
                          if co_dismiss co then dismiss (Some st4) else Some st4)))))"

subsection \<open>The first page of an output\<close>

definition mark_first_page :: "range option \<Rightarrow> pager_state \<Rightarrow> pager_state" where
  "mark_first_page rng st =
     (let st1 = st\<lparr>ps_last_range := rng, ps_last_emitted := rng\<rparr>
      in case rng of
           None \<Rightarrow> st1
         | Some (start, end) \<Rightarrow>
             st1\<lparr>ps_seen := range_insert start end (ps_seen st1),
                 ps_view_history := ps_view_history st1 @ [(start, end)]\<rparr>)"

definition maybe_activate_and_append_footer ::
  "pager \<Rightarrow> worker_content list \<Rightarrow> nat \<Rightarrow> bool \<Rightarrow> pager_buffer option \<Rightarrow> range option \<Rightarrow>
   worker_content list \<times> pager" where
  "maybe_activate_and_append_footer p contents left is_error buffer last_range =
     (case buffer of
        Some b \<Rightarrow>
          (if left = 0 then (contents, p)
           else
             (let p1 = map_option (mark_first_page last_range) (activate b is_error p);
                  (contents', p2) = dedupe_images contents p1
              in (contents' @ [server_stderr (footer p2 left)], p2)))
      | None \<Rightarrow> (contents, p))"

definition take_range_from_ring ::
  "nat \<Rightarrow> output_state \<Rightarrow> worker_content list \<times> output_state" where
  "take_range_from_ring end_offset out =
     (let start_offset = unwrap_or (os_offset out) end_offset;
          r = read_range start_offset end_offset (os_inner out);
          consumed_end = or_end_offset r;
          boundary = output_range_boundary_event_count r consumed_end;
          (contents, last_rendered) =
            contents_from_output_range_with_state r Reply (os_rendered out)
      in (contents, advance_offset_with_rendered_text consumed_end last_rendered boundary out))"

record snapshot_page =
  snap_contents :: "worker_content list"
  snap_pages_left :: nat
  snap_buffer :: "pager_buffer option"
  snap_last_range :: "range option"
  snap_last_range_end_byte :: "nat option"

definition snapshot_empty :: snapshot_page where
  "snapshot_empty =
     \<lparr>snap_contents = [], snap_pages_left = 0, snap_buffer = None, snap_last_range = None,
      snap_last_range_end_byte = None\<rparr>"

definition take_snapshot_page_from_buffer_with_projection ::
  "pager_buffer \<Rightarrow> nat \<Rightarrow> projection_mode \<Rightarrow> snapshot_page" where
  "take_snapshot_page_from_buffer_with_projection b target mode =
     (let ((contents, left, span), b', _) = take_next_page target mode b range_set_default
      in \<lparr>snap_contents = contents, snap_pages_left = left, snap_buffer = Some b',
          snap_last_range = span_last span,
          snap_last_range_end_byte =
            map_option (\<lambda>(_, end). source_offset_for_char_offset b' end) (span_last span)\<rparr>)"

definition take_snapshot_page_from_range ::
  "pager_lib \<Rightarrow> output_range \<Rightarrow> nat \<Rightarrow> rendered_text_state option \<Rightarrow>
   snapshot_page \<times> rendered_text_state option" where
  "take_snapshot_page_from_range lib r target previous =
     (let b = from_timeline_range lib r;
          (contents, last_rendered) = contents_from_output_range_with_state r Reply previous
      in if buf_bytes b = [] then
           (snapshot_empty\<lparr>snap_contents := contents, snap_buffer := Some b\<rparr>, last_rendered)
         else
           (let ((_, left, span), b', _) = take_next_page target Reply b range_set_default
            in if left > 0
               then (take_snapshot_page_from_buffer_with_projection b target PagerMode, None)
               else
                 (\<lparr>snap_contents = contents, snap_pages_left = left, snap_buffer = Some b,
                   snap_last_range = span_last span,
                   snap_last_range_end_byte =
                     map_option (\<lambda>(_, end). source_offset_for_char_offset b' end) (span_last span)\<rparr>,
                  last_rendered)))"

definition snapshot_from_ring ::
  "nat \<Rightarrow> output_state \<Rightarrow> (output_range \<times> rendered_text_state option) option \<times> output_state" where
  "snapshot_from_ring end_offset out =
     (let out1 = start_capture out;
          start_offset = unwrap_or (os_offset out1) end_offset;
          r = read_range start_offset end_offset (os_inner out1)
      in (if or_bytes r = [] \<and> or_events r = [] then None else Some (r, os_rendered out1), out1))"

definition take_snapshot_page_from_ring ::
  "pager_lib \<Rightarrow> nat \<Rightarrow> nat \<Rightarrow> output_state \<Rightarrow> snapshot_page \<times> output_state" where
  "take_snapshot_page_from_ring lib end_offset target out =
     (case snapshot_from_ring end_offset out of
        (None, out1) \<Rightarrow> (snapshot_empty, out1)
      | (Some (r, previous), out1) \<Rightarrow>
          (let consumed_end = or_end_offset r;
               boundary = output_range_boundary_event_count r consumed_end;
               (snapshot, last_rendered) = take_snapshot_page_from_range lib r target previous
           in (snapshot,
               advance_offset_with_rendered_text consumed_end last_rendered boundary out1)))"

end
