(* ===== verification/Buffer_Invariant.thy ===== *)
theory Buffer_Invariant
  imports Pager_Buffer
begin

text \<open>
  The invariant of a \<^verbatim>\<open>PagerBuffer\<close> and what it gives: its index is strictly increasing from the
  first to the last byte, its line ends are the character offsets behind the newlines, events are
  sorted inside the buffer. The contract of a text that is addressed by characters and by bytes is
  the locale \<open>text_index\<close>; the buffer's index is its interpretation \<open>buffer_index\<close>.
\<close>

section \<open>A character index\<close>

definition wf_index :: "nat \<Rightarrow> nat list \<Rightarrow> bool" where
  "wf_index n index \<longleftrightarrow> index \<noteq> [] \<and> hd index = 0 \<and> last index = n \<and> sorted_wrt (<) index"

lemma wf_index_nth_less: "wf_index n index \<Longrightarrow> i < j \<Longrightarrow> j < length index \<Longrightarrow> index ! i < index ! j"
  by (simp add: wf_index_def sorted_wrt_nth_less)

lemma wf_index_ends:
  assumes "wf_index n index"
  shows "index ! 0 = 0" "index ! (length index - 1) = n" "0 < length index"
  using assms by (auto simp: wf_index_def hd_conv_nth last_conv_nth)

lemma wf_index_nth_le: "wf_index n index \<Longrightarrow> i < length index \<Longrightarrow> index ! i \<le> n"
  using wf_index_nth_less [of n index i "length index - 1"] wf_index_ends [of n index]
  by (cases "i = length index - 1") (simp_all add: less_imp_le)

text \<open>The position a lookup finds: the last entry that is not beyond \<open>x\<close>.\<close>

definition index_at :: "nat list \<Rightarrow> nat \<Rightarrow> nat \<Rightarrow> bool" where
  "index_at index x k \<longleftrightarrow>
     k < length index \<and> index ! k \<le> x \<and> (Suc k < length index \<longrightarrow> x < index ! Suc k)"

lemma index_at_unique:
  assumes "wf_index n index" and "index_at index x i" and "index_at index x j"
  shows "i = j"
proof (rule ccontr)
  have no: False if "index_at index x a" "index_at index x b" "a < b" for a b
  proof -
    have "index ! Suc a \<le> index ! b"
      using wf_index_nth_less [OF assms(1), of "Suc a" b] that
      by (cases "Suc a = b") (auto simp: index_at_def)
    with that show False by (auto simp: index_at_def)
  qed
  assume "i \<noteq> j"
  then show False using no assms(2,3) nat_neq_iff by metis
qed

lemma index_char_at:
  assumes "wf_index n index"
  shows "index_at index x (index_char index x)"
proof -
  let ?i = "partition_point (\<lambda>y. y < x) index"
  have le: "?i \<le> length index" by (rule partition_point_le)
  have below: "index ! j < x" if "j < ?i" for j
    using that takeWhile_nth [of j "\<lambda>y. y < x" index] nth_mem [of j "takeWhile (\<lambda>y. y < x) index"]
    by (auto simp: partition_point_def dest: set_takeWhileD)
  have above: "x \<le> index ! ?i" if "?i < length index"
    using that nth_length_takeWhile [of "\<lambda>y. y < x" index] by (simp add: partition_point_def)
  have ne: "index \<noteq> []" using assms by (simp add: wf_index_def)
  show ?thesis
  proof (cases "?i < length index \<and> index ! ?i = x")
    case True
    then have "x < index ! Suc ?i" if "Suc ?i < length index"
      using wf_index_nth_less [OF assms, of ?i "Suc ?i"] that by simp
    with True ne show ?thesis
      by (simp add: index_char_def binary_search_def Let_def index_at_def)
  next
    case False
    then have i: "index_char index x = ?i - 1"
      using ne by (auto simp: index_char_def binary_search_def Let_def)
    have "?i \<noteq> 0" using False above wf_index_ends [OF assms] by (cases "?i = 0") auto
    with below [of "?i - 1"] above False le show ?thesis
      unfolding i index_at_def by auto
  qed
qed

lemma index_char_eqI: "wf_index n index \<Longrightarrow> index_at index x k \<Longrightarrow> index_char index x = k"
  using index_at_unique index_char_at by blast

section \<open>The contract of an indexed text\<close>

locale text_index =
  fixes inv :: "'b \<Rightarrow> bool"
    and len :: "'b \<Rightarrow> nat"
    and size_of :: "'b \<Rightarrow> nat"
    and byte_of :: "'b \<Rightarrow> nat \<Rightarrow> nat"
    and char_at :: "'b \<Rightarrow> nat \<Rightarrow> nat"
  assumes byte_of_strict: "inv b \<Longrightarrow> i < j \<Longrightarrow> j \<le> len b \<Longrightarrow> byte_of b i < byte_of b j"
    and byte_of_zero: "inv b \<Longrightarrow> byte_of b 0 = 0"
    and byte_of_len: "inv b \<Longrightarrow> byte_of b (len b) = size_of b"
    and char_at_le: "inv b \<Longrightarrow> char_at b x \<le> len b"
    and char_at_floor: "inv b \<Longrightarrow> byte_of b (char_at b x) \<le> x"
    and char_at_next: "inv b \<Longrightarrow> char_at b x < len b \<Longrightarrow> x < byte_of b (Suc (char_at b x))"
begin

lemma byte_of_mono: "inv b \<Longrightarrow> i \<le> j \<Longrightarrow> j \<le> len b \<Longrightarrow> byte_of b i \<le> byte_of b j"
  using byte_of_strict [of b i j] by (cases "i = j") auto

lemma byte_of_le_size: "inv b \<Longrightarrow> i \<le> len b \<Longrightarrow> byte_of b i \<le> size_of b"
  using byte_of_mono [of b i "len b"] byte_of_len by simp

text \<open>A byte is found in the characters that contain it: the two coordinates bound each other.\<close>

lemma char_at_less_iff:
  assumes "inv b" and "c \<le> len b"
  shows "char_at b x < c \<longleftrightarrow> x < byte_of b c"
proof
  assume "char_at b x < c"
  moreover from this have "byte_of b (Suc (char_at b x)) \<le> byte_of b c"
    using byte_of_mono [OF assms(1), of "Suc (char_at b x)" c] assms(2) by simp
  ultimately show "x < byte_of b c" using char_at_next [OF assms(1), of x] assms(2) by simp
next
  assume *: "x < byte_of b c"
  show "char_at b x < c"
  proof (rule ccontr)
    assume "\<not> char_at b x < c"
    then have "byte_of b c \<le> byte_of b (char_at b x)"
      using byte_of_mono [OF assms(1), of c "char_at b x"] char_at_le [OF assms(1)] by simp
    with char_at_floor [OF assms(1), of x] * show False by simp
  qed
qed

lemma char_at_byte_of: "inv b \<Longrightarrow> c \<le> len b \<Longrightarrow> char_at b (byte_of b c) = c"
  using char_at_less_iff [of b c "byte_of b c"] char_at_less_iff [of b "Suc c" "byte_of b c"]
    byte_of_strict [of b c "Suc c"] char_at_le [of b "byte_of b c"]
  by (cases "c < len b") auto

lemma char_at_mono: "inv b \<Longrightarrow> x \<le> y \<Longrightarrow> char_at b x \<le> char_at b y"
  using char_at_less_iff [of b "char_at b x" y] char_at_floor [of b x] char_at_le [of b x]
  by (meson le_trans not_le)

lemma char_at_between:
  "inv b \<Longrightarrow> s \<le> e \<Longrightarrow> e \<le> len b \<Longrightarrow> byte_of b s \<le> x \<Longrightarrow> x < byte_of b e \<Longrightarrow>
   s \<le> char_at b x \<and> char_at b x < e"
  using char_at_less_iff [of b s x] char_at_less_iff [of b e x] by (meson le_trans not_le)

end

section \<open>Indices of chunks\<close>

lemma offsets_from_props:
  "hd (offsets_from k cs) = k \<and> last (offsets_from k cs) = k + length (concat cs) \<and>
   offsets_from k cs \<noteq> []"
  by (induction cs arbitrary: k) simp_all

lemma offsets_from_lower: "x \<in> set (offsets_from k cs) \<Longrightarrow> k \<le> x"
  by (induction cs arbitrary: k) fastforce+

lemma offsets_from_sorted: "[] \<notin> set cs \<Longrightarrow> sorted_wrt (<) (offsets_from k cs)"
proof (induction cs arbitrary: k)
  case (Cons c cs)
  then have "0 < length c" by auto
  then have "k < x" if "x \<in> set (offsets_from (k + length c) cs)" for x
    using offsets_from_lower [OF that] by linarith
  then show ?case using Cons by simp
qed simp

lemma utf8_tail1_cont:
  assumes "utf8_tail1 k bs = Utf8Char n"
  obtains c r where "bs = c # r" "128 \<le> ord c" "n = Suc k"
  using assms by (auto simp: utf8_tail1_def is_cont_def split: list.splits if_split_asm)

lemma second_wide: "second_of_three a b \<or> second_of_four a b \<Longrightarrow> 128 \<le> ord b"
  by (auto simp: second_of_three_def second_of_four_def is_cont_def split: if_split_asm)

lemma utf8_wide_char:
  assumes "utf8_first (a # r) = Utf8Char n" and "utf8_width a \<noteq> 1"
  shows "list_all (\<lambda>b. 128 \<le> ord b) (take n (a # r))"
proof -
  have a: "128 \<le> ord a" using assms(2) by (auto simp: utf8_width_def split: if_split_asm)
  consider "utf8_width a = 2" "utf8_tail1 1 r = Utf8Char n"
    | b s where "utf8_width a = 3" "r = b # s" "second_of_three a b" "utf8_tail1 2 s = Utf8Char n"
    | b c s where "utf8_width a = 4" "r = b # c # s" "second_of_four a b" "is_cont c"
        "utf8_tail1 3 s = Utf8Char n"
    using assms by (auto simp: utf8_first.simps(2) split: if_split_asm list.splits)
  then show ?thesis
  proof cases
    case 1
    then show ?thesis using a by (elim utf8_tail1_cont) simp
  next
    case 2
    then show ?thesis using a second_wide [of a b]
      by (elim utf8_tail1_cont) (simp add: numeral_2_eq_2)
  next
    case 3
    then show ?thesis using a second_wide [of a b]
      by (elim utf8_tail1_cont) (simp add: numeral_3_eq_3 is_cont_def)
  qed
qed

lemma ascii_char_width:
  assumes "utf8_first bs = Utf8Char n" and "i < n" and "ord (bs ! i) < 128"
  shows "n = 1"
proof (cases bs)
  case (Cons a r)
  show ?thesis
  proof (cases "utf8_width a = 1")
    case True
    with assms(1) Cons show ?thesis by (simp add: utf8_first.simps(2))
  next
    case False
    with utf8_wide_char assms(1) Cons have "list_all (\<lambda>b. 128 \<le> ord b) (take n bs)" by blast
    moreover have "i < length (take n bs)"
      using assms(2) utf8_first_Char_bounds [OF assms(1)] by simp
    ultimately have "128 \<le> ord (take n bs ! i)" by (simp add: list_all_length)
    with assms(2,3) show ?thesis by simp
  qed
qed (use assms in simp)

lemma valid_ascii_boundary:
  assumes "valid_utf8 bs" and "i < length bs" and "ord (bs ! i) < 128"
  shows "k + Suc i \<in> set (offsets_from k (chars bs))"
  using assms
proof (induction bs arbitrary: i k rule: chars.induct)
  case (1 bs)
  then have ne: "bs \<noteq> []" by auto
  with "1.prems"(1) obtain n where n: "utf8_first bs = Utf8Char n"
    by (auto simp: valid_utf8_def from_utf8.simps [of bs] split: utf8_step.splits)
  note nb = utf8_first_Char_bounds [OF n]
  have cs: "chars bs = take n bs # chars (drop n bs)" using ne n by (subst chars.simps) simp
  show ?case
  proof (cases "i < n")
    case True
    with ascii_char_width [OF n True "1.prems"(3)] have "n = 1" "i = 0" by auto
    moreover have "k + 1 \<in> set (offsets_from (k + 1) (chars (drop 1 bs)))"
      using offsets_from_props [of "k + 1" "chars (drop 1 bs)"] hd_in_set by metis
    ultimately show ?thesis using nb cs by simp
  next
    case False
    have "k + n + Suc (i - n) \<in> set (offsets_from (k + n) (chars (drop n bs)))"
      using "1.IH"(1) [OF ne n, of "i - n" "k + n"] False "1.prems" valid_utf8_Char [OF n] by simp
    with False nb cs show ?thesis by (simp add: min_absorb2)
  qed
qed

lemma wf_build_char_index: "wf_index (length bs) (build_char_index bs)"
proof (cases "valid_utf8 bs")
  case True
  have "[] \<notin> set (chars bs)" using chars_ne by blast
  then show ?thesis
    using True offsets_from_props [of 0 "chars bs"] offsets_from_sorted [of "chars bs" 0]
    by (simp add: wf_index_def build_char_index_def)
next
  case False
  have "sorted_wrt (<) [0..<Suc (length bs)]" by (rule sorted_wrt_upt)
  with False show ?thesis by (simp add: wf_index_def build_char_index_def hd_append)
qed

lemma build_char_index_newline:
  assumes "i < length bs" and "bs ! i = CHR 0x0A"
  shows "Suc i \<in> set (build_char_index bs)"
  using valid_ascii_boundary [of bs i 0] assms by (auto simp: build_char_index_def)

lemma wf_extend_char_index:
  assumes "wf_index n index" and "wf_index m chunk" and "n + m \<le> u64_max"
  shows "extend_char_index index chunk n = index @ map ((+) n) (drop 1 chunk)"
    and "wf_index (n + m) (index @ map ((+) n) (drop 1 chunk))"
proof -
  obtain cs where chunk: "chunk = 0 # cs"
    using assms(2) by (cases chunk) (auto simp: wf_index_def)
  have le: "x \<le> m" if "x \<in> set cs" for x
    using that wf_index_nth_le [OF assms(2)] by (metis chunk in_set_conv_nth list.set_intros(2))
  have "sat_add n x = n + x" if "x \<in> set cs" for x
    using le [OF that] assms(3) by (simp add: sat_add_def)
  then show "extend_char_index index chunk n = index @ map ((+) n) (drop 1 chunk)"
    using assms(1) chunk by (simp add: extend_char_index_def wf_index_def)
  have pos: "0 < x" if "x \<in> set cs" for x
    using that assms(2) chunk by (simp add: wf_index_def)
  have "x \<le> n" if "x \<in> set index" for x
    using that wf_index_nth_le [OF assms(1)] by (metis in_set_conv_nth)
  then have "x < n + y" if "x \<in> set index" "y \<in> set cs" for x y
    using that pos [of y] by fastforce
  moreover have "sorted_wrt (<) cs" "last (0 # cs) = m"
    using assms(2) chunk by (simp_all add: wf_index_def)
  moreover from this(2) have "last (index @ map ((+) n) cs) = n + m"
    using assms(1) by (cases cs rule: rev_cases) (simp_all add: wf_index_def)
  ultimately show "wf_index (n + m) (index @ map ((+) n) (drop 1 chunk))"
    using assms(1) unfolding chunk wf_index_def
    by (simp add: sorted_wrt_append sorted_wrt_map)
qed

section \<open>The invariant of the buffer\<close>

definition newlines_indexed :: "bytes \<Rightarrow> nat list \<Rightarrow> bool" where
  "newlines_indexed bs index \<longleftrightarrow> (\<forall>i \<in> set (byte_positions CHR 0x0A bs). Suc i \<in> set index)"

definition line_ends_of :: "bytes \<Rightarrow> nat list \<Rightarrow> nat list" where
  "line_ends_of bs index = map (\<lambda>i. index_char index (Suc i)) (byte_positions CHR 0x0A bs)"

definition wf_text :: "pager_buffer \<Rightarrow> bool" where
  "wf_text b \<longleftrightarrow>
     wf_index (length (buf_bytes b)) (char_to_byte b) \<and>
     newlines_indexed (buf_bytes b) (char_to_byte b) \<and>
     line_ends b = line_ends_of (buf_bytes b) (char_to_byte b) \<and>
     length (source_offsets b) = length (char_to_byte b)"

definition wf_marks :: "pager_buffer \<Rightarrow> bool" where
  "wf_marks b \<longleftrightarrow>
     sorted (map event_offset (buf_events b)) \<and>
     (\<forall>e \<in> set (buf_events b). event_offset e \<le> buf_len b) \<and>
     (\<forall>s \<in> set (buf_spans b). pspan_start s \<le> pspan_end s \<and> pspan_end s \<le> buf_len b)"

definition wf_buffer :: "pager_buffer \<Rightarrow> bool" where
  "wf_buffer b \<longleftrightarrow> wf_text b \<and> wf_marks b \<and> cursor b \<le> buf_len b"

lemmas wf_buffer_defs = wf_buffer_def wf_text_def wf_marks_def

lemma index_byte_nth: "wf_index n index \<Longrightarrow> i < length index \<Longrightarrow> index_byte index i n' = index ! i"
  by (auto simp: index_byte_def list_get_def unwrap_or_def min_def wf_index_def)

interpretation buffer_index: text_index wf_text buf_len "\<lambda>b. length (buf_bytes b)"
  byte_index_for_char_offset char_offset_for_byte_index
proof
  fix b x i j
  assume "wf_text b"
  then have wf: "wf_index (length (buf_bytes b)) (char_to_byte b)" by (simp add: wf_text_def)
  note ends = wf_index_ends [OF wf]
  have nth: "byte_index_for_char_offset b c = char_to_byte b ! c" if "c \<le> buf_len b" for c
    using index_byte_nth [OF wf] ends that
    by (simp add: byte_index_for_char_offset_def buf_len_def char_len_def less_Suc_eq_le [symmetric])
  have at: "index_at (char_to_byte b) x (char_offset_for_byte_index b x)"
    using index_char_at [OF wf] by (simp add: char_offset_for_byte_index_def)
  show le: "char_offset_for_byte_index b x \<le> buf_len b"
    using at by (auto simp: index_at_def buf_len_def char_len_def)
  show "byte_index_for_char_offset b 0 = 0" using nth [of 0] ends by simp
  show "byte_index_for_char_offset b (buf_len b) = length (buf_bytes b)"
    using nth [of "buf_len b"] ends by (simp add: buf_len_def char_len_def)
  show "byte_index_for_char_offset b (char_offset_for_byte_index b x) \<le> x"
    using at nth [OF le] by (simp add: index_at_def)
  show "x < byte_index_for_char_offset b (Suc (char_offset_for_byte_index b x))"
    if "char_offset_for_byte_index b x < buf_len b"
    using at that nth [of "Suc (char_offset_for_byte_index b x)"]
    by (auto simp: index_at_def buf_len_def char_len_def)
  show "byte_index_for_char_offset b i < byte_index_for_char_offset b j" if "i < j" "j \<le> buf_len b"
    using wf_index_nth_less [OF wf, of i j] nth that ends
    by (auto simp: buf_len_def char_len_def)
qed

lemma wf_empty_at: "wf_buffer (empty_at s)"
  by (simp add: wf_buffer_defs wf_index_def empty_at_def newlines_indexed_def line_ends_of_def
      byte_positions_def)

subsection \<open>Appending keeps the invariant\<close>

lemma byte_positions_append:
  "byte_positions c (xs @ ys) = byte_positions c xs @ map ((+) (length xs)) (byte_positions c ys)"
proof -
  have "filter (\<lambda>i. (xs @ ys) ! i = c) [length xs..<length xs + length ys] =
      map ((+) (length xs)) (filter (\<lambda>i. ys ! i = c) [0..<length ys])"
    unfolding add.commute [of "length xs" "length ys"] map_add_upt [symmetric] filter_map
    by (simp add: comp_def nth_append add.commute)
  moreover have "filter (\<lambda>i. (xs @ ys) ! i = c) [0..<length xs] = filter (\<lambda>i. xs ! i = c) [0..<length xs]"
    by (rule filter_cong) (auto simp: nth_append)
  ultimately show ?thesis
    by (simp add: byte_positions_def upt_add_eq_append [of 0])
qed

lemma byte_positions_mem: "i \<in> set (byte_positions c bs) \<longleftrightarrow> i < length bs \<and> bs ! i = c"
  by (auto simp: byte_positions_def)

text \<open>Positions in the old part of an extended index stay, those of the chunk are shifted.\<close>

lemma extended_index_char:
  assumes "wf_index n index" and "wf_index m chunk"
    and "wf_index (n + m) (index @ map ((+) n) (drop 1 chunk))"
  shows "x \<le> n \<Longrightarrow> index_char (index @ map ((+) n) (drop 1 chunk)) x = index_char index x"
    and "index_char (index @ map ((+) n) (drop 1 chunk)) (n + y) =
         char_len index + index_char chunk y"
proof -
  let ?E = "index @ map ((+) n) (drop 1 chunk)"
  note ends = wf_index_ends [OF assms(1)]
  have shift: "?E ! (char_len index + k) = n + chunk ! k" if "k < length chunk" for k
  proof -
    obtain l where l: "length index = Suc l" using ends(3) by (cases "length index") auto
    show ?thesis using that ends wf_index_ends(1) [OF assms(2)] l
      by (cases k) (simp_all add: char_len_def nth_append)
  qed
  have len: "length ?E = char_len index + length chunk"
    using ends(3) wf_index_ends(3) [OF assms(2)] by (cases index; cases chunk) (simp_all add: char_len_def)
  show "index_char ?E (n + y) = char_len index + index_char chunk y"
  proof (rule index_char_eqI [OF assms(3)])
    show "index_at ?E (n + y) (char_len index + index_char chunk y)"
      using index_char_at [OF assms(2), of y] shift [of "index_char chunk y"]
        shift [of "Suc (index_char chunk y)"] len
      by (auto simp: index_at_def)
  qed
  show "index_char ?E x = index_char index x" if "x \<le> n"
  proof (rule index_char_eqI [OF assms(3)])
    let ?k = "index_char index x"
    note at = index_char_at [OF assms(1), of x]
    show "index_at ?E x ?k"
    proof (cases "Suc ?k < length index")
      case True
      with at show ?thesis by (auto simp: index_at_def nth_append)
    next
      case False
      then have k: "?k = char_len index" using at by (auto simp: index_at_def char_len_def)
      have "n < ?E ! Suc ?k" if "Suc ?k < length ?E"
        using shift [of 1] that len wf_index_nth_less [OF assms(2), of 0 1]
          wf_index_ends(1) [OF assms(2)] by (simp add: k)
      then have "Suc ?k < length ?E \<longrightarrow> x < ?E ! Suc ?k" using \<open>x \<le> n\<close> by fastforce
      moreover have "?E ! ?k = index ! ?k" "?k < length ?E"
        using at by (simp_all add: index_at_def nth_append)
      ultimately show ?thesis using at by (metis index_at_def)
    qed
  qed
qed

abbreviation extended :: "nat list \<Rightarrow> nat \<Rightarrow> bytes \<Rightarrow> nat list" where
  "extended index n bs \<equiv> index @ map ((+) n) (drop 1 (build_char_index bs))"

lemma index_char_le: "wf_index n index \<Longrightarrow> index_char index x \<le> char_len index \<and> char_len index \<le> n"
proof -
  assume wf: "wf_index n index"
  then have "index_char index x < length index" using index_char_at by (simp add: index_at_def)
  moreover have "length index - 1 \<le> index ! (length index - 1)"
    using sorted_wrt_less_idx [of index "length index - 1"] wf wf_index_ends(3) [OF wf]
    by (simp add: wf_index_def)
  ultimately show ?thesis using wf_index_ends [OF wf] by (simp add: char_len_def)
qed

lemma line_end_offsets_extended:
  assumes "lib_documented lib" and "wf_index n index" and "n + length bs \<le> u64_max"
  shows "line_end_offsets lib bs (build_char_index bs) (char_len index) =
    map (\<lambda>i. index_char (extended index n bs) (n + Suc i)) (byte_positions CHR 0x0A bs)"
proof -
  note chunk = wf_build_char_index [of bs]
  note ext = wf_extend_char_index(2) [OF assms(2) chunk assms(3)]
  have "sat_add (char_len index) (index_char (build_char_index bs) (sat_add i 1)) =
      index_char (extended index n bs) (n + Suc i)" if "i < length bs" for i
  proof -
    have "sat_add i 1 = Suc i" using that assms(3) by (simp add: sat_add_def)
    moreover have "index_char (extended index n bs) (n + Suc i) =
        char_len index + index_char (build_char_index bs) (Suc i)"
      by (rule extended_index_char(2) [OF assms(2) chunk ext])
    moreover have "index_char (extended index n bs) (n + Suc i) \<le> n + length bs"
      using index_char_le [OF ext, of "n + Suc i"] by simp
    ultimately show ?thesis using assms(3) by (simp add: sat_add_def)
  qed
  then show ?thesis
    using assms(1) by (auto simp: line_end_offsets_def lib_documented_def byte_positions_mem)
qed

lemma newlines_indexed_extended:
  assumes "newlines_indexed xs index"
  shows "newlines_indexed (xs @ bs) (extended index (length xs) bs)"
proof -
  have "Suc (length xs + i) \<in> set (extended index (length xs) bs)"
    if "i \<in> set (byte_positions CHR 0x0A bs)" for i
  proof -
    have "Suc i \<in> set (build_char_index bs)"
      using that build_char_index_newline by (simp add: byte_positions_mem)
    moreover have "build_char_index bs = 0 # drop 1 (build_char_index bs)"
      using wf_index_ends(1,3) [OF wf_build_char_index [of bs]] by (cases "build_char_index bs") auto
    ultimately have "Suc i \<in> set (drop 1 (build_char_index bs))"
      by (metis nat.distinct(1) set_ConsD)
    then show ?thesis by force
  qed
  with assms show ?thesis by (auto simp: newlines_indexed_def byte_positions_append)
qed

lemma wf_append_bytes:
  fixes f :: "nat \<Rightarrow> nat"
  assumes "wf_text b" and "lib_documented lib" and "length (buf_bytes b) + length bs \<le> u64_max"
  defines "b' \<equiv> append_bytes_with_source_offsets lib bs f b"
  shows "wf_text b' \<and> buf_len b \<le> buf_len b'"
proof (cases "bs = []")
  case True
  with assms(1) show ?thesis by (simp add: b'_def append_bytes_with_source_offsets_def)
next
  case False
  let ?n = "length (buf_bytes b)" and ?E = "extended (char_to_byte b) (length (buf_bytes b)) bs"
  have idx: "wf_index ?n (char_to_byte b)" using assms(1) by (simp add: wf_text_def)
  note ext = wf_extend_char_index [OF idx wf_build_char_index assms(3)]
  have b': "buf_bytes b' = buf_bytes b @ bs" "char_to_byte b' = ?E"
    "line_ends b' = line_ends b @
       line_end_offsets lib bs (build_char_index bs) (char_len (char_to_byte b))"
    "source_offsets b' = extend_source_offsets (source_offsets b) (build_char_index bs) f"
    using False by (simp_all add: b'_def append_bytes_with_source_offsets_def Let_def ext(1) buf_len_def)
  have "line_ends_of (buf_bytes b) ?E = line_ends_of (buf_bytes b) (char_to_byte b)"
    using extended_index_char(1) [OF idx wf_build_char_index ext(2)]
    by (auto simp: line_ends_of_def byte_positions_mem Suc_le_eq)
  then have "line_ends b' = line_ends_of (buf_bytes b @ bs) ?E"
    using assms(1) line_end_offsets_extended [OF assms(2) idx assms(3)]
    by (simp add: b' line_ends_of_def wf_text_def byte_positions_append comp_def)
  moreover have "length (source_offsets b') = length ?E"
    using assms(1) idx by (auto simp: b' extend_source_offsets_def wf_text_def wf_index_def)
  moreover have "newlines_indexed (buf_bytes b @ bs) ?E"
    using assms(1) newlines_indexed_extended by (simp add: wf_text_def)
  ultimately show ?thesis
    using ext(2) by (simp add: wf_text_def b' buf_len_def char_len_def)
qed

lemma append_bytes_frame [simp]:
  "buf_bytes (append_bytes_with_source_offsets lib bs f b) = buf_bytes b @ bs"
  "cursor (append_bytes_with_source_offsets lib bs f b) = cursor b"
  "buf_events (append_bytes_with_source_offsets lib bs f b) = buf_events b"
  "buf_spans (append_bytes_with_source_offsets lib bs f b) = buf_spans b"
  by (simp_all add: append_bytes_with_source_offsets_def Let_def)

text \<open>What every step of appending keeps, as long as the text fits the offsets.\<close>

definition keeps :: "pager_buffer \<Rightarrow> pager_buffer \<Rightarrow> bool" where
  "keeps b b' \<longleftrightarrow>
     (\<exists>t. buf_bytes b' = buf_bytes b @ t) \<and> cursor b' = cursor b \<and>
     (wf_text b \<and> wf_marks b \<and> length (buf_bytes b') \<le> u64_max \<longrightarrow>
      wf_text b' \<and> wf_marks b' \<and> buf_len b \<le> buf_len b')"

lemma keeps_refl [simp]: "keeps b b"
  by (simp add: keeps_def)

lemma keeps_trans: "keeps a b \<Longrightarrow> keeps b c \<Longrightarrow> keeps a c"
  unfolding keeps_def by (metis le_trans append.assoc length_append le_add1)

lemma wf_marks_mono:
  assumes "wf_marks b" and "buf_events b' = buf_events b" and "buf_spans b' = buf_spans b"
    and "buf_len b \<le> buf_len b'"
  shows "wf_marks b'"
  using assms by (auto simp: wf_marks_def intro: order_trans)

lemma keeps_append_bytes:
  "lib_documented lib \<Longrightarrow> keeps b (append_bytes_with_source_offsets lib bs f b)"
  using wf_append_bytes [of b lib bs f] wf_marks_mono by (auto simp: keeps_def)

lemma buf_len_update [simp]:
  "buf_len (b\<lparr>buf_spans := x\<rparr>) = buf_len b" "buf_len (b\<lparr>buf_events := y\<rparr>) = buf_len b"
  "buf_len (b\<lparr>source_end := z\<rparr>) = buf_len b" "buf_len (b\<lparr>cursor := c\<rparr>) = buf_len b"
  by (simp_all add: buf_len_def)

lemma wf_text_update [simp]:
  "wf_text (b\<lparr>buf_spans := x\<rparr>) = wf_text b" "wf_text (b\<lparr>buf_events := y\<rparr>) = wf_text b"
  "wf_text (b\<lparr>source_end := z\<rparr>) = wf_text b" "wf_text (b\<lparr>cursor := c\<rparr>) = wf_text b"
  by (simp_all add: wf_text_def)

lemma wf_marks_update [simp]:
  "wf_marks (b\<lparr>source_end := z\<rparr>) = wf_marks b" "wf_marks (b\<lparr>cursor := c\<rparr>) = wf_marks b"
  by (simp_all add: wf_marks_def)

lemma push_span_frame [simp]:
  "buf_bytes (push_span s e k orig b) = buf_bytes b" "cursor (push_span s e k orig b) = cursor b"
  "buf_len (push_span s e k orig b) = buf_len b" "wf_text (push_span s e k orig b) = wf_text b"
  by (simp_all add: push_span_def)

lemma keeps_push_span: "s \<le> e \<Longrightarrow> e \<le> buf_len b \<Longrightarrow> keeps b (push_span s e k orig b)"
  by (auto simp: keeps_def wf_marks_def push_span_def)

lemma keeps_source_end [simp]: "keeps b (b\<lparr>source_end := z\<rparr>)"
  by (simp add: keeps_def)

lemma keeps_append_text:
  assumes "lib_documented lib"
  shows "keeps b (append_text_at_source_offset lib bs off is_stderr orig b)"
proof -
  let ?b = "append_bytes_at_source_offset lib bs off b"
  have "keeps b ?b" using keeps_append_bytes [OF assms] by (simp add: append_bytes_at_source_offset_def)
  moreover have "keeps ?b (push_span (buf_len b) (buf_len ?b) is_stderr orig ?b)"
    if "buf_len b < buf_len ?b"
    using keeps_push_span that by simp
  ultimately show ?thesis
    by (auto simp: append_text_at_source_offset_def Let_def intro: keeps_trans)
qed

lemma index_char_mono:
  assumes "wf_index n index" and "x \<le> y"
  shows "index_char index x \<le> index_char index y"
proof (rule ccontr)
  let ?i = "index_char index x" and ?j = "index_char index y"
  assume "\<not> ?i \<le> ?j"
  then have "index ! Suc ?j \<le> index ! ?i" and "Suc ?j < length index"
    using wf_index_nth_less [OF assms(1), of "Suc ?j" ?i] index_char_at [OF assms(1), of x]
    by (cases "Suc ?j = ?i"; simp add: index_at_def)+
  with index_char_at [OF assms(1), of x] index_char_at [OF assms(1), of y] assms(2) show False
    by (simp add: index_at_def)
qed

lemma sat_add_mono: "a \<le> b \<Longrightarrow> sat_add k a \<le> sat_add k b"
  by (auto simp: sat_add_def)

lemma buf_len_append_bytes:
  "bs \<noteq> [] \<Longrightarrow> buf_len (append_bytes_with_source_offsets lib bs f b) =
   buf_len b + char_len (build_char_index bs)"
  by (cases "char_to_byte b")
    (auto simp: append_bytes_with_source_offsets_def Let_def buf_len_def extend_char_index_def
      char_len_def)

lemma keeps_raw_slice_span:
  assumes "buf_len b = old + char_len (build_char_index bs)"
  shows "keeps b (raw_slice_span start end old (build_char_index bs) span b) \<and>
         buf_len (raw_slice_span start end old (build_char_index bs) span b) = buf_len b"
proof -
  note wf = wf_build_char_index [of bs]
  have "keeps b (push_span (sat_add old (index_char (build_char_index bs) x))
      (sat_add old (index_char (build_char_index bs) y)) k orig b)" if "x < y" for x y k orig
  proof (rule keeps_push_span)
    show "sat_add old (index_char (build_char_index bs) x) \<le>
        sat_add old (index_char (build_char_index bs) y)"
      using that by (simp add: sat_add_mono index_char_mono [OF wf])
    show "sat_add old (index_char (build_char_index bs) y) \<le> buf_len b"
      using sat_add_le(1) [of old "index_char (build_char_index bs) y"] index_char_le [OF wf, of y]
        assms by linarith
  qed
  then show ?thesis by (simp add: raw_slice_span_def Let_def)
qed

lemma keeps_append_raw_slice:
  assumes "lib_documented lib"
  shows "keeps b (append_raw_slice lib bs start end base spans b)"
proof (cases "start < end \<and> end \<le> length bs")
  case False
  then show ?thesis by (auto simp: append_raw_slice_def)
next
  case True
  let ?sl = "slice bs start end"
  let ?b = "append_bytes_with_source_offsets lib ?sl (\<lambda>k. sat_add base (sat_add start k)) b"
  have "?sl \<noteq> []" using True by (auto simp: slice_def)
  then have "buf_len ?b = buf_len b + char_len (build_char_index ?sl)"
    by (rule buf_len_append_bytes)
  then have "keeps ?b (foldl (\<lambda>acc span. raw_slice_span start end (buf_len b)
      (build_char_index ?sl) span acc) ?b spans)"
  proof (induction spans rule: rev_induct)
    case (snoc span spans)
    let ?acc = "foldl (\<lambda>acc span. raw_slice_span start end (buf_len b) (build_char_index ?sl) span acc) ?b spans"
    have "buf_len ?acc = buf_len ?b"
      by (induction spans rule: rev_induct)
        (simp_all add: keeps_raw_slice_span [OF snoc.prems] raw_slice_span_def Let_def)
    with snoc keeps_raw_slice_span [of ?acc "buf_len b" ?sl start "end" span] show ?case
      by (auto intro: keeps_trans)
  qed simp
  with keeps_append_bytes [OF assms, of b ?sl] True show ?thesis
    by (auto simp: append_raw_slice_def Let_def intro: keeps_trans)
qed

lemma keeps_push_event:
  "keeps b (b\<lparr>buf_events := buf_events b @ [\<lparr>event_offset = buf_len b, event_kind = k\<rparr>]\<rparr>)"
  by (auto simp: keeps_def wf_marks_def sorted_append)

lemma keeps_append_event_turn:
  assumes "lib_documented lib"
  shows "keeps b (snd (append_event_turn lib r ev (cur, b)))"
proof -
  let ?rel = "min (event_offset ev - or_start_offset r) (length (or_bytes r))"
  let ?b = "append_raw_slice lib (or_bytes r) cur ?rel (or_start_offset r) (or_text_spans r) b"
  have raw: "keeps b ?b" by (rule keeps_append_raw_slice [OF assms])
  have typed: "keeps ?b (append_text_at_source_offset lib t off e orig ?b)" for t off e orig
    by (rule keeps_append_text [OF assms])
  have "keeps ?b (snd (append_event_turn lib r ev (cur, b)))"
    using typed keeps_push_event [of ?b]
    by (auto simp: append_event_turn_def Let_def append_text_at_source_offset_def
        split: output_event_kind.splits)
  with raw show ?thesis by (rule keeps_trans)
qed

lemma keeps_append_timeline_range:
  assumes "lib_documented lib"
  shows "keeps b (append_timeline_range lib r b)"
proof -
  have fold: "keeps x (snd (foldl (\<lambda>st ev. append_event_turn lib r ev st) (k, x) events))" for k x events
  proof (induction events arbitrary: k x)
    case (Cons ev events)
    obtain k' x' where st: "append_event_turn lib r ev (k, x) = (k', x')" by (cases "append_event_turn lib r ev (k, x)")
    then have "keeps x x'" using keeps_append_event_turn [OF assms, of x r ev k] by simp
    with Cons.IH [of x' k'] st show ?case by (auto intro: keeps_trans)
  qed simp
  define b1 where "b1 = (if or_start_offset r > source_end b then
      (append_text_at_source_offset lib
         (''[pager] output gap detected ('' @ dec (or_start_offset r - source_end b) @
          '' bytes skipped)'' @ nl) (source_end b) True Server b)\<lparr>source_end := or_start_offset r\<rparr>
      else b)"
  have b1: "keeps b b1"
    unfolding b1_def
    by (simp only: keeps_refl keeps_trans [OF keeps_append_text [OF assms] keeps_source_end]
        split: if_split) simp
  define events where "events = sort_key event_offset
    (filter (\<lambda>e. or_start_offset r \<le> event_offset e \<and> event_offset e \<le> or_end_offset r) (or_events r))"
  obtain cur b2 where f: "foldl (\<lambda>st ev. append_event_turn lib r ev st) (0, b1) events = (cur, b2)"
    by fastforce
  have "keeps b1 b2" using fold [of b1 0 events] f by simp
  with b1 have b2: "keeps b b2" by (rule keeps_trans)
  let ?b3 = "append_raw_slice lib (or_bytes r) cur (length (or_bytes r)) (or_start_offset r) (or_text_spans r) b2"
  have "keeps b ?b3" using b2 keeps_append_raw_slice [OF assms] by (rule keeps_trans)
  then have "keeps b (?b3\<lparr>source_end := z\<rparr>)" "keeps b (b1\<lparr>source_end := z\<rparr>)" for z
    using b1 by (auto intro: keeps_trans keeps_source_end)
  then show ?thesis
    unfolding append_timeline_range_def Let_def b1_def [symmetric]
      events_def [symmetric] f by simp
qed

text \<open>
  Appending a range of output keeps a \<^verbatim>\<open>PagerBuffer\<close> well formed: the character index stays
  strictly increasing from byte 0 to the last byte, the line ends stay the offsets behind the
  newlines, events stay sorted inside the buffer; the text so far and the cursor are kept.
\<close>

theorem append_timeline_range_wf:
  assumes "wf_buffer b" and "lib_documented lib"
    and "length (buf_bytes (append_timeline_range lib r b)) \<le> u64_max"
  shows "wf_buffer (append_timeline_range lib r b) \<and>
         cursor (append_timeline_range lib r b) = cursor b \<and>
         (\<exists>t. buf_bytes (append_timeline_range lib r b) = buf_bytes b @ t)"
  using keeps_append_timeline_range [OF assms(2), of b r] assms(1,3)
  by (auto simp: keeps_def wf_buffer_def intro: order_trans)

lemma lib_reference_documented: "lib_documented lib_reference"
  by (simp add: lib_documented_def lib_reference_def)

theorem append_timeline_range_wf_witness:
  "wf_buffer (append_timeline_range lib_reference
     \<lparr>or_start_offset = 5, or_end_offset = 10,
      or_bytes = [CHR ''a'', CHR 0x0A, CHR 0xC3, CHR 0xA9, CHR 0x0A],
      or_events = [\<lparr>event_offset = 7, event_kind = Image ''plot'' ''data'' ''image/png'' True\<rparr>],
      or_text_spans = []\<rparr> (empty_at 3))"
proof -
  let ?r = "\<lparr>or_start_offset = 5, or_end_offset = 10,
      or_bytes = [CHR ''a'', CHR 0x0A, CHR 0xC3, CHR 0xA9, CHR 0x0A],
      or_events = [\<lparr>event_offset = 7, event_kind = Image ''plot'' ''data'' ''image/png'' True\<rparr>],
      or_text_spans = []\<rparr>"
  have "length (buf_bytes (append_timeline_range lib_reference ?r (empty_at 3))) \<le> u64_max"
    by code_simp
  with append_timeline_range_wf [OF wf_empty_at lib_reference_documented] show ?thesis by blast
qed

section \<open>Searching\<close>

lemma find_index_Some:
  "find_index p i k = Some j \<longleftrightarrow> i \<le> j \<and> j < i + k \<and> p j \<and> (\<forall>l. i \<le> l \<and> l < j \<longrightarrow> \<not> p l)"
  by (induction p i k rule: find_index.induct) (auto simp: Suc_le_eq nat_less_le)

lemma find_index_None: "find_index p i k = None \<longleftrightarrow> (\<forall>l. i \<le> l \<and> l < i + k \<longrightarrow> \<not> p l)"
  by (induction p i k rule: find_index.induct) (auto simp: Suc_le_eq nat_less_le)

lemma find_index_cong:
  "(\<And>l. i \<le> l \<Longrightarrow> l < i + k \<Longrightarrow> p l = q l) \<Longrightarrow> find_index p i k = find_index q i k"
  by (induction k arbitrary: i) simp_all

definition fold_case :: "bool \<Rightarrow> char \<Rightarrow> char" where
  "fold_case ci c = (if ci then ascii_lower c else c)"

lemma fold_case_simps [simp]: "fold_case True = ascii_lower" "fold_case False = (\<lambda>c. c)"
  by (auto simp: fold_case_def)

text \<open>The pattern occurs at byte \<open>p\<close>, up to the case of ASCII letters if asked for.\<close>

definition match_at :: "bool \<Rightarrow> bytes \<Rightarrow> bytes \<Rightarrow> nat \<Rightarrow> bool" where
  "match_at ci bs needle p \<longleftrightarrow>
     p + length needle \<le> length bs \<and>
     map (fold_case ci) (slice bs p (p + length needle)) = map (fold_case ci) needle"

definition is_first :: "(nat \<Rightarrow> bool) \<Rightarrow> nat \<Rightarrow> nat option \<Rightarrow> bool" where
  "is_first P lo r \<longleftrightarrow>
     (case r of
        None \<Rightarrow> (\<forall>l. lo \<le> l \<longrightarrow> \<not> P l)
      | Some j \<Rightarrow> lo \<le> j \<and> P j \<and> (\<forall>l. lo \<le> l \<and> l < j \<longrightarrow> \<not> P l))"

lemma is_first_find_index:
  assumes "\<And>l. P l \<Longrightarrow> l < i + k"
  shows "is_first P i (find_index P i k)"
proof (cases "find_index P i k")
  case None
  then have "\<not> P l" if "i \<le> l" for l using assms [of l] that by (auto simp: find_index_None)
  with None show ?thesis by (simp add: is_first_def)
next
  case (Some j)
  then have "i \<le> j \<and> P j \<and> (\<forall>l. i \<le> l \<and> l < j \<longrightarrow> \<not> P l)" by (simp add: find_index_Some)
  with Some show ?thesis by (simp add: is_first_def)
qed

lemma is_first_skip:
  assumes "\<And>l. lo \<le> l \<Longrightarrow> l < mid \<Longrightarrow> \<not> P l" and "is_first P mid r" and "lo \<le> mid"
  shows "is_first P lo r"
proof (cases r)
  case None
  with assms(2) have "\<not> P l" if "mid \<le> l" for l using that by (simp add: is_first_def)
  with assms(1) None show ?thesis by (auto simp: is_first_def) (meson not_le)
next
  case (Some j)
  with assms(2) have "mid \<le> j" "P j" "\<And>l. mid \<le> l \<Longrightarrow> l < j \<Longrightarrow> \<not> P l"
    by (auto simp: is_first_def)
  with assms(1,3) Some show ?thesis by (auto simp: is_first_def) (meson not_le)
qed

lemma match_at_first_byte:
  assumes "match_at ci bs needle l" and "needle \<noteq> []"
  shows "l < length bs \<and> fold_case ci (bs ! l) = fold_case ci (hd needle)"
proof -
  from assms(2) have n: "0 < length needle" by simp
  have l: "l + length needle \<le> length bs" using assms(1) by (simp add: match_at_def)
  from assms have "map (fold_case ci) (slice bs l (l + length needle)) ! 0 = map (fold_case ci) needle ! 0"
    by (simp add: match_at_def)
  moreover have "0 < length (slice bs l (l + length needle))" using l n by (simp add: slice_def)
  moreover from l n have "slice bs l (l + length needle) ! 0 = bs ! l" by (simp add: slice_def)
  moreover from l n have "l < length bs" by linarith
  ultimately show ?thesis using n assms(2) by (simp add: hd_conv_nth)
qed

lemma ord_case:
  "ord (ascii_lower b) = (if 65 \<le> ord b \<and> ord b \<le> 90 then ord b + 32 else ord b)"
  "ord (ascii_upper b) = (if 97 \<le> ord b \<and> ord b \<le> 122 then ord b - 32 else ord b)"
  by (simp_all add: ascii_lower_def ascii_upper_def
      mod_less [OF less_imp_diff_less [OF nat_of_char_less_256]])

lemma ascii_lower_eq:
  assumes "f = ascii_lower a"
    and "alt = (if 97 \<le> ord f \<and> ord f \<le> 122 then ascii_upper f else f)"
  shows "ascii_lower x = f \<longleftrightarrow> x = f \<or> x = alt"
proof -
  have f: "ord f = (if 65 \<le> ord a \<and> ord a \<le> 90 then ord a + 32 else ord a)"
    using assms(1) ord_case(1) by simp
  have alt: "ord alt = (if 97 \<le> ord f \<and> ord f \<le> 122 then ord f - 32 else ord f)"
    using assms(2) ord_case(2) by simp
  have "ord (ascii_lower x) = ord f \<longleftrightarrow> ord x = ord f \<or> ord x = ord alt"
    unfolding alt ord_case using f by (auto split: if_splits)
  then show ?thesis by (simp only: of_char_eq_iff)
qed

text \<open>One turn of the scan: the first candidate is an occurrence, or none before the next one is.\<close>

lemma scan_is_first:
  assumes "lib_documented lib" and "needle \<noteq> []" and "length hay - offset < fuel"
  shows "is_first (match_at True hay needle) offset
           (case_insensitive_scan lib fuel hay needle offset)"
  using assms(3)
proof (induction fuel arbitrary: offset)
  case (Suc fuel)
  let ?f = "ascii_lower (hd needle)"
  let ?alt = "if 97 \<le> ord ?f \<and> ord ?f \<le> 122 then ascii_upper ?f else ?f"
  define cand where "cand = (\<lambda>i. drop offset hay ! i = ?f \<or> drop offset hay ! i = ?alt)"
  define found where "found = (if ?f = ?alt then memchr lib ?f (drop offset hay)
    else memchr2 lib ?f ?alt (drop offset hay))"
  have found: "found = find_index cand 0 (length hay - offset)"
    using assms(1) by (auto simp: found_def cand_def lib_documented_def)
  have byte: "cand (l - offset)" if "match_at True hay needle l" "offset \<le> l" for l
    using match_at_first_byte [OF that(1) assms(2)] that(2)
      ascii_lower_eq [of ?f "hd needle" ?alt "hay ! l"] by (simp add: cand_def)
  have step: "case_insensitive_scan lib (Suc fuel) hay needle offset =
    (if offset + length needle \<le> length hay then
       (case found of None \<Rightarrow> None
        | Some pos \<Rightarrow>
            if offset + pos + length needle > length hay then None
            else if match_at True hay needle (offset + pos) then Some (offset + pos)
            else case_insensitive_scan lib fuel hay needle (offset + pos + 1))
     else None)"
    unfolding case_insensitive_scan.simps Let_def found_def [symmetric]
    by (auto simp: match_at_def split: option.split)
  show ?case
  proof (cases "offset + length needle \<le> length hay")
    case False
    then show ?thesis unfolding step by (auto simp: is_first_def match_at_def)
  next
    case True
    show ?thesis
    proof (cases found)
      case None
      then have "\<not> match_at True hay needle l" if "offset \<le> l" for l
        using byte [of l] that match_at_first_byte [of True hay needle l] assms(2)
        by (auto simp: found find_index_None dest: spec [of _ "l - offset"])
      with None True show ?thesis unfolding step by (simp add: is_first_def)
    next
      case (Some pos)
      then have pos: "pos < length hay - offset" "\<forall>l<pos. \<not> cand l"
        by (auto simp: found find_index_Some)
      have before: "\<not> match_at True hay needle l" if "offset \<le> l" "l < offset + pos" for l
        using byte [of l] pos(2) that by auto
      have rest: "is_first (match_at True hay needle) (offset + pos + 1)
          (case_insensitive_scan lib fuel hay needle (offset + pos + 1))"
        using Suc.IH [of "offset + pos + 1"] Suc.prems pos(1) by linarith
      have "is_first (match_at True hay needle) (offset + pos)
          (if offset + pos + length needle > length hay then None
           else if match_at True hay needle (offset + pos) then Some (offset + pos)
           else case_insensitive_scan lib fuel hay needle (offset + pos + 1))"
        using is_first_skip [OF _ rest, of "offset + pos"]
        by (auto simp: is_first_def match_at_def less_Suc_eq)
      from is_first_skip [OF _ this, of offset] before True Some show ?thesis
        unfolding step by simp
    qed
  qed
qed simp

lemma single_byte_match: "length needle = 1 \<Longrightarrow>
   match_at ci bs needle l \<longleftrightarrow> l < length bs \<and> fold_case ci (bs ! l) = fold_case ci (hd needle)"
  by (cases needle) (auto simp: match_at_def slice_def take_Suc_conv_app_nth simp flip: take_hd_drop)

lemma occurs_at_match:
  assumes "needle \<noteq> []"
  shows "occurs_at hay needle l \<longleftrightarrow> match_at False hay needle l"
proof -
  have "l + length needle \<le> length hay" if "take (length needle) (drop l hay) = needle"
  proof -
    from that have "min (length hay - l) (length needle) = length needle"
      by (metis length_drop length_take)
    moreover from assms have "0 < length needle" by simp
    ultimately show ?thesis by linarith
  qed
  then show ?thesis by (auto simp: occurs_at_def match_at_def slice_def)
qed

text \<open>The two searches of a haystack, whichever library call they use.\<close>

definition haystack_search :: "pager_lib \<Rightarrow> bool \<Rightarrow> bytes \<Rightarrow> bytes \<Rightarrow> nat option" where
  "haystack_search lib ci hay needle =
     (let first = ascii_lower (hd needle);
          alt = (if 97 \<le> ord first \<and> ord first \<le> 122 then ascii_upper first else first)
      in if length needle > length hay then None
         else if ci then
           (if length needle = 1 then
              (if first = alt then memchr lib first hay else memchr2 lib first alt hay)
            else case_insensitive_scan lib (Suc (length hay)) hay needle 0)
         else if length needle = 1 then memchr lib (hd needle) hay
         else memmem_find lib hay needle)"

lemma find_next_haystack:
  assumes "needle \<noteq> []"
  defines "hay b s e \<equiv> slice (buf_bytes b) (byte_index_for_char_offset b s) (byte_index_for_char_offset b e)"
  shows "s < e \<Longrightarrow> e \<le> buf_len b \<Longrightarrow>
    find_next_bytes_with_options lib b s e needle ci =
    map_option (\<lambda>i. char_offset_for_byte_index b (byte_index_for_char_offset b s + i))
      (haystack_search lib ci (hay b s e) needle)"
  using assms by (simp add: find_next_bytes_with_options_def find_next_bytes_def Let_def
      find_next_bytes_ascii_case_insensitive_def haystack_search_def)

lemma haystack_search_first:
  assumes "lib_documented lib" and "needle \<noteq> []"
  shows "is_first (match_at ci hay needle) 0 (haystack_search lib ci hay needle)"
proof -
  have bound: "l < 0 + length hay" if "match_at ci hay needle l" for l
    using match_at_first_byte [OF that assms(2)] by simp
  have idx: "is_first (match_at ci hay needle) 0 (find_index P 0 (length hay))"
    if "\<And>l. l < length hay \<Longrightarrow> P l = match_at ci hay needle l" for P
  proof -
    have "find_index P 0 (length hay) = find_index (match_at ci hay needle) 0 (length hay)"
      using that by (intro find_index_cong) simp
    with is_first_find_index [OF bound] show ?thesis by simp
  qed
  consider "length needle > length hay" | "length needle \<le> length hay" ci "length needle = 1"
    | "length needle \<le> length hay" ci "length needle \<noteq> 1"
    | "length needle \<le> length hay" "\<not> ci" "length needle = 1"
    | "length needle \<le> length hay" "\<not> ci" "length needle \<noteq> 1" by linarith
  then show ?thesis
  proof cases
    case 1
    then show ?thesis by (auto simp: haystack_search_def is_first_def match_at_def)
  next
    case 2
    let ?f = "ascii_lower (hd needle)"
    let ?alt = "if 97 \<le> ord ?f \<and> ord ?f \<le> 122 then ascii_upper ?f else ?f"
    have "haystack_search lib ci hay needle = find_index (\<lambda>i. hay ! i = ?f \<or> hay ! i = ?alt) 0 (length hay)"
      using 2 assms(1) by (auto simp: haystack_search_def Let_def lib_documented_def)
    then show ?thesis
      using idx [of "\<lambda>i. hay ! i = ?f \<or> hay ! i = ?alt"] single_byte_match [of needle ci hay] 2
        ascii_lower_eq [of ?f "hd needle" ?alt] by simp
  next
    case 3
    then show ?thesis
      using scan_is_first [OF assms, of hay 0 "Suc (length hay)"] by (simp add: haystack_search_def)
  next
    case 4
    then have "haystack_search lib ci hay needle = find_index (\<lambda>i. hay ! i = hd needle) 0 (length hay)"
      using assms(1) by (auto simp: haystack_search_def Let_def lib_documented_def)
    with 4 show ?thesis
      using idx [of "\<lambda>i. hay ! i = hd needle"] single_byte_match [of needle ci hay] by simp
  next
    case 5
    have "occurs_at hay needle l = match_at ci hay needle l" for l
      using occurs_at_match [OF assms(2)] 5 by simp
    with 5 idx [of "occurs_at hay needle"] assms show ?thesis
      by (simp add: haystack_search_def lib_documented_def)
  qed
qed

lemma match_at_slice:
  assumes "e \<le> length bs" and "s \<le> e"
  shows "match_at ci (slice bs s e) needle l \<longleftrightarrow>
         s + l + length needle \<le> e \<and> match_at ci bs needle (s + l)"
proof -
  have "length (slice bs s e) = e - s" using assms by (simp add: slice_def)
  then show ?thesis
    using assms slice_slice [of "l + length needle" e s bs l]
    by (auto simp: match_at_def add.assoc)
qed

text \<open>What a search between two character offsets is meant to return.\<close>

definition leftmost_between ::
  "pager_buffer \<Rightarrow> bool \<Rightarrow> bytes \<Rightarrow> nat \<Rightarrow> nat \<Rightarrow> nat option \<Rightarrow> bool" where
  "leftmost_between b ci needle s e r \<longleftrightarrow>
     (case r of
        None \<Rightarrow> (\<forall>p. byte_index_for_char_offset b s \<le> p \<and>
                     p + length needle \<le> byte_index_for_char_offset b e \<longrightarrow>
                     \<not> match_at ci (buf_bytes b) needle p)
      | Some c \<Rightarrow> s \<le> c \<and> c < e \<and>
          (\<exists>p. c = char_offset_for_byte_index b p \<and> byte_index_for_char_offset b s \<le> p \<and>
               p + length needle \<le> byte_index_for_char_offset b e \<and>
               match_at ci (buf_bytes b) needle p \<and>
               (\<forall>q. byte_index_for_char_offset b s \<le> q \<and> q < p \<longrightarrow>
                    \<not> match_at ci (buf_bytes b) needle q)))"

lemma find_next_leftmost:
  assumes "wf_text b" and "lib_documented lib" and "needle \<noteq> []" and "s < e" and "e \<le> buf_len b"
  shows "leftmost_between b ci needle s e (find_next_bytes_with_options lib b s e needle ci)"
proof -
  let ?S = "byte_index_for_char_offset b s" and ?E = "byte_index_for_char_offset b e"
  define r where "r = haystack_search lib ci (slice (buf_bytes b) ?S ?E) needle"
  have SE: "?S \<le> ?E" "?E \<le> length (buf_bytes b)"
    using buffer_index.byte_of_mono [OF assms(1), of s e] assms(4,5)
      buffer_index.byte_of_le_size [OF assms(1,5)] by simp_all
  have eq: "find_next_bytes_with_options lib b s e needle ci =
      map_option (\<lambda>i. char_offset_for_byte_index b (?S + i)) r"
    unfolding r_def by (rule find_next_haystack [OF assms(3-5)])
  have first: "is_first (match_at ci (slice (buf_bytes b) ?S ?E) needle) 0 r"
    unfolding r_def by (rule haystack_search_first [OF assms(2,3)])
  note at = match_at_slice [OF SE(2,1), of ci needle]
  show ?thesis
  proof (cases r)
    case None
    have "\<not> match_at ci (buf_bytes b) needle p" if "?S \<le> p" "p + length needle \<le> ?E" for p
      using first at [of "p - ?S"] None that by (simp add: is_first_def)
    with eq None show ?thesis by (simp add: leftmost_between_def)
  next
    case (Some i)
    then have i: "?S + i + length needle \<le> ?E" "match_at ci (buf_bytes b) needle (?S + i)"
      using first at [of i] by (simp_all add: is_first_def)
    have "\<not> match_at ci (buf_bytes b) needle q" if "?S \<le> q" "q < ?S + i" for q
      using first at [of "q - ?S"] Some that i(1) by (simp add: is_first_def)
    moreover have "?S + i < ?E" using i(1) assms(3) by (cases needle) simp_all
    ultimately show ?thesis
      using eq Some i buffer_index.char_at_between [OF assms(1), of s e "?S + i"] assms(4,5)
      by (auto simp: leftmost_between_def intro!: exI [of _ "?S + i"])
  qed
qed

text \<open>
  C26. Searching the buffer finds the leftmost occurrence: between two character offsets the search
  returns the character that contains the first byte of the first occurrence inside that range,
  and nothing exactly if there is none; also the case-insensitive scan, which only tries the
  places where the first letter fits.
\<close>

theorem search_finds_leftmost:
  assumes "wf_text b" and "lib_documented lib" and "needle \<noteq> []" and "s < e" and "e \<le> buf_len b"
  shows "case find_next_bytes_with_options lib b s e needle ci of
           None \<Rightarrow> (\<forall>p. byte_index_for_char_offset b s \<le> p \<and>
                        p + length needle \<le> byte_index_for_char_offset b e \<longrightarrow>
                        \<not> match_at ci (buf_bytes b) needle p)
         | Some c \<Rightarrow> s \<le> c \<and> c < e \<and>
             (\<exists>p. c = char_offset_for_byte_index b p \<and> byte_index_for_char_offset b s \<le> p \<and>
                  p + length needle \<le> byte_index_for_char_offset b e \<and>
                  match_at ci (buf_bytes b) needle p \<and>
                  (\<forall>q. byte_index_for_char_offset b s \<le> q \<and> q < p \<longrightarrow>
                       \<not> match_at ci (buf_bytes b) needle q))"
  by (rule find_next_leftmost [OF assms, unfolded leftmost_between_def])

definition example_text :: pager_buffer where
  "example_text = append_bytes_with_source_offsets lib_reference
     [CHR 0xC3, CHR 0xA9, CHR '' '', CHR ''E'', CHR ''r'', CHR ''r'', CHR 0x0A] (\<lambda>k. k) (empty_at 0)"

theorem search_finds_leftmost_witness:
  "\<exists>p. char_offset_for_byte_index example_text p = 2 \<and>
       match_at True (buf_bytes example_text) ''err'' p"
proof -
  have "wf_text example_text" by code_simp
  moreover have "(2::nat) < 6" "6 \<le> buf_len example_text" by code_simp+
  moreover have "find_next_bytes_with_options lib_reference example_text 1 6 ''err'' True = Some 2"
    by code_simp
  ultimately show ?thesis
    using search_finds_leftmost [of example_text lib_reference "''err''" 1 6 True]
      lib_reference_documented by auto
qed

end
