(* ===== verification/Search_Sessions.thy ===== *)
theory Search_Sessions
  imports Pager_Search Buffer_Invariant
begin

text \<open>
  What the search of the pager finds. The lines of a well-formed buffer partition its characters; a
  full search session has exactly one hit for every line in which a match starts, in order; and
  the fuel of the search loops is enough. The snippet window around a match and the heading stack
  are treated at the end.
\<close>

section \<open>Lines partition the buffer\<close>

lemma sorted_byte_positions: "sorted_wrt (<) (byte_positions c bs)"
  unfolding byte_positions_def by (intro sorted_wrt_filter sorted_wrt_upt)

lemma index_char_newline:
  assumes "wf_index n index" and "Suc i \<in> set index"
  shows "0 < index_char index (Suc i)" and "index ! index_char index (Suc i) = Suc i"
proof -
  from assms(2) obtain k where k: "k < length index" "index ! k = Suc i"
    by (auto simp: in_set_conv_nth)
  have "index_at index (Suc i) k"
    using k wf_index_nth_less [OF assms(1), of k "Suc k"] by (auto simp: index_at_def)
  then have eq: "index_char index (Suc i) = k" by (rule index_char_eqI [OF assms(1)])
  with k show "index ! index_char index (Suc i) = Suc i" by simp
  show "0 < index_char index (Suc i)"
    using eq k wf_index_ends(1) [OF assms(1)] by (cases k) auto
qed

lemma wf_line_ends:
  assumes "wf_text b"
  shows "sorted_wrt (<) (line_ends b)" and "x \<in> set (line_ends b) \<Longrightarrow> 0 < x \<and> x \<le> buf_len b"
proof -
  let ?ps = "byte_positions CHR 0x0A (buf_bytes b)" and ?ix = "char_to_byte b"
  have wf: "wf_index (length (buf_bytes b)) ?ix" using assms by (simp add: wf_text_def)
  have le: "line_ends b = map (\<lambda>i. index_char ?ix (Suc i)) ?ps"
    using assms by (simp add: wf_text_def line_ends_of_def)
  have mem: "Suc i \<in> set ?ix" if "i \<in> set ?ps" for i
    using assms that by (simp add: wf_text_def newlines_indexed_def)
  have less: "index_char ?ix (Suc i) < index_char ?ix (Suc j)" if "i \<in> set ?ps" "j \<in> set ?ps" "i < j" for i j
    using index_char_mono [OF wf, of "Suc i" "Suc j"] index_char_newline(2) [OF wf mem [OF that(1)]]
      index_char_newline(2) [OF wf mem [OF that(2)]] that(3)
    by (metis Suc_less_eq le_neq_implies_less less_imp_le nat_neq_iff)
  show "sorted_wrt (<) (line_ends b)"
    unfolding le sorted_wrt_map
    by (rule sorted_wrt_mono_rel [OF less sorted_byte_positions])
  show "0 < x \<and> x \<le> buf_len b" if "x \<in> set (line_ends b)"
    using that index_char_newline(1) [OF wf mem] index_char_le [OF wf]
    by (auto simp: le buf_len_def)
qed

lemma wf_buf_len_bytes: "wf_text b \<Longrightarrow> buf_len b = 0 \<longleftrightarrow> buf_bytes b = []"
  using buffer_index.byte_of_len [of b] buffer_index.byte_of_zero [of b]
    buffer_index.byte_of_strict [of b 0 "buf_len b"] by fastforce

text \<open>Line \<open>k\<close> holds the offsets between its bounds.\<close>

definition in_line :: "pager_buffer \<Rightarrow> nat \<Rightarrow> nat \<Rightarrow> bool" where
  "in_line b k c \<longleftrightarrow> fst (line_bounds_for_index b k) \<le> c \<and> c < snd (line_bounds_for_index b k)"

lemma line_bounds_nth:
  "k < length (line_ends b) \<Longrightarrow> snd (line_bounds_for_index b k) = line_ends b ! k"
  "length (line_ends b) \<le> k \<Longrightarrow> snd (line_bounds_for_index b k) = buf_len b"
  "0 < k \<Longrightarrow> k \<le> length (line_ends b) \<Longrightarrow> fst (line_bounds_for_index b k) = line_ends b ! (k - 1)"
  "fst (line_bounds_for_index b 0) = 0"
  by (auto simp: line_bounds_for_index_def list_get_def unwrap_or_def)

lemma line_index_in_line:
  assumes "wf_text b" and "c < buf_len b"
  defines "k \<equiv> line_index_for_offset b c"
  shows "in_line b k c" and "k < line_count b" and "snd (line_bounds_for_index b k) \<le> buf_len b"
proof -
  note ends = wf_line_ends [OF assms(1)]
  have k: "k = length (takeWhile (\<lambda>e. e \<le> c) (line_ends b))"
    using assms(2) by (simp add: k_def line_index_for_offset_def partition_point_def min_def)
  have kl: "k \<le> length (line_ends b)" by (simp add: k length_takeWhile_le)
  have below: "line_ends b ! j \<le> c" if "j < k" for j
    using that takeWhile_nth [of j "\<lambda>e. e \<le> c" "line_ends b"]
      nth_mem [of j "takeWhile (\<lambda>e. e \<le> c) (line_ends b)"] by (auto simp: k dest: set_takeWhileD)
  have above: "c < line_ends b ! k" if "k < length (line_ends b)"
    using that nth_length_takeWhile [of "\<lambda>e. e \<le> c" "line_ends b"] by (simp add: k)
  have "fst (line_bounds_for_index b k) \<le> c"
    using below [of "k - 1"] kl line_bounds_nth(3,4) by (cases "k = 0") auto
  moreover have snd: "c < snd (line_bounds_for_index b k)"
    using above assms(2) kl line_bounds_nth(1,2) by (cases "k < length (line_ends b)") auto
  ultimately show "in_line b k c" by (simp add: in_line_def)
  show "snd (line_bounds_for_index b k) \<le> buf_len b"
    using ends(2) line_bounds_nth(1,2) by (cases "k < length (line_ends b)") auto
  have "buf_bytes b \<noteq> []" using wf_buf_len_bytes [OF assms(1)] assms(2) by auto
  moreover have "last (line_ends b) < buf_len b" if "k = length (line_ends b)" "line_ends b \<noteq> []"
    using below [of "k - 1"] that assms(2) by (simp add: last_conv_nth)
  ultimately show "k < line_count b" using kl assms(2)
    by (cases "k = length (line_ends b)") (auto simp: line_count_def Let_def)
qed

text \<open>Bounds of a later line lie behind those of an earlier one, so the line of an offset is unique.\<close>

lemma line_bounds_order:
  assumes "wf_text b" and "j < k" and "k \<le> length (line_ends b)"
  shows "snd (line_bounds_for_index b j) \<le> fst (line_bounds_for_index b k)"
proof -
  have "line_ends b ! j \<le> line_ends b ! (k - 1)"
    using wf_line_ends(1) [OF assms(1)] assms(2,3)
    by (cases "j = k - 1") (auto simp: sorted_wrt_iff_nth_less intro: less_imp_le)
  with assms show ?thesis using line_bounds_nth(1) [of j b] line_bounds_nth(3) [of k b] by simp
qed

lemma line_index_le: "line_index_for_offset b c \<le> length (line_ends b)"
  by (simp add: line_index_for_offset_def partition_point_le)

lemma line_index_unique:
  assumes "wf_text b" and "in_line b k c" and "k \<le> length (line_ends b)" and "c < buf_len b"
  shows "line_index_for_offset b c = k"
proof (rule ccontr)
  let ?l = "line_index_for_offset b c"
  note l = line_index_in_line(1) [OF assms(1,4)]
  assume "?l \<noteq> k"
  then consider "?l < k" | "k < ?l" by linarith
  then show False
  proof cases
    case 1
    with line_bounds_order [OF assms(1) 1 assms(3)] l assms(2) show False by (simp add: in_line_def)
  next
    case 2
    with line_bounds_order [OF assms(1) 2 line_index_le] l assms(2) show False by (simp add: in_line_def)
  qed
qed

lemma line_index_mono:
  assumes "wf_text b" and "c \<le> d" and "d < buf_len b"
  shows "line_index_for_offset b c \<le> line_index_for_offset b d"
proof (rule ccontr)
  assume "\<not> ?thesis"
  then have "snd (line_bounds_for_index b (line_index_for_offset b d)) \<le>
      fst (line_bounds_for_index b (line_index_for_offset b c))"
    using line_bounds_order [OF assms(1) _ line_index_le] by simp
  with line_index_in_line(1) [OF assms(1), of c] line_index_in_line(1) [OF assms(1,3)] assms(2,3)
  show False by (simp add: in_line_def)
qed

section \<open>The matches of a pattern\<close>

text \<open>The characters at which an occurrence of the pattern starts.\<close>

definition match_char :: "pager_buffer \<Rightarrow> search_pattern \<Rightarrow> nat \<Rightarrow> bool" where
  "match_char b pat c \<longleftrightarrow>
     (\<exists>p. match_at (case_insensitive_ascii pat) (buf_bytes b) (pattern pat) p \<and>
          c = char_offset_for_byte_index b p)"

lemma match_char_less:
  assumes "wf_text b" and "pattern pat \<noteq> []" and "match_char b pat c"
  shows "c < buf_len b"
proof -
  obtain p where p: "match_at (case_insensitive_ascii pat) (buf_bytes b) (pattern pat) p"
      "c = char_offset_for_byte_index b p"
    using assms(3) by (auto simp: match_char_def)
  from match_at_first_byte [OF p(1) assms(2)] show ?thesis
    using buffer_index.char_at_less_iff [OF assms(1), of "buf_len b" p]
      buffer_index.byte_of_len [OF assms(1)] p(2) by simp
qed

text \<open>The search of the buffer from offset \<open>s\<close> on returns the first of them.\<close>

lemma find_pattern_first:
  assumes "wf_text b" and "lib_documented lib" and "pattern pat \<noteq> []"
  shows "is_first (match_char b pat) s (find_pattern lib b pat s (buf_len b))"
proof (cases "s < buf_len b")
  case False
  then have "find_pattern lib b pat s (buf_len b) = None"
    by (simp add: find_pattern_def find_next_bytes_with_options_def find_next_bytes_def
        find_next_bytes_ascii_case_insensitive_def Let_def)
  with False match_char_less [OF assms(1,3)] show ?thesis by (fastforce simp: is_first_def)
next
  case True
  let ?S = "byte_index_for_char_offset b s" and ?ci = "case_insensitive_ascii pat"
  let ?at = "match_at ?ci (buf_bytes b) (pattern pat)"
  note leftmost = find_next_leftmost [OF assms True order_refl, of ?ci,
        folded find_pattern_def, unfolded leftmost_between_def]
  have size: "p + length (pattern pat) \<le> byte_index_for_char_offset b (buf_len b)" if "?at p" for p
    using that buffer_index.byte_of_len [OF assms(1)] by (simp add: match_at_def)
  have ge: "?S \<le> p \<longleftrightarrow> s \<le> char_offset_for_byte_index b p" for p
    using buffer_index.char_at_less_iff [OF assms(1), of s p] True by (simp add: linorder_not_less [symmetric])
  show ?thesis
  proof (cases "find_pattern lib b pat s (buf_len b)")
    case None
    with leftmost size ge have "\<not> match_char b pat c" if "s \<le> c" for c
      using that by (auto simp: match_char_def)
    with None show ?thesis by (simp add: is_first_def)
  next
    case (Some c)
    then obtain p where p: "c = char_offset_for_byte_index b p" "?at p"
        "\<And>q. ?S \<le> q \<Longrightarrow> q < p \<Longrightarrow> \<not> ?at q" and c: "s \<le> c"
      using leftmost by auto
    have "\<not> match_char b pat d" if "s \<le> d" "d < c" for d
    proof
      assume "match_char b pat d"
      then obtain q where q: "?at q" "d = char_offset_for_byte_index b q" by (auto simp: match_char_def)
      have "q < p"
        using buffer_index.char_at_mono [OF assms(1), of p q] that(2) p(1) q(2) by (meson not_le)
      with p(3) [of q] q ge that(1) show False by simp
    qed
    with p c Some show ?thesis by (auto simp: is_first_def match_char_def)
  qed
qed

lemma find_pattern_range:
  assumes "wf_text b" and "lib_documented lib" and "pattern pat \<noteq> []" and "s < e" and "e \<le> buf_len b"
    and "find_pattern lib b pat s e = Some c"
  shows "match_char b pat c \<and> s \<le> c \<and> c < e"
  using find_next_leftmost [OF assms(1-5), of "case_insensitive_ascii pat", folded find_pattern_def]
    assms(6) by (auto simp: match_char_def leftmost_between_def)

section \<open>The hits of a session\<close>

definition hit_of :: "pager_buffer \<Rightarrow> search_pattern \<Rightarrow> search_hit \<Rightarrow> bool" where
  "hit_of b pat h \<longleftrightarrow>
     match_char b pat (sh_match_start h) \<and>
     sh_line_idx h = line_index_for_offset b (sh_match_start h) \<and>
     (sh_line_start h, sh_line_end h) = line_bounds_for_index b (sh_line_idx h)"

text \<open>The lines in which a match starts at or behind \<open>s\<close>.\<close>

definition match_lines :: "pager_buffer \<Rightarrow> search_pattern \<Rightarrow> nat \<Rightarrow> nat set" where
  "match_lines b pat s = line_index_for_offset b ` {c. match_char b pat c \<and> s \<le> c}"

lemma hit_of_bounds:
  assumes "wf_text b" and "pattern pat \<noteq> []" and "hit_of b pat h"
  shows "sh_line_start h \<le> sh_match_start h \<and> sh_match_start h < sh_line_end h \<and>
         sh_line_end h \<le> buf_len b \<and> sh_line_idx h < line_count b"
  using line_index_in_line [OF assms(1) match_char_less [OF assms(1,2)]] assms(3)
  by (auto simp: hit_of_def in_line_def prod_eq_iff)

lemma build_search_hit_ok:
  assumes "wf_text b" and "pattern pat \<noteq> []" and "match_char b pat c"
  obtains h hs where "build_search_hit lib b hstate c (line_count b) = Some (h, hs)"
    "hit_of b pat h" "sh_match_start h = c"
proof -
  have "line_index_for_offset b c < line_count b"
    using line_index_in_line(2) [OF assms(1) match_char_less [OF assms]] .
  moreover obtain ls le where "line_bounds_for_index b (line_index_for_offset b c) = (ls, le)"
    by fastforce
  ultimately show ?thesis
    using assms(3) that by (simp add: build_search_hit_def Let_def hit_of_def)
qed

text \<open>Behind the line of the first match, exactly that line is gone from the lines to come.\<close>

lemma match_lines_step:
  assumes "wf_text b" and "pattern pat \<noteq> []" and "is_first (match_char b pat) s (Some c)"
  defines "k \<equiv> line_index_for_offset b c"
  defines "e \<equiv> snd (line_bounds_for_index b k)"
  shows "match_lines b pat s = insert k (match_lines b pat e)"
    and "\<And>j. j \<in> match_lines b pat e \<Longrightarrow> k < j" and "s < e" and "e \<le> buf_len b"
proof -
  have c: "s \<le> c" "match_char b pat c" "\<And>d. s \<le> d \<Longrightarrow> d < c \<Longrightarrow> \<not> match_char b pat d"
    using assms(3) by (auto simp: is_first_def)
  note line = line_index_in_line [OF assms(1) match_char_less [OF assms(1,2) c(2)], folded k_def, folded e_def]
  have ce: "c < e" using line(1) by (simp add: in_line_def e_def)
  with c(1) show "s < e" by simp
  show "e \<le> buf_len b" by (rule line(3))
  have later: "k < line_index_for_offset b d" if "match_char b pat d" "e \<le> d" for d
  proof -
    have "in_line b (line_index_for_offset b d) d"
      by (rule line_index_in_line(1) [OF assms(1) match_char_less [OF assms(1,2) that(1)]])
    moreover have "k \<le> line_index_for_offset b d"
      unfolding k_def by (rule line_index_mono [OF assms(1)])
        (use that(2) ce match_char_less [OF assms(1,2) that(1)] in simp_all)
    ultimately show ?thesis using that(2) by (cases "k = line_index_for_offset b d") (auto simp: in_line_def e_def)
  qed
  then show "\<And>j. j \<in> match_lines b pat e \<Longrightarrow> k < j" by (auto simp: match_lines_def)
  have same: "line_index_for_offset b d = k" if "match_char b pat d" "s \<le> d" "d < e" for d
  proof (rule line_index_unique [OF assms(1)])
    have "c \<le> d" using c(3) [OF that(2)] that(1) by (meson not_le)
    then show "in_line b k d" using line(1) that(3) by (simp add: in_line_def e_def)
    show "k \<le> length (line_ends b)" by (simp add: k_def line_index_le)
    show "d < buf_len b" by (rule match_char_less [OF assms(1,2) that(1)])
  qed
  show "match_lines b pat s = insert k (match_lines b pat e)"
  proof (intro set_eqI iffI)
    fix j assume "j \<in> match_lines b pat s"
    then obtain d where d: "match_char b pat d" "s \<le> d" "j = line_index_for_offset b d"
      by (auto simp: match_lines_def)
    then show "j \<in> insert k (match_lines b pat e)"
      using same [of d] by (cases "d < e") (auto simp: match_lines_def)
  next
    fix j assume "j \<in> insert k (match_lines b pat e)"
    then show "j \<in> match_lines b pat s"
      using c \<open>s < e\<close> by (auto simp: match_lines_def k_def)
  qed
qed

text \<open>The match a full session reports for a line lies in that line.\<close>

lemma full_session_match_ok:
  fixes start :: nat
  assumes "wf_text b" and "lib_documented lib" and "pattern pat \<noteq> []" and "match_char b pat c"
  defines "k \<equiv> line_index_for_offset b c"
  defines "m \<equiv> full_session_match_offset_for_line lib b pat start c (snd (line_bounds_for_index b k))"
  shows "match_char b pat m \<and> line_index_for_offset b m = k"
proof (cases "c \<ge> start \<or> start \<ge> snd (line_bounds_for_index b k)")
  case True
  then show ?thesis using assms(4) by (auto simp: m_def full_session_match_offset_for_line_def k_def)
next
  case False
  let ?e = "snd (line_bounds_for_index b k)"
  note line = line_index_in_line [OF assms(1) match_char_less [OF assms(1,3,4)], folded k_def]
  show ?thesis
  proof (cases "find_pattern lib b pat start ?e")
    case None
    with False assms(4) show ?thesis
      by (simp add: m_def full_session_match_offset_for_line_def unwrap_or_def k_def)
  next
    case (Some d)
    then have d: "match_char b pat d" "start \<le> d" "d < ?e"
      using find_pattern_range [OF assms(1-3) _ line(3) Some] False by (simp_all add: not_le)
    have "line_index_for_offset b d = k"
    proof (rule line_index_unique [OF assms(1)])
      show "in_line b k d" using line(1) d False by (auto simp: in_line_def)
      show "k \<le> length (line_ends b)" by (simp add: k_def line_index_le)
      show "d < buf_len b" using d(3) line(3) by simp
    qed
    with d False Some show ?thesis
      by (simp add: m_def full_session_match_offset_for_line_def unwrap_or_def)
  qed
qed

text \<open>
  The indexing loop: its new hits are hits of the buffer in strictly increasing lines, the lines it
  leaves out lie behind them, and none is left out when the end was reached, which only a limit
  prevents. The fuel is never used up.
\<close>

lemma index_loop_lines:
  assumes "wf_text b" and "lib_documented lib" and "pattern pat \<noteq> []"
    and "buf_len b - s < fuel"
    and "index_loop lib b pat start limit fuel s hstate hits = (s', hstate', hits', flag)"
  shows "\<exists>hs. hits' = hits @ hs \<and> list_all (hit_of b pat) hs \<and>
           sorted_wrt (<) (map sh_line_idx hs) \<and>
           sh_line_idx ` set hs \<subseteq> match_lines b pat s \<and>
           (\<forall>j \<in> match_lines b pat s - sh_line_idx ` set hs. \<forall>h \<in> set hs. sh_line_idx h < j) \<and>
           (flag \<longrightarrow> sh_line_idx ` set hs = match_lines b pat s) \<and>
           (pred_option (\<lambda>l. length hits' < l) limit \<longrightarrow> flag) \<and>
           s' = (if hs = [] then s else sh_line_end (last hs))"
  using assms(4,5)
proof (induction fuel arbitrary: s hstate hits)
  case (Suc fuel)
  note first = find_pattern_first [OF assms(1-3), of s]
  show ?case
  proof (cases "find_pattern lib b pat s (buf_len b)")
    case None
    with first have "match_lines b pat s = {}" by (auto simp: match_lines_def is_first_def)
    with None Suc.prems(2) show ?thesis by auto
  next
    case (Some c)
    let ?k = "line_index_for_offset b c"
    let ?e = "snd (line_bounds_for_index b ?k)"
    let ?m = "full_session_match_offset_for_line lib b pat start c ?e"
    note first = first [unfolded Some]
    have c: "match_char b pat c" using first by (simp add: is_first_def)
    have m: "match_char b pat ?m" "line_index_for_offset b ?m = ?k"
      using full_session_match_ok [OF assms(1-3) c] by simp_all
    obtain h hs1 where h: "build_search_hit lib b hstate ?m (line_count b) = Some (h, hs1)"
      "hit_of b pat h" "sh_match_start h = ?m"
      by (rule build_search_hit_ok [OF assms(1,3) m(1)])
    have h': "sh_line_idx h = ?k" "sh_line_end h = ?e"
      using h(2,3) m(2) by (auto simp: hit_of_def) (metis snd_conv)
    have lm: "ml_line_idx (line_of_match b c) = ?k" "ml_line_end (line_of_match b c) = ?e"
      by (simp_all add: line_of_match_def Let_def split: prod.splits)
    note step = match_lines_step [OF assms(1,3) first]
    have k: "\<not> line_count b \<le> ?k"
      using line_index_in_line(2) [OF assms(1) match_char_less [OF assms(1,3) c]] by simp
    let ?go = "pred_option (\<lambda>l. Suc (length hits) < l) limit"
    have eq: "index_loop lib b pat start limit (Suc fuel) s hstate hits =
        (if ?go \<and> ?e < buf_len b
         then index_loop lib b pat start limit fuel ?e hs1 (hits @ [h])
         else (?e, hs1, hits @ [h], ?go))"
      using Some h(1) k by (simp add: Let_def lm h')
    show ?thesis
    proof (cases "?go \<and> ?e < buf_len b")
      case True
      have "buf_len b - ?e < fuel" using step(3) Suc.prems(1) True by linarith
      moreover have "index_loop lib b pat start limit fuel ?e hs1 (hits @ [h]) = (s', hstate', hits', flag)"
        using eq True Suc.prems(2) by simp
      ultimately obtain hs where hs: "hits' = (hits @ [h]) @ hs" "list_all (hit_of b pat) hs"
        "sorted_wrt (<) (map sh_line_idx hs)" "sh_line_idx ` set hs \<subseteq> match_lines b pat ?e"
        "\<forall>j \<in> match_lines b pat ?e - sh_line_idx ` set hs. \<forall>h \<in> set hs. sh_line_idx h < j"
        "flag \<longrightarrow> sh_line_idx ` set hs = match_lines b pat ?e"
        "pred_option (\<lambda>l. length hits' < l) limit \<longrightarrow> flag" "s' = (if hs = [] then ?e else sh_line_end (last hs))"
        using Suc.IH by blast
      have "sorted_wrt (<) (map sh_line_idx (h # hs))" using hs(3,4) step(2) h' by auto
      with hs step(1,2) h h' show ?thesis by (intro exI [of _ "h # hs"]) auto
    next
      case False
      have empty: "match_lines b pat ?e = {}" if "?go"
        using that False step(4) match_char_less [OF assms(1,3)]
        by (auto simp: match_lines_def) (meson leD le_trans)
      from False eq Suc.prems(2) have "hits' = hits @ [h]" "flag = ?go" "s' = ?e" by auto
      with empty step(1,2) h h' show ?thesis by (intro exI [of _ "[h]"]) auto
    qed
  qed
qed simp

lemma no_match_without_lines:
  assumes "wf_text b" and "pattern pat \<noteq> []" and "buf_len b = 0 \<or> line_count b = 0"
  shows "\<not> match_char b pat c"
  using match_char_less [OF assms(1,2)] line_index_in_line(2) [OF assms(1), of c] assms(3) by fastforce

lemma indexed_session_lines:
  assumes "wf_text b" and "lib_documented lib" and "pattern pat \<noteq> []"
    and "build_indexed_search_session lib b pat start limit = Some ss"
  shows "ss_hits ss \<noteq> []" and "list_all (hit_of b pat) (ss_hits ss)"
    and "sorted_wrt (<) (map sh_line_idx (ss_hits ss))"
    and "ss_complete ss \<Longrightarrow> sh_line_idx ` set (ss_hits ss) = match_lines b pat 0"
    and "pred_option (\<lambda>l. length (ss_hits ss) < l) limit \<Longrightarrow> ss_complete ss"
    and "j \<in> match_lines b pat 0 \<Longrightarrow> j \<notin> sh_line_idx ` set (ss_hits ss) \<Longrightarrow> h \<in> set (ss_hits ss) \<Longrightarrow>
         sh_line_idx h < j"
proof -
  obtain s' hstate' hits' flag where loop:
    "index_loop lib b pat start limit (Suc (buf_len b)) 0 heading_state_new [] = (s', hstate', hits', flag)"
    by (cases "index_loop lib b pat start limit (Suc (buf_len b)) 0 heading_state_new []")
  have ss: "ss_hits ss = hits'" "hits' \<noteq> []" "ss_complete ss = flag"
    using assms(4) loop
    by (auto simp: build_indexed_search_session_def Let_def split: if_split_asm)
  have fuel: "buf_len b - 0 < Suc (buf_len b)" by simp
  note l = index_loop_lines [OF assms(1-3) fuel loop]
  show "ss_hits ss \<noteq> []" using ss by simp
  show "list_all (hit_of b pat) (ss_hits ss)" "sorted_wrt (<) (map sh_line_idx (ss_hits ss))"
    using l unfolding ss by auto
  show "sh_line_idx ` set (ss_hits ss) = match_lines b pat 0" if "ss_complete ss"
    using l that unfolding ss by auto
  show "ss_complete ss" if "pred_option (\<lambda>l. length (ss_hits ss) < l) limit"
    using l that unfolding ss by auto
  show "sh_line_idx h < j" if "j \<in> match_lines b pat 0" "j \<notin> sh_line_idx ` set (ss_hits ss)"
    "h \<in> set (ss_hits ss)"
    using l that unfolding ss by auto
qed

lemma indexed_session_None:
  assumes "wf_text b" and "lib_documented lib" and "pattern pat \<noteq> []"
    and "build_indexed_search_session lib b pat start limit = None"
    and "pred_option (\<lambda>l. 0 < l) limit"
  shows "\<not> match_char b pat c"
proof (cases "buf_len b = 0 \<or> line_count b = 0")
  case True
  then show ?thesis by (rule no_match_without_lines [OF assms(1,3)])
next
  case False
  obtain s' hstate' hits' flag where loop:
    "index_loop lib b pat start limit (Suc (buf_len b)) 0 heading_state_new [] = (s', hstate', hits', flag)"
    by (cases "index_loop lib b pat start limit (Suc (buf_len b)) 0 heading_state_new []")
  have "hits' = []"
    using False assms(4) loop
    by (auto simp: build_indexed_search_session_def Let_def split: if_split_asm)
  with index_loop_lines [OF assms(1-3) _ loop] assms(5) have "match_lines b pat 0 = {}" by auto
  then show ?thesis by (auto simp: match_lines_def)
qed

text \<open>
  C25. A full search session has one hit per matching line: if it exists, its hits lie in strictly
  increasing lines, the lines are exactly those in which an occurrence of the pattern starts, and
  each hit is such an occurrence with the bounds of its line; there is no session exactly if the
  pattern does not occur. The start offset only selects which occurrence of a line is reported.
\<close>

theorem full_session_lists_matching_lines:
  assumes "wf_text b" and "lib_documented lib" and "pattern pat \<noteq> []"
  shows "case build_full_search_session lib b pat start of
           None \<Rightarrow> (\<forall>c. \<not> match_char b pat c)
         | Some ss \<Rightarrow>
             sorted_wrt (<) (map sh_line_idx (ss_hits ss)) \<and>
             set (map sh_line_idx (ss_hits ss)) =
               {line_index_for_offset b c | c. match_char b pat c} \<and>
             (\<forall>h \<in> set (ss_hits ss). hit_of b pat h) \<and> ss_complete ss"
proof (cases "build_full_search_session lib b pat start")
  case None
  then show ?thesis
    using indexed_session_None [OF assms] by (simp add: build_full_search_session_def)
next
  case (Some ss)
  then have ss: "build_indexed_search_session lib b pat start None = Some ss"
    by (simp add: build_full_search_session_def)
  note l = indexed_session_lines [OF assms ss]
  have "ss_complete ss" using l(5) by simp
  with l(2-4) Some show ?thesis by (auto simp: match_lines_def list_all_iff)
qed

definition example_pattern :: search_pattern where
  "example_pattern = \<lparr>pattern = ''R'', case_insensitive_ascii = True\<rparr>"

definition example_session :: "search_session option" where
  "example_session = build_full_search_session lib_reference example_text example_pattern 0"

lemma example_facts:
  "wf_text example_text" "pattern example_pattern \<noteq> []" "example_session \<noteq> None"
  "ss_hits (the example_session) \<noteq> []"
  by code_simp+

theorem full_session_lists_matching_lines_witness:
  "hit_of example_text example_pattern (hd (ss_hits (the example_session)))"
proof -
  obtain ss where ss: "example_session = Some ss" using example_facts(3) by blast
  with full_session_lists_matching_lines [OF example_facts(1) lib_reference_documented example_facts(2), of 0]
  have "\<forall>h \<in> set (ss_hits ss). hit_of example_text example_pattern h"
    by (simp add: example_session_def)
  with ss example_facts(4) hd_in_set show ?thesis by (metis option.sel)
qed

section \<open>Stepping through a session\<close>

text \<open>No line of \<open>M\<close> is skipped between the lines of a list: it is one of them or outside of them.\<close>

definition gapless :: "nat set \<Rightarrow> nat list \<Rightarrow> bool" where
  "gapless M ks \<longleftrightarrow> (\<forall>j \<in> M. j \<notin> set ks \<longrightarrow> (\<forall>k \<in> set ks. j < k) \<or> (\<forall>k \<in> set ks. k < j))"

definition session_inv :: "pager_buffer \<Rightarrow> search_session \<Rightarrow> bool" where
  "session_inv b ss \<longleftrightarrow>
     pattern (ss_pattern ss) \<noteq> [] \<and> ss_hits ss \<noteq> [] \<and>
     list_all (hit_of b (ss_pattern ss)) (ss_hits ss) \<and>
     sorted_wrt (<) (map sh_line_idx (ss_hits ss)) \<and>
     gapless (match_lines b (ss_pattern ss) 0) (map sh_line_idx (ss_hits ss)) \<and>
     (if ss_complete ss
      then match_lines b (ss_pattern ss) (sh_line_end (last (ss_hits ss))) = {}
      else ss_next_search_offset ss = sh_line_end (last (ss_hits ss)))"

text \<open>The matching lines behind a hit are those whose matches start behind its line.\<close>

lemma match_lines_behind:
  assumes "wf_text b" and "pattern pat \<noteq> []" and "hit_of b pat h"
  shows "match_lines b pat (sh_line_end h) =
         {j. sh_line_idx h < j \<and> (\<exists>c. match_char b pat c \<and> line_index_for_offset b c = j)}"
proof -
  have bounds: "(sh_line_start h, sh_line_end h) = line_bounds_for_index b (sh_line_idx h)"
    and hb: "sh_line_start h \<le> sh_match_start h" "sh_match_start h < sh_line_end h"
    using assms(3) hit_of_bounds [OF assms] by (auto simp: hit_of_def)
  have iff: "sh_line_end h \<le> c \<longleftrightarrow> sh_line_idx h < line_index_for_offset b c" if "match_char b pat c" for c
  proof -
    note c = match_char_less [OF assms(1,2) that]
    note inl = line_index_in_line(1) [OF assms(1) c]
    have snd: "sh_line_end h = snd (line_bounds_for_index b (sh_line_idx h))"
      and fst: "sh_line_start h = fst (line_bounds_for_index b (sh_line_idx h))"
      using bounds by (metis snd_conv, metis fst_conv)
    show ?thesis
    proof
      assume "sh_line_idx h < line_index_for_offset b c"
      from line_bounds_order [OF assms(1) this line_index_le] inl snd
      show "sh_line_end h \<le> c" by (simp add: in_line_def)
    next
      assume le: "sh_line_end h \<le> c"
      then have "sh_line_idx h \<le> line_index_for_offset b c"
        using line_index_mono [OF assms(1), of "sh_match_start h" c] hb c assms(3)
        by (simp add: hit_of_def)
      moreover have "sh_line_idx h \<noteq> line_index_for_offset b c"
        using le inl snd by (auto simp: in_line_def)
      ultimately show "sh_line_idx h < line_index_for_offset b c" by simp
    qed
  qed
  show ?thesis by (auto simp: match_lines_def iff)
qed

lemma match_lines_empty_end:
  assumes "wf_text b" and "pattern pat \<noteq> []" and "buf_len b \<le> s"
  shows "match_lines b pat s = {}"
  using match_char_less [OF assms(1,2)] assms(3) by (fastforce simp: match_lines_def)

lemma match_lines_mono: "s \<le> t \<Longrightarrow> match_lines b pat t \<subseteq> match_lines b pat s"
  by (auto simp: match_lines_def)

lemma session_inv_snoc:
  assumes "wf_text b" and "session_inv b ss" and "\<not> ss_complete ss"
    and "is_first (match_char b (ss_pattern ss)) (ss_next_search_offset ss) (Some c)"
    and "hit_of b (ss_pattern ss) h" and "sh_match_start h = c"
  shows "session_inv b (ss\<lparr>ss_headings := hs, ss_hits := ss_hits ss @ [h],
                          ss_next_search_offset := sh_line_end h\<rparr>)"
proof -
  let ?pat = "ss_pattern ss" and ?last = "last (ss_hits ss)"
  let ?M = "match_lines b ?pat 0" and ?ks = "map sh_line_idx (ss_hits ss)"
  have next_off: "ss_next_search_offset ss = sh_line_end ?last" and ne: "ss_hits ss \<noteq> []"
    and pat: "pattern ?pat \<noteq> []" and sorted: "sorted_wrt (<) ?ks" and gap: "gapless ?M ?ks"
    and hits: "list_all (hit_of b ?pat) (ss_hits ss)"
    using assms(2,3) by (auto simp: session_inv_def)
  have last: "hit_of b ?pat ?last" using hits ne by (simp add: list_all_iff)
  have hk: "sh_line_idx h = line_index_for_offset b c" using assms(5,6) by (simp add: hit_of_def)
  note step = match_lines_step [OF assms(1) pat assms(4), folded hk, unfolded next_off]
  have behind: "j \<in> match_lines b ?pat (sh_line_end ?last) \<longleftrightarrow> sh_line_idx ?last < j \<and> j \<in> ?M" for j
    unfolding match_lines_behind [OF assms(1) pat last] by (auto simp: match_lines_def)
  have less: "sh_line_idx ?last < sh_line_idx h" using step(1) behind by blast
  have le_last: "k \<le> sh_line_idx ?last" if "k \<in> set ?ks" for k
    using that ne sorted by (cases "ss_hits ss" rule: rev_cases) (auto simp: sorted_wrt_append)
  have last_in: "sh_line_idx ?last \<in> set ?ks" using ne by simp
  have "gapless ?M (?ks @ [sh_line_idx h])"
    unfolding gapless_def
  proof (intro ballI impI)
    fix j assume j: "j \<in> ?M" "j \<notin> set (?ks @ [sh_line_idx h])"
    then consider "\<forall>k \<in> set ?ks. j < k" | "sh_line_idx ?last < j"
      using gap last_in by (auto simp: gapless_def)
    then show "(\<forall>k \<in> set (?ks @ [sh_line_idx h]). j < k) \<or> (\<forall>k \<in> set (?ks @ [sh_line_idx h]). k < j)"
    proof cases
      case 1
      with less last_in show ?thesis by fastforce
    next
      case 2
      with j behind step(1,2) have "sh_line_idx h < j" by auto
      with less le_last show ?thesis by fastforce
    qed
  qed
  moreover have "sorted_wrt (<) (?ks @ [sh_line_idx h])"
    using sorted less le_last by (auto simp: sorted_wrt_append intro: le_less_trans)
  ultimately show ?thesis using pat hits assms(3,5) by (simp add: session_inv_def)
qed

lemma session_inv_exhausted:
  "session_inv b ss \<Longrightarrow> match_lines b (ss_pattern ss) (sh_line_end (last (ss_hits ss))) = {} \<Longrightarrow>
   session_inv b (session_exhausted b ss)"
  by (auto simp: session_inv_def session_exhausted_def)

text \<open>Extending a session keeps the invariant and the hits, and reaches the number asked for or the end.\<close>

definition extends_session :: "pager_buffer \<Rightarrow> nat \<Rightarrow> search_session \<Rightarrow> search_session \<Rightarrow> bool" where
  "extends_session b n ss ss' \<longleftrightarrow>
     session_inv b ss' \<and> (\<exists>hs. ss_hits ss' = ss_hits ss @ hs) \<and> ss_pattern ss' = ss_pattern ss \<and>
     ss_current_index ss' = ss_current_index ss \<and>
     (n \<le> length (ss_hits ss') \<or> ss_complete ss')"

lemma extend_loop_inv:
  assumes "wf_text b" and "lib_documented lib" and "session_inv b ss" and "\<not> ss_complete ss"
  shows "extends_session b n ss (extend_loop lib b n ss)"
  using assms(3,4)
proof (induction "n - length (ss_hits ss)" arbitrary: ss rule: less_induct)
  case less
  have pat: "pattern (ss_pattern ss) \<noteq> []" using less.prems by (simp add: session_inv_def)
  have next_off: "ss_next_search_offset ss = sh_line_end (last (ss_hits ss))"
    using less.prems by (simp add: session_inv_def)
  note first = find_pattern_first [OF assms(1,2) pat, of "ss_next_search_offset ss"]
  consider "n \<le> length (ss_hits ss)"
    | "length (ss_hits ss) < n" "find_pattern lib b (ss_pattern ss) (ss_next_search_offset ss) (buf_len b) = None"
    | c where "length (ss_hits ss) < n"
        "find_pattern lib b (ss_pattern ss) (ss_next_search_offset ss) (buf_len b) = Some c"
    by (cases "find_pattern lib b (ss_pattern ss) (ss_next_search_offset ss) (buf_len b)") force+
  then show ?case
  proof cases
    case 1
    with less.prems show ?thesis by (simp add: extend_loop.simps [of _ _ _ ss] extends_session_def)
  next
    case 2
    with first next_off have "match_lines b (ss_pattern ss) (sh_line_end (last (ss_hits ss))) = {}"
      by (auto simp: match_lines_def is_first_def)
    with session_inv_exhausted [OF less.prems(1)] 2 show ?thesis
      by (simp add: extend_loop.simps [of _ _ _ ss] extends_session_def) (simp add: session_exhausted_def)
  next
    case (3 c)
    then have c: "is_first (match_char b (ss_pattern ss)) (ss_next_search_offset ss) (Some c)"
      using first by simp
    then have "match_char b (ss_pattern ss) c" by (simp add: is_first_def)
    then obtain h hs where h: "build_search_hit lib b (ss_headings ss) c (line_count b) = Some (h, hs)"
      "hit_of b (ss_pattern ss) h" "sh_match_start h = c"
      by (rule build_search_hit_ok [OF assms(1) pat])
    let ?ss = "ss\<lparr>ss_headings := hs, ss_hits := ss_hits ss @ [h], ss_next_search_offset := sh_line_end h\<rparr>"
    have inv: "session_inv b ?ss" by (rule session_inv_snoc [OF assms(1) less.prems c h(2,3)])
    have eq: "extend_loop lib b n ss =
        (if sh_line_end h \<ge> buf_len b then session_exhausted b ?ss else extend_loop lib b n ?ss)"
      using 3 h(1) by (simp add: extend_loop.simps [of _ _ _ ss] Let_def)
    show ?thesis
    proof (cases "sh_line_end h \<ge> buf_len b")
      case True
      then have "session_inv b (session_exhausted b ?ss)"
        using session_inv_exhausted [OF inv] match_lines_empty_end [OF assms(1) pat] by simp
      with True eq show ?thesis by (simp add: extends_session_def) (simp add: session_exhausted_def)
    next
      case False
      have "extends_session b n ?ss (extend_loop lib b n ?ss)"
        using less.hyps [of ?ss] inv less.prems(2) 3(1) by simp
      with False eq show ?thesis by (auto simp: extends_session_def)
    qed
  qed
qed

lemma extend_session_inv:
  assumes "wf_text b" and "lib_documented lib" and "session_inv b ss"
  shows "extends_session b n ss (extend_search_session_forward lib b n ss)"
proof (cases "ss_complete ss")
  case True
  with assms(3) show ?thesis by (simp add: extend_search_session_forward_def extends_session_def)
next
  case False
  moreover have "ss_hits ss \<noteq> []" using assms(3) by (simp add: session_inv_def)
  ultimately show ?thesis
    using extend_loop_inv [OF assms False] by (simp add: extend_search_session_forward_def)
qed

lemma gapless_next:
  assumes "sorted_wrt (<) ks" and "gapless M ks" and "set ks \<subseteq> M" and "Suc i < length ks"
  shows "is_first (\<lambda>j. j \<in> M) (Suc (ks ! i)) (Some (ks ! Suc i))"
proof -
  have lt: "ks ! i < ks ! Suc i" using assms(1,4) by (simp add: sorted_wrt_nth_less)
  have "l \<notin> M" if "ks ! i < l" "l < ks ! Suc i" for l
  proof
    assume "l \<in> M"
    have "l \<notin> set ks"
    proof
      assume "l \<in> set ks"
      then obtain m where m: "m < length ks" "ks ! m = l" by (auto simp: in_set_conv_nth)
      then have "i < m" "m < Suc i"
        using that assms(1,4) sorted_wrt_nth_less [of "(<)" ks m i] sorted_wrt_nth_less [of "(<)" ks "Suc i" m]
        by (metis Suc_lessD less_asym linorder_neqE_nat)+
      then show False by simp
    qed
    with \<open>l \<in> M\<close> assms(2) have "(\<forall>k \<in> set ks. l < k) \<or> (\<forall>k \<in> set ks. k < l)" by (simp add: gapless_def)
    with that assms(4) show False by (meson Suc_lessD less_asym nth_mem)
  qed
  with lt assms(3,4) show ?thesis by (auto simp: is_first_def Suc_le_eq)
qed

lemma session_lines_match:
  "session_inv b ss \<Longrightarrow> set (map sh_line_idx (ss_hits ss)) \<subseteq> match_lines b (ss_pattern ss) 0"
  by (auto simp: session_inv_def list_all_iff hit_of_def match_lines_def)

lemma no_line_behind_last:
  assumes "wf_text b" and "session_inv b ss" and "ss_complete ss" and "last (ss_hits ss) = h"
  shows "is_first (\<lambda>j. j \<in> match_lines b (ss_pattern ss) 0) (Suc (sh_line_idx h)) None"
proof -
  have "match_lines b (ss_pattern ss) (sh_line_end h) = {}" "hit_of b (ss_pattern ss) h"
    "pattern (ss_pattern ss) \<noteq> []"
    using assms(2-4) by (auto simp: session_inv_def list_all_iff)
  with match_lines_behind [OF assms(1), of "ss_pattern ss" h] show ?thesis
    by (auto simp: is_first_def match_lines_def Suc_le_eq)
qed

text \<open>
  Stepping to the next hit finds the next matching line: from a session at a hit, extending it
  and moving forward by one either moves to a hit in the first later line in which a match starts,
  and no line in between has one, or reports the boundary, and then no later line has a match.
\<close>

theorem search_next_finds_next_line:
  assumes "wf_text b" and "lib_documented lib" and "session_inv b ss"
    and "ss_current_index ss < length (ss_hits ss)" and "ss_current_index ss + 2 \<le> n"
    and "length (ss_hits (extend_search_session_forward lib b n ss)) \<le> u64_max"
    and "move_search_session 1 True (extend_search_session_forward lib b n ss) = (moved, ss')"
  shows "case moved of
           Moved \<Rightarrow> ss_current_index ss' = ss_current_index ss + 1 \<and>
             hit_of b (ss_pattern ss) (ss_hits ss' ! ss_current_index ss') \<and>
             is_first (\<lambda>j. j \<in> match_lines b (ss_pattern ss) 0)
               (Suc (sh_line_idx (ss_hits ss ! ss_current_index ss)))
               (Some (sh_line_idx (ss_hits ss' ! ss_current_index ss')))
         | Boundary \<Rightarrow> ss_current_index ss' = ss_current_index ss \<and>
             is_first (\<lambda>j. j \<in> match_lines b (ss_pattern ss) 0)
               (Suc (sh_line_idx (ss_hits ss ! ss_current_index ss))) None"
proof -
  define ss1 where "ss1 = extend_search_session_forward lib b n ss"
  let ?i = "ss_current_index ss" and ?M = "match_lines b (ss_pattern ss) 0"
  have ext: "extends_session b n ss ss1" unfolding ss1_def by (rule extend_session_inv [OF assms(1-3)])
  then have inv: "session_inv b ss1" and cur: "ss_current_index ss1 = ?i" and pat: "ss_pattern ss1 = ss_pattern ss"
    and full: "n \<le> length (ss_hits ss1) \<or> ss_complete ss1"
    by (auto simp: extends_session_def)
  obtain hs where hs: "ss_hits ss1 = ss_hits ss @ hs" using ext by (auto simp: extends_session_def)
  have nth: "ss_hits ss1 ! ?i = ss_hits ss ! ?i" and lt: "?i < length (ss_hits ss1)"
    using hs assms(4) by (simp_all add: nth_append)
  have small: "length (ss_hits ss1) \<le> u64_max" using assms(6) by (simp add: ss1_def)
  have idx: "moved_index ss1 (Suc 0) True = min (?i + 1) (length (ss_hits ss1) - 1)"
    using lt small by (simp add: moved_index_def Let_def cur sat_add_def)
  have mv: "move_search_session 1 True ss1 = (moved, ss')" using assms(7) by (simp add: ss1_def)
  have ne: "ss_hits ss1 \<noteq> []" using lt by auto
  have sorted: "sorted_wrt (<) (map sh_line_idx (ss_hits ss1))"
    and gap: "gapless ?M (map sh_line_idx (ss_hits ss1))" using inv pat by (auto simp: session_inv_def)
  show ?thesis
  proof (cases "Suc ?i < length (ss_hits ss1)")
    case True
    then have "moved = Moved" "ss_current_index ss' = ?i + 1" "ss_hits ss' = ss_hits ss1"
      using mv ne by (auto simp: move_search_session_def Let_def idx cur)
    moreover have "hit_of b (ss_pattern ss) (ss_hits ss1 ! Suc ?i)"
      using inv True pat by (simp add: session_inv_def list_all_length)
    moreover have "is_first (\<lambda>j. j \<in> ?M) (Suc (sh_line_idx (ss_hits ss ! ?i)))
        (Some (sh_line_idx (ss_hits ss1 ! Suc ?i)))"
      using gapless_next [OF sorted gap session_lines_match [OF inv, unfolded pat], of ?i] True lt nth
      by simp
    ultimately show ?thesis by simp
  next
    case False
    then have end_i: "length (ss_hits ss1) - 1 = ?i" using lt by simp
    have "moved_index ss1 (Suc 0) True = ?i" unfolding idx end_i by simp
    then have "moved = Boundary" "ss_current_index ss' = ?i"
      using mv ne by (auto simp: move_search_session_def Let_def cur)
    moreover have "is_first (\<lambda>j. j \<in> ?M) (Suc (sh_line_idx (ss_hits ss ! ?i))) None"
    proof (rule no_line_behind_last [OF assms(1) inv, unfolded pat])
      show "ss_complete ss1" using full assms(5) False by linarith
      show "last (ss_hits ss1) = ss_hits ss ! ?i"
        using ne nth end_i by (simp add: last_conv_nth)
    qed
    ultimately show ?thesis by simp
  qed
qed

lemma indexed_session_inv:
  assumes "wf_text b" and "lib_documented lib" and "pattern pat \<noteq> []"
    and "build_indexed_search_session lib b pat start limit = Some ss"
  shows "session_inv b ss" and "ss_pattern ss = pat"
proof -
  obtain s' hstate' hits' flag where loop:
    "index_loop lib b pat start limit (Suc (buf_len b)) 0 heading_state_new [] = (s', hstate', hits', flag)"
    by (cases "index_loop lib b pat start limit (Suc (buf_len b)) 0 heading_state_new []")
  have ss: "ss_hits ss = hits'" "ss_pattern ss = pat" "ss_complete ss = flag"
    "\<not> flag \<Longrightarrow> ss_next_search_offset ss = s'"
    using assms(4) loop by (auto simp: build_indexed_search_session_def Let_def split: if_split_asm)
  note l = indexed_session_lines [OF assms]
  have "s' = sh_line_end (last (ss_hits ss))"
    using index_loop_lines [OF assms(1-3) _ loop] l(1) ss(1) by auto
  moreover have "gapless (match_lines b pat 0) (map sh_line_idx (ss_hits ss))"
    using l(6) by (auto simp: gapless_def)
  moreover have "match_lines b pat (sh_line_end (last (ss_hits ss))) = {}" if "flag"
  proof -
    have last: "hit_of b pat (last (ss_hits ss))" using l(1,2) by (simp add: list_all_iff)
    have "k \<le> sh_line_idx (last (ss_hits ss))" if "k \<in> sh_line_idx ` set (ss_hits ss)" for k
      using that l(1,3) by (cases "ss_hits ss" rule: rev_cases) (auto simp: sorted_wrt_append)
    with l(4) ss(3) that have "j \<le> sh_line_idx (last (ss_hits ss))" if "j \<in> match_lines b pat 0" for j
      using that by auto
    then show ?thesis
      unfolding match_lines_behind [OF assms(1,3) last] by (fastforce simp: match_lines_def)
  qed
  ultimately show "session_inv b ss" using l(1-3) assms(3) ss(2-4) by (simp add: session_inv_def)
  show "ss_pattern ss = pat" by (rule ss(2))
qed

lemma forward_session_inv:
  assumes "wf_text b" and "lib_documented lib" and "pattern pat \<noteq> []"
    and "build_forward_search_session lib b pat start = Some ss"
  shows "session_inv b ss" and "ss_pattern ss = pat" and "ss_current_index ss = 0"
proof -
  obtain c where c: "find_pattern lib b pat start (buf_len b) = Some c"
    using assms(4) by (auto simp: build_forward_search_session_def Let_def split: if_split_asm option.splits)
  then have "match_char b pat c" using find_pattern_first [OF assms(1-3), of start] by (simp add: is_first_def)
  then obtain h hs where h: "build_search_hit lib b heading_state_new c (line_count b) = Some (h, hs)"
    "hit_of b pat h" "sh_match_start h = c"
    by (rule build_search_hit_ok [OF assms(1,3)])
  with assms(4) c have "ss_hits ss = [h]" "ss_pattern ss = pat" "\<not> ss_complete ss"
    "ss_next_search_offset ss = sh_line_end h" "ss_current_index ss = 0"
    by (auto simp: build_forward_search_session_def Let_def split: if_split_asm)
  with h(2) assms(3) show "session_inv b ss" "ss_pattern ss = pat" "ss_current_index ss = 0"
    by (auto simp: session_inv_def gapless_def)
qed

theorem search_next_finds_next_line_witness:
  "ss_current_index (snd (move_search_session 1 True
     (extend_search_session_forward lib_reference example_text 2 (the example_session)))) = 0"
proof -
  define ss where "ss = the example_session"
  have ss: "example_session = Some ss" using example_facts(3) by (simp add: ss_def)
  have "session_inv example_text ss"
    using indexed_session_inv [OF example_facts(1) lib_reference_documented example_facts(2)] ss
    by (simp add: example_session_def build_full_search_session_def)
  moreover obtain moved ss' where mv: "move_search_session 1 True
      (extend_search_session_forward lib_reference example_text 2 ss) = (moved, ss')" by fastforce
  moreover have "ss_current_index ss = 0" "0 < length (ss_hits ss)"
    "length (ss_hits (extend_search_session_forward lib_reference example_text 2 ss)) \<le> u64_max"
    "fst (move_search_session 1 True
      (extend_search_session_forward lib_reference example_text 2 ss)) = Boundary"
    unfolding ss_def by code_simp+
  ultimately show ?thesis
    using search_next_finds_next_line [OF example_facts(1) lib_reference_documented, of ss 2 moved ss']
    unfolding ss_def [symmetric] by simp
qed

section \<open>Snippets\<close>

lemma floor_loop_props: "floor_loop s n \<le> n \<and> is_char_boundary s (floor_loop s n)"
  by (induction s n rule: floor_loop.induct) (auto simp: is_char_boundary_def)

lemma ceil_loop_props:
  "n \<le> length s \<Longrightarrow> n \<le> ceil_loop s n \<and> ceil_loop s n \<le> length s \<and> is_char_boundary s (ceil_loop s n)"
proof (induction s n rule: ceil_loop.induct)
  case (1 s n)
  then show ?case
    by (cases "n < length s \<and> \<not> is_char_boundary s n")
      (auto simp: ceil_loop.simps [of s n] is_char_boundary_def)
qed

lemma char_boundary_props:
  "floor_char_boundary s n \<le> n" "floor_char_boundary s n \<le> length s"
  "is_char_boundary s (floor_char_boundary s n)"
  "min n (length s) \<le> ceil_char_boundary s n" "ceil_char_boundary s n \<le> length s"
  "is_char_boundary s (ceil_char_boundary s n)"
  using floor_loop_props [of s "min n (length s)"] ceil_loop_props [of "min n (length s)" s]
  by (auto simp: floor_char_boundary_def ceil_char_boundary_def)

text \<open>
  The snippet of a search card shows the match: for a pattern of at most 200 bytes, the window
  into the trimmed line begins and ends at character boundaries and contains the bytes of the match
  that the trimmed line has.
\<close>

theorem snippet_window_shows_match:
  assumes "length pat \<le> MATCH_LINE_MAX_BYTES" and "match_start + length pat \<le> u64_max"
    and "length (trim_end line) \<le> u64_max"
  defines "w \<equiv> snippet_window_around_match line match_start pat"
  shows "is_char_boundary (trim_end line) (win_start_byte w) \<and>
         is_char_boundary (trim_end line) (win_end_byte w) \<and>
         win_end_byte w \<le> length (trim_end line) \<and>
         win_start_byte w \<le> min match_start (length (trim_end line)) \<and>
         min (match_start + length pat) (length (trim_end line)) \<le> win_end_byte w"
proof (cases "length (trim_end line) \<le> MATCH_LINE_MAX_BYTES")
  case True
  then show ?thesis by (simp add: w_def snippet_window_around_match_def Let_def is_char_boundary_def)
next
  case False
  let ?t = "trim_end line" and ?L = MATCH_LINE_MAX_BYTES
  define n where "n = length ?t"
  define ms where "ms = min match_start n"
  define me where "me = min (sat_add ms (length pat)) n"
  define r where "r = (if min ?L n < me then
      (let s1 = ms - ?L div 2; e1 = min (sat_add s1 ?L) n
       in if e1 < me then (me - ?L, me) else (s1, e1))
     else (0, min ?L n))"
  have w: "win_start_byte w = floor_char_boundary ?t (fst r)" "win_end_byte w = ceil_char_boundary ?t (snd r)"
    using False unfolding w_def snippet_window_around_match_def Let_def r_def me_def ms_def n_def
    by (simp_all split: prod.splits)
  have "sat_add ms (length pat) = ms + length pat"
    using assms(2) by (simp add: sat_add_def ms_def)
  then have me: "me = min (match_start + length pat) n" and me_le: "me \<le> ms + length pat" "me \<le> n"
    by (auto simp: me_def ms_def)
  have "me - ?L \<le> ms" using me_le(1) assms(1) by linarith
  with me_le(2) have "fst r \<le> ms" "me \<le> snd r" "snd r \<le> n"
    unfolding r_def Let_def by (auto split: if_split)
  then show ?thesis
    using char_boundary_props(1-3) [of ?t "fst r"] char_boundary_props(4) [of "snd r" ?t]
      char_boundary_props(5,6) [of ?t "snd r"] me w
    by (auto simp: n_def ms_def)
qed

theorem snippet_window_shows_match_witness:
  "is_char_boundary (trim_end (replicate 300 CHR ''x''))
     (win_start_byte (snippet_window_around_match (replicate 300 CHR ''x'') 250 ''xx''))"
proof -
  have "length (trim_end (replicate 300 CHR ''x'')) \<le> u64_max" "length ''xx'' \<le> MATCH_LINE_MAX_BYTES"
    "250 + length ''xx'' \<le> u64_max" by code_simp+
  from snippet_window_shows_match [OF this(2,3,1)] show ?thesis by blast
qed

section \<open>Headings\<close>

text \<open>The stack of headings above a line: levels between 1 and 6, strictly increasing inwards.\<close>

definition wf_headings :: "heading list \<Rightarrow> bool" where
  "wf_headings hs \<longleftrightarrow>
     sorted_wrt (<) (map heading_level hs) \<and>
     (\<forall>h \<in> set hs. 1 \<le> heading_level h \<and> heading_level h \<le> 6 \<and> heading_text h \<noteq> [])"

lemma parse_atx_heading_level:
  "parse_atx_heading lib line = Some (level, t) \<Longrightarrow> 1 \<le> level \<and> level \<le> 6 \<and> t \<noteq> []"
  by (auto simp: parse_atx_heading_def Let_def Suc_le_eq split: if_split_asm)

lemma pop_headings:
  fixes f :: "'a \<Rightarrow> nat"
  assumes "sorted_wrt (<) (map f hs)"
  shows "sorted_wrt (<) (map f (rev (dropWhile (\<lambda>h. f h \<ge> level) (rev hs))) @ [level])"
  using assms
proof (induction hs rule: rev_induct)
  case (snoc h hs)
  show ?case
  proof (cases "f h \<ge> level")
    case False
    then have "x < level" if "x \<in> f ` set hs" for x
      using that snoc.prems by (fastforce simp: sorted_wrt_append)
    with False snoc.prems show ?thesis by (auto simp: sorted_wrt_append)
  qed (use snoc in \<open>auto simp: sorted_wrt_append\<close>)
qed simp

lemma wf_update_heading_stack:
  assumes "wf_headings hs"
  shows "wf_headings (snd (update_heading_stack lib line (fence, hs)))"
proof -
  have "wf_headings (rev (dropWhile (\<lambda>h. heading_level h \<ge> level) (rev hs)) @
      [\<lparr>heading_level = level, heading_text = t\<rparr>])"
    if "1 \<le> level \<and> level \<le> 6 \<and> t \<noteq> []" for level t
    using pop_headings [of heading_level hs level] assms that
    by (auto simp: wf_headings_def dest!: set_dropWhileD)
  with assms show ?thesis
    by (auto simp: update_heading_stack_def Let_def dest!: parse_atx_heading_level
        split: option.split prod.split)
qed

lemma wf_scan_line: "wf_headings (headings hs) \<Longrightarrow> wf_headings (headings (scan_line lib b i hs))"
  using wf_update_heading_stack [of "headings hs" lib "read_line_text b i" "in_fence hs"]
  by (cases "update_heading_stack lib (read_line_text b i) (in_fence hs, headings hs)")
    (simp add: scan_line_def)

lemma wf_scan_to: "wf_headings (headings hs) \<Longrightarrow> wf_headings (headings (scan_to lib b k hs))"
proof -
  assume wf: "wf_headings (headings hs)"
  have "wf_headings (headings (foldl (\<lambda>acc idx. scan_line lib b idx acc) hs idxs))" for idxs
    by (induction idxs rule: rev_induct) (simp_all add: wf wf_scan_line)
  with wf show ?thesis by (simp add: scan_to_def del: upt_Suc)
qed

lemma scan_line_frame:
  "last_scanned_line_idx (scan_line lib b i hs) = last_scanned_line_idx hs"
  "scan_line lib b i (hs\<lparr>last_scanned_line_idx := n\<rparr>) = (scan_line lib b i hs)\<lparr>last_scanned_line_idx := n\<rparr>"
  by (simp_all add: scan_line_def Let_def split: prod.splits)

lemma scan_lines_frame:
  "foldl (\<lambda>acc idx. scan_line lib b idx acc) (hs\<lparr>last_scanned_line_idx := n\<rparr>) idxs =
   (foldl (\<lambda>acc idx. scan_line lib b idx acc) hs idxs)\<lparr>last_scanned_line_idx := n\<rparr>"
  by (induction idxs arbitrary: hs) (simp_all add: scan_line_frame)

text \<open>
  The headings above a match do not depend on where the scan was interrupted: scanning to one
  line and then on to a later one gives the same state as scanning to the later one at once, and
  the headings found are a stack of levels 1 to 6, strictly increasing.
\<close>

theorem scan_to_resumes:
  assumes "j \<le> k" and "k < u64_max" and "wf_headings (headings hs)"
  shows "scan_to lib b k (scan_to lib b j hs) = scan_to lib b k hs \<and>
         wf_headings (headings (scan_to lib b k hs))"
proof -
  let ?step = "\<lambda>acc idx. scan_line lib b idx acc" and ?n = "last_scanned_line_idx hs"
  have "scan_to lib b k (scan_to lib b j hs) = scan_to lib b k hs"
  proof (cases "j < ?n")
    case True
    then show ?thesis by (simp add: scan_to_def)
  next
    case False
    then have split: "[?n..<Suc k] = [?n..<Suc j] @ [Suc j..<Suc k]"
      using assms(1) upt_add_eq_append [of ?n "Suc j" "k - j"] by simp
    have j: "scan_to lib b j hs = (foldl ?step hs [?n..<Suc j])\<lparr>last_scanned_line_idx := Suc j\<rparr>"
      using False assms(1,2) by (simp add: scan_to_def sat_add_def)
    show ?thesis
    proof (cases "j = k")
      case True
      then show ?thesis using j by (simp add: scan_to_def)
    next
      case False
      with assms(1) \<open>\<not> j < ?n\<close> show ?thesis
        unfolding j by (simp add: scan_to_def split scan_lines_frame del: upt_Suc)
    qed
  qed
  with wf_scan_to [OF assms(3)] show ?thesis by simp
qed

theorem scan_to_resumes_witness:
  "scan_to lib_reference example_text 1 (scan_to lib_reference example_text 0 heading_state_new) =
   scan_to lib_reference example_text 1 heading_state_new"
  using scan_to_resumes [of 0 1 heading_state_new lib_reference example_text]
  by (simp add: u64_max_def wf_headings_def heading_state_new_def)

end
