(* ===== verification/Pager_Invariant.thy ===== *)
theory Pager_Invariant
  imports Pager Search_Sessions
begin

text \<open>
  The invariant of the pager, \<open>wf_pager\<close>, and that every branch of \<^verbatim>\<open>Pager::handle_command\<close>, the first
  page of an output and \<^verbatim>\<open>Pager::refresh_from_output\<close> keep it. The commands that answer with a page
  share the contract of the locale \<open>paging_op\<close>; the commands that use a search session share
  \<open>prepared\<close>, what the functions that build or refresh the session promise.
\<close>

section \<open>What a command may do to the view\<close>

text \<open>
  A command moves the cursor inside the buffer and adds offsets to the shown set; the ranges it
  reports lie inside the buffer. \<open>view_step\<close> is that contract, the locale \<open>paging_op\<close> states it for the
  commands that answer with a page.
\<close>

definition range_ok :: "nat \<Rightarrow> range \<Rightarrow> bool" where
  "range_ok n r \<longleftrightarrow> fst r < snd r \<and> snd r \<le> n"

definition span_ok :: "nat \<Rightarrow> range_span \<Rightarrow> bool" where
  "span_ok n sp \<longleftrightarrow> list_all (range_ok n) (span_ranges sp) \<and>
     pred_option (range_ok n) (span_first sp) \<and> pred_option (range_ok n) (span_last sp)"

lemma span_ok_default [simp]: "span_ok n range_span_default"
  by (simp add: span_ok_def range_span_default_def)

lemma span_ok_record:
  assumes "span_ok n sp" and "pred_option (range_ok n) r"
  shows "span_ok n (span_record r sp)"
proof (cases r)
  case (Some rg)
  with assms show ?thesis
    by (cases "span_ranges sp" rule: rev_cases)
      (auto simp: span_ok_def span_record_def Let_def range_ok_def)
qed (use assms in \<open>simp add: span_record_def\<close>)

lemma span_ok_extend: "span_ok n sp \<Longrightarrow> span_ok n sp' \<Longrightarrow> span_ok n (span_extend sp' sp)"
proof -
  assume "span_ok n sp" "span_ok n sp'"
  then have "list_all (range_ok n) rs \<Longrightarrow> span_ok n (foldl (\<lambda>acc r. span_record (Some r) acc) sp rs)" for rs
    by (induction rs rule: rev_induct) (auto intro: span_ok_record)
  with \<open>span_ok n sp'\<close> show ?thesis by (simp add: span_extend_def span_ok_def)
qed

definition wf_view :: "pager_buffer \<Rightarrow> range_set \<Rightarrow> bool" where
  "wf_view b sn \<longleftrightarrow> cursor b \<le> buf_len b \<and> buf_len b \<le> u64_max \<and> wf_range_set sn \<and>
     points sn \<subseteq> {..<buf_len b}"

definition view_step ::
  "pager_buffer \<Rightarrow> range_set \<Rightarrow> pager_buffer \<Rightarrow> range_set \<Rightarrow> bool" where
  "view_step b sn b' sn' \<longleftrightarrow> (\<exists>c. b' = b\<lparr>cursor := c\<rparr>) \<and> wf_view b' sn' \<and> points sn \<subseteq> points sn'"

lemma view_step_refl: "wf_view b sn \<Longrightarrow> view_step b sn b sn"
  unfolding view_step_def by (rule conjI, rule exI [of _ "cursor b"]) simp_all

lemma view_step_trans: "view_step a s b t \<Longrightarrow> view_step b t c u \<Longrightarrow> view_step a s c u"
  by (auto simp: view_step_def)

lemma view_step_wf: "view_step a s b t \<Longrightarrow> wf_view b t"
  by (simp add: view_step_def)

lemma view_step_len: "view_step a s b t \<Longrightarrow> buf_len b = buf_len a"
  by (auto simp: view_step_def)

lemma wf_view_advance [simp]: "wf_view b sn \<Longrightarrow> wf_view (advance_offset_to c b) sn"
  by (simp add: wf_view_def advance_offset_to_def)

lemma view_step_advance: "wf_view b sn \<Longrightarrow> view_step b sn (advance_offset_to c b) sn"
  using wf_view_advance [of b sn c] by (auto simp: view_step_def advance_offset_to_def)

subsection \<open>Pages\<close>

lemma page_loop_span_ok:
  assumes "page_inv (buf_len b) c0 sn st" and "buf_len b \<le> u64_max" and "span_ok (buf_len b) (pg_span st)"
  shows "span_ok (buf_len b) (pg_span (page_loop b mode (buf_len b) st))"
  using assms(1,3)
proof (induction "buf_len b - pg_cursor st" arbitrary: st rule: less_induct)
  case less
  note unfold = page_loop.simps [of b mode "buf_len b" st]
  show ?case using less.prems(1) assms(2)
  proof (cases rule: page_turn_cases [where mode = mode])
    case stop
    with less.prems show ?thesis by (simp add: unfold)
  next
    case (skip a range_end st')
    have "page_inv (buf_len b) c0 sn st'" by (rule page_inv_skip [OF less.prems(1)]) (use skip in simp_all)
    with less.hyps [of st'] skip page_turn_progress [OF skip(1)] less.prems(2) show ?thesis
      by (simp add: unfold diff_less_mono2)
  next
    case (shown v st')
    have inv: "page_inv (buf_len b) c0 sn st'" by (rule page_inv_show [OF less.prems(1)]) (use shown in simp_all)
    have ok: "span_ok (buf_len b) (pg_span st')"
      using shown less.prems(2) by (simp add: span_ok_record range_ok_def)
    show ?thesis
      using shown(1) less.hyps [of st'] inv ok shown(2,3,6)
      by (auto simp: unfold diff_less_mono2)
  qed
qed

lemma take_next_page_view:
  assumes "wf_view b sn" and "take_next_page target mode b sn = ((contents, left, span), b', sn')"
  shows "view_step b sn b' sn' \<and> span_ok (buf_len b) span"
proof -
  let ?st = "page_start (cursor b) (max target 1) sn"
  have start: "page_inv (buf_len b) (cursor b) sn ?st"
    using assms(1) by (simp add: wf_view_def page_inv_start)
  have "page_step target mode (b, sn) = (b', sn')" using assms(2) by (simp add: page_step_def)
  note step = page_step_shows [OF _ _ _ this]
  have "span = pg_span (page_loop b mode (buf_len b) ?st)"
    using assms(2) by (auto simp: take_next_page_def current_offset_def Let_def)
  then have "span_ok (buf_len b) span"
    using page_loop_span_ok [OF start] assms(1) by (simp add: wf_view_def)
  moreover have "buf_len b' = buf_len b" using step(5) assms(1) by (metis buf_len_cursor wf_view_def)
  then have "view_step b sn b' sn'"
    using step assms(1) by (auto simp: view_step_def wf_view_def intro: exI [of _ "cursor b'"])
  ultimately show ?thesis by simp
qed

lemma take_pages_loop_view:
  assumes "wf_view b sn" and "span_ok (buf_len b) (snd (snd acc))"
    and "take_pages_loop target n acc b sn = ((contents, left, span), b', sn')"
  shows "view_step b sn b' sn' \<and> span_ok (buf_len b) span"
  using assms
proof (induction target n acc b sn rule: take_pages_loop.induct)
  case (1 target acc b sn)
  then show ?case by (auto intro: view_step_refl)
next
  case (2 target n acc b sn)
  obtain pc pl rng b1 sn1 where page: "take_next_page target PagerMode b sn = ((pc, pl, rng), b1, sn1)"
    by (metis prod_cases3)
  obtain c l sp where acc: "acc = (c, l, sp)" by (cases acc)
  have step: "view_step b sn b1 sn1" "span_ok (buf_len b) rng"
    using take_next_page_view [OF 2(2) page] by simp_all
  have rec: "view_step b1 sn1 b' sn' \<and> span_ok (buf_len b1) span"
    if "pc \<noteq> []" "pl \<noteq> 0"
      "take_pages_loop target n (c @ pc, pl, span_extend rng sp) b1 sn1 = ((contents, left, span), b', sn')"
    using 2(1) [OF page [symmetric] refl refl refl refl acc [symmetric] refl that(1) refl that(2) _ _ that(3)]
      step 2(3) acc view_step_wf view_step_len span_ok_extend by (metis snd_conv)
  show ?case
    using 2(3,4) acc page step rec view_step_trans view_step_len [OF step(1)]
    by (auto simp: Let_def span_ok_extend split: if_split_asm) 
qed

lemma take_next_pages_view:
  assumes "wf_view b sn" and "take_next_pages target count b sn = ((contents, left, span), b', sn')"
  shows "view_step b sn b' sn' \<and> span_ok (buf_len b) span"
proof -
  obtain c l sp b1 sn1 where loop:
    "take_pages_loop target (clamp count 1 50) ([], 0, range_span_default) b sn = ((c, l, sp), b1, sn1)"
    by (metis prod_cases3)
  have "view_step b sn b1 sn1 \<and> span_ok (buf_len b) sp"
    by (rule take_pages_loop_view [OF assms(1) _ loop]) simp
  with assms(2) loop show ?thesis by (auto simp: take_next_pages_def split: if_split_asm)
qed

lemma skip_pages_view:
  assumes "wf_view b sn" and "skip_pages_and_take_next page count b sn = ((contents, left, span), b', sn')"
  shows "view_step b sn b' sn' \<and> span_ok (buf_len b) span"
proof (cases "current_offset b \<ge> buf_len b")
  case True
  with assms show ?thesis by (auto simp: skip_pages_and_take_next_def intro: view_step_refl)
next
  case False
  let ?b = "advance_offset_to (skip_loop b page sn (buf_len b) (clamp count 1 500) (current_offset b)) b"
  have "take_next_page page PagerMode ?b sn = ((contents, left, span), b', sn')"
    using False assms(2) by (simp add: skip_pages_and_take_next_def Let_def)
  then have "view_step ?b sn b' sn' \<and> span_ok (buf_len ?b) span"
    by (rule take_next_page_view [OF wf_view_advance [OF assms(1)]])
  with view_step_advance [OF assms(1)] show ?thesis
    using view_step_trans view_step_len by metis
qed

subsection \<open>Everything not yet shown in a range\<close>

text \<open>The loop over unseen segments reports exactly the offsets that it newly marks as shown.\<close>

definition segment_inv :: "nat \<Rightarrow> range_set \<Rightarrow> page_state \<Rightarrow> bool" where
  "segment_inv e sn st \<longleftrightarrow>
     wf_range_set (pg_seen st) \<and> pg_cursor st \<le> e \<and> span_below (pg_span st) (pg_cursor st) \<and>
     span_ok e (pg_span st) \<and> span_points (pg_span st) \<inter> points sn = {} \<and>
     points (pg_seen st) = points sn \<union> span_points (pg_span st)"

lemma segment_loop_inv: "segment_inv e sn st \<Longrightarrow> segment_inv e sn (segment_loop b e st)"
proof (induction b e st rule: segment_loop.induct)
  case (1 b e st)
  let ?c = "pg_cursor st" and ?n = "next_seen_start (pg_seen st) (pg_cursor st) e"
  have wf: "wf_range_set (pg_seen st)" using 1(2) by (simp add: segment_inv_def)
  have inv: "segment_inv e sn st'" if turn: "segment_turn b e st = Leave st' \<or> segment_turn b e st = Again st'" for st'
  proof (cases "?c < e")
    case False
    with turn 1(2) show ?thesis by (simp add: segment_turn_def Let_def)
  next
    case lt: True
    show ?thesis
    proof (cases "range_containing (pg_seen st) ?c")
      case (Some r)
      obtain a z where r: "r = (a, z)" by fastforce
      have "?c < z" using range_containing_gt Some r by simp
      with lt turn Some r 1(2) show ?thesis
        by (auto simp: segment_turn_def Let_def segment_inv_def intro: span_below_mono)
    next
      case None
      note n = next_seen_start_unseen [OF wf None lt]
      have st': "pg_cursor st' = ?n"
        "pg_span st' = pg_span st \<and> pg_seen st' = pg_seen st \<or>
         pg_span st' = span_record (Some (?c, ?n)) (pg_span st) \<and>
         pg_seen st' = range_insert ?c ?n (pg_seen st)"
        using n lt turn None by (auto simp: segment_turn_def Let_def split: if_split_asm)
      have below: "span_below (pg_span st) ?c" using 1(2) by (simp add: segment_inv_def)
      have cn: "?c < ?n" using n by simp
      note rec = span_record_below [OF below cn]
      show ?thesis
        using st' 1(2) n seen.inv_ins [OF wf] seen.pts_ins [OF wf] rec
        by (auto simp: segment_inv_def range_ok_def span_ok_record intro: span_below_mono)
    qed
  qed
  show ?case
    using inv 1(1) by (cases "segment_turn b e st") (simp_all add: segment_loop.simps [of b e st])
qed

lemma unseen_segments_inv:
  assumes "wf_range_set sn" and "take_unseen_segments_in_range b s e sn = ((contents, span), sn')"
  shows "wf_range_set sn'" and "span_ok e span" and "span_points span \<inter> points sn = {}"
    and "points sn' = points sn \<union> span_points span" and "span_points span \<subseteq> {..<e}"
proof -
  let ?st = "segment_loop b e (page_start (min s e) 0 sn)"
  have "segment_inv e sn ?st" by (rule segment_loop_inv) (use assms(1) in \<open>simp add: segment_inv_def\<close>)
  moreover have "span = pg_span ?st" "sn' = pg_seen ?st"
    using assms(2) by (auto simp: take_unseen_segments_in_range_def Let_def)
  ultimately show "wf_range_set sn'" "span_ok e span" "span_points span \<inter> points sn = {}"
    "points sn' = points sn \<union> span_points span" "span_points span \<subseteq> {..<e}"
    using span_below_points by (fastforce simp: segment_inv_def)+
qed

lemma unseen_segments_view:
  assumes "wf_view b sn" and "e \<le> buf_len b"
    and "take_unseen_segments_in_range b s e sn = ((contents, span), sn')"
  shows "view_step b sn (advance_offset_to c b) sn' \<and> view_step b sn b sn' \<and> span_ok (buf_len b) span"
proof -
  have "wf_range_set sn" using assms(1) by (simp add: wf_view_def)
  note u = unseen_segments_inv [OF this assms(3)]
  have "range_ok e r \<Longrightarrow> range_ok (buf_len b) r" for r using assms(2) by (simp add: range_ok_def)
  with u(2) have "span_ok (buf_len b) span"
    by (auto simp: span_ok_def list_all_iff option.pred_set)
  moreover have wf: "wf_view b sn'" using assms(1,2) u by (auto simp: wf_view_def)
  moreover have "view_step b sn b sn'" using view_step_refl [OF wf] u(4) by (auto simp: view_step_def)
  ultimately show ?thesis
    using view_step_advance [OF wf, of c] view_step_trans by blast
qed

lemma take_all_view:
  assumes "wf_view b sn" and "take_all page b sn = ((contents, left, span), b', sn')"
  shows "view_step b sn b' sn' \<and> span_ok (buf_len b) span"
proof -
  obtain sn1 where s: "take_unseen_segments_in_range b (current_offset b) (buf_len b) sn = ((contents, span), sn1)"
    "sn' = sn1" "b' = advance_offset_to (buf_len b) b"
    using assms(2) by (auto simp: take_all_def Let_def split: prod.splits)
  from unseen_segments_view [OF assms(1) order_refl s(1)] s(2,3) show ?thesis by blast
qed

lemma take_tail_from_view:
  assumes "wf_view b sn" and "take_tail_from start b sn = ((contents, left, span), b', sn')"
  shows "view_step b sn b' sn' \<and> span_ok (buf_len b) span"
proof -
  obtain c sp sn1 where s: "take_unseen_segments_in_range b (min (max (current_offset b) start) (buf_len b))
      (buf_len b) sn = ((c, sp), sn1)" by (metis prod.exhaust)
  then have "sn' = sn1" "b' = advance_offset_to (buf_len b) b" "span = sp \<or> span = range_span_default"
    using assms(2) by (auto simp: take_tail_from_def Let_def split: if_split_asm)
  with unseen_segments_view [OF assms(1) order_refl s, of "buf_len b"] show ?thesis by auto
qed

section \<open>The invariant of the pager\<close>

lemma session_inv_cursor [simp]: "session_inv (b\<lparr>cursor := c\<rparr>) ss = session_inv b ss"
proof -
  have "line_index_for_offset (b\<lparr>cursor := c\<rparr>) = line_index_for_offset b"
    "line_bounds_for_index (b\<lparr>cursor := c\<rparr>) = line_bounds_for_index b"
    "match_char (b\<lparr>cursor := c\<rparr>) = match_char b"
    by (auto simp: fun_eq_iff line_index_for_offset_def line_bounds_for_index_def match_char_def
        char_offset_for_byte_index_def)
  then have "hit_of (b\<lparr>cursor := c\<rparr>) = hit_of b" "match_lines (b\<lparr>cursor := c\<rparr>) = match_lines b"
    by (simp_all add: fun_eq_iff hit_of_def match_lines_def)
  then show ?thesis by (simp add: session_inv_def)
qed

definition wf_session :: "pager_buffer \<Rightarrow> search_session \<Rightarrow> bool" where
  "wf_session b ss \<longleftrightarrow>
     0 < buf_len b \<and> pattern (ss_pattern ss) \<noteq> [] \<and> ss_hits ss \<noteq> [] \<and>
     ss_current_index ss \<le> length (ss_hits ss) \<and>
     (ss_buffer_len ss = buf_len b \<longrightarrow> session_inv b ss)"

text \<open>The images shown so far are numbered from 1 on, without gaps.\<close>

definition wf_images :: "pager_state \<Rightarrow> bool" where
  "wf_images st \<longleftrightarrow>
     finite (dom (ps_image_numbers st)) \<and> ps_seen_images st = dom (ps_image_numbers st) \<and>
     ps_next_image_number st = min (Suc (card (dom (ps_image_numbers st)))) u64_max \<and>
     (card (dom (ps_image_numbers st)) \<le> u64_max \<longrightarrow>
      ran (ps_image_numbers st) = {1..card (dom (ps_image_numbers st))})"

definition wf_state :: "pager_state \<Rightarrow> bool" where
  "wf_state st \<longleftrightarrow>
     wf_buffer (ps_buffer st) \<and> wf_view (ps_buffer st) (ps_seen st) \<and>
     pred_option (wf_session (ps_buffer st)) (ps_session st) \<and>
     list_all (range_ok (buf_len (ps_buffer st))) (ps_view_history st) \<and>
     pred_option (range_ok (buf_len (ps_buffer st))) (ps_last_range st) \<and>
     pred_option (range_ok (buf_len (ps_buffer st))) (ps_last_emitted st) \<and> wf_images st"

definition wf_pager :: "pager \<Rightarrow> bool" where
  "wf_pager p \<longleftrightarrow> pred_option wf_state p"

text \<open>A session over the buffer as it is now.\<close>

definition fresh_session :: "pager_buffer \<Rightarrow> search_session \<Rightarrow> bool" where
  "fresh_session b ss \<longleftrightarrow> wf_session b ss \<and> ss_buffer_len ss = buf_len b"

definition outcome_ok :: "nat \<Rightarrow> command_outcome \<Rightarrow> bool" where
  "outcome_ok n co \<longleftrightarrow> list_all (range_ok n) (co_view_ranges co) \<and>
     pred_option (range_ok n) (co_first_range co) \<and> pred_option (range_ok n) (co_last_range co)"

text \<open>What a command's branch keeps: the invariant, and ranges inside the unchanged text.\<close>

definition same_images :: "pager_state \<Rightarrow> pager_state \<Rightarrow> bool" where
  "same_images st st' \<longleftrightarrow> ps_seen_images st' = ps_seen_images st \<and>
     ps_image_numbers st' = ps_image_numbers st \<and> ps_next_image_number st' = ps_next_image_number st"

definition command_ok :: "pager_state \<Rightarrow> command_outcome \<times> pager_state \<Rightarrow> bool" where
  "command_ok st r \<longleftrightarrow>
     wf_state (snd r) \<and> outcome_ok (buf_len (ps_buffer st)) (fst r) \<and>
     buf_len (ps_buffer (snd r)) = buf_len (ps_buffer st) \<and> same_images st (snd r)"

lemma fresh_session_inv: "fresh_session b ss \<Longrightarrow> session_inv b ss"
  by (simp add: fresh_session_def wf_session_def)

lemma wf_session_cursor [simp]: "wf_session (b\<lparr>cursor := c\<rparr>) ss = wf_session b ss"
  by (simp add: wf_session_def)

lemma wf_state_view:
  assumes "wf_state st" and "view_step (ps_buffer st) (ps_seen st) b sn"
  shows "wf_state (st\<lparr>ps_buffer := b, ps_seen := sn\<rparr>)"
proof -
  obtain c where b: "b = (ps_buffer st)\<lparr>cursor := c\<rparr>" and v: "wf_view b sn"
    using assms(2) by (auto simp: view_step_def)
  have "wf_buffer b" using assms(1) v b by (simp add: wf_state_def wf_buffer_def wf_view_def)
  moreover have "wf_session b = wf_session (ps_buffer st)" by (simp add: b fun_eq_iff)
  ultimately show ?thesis using assms(1) v b by (simp add: wf_state_def wf_images_def)
qed

lemma wf_state_buffer:
  "wf_state st \<Longrightarrow> view_step (ps_buffer st) (ps_seen st) b (ps_seen st) \<Longrightarrow> wf_state (st\<lparr>ps_buffer := b\<rparr>)"
  using wf_state_view [of st b "ps_seen st"] by simp

lemma wf_state_session:
  "wf_state st \<Longrightarrow> pred_option (wf_session (ps_buffer st)) s \<Longrightarrow> wf_state (st\<lparr>ps_session := s\<rparr>)"
  by (simp add: wf_state_def wf_images_def)

lemma wf_state_flag [simp]: "wf_state (st\<lparr>ps_needs_reseed := f\<rparr>) = wf_state st"
  by (simp add: wf_state_def wf_images_def)

lemma wf_state_parts:
  assumes "wf_state st"
  shows "wf_view (ps_buffer st) (ps_seen st)" and "wf_text (ps_buffer st)"
    and "pred_option (wf_session (ps_buffer st)) (ps_session st)"
  using assms by (simp_all add: wf_state_def wf_buffer_def)

locale paging_op =
  fixes op :: "pager_buffer \<Rightarrow> range_set \<Rightarrow> page_result \<times> pager_buffer \<times> range_set"
  assumes paging: "wf_view b sn \<Longrightarrow> op b sn = ((contents, left, span), b', sn') \<Longrightarrow>
    view_step b sn b' sn' \<and> span_ok (buf_len b) span"
begin

lemma page_outcome_ok:
  assumes "wf_state st" and "mk \<in> {outcome_page, outcome_page_keep, outcome_page_dismiss}"
  shows "command_ok st (page_outcome mk (op (ps_buffer st) (ps_seen st)) st)"
proof -
  obtain contents left span b sn where r: "op (ps_buffer st) (ps_seen st) = ((contents, left, span), b, sn)"
    by (metis prod_cases3)
  have v: "view_step (ps_buffer st) (ps_seen st) b sn" "span_ok (buf_len (ps_buffer st)) span"
    using paging [OF wf_state_parts(1) [OF assms(1)] r] by simp_all
  have "outcome_ok (buf_len (ps_buffer st)) (mk contents left (ps_is_error st) span)"
    using assms(2) v(2) by (auto simp: outcome_ok_def outcome_defs span_ok_def)
  then show ?thesis
    using wf_state_view [OF assms(1) v(1)] view_step_len [OF v(1)]
    by (simp add: command_ok_def page_outcome_def r same_images_def)
qed

end

interpretation next_pages: paging_op "take_next_pages page count" for page count
  by unfold_locales (rule take_next_pages_view)

interpretation skip_pages: paging_op "skip_pages_and_take_next page count" for page count
  by unfold_locales (rule skip_pages_view)

interpretation all_pages: paging_op "take_all page" for page
  by unfold_locales (rule take_all_view)

interpretation tail_pages: paging_op "take_tail page" for page
  by unfold_locales (simp only: take_tail_def Let_def, rule take_tail_from_view)

interpretation tail_lines: paging_op "take_tail_lines n" for n
  by unfold_locales (simp only: take_tail_lines_def, rule take_tail_from_view)

interpretation seek_page: paging_op "\<lambda>b. take_next_page page PagerMode (advance_offset_to offset b)" for page offset
proof
  fix b sn contents left span b' sn'
  assume wf: "wf_view b sn"
    and page: "take_next_page page PagerMode (advance_offset_to offset b) sn = ((contents, left, span), b', sn')"
  have "view_step (advance_offset_to offset b) sn b' sn' \<and> span_ok (buf_len (advance_offset_to offset b)) span"
    by (rule take_next_page_view [OF wf_view_advance [OF wf] page])
  with view_step_advance [OF wf, of offset] show "view_step b sn b' sn' \<and> span_ok (buf_len b) span"
    by (metis view_step_trans view_step_len)
qed

subsection \<open>Sessions\<close>

lemma indexed_session_fresh:
  assumes "wf_text b" and "lib_documented lib" and "pattern pat \<noteq> []"
    and "build_indexed_search_session lib b pat start limit = Some ss"
  shows "fresh_session b ss"
proof -
  note inv = indexed_session_inv [OF assms]
  have "ss_buffer_len ss = buf_len b" "0 < buf_len b"
    "ss_current_index ss = first_hit_index_for_offset (ss_hits ss) start"
    using assms(4)
    by (auto simp: build_indexed_search_session_def Let_def split: if_split_asm prod.split_asm)
  moreover have "first_hit_index_for_offset hs start \<le> length hs" for hs
    by (auto simp: first_hit_index_for_offset_def unwrap_or_def dest: position_less
        split: option.split intro: less_imp_le)
  ultimately show ?thesis
    using inv assms(3) by (auto simp: fresh_session_def wf_session_def session_inv_def)
qed

lemma forward_session_fresh:
  assumes "wf_text b" and "lib_documented lib" and "pattern pat \<noteq> []"
    and "build_forward_search_session lib b pat start = Some ss"
  shows "fresh_session b ss"
proof -
  note inv = forward_session_inv [OF assms]
  have "ss_buffer_len ss = buf_len b" "0 < buf_len b"
    using assms(4)
    by (auto simp: build_forward_search_session_def Let_def split: if_split_asm option.split_asm)
  then show ?thesis
    using inv assms(3) by (auto simp: fresh_session_def wf_session_def session_inv_def)
qed

lemmas built_fresh = indexed_session_fresh forward_session_fresh
lemmas session_builders = build_full_search_session_def build_bounded_search_session_def

text \<open>Changing the position in a session keeps it fresh.\<close>

lemma fresh_session_moved:
  "fresh_session b ss \<Longrightarrow> i \<le> length (ss_hits ss) \<Longrightarrow>
   fresh_session b (ss\<lparr>ss_current_index := i, ss_anchor_offset := a\<rparr>)"
  "fresh_session b ss \<Longrightarrow> i \<le> length (ss_hits ss) \<Longrightarrow> fresh_session b (ss\<lparr>ss_current_index := i\<rparr>)"
  by (simp_all add: fresh_session_def wf_session_def session_inv_def)

lemma moved_index_le:
  assumes "ss_current_index ss \<le> length (ss_hits ss)" and "ss_hits ss \<noteq> []" and "1 \<le> n"
  shows "moved_index ss n f \<le> length (ss_hits ss)"
    and "moved_index ss n f \<noteq> ss_current_index ss \<Longrightarrow> moved_index ss n f < length (ss_hits ss)"
proof -
  have n: "0 < length (ss_hits ss)" using assms(2) by simp
  have b: "boundary_hit_index (ss_hits ss) a \<le> length (ss_hits ss)" for a
    by (simp add: boundary_hit_index_def partition_point_le)
  from b [of "ss_anchor_offset ss"] show "moved_index ss n f \<le> length (ss_hits ss)"
    using assms(1) n by (auto simp: moved_index_def Let_def)
  show "moved_index ss n f < length (ss_hits ss)" if "moved_index ss n f \<noteq> ss_current_index ss"
    using that n b [of "ss_anchor_offset ss"] assms(1,3)
    by (auto simp: moved_index_def Let_def split: if_split_asm)
qed

lemma move_session_fresh:
  assumes "fresh_session b ss" and "move_search_session count f ss = (moved, ss')"
  shows "fresh_session b ss'" and "moved = Moved \<Longrightarrow> ss_current_index ss' < length (ss_hits ss')"
proof -
  have h: "ss_hits ss \<noteq> []" "ss_current_index ss \<le> length (ss_hits ss)"
    using assms(1) by (simp_all add: fresh_session_def wf_session_def)
  note le = moved_index_le [OF h(2,1), of "max count 1" f]
  show "fresh_session b ss'" and "moved = Moved \<Longrightarrow> ss_current_index ss' < length (ss_hits ss')"
    using assms h le by (auto simp: move_search_session_def Let_def fresh_session_moved split: if_split_asm)
qed

lemma goto_hit_fresh:
  assumes "fresh_session b ss" and "goto_search_hit i ss = (found, ss')"
  shows "fresh_session b ss'" and "found \<Longrightarrow> ss_current_index ss' < length (ss_hits ss')"
  using assms by (auto simp: goto_search_hit_def fresh_session_moved split: if_split_asm)

lemma extend_session_fresh:
  assumes "wf_text b" and "lib_documented lib" and "fresh_session b ss"
  shows "fresh_session b (extend_search_session_forward lib b n ss)"
proof -
  note ext = extend_session_inv [OF assms(1,2) fresh_session_inv [OF assms(3)], of n]
  have "ss_buffer_len (extend_loop lib b n ss) = ss_buffer_len ss" for ss
    by (induction lib b n ss rule: extend_loop.induct)
      (auto simp: extend_loop.simps session_exhausted_def Let_def split: option.split)
  then have "ss_buffer_len (extend_search_session_forward lib b n ss) = ss_buffer_len ss"
    by (simp add: extend_search_session_forward_def)
  with ext assms(3) show ?thesis
    by (auto simp: fresh_session_def wf_session_def extends_session_def session_inv_def)
qed

lemma rebuild_session_fresh:
  assumes "wf_text b" and "lib_documented lib" and "wf_session b old"
    and "rebuild_search_session lib b old start keep = Some ss"
  shows "fresh_session b ss"
proof -
  have pat: "pattern (ss_pattern old) \<noteq> []" using assms(3) by (simp add: wf_session_def)
  note built = built_fresh [OF assms(1,2) pat]
  show ?thesis
    using assms(4)
    by (auto simp: rebuild_search_session_def session_builders fresh_session_moved
        dest: built split: option.split_asm if_split_asm)
qed

lemma reseed_session_fresh:
  assumes "wf_text b" and "lib_documented lib" and "wf_session b old"
    and "reseed_search_session lib b old start = Some ss"
  shows "fresh_session b ss"
proof -
  have pat: "pattern (ss_pattern old) \<noteq> []" using assms(3) by (simp add: wf_session_def)
  obtain ss0 where "build_full_search_session lib b (ss_pattern old) start = Some ss0"
    and ss: "ss = ss0\<lparr>ss_anchor_offset := start, ss_current_index := length (ss_hits ss0)\<rparr>"
    using assms(4) by (auto simp: reseed_search_session_def)
  then have "fresh_session b ss0" using built_fresh(1) [OF assms(1,2) pat] by (auto simp: session_builders)
  with ss show ?thesis by (simp add: fresh_session_def wf_session_def session_inv_def)
qed

text \<open>
  What the three functions that prepare a session promise: the state stays well formed, text, view
  and images are kept, and on success there is a session over the present text.
\<close>

definition unsearched :: "pager_state \<Rightarrow> pager_state" where
  "unsearched st = st\<lparr>ps_session := None, ps_needs_reseed := False\<rparr>"

lemma unsearched_fields:
  assumes "unsearched st' = unsearched st"
  shows "ps_buffer st' = ps_buffer st" "ps_seen st' = ps_seen st" "same_images st st'"
  using assms by (cases st; cases st'; simp add: unsearched_def same_images_def)+

definition prepared :: "pager_state \<Rightarrow> bool \<times> pager_state \<Rightarrow> bool" where
  "prepared st r \<longleftrightarrow>
     wf_state (snd r) \<and> unsearched (snd r) = unsearched st \<and>
     (fst r \<longrightarrow> (\<exists>ss. ps_session (snd r) = Some ss \<and> fresh_session (ps_buffer st) ss))"

lemma preparedI:
  assumes "wf_state st" and "\<And>ss. s = Some ss \<Longrightarrow> fresh_session (ps_buffer st) ss"
  shows "prepared st (s \<noteq> None, st\<lparr>ps_session := s, ps_needs_reseed := f\<rparr>)"
proof -
  have "wf_state (st\<lparr>ps_session := s\<rparr>)"
    by (rule wf_state_session [OF assms(1)]) (use assms(2) in \<open>auto simp: option.pred_set fresh_session_def\<close>)
  then have "wf_state (st\<lparr>ps_session := s, ps_needs_reseed := f\<rparr>)" using wf_state_flag by metis
  then show ?thesis using assms(2) by (auto simp: prepared_def unsearched_def)
qed

lemma prepared_failed: "wf_state st \<Longrightarrow> prepared st (False, st)"
  by (simp add: prepared_def)

lemma prepared_done: "wf_state st \<Longrightarrow> ps_session st = Some ss \<Longrightarrow> fresh_session (ps_buffer st) ss \<Longrightarrow>
  prepared st (ok, st)"
  by (simp add: prepared_def)

lemma prepared_trans: "prepared st r \<Longrightarrow> prepared (snd r) r' \<Longrightarrow> prepared st r'"
  using unsearched_fields(1) [of "snd r" st] by (auto simp: prepared_def)

lemma ensure_from_pattern_prepared:
  assumes "wf_state st" and "lib_documented lib" and "pattern pat \<noteq> []"
  shows "prepared st (ensure_search_session_from_pattern lib pat start full st)"
proof (cases "if full then build_full_search_session lib (ps_buffer st) pat start
    else build_forward_search_session lib (ps_buffer st) pat start")
  case None
  then show ?thesis
    using prepared_failed [OF assms(1)] by (simp add: ensure_search_session_from_pattern_def)
next
  case (Some ss)
  then have "fresh_session (ps_buffer st) ss"
    using built_fresh [OF wf_state_parts(2) [OF assms(1)] assms(2,3)]
    by (auto simp: session_builders split: if_split_asm)
  then have "prepared st (True, st\<lparr>ps_session := Some ss, ps_needs_reseed := ps_needs_reseed st\<rparr>)"
    using preparedI [OF assms(1), of "Some ss" "ps_needs_reseed st"] by simp
  with Some show ?thesis by (simp add: ensure_search_session_from_pattern_def)
qed

lemma ensure_fresh_prepared:
  assumes "wf_state st" and "lib_documented lib"
  shows "prepared st (ensure_search_session_fresh lib st)"
proof (cases "ps_session st")
  case None
  then show ?thesis using prepared_failed [OF assms(1)] by (simp add: ensure_search_session_fresh_def)
next
  case (Some old)
  let ?b = "ps_buffer st"
  have old: "wf_session ?b old" using wf_state_parts(3) [OF assms(1)] Some by simp
  show ?thesis
  proof (cases "ss_buffer_len old = buf_len ?b \<and> \<not> ps_needs_reseed st")
    case True
    with old Some prepared_done [OF assms(1) Some] show ?thesis
      by (simp add: ensure_search_session_fresh_def fresh_session_def)
  next
    case False
    have fresh: "fresh_session ?b ss" if "(if ps_needs_reseed st
        then reseed_search_session lib ?b old (current_offset ?b)
        else rebuild_search_session lib ?b old (ss_anchor_offset old) True) = Some ss" for ss
      using that rebuild_session_fresh [OF _ assms(2) old] reseed_session_fresh [OF _ assms(2) old]
        wf_state_parts(2) [OF assms(1)] by (auto split: if_split_asm)
    show ?thesis
      using preparedI [OF assms(1) fresh, of _ False] Some False
      by (simp add: ensure_search_session_fresh_def Let_def del: not_None_eq) blast
  qed
qed

lemma ensure_complete_prepared:
  assumes "wf_state st" and "lib_documented lib" and "ps_session st = Some ss" and "fresh_session (ps_buffer st) ss"
  shows "prepared st (ensure_search_session_complete lib st)"
proof (cases "ss_complete ss \<and> ss_indexed_from_start ss \<or> current_search_anchor ss = None")
  case True
  with prepared_done [OF assms(1,3,4)] assms(3) show ?thesis
    by (auto simp: ensure_search_session_complete_def)
next
  case False
  let ?new = "build_full_search_session lib (ps_buffer st) (ss_pattern ss) (ss_anchor_offset ss)"
  have "pattern (ss_pattern ss) \<noteq> []" using assms(4) by (simp add: fresh_session_def wf_session_def)
  from built_fresh(1) [OF wf_state_parts(2) [OF assms(1)] assms(2) this]
  have "prepared st (?new \<noteq> None, st\<lparr>ps_session := ?new, ps_needs_reseed := ps_needs_reseed st\<rparr>)"
    by (intro preparedI [OF assms(1)]) (auto simp: session_builders)
  with False assms(3) show ?thesis by (auto simp: ensure_search_session_complete_def Let_def)
qed

lemma ensure_both_prepared:
  assumes "wf_state st" and "lib_documented lib"
  shows "prepared st (ensure_fresh_and_complete lib st)"
proof -
  obtain ok st1 where r: "ensure_search_session_fresh lib st = (ok, st1)" by fastforce
  have p: "prepared st (ok, st1)" using ensure_fresh_prepared [OF assms] r by simp
  then have st1: "wf_state st1" "ps_buffer st1 = ps_buffer st"
    using unsearched_fields(1) [of st1 st] by (auto simp: prepared_def)
  show ?thesis
  proof (cases ok)
    case True
    then obtain ss where "ps_session st1 = Some ss" "fresh_session (ps_buffer st1) ss"
      using p st1(2) by (auto simp: prepared_def)
    from ensure_complete_prepared [OF st1(1) assms(2) this] p True show ?thesis
      by (simp add: ensure_fresh_and_complete_def r prepared_trans [OF p])
  next
    case False
    with p show ?thesis by (simp add: ensure_fresh_and_complete_def r)
  qed
qed

subsection \<open>Commands\<close>

lemma prepared_ok:
  assumes "prepared st r" and "command_ok (snd r) out"
  shows "command_ok st out"
  using assms unsearched_fields [of "snd r" st] by (auto simp: prepared_def command_ok_def same_images_def)

lemma message_outcome_ok: "wf_state st \<Longrightarrow> command_ok st (message_outcome page m st)"
  by (simp add: command_ok_def message_outcome_def outcome_ok_def outcome_defs same_images_def)

lemma search_card_ok:
  assumes "wf_state st" and "fresh_session (ps_buffer st) ss"
  shows "command_ok st (search_card_outcome page ss st)"
proof -
  let ?b = "ps_buffer st"
  obtain contents rng resume where card:
    "render_search_card ?b ss (ps_view_history st) (default_stream st) = (contents, rng, resume)"
    by (metis prod_cases3)
  have "pred_option (range_ok (buf_len ?b)) rng"
  proof (cases "ss_current_index ss < length (ss_hits ss)")
    case True
    let ?h = "ss_hits ss ! ss_current_index ss"
    have "hit_of ?b (ss_pattern ss) ?h" "pattern (ss_pattern ss) \<noteq> []"
      using fresh_session_inv [OF assms(2)] True by (auto simp: session_inv_def list_all_length)
    then have "sh_match_start ?h < sh_line_end ?h" "sh_line_end ?h \<le> buf_len ?b" "buf_len ?b \<le> u64_max"
      using hit_of_bounds wf_state_parts(1,2) [OF assms(1)] by (auto simp: wf_view_def)
    with card True show ?thesis
      by (auto simp: render_search_card_def list_get_def Let_def card_ranges_def range_ok_def sat_add_def
          split: if_split_asm)
  next
    case False
    with card show ?thesis by (auto simp: render_search_card_def list_get_def)
  qed
  moreover define b' where "b' = (case resume of Some off \<Rightarrow> advance_offset_to off ?b | None \<Rightarrow> ?b)"
  have v: "view_step ?b (ps_seen st) b' (ps_seen st)"
    using wf_state_parts(1) [OF assms(1)]
    by (auto simp: b'_def view_step_advance view_step_refl split: option.split)
  have "wf_state (st\<lparr>ps_session := Some ss, ps_buffer := b'\<rparr>)"
    using wf_state_buffer [OF wf_state_session [OF assms(1)], of "Some ss" b'] assms(2) v
    by (simp add: fresh_session_def)
  ultimately show ?thesis
    using view_step_len [OF v] card
    by (auto simp: command_ok_def search_card_outcome_def outcome_ok_def outcome_defs Let_def same_images_def
        b'_def [symmetric] opt_list_def split: option.split)
qed

lemma line_bounds_range_ok:
  assumes "wf_text b" and "k < line_count b"
  shows "range_ok (buf_len b) (line_bounds_for_index b k)"
proof -
  note ends = wf_line_ends [OF assms(1)]
  have pos: "0 < buf_len b"
    using assms(2) wf_buf_len_bytes [OF assms(1)] by (cases "buf_bytes b = []") (simp_all add: line_count_def)
  have k: "k < length (line_ends b) \<or> k = length (line_ends b) \<and> (line_ends b \<noteq> [] \<longrightarrow> last (line_ends b) < buf_len b)"
    using assms(2) by (auto simp: line_count_def Let_def split: if_split_asm)
  show ?thesis
  proof (cases "k < length (line_ends b)")
    case True
    have "k > 0 \<Longrightarrow> line_ends b ! (k - 1) < line_ends b ! k"
      using ends(1) True by (simp add: sorted_wrt_iff_nth_less)
    with True ends(2) [of "line_ends b ! k"] show ?thesis
      by (cases "k = 0") (auto simp: range_ok_def line_bounds_nth)
  next
    case False
    with k pos show ?thesis
      by (cases "k = 0") (auto simp: range_ok_def line_bounds_nth last_conv_nth)
  qed
qed

lemma visible_prefix_range_ok:
  "range_ok n (s, e) \<Longrightarrow> list_all (range_ok n) (opt_list (visible_prefix_range s e line))"
  by (auto simp: visible_prefix_range_def Let_def range_ok_def opt_list_def)

subsubsection \<open>Listings\<close>

definition listing_ok :: "nat \<Rightarrow> listing \<Rightarrow> bool" where
  "listing_ok n l \<longleftrightarrow> span_ok n (lst_span l) \<and> list_all (range_ok n) (lst_views l)"

lemma match_context_line_ok:
  assumes "wf_text b" and "k < line_count b" and "listing_ok (buf_len b) l"
  shows "listing_ok (buf_len b) (match_context_line b i k l)"
proof -
  obtain s e where se: "line_bounds_for_index b k = (s, e)" by fastforce
  with line_bounds_range_ok [OF assms(1,2)] have ok: "range_ok (buf_len b) (s, e)" by simp
  show ?thesis
    using assms(3) se visible_prefix_range_ok [OF ok] ok
    by (simp add: match_context_line_def Let_def listing_ok_def span_ok_record)
qed

lemma match_entry_ok:
  assumes "wf_text b" and "pattern pat \<noteq> []" and "hit_of b pat (snd entry)" and "listing_ok (buf_len b) l"
  shows "listing_ok (buf_len b) (match_entry b p context entry l)"
proof -
  obtain i h where e: "entry = (i, h)" by fastforce
  have h: "sh_line_idx h < line_count b" using hit_of_bounds [OF assms(1,2)] assms(3) e by simp
  have ok: "range_ok (buf_len b) (sh_line_start h, sh_line_end h)"
    using assms(3) line_bounds_range_ok [OF assms(1) h] e by (simp add: hit_of_def)
  have fold: "listing_ok (buf_len b) (foldl (\<lambda>acc k. match_context_line b j k acc) l0 ks)"
    if "listing_ok (buf_len b) l0" "\<forall>k \<in> set ks. k < line_count b" for j l0 ks
    using that by (induction ks arbitrary: l0) (auto intro: match_context_line_ok [OF assms(1)])
  show ?thesis
  proof (cases "context = 0")
    case True
    then show ?thesis
      using assms(4) e ok visible_prefix_range_ok [OF ok]
      by (simp add: match_entry_def Let_def listing_ok_def span_ok_record)
  next
    case False
    have "listing_ok (buf_len b) (l\<lparr>lst_output := out\<rparr>)" for out
      using assms(4) by (simp add: listing_ok_def)
    note lst = this
    have ks: "\<forall>k \<in> set [i..<Suc (min j (line_count b - 1))]. k < line_count b" for i j using h by auto
    from False e show ?thesis
      by (simp only: match_entry_def Let_def prod.case if_False) (rule fold [OF lst ks])
  qed
qed

lemma matches_ok:
  assumes "wf_state st" and "fresh_session (ps_buffer st) ss"
  shows "command_ok st (matches_outcome page spec ss st)"
proof -
  let ?b = "ps_buffer st"
  note inv = fresh_session_inv [OF assms(2), unfolded session_inv_def]
  have fold: "listing_ok (buf_len ?b) (foldl (\<lambda>acc e. match_entry ?b p c e acc) l es)"
    if "listing_ok (buf_len ?b) l" "\<forall>e \<in> set es. hit_of ?b (ss_pattern ss) (snd e)" for p c l es
    using that inv
    by (induction es arbitrary: l) (auto intro: match_entry_ok [OF wf_state_parts(2) [OF assms(1)]])
  have "\<forall>e \<in> set (enumerate 0 (take n (ss_hits ss))). hit_of ?b (ss_pattern ss) (snd e)" for n
    using inv by (auto simp: list_all_iff in_set_enumerate_eq dest: nth_mem in_set_takeD)
  note l = fold [OF _ this, unfolded listing_ok_def]
  have start: "span_ok n range_span_default \<and> list_all (range_ok n) []" for n by simp
  note l = l [of "\<lparr>lst_output = [], lst_span = range_span_default, lst_views = []\<rparr>", simplified]
  show ?thesis
    using l [unfolded span_ok_def] assms(1) inv
    by (simp add: command_ok_def matches_outcome_def take_matches_def Let_def outcome_ok_def
        outcome_defs same_images_def listing_ok_def span_ok_def)
qed

subsubsection \<open>Hits\<close>

definition hit_lines_ok :: "pager_buffer \<Rightarrow> range_set \<Rightarrow> hit_lines \<Rightarrow> bool" where
  "hit_lines_ok b sn st \<longleftrightarrow> view_step b sn b (hl_seen st) \<and>
     pred_option (range_ok (buf_len b)) (ho_first_range (hl_out st)) \<and>
     pred_option (range_ok (buf_len b)) (ho_last_range (hl_out st)) \<and>
     list_all (range_ok (buf_len b)) (ho_view_ranges (hl_out st))"

lemma view_step_insert:
  assumes "view_step b sn b sn'" and "range_ok (buf_len b) (s, e)"
  shows "view_step b sn b (range_insert s e sn')"
proof -
  have wf: "wf_range_set sn'" using assms(1) by (simp add: view_step_def wf_view_def)
  show ?thesis
    using assms seen.inv_ins [OF wf] seen.pts_ins [OF wf]
    by (fastforce simp: view_step_def wf_view_def range_ok_def)
qed

lemma hit_line_ok:
  assumes "wf_text b" and "k < line_count b" and "hit_lines_ok b sn st"
  shows "hit_lines_ok b sn (hit_line b i k st)"
proof -
  obtain s e where se: "line_bounds_for_index b k = (s, e)" by fastforce
  with line_bounds_range_ok [OF assms(1,2)] have ok: "range_ok (buf_len b) (s, e)" by simp
  show ?thesis
    using assms(3) se visible_prefix_range_ok [OF ok] ok
    by (auto simp: hit_line_def Let_def hit_lines_ok_def view_step_insert split: option.split)
qed

definition hit_output_ok :: "nat \<Rightarrow> hit_output \<Rightarrow> bool" where
  "hit_output_ok n out \<longleftrightarrow> pred_option (range_ok n) (ho_first_range out) \<and>
     pred_option (range_ok n) (ho_last_range out) \<and> list_all (range_ok n) (ho_view_ranges out)"

definition hit_result_ok ::
  "pager_buffer \<Rightarrow> range_set \<Rightarrow> hit_take_result \<times> pager_buffer \<times> hit_state \<times> range_set \<Rightarrow> bool" where
  "hit_result_ok b sn res \<longleftrightarrow>
     (case res of (r, b', hst, sn') \<Rightarrow> view_step b sn b' sn' \<and>
        (case r of HitFound out \<Rightarrow> hit_output_ok (buf_len b) out | _ \<Rightarrow> True))"

lemma hit_output_ok_text [simp]: "hit_output_ok n (out\<lparr>ho_text := t\<rparr>) = hit_output_ok n out"
  by (simp add: hit_output_ok_def)

lemma take_next_hit_ok:
  assumes "wf_text b" and "wf_view b sn"
  shows "hit_result_ok b sn (take_next_hit lib b hst sn)"
proof (cases "current_offset b \<ge> buf_len b \<or> line_count b = 0")
  case True
  with view_step_refl [OF assms(2)] show ?thesis by (simp add: take_next_hit_def hit_result_ok_def)
next
  case go: False
  have fold: "hit_lines_ok b sn (foldl (\<lambda>acc k. hit_line b i k acc) st0 ks)"
    if "hit_lines_ok b sn st0" "\<forall>k \<in> set ks. k < line_count b" for i st0 ks
    using that by (induction ks arbitrary: st0) (auto intro: hit_line_ok [OF assms(1)])
  have adv: "view_step b sn (advance_offset_to e b) s" if "view_step b sn b s" for e s
    using that view_step_advance view_step_trans view_step_wf by blast
  have start: "hit_lines_ok b sn \<lparr>hl_out = \<lparr>ho_text = lbl, ho_first_range = None, ho_last_range = None,
      ho_view_ranges = []\<rparr>, hl_seen = sn, hl_last_line = None\<rparr>" for lbl
    using view_step_refl [OF assms(2)] by (simp add: hit_lines_ok_def)
  have ks: "\<forall>k \<in> set [i..<Suc (min j (line_count b - 1))]. k < line_count b" for i j
    using go by auto
  have lines: "view_step b sn (advance_offset_to e b) (hl_seen st)" "hit_output_ok (buf_len b) (hl_out st)"
    if "hit_lines_ok b sn st" for st e
    using that adv by (simp_all add: hit_lines_ok_def hit_output_ok_def)
  have none: "hit_output_ok n \<lparr>ho_text = lbl, ho_first_range = None, ho_last_range = None,
      ho_view_ranges = []\<rparr>" for n lbl by (simp add: hit_output_ok_def)
  show ?thesis
  proof (cases "find_next_unseen_match_line lib b (current_offset b) (hst_pattern hst) sn")
    case (FoundLine ml)
    with go show ?thesis
      by (simp add: take_next_hit_def hit_result_ok_def Let_def none lines [OF fold [OF start ks]]
          adv [OF view_step_refl [OF assms(2)]] del: upt_Suc One_nat_def)
  qed (use go view_step_refl [OF assms(2)] in \<open>simp_all add: take_next_hit_def hit_result_ok_def\<close>)
qed

lemma take_hits_view:
  assumes "wf_text b" and "wf_view b sn" and "span_ok (buf_len b) span" and "list_all (range_ok (buf_len b)) views"
    and "hits_loop lib page n b hst sn acc span views = ((contents, left, span', views'), b', sn')"
  shows "view_step b sn b' sn' \<and> span_ok (buf_len b) span' \<and> list_all (range_ok (buf_len b)) views'"
  using assms
proof (induction n arbitrary: b hst sn acc span views)
  case 0
  then show ?case by (auto intro: view_step_refl split: if_split_asm)
next
  case (Suc n)
  obtain r b1 hst1 sn1 where t: "take_next_hit lib b hst sn = (r, b1, hst1, sn1)" by (metis prod_cases4)
  have ok: "view_step b sn b1 sn1" "r = HitFound out \<Longrightarrow> hit_output_ok (buf_len b) out" for out
    using take_next_hit_ok [OF Suc.prems(1,2), of lib hst] t by (auto simp: hit_result_ok_def)
  then have b1: "wf_text b1" "wf_view b1 sn1" "buf_len b1 = buf_len b"
    using Suc.prems(1) by (auto simp: view_step_def)
  show ?case
  proof (cases r)
    case (HitFound out)
    let ?span = "span_record (ho_last_range out) (span_record (ho_first_range out) span)"
    have "hits_loop lib page n b1 hst1 sn1 (acc @ ho_text out) ?span (views @ ho_view_ranges out)
        = ((contents, left, span', views'), b', sn')"
      using Suc.prems(5) t HitFound by simp
    then have "view_step b1 sn1 b' sn' \<and> span_ok (buf_len b1) span' \<and> list_all (range_ok (buf_len b1)) views'"
      using ok(2) [OF HitFound] Suc.prems(3,4) b1
      by (intro Suc.IH) (auto simp: hit_output_ok_def span_ok_record)
    with ok(1) b1 show ?thesis using view_step_trans by metis
  qed (use Suc.prems(3-5) t ok in \<open>auto simp: hits_reply_def split: if_split_asm\<close>)
qed

lemma run_hits_ok:
  assumes "wf_state st"
  shows "command_ok st (run_hits lib page spec st)"
proof -
  obtain contents left span views b sn where h:
    "take_hits_next lib (ps_buffer st) (hit_state_new (hit_pattern spec) (hit_context spec)) page
       (hit_count spec) (ps_seen st) = ((contents, left, span, views), b, sn)"
    by (metis prod_cases4 prod.exhaust)
  have v: "view_step (ps_buffer st) (ps_seen st) b sn" "span_ok (buf_len (ps_buffer st)) span"
    "list_all (range_ok (buf_len (ps_buffer st))) views"
    using take_hits_view [OF wf_state_parts(2,1) [OF assms] _ _ h [unfolded take_hits_next_def]] by simp_all
  show ?thesis
    using wf_state_view [OF assms v(1)] view_step_len [OF v(1)] v(2,3)
    by (simp add: command_ok_def run_hits_def h outcome_ok_def outcome_defs same_images_def span_ok_def)
qed

lemma run_search_ok:
  assumes "wf_state st" and "lib_documented lib" and "pattern pat \<noteq> []"
  shows "command_ok st (run_search lib page pat st)"
proof -
  let ?o = "current_offset (ps_buffer st)"
  obtain ok1 st1 where r1: "ensure_search_session_from_pattern lib pat ?o False st = (ok1, st1)" by fastforce
  obtain ok2 st2 where r2: "ensure_search_session_from_pattern lib pat ?o True st1 = (ok2, st2)" by fastforce
  have p1: "prepared st (ok1, st1)" using ensure_from_pattern_prepared [OF assms] r1 by metis
  then have st1: "wf_state st1" "ps_buffer st1 = ps_buffer st"
    using unsearched_fields(1) [of st1 st] by (auto simp: prepared_def)
  have p2: "prepared st1 (ok2, st2)" using ensure_from_pattern_prepared [OF st1(1) assms(2,3)] r2 by metis
  note p2' = prepared_trans [OF p1, unfolded snd_conv, OF p2]
  then have st2: "wf_state st2" "ps_buffer st2 = ps_buffer st"
    using unsearched_fields(1) [of st2 st] by (auto simp: prepared_def)
  show ?thesis
  proof (cases ok1)
    case True
    then obtain ss where ss: "ps_session st1 = Some ss" "fresh_session (ps_buffer st1) ss"
      using p1 st1 by (auto simp: prepared_def)
    from prepared_ok [OF p1, unfolded snd_conv, OF search_card_ok [OF st1(1) ss(2)]] True ss(1) show ?thesis
      by (simp add: run_search_def r1 Let_def)
  next
    case no1: False
    show ?thesis
    proof (cases ok2)
      case True
      then obtain ss where ss: "ps_session st2 = Some ss" "fresh_session (ps_buffer st2) ss"
        using p2' st2 by (auto simp: prepared_def)
      have "fresh_session (ps_buffer st2) (snd (move_search_session 1 False ss))"
        using move_session_fresh(1) [OF ss(2)] by (metis prod.collapse)
      from prepared_ok [OF p2', unfolded snd_conv, OF search_card_ok [OF st2(1) this]] no1 True ss(1)
      show ?thesis by (simp add: run_search_def r1 r2 Let_def)
    next
      case False
      have "command_ok (st2\<lparr>ps_session := None\<rparr>) (message_outcome page m (st2\<lparr>ps_session := None\<rparr>))" for m
        using st2(1) by (intro message_outcome_ok wf_state_session) simp_all
      moreover have "prepared st (False, st2\<lparr>ps_session := None\<rparr>)"
        using p2' wf_state_session [OF st2(1), of None] by (simp add: prepared_def unsearched_def)
      ultimately show ?thesis
        using no1 False prepared_ok [of st "(False, st2\<lparr>ps_session := None\<rparr>)"]
        by (simp add: run_search_def r1 r2 Let_def)
    qed
  qed
qed

lemma session_case_ok:
  assumes "prepared st r"
    and "\<And>st1 ss. wf_state st1 \<Longrightarrow> fresh_session (ps_buffer st1) ss \<Longrightarrow> command_ok st1 (f st1 ss)"
    and "\<And>st1. wf_state st1 \<Longrightarrow> command_ok st1 (g st1)"
  shows "command_ok st (case (fst r, ps_session (snd r)) of (True, Some ss) \<Rightarrow> f (snd r) ss | _ \<Rightarrow> g (snd r))"
proof -
  have r: "wf_state (snd r)" "ps_buffer (snd r) = ps_buffer st"
    using assms(1) unsearched_fields(1) [of "snd r" st] by (auto simp: prepared_def)
  show ?thesis
    using assms(1,2) assms(3) [OF r(1)] r
    by (intro prepared_ok [OF assms(1)]) (auto simp: prepared_def split: option.split bool.split)
qed

lemma run_matches_ok:
  assumes "wf_state st" and "lib_documented lib" and "pred_option wf_pattern (match_pattern spec)"
  shows "command_ok st (run_matches lib page spec st)"
proof (cases "match_pattern spec")
  case (Some pat)
  then have pat: "pattern pat \<noteq> []" using assms(3) by (simp add: wf_pattern_def)
  show ?thesis
  proof (cases "build_matches_session lib (ps_buffer st) pat (match_limit spec)")
    case None
    have wf: "wf_state (st\<lparr>ps_session := None\<rparr>)" by (rule wf_state_session [OF assms(1)]) simp
    have "prepared st (False, st\<lparr>ps_session := None\<rparr>)" using wf by (simp add: prepared_def unsearched_def)
    from prepared_ok [OF this, unfolded snd_conv, OF message_outcome_ok [OF wf]] Some None show ?thesis
      by (simp add: run_matches_def)
  next
    case (Some ss)
    let ?ss = "snd (goto_search_hit 1 ss)" and ?st = "st\<lparr>ps_session := Some (snd (goto_search_hit 1 ss))\<rparr>"
    have "fresh_session (ps_buffer st) ss"
      using built_fresh(1) [OF wf_state_parts(2) [OF assms(1)] assms(2) pat] Some
      by (simp add: build_matches_session_def session_builders)
    then have f: "fresh_session (ps_buffer st) ?ss" using goto_hit_fresh(1) by (metis prod.collapse)
    then have wf: "wf_state ?st" by (intro wf_state_session [OF assms(1)]) (simp add: fresh_session_def)
    have "prepared st (True, ?st)" using wf f by (simp add: prepared_def unsearched_def)
    from prepared_ok [OF this, unfolded snd_conv, OF matches_ok [OF wf]] f Some \<open>match_pattern spec = Some pat\<close>
    show ?thesis by (simp add: run_matches_def Let_def)
  qed
next
  case None
  then show ?thesis
    using session_case_ok [where f = "\<lambda>st1 ss. matches_outcome page spec ss st1", OF ensure_both_prepared [OF assms(1,2)]
        matches_ok message_outcome_ok]
    by (simp add: run_matches_def case_prod_beta)
qed

lemma session_updated_ok:
  assumes "wf_state st" and "fresh_session (ps_buffer st) ss"
  shows "command_ok st (message_outcome page m (st\<lparr>ps_session := Some ss\<rparr>))"
proof -
  have "wf_state (st\<lparr>ps_session := Some ss\<rparr>)"
    using assms by (intro wf_state_session) (simp_all add: fresh_session_def)
  from message_outcome_ok [OF this, of page m] show ?thesis by (simp add: command_ok_def same_images_def)
qed

text \<open>Moving in a session and showing its card, or a message when the boundary is reached.\<close>

lemma run_search_next_ok:
  assumes "wf_state st" and "lib_documented lib"
  shows "command_ok st (run_search_next lib page count st)"
proof -
  let ?card = "\<lambda>st1 ss. let needed_hits = sat_add (ss_current_index ss) (wrap_add (max count 1) 1);
         ss1 = extend_search_session_forward lib (ps_buffer st1) needed_hits ss;
         (moved, ss2) = move_search_session count True ss1
       in if moved = Boundary then message_outcome page (search_boundary_message ss2 True) (st1\<lparr>ps_session := Some ss2\<rparr>)
          else search_card_outcome page ss2 st1"
  have card: "command_ok st1 (?card st1 ss)"
    if "wf_state st1" "fresh_session (ps_buffer st1) ss" for st1 ss
    using move_session_fresh(1) [OF extend_session_fresh [OF wf_state_parts(2) [OF that(1)] assms(2) that(2)]]
      session_updated_ok [OF that(1)] search_card_ok [OF that(1)]
    by (simp add: Let_def split: prod.split)
  have pages: "command_ok st1 (page_outcome outcome_page_keep (take_next_pages page count (ps_buffer st1) (ps_seen st1)) st1)"
    if "wf_state st1" for st1 using that by (simp add: next_pages.page_outcome_ok)
  show ?thesis
    using session_case_ok [where f = ?card and g = "\<lambda>st1. page_outcome outcome_page_keep
          (take_next_pages page count (ps_buffer st1) (ps_seen st1)) st1", OF ensure_fresh_prepared [OF assms] card pages]
    by (simp add: run_search_next_def case_prod_beta Let_def)
qed

lemma run_search_prev_ok:
  assumes "wf_state st" and "lib_documented lib"
  shows "command_ok st (run_search_prev lib page count st)"
proof -
  let ?card = "\<lambda>st1 ss. let (moved, ss') = move_search_session count False ss
       in if moved = Boundary then message_outcome page (search_boundary_message ss' False) (st1\<lparr>ps_session := Some ss'\<rparr>)
          else search_card_outcome page ss' st1"
  have card: "command_ok st1 (?card st1 ss)"
    if "wf_state st1" "fresh_session (ps_buffer st1) ss" for st1 ss
    using move_session_fresh(1) [OF that(2)] session_updated_ok [OF that(1)] search_card_ok [OF that(1)]
    by (simp split: prod.split)
  show ?thesis
    using session_case_ok [where f = ?card and g = "\<lambda>st1. message_outcome page no_active_search st1", OF ensure_both_prepared [OF assms] card message_outcome_ok]
    by (simp add: run_search_prev_def case_prod_beta Let_def)
qed

lemma run_goto_ok:
  assumes "wf_state st" and "lib_documented lib"
  shows "command_ok st (run_goto lib page index st)"
proof -
  let ?card = "\<lambda>st1 ss. let (found, ss') = goto_search_hit index ss
       in if found then search_card_outcome page ss' st1
          else message_outcome page (''[pager] search hit out of range: '' @ dec index) (st1\<lparr>ps_session := Some ss'\<rparr>)"
  have card: "command_ok st1 (?card st1 ss)"
    if "wf_state st1" "fresh_session (ps_buffer st1) ss" for st1 ss
    using goto_hit_fresh(1) [OF that(2)] session_updated_ok [OF that(1)] search_card_ok [OF that(1)]
    by (simp split: prod.split)
  show ?thesis
    using session_case_ok [where f = ?card and g = "\<lambda>st1. message_outcome page no_active_search st1", OF ensure_both_prepared [OF assms] card message_outcome_ok]
    by (simp add: run_goto_def case_prod_beta Let_def)
qed

lemma run_range_ok:
  assumes "wf_state st"
  shows "command_ok st (run_range page s e st)"
proof -
  let ?b = "ps_buffer st"
  obtain contents span sn where t: "take_line_range s e ?b (ps_seen st) = ((contents, span), sn)"
    by (metis prod.exhaust)
  have "view_step ?b (ps_seen st) ?b sn \<and> span_ok (buf_len ?b) span"
  proof (cases "line_range_offsets ?b s e")
    case None
    with t view_step_refl [OF wf_state_parts(1) [OF assms]] show ?thesis by (auto simp: take_line_range_def)
  next
    case (Some r)
    have "snd r \<le> buf_len ?b"
      using Some wf_line_ends(2) [OF wf_state_parts(2) [OF assms]]
      by (auto simp: line_range_offsets_def line_end_offset_def list_get_def split: if_split_asm option.split_asm)
    moreover have "take_unseen_segments_in_range ?b (fst r) (snd r) (ps_seen st) = ((contents, span), sn)"
      using t Some by (simp add: take_line_range_def case_prod_beta)
    ultimately show ?thesis using unseen_segments_view [OF wf_state_parts(1) [OF assms]] by blast
  qed
  then show ?thesis
    using wf_state_view [OF assms, of ?b sn]
    by (simp add: command_ok_def run_range_def t Let_def outcome_ok_def outcome_defs span_ok_def same_images_def)
qed

lemma run_seek_ok:
  assumes "wf_state st"
  shows "command_ok st (run_seek page spec st)"
  using seek_page.page_outcome_ok [OF assms, of outcome_page page] assms
  by (simp add: run_seek_def Let_def command_ok_def outcome_ok_def outcome_defs same_images_def
      split: seek_spec.split option.split)

lemma run_command_ok:
  assumes "wf_state st" and "lib_documented lib" and "wf_command command"
  shows "command_ok st (run_command lib page command st)"
proof -
  have plain: "command_ok st (outcome_new c l e f None None d, st)" for c l e f d
    using assms(1) by (simp add: command_ok_def outcome_ok_def outcome_new_def same_images_def)
  show ?thesis
  proof (cases command)
    case (Tail spec)
    then show ?thesis
      using tail_pages.page_outcome_ok [OF assms(1), of outcome_page_dismiss]
        tail_lines.page_outcome_ok [OF assms(1), of outcome_page_dismiss]
      by (simp add: run_tail_def split: tail_spec.split)
  qed (use assms next_pages.page_outcome_ok [OF assms(1), of outcome_page]
      skip_pages.page_outcome_ok [OF assms(1), of outcome_page] all_pages.page_outcome_ok [OF assms(1), of outcome_page]
      plain run_search_ok run_matches_ok run_hits_ok run_search_next_ok run_search_prev_ok run_goto_ok
      run_range_ok run_seek_ok
    in \<open>simp_all add: outcome_no_range_def wf_pattern_def wf_match_spec_def wf_hit_spec_def\<close>)
qed

section \<open>Images\<close>

definition image_ids :: "worker_content list \<Rightarrow> string list" where
  "image_ids cs = concat (map (\<lambda>c. case c of ContentImage _ _ i _ \<Rightarrow> [i] | ContentText _ _ _ _ \<Rightarrow> []) cs)"

lemma image_ids_simps [simp]:
  "image_ids [] = []" "image_ids (ContentText t s orig v # cs) = image_ids cs"
  "image_ids (ContentImage d m i n # cs) = i # image_ids cs" "image_ids (xs @ ys) = image_ids xs @ image_ids ys"
  "image_ids (server_stderr t # cs) = image_ids cs"
  by (simp_all add: image_ids_def server_stderr_def)

text \<open>The state but for the images.\<close>

definition imageless :: "pager_state \<Rightarrow> pager_state" where
  "imageless st = st\<lparr>ps_seen_images := {}, ps_image_numbers := Map.empty, ps_next_image_number := 0\<rparr>"

lemma wf_state_imageless:
  assumes "wf_state st" and "imageless st' = imageless st" and "wf_images st'"
  shows "wf_state st'"
  using assms by (cases st; cases st'; simp add: imageless_def wf_state_def)

lemma imageless_fields:
  assumes "imageless st' = imageless st"
  shows "ps_buffer st' = ps_buffer st"
  using assms by (cases st; cases st'; simp add: imageless_def)

lemma dedupe_image_frame: "imageless (snd (dedupe_image c st)) = imageless st"
  by (simp add: dedupe_image_def Let_def imageless_def split: worker_content.split option.split)

lemma dedupe_image_wf:
  assumes "wf_images st"
  shows "wf_images (snd (dedupe_image c st))"
proof (cases c)
  case (ContentImage d m i n)
  let ?D = "dom (ps_image_numbers st)"
  show ?thesis
  proof (cases "ps_image_numbers st i")
    case None
    then have "i \<notin> ?D" "i \<notin> ps_seen_images st" using assms by (auto simp: wf_images_def)
    then have "card (insert i ?D) = Suc (card ?D)" using assms by (simp add: wf_images_def)
    moreover have "{1..Suc (card ?D)} = insert (Suc (card ?D)) {1..card ?D}" by auto
    ultimately show ?thesis
      using assms None \<open>i \<notin> ?D\<close> \<open>i \<notin> ps_seen_images st\<close> ContentImage
      by (auto simp: dedupe_image_def wf_images_def Let_def sat_add_def min_def ran_map_upd)
  next
    case (Some n)
    then have "i \<in> ps_seen_images st" using assms by (auto simp: wf_images_def)
    with Some ContentImage assms show ?thesis by (simp add: dedupe_image_def Let_def)
  qed
qed (use assms in \<open>simp add: dedupe_image_def\<close>)

lemma dedupe_loop_wf:
  assumes "dedupe_loop cs st = (cs', st')"
  shows "imageless st' = imageless st" and "wf_images st \<Longrightarrow> wf_images st'"
proof -
  have "imageless st' = imageless st \<and> (wf_images st \<longrightarrow> wf_images st')"
    using assms
  proof (induction cs arbitrary: st cs' st')
    case (Cons c cs)
    obtain c1 st1 where d: "dedupe_image c st = (c1, st1)" by fastforce
    obtain cs2 st2 where r: "dedupe_loop cs st1 = (cs2, st2)" by fastforce
    with Cons.prems d have "st' = st2" by simp
    with Cons.IH [OF r] dedupe_image_frame [of c st] dedupe_image_wf [of st c] d show ?case by auto
  qed simp
  then show "imageless st' = imageless st" "wf_images st \<Longrightarrow> wf_images st'" by simp_all
qed

lemma dedupe_loop_once:
  assumes "dedupe_loop cs st = (cs', st')"
  shows "distinct (image_ids cs')" and "set (image_ids cs') \<inter> ps_seen_images st = {}"
    and "ps_seen_images st' = ps_seen_images st \<union> set (image_ids cs')"
    and "set (image_ids cs) \<subseteq> ps_seen_images st'"
proof -
  have "distinct (image_ids cs') \<and> set (image_ids cs') \<inter> ps_seen_images st = {} \<and>
      ps_seen_images st' = ps_seen_images st \<union> set (image_ids cs') \<and> set (image_ids cs) \<subseteq> ps_seen_images st'"
    using assms
  proof (induction cs arbitrary: st cs' st')
    case (Cons c cs)
    obtain c1 st1 where d: "dedupe_image c st = (c1, st1)" by fastforce
    obtain cs2 st2 where r: "dedupe_loop cs st1 = (cs2, st2)" by fastforce
    from Cons.prems d r have eq: "st' = st2" "cs' = c1 # cs2" by simp_all
    note IH = Cons.IH [OF r]
    show ?case
    proof (cases c)
      case (ContentText t s orig v)
      with d IH eq show ?thesis by (auto simp: dedupe_image_def)
    next
      case (ContentImage dt m i n)
      have "ps_seen_images st1 = insert i (ps_seen_images st)"
        and "c1 = c \<and> i \<notin> ps_seen_images st \<or> image_ids [c1] = [] \<and> i \<in> ps_seen_images st"
        using d ContentImage
        by (auto simp: dedupe_image_def Let_def already_shown_note_def split: option.split_asm if_split_asm)
      with IH eq ContentImage show ?thesis
        by (cases c1) (auto simp: insert_absorb)
    qed
  qed simp
  then show "distinct (image_ids cs')" "set (image_ids cs') \<inter> ps_seen_images st = {}"
    "ps_seen_images st' = ps_seen_images st \<union> set (image_ids cs')"
    "set (image_ids cs) \<subseteq> ps_seen_images st'" by blast+
qed

lemma gap_marker_text: "image_ids (opt_list (gap_marker_if_needed a f s)) = []"
  by (auto simp: gap_marker_if_needed_def elision_marker_def opt_list_def Let_def split: option.split)

lemma note_outcome_wf:
  assumes "wf_state st" and "outcome_ok (buf_len (ps_buffer st)) co"
  shows "wf_state (snd (note_outcome command c co contents st))"
    and "same_images st (snd (note_outcome command c co contents st))"
    and "image_ids (fst (note_outcome command c co contents st)) = image_ids contents"
  using assms
  by (simp_all add: note_outcome_def Let_def wf_state_def outcome_ok_def wf_images_def same_images_def
      gap_marker_text)

lemma wf_state_last_range:
  "wf_state st \<Longrightarrow> pred_option (range_ok (buf_len (ps_buffer st))) r \<Longrightarrow> wf_state (st\<lparr>ps_last_range := r\<rparr>)"
  by (simp add: wf_state_def wf_images_def)

text \<open>
  What a command of an active pager does: the pager it leaves is well formed, and the images of
  the reply are new ones, which are then marked as seen.
\<close>

lemma handle_command_active:
  assumes "wf_state st" and "lib_documented lib"
    and "handle_command lib ce be input (Some st) = (reply, p')"
  shows "wf_pager p'" and "distinct (image_ids (reply_contents reply))"
    and "set (image_ids (reply_contents reply)) \<inter> ps_seen_images st = {}"
    and "p' = Some st' \<Longrightarrow> ps_seen_images st' = ps_seen_images st \<union> set (image_ids (reply_contents reply))"
proof -
  have "wf_pager p' \<and> distinct (image_ids (reply_contents reply)) \<and>
    set (image_ids (reply_contents reply)) \<inter> ps_seen_images st = {} \<and>
    (\<forall>st'. p' = Some st' \<longrightarrow> ps_seen_images st' = ps_seen_images st \<union> set (image_ids (reply_contents reply)))"
  proof (cases "parse_command input")
    case None
    with assms show ?thesis
      by (auto simp: handle_command_def pager_reply_def wf_pager_def Let_def)
  next
    case (Some command)
    show ?thesis
    proof (cases "command = Quit")
      case True
      with Some assms(3) show ?thesis
        by (auto simp: handle_command_def pager_reply_def wf_pager_def Let_def dismiss_def)
    next
      case False
      let ?page = "page_bytes ce be"
      obtain co st1 where r: "run_command lib ?page command st = (co, st1)" by fastforce
      define st2 where "st2 = (if co_update_range co then st1\<lparr>ps_last_range := co_last_range co\<rparr> else st1)"
      obtain cs st3 where d: "dedupe_loop (co_contents co) st2 = (cs, st3)" by fastforce
      obtain cs4 st4 where noted: "note_outcome command (current_offset (ps_buffer st)) co cs st3 = (cs4, st4)"
        by fastforce
      have "wf_command command" using parse_command_wf [of input] Some by simp
      from run_command_ok [OF assms(1,2) this, of ?page] r
      have ok: "wf_state st1" "outcome_ok (buf_len (ps_buffer st1)) co" "same_images st st1"
        by (auto simp: command_ok_def)
      have st2: "wf_state st2" "ps_buffer st2 = ps_buffer st1" "same_images st st2"
        using ok wf_state_last_range [OF ok(1), of "co_last_range co"]
        by (auto simp: st2_def same_images_def outcome_ok_def)
      note dd = dedupe_loop_wf [OF d] and once = dedupe_loop_once [OF d]
      have "wf_state st3" using wf_state_imageless [OF st2(1) dd(1) dd(2)] st2(1) by (simp add: wf_state_def)
      moreover have "outcome_ok (buf_len (ps_buffer st3)) co" using imageless_fields [OF dd(1)] st2(2) ok(2) by simp
      ultimately have n: "wf_state st4" "same_images st3 st4" "image_ids cs4 = image_ids cs"
        using note_outcome_wf [of st3 co] noted by (metis fst_conv snd_conv)+
      have eq: "reply_contents reply = cs4 @ [server_stderr (footer (Some st4) (if co_dismiss co then 0 else co_pages_left co))]"
        "p' = (if co_dismiss co then dismiss (Some st4) else Some st4)"
        using assms(3) Some False r d [unfolded st2_def] noted
        by (auto simp: handle_command_def pager_reply_def Let_def)
      show ?thesis
        using eq n once(1-3) st2(3) by (auto simp: wf_pager_def same_images_def dismiss_def)
    qed
  qed
  then show "wf_pager p'" and "distinct (image_ids (reply_contents reply))"
    and "set (image_ids (reply_contents reply)) \<inter> ps_seen_images st = {}"
    and "p' = Some st' \<Longrightarrow> ps_seen_images st' = ps_seen_images st \<union> set (image_ids (reply_contents reply))"
    by blast+
qed

section \<open>New output and first pages\<close>

lemma append_range_wf:
  assumes "wf_buffer b" and "lib_documented lib"
    and "length (buf_bytes (append_timeline_range lib r b)) \<le> u64_max"
  shows "wf_buffer (append_timeline_range lib r b)" and "buf_len b \<le> buf_len (append_timeline_range lib r b)"
    and "cursor (append_timeline_range lib r b) = cursor b"
  using keeps_append_timeline_range [OF assms(2), of b r] assms(1,3)
  by (auto simp: keeps_def wf_buffer_def intro: order_trans)

lemma wf_buffer_len: "wf_buffer b \<Longrightarrow> length (buf_bytes b) \<le> u64_max \<Longrightarrow> buf_len b \<le> u64_max"
  using index_char_le [of "length (buf_bytes b)" "char_to_byte b"]
  by (fastforce simp: wf_buffer_def wf_text_def buf_len_def)

lemma range_ok_mono: "range_ok m r \<Longrightarrow> m \<le> n \<Longrightarrow> range_ok n r"
  by (simp add: range_ok_def)

lemma refresh_wf:
  assumes "wf_pager p" and "lib_documented lib" and "refresh_from_output lib p out = (p', out')"
    and "pred_option (\<lambda>st. length (buf_bytes (ps_buffer st)) \<le> u64_max) p'"
  shows "wf_pager p'"
proof (cases p)
  case None
  with assms(3) show ?thesis by (simp add: refresh_from_output_def wf_pager_def)
next
  case (Some st)
  let ?out1 = "start_capture out"
  let ?r = "read_range (source_end (ps_buffer st)) (ring_end (os_inner ?out1)) (os_inner ?out1)"
  let ?b = "append_timeline_range lib ?r (ps_buffer st)"
  have wf: "wf_state st" using assms(1) Some by (simp add: wf_pager_def)
  show ?thesis
  proof (cases "ring_end (os_inner ?out1) \<le> source_end (ps_buffer st)")
    case True
    with assms(1,3) Some show ?thesis by (simp add: refresh_from_output_def Let_def)
  next
    case False
    then have p': "p' = Some (st\<lparr>ps_buffer := ?b,
        ps_session := map_option (\<lambda>ss. ss\<lparr>ss_buffer_len := 0\<rparr>) (ps_session st)\<rparr>)"
      using assms(3) Some by (simp add: refresh_from_output_def Let_def)
    then have len: "length (buf_bytes ?b) \<le> u64_max" using assms(4) by simp
    note b = append_range_wf [OF _ assms(2) len] and n = wf_buffer_len [OF _ len]
    from wf have old: "wf_buffer (ps_buffer st)" by (simp add: wf_state_def)
    note mono = range_ok_mono [OF _ b(2) [OF old]]
    have "pred_option (range_ok (buf_len ?b)) rg" if "pred_option (range_ok (buf_len (ps_buffer st))) rg" for rg
      using that mono by (cases rg) auto
    moreover have "list_all (range_ok (buf_len ?b)) rs" if "list_all (range_ok (buf_len (ps_buffer st))) rs" for rs
      using that mono by (auto simp: list_all_iff)
    moreover have "wf_session ?b (ss\<lparr>ss_buffer_len := 0\<rparr>)" if "wf_session (ps_buffer st) ss" for ss
      using that b(2) [OF old] by (simp add: wf_session_def)
    moreover have "wf_view ?b (ps_seen st)"
      using wf b(2,3) [OF old] n [OF b(1) [OF old]] by (auto simp: wf_state_def wf_view_def)
    ultimately show ?thesis
      using wf b(1) [OF old] p'
      by (auto simp: wf_pager_def wf_state_def wf_images_def option.pred_set)
  qed
qed

lemma long_snapshot:
  assumes "take_snapshot_page_from_range lib r target previous = (snap, lr)" and "snap_pages_left snap \<noteq> 0"
  shows "snap = take_snapshot_page_from_buffer_with_projection (from_timeline_range lib r) target PagerMode"
proof -
  obtain c0 last0 where c: "contents_from_output_range_with_state r Reply previous = (c0, last0)" by fastforce
  obtain c left span b' sn' where page:
    "take_next_page target Reply (from_timeline_range lib r) range_set_default = ((c, left, span), b', sn')"
    by (metis prod_cases3)
  show ?thesis
    using assms by (auto simp: take_snapshot_page_from_range_def c page Let_def snapshot_empty_def split: if_split_asm)
qed

lemma first_page_wf:
  assumes "lib_documented lib" and "pred_option (\<lambda>b. length (buf_bytes b) \<le> u64_max) (snap_buffer snap)"
    and "take_snapshot_page_from_ring lib end_offset target out = (snap, out')"
    and "snap_buffer snap = Some b" and "snap_pages_left snap \<noteq> 0"
  shows "wf_buffer b \<and> wf_view b range_set_default \<and> pred_option (range_ok (buf_len b)) (snap_last_range snap)"
proof -
  obtain r previous out1 where s: "snapshot_from_ring end_offset out = (Some (r, previous), out1)"
    using assms(3,4) by (auto simp: take_snapshot_page_from_ring_def snapshot_empty_def split: prod.split_asm option.split_asm)
  let ?b = "from_timeline_range lib r"
  obtain c left span b' sn' where page: "take_next_page target PagerMode ?b range_set_default = ((c, left, span), b', sn')"
    by (metis prod_cases3)
  obtain lr where "take_snapshot_page_from_range lib r target previous = (snap, lr)"
    using assms(3) s by (auto simp: take_snapshot_page_from_ring_def Let_def split: prod.split_asm)
  note snap0 = long_snapshot [OF this assms(5)]
  have snap: "snap_last_range snap = span_last span" "b = b'"
    using assms(4) snap0 page by (simp_all add: take_snapshot_page_from_buffer_with_projection_def)
  have b': "b' = ?b\<lparr>cursor := cursor b'\<rparr>"
    using page_step_buffer [of target PagerMode ?b range_set_default] page by (simp add: page_step_def)
  then have "buf_bytes b' = buf_bytes (?b\<lparr>cursor := cursor b'\<rparr>)" by (rule arg_cong)
  then have len: "length (buf_bytes ?b) \<le> u64_max" using assms(2,4) snap by simp
  have wf: "wf_buffer ?b" "cursor ?b = 0"
    using append_range_wf [OF wf_empty_at assms(1) len [unfolded from_timeline_range_def]]
    by (simp_all add: from_timeline_range_def empty_at_def)
  then have "wf_view ?b range_set_default"
    using wf_buffer_len [OF wf(1) len] by (simp add: wf_view_def seen.inv_emp seen.pts_emp)
  from take_next_page_view [OF this page] have v: "view_step ?b range_set_default b' sn'" "span_ok (buf_len ?b) span"
    by simp_all
  note n = view_step_len [OF v(1)]
  have "wf_view b' range_set_default"
    using v(1) by (simp add: view_step_def wf_view_def seen.inv_emp seen.pts_emp)
  moreover have "wf_buffer b'"
    using wf(1) v(1) by (auto simp: wf_buffer_def view_step_def wf_view_def)
  ultimately show ?thesis using v(2) n snap by (simp add: span_ok_def)
qed

end
