(* ===== verification/Pager_Life.thy ===== *)
theory Pager_Life
  imports Pager_Invariant
begin

text \<open>
  The pager as a state machine over the output it reads from, with its properties: the invariant
  of all reachable states, images sent once, and what happens at the last page.
\<close>

section \<open>Steps\<close>

text \<open>
  The steps of a pager together with the output it reads from: input handed to the pager, the
  first page of an output, fresh output taken into an active pager, dismissal, and the worker
  writing output. What is read has to fit in memory: byte counts are 64-bit.
\<close>

inductive pager_step :: "pager_lib \<Rightarrow> pager \<times> output_state \<Rightarrow> pager \<times> output_state \<Rightarrow> bool" for lib where
  command: "handle_command lib ce be input p = (reply, p') \<Longrightarrow> pager_step lib (p, out) (p', out)"
| first_page: "take_snapshot_page_from_ring lib end_offset target out = (snap, out') \<Longrightarrow>
    pred_option (\<lambda>b. length (buf_bytes b) \<le> u64_max) (snap_buffer snap) \<Longrightarrow>
    maybe_activate_and_append_footer p contents (snap_pages_left snap) is_error (snap_buffer snap)
      (snap_last_range snap) = (contents', p') \<Longrightarrow>
    pager_step lib (p, out) (p', out')"
| refresh: "refresh_from_output lib p out = (p', out') \<Longrightarrow>
    pred_option (\<lambda>st. length (buf_bytes (ps_buffer st)) \<le> u64_max) p' \<Longrightarrow>
    pager_step lib (p, out) (p', out')"
| dismissed: "pager_step lib (p, out) (dismiss p, out)"
| written: "pager_step lib (p, out) (p, out')"

inductive_cases pager_stepE: "pager_step lib s s'"

lemma first_page_step:
  assumes "wf_pager p" and "wf_buffer b" and "wf_view b range_set_default" and "pred_option (range_ok (buf_len b)) rng"
    and "maybe_activate_and_append_footer p contents left is_error (Some b) rng = (contents', p')"
  shows "wf_pager p'"
proof (cases "left = 0")
  case True
  with assms(1,5) show ?thesis by (simp add: maybe_activate_and_append_footer_def)
next
  case False
  let ?st0 = "\<lparr>ps_is_error = is_error, ps_last_range = None, ps_last_emitted = None, ps_buffer = b,
      ps_seen = range_set_default, ps_seen_images = {}, ps_image_numbers = Map.empty,
      ps_next_image_number = 1, ps_session = None, ps_needs_reseed = False, ps_view_history = []\<rparr>"
  let ?st = "mark_first_page rng ?st0"
  have "view_step b range_set_default b range_set_default" by (rule view_step_refl [OF assms(3)])
  then have "wf_view b (range_insert s e range_set_default)" if "range_ok (buf_len b) (s, e)" for s e
    using that view_step_insert view_step_wf by blast
  moreover have "wf_images ?st" by (simp add: wf_images_def mark_first_page_def Let_def u64_max_def split: option.split)
  ultimately have st: "wf_state ?st"
    using assms(2-4) by (auto simp: wf_state_def mark_first_page_def Let_def split: option.split)
  obtain cs st1 where d: "dedupe_loop contents ?st = (cs, st1)" by fastforce
  have "wf_state st1" using wf_state_imageless [OF st dedupe_loop_wf [OF d]] st by (simp add: wf_state_def)
  moreover have "p' = Some st1"
    using assms(5) False d by (auto simp: maybe_activate_and_append_footer_def activate_def dedupe_images_def Let_def)
  ultimately show ?thesis by (simp add: wf_pager_def)
qed

lemma pager_step_wf:
  assumes "pager_step lib s s'" and "lib_documented lib" and "wf_pager (fst s)"
  shows "wf_pager (fst s')"
  using assms(1,3)
proof (cases rule: pager_step.cases)
  case (command ce be input p reply p' out)
  then show ?thesis
    using assms(2,3) handle_command_active(1) [OF _ assms(2)]
    by (cases p) (auto simp: wf_pager_def handle_command_def Let_def)
next
  case (first_page end_offset target out snap out' p contents is_error contents' p')
  show ?thesis
  proof (cases "snap_buffer snap = None \<or> snap_pages_left snap = 0")
    case True
    with first_page assms(3) show ?thesis
      by (auto simp: maybe_activate_and_append_footer_def split: option.split_asm)
  next
    case False
    then obtain b where b: "snap_buffer snap = Some b" by auto
    from first_page_wf [OF assms(2) first_page(4,3) b] False
    show ?thesis using first_page_step first_page assms(3) b by auto
  qed
next
  case (refresh p out p' out')
  with refresh_wf [OF _ assms(2)] assms(3) show ?thesis by auto
next
  case (dismissed p out)
  then show ?thesis by (simp add: dismiss_def wf_pager_def)
next
  case (written p out out')
  with assms(3) show ?thesis by simp
qed

text \<open>
  C3. However commands, first pages, refreshes, dismissals and new output interleave, the pager stays
  consistent: the buffer's index, line ends, spans and events fit its text and the cursor is
  inside it; what was shown, the view history and the last ranges lie inside the buffer; a search
  session that counts as fresh lists lines of the present text with their matches, in order and
  without gaps; and the images shown are numbered from 1 on without gaps.
\<close>

theorem pager_stays_wf:
  assumes "(pager_step lib)\<^sup>*\<^sup>* (None, out) (p, out')" and "lib_documented lib"
  shows "wf_pager p"
proof -
  have "wf_pager (fst s)" if "(pager_step lib)\<^sup>*\<^sup>* (None, out) s" for s
    using that
  proof (induction rule: rtranclp_induct)
    case base
    show ?case by (simp add: wf_pager_def)
  next
    case (step s s')
    then show ?case by (auto intro: pager_step_wf [OF _ assms(2)])
  qed
  with assms(1) show ?thesis by force
qed

text \<open>An output in the ring and its first page, with pages of one character.\<close>

definition example_output :: output_state where
  "example_output = append_text ''abc'' False Worker
     (with_timeline (with_capacity 64))"

definition example_page :: "worker_content list \<times> pager" where
  "example_page =
     (let snap = fst (take_snapshot_page_from_ring lib_reference 3 1 example_output)
      in maybe_activate_and_append_footer None (snap_contents snap) (snap_pages_left snap) False
           (snap_buffer snap) (snap_last_range snap))"

lemma example_page_facts:
  "pred_option (\<lambda>b. length (buf_bytes b) \<le> u64_max)
     (snap_buffer (fst (take_snapshot_page_from_ring lib_reference 3 1 example_output)))"
  "snd example_page \<noteq> None" "cursor (ps_buffer (the (snd example_page))) = 1"
  by code_simp+

theorem pager_stays_wf_witness: "wf_pager (snd example_page) \<and> is_active (snd example_page)"
proof -
  let ?s = "take_snapshot_page_from_ring lib_reference 3 1 example_output"
  have "pager_step lib_reference (None, example_output) (snd example_page, snd ?s)"
    by (rule first_page [where snap = "fst ?s" and contents' = "fst example_page", OF _ example_page_facts(1)])
      (simp_all add: example_page_def Let_def)
  then have "(pager_step lib_reference)\<^sup>*\<^sup>* (None, example_output) (snd example_page, snd ?s)" by blast
  from pager_stays_wf [OF this lib_reference_documented] example_page_facts(2) show ?thesis
    by (simp add: is_active_def)
qed

section \<open>Replies\<close>

fun converse ::
  "pager_lib \<Rightarrow> string option \<Rightarrow> string option \<Rightarrow> string list \<Rightarrow> pager \<Rightarrow>
   worker_content list \<times> pager" where
  "converse lib ce be [] p = ([], p)"
| "converse lib ce be (input # inputs) p =
     (let (reply, p1) = handle_command lib ce be input p; (rest, p2) = converse lib ce be inputs p1
      in (reply_contents reply @ rest, p2))"

lemma converse_inactive: "image_ids (fst (converse lib ce be inputs None)) = []"
proof (induction inputs)
  case (Cons input inputs)
  have "handle_command lib ce be input None = (pager_reply [server_stderr ''[pager] no pager active''] True None, None)"
    by (simp add: handle_command_def Let_def)
  with Cons show ?case by (simp add: pager_reply_def case_prod_beta del: append.simps)
qed simp

text \<open>
  C4. A pager never sends an image twice: over any sequence of inputs handed to it, the images in
  the replies are distinct, and none is among those sent before.
\<close>

theorem images_sent_once:
  assumes "wf_state st" and "lib_documented lib"
  shows "distinct (image_ids (fst (converse lib ce be inputs (Some st)))) \<and>
         set (image_ids (fst (converse lib ce be inputs (Some st)))) \<inter> ps_seen_images st = {}"
  using assms(1)
proof (induction inputs arbitrary: st)
  case (Cons input inputs)
  obtain reply p where h: "handle_command lib ce be input (Some st) = (reply, p)" by fastforce
  note a = handle_command_active [OF Cons.prems assms(2) h]
  show ?case
  proof (cases p)
    case None
    with a h converse_inactive [of lib ce be inputs] show ?thesis by (simp add: case_prod_beta)
  next
    case (Some st')
    with a(1) have "wf_state st'" by (simp add: wf_pager_def)
    from Cons.IH [OF this] a(2,3) a(4) [OF Some] h Some show ?thesis by (auto simp: case_prod_beta)
  qed
qed simp

text \<open>An output with a plot in it and its first page.\<close>

definition example_plot :: output_state where
  "example_plot = append_text ''c'' False Worker
     (append_image ''p'' ''m'' ''d'' True (append_text ''ab'' False Worker (with_timeline (with_capacity 64))))"

definition example_plot_page :: "worker_content list \<times> pager" where
  "example_plot_page =
     (let snap = fst (take_snapshot_page_from_ring lib_reference 3 1 example_plot)
      in maybe_activate_and_append_footer None (snap_contents snap) (snap_pages_left snap) False
           (snap_buffer snap) (snap_last_range snap))"

lemma example_plot_facts:
  "pred_option (\<lambda>b. length (buf_bytes b) \<le> u64_max)
     (snap_buffer (fst (take_snapshot_page_from_ring lib_reference 3 1 example_plot)))"
  "snd example_plot_page \<noteq> None"
  "image_ids (fst (converse lib_reference None None ['':all'', '':next''] (snd example_plot_page))) = [''p'']"
  by code_simp+

theorem images_sent_once_witness:
  "distinct (image_ids (fst (converse lib_reference None None ['':all'', '':next''] (snd example_plot_page)))) \<and>
   image_ids (fst (converse lib_reference None None ['':all'', '':next''] (snd example_plot_page))) = [''p'']"
proof -
  let ?s = "take_snapshot_page_from_ring lib_reference 3 1 example_plot"
  have "pager_step lib_reference (None, example_plot) (snd example_plot_page, snd ?s)"
    by (rule first_page [where snap = "fst ?s" and contents' = "fst example_plot_page", OF _ example_plot_facts(1)])
      (simp_all add: example_plot_page_def Let_def)
  from pager_step_wf [OF this lib_reference_documented] have "wf_pager (snd example_plot_page)"
    by (simp add: wf_pager_def)
  moreover obtain st where "snd example_plot_page = Some st" using example_plot_facts(2) by blast
  ultimately show ?thesis
    using images_sent_once [of st lib_reference None None "['':all'', '':next'']"] lib_reference_documented
      example_plot_facts(3) by (simp add: wf_pager_def)
qed

text \<open>Input that is not a pager command leaves the pager as it was and is answered, not as an
  error, with a message and the footer; without a pager every input is answered with an error;
  and \<^verbatim>\<open>:q\<close> ends the pager.
\<close>

lemma input_without_command:
  "(parse_command input = None \<longrightarrow>
    handle_command lib ce be input (Some st) =
      (pager_reply [server_stderr (non_command_input_message input),
         server_stderr (footer (Some st) (pages_left_for_help (Some st) (page_bytes ce be)))] False None,
       Some st)) \<and>
   reply_is_error (fst (handle_command lib ce be input None)) \<and>
   snd (handle_command lib ce be input None) = None \<and>
   (parse_command input = Some Quit \<longrightarrow> snd (handle_command lib ce be input (Some st)) = None)"
  by (simp add: handle_command_def pager_reply_def Let_def dismiss_def)

text \<open>
  C21. The last page of a paged output is lost. When \<^verbatim>\<open>:next\<close> has shown a page and what is left
  behind it fits on one more page, \<^verbatim>\<open>pages_left\<close> is 0 although text remains, and the pager is
  dismissed: that text is neither shown nor can it be asked for any more.
\<close>

theorem next_drops_last_page:
  assumes "wf_view (ps_buffer st) (ps_seen st)" and "image_free (ps_buffer st)"
    and "take_next_page (page_bytes ce be) PagerMode (ps_buffer st) (ps_seen st) = ((contents, left, span), b', sn')"
    and "cursor b' < buf_len b'" and "buf_len b' - cursor b' \<le> page_bytes ce be"
  shows "snd (handle_command lib ce be '':next'' (Some st)) = None \<and>
         points sn' \<inter> {cursor b'..} = points (ps_seen st) \<inter> {cursor b'..}"
proof -
  let ?page = "page_bytes ce be"
  have "page_step ?page PagerMode (ps_buffer st, ps_seen st) = (b', sn')" using assms(3) by (simp add: page_step_def)
  from page_step_shows [OF _ _ _ this] assms(1)
  have shows_: "points sn' = points (ps_seen st) \<union> {cursor (ps_buffer st)..<cursor b'}"
    and b': "b' = (ps_buffer st)\<lparr>cursor := cursor b'\<rparr>" by (auto simp: wf_view_def)
  have "image_free b'" using assms(2) b' by (metis image_free_cursor)
  moreover have "?page \<ge> 1" by (simp add: page_bytes_def Let_def MIN_PAGER_PAGE_CHARS_def)
  moreover have "left = pages_left_for_buffer b' (max ?page 1)"
    using assms(3) by (auto simp: take_next_page_def Let_def)
  ultimately have left: "left = 0"
    using assms(4,5)
    by (simp add: pages_left_for_buffer_def pages_left_def Let_def current_offset_def image_free_counts)
  have parse: "parse_command '':next'' = Some (Next 1)" by code_simp
  obtain co st1 where r: "run_command lib ?page (Next 1) st = (co, st1)" by fastforce
  then have "co_dismiss co"
    using assms(3) left
    by (auto simp: take_next_pages_def clamp_def Let_def page_outcome_def outcome_defs unwrap_or_def split: if_split_asm)
  with parse r shows_ show ?thesis
    by (auto simp: handle_command_def dismiss_def case_prod_beta Let_def)
qed

definition long_line :: pager_buffer where
  "long_line = append_bytes_with_source_offsets lib_reference (replicate 65 CHR ''a'') (\<lambda>k. k) (empty_at 0)"

lemma long_line_facts:
  "buf_len long_line = 65" "cursor long_line = 0" "image_free long_line"
  by code_simp+

theorem next_drops_last_page_witness:
  "snd (handle_command lib_reference (Some ''64'') None '':next'' (activate long_line False None)) = None"
proof -
  define st where "st = the (activate long_line False None)"
  have st: "activate long_line False None = Some st" "ps_buffer st = long_line" "ps_seen st = range_set_default"
    by (simp_all add: st_def activate_def)
  have view: "wf_view (ps_buffer st) (ps_seen st)"
    using long_line_facts by (simp add: st wf_view_def seen.inv_emp seen.pts_emp u64_max_def)
  obtain contents left span b' sn' where page:
    "take_next_page (page_bytes (Some ''64'') None) PagerMode (ps_buffer st) (ps_seen st) = ((contents, left, span), b', sn')"
    by (metis prod_cases3)
  have "cursor (fst (snd (take_next_page 64 PagerMode long_line range_set_default))) = 64"
    "page_bytes (Some ''64'') None = 64" by code_simp+
  with page have b': "cursor b' = 64" "page_bytes (Some ''64'') None = 64" by (simp_all add: st)
  have "buf_len b' = 65"
    using view_step_len [OF take_next_page_view [OF view page, THEN conjunct1]] long_line_facts st by simp
  with b' next_drops_last_page [OF view _ page, of lib_reference] long_line_facts(3) st show ?thesis by simp
qed

end
