(* ===== verification/Search_Commands.thy ===== *)
theory Search_Commands
  imports Pager_Invariant
begin

text \<open>
  What the search commands of the pager promise: \<^verbatim>\<open>:hits\<close> takes the first line with a match that was
  not shown, the distance that \<^verbatim>\<open>:where\<close> reports fits \<^verbatim>\<open>:skip\<close>, a search falls back to the last hit
  before the cursor, the largest count of \<^verbatim>\<open>:n\<close> overflows, and the loops of the search end.
\<close>

section \<open>The next match that was not shown\<close>

text \<open>What \<^verbatim>\<open>find_next_unseen_match_line\<close> is meant to find from offset \<open>s\<close> on.\<close>

definition line_shown :: "pager_buffer \<Rightarrow> range_set \<Rightarrow> nat \<Rightarrow> bool" where
  "line_shown b sn k \<longleftrightarrow> {fst (line_bounds_for_index b k)..<snd (line_bounds_for_index b k)} \<subseteq> points sn"

definition first_unseen_line :: "pager_buffer \<Rightarrow> search_pattern \<Rightarrow> range_set \<Rightarrow> nat \<Rightarrow> match_search_result \<Rightarrow> bool" where
  "first_unseen_line b pat sn s r \<longleftrightarrow>
     (case r of
        NotFound \<Rightarrow> match_lines b pat s = {}
      | SeenOnly \<Rightarrow> match_lines b pat s \<noteq> {} \<and> (\<forall>k \<in> match_lines b pat s. line_shown b sn k)
      | FoundLine ml \<Rightarrow>
          ml_line_idx ml \<in> match_lines b pat s \<and> \<not> line_shown b sn (ml_line_idx ml) \<and>
          (ml_line_start ml, ml_line_end ml) = line_bounds_for_index b (ml_line_idx ml) \<and>
          match_char b pat (ml_match_start ml) \<and> s \<le> ml_match_start ml \<and>
          line_index_for_offset b (ml_match_start ml) = ml_line_idx ml \<and>
          (\<forall>k \<in> match_lines b pat s. k < ml_line_idx ml \<longrightarrow> line_shown b sn k))"

lemma line_of_match_fields:
  "ml_line_idx (line_of_match b c) = line_index_for_offset b c" "ml_match_start (line_of_match b c) = c"
  "(ml_line_start (line_of_match b c), ml_line_end (line_of_match b c)) =
     line_bounds_for_index b (line_index_for_offset b c)"
  by (simp_all add: line_of_match_def Let_def split: prod.split)

lemma covers_line:
  assumes "wf_range_set sn"
  shows "covers sn (ml_line_start (line_of_match b c)) (ml_line_end (line_of_match b c)) \<longleftrightarrow>
         line_shown b sn (line_index_for_offset b c)"
  using line_of_match_fields(3) [of b c] by (simp add: seen.cov_iff [OF assms] line_shown_def prod_eq_iff)

lemma unseen_match_loop_correct:
  assumes "wf_text b" and "lib_documented lib" and "pattern pat \<noteq> []" and "wf_range_set sn"
    and "buf_len b \<le> u64_max" and "buf_len b - s < fuel"
    and "\<And>k. k \<in> M \<Longrightarrow> line_shown b sn k"
    and "saw \<longleftrightarrow> M \<noteq> {}"
    and "\<And>j k. j \<in> M \<Longrightarrow> k \<in> match_lines b pat s \<Longrightarrow> j < k"
    and "match_lines b pat s0 = M \<union> match_lines b pat s" and "s0 \<le> s"
  shows "first_unseen_line b pat sn s0 (unseen_match_loop lib b pat sn fuel s saw)"
  using assms(6-)
proof (induction fuel arbitrary: s saw M)
  case (Suc fuel)
  note first = find_pattern_first [OF assms(1-3), of s]
  show ?case
  proof (cases "find_pattern lib b pat s (buf_len b)")
    case None
    with first have "match_lines b pat s = {}" by (auto simp: match_lines_def is_first_def)
    with None Suc.prems show ?thesis by (auto simp: first_unseen_line_def)
  next
    case (Some c)
    let ?k = "line_index_for_offset b c"
    let ?e = "snd (line_bounds_for_index b ?k)"
    note first = first [unfolded Some]
    have c: "match_char b pat c" "s \<le> c" using first by (simp_all add: is_first_def)
    note step = match_lines_step [OF assms(1,3) first]
    have in_k: "in_line b ?k c" "\<not> line_count b \<le> ?k"
      using line_index_in_line(1,2) [OF assms(1) match_char_less [OF assms(1,3) c(1)]] by simp_all
    have le: "ml_line_end (line_of_match b c) = ?e" using line_of_match_fields(3) [of b c] by (simp add: prod_eq_iff)
    have e: "max (ml_line_end (line_of_match b c)) (sat_add c 1) = ?e"
      using in_k(1) step(4) assms(5) by (simp add: le in_line_def sat_add_def)
    show ?thesis
    proof (cases "line_shown b sn ?k")
      case False
      with Some in_k(2) have "unseen_match_loop lib b pat sn (Suc fuel) s saw = FoundLine (line_of_match b c)"
        by (simp add: Let_def line_of_match_fields(1) covers_line [OF assms(4)])
      moreover have "?k \<in> match_lines b pat s0" using c Suc.prems(5) by (auto simp: match_lines_def)
      moreover have "line_shown b sn k" if "k \<in> match_lines b pat s0" "k < ?k" for k
        using that Suc.prems(2,5) step(1) by (auto dest: step(2))
      ultimately show ?thesis
        using False Suc.prems(6) c line_of_match_fields [of b c]
        by (simp add: first_unseen_line_def del: unseen_match_loop.simps)
    next
      case True
      let ?M = "insert ?k M"
      have M: "match_lines b pat s0 = ?M \<union> match_lines b pat ?e" using Suc.prems(5) step(1) by auto
      have eq: "unseen_match_loop lib b pat sn (Suc fuel) s saw =
          (if ?e \<ge> buf_len b then SeenOnly else unseen_match_loop lib b pat sn fuel ?e True)"
        using Some in_k(2) True by (simp add: Let_def line_of_match_fields(1) covers_line [OF assms(4)] e del: One_nat_def)
      show ?thesis
      proof (cases "?e \<ge> buf_len b")
        case True': True
        then have "match_lines b pat ?e = {}"
          using match_char_less [OF assms(1,3)] by (fastforce simp: match_lines_def)
        with True' eq M True Suc.prems(2) show ?thesis by (auto simp: first_unseen_line_def)
      next
        case False
        have "first_unseen_line b pat sn s0 (unseen_match_loop lib b pat sn fuel ?e True)"
        proof (rule Suc.IH [where M = ?M])
          show "buf_len b - ?e < fuel" using step(3) Suc.prems(1) False by linarith
          show "match_lines b pat s0 = ?M \<union> match_lines b pat ?e" by (rule M)
        qed (use True Suc.prems step in auto)
        with eq False show ?thesis by simp
      qed
    qed
  qed
qed simp

lemma next_unseen_line:
  assumes "wf_text b" and "lib_documented lib" and "pattern pat \<noteq> []" and "wf_range_set sn"
    and "buf_len b \<le> u64_max"
  shows "first_unseen_line b pat sn s (find_next_unseen_match_line lib b s pat sn)"
proof (cases "s \<ge> buf_len b \<or> line_count b = 0")
  case True
  then have "match_lines b pat s = {}"
    using match_char_less [OF assms(1,3)] no_match_without_lines [OF assms(1,3)] by (fastforce simp: match_lines_def)
  with True show ?thesis by (simp add: find_next_unseen_match_line_def first_unseen_line_def)
next
  case False
  then show ?thesis
    using unseen_match_loop_correct [OF assms, where M = "{}" and saw = False and s = s and s0 = s and fuel = "Suc (buf_len b)"]
    by (simp add: find_next_unseen_match_line_def)
qed

text \<open>
  \<^verbatim>\<open>:hits\<close> looks for the right line: from the cursor on it takes the first line that has a match
  at or behind the cursor and is not completely shown yet; it answers that everything was shown
  exactly if there are such lines and all have been shown, and that there is no match exactly if
  there is none. The search loop always ends within its turns.
\<close>

theorem hits_take_first_unseen_line:
  assumes "wf_text b" and "lib_documented lib" and "pattern pat \<noteq> []" and "wf_range_set sn"
    and "buf_len b \<le> u64_max"
  shows "case find_next_unseen_match_line lib b s pat sn of
           NotFound \<Rightarrow> match_lines b pat s = {}
         | SeenOnly \<Rightarrow> match_lines b pat s \<noteq> {} \<and> (\<forall>k \<in> match_lines b pat s. line_shown b sn k)
         | FoundLine ml \<Rightarrow>
             ml_line_idx ml \<in> match_lines b pat s \<and> \<not> line_shown b sn (ml_line_idx ml) \<and>
             (ml_line_start ml, ml_line_end ml) = line_bounds_for_index b (ml_line_idx ml) \<and>
             match_char b pat (ml_match_start ml) \<and> s \<le> ml_match_start ml \<and>
             line_index_for_offset b (ml_match_start ml) = ml_line_idx ml \<and>
             (\<forall>k \<in> match_lines b pat s. k < ml_line_idx ml \<longrightarrow> line_shown b sn k)"
  by (rule next_unseen_line [OF assms, unfolded first_unseen_line_def])

theorem hits_take_first_unseen_line_witness:
  "find_next_unseen_match_line lib_reference example_text 0 example_pattern (range_insert 0 6 range_set_default) = SeenOnly \<and>
   match_lines example_text example_pattern 0 \<noteq> {}"
proof -
  have run: "find_next_unseen_match_line lib_reference example_text 0 example_pattern (range_insert 0 6 range_set_default) = SeenOnly"
    by code_simp
  have "wf_text example_text" "pattern example_pattern \<noteq> []" "buf_len example_text \<le> u64_max" by code_simp+
  moreover have "wf_range_set (range_insert 0 6 range_set_default)" by (intro seen.inv_ins seen.inv_emp)
  ultimately show ?thesis
    using hits_take_first_unseen_line [OF _ lib_reference_documented, of example_text example_pattern
        "range_insert 0 6 range_set_default" 0] run by simp
qed

section \<open>The distance to a match\<close>

lemma where_loop_skips:
  assumes "ls < e" and "cur \<le> ls" and "k + (e - cur) \<le> u64_max"
  shows "\<exists>m. where_loop b sn page e ls cur k = k + m \<and> m \<le> e - cur \<and> skip_loop b page sn e m cur \<le> ls \<and>
    cur \<le> skip_loop b page sn e m cur \<and>
    (let c = skip_loop b page sn e m cur; nxt = advance_cursor_for_page b c e page sn in nxt \<le> c \<or> ls < nxt)"
  using assms(2,3)
proof (induction "e - cur" arbitrary: cur k rule: less_induct)
  case less
  let ?p = "advance_cursor_for_page b cur e page sn"
  show ?case
  proof (cases "cur < ?p \<and> ?p \<le> ls")
    case True
    have le: "e - ?p < e - cur" "?p < e" using True assms(1) by auto
    have sat: "sat_add k 1 = Suc k" using less.prems(2) le by (simp add: sat_add_def)
    have "Suc k + (e - ?p) \<le> u64_max" using less.prems(2) le by linarith
    from less.hyps [OF le(1) _ this] True obtain m where m: "where_loop b sn page e ls ?p (Suc k) = Suc k + m"
      "m \<le> e - ?p" "skip_loop b page sn e m ?p \<le> ls" "?p \<le> skip_loop b page sn e m ?p"
      "let c = skip_loop b page sn e m ?p; nxt = advance_cursor_for_page b c e page sn in nxt \<le> c \<or> ls < nxt"
      by blast
    have "where_loop b sn page e ls cur k = k + Suc m"
      using True le sat m(1) by (simp add: where_loop.simps [of b sn page e ls cur k] Let_def)
    with m True le show ?thesis by (intro exI [of _ "Suc m"]) (auto simp: Let_def)
  next
    case False
    then have "where_loop b sn page e ls cur k = k"
      by (auto simp: where_loop.simps [of b sn page e ls cur k] Let_def)
    with False less.prems show ?thesis by (intro exI [of _ 0]) (auto simp: Let_def not_less not_le)
  qed
qed

lemma advance_cursor_for_page_cursor [simp]:
  "advance_cursor_for_page (b\<lparr>cursor := c\<rparr>) s e page sn = advance_cursor_for_page b s e page sn"
proof -
  have parts: "count_images_in_range (b\<lparr>cursor := c\<rparr>) = count_images_in_range b"
    "image_offsets_in_range (b\<lparr>cursor := c\<rparr>) = image_offsets_in_range b"
    "page_end_offset (b\<lparr>cursor := c\<rparr>) = page_end_offset b"
    by (simp_all add: fun_eq_iff count_images_in_range_def image_offsets_in_range_def page_end_offset_def Let_def)
  have cand: "image_candidate (b\<lparr>cursor := c\<rparr>) = image_candidate b"
    and used: "used_budget (b\<lparr>cursor := c\<rparr>) = used_budget b"
    unfolding image_candidate_def used_budget_def parts by simp_all
  have ends: "page_end_offset_with_images (b\<lparr>cursor := c\<rparr>) = page_end_offset_with_images b"
    unfolding page_end_offset_with_images_def parts cand by simp
  have turn: "advance_turn (b\<lparr>cursor := c\<rparr>) = advance_turn b"
    unfolding advance_turn_def ends used by simp
  have "advance_loop (b\<lparr>cursor := c\<rparr>) sn e st = advance_loop b sn e st" for sn e st
  proof (induction "e - fst st" arbitrary: st rule: less_induct)
    case less
    show ?case
    proof (cases "advance_turn b sn e st")
      case (Again st')
      from less [of st'] advance_turn_progress [OF this] Again show ?thesis
        by (subst (1 2) advance_loop.simps) (simp add: turn diff_less_mono2)
    qed (subst (1 2) advance_loop.simps, simp add: turn)
  qed
  then show ?thesis by (simp add: advance_cursor_for_page_def Let_def)
qed

lemma where_loop_behind: "ls < cur \<Longrightarrow> where_loop b sn page e ls cur k = k"
  by (auto simp: where_loop.simps [of b sn page e ls cur k] Let_def)

text \<open>
  The advice of \<^verbatim>\<open>:where\<close> works: when it says that the next match is \<open>k\<close> pages ahead and suggests
  \<^verbatim>\<open>:skip\<close> \<open>k\<close>, that command shows a page on which the line of the match begins (up to 500 pages, where
  \<^verbatim>\<open>:skip\<close> stops counting; without images, which can keep a page from advancing).
\<close>

theorem where_skip_shows_match:
  assumes "wf_view b sn" and "image_free b" and "buf_len b < u64_max" and "ls < buf_len b"
    and "where_loop b sn page (buf_len b) ls (current_offset b) 0 = k" and "0 < k" and "k \<le> 500"
    and "skip_pages_and_take_next page k b sn = ((contents, left, span), b', sn')"
  shows "ls < cursor b' \<and> ls \<in> points sn'"
proof -
  let ?c = "skip_loop b page sn (buf_len b) k (cursor b)"
  let ?b = "b\<lparr>cursor := ?c\<rparr>"
  have cur: "cursor b \<le> ls" using assms(5,6) where_loop_behind [of ls "cursor b" b sn page "buf_len b" 0]
    by (cases "ls < cursor b") (simp_all add: current_offset_def)
  have "0 + (buf_len b - cursor b) \<le> u64_max" using assms(3) by simp
  from where_loop_skips [OF assms(4) cur this, of b sn page] assms(5)
  have c: "?c \<le> ls" "advance_cursor_for_page b ?c (buf_len b) page sn \<le> ?c \<or> ls < advance_cursor_for_page b ?c (buf_len b) page sn"
    by (auto simp: current_offset_def Let_def)
  have wf: "wf_range_set sn" "buf_len b \<le> u64_max" "?c < buf_len b" using assms(1,3,4) c(1) by (simp_all add: wf_view_def)
  have "take_next_page page PagerMode ?b sn = ((contents, left, span), b', sn')"
    using assms(4,6-8) cur wf(3)
    by (simp add: skip_pages_and_take_next_def current_offset_def Let_def clamp_def advance_offset_to_def min_def)
  then have step: "page_step page PagerMode (?b, sn) = (b', sn')"
    and b': "cursor b' = advance_cursor_for_page b ?c (buf_len b) page sn"
    using advance_cursor_page [of sn ?b page PagerMode] wf by (simp_all add: page_step_def)
  have "?c < cursor b'"
    using page_step_progress [OF wf(1), of ?b page PagerMode] wf(3) assms(2,3) step by simp
  with c b' have ls: "ls < cursor b'" by simp
  moreover have "points sn' = points sn \<union> {?c..<cursor b'}"
    using page_step_shows(4) [OF wf(1) _ _ step] wf(2,3) by simp
  ultimately show ?thesis using c(1) by simp
qed

theorem where_skip_shows_match_witness:
  "4 < cursor (fst (snd (skip_pages_and_take_next 2 2 example_text range_set_default)))"
proof -
  obtain contents left span b' sn' where skip:
    "skip_pages_and_take_next 2 2 example_text range_set_default = ((contents, left, span), b', sn')"
    by (metis prod_cases3)
  have facts: "buf_len example_text = 6" "cursor example_text = 0" "image_free example_text"
    "where_loop example_text range_set_default 2 6 4 0 0 = 2" by code_simp+
  then have "wf_view example_text range_set_default"
    by (simp add: wf_view_def seen.inv_emp seen.pts_emp u64_max_def)
  from where_skip_shows_match [OF this facts(3) _ _ _ _ _ skip, of 4] facts skip show ?thesis
    by (simp add: current_offset_def u64_max_def)
qed

section \<open>Moving between hits\<close>

text \<open>
  When a search finds nothing from the cursor on but the pattern occurs, stepping back in the full
  session moves to an earlier hit, as the assertion in the handler of \<^verbatim>\<open>:/\<close> claims: it is the last
  hit, its match lies before the cursor, and no later line has a match.
\<close>

theorem search_falls_back_to_last_hit:
  assumes "wf_text b" and "lib_documented lib" and "pattern pat \<noteq> []"
    and "build_forward_search_session lib b pat s = None"
    and "build_full_search_session lib b pat s = Some ss"
    and "move_search_session 1 False ss = (moved, ss')"
  shows "moved = Moved \<and> Suc (ss_current_index ss') = length (ss_hits ss') \<and>
         sh_match_start (ss_hits ss' ! ss_current_index ss') < s \<and>
         (\<forall>k \<in> match_lines b pat 0. k \<le> sh_line_idx (ss_hits ss' ! ss_current_index ss'))"
proof -
  have "build_indexed_search_session lib b pat s None = Some ss"
    using assms(5) by (simp add: build_full_search_session_def)
  note built = indexed_session_lines [OF assms(1-3) this] and idx = this
  have some: "buf_len b \<noteq> 0" "line_count b \<noteq> 0"
    using idx by (auto simp: build_indexed_search_session_def Let_def split: if_split_asm)
  have none: "\<not> match_char b pat c" if "s \<le> c" for c
  proof (cases "s < buf_len b")
    case False
    then show ?thesis using match_char_less [OF assms(1,3)] that by (meson leD le_trans not_less)
  next
    case True
    show ?thesis
    proof (cases "find_pattern lib b pat s (buf_len b)")
      case None
      with find_pattern_first [OF assms(1-3), of s] that show ?thesis by (simp add: is_first_def)
    next
      case (Some d)
      then have "match_char b pat d" using find_pattern_first [OF assms(1-3), of s] by (simp add: is_first_def)
      from build_search_hit_ok [OF assms(1,3) this, of lib heading_state_new]
      obtain h hs where "build_search_hit lib b heading_state_new d (line_count b) = Some (h, hs)" by blast
      with Some some True assms(4) show ?thesis by (simp add: build_forward_search_session_def Let_def)
    qed
  qed
  have before: "sh_match_start h < s" if "h \<in> set (ss_hits ss)" for h
    using built(2) none that by (auto simp: list_all_iff hit_of_def) (meson not_le)
  have "position (\<lambda>h. s \<le> sh_match_start h) (ss_hits ss) = None"
    using before position_less [of "\<lambda>h. s \<le> sh_match_start h" "ss_hits ss"]
    by (cases "position (\<lambda>h. s \<le> sh_match_start h) (ss_hits ss)") (simp, metis nth_mem leD)
  then have cur: "ss_current_index ss = length (ss_hits ss)" "ss_anchor_offset ss = s"
    using idx by (auto simp: build_indexed_search_session_def Let_def first_hit_index_for_offset_def
        unwrap_or_def split: if_split_asm prod.split_asm)
  have "takeWhile (\<lambda>h. sh_match_start h < s) (ss_hits ss) = ss_hits ss"
    using before by (simp add: takeWhile_eq_all_conv)
  then have "boundary_hit_index (ss_hits ss) s = length (ss_hits ss)"
    unfolding boundary_hit_index_def partition_point_def by (rule arg_cong)
  then have mv: "moved = Moved" "ss_current_index ss' = length (ss_hits ss) - 1" "ss_hits ss' = ss_hits ss"
    using assms(6) cur built(1) less_irrefl [of "length (ss_hits ss)"]
    by (cases "ss_hits ss"; auto simp: move_search_session_def moved_index_def Let_def split: if_split_asm)+
  have last: "ss_hits ss ! (length (ss_hits ss) - 1) = last (ss_hits ss)" using built(1) by (simp add: last_conv_nth)
  have "pred_option (\<lambda>l. length (ss_hits ss) < l) None" by simp
  note lines = built(4) [OF built(5) [OF this], symmetric]
  have "\<forall>k \<in> match_lines b pat 0. k \<le> sh_line_idx (last (ss_hits ss))"
    unfolding lines using built(1,3)
    by (cases "ss_hits ss" rule: rev_cases) (auto simp: sorted_wrt_append intro: less_imp_le)
  with mv last before [OF last_in_set [OF built(1)]] built(1) show ?thesis by simp
qed

theorem search_falls_back_to_last_hit_witness:
  "fst (move_search_session 1 False (the (build_full_search_session lib_reference example_text example_pattern 5)))
     = Moved"
proof -
  define ss where "ss = the (build_full_search_session lib_reference example_text example_pattern 5)"
  obtain moved ss' where mv: "move_search_session 1 False ss = (moved, ss')" by fastforce
  have pat: "pattern example_pattern \<noteq> []"
    and none: "build_forward_search_session lib_reference example_text example_pattern 5 = None"
    and "build_full_search_session lib_reference example_text example_pattern 5 \<noteq> None" by code_simp+
  then have full: "build_full_search_session lib_reference example_text example_pattern 5 = Some ss"
    by (simp add: ss_def)
  from search_falls_back_to_last_hit [OF example_facts(1) lib_reference_documented pat none full mv] mv
  show ?thesis by (simp add: ss_def [symmetric])
qed

text \<open>
  C27. The largest count that \<^verbatim>\<open>:n\<close> accepts makes it stay: the number of hits needed is computed with an
  addition that wraps to 0 (or panics where overflow checks are on), so the session is not
  extended and the pager reports the last known hit, whatever matches follow.
\<close>

theorem search_next_count_overflow:
  assumes "ps_session st = Some ss" and "ss_buffer_len ss = buf_len (ps_buffer st)" and "\<not> ps_needs_reseed st"
    and "Suc (ss_current_index ss) = length (ss_hits ss)" and "length (ss_hits ss) \<le> u64_max"
  shows "run_search_next lib page 18446744073709551615 st =
         message_outcome page (search_boundary_message ss True) st"
proof -
  have fresh: "ensure_search_session_fresh lib st = (True, st)"
    using assms by (simp add: ensure_search_session_fresh_def)
  have "wrap_add (max 18446744073709551615 1) 1 = 0" by (simp add: wrap_add_def)
  moreover have "extend_search_session_forward lib (ps_buffer st) (ss_current_index ss) ss = ss"
    using assms(4) by (simp add: extend_search_session_forward_def extend_loop.simps)
  moreover have "move_search_session 18446744073709551615 True ss = (Boundary, ss)"
  proof -
    have "moved_index ss 18446744073709551615 True = ss_current_index ss"
      using assms(4,5) by (auto simp: moved_index_def Let_def sat_add_def u64_max_def)
    moreover have "ss_hits ss \<noteq> []" using assms(4) by auto
    ultimately show ?thesis by (simp add: move_search_session_def Let_def)
  qed
  moreover have "min (ss_current_index ss) u64_max = ss_current_index ss" using assms(4,5) by simp
  ultimately have "run_search_next lib page 18446744073709551615 st =
      message_outcome page (search_boundary_message ss True) (st\<lparr>ps_session := Some ss\<rparr>)"
    using assms(1) fresh by (simp add: run_search_next_def Let_def sat_add_def)
  moreover have "st\<lparr>ps_session := Some ss\<rparr> = st" using assms(1) by (cases st) simp
  ultimately show ?thesis by (simp only:)
qed

definition two_hits :: pager_buffer where
  "two_hits = append_bytes_with_source_offsets lib_reference (''R'' @ nl @ ''R'') (\<lambda>k. k) (empty_at 0)"

definition first_hit :: search_session where
  "first_hit = the (build_forward_search_session lib_reference two_hits example_pattern 0)"

theorem search_next_count_overflow_witness:
  "parse_command '':n 18446744073709551615'' = Some (SearchNext 18446744073709551615) \<and>
   run_search_next lib_reference 64 18446744073709551615
     (the (activate two_hits False None)\<lparr>ps_session := Some first_hit\<rparr>) =
   message_outcome 64 (search_boundary_message first_hit True)
     (the (activate two_hits False None)\<lparr>ps_session := Some first_hit\<rparr>) \<and>
   fst (move_search_session 1 True (extend_search_session_forward lib_reference two_hits 2 first_hit)) = Moved"
proof -
  have "parse_command '':n 18446744073709551615'' = Some (SearchNext 18446744073709551615)" by code_simp
  moreover have "fst (move_search_session 1 True (extend_search_session_forward lib_reference two_hits 2 first_hit)) = Moved"
    by code_simp
  moreover have "ss_buffer_len first_hit = buf_len two_hits" "Suc (ss_current_index first_hit) = length (ss_hits first_hit)"
    "length (ss_hits first_hit) \<le> u64_max" by code_simp+
  ultimately show ?thesis
    using search_next_count_overflow [of "the (activate two_hits False None)\<lparr>ps_session := Some first_hit\<rparr>" first_hit
        lib_reference 64] by (simp add: activate_def)
qed

section \<open>The search loops end\<close>

lemma line_end_after_match:
  assumes "wf_text b" and "pattern pat \<noteq> []" and "match_char b pat c"
  shows "c < ml_line_end (line_of_match b c)" and "ml_line_idx (line_of_match b c) < line_count b"
  using line_index_in_line [OF assms(1) match_char_less [OF assms]] line_of_match_fields [of b c]
  by (auto simp: in_line_def prod_eq_iff)

lemma index_loop_more_fuel:
  assumes "wf_text b" and "lib_documented lib" and "pattern pat \<noteq> []" and "buf_len b - s < fuel"
  shows "index_loop lib b pat start limit (fuel + k) s hstate hits =
         index_loop lib b pat start limit fuel s hstate hits"
  using assms(4)
proof (induction fuel arbitrary: s hstate hits)
  case (Suc fuel)
  have "index_loop lib b pat start limit (fuel + k) (sh_line_end h) hs (hits @ [h]) =
        index_loop lib b pat start limit fuel (sh_line_end h) hs (hits @ [h])"
    if "find_pattern lib b pat s (buf_len b) = Some c"
      "build_search_hit lib b hstate (full_session_match_offset_for_line lib b pat start c
         (ml_line_end (line_of_match b c))) (line_count b) = Some (h, hs)"
      "sh_line_end h < buf_len b" for c h hs
  proof (rule Suc.IH)
    let ?e = "snd (line_bounds_for_index b (line_index_for_offset b c))"
    have first: "is_first (match_char b pat) s (Some c)"
      using find_pattern_first [OF assms(1-3), of s] that(1) by simp
    then have c: "match_char b pat c" by (simp add: is_first_def)
    have e: "ml_line_end (line_of_match b c) = ?e"
      using line_of_match_fields(3) [of b c] by (simp add: prod_eq_iff)
    note m = full_session_match_ok [OF assms(1-3) c, of start]
    obtain h' hs' where "build_search_hit lib b hstate (full_session_match_offset_for_line lib b pat start c ?e)
        (line_count b) = Some (h', hs')" "hit_of b pat h'"
        "sh_match_start h' = full_session_match_offset_for_line lib b pat start c ?e"
      by (rule build_search_hit_ok [OF assms(1,3)]) (use m in auto)
    with that(2) m have "sh_line_end h = ?e"
      by (auto simp: e hit_of_def) (metis snd_conv)
    with match_lines_step(3) [OF assms(1,3) first] that(3) Suc.prems show "buf_len b - sh_line_end h < fuel"
      by simp
  qed
  then show ?case by (auto simp: Let_def split: option.split)
qed simp

lemma unseen_match_loop_more_fuel:
  assumes "wf_text b" and "lib_documented lib" and "pattern pat \<noteq> []" and "buf_len b - s < fuel"
  shows "unseen_match_loop lib b pat sn (fuel + k) s saw = unseen_match_loop lib b pat sn fuel s saw"
  using assms(4)
proof (induction fuel arbitrary: s saw)
  case (Suc fuel)
  have "buf_len b - max (ml_line_end (line_of_match b c)) (sat_add c 1) < fuel"
    if "find_pattern lib b pat s (buf_len b) = Some c" "ml_line_end (line_of_match b c) < buf_len b" for c
  proof -
    have "is_first (match_char b pat) s (Some c)"
      using find_pattern_first [OF assms(1-3), of s] that(1) by simp
    then have "match_char b pat c" "s \<le> c" by (simp_all add: is_first_def)
    with line_end_after_match(1) [OF assms(1,3)] that(2) Suc.prems show ?thesis
      by (fastforce simp: max_def)
  qed
  then show ?case using Suc.IH by (simp add: Let_def split: option.split)
qed simp

lemma earlier_match_loop_more_fuel:
  assumes "wf_text b" and "lib_documented lib" and "pattern pat \<noteq> []" and "e \<le> buf_len b" and "e - s < fuel"
  shows "earlier_match_loop lib b pat e (fuel + k) s found = earlier_match_loop lib b pat e fuel s found"
  using assms(5)
proof (induction fuel arbitrary: s found)
  case (Suc fuel)
  have "e - max (ml_line_end (line_of_match b c)) (sat_add c 1) < fuel"
    if "find_pattern lib b pat s e = Some c" "s < e" for c
    using find_pattern_range [OF assms(1-3) that(2) assms(4) that(1)]
      line_end_after_match(1) [OF assms(1,3), of c] Suc.prems that(2) by (auto simp: max_def)
  then show ?case using Suc.IH by (simp add: Let_def split: option.split)
qed simp


end
