(* ===== verification/Replies.thy ===== *)
theory Replies
  imports Pager_Invariant
begin

text \<open>
  How output becomes a reply: \<^verbatim>\<open>src/src/reply_presentation.rs\<close> (prompts and warnings behind the
  contents), \<^verbatim>\<open>src/src/completion_reply.rs\<close> (the reply of a completed or timed-out request) and
  \<^verbatim>\<open>src/src/output_snapshot.rs\<close> (the first page of an output together with its images).
  \<^verbatim>\<open>cfg(target_family = "unix")\<close> is the argument \<open>unix\<close> of the functions it selects.
\<close>

section \<open>Prompts\<close>

datatype backend = R | Python

definition normalize_prompt :: "string option \<Rightarrow> string option" where
  "normalize_prompt prompt =
     (case prompt of None \<Rightarrow> None | Some value \<Rightarrow> if value = [] then None else Some value)"

definition append_protocol_warnings ::
  "string list \<Rightarrow> worker_content list \<Rightarrow> worker_content list" where
  "append_protocol_warnings warnings contents =
     contents @ map (\<lambda>warning. server_stderr (''[repl] '' @ warning)) warnings"

definition is_text :: "worker_content \<Rightarrow> bool" where
  "is_text c = (case c of ContentText _ _ _ _ \<Rightarrow> True | ContentImage _ _ _ _ \<Rightarrow> False)"

definition append_prompt_if_missing ::
  "string option \<Rightarrow> worker_content list \<Rightarrow> worker_content list" where
  "append_prompt_if_missing prompt contents =
     (case prompt of
        None \<Rightarrow> contents
      | Some p \<Rightarrow>
          if p = [] then contents
          else
            (case find is_text (rev contents) of
               Some (ContentText txt _ _ _) \<Rightarrow>
                 if ends_with txt p then contents else contents @ [worker_stdout p]
             | _ \<Rightarrow> contents @ [worker_stdout p]))"

definition append_prompt :: "string option \<Rightarrow> worker_content list \<Rightarrow> worker_content list" where
  "append_prompt prompt contents =
     (case prompt of
        None \<Rightarrow> contents
      | Some p \<Rightarrow> if p = [] then contents else contents @ [worker_stdout p])"

text \<open>\<^verbatim>\<open>rposition\<close>: the last index whose element satisfies the predicate.\<close>

definition rposition :: "('a \<Rightarrow> bool) \<Rightarrow> 'a list \<Rightarrow> nat option" where
  "rposition P xs = map_option (\<lambda>i. length xs - 1 - i) (position P (rev xs))"

definition remove_at :: "nat \<Rightarrow> 'a list \<Rightarrow> 'a list" where
  "remove_at idx xs = take idx xs @ drop (Suc idx) xs"

definition strip_trailing_prompt ::
  "string \<Rightarrow> worker_content list \<Rightarrow> worker_content list" where
  "strip_trailing_prompt prompt contents =
     (if prompt = [] then contents
      else
        (case rposition is_text contents of
           None \<Rightarrow> contents
         | Some idx \<Rightarrow>
             (case contents ! idx of
                ContentImage _ _ _ _ \<Rightarrow> contents
              | ContentText txt stream _ visibility \<Rightarrow>
                  (case strip_suffix txt prompt of
                     None \<Rightarrow> contents
                   | Some prefix \<Rightarrow>
                       if prefix = [] then remove_at idx contents
                       else contents[idx := ContentText prefix stream Worker visibility]))))"

text \<open>The loop of \<^verbatim>\<open>strip_trailing_worker_stdout_prompt\<close>, from the last content down.\<close>

fun strip_stdout_loop ::
  "string \<Rightarrow> worker_content list \<Rightarrow> nat \<Rightarrow> worker_content list" where
  "strip_stdout_loop prompt contents 0 = contents"
| "strip_stdout_loop prompt contents (Suc idx) =
     (case contents ! idx of
        ContentText txt stream Server visibility \<Rightarrow> strip_stdout_loop prompt contents idx
      | ContentText txt Stdout Worker visibility \<Rightarrow>
          (case strip_suffix txt prompt of
             None \<Rightarrow> contents
           | Some prefix \<Rightarrow>
               if prefix = [] then remove_at idx contents
               else contents[idx := ContentText prefix Stdout Worker visibility])
      | _ \<Rightarrow> contents)"

definition strip_trailing_worker_stdout_prompt ::
  "string \<Rightarrow> worker_content list \<Rightarrow> worker_content list" where
  "strip_trailing_worker_stdout_prompt prompt contents =
     (if prompt = [] then contents else strip_stdout_loop prompt contents (length contents))"

definition strip_then_append ::
  "string option \<Rightarrow> worker_content list \<Rightarrow> worker_content list" where
  "strip_then_append prompt contents =
     append_prompt_if_missing prompt
       (case prompt of
          None \<Rightarrow> contents
        | Some p \<Rightarrow> strip_trailing_worker_stdout_prompt p contents)"

definition reconcile_python_completion_prompt ::
  "bool \<Rightarrow> string option \<Rightarrow> worker_content list \<Rightarrow> worker_content list" where
  "reconcile_python_completion_prompt unix prompt contents =
     (if unix then append_prompt prompt contents else strip_then_append prompt contents)"

definition reconcile_python_polled_completion_prompt ::
  "bool \<Rightarrow> string option \<Rightarrow> worker_content list \<Rightarrow> worker_content list" where
  "reconcile_python_polled_completion_prompt unix prompt contents =
     (if unix then append_prompt_if_missing prompt contents else strip_then_append prompt contents)"

definition reconcile_completion_prompt ::
  "bool \<Rightarrow> backend \<Rightarrow> string option \<Rightarrow> worker_content list \<Rightarrow> worker_content list" where
  "reconcile_completion_prompt unix b prompt contents =
     (case b of
        Python \<Rightarrow> reconcile_python_completion_prompt unix prompt contents
      | R \<Rightarrow> append_prompt prompt contents)"

definition reconcile_trailing_completion_prompt ::
  "bool \<Rightarrow> backend \<Rightarrow> string option \<Rightarrow> worker_content list \<Rightarrow> worker_content list" where
  "reconcile_trailing_completion_prompt unix b prompt contents =
     (case b of
        Python \<Rightarrow> reconcile_python_completion_prompt unix prompt contents
      | R \<Rightarrow> append_prompt prompt contents)"

definition reconcile_polled_completion_prompt ::
  "bool \<Rightarrow> backend \<Rightarrow> string option \<Rightarrow> worker_content list \<Rightarrow> worker_content list" where
  "reconcile_polled_completion_prompt unix b prompt contents =
     (case b of
        Python \<Rightarrow> reconcile_python_polled_completion_prompt unix prompt contents
      | R \<Rightarrow> append_prompt_if_missing prompt contents)"

section \<open>Completed and timed-out requests\<close>

definition TIMEOUT_STATUS_GRANULARITY_MS :: nat where "TIMEOUT_STATUS_GRANULARITY_MS = 100"

record completion_info =
  ci_prompt :: "string option"
  ci_prompt_variants :: "string list option"
  ci_protocol_warnings :: "string list"
  ci_session_end_seen :: bool

definition completion_info_empty :: completion_info where
  "completion_info_empty =
     \<lparr>ci_prompt = None, ci_prompt_variants = None, ci_protocol_warnings = [],
      ci_session_end_seen = False\<rparr>"

text \<open>\<^verbatim>\<open>Files { idle_status_if_empty }\<close> and \<^verbatim>\<open>Pager { pager_active }\<close>.\<close>

datatype completion_reply_mode = Files bool | Pager bool

datatype pager_completion_prompt = PromptFree | Prompt string

record built_completion_reply =
  bc_reply :: worker_reply
  bc_prompt_to_remember :: "string option"
  bc_pager_prompt :: "pager_completion_prompt option"

definition from_prompt :: "string option \<Rightarrow> pager_completion_prompt" where
  "from_prompt prompt = (case prompt of Some p \<Rightarrow> Prompt p | None \<Rightarrow> PromptFree)"

definition into_prompt :: "pager_completion_prompt \<Rightarrow> string option" where
  "into_prompt p = (case p of PromptFree \<Rightarrow> None | Prompt prompt \<Rightarrow> Some prompt)"

definition idle_status_content :: worker_content where
  "idle_status_content = server_stdout ''<<repl status: idle>>''"

definition input_wait_status_content :: worker_content where
  "input_wait_status_content = server_stdout ''<<repl status: waiting for input>>''"

definition finalize_contents ::
  "completion_info \<Rightarrow> worker_content list \<Rightarrow> worker_content list" where
  "finalize_contents completion contents =
     append_protocol_warnings (ci_protocol_warnings completion) contents"

definition build_completed_reply ::
  "bool \<Rightarrow> worker_content list \<Rightarrow> bool \<Rightarrow> completion_info \<Rightarrow> bool \<Rightarrow> completion_reply_mode \<Rightarrow>
   backend \<Rightarrow> built_completion_reply" where
  "build_completed_reply unix contents is_error completion session_end mode b =
     (let raw_prompt = (if session_end then None else ci_prompt completion);
          contents = (if raw_prompt = Some [] then contents @ [input_wait_status_content]
                      else contents);
          resolved_prompt = normalize_prompt raw_prompt;
          (contents, reply_prompt, pager_prompt) =
            (case mode of
               Files idle_status_if_empty \<Rightarrow>
                 (let contents = finalize_contents completion contents;
                      contents =
                        (if \<not> session_end \<and> idle_status_if_empty \<and> contents = []
                         then contents @ [idle_status_content] else contents);
                      contents =
                        (if \<not> session_end
                         then reconcile_completion_prompt unix b resolved_prompt contents
                         else contents)
                  in (contents, if \<not> session_end then resolved_prompt else None, None))
             | Pager pager_active \<Rightarrow>
                 (let contents = finalize_contents completion contents;
                      contents =
                        (if \<not> session_end \<and> \<not> pager_active
                         then reconcile_completion_prompt unix b resolved_prompt contents
                         else contents)
                  in (contents,
                      if \<not> pager_active \<and> \<not> session_end then resolved_prompt else None,
                      if pager_active \<and> \<not> session_end
                      then Some (from_prompt resolved_prompt) else None)))
      in \<lparr>bc_reply = \<lparr>reply_contents = contents, reply_is_error = is_error, reply_error_code = None,
                      reply_prompt = reply_prompt,
                      reply_prompt_variants = ci_prompt_variants completion\<rparr>,
          bc_prompt_to_remember = raw_prompt, bc_pager_prompt = pager_prompt\<rparr>)"

definition build_timeout_reply :: "worker_content list \<Rightarrow> bool \<Rightarrow> worker_reply" where
  "build_timeout_reply contents is_error =
     \<lparr>reply_contents = contents, reply_is_error = is_error, reply_error_code = Some Timeout,
      reply_prompt = None, reply_prompt_variants = None\<rparr>"

text \<open>A \<^verbatim>\<open>Duration\<close> is its number of whole milliseconds, which may exceed 64 bits.\<close>

definition duration_to_millis :: "nat \<Rightarrow> nat" where
  "duration_to_millis millis = (if millis > u64_max then u64_max else millis)"

definition timeout_status_content :: "nat \<Rightarrow> worker_content" where
  "timeout_status_content timeout =
     (let elapsed_ms = duration_to_millis timeout;
          elapsed_ms = elapsed_ms div TIMEOUT_STATUS_GRANULARITY_MS * TIMEOUT_STATUS_GRANULARITY_MS
      in server_stdout
           (''<<repl status: busy, write_stdin timeout reached; elapsed_ms='' @ dec elapsed_ms @
            ''>>''))"

section \<open>The first page with its images\<close>

record snapshot_with_images =
  si_contents :: "worker_content list"
  si_pages_left :: nat
  si_buffer :: "pager_buffer option"
  si_last_range :: "range option"

record completion_snapshot =
  cs_snapshot :: snapshot_with_images
  cs_saw_stderr :: bool

definition snapshot_page_end_offset :: "nat \<Rightarrow> nat \<Rightarrow> nat \<Rightarrow> nat option \<Rightarrow> nat" where
  "snapshot_page_end_offset start_offset end_offset left last_range_end_offset =
     (if left = 0 then end_offset
      else case last_range_end_offset of Some offset \<Rightarrow> offset | None \<Rightarrow> start_offset)"

type_synonym image_group = "nat \<times> worker_content"

text \<open>
  One turn of \<^verbatim>\<open>collect_image_groups\<close>: an image that updates the current one replaces it, a new one
  starts a group. The state is the finished groups and the current one.
\<close>

fun group_image ::
  "output_event \<Rightarrow> image_group list \<times> image_group option \<Rightarrow> image_group list \<times> image_group option"
where
  "group_image e (groups, current) =
     (case event_kind e of
        Image i data mime_type is_new \<Rightarrow>
          (let content = ContentImage data mime_type i is_new
           in if is_new \<or> current = None
              then (groups @ opt_list current, Some (event_offset e, content))
              else (groups, Some (event_offset e, content)))
      | _ \<Rightarrow> (groups, current))"

definition collect_image_groups :: "ring_inner \<Rightarrow> nat \<Rightarrow> nat \<Rightarrow> image_group list" where
  "collect_image_groups g start_offset end_offset =
     (let r = read_range start_offset end_offset g;
          (groups, current) = foldl (\<lambda>st e. group_image e st) ([], None) (or_events r)
      in groups @ opt_list current)"

fun append_groups_loop ::
  "nat \<Rightarrow> nat \<Rightarrow> nat \<Rightarrow> nat \<Rightarrow> image_group list \<Rightarrow> worker_content list \<Rightarrow> worker_content list" where
  "append_groups_loop page_end max_images appended last_offset [] contents = contents"
| "append_groups_loop page_end max_images appended last_offset ((offset, content) # groups) contents =
     (if offset \<le> page_end
      then append_groups_loop page_end max_images appended last_offset groups contents
      else if appended \<ge> max_images then contents
      else
        (let gap = (if offset > last_offset
               then [server_stderr (''[pager] elided output: @'' @ dec last_offset @ ''..'' @
                       dec offset @ nl)] else [])
         in append_groups_loop page_end max_images (sat_add appended 1) offset groups
              (contents @ gap @ [content])))"

definition append_image_groups_after_page ::
  "nat \<Rightarrow> image_group list \<Rightarrow> nat \<Rightarrow> worker_content list \<Rightarrow> worker_content list" where
  "append_image_groups_after_page page_end groups max_images contents =
     append_groups_loop page_end max_images 0 page_end groups contents"

definition snapshot_page_with_images ::
  "pager_lib \<Rightarrow> nat \<Rightarrow> nat \<Rightarrow> output_state \<Rightarrow> snapshot_with_images \<times> output_state" where
  "snapshot_page_with_images lib end_offset target out =
     (let start_offset = unwrap_or (os_offset out) end_offset;
          image_groups = collect_image_groups (os_inner out) start_offset end_offset;
          (page, out') = take_snapshot_page_from_ring lib end_offset target out;
          contents = snap_contents page;
          left = snap_pages_left page;
          with_contents = (\<lambda>cs. \<lparr>si_contents = cs, si_pages_left = left, si_buffer = snap_buffer page,
                                  si_last_range = snap_last_range page\<rparr>)
      in if left = 0 \<and> MAX_IMAGES_PER_PAGE > 0 \<and> list_all (\<lambda>c. \<not> is_image c) contents \<and>
            image_groups \<noteq> []
         then (with_contents (contents @
                 map snd (take (min MAX_IMAGES_PER_PAGE (length image_groups)) image_groups)), out')
         else
           (let page_end = snapshot_page_end_offset start_offset end_offset left
                  (snap_last_range_end_byte page);
                remaining_images =
                  (if MAX_IMAGES_PER_PAGE > 0
                   then MAX_IMAGES_PER_PAGE - length (filter is_image contents)
                   else MAX_IMAGES_PER_PAGE);
                contents' =
                  (if remaining_images > 0 \<and> page_end < end_offset
                   then append_image_groups_after_page page_end image_groups remaining_images contents
                   else contents)
            in (with_contents contents', out')))"

definition snapshot_pending_timeout_page_with_images ::
  "pager_lib \<Rightarrow> nat \<Rightarrow> nat \<Rightarrow> output_state \<Rightarrow> snapshot_with_images \<times> output_state" where
  "snapshot_pending_timeout_page_with_images lib end_offset target out =
     (let start_offset = unwrap_or (os_offset out) end_offset;
          r = read_range start_offset end_offset (os_inner out)
      in if or_bytes r = [] \<and> or_events r \<noteq> [] \<and>
            list_all (\<lambda>e. case event_kind e of
                InputEcho _ \<Rightarrow> True | InputWait \<Rightarrow> True | RequestBoundary \<Rightarrow> True
              | SessionEnd \<Rightarrow> True | _ \<Rightarrow> False) (or_events r)
         then (\<lparr>si_contents = [], si_pages_left = 0, si_buffer = None, si_last_range = None\<rparr>, out)
         else snapshot_page_with_images lib end_offset target out)"

definition snapshot_after_completion ::
  "pager_lib \<Rightarrow> nat \<Rightarrow> nat \<Rightarrow> nat \<Rightarrow> output_state \<Rightarrow> completion_snapshot \<times> output_state" where
  "snapshot_after_completion lib start_offset end_offset target out =
     (let saw_stderr = saw_stderr_in_range (min start_offset end_offset) end_offset (os_inner out);
          (snapshot, out') = snapshot_page_with_images lib end_offset target out
      in (\<lparr>cs_snapshot = snapshot, cs_saw_stderr = saw_stderr\<rparr>, out'))"

definition take_range_from_ring_after_completion ::
  "nat \<Rightarrow> nat \<Rightarrow> string list \<Rightarrow> output_state \<Rightarrow> formatted_pending_output \<times> output_state" where
  "take_range_from_ring_after_completion start_offset end_offset protocol_warnings out =
     (let saw_stderr = saw_stderr_in_range (min start_offset end_offset) end_offset (os_inner out);
          (contents, out') = take_range_from_ring end_offset out
      in (\<lparr>fmt_contents = append_protocol_warnings protocol_warnings contents,
           fmt_saw_stderr = saw_stderr\<rparr>, out'))"

section \<open>Properties\<close>

lemma rposition_snoc [simp]: "P x \<Longrightarrow> rposition P (xs @ [x]) = Some (length xs)"
  by (simp add: rposition_def)

lemma ends_with_refl [simp]: "ends_with s s"
  by (simp add: ends_with_def)

lemma find_is_text: "find is_text cs = Some c \<Longrightarrow> \<exists>t s orig v. c = ContentText t s orig v"
  by (induction cs) (auto simp: is_text_def split: if_split_asm worker_content.split_asm)

text \<open>The last text of the contents ends with the prompt.\<close>

definition shows_prompt :: "string \<Rightarrow> worker_content list \<Rightarrow> bool" where
  "shows_prompt p cs \<longleftrightarrow> (\<exists>c. find is_text (rev cs) = Some c \<and> ends_with (content_text c) p)"

lemma append_prompt_shows: "p \<noteq> [] \<Longrightarrow> shows_prompt p (append_prompt (Some p) cs)"
  by (simp add: append_prompt_def shows_prompt_def worker_stdout_def is_text_def)

lemma append_if_missing_shows:
  assumes "p \<noteq> []"
  shows "shows_prompt p (append_prompt_if_missing (Some p) cs)"
proof (cases "find is_text (rev cs)")
  case None
  with assms show ?thesis
    by (simp add: append_prompt_if_missing_def shows_prompt_def worker_stdout_def is_text_def)
next
  case (Some c)
  with find_is_text obtain t s orig v where "c = ContentText t s orig v" by blast
  with Some assms show ?thesis
    by (simp add: append_prompt_if_missing_def shows_prompt_def worker_stdout_def is_text_def)
qed

lemma append_if_missing_done:
  assumes "shows_prompt p cs"
  shows "append_prompt_if_missing (Some p) cs = cs"
  using assms by (auto simp: append_prompt_if_missing_def shows_prompt_def dest: find_is_text split: worker_content.split)

text \<open>
  Prompts are added once and can be taken away again: stripping the prompt that was appended gives
  back the contents, adding a missing prompt makes the last text end with it, and doing so again
  changes nothing.
\<close>

theorem prompt_round_trip:
  "strip_trailing_prompt p (append_prompt (Some p) cs) = (if p = [] then strip_trailing_prompt p cs else cs) \<and>
   (p = [] \<or> shows_prompt p (append_prompt_if_missing (Some p) cs)) \<and>
   append_prompt_if_missing (Some p) (append_prompt_if_missing (Some p) cs) = append_prompt_if_missing (Some p) cs"
proof -
  have "p \<noteq> [] \<Longrightarrow> strip_trailing_prompt p (append_prompt (Some p) cs) = cs"
    by (simp add: strip_trailing_prompt_def append_prompt_def worker_stdout_def is_text_def strip_suffix_def
        remove_at_def)
  moreover have "strip_trailing_prompt [] (append_prompt (Some []) cs) = strip_trailing_prompt [] cs"
    by (simp add: append_prompt_def)
  moreover have "append_prompt_if_missing (Some []) cs = cs" for cs by (simp add: append_prompt_if_missing_def)
  ultimately show ?thesis
    using append_if_missing_shows [of p cs] append_if_missing_done by auto
qed

subsection \<open>Completed requests\<close>

lemma image_ids_remove_at:
  "i < length cs \<Longrightarrow> is_text (cs ! i) \<Longrightarrow> image_ids (remove_at i cs) = image_ids cs"
proof -
  assume "i < length cs" and t: "is_text (cs ! i)"
  then have "cs = take i cs @ [cs ! i] @ drop (Suc i) cs" by (simp add: id_take_nth_drop)
  moreover have "image_ids [cs ! i] = []" using t by (cases "cs ! i") (auto simp: is_text_def)
  ultimately show ?thesis unfolding remove_at_def by (metis append_self_conv2 image_ids_simps(4))
qed

lemma image_ids_update:
  "i < length cs \<Longrightarrow> is_text (cs ! i) \<Longrightarrow> image_ids (cs[i := ContentText t s orig v]) = image_ids cs"
proof -
  assume i: "i < length cs" and t: "is_text (cs ! i)"
  then have "cs = take i cs @ [cs ! i] @ drop (Suc i) cs" by (simp add: id_take_nth_drop)
  moreover have "image_ids [cs ! i] = []" using t by (cases "cs ! i") (auto simp: is_text_def)
  ultimately show ?thesis unfolding upd_conv_take_nth_drop [OF i]
    by (metis (no_types, opaque_lifting) append_Cons append_self_conv2 image_ids_simps(2,4) append_Nil)
qed

lemma strip_stdout_images: "n \<le> length cs \<Longrightarrow> image_ids (strip_stdout_loop p cs n) = image_ids cs"
proof (induction p cs n rule: strip_stdout_loop.induct)
  case (2 p cs i)
  then show ?case
    by (auto simp: image_ids_remove_at image_ids_update is_text_def
        split: worker_content.split content_origin.split text_stream.split option.split)
qed simp

lemma append_prompt_images [simp]:
  "image_ids (append_prompt prompt cs) = image_ids cs"
  "image_ids (append_prompt_if_missing prompt cs) = image_ids cs"
  by (auto simp: append_prompt_def append_prompt_if_missing_def worker_stdout_def split: option.split worker_content.split)

lemma reconcile_images [simp]: "image_ids (reconcile_completion_prompt unix b prompt cs) = image_ids cs"
  by (auto simp: reconcile_completion_prompt_def reconcile_python_completion_prompt_def strip_then_append_def
      strip_trailing_worker_stdout_prompt_def strip_stdout_images split: backend.split option.split)

lemma warnings_images [simp]: "image_ids (append_protocol_warnings ws cs) = image_ids cs"
  by (induction ws rule: rev_induct) (simp_all add: append_protocol_warnings_def)

lemma reconcile_shows: "p \<noteq> [] \<Longrightarrow> shows_prompt p (reconcile_completion_prompt unix b (Some p) cs)"
  by (auto simp: reconcile_completion_prompt_def reconcile_python_completion_prompt_def strip_then_append_def
      append_prompt_shows append_if_missing_shows split: backend.split)

text \<open>
  The reply of a completed request keeps every image in order and carries a prompt in exactly one
  place: in the text and the prompt field of the reply, or, while a pager is active, only in what
  is kept for the end of paging; and nowhere once the session has ended. The prompt that is
  remembered is the one the worker reported.
\<close>

theorem completed_reply_prompt:
  "let built = build_completed_reply unix contents is_error completion session_end mode b;
       prompt = (if session_end then None else ci_prompt completion)
   in image_ids (reply_contents (bc_reply built)) = image_ids contents \<and>
      reply_is_error (bc_reply built) = is_error \<and> reply_error_code (bc_reply built) = None \<and>
      bc_prompt_to_remember built = prompt \<and>
      (if mode = Pager True
       then reply_prompt (bc_reply built) = None \<and>
            bc_pager_prompt built =
              (if session_end then None else Some (from_prompt (normalize_prompt prompt)))
       else reply_prompt (bc_reply built) = normalize_prompt prompt \<and> bc_pager_prompt built = None \<and>
            (case normalize_prompt prompt of
               None \<Rightarrow> True | Some p \<Rightarrow> shows_prompt p (reply_contents (bc_reply built))))"
proof -
  have status: "image_ids [input_wait_status_content] = []" "image_ids [idle_status_content] = []"
    by (simp_all add: input_wait_status_content_def idle_status_content_def server_stdout_def)
  have empty: "append_protocol_warnings ws cs = [] \<longleftrightarrow> ws = [] \<and> cs = []" for ws cs
    by (auto simp: append_protocol_warnings_def)
  have norm: "normalize_prompt None = None" "normalize_prompt (Some []) = None"
    "p \<noteq> [] \<Longrightarrow> normalize_prompt (Some p) = Some p" for p by (simp_all add: normalize_prompt_def)
  show ?thesis
    unfolding build_completed_reply_def Let_def
    by (cases mode; cases "ci_prompt completion"; cases session_end; cases "the (ci_prompt completion) = []")
      (simp_all add: finalize_contents_def status empty norm reconcile_shows)
qed

subsection \<open>Images behind the first page\<close>

text \<open>
  The reference: of the images of a range, one that is followed by an update of itself (the next
  image is not a new one) is superseded.
\<close>

fun final_images :: "output_event list \<Rightarrow> image_group list" where
  "final_images [] = []"
| "final_images (e # es) =
     (if es \<noteq> [] \<and> \<not> ev_is_new (event_kind (hd es)) then final_images es
      else (event_offset e, ContentImage (ev_data (event_kind e)) (ev_mime_type (event_kind e))
              (ev_id (event_kind e)) (ev_is_new (event_kind e))) # final_images es)"

definition group_of :: "output_event \<Rightarrow> image_group" where
  "group_of e = (event_offset e, ContentImage (ev_data (event_kind e)) (ev_mime_type (event_kind e))
     (ev_id (event_kind e)) (ev_is_new (event_kind e)))"

lemma opt_list_simps [simp]: "opt_list None = []" "opt_list (Some x) = [x]"
  by (simp_all add: opt_list_def)

lemma group_image_step:
  "group_image e (gs, cur) =
     (if is_image_event e
      then (gs @ (if ev_is_new (event_kind e) then opt_list cur else []), Some (group_of e)) else (gs, cur))"
  by (auto simp: is_image_event_def group_of_def Let_def opt_list_def split: output_event_kind.split)

lemma group_images_fold:
  assumes "foldl (\<lambda>st e. group_image e st) (gs, Some (group_of x)) es = (gs', cur')"
  shows "gs' @ opt_list cur' = gs @ final_images (x # filter is_image_event es)"
  using assms
proof (induction es arbitrary: gs x)
  case Nil
  then show ?case by (auto simp: opt_list_def group_of_def)
next
  case (Cons e es)
  show ?case
  proof (cases "is_image_event e")
    case True
    with Cons.prems have "foldl (\<lambda>st e. group_image e st)
        (gs @ (if ev_is_new (event_kind e) then [group_of x] else []), Some (group_of e)) es = (gs', cur')"
      by (simp add: group_image_step split: if_split_asm del: group_image.simps)
    from Cons.IH [OF this] True show ?thesis by (auto simp: group_of_def)
  next
    case False
    with Cons.prems Cons.IH [of gs x] show ?thesis by (simp add: group_image_step del: group_image.simps)
  qed
qed

lemma group_images_start:
  assumes "foldl (\<lambda>st e. group_image e st) ([], None) es = (gs', cur')"
  shows "gs' @ opt_list cur' = final_images (filter is_image_event es)"
  using assms
proof (induction es)
  case Nil
  then show ?case by (auto simp: opt_list_def)
next
  case (Cons e es)
  then show ?case
    using group_images_fold [of "[]" e es gs' cur']
    by (cases "is_image_event e") (simp_all add: group_image_step split: if_split_asm del: group_image.simps final_images.simps)
qed

lemma image_groups_final:
  "collect_image_groups g start_offset end_offset =
     final_images (filter is_image_event (or_events (read_range start_offset end_offset g)))"
proof -
  obtain gs cur where f:
    "foldl (\<lambda>st e. group_image e st) ([], None) (or_events (read_range start_offset end_offset g)) = (gs, cur)"
    by fastforce
  from group_images_start [OF f] f show ?thesis
    by (simp add: collect_image_groups_def Let_def del: group_image.simps)
qed

text \<open>
  A reply shows each plot once, in its last version: the image groups of a range are its images in
  order without those that a later update of the same image supersedes.
\<close>

theorem image_groups_are_final:
  "collect_image_groups g start_offset end_offset =
     final_images (filter is_image_event (or_events (read_range start_offset end_offset g)))"
  by (rule image_groups_final)

lemma group_images_all: "list_all (\<lambda>g. is_image (snd g)) (final_images es)"
  by (induction es rule: final_images.induct) auto

lemma append_groups_images:
  assumes "list_all (\<lambda>g. is_image (snd g)) groups" and "appended \<le> m" and "m \<le> u64_max"
  shows "length (filter is_image (append_groups_loop page_end m appended off groups cs)) \<le>
         length (filter is_image cs) + (m - appended)"
  using assms
proof (induction page_end m appended off groups cs rule: append_groups_loop.induct)
  case (2 page_end m appended off offset content groups cs)
  show ?case
  proof (cases "offset \<le> page_end \<or> m \<le> appended")
    case True
    then show ?thesis using 2 by auto
  next
    case False
    define gap where "gap = (if offset > off
        then [server_stderr (''[pager] elided output: @'' @ dec off @ ''..'' @ dec offset @ nl)] else [])"
    have gap: "filter is_image gap = []" by (simp add: gap_def server_stderr_def)
    have sat: "sat_add appended 1 = Suc appended" using False 2(5) by (simp add: sat_add_def)
    have "length (filter is_image (append_groups_loop page_end m (sat_add appended 1) offset groups (cs @ gap @ [content])))
        \<le> length (filter is_image (cs @ gap @ [content])) + (m - sat_add appended 1)"
      by (rule 2(2)) (use False 2(3,5) sat in \<open>auto simp: gap_def\<close>)
    also have "\<dots> \<le> length (filter is_image cs) + (m - appended)" using gap sat False by (simp add: diff_le_mono2)
    finally show ?thesis using False by (simp add: gap_def Let_def)
  qed
qed simp

lemma snapshot_images_bounded:
  assumes "snapshot_page_with_images lib end_offset target out = (snap, out')"
    and "take_snapshot_page_from_ring lib end_offset target out = (page, out1)"
  shows "length (filter is_image (si_contents snap)) \<le>
         max MAX_IMAGES_PER_PAGE (length (filter is_image (snap_contents page)))"
proof -
  let ?n = "length (filter is_image (snap_contents page))"
  let ?gs = "collect_image_groups (os_inner out) (unwrap_or (os_offset out) end_offset) end_offset"
  have gs: "list_all (\<lambda>g. is_image (snd g)) ?gs" by (simp add: image_groups_final group_images_all)
  have "MAX_IMAGES_PER_PAGE - ?n \<le> u64_max" by (simp add: MAX_IMAGES_PER_PAGE_def u64_max_def)
  from append_groups_images [OF gs _ this, of 0]
  have loop0: "length (filter is_image (append_groups_loop e (MAX_IMAGES_PER_PAGE - ?n) 0 off ?gs cs))
      \<le> length (filter is_image cs) + (MAX_IMAGES_PER_PAGE - ?n)" for e off cs by simp
  have loop: "length (filter is_image (append_image_groups_after_page e ?gs (MAX_IMAGES_PER_PAGE - ?n) (snap_contents page)))
      \<le> max MAX_IMAGES_PER_PAGE ?n" for e
    using loop0 [of e e "snap_contents page"] unfolding append_image_groups_after_page_def by linarith
  have "length (filter is_image (map snd (take k ?gs))) \<le> k" for k
    by (metis length_filter_le length_map length_take min.bounded_iff)
  then have first: "length (filter is_image (snap_contents page @ map snd (take (min k (length ?gs)) ?gs))) \<le> k"
    if "list_all (\<lambda>c. \<not> is_image c) (snap_contents page)" for k
    using that by (simp add: list_all_iff filter_empty_conv) (meson min.cobounded1 le_trans)
  have "list_all (\<lambda>c. \<not> is_image c) (snap_contents page) \<and> si_contents snap =
        snap_contents page @ map snd (take (min MAX_IMAGES_PER_PAGE (length ?gs)) ?gs) \<or>
      (\<exists>e. si_contents snap = append_image_groups_after_page e ?gs (MAX_IMAGES_PER_PAGE - ?n) (snap_contents page)) \<or>
      si_contents snap = snap_contents page"
    using assms by (auto simp: snapshot_page_with_images_def Let_def split: if_split_asm)
  then show ?thesis using first [of MAX_IMAGES_PER_PAGE] loop by (auto intro: max.coboundedI1)
qed

subsection \<open>Outputs that fit on a page\<close>

lemma page_mode_irrelevant:
  assumes "wf_view b sn" and "take_next_page target mode b sn = ((c, left, span), b', sn')"
    and "take_next_page target mode' b sn = ((c2, left2, span2), b2, sn2)"
  shows "left2 = left"
proof -
  note cur = advance_cursor_page [of sn b target]
  have "cursor b' = cursor b2" using cur [of mode] cur [of mode'] assms by (simp add: wf_view_def)
  moreover have "b' = b\<lparr>cursor := cursor b'\<rparr>" "b2 = b\<lparr>cursor := cursor b2\<rparr>"
    using page_step_buffer [of target mode b sn] page_step_buffer [of target mode' b sn] assms(2,3)
    by (simp_all add: page_step_def)
  ultimately have "b' = b2" by metis
  with assms(2,3) show ?thesis by (auto simp: take_next_page_def Let_def)
qed

text \<open>
  An output that leaves no further page is answered as if there were no pager: the contents and the
  state in which the output is left are those of reading the whole range at once.
\<close>

theorem short_output_is_not_paged:
  assumes "lib_documented lib" and "os_offset out \<noteq> None"
    and "snapshot_from_ring end_offset out = (Some (r, previous), out1)"
    and "length (buf_bytes (from_timeline_range lib r)) \<le> u64_max"
    and "take_snapshot_page_from_ring lib end_offset target out = (snap, out')" and "snap_pages_left snap = 0"
  shows "take_range_from_ring end_offset out = (snap_contents snap, out')"
proof -
  let ?b = "from_timeline_range lib r"
  have view: "wf_view ?b range_set_default"
    using append_range_wf [OF wf_empty_at assms(1) assms(4) [unfolded from_timeline_range_def]]
      wf_buffer_len [OF _ assms(4)]
    by (simp add: from_timeline_range_def wf_view_def seen.inv_emp seen.pts_emp empty_at_def)
  have cap: "start_capture out = out" using assms(2) by (auto simp: start_capture_def split: option.split)
  then have r: "r = read_range (unwrap_or (os_offset out) end_offset) end_offset (os_inner out)"
    "previous = os_rendered out" "out1 = out"
    using assms(3) by (auto simp: snapshot_from_ring_def Let_def split: if_split_asm)
  obtain c last_rendered where c: "contents_from_output_range_with_state r Reply previous = (c, last_rendered)" by fastforce
  obtain pc left span b' sn' where page: "take_next_page target Reply ?b range_set_default = ((pc, left, span), b', sn')"
    by (metis prod_cases3)
  obtain pc2 left2 span2 b2 sn2 where page2:
    "take_next_page target PagerMode ?b range_set_default = ((pc2, left2, span2), b2, sn2)" by (metis prod_cases3)
  have left: "left2 = left" by (rule page_mode_irrelevant [OF view page page2])
  obtain snap0 lr where rng: "take_snapshot_page_from_range lib r target previous = (snap0, lr)" by fastforce
  have eq: "snap = snap0" "out' = advance_offset_with_rendered_text (or_end_offset r) lr
      (output_range_boundary_event_count r (or_end_offset r)) out"
    using assms(3,5) r(3) rng by (auto simp: take_snapshot_page_from_ring_def Let_def)
  have "snap_contents snap0 = c \<and> lr = last_rendered"
    using assms(6) eq(1) rng page2 left unfolding take_snapshot_page_from_range_def Let_def c page
    by (auto simp: take_snapshot_page_from_buffer_with_projection_def snapshot_empty_def split: if_split_asm)
  with eq c r show ?thesis by (simp add: take_range_from_ring_def Let_def)
qed

definition short_output :: output_state where
  "short_output = append_text ''ab'' False Worker (with_timeline (with_capacity 64))"

theorem short_output_is_not_paged_witness:
  "fst (take_range_from_ring 2 short_output) =
   snap_contents (fst (take_snapshot_page_from_ring lib_reference 2 4 short_output))"
proof -
  obtain r previous out1 where s: "snapshot_from_ring 2 short_output = (Some (r, previous), out1)"
  proof -
    have "fst (snapshot_from_ring 2 short_output) \<noteq> None" by code_simp
    then show ?thesis using that by (cases "snapshot_from_ring 2 short_output") auto
  qed
  obtain snap out' where t: "take_snapshot_page_from_ring lib_reference 2 4 short_output = (snap, out')" by fastforce
  have "os_offset short_output \<noteq> None"
    "length (buf_bytes (from_timeline_range lib_reference (fst (the (fst (snapshot_from_ring 2 short_output)))))) \<le> u64_max"
    "snap_pages_left (fst (take_snapshot_page_from_ring lib_reference 2 4 short_output)) = 0" by code_simp+
  with short_output_is_not_paged [OF lib_reference_documented _ s _ t] s t show ?thesis by simp
qed

end
