(* ===== verification/Input_State.thy ===== *)
theory Input_State
  imports Rust_Prelude
begin

text \<open>
  What the server knows of the worker's readiness (\<^verbatim>\<open>src/src/input_state.rs\<close>): whether an input is
  being executed, whether the worker waits for input, when it said so, a latched protocol error
  and the end of the session. An \<^verbatim>\<open>Instant\<close> is a natural number; what \<^verbatim>\<open>Instant::now()\<close> returns is
  an argument.
\<close>

section \<open>State and operations\<close>

record latched_protocol_error =
  lpe_message :: string
  lpe_observed_at :: nat

record input_state =
  in_active :: bool
  in_ready_for_input :: bool
  in_ready_from_input_wait :: bool
  in_ready_observed_at :: "nat option"
  in_completed_observed_at :: "nat option"
  in_protocol_error :: "latched_protocol_error option"
  in_session_end :: bool
  in_session_end_final :: bool

definition input_state_default :: input_state where
  "input_state_default =
     \<lparr>in_active = False, in_ready_for_input = False, in_ready_from_input_wait = False,
      in_ready_observed_at = None, in_completed_observed_at = None, in_protocol_error = None,
      in_session_end = False, in_session_end_final = False\<rparr>"

definition state_begin_input :: "input_state \<Rightarrow> string + input_state" where
  "state_begin_input s =
     (if \<not> in_ready_for_input s then Inl ''input_batch sent while worker is not ready for input''
      else Inr (s\<lparr>in_active := True, in_ready_for_input := False, in_ready_from_input_wait := False,
                  in_completed_observed_at := None\<rparr>))"

definition clear_request_progress :: "input_state \<Rightarrow> input_state" where
  "clear_request_progress s = s\<lparr>in_active := False, in_completed_observed_at := None\<rparr>"

definition readiness_observed_after :: "nat \<Rightarrow> input_state \<Rightarrow> bool" where
  "readiness_observed_after since s \<longleftrightarrow>
     in_ready_for_input s \<and>
     (case in_ready_observed_at s of None \<Rightarrow> False | Some observed_at \<Rightarrow> observed_at > since)"

definition input_wait_readiness_available :: "input_state \<Rightarrow> bool" where
  "input_wait_readiness_available s \<longleftrightarrow> in_ready_for_input s \<and> in_ready_from_input_wait s"

definition validate_active_input :: "string \<Rightarrow> input_state \<Rightarrow> string + unit" where
  "validate_active_input event_type s =
     (if \<not> in_active s then Inl (event_type @ '' reported with no active input'')
      else if in_completed_observed_at s \<noteq> None then Inl (event_type @ '' arrived after input_wait'')
      else Inr ())"

definition record_ready_at :: "nat \<Rightarrow> bool \<Rightarrow> input_state \<Rightarrow> input_state" where
  "record_ready_at observed_at from_input_wait s =
     (let s1 = s\<lparr>in_ready_for_input := True, in_ready_from_input_wait := from_input_wait,
                 in_ready_observed_at := Some observed_at\<rparr>
      in if in_active s1 then s1\<lparr>in_completed_observed_at := Some observed_at\<rparr> else s1)"

definition record_input_wait :: "nat \<Rightarrow> input_state \<Rightarrow> input_state" where
  "record_input_wait observed_at s = record_ready_at observed_at True s"

definition record_ready :: "nat \<Rightarrow> input_state \<Rightarrow> input_state" where
  "record_ready observed_at s = record_ready_at observed_at False s"

definition state_note_interrupt_sent :: "input_state \<Rightarrow> input_state" where
  "state_note_interrupt_sent s = s"

definition state_request_completion_ready :: "input_state \<Rightarrow> bool" where
  "state_request_completion_ready s \<longleftrightarrow> in_active s \<and> in_completed_observed_at s \<noteq> None"

definition request_completion_precedes_protocol_error :: "input_state \<Rightarrow> bool" where
  "request_completion_precedes_protocol_error s =
     (case in_protocol_error s of
        None \<Rightarrow> False
      | Some error \<Rightarrow>
          in_active s \<and>
          (case in_completed_observed_at s of
             None \<Rightarrow> False | Some observed_at \<Rightarrow> observed_at \<le> lpe_observed_at error))"

definition request_completion_observed_before :: "nat \<Rightarrow> input_state \<Rightarrow> bool" where
  "request_completion_observed_before deadline s \<longleftrightarrow>
     in_active s \<and>
     (case in_completed_observed_at s of None \<Rightarrow> False | Some observed_at \<Rightarrow> observed_at \<le> deadline)"

definition latch_protocol_error :: "nat \<Rightarrow> string \<Rightarrow> input_state \<Rightarrow> input_state" where
  "latch_protocol_error now message s =
     s\<lparr>in_protocol_error := Some \<lparr>lpe_message = message, lpe_observed_at = now\<rparr>\<rparr>"

definition state_take_protocol_error :: "input_state \<Rightarrow> string option \<times> input_state" where
  "state_take_protocol_error s =
     (map_option lpe_message (in_protocol_error s), s\<lparr>in_protocol_error := None\<rparr>)"

definition state_note_session_end :: "input_state \<Rightarrow> input_state" where
  "state_note_session_end s = s\<lparr>in_session_end := True, in_session_end_final := True\<rparr>"

definition state_take_session_end :: "input_state \<Rightarrow> bool \<times> input_state" where
  "state_take_session_end s = (in_session_end s, s\<lparr>in_session_end := False\<rparr>)"

lemmas input_state_defs =
  state_begin_input_def clear_request_progress_def record_ready_at_def record_input_wait_def
  record_ready_def state_note_interrupt_sent_def latch_protocol_error_def
  state_take_protocol_error_def state_note_session_end_def state_take_session_end_def

section \<open>Invariant\<close>

text \<open>
  A completed request is an active one whose completion is the readiness seen last and not yet
  consumed; readiness has been observed at some time; the session end is final.
\<close>

definition wf_input :: "input_state \<Rightarrow> bool" where
  "wf_input s \<longleftrightarrow>
     (in_completed_observed_at s \<noteq> None \<longrightarrow>
        in_active s \<and> in_ready_for_input s \<and> in_completed_observed_at s = in_ready_observed_at s) \<and>
     (in_ready_from_input_wait s \<longrightarrow> in_ready_for_input s) \<and>
     (in_ready_for_input s \<longrightarrow> in_ready_observed_at s \<noteq> None) \<and>
     (in_session_end s \<longrightarrow> in_session_end_final s)"

lemma wf_input_default [simp]: "wf_input input_state_default"
  by (simp add: wf_input_def input_state_default_def)

lemma wf_input_ops [simp]:
  assumes "wf_input s"
  shows "wf_input (clear_request_progress s)" "wf_input (record_ready_at t w s)"
    "wf_input (record_input_wait t s)" "wf_input (record_ready t s)"
    "wf_input (latch_protocol_error t m s)" "wf_input (snd (state_take_protocol_error s))"
    "wf_input (state_note_session_end s)" "wf_input (snd (state_take_session_end s))"
  using assms by (auto simp: wf_input_def input_state_defs Let_def)

lemma wf_input_begin: "wf_input s \<Longrightarrow> state_begin_input s = Inr s' \<Longrightarrow> wf_input s'"
  by (auto simp: wf_input_def state_begin_input_def split: if_split_asm)

end
