(* ===== verification/Ipc_Connection.thy ===== *)
theory Ipc_Connection
  imports Input_State Worker_Protocol
begin

text \<open>
  The server's end of the sideband channel to the worker (\<^verbatim>\<open>src/src/ipc/server_connection.rs\<close>, with
  the messages of \<^verbatim>\<open>src/src/ipc/protocol.rs\<close>): the inbox that a reader thread fills from the
  worker's messages, and the calls by which the server starts an input, waits for its completion
  and interrupts it. The inbox is behind a lock; each definition here is what happens while the
  lock is held once. A call that waits is a turn, the part from taking the lock to going to
  sleep, and what it does when it wakes up. The time is an argument, as are the JSON parser and
  the base64 decoder, which are libraries.
\<close>

section \<open>Messages\<close>

record worker_protocol_info =
  wp_name :: string
  wp_version :: nat

record worker_identity =
  wi_name :: string
  wi_version :: string

record worker_capabilities =
  wc_images :: bool

datatype ipc_message =
    MsgWorkerReady worker_protocol_info worker_identity worker_capabilities
  | MsgOutputText text_stream string bool
  | MsgInputLine string string
  | MsgInputWait string
  | MsgInterruptArmed
  | MsgInterruptComplete
  | MsgReady
  | MsgOutputImage string string bool "string option"
  | MsgSessionEnd "string option" "string option"

record ipc_input_line_event =
  il_prompt :: string
  il_line :: string

record ipc_output_text =
  ot_stream :: text_stream
  ot_bytes :: bytes
  ot_is_continuation :: bool

record ipc_output_image =
  oi_id :: string
  oi_mime_type :: string
  oi_data :: string
  oi_is_new :: bool
  oi_updates_previous_image :: bool
  oi_readline_results_seen :: nat

text \<open>The handlers a connection was made with, and a call of one of them.\<close>

record ipc_handlers =
  on_output_text :: bool
  on_output_image :: bool
  on_input_wait :: bool
  on_input_line :: bool
  on_session_end :: bool

datatype ipc_event =
    OutputTextEvent ipc_output_text
  | OutputImageEvent ipc_output_image
  | InputWaitEvent string
  | InputLineEvent ipc_input_line_event
  | SessionEndEvent

section \<open>The inbox\<close>

definition MAX_PROMPT_HISTORY :: nat where "MAX_PROMPT_HISTORY = 16"

record inbox =
  ib_queue :: "ipc_message list"
  ib_startup_message_seen :: bool
  ib_last_prompt :: "string option"
  ib_last_prompt_observed_at :: "nat option"
  ib_prompt_history :: "string list"
  ib_input_line_events :: "ipc_input_line_event list"
  ib_input_state :: input_state
  ib_readline_result_count :: nat
  ib_current_image_id :: "string option"
  ib_request_image_id :: "string option"
  ib_output_source_image_ids :: "string \<rightharpoonup> string"
  ib_request_output_source_image_ids :: "string \<rightharpoonup> string"
  ib_protocol_warnings :: "string list"
  ib_pending_interrupt_started_at :: "nat option"
  ib_interrupt_armed_at :: "nat option"
  ib_interrupt_complete_at :: "nat option"
  ib_readiness_after_interrupt :: bool
  ib_disconnected :: bool

definition inbox_default :: inbox where
  "inbox_default =
     \<lparr>ib_queue = [], ib_startup_message_seen = False, ib_last_prompt = None,
      ib_last_prompt_observed_at = None, ib_prompt_history = [], ib_input_line_events = [],
      ib_input_state = input_state_default, ib_readline_result_count = 0,
      ib_current_image_id = None, ib_request_image_id = None,
      ib_output_source_image_ids = Map.empty, ib_request_output_source_image_ids = Map.empty,
      ib_protocol_warnings = [], ib_pending_interrupt_started_at = None,
      ib_interrupt_armed_at = None, ib_interrupt_complete_at = None,
      ib_readiness_after_interrupt = False, ib_disconnected = False\<rparr>"

definition update_input :: "(input_state \<Rightarrow> input_state) \<Rightarrow> inbox \<Rightarrow> inbox" where
  "update_input f ib = ib\<lparr>ib_input_state := f (ib_input_state ib)\<rparr>"

definition latch_error :: "nat \<Rightarrow> string \<Rightarrow> inbox \<Rightarrow> inbox" where
  "latch_error now message ib = update_input (latch_protocol_error now message) ib"

definition ipc_take_protocol_error :: "inbox \<Rightarrow> string option \<times> inbox" where
  "ipc_take_protocol_error ib =
     (let (error, s) = state_take_protocol_error (ib_input_state ib)
      in (error, ib\<lparr>ib_input_state := s\<rparr>))"

definition is_session_end :: "ipc_message \<Rightarrow> bool" where
  "is_session_end m = (case m of MsgSessionEnd _ _ \<Rightarrow> True | _ \<Rightarrow> False)"

definition is_worker_ready :: "ipc_message \<Rightarrow> bool" where
  "is_worker_ready m = (case m of MsgWorkerReady _ _ _ \<Rightarrow> True | _ \<Rightarrow> False)"

definition remove_index :: "nat \<Rightarrow> 'a list \<Rightarrow> 'a list" where
  "remove_index i xs = take i xs @ drop (Suc i) xs"

definition ipc_take_session_end :: "inbox \<Rightarrow> bool \<times> inbox" where
  "ipc_take_session_end ib =
     (let (seen, s) = state_take_session_end (ib_input_state ib);
          ib1 = ib\<lparr>ib_input_state := s\<rparr>
      in if \<not> seen then (False, ib1)
         else
           (case position is_session_end (ib_queue ib1) of
              None \<Rightarrow> (True, ib1)
            | Some idx \<Rightarrow> (True, ib1\<lparr>ib_queue := remove_index idx (ib_queue ib1)\<rparr>)))"

definition push_prompt_history :: "string \<Rightarrow> inbox \<Rightarrow> inbox" where
  "push_prompt_history prompt ib =
     (let history = ib_prompt_history ib
      in if history = [] \<or> last history \<noteq> prompt
         then
           (let history = history @ [prompt]
            in ib\<lparr>ib_prompt_history :=
                    (if length history > MAX_PROMPT_HISTORY then drop 1 history else history)\<rparr>)
         else ib)"

definition reset_request_progress :: "inbox \<Rightarrow> inbox" where
  "reset_request_progress ib =
     (update_input clear_request_progress ib)\<lparr>ib_readline_result_count := 0\<rparr>"

definition reset_after_completed_request :: "inbox \<Rightarrow> inbox" where
  "reset_after_completed_request ib =
     (reset_request_progress ib)\<lparr>ib_request_image_id := None,
       ib_request_output_source_image_ids := Map.empty, ib_last_prompt := None,
       ib_last_prompt_observed_at := None\<rparr>"

definition interrupt_transaction_armed :: "inbox \<Rightarrow> bool" where
  "interrupt_transaction_armed ib =
     (case ib_pending_interrupt_started_at ib of
        None \<Rightarrow> False
      | Some started_at \<Rightarrow>
          (case ib_interrupt_armed_at ib of None \<Rightarrow> False | Some t \<Rightarrow> t \<ge> started_at))"

definition interrupt_transaction_settled :: "inbox \<Rightarrow> bool" where
  "interrupt_transaction_settled ib =
     (case ib_pending_interrupt_started_at ib of
        None \<Rightarrow> False
      | Some started_at \<Rightarrow>
          interrupt_transaction_armed ib \<and>
          (case ib_interrupt_complete_at ib of None \<Rightarrow> False | Some t \<Rightarrow> t \<ge> started_at) \<and>
          ib_readiness_after_interrupt ib)"

definition interrupt_transaction_blocks_request_completion :: "inbox \<Rightarrow> bool" where
  "interrupt_transaction_blocks_request_completion ib \<longleftrightarrow>
     ib_pending_interrupt_started_at ib \<noteq> None \<and> \<not> interrupt_transaction_settled ib"

definition request_completion_ready :: "inbox \<Rightarrow> bool" where
  "request_completion_ready ib \<longleftrightarrow>
     \<not> interrupt_transaction_blocks_request_completion ib \<and> in_active (ib_input_state ib) \<and>
     state_request_completion_ready (ib_input_state ib)"

definition request_completion_precedes_latched_protocol_error :: "inbox \<Rightarrow> bool" where
  "request_completion_precedes_latched_protocol_error ib \<longleftrightarrow>
     \<not> interrupt_transaction_blocks_request_completion ib \<and> in_active (ib_input_state ib) \<and>
     request_completion_precedes_protocol_error (ib_input_state ib)"

definition take_request_completion_before_latched_protocol_error :: "inbox \<Rightarrow> bool \<times> inbox" where
  "take_request_completion_before_latched_protocol_error ib =
     (if \<not> request_completion_precedes_latched_protocol_error ib then (False, ib)
      else (True, reset_request_progress ib))"

definition take_request_completion :: "inbox \<Rightarrow> bool \<times> inbox" where
  "take_request_completion ib =
     (if \<not> request_completion_ready ib then (False, ib) else (True, reset_request_progress ib))"

definition request_completion_observed_before_deadline :: "nat \<Rightarrow> inbox \<Rightarrow> bool" where
  "request_completion_observed_before_deadline deadline ib \<longleftrightarrow>
     \<not> interrupt_transaction_blocks_request_completion ib \<and> in_active (ib_input_state ib) \<and>
     request_completion_observed_before deadline (ib_input_state ib)"

definition validate_session_end :: "string option \<Rightarrow> string + unit" where
  "validate_session_end reason =
     (case reason of
        None \<Rightarrow> Inr ()
      | Some r \<Rightarrow>
          if r \<in> {''shutdown'', ''reset'', ''runtime_exit'', ''crash'', ''protocol_error''} then Inr ()
          else Inl (''invalid session_end reason: '' @ r))"

definition take_worker_ready :: "inbox \<Rightarrow> ipc_message option \<times> inbox" where
  "take_worker_ready ib =
     (case position is_worker_ready (ib_queue ib) of
        None \<Rightarrow> (None, ib)
      | Some idx \<Rightarrow>
          (Some (ib_queue ib ! idx), ib\<lparr>ib_queue := remove_index idx (ib_queue ib)\<rparr>))"

subsection \<open>Image identities\<close>

text \<open>
  The counter \<^verbatim>\<open>NEXT_SERVER_IMAGE_ID\<close> is shared by all connections and 64 bits wide;
  \<^verbatim>\<open>fetch_add\<close> wraps.
\<close>

definition allocate_output_image_id :: "nat \<Rightarrow> string \<times> nat" where
  "allocate_output_image_id next_id =
     (''image-'' @ dec (sat_add next_id 1), (next_id + 1) mod 2 ^ 64)"

text \<open>
  The result is the identity, whether it is a new image and whether it replaces one of an earlier
  request. \<open>None\<close> is the panic of \<^verbatim>\<open>expect\<close>.
\<close>

definition assign_output_image_id ::
  "nat \<Rightarrow> string option \<Rightarrow> bool \<Rightarrow> inbox \<Rightarrow> ((string \<times> bool \<times> bool) \<times> inbox \<times> nat) option" where
  "assign_output_image_id next_id source is_update ib =
     (case source of
        Some source \<Rightarrow>
          (case (is_update, ib_request_output_source_image_ids ib source) of
             (True, Some i) \<Rightarrow>
               Some ((i, False, False), ib\<lparr>ib_current_image_id := Some i\<rparr>, next_id)
           | _ \<Rightarrow>
               (let updates_previous_image =
                      is_update \<and> ib_output_source_image_ids ib source \<noteq> None;
                    (i, next_id) = allocate_output_image_id next_id
                in Some ((i, True, updates_previous_image),
                     ib\<lparr>ib_output_source_image_ids := (ib_output_source_image_ids ib)(source \<mapsto> i),
                        ib_request_output_source_image_ids :=
                          (ib_request_output_source_image_ids ib)(source \<mapsto> i),
                        ib_current_image_id := Some i\<rparr>, next_id)))
      | None \<Rightarrow>
          (let updates_previous_image =
                 is_update \<and> ib_current_image_id ib \<noteq> None \<and> ib_request_image_id ib = None;
               is_new = (\<not> is_update \<or> ib_current_image_id ib = None \<or> updates_previous_image)
           in if is_new
              then
                (let (i, next_id) = allocate_output_image_id next_id
                 in Some ((i, is_new, updates_previous_image),
                      ib\<lparr>ib_request_image_id := Some i, ib_current_image_id := Some i\<rparr>, next_id))
              else
                (case ib_request_image_id ib of
                   Some i \<Rightarrow> Some ((i, is_new, updates_previous_image), ib, next_id)
                 | None \<Rightarrow>
                     (case ib_current_image_id ib of
                        Some i \<Rightarrow> Some ((i, is_new, updates_previous_image), ib, next_id)
                      | None \<Rightarrow> None))))"

section \<open>The reader thread\<close>

text \<open>What the reader does after a message: read on, leave its loop, or panic.\<close>

datatype reader_outcome = ReadOn | LeaveLoop | ReaderPanic

text \<open>
  A line that was read. Empty lines are skipped, a line that is no message ends the loop; a message
  is admitted before it is handled: none may follow the end of the session, and the first has
  to announce the worker or its end. Whether it was the first is kept for its handling.
\<close>

definition admit_message :: "nat \<Rightarrow> ipc_message \<Rightarrow> inbox \<Rightarrow> bool option \<times> inbox" where
  "admit_message now message ib =
     (if in_session_end_final (ib_input_state ib)
      then (None, latch_error now ''worker sideband message after session_end'' ib)
      else
        (let first_worker_message = \<not> ib_startup_message_seen ib
         in if first_worker_message \<and> \<not> (is_worker_ready message \<or> is_session_end message)
            then (None, latch_error now ''first worker sideband message must be worker_ready'' ib)
            else
              (Some first_worker_message,
               if first_worker_message then ib\<lparr>ib_startup_message_seen := True\<rparr> else ib)))"

definition read_line ::
  "(string \<Rightarrow> string + ipc_message) \<Rightarrow> nat \<Rightarrow> string \<Rightarrow> inbox \<Rightarrow>
   reader_outcome \<times> (ipc_message \<times> bool) option \<times> inbox" where
  "read_line from_str now line ib =
     (let trimmed = trim_end_matches (\<lambda>c. c = [CHR 0x0A] \<or> c = [CHR 0x0D]) line
      in if trimmed = [] then (ReadOn, None, ib)
         else
           (case from_str trimmed of
              Inl err \<Rightarrow> (LeaveLoop, None, latch_error now (''invalid worker sideband JSON: '' @ err) ib)
            | Inr message \<Rightarrow>
                (case admit_message now message ib of
                   (None, ib1) \<Rightarrow> (LeaveLoop, None, ib1)
                 | (Some is_first, ib1) \<Rightarrow> (ReadOn, Some (message, is_first), ib1))))"

definition reader_disconnected :: "inbox \<Rightarrow> inbox" where
  "reader_disconnected ib = ib\<lparr>ib_disconnected := True\<rparr>"

definition dispatch :: "bool \<Rightarrow> bool \<Rightarrow> ipc_event \<Rightarrow> ipc_event list" where
  "dispatch enabled handler event = (if handler \<and> enabled then [event] else [])"

definition note_readiness_after_interrupt :: "inbox \<Rightarrow> inbox" where
  "note_readiness_after_interrupt ib =
     (if ib_pending_interrupt_started_at ib \<noteq> None \<and> ib_interrupt_complete_at ib \<noteq> None
      then ib\<lparr>ib_readiness_after_interrupt := True\<rparr> else ib)"

definition handle_input_line ::
  "ipc_handlers \<Rightarrow> bool \<Rightarrow> nat \<Rightarrow> string \<Rightarrow> string \<Rightarrow> inbox \<Rightarrow>
   reader_outcome \<times> ipc_event list \<times> inbox" where
  "handle_input_line h enabled now prompt line ib =
     (case validate_active_input ''input_line'' (ib_input_state ib) of
        Inl err \<Rightarrow> (LeaveLoop, [], latch_error now err ib)
      | Inr _ \<Rightarrow>
          (let event = \<lparr>il_prompt = prompt, il_line = line\<rparr>;
               ib1 = ib\<lparr>ib_readline_result_count := sat_add (ib_readline_result_count ib) 1\<rparr>;
               ib2 = push_prompt_history prompt ib1;
               ib3 = ib2\<lparr>ib_input_line_events := ib_input_line_events ib2 @ [event]\<rparr>
           in (ReadOn, dispatch enabled (on_input_line h) (InputLineEvent event), ib3)))"

definition handle_input_wait ::
  "ipc_handlers \<Rightarrow> bool \<Rightarrow> nat \<Rightarrow> string \<Rightarrow> inbox \<Rightarrow> reader_outcome \<times> ipc_event list \<times> inbox"
where
  "handle_input_wait h enabled now prompt ib =
     (let ib1 = note_readiness_after_interrupt (update_input (record_input_wait now) ib);
          ib2 = ib1\<lparr>ib_last_prompt_observed_at := Some now\<rparr>;
          ib3 = (push_prompt_history prompt ib2)\<lparr>ib_last_prompt := Some prompt\<rparr>
      in (ReadOn, dispatch enabled (on_input_wait h) (InputWaitEvent prompt), ib3))"

definition handle_interrupt_armed :: "nat \<Rightarrow> inbox \<Rightarrow> reader_outcome \<times> ipc_event list \<times> inbox" where
  "handle_interrupt_armed now ib =
     (if ib_pending_interrupt_started_at ib = None
      then (LeaveLoop, [],
            latch_error now ''interrupt_armed reported with no pending interrupt transaction'' ib)
      else if ib_interrupt_armed_at ib \<noteq> None
      then (LeaveLoop, [],
            latch_error now ''duplicate interrupt_armed for pending interrupt transaction'' ib)
      else (ReadOn, [], ib\<lparr>ib_interrupt_armed_at := Some now\<rparr>))"

definition handle_interrupt_complete :: "nat \<Rightarrow> inbox \<Rightarrow> reader_outcome \<times> ipc_event list \<times> inbox"
where
  "handle_interrupt_complete now ib =
     (if ib_pending_interrupt_started_at ib = None
      then (LeaveLoop, [],
            latch_error now ''interrupt_complete reported with no pending interrupt transaction'' ib)
      else if \<not> interrupt_transaction_armed ib
      then (LeaveLoop, [], latch_error now ''interrupt_complete reported before interrupt_armed'' ib)
      else if ib_interrupt_complete_at ib \<noteq> None
      then (LeaveLoop, [],
            latch_error now ''duplicate interrupt_complete for pending interrupt transaction'' ib)
      else (ReadOn, [],
            ib\<lparr>ib_interrupt_complete_at := Some now, ib_readiness_after_interrupt := False\<rparr>))"

definition handle_ready :: "nat \<Rightarrow> inbox \<Rightarrow> reader_outcome \<times> ipc_event list \<times> inbox" where
  "handle_ready now ib =
     (let ib1 = note_readiness_after_interrupt (update_input (record_ready now) ib)
      in (ReadOn, [],
          ib1\<lparr>ib_last_prompt := None, ib_last_prompt_observed_at := None, ib_prompt_history := []\<rparr>))"

definition handle_session_end ::
  "ipc_handlers \<Rightarrow> bool \<Rightarrow> nat \<Rightarrow> bool \<Rightarrow> string option \<Rightarrow> string option \<Rightarrow> inbox \<Rightarrow>
   reader_outcome \<times> ipc_event list \<times> inbox" where
  "handle_session_end h enabled now first_worker_message reason message ib =
     (case validate_session_end reason of
        Inl err \<Rightarrow> (LeaveLoop, [], latch_error now err ib)
      | Inr _ \<Rightarrow>
          (let ib1 =
                 (case message of
                    Some m \<Rightarrow>
                      if first_worker_message \<and> reason = Some ''protocol_error''
                      then latch_error now m ib else ib
                  | None \<Rightarrow> ib);
               ib2 = update_input state_note_session_end ib1;
               ib3 = ib2\<lparr>ib_queue := ib_queue ib2 @ [MsgSessionEnd reason message]\<rparr>
           in (ReadOn, dispatch enabled (on_session_end h) SessionEndEvent, ib3)))"

definition push_queue :: "ipc_message \<Rightarrow> inbox \<Rightarrow> inbox" where
  "push_queue message ib = ib\<lparr>ib_queue := ib_queue ib @ [message]\<rparr>"

definition handle_output_text ::
  "(string \<Rightarrow> bytes option) \<Rightarrow> ipc_handlers \<Rightarrow> bool \<Rightarrow> nat \<Rightarrow> text_stream \<Rightarrow> string \<Rightarrow> bool \<Rightarrow> inbox \<Rightarrow>
   reader_outcome \<times> ipc_event list \<times> inbox" where
  "handle_output_text decode h enabled now stream data_b64 is_continuation ib =
     (case decode data_b64 of
        None \<Rightarrow> (LeaveLoop, [], latch_error now ''invalid output_text base64'' ib)
      | Some bs \<Rightarrow>
          if on_output_text h
          then
            (ReadOn,
             dispatch enabled True
               (OutputTextEvent \<lparr>ot_stream = stream, ot_bytes = bs, ot_is_continuation = is_continuation\<rparr>),
             ib)
          else (ReadOn, [], push_queue (MsgOutputText stream data_b64 is_continuation) ib))"

definition handle_output_image ::
  "(string \<Rightarrow> bytes option) \<Rightarrow> ipc_handlers \<Rightarrow> bool \<Rightarrow> nat \<Rightarrow> string \<Rightarrow> string \<Rightarrow> bool \<Rightarrow> string option \<Rightarrow>
   inbox \<Rightarrow> nat \<Rightarrow> reader_outcome \<times> ipc_event list \<times> inbox \<times> nat" where
  "handle_output_image decode h enabled now mime_type data_b64 is_update source ib next_id =
     (case decode data_b64 of
        None \<Rightarrow> (LeaveLoop, [], latch_error now ''invalid output_image base64'' ib, next_id)
      | Some _ \<Rightarrow>
          (case assign_output_image_id next_id source is_update ib of
             None \<Rightarrow> (ReaderPanic, [], ib, next_id)
           | Some ((i, is_new, updates_previous_image), ib1, next_id) \<Rightarrow>
               if on_output_image h
               then
                 (ReadOn,
                  dispatch enabled True
                    (OutputImageEvent
                       \<lparr>oi_id = i, oi_mime_type = mime_type, oi_data = data_b64, oi_is_new = is_new,
                        oi_updates_previous_image = updates_previous_image,
                        oi_readline_results_seen = ib_readline_result_count ib1\<rparr>),
                  ib1, next_id)
               else
                 (ReadOn, [], push_queue (MsgOutputImage mime_type data_b64 is_update source) ib1,
                  next_id)))"

definition handle_message ::
  "(string \<Rightarrow> bytes option) \<Rightarrow> ipc_handlers \<Rightarrow> bool \<Rightarrow> nat \<Rightarrow> ipc_message \<Rightarrow> bool \<Rightarrow> inbox \<Rightarrow> nat \<Rightarrow>
   reader_outcome \<times> ipc_event list \<times> inbox \<times> nat" where
  "handle_message decode h enabled now message first_worker_message ib next_id =
     (let keep = (\<lambda>(outcome, events, ib). (outcome, events, ib, next_id))
      in case message of
           MsgInputLine prompt line \<Rightarrow> keep (handle_input_line h enabled now prompt line ib)
         | MsgInputWait prompt \<Rightarrow> keep (handle_input_wait h enabled now prompt ib)
         | MsgInterruptArmed \<Rightarrow> keep (handle_interrupt_armed now ib)
         | MsgInterruptComplete \<Rightarrow> keep (handle_interrupt_complete now ib)
         | MsgReady \<Rightarrow> keep (handle_ready now ib)
         | MsgSessionEnd reason m \<Rightarrow>
             keep (handle_session_end h enabled now first_worker_message reason m ib)
         | MsgOutputText stream data_b64 is_continuation \<Rightarrow>
             keep (handle_output_text decode h enabled now stream data_b64 is_continuation ib)
         | MsgOutputImage mime_type data_b64 is_update source \<Rightarrow>
             handle_output_image decode h enabled now mime_type data_b64 is_update source ib next_id
         | MsgWorkerReady _ _ _ \<Rightarrow> keep (ReadOn, [], push_queue message ib))"

section \<open>Calls of the server\<close>

datatype ipc_wait_error = WaitTimeout | WaitSessionEnd | WaitDisconnected | WaitProtocol string

datatype ipc_input_readiness = ReadinessInputWait string | ReadinessReady

definition begin_request :: "inbox \<Rightarrow> inbox" where
  "begin_request ib =
     (reset_after_completed_request ib)\<lparr>ib_input_line_events := [], ib_prompt_history := [],
       ib_protocol_warnings := []\<rparr>"

text \<open>What every waiting call looks at first: a latched error, the end of the session, the channel.\<close>

definition wait_guard :: "inbox \<Rightarrow> ipc_wait_error option \<times> inbox" where
  "wait_guard ib =
     (case ipc_take_protocol_error ib of
        (Some message, ib1) \<Rightarrow> (Some (WaitProtocol message), ib1)
      | (None, ib1) \<Rightarrow>
          (case ipc_take_session_end ib1 of
             (True, ib2) \<Rightarrow> (Some WaitSessionEnd, ib2)
           | (False, ib2) \<Rightarrow>
               if ib_disconnected ib2 then (Some WaitDisconnected, ib2) else (None, ib2)))"

text \<open>A turn that has nothing to return yet goes to sleep unless the deadline has passed.\<close>

definition wait_until :: "nat \<Rightarrow> nat \<Rightarrow> inbox \<Rightarrow> (ipc_wait_error + 'a) option \<times> inbox" where
  "wait_until now deadline ib = (if now \<ge> deadline then Some (Inl WaitTimeout) else None, ib)"

definition begin_input_turn ::
  "nat \<Rightarrow> nat \<Rightarrow> inbox \<Rightarrow> (ipc_wait_error + unit) option \<times> inbox" where
  "begin_input_turn now deadline ib =
     (case wait_guard ib of
        (Some error, ib1) \<Rightarrow> (Some (Inl error), ib1)
      | (None, ib1) \<Rightarrow>
          if in_ready_for_input (ib_input_state ib1)
          then
            (let ib2 = ib1\<lparr>ib_last_prompt := None, ib_last_prompt_observed_at := None\<rparr>
             in case state_begin_input (ib_input_state ib2) of
                  Inl err \<Rightarrow> (Some (Inl (WaitProtocol err)), ib2)
                | Inr s \<Rightarrow>
                    (Some (Inr ()),
                     ib2\<lparr>ib_input_state := s, ib_input_line_events := [], ib_prompt_history := [],
                         ib_protocol_warnings := []\<rparr>))
          else wait_until now deadline ib1)"

definition begin_input_when_ready ::
  "nat \<Rightarrow> nat \<Rightarrow> inbox \<Rightarrow> (ipc_wait_error + unit) option \<times> inbox" where
  "begin_input_when_ready now deadline ib =
     begin_input_turn now deadline (reset_after_completed_request ib)"

text \<open>Waking up from a sleep that timed out ends the call; from any other it takes the next turn.\<close>

definition begin_input_woken ::
  "bool \<Rightarrow> nat \<Rightarrow> nat \<Rightarrow> inbox \<Rightarrow> (ipc_wait_error + unit) option \<times> inbox" where
  "begin_input_woken timed_out now deadline ib =
     (if timed_out then (Some (Inl WaitTimeout), ib) else begin_input_turn now deadline ib)"

definition note_interrupt_sent :: "inbox \<Rightarrow> inbox" where
  "note_interrupt_sent ib = update_input state_note_interrupt_sent ib"

definition begin_interrupt_transaction :: "nat \<Rightarrow> inbox \<Rightarrow> inbox" where
  "begin_interrupt_transaction started_at ib =
     ib\<lparr>ib_pending_interrupt_started_at := Some started_at, ib_interrupt_armed_at := None,
        ib_interrupt_complete_at := None, ib_readiness_after_interrupt := False\<rparr>"

definition interrupt_armed_turn ::
  "nat \<Rightarrow> nat \<Rightarrow> inbox \<Rightarrow> (ipc_wait_error + unit) option \<times> inbox" where
  "interrupt_armed_turn now deadline ib =
     (case wait_guard ib of
        (Some error, ib1) \<Rightarrow> (Some (Inl error), ib1)
      | (None, ib1) \<Rightarrow>
          if ib_pending_interrupt_started_at ib1 = None
          then (Some (Inl (WaitProtocol ''interrupt arm wait started with no pending interrupt transaction'')), ib1)
          else if interrupt_transaction_armed ib1 then (Some (Inr ()), ib1)
          else wait_until now deadline ib1)"

definition interrupt_armed_woken ::
  "bool \<Rightarrow> nat \<Rightarrow> nat \<Rightarrow> inbox \<Rightarrow> (ipc_wait_error + unit) option \<times> inbox" where
  "interrupt_armed_woken timed_out now deadline ib =
     (if timed_out \<and> \<not> interrupt_transaction_armed ib then (Some (Inl WaitTimeout), ib)
      else interrupt_armed_turn now deadline ib)"

definition pending_interrupt_turn ::
  "nat \<Rightarrow> nat \<Rightarrow> inbox \<Rightarrow> (ipc_wait_error + unit) option \<times> inbox" where
  "pending_interrupt_turn now deadline ib =
     (case wait_guard ib of
        (Some error, ib1) \<Rightarrow> (Some (Inl error), ib1)
      | (None, ib1) \<Rightarrow>
          if ib_pending_interrupt_started_at ib1 = None then (Some (Inr ()), ib1)
          else if interrupt_transaction_settled ib1
          then (Some (Inr ()), ib1\<lparr>ib_pending_interrupt_started_at := None\<rparr>)
          else wait_until now deadline ib1)"

definition pending_interrupt_woken ::
  "bool \<Rightarrow> nat \<Rightarrow> nat \<Rightarrow> inbox \<Rightarrow> (ipc_wait_error + unit) option \<times> inbox" where
  "pending_interrupt_woken timed_out now deadline ib =
     (if timed_out \<and> \<not> interrupt_transaction_settled ib then (Some (Inl WaitTimeout), ib)
      else pending_interrupt_turn now deadline ib)"

definition take_prompt_history :: "inbox \<Rightarrow> string list \<times> inbox" where
  "take_prompt_history ib = (ib_prompt_history ib, ib\<lparr>ib_prompt_history := []\<rparr>)"

definition take_protocol_warnings :: "inbox \<Rightarrow> string list \<times> inbox" where
  "take_protocol_warnings ib = (ib_protocol_warnings ib, ib\<lparr>ib_protocol_warnings := []\<rparr>)"

text \<open>
  A completion that was observed before an error was latched is taken first, then the error, the
  end of the session and any other completion.
\<close>

definition completion_checks :: "inbox \<Rightarrow> (ipc_wait_error + unit) option \<times> inbox" where
  "completion_checks ib =
     (case take_request_completion_before_latched_protocol_error ib of
        (True, ib1) \<Rightarrow> (Some (Inr ()), ib1)
      | (False, ib1) \<Rightarrow>
          (case ipc_take_protocol_error ib1 of
             (Some message, ib2) \<Rightarrow> (Some (Inl (WaitProtocol message)), ib2)
           | (None, ib2) \<Rightarrow>
               (case ipc_take_session_end ib2 of
                  (True, ib3) \<Rightarrow> (Some (Inl WaitSessionEnd), ib3)
                | (False, ib3) \<Rightarrow>
                    (case take_request_completion ib3 of
                       (True, ib4) \<Rightarrow> (Some (Inr ()), ib4)
                     | (False, ib4) \<Rightarrow> (None, ib4)))))"

definition completion_timed_out :: "nat \<Rightarrow> nat \<Rightarrow> inbox \<Rightarrow> bool" where
  "completion_timed_out now deadline ib \<longleftrightarrow>
     now \<ge> deadline \<and> \<not> request_completion_observed_before_deadline deadline ib"

definition completion_turn ::
  "nat \<Rightarrow> nat \<Rightarrow> inbox \<Rightarrow> (ipc_wait_error + unit) option \<times> inbox" where
  "completion_turn now deadline ib =
     (case completion_checks ib of
        (Some result, ib1) \<Rightarrow> (Some result, ib1)
      | (None, ib1) \<Rightarrow>
          if ib_disconnected ib1 then (Some (Inl WaitDisconnected), ib1)
          else if completion_timed_out now deadline ib1 then (Some (Inl WaitTimeout), ib1)
          else (None, ib1))"

definition completion_woken ::
  "bool \<Rightarrow> nat \<Rightarrow> nat \<Rightarrow> nat \<Rightarrow> inbox \<Rightarrow> (ipc_wait_error + unit) option \<times> inbox" where
  "completion_woken timed_out woken_at now deadline ib =
     (if timed_out
      then
        (case completion_checks ib of
           (Some result, ib1) \<Rightarrow> (Some result, ib1)
         | (None, ib1) \<Rightarrow>
             if completion_timed_out woken_at deadline ib1 then (Some (Inl WaitTimeout), ib1)
             else completion_turn now deadline ib1)
      else completion_turn now deadline ib)"

definition try_take_prompt :: "inbox \<Rightarrow> string option \<times> inbox" where
  "try_take_prompt ib =
     (ib_last_prompt ib, ib\<lparr>ib_last_prompt_observed_at := None, ib_last_prompt := None\<rparr>)"

definition interrupt_observation_turn ::
  "nat \<Rightarrow> nat \<Rightarrow> nat \<Rightarrow> inbox \<Rightarrow> (ipc_wait_error + nat) option \<times> inbox" where
  "interrupt_observation_turn since now deadline ib =
     (case wait_guard ib of
        (Some error, ib1) \<Rightarrow> (Some (Inl error), ib1)
      | (None, ib1) \<Rightarrow>
          (case ib_interrupt_complete_at ib1 of
             Some observed_at \<Rightarrow>
               if observed_at \<ge> since then (Some (Inr observed_at), ib1)
               else wait_until now deadline ib1
           | None \<Rightarrow> wait_until now deadline ib1))"

definition interrupt_readiness_turn ::
  "nat \<Rightarrow> nat \<Rightarrow> inbox \<Rightarrow> (ipc_wait_error + ipc_input_readiness) option \<times> inbox" where
  "interrupt_readiness_turn now deadline ib =
     (case wait_guard ib of
        (Some error, ib1) \<Rightarrow> (Some (Inl error), ib1)
      | (None, ib1) \<Rightarrow>
          if ib_readiness_after_interrupt ib1
          then
            (case ib_last_prompt ib1 of
               Some prompt \<Rightarrow>
                 (Some (Inr (ReadinessInputWait prompt)),
                  ib1\<lparr>ib_last_prompt := None, ib_last_prompt_observed_at := None\<rparr>)
             | None \<Rightarrow> (Some (Inr ReadinessReady), ib1))
          else wait_until now deadline ib1)"

definition interrupt_transaction_settled_since :: "nat \<Rightarrow> inbox \<Rightarrow> bool" where
  "interrupt_transaction_settled_since since ib \<longleftrightarrow>
     (case ib_interrupt_armed_at ib of None \<Rightarrow> False | Some t \<Rightarrow> t \<ge> since) \<and>
     (case ib_interrupt_complete_at ib of None \<Rightarrow> False | Some t \<Rightarrow> t \<ge> since) \<and>
     ib_readiness_after_interrupt ib"

definition input_readiness_turn ::
  "nat option \<Rightarrow> bool \<Rightarrow> nat \<Rightarrow> nat \<Rightarrow> inbox \<Rightarrow>
   (ipc_wait_error + ipc_input_readiness) option \<times> inbox" where
  "input_readiness_turn since accept_existing_input_wait now deadline ib =
     (case wait_guard ib of
        (Some error, ib1) \<Rightarrow> (Some (Inl error), ib1)
      | (None, ib1) \<Rightarrow>
          (let prompt_is_fresh =
                 (case since of
                    Some since \<Rightarrow>
                      (case ib_last_prompt_observed_at ib1 of
                         None \<Rightarrow> False | Some observed_at \<Rightarrow> observed_at > since)
                  | None \<Rightarrow> True);
               taken = ib1\<lparr>ib_last_prompt := None, ib_last_prompt_observed_at := None\<rparr>;
               s = ib_input_state ib1;
               ready =
                 (case since of
                    Some since \<Rightarrow>
                      readiness_observed_after since s \<or>
                      accept_existing_input_wait \<and> input_wait_readiness_available s
                  | None \<Rightarrow> in_ready_for_input s);
               rest = (\<lambda>ib2. if ready then (Some (Inr ReadinessReady), ib2)
                             else wait_until now deadline ib2)
           in case ib_last_prompt ib1 of
                Some prompt \<Rightarrow>
                  if prompt_is_fresh \<or> accept_existing_input_wait
                  then (Some (Inr (ReadinessInputWait prompt)), taken)
                  else rest taken
              | None \<Rightarrow> rest ib1))"

definition worker_ready_turn ::
  "nat \<Rightarrow> nat \<Rightarrow> inbox \<Rightarrow> (ipc_wait_error + ipc_message) option \<times> inbox" where
  "worker_ready_turn now deadline ib =
     (case take_worker_ready ib of
        (Some info, ib1) \<Rightarrow> (Some (Inr info), snd (ipc_take_session_end ib1))
      | (None, ib1) \<Rightarrow>
          (case wait_guard ib1 of
             (Some error, ib2) \<Rightarrow> (Some (Inl error), ib2)
           | (None, ib2) \<Rightarrow> wait_until now deadline ib2))"

end
