(* ===== verification/Worker_Manager.thy ===== *)
theory Worker_Manager
  imports Replies Ipc_Connection
begin

text \<open>
  The state of the worker manager (\<^verbatim>\<open>src/src/worker_process.rs\<close>) and the operations on it that do not
  wait or ask the operating system: the prefix of output that arrived before a request and the
  resets of the output state (\<^verbatim>\<open>worker_process/output_state.rs\<close>), notices, prompts, pager commands and
  idle polls (\<^verbatim>\<open>reply_state.rs\<close>), replies of resets and errors (\<^verbatim>\<open>session_reset_reply.rs\<close>,
  \<^verbatim>\<open>request_reply.rs\<close>), the plan for a control character (\<^verbatim>\<open>control_prefix.rs\<close>) and the composition of
  replies (\<^verbatim>\<open>write_flow.rs\<close>). \<^verbatim>\<open>Worker_Flow\<close> composes them into the handling of an input.
\<close>

section \<open>State\<close>

text \<open>The error of \<^verbatim>\<open>std::io\<close> is its text, a duration its number of milliseconds.\<close>

datatype worker_error =
    IoError string
  | ProtocolError string
  | TimeoutError nat
  | SandboxError string
  | GuardrailError string

definition display_error :: "worker_error \<Rightarrow> string" where
  "display_error err =
     (case err of
        IoError e \<Rightarrow> ''worker io error: '' @ e
      | ProtocolError message \<Rightarrow> ''worker protocol error: '' @ message
      | TimeoutError millis \<Rightarrow> ''worker response timed out after '' @ dec millis @ '' ms''
      | SandboxError message \<Rightarrow> ''worker sandbox error: '' @ message
      | GuardrailError message \<Rightarrow> message)"

definition worker_error_code_of :: "worker_error \<Rightarrow> worker_error_code option" where
  "worker_error_code_of err =
     (case err of TimeoutError _ \<Rightarrow> Some Timeout | _ \<Rightarrow> Some WorkerExecutionFailed)"

datatype oversized_output_mode = OversizedFiles | OversizedPager

definition parse_oversized_output_mode :: "string \<Rightarrow> string + oversized_output_mode" where
  "parse_oversized_output_mode v =
     (if v = ''files'' then Inr OversizedFiles
      else if v = ''pager'' then Inr OversizedPager
      else Inl ''invalid --oversized-output value (expected files|pager)'')"

record prefix_capture =
  pc_contents :: "worker_content list"
  pc_is_error :: bool
  pc_bytes :: nat

definition prefix_default :: prefix_capture where
  "prefix_default = \<lparr>pc_contents = [], pc_is_error = False, pc_bytes = 0\<rparr>"

record guardrail_event =
  ge_message :: string
  ge_was_busy :: bool
  ge_is_error :: bool

record input_context =
  ic_detached_prefix_contents :: "worker_content list"
  ic_reply_prefix_contents :: "worker_content list"
  ic_prefix_is_error :: bool
  ic_start_offset :: nat
  ic_prefix_bytes :: nat

text \<open>
  The state of \<^verbatim>\<open>WorkerManager\<close> without its sandbox configuration. Of the worker process only the
  inbox of its sideband connection is kept. The pending output tape and the output buffer read the
  same timeline, each with a cursor of its own: \<open>mg_out\<close> is the timeline with the buffer's cursor.
  \<open>mg_r_driver\<close> says that the backend driver is the one of R. Everything outside the manager
  (processes, clock, sandbox) is the world \<open>mg_world\<close>, of an arbitrary type.
\<close>

record 'w manager =
  mg_backend :: backend
  mg_process :: "inbox option option"
  mg_oversized_output :: oversized_output_mode
  mg_out :: output_state
  mg_tape_offset :: "nat option"
  mg_tape_rendered :: "rendered_text_state option"
  mg_pager :: pager
  mg_pending_request :: bool
  mg_pending_request_started_at :: "nat option"
  mg_pending_request_input :: "string option"
  mg_session_end_seen :: bool
  mg_settled_pending_completion :: "completion_info option"
  mg_settled_pending_error :: "worker_error option"
  mg_preserved_detached_prefix :: prefix_capture
  mg_reply_owned_prefix :: prefix_capture
  mg_next_live_prefix_belongs_to_reply :: bool
  mg_last_detached_prefix_item_count :: nat
  mg_pager_prompt :: "pager_completion_prompt option"
  mg_last_prompt :: "string option"
  mg_guardrail_event :: "guardrail_event option"
  mg_guardrail_busy :: bool
  mg_pending_server_notice :: "guardrail_event option"
  mg_r_driver :: bool
  mg_spawned_before :: bool
  mg_spawn_count :: nat
  mg_write_in_progress :: bool
  mg_last_write_respawned :: bool
  mg_use_linux_sandbox_bwrap :: bool
  mg_linux_bwrap_fallback_disabled :: bool
  mg_world :: 'w

definition manager_new ::
  "backend option \<Rightarrow> oversized_output_mode \<Rightarrow> nat \<Rightarrow> bool \<Rightarrow> 'w \<Rightarrow> 'w manager" where
  "manager_new builtin mode files_capacity use_bwrap world =
     (let timeline =
            (case mode of
               OversizedFiles \<Rightarrow> with_head_retention_capacity files_capacity
             | OversizedPager \<Rightarrow> with_capacity OUTPUT_RING_CAPACITY_BYTES);
          out = start_capture timeline;
          tape = with_timeline timeline
      in \<lparr>mg_backend = unwrap_or builtin R, mg_process = None, mg_oversized_output = mode, mg_out = out,
          mg_tape_offset = os_offset tape, mg_tape_rendered = os_rendered tape, mg_pager = None,
          mg_pending_request = False, mg_pending_request_started_at = None,
          mg_pending_request_input = None, mg_session_end_seen = False,
          mg_settled_pending_completion = None, mg_settled_pending_error = None,
          mg_preserved_detached_prefix = prefix_default, mg_reply_owned_prefix = prefix_default,
          mg_next_live_prefix_belongs_to_reply = False, mg_last_detached_prefix_item_count = 0,
          mg_pager_prompt = None, mg_last_prompt = None, mg_guardrail_event = None,
          mg_guardrail_busy = False, mg_pending_server_notice = None, mg_r_driver = (builtin = Some R),
          mg_spawned_before = False, mg_spawn_count = 0, mg_write_in_progress = False,
          mg_last_write_respawned = False, mg_use_linux_sandbox_bwrap = use_bwrap,
          mg_linux_bwrap_fallback_disabled = False, mg_world = world\<rparr>)"

definition tape :: "'w manager \<Rightarrow> output_state" where
  "tape m = (mg_out m)\<lparr>os_offset := mg_tape_offset m, os_rendered := mg_tape_rendered m\<rparr>"

definition set_tape :: "output_state \<Rightarrow> 'w manager \<Rightarrow> 'w manager" where
  "set_tape s m =
     m\<lparr>mg_out := (mg_out m)\<lparr>os_ring := os_ring s, os_tails := os_tails s\<rparr>,
       mg_tape_offset := os_offset s, mg_tape_rendered := os_rendered s\<rparr>"

definition on_tape :: "(output_state \<Rightarrow> 'a \<times> output_state) \<Rightarrow> 'w manager \<Rightarrow> 'a \<times> 'w manager" where
  "on_tape f m = (let (r, s) = f (tape m) in (r, set_tape s m))"

definition on_output :: "(output_state \<Rightarrow> 'a \<times> output_state) \<Rightarrow> 'w manager \<Rightarrow> 'a \<times> 'w manager" where
  "on_output f m = (let (r, s) = f (mg_out m) in (r, m\<lparr>mg_out := s\<rparr>))"

definition output_end :: "'w manager \<Rightarrow> nat" where
  "output_end m = ring_end (os_inner (mg_out m))"

definition saw_stderr :: "nat \<Rightarrow> nat \<Rightarrow> 'w manager \<Rightarrow> bool" where
  "saw_stderr start_offset end_offset m =
     saw_stderr_in_range (min start_offset end_offset) end_offset (os_inner (mg_out m))"

section \<open>Prompts and drains\<close>

definition remember_prompt :: "string option \<Rightarrow> 'w manager \<Rightarrow> 'w manager" where
  "remember_prompt prompt m = m\<lparr>mg_last_prompt := normalize_prompt prompt\<rparr>"

definition current_prompt_hint :: "'w manager \<Rightarrow> string option \<times> 'w manager" where
  "current_prompt_hint m =
     (let (prompt, m1) =
            (case mg_process m of
               Some (Some ib) \<Rightarrow>
                 (let (p, ib1) = try_take_prompt ib
                  in (normalize_prompt p, m\<lparr>mg_process := Some (Some ib1)\<rparr>))
             | _ \<Rightarrow> (None, m))
      in (case prompt of Some p \<Rightarrow> Some p | None \<Rightarrow> mg_last_prompt m, m1))"

definition drain_formatted_output :: "'w manager \<Rightarrow> formatted_pending_output \<times> 'w manager" where
  "drain_formatted_output m = on_tape drain_output m"

definition drain_final_formatted_output :: "'w manager \<Rightarrow> formatted_pending_output \<times> 'w manager" where
  "drain_final_formatted_output m = on_tape drain_final_output m"

definition drain_completed_formatted_output ::
  "bool \<Rightarrow> 'w manager \<Rightarrow> formatted_pending_output \<times> 'w manager" where
  "drain_completed_formatted_output session_end m =
     (if session_end then drain_final_formatted_output m else drain_formatted_output m)"

definition drain_sealed_formatted_output :: "'w manager \<Rightarrow> formatted_pending_output \<times> 'w manager" where
  "drain_sealed_formatted_output m = on_tape drain_sealed_output m"

section \<open>Notices and guardrails\<close>

definition guardrail_busy_event_pending :: "'w manager \<Rightarrow> bool" where
  "guardrail_busy_event_pending m =
     (case mg_guardrail_event m of None \<Rightarrow> False | Some event \<Rightarrow> ge_was_busy event)"

definition clear_guardrail_busy_event :: "'w manager \<Rightarrow> 'w manager" where
  "clear_guardrail_busy_event m =
     (if guardrail_busy_event_pending m
      then m\<lparr>mg_guardrail_event := None, mg_guardrail_busy := False\<rparr> else m)"

definition append_server_notice :: "guardrail_event \<Rightarrow> 'w manager \<Rightarrow> 'w manager" where
  "append_server_notice event m =
     (case mg_oversized_output m of
        OversizedFiles \<Rightarrow>
          if ge_is_error event
          then set_tape (append_server_stderr_bytes (ge_message event) (tape m)) m
          else set_tape (append_stdout_status_line (ge_message event) (tape m)) m
      | OversizedPager \<Rightarrow>
          m\<lparr>mg_out := append_text (ge_message event) (ge_is_error event) Server (mg_out m)\<rparr>)"

definition maybe_emit_pending_server_notice :: "'w manager \<Rightarrow> 'w manager" where
  "maybe_emit_pending_server_notice m =
     (case mg_pending_server_notice m of
        None \<Rightarrow> m
      | Some event \<Rightarrow> append_server_notice event (m\<lparr>mg_pending_server_notice := None\<rparr>))"

definition maybe_emit_guardrail_notice :: "'w manager \<Rightarrow> 'w manager" where
  "maybe_emit_guardrail_notice m =
     (let m1 = maybe_emit_pending_server_notice m
      in case mg_guardrail_event m1 of
           None \<Rightarrow> m1
         | Some event \<Rightarrow>
             if ge_was_busy event then m1
             else append_server_notice event (m1\<lparr>mg_guardrail_event := None\<rparr>))"

section \<open>Pager commands and idle polls\<close>

definition handle_pager_command ::
  "pager_lib \<Rightarrow> string option \<Rightarrow> string option \<Rightarrow> string \<Rightarrow> 'w manager \<Rightarrow> worker_reply option \<times> 'w manager"
where
  "handle_pager_command lib chars_env bytes_env txt m =
     (if \<not> is_active (mg_pager m) then (None, m)
      else
        (let (p1, out) = refresh_from_output lib (mg_pager m) (mg_out m);
             (reply, p2) = handle_command lib chars_env bytes_env txt p1;
             m1 = m\<lparr>mg_out := out, mg_pager := p2\<rparr>
         in if is_active p2 then (Some (reply\<lparr>reply_prompt := None\<rparr>), m1)
            else
              (let (contents, resolved_prompt) =
                     (case mg_pager_prompt m1 of
                        Some prompt \<Rightarrow> (reply_contents reply, into_prompt prompt)
                      | None \<Rightarrow>
                          (reply_contents reply @
                           [server_stderr ''[repl] protocol error: missing prompt after pager dismiss''],
                           None))
               in (Some (reply\<lparr>reply_contents := append_prompt_if_missing resolved_prompt contents,
                               reply_prompt := resolved_prompt\<rparr>),
                   remember_prompt resolved_prompt (m1\<lparr>mg_pager_prompt := None\<rparr>)))))"

definition build_idle_poll_reply :: "'w manager \<Rightarrow> worker_reply \<times> 'w manager" where
  "build_idle_poll_reply m =
     (let (prompt, m1) = current_prompt_hint m
      in (\<lparr>reply_contents = append_prompt_if_missing prompt [idle_status_content],
           reply_is_error = False, reply_error_code = None, reply_prompt = prompt,
           reply_prompt_variants = None\<rparr>,
          remember_prompt prompt m1))"

definition mark_busy_follow_up_reply :: "worker_reply \<Rightarrow> worker_reply" where
  "mark_busy_follow_up_reply reply =
     reply\<lparr>reply_contents := reply_contents reply @
              [server_stderr ''[repl] input discarded while worker busy''],
           reply_is_error := True,
           reply_error_code :=
             (case reply_error_code reply of None \<Rightarrow> Some Busy | Some code \<Rightarrow> Some code)\<rparr>"

section \<open>The prefix of a request\<close>

definition prefix_worker_text_bytes :: "worker_content list \<Rightarrow> nat" where
  "prefix_worker_text_bytes contents =
     sum_list (map (\<lambda>c. case c of
         ContentText txt _ Worker visibility \<Rightarrow> if is_reply_visible visibility then length txt else 0
       | _ \<Rightarrow> 0) contents)"

definition append_prefix_capture :: "prefix_capture \<Rightarrow> prefix_capture \<Rightarrow> prefix_capture" where
  "append_prefix_capture target pre =
     (if pc_contents pre = [] \<and> \<not> pc_is_error pre then target
      else
        \<lparr>pc_contents = pc_contents target @ pc_contents pre,
         pc_is_error = (pc_is_error target \<or> pc_is_error pre),
         pc_bytes = sat_add (pc_bytes target) (prefix_worker_text_bytes (pc_contents pre))\<rparr>)"

definition take_prefixes_for_next_request ::
  "prefix_capture \<Rightarrow> 'w manager \<Rightarrow> (prefix_capture \<times> prefix_capture) \<times> 'w manager" where
  "take_prefixes_for_next_request current_prefix m =
     (let detached_prefix = mg_preserved_detached_prefix m;
          reply_prefix = mg_reply_owned_prefix m;
          prefixes =
            (if mg_next_live_prefix_belongs_to_reply m
             then (detached_prefix, append_prefix_capture reply_prefix current_prefix)
             else (append_prefix_capture detached_prefix current_prefix, reply_prefix))
      in (prefixes,
          m\<lparr>mg_preserved_detached_prefix := prefix_default, mg_reply_owned_prefix := prefix_default,
            mg_next_live_prefix_belongs_to_reply := False\<rparr>))"

definition stage_prefix_before_respawn :: "prefix_capture \<Rightarrow> 'w manager \<Rightarrow> 'w manager" where
  "stage_prefix_before_respawn pre m =
     (if mg_next_live_prefix_belongs_to_reply m
      then m\<lparr>mg_reply_owned_prefix := append_prefix_capture (mg_reply_owned_prefix m) pre,
             mg_next_live_prefix_belongs_to_reply := False\<rparr>
      else m\<lparr>mg_preserved_detached_prefix :=
               append_prefix_capture (mg_preserved_detached_prefix m) pre\<rparr>)"

definition take_current_prefix_files :: "'w manager \<Rightarrow> prefix_capture \<times> 'w manager" where
  "take_current_prefix_files m =
     (let settled_completion = mg_settled_pending_completion m;
          (formatted, m1) =
            drain_sealed_formatted_output (m\<lparr>mg_settled_pending_completion := None\<rparr>);
          contents =
            (case settled_completion of
               None \<Rightarrow> fmt_contents formatted
             | Some completion \<Rightarrow>
                 append_protocol_warnings (ci_protocol_warnings completion) (fmt_contents formatted))
      in (\<lparr>pc_contents = contents, pc_is_error = fmt_saw_stderr formatted, pc_bytes = 0\<rparr>, m1))"

definition take_current_prefix_pager :: "bool \<Rightarrow> 'w manager \<Rightarrow> prefix_capture \<times> 'w manager" where
  "take_current_prefix_pager had_pending_output m =
     (let settled_completion = mg_settled_pending_completion m;
          m1 = m\<lparr>mg_settled_pending_completion := None\<rparr>
      in if had_pending_output \<or> settled_completion \<noteq> None
         then
           (let pending_end = output_end m1;
                pending_start = unwrap_or (os_offset (mg_out m1)) pending_end;
                pending_bytes = pending_end - pending_start
            in case settled_completion of
                 Some completion \<Rightarrow>
                   (let (formatted, m2) =
                          on_output (take_range_from_ring_after_completion pending_start pending_end
                                       (ci_protocol_warnings completion)) m1
                    in (\<lparr>pc_contents = fmt_contents formatted, pc_is_error = fmt_saw_stderr formatted,
                         pc_bytes = pending_bytes\<rparr>, m2))
               | None \<Rightarrow>
                   (let is_error = saw_stderr pending_start pending_end m1;
                        (contents, m2) = on_output (take_range_from_ring pending_end) m1
                    in (\<lparr>pc_contents = contents, pc_is_error = is_error,
                         pc_bytes = pending_bytes\<rparr>, m2)))
         else (prefix_default, m1))"

definition prepare_input_context_files :: "'w manager \<Rightarrow> input_context \<times> 'w manager" where
  "prepare_input_context_files m =
     (let (reply_prefix, m1) = take_current_prefix_files m;
          ((detached_prefix, reply_prefix), m2) = take_prefixes_for_next_request reply_prefix m1
      in (\<lparr>ic_detached_prefix_contents = pc_contents detached_prefix,
           ic_reply_prefix_contents = pc_contents reply_prefix,
           ic_prefix_is_error = (pc_is_error detached_prefix \<or> pc_is_error reply_prefix),
           ic_start_offset = 0, ic_prefix_bytes = 0\<rparr>, m2))"

definition prepare_input_context_pager :: "'w manager \<Rightarrow> input_context \<times> 'w manager" where
  "prepare_input_context_pager m =
     (let m1 = m\<lparr>mg_out := start_capture (mg_out m)\<rparr>;
          had_pending_output = has_pending_output (mg_out m1);
          (prompt_hint, m2) = current_prompt_hint m1;
          m3 = remember_prompt prompt_hint m2;
          (reply_prefix, m4) = take_current_prefix_pager had_pending_output m3;
          ((detached_prefix, reply_prefix), m5) = take_prefixes_for_next_request reply_prefix m4
      in (\<lparr>ic_detached_prefix_contents = pc_contents detached_prefix,
           ic_reply_prefix_contents = pc_contents reply_prefix,
           ic_prefix_is_error = (pc_is_error detached_prefix \<or> pc_is_error reply_prefix),
           ic_start_offset = output_end m5,
           ic_prefix_bytes = sat_add (pc_bytes detached_prefix) (pc_bytes reply_prefix)\<rparr>, m5))"

definition has_detached_output_to_preserve :: "'w manager \<Rightarrow> bool" where
  "has_detached_output_to_preserve m =
     (case mg_oversized_output m of
        OversizedFiles \<Rightarrow> has_pending_output (tape m) \<or> mg_settled_pending_completion m \<noteq> None
      | OversizedPager \<Rightarrow> has_pending_output (mg_out m) \<or> mg_settled_pending_completion m \<noteq> None)"

definition clear_preserved_prefixes :: "'w manager \<Rightarrow> 'w manager" where
  "clear_preserved_prefixes m =
     m\<lparr>mg_preserved_detached_prefix := prefix_default, mg_reply_owned_prefix := prefix_default,
       mg_next_live_prefix_belongs_to_reply := False\<rparr>"

section \<open>Resets of the output state\<close>

definition seed_aborted_completion_for_respawn :: "'w manager \<Rightarrow> 'w manager" where
  "seed_aborted_completion_for_respawn m =
     (if \<not> mg_pending_request m \<or> mg_settled_pending_completion m \<noteq> None \<or>
         mg_pending_request_input m = None
      then m
      else m\<lparr>mg_settled_pending_completion :=
               Some \<lparr>ci_prompt = mg_last_prompt m,
                     ci_prompt_variants = map_option (\<lambda>prompt. [prompt]) (mg_last_prompt m),
                     ci_protocol_warnings = [], ci_session_end_seen = False\<rparr>\<rparr>)"

definition reset_output_state_files_inner :: "bool \<Rightarrow> bool \<Rightarrow> 'w manager \<Rightarrow> 'w manager" where
  "reset_output_state_files_inner clear_pending_output preserve_detached_output m =
     (let m1 = (if clear_pending_output then set_tape (tape_clear (tape m)) m else m);
          m2 = m1\<lparr>mg_pending_request := False, mg_pending_request_started_at := None\<rparr>;
          m3 = (if \<not> preserve_detached_output then m2\<lparr>mg_pending_request_input := None\<rparr> else m2);
          m4 = m3\<lparr>mg_session_end_seen := False\<rparr>;
          m5 = (if \<not> preserve_detached_output
                then m4\<lparr>mg_settled_pending_completion := None, mg_settled_pending_error := None,
                        mg_last_detached_prefix_item_count := 0\<rparr> else m4)
      in m5\<lparr>mg_last_prompt := None, mg_guardrail_busy := False\<rparr>)"

definition reset_output_state_files :: "bool \<Rightarrow> 'w manager \<Rightarrow> 'w manager" where
  "reset_output_state_files clear_pending_output m =
     reset_output_state_files_inner clear_pending_output False m"

definition reset_output_state_files_preserving_detached_output :: "'w manager \<Rightarrow> 'w manager" where
  "reset_output_state_files_preserving_detached_output m =
     (let m1 = seed_aborted_completion_for_respawn m;
          (pre, m2) = take_current_prefix_files m1
      in reset_output_state_files_inner True False (stage_prefix_before_respawn pre m2))"

definition reset_output_state_pager_inner :: "bool \<Rightarrow> bool \<Rightarrow> bool \<Rightarrow> 'w manager \<Rightarrow> 'w manager" where
  "reset_output_state_pager_inner clear_pending_output preserve_pager preserve_detached_output m =
     (let m1 = (if clear_pending_output then set_tape (tape_clear (tape m)) m else m);
          m2 = (if \<not> preserve_detached_output
                then m1\<lparr>mg_out := start_capture
                          ((timeline_clear (mg_out m1))\<lparr>os_offset := None, os_rendered := None\<rparr>)\<rparr>
                else m1);
          m3 = (if \<not> preserve_pager then m2\<lparr>mg_pager := None\<rparr> else m2);
          m4 = m3\<lparr>mg_pending_request := False, mg_pending_request_started_at := None,
                  mg_pending_request_input := None, mg_session_end_seen := False\<rparr>;
          m5 = (if \<not> preserve_detached_output
                then m4\<lparr>mg_settled_pending_completion := None, mg_settled_pending_error := None,
                        mg_last_detached_prefix_item_count := 0\<rparr> else m4)
      in m5\<lparr>mg_pager_prompt := None, mg_last_prompt := None, mg_guardrail_busy := False\<rparr>)"

definition reset_output_state_pager :: "bool \<Rightarrow> bool \<Rightarrow> 'w manager \<Rightarrow> 'w manager" where
  "reset_output_state_pager clear_pending_output preserve_pager m =
     reset_output_state_pager_inner clear_pending_output preserve_pager False m"

definition reset_output_state_pager_preserving_detached_output :: "bool \<Rightarrow> 'w manager \<Rightarrow> 'w manager" where
  "reset_output_state_pager_preserving_detached_output preserve_pager m =
     (let m1 = seed_aborted_completion_for_respawn m;
          had_pending_output = has_pending_output (mg_out m1);
          (pre, m2) = take_current_prefix_pager had_pending_output m1
      in reset_output_state_pager_inner True preserve_pager False (stage_prefix_before_respawn pre m2))"

section \<open>Replies of resets\<close>

text \<open>Contents without texts that are only white space.\<close>

definition retain_visible :: "worker_content list \<Rightarrow> worker_content list" where
  "retain_visible contents =
     filter (\<lambda>c. case c of ContentText txt _ _ _ \<Rightarrow> trim txt \<noteq> [] | _ \<Rightarrow> True) contents"

definition session_reset_reply :: "worker_content list \<Rightarrow> bool \<Rightarrow> worker_reply" where
  "session_reset_reply contents is_error =
     \<lparr>reply_contents = contents, reply_is_error = is_error, reply_error_code = None,
      reply_prompt = None, reply_prompt_variants = None\<rparr>"

definition meta_notice :: "string \<Rightarrow> worker_content list" where
  "meta_notice meta = (if meta = [] then [] else [server_stderr (''[repl] '' @ meta)])"

definition build_session_reset_reply_files_from_formatted ::
  "string \<Rightarrow> formatted_pending_output \<Rightarrow> worker_reply" where
  "build_session_reset_reply_files_from_formatted meta formatted =
     session_reset_reply (retain_visible (fmt_contents formatted) @ meta_notice meta)
       (fmt_saw_stderr formatted)"

definition build_session_reset_reply_files :: "string \<Rightarrow> 'w manager \<Rightarrow> worker_reply \<times> 'w manager" where
  "build_session_reset_reply_files meta m =
     (let (formatted, m1) = drain_sealed_formatted_output m
      in (build_session_reset_reply_files_from_formatted meta formatted, m1))"

definition build_session_reset_reply_pager_to_offset ::
  "pager_lib \<Rightarrow> nat \<Rightarrow> string \<Rightarrow> nat \<Rightarrow> 'w manager \<Rightarrow> worker_reply \<times> 'w manager" where
  "build_session_reset_reply_pager_to_offset lib page meta end_offset m =
     (let (snapshot, m1) = on_output (snapshot_page_with_images lib end_offset page) m;
          contents = retain_visible (si_contents snapshot);
          is_error =
            (contents \<noteq> [] \<and>
             saw_stderr (unwrap_or (os_offset (mg_out m1)) end_offset) end_offset m1);
          contents = contents @ meta_notice meta;
          (contents, p) =
            maybe_activate_and_append_footer (mg_pager m1) contents (si_pages_left snapshot) is_error
              (si_buffer snapshot) (si_last_range snapshot)
      in (session_reset_reply contents is_error, m1\<lparr>mg_pager := p\<rparr>))"

definition build_session_reset_reply_pager ::
  "pager_lib \<Rightarrow> nat \<Rightarrow> string \<Rightarrow> 'w manager \<Rightarrow> worker_reply \<times> 'w manager" where
  "build_session_reset_reply_pager lib page meta m =
     (let m1 = m\<lparr>mg_out := seal_utf8_tails (mg_out m)\<rparr>
      in build_session_reset_reply_pager_to_offset lib page meta (output_end m1) m1)"

definition clear_pending_request_state :: "'w manager \<Rightarrow> 'w manager" where
  "clear_pending_request_state m =
     m\<lparr>mg_pending_request := False, mg_pending_request_started_at := None,
       mg_settled_pending_completion := None, mg_settled_pending_error := None,
       mg_guardrail_busy := False\<rparr>"

section \<open>Replies of requests\<close>

definition build_reply_from_worker_error_files ::
  "worker_error \<Rightarrow> input_context \<Rightarrow> 'w manager \<Rightarrow> worker_reply \<times> 'w manager" where
  "build_reply_from_worker_error_files err context m =
     (let m1 = m\<lparr>mg_last_detached_prefix_item_count := length (ic_detached_prefix_contents context)\<rparr>;
          (formatted, m2) = drain_sealed_formatted_output m1
      in (\<lparr>reply_contents =
             ic_detached_prefix_contents context @ ic_reply_prefix_contents context @
             fmt_contents formatted @ [server_stderr (''worker error: '' @ display_error err)],
           reply_is_error = True, reply_error_code = worker_error_code_of err, reply_prompt = None,
           reply_prompt_variants = None\<rparr>, m2))"

definition build_reply_from_worker_error_pager ::
  "pager_lib \<Rightarrow> worker_error \<Rightarrow> input_context \<Rightarrow> nat \<Rightarrow> 'w manager \<Rightarrow> worker_reply \<times> 'w manager" where
  "build_reply_from_worker_error_pager lib err context page m =
     (let m1 = m\<lparr>mg_last_detached_prefix_item_count := length (ic_detached_prefix_contents context),
                  mg_out := seal_utf8_tails (mg_out m)\<rparr>;
          (snapshot, m2) =
            on_output (snapshot_page_with_images lib (output_end m1) (page - ic_prefix_bytes context)) m1;
          (contents, p) =
            maybe_activate_and_append_footer (mg_pager m2)
              (ic_detached_prefix_contents context @ ic_reply_prefix_contents context @ si_contents snapshot)
              (si_pages_left snapshot) True (si_buffer snapshot) (si_last_range snapshot)
      in (\<lparr>reply_contents = contents @ [server_stderr (''worker error: '' @ display_error err)],
           reply_is_error = True, reply_error_code = worker_error_code_of err, reply_prompt = None,
           reply_prompt_variants = None\<rparr>, m2\<lparr>mg_pager := p\<rparr>))"

section \<open>Polls of a timed-out request\<close>

datatype pending_poll_state =
    PollTimedOut nat
  | PollCompleted completion_info bool bool
  | PollNoCompletion

definition poll_parts :: "pending_poll_state \<Rightarrow> completion_info \<times> bool \<times> bool \<times> nat option" where
  "poll_parts state =
     (case state of
        PollTimedOut elapsed \<Rightarrow> (completion_info_empty, False, False, Some elapsed)
      | PollCompleted completion session_end consumed_completion \<Rightarrow>
          (completion, session_end, consumed_completion, None)
      | PollNoCompletion \<Rightarrow> (completion_info_empty, False, False, None))"

section \<open>Input\<close>

definition empty_input_polls_existing_output :: "'w manager \<Rightarrow> bool" where
  "empty_input_polls_existing_output m =
     (case mg_oversized_output m of
        OversizedFiles \<Rightarrow>
          mg_pending_request m \<or> has_pending_output (tape m) \<or> mg_settled_pending_completion m \<noteq> None
      | OversizedPager \<Rightarrow>
          mg_pending_request m \<or> has_pending_output (mg_out m) \<or>
          mg_settled_pending_completion m \<noteq> None)"

definition empty_input_uses_existing_state :: "'w manager \<Rightarrow> bool" where
  "empty_input_uses_existing_state m =
     (case mg_oversized_output m of
        OversizedFiles \<Rightarrow>
          mg_pending_request m \<or> has_pending_output (tape m) \<or>
          mg_settled_pending_completion m \<noteq> None \<or> guardrail_busy_event_pending m
      | OversizedPager \<Rightarrow>
          mg_pending_request m \<or> has_pending_output (mg_out m) \<or>
          mg_settled_pending_completion m \<noteq> None \<or> is_active (mg_pager m) \<or>
          guardrail_busy_event_pending m)"

definition empty_input_uses_local_pager_state :: "'w manager \<Rightarrow> bool" where
  "empty_input_uses_local_pager_state m \<longleftrightarrow>
     mg_oversized_output m = OversizedPager \<and> is_active (mg_pager m) \<and>
     \<not> empty_input_polls_existing_output m"

definition empty_input_may_auto_reset_after_poll :: "'w manager \<Rightarrow> bool" where
  "empty_input_may_auto_reset_after_poll m \<longleftrightarrow>
     empty_input_polls_existing_output m \<and>
     (mg_pending_request m \<or> mg_settled_pending_completion m \<noteq> None \<or> mg_session_end_seen m)"

definition local_pager_follow_up_uses_existing_state :: "string \<Rightarrow> 'w manager \<Rightarrow> bool" where
  "local_pager_follow_up_uses_existing_state txt m \<longleftrightarrow>
     mg_oversized_output m = OversizedPager \<and> is_active (mg_pager m) \<and>
     (let trimmed = trim txt in trimmed = [] \<or> starts_with trimmed '':'')"

datatype write_stdin_control_action = Interrupt | Restart

datatype timeout_bundle_reuse = ReuseNone | FullReply | FollowUpInput

definition split_write_stdin_control_prefix ::
  "string \<Rightarrow> (write_stdin_control_action \<times> string) option" where
  "split_write_stdin_control_prefix input =
     (case chars input of
        [] \<Rightarrow> None
      | c # _ \<Rightarrow>
          if c = [CHR 0x03] then Some (Interrupt, drop (length c) input)
          else if c = [CHR 0x04] then Some (Restart, drop (length c) input)
          else None)"

definition timeout_bundle_reuse_for_input :: "string \<Rightarrow> timeout_bundle_reuse" where
  "timeout_bundle_reuse_for_input input =
     (if input = [] then FullReply
      else
        (case split_write_stdin_control_prefix input of
           Some (Interrupt, rest) \<Rightarrow> if rest = [] then FullReply else FollowUpInput
         | Some (Restart, _) \<Rightarrow> ReuseNone
         | None \<Rightarrow> FollowUpInput))"

text \<open>The update of the sandbox state that a request may carry is a type parameter.\<close>

record 'u write_stdin_options =
  wo_page_bytes_override :: "nat option"
  wo_pending_state_prechecked :: bool
  wo_deferred_sandbox_state_update :: "'u option"
  wo_suppress_session_end_reset :: bool

definition control_tail :: "'u option \<Rightarrow> 'u write_stdin_options \<Rightarrow> 'u write_stdin_options" where
  "control_tail update options =
     \<lparr>wo_page_bytes_override = wo_page_bytes_override options, wo_pending_state_prechecked = False,
      wo_deferred_sandbox_state_update = update, wo_suppress_session_end_reset = False\<rparr>"

record 'u control_prefix_plan =
  cp_action :: write_stdin_control_action
  cp_tail :: string
  cp_stage_before_control :: bool
  cp_stage_interrupt_after_session_end :: bool
  cp_staged_sandbox_state_update :: "'u option"
  cp_tail_sandbox_state_update :: "'u option"

definition PRECHECKED_FOLLOW_UP_REQUIRES_META_MESSAGE :: string where
  "PRECHECKED_FOLLOW_UP_REQUIRES_META_MESSAGE = ''worker follow-up needs current sandbox metadata after precheck''"

definition prechecked_follow_up_requires_meta_error :: worker_error where
  "prechecked_follow_up_requires_meta_error = ProtocolError PRECHECKED_FOLLOW_UP_REQUIRES_META_MESSAGE"

definition plan ::
  "write_stdin_control_action \<Rightarrow> string \<Rightarrow> bool \<Rightarrow> 'u write_stdin_options \<Rightarrow>
   worker_error + 'u control_prefix_plan" where
  "plan action rest control_requires_spawn options =
     (if wo_pending_state_prechecked options \<and> control_requires_spawn \<and>
         wo_deferred_sandbox_state_update options = None \<and> \<not> wo_suppress_session_end_reset options
      then Inl prechecked_follow_up_requires_meta_error
      else
        (let stage_before_control = (control_requires_spawn \<or> action = Restart)
         in Inr \<lparr>cp_action = action, cp_tail = rest, cp_stage_before_control = stage_before_control,
                 cp_stage_interrupt_after_session_end = (action = Interrupt \<and> \<not> stage_before_control),
                 cp_staged_sandbox_state_update =
                   (if stage_before_control then wo_deferred_sandbox_state_update options else None),
                 cp_tail_sandbox_state_update =
                   (if stage_before_control then None
                    else wo_deferred_sandbox_state_update options)\<rparr>))"

section \<open>Composed replies\<close>

text \<open>The reply of a control character in front of the reply of the input behind it.\<close>

definition join_newline :: "worker_content list \<Rightarrow> worker_content list \<Rightarrow> worker_content list" where
  "join_newline contents suffix_contents =
     (if contents = [] then contents
      else
        (case (last contents, suffix_contents) of
           (ContentText pre stream orig visibility, ContentText suf _ _ _ # _) \<Rightarrow>
             if pre \<noteq> [] \<and> suf \<noteq> [] \<and> \<not> ends_with pre nl \<and> \<not> starts_with suf nl
             then butlast contents @ [ContentText (pre @ nl) stream orig visibility]
             else contents
         | _ \<Rightarrow> contents))"

definition option_or :: "'a option \<Rightarrow> 'a option \<Rightarrow> 'a option" where
  "option_or a b = (case a of Some x \<Rightarrow> Some x | None \<Rightarrow> b)"

definition prefix_worker_reply :: "worker_reply \<Rightarrow> worker_reply \<Rightarrow> worker_reply" where
  "prefix_worker_reply pre suf =
     (let contents =
            (case reply_prompt pre of
               Some prompt_text \<Rightarrow> strip_trailing_prompt prompt_text (reply_contents pre)
             | None \<Rightarrow> reply_contents pre)
      in \<lparr>reply_contents = join_newline contents (reply_contents suf) @ reply_contents suf,
          reply_is_error = (reply_is_error pre \<or> reply_is_error suf),
          reply_error_code = option_or (reply_error_code suf) (reply_error_code pre),
          reply_prompt = option_or (reply_prompt suf) (reply_prompt pre),
          reply_prompt_variants = option_or (reply_prompt_variants suf) (reply_prompt_variants pre)\<rparr>)"

definition prefixed_worker_reply_item_count :: "worker_reply \<Rightarrow> nat" where
  "prefixed_worker_reply_item_count pre =
     (let contents = reply_contents pre
      in case reply_prompt pre of
           None \<Rightarrow> length contents
         | Some prompt_text \<Rightarrow>
             if prompt_text = [] then length contents
             else
               (case rposition is_text contents of
                  None \<Rightarrow> length contents
                | Some idx \<Rightarrow>
                    (case contents ! idx of
                       ContentText txt _ _ _ \<Rightarrow>
                         if strip_suffix txt prompt_text = Some [] then length contents - 1
                         else length contents
                     | ContentImage _ _ _ _ \<Rightarrow> length contents)))"

end
