(* ===== verification/Worker_Flow.thy ===== *)
theory Worker_Flow
  imports Worker_Manager "HOL-Library.State_Monad"
begin

text \<open>
  How the worker manager handles an input (\<^verbatim>\<open>src/src/worker_process/\<close>): starting and resetting the
  worker (\<^verbatim>\<open>session_lifecycle.rs\<close>, \<^verbatim>\<open>worker_launch.rs\<close>, \<^verbatim>\<open>sandbox_state.rs\<close>), requests and their
  completion (\<^verbatim>\<open>request_lifecycle.rs\<close>, \<^verbatim>\<open>backend_driver.rs\<close>, \<^verbatim>\<open>request_reply.rs\<close>), polls of a timed-out
  request (\<^verbatim>\<open>pending_poll.rs\<close>), interrupts and restarts (\<^verbatim>\<open>interrupt.rs\<close>, \<^verbatim>\<open>restart.rs\<close>) and the flow of
  an input through them (\<^verbatim>\<open>write_flow.rs\<close>, \<^verbatim>\<open>write_preflight.rs\<close>, \<^verbatim>\<open>write_dispatch.rs\<close>), on Unix.

  A method of the manager is a computation of the state monad over the manager; one that returns a
  \<^verbatim>\<open>Result\<close> computes a sum. What the operating system and the sandbox answer comes from an
  environment: functions on the world that the manager carries. The threads that capture output
  and watch the memory run where the manager waits, sleeps or asks the environment.
\<close>

section \<open>Computations\<close>

type_synonym ('w, 'a) flow = "('w manager, 'a) state"
type_synonym ('w, 'a) result_flow = "('w manager, worker_error + 'a) state"

definition ok :: "'a \<Rightarrow> ('w, 'a) result_flow" where
  "ok x = State_Monad.return (Inr x)"

definition fail :: "worker_error \<Rightarrow> ('w, 'a) result_flow" where
  "fail err = State_Monad.return (Inl err)"

definition ask :: "('w, 'a) result_flow \<Rightarrow> ('a \<Rightarrow> ('w, 'b) result_flow) \<Rightarrow> ('w, 'b) result_flow" where
  "ask f g = do { r \<leftarrow> f; case r of Inl err \<Rightarrow> fail err | Inr x \<Rightarrow> g x }"

definition see :: "('w manager \<Rightarrow> 'a) \<Rightarrow> ('w, 'a) flow" where
  "see f = State (\<lambda>m. (f m, m))"

definition change :: "('w manager \<Rightarrow> 'w manager) \<Rightarrow> ('w, unit) flow" where
  "change f = State (\<lambda>m. ((), f m))"

definition only_if :: "bool \<Rightarrow> ('w, unit) flow \<Rightarrow> ('w, unit) flow" where
  "only_if b f = (if b then f else State_Monad.return ())"

definition world :: "('w \<Rightarrow> 'a \<times> 'w) \<Rightarrow> ('w, 'a) flow" where
  "world f = State (\<lambda>m. let (r, w) = f (mg_world m) in (r, m\<lparr>mg_world := w\<rparr>))"

section \<open>The environment\<close>

datatype initial_worker_prompt = Immediate string | Waited string

datatype background =
    RawOutput bytes text_stream
  | SidebandCall ipc_event
  | InboxChange inbox
  | MemoryLimit string

text \<open>
  The answers of the environment: the clock in milliseconds, what the background threads have done
  since they were looked at last, the worker process (whether it runs, its exit status, stopping
  it, starting one), the waits on the sideband connection, and the sandbox configuration (whether
  it waits for inherited state, the effect of an update as whether a restart is required and
  whether the state was missing before, and whether to use bubblewrap then).
\<close>

record ('u, 'w) worker_env =
  we_now :: "'w \<Rightarrow> nat \<times> 'w"
  we_background :: "'w \<Rightarrow> background list \<times> 'w"
  we_is_running :: "'w \<Rightarrow> (worker_error + bool) \<times> 'w"
  we_exit_status :: "'w \<Rightarrow> string option \<times> 'w"
  we_stop :: "'w \<Rightarrow> unit \<times> 'w"
  we_finish_exited :: "'w \<Rightarrow> (worker_error + unit) \<times> 'w"
  we_spawn :: "'w \<Rightarrow> (worker_error + inbox option \<times> initial_worker_prompt option) \<times> 'w"
  we_spawn_retryable :: "worker_error \<Rightarrow> 'w \<Rightarrow> bool"
  we_wait_completion :: "nat \<Rightarrow> inbox \<Rightarrow> 'w \<Rightarrow> ((ipc_wait_error + unit) \<times> inbox) \<times> 'w"
  we_begin_input :: "nat \<Rightarrow> inbox \<Rightarrow> 'w \<Rightarrow> ((ipc_wait_error + unit) \<times> inbox) \<times> 'w"
  we_send_input :: "string \<Rightarrow> nat \<Rightarrow> 'w \<Rightarrow> (worker_error + unit) \<times> 'w"
  we_interrupt :: "'w \<Rightarrow> (worker_error + unit) \<times> 'w"
  we_wait_readiness ::
    "nat \<Rightarrow> nat option \<Rightarrow> inbox \<Rightarrow> 'w \<Rightarrow> ((ipc_wait_error + ipc_input_readiness) \<times> inbox) \<times> 'w"
  we_requests_inherited :: bool
  we_missing_inherited :: "'w \<Rightarrow> bool"
  we_prepare_update :: "'u \<Rightarrow> 'w \<Rightarrow> (worker_error + bool \<times> bool \<times> bool) \<times> 'w"
  we_policy_text :: "'w \<Rightarrow> string"
  we_linux :: bool
  we_lib :: pager_lib
  we_page_chars :: "string option"
  we_page_bytes :: "string option"

subsection \<open>Captured output\<close>

definition PREVIOUS_IMAGE_UPDATE_NOTICE :: string where
  "PREVIOUS_IMAGE_UPDATE_NOTICE = ''[repl] image update from previous request shown as a new img'' @ nl"

definition append_live_text ::
  "bytes \<Rightarrow> text_stream \<Rightarrow> bool \<Rightarrow> bool \<Rightarrow> output_state \<Rightarrow> output_state" where
  "append_live_text bs stream is_continuation is_output_text s =
     (case stream of
        Stdout \<Rightarrow>
          if is_output_text then append_ipc_text_with_continuation bs False Worker is_continuation s
          else append_text bs False Worker s
      | Stderr \<Rightarrow>
          if is_output_text then append_ipc_text_with_continuation bs True Worker is_continuation s
          else append_text_with_continuation bs True Worker is_continuation s)"

definition append_image_inner :: "ipc_output_image \<Rightarrow> output_state \<Rightarrow> output_state" where
  "append_image_inner img s =
     (let s1 = (if oi_updates_previous_image img
                then append_text_event PREVIOUS_IMAGE_UPDATE_NOTICE False Server s else s)
      in append_image (oi_id img) (oi_mime_type img) (oi_data img) (oi_is_new img) s1)"

text \<open>The handlers a worker process installs on its sideband connection.\<close>

definition sideband_handler :: "ipc_event \<Rightarrow> output_state \<Rightarrow> output_state" where
  "sideband_handler event s =
     (case event of
        OutputTextEvent t \<Rightarrow> append_live_text (ot_bytes t) (ot_stream t) (ot_is_continuation t) True s
      | OutputImageEvent img \<Rightarrow> append_image_inner img s
      | InputWaitEvent prompt \<Rightarrow> append_sideband (SidebandInputWait prompt) s
      | InputLineEvent event \<Rightarrow> append_sideband (SidebandReadlineResult (il_prompt event) (il_line event)) s
      | SessionEndEvent \<Rightarrow> append_sideband SidebandSessionEnd s)"

definition background_step :: "background \<Rightarrow> 'w manager \<Rightarrow> 'w manager" where
  "background_step b m =
     (case b of
        RawOutput bs stream \<Rightarrow> m\<lparr>mg_out := append_live_text bs stream False False (mg_out m)\<rparr>
      | SidebandCall event \<Rightarrow> m\<lparr>mg_out := sideband_handler event (mg_out m)\<rparr>
      | InboxChange ib \<Rightarrow>
          (case mg_process m of
             Some (Some _) \<Rightarrow> m\<lparr>mg_process := Some (Some ib)\<rparr>
           | _ \<Rightarrow> m)
      | MemoryLimit message \<Rightarrow>
          (case mg_guardrail_event m of
             None \<Rightarrow>
               m\<lparr>mg_guardrail_event :=
                   Some \<lparr>ge_message = message, ge_was_busy = mg_guardrail_busy m, ge_is_error = True\<rparr>\<rparr>
           | Some _ \<Rightarrow> m))"

definition meanwhile :: "('u, 'w) worker_env \<Rightarrow> ('w, unit) flow" where
  "meanwhile env =
     do { bs \<leftarrow> world (we_background env);
          change (\<lambda>m. foldl (\<lambda>m b. background_step b m) m bs) }"

definition now_ms :: "('u, 'w) worker_env \<Rightarrow> ('w, nat) flow" where
  "now_ms env = world (we_now env)"

definition process_running :: "('u, 'w) worker_env \<Rightarrow> ('w, bool) result_flow" where
  "process_running env = do { meanwhile env; world (we_is_running env) }"

text \<open>A call on the connection of the process, \<open>None\<close> when there is none.\<close>

definition on_ipc :: "(inbox \<Rightarrow> 'a \<times> inbox) \<Rightarrow> ('w, 'a option) flow" where
  "on_ipc f =
     State (\<lambda>m. case mg_process m of
                  Some (Some ib) \<Rightarrow>
                    (let (r, ib1) = f ib in (Some r, m\<lparr>mg_process := Some (Some ib1)\<rparr>))
                | _ \<Rightarrow> (None, m))"

text \<open>A wait on the connection: other threads run, then the environment tells the result.\<close>

definition wait_ipc ::
  "('u, 'w) worker_env \<Rightarrow> (inbox \<Rightarrow> 'w \<Rightarrow> ('a \<times> inbox) \<times> 'w) \<Rightarrow> ('w, 'a option) flow" where
  "wait_ipc env f =
     do { meanwhile env;
          State (\<lambda>m. case mg_process m of
                       Some (Some ib) \<Rightarrow>
                         (let ((r, ib1), w) = f ib (mg_world m)
                          in (Some r, m\<lparr>mg_process := Some (Some ib1), mg_world := w\<rparr>))
                     | _ \<Rightarrow> (None, m)) }"

definition resolve_page_bytes :: "('u, 'w) worker_env \<Rightarrow> nat option \<Rightarrow> nat" where
  "resolve_page_bytes env override_bytes =
     max (unwrap_or override_bytes (page_bytes (we_page_chars env) (we_page_bytes env)))
       MIN_PAGER_PAGE_CHARS"

section \<open>Sessions\<close>

definition MISSING_INHERITED_SANDBOX_STATE_MESSAGE :: string where
  "MISSING_INHERITED_SANDBOX_STATE_MESSAGE =
     ''--sandbox inherit-codex (or its inherit alias) requires Codex per-tool-call '' @
     ''sandbox metadata in _meta['' @ [CHR 0x22] @ ''codex/sandbox-state-meta'' @ [CHR 0x22] @
     '']; Claude Code and other '' @
     ''generic MCP clients do not provide that metadata, so use an explicit mode such '' @
     ''as --sandbox workspace-write with those clients''"

definition require_inherited_sandbox_state :: "('u, 'w) worker_env \<Rightarrow> ('w, unit) result_flow" where
  "require_inherited_sandbox_state env =
     do { missing \<leftarrow> see (\<lambda>m. we_missing_inherited env (mg_world m));
          if missing then fail (SandboxError MISSING_INHERITED_SANDBOX_STATE_MESSAGE) else ok () }"

text \<open>
  The end of a session is noted in the output: with the exit status of the process, when it has
  failed, as an error, otherwise as a status line.
\<close>

definition append_session_end_notice :: "string option \<Rightarrow> 'w manager \<Rightarrow> 'w manager" where
  "append_session_end_notice status_message m =
     (case status_message of
        Some message \<Rightarrow>
          (let message = (if ends_with message nl then message else message @ nl)
           in case mg_oversized_output m of
                OversizedFiles \<Rightarrow> set_tape (append_server_stderr_bytes message (tape m)) m
              | OversizedPager \<Rightarrow> m\<lparr>mg_out := append_text message True Server (mg_out m)\<rparr>)
      | None \<Rightarrow>
          (let message = ''[repl] session ended'' @ nl
           in case mg_oversized_output m of
                OversizedFiles \<Rightarrow> set_tape (append_stdout_status_line message (tape m)) m
              | OversizedPager \<Rightarrow>
                  (let out = seal_utf8_tails (mg_out m)
                   in m\<lparr>mg_out :=
                        (if last_text_ends_with_newline (os_inner out)
                         then append_text message False Server out
                         else append_text (nl @ message) False Server out)\<rparr>)))"

definition note_session_end :: "('u, 'w) worker_env \<Rightarrow> bool \<Rightarrow> ('w, unit) flow" where
  "note_session_end env include_notice =
     do { change (\<lambda>m. m\<lparr>mg_session_end_seen := True\<rparr>);
          had_process \<leftarrow> see (\<lambda>m. mg_process m \<noteq> None);
          if include_notice \<and> had_process
          then do { status_message \<leftarrow> world (we_exit_status env);
                    change (append_session_end_notice status_message) }
          else State_Monad.return () }"

definition remember_spawned_initial_prompt ::
  "initial_worker_prompt option \<Rightarrow> 'w manager \<Rightarrow> 'w manager" where
  "remember_spawned_initial_prompt initial_prompt m =
     (case initial_prompt of
        Some (Immediate raw_prompt) \<Rightarrow> remember_prompt (Some raw_prompt) m
      | Some (Waited raw_prompt) \<Rightarrow>
          (case normalize_prompt (Some raw_prompt) of
             Some prompt \<Rightarrow> m\<lparr>mg_last_prompt := Some prompt\<rparr>
           | None \<Rightarrow> m)
      | None \<Rightarrow> m)"

definition record_spawn :: "'w manager \<Rightarrow> 'w manager" where
  "record_spawn m = m\<lparr>mg_spawned_before := True, mg_spawn_count := sat_add (mg_spawn_count m) 1\<rparr>"

definition spawn_process :: "('u, 'w) worker_env \<Rightarrow> ('w, inbox option) result_flow" where
  "spawn_process env =
     ask (do { meanwhile env; world (we_spawn env) })
       (\<lambda>(ipc, initial_prompt).
          do { change (remember_spawned_initial_prompt initial_prompt);
               change record_spawn;
               ok ipc })"

definition LINUX_BWRAP_FALLBACK_NOTICE :: string where
  "LINUX_BWRAP_FALLBACK_NOTICE =
     ''[repl] Linux bubblewrap sandbox unavailable; continuing without bwrap'' @ nl"

definition retry_without_linux_bwrap :: "bool \<Rightarrow> 'w manager \<Rightarrow> 'w manager" where
  "retry_without_linux_bwrap preserve_pager m =
     (let m1 = m\<lparr>mg_linux_bwrap_fallback_disabled := True, mg_use_linux_sandbox_bwrap := False\<rparr>
      in case mg_oversized_output m1 of
           OversizedFiles \<Rightarrow>
             (let m2 = reset_output_state_files True m1
              in set_tape (append_stdout_status_line LINUX_BWRAP_FALLBACK_NOTICE (tape m2)) m2)
         | OversizedPager \<Rightarrow>
             (let m2 = reset_output_state_pager True preserve_pager m1
              in m2\<lparr>mg_out := append_text LINUX_BWRAP_FALLBACK_NOTICE False Server (mg_out m2)\<rparr>))"

text \<open>
  A worker whose start fails under bubblewrap is started again without it. The environment says
  whether the error is one of those that call for it.
\<close>

lemma background_keeps_bwrap [simp]:
  "mg_use_linux_sandbox_bwrap (foldl (\<lambda>m b. background_step b m) m bs) = mg_use_linux_sandbox_bwrap m"
proof (induction bs arbitrary: m)
  case (Cons b bs)
  have "mg_use_linux_sandbox_bwrap (background_step b m) = mg_use_linux_sandbox_bwrap m"
    by (simp add: background_step_def split: background.split option.split)
  with Cons show ?case by simp
qed simp

lemma spawn_keeps_bwrap:
  "mg_use_linux_sandbox_bwrap (snd (run_state (spawn_process env) m)) = mg_use_linux_sandbox_bwrap m"
  by (simp add: spawn_process_def ask_def fail_def ok_def meanwhile_def world_def change_def
      remember_spawned_initial_prompt_def remember_prompt_def record_spawn_def case_prod_beta
      split: sum.split option.split initial_worker_prompt.split)

lemma retry_drops_bwrap [simp]:
  "\<not> mg_use_linux_sandbox_bwrap (retry_without_linux_bwrap preserve_pager m)"
  by (simp add: retry_without_linux_bwrap_def reset_output_state_files_def
      reset_output_state_files_inner_def reset_output_state_pager_def
      reset_output_state_pager_inner_def set_tape_def Let_def split: oversized_output_mode.split)

function spawn_retrying ::
  "('u, 'w) worker_env \<Rightarrow> bool \<Rightarrow> 'w manager \<Rightarrow> (worker_error + inbox option) \<times> 'w manager" where
  "spawn_retrying env preserve_pager m =
     (case run_state (spawn_process env) m of
        (Inr ipc, m1) \<Rightarrow> (Inr ipc, m1)
      | (Inl err, m1) \<Rightarrow>
          if we_linux env \<and> mg_use_linux_sandbox_bwrap m1 \<and> we_spawn_retryable env err (mg_world m1)
          then spawn_retrying env preserve_pager (retry_without_linux_bwrap preserve_pager m1)
          else (Inl err, m1))"
  by pat_completeness auto

termination
  by (relation "measure (\<lambda>(env, preserve_pager, m). if mg_use_linux_sandbox_bwrap m then 1 else 0)")
    (simp, simp, metis spawn_keeps_bwrap snd_conv)

declare spawn_retrying.simps [simp del]

text \<open>A new process in the place of the old one, once the output state has been reset.\<close>

definition spawn_into :: "('u, 'w) worker_env \<Rightarrow> bool \<Rightarrow> ('w, unit) result_flow" where
  "spawn_into env preserve_pager =
     ask (State (spawn_retrying env preserve_pager))
       (\<lambda>ipc. do { change (\<lambda>m. m\<lparr>mg_process := Some ipc\<rparr>); ok () })"

definition drop_process :: "('u, 'w) worker_env \<Rightarrow> ('w, unit) flow" where
  "drop_process env =
     do { had_process \<leftarrow> see (\<lambda>m. mg_process m \<noteq> None);
          only_if had_process
            (do { change (\<lambda>m. m\<lparr>mg_process := None\<rparr>); world (we_stop env); meanwhile env }) }"

definition reset_output_state :: "bool \<Rightarrow> 'w manager \<Rightarrow> 'w manager" where
  "reset_output_state preserve_pager m =
     (case mg_oversized_output m of
        OversizedFiles \<Rightarrow> reset_output_state_files True m
      | OversizedPager \<Rightarrow> reset_output_state_pager True preserve_pager m)"

definition reset :: "('u, 'w) worker_env \<Rightarrow> ('w, unit) result_flow" where
  "reset env =
     do { drop_process env;
          ask (require_inherited_sandbox_state env)
            (\<lambda>_. do { change (reset_output_state False); spawn_into env False }) }"

definition reset_after_session_end_for_mode ::
  "('u, 'w) worker_env \<Rightarrow> bool \<Rightarrow> ('w, unit) result_flow" where
  "reset_after_session_end_for_mode env preserve_pager =
     do { drop_process env;
          ask (require_inherited_sandbox_state env)
            (\<lambda>_. do { change (reset_output_state preserve_pager); spawn_into env False }) }"

definition reset_with_pager :: "('u, 'w) worker_env \<Rightarrow> bool \<Rightarrow> ('w, unit) result_flow" where
  "reset_with_pager env preserve_pager =
     do { drop_process env;
          ask (require_inherited_sandbox_state env)
            (\<lambda>_. do { change (reset_output_state_pager True preserve_pager);
                      spawn_into env preserve_pager }) }"

definition preserving_item_count :: "('w, 'a) flow \<Rightarrow> ('w, 'a) flow" where
  "preserving_item_count f =
     do { count \<leftarrow> see mg_last_detached_prefix_item_count;
          r \<leftarrow> f;
          change (\<lambda>m. m\<lparr>mg_last_detached_prefix_item_count := count\<rparr>);
          State_Monad.return r }"

definition reset_preserving_detached_prefix_item_count ::
  "('u, 'w) worker_env \<Rightarrow> ('w, unit) result_flow" where
  "reset_preserving_detached_prefix_item_count env = preserving_item_count (reset env)"

definition reset_with_pager_preserving_detached_prefix_item_count ::
  "('u, 'w) worker_env \<Rightarrow> bool \<Rightarrow> ('w, unit) result_flow" where
  "reset_with_pager_preserving_detached_prefix_item_count env preserve_pager =
     preserving_item_count (reset_with_pager env preserve_pager)"

definition note_respawn_during_write :: "'w manager \<Rightarrow> 'w manager" where
  "note_respawn_during_write m =
     (if mg_write_in_progress m then m\<lparr>mg_last_write_respawned := True\<rparr> else m)"

definition maybe_reset_after_session_end :: "('u, 'w) worker_env \<Rightarrow> ('w, unit) flow" where
  "maybe_reset_after_session_end env =
     do { session_end \<leftarrow> see mg_session_end_seen;
          only_if session_end
            (do { preserve_pager \<leftarrow>
                    see (\<lambda>m. mg_oversized_output m = OversizedPager \<and> is_active (mg_pager m));
                  result \<leftarrow> preserving_item_count (reset_after_session_end_for_mode env preserve_pager);
                  only_if (\<not> isl result) (change note_respawn_during_write);
                  change (\<lambda>m. m\<lparr>mg_session_end_seen := False\<rparr>) }) }"

definition shutdown :: "('u, 'w) worker_env \<Rightarrow> ('w, unit) flow" where
  "shutdown env =
     do { drop_process env;
          change (\<lambda>m. m\<lparr>mg_guardrail_busy := False\<rparr>) }"

definition ensure_process :: "('u, 'w) worker_env \<Rightarrow> ('w, unit) result_flow" where
  "ensure_process env =
     ask (require_inherited_sandbox_state env) (\<lambda>_.
       do { had_process \<leftarrow> see (\<lambda>m. mg_process m \<noteq> None);
            ask (if had_process then process_running env else ok False) (\<lambda>running.
              if running then ok ()
              else
                ask (if had_process
                     then do { change (\<lambda>m. m\<lparr>mg_process := None\<rparr>); meanwhile env;
                               world (we_finish_exited env) }
                     else ok ()) (\<lambda>_.
                  do { change (\<lambda>m. case mg_oversized_output m of
                         OversizedFiles \<Rightarrow> reset_output_state_files False m
                       | OversizedPager \<Rightarrow> reset_output_state_pager True False m);
                       spawn_into env False })) })"

subsection \<open>Changes of the sandbox\<close>

definition restart_worker_after_sandbox_state_change ::
  "('u, 'w) worker_env \<Rightarrow> ('w, unit) result_flow" where
  "restart_worker_after_sandbox_state_change env =
     do { drop_process env;
          change (\<lambda>m.
            if has_detached_output_to_preserve m
            then
              (case mg_oversized_output m of
                 OversizedFiles \<Rightarrow> reset_output_state_files_preserving_detached_output m
               | OversizedPager \<Rightarrow>
                   reset_output_state_pager_preserving_detached_output (is_active (mg_pager m)) m)
            else reset_output_state False m);
          ask (spawn_into env False) (\<lambda>_. do { change note_respawn_during_write; ok () }) }"

definition spawn_worker_after_initial_sandbox_state ::
  "('u, 'w) worker_env \<Rightarrow> ('w, unit) result_flow" where
  "spawn_worker_after_initial_sandbox_state env =
     do { change (reset_output_state False);
          ask (spawn_into env False) (\<lambda>_. do { change note_respawn_during_write; ok () }) }"

definition prepare_sandbox_state_update ::
  "('u, 'w) worker_env \<Rightarrow> 'u \<Rightarrow> ('w, bool \<times> bool) result_flow" where
  "prepare_sandbox_state_update env update =
     ask (world (we_prepare_update env update)) (\<lambda>(requires_restart, missing_before, use_bwrap).
       do { change (\<lambda>m. m\<lparr>mg_use_linux_sandbox_bwrap :=
              (use_bwrap \<and> \<not> mg_linux_bwrap_fallback_disabled m)\<rparr>);
            ok (requires_restart, missing_before) })"

definition stage_sandbox_change_restart_notice :: "string \<Rightarrow> bool \<Rightarrow> 'w manager \<Rightarrow> 'w manager" where
  "stage_sandbox_change_restart_notice policy aborted_request m =
     (let message =
            ''[repl] sandbox policy changed; new session started'' @ nl @
            (if aborted_request
             then ''[repl] previous request aborted because sandbox policy changed'' @ nl else []) @
            ''[repl] new sandbox policy: '' @ policy @ nl
      in m\<lparr>mg_pending_server_notice :=
             (case mg_pending_server_notice m of
                Some pending \<Rightarrow> Some (pending\<lparr>ge_message := ge_message pending @ message\<rparr>)
              | None \<Rightarrow> Some \<lparr>ge_message = message, ge_was_busy = False, ge_is_error = False\<rparr>)\<rparr>)"

definition update_sandbox_state :: "('u, 'w) worker_env \<Rightarrow> 'u \<Rightarrow> ('w, bool) result_flow" where
  "update_sandbox_state env update =
     ask (prepare_sandbox_state_update env update) (\<lambda>(requires_restart, missing_before).
       if \<not> requires_restart
       then do { no_process \<leftarrow> see (\<lambda>m. mg_process m = None);
                 if missing_before \<and> no_process
                 then ask (spawn_worker_after_initial_sandbox_state env) (\<lambda>_. ok True)
                 else ok False }
       else
         do { aborted_request \<leftarrow> see mg_pending_request;
              had_prior_session \<leftarrow> see mg_spawned_before;
              ask (restart_worker_after_sandbox_state_change env) (\<lambda>_.
                do { only_if had_prior_session
                       (do { policy \<leftarrow> see (\<lambda>m. we_policy_text env (mg_world m));
                             change (stage_sandbox_change_restart_notice policy aborted_request);
                             change (\<lambda>m. m\<lparr>mg_next_live_prefix_belongs_to_reply := True\<rparr>) });
                     ok True }) })"

definition stage_deferred_sandbox_state_update ::
  "('u, 'w) worker_env \<Rightarrow> 'u option \<Rightarrow> ('w, unit) result_flow" where
  "stage_deferred_sandbox_state_update env update =
     (case update of
        None \<Rightarrow> ok ()
      | Some u \<Rightarrow> ask (prepare_sandbox_state_update env u) (\<lambda>_. ok ()))"

definition apply_deferred_sandbox_state_update ::
  "('u, 'w) worker_env \<Rightarrow> 'u option \<Rightarrow> ('w, unit) result_flow" where
  "apply_deferred_sandbox_state_update env update =
     (case update of
        None \<Rightarrow> ok ()
      | Some u \<Rightarrow> ask (update_sandbox_state env u) (\<lambda>_. ok ()))"

definition stage_session_end_sandbox_state_update ::
  "('u, 'w) worker_env \<Rightarrow> 'u option \<Rightarrow> bool \<Rightarrow> ('w, unit) result_flow" where
  "stage_session_end_sandbox_state_update env update pending_state_prechecked =
     (if pending_state_prechecked \<and> update = None \<and> we_requests_inherited env
      then fail prechecked_follow_up_requires_meta_error
      else stage_deferred_sandbox_state_update env update)"

definition maybe_reset_after_session_end_with_options ::
  "('u, 'w) worker_env \<Rightarrow> 'u option \<Rightarrow> bool \<Rightarrow> bool \<Rightarrow> ('w, unit) result_flow" where
  "maybe_reset_after_session_end_with_options env update suppress_session_end_reset
     pending_state_prechecked =
     do { session_end \<leftarrow> see mg_session_end_seen;
          ask (if session_end \<and> \<not> suppress_session_end_reset
               then stage_session_end_sandbox_state_update env update pending_state_prechecked
               else ok ()) (\<lambda>_.
            do { only_if (\<not> suppress_session_end_reset) (maybe_reset_after_session_end env);
                 ok () }) }"

section \<open>Requests\<close>

record request_info =
  rs_timeout :: nat
  rs_started_at :: nat

record request_start_error =
  se_error :: worker_error
  se_reset_process :: bool

definition pre_admission :: "worker_error \<Rightarrow> request_start_error" where
  "pre_admission err = \<lparr>se_error = err, se_reset_process = False\<rparr>"

definition worker_state_uncertain :: "worker_error \<Rightarrow> request_start_error" where
  "worker_state_uncertain err = \<lparr>se_error = err, se_reset_process = True\<rparr>"

definition replace_bytes :: "char \<Rightarrow> string \<Rightarrow> string \<Rightarrow> string" where
  "replace_bytes c s by = concat (map (\<lambda>x. if x = c then by else [x]) s)"

fun replace_crlf :: "string \<Rightarrow> string" where
  "replace_crlf (a # b # s) =
     (if a = CHR 0x0D \<and> b = CHR 0x0A then CHR 0x0A # replace_crlf s else a # replace_crlf (b # s))"
| "replace_crlf s = s"

definition normalize_input_newlines :: "string \<Rightarrow> string" where
  "normalize_input_newlines txt = replace_bytes (CHR 0x0D) (replace_crlf txt) nl"

definition prepare_input_text :: "string \<Rightarrow> 'w manager \<Rightarrow> string" where
  "prepare_input_text txt m = (if mg_r_driver m then normalize_input_newlines txt else txt)"

definition should_settle_output_after_timeout :: "'w manager \<Rightarrow> bool" where
  "should_settle_output_after_timeout m \<longleftrightarrow>
     mg_r_driver m \<and> mg_oversized_output m = OversizedFiles \<and>
     (case mg_pending_request_input m of
        None \<Rightarrow> False
      | Some input \<Rightarrow>
          CHR 0x0A \<in> set (trim_end_matches (\<lambda>c. c = [CHR 0x0D] \<or> c = [CHR 0x0A]) input))"

definition begin_input_error :: "nat \<Rightarrow> ipc_wait_error \<Rightarrow> worker_error" where
  "begin_input_error timeout err =
     (case err of
        WaitTimeout \<Rightarrow> TimeoutError timeout
      | WaitSessionEnd \<Rightarrow> ProtocolError ''worker session ended before input_wait''
      | WaitDisconnected \<Rightarrow> ProtocolError ''ipc disconnected while waiting for worker input_wait''
      | WaitProtocol message \<Rightarrow> ProtocolError message)"

definition take_latched_error :: "('w, unit) result_flow" where
  "take_latched_error =
     do { r \<leftarrow> on_ipc ipc_take_protocol_error;
          case r of Some (Some message) \<Rightarrow> fail (ProtocolError message) | _ \<Rightarrow> ok () }"

definition on_input_start :: "('u, 'w) worker_env \<Rightarrow> string \<Rightarrow> nat \<Rightarrow> ('w, unit) result_flow" where
  "on_input_start env txt timeout =
     ask take_latched_error (\<lambda>_.
       do { start \<leftarrow> now_ms env;
            r \<leftarrow> wait_ipc env (we_begin_input env timeout);
            ask (case r of
                   Some (Inl err) \<Rightarrow> fail (begin_input_error timeout err)
                 | _ \<Rightarrow> ok ()) (\<lambda>_.
              do { later \<leftarrow> now_ms env;
                   let remaining = timeout - (later - start);
                   if remaining = 0 then fail (TimeoutError timeout)
                   else
                     ask (do { meanwhile env; world (we_send_input env txt remaining) })
                       (\<lambda>_. take_latched_error) }) })"

text \<open>Sending an input: the error says whether the worker may have seen part of it.\<close>

definition send_worker_request ::
  "('u, 'w) worker_env \<Rightarrow> string \<Rightarrow> nat \<Rightarrow> nat \<Rightarrow> ('w manager, request_start_error + request_info) state"
where
  "send_worker_request env txt worker_timeout server_timeout =
     do { txt \<leftarrow> see (prepare_input_text txt);
          started_at \<leftarrow> now_ms env;
          prompt \<leftarrow> State current_prompt_hint;
          change (remember_prompt prompt);
          change (\<lambda>m. m\<lparr>mg_pending_request_input := Some txt\<rparr>);
          connected \<leftarrow> see (\<lambda>m. case mg_process m of Some (Some _) \<Rightarrow> True | _ \<Rightarrow> False);
          if \<not> connected
          then State_Monad.return
                 (Inl (worker_state_uncertain (ProtocolError ''worker ipc unavailable'')))
          else if server_timeout = 0
          then State_Monad.return (Inl (pre_admission (TimeoutError server_timeout)))
          else
            do { now \<leftarrow> now_ms env;
                 let remaining = started_at + server_timeout - now;
                 if remaining = 0
                 then State_Monad.return (Inl (pre_admission (TimeoutError server_timeout)))
                 else
                   do { started \<leftarrow> on_input_start env txt remaining;
                        case started of
                          Inl err \<Rightarrow> State_Monad.return (Inl (worker_state_uncertain err))
                        | Inr _ \<Rightarrow>
                            do { change (\<lambda>m. m\<lparr>mg_settled_pending_completion := None,
                                              mg_guardrail_busy := True\<rparr>);
                                 now \<leftarrow> now_ms env;
                                 if started_at + server_timeout - now = 0
                                 then State_Monad.return
                                        (Inl (worker_state_uncertain (TimeoutError server_timeout)))
                                 else State_Monad.return
                                        (Inr \<lparr>rs_timeout = worker_timeout,
                                              rs_started_at = started_at\<rparr>) } } } }"

subsection \<open>Completion\<close>

definition COMPLETION_METADATA_SETTLE_MAX :: nat where "COMPLETION_METADATA_SETTLE_MAX = 30"
definition COMPLETION_METADATA_SETTLE_POLL :: nat where "COMPLETION_METADATA_SETTLE_POLL = 5"
definition COMPLETION_METADATA_STABLE :: nat where "COMPLETION_METADATA_STABLE = 10"

record metadata =
  md_prompt :: "string option"
  md_variants :: "string list"
  md_lines :: nat
  md_late_line :: bool
  md_stable_for :: nat

definition peek_metadata :: "inbox \<Rightarrow> (string option \<times> string list \<times> nat) \<times> inbox" where
  "peek_metadata ib =
     (let (prompt, ib1) = try_take_prompt ib;
          (variants, ib2) = take_prompt_history ib1
      in ((prompt, variants, length (ib_input_line_events ib2)), ib2))"

definition metadata_turn :: "string option \<times> string list \<times> nat \<Rightarrow> metadata \<Rightarrow> metadata \<times> bool" where
  "metadata_turn seen md =
     (let (next_prompt, next_variants, next_lines) = seen;
          late = (md_late_line md \<or> next_lines > md_lines md);
          changed = (next_prompt \<noteq> None \<or> next_variants \<noteq> [] \<or> next_lines \<noteq> md_lines md);
          stable_for = (if changed then 0 else md_stable_for md + COMPLETION_METADATA_SETTLE_POLL)
      in (\<lparr>md_prompt = option_or next_prompt (md_prompt md), md_variants = md_variants md @ next_variants,
           md_lines = next_lines, md_late_line = late, md_stable_for = stable_for\<rparr>,
          \<not> changed \<and> \<not> late \<and> stable_for \<ge> COMPLETION_METADATA_STABLE))"

text \<open>
  Every turn sleeps for five milliseconds and the loop ends after thirty, so six turns are all it
  can take.
\<close>

fun metadata_loop ::
  "('u, 'w) worker_env \<Rightarrow> nat \<Rightarrow> nat \<Rightarrow> metadata \<Rightarrow> ('w, metadata) flow" where
  "metadata_loop env 0 start md = State_Monad.return md"
| "metadata_loop env (Suc turns) start md =
     do { now \<leftarrow> now_ms env;
          if now - start \<ge> COMPLETION_METADATA_SETTLE_MAX then State_Monad.return md
          else
            do { meanwhile env;
                 seen \<leftarrow> on_ipc peek_metadata;
                 case seen of
                   None \<Rightarrow> State_Monad.return md
                 | Some seen \<Rightarrow>
                     (let (md1, settled) = metadata_turn seen md
                      in if settled then State_Monad.return md1
                         else metadata_loop env turns start md1) } }"

definition find_last :: "('a \<Rightarrow> bool) \<Rightarrow> 'a list \<Rightarrow> 'a option" where
  "find_last p xs = find p (rev xs)"

definition collect_completion_metadata ::
  "('u, 'w) worker_env \<Rightarrow> ('w, string option \<times> string list) flow" where
  "collect_completion_metadata env =
     do { seen \<leftarrow> on_ipc peek_metadata;
          start \<leftarrow> now_ms env;
          let (prompt, variants, n) = unwrap_or seen (None, [], 0);
          md \<leftarrow> metadata_loop env
            (COMPLETION_METADATA_SETTLE_MAX div COMPLETION_METADATA_SETTLE_POLL) start
            \<lparr>md_prompt = prompt, md_variants = variants, md_lines = n, md_late_line = False,
             md_stable_for = 0\<rparr>;
          State_Monad.return
            (option_or (md_prompt md) (find_last (\<lambda>v. v \<noteq> []) (md_variants md)), md_variants md) }"

definition take_warnings :: "('w, string list) flow" where
  "take_warnings = do { w \<leftarrow> on_ipc take_protocol_warnings; State_Monad.return (unwrap_or w []) }"

definition completion_info_from_ipc ::
  "('u, 'w) worker_env \<Rightarrow> bool \<Rightarrow> ('w, completion_info) flow" where
  "completion_info_from_ipc env session_end_seen =
     do { (prompt, variants) \<leftarrow>
            (if session_end_seen then State_Monad.return (None, None)
             else do { (prompt, variants) \<leftarrow> collect_completion_metadata env;
                       State_Monad.return (prompt, Some variants) });
          warnings \<leftarrow> take_warnings;
          State_Monad.return
            \<lparr>ci_prompt = prompt, ci_prompt_variants = variants, ci_protocol_warnings = warnings,
             ci_session_end_seen = session_end_seen\<rparr> }"

definition IPC_DISCONNECTED_WHILE_WAITING :: string where
  "IPC_DISCONNECTED_WHILE_WAITING = ''ipc disconnected while waiting for request completion''"

definition driver_wait_for_completion ::
  "('u, 'w) worker_env \<Rightarrow> nat \<Rightarrow> ('w, completion_info) result_flow" where
  "driver_wait_for_completion env timeout =
     (if timeout = 0 then fail (TimeoutError timeout)
      else
        do { r \<leftarrow> wait_ipc env (we_wait_completion env timeout);
             case r of
               None \<Rightarrow> fail (ProtocolError ''worker ipc unavailable'')
             | Some (Inr _) \<Rightarrow> do { info \<leftarrow> completion_info_from_ipc env False; ok info }
             | Some (Inl WaitTimeout) \<Rightarrow> fail (TimeoutError timeout)
             | Some (Inl WaitSessionEnd) \<Rightarrow> do { info \<leftarrow> completion_info_from_ipc env True; ok info }
             | Some (Inl WaitDisconnected) \<Rightarrow> fail (ProtocolError IPC_DISCONNECTED_WHILE_WAITING)
             | Some (Inl (WaitProtocol message)) \<Rightarrow> fail (ProtocolError message) })"

definition str_contains :: "string \<Rightarrow> string \<Rightarrow> bool" where
  "str_contains s needle = list_ex (\<lambda>i. starts_with (drop i s) needle) [0..<Suc (length s)]"

text \<open>
  A worker whose connection has closed gets half a second to exit, looked at every twenty
  milliseconds: at most 26 times.
\<close>

fun exit_grace_loop :: "('u, 'w) worker_env \<Rightarrow> nat \<Rightarrow> nat \<Rightarrow> ('w, bool) result_flow" where
  "exit_grace_loop env 0 deadline = ok False"
| "exit_grace_loop env (Suc turns) deadline =
     ask (process_running env) (\<lambda>running.
       if \<not> running then ok True
       else do { now \<leftarrow> now_ms env;
                 if now \<ge> deadline then ok False else exit_grace_loop env turns deadline })"

definition resolve_disconnected ::
  "('u, 'w) worker_env \<Rightarrow> worker_error + completion_info \<Rightarrow>
   ('w, worker_error + completion_info) result_flow" where
  "resolve_disconnected env result =
     (case result of
        Inl (ProtocolError message) \<Rightarrow>
          if str_contains message IPC_DISCONNECTED_WHILE_WAITING
          then
            do { now \<leftarrow> now_ms env;
                 ask (exit_grace_loop env 26 (now + 500)) (\<lambda>worker_exited.
                   if worker_exited
                   then
                     do { warnings \<leftarrow> take_warnings;
                          ok (Inr \<lparr>ci_prompt = None, ci_prompt_variants = None,
                                   ci_protocol_warnings = warnings, ci_session_end_seen = True\<rparr>) }
                   else ok result) }
          else ok result
      | _ \<Rightarrow> ok result)"

definition append_boundary :: "'w manager \<Rightarrow> 'w manager" where
  "append_boundary m = set_tape (append_sideband SidebandRequestBoundary (tape m)) m"

definition wait_for_request_completion ::
  "('u, 'w) worker_env \<Rightarrow> nat \<Rightarrow> ('w, completion_info) result_flow" where
  "wait_for_request_completion env timeout =
     do { process \<leftarrow> see mg_process;
          case process of
            None \<Rightarrow> fail (ProtocolError ''worker process unavailable'')
          | Some None \<Rightarrow> fail (ProtocolError ''worker ipc unavailable'')
          | Some (Some _) \<Rightarrow>
              do { result \<leftarrow> driver_wait_for_completion env timeout;
                   ask (resolve_disconnected env result) (\<lambda>result.
                     do { meanwhile env;
                          only_if (\<not> isl result) (change append_boundary);
                          ask (if isl result then ok () else take_latched_error) (\<lambda>_.
                            do { event \<leftarrow> see mg_guardrail_event;
                                 case event of
                                   Some event \<Rightarrow>
                                     do { change (\<lambda>m. m\<lparr>mg_guardrail_event := None\<rparr>);
                                          fail (GuardrailError (ge_message event)) }
                                 | None \<Rightarrow> State_Monad.return result }) }) } }"

definition settle_pending_session_end :: "('u, 'w) worker_env \<Rightarrow> ('w, unit) flow" where
  "settle_pending_session_end env =
     do { settled_completion \<leftarrow> completion_info_from_ipc env True;
          meanwhile env;
          change append_boundary;
          note_session_end env True;
          change clear_pending_request_state;
          change (\<lambda>m. m\<lparr>mg_settled_pending_completion := Some settled_completion\<rparr>) }"

definition settle_completed_request :: "('u, 'w) worker_env \<Rightarrow> ('w, unit) flow" where
  "settle_completed_request env =
     do { settled_completion \<leftarrow> completion_info_from_ipc env False;
          meanwhile env;
          change append_boundary;
          running \<leftarrow> process_running env;
          change clear_pending_request_state;
          if running = Inr False
          then
            do { note_session_end env True;
                 change (\<lambda>m. m\<lparr>mg_settled_pending_completion :=
                   Some (settled_completion\<lparr>ci_session_end_seen := True\<rparr>)\<rparr>) }
          else
            do { change (remember_prompt (ci_prompt settled_completion));
                 change (\<lambda>m. m\<lparr>mg_settled_pending_completion := Some settled_completion\<rparr>) } }"

definition settle_wait_status ::
  "('u, 'w) worker_env \<Rightarrow> (ipc_wait_error + unit) option \<Rightarrow> ('w, unit) flow" where
  "settle_wait_status env status =
     (case status of
        None \<Rightarrow> State_Monad.return ()
      | Some (Inr _) \<Rightarrow> settle_completed_request env
      | Some (Inl WaitSessionEnd) \<Rightarrow> settle_pending_session_end env
      | Some (Inl (WaitProtocol message)) \<Rightarrow>
          change (\<lambda>m. m\<lparr>mg_settled_pending_error := Some (ProtocolError message)\<rparr>)
      | Some (Inl _) \<Rightarrow>
          do { running \<leftarrow> process_running env;
               if running = Inr False then settle_pending_session_end env
               else State_Monad.return () })"

text \<open>
  A timed-out request is looked at again: when it has completed meanwhile, its completion is kept
  for the next poll or request.
\<close>

definition resolve_timeout_marker_with_wait ::
  "('u, 'w) worker_env \<Rightarrow> nat \<Rightarrow> ('w, unit) flow" where
  "resolve_timeout_marker_with_wait env wait =
     do { unresolved \<leftarrow> see (\<lambda>m. mg_pending_request m \<and> mg_settled_pending_error m = None);
          if \<not> unresolved then State_Monad.return ()
          else
            do { status \<leftarrow> wait_ipc env (we_wait_completion env wait);
                 settle_wait_status env status } }"

subsection \<open>Replies of requests\<close>

definition session_ended ::
  "('u, 'w) worker_env \<Rightarrow> completion_info \<Rightarrow> ('w, bool) result_flow" where
  "session_ended env completion =
     (if ci_session_end_seen completion then ok True
      else
        do { had_process \<leftarrow> see (\<lambda>m. mg_process m \<noteq> None);
             if \<not> had_process then ok False
             else ask (process_running env) (\<lambda>running. ok (\<not> running)) })"

definition timed_out_worker_runs :: "('u, 'w) worker_env \<Rightarrow> ('w, unit) result_flow" where
  "timed_out_worker_runs env =
     do { had_process \<leftarrow> see (\<lambda>m. mg_process m \<noteq> None);
          if \<not> had_process then ok ()
          else
            ask (process_running env) (\<lambda>running.
              if running then ok ()
              else fail (ProtocolError ''worker connection closed unexpectedly'')) }"

definition note_item_count :: "input_context \<Rightarrow> 'w manager \<Rightarrow> 'w manager" where
  "note_item_count context m =
     m\<lparr>mg_last_detached_prefix_item_count := length (ic_detached_prefix_contents context)\<rparr>"

definition note_timed_out :: "request_info \<Rightarrow> 'w manager \<Rightarrow> 'w manager" where
  "note_timed_out request m =
     m\<lparr>mg_pending_request := True, mg_pending_request_started_at := Some (rs_started_at request)\<rparr>"

definition prefix_contents :: "input_context \<Rightarrow> worker_content list" where
  "prefix_contents context = ic_detached_prefix_contents context @ ic_reply_prefix_contents context"

definition completed_reply_files ::
  "input_context \<Rightarrow> completion_info \<Rightarrow> bool \<Rightarrow> 'w manager \<Rightarrow> worker_reply \<times> 'w manager" where
  "completed_reply_files context completion session_end m =
     (let (formatted, m1) = drain_completed_formatted_output session_end m;
          built =
            build_completed_reply True (prefix_contents context @ fmt_contents formatted)
              (ic_prefix_is_error context \<or> fmt_saw_stderr formatted) completion session_end
              (Files False) (mg_backend m1)
      in (bc_reply built,
          (remember_prompt (bc_prompt_to_remember built) m1)\<lparr>mg_guardrail_busy := False\<rparr>))"

definition timed_out_reply_files ::
  "input_context \<Rightarrow> nat \<Rightarrow> 'w manager \<Rightarrow> worker_reply \<times> 'w manager" where
  "timed_out_reply_files context elapsed m =
     (let (formatted, m1) = drain_formatted_output m
      in (build_timeout_reply
            (prefix_contents context @ fmt_contents formatted @ [timeout_status_content elapsed])
            (ic_prefix_is_error context \<or> fmt_saw_stderr formatted), m1))"

definition build_reply_from_request_files ::
  "('u, 'w) worker_env \<Rightarrow> request_info \<Rightarrow> input_context \<Rightarrow> ('w, worker_reply) result_flow" where
  "build_reply_from_request_files env request context =
     do { change (note_item_count context);
          waited \<leftarrow> wait_for_request_completion env (rs_timeout request);
          case waited of
            Inr completion \<Rightarrow>
              ask (session_ended env completion) (\<lambda>session_end.
                do { only_if session_end (note_session_end env True);
                     reply \<leftarrow> State (completed_reply_files context completion session_end);
                     ok reply })
          | Inl (TimeoutError _) \<Rightarrow>
              ask (timed_out_worker_runs env) (\<lambda>_.
                do { settle \<leftarrow> see should_settle_output_after_timeout;
                     only_if settle (meanwhile env);
                     change (note_timed_out request);
                     now \<leftarrow> now_ms env;
                     reply \<leftarrow> State (timed_out_reply_files context (now - rs_started_at request));
                     ok reply })
          | Inl err \<Rightarrow>
              do { reply \<leftarrow> State (build_reply_from_worker_error_files err context);
                   reset_preserving_detached_prefix_item_count env;
                   ok reply } }"

text \<open>The first page of a reply, with the pager activated when more follows.\<close>

definition page_reply ::
  "worker_content list \<Rightarrow> bool \<Rightarrow> snapshot_with_images \<Rightarrow> 'w manager \<Rightarrow>
   worker_content list \<times> 'w manager" where
  "page_reply contents is_error snapshot m =
     (let (contents, p) =
            maybe_activate_and_append_footer (mg_pager m) contents (si_pages_left snapshot) is_error
              (si_buffer snapshot) (si_last_range snapshot)
      in (contents, m\<lparr>mg_pager := p\<rparr>))"

definition complete_pager_reply ::
  "worker_content list \<Rightarrow> bool \<Rightarrow> completion_info \<Rightarrow> bool \<Rightarrow> 'w manager \<Rightarrow>
   worker_reply \<times> 'w manager" where
  "complete_pager_reply contents is_error completion session_end m =
     (let built =
            build_completed_reply True contents is_error completion session_end
              (Pager (is_active (mg_pager m))) (mg_backend m);
          m1 = remember_prompt (bc_prompt_to_remember built) m
      in (bc_reply built,
          case bc_pager_prompt built of
            Some prompt \<Rightarrow> m1\<lparr>mg_pager_prompt := Some prompt\<rparr>
          | None \<Rightarrow> m1))"

definition completed_reply_pager ::
  "pager_lib \<Rightarrow> input_context \<Rightarrow> nat \<Rightarrow> completion_info \<Rightarrow> bool \<Rightarrow> 'w manager \<Rightarrow>
   worker_reply \<times> 'w manager" where
  "completed_reply_pager lib context page completion session_end m =
     (let m1 = m\<lparr>mg_out := seal_utf8_tails (mg_out m)\<rparr>;
          (completed, m2) =
            on_output (snapshot_after_completion lib (ic_start_offset context) (output_end m1)
                         (page - ic_prefix_bytes context)) m1;
          is_error = (ic_prefix_is_error context \<or> cs_saw_stderr completed);
          (contents, m3) =
            page_reply (prefix_contents context @ si_contents (cs_snapshot completed)) is_error
              (cs_snapshot completed) m2;
          (reply, m4) = complete_pager_reply contents is_error completion session_end m3
      in (reply, m4\<lparr>mg_guardrail_busy := False\<rparr>))"

definition timed_out_reply_pager ::
  "pager_lib \<Rightarrow> input_context \<Rightarrow> nat \<Rightarrow> nat \<Rightarrow> 'w manager \<Rightarrow> worker_reply \<times> 'w manager" where
  "timed_out_reply_pager lib context page elapsed m =
     (let m1 = m\<lparr>mg_out := seal_utf8_tails_blocking_visible_output (mg_out m)\<rparr>;
          end_offset = output_end m1;
          (snapshot, m2) =
            on_output (snapshot_page_with_images lib end_offset (page - ic_prefix_bytes context)) m1;
          is_error = (ic_prefix_is_error context \<or> saw_stderr (ic_start_offset context) end_offset m2);
          (contents, m3) =
            page_reply
              (prefix_contents context @ si_contents snapshot @ [timeout_status_content elapsed])
              is_error snapshot m2
      in (build_timeout_reply contents is_error, m3))"

definition build_reply_from_request_pager ::
  "('u, 'w) worker_env \<Rightarrow> request_info \<Rightarrow> input_context \<Rightarrow> nat \<Rightarrow> ('w, worker_reply) result_flow"
where
  "build_reply_from_request_pager env request context page =
     do { change (note_item_count context);
          waited \<leftarrow> wait_for_request_completion env (rs_timeout request);
          case waited of
            Inr completion \<Rightarrow>
              ask (session_ended env completion) (\<lambda>session_end.
                do { only_if session_end (note_session_end env True);
                     reply \<leftarrow> State (completed_reply_pager (we_lib env) context page completion session_end);
                     ok reply })
          | Inl (TimeoutError _) \<Rightarrow>
              ask (timed_out_worker_runs env) (\<lambda>_.
                do { change (note_timed_out request);
                     now \<leftarrow> now_ms env;
                     reply \<leftarrow> State (timed_out_reply_pager (we_lib env) context page
                                      (now - rs_started_at request));
                     ok reply })
          | Inl err \<Rightarrow>
              do { reply \<leftarrow> State (build_reply_from_worker_error_pager (we_lib env) err context page);
                   preserve_pager \<leftarrow> see (\<lambda>m. is_active (mg_pager m));
                   reset_with_pager_preserving_detached_prefix_item_count env preserve_pager;
                   ok reply } }"

section \<open>Polls of a timed-out request\<close>

definition pending_worker_exited :: "('u, 'w) worker_env \<Rightarrow> ('w, bool) result_flow" where
  "pending_worker_exited env =
     do { had_process \<leftarrow> see (\<lambda>m. mg_process m \<noteq> None);
          if had_process then ask (process_running env) (\<lambda>running. ok (\<not> running)) else ok True }"

definition observe_active_pending_request ::
  "('u, 'w) worker_env \<Rightarrow> nat \<Rightarrow> nat \<Rightarrow> ('w, pending_poll_state) result_flow" where
  "observe_active_pending_request env timeout poll_start =
     do { waited \<leftarrow> wait_for_request_completion env timeout;
          case waited of
            Inr info \<Rightarrow>
              do { change clear_pending_request_state;
                   only_if (ci_session_end_seen info) (note_session_end env True);
                   ok (PollCompleted info (ci_session_end_seen info) True) }
          | Inl (TimeoutError _) \<Rightarrow>
              ask (pending_worker_exited env) (\<lambda>exited.
                if exited
                then
                  do { note_session_end env True;
                       change clear_pending_request_state;
                       ok (PollCompleted (completion_info_empty\<lparr>ci_session_end_seen := True\<rparr>) True True) }
                else
                  do { started_at \<leftarrow> see mg_pending_request_started_at;
                       now \<leftarrow> now_ms env;
                       ok (PollTimedOut (now - unwrap_or started_at poll_start)) })
          | Inl err \<Rightarrow> fail err }"

definition observe_pending_poll_state ::
  "('u, 'w) worker_env \<Rightarrow> nat \<Rightarrow> nat \<Rightarrow> ('w, pending_poll_state) result_flow" where
  "observe_pending_poll_state env timeout poll_start =
     do { pending \<leftarrow> see mg_pending_request;
          if pending then observe_active_pending_request env timeout poll_start
          else
            do { settled \<leftarrow> see mg_settled_pending_completion;
                 case settled of
                   Some info \<Rightarrow>
                     do { change (\<lambda>m. m\<lparr>mg_settled_pending_completion := None\<rparr>);
                          only_if (ci_session_end_seen info) (note_session_end env False);
                          ok (PollCompleted info (ci_session_end_seen info) True) }
                 | None \<Rightarrow> ok PollNoCompletion } }"

definition poll_reply_files :: "pending_poll_state \<Rightarrow> 'w manager \<Rightarrow> worker_reply \<times> 'w manager" where
  "poll_reply_files state m =
     (let (completion, session_end, consumed_completion, timed_out) = poll_parts state;
          (formatted, m1) =
            (if timed_out \<noteq> None then drain_formatted_output m
             else drain_completed_formatted_output session_end m);
          is_error = fmt_saw_stderr formatted
      in case timed_out of
           Some elapsed \<Rightarrow>
             (build_timeout_reply (fmt_contents formatted @ [timeout_status_content elapsed]) is_error, m1)
         | None \<Rightarrow>
             (let built =
                    build_completed_reply True (fmt_contents formatted) is_error completion
                      session_end (Files True) (mg_backend m1)
              in (bc_reply built, remember_prompt (bc_prompt_to_remember built) m1)))"

definition poll_pending_output_files ::
  "('u, 'w) worker_env \<Rightarrow> nat \<Rightarrow> ('w, worker_reply) result_flow" where
  "poll_pending_output_files env timeout =
     do { poll_start \<leftarrow> now_ms env;
          error \<leftarrow> see mg_settled_pending_error;
          case error of
            Some err \<Rightarrow>
              do { change (\<lambda>m. m\<lparr>mg_settled_pending_error := None\<rparr>);
                   reset_preserving_detached_prefix_item_count env;
                   fail err }
          | None \<Rightarrow>
              ask (observe_pending_poll_state env timeout poll_start) (\<lambda>state.
                do { let (_, _, consumed_completion, timed_out) = poll_parts state;
                     only_if (timed_out = None \<and> consumed_completion) (meanwhile env);
                     reply \<leftarrow> State (poll_reply_files state);
                     ok reply }) }"

definition poll_reply_pager ::
  "pager_lib \<Rightarrow> nat \<Rightarrow> nat \<Rightarrow> nat \<Rightarrow> pending_poll_state \<Rightarrow> 'w manager \<Rightarrow>
   worker_reply \<times> 'w manager" where
  "poll_reply_pager lib page start_offset end_offset state m =
     (let observed_completion = (state \<noteq> PollNoCompletion);
          (completion, session_end, _, timed_out) = poll_parts state;
          m1 = (if timed_out \<noteq> None
                then m\<lparr>mg_out := seal_utf8_tails_blocking_visible_output (mg_out m)\<rparr>
                else if observed_completion then m\<lparr>mg_out := seal_utf8_tails (mg_out m)\<rparr> else m);
          end_offset = (if observed_completion then output_end m1 else end_offset);
          end_offset = (if end_offset < start_offset then start_offset else end_offset);
          stderr = saw_stderr start_offset end_offset m1;
          ((is_error, snapshot), m2) =
            (if observed_completion \<and> timed_out = None
             then
               (let (completed, m2) =
                      on_output (snapshot_after_completion lib start_offset end_offset page) m1
                in ((cs_saw_stderr completed, cs_snapshot completed), m2))
             else
               (let (snapshot, m2) =
                      on_output
                        (if timed_out \<noteq> None
                         then snapshot_pending_timeout_page_with_images lib end_offset page
                         else snapshot_page_with_images lib end_offset page) m1
                in ((stderr, snapshot), m2)));
          contents =
            si_contents snapshot @
            (case timed_out of Some elapsed \<Rightarrow> [timeout_status_content elapsed] | None \<Rightarrow> []);
          (contents, m3) = page_reply contents is_error snapshot m2
      in if timed_out \<noteq> None then (build_timeout_reply contents is_error, m3)
         else complete_pager_reply contents is_error completion session_end m3)"

definition poll_pending_output_pager ::
  "('u, 'w) worker_env \<Rightarrow> nat \<Rightarrow> nat \<Rightarrow> ('w, worker_reply) result_flow" where
  "poll_pending_output_pager env timeout page =
     do { poll_start \<leftarrow> now_ms env;
          start_offset \<leftarrow> see (\<lambda>m. unwrap_or (os_offset (mg_out m)) 0);
          end_offset \<leftarrow> see output_end;
          error \<leftarrow> see mg_settled_pending_error;
          case error of
            Some err \<Rightarrow>
              do { change (\<lambda>m. m\<lparr>mg_settled_pending_error := None\<rparr>);
                   preserve_pager \<leftarrow> see (\<lambda>m. is_active (mg_pager m));
                   reset_with_pager_preserving_detached_prefix_item_count env preserve_pager;
                   fail err }
          | None \<Rightarrow>
              ask (observe_pending_poll_state env timeout poll_start) (\<lambda>state.
                do { reply \<leftarrow> State (poll_reply_pager (we_lib env) page start_offset end_offset state);
                     ok reply }) }"

section \<open>Interrupts\<close>

datatype write_stdin_mode = ModeFiles | ModePager

definition interrupt_worker_if_running ::
  "('u, 'w) worker_env \<Rightarrow> ('w, nat option) result_flow" where
  "interrupt_worker_if_running env =
     do { had_process \<leftarrow> see (\<lambda>m. mg_process m \<noteq> None);
          ask (if had_process then process_running env else ok False) (\<lambda>running.
            if \<not> running then ok None
            else
              do { interrupt_sent_at \<leftarrow> now_ms env;
                   on_ipc (\<lambda>ib. ((), note_interrupt_sent ib));
                   interrupted \<leftarrow> do { meanwhile env; world (we_interrupt env) };
                   case interrupted of
                     Inl err \<Rightarrow> ask (reset env) (\<lambda>_. fail err)
                   | Inr _ \<Rightarrow> ok (Some interrupt_sent_at) }) }"

record interrupt_prompt_wait =
  iw_timed_out :: bool
  iw_prompt :: "string option"

definition wait_for_interrupt_prompt ::
  "('u, 'w) worker_env \<Rightarrow> nat \<Rightarrow> nat option \<Rightarrow> ('w, interrupt_prompt_wait) result_flow" where
  "wait_for_interrupt_prompt env timeout interrupt_sent_at =
     do { readiness \<leftarrow> wait_ipc env (we_wait_readiness env timeout interrupt_sent_at);
          case readiness of
            None \<Rightarrow> ok \<lparr>iw_timed_out = False, iw_prompt = None\<rparr>
          | Some (Inr (ReadinessInputWait prompt)) \<Rightarrow> ok \<lparr>iw_timed_out = False, iw_prompt = Some prompt\<rparr>
          | Some (Inr ReadinessReady) \<Rightarrow> ok \<lparr>iw_timed_out = False, iw_prompt = None\<rparr>
          | Some (Inl WaitTimeout) \<Rightarrow> ok \<lparr>iw_timed_out = True, iw_prompt = None\<rparr>
          | Some (Inl WaitSessionEnd) \<Rightarrow>
              do { note_session_end env True; ok \<lparr>iw_timed_out = False, iw_prompt = None\<rparr> }
          | Some (Inl WaitDisconnected) \<Rightarrow>
              fail (ProtocolError ''worker IPC disconnected while waiting for interrupt readiness'')
          | Some (Inl (WaitProtocol message)) \<Rightarrow> fail (ProtocolError message) }"

definition interrupt_prompts ::
  "interrupt_prompt_wait \<Rightarrow> 'w manager \<Rightarrow> string option \<times> string option" where
  "interrupt_prompts wait m =
     (let raw_prompt = (if mg_session_end_seen m \<or> iw_timed_out wait then None else iw_prompt wait)
      in (normalize_prompt raw_prompt,
          if \<not> mg_session_end_seen m \<and> \<not> iw_timed_out wait then normalize_prompt raw_prompt
          else raw_prompt))"

definition build_interrupt_reply_files ::
  "interrupt_prompt_wait \<Rightarrow> nat \<Rightarrow> 'w manager \<Rightarrow> worker_reply \<times> 'w manager" where
  "build_interrupt_reply_files wait timeout m =
     (let (formatted, m1) = drain_formatted_output m;
          contents =
            fmt_contents formatted @ (if iw_timed_out wait then [timeout_status_content timeout] else []);
          session_end = mg_session_end_seen m1;
          (resolved_prompt, prompt_to_remember) = interrupt_prompts wait m1;
          m2 = remember_prompt prompt_to_remember m1;
          contents =
            (if \<not> session_end \<and> \<not> iw_timed_out wait
             then reconcile_trailing_completion_prompt True (mg_backend m2) resolved_prompt contents
             else contents)
      in (\<lparr>reply_contents = contents, reply_is_error = fmt_saw_stderr formatted,
           reply_error_code = (if iw_timed_out wait then Some Timeout else None),
           reply_prompt = (if \<not> session_end then resolved_prompt else None),
           reply_prompt_variants = None\<rparr>, m2))"

definition build_interrupt_reply_pager ::
  "pager_lib \<Rightarrow> interrupt_prompt_wait \<Rightarrow> nat \<Rightarrow> nat \<Rightarrow> 'w manager \<Rightarrow> worker_reply \<times> 'w manager"
where
  "build_interrupt_reply_pager lib wait timeout page m =
     (let m1 = (if \<not> iw_timed_out wait then m\<lparr>mg_out := seal_utf8_tails (mg_out m)\<rparr> else m);
          start_offset = unwrap_or (os_offset (mg_out m1)) 0;
          end_offset = output_end m1;
          end_offset = (if end_offset < start_offset then start_offset else end_offset);
          is_error = saw_stderr start_offset end_offset m1;
          (snapshot, m2) = on_output (snapshot_page_with_images lib end_offset page) m1;
          contents =
            si_contents snapshot @ (if iw_timed_out wait then [timeout_status_content timeout] else []);
          (contents, m3) = page_reply contents is_error snapshot m2;
          session_end = mg_session_end_seen m3;
          (resolved_prompt, prompt_to_remember) = interrupt_prompts wait m3;
          m4 = remember_prompt prompt_to_remember m3;
          pager_active = is_active (mg_pager m4);
          m5 = (if pager_active \<and> \<not> session_end
                then m4\<lparr>mg_pager_prompt := Some (from_prompt resolved_prompt)\<rparr> else m4);
          contents =
            (if \<not> session_end \<and> \<not> iw_timed_out wait \<and> \<not> pager_active
             then reconcile_trailing_completion_prompt True (mg_backend m5) resolved_prompt contents
             else contents)
      in (\<lparr>reply_contents = contents, reply_is_error = is_error,
           reply_error_code = (if iw_timed_out wait then Some Timeout else None),
           reply_prompt = (if \<not> pager_active \<and> \<not> session_end then resolved_prompt else None),
           reply_prompt_variants = None\<rparr>, m5))"

definition poll_for_mode ::
  "('u, 'w) worker_env \<Rightarrow> write_stdin_mode \<Rightarrow> nat \<Rightarrow> nat \<Rightarrow> ('w, worker_reply) result_flow" where
  "poll_for_mode env mode timeout page =
     (case mode of
        ModeFiles \<Rightarrow> poll_pending_output_files env timeout
      | ModePager \<Rightarrow> poll_pending_output_pager env timeout page)"

definition drain_existing_completion_after_interrupt ::
  "('u, 'w) worker_env \<Rightarrow> write_stdin_mode \<Rightarrow> nat \<Rightarrow> nat \<Rightarrow> 'u option \<Rightarrow> bool \<Rightarrow>
   ('w, worker_reply) result_flow" where
  "drain_existing_completion_after_interrupt env mode page timeout update suppress_session_end_reset =
     ask (poll_for_mode env mode timeout page) (\<lambda>reply.
       do { pager_active \<leftarrow> see (\<lambda>m. is_active (mg_pager m));
            b \<leftarrow> see mg_backend;
            let reply =
              (if mode = ModePager \<and> pager_active then reply
               else reply\<lparr>reply_contents :=
                      reconcile_polled_completion_prompt True b (reply_prompt reply)
                        (reply_contents reply)\<rparr>);
            ask (maybe_reset_after_session_end_with_options env update suppress_session_end_reset False)
              (\<lambda>_. ok reply) })"

definition interrupt_for_mode ::
  "('u, 'w) worker_env \<Rightarrow> write_stdin_mode \<Rightarrow> nat \<Rightarrow> 'u option \<Rightarrow> bool \<Rightarrow>
   ('w, worker_reply) result_flow" where
  "interrupt_for_mode env mode timeout update suppress_session_end_reset =
     do { drains_pending_request \<leftarrow> see mg_pending_request;
          drains_settled_completion \<leftarrow>
            see (\<lambda>m. \<not> mg_pending_request m \<and> mg_settled_pending_completion m \<noteq> None);
          ask (if drains_settled_completion then ok None else interrupt_worker_if_running env)
            (\<lambda>interrupt_sent_at.
               let page = resolve_page_bytes env None
               in if drains_pending_request \<or> drains_settled_completion
                  then drain_existing_completion_after_interrupt env mode page timeout update
                         suppress_session_end_reset
                  else
                    ask (wait_for_interrupt_prompt env timeout interrupt_sent_at) (\<lambda>prompt_wait.
                      do { reply \<leftarrow>
                             State (case mode of
                               ModeFiles \<Rightarrow> build_interrupt_reply_files prompt_wait timeout
                             | ModePager \<Rightarrow> build_interrupt_reply_pager (we_lib env) prompt_wait timeout page);
                           ask (maybe_reset_after_session_end_with_options env update
                                  suppress_session_end_reset False)
                             (\<lambda>_. ok reply) })) }"

section \<open>Restarts\<close>

text \<open>What the old worker had written when it was shut down, or where its output ended.\<close>

datatype restart_shutdown_snapshot =
    SnapshotFiles "formatted_pending_output option"
  | SnapshotPager nat

definition shutdown_existing_worker_for_restart ::
  "('u, 'w) worker_env \<Rightarrow> write_stdin_mode \<Rightarrow> ('w, restart_shutdown_snapshot) flow" where
  "shutdown_existing_worker_for_restart env mode =
     (case mode of
        ModeFiles \<Rightarrow>
          do { had_process \<leftarrow> see (\<lambda>m. mg_process m \<noteq> None);
               drop_process env;
               if had_process
               then do { formatted \<leftarrow> State drain_sealed_formatted_output;
                         State_Monad.return (SnapshotFiles (Some formatted)) }
               else State_Monad.return (SnapshotFiles None) }
      | ModePager \<Rightarrow>
          do { change (\<lambda>m. m\<lparr>mg_out := seal_utf8_tails (mg_out m)\<rparr>);
               drop_process env;
               change (\<lambda>m. m\<lparr>mg_out := seal_utf8_tails (mg_out m)\<rparr>);
               end_offset \<leftarrow> see output_end;
               State_Monad.return (SnapshotPager end_offset) })"

definition build_restart_reply ::
  "pager_lib \<Rightarrow> nat \<Rightarrow> restart_shutdown_snapshot \<Rightarrow> 'w manager \<Rightarrow> worker_reply \<times> 'w manager" where
  "build_restart_reply lib page snapshot m =
     (case snapshot of
        SnapshotFiles (Some formatted) \<Rightarrow>
          (build_session_reset_reply_files_from_formatted ''new session started'' formatted, m)
      | SnapshotFiles None \<Rightarrow> build_session_reset_reply_files ''new session started'' m
      | SnapshotPager end_offset \<Rightarrow>
          (let (reply, m1) =
                 build_session_reset_reply_pager_to_offset lib page ''new session started'' end_offset m
           in (reply, m1\<lparr>mg_out := buffer_advance_offset_to end_offset (mg_out m1)\<rparr>)))"

definition finish_restart_for_mode :: "write_stdin_mode \<Rightarrow> 'w manager \<Rightarrow> 'w manager" where
  "finish_restart_for_mode mode m =
     (let m1 = clear_preserved_prefixes m;
          m2 =
            (case mode of
               ModeFiles \<Rightarrow> reset_output_state_files True m1
             | ModePager \<Rightarrow>
                 (let preserve_pager = is_active (mg_pager m1);
                      m2 = reset_output_state_pager True preserve_pager m1
                  in if preserve_pager then m2\<lparr>mg_pager_prompt := Some PromptFree\<rparr> else m2))
      in note_respawn_during_write m2)"

definition restart_for_mode ::
  "('u, 'w) worker_env \<Rightarrow> write_stdin_mode \<Rightarrow> ('w, worker_reply) result_flow" where
  "restart_for_mode env mode =
     ask (require_inherited_sandbox_state env) (\<lambda>_.
       do { change maybe_emit_pending_server_notice;
            snapshot \<leftarrow> shutdown_existing_worker_for_restart env mode;
            change (\<lambda>m. m\<lparr>mg_guardrail_busy := False\<rparr>);
            only_if (mode = ModePager) (change (\<lambda>m. m\<lparr>mg_pager := None\<rparr>));
            reply \<leftarrow> State (build_restart_reply (we_lib env) (resolve_page_bytes env None) snapshot);
            change (finish_restart_for_mode mode);
            ok reply })"

section \<open>Before an input is sent\<close>

datatype write_preflight_outcome = Continue | PreflightReply worker_reply

record 'u write_input =
  wi_mode :: write_stdin_mode
  wi_text :: string
  wi_worker_timeout :: nat
  wi_page_bytes :: nat
  wi_options :: "'u write_stdin_options"

definition control_only_interrupt_requires_spawn ::
  "('u, 'w) worker_env \<Rightarrow> ('w, bool) result_flow" where
  "control_only_interrupt_requires_spawn env =
     do { had_process \<leftarrow> see (\<lambda>m. mg_process m \<noteq> None);
          if had_process then ask (process_running env) (\<lambda>running. ok (\<not> running)) else ok True }"

definition empty_input_requires_spawn :: "('u, 'w) worker_env \<Rightarrow> ('w, bool) result_flow" where
  "empty_input_requires_spawn env =
     do { existing \<leftarrow> see empty_input_uses_existing_state;
          if existing then ok False else control_only_interrupt_requires_spawn env }"

definition nonexecuting_follow_up_uses_existing_state ::
  "('u, 'w) worker_env \<Rightarrow> string \<Rightarrow> ('w, bool) result_flow" where
  "nonexecuting_follow_up_uses_existing_state env txt =
     (case split_write_stdin_control_prefix txt of
        Some (Interrupt, remaining) \<Rightarrow>
          if remaining = [] then ok True
          else
            do { uses_pager \<leftarrow> see (local_pager_follow_up_uses_existing_state remaining);
                 if uses_pager
                 then ask (control_only_interrupt_requires_spawn env) (\<lambda>required. ok (\<not> required))
                 else ok False }
      | Some (Restart, _) \<Rightarrow> ok False
      | None \<Rightarrow> do { uses_pager \<leftarrow> see (local_pager_follow_up_uses_existing_state txt); ok uses_pager })"

definition finish_reply ::
  "('u, 'w) worker_env \<Rightarrow> 'u option \<Rightarrow> bool \<Rightarrow> bool \<Rightarrow> worker_reply \<Rightarrow>
   ('w, write_preflight_outcome) result_flow" where
  "finish_reply env update suppress_session_end_reset pending_state_prechecked reply =
     ask (maybe_reset_after_session_end_with_options env update suppress_session_end_reset
            pending_state_prechecked)
       (\<lambda>_. ok (PreflightReply reply))"

definition finish_default_preflight_reply ::
  "('u, 'w) worker_env \<Rightarrow> worker_reply \<Rightarrow> ('w, write_preflight_outcome) result_flow" where
  "finish_default_preflight_reply env reply = finish_reply env None False False reply"

definition finish_caller_preflight_reply ::
  "('u, 'w) worker_env \<Rightarrow> 'u write_input \<Rightarrow> worker_reply \<Rightarrow>
   ('w, write_preflight_outcome) result_flow" where
  "finish_caller_preflight_reply env input reply =
     (let options = wi_options input
      in finish_reply env (wo_deferred_sandbox_state_update options)
           (wo_suppress_session_end_reset options) (wo_pending_state_prechecked options) reply)"

definition finish_pager_local_reply ::
  "('u, 'w) worker_env \<Rightarrow> worker_reply \<Rightarrow> ('w, write_preflight_outcome) result_flow" where
  "finish_pager_local_reply env reply = finish_reply env None True False reply"

definition worker_error_reply ::
  "pager_lib \<Rightarrow> write_stdin_mode \<Rightarrow> nat \<Rightarrow> worker_error \<Rightarrow> 'w manager \<Rightarrow> worker_reply \<times> 'w manager"
where
  "worker_error_reply lib mode page err m =
     (case mode of
        ModeFiles \<Rightarrow>
          (let (context, m1) = prepare_input_context_files m
           in build_reply_from_worker_error_files err context m1)
      | ModePager \<Rightarrow>
          (let (context, m1) = prepare_input_context_pager m
           in build_reply_from_worker_error_pager lib err context page m1))"

definition reset_after_worker_error ::
  "('u, 'w) worker_env \<Rightarrow> write_stdin_mode \<Rightarrow> ('w, unit) flow" where
  "reset_after_worker_error env mode =
     (case mode of
        ModeFiles \<Rightarrow>
          do { reset_preserving_detached_prefix_item_count env; State_Monad.return () }
      | ModePager \<Rightarrow>
          do { preserve_pager \<leftarrow> see (\<lambda>m. is_active (mg_pager m));
               reset_with_pager_preserving_detached_prefix_item_count env preserve_pager;
               State_Monad.return () })"

text \<open>
  The steps before an input, each of which may already answer it. An event of a busy worker stays
  in its slot when notices are emitted, so the \<^verbatim>\<open>expect\<close> of its taking cannot fail.
\<close>

definition guardrail_busy_abort ::
  "('u, 'w) worker_env \<Rightarrow> 'u write_input \<Rightarrow> ('w, write_preflight_outcome option) result_flow" where
  "guardrail_busy_abort env input =
     do { busy \<leftarrow> see guardrail_busy_event_pending;
          if \<not> busy then ok None
          else
            do { change maybe_emit_guardrail_notice;
                 event \<leftarrow> see mg_guardrail_event;
                 change (\<lambda>m. m\<lparr>mg_guardrail_event := None, mg_guardrail_busy := False\<rparr>);
                 case event of
                   None \<Rightarrow> ok None
                 | Some event \<Rightarrow>
                     do { reply \<leftarrow> State (worker_error_reply (we_lib env) (wi_mode input)
                            (wi_page_bytes input) (GuardrailError (ge_message event)));
                          reset_after_worker_error env (wi_mode input);
                          ask (finish_default_preflight_reply env reply) (\<lambda>outcome. ok (Some outcome)) } } }"

definition handle_nonempty_pager_command ::
  "('u, 'w) worker_env \<Rightarrow> 'u write_input \<Rightarrow> ('w, write_preflight_outcome option) result_flow" where
  "handle_nonempty_pager_command env input =
     do { active \<leftarrow> see (\<lambda>m. is_active (mg_pager m));
          if wi_mode input \<noteq> ModePager \<or> wi_text input = [] \<or> \<not> active then ok None
          else
            (let trimmed = trim (wi_text input)
             in if trimmed = [] \<or> starts_with trimmed '':''
                then
                  do { r \<leftarrow> State (handle_pager_command (we_lib env) (we_page_chars env)
                              (we_page_bytes env) (wi_text input));
                       case r of
                         None \<Rightarrow> ok None
                       | Some reply \<Rightarrow>
                           ask (finish_pager_local_reply env reply) (\<lambda>outcome. ok (Some outcome)) }
                else
                  do { change (\<lambda>m. m\<lparr>mg_pager := dismiss (mg_pager m), mg_pager_prompt := None\<rparr>);
                       ok None }) }"

definition empty_input_pager_command ::
  "('u, 'w) worker_env \<Rightarrow> 'u write_input \<Rightarrow> ('w, write_preflight_outcome option) result_flow" where
  "empty_input_pager_command env input =
     do { active \<leftarrow> see (\<lambda>m. is_active (mg_pager m));
          if wi_mode input = ModePager \<and> active
          then
            do { r \<leftarrow> State (handle_pager_command (we_lib env) (we_page_chars env) (we_page_bytes env)
                        (wi_text input));
                 case r of
                   None \<Rightarrow> ok None
                 | Some reply \<Rightarrow>
                     ask (finish_pager_local_reply env reply) (\<lambda>outcome. ok (Some outcome)) }
          else ok None }"

definition emit_guardrail_notice_and_resolve_timeout_marker ::
  "('u, 'w) worker_env \<Rightarrow> 'u write_input \<Rightarrow> ('w, unit) flow" where
  "emit_guardrail_notice_and_resolve_timeout_marker env input =
     do { change maybe_emit_guardrail_notice;
          only_if (\<not> wo_pending_state_prechecked (wi_options input))
            (resolve_timeout_marker_with_wait env 0) }"

definition empty_input_has_pending_output :: "write_stdin_mode \<Rightarrow> 'w manager \<Rightarrow> bool" where
  "empty_input_has_pending_output mode m \<longleftrightarrow>
     mg_pending_request m \<or>
     has_pending_output (case mode of ModeFiles \<Rightarrow> tape m | ModePager \<Rightarrow> mg_out m) \<or>
     mg_settled_pending_completion m \<noteq> None"

definition empty_input_pending_poll ::
  "('u, 'w) worker_env \<Rightarrow> 'u write_input \<Rightarrow> ('w, write_preflight_outcome option) result_flow" where
  "empty_input_pending_poll env input =
     do { pending \<leftarrow> see (empty_input_has_pending_output (wi_mode input));
          if \<not> pending then ok None
          else
            ask (poll_for_mode env (wi_mode input) (wi_worker_timeout input) (wi_page_bytes input)) (\<lambda>reply.
              ask (finish_caller_preflight_reply env input reply) (\<lambda>outcome. ok (Some outcome))) }"

definition reject_prechecked_empty_follow_up_without_current_state ::
  "('u, 'w) worker_env \<Rightarrow> 'u write_input \<Rightarrow> ('w, unit) result_flow" where
  "reject_prechecked_empty_follow_up_without_current_state env input =
     (if \<not> wo_pending_state_prechecked (wi_options input) then ok ()
      else
        ask (control_only_interrupt_requires_spawn env) (\<lambda>required.
          if required then fail prechecked_follow_up_requires_meta_error else ok ()))"

definition ensure_process_or_error_reply ::
  "('u, 'w) worker_env \<Rightarrow> 'u write_input \<Rightarrow> ('w, write_preflight_outcome option) result_flow" where
  "ensure_process_or_error_reply env input =
     do { r \<leftarrow> ensure_process env;
          case r of
            Inr _ \<Rightarrow> ok None
          | Inl err \<Rightarrow>
              do { reply \<leftarrow> State (worker_error_reply (we_lib env) (wi_mode input) (wi_page_bytes input) err);
                   ask (finish_default_preflight_reply env reply) (\<lambda>outcome. ok (Some outcome)) } }"

definition resolve_pending_request_before_busy_reply ::
  "('u, 'w) worker_env \<Rightarrow> 'u write_input \<Rightarrow> ('w, unit) flow" where
  "resolve_pending_request_before_busy_reply env input =
     do { pending \<leftarrow> see mg_pending_request;
          only_if (\<not> wo_pending_state_prechecked (wi_options input) \<and> pending)
            (resolve_timeout_marker_with_wait env 25) }"

definition pending_request_busy_follow_up ::
  "('u, 'w) worker_env \<Rightarrow> 'u write_input \<Rightarrow> ('w, write_preflight_outcome option) result_flow" where
  "pending_request_busy_follow_up env input =
     do { pending \<leftarrow> see mg_pending_request;
          if \<not> pending then ok None
          else
            ask (poll_for_mode env (wi_mode input) (wi_worker_timeout input) (wi_page_bytes input)) (\<lambda>reply.
              do { change (\<lambda>m. m\<lparr>mg_last_detached_prefix_item_count := length (reply_contents reply)\<rparr>);
                   ask (finish_caller_preflight_reply env input (mark_busy_follow_up_reply reply))
                     (\<lambda>outcome. ok (Some outcome)) }) }"

definition answered ::
  "('w, write_preflight_outcome option) result_flow \<Rightarrow> ('w, write_preflight_outcome) result_flow \<Rightarrow>
   ('w, write_preflight_outcome) result_flow" where
  "answered f rest = ask f (\<lambda>r. case r of Some outcome \<Rightarrow> ok outcome | None \<Rightarrow> rest)"

definition idle_reply ::
  "('u, 'w) worker_env \<Rightarrow> 'u write_input \<Rightarrow> ('w, write_preflight_outcome) result_flow" where
  "idle_reply env input =
     ask (reject_prechecked_empty_follow_up_without_current_state env input) (\<lambda>_.
       answered (ensure_process_or_error_reply env input)
         (do { reply \<leftarrow> State build_idle_poll_reply; finish_default_preflight_reply env reply }))"

definition busy_or_continue ::
  "('u, 'w) worker_env \<Rightarrow> 'u write_input \<Rightarrow> ('w, write_preflight_outcome) result_flow" where
  "busy_or_continue env input =
     do { resolve_pending_request_before_busy_reply env input;
          answered (pending_request_busy_follow_up env input) (ok Continue) }"

definition write_preflight_files ::
  "('u, 'w) worker_env \<Rightarrow> 'u write_input \<Rightarrow> ('w, write_preflight_outcome) result_flow" where
  "write_preflight_files env input =
     do { emit_guardrail_notice_and_resolve_timeout_marker env input;
          if wi_text input = []
          then answered (empty_input_pending_poll env input) (idle_reply env input)
          else busy_or_continue env input }"

definition write_preflight_pager ::
  "('u, 'w) worker_env \<Rightarrow> 'u write_input \<Rightarrow> ('w, write_preflight_outcome) result_flow" where
  "write_preflight_pager env input =
     (if wi_text input = []
      then
        do { change (\<lambda>m. m\<lparr>mg_out := start_capture (mg_out m)\<rparr>);
             emit_guardrail_notice_and_resolve_timeout_marker env input;
             answered (empty_input_pending_poll env input)
               (answered (empty_input_pager_command env input) (idle_reply env input)) }
      else
        answered (ensure_process_or_error_reply env input)
          (do { change (\<lambda>m. m\<lparr>mg_out := start_capture (mg_out m)\<rparr>);
                emit_guardrail_notice_and_resolve_timeout_marker env input;
                busy_or_continue env input }))"

definition write_preflight ::
  "('u, 'w) worker_env \<Rightarrow> 'u write_input \<Rightarrow> ('w, write_preflight_outcome) result_flow" where
  "write_preflight env input =
     answered (guardrail_busy_abort env input)
       (answered (handle_nonempty_pager_command env input)
         (case wi_mode input of
            ModeFiles \<Rightarrow> write_preflight_files env input
          | ModePager \<Rightarrow> write_preflight_pager env input))"

section \<open>Sending an input\<close>

definition prepare_write_dispatch_input_context ::
  "write_stdin_mode \<Rightarrow> 'w manager \<Rightarrow> input_context \<times> 'w manager" where
  "prepare_write_dispatch_input_context mode m =
     (case mode of
        ModeFiles \<Rightarrow> prepare_input_context_files m
      | ModePager \<Rightarrow> prepare_input_context_pager m)"

definition error_reply_from_context ::
  "pager_lib \<Rightarrow> write_stdin_mode \<Rightarrow> nat \<Rightarrow> worker_error \<Rightarrow> input_context \<Rightarrow> 'w manager \<Rightarrow>
   worker_reply \<times> 'w manager" where
  "error_reply_from_context lib mode page err context m =
     (case mode of
        ModeFiles \<Rightarrow> build_reply_from_worker_error_files err context m
      | ModePager \<Rightarrow> build_reply_from_worker_error_pager lib err context page m)"

definition finish_dispatch ::
  "('u, 'w) worker_env \<Rightarrow> worker_reply \<Rightarrow> ('w, worker_reply) result_flow" where
  "finish_dispatch env reply =
     ask (maybe_reset_after_session_end_with_options env None False False) (\<lambda>_. ok reply)"

definition build_write_dispatch_request_reply ::
  "('u, 'w) worker_env \<Rightarrow> request_info \<Rightarrow> input_context \<Rightarrow> write_stdin_mode \<Rightarrow> nat \<Rightarrow>
   ('w, worker_reply) result_flow" where
  "build_write_dispatch_request_reply env request context mode page =
     (case mode of
        ModeFiles \<Rightarrow> build_reply_from_request_files env request context
      | ModePager \<Rightarrow> build_reply_from_request_pager env request context page)"

definition send_and_reply ::
  "('u, 'w) worker_env \<Rightarrow> 'u write_input \<Rightarrow> nat \<Rightarrow> ('w, worker_reply) result_flow" where
  "send_and_reply env input server_timeout =
     (let mode = wi_mode input; page = wi_page_bytes input
      in do { context \<leftarrow> State (prepare_write_dispatch_input_context mode);
              sent \<leftarrow> send_worker_request env (wi_text input) (wi_worker_timeout input) server_timeout;
              case sent of
                Inl err \<Rightarrow>
                  do { change (\<lambda>m. m\<lparr>mg_guardrail_busy := False\<rparr>);
                       reply \<leftarrow> State (error_reply_from_context (we_lib env) mode page (se_error err) context);
                       (if se_reset_process err then reset_after_worker_error env mode
                        else change (\<lambda>m. m\<lparr>mg_pending_request_input := None\<rparr>));
                       ok reply }
              | Inr request \<Rightarrow>
                  ask (build_write_dispatch_request_reply env request context mode page)
                    (finish_dispatch env) })"

definition dispatch_write_request ::
  "('u, 'w) worker_env \<Rightarrow> 'u write_input \<Rightarrow> nat \<Rightarrow> ('w, worker_reply) result_flow" where
  "dispatch_write_request env input server_timeout =
     (let process_prechecked = (wi_mode input = ModePager)
      in ask (apply_deferred_sandbox_state_update env
                (wo_deferred_sandbox_state_update (wi_options input))) (\<lambda>_.
           if process_prechecked then send_and_reply env input server_timeout
           else
             do { r \<leftarrow> ensure_process env;
                  case r of
                    Inl err \<Rightarrow>
                      do { reply \<leftarrow> State (worker_error_reply (we_lib env) (wi_mode input)
                             (wi_page_bytes input) err);
                           finish_dispatch env reply }
                  | Inr _ \<Rightarrow> send_and_reply env input server_timeout }))"

section \<open>The flow of an input\<close>

definition perform_control ::
  "('u, 'w) worker_env \<Rightarrow> write_stdin_mode \<Rightarrow> 'u control_prefix_plan \<Rightarrow> 'u write_stdin_options \<Rightarrow>
   nat \<Rightarrow> ('w, worker_reply) result_flow" where
  "perform_control env mode pl options timeout =
     (case cp_action pl of
        Interrupt \<Rightarrow>
          if cp_stage_interrupt_after_session_end pl then interrupt_for_mode env mode timeout None True
          else interrupt_for_mode env mode timeout (cp_tail_sandbox_state_update pl)
                 (wo_suppress_session_end_reset options)
      | Restart \<Rightarrow> restart_for_mode env mode)"

text \<open>
  A control character in front of an input: it is performed first, and the rest is an input of
  its own with what is left of the time.
\<close>

definition write_stdin_control ::
  "('u, 'w) worker_env \<Rightarrow> write_stdin_mode \<Rightarrow> write_stdin_control_action \<Rightarrow> string \<Rightarrow>
   (nat \<Rightarrow> nat \<Rightarrow> 'u write_stdin_options \<Rightarrow> ('w, worker_reply) result_flow) \<Rightarrow>
   nat \<Rightarrow> nat \<Rightarrow> 'u write_stdin_options \<Rightarrow> ('w, worker_reply) result_flow" where
  "write_stdin_control env mode action rest write_tail worker_timeout server_timeout options =
     do { change clear_guardrail_busy_event;
          ask (case action of
                 Interrupt \<Rightarrow> control_only_interrupt_requires_spawn env
               | Restart \<Rightarrow> ok False) (\<lambda>control_requires_spawn.
            ask (State_Monad.return (plan action rest control_requires_spawn options)) (\<lambda>pl.
              ask (if cp_stage_before_control pl
                   then stage_deferred_sandbox_state_update env (cp_staged_sandbox_state_update pl)
                   else ok ()) (\<lambda>_.
                do { started_at \<leftarrow> now_ms env;
                     now \<leftarrow> now_ms env;
                     ask (perform_control env mode pl options (started_at + worker_timeout - now))
                       (\<lambda>control_reply.
                       do { session_end \<leftarrow> see mg_session_end_seen;
                            let staged = (cp_stage_interrupt_after_session_end pl \<and> session_end \<and>
                              \<not> wo_suppress_session_end_reset options);
                            ask (if staged
                                 then
                                   ask (stage_session_end_sandbox_state_update env
                                          (cp_tail_sandbox_state_update pl)
                                          (wo_pending_state_prechecked options))
                                     (\<lambda>_. do { maybe_reset_after_session_end env; ok () })
                                 else ok ()) (\<lambda>_.
                              if cp_tail pl = [] then ok control_reply
                              else
                                do { now \<leftarrow> now_ms env;
                                     later \<leftarrow> now_ms env;
                                     ask (write_tail (started_at + worker_timeout - now)
                                            (started_at + server_timeout - later)
                                            (control_tail
                                               (if staged then None else cp_tail_sandbox_state_update pl)
                                               options)) (\<lambda>remaining_reply.
                                       do { change (\<lambda>m. m\<lparr>mg_last_detached_prefix_item_count :=
                                              mg_last_detached_prefix_item_count m +
                                              prefixed_worker_reply_item_count control_reply\<rparr>);
                                            ok (prefix_worker_reply control_reply remaining_reply) }) }) }) }))) }"

definition write_stdin_text ::
  "('u, 'w) worker_env \<Rightarrow> write_stdin_mode \<Rightarrow> string \<Rightarrow> nat \<Rightarrow> nat \<Rightarrow> 'u write_stdin_options \<Rightarrow>
   ('w, worker_reply) result_flow" where
  "write_stdin_text env mode txt worker_timeout server_timeout options =
     (let page =
            (case mode of
               ModeFiles \<Rightarrow> 0
             | ModePager \<Rightarrow> resolve_page_bytes env (wo_page_bytes_override options));
          input =
            \<lparr>wi_mode = mode, wi_text = txt, wi_worker_timeout = worker_timeout, wi_page_bytes = page,
             wi_options = options\<rparr>
      in ask (write_preflight env input) (\<lambda>outcome.
           case outcome of
             Continue \<Rightarrow> dispatch_write_request env input server_timeout
           | PreflightReply reply \<Rightarrow> ok reply))"

lemma control_prefix_shorter:
  "split_write_stdin_control_prefix txt = Some (action, rest) \<Longrightarrow> length rest < length txt"
  by (cases "txt") (auto simp: split_write_stdin_control_prefix_def split: list.splits if_splits)

function write_stdin_for ::
  "('u, 'w) worker_env \<Rightarrow> write_stdin_mode \<Rightarrow> string \<Rightarrow> nat \<Rightarrow> nat \<Rightarrow> 'u write_stdin_options \<Rightarrow>
   ('w, worker_reply) result_flow" where
  "write_stdin_for env mode txt = (\<lambda>worker_timeout server_timeout options.
     do { change (\<lambda>m. m\<lparr>mg_last_detached_prefix_item_count := 0\<rparr>);
          case split_write_stdin_control_prefix txt of
            Some (action, rest) \<Rightarrow>
              write_stdin_control env mode action rest (write_stdin_for env mode rest)
                worker_timeout server_timeout options
          | None \<Rightarrow> write_stdin_text env mode txt worker_timeout server_timeout options })"
  by pat_completeness auto

termination
  by (relation "measure (\<lambda>(env, mode, txt). length txt)") (auto simp: control_prefix_shorter)

declare write_stdin_for.simps [simp del]

definition write_stdin ::
  "('u, 'w) worker_env \<Rightarrow> string \<Rightarrow> nat \<Rightarrow> nat \<Rightarrow> 'u write_stdin_options \<Rightarrow>
   ('w, worker_reply) result_flow" where
  "write_stdin env txt worker_timeout server_timeout options =
     do { change (\<lambda>m. m\<lparr>mg_write_in_progress := True, mg_last_write_respawned := False\<rparr>);
          mode \<leftarrow> see (\<lambda>m. case mg_oversized_output m of
            OversizedFiles \<Rightarrow> ModeFiles | OversizedPager \<Rightarrow> ModePager);
          result \<leftarrow> write_stdin_for env mode txt worker_timeout server_timeout options;
          change (\<lambda>m. m\<lparr>mg_write_in_progress := False\<rparr>);
          State_Monad.return result }"

end
