(* ===== verification/Flow_Invariant.thy ===== *)
theory Flow_Invariant
  imports Worker_Flow
begin

text \<open>
  What the handling of an input keeps of the manager's view of the request: whether one is pending
  and since when, the completion or error kept for the next poll, and how many items of the last
  reply belong to earlier output. Computations that do not touch the view are \<^emph>\<open>quiet\<close>; a locale
  collects what an invariant has to admit so that the whole flow keeps it.
\<close>

named_theorems quiet_intros

section \<open>Quiet computations\<close>

record view =
  v_pending :: bool
  v_started_at :: "nat option"
  v_completion :: "completion_info option"
  v_error :: "worker_error option"
  v_item_count :: nat

definition view_of :: "'w manager \<Rightarrow> view" where
  "view_of m =
     \<lparr>v_pending = mg_pending_request m, v_started_at = mg_pending_request_started_at m,
      v_completion = mg_settled_pending_completion m, v_error = mg_settled_pending_error m,
      v_item_count = mg_last_detached_prefix_item_count m\<rparr>"

definition quiet :: "('w, 'a) flow \<Rightarrow> bool" where
  "quiet f \<longleftrightarrow> (\<forall>m. view_of (snd (run_state f m)) = view_of m)"

lemma quietI: "(\<And>m. view_of (snd (run_state f m)) = view_of m) \<Longrightarrow> quiet f"
  by (simp add: quiet_def)

lemma quietD: "quiet f \<Longrightarrow> run_state f m = (r, m') \<Longrightarrow> view_of m' = view_of m"
  by (metis quiet_def snd_conv)

lemma quiet_bind [quiet_intros]:
  "quiet f \<Longrightarrow> (\<And>x. quiet (g x)) \<Longrightarrow> quiet (State_Monad.bind f g)"
  by (simp add: quiet_def case_prod_beta)

lemma quiet_return [quiet_intros]: "quiet (State_Monad.return x)"
  by (simp add: quiet_def)

lemma quiet_ok [quiet_intros]: "quiet (ok x)"
  by (simp add: ok_def quiet_return)

lemma quiet_fail [quiet_intros]: "quiet (fail err)"
  by (simp add: fail_def quiet_return)

lemma quiet_see [quiet_intros]: "quiet (see f)"
  by (simp add: quiet_def see_def)

lemma quiet_world [quiet_intros]: "quiet (world f)"
  by (simp add: quiet_def world_def view_of_def case_prod_beta)

lemma quiet_change [quiet_intros]: "(\<And>m. view_of (f m) = view_of m) \<Longrightarrow> quiet (change f)"
  by (simp add: quiet_def change_def)

lemma quiet_State [quiet_intros]: "(\<And>m. view_of (snd (f m)) = view_of m) \<Longrightarrow> quiet (State f)"
  by (simp add: quiet_def)

lemma quiet_only_if [quiet_intros]: "quiet f \<Longrightarrow> quiet (only_if b f)"
  by (simp add: only_if_def quiet_return)

lemma quiet_if [quiet_intros]: "(b \<Longrightarrow> quiet f) \<Longrightarrow> (\<not> b \<Longrightarrow> quiet g) \<Longrightarrow> quiet (if b then f else g)"
  by simp

lemma quiet_case_option [quiet_intros]:
  "quiet f \<Longrightarrow> (\<And>x. quiet (g x)) \<Longrightarrow> quiet (case r of None \<Rightarrow> f | Some x \<Rightarrow> g x)"
  by (cases r) simp_all

lemma quiet_case_sum [quiet_intros]:
  "(\<And>e. quiet (f e)) \<Longrightarrow> (\<And>x. quiet (g x)) \<Longrightarrow> quiet (case r of Inl e \<Rightarrow> f e | Inr x \<Rightarrow> g x)"
  by (cases r) simp_all

lemma quiet_case_prod [quiet_intros]: "(\<And>a b. quiet (f a b)) \<Longrightarrow> quiet (case p of (a, b) \<Rightarrow> f a b)"
  by (cases p) simp

lemma quiet_case_wait_error [quiet_intros]:
  "quiet a \<Longrightarrow> quiet b \<Longrightarrow> quiet c \<Longrightarrow> (\<And>m. quiet (d m)) \<Longrightarrow>
   quiet (case e of WaitTimeout \<Rightarrow> a | WaitSessionEnd \<Rightarrow> b | WaitDisconnected \<Rightarrow> c | WaitProtocol m \<Rightarrow> d m)"
  by (cases e) simp_all

lemma quiet_case_readiness [quiet_intros]:
  "(\<And>p. quiet (f p)) \<Longrightarrow> quiet g \<Longrightarrow>
   quiet (case r of ReadinessInputWait p \<Rightarrow> f p | ReadinessReady \<Rightarrow> g)"
  by (cases r) simp_all

lemma quiet_case_error [quiet_intros]:
  "(\<And>x. quiet (a x)) \<Longrightarrow> (\<And>x. quiet (b x)) \<Longrightarrow> (\<And>x. quiet (c x)) \<Longrightarrow> (\<And>x. quiet (d x)) \<Longrightarrow>
   (\<And>x. quiet (f x)) \<Longrightarrow>
   quiet (case e of IoError x \<Rightarrow> a x | ProtocolError x \<Rightarrow> b x | TimeoutError x \<Rightarrow> c x
          | SandboxError x \<Rightarrow> d x | GuardrailError x \<Rightarrow> f x)"
  by (cases e) simp_all

lemma quiet_ask [quiet_intros]: "quiet f \<Longrightarrow> (\<And>x. quiet (g x)) \<Longrightarrow> quiet (ask f g)"
  unfolding ask_def by (intro quiet_intros)

subsection \<open>Operations of the manager\<close>

lemma view_update [simp]:
  "view_of (m\<lparr>mg_process := x0\<rparr>) = view_of m"
  "view_of (m\<lparr>mg_out := x1\<rparr>) = view_of m"
  "view_of (m\<lparr>mg_tape_offset := x2\<rparr>) = view_of m"
  "view_of (m\<lparr>mg_tape_rendered := x3\<rparr>) = view_of m"
  "view_of (m\<lparr>mg_pager := x4\<rparr>) = view_of m"
  "view_of (m\<lparr>mg_pending_request_input := x5\<rparr>) = view_of m"
  "view_of (m\<lparr>mg_session_end_seen := x6\<rparr>) = view_of m"
  "view_of (m\<lparr>mg_preserved_detached_prefix := x7\<rparr>) = view_of m"
  "view_of (m\<lparr>mg_reply_owned_prefix := x8\<rparr>) = view_of m"
  "view_of (m\<lparr>mg_next_live_prefix_belongs_to_reply := x9\<rparr>) = view_of m"
  "view_of (m\<lparr>mg_pager_prompt := x10\<rparr>) = view_of m"
  "view_of (m\<lparr>mg_last_prompt := x11\<rparr>) = view_of m"
  "view_of (m\<lparr>mg_guardrail_event := x12\<rparr>) = view_of m"
  "view_of (m\<lparr>mg_guardrail_busy := x13\<rparr>) = view_of m"
  "view_of (m\<lparr>mg_pending_server_notice := x14\<rparr>) = view_of m"
  "view_of (m\<lparr>mg_spawned_before := x15\<rparr>) = view_of m"
  "view_of (m\<lparr>mg_spawn_count := x16\<rparr>) = view_of m"
  "view_of (m\<lparr>mg_write_in_progress := x17\<rparr>) = view_of m"
  "view_of (m\<lparr>mg_last_write_respawned := x18\<rparr>) = view_of m"
  "view_of (m\<lparr>mg_use_linux_sandbox_bwrap := x19\<rparr>) = view_of m"
  "view_of (m\<lparr>mg_linux_bwrap_fallback_disabled := x20\<rparr>) = view_of m"
  "view_of (m\<lparr>mg_world := x21\<rparr>) = view_of m"
  by (simp_all add: view_of_def)

lemma view_request_update [simp]:
  "view_of (m\<lparr>mg_pending_request := b\<rparr>) = (view_of m)\<lparr>v_pending := b\<rparr>"
  "view_of (m\<lparr>mg_pending_request_started_at := t\<rparr>) = (view_of m)\<lparr>v_started_at := t\<rparr>"
  "view_of (m\<lparr>mg_settled_pending_completion := c\<rparr>) = (view_of m)\<lparr>v_completion := c\<rparr>"
  "view_of (m\<lparr>mg_settled_pending_error := e\<rparr>) = (view_of m)\<lparr>v_error := e\<rparr>"
  "view_of (m\<lparr>mg_last_detached_prefix_item_count := n\<rparr>) = (view_of m)\<lparr>v_item_count := n\<rparr>"
  by (simp_all add: view_of_def)

lemma view_sel:
  "mg_pending_request m = v_pending (view_of m)"
  "mg_pending_request_started_at m = v_started_at (view_of m)"
  "mg_settled_pending_completion m = v_completion (view_of m)"
  "mg_settled_pending_error m = v_error (view_of m)"
  "mg_last_detached_prefix_item_count m = v_item_count (view_of m)"
  by (simp_all add: view_of_def)

lemma view_if: "view_of (if b then m else m') = (if b then view_of m else view_of m')"
  by simp

lemma view_set_tape [simp]: "view_of (set_tape s m) = view_of m"
  by (simp add: set_tape_def)

lemma view_on [simp]:
  "view_of (snd (on_tape f m)) = view_of m" "view_of (snd (on_output g m)) = view_of m"
  by (simp_all add: on_tape_def on_output_def case_prod_beta)

lemma view_remember_prompt [simp]: "view_of (remember_prompt prompt m) = view_of m"
  by (simp add: remember_prompt_def)

lemma view_prompt_hint [simp]: "view_of (snd (current_prompt_hint m)) = view_of m"
  by (simp add: current_prompt_hint_def case_prod_beta split: option.split)

lemma view_drain [simp]:
  "view_of (snd (drain_formatted_output m)) = view_of m"
  "view_of (snd (drain_final_formatted_output m)) = view_of m"
  "view_of (snd (drain_completed_formatted_output b m)) = view_of m"
  "view_of (snd (drain_sealed_formatted_output m)) = view_of m"
  by (simp_all add: drain_formatted_output_def drain_final_formatted_output_def
      drain_completed_formatted_output_def drain_sealed_formatted_output_def)

lemma view_notices [simp]:
  "view_of (append_server_notice event m) = view_of m"
  "view_of (maybe_emit_pending_server_notice m) = view_of m"
  "view_of (maybe_emit_guardrail_notice m) = view_of m"
  "view_of (clear_guardrail_busy_event m) = view_of m"
proof -
  show notice: "view_of (append_server_notice event m) = view_of m" for event and m :: "'a manager"
    by (simp add: append_server_notice_def split: oversized_output_mode.split)
  show pending: "view_of (maybe_emit_pending_server_notice m) = view_of m" for m :: "'a manager"
    by (simp add: maybe_emit_pending_server_notice_def notice split: option.split)
  show "view_of (maybe_emit_guardrail_notice m) = view_of m"
    by (simp add: maybe_emit_guardrail_notice_def Let_def notice pending split: option.split)
  show "view_of (clear_guardrail_busy_event m) = view_of m"
    by (simp add: clear_guardrail_busy_event_def)
qed

lemma view_pager_command [simp]:
  "view_of (snd (handle_pager_command lib chars_env bytes_env s m)) = view_of m"
  by (simp add: handle_pager_command_def case_prod_beta Let_def split: option.split)

lemma view_idle_reply [simp]: "view_of (snd (build_idle_poll_reply m)) = view_of m"
  by (simp add: build_idle_poll_reply_def case_prod_beta)

lemma view_take_prefix [simp]:
  "view_of (snd (take_current_prefix_files m)) = (view_of m)\<lparr>v_completion := None\<rparr>"
  "view_of (snd (take_current_prefix_pager b m)) = (view_of m)\<lparr>v_completion := None\<rparr>"
  "view_of (snd (take_prefixes_for_next_request pre m)) = view_of m"
  "view_of (stage_prefix_before_respawn pre m) = view_of m"
  "view_of (clear_preserved_prefixes m) = view_of m"
  by (simp_all add: take_current_prefix_files_def take_current_prefix_pager_def
      take_prefixes_for_next_request_def stage_prefix_before_respawn_def clear_preserved_prefixes_def
      case_prod_beta Let_def split: option.split)

lemma view_prepare_context [simp]:
  "view_of (snd (prepare_write_dispatch_input_context mode m)) = (view_of m)\<lparr>v_completion := None\<rparr>"
  by (simp add: prepare_write_dispatch_input_context_def prepare_input_context_files_def
      prepare_input_context_pager_def case_prod_beta Let_def split: write_stdin_mode.split)

text \<open>A reset forgets the request.\<close>

definition forgotten :: view where
  "forgotten = \<lparr>v_pending = False, v_started_at = None, v_completion = None, v_error = None,
                v_item_count = 0\<rparr>"

lemma view_reset_output [simp]:
  "view_of (reset_output_state_files b m) = forgotten"
  "view_of (reset_output_state_pager b b' m) = forgotten"
  "view_of (reset_output_state_files_preserving_detached_output m) = forgotten"
  "view_of (reset_output_state_pager_preserving_detached_output b m) = forgotten"
  by (simp_all add: reset_output_state_files_def reset_output_state_pager_def
      reset_output_state_files_inner_def reset_output_state_pager_inner_def
      reset_output_state_files_preserving_detached_output_def
      reset_output_state_pager_preserving_detached_output_def forgotten_def Let_def case_prod_beta)

lemma view_clear_pending [simp]:
  "view_of (clear_pending_request_state m) =
     \<lparr>v_pending = False, v_started_at = None, v_completion = None, v_error = None,
      v_item_count = v_item_count (view_of m)\<rparr>"
  by (simp add: clear_pending_request_state_def view_of_def)

lemma view_session_reset_reply [simp]:
  "view_of (snd (build_session_reset_reply_files meta m)) = view_of m"
  "view_of (snd (build_session_reset_reply_pager_to_offset lib page meta end_offset m)) = view_of m"
  by (simp_all add: build_session_reset_reply_files_def build_session_reset_reply_pager_to_offset_def
      case_prod_beta Let_def)

subsection \<open>Flows\<close>

lemma view_background [simp]: "view_of (foldl (\<lambda>m b. background_step b m) m bs) = view_of m"
proof (induction bs arbitrary: m)
  case (Cons b bs)
  have "view_of (background_step b m) = view_of m"
    by (simp add: background_step_def split: background.split option.split)
  with Cons show ?case by simp
qed simp

lemma quiet_meanwhile [quiet_intros]: "quiet (meanwhile env)"
  unfolding meanwhile_def by (intro quiet_intros view_background)

lemma quiet_now [quiet_intros]: "quiet (now_ms env)"
  unfolding now_ms_def by (intro quiet_intros)

lemma quiet_process_running [quiet_intros]: "quiet (process_running env)"
  unfolding process_running_def by (intro quiet_intros)

lemma quiet_on_ipc [quiet_intros]: "quiet (on_ipc f)"
  by (simp add: quiet_def on_ipc_def case_prod_beta split: option.split)

lemma quiet_wait_ipc [quiet_intros]: "quiet (wait_ipc env f)"
  unfolding wait_ipc_def
  by (intro quiet_intros) (simp add: case_prod_beta split: option.split)

lemma quiet_require [quiet_intros]: "quiet (require_inherited_sandbox_state env)"
  unfolding require_inherited_sandbox_state_def by (intro quiet_intros)

lemma quiet_note_session_end [quiet_intros]: "quiet (note_session_end env b)"
  unfolding note_session_end_def
  by (intro quiet_intros)
    (simp_all add: append_session_end_notice_def Let_def split: option.split oversized_output_mode.split)

lemma quiet_spawn_process [quiet_intros]: "quiet (spawn_process env)"
  unfolding spawn_process_def
  by (intro quiet_intros)
    (simp_all add: remember_spawned_initial_prompt_def record_spawn_def
      split: option.split initial_worker_prompt.split)

lemma quiet_drop_process [quiet_intros]: "quiet (drop_process env)"
  unfolding drop_process_def by (intro quiet_intros) simp

lemma quiet_prepare_update [quiet_intros]: "quiet (prepare_sandbox_state_update env update)"
  unfolding prepare_sandbox_state_update_def by (intro quiet_intros) simp

lemma quiet_take_latched_error [quiet_intros]: "quiet take_latched_error"
  unfolding take_latched_error_def by (intro quiet_intros)

lemma quiet_on_input_start [quiet_intros]: "quiet (on_input_start env s timeout)"
  unfolding on_input_start_def Let_def by (intro quiet_intros)

lemma quiet_metadata_loop [quiet_intros]: "quiet (metadata_loop env turns start md)"
proof (induction turns arbitrary: md)
  case (Suc turns)
  show ?case
    unfolding metadata_loop.simps Let_def by (intro quiet_intros Suc)
qed (simp add: quiet_return)

lemma quiet_completion_info [quiet_intros]: "quiet (completion_info_from_ipc env b)"
  unfolding completion_info_from_ipc_def collect_completion_metadata_def take_warnings_def Let_def
  by (intro quiet_intros)

lemma quiet_exit_grace_loop [quiet_intros]: "quiet (exit_grace_loop env turns deadline)"
proof (induction turns)
  case (Suc turns)
  show ?case
    unfolding exit_grace_loop.simps by (intro quiet_intros Suc)
qed (simp add: quiet_ok)

lemma quiet_boundary [quiet_intros]: "quiet (change append_boundary)"
  by (intro quiet_intros) (simp add: append_boundary_def)

lemma quiet_wait_completion [quiet_intros]: "quiet (wait_for_request_completion env timeout)"
  unfolding wait_for_request_completion_def driver_wait_for_completion_def resolve_disconnected_def
    take_warnings_def append_boundary_def
  by (intro quiet_intros) simp_all

lemma quiet_session_ended [quiet_intros]: "quiet (session_ended env completion)"
  unfolding session_ended_def by (intro quiet_intros)

lemma quiet_timed_out_worker_runs [quiet_intros]: "quiet (timed_out_worker_runs env)"
  unfolding timed_out_worker_runs_def by (intro quiet_intros)

lemma quiet_pending_worker_exited [quiet_intros]: "quiet (pending_worker_exited env)"
  unfolding pending_worker_exited_def by (intro quiet_intros)

lemma quiet_requires_spawn [quiet_intros]: "quiet (control_only_interrupt_requires_spawn env)"
  unfolding control_only_interrupt_requires_spawn_def by (intro quiet_intros)

lemma quiet_wait_for_interrupt_prompt [quiet_intros]:
  "quiet (wait_for_interrupt_prompt env timeout sent_at)"
  unfolding wait_for_interrupt_prompt_def by (intro quiet_intros)

lemma quiet_stage_update [quiet_intros]:
  "quiet (stage_deferred_sandbox_state_update env update)"
  "quiet (stage_session_end_sandbox_state_update env update b)"
  unfolding stage_session_end_sandbox_state_update_def stage_deferred_sandbox_state_update_def
  by (intro quiet_intros)+


subsection \<open>Replies\<close>

lemma view_page_reply [simp]: "view_of (snd (page_reply contents is_error snapshot m)) = view_of m"
  by (simp add: page_reply_def case_prod_beta Let_def)

lemma view_complete_pager_reply [simp]:
  "view_of (snd (complete_pager_reply contents is_error completion session_end m)) = view_of m"
  by (simp add: complete_pager_reply_def Let_def split: option.split)

lemma view_completed_reply [simp]:
  "view_of (snd (completed_reply_files context completion session_end m)) = view_of m"
  "view_of (snd (completed_reply_pager lib context page completion session_end m)) = view_of m"
  "view_of (snd (timed_out_reply_files context elapsed m)) = view_of m"
  "view_of (snd (timed_out_reply_pager lib context page elapsed m)) = view_of m"
  by (simp_all add: completed_reply_files_def completed_reply_pager_def timed_out_reply_files_def
      timed_out_reply_pager_def case_prod_beta Let_def)

lemma view_poll_reply [simp]:
  "view_of (snd (poll_reply_files state m)) = view_of m"
  "view_of (snd (poll_reply_pager lib page start_offset end_offset state m)) = view_of m"
  by (simp_all add: poll_reply_files_def poll_reply_pager_def case_prod_beta Let_def split: option.split)

lemma view_interrupt_reply [simp]:
  "view_of (snd (build_interrupt_reply_files wait timeout m)) = view_of m"
  "view_of (snd (build_interrupt_reply_pager lib wait timeout page m)) = view_of m"
  by (simp_all add: build_interrupt_reply_files_def build_interrupt_reply_pager_def case_prod_beta Let_def)

lemma view_error_reply [simp]:
  "view_of (snd (build_reply_from_worker_error_files err context m)) =
     (view_of m)\<lparr>v_item_count := length (ic_detached_prefix_contents context)\<rparr>"
  "view_of (snd (build_reply_from_worker_error_pager lib err context page m)) =
     (view_of m)\<lparr>v_item_count := length (ic_detached_prefix_contents context)\<rparr>"
  by (simp_all add: build_reply_from_worker_error_files_def build_reply_from_worker_error_pager_def
      case_prod_beta Let_def)

section \<open>Resets\<close>

text \<open>A computation that leaves the view alone or forgets the request.\<close>

definition resets :: "('w, 'a) flow \<Rightarrow> bool" where
  "resets f \<longleftrightarrow> (\<forall>m. view_of (snd (run_state f m)) \<in> {view_of m, forgotten})"

named_theorems reset_intros

lemma quiet_resets [reset_intros]: "quiet f \<Longrightarrow> resets f"
  by (simp add: quiet_def resets_def)

lemma resets_bind [reset_intros]:
  "resets f \<Longrightarrow> (\<And>x. resets (g x)) \<Longrightarrow> resets (State_Monad.bind f g)"
  unfolding resets_def by (simp add: case_prod_beta) metis

lemma resets_ask [reset_intros]: "resets f \<Longrightarrow> (\<And>x. resets (g x)) \<Longrightarrow> resets (ask f g)"
  unfolding ask_def
  by (rule resets_bind) (auto split: sum.split intro: quiet_resets quiet_fail)

lemma resets_change [reset_intros]: "(\<And>m. view_of (f m) = forgotten) \<Longrightarrow> resets (change f)"
  by (simp add: resets_def change_def)

lemma resets_if [reset_intros]:
  "(b \<Longrightarrow> resets f) \<Longrightarrow> (\<not> b \<Longrightarrow> resets g) \<Longrightarrow> resets (if b then f else g)"
  by simp

lemma resets_only_if [reset_intros]: "resets f \<Longrightarrow> resets (only_if b f)"
  by (simp add: only_if_def quiet_resets quiet_return)

lemma view_retry [simp]: "view_of (retry_without_linux_bwrap b m) = forgotten"
  by (simp add: retry_without_linux_bwrap_def Let_def split: oversized_output_mode.split)

lemma spawn_retrying_view: "view_of (snd (spawn_retrying env b m)) \<in> {view_of m, forgotten}"
proof (induction env b m rule: spawn_retrying.induct)
  case (1 env b m)
  obtain r m1 where r: "run_state (spawn_process env) m = (r, m1)" by fastforce
  have m1: "view_of m1 = view_of m"
    by (rule quietD [OF quiet_spawn_process r])
  show ?case
  proof (cases r)
    case (Inl err)
    then show ?thesis
      using 1 [OF r [symmetric] Inl] r m1
      by (subst spawn_retrying.simps) auto
  next
    case (Inr ipc)
    then show ?thesis
      using r m1 by (subst spawn_retrying.simps) simp
  qed
qed

lemma resets_spawn_into [reset_intros]: "resets (spawn_into env b)"
proof -
  have "resets (State (spawn_retrying env b))"
    unfolding resets_def by (simp only: state.sel) (intro allI spawn_retrying_view)
  moreover have "quiet (do { change (\<lambda>m. m\<lparr>mg_process := Some ipc\<rparr>); ok () })" for ipc
    by (intro quiet_intros) simp
  ultimately show ?thesis
    unfolding spawn_into_def by (rule resets_ask [OF _ quiet_resets])
qed

lemma resets_reset [reset_intros]:
  "resets (reset env)" "resets (reset_after_session_end_for_mode env b)" "resets (reset_with_pager env b)"
  unfolding reset_def reset_after_session_end_for_mode_def reset_with_pager_def
  by (intro reset_intros quiet_intros;
      simp add: reset_output_state_def split: oversized_output_mode.split)+

section \<open>Invariants of the view\<close>

definition gives :: "(view \<Rightarrow> bool) \<Rightarrow> ('w, 'a) flow \<Rightarrow> ('a \<Rightarrow> view \<Rightarrow> bool) \<Rightarrow> bool" where
  "gives P f Q \<longleftrightarrow> (\<forall>m. P (view_of m) \<longrightarrow> Q (fst (run_state f m)) (view_of (snd (run_state f m))))"

named_theorems gives_intros

lemma gives_bind:
  "gives P f S \<Longrightarrow> (\<And>x. gives (S x) (g x) Q) \<Longrightarrow> gives P (State_Monad.bind f g) Q"
  by (simp add: gives_def case_prod_beta)

lemma gives_ask:
  "gives P f (\<lambda>r v. case r of Inl err \<Rightarrow> Q (Inl err) v | Inr x \<Rightarrow> S x v) \<Longrightarrow>
   (\<And>x. gives (S x) (g x) Q) \<Longrightarrow> gives P (ask f g) Q"
  unfolding ask_def
  by (rule gives_bind [where S = "\<lambda>r v. case r of Inl err \<Rightarrow> Q (Inl err) v | Inr x \<Rightarrow> S x v"])
    (auto simp: gives_def fail_def split: sum.split)

lemma gives_after: "quiet f \<Longrightarrow> (\<And>x. gives P (g x) Q) \<Longrightarrow> gives P (State_Monad.bind f g) Q"
  by (rule gives_bind [where S = "\<lambda>_. P"]) (simp_all add: gives_def quiet_def)

lemma gives_ask_after:
  "quiet f \<Longrightarrow> (\<And>err v. P v \<Longrightarrow> Q (Inl err) v) \<Longrightarrow> (\<And>x. gives P (g x) Q) \<Longrightarrow> gives P (ask f g) Q"
  by (rule gives_ask [where S = "\<lambda>_. P"]) (auto simp: gives_def quiet_def split: sum.split)

lemma gives_weaken: "gives P f S \<Longrightarrow> (\<And>x v. S x v \<Longrightarrow> Q x v) \<Longrightarrow> gives P f Q"
  by (simp add: gives_def)

lemma gives_pre: "gives P f Q \<Longrightarrow> (\<And>v. P' v \<Longrightarrow> P v) \<Longrightarrow> gives P' f Q"
  by (simp add: gives_def)

lemma gives_quiet: "quiet f \<Longrightarrow> gives P f (\<lambda>_. P)"
  by (simp add: gives_def quiet_def)

lemma gives_quiet_weaken: "quiet f \<Longrightarrow> (\<And>v. P v \<Longrightarrow> Q v) \<Longrightarrow> gives P f (\<lambda>_. Q)"
  by (simp add: gives_def quiet_def)

lemma gives_change: "(\<And>m. P (view_of m) \<Longrightarrow> Q () (view_of (f m))) \<Longrightarrow> gives P (change f) Q"
  by (simp add: gives_def change_def)

lemma gives_see: "(\<And>m. P (view_of m) \<Longrightarrow> Q (f m) (view_of m)) \<Longrightarrow> gives P (see f) Q"
  by (simp add: gives_def see_def)

lemma gives_State:
  "(\<And>m. P (view_of m) \<Longrightarrow> Q (fst (f m)) (view_of (snd (f m)))) \<Longrightarrow> gives P (State f) Q"
  by (simp add: gives_def)

lemma gives_return: "(\<And>v. P v \<Longrightarrow> Q x v) \<Longrightarrow> gives P (State_Monad.return x) Q"
  by (simp add: gives_def)

lemma gives_ok: "(\<And>v. P v \<Longrightarrow> Q (Inr x) v) \<Longrightarrow> gives P (ok x) Q"
  by (simp add: ok_def gives_return)

lemma gives_fail: "(\<And>v. P v \<Longrightarrow> Q (Inl err) v) \<Longrightarrow> gives P (fail err) Q"
  by (simp add: fail_def gives_return)

abbreviation keeps :: "(view \<Rightarrow> bool) \<Rightarrow> ('w, 'a) flow \<Rightarrow> bool" where
  "keeps I f \<equiv> gives I f (\<lambda>_. I)"

lemma keeps_quiet [gives_intros]: "quiet f \<Longrightarrow> keeps I f"
  by (rule gives_quiet)

lemma keeps_bind [gives_intros]:
  "keeps I f \<Longrightarrow> (\<And>x. keeps I (g x)) \<Longrightarrow> keeps I (State_Monad.bind f g)"
  by (rule gives_bind)

lemma keeps_ask [gives_intros]: "keeps I f \<Longrightarrow> (\<And>x. keeps I (g x)) \<Longrightarrow> keeps I (ask f g)"
  by (rule gives_ask [where S = "\<lambda>_. I"]) (auto simp: gives_def split: sum.split)

lemma keeps_change [gives_intros]:
  "(\<And>m. I (view_of m) \<Longrightarrow> I (view_of (f m))) \<Longrightarrow> keeps I (change f)"
  by (rule gives_change)

lemma keeps_only_if [gives_intros]: "keeps I f \<Longrightarrow> keeps I (only_if b f)"
  by (simp add: only_if_def gives_return)

lemma keeps_if [gives_intros]:
  "(b \<Longrightarrow> gives I f Q) \<Longrightarrow> (\<not> b \<Longrightarrow> gives I g Q) \<Longrightarrow> gives I (if b then f else g) Q"
  by simp

lemma keeps_case_option [gives_intros]:
  "(r = None \<Longrightarrow> gives I f Q) \<Longrightarrow> (\<And>x. r = Some x \<Longrightarrow> gives I (g x) Q) \<Longrightarrow>
   gives I (case r of None \<Rightarrow> f | Some x \<Rightarrow> g x) Q"
  by (cases r) simp_all

lemma keeps_case_sum [gives_intros]:
  "(\<And>e. r = Inl e \<Longrightarrow> gives I (f e) Q) \<Longrightarrow> (\<And>x. r = Inr x \<Longrightarrow> gives I (g x) Q) \<Longrightarrow>
   gives I (case r of Inl e \<Rightarrow> f e | Inr x \<Rightarrow> g x) Q"
  by (cases r) simp_all

lemma keeps_case_prod [gives_intros]:
  "(\<And>a b. gives I (f a b) Q) \<Longrightarrow> gives I (case p of (a, b) \<Rightarrow> f a b) Q"
  by (cases p) simp

lemma keeps_case_wait_error [gives_intros]:
  "gives I a Q \<Longrightarrow> gives I b Q \<Longrightarrow> gives I c Q \<Longrightarrow> (\<And>m. gives I (d m) Q) \<Longrightarrow>
   gives I (case e of WaitTimeout \<Rightarrow> a | WaitSessionEnd \<Rightarrow> b | WaitDisconnected \<Rightarrow> c | WaitProtocol m \<Rightarrow> d m) Q"
  by (cases e) simp_all

lemma keeps_case_error [gives_intros]:
  "(\<And>x. gives I (a x) Q) \<Longrightarrow> (\<And>x. gives I (b x) Q) \<Longrightarrow> (\<And>x. gives I (c x) Q) \<Longrightarrow> (\<And>x. gives I (d x) Q) \<Longrightarrow>
   (\<And>x. gives I (f x) Q) \<Longrightarrow>
   gives I (case e of IoError x \<Rightarrow> a x | ProtocolError x \<Rightarrow> b x | TimeoutError x \<Rightarrow> c x
          | SandboxError x \<Rightarrow> d x | GuardrailError x \<Rightarrow> f x) Q"
  by (cases e) simp_all

lemma keeps_case_mode [gives_intros]:
  "(mode = ModeFiles \<Longrightarrow> gives I f Q) \<Longrightarrow> (mode = ModePager \<Longrightarrow> gives I g Q) \<Longrightarrow>
   gives I (case mode of ModeFiles \<Rightarrow> f | ModePager \<Rightarrow> g) Q"
  by (cases mode) simp_all

lemma resets_ensure_process [reset_intros]: "resets (ensure_process env)"
  unfolding ensure_process_def
  by (intro reset_intros quiet_intros; simp split: oversized_output_mode.split)

lemma quiet_note_respawn: "quiet (do { change note_respawn_during_write; ok () })"
  by (intro quiet_intros) (simp add: note_respawn_during_write_def)

lemma resets_restart_worker [reset_intros]: "resets (restart_worker_after_sandbox_state_change env)"
  unfolding restart_worker_after_sandbox_state_change_def
  by (rule resets_bind [OF quiet_resets [OF quiet_drop_process]],
      rule resets_bind [OF resets_change resets_ask [OF resets_spawn_into quiet_resets [OF quiet_note_respawn]]])
    (simp add: reset_output_state_def split: oversized_output_mode.split)

lemma resets_spawn_initial [reset_intros]: "resets (spawn_worker_after_initial_sandbox_state env)"
  unfolding spawn_worker_after_initial_sandbox_state_def
  by (rule resets_bind [OF resets_change resets_ask [OF resets_spawn_into quiet_resets [OF quiet_note_respawn]]])
    (simp add: reset_output_state_def split: oversized_output_mode.split)

lemma resets_apply_update [reset_intros]: "resets (apply_deferred_sandbox_state_update env update)"
proof (cases update)
  case (Some u)
  have notice: "quiet (do { only_if b
      (do { policy \<leftarrow> see (\<lambda>m. we_policy_text env (mg_world m));
            change (stage_sandbox_change_restart_notice policy aborted);
            change (\<lambda>m. m\<lparr>mg_next_live_prefix_belongs_to_reply := True\<rparr>) });
      ok True })" for b aborted
    by (intro quiet_intros) (simp_all add: stage_sandbox_change_restart_notice_def Let_def)
  have "resets (update_sandbox_state env u)"
    unfolding update_sandbox_state_def case_prod_beta
    by (intro resets_ask resets_bind resets_if resets_restart_worker resets_spawn_initial
        quiet_resets [OF notice] quiet_resets [OF quiet_prepare_update] quiet_resets [OF quiet_see]
        quiet_resets [OF quiet_ok])
  then show ?thesis
    by (simp add: apply_deferred_sandbox_state_update_def Some resets_ask quiet_resets quiet_ok)
qed (simp add: apply_deferred_sandbox_state_update_def quiet_resets quiet_ok)

lemma resets_restart [reset_intros]: "resets (restart_for_mode env mode)"
proof -
  have shutdown: "quiet (shutdown_existing_worker_for_restart env mode)"
    unfolding shutdown_existing_worker_for_restart_def
    by (cases mode) (simp_all, (intro quiet_intros; simp)+)
  have reply: "quiet (State (build_restart_reply lib page snapshot))" for lib page snapshot
    by (intro quiet_intros)
      (simp add: build_restart_reply_def case_prod_beta Let_def
        split: restart_shutdown_snapshot.split option.split)
  have finish: "resets (change (finish_restart_for_mode mode))"
    by (intro resets_change)
      (simp add: finish_restart_for_mode_def note_respawn_during_write_def Let_def
        split: write_stdin_mode.split)
  have quiets: "quiet (change maybe_emit_pending_server_notice)"
    "quiet (change (\<lambda>m. m\<lparr>mg_guardrail_busy := False\<rparr>))"
    "quiet (only_if (mode = ModePager) (change (\<lambda>m. m\<lparr>mg_pager := None\<rparr>)))"
    by (intro quiet_intros; simp)+
  show ?thesis
    unfolding restart_for_mode_def
    by (intro resets_ask resets_bind finish quiet_resets quiet_require quiets shutdown reply quiet_ok)
qed

locale request_invariant =
  fixes I :: "view \<Rightarrow> bool"
  assumes forget: "I v \<Longrightarrow> I forgotten"
    and clear: "I v \<Longrightarrow> I (forgotten\<lparr>v_item_count := v_item_count v\<rparr>)"
    and settle: "I v \<Longrightarrow> I (forgotten\<lparr>v_completion := Some c, v_item_count := v_item_count v\<rparr>)"
    and latch: "I v \<Longrightarrow> v_pending v \<Longrightarrow> I (v\<lparr>v_error := Some err\<rparr>)"
    and take_error: "I v \<Longrightarrow> I (v\<lparr>v_error := None\<rparr>)"
    and take_completion: "I v \<Longrightarrow> I (v\<lparr>v_completion := None\<rparr>)"
begin

lemma keeps_resets: "resets f \<Longrightarrow> keeps I f"
  unfolding resets_def gives_def using forget by (metis insertE singletonD)

lemma keeps_preserving: "resets f \<Longrightarrow> keeps I (preserving_item_count f)"
proof -
  assume f: "resets f"
  have "I (view_of (m'\<lparr>mg_last_detached_prefix_item_count := v_item_count (view_of m)\<rparr>))"
    if "I (view_of m)" "view_of m' \<in> {view_of m, forgotten}" for m m' :: "'a manager"
    using that clear [of "view_of m"] by (auto simp: forgotten_def)
  with f show ?thesis
    by (simp add: gives_def preserving_item_count_def see_def change_def resets_def case_prod_beta
        view_sel(5))
qed

lemma keeps_maybe_reset: "keeps I (maybe_reset_after_session_end env)"
proof -
  have "keeps I (preserving_item_count (reset_after_session_end_for_mode env b))" for b
    by (rule keeps_preserving) (rule resets_reset)
  then show ?thesis
    unfolding maybe_reset_after_session_end_def
    by (intro keeps_bind keeps_only_if keeps_quiet [OF quiet_see] keeps_quiet [OF quiet_change])
      (simp_all add: note_respawn_during_write_def)
qed

lemma keeps_maybe_reset_with_options:
  "keeps I (maybe_reset_after_session_end_with_options env update suppress prechecked)"
  unfolding maybe_reset_after_session_end_with_options_def
  by (intro keeps_bind keeps_ask keeps_only_if keeps_maybe_reset keeps_if keeps_quiet
      [OF quiet_stage_update(2)] keeps_quiet [OF quiet_see] keeps_quiet [OF quiet_ok])

lemma keeps_settle_session_end: "keeps I (settle_pending_session_end env)"
proof -
  have "gives I (change clear_pending_request_state) (\<lambda>_ v. \<exists>n. v = forgotten\<lparr>v_item_count := n\<rparr> \<and> (\<forall>c. I (v\<lparr>v_completion := Some c\<rparr>)))"
    by (rule gives_change) (use settle in \<open>auto simp: forgotten_def\<close>)
  then have "gives I (do { change clear_pending_request_state;
      change (\<lambda>m. m\<lparr>mg_settled_pending_completion := Some c\<rparr>) }) (\<lambda>_. I)" for c
    by (rule gives_bind) (rule gives_change, auto)
  then show ?thesis
    unfolding settle_pending_session_end_def
    by (rule gives_after [OF quiet_completion_info gives_after [OF quiet_meanwhile
          gives_after [OF quiet_boundary gives_after [OF quiet_note_session_end]]]])
qed

lemma keeps_resolve_marker: "keeps I (resolve_timeout_marker_with_wait env wait)"
proof -
  let ?J = "\<lambda>v. I v \<and> v_pending v"
  have cleared: "gives ?J (change clear_pending_request_state)
      (\<lambda>_ v. \<forall>c. I (v\<lparr>v_completion := Some c\<rparr>))"
    by (rule gives_change) (use settle in \<open>auto simp: forgotten_def\<close>)
  have set: "gives (\<lambda>v. \<forall>c. I (v\<lparr>v_completion := Some c\<rparr>))
      (change (\<lambda>m. m\<lparr>mg_settled_pending_completion := Some c\<rparr>)) (\<lambda>_. I)" for c
    by (rule gives_change) simp
  have completed: "gives ?J (settle_completed_request env) (\<lambda>_. I)"
    unfolding settle_completed_request_def
    by (rule gives_after [OF quiet_completion_info gives_after [OF quiet_meanwhile
          gives_after [OF quiet_boundary gives_after [OF quiet_process_running gives_bind [OF cleared]]]]])
      (auto intro!: gives_after [OF quiet_note_session_end set] gives_after [OF quiet_change set])
  have session_end: "gives ?J (settle_pending_session_end env) (\<lambda>_. I)"
    by (rule gives_pre [OF keeps_settle_session_end]) simp
  have exited: "gives ?J (do { running \<leftarrow> process_running env;
      if running = Inr False then settle_pending_session_end env else State_Monad.return () }) (\<lambda>_. I)"
    by (rule gives_after [OF quiet_process_running keeps_if [OF session_end gives_return]]) simp
  have status: "gives ?J (settle_wait_status env s) (\<lambda>_. I)" for s
    unfolding settle_wait_status_def
    by (intro keeps_case_option keeps_case_sum keeps_case_wait_error completed session_end exited
        gives_change gives_return) (simp_all add: latch)
  show ?thesis
    unfolding resolve_timeout_marker_with_wait_def
  proof (rule gives_bind [where S = "\<lambda>u v. I v \<and> (u \<longrightarrow> v_pending v)"])
    show "gives I (see (\<lambda>m. mg_pending_request m \<and> mg_settled_pending_error m = None))
        (\<lambda>u v. I v \<and> (u \<longrightarrow> v_pending v))"
      by (rule gives_see) (simp add: view_sel(1))
    fix u
    show "gives (\<lambda>v. I v \<and> (u \<longrightarrow> v_pending v)) (if \<not> u then State_Monad.return ()
        else do { status \<leftarrow> wait_ipc env (we_wait_completion env wait); settle_wait_status env status })
        (\<lambda>_. I)"
      using gives_pre [OF gives_after [OF quiet_wait_ipc status]]
      by (auto intro!: gives_return keeps_if)
  qed
qed

text \<open>Polls and interrupts.\<close>

lemma keeps_observe: "keeps I (observe_pending_poll_state env timeout poll_start)"
proof -
  have cleared: "keeps I (change clear_pending_request_state)"
    by (rule gives_change) (use clear in \<open>simp add: forgotten_def\<close>)
  have taken: "keeps I (change (\<lambda>m. m\<lparr>mg_settled_pending_completion := None\<rparr>))"
    by (rule gives_change) (simp add: take_completion)
  have active: "keeps I (observe_active_pending_request env timeout poll_start)"
    unfolding observe_active_pending_request_def
    by (intro gives_after [OF quiet_wait_completion] keeps_case_sum keeps_case_error keeps_if
        keeps_bind [OF cleared] keeps_ask [OF keeps_quiet [OF quiet_pending_worker_exited]]
        gives_after [OF quiet_note_session_end] keeps_quiet quiet_intros)
  show ?thesis
    unfolding observe_pending_poll_state_def
    by (intro gives_after [OF quiet_see] keeps_if keeps_case_option active keeps_bind [OF taken]
        keeps_quiet quiet_intros)
qed

lemma keeps_take_error:
  "keeps I (change (\<lambda>m. m\<lparr>mg_settled_pending_error := None\<rparr>))"
  by (rule gives_change) (simp add: take_error)

lemma keeps_poll: "keeps I (poll_for_mode env mode timeout page)"
proof -
  have reset: "keeps I (reset_preserving_detached_prefix_item_count env)"
    "keeps I (reset_with_pager_preserving_detached_prefix_item_count env b)" for b
    unfolding reset_preserving_detached_prefix_item_count_def
      reset_with_pager_preserving_detached_prefix_item_count_def
    by (intro keeps_preserving resets_reset)+
  have files: "keeps I (poll_pending_output_files env timeout)"
    unfolding poll_pending_output_files_def Let_def case_prod_beta
    by (intro gives_after [OF quiet_now gives_after [OF quiet_see]] keeps_case_option
        keeps_bind [OF keeps_take_error] keeps_bind [OF reset(1)] keeps_ask [OF keeps_observe]
        keeps_quiet quiet_intros) simp
  have pager: "keeps I (poll_pending_output_pager env timeout page)"
    unfolding poll_pending_output_pager_def
    by (intro gives_after [OF quiet_now gives_after [OF quiet_see gives_after [OF quiet_see
          gives_after [OF quiet_see]]]] keeps_case_option
        keeps_bind [OF keeps_take_error] gives_after [OF quiet_see keeps_bind [OF reset(2)]]
        keeps_ask [OF keeps_observe] keeps_quiet quiet_intros) simp
  show ?thesis
    by (cases mode) (simp_all add: poll_for_mode_def files pager)
qed

lemma keeps_interrupt: "keeps I (interrupt_for_mode env mode timeout update suppress)"
proof -
  have sent: "keeps I (interrupt_worker_if_running env)"
    unfolding interrupt_worker_if_running_def
    by (intro gives_after [OF quiet_see] keeps_ask [OF keeps_quiet] keeps_if gives_after [OF quiet_now]
        gives_after [OF quiet_on_ipc] keeps_bind [OF keeps_quiet] keeps_case_sum
        keeps_ask [OF keeps_resets [OF resets_reset(1)]] keeps_quiet [OF quiet_ok]
        keeps_quiet [OF quiet_fail] quiet_intros)
  have drain: "keeps I (drain_existing_completion_after_interrupt env mode page timeout update suppress)"
    for page
    unfolding drain_existing_completion_after_interrupt_def Let_def
    by (intro keeps_ask [OF keeps_poll] gives_after [OF quiet_see] keeps_maybe_reset_with_options
        keeps_ask [OF keeps_maybe_reset_with_options] keeps_quiet [OF quiet_ok])
  have reply: "quiet (State (case mode of
      ModeFiles \<Rightarrow> build_interrupt_reply_files wait timeout
    | ModePager \<Rightarrow> build_interrupt_reply_pager lib wait timeout page))" for lib wait page
    by (intro quiet_intros) (simp split: write_stdin_mode.split)
  show ?thesis
    unfolding interrupt_for_mode_def Let_def
    by (intro gives_after [OF quiet_see] keeps_ask [OF keeps_if] keeps_if drain sent
        keeps_ask [OF keeps_quiet [OF quiet_wait_for_interrupt_prompt]] gives_after [OF reply]
        keeps_ask [OF keeps_maybe_reset_with_options] keeps_quiet [OF quiet_ok])
qed

text \<open>Steps before an input.\<close>

lemma keeps_finish: "keeps I (finish_reply env update suppress prechecked reply)"
  unfolding finish_reply_def
  by (intro keeps_ask keeps_maybe_reset_with_options keeps_quiet quiet_intros)

lemmas keeps_finishes =
  keeps_finish [of _ None False False, folded finish_default_preflight_reply_def]
  keeps_finish [of _ None True False, folded finish_pager_local_reply_def]

lemma keeps_finish_caller: "keeps I (finish_caller_preflight_reply env input reply)"
  by (simp add: finish_caller_preflight_reply_def keeps_finish Let_def)

lemma keeps_reset_after_error: "keeps I (reset_after_worker_error env mode)"
  unfolding reset_after_worker_error_def reset_preserving_detached_prefix_item_count_def
    reset_with_pager_preserving_detached_prefix_item_count_def
  by (intro keeps_case_mode keeps_bind keeps_preserving resets_reset keeps_quiet [OF quiet_see]
      keeps_quiet [OF quiet_return])

lemma keeps_emit: "keeps I (emit_guardrail_notice_and_resolve_timeout_marker env input)"
  unfolding emit_guardrail_notice_and_resolve_timeout_marker_def
  by (intro gives_after [OF quiet_change] keeps_only_if keeps_resolve_marker) simp

lemma keeps_resolve_before_busy: "keeps I (resolve_pending_request_before_busy_reply env input)"
  unfolding resolve_pending_request_before_busy_reply_def
  by (intro gives_after [OF quiet_see] keeps_only_if keeps_resolve_marker)

lemma keeps_pager_command: "keeps I (handle_nonempty_pager_command env input)"
proof -
  have command: "quiet (State (handle_pager_command lib c b s))" for lib c b s
    by (intro quiet_intros) simp
  have dismissed: "quiet (change (\<lambda>m. m\<lparr>mg_pager := dismiss (mg_pager m), mg_pager_prompt := None\<rparr>))"
    by (intro quiet_intros) simp
  show ?thesis
    unfolding handle_nonempty_pager_command_def Let_def
    by (intro gives_after [OF quiet_see] keeps_if gives_after [OF command] gives_after [OF dismissed]
        keeps_case_option keeps_ask [OF keeps_finishes(2)] keeps_quiet [OF quiet_ok])
qed

lemma keeps_empty_pager_command: "keeps I (empty_input_pager_command env input)"
proof -
  have command: "quiet (State (handle_pager_command lib c b s))" for lib c b s
    by (intro quiet_intros) simp
  show ?thesis
    unfolding empty_input_pager_command_def
    by (intro gives_after [OF quiet_see] keeps_if gives_after [OF command] keeps_case_option
        keeps_ask [OF keeps_finishes(2)] keeps_quiet [OF quiet_ok])
qed

lemma keeps_pending_poll: "keeps I (empty_input_pending_poll env input)"
  unfolding empty_input_pending_poll_def
  by (intro gives_after [OF quiet_see] keeps_if keeps_ask [OF keeps_poll]
      keeps_ask [OF keeps_finish_caller] keeps_quiet [OF quiet_ok])

lemma keeps_answered: "keeps I f \<Longrightarrow> keeps I g \<Longrightarrow> keeps I (answered f g)"
  unfolding answered_def by (intro keeps_ask keeps_case_option keeps_quiet [OF quiet_ok])

lemma keeps_finish_dispatch: "keeps I (finish_dispatch env reply)"
  unfolding finish_dispatch_def
  by (intro keeps_ask [OF keeps_maybe_reset_with_options] keeps_quiet [OF quiet_ok])

lemma keeps_perform_control: "keeps I (perform_control env mode pl options timeout)"
  unfolding perform_control_def
  by (cases "cp_action pl") (simp_all add: keeps_interrupt keeps_resets resets_restart)

end

lemma quiet_reject [quiet_intros]:
  "quiet (reject_prechecked_empty_follow_up_without_current_state env input)"
  unfolding reject_prechecked_empty_follow_up_without_current_state_def by (intro quiet_intros)

lemma view_worker_error_reply:
  "\<exists>n. view_of (snd (worker_error_reply lib mode page err m)) =
     (view_of m)\<lparr>v_completion := None, v_item_count := n\<rparr>"
  using view_prepare_context [of mode m]
  by (cases mode)
    (simp_all add: worker_error_reply_def prepare_write_dispatch_input_context_def case_prod_beta Let_def,
     metis+)

text \<open>An invariant that does not look at the number of items and admits a request that times out.\<close>

locale count_free_invariant = request_invariant +
  assumes count: "I v \<Longrightarrow> I (v\<lparr>v_item_count := n\<rparr>)"
    and time_out: "I v \<Longrightarrow> v_completion v = None \<Longrightarrow> I (v\<lparr>v_pending := True, v_started_at := Some t\<rparr>)"
begin

lemma keeps_error_reply: "keeps I (State (worker_error_reply lib mode page err))"
  by (rule gives_State) (metis view_worker_error_reply count take_completion)

lemma keeps_guardrail_abort: "keeps I (guardrail_busy_abort env input)"
proof -
  have "quiet (change (\<lambda>m. m\<lparr>mg_guardrail_event := None, mg_guardrail_busy := False\<rparr>))"
    "quiet (change maybe_emit_guardrail_notice)"
    by (intro quiet_intros; simp)+
  then show ?thesis
    unfolding guardrail_busy_abort_def
    by (intro gives_after [OF quiet_see] keeps_if gives_after keeps_case_option keeps_quiet [OF quiet_ok]
        keeps_bind [OF keeps_error_reply] keeps_bind [OF keeps_reset_after_error]
        keeps_ask [OF keeps_finishes(1)])
qed

lemma keeps_ensure_or_error: "keeps I (ensure_process_or_error_reply env input)"
  unfolding ensure_process_or_error_reply_def
  by (intro keeps_bind [OF keeps_resets [OF resets_ensure_process]] keeps_case_sum
      keeps_bind [OF keeps_error_reply] keeps_ask [OF keeps_finishes(1)] keeps_quiet [OF quiet_ok])

lemma keeps_busy: "keeps I (pending_request_busy_follow_up env input)"
proof -
  have counted: "keeps I (change (\<lambda>m. m\<lparr>mg_last_detached_prefix_item_count := n\<rparr>))" for n
    by (rule gives_change) (simp add: count)
  show ?thesis
    unfolding pending_request_busy_follow_up_def
    by (intro gives_after [OF quiet_see] keeps_if keeps_ask [OF keeps_poll] keeps_bind [OF counted]
        keeps_ask [OF keeps_finish_caller] keeps_quiet [OF quiet_ok])
qed

lemma keeps_idle: "keeps I (idle_reply env input)"
proof -
  have "quiet (State build_idle_poll_reply)" by (intro quiet_intros) simp
  then show ?thesis
    unfolding idle_reply_def
    by (intro keeps_ask [OF keeps_quiet [OF quiet_reject]] keeps_answered keeps_ensure_or_error
        gives_after keeps_finishes(1))
qed

lemma keeps_busy_or_continue: "keeps I (busy_or_continue env input)"
  unfolding busy_or_continue_def
  by (intro keeps_bind [OF keeps_resolve_before_busy] keeps_answered keeps_busy keeps_quiet [OF quiet_ok])

lemma keeps_preflight: "keeps I (write_preflight env input)"
proof -
  have capture: "quiet (change (\<lambda>m. m\<lparr>mg_out := start_capture (mg_out m)\<rparr>))"
    by (intro quiet_intros) simp
  have "keeps I (write_preflight_files env input)" "keeps I (write_preflight_pager env input)"
    unfolding write_preflight_files_def write_preflight_pager_def
    by (intro keeps_bind [OF keeps_emit] keeps_if keeps_answered keeps_pending_poll keeps_idle
        keeps_busy_or_continue gives_after [OF capture] keeps_empty_pager_command keeps_ensure_or_error)+
  then show ?thesis
    unfolding write_preflight_def
    by (intro keeps_answered keeps_guardrail_abort keeps_pager_command keeps_case_mode)
qed

lemma keeps_request_reply:
  "gives (\<lambda>v. I v \<and> v_completion v = None)
     (build_write_dispatch_request_reply env request context mode page) (\<lambda>_. I)"
proof -
  let ?J = "\<lambda>v. I v \<and> v_completion v = None"
  have counted: "gives ?J (change (note_item_count context)) (\<lambda>_. ?J)"
    by (rule gives_change) (simp add: note_item_count_def count)
  have timed_out: "gives ?J (change (note_timed_out request)) (\<lambda>_. I)"
    by (rule gives_change) (simp add: note_timed_out_def time_out)
  have errors: "gives ?J (State (build_reply_from_worker_error_files err context)) (\<lambda>_. I)"
    "gives ?J (State (build_reply_from_worker_error_pager lib err context page)) (\<lambda>_. I)" for err lib
    by (rule gives_State; simp add: count)+
  have reset: "keeps I (reset_preserving_detached_prefix_item_count env)"
    "keeps I (reset_with_pager_preserving_detached_prefix_item_count env b)" for b
    unfolding reset_preserving_detached_prefix_item_count_def
      reset_with_pager_preserving_detached_prefix_item_count_def
    by (intro keeps_preserving resets_reset)+
  have completed: "gives ?J (ask (session_ended env completion) (\<lambda>session_end.
        do { only_if session_end (note_session_end env True);
             reply \<leftarrow> State (completed_reply_files context completion session_end); ok reply })) (\<lambda>_. I)"
    "gives ?J (ask (session_ended env completion) (\<lambda>session_end.
        do { only_if session_end (note_session_end env True);
             reply \<leftarrow> State (completed_reply_pager (we_lib env) context page completion session_end);
             ok reply })) (\<lambda>_. I)" for completion
    by (rule gives_quiet_weaken, intro quiet_intros; simp)+
  have timed_out_files: "gives ?J (do { settle \<leftarrow> see should_settle_output_after_timeout;
      only_if settle (meanwhile env); change (note_timed_out request); now \<leftarrow> now_ms env;
      reply \<leftarrow> State (timed_out_reply_files context (now - rs_started_at request)); ok reply }) (\<lambda>_. I)"
    by (rule gives_after [OF quiet_see gives_after [OF quiet_only_if [OF quiet_meanwhile]
          gives_bind [OF timed_out keeps_quiet]]]) (intro quiet_intros; simp)
  have timed_out_pager: "gives ?J (do { change (note_timed_out request); now \<leftarrow> now_ms env;
      reply \<leftarrow> State (timed_out_reply_pager (we_lib env) context page (now - rs_started_at request));
      ok reply }) (\<lambda>_. I)"
    by (rule gives_bind [OF timed_out keeps_quiet]) (intro quiet_intros; simp)
  have failed: "gives ?J (do { reply \<leftarrow> State (build_reply_from_worker_error_files err context);
      reset_preserving_detached_prefix_item_count env; ok reply }) (\<lambda>_. I)"
    "gives ?J (do { reply \<leftarrow> State (build_reply_from_worker_error_pager (we_lib env) err context page);
      preserve_pager \<leftarrow> see (\<lambda>m. is_active (mg_pager m));
      reset_with_pager_preserving_detached_prefix_item_count env preserve_pager; ok reply }) (\<lambda>_. I)" for err
    by (rule gives_bind [OF errors(1) keeps_bind [OF reset(1) keeps_quiet [OF quiet_ok]]],
        rule gives_bind [OF errors(2) gives_after [OF quiet_see
          keeps_bind [OF reset(2) keeps_quiet [OF quiet_ok]]]])
  have "gives ?J (build_reply_from_request_files env request context) (\<lambda>_. I)"
    unfolding build_reply_from_request_files_def
    by (rule gives_bind [OF counted gives_after [OF quiet_wait_completion]])
      (intro keeps_case_sum keeps_case_error failed completed
        gives_ask_after [OF quiet_timed_out_worker_runs _ timed_out_files]; simp)
  moreover have "gives ?J (build_reply_from_request_pager env request context page) (\<lambda>_. I)"
    unfolding build_reply_from_request_pager_def
    by (rule gives_bind [OF counted gives_after [OF quiet_wait_completion]])
      (intro keeps_case_sum keeps_case_error failed completed
        gives_ask_after [OF quiet_timed_out_worker_runs _ timed_out_pager]; simp)
  ultimately show ?thesis
    by (cases mode) (simp_all add: build_write_dispatch_request_reply_def)
qed

lemma keeps_send: "gives (\<lambda>v. I v \<and> v_completion v = None)
    (send_worker_request env s worker_timeout server_timeout) (\<lambda>_ v. I v \<and> v_completion v = None)"
proof -
  let ?J = "\<lambda>v. I v \<and> v_completion v = None"
  have "quiet (State current_prompt_hint)" "quiet (change (remember_prompt prompt))"
    "quiet (change (\<lambda>m. m\<lparr>mg_pending_request_input := Some s\<rparr>))" for prompt s
    by (intro quiet_intros; simp)+
  note quiets = gives_after [OF quiet_see] gives_after [OF quiet_now] gives_after [OF this(1)]
    gives_after [OF this(2)] gives_after [OF this(3)] gives_after [OF quiet_on_input_start]
  have accepted: "gives ?J (change (\<lambda>m. m\<lparr>mg_settled_pending_completion := None, mg_guardrail_busy := True\<rparr>))
      (\<lambda>_. ?J)"
    by (rule gives_change) (simp add: take_completion)
  show ?thesis
    unfolding send_worker_request_def Let_def
    by (intro quiets keeps_if keeps_case_sum gives_bind [OF accepted] gives_return)
qed

lemma keeps_send_and_reply: "keeps I (send_and_reply env input server_timeout)"
proof -
  let ?J = "\<lambda>v. I v \<and> v_completion v = None"
  have prepared: "gives I (State (prepare_write_dispatch_input_context mode)) (\<lambda>_. ?J)" for mode
    by (rule gives_State) (simp add: take_completion)
  have idle: "quiet (change (\<lambda>m. m\<lparr>mg_guardrail_busy := False\<rparr>))"
    "quiet (change (\<lambda>m. m\<lparr>mg_pending_request_input := None\<rparr>))"
    by (intro quiet_intros; simp)+
  have failed: "gives ?J (State (error_reply_from_context lib mode page err ctx)) (\<lambda>_. I)"
    for lib mode page err ctx
    by (rule gives_State) (simp add: error_reply_from_context_def count split: write_stdin_mode.split)
  have replied: "gives ?J (ask (build_write_dispatch_request_reply env request ctx mode page)
      (finish_dispatch env)) (\<lambda>_. I)" for request ctx mode page
    by (rule gives_ask [where S = "\<lambda>_. I", OF gives_weaken [OF keeps_request_reply] keeps_finish_dispatch])
      (simp split: sum.split)
  show ?thesis
    unfolding send_and_reply_def Let_def
    by (rule gives_bind [OF prepared gives_bind [OF keeps_send]])
      (intro keeps_case_sum gives_after [OF idle(1)] gives_bind [OF failed] replied
        keeps_bind [OF keeps_if [OF keeps_reset_after_error keeps_quiet [OF idle(2)]]] keeps_quiet [OF quiet_ok])
qed

lemma keeps_dispatch: "keeps I (dispatch_write_request env input server_timeout)"
  unfolding dispatch_write_request_def Let_def
  by (intro keeps_ask [OF keeps_resets [OF resets_apply_update]] keeps_if keeps_send_and_reply
      keeps_bind [OF keeps_resets [OF resets_ensure_process]] keeps_case_sum keeps_bind [OF keeps_error_reply]
      keeps_finish_dispatch)

lemma keeps_text: "keeps I (write_stdin_text env mode s worker_timeout server_timeout options)"
proof -
  have "keeps I (case outcome of
      Continue \<Rightarrow> dispatch_write_request env input server_timeout
    | PreflightReply reply \<Rightarrow> ok reply)" for outcome and input :: "'b write_input"
    by (cases outcome) (simp_all add: keeps_dispatch keeps_quiet quiet_ok)
  then show ?thesis
    unfolding write_stdin_text_def Let_def by (intro keeps_ask keeps_preflight)
qed

lemma keeps_control:
  assumes tail: "\<And>worker_timeout server_timeout options. keeps I (write_tail worker_timeout server_timeout options)"
  shows "keeps I (write_stdin_control env mode action rest write_tail worker_timeout server_timeout options)"
proof -
  have clear: "quiet (change clear_guardrail_busy_event)"
    by (intro quiet_intros) simp
  have counted: "keeps I (change (\<lambda>m. m\<lparr>mg_last_detached_prefix_item_count :=
      mg_last_detached_prefix_item_count m + n\<rparr>))" for n
    by (rule gives_change) (simp add: count)
  have spawn: "quiet (case action of
      Interrupt \<Rightarrow> control_only_interrupt_requires_spawn env | Restart \<Rightarrow> ok False)"
    by (cases action) (simp_all add: quiet_requires_spawn quiet_ok)
  show ?thesis
    unfolding write_stdin_control_def Let_def
    by (intro gives_after [OF clear] keeps_ask [OF keeps_quiet [OF spawn]]
        keeps_ask [OF keeps_quiet [OF quiet_return]] keeps_ask [OF keeps_perform_control]
        gives_after [OF quiet_now] gives_after [OF quiet_see] keeps_ask [OF tail] keeps_bind [OF counted]
        keeps_ask keeps_if keeps_bind [OF keeps_maybe_reset] keeps_quiet [OF quiet_ok]
        keeps_quiet [OF quiet_stage_update(1)] keeps_quiet [OF quiet_stage_update(2)])
qed

lemma keeps_write_stdin_for: "keeps I (write_stdin_for env mode s worker_timeout server_timeout options)"
proof (induction env mode s arbitrary: worker_timeout server_timeout options rule: write_stdin_for.induct)
  case (1 env mode s)
  have started: "keeps I (change (\<lambda>m. m\<lparr>mg_last_detached_prefix_item_count := 0\<rparr>))"
    by (rule gives_change) (simp add: count)
  have "keeps I (case split_write_stdin_control_prefix s of
      Some (action, rest) \<Rightarrow> write_stdin_control env mode action rest (write_stdin_for env mode rest)
        worker_timeout server_timeout options
    | None \<Rightarrow> write_stdin_text env mode s worker_timeout server_timeout options)"
    using 1 by (auto intro: keeps_text keeps_control split: option.split)
  then show ?case
    by (subst write_stdin_for.simps) (rule keeps_bind [OF started])
qed

lemma keeps_write_stdin: "keeps I (write_stdin env s worker_timeout server_timeout options)"
proof -
  have "quiet (change (\<lambda>m. m\<lparr>mg_write_in_progress := True, mg_last_write_respawned := False\<rparr>))"
    "quiet (change (\<lambda>m. m\<lparr>mg_write_in_progress := False\<rparr>))"
    by (intro quiet_intros; simp)+
  then show ?thesis
    unfolding write_stdin_def
    by (intro gives_after keeps_bind [OF keeps_write_stdin_for] keeps_quiet [OF quiet_return] quiet_see)
qed

end

section \<open>The state of the request\<close>

text \<open>
  A pending request has a time at which it started, an error is only kept for a pending request, a
  completion only when none is pending.
\<close>

definition wf_request :: "view \<Rightarrow> bool" where
  "wf_request v \<longleftrightarrow>
     (v_pending v \<longleftrightarrow> v_started_at v \<noteq> None) \<and> (v_error v \<noteq> None \<longrightarrow> v_pending v) \<and>
     (v_completion v \<noteq> None \<longrightarrow> \<not> v_pending v)"

interpretation consistent: count_free_invariant wf_request
  by unfold_locales (auto simp: wf_request_def forgotten_def)

fun writes ::
  "('u, 'w) worker_env \<Rightarrow> (string \<times> nat \<times> nat \<times> 'u write_stdin_options) list \<Rightarrow>
   'w manager \<Rightarrow> 'w manager" where
  "writes env [] m = m"
| "writes env ((s, worker_timeout, server_timeout, options) # inputs) m =
     writes env inputs (snd (run_state (write_stdin env s worker_timeout server_timeout options) m))"

lemma writes_keep: "wf_request (view_of m) \<Longrightarrow> wf_request (view_of (writes env inputs m))"
proof (induction env inputs m rule: writes.induct)
  case (2 env s worker_timeout server_timeout options inputs m)
  then show ?case
    using consistent.keeps_write_stdin [of env s worker_timeout server_timeout options]
    by (simp add: gives_def)
qed simp

text \<open>
  C8. However inputs, control characters, timeouts, crashes, memory limits, failing starts and
  changes of the sandbox interleave with captured output, the manager's record of the request stays
  consistent: a request is pending exactly while its start is known, an error is kept only for a
  pending request, and a completion only when no request is pending.
\<close>

theorem request_state_stays_consistent:
  "wf_request (view_of (writes env inputs (manager_new builtin mode capacity use_bwrap w)))"
  by (rule writes_keep) (simp add: wf_request_def manager_new_def view_of_def Let_def)

end
