(* ===== verification/Flow_Replies.thy ===== *)
theory Flow_Replies
  imports Flow_Invariant
begin

text \<open>
  What the replies of the flow promise: how many of their items belong to earlier output, when an
  input is passed on to the worker, and what a reply to a reset says of errors.
\<close>

section \<open>Items of earlier output\<close>

text \<open>
  How many items at the front of a reply belong to output from before the request. The server
  splits the reply there, so there are never more than the reply has items.
\<close>

interpretation bounded: request_invariant "\<lambda>v. v_item_count v \<le> n" for n
  by unfold_locales (auto simp: forgotten_def)

interpretation uncounted: request_invariant "\<lambda>v. v_item_count v = 0"
  by unfold_locales (auto simp: forgotten_def)

lemma completed_reply_appends:
  "length contents \<le>
     length (reply_contents (bc_reply (build_completed_reply True contents is_error completion session_end mode b)))"
  by (simp add: build_completed_reply_def Let_def finalize_contents_def append_protocol_warnings_def
      reconcile_completion_prompt_def reconcile_python_completion_prompt_def append_prompt_def
      split: completion_reply_mode.split backend.split option.split)

lemma dedupe_loop_length [simp]: "length (fst (dedupe_loop cs st)) = length cs"
  by (induction cs arbitrary: st) (simp_all add: case_prod_beta Let_def)

lemma page_reply_appends: "length contents \<le> length (fst (page_reply contents is_error snapshot m))"
  by (simp add: page_reply_def maybe_activate_and_append_footer_def dedupe_images_def case_prod_beta
      Let_def split: option.split)

lemma rposition_less: "rposition P xs = Some idx \<Longrightarrow> idx < length xs"
  by (cases xs) (auto simp: rposition_def)

lemma strip_trailing_count:
  "length (case reply_prompt pre of
      Some p \<Rightarrow> strip_trailing_prompt p (reply_contents pre) | None \<Rightarrow> reply_contents pre) =
   prefixed_worker_reply_item_count pre"
  by (auto simp: prefixed_worker_reply_item_count_def strip_trailing_prompt_def remove_at_def Let_def
      dest: rposition_less split: option.split worker_content.split)

lemma join_newline_length [simp]: "length (join_newline cs ds) = length cs"
  by (simp add: join_newline_def split: worker_content.split list.split)

lemma prefix_reply_length:
  "length (reply_contents (prefix_worker_reply pre suf)) =
     prefixed_worker_reply_item_count pre + length (reply_contents suf)"
  by (simp add: prefix_worker_reply_def Let_def strip_trailing_count [symmetric])

definition counted :: "worker_error + worker_reply \<Rightarrow> view \<Rightarrow> bool" where
  "counted r v = (case r of Inl _ \<Rightarrow> True | Inr reply \<Rightarrow> v_item_count v \<le> length (reply_contents reply))"

definition counted_outcome :: "worker_error + write_preflight_outcome \<Rightarrow> view \<Rightarrow> bool" where
  "counted_outcome r v =
     (case r of
        Inl _ \<Rightarrow> True
      | Inr Continue \<Rightarrow> v_item_count v = 0
      | Inr (PreflightReply reply) \<Rightarrow> v_item_count v \<le> length (reply_contents reply))"

definition counted_answer :: "worker_error + write_preflight_outcome option \<Rightarrow> view \<Rightarrow> bool" where
  "counted_answer r v =
     (case r of
        Inr None \<Rightarrow> v_item_count v = 0
      | Inr (Some outcome) \<Rightarrow> counted_outcome (Inr outcome) v
      | Inl _ \<Rightarrow> True)"

lemma counted_finish:
  "gives (\<lambda>v. v_item_count v \<le> length (reply_contents reply))
     (finish_reply env update suppress prechecked reply) counted_outcome"
  unfolding finish_reply_def
  by (rule gives_ask [where S = "\<lambda>_ v. v_item_count v \<le> length (reply_contents reply)"])
    (auto intro!: gives_weaken [OF bounded.keeps_maybe_reset_with_options] gives_ok
      simp: counted_outcome_def split: sum.split)

lemma counted_answered_finish:
  "gives (\<lambda>v. v_item_count v \<le> length (reply_contents reply))
     (ask (finish_reply env update suppress prechecked reply) (\<lambda>outcome. ok (Some outcome))) counted_answer"
  by (rule gives_ask [where S = "\<lambda>outcome. counted_outcome (Inr outcome)",
        OF gives_weaken [OF counted_finish]])
    (auto intro!: gives_ok simp: counted_answer_def counted_outcome_def split: sum.split)

lemma counted_answered:
  "gives (\<lambda>v. v_item_count v = 0) f counted_answer \<Longrightarrow>
   gives (\<lambda>v. v_item_count v = 0) g counted_outcome \<Longrightarrow>
   gives (\<lambda>v. v_item_count v = 0) (answered f g) counted_outcome"
  unfolding answered_def
proof (rule gives_ask [where S = "\<lambda>r. counted_answer (Inr r)"])
  assume f: "gives (\<lambda>v. v_item_count v = 0) f counted_answer"
    and g: "gives (\<lambda>v. v_item_count v = 0) g counted_outcome"
  show "gives (\<lambda>v. v_item_count v = 0) f
      (\<lambda>r v. case r of Inl err \<Rightarrow> counted_outcome (Inl err) v | Inr x \<Rightarrow> counted_answer (Inr x) v)"
    by (rule gives_weaken [OF f]) (auto simp: counted_outcome_def split: sum.split)
  show "gives (counted_answer (Inr r)) (case r of Some outcome \<Rightarrow> ok outcome | None \<Rightarrow> g) counted_outcome" for r
  proof (cases r)
    case None
    then show ?thesis using gives_pre [OF g, of "counted_answer (Inr None)"] by (simp add: counted_answer_def)
  next
    case (Some outcome)
    then show ?thesis by (auto simp: counted_answer_def intro!: gives_ok)
  qed
qed

lemma error_reply_length:
  "length (ic_detached_prefix_contents ctx) \<le>
     length (reply_contents (fst (build_reply_from_worker_error_files err ctx m)))"
  "length (ic_detached_prefix_contents ctx) \<le>
     length (reply_contents (fst (build_reply_from_worker_error_pager lib err ctx page m)))"
  by (simp_all add: build_reply_from_worker_error_files_def build_reply_from_worker_error_pager_def
      maybe_activate_and_append_footer_def dedupe_images_def case_prod_beta Let_def split: option.split)

lemma error_reply_counted:
  "v_item_count (view_of (snd (worker_error_reply lib mode page err m))) \<le>
     length (reply_contents (fst (worker_error_reply lib mode page err m)))"
  by (cases mode) (simp_all add: worker_error_reply_def case_prod_beta Let_def error_reply_length)

lemmas counted_answered_finishes =
  counted_answered_finish [of _ _ None False False, folded finish_default_preflight_reply_def]
  counted_answered_finish [of _ _ None True False, folded finish_pager_local_reply_def]

lemma counted_finish_caller:
  "gives (\<lambda>v. v_item_count v \<le> length (reply_contents reply))
     (ask (finish_caller_preflight_reply env input reply) (\<lambda>outcome. ok (Some outcome))) counted_answer"
  by (simp add: finish_caller_preflight_reply_def counted_answered_finish Let_def)

lemma uncounted_finish:
  "gives (\<lambda>v. v_item_count v = 0)
     (ask (finish_pager_local_reply env reply) (\<lambda>outcome. ok (Some outcome))) counted_answer"
  "gives (\<lambda>v. v_item_count v = 0)
     (ask (finish_caller_preflight_reply env input reply) (\<lambda>outcome. ok (Some outcome))) counted_answer"
  by (rule gives_pre [OF counted_answered_finishes(2)], simp)
    (rule gives_pre [OF counted_finish_caller], simp)

lemma counted_none: "gives (\<lambda>v. v_item_count v = 0) (ok None) counted_answer"
  by (rule gives_ok) (simp add: counted_answer_def)

lemma counted_error_reply:
  "gives P (State (worker_error_reply lib mode page err))
     (\<lambda>reply v. v_item_count v \<le> length (reply_contents reply))"
  by (rule gives_State) (rule error_reply_counted)

lemma counted_guardrail_abort:
  "gives (\<lambda>v. v_item_count v = 0) (guardrail_busy_abort env input) counted_answer"
proof -
  have quiets: "quiet (change (\<lambda>m. m\<lparr>mg_guardrail_event := None, mg_guardrail_busy := False\<rparr>))"
    "quiet (change maybe_emit_guardrail_notice)"
    by (intro quiet_intros; simp)+
  show ?thesis
    unfolding guardrail_busy_abort_def
    by (intro gives_after [OF quiet_see] keeps_if counted_none gives_after [OF quiets(1)]
        gives_after [OF quiets(2)] keeps_case_option gives_bind [OF counted_error_reply]
        gives_bind [OF bounded.keeps_reset_after_error] counted_answered_finishes(1))
qed

lemma counted_pager_command:
  "gives (\<lambda>v. v_item_count v = 0) (handle_nonempty_pager_command env input) counted_answer"
  "gives (\<lambda>v. v_item_count v = 0) (empty_input_pager_command env input) counted_answer"
proof -
  have quiets: "quiet (State (handle_pager_command lib c b s))"
    "quiet (change (\<lambda>m. m\<lparr>mg_pager := dismiss (mg_pager m), mg_pager_prompt := None\<rparr>))" for lib c b s
    by (intro quiet_intros; simp)+
  show "gives (\<lambda>v. v_item_count v = 0) (handle_nonempty_pager_command env input) counted_answer"
    "gives (\<lambda>v. v_item_count v = 0) (empty_input_pager_command env input) counted_answer"
    unfolding handle_nonempty_pager_command_def empty_input_pager_command_def Let_def
    by (intro gives_after [OF quiet_see] keeps_if counted_none gives_after [OF quiets(1)]
        gives_after [OF quiets(2)] keeps_case_option uncounted_finish(1))+
qed

lemma counted_ask:
  "keeps I f \<Longrightarrow> (\<And>err v. Q (Inl err) v) \<Longrightarrow> (\<And>x. gives I (g x) Q) \<Longrightarrow> gives I (ask f g) Q"
  by (rule gives_ask [where S = "\<lambda>_. I"]) (auto simp: gives_def split: sum.split)

lemma counted_errors [simp]:
  "counted_answer (Inl err) v" "counted_outcome (Inl err) v" "counted (Inl err) v"
  by (simp_all add: counted_answer_def counted_outcome_def counted_def)

lemma counted_pending_poll:
  "gives (\<lambda>v. v_item_count v = 0) (empty_input_pending_poll env input) counted_answer"
  unfolding empty_input_pending_poll_def
  by (intro gives_after [OF quiet_see] keeps_if counted_none counted_ask [OF uncounted.keeps_poll]
      uncounted_finish(2)) simp

lemma counted_busy:
  "gives (\<lambda>v. v_item_count v = 0) (pending_request_busy_follow_up env input) counted_answer"
proof -
  have counts: "gives P (change (\<lambda>m. m\<lparr>mg_last_detached_prefix_item_count := length (reply_contents reply)\<rparr>))
      (\<lambda>_ v. v_item_count v \<le> length (reply_contents (mark_busy_follow_up_reply reply)))" for P reply
    by (rule gives_change) (simp add: mark_busy_follow_up_reply_def)
  show ?thesis
    unfolding pending_request_busy_follow_up_def
    by (intro gives_after [OF quiet_see] keeps_if counted_none counted_ask [OF uncounted.keeps_poll]
        gives_bind [OF counts counted_finish_caller]) simp_all
qed

lemma counted_ensure:
  "gives (\<lambda>v. v_item_count v = 0) (ensure_process_or_error_reply env input) counted_answer"
  unfolding ensure_process_or_error_reply_def
  by (intro gives_bind [OF uncounted.keeps_resets [OF resets_ensure_process]] keeps_case_sum counted_none
      gives_bind [OF counted_error_reply] counted_answered_finishes(1))

lemma counted_idle: "gives (\<lambda>v. v_item_count v = 0) (idle_reply env input) counted_outcome"
proof -
  have "quiet (State build_idle_poll_reply)" by (intro quiet_intros) simp
  moreover have "gives (\<lambda>v. v_item_count v = 0) (finish_default_preflight_reply env reply) counted_outcome"
    for reply
    by (rule gives_pre [OF counted_finish [of _ _ None False False, folded finish_default_preflight_reply_def]])
      simp
  ultimately show ?thesis
    unfolding idle_reply_def
    by (intro counted_ask [OF keeps_quiet [OF quiet_reject]] counted_answered counted_ensure gives_after) simp
qed

lemma counted_busy_or_continue:
  "gives (\<lambda>v. v_item_count v = 0) (busy_or_continue env input) counted_outcome"
  unfolding busy_or_continue_def
  by (intro gives_bind [OF uncounted.keeps_resolve_before_busy] counted_answered counted_busy gives_ok)
    (simp add: counted_outcome_def)

lemma counted_preflight: "gives (\<lambda>v. v_item_count v = 0) (write_preflight env input) counted_outcome"
proof -
  have capture: "quiet (change (\<lambda>m. m\<lparr>mg_out := start_capture (mg_out m)\<rparr>))"
    by (intro quiet_intros) simp
  have "gives (\<lambda>v. v_item_count v = 0) (write_preflight_files env input) counted_outcome"
    "gives (\<lambda>v. v_item_count v = 0) (write_preflight_pager env input) counted_outcome"
    unfolding write_preflight_files_def write_preflight_pager_def
    by (intro gives_bind [OF uncounted.keeps_emit] keeps_if counted_answered counted_pending_poll
        counted_idle counted_busy_or_continue gives_after [OF capture] counted_pager_command(2)
        counted_ensure)+
  then show ?thesis
    unfolding write_preflight_def
    by (intro counted_answered counted_guardrail_abort counted_pager_command(1) keeps_case_mode)
qed

lemma counted_reply_length:
  "length (ic_detached_prefix_contents ctx) \<le>
     length (reply_contents (fst (completed_reply_files ctx completion session_end m)))"
  "length (ic_detached_prefix_contents ctx) \<le>
     length (reply_contents (fst (completed_reply_pager lib ctx page completion session_end m)))"
  "length (ic_detached_prefix_contents ctx) \<le>
     length (reply_contents (fst (timed_out_reply_files ctx elapsed m)))"
  "length (ic_detached_prefix_contents ctx) \<le>
     length (reply_contents (fst (timed_out_reply_pager lib ctx page elapsed m)))"
proof -
  show "length (ic_detached_prefix_contents ctx) \<le>
      length (reply_contents (fst (completed_reply_files ctx completion session_end m)))"
    by (simp add: completed_reply_files_def case_prod_beta Let_def prefix_contents_def
        order_trans [OF _ completed_reply_appends])
  show "length (ic_detached_prefix_contents ctx) \<le>
      length (reply_contents (fst (completed_reply_pager lib ctx page completion session_end m)))"
    by (simp add: completed_reply_pager_def complete_pager_reply_def case_prod_beta Let_def prefix_contents_def
        order_trans [OF order_trans [OF _ page_reply_appends] completed_reply_appends])
  show "length (ic_detached_prefix_contents ctx) \<le>
      length (reply_contents (fst (timed_out_reply_files ctx elapsed m)))"
    by (simp add: timed_out_reply_files_def case_prod_beta Let_def prefix_contents_def build_timeout_reply_def)
  show "length (ic_detached_prefix_contents ctx) \<le>
      length (reply_contents (fst (timed_out_reply_pager lib ctx page elapsed m)))"
    by (simp add: timed_out_reply_pager_def case_prod_beta Let_def prefix_contents_def build_timeout_reply_def
        order_trans [OF _ page_reply_appends])
qed

lemma counted_reply:
  "quiet (State f) \<Longrightarrow> (\<And>m. n \<le> length (reply_contents (fst (f m)))) \<Longrightarrow>
   gives (\<lambda>v. v_item_count v \<le> n) (do { reply \<leftarrow> State f; ok reply }) counted"
  by (rule gives_bind [OF gives_State, where S = "\<lambda>reply v. v_item_count v \<le> length (reply_contents reply)"])
    (auto simp: quiet_def counted_def intro!: gives_ok intro: order_trans)

lemma counted_request_reply:
  "gives P (build_write_dispatch_request_reply env request ctx mode page) counted"
proof -
  let ?n = "length (ic_detached_prefix_contents ctx)"
  let ?J = "\<lambda>v. v_item_count v \<le> ?n"
  have noted: "gives P (change (note_item_count ctx)) (\<lambda>_. ?J)"
    by (rule gives_change) (simp add: note_item_count_def)
  have timed_out: "gives ?J (change (note_timed_out request)) (\<lambda>_. ?J)"
    by (rule gives_change) (simp add: note_timed_out_def view_sel)
  have quiets: "quiet (State (completed_reply_files ctx completion session_end))"
    "quiet (State (completed_reply_pager lib ctx page completion session_end))"
    "quiet (State (timed_out_reply_files ctx elapsed))"
    "quiet (State (timed_out_reply_pager lib ctx page elapsed))" for completion session_end elapsed lib
    by (intro quiet_intros; simp)+
  note replies = counted_reply [OF quiets(1) counted_reply_length(1)]
    counted_reply [OF quiets(2) counted_reply_length(2)]
    counted_reply [OF quiets(3) counted_reply_length(3)]
    counted_reply [OF quiets(4) counted_reply_length(4)]
  have reset: "gives (\<lambda>v. v_item_count v \<le> length (reply_contents reply))
      (reset_preserving_detached_prefix_item_count env) (\<lambda>_ v. v_item_count v \<le> length (reply_contents reply))"
    "gives (\<lambda>v. v_item_count v \<le> length (reply_contents reply))
      (reset_with_pager_preserving_detached_prefix_item_count env b)
      (\<lambda>_ v. v_item_count v \<le> length (reply_contents reply))" for b reply
    unfolding reset_preserving_detached_prefix_item_count_def
      reset_with_pager_preserving_detached_prefix_item_count_def
    by (intro bounded.keeps_preserving resets_reset)+
  have ended: "gives (\<lambda>v. v_item_count v \<le> length (reply_contents reply)) (ok reply) counted" for reply
    by (rule gives_ok) (simp add: counted_def)
  have errors: "gives ?J (State (build_reply_from_worker_error_files err ctx))
      (\<lambda>reply v. v_item_count v \<le> length (reply_contents reply))"
    "gives ?J (State (build_reply_from_worker_error_pager lib err ctx page))
      (\<lambda>reply v. v_item_count v \<le> length (reply_contents reply))" for err lib
    by (rule gives_State, simp add: error_reply_length)+
  show ?thesis
    unfolding build_write_dispatch_request_reply_def build_reply_from_request_files_def
      build_reply_from_request_pager_def
    by (intro keeps_case_mode gives_bind [OF noted] gives_after [OF quiet_wait_completion] keeps_case_sum
        keeps_case_error replies gives_bind [OF errors(1)] gives_bind [OF errors(2)]
        gives_bind [OF reset(1)] gives_bind [OF reset(2)] ended gives_after [OF quiet_see]
        gives_ask_after [OF quiet_timed_out_worker_runs] gives_ask_after [OF quiet_session_ended]
        gives_after [OF quiet_only_if [OF quiet_meanwhile]] gives_bind [OF timed_out]
        gives_after [OF quiet_now] gives_after [OF quiet_only_if [OF quiet_note_session_end]]; simp)
qed

lemma counted_finish_dispatch:
  "gives (\<lambda>v. v_item_count v \<le> length (reply_contents reply)) (finish_dispatch env reply) counted"
  unfolding finish_dispatch_def
  by (rule gives_ask [where S = "\<lambda>_ v. v_item_count v \<le> length (reply_contents reply)"])
    (auto intro!: gives_weaken [OF bounded.keeps_maybe_reset_with_options] gives_ok
      simp: counted_def split: sum.split)

lemma gives_True: "gives P f (\<lambda>_ _. True)"
  by (simp add: gives_def)

lemma counted_send_and_reply: "gives P (send_and_reply env input server_timeout) counted"
proof -
  have idle: "quiet (change (\<lambda>m. m\<lparr>mg_guardrail_busy := False\<rparr>))"
    "quiet (change (\<lambda>m. m\<lparr>mg_pending_request_input := None\<rparr>))"
    by (intro quiet_intros; simp)+
  have failed: "gives P' (State (error_reply_from_context lib mode page err ctx))
      (\<lambda>reply v. v_item_count v \<le> length (reply_contents reply))" for P' lib mode page err ctx
    by (rule gives_State)
      (simp add: error_reply_from_context_def error_reply_length split: write_stdin_mode.split)
  have cleaned: "gives (\<lambda>v. v_item_count v \<le> n)
      (if b then reset_after_worker_error env mode else change (\<lambda>m. m\<lparr>mg_pending_request_input := None\<rparr>))
      (\<lambda>_ v. v_item_count v \<le> n)" for n b mode
    by (intro keeps_if bounded.keeps_reset_after_error keeps_quiet [OF idle(2)])
  have ended: "gives (\<lambda>v. v_item_count v \<le> length (reply_contents reply)) (ok reply) counted" for reply
    by (rule gives_ok) (simp add: counted_def)
  have replied: "gives P' (ask (build_write_dispatch_request_reply env request ctx mode page)
      (finish_dispatch env)) counted" for P' request ctx mode page
    by (rule gives_ask [where S = "\<lambda>reply v. v_item_count v \<le> length (reply_contents reply)",
          OF gives_weaken [OF counted_request_reply] counted_finish_dispatch])
      (simp add: counted_def split: sum.splits)
  show ?thesis
    unfolding send_and_reply_def Let_def
    by (rule gives_bind [OF gives_True gives_bind [OF gives_True]])
      (intro keeps_case_sum gives_after [OF idle(1)] gives_bind [OF failed] gives_bind [OF cleaned] ended replied)
qed

lemma counted_ask_any:
  "(\<And>x. gives (\<lambda>_. True) (g x) counted) \<Longrightarrow> gives P (ask f g) counted"
  by (rule gives_ask [where S = "\<lambda>_ _. True", OF gives_weaken [OF gives_True]]) (auto split: sum.split)

lemma counted_dispatch: "gives P (dispatch_write_request env input server_timeout) counted"
  unfolding dispatch_write_request_def Let_def
  by (intro counted_ask_any keeps_if keeps_case_sum counted_send_and_reply gives_bind [OF gives_True]
      gives_bind [OF counted_error_reply counted_finish_dispatch])

lemma counted_text:
  "gives (\<lambda>v. v_item_count v = 0)
     (write_stdin_text env mode s worker_timeout server_timeout options) counted"
proof -
  have "gives (counted_outcome (Inr outcome)) (case outcome of
      Continue \<Rightarrow> dispatch_write_request env input server_timeout
    | PreflightReply reply \<Rightarrow> ok reply) counted" for outcome and input :: "'b write_input"
    by (cases outcome) (auto simp: counted_dispatch counted_outcome_def counted_def intro!: gives_ok)
  then show ?thesis
    unfolding write_stdin_text_def Let_def
    by (intro gives_ask [where S = "\<lambda>outcome. counted_outcome (Inr outcome)"]
        gives_weaken [OF counted_preflight]) (auto split: sum.split)
qed

text \<open>
  A control character in front: its reply is put before that of the rest, and all its items count
  as earlier output.
\<close>

lemma counted_control:
  assumes tail: "\<And>worker_timeout server_timeout options.
      gives (\<lambda>_. True) (write_tail worker_timeout server_timeout options) counted"
  shows "gives (\<lambda>v. v_item_count v = 0)
      (write_stdin_control env mode action rest write_tail worker_timeout server_timeout options) counted"
proof -
  let ?I = "\<lambda>v. v_item_count v = 0"
  have clear: "quiet (change clear_guardrail_busy_event)"
    by (intro quiet_intros) simp
  have spawn: "quiet (case action of
      Interrupt \<Rightarrow> control_only_interrupt_requires_spawn env | Restart \<Rightarrow> ok False)"
    by (cases action) (simp_all add: quiet_requires_spawn quiet_ok)
  have alone: "gives ?I (ok reply) counted" for reply
    by (rule gives_ok) (simp add: counted_def)
  have joined: "gives (counted (Inr reply))
      (do { change (\<lambda>m. m\<lparr>mg_last_detached_prefix_item_count :=
                mg_last_detached_prefix_item_count m + prefixed_worker_reply_item_count control_reply\<rparr>);
            ok (prefix_worker_reply control_reply reply) }) counted" for control_reply reply
    by (rule gives_bind [OF gives_change, where S = "\<lambda>_. counted (Inr (prefix_worker_reply control_reply reply))"])
      (auto simp: counted_def prefix_reply_length view_sel intro!: gives_ok)
  have followed: "gives ?I (ask (write_tail w s opts) (\<lambda>reply.
      do { change (\<lambda>m. m\<lparr>mg_last_detached_prefix_item_count :=
                mg_last_detached_prefix_item_count m + prefixed_worker_reply_item_count control_reply\<rparr>);
           ok (prefix_worker_reply control_reply reply) })) counted" for w s opts control_reply
    by (rule gives_ask [OF _ joined], rule gives_weaken [OF gives_pre [OF tail]]) (auto split: sum.split)
  have staged: "keeps ?I (stage_session_end_sandbox_state_update env update b)"
    "keeps ?I (stage_deferred_sandbox_state_update env update)" for update b
    by (rule keeps_quiet, rule quiet_stage_update)+
  have ended: "keeps ?I (if b then ask (stage_session_end_sandbox_state_update env update b')
      (\<lambda>_. do { maybe_reset_after_session_end env; ok () }) else ok ())" for b b' update
    by (intro keeps_if keeps_ask staged keeps_bind [OF uncounted.keeps_maybe_reset] keeps_quiet [OF quiet_ok])
  have before: "keeps ?I (if b then stage_deferred_sandbox_state_update env update else ok ())" for b update
    by (intro keeps_if staged keeps_quiet [OF quiet_ok])
  show ?thesis
    unfolding write_stdin_control_def Let_def
    by (intro gives_after [OF clear] counted_ask [OF keeps_quiet [OF spawn]]
        counted_ask [OF keeps_quiet [OF quiet_return]] counted_ask [OF before]
        counted_ask [OF uncounted.keeps_perform_control] counted_ask [OF ended]
        gives_after [OF quiet_now] gives_after [OF quiet_see] keeps_if alone followed counted_errors)
qed

lemma counted_write_stdin_for:
  "gives (\<lambda>_. True) (write_stdin_for env mode s worker_timeout server_timeout options) counted"
proof (induction env mode s arbitrary: worker_timeout server_timeout options rule: write_stdin_for.induct)
  case (1 env mode s)
  have started: "gives (\<lambda>_. True) (change (\<lambda>m. m\<lparr>mg_last_detached_prefix_item_count := 0\<rparr>))
      (\<lambda>_ v. v_item_count v = 0)"
    by (rule gives_change) simp
  have "gives (\<lambda>v. v_item_count v = 0) (case split_write_stdin_control_prefix s of
      Some (action, rest) \<Rightarrow> write_stdin_control env mode action rest (write_stdin_for env mode rest)
        worker_timeout server_timeout options
    | None \<Rightarrow> write_stdin_text env mode s worker_timeout server_timeout options) counted"
    using 1 by (auto intro: counted_text counted_control split: option.split)
  then show ?case
    by (subst write_stdin_for.simps) (rule gives_bind [OF started])
qed

lemma counted_write_stdin: "gives (\<lambda>_. True) (write_stdin env s worker_timeout server_timeout options) counted"
proof -
  have writing: "quiet (change (\<lambda>m. m\<lparr>mg_write_in_progress := True, mg_last_write_respawned := False\<rparr>))"
    "quiet (change (\<lambda>m. m\<lparr>mg_write_in_progress := False\<rparr>))"
    by (intro quiet_intros; simp)+
  then show ?thesis
    unfolding write_stdin_def
    by (intro gives_after [OF writing(1)] gives_after [OF quiet_see] gives_bind [OF counted_write_stdin_for]
        gives_after [OF writing(2)] gives_return)
qed

text \<open>
  C10. The manager tells the server how many items at the front of a reply are output from before
  the request. Whatever the input (control characters in front, a poll, a pager command, a request
  that completes, times out or fails), and whatever the worker and the background threads do, the
  count stays within the reply it describes, so splitting the reply there never runs past its end.
\<close>

theorem item_count_within_reply:
  "case run_state (write_stdin env s worker_timeout server_timeout options) m of
     (Inr reply, m') \<Rightarrow> mg_last_detached_prefix_item_count m' \<le> length (reply_contents reply)
   | (Inl err, m') \<Rightarrow> True"
proof -
  have "counted (fst (run_state (write_stdin env s worker_timeout server_timeout options) m))
      (view_of (snd (run_state (write_stdin env s worker_timeout server_timeout options) m)))"
    using counted_write_stdin [of env s worker_timeout server_timeout options] by (simp add: gives_def case_prod_beta)
  then show ?thesis
    by (auto simp: counted_def view_of_def split: prod.split sum.split)
qed

section \<open>Inputs wait for the request\<close>

definition clear_to_send :: "bool \<Rightarrow> worker_error + write_preflight_outcome \<Rightarrow> view \<Rightarrow> bool" where
  "clear_to_send typed r v = (r = Inr Continue \<longrightarrow> typed \<and> \<not> v_pending v)"

abbreviation no_continue :: "('w, write_preflight_outcome option) result_flow \<Rightarrow> bool" where
  "no_continue f \<equiv> gives (\<lambda>_. True) f (\<lambda>r _. r \<noteq> Inr (Some Continue))"

lemma finish_no_continue:
  "gives (\<lambda>_. True) (finish_reply env update suppress prechecked reply) (\<lambda>r _. r \<noteq> Inr Continue)"
  unfolding finish_reply_def
  by (rule gives_ask [where S = "\<lambda>_ _. True"])
    (auto intro!: gives_weaken [OF gives_True] gives_ok split: sum.split)

lemma no_continue_finish:
  "no_continue (ask (finish_reply env update suppress prechecked reply) (\<lambda>outcome. ok (Some outcome)))"
  by (rule gives_ask [where S = "\<lambda>outcome _. outcome \<noteq> Continue"])
    (auto intro!: gives_weaken [OF finish_no_continue] gives_ok split: sum.split)

lemmas no_continue_finishes =
  no_continue_finish
  no_continue_finish [of _ None False False, folded finish_default_preflight_reply_def]
  no_continue_finish [of _ None True False, folded finish_pager_local_reply_def]

lemma no_continue_finish_caller:
  "no_continue (ask (finish_caller_preflight_reply env input reply) (\<lambda>outcome. ok (Some outcome)))"
  by (simp add: finish_caller_preflight_reply_def no_continue_finish Let_def)

lemma no_continue_none: "gives P (ok None) (\<lambda>r _. r \<noteq> Inr (Some Continue))"
  by (rule gives_ok) simp

lemma no_continue_bind: "(\<And>x. no_continue (g x)) \<Longrightarrow> no_continue (State_Monad.bind f g)"
  by (rule gives_bind [OF gives_True])

lemma no_continue_ask: "(\<And>x. no_continue (g x)) \<Longrightarrow> no_continue (ask f g)"
  by (rule gives_ask [where S = "\<lambda>_ _. True", OF gives_weaken [OF gives_True]]) (auto split: sum.split)

lemmas no_continue_intros =
  no_continue_finishes no_continue_finish_caller no_continue_none no_continue_bind no_continue_ask keeps_if
  keeps_case_option keeps_case_sum

lemma no_continue_steps:
  "no_continue (guardrail_busy_abort env input)"
  "no_continue (handle_nonempty_pager_command env input)"
  "no_continue (empty_input_pager_command env input)"
  "no_continue (empty_input_pending_poll env input)"
  "no_continue (ensure_process_or_error_reply env input)"
  unfolding guardrail_busy_abort_def handle_nonempty_pager_command_def empty_input_pager_command_def
    empty_input_pending_poll_def ensure_process_or_error_reply_def Let_def
  by (intro no_continue_intros)+

lemma clear_answered:
  "no_continue f \<Longrightarrow> gives (\<lambda>_. True) g (clear_to_send typed) \<Longrightarrow>
   gives (\<lambda>_. True) (answered f g) (clear_to_send typed)"
  unfolding answered_def
proof (rule gives_ask [where S = "\<lambda>r _. r \<noteq> Some Continue"])
  assume f: "no_continue f" and g: "gives (\<lambda>_. True) g (clear_to_send typed)"
  show "gives (\<lambda>_. True) f
      (\<lambda>r v. case r of Inl err \<Rightarrow> clear_to_send typed (Inl err) v | Inr x \<Rightarrow> x \<noteq> Some Continue)"
    by (rule gives_weaken [OF f]) (auto simp: clear_to_send_def split: sum.split)
  show "gives (\<lambda>_. r \<noteq> Some Continue) (case r of Some outcome \<Rightarrow> ok outcome | None \<Rightarrow> g) (clear_to_send typed)"
    for r
    using g by (cases r) (auto simp: clear_to_send_def intro!: gives_ok elim: gives_pre)
qed

lemma busy_clears:
  "gives (\<lambda>_. True) (pending_request_busy_follow_up env input)
     (\<lambda>r v. r \<noteq> Inr (Some Continue) \<and> (r = Inr None \<longrightarrow> \<not> v_pending v))"
proof -
  let ?some = "\<lambda>r _. r \<noteq> Inr (Some Continue) \<and> r \<noteq> Inr None"
  have finished: "gives (\<lambda>_. True) (ask (finish_caller_preflight_reply env input reply)
      (\<lambda>outcome. ok (Some outcome))) ?some" for reply
    unfolding finish_caller_preflight_reply_def Let_def
    by (rule gives_ask [where S = "\<lambda>outcome _. outcome \<noteq> Continue"])
      (auto intro!: gives_weaken [OF finish_no_continue] gives_ok split: sum.split)
  have polled: "gives (\<lambda>_. True) (ask (poll_for_mode env mode timeout page) (\<lambda>reply.
      do { change (\<lambda>m. m\<lparr>mg_last_detached_prefix_item_count := length (reply_contents reply)\<rparr>);
           ask (finish_caller_preflight_reply env input (mark_busy_follow_up_reply reply))
             (\<lambda>outcome. ok (Some outcome)) })) ?some" for mode timeout page
    by (rule gives_ask [where S = "\<lambda>_ _. True", OF gives_weaken [OF gives_True]
          gives_bind [OF gives_True finished]]) (auto split: sum.split)
  show ?thesis
    unfolding pending_request_busy_follow_up_def
  proof (rule gives_bind [OF gives_see, where S = "\<lambda>pending v. pending = v_pending v"])
    fix pending
    show "gives (\<lambda>v. pending = v_pending v)
      (if \<not> pending then ok None
       else ask (poll_for_mode env (wi_mode input) (wi_worker_timeout input) (wi_page_bytes input)) (\<lambda>reply.
         do { change (\<lambda>m. m\<lparr>mg_last_detached_prefix_item_count := length (reply_contents reply)\<rparr>);
              ask (finish_caller_preflight_reply env input (mark_busy_follow_up_reply reply))
                (\<lambda>outcome. ok (Some outcome)) }))
      (\<lambda>r v. r \<noteq> Inr (Some Continue) \<and> (r = Inr None \<longrightarrow> \<not> v_pending v))"
      by (cases pending) (auto intro!: gives_ok gives_weaken [OF gives_pre [OF polled]])
  qed (simp add: view_of_def)
qed

lemma clear_busy_or_continue:
  "gives (\<lambda>_. True) (busy_or_continue env input) (clear_to_send True)"
  unfolding busy_or_continue_def answered_def
proof (rule gives_bind [OF gives_True gives_ask])
  show "gives (\<lambda>_. True) (pending_request_busy_follow_up env input)
      (\<lambda>r v. case r of Inl err \<Rightarrow> clear_to_send True (Inl err) v
        | Inr x \<Rightarrow> x \<noteq> Some Continue \<and> (x = None \<longrightarrow> \<not> v_pending v))"
    by (rule gives_weaken [OF busy_clears]) (auto simp: clear_to_send_def split: sum.split)
  show "gives (\<lambda>v. r \<noteq> Some Continue \<and> (r = None \<longrightarrow> \<not> v_pending v))
      (case r of Some outcome \<Rightarrow> ok outcome | None \<Rightarrow> ok Continue) (clear_to_send True)" for r
    by (cases r) (auto simp: clear_to_send_def intro!: gives_ok)
qed

lemma clear_idle: "gives (\<lambda>_. True) (idle_reply env input) (clear_to_send typed)"
proof -
  have "gives (\<lambda>_. True) (do { reply \<leftarrow> State build_idle_poll_reply; finish_default_preflight_reply env reply })
      (clear_to_send typed)"
    unfolding finish_default_preflight_reply_def
    by (rule gives_bind [OF gives_True gives_weaken [OF finish_no_continue]]) (simp add: clear_to_send_def)
  then show ?thesis
    unfolding idle_reply_def
    by (intro gives_ask [where S = "\<lambda>_ _. True", OF gives_weaken [OF gives_True]]
        clear_answered no_continue_steps) (auto simp: clear_to_send_def split: sum.split)
qed

lemma clear_preflight:
  "gives (\<lambda>_. True) (write_preflight env input) (clear_to_send (wi_text input \<noteq> []))"
proof -
  have "gives (\<lambda>_. True) (write_preflight_files env input) (clear_to_send (wi_text input \<noteq> []))"
    "gives (\<lambda>_. True) (write_preflight_pager env input) (clear_to_send (wi_text input \<noteq> []))"
    unfolding write_preflight_files_def write_preflight_pager_def
    using clear_busy_or_continue [of env input]
    by (auto intro!: gives_bind [OF gives_True] clear_answered no_continue_steps clear_idle)
  then show ?thesis
    unfolding write_preflight_def by (intro clear_answered no_continue_steps keeps_case_mode)
qed

text \<open>
  C9. An input is passed on to the worker only when it has text and no earlier request is
  pending; an empty input, and an input that arrives while a request still runs, is answered by
  the manager itself, in both reply modes and however the worker behaves meanwhile.
\<close>

theorem one_request_at_a_time:
  "case run_state (write_preflight env input) m of
     (Inr Continue, m') \<Rightarrow> wi_text input \<noteq> [] \<and> \<not> mg_pending_request m'
   | (Inr (PreflightReply reply), m') \<Rightarrow> True
   | (Inl err, m') \<Rightarrow> True"
proof -
  have "clear_to_send (wi_text input \<noteq> []) (fst (run_state (write_preflight env input) m))
      (view_of (snd (run_state (write_preflight env input) m)))"
    using clear_preflight [of env input] by (simp add: gives_def)
  then show ?thesis
    by (auto simp: clear_to_send_def view_of_def split: prod.split sum.split write_preflight_outcome.split)
qed

section \<open>Errors in replies to a reset\<close>

lemma collect_events_none:
  "collect_events a e es = [] \<Longrightarrow> a \<le> b \<Longrightarrow> b \<le> e \<Longrightarrow> collect_events b e es = []"
  by (induction es) (auto split: if_splits)

lemma no_image_groups:
  assumes "or_events (read_range a e g) = []" "max a (ring_start g) \<le> max b (ring_start g)"
  shows "collect_image_groups g b e = []"
proof -
  have "or_events (read_range b e g) = []"
    using assms collect_events_none [of "max a (ring_start g)" "min e (ring_end g)" "ring_events g"
        "max b (ring_start g)"]
    by (auto simp: read_range_def collect_range_def Let_def unwrap_or_def split: if_splits)
  then show ?thesis by (simp add: collect_image_groups_def opt_list_def)
qed

lemma read_range_end: "or_end_offset (read_range a (ring_end g) g) = ring_end g"
  by (simp add: read_range_def collect_range_def unwrap_or_def Let_def)

lemma snapshot_reads_all:
  assumes "snapshot_page_with_images lib (ring_end (os_inner out)) target out = (snapshot, out')"
  shows "os_offset out' = Some (ring_end (os_inner out)) \<or> si_contents snapshot = []"
proof (cases "fst (snapshot_from_ring (ring_end (os_inner out)) out)")
  case None
  then have "or_events (read_range (unwrap_or (os_offset (start_capture out)) (ring_end (os_inner out)))
      (ring_end (os_inner out)) (os_inner out)) = []"
    by (auto simp: snapshot_from_ring_def Let_def start_capture_def os_inner_def split: if_splits)
  then have "collect_image_groups (os_inner out)
      (unwrap_or (os_offset out) (ring_end (os_inner out))) (ring_end (os_inner out)) = []"
    by (rule no_image_groups) (auto simp: start_capture_def unwrap_or_def split: option.split)
  moreover have "fst (take_snapshot_page_from_ring lib (ring_end (os_inner out)) target out) = snapshot_empty"
    using None by (auto simp: take_snapshot_page_from_ring_def split: prod.split option.split)
  ultimately show ?thesis
    using assms
    by (auto simp: snapshot_page_with_images_def snapshot_empty_def append_image_groups_after_page_def
        Let_def case_prod_beta split: if_splits)
next
  case (Some a)
  have inner: "os_inner (start_capture out) = os_inner out"
    by (simp add: start_capture_def os_inner_def)
  have "out' = snd (take_snapshot_page_from_ring lib (ring_end (os_inner out)) target out)"
    using assms by (auto simp: snapshot_page_with_images_def Let_def case_prod_beta split: if_splits)
  then have "os_offset out' = Some (ring_end (os_inner out))"
    using Some by (auto simp: take_snapshot_page_from_ring_def snapshot_from_ring_def Let_def case_prod_beta
        inner read_range_end advance_offset_with_rendered_text_def update_inner_def split: if_splits)
  then show ?thesis by simp
qed

text \<open>
  C29. In pager mode the reply to a reset of the session is never marked as an error, whatever
  output it shows: the range it looks for error output in starts at the read position, which the
  page taken before has already moved to the end of the output.
\<close>

theorem pager_reset_reply_hides_errors:
  "\<not> reply_is_error (fst (build_session_reset_reply_pager lib page meta m))"
proof -
  let ?out = "seal_utf8_tails (mg_out m)"
  obtain snapshot out' where
    "snapshot_page_with_images lib (ring_end (os_inner ?out)) page ?out = (snapshot, out')"
    by (meson surj_pair)
  from this snapshot_reads_all [OF this] show ?thesis
    by (auto simp: build_session_reset_reply_pager_def build_session_reset_reply_pager_to_offset_def
        on_output_def output_end_def saw_stderr_def saw_stderr_in_range_def session_reset_reply_def Let_def
        case_prod_beta retain_visible_def unwrap_or_def)
qed

end
