(* ===== verification/Python_Input.thy ===== *)
theory Python_Input
  imports Rust_Prelude
begin

text \<open>
  The queue of input for the Python runtime (\<^verbatim>\<open>src/src/python_input_queue.rs\<close>): payloads that have
  arrived and the bytes of the payload a reader is consuming, with the line ends normalized.
\<close>

section \<open>Operations\<close>

record python_input_queue =
  pq_payloads :: "string list"
  pq_stdin_bytes :: bytes
  pq_active_read_consumer :: bool

definition queue_new :: python_input_queue where
  "queue_new = \<lparr>pq_payloads = [], pq_stdin_bytes = [], pq_active_read_consumer = False\<rparr>"

definition push_payload :: "string \<Rightarrow> python_input_queue \<Rightarrow> python_input_queue" where
  "push_payload input q = q\<lparr>pq_payloads := pq_payloads q @ [input]\<rparr>"

definition take_cell_payload :: "python_input_queue \<Rightarrow> string option \<times> python_input_queue" where
  "take_cell_payload q =
     (if pq_active_read_consumer q then (None, q)
      else
        (case pq_payloads q of
           [] \<Rightarrow> (None, q)
         | payload # rest \<Rightarrow> (Some payload, q\<lparr>pq_payloads := rest, pq_stdin_bytes := []\<rparr>)))"

definition begin_read_consumer :: "python_input_queue \<Rightarrow> bool \<times> python_input_queue" where
  "begin_read_consumer q =
     (if pq_active_read_consumer q then (False, q)
      else (True, q\<lparr>pq_active_read_consumer := True\<rparr>))"

definition end_read_consumer :: "python_input_queue \<Rightarrow> python_input_queue" where
  "end_read_consumer q = q\<lparr>pq_active_read_consumer := False\<rparr>"

definition discard_unconsumed_input :: "python_input_queue \<Rightarrow> python_input_queue" where
  "discard_unconsumed_input q = q\<lparr>pq_payloads := [], pq_stdin_bytes := []\<rparr>"

definition clear_after_interrupt :: "python_input_queue \<Rightarrow> python_input_queue" where
  "clear_after_interrupt q = (discard_unconsumed_input q)\<lparr>pq_active_read_consumer := False\<rparr>"

definition clear_after_cell_finish :: "python_input_queue \<Rightarrow> python_input_queue" where
  "clear_after_cell_finish q =
     (if \<not> pq_active_read_consumer q then q\<lparr>pq_stdin_bytes := []\<rparr> else q)"

definition prepare_worker_stdin_payload :: "string \<Rightarrow> bytes" where
  "prepare_worker_stdin_payload input =
     (if input \<noteq> [] \<and> \<not> ends_with input nl then input @ nl else input)"

text \<open>The loop of \<^verbatim>\<open>normalize_pty_input_payload\<close> over the bytes from the index on.\<close>

fun normalize_pty_input_payload :: "bytes \<Rightarrow> bytes" where
  "normalize_pty_input_payload [] = []"
| "normalize_pty_input_payload [b] = (if b = CHR 0x0D then nl else [b])"
| "normalize_pty_input_payload (b # c # rest) =
     (if b = CHR 0x0D
      then (if c = CHR 0x0A then nl @ normalize_pty_input_payload rest
            else nl @ normalize_pty_input_payload (c # rest))
      else b # normalize_pty_input_payload (c # rest))"

definition refill_stdin_bytes :: "python_input_queue \<Rightarrow> python_input_queue" where
  "refill_stdin_bytes q =
     (if pq_stdin_bytes q \<noteq> [] then q
      else
        (case pq_payloads q of
           [] \<Rightarrow> q
         | payload # rest \<Rightarrow>
             q\<lparr>pq_payloads := rest,
               pq_stdin_bytes := normalize_pty_input_payload (prepare_worker_stdin_payload payload)\<rparr>))"

definition consume_bytes :: "nat \<Rightarrow> python_input_queue \<Rightarrow> bytes option \<times> python_input_queue" where
  "consume_bytes byte_count q =
     (let q1 = refill_stdin_bytes q
      in if byte_count = 0 \<or> pq_stdin_bytes q1 = [] then (None, q1)
         else
           (let n = min byte_count (length (pq_stdin_bytes q1))
            in (Some (take n (pq_stdin_bytes q1)),
                q1\<lparr>pq_stdin_bytes := drop n (pq_stdin_bytes q1)\<rparr>)))"

definition consume_line :: "python_input_queue \<Rightarrow> bytes option \<times> python_input_queue" where
  "consume_line q =
     (let q1 = refill_stdin_bytes q;
          byte_count =
            (case position (\<lambda>b. b = CHR 0x0A) (pq_stdin_bytes q1) of
               None \<Rightarrow> length (pq_stdin_bytes q1)
             | Some idx \<Rightarrow> sat_add idx 1)
      in consume_bytes byte_count q1)"

section \<open>What is read\<close>

text \<open>What a reader will get: the rest of the payload being consumed and the queued payloads.\<close>

definition payload_bytes :: "string \<Rightarrow> bytes" where
  "payload_bytes payload = normalize_pty_input_payload (prepare_worker_stdin_payload payload)"

definition pending_input :: "python_input_queue \<Rightarrow> bytes" where
  "pending_input q = pq_stdin_bytes q @ concat (map payload_bytes (pq_payloads q))"

text \<open>Bytes in which every line is complete and no carriage return is left.\<close>

definition whole_lines :: "bytes \<Rightarrow> bool" where
  "whole_lines bs \<longleftrightarrow> CHR 0x0D \<notin> set bs \<and> (bs = [] \<or> last bs = CHR 0x0A)"

definition one_line :: "bytes \<Rightarrow> bool" where
  "one_line bs \<longleftrightarrow> (\<exists>body. bs = body @ nl \<and> CHR 0x0A \<notin> set body \<and> CHR 0x0D \<notin> set body)"

lemma normalize_no_cr: "CHR 0x0D \<notin> set (normalize_pty_input_payload bs)"
  by (induction bs rule: normalize_pty_input_payload.induct) auto

lemma normalize_nonempty [simp]: "normalize_pty_input_payload bs = [] \<longleftrightarrow> bs = []"
  by (cases bs rule: normalize_pty_input_payload.cases) auto

lemma normalize_last:
  "bs \<noteq> [] \<Longrightarrow> last bs = CHR 0x0A \<Longrightarrow> last (normalize_pty_input_payload bs) = CHR 0x0A"
  by (induction bs rule: normalize_pty_input_payload.induct) (auto split: if_split_asm)

lemma normalize_idem:
  "CHR 0x0D \<notin> set bs \<Longrightarrow> normalize_pty_input_payload bs = bs"
  by (induction bs rule: normalize_pty_input_payload.induct) auto

lemma ends_with_nl: "ends_with bs nl \<longleftrightarrow> bs \<noteq> [] \<and> last bs = CHR 0x0A"
  by (cases bs rule: rev_cases) (auto simp: ends_with_def)

lemma payload_whole: "whole_lines (payload_bytes payload)"
  by (auto simp: whole_lines_def payload_bytes_def normalize_no_cr prepare_worker_stdin_payload_def
      ends_with_nl intro!: normalize_last)

lemma whole_lines_drop:
  assumes "whole_lines bs"
  shows "whole_lines (drop n bs)"
proof (cases "n < length bs")
  case True
  with assms show ?thesis using in_set_dropD [of _ n bs] by (auto simp: whole_lines_def last_drop)
qed (simp add: whole_lines_def)

lemma refill_pending [simp]:
  "pending_input (refill_stdin_bytes q) = pending_input q"
  by (simp add: pending_input_def refill_stdin_bytes_def payload_bytes_def split: list.split)

lemma refill_whole: "whole_lines (pq_stdin_bytes q) \<Longrightarrow> whole_lines (pq_stdin_bytes (refill_stdin_bytes q))"
  using payload_whole by (auto simp: refill_stdin_bytes_def payload_bytes_def split: list.split)

lemma refill_idem [simp]:
  "pq_stdin_bytes (refill_stdin_bytes q) \<noteq> [] \<Longrightarrow> refill_stdin_bytes (refill_stdin_bytes q) = refill_stdin_bytes q"
  by (simp add: refill_stdin_bytes_def)

text \<open>The bytes a read has delivered.\<close>

definition read_bytes :: "bytes option \<Rightarrow> bytes" where
  "read_bytes r = (case r of None \<Rightarrow> [] | Some bs \<Rightarrow> bs)"

lemma consume_bytes_pending:
  assumes "consume_bytes n q = (r, q')" and "whole_lines (pq_stdin_bytes q)"
  shows "pending_input q = read_bytes r @ pending_input q'" "whole_lines (pq_stdin_bytes q')"
    "CHR 0x0D \<notin> set (read_bytes r)"
proof -
  let ?q = "refill_stdin_bytes q"
  have w: "whole_lines (pq_stdin_bytes ?q)" by (rule refill_whole [OF assms(2)])
  have p: "pending_input ?q = pending_input q" by simp
  have "r = None \<and> q' = ?q \<or>
      (\<exists>k. r = Some (take k (pq_stdin_bytes ?q)) \<and> q' = ?q\<lparr>pq_stdin_bytes := drop k (pq_stdin_bytes ?q)\<rparr>)"
    using assms(1) by (auto simp: consume_bytes_def Let_def split: if_split_asm)
  then consider "r = None" "q' = ?q"
    | k where "r = Some (take k (pq_stdin_bytes ?q))" "q' = ?q\<lparr>pq_stdin_bytes := drop k (pq_stdin_bytes ?q)\<rparr>"
    by blast
  then have "pending_input q = read_bytes r @ pending_input q' \<and> whole_lines (pq_stdin_bytes q') \<and>
      CHR 0x0D \<notin> set (read_bytes r)"
  proof cases
    case 1
    with w p show ?thesis by (simp add: read_bytes_def)
  next
    case 2
    have "CHR 0x0D \<notin> set (take k (pq_stdin_bytes ?q))"
      using w by (meson in_set_takeD whole_lines_def)
    moreover have "pending_input ?q = take k (pq_stdin_bytes ?q) @ pending_input q'"
      by (simp add: 2 pending_input_def del: append_assoc refill_pending flip: append_assoc)
    ultimately show ?thesis using 2 whole_lines_drop [OF w] by (simp add: read_bytes_def)
  qed
  then show "pending_input q = read_bytes r @ pending_input q'" "whole_lines (pq_stdin_bytes q')"
    "CHR 0x0D \<notin> set (read_bytes r)" by blast+
qed

lemma position_split:
  "position P xs = Some i \<Longrightarrow> take i xs @ [xs ! i] = take (Suc i) xs \<and> P (xs ! i) \<and> (\<forall>x \<in> set (take i xs). \<not> P x)"
proof (induction xs arbitrary: i)
  case (Cons x xs)
  then show ?case by (cases i) (auto split: if_split_asm)
qed simp

lemma position_none: "position P xs = None \<longleftrightarrow> (\<forall>x \<in> set xs. \<not> P x)"
  by (induction xs) auto

lemma consume_line_is_line:
  assumes "consume_line q = (Some line, q')" and "whole_lines (pq_stdin_bytes q)"
    and "length (pq_stdin_bytes (refill_stdin_bytes q)) \<le> u64_max"
  shows "one_line line"
proof -
  define q1 where "q1 = refill_stdin_bytes q"
  define bs where "bs = pq_stdin_bytes q1"
  have again: "bs \<noteq> [] \<Longrightarrow> refill_stdin_bytes q1 = q1" by (simp add: q1_def bs_def)
  have w: "whole_lines bs" unfolding q1_def bs_def by (rule refill_whole [OF assms(2)])
  let ?n = "case position (\<lambda>b. b = CHR 0x0A) bs of None \<Rightarrow> length bs | Some idx \<Rightarrow> sat_add idx 1"
  have line: "consume_bytes ?n q1 = (Some line, q')"
    using assms(1) unfolding consume_line_def Let_def q1_def bs_def .
  have ne: "bs \<noteq> []"
  proof
    assume "bs = []"
    with line show False by (simp add: consume_bytes_def)
  qed
  then obtain i where i: "position (\<lambda>b. b = CHR 0x0A) bs = Some i"
    using w position_none [of "\<lambda>b. b = CHR 0x0A" bs] by (cases "position (\<lambda>b. b = CHR 0x0A) bs") (auto simp: whole_lines_def)
  have less: "i < length bs" using position_less [OF i] by blast
  then have "?n = Suc i" using assms(3) i by (simp add: sat_add_def q1_def bs_def)
  moreover have "fst (consume_bytes (Suc i) q1) = Some (take (min (Suc i) (length bs)) bs)"
    using ne by (simp only: consume_bytes_def again [OF ne] Let_def bs_def [symmetric] nat.distinct if_False simp_thms fst_conv)
  moreover have "min (Suc i) (length bs) = Suc i" using less by simp
  ultimately have "line = take (Suc i) bs" using line by (metis fst_conv option.inject)
  with position_split [OF i] have "line = take i bs @ nl" "CHR 0x0A \<notin> set (take i bs)" by metis+
  moreover have "CHR 0x0D \<notin> set (take i bs)" using w by (meson in_set_takeD whole_lines_def)
  ultimately show ?thesis by (auto simp: one_line_def)
qed

section \<open>Reads and writes\<close>

text \<open>The pushes of the server and the reads of the runtime, with what each read delivers.\<close>

datatype queue_op = PushPayload string | ReadLine | ReadBytes nat | BeginRead | EndRead

fun run_queue_op :: "queue_op \<Rightarrow> python_input_queue \<Rightarrow> bytes option \<times> python_input_queue" where
  "run_queue_op (PushPayload payload) q = (None, push_payload payload q)"
| "run_queue_op ReadLine q = consume_line q"
| "run_queue_op (ReadBytes n) q = consume_bytes n q"
| "run_queue_op BeginRead q = (None, snd (begin_read_consumer q))"
| "run_queue_op EndRead q = (None, end_read_consumer q)"

fun queue_run :: "queue_op list \<Rightarrow> python_input_queue \<Rightarrow> (queue_op \<times> bytes) list \<times> python_input_queue" where
  "queue_run [] q = ([], q)"
| "queue_run (x # xs) q =
     (let (r, q1) = run_queue_op x q; (reads, q2) = queue_run xs q1
      in (case r of None \<Rightarrow> reads | Some bs \<Rightarrow> (x, bs) # reads, q2))"

fun pushed :: "queue_op list \<Rightarrow> string list" where
  "pushed [] = []"
| "pushed (PushPayload payload # xs) = payload # pushed xs"
| "pushed (_ # xs) = pushed xs"

lemma consume_line_pending:
  assumes "consume_line q = (r, q')" and "whole_lines (pq_stdin_bytes q)"
  shows "pending_input q = read_bytes r @ pending_input q'" "whole_lines (pq_stdin_bytes q')"
    "CHR 0x0D \<notin> set (read_bytes r)"
  using consume_bytes_pending [OF assms(1) [unfolded consume_line_def Let_def] refill_whole [OF assms(2)]]
  by simp_all

lemma queue_op_pending:
  assumes "run_queue_op x q = (r, q')" and "whole_lines (pq_stdin_bytes q)"
  shows "pending_input q @ concat (map payload_bytes (pushed [x])) = read_bytes r @ pending_input q'"
    "whole_lines (pq_stdin_bytes q')" "CHR 0x0D \<notin> set (read_bytes r)"
  using assms consume_line_pending [of q r q'] consume_bytes_pending [of _ q r q']
  by (cases x; fastforce simp: push_payload_def begin_read_consumer_def end_read_consumer_def pending_input_def
      read_bytes_def)+

text \<open>No payload, queued or being consumed, exceeds what a \<^verbatim>\<open>usize\<close> counts.\<close>

definition fits_memory :: "python_input_queue \<Rightarrow> bool" where
  "fits_memory q \<longleftrightarrow> length (pq_stdin_bytes q) \<le> u64_max \<and>
     (\<forall>p \<in> set (pq_payloads q). length (payload_bytes p) \<le> u64_max)"

lemma refill_fits: "fits_memory q \<Longrightarrow> fits_memory (refill_stdin_bytes q)"
  by (auto simp: fits_memory_def refill_stdin_bytes_def payload_bytes_def split: list.split)

lemma consume_bytes_fits: "fits_memory q \<Longrightarrow> fits_memory (snd (consume_bytes n q))"
  using refill_fits [of q] by (auto simp: consume_bytes_def Let_def fits_memory_def)

lemma queue_op_fits:
  assumes "fits_memory q" and "\<forall>p \<in> set (pushed [x]). length (payload_bytes p) \<le> u64_max"
  shows "fits_memory (snd (run_queue_op x q))"
  using assms consume_bytes_fits [of q] consume_bytes_fits [OF refill_fits [OF assms(1)]]
  by (cases x) (auto simp: consume_line_def Let_def push_payload_def begin_read_consumer_def end_read_consumer_def
      fits_memory_def)

lemma queue_run_reads:
  assumes "queue_run ops q = (reads, q')" and "whole_lines (pq_stdin_bytes q)" and "fits_memory q"
    and "\<forall>p \<in> set (pushed ops). length (payload_bytes p) \<le> u64_max"
  shows "pending_input q @ concat (map payload_bytes (pushed ops)) = concat (map snd reads) @ pending_input q' \<and>
         (\<forall>(x, bs) \<in> set reads. CHR 0x0D \<notin> set bs \<and> (x = ReadLine \<longrightarrow> one_line bs))"
  using assms
proof (induction ops arbitrary: q reads)
  case (Cons x ops)
  obtain r q1 where x: "run_queue_op x q = (r, q1)" by fastforce
  obtain rs where ops: "queue_run ops q1 = (rs, q')" using Cons.prems(1) x by (auto split: prod.split_asm)
  have push: "pushed (x # ops) = pushed [x] @ pushed ops" by (cases x) simp_all
  note step = queue_op_pending [OF x Cons.prems(2)]
  have fits: "fits_memory q1" using queue_op_fits [OF Cons.prems(3), of x] Cons.prems(4) x push by simp
  from Cons.IH [OF ops step(2) fits] Cons.prems(4) push
  have rs: "pending_input q1 @ concat (map payload_bytes (pushed ops)) = concat (map snd rs) @ pending_input q'"
    "\<forall>(x, bs) \<in> set rs. CHR 0x0D \<notin> set bs \<and> (x = ReadLine \<longrightarrow> one_line bs)" by auto
  have reads: "reads = (case r of None \<Rightarrow> rs | Some bs \<Rightarrow> (x, bs) # rs)" using Cons.prems(1) x ops by simp
  have "one_line bs" if "r = Some bs" "x = ReadLine" for bs
    using consume_line_is_line [OF _ Cons.prems(2)] x that refill_fits [OF Cons.prems(3)] by (auto simp: fits_memory_def)
  with rs(2) step(3) reads have "\<forall>(x, bs) \<in> set reads. CHR 0x0D \<notin> set bs \<and> (x = ReadLine \<longrightarrow> one_line bs)"
    by (auto simp: read_bytes_def split: option.split_asm)
  moreover have "concat (map snd reads) = read_bytes r @ concat (map snd rs)"
    using reads by (simp add: read_bytes_def split: option.split)
  moreover have "pending_input q @ concat (map payload_bytes (pushed (x # ops))) =
      (pending_input q @ concat (map payload_bytes (pushed [x]))) @ concat (map payload_bytes (pushed ops))"
    by (simp only: push map_append concat_append append_assoc)
  ultimately show ?case using step(1) rs(1) by (simp only: append_assoc)
qed simp

text \<open>
  C28. The runtime reads exactly what was sent to it: however pushes and reads interleave, the bytes
  read so far followed by those still queued are the pushed payloads in order, each completed by
  a newline and with its line ends normalized. What is read contains no carriage return, and
  reading a line returns one line with its newline.
\<close>

theorem python_reads_pushed_input:
  assumes "queue_run ops queue_new = (reads, q)"
    and "\<forall>p \<in> set (pushed ops). length (payload_bytes p) \<le> u64_max"
  shows "concat (map snd reads) @ pending_input q = concat (map payload_bytes (pushed ops)) \<and>
         (\<forall>(x, bs) \<in> set reads. CHR 0x0D \<notin> set bs \<and> (x = ReadLine \<longrightarrow> one_line bs))"
proof -
  have "whole_lines (pq_stdin_bytes queue_new)" "fits_memory queue_new" "pending_input queue_new = []"
    by (simp_all add: queue_new_def whole_lines_def fits_memory_def pending_input_def)
  with queue_run_reads [OF assms(1) _ _ assms(2)] show ?thesis by simp
qed

theorem python_reads_pushed_input_witness:
  "\<exists>reads q. queue_run [PushPayload ''ab'', ReadBytes 1, PushPayload [CHR ''c'', CHR 0x0D], ReadLine, ReadLine] queue_new = (reads, q) \<and>
     concat (map snd reads) @ pending_input q = ''ab'' @ nl @ ''c'' @ nl"
proof -
  let ?ops = "[PushPayload ''ab'', ReadBytes 1, PushPayload [CHR ''c'', CHR 0x0D], ReadLine, ReadLine]"
  obtain reads q where run: "queue_run ?ops queue_new = (reads, q)" by fastforce
  have "\<forall>p \<in> set (pushed ?ops). length (payload_bytes p) \<le> u64_max" by code_simp
  moreover have "concat (map payload_bytes (pushed ?ops)) = ''ab'' @ nl @ ''c'' @ nl" by code_simp
  ultimately have "concat (map snd reads) @ pending_input q = ''ab'' @ nl @ ''c'' @ nl"
    using python_reads_pushed_input [OF run, THEN conjunct1] by (simp only:)
  with run show ?thesis by blast
qed

end
