(* ===== verification/Ipc_Protocol.thy ===== *)
theory Ipc_Protocol
  imports Ipc_Connection
begin

text \<open>
  The connection as a system of two threads, the reader and the server, with its properties: the
  invariant of the inbox, the request protocol it implements, and the identities of images.
\<close>

section \<open>Steps\<close>

text \<open>
  A connection: the inbox, the message the reader holds between admitting and handling it, whether
  the reader is in its loop, whether handlers are called, and the counter of image identities,
  which other connections advance too.
\<close>

record connection =
  cn_inbox :: inbox
  cn_in_hand :: "(ipc_message \<times> bool) option"
  cn_reading :: bool
  cn_enabled :: bool
  cn_next_image :: nat

definition connection_start :: "nat \<Rightarrow> connection" where
  "connection_start next_image =
     \<lparr>cn_inbox = inbox_default, cn_in_hand = None, cn_reading = True, cn_enabled = True,
      cn_next_image = next_image\<rparr>"

text \<open>
  What can be observed of a step: the worker reported readiness; the server began a request,
  accepted its input, saw it complete; an image got its identity, new or not; another connection
  allocated one.
\<close>

datatype ipc_label = Reported | Began | Accepted | Completed | Assigned string bool | OtherImage

definition message_labels :: "(string \<Rightarrow> bytes option) \<Rightarrow> ipc_message \<Rightarrow> inbox \<Rightarrow> nat \<Rightarrow> ipc_label list" where
  "message_labels decode message ib next_id =
     (case message of
        MsgInputWait _ \<Rightarrow> [Reported]
      | MsgReady \<Rightarrow> [Reported]
      | MsgOutputImage _ data_b64 is_update source \<Rightarrow>
          (case (decode data_b64, assign_output_image_id next_id source is_update ib) of
             (Some _, Some ((i, is_new, _), _)) \<Rightarrow> [Assigned i is_new]
           | _ \<Rightarrow> [])
      | _ \<Rightarrow> [])"

datatype server_call =
    BeginInput nat nat
  | BeginInputWoken bool nat nat
  | BeginRequest
  | NoteInterrupt
  | BeginInterrupt nat
  | InterruptArmedTurn nat nat
  | InterruptArmedWoken bool nat nat
  | PendingInterruptTurn nat nat
  | PendingInterruptWoken bool nat nat
  | CompletionTurn nat nat
  | CompletionWoken bool nat nat nat
  | TakeError
  | TakeHistory
  | TakeWarnings
  | TakePrompt
  | ObservationTurn nat nat nat
  | InterruptReadinessTurn nat nat
  | InputReadinessTurn "nat option" bool nat nat
  | WorkerReadyTurn nat nat

definition on_success :: "ipc_label \<Rightarrow> ('e + 'a) option \<times> inbox \<Rightarrow> ipc_label list \<times> inbox" where
  "on_success l r = (case fst r of Some (Inr _) \<Rightarrow> [l] | _ \<Rightarrow> [], snd r)"

fun call_server :: "server_call \<Rightarrow> inbox \<Rightarrow> ipc_label list \<times> inbox" where
  "call_server (BeginInput now deadline) ib =
     (let (ls, ib1) = on_success Accepted (begin_input_when_ready now deadline ib) in (Began # ls, ib1))"
| "call_server (BeginInputWoken timed_out now deadline) ib =
     on_success Accepted (begin_input_woken timed_out now deadline ib)"
| "call_server BeginRequest ib = ([Began], begin_request ib)"
| "call_server NoteInterrupt ib = ([], note_interrupt_sent ib)"
| "call_server (BeginInterrupt started_at) ib = ([], begin_interrupt_transaction started_at ib)"
| "call_server (InterruptArmedTurn now deadline) ib = ([], snd (interrupt_armed_turn now deadline ib))"
| "call_server (InterruptArmedWoken timed_out now deadline) ib =
     ([], snd (interrupt_armed_woken timed_out now deadline ib))"
| "call_server (PendingInterruptTurn now deadline) ib = ([], snd (pending_interrupt_turn now deadline ib))"
| "call_server (PendingInterruptWoken timed_out now deadline) ib =
     ([], snd (pending_interrupt_woken timed_out now deadline ib))"
| "call_server (CompletionTurn now deadline) ib = on_success Completed (completion_turn now deadline ib)"
| "call_server (CompletionWoken timed_out woken_at now deadline) ib =
     on_success Completed (completion_woken timed_out woken_at now deadline ib)"
| "call_server TakeError ib = ([], snd (ipc_take_protocol_error ib))"
| "call_server TakeHistory ib = ([], snd (take_prompt_history ib))"
| "call_server TakeWarnings ib = ([], snd (take_protocol_warnings ib))"
| "call_server TakePrompt ib = ([], snd (try_take_prompt ib))"
| "call_server (ObservationTurn since now deadline) ib =
     ([], snd (interrupt_observation_turn since now deadline ib))"
| "call_server (InterruptReadinessTurn now deadline) ib =
     ([], snd (interrupt_readiness_turn now deadline ib))"
| "call_server (InputReadinessTurn since accept now deadline) ib =
     ([], snd (input_readiness_turn since accept now deadline ib))"
| "call_server (WorkerReadyTurn now deadline) ib = ([], snd (worker_ready_turn now deadline ib))"

inductive ipc_step ::
  "(string \<Rightarrow> string + ipc_message) \<Rightarrow> (string \<Rightarrow> bytes option) \<Rightarrow> ipc_handlers \<Rightarrow>
   connection \<Rightarrow> ipc_label list \<Rightarrow> connection \<Rightarrow> bool" for from_str decode h where
  line: "cn_reading c \<Longrightarrow> cn_in_hand c = None \<Longrightarrow>
    read_line from_str now line (cn_inbox c) = (outcome, hand, ib) \<Longrightarrow>
    ipc_step from_str decode h c []
      (c\<lparr>cn_inbox := ib, cn_in_hand := hand, cn_reading := (outcome = ReadOn)\<rparr>)"
| message: "cn_in_hand c = Some (m, is_first) \<Longrightarrow>
    handle_message decode h (cn_enabled c) now m is_first (cn_inbox c) (cn_next_image c) =
      (outcome, events, ib, next_image) \<Longrightarrow>
    ipc_step from_str decode h c (message_labels decode m (cn_inbox c) (cn_next_image c))
      (c\<lparr>cn_inbox := ib, cn_in_hand := None, cn_reading := (outcome = ReadOn),
        cn_next_image := next_image\<rparr>)"
| closed: "cn_reading c \<Longrightarrow> cn_in_hand c = None \<Longrightarrow>
    ipc_step from_str decode h c [] (c\<lparr>cn_inbox := reader_disconnected (cn_inbox c), cn_reading := False\<rparr>)"
| called: "call_server k (cn_inbox c) = (ls, ib) \<Longrightarrow>
    ipc_step from_str decode h c ls (c\<lparr>cn_inbox := ib\<rparr>)"
| disabled: "ipc_step from_str decode h c [] (c\<lparr>cn_enabled := False\<rparr>)"
| other: "ipc_step from_str decode h c [OtherImage]
    (c\<lparr>cn_next_image := snd (allocate_output_image_id (cn_next_image c))\<rparr>)"

inductive_cases ipc_stepE: "ipc_step from_str decode h c ls c'"

inductive ipc_run ::
  "(string \<Rightarrow> string + ipc_message) \<Rightarrow> (string \<Rightarrow> bytes option) \<Rightarrow> ipc_handlers \<Rightarrow>
   connection \<Rightarrow> ipc_label list \<Rightarrow> connection \<Rightarrow> bool" for from_str decode h c where
  start: "ipc_run from_str decode h c [] c"
| step: "ipc_run from_str decode h c ls c1 \<Longrightarrow> ipc_step from_str decode h c1 ls1 c2 \<Longrightarrow>
    ipc_run from_str decode h c (ls @ ls1) c2"

section \<open>The request protocol\<close>

text \<open>
  The abstract protocol: whether the worker waits for input, whether an input is being executed
  and whether it has completed. An input is accepted only by a waiting worker, and completes only
  after the worker has reported again.
\<close>

datatype request_state = RequestState (rq_ready: bool) (rq_active: bool) (rq_done: bool)

fun request_step :: "ipc_label \<Rightarrow> request_state \<Rightarrow> request_state option" where
  "request_step Reported (RequestState ready active finished) =
     Some (RequestState True active (finished \<or> active))"
| "request_step Began (RequestState ready active finished) = Some (RequestState ready False False)"
| "request_step Accepted (RequestState ready active finished) =
     (if ready then Some (RequestState False True False) else None)"
| "request_step Completed (RequestState ready active finished) =
     (if active \<and> finished then Some (RequestState ready False False) else None)"
| "request_step (Assigned _ _) rq = Some rq"
| "request_step OtherImage rq = Some rq"

fun request_run :: "ipc_label list \<Rightarrow> request_state \<Rightarrow> request_state option" where
  "request_run [] rq = Some rq"
| "request_run (l # ls) rq = Option.bind (request_step l rq) (request_run ls)"

lemma request_run_append: "request_run (xs @ ys) rq = Option.bind (request_run xs rq) (request_run ys)"
proof (induction xs arbitrary: rq)
  case (Cons x xs)
  then show ?case by (cases "request_step x rq") simp_all
qed simp

definition request_of :: "inbox \<Rightarrow> request_state" where
  "request_of ib =
     RequestState (in_ready_for_input (ib_input_state ib)) (in_active (ib_input_state ib))
       (in_completed_observed_at (ib_input_state ib) \<noteq> None)"

section \<open>Invariant\<close>

text \<open>
  The inbox: its readiness facts are consistent; the prompt has a time exactly if there is one;
  the history of prompts is bounded and has no prompt twice in a row; a session end is queued
  exactly while it is pending; interrupt facts come in their order.
\<close>

definition wf_inbox :: "inbox \<Rightarrow> bool" where
  "wf_inbox ib \<longleftrightarrow>
     wf_input (ib_input_state ib) \<and>
     (ib_last_prompt ib = None \<longleftrightarrow> ib_last_prompt_observed_at ib = None) \<and>
     length (ib_prompt_history ib) \<le> MAX_PROMPT_HISTORY \<and> distinct_adj (ib_prompt_history ib) \<and>
     length (filter is_session_end (ib_queue ib)) = of_bool (in_session_end (ib_input_state ib)) \<and>
     (ib_interrupt_complete_at ib \<noteq> None \<longrightarrow> ib_interrupt_armed_at ib \<noteq> None) \<and>
     (ib_readiness_after_interrupt ib \<longrightarrow> ib_interrupt_complete_at ib \<noteq> None)"

definition wf_connection :: "connection \<Rightarrow> bool" where
  "wf_connection c \<longleftrightarrow>
     wf_inbox (cn_inbox c) \<and>
     (cn_in_hand c \<noteq> None \<longrightarrow> \<not> in_session_end_final (ib_input_state (cn_inbox c)))"

lemma wf_inbox_default [simp]: "wf_inbox inbox_default"
  by (simp add: wf_inbox_def inbox_default_def input_state_default_def wf_input_def)

text \<open>
  What the checks at the start of a waiting call leave alone: all but the queue, the latched error
  and the pending session end.
\<close>

definition core :: "inbox \<Rightarrow> _" where
  "core ib =
     ((ib_last_prompt ib, ib_last_prompt_observed_at ib, ib_prompt_history ib),
      (ib_pending_interrupt_started_at ib, ib_interrupt_armed_at ib, ib_interrupt_complete_at ib,
       ib_readiness_after_interrupt ib),
      (ib_request_image_id ib, ib_request_output_source_image_ids ib),
      (let s = ib_input_state ib
       in (in_active s, in_ready_for_input s, in_ready_from_input_wait s, in_ready_observed_at s,
           in_completed_observed_at s, in_session_end_final s)))"

lemma core_request: "core a = core b \<Longrightarrow> request_of a = request_of b"
  by (simp add: request_of_def core_def Let_def)

lemma filter_remove_index:
  "position P xs = Some i \<Longrightarrow> length (filter P (remove_index i xs)) = length (filter P xs) - 1"
proof (induction xs arbitrary: i)
  case (Cons x xs)
  show ?case
  proof (cases "P x")
    case True
    with Cons.prems show ?thesis by (simp add: remove_index_def)
  next
    case False
    with Cons.prems obtain j where "position P xs = Some j" "i = Suc j" by auto
    with Cons.IH False show ?thesis by (simp add: remove_index_def)
  qed
qed simp

lemma position_filter: "position P xs = None \<Longrightarrow> filter P xs = []"
  by (induction xs) (auto split: if_split_asm)

lemma take_error_core: "core (snd (ipc_take_protocol_error ib)) = core ib"
  by (simp add: ipc_take_protocol_error_def state_take_protocol_error_def core_def Let_def)

lemma take_error_wf: "wf_inbox ib \<Longrightarrow> wf_inbox (snd (ipc_take_protocol_error ib))"
  by (simp add: ipc_take_protocol_error_def state_take_protocol_error_def wf_inbox_def wf_input_def)

lemma take_session_end_core: "core (snd (ipc_take_session_end ib)) = core ib"
  by (simp add: ipc_take_session_end_def state_take_session_end_def core_def Let_def split: option.split)

lemma take_session_end_wf:
  assumes "wf_inbox ib"
  shows "wf_inbox (snd (ipc_take_session_end ib))"
proof (cases "in_session_end (ib_input_state ib)")
  case False
  with assms show ?thesis
    by (simp add: ipc_take_session_end_def state_take_session_end_def wf_inbox_def wf_input_def)
next
  case True
  with assms have n: "length (filter is_session_end (ib_queue ib)) = 1" by (simp add: wf_inbox_def)
  then obtain i where i: "position is_session_end (ib_queue ib) = Some i"
    using position_filter [of is_session_end "ib_queue ib"] by (cases "position is_session_end (ib_queue ib)") auto
  from filter_remove_index [OF i] n i True assms show ?thesis
    by (simp add: ipc_take_session_end_def state_take_session_end_def wf_inbox_def wf_input_def)
qed

lemma wait_guard_core: "core (snd (wait_guard ib)) = core ib"
  using take_error_core [of ib] take_session_end_core [of "snd (ipc_take_protocol_error ib)"]
  by (auto simp: wait_guard_def split: prod.split option.split bool.split)

lemma wait_guard_wf: "wf_inbox ib \<Longrightarrow> wf_inbox (snd (wait_guard ib))"
  using take_error_wf [of ib] take_session_end_wf [of "snd (ipc_take_protocol_error ib)"]
  by (auto simp: wait_guard_def split: prod.split option.split bool.split)

text \<open>
  A call without effect on the request: it changes neither its state nor its images nor the end of
  the session, and keeps the inbox well formed.
\<close>

definition quiet :: "inbox \<Rightarrow> inbox \<Rightarrow> bool" where
  "quiet ib ib' \<longleftrightarrow>
     request_of ib' = request_of ib \<and>
     in_session_end_final (ib_input_state ib') = in_session_end_final (ib_input_state ib) \<and>
     ib_request_image_id ib' = ib_request_image_id ib \<and>
     ib_request_output_source_image_ids ib' = ib_request_output_source_image_ids ib \<and>
     (wf_inbox ib \<longrightarrow> wf_inbox ib')"

named_theorems quiet_intros

lemma quiet_refl [quiet_intros]: "quiet ib ib"
  by (simp add: quiet_def)

lemma quiet_trans [trans]: "quiet a b \<Longrightarrow> quiet b c \<Longrightarrow> quiet a c"
  by (simp add: quiet_def)

lemma quiet_core: "core ib' = core ib \<Longrightarrow> (wf_inbox ib \<Longrightarrow> wf_inbox ib') \<Longrightarrow> quiet ib ib'"
  using core_request [of ib' ib] by (simp add: quiet_def core_def Let_def)

lemma quiet_guard: "quiet ib (snd (wait_guard ib))"
  by (intro quiet_core wait_guard_core wait_guard_wf)

lemma quiet_take_error: "quiet ib (snd (ipc_take_protocol_error ib))"
  by (intro quiet_core take_error_core take_error_wf)

lemma quiet_take_session_end: "quiet ib (snd (ipc_take_session_end ib))"
  by (intro quiet_core take_session_end_core take_session_end_wf)

lemma quiet_prompt [quiet_intros]:
  "quiet ib (ib\<lparr>ib_last_prompt := None, ib_last_prompt_observed_at := None\<rparr>)"
  "quiet ib (ib\<lparr>ib_last_prompt_observed_at := None, ib_last_prompt := None\<rparr>)"
  "quiet ib (ib\<lparr>ib_prompt_history := []\<rparr>)"
  "quiet ib (ib\<lparr>ib_protocol_warnings := ws\<rparr>)"
  "quiet ib (ib\<lparr>ib_input_line_events := es\<rparr>)"
  "quiet ib (ib\<lparr>ib_pending_interrupt_started_at := None\<rparr>)"
  by (simp_all add: quiet_def wf_inbox_def request_of_def)

lemma quiet_interrupt [quiet_intros]: "quiet ib (begin_interrupt_transaction t ib)"
  by (simp add: quiet_def wf_inbox_def request_of_def begin_interrupt_transaction_def)

lemma quiet_note [quiet_intros]: "quiet ib (note_interrupt_sent ib)"
  by (simp add: quiet_def note_interrupt_sent_def update_input_def state_note_interrupt_sent_def)

text \<open>A call that passes the checks goes on with the inbox they leave.\<close>

lemma quiet_after_guard:
  assumes "\<And>ib1. wait_guard ib = (None, ib1) \<Longrightarrow> quiet ib1 (snd (g ib1))"
  shows "quiet ib (snd (case wait_guard ib of (Some error, ib1) \<Rightarrow> (Some (Inl error), ib1) | (None, ib1) \<Rightarrow> g ib1))"
  using assms quiet_guard [of ib] quiet_trans
  by (fastforce split: prod.split option.split)

lemma quiet_wait_until [quiet_intros]: "quiet ib (snd (wait_until now deadline ib))"
  by (simp add: wait_until_def quiet_refl)

lemma quiet_turns [quiet_intros]:
  "quiet ib (snd (interrupt_armed_turn now deadline ib))"
  "quiet ib (snd (pending_interrupt_turn now deadline ib))"
  "quiet ib (snd (interrupt_observation_turn since now deadline ib))"
  "quiet ib (snd (interrupt_readiness_turn now deadline ib))"
  "quiet ib (snd (input_readiness_turn since' accept now deadline ib))"
proof -
  show "quiet ib (snd (interrupt_armed_turn now deadline ib))"
    unfolding interrupt_armed_turn_def by (rule quiet_after_guard) (simp add: quiet_intros)
  show "quiet ib (snd (pending_interrupt_turn now deadline ib))"
    unfolding pending_interrupt_turn_def by (rule quiet_after_guard) (simp add: quiet_intros)
  show "quiet ib (snd (interrupt_observation_turn since now deadline ib))"
    unfolding interrupt_observation_turn_def
    by (rule quiet_after_guard) (simp add: quiet_intros split: option.split)
  show "quiet ib (snd (interrupt_readiness_turn now deadline ib))"
    unfolding interrupt_readiness_turn_def
    by (rule quiet_after_guard) (simp add: quiet_intros split: option.split)
  show "quiet ib (snd (input_readiness_turn since' accept now deadline ib))"
    unfolding input_readiness_turn_def Let_def
    by (rule quiet_after_guard) (auto simp: quiet_intros wait_until_def split: option.split)
qed

lemma quiet_woken [quiet_intros]:
  "quiet ib (snd (interrupt_armed_woken timed_out now deadline ib))"
  "quiet ib (snd (pending_interrupt_woken timed_out now deadline ib))"
  by (simp_all add: interrupt_armed_woken_def pending_interrupt_woken_def quiet_intros)

lemma quiet_worker_ready [quiet_intros]: "quiet ib (snd (worker_ready_turn now deadline ib))"
proof -
  have taken: "quiet ib (snd (take_worker_ready ib))"
  proof (cases "position is_worker_ready (ib_queue ib)")
    case None
    then show ?thesis by (simp add: take_worker_ready_def quiet_refl)
  next
    case (Some idx)
    have "filter is_session_end (remove_index idx (ib_queue ib)) = filter is_session_end (ib_queue ib)"
    proof -
      have "idx < length (ib_queue ib)" "is_worker_ready (ib_queue ib ! idx)" using position_less [OF Some] by auto
      then have "ib_queue ib = take idx (ib_queue ib) @ [ib_queue ib ! idx] @ drop (Suc idx) (ib_queue ib)"
        and "\<not> is_session_end (ib_queue ib ! idx)"
        by (simp_all add: id_take_nth_drop [symmetric] is_worker_ready_def is_session_end_def split: ipc_message.split_asm)
      then show ?thesis by (metis append_Nil filter.simps(1,2) filter_append remove_index_def)
    qed
    with Some show ?thesis by (simp add: take_worker_ready_def quiet_def wf_inbox_def request_of_def)
  qed
  show ?thesis
  proof (cases "take_worker_ready ib")
    case (Pair r ib1)
    show ?thesis
    proof (cases r)
      case None
      with Pair taken show ?thesis
        using quiet_trans [OF _ quiet_guard [of ib1]] quiet_wait_until
        by (auto simp: worker_ready_turn_def wait_until_def split: prod.split option.split)
    next
      case (Some info)
      with Pair taken show ?thesis
        using quiet_trans [OF _ quiet_take_session_end [of ib1]] by (simp add: worker_ready_turn_def)
    qed
  qed
qed

lemma quiet_calls [quiet_intros]:
  "quiet ib (snd (take_prompt_history ib))" "quiet ib (snd (take_protocol_warnings ib))"
  "quiet ib (snd (try_take_prompt ib))" "quiet ib (snd (ipc_take_protocol_error ib))"
  by (simp_all add: take_prompt_history_def take_protocol_warnings_def try_take_prompt_def quiet_prompt quiet_take_error)

text \<open>The effect of a call with its labels: a step of the request protocol, no other message, and
  the images of the request forgotten exactly if it begins anew.\<close>

definition effect :: "ipc_label list \<Rightarrow> inbox \<Rightarrow> inbox \<Rightarrow> bool" where
  "effect ls ib ib' \<longleftrightarrow>
     request_run ls (request_of ib) = Some (request_of ib') \<and>
     in_session_end_final (ib_input_state ib') = in_session_end_final (ib_input_state ib) \<and>
     (if Began \<in> set ls
      then ib_request_image_id ib' = None \<and> ib_request_output_source_image_ids ib' = Map.empty
      else ib_request_image_id ib' = ib_request_image_id ib \<and>
           ib_request_output_source_image_ids ib' = ib_request_output_source_image_ids ib) \<and>
     (wf_inbox ib \<longrightarrow> wf_inbox ib')"

lemma effect_quiet: "quiet ib ib' \<Longrightarrow> effect [] ib ib'"
  by (simp add: quiet_def effect_def)

lemma effect_after_quiet: "quiet ib ib1 \<Longrightarrow> Began \<notin> set ls \<Longrightarrow> effect ls ib1 ib2 \<Longrightarrow> effect ls ib ib2"
  by (simp add: quiet_def effect_def)

lemma effect_reset: "effect [Began] ib (reset_after_completed_request ib)"
  by (auto simp: effect_def reset_after_completed_request_def reset_request_progress_def update_input_def
      request_of_def clear_request_progress_def wf_inbox_def wf_input_def)

lemma effect_begin_request: "effect [Began] ib (begin_request ib)"
  using effect_reset [of ib] by (simp add: begin_request_def effect_def request_of_def wf_inbox_def)

lemma effect_after_reset:
  "effect [Began] ib ib1 \<Longrightarrow> Began \<notin> set ls \<Longrightarrow> effect ls ib1 ib2 \<Longrightarrow> effect (Began # ls) ib ib2"
  using request_run_append [of "[Began]" ls "request_of ib"]
  by (auto simp: effect_def)

lemma effect_begin_turn:
  "effect (fst (on_success Accepted (begin_input_turn now deadline ib))) ib (snd (begin_input_turn now deadline ib))"
proof (cases "wait_guard ib")
  case (Pair r ib1)
  then have q: "quiet ib ib1" using quiet_guard [of ib] by simp
  show ?thesis
  proof (cases "r = None \<and> in_ready_for_input (ib_input_state ib1)")
    case False
    then have "quiet ib (snd (begin_input_turn now deadline ib))" "fst (on_success Accepted (begin_input_turn now deadline ib)) = []"
      using Pair q by (auto simp: begin_input_turn_def wait_until_def on_success_def split: option.split)
    then show ?thesis by (simp add: effect_quiet)
  next
    case True
    then obtain s where s: "state_begin_input (ib_input_state ib1) = Inr s" by (simp add: state_begin_input_def)
    let ?ib2 = "ib1\<lparr>ib_last_prompt := None, ib_last_prompt_observed_at := None, ib_input_state := s,
      ib_input_line_events := [], ib_prompt_history := [], ib_protocol_warnings := []\<rparr>"
    have r: "begin_input_turn now deadline ib = (Some (Inr ()), ?ib2)"
      using Pair True s by (simp add: begin_input_turn_def)
    have "effect [Accepted] ib1 ?ib2"
      using s by (auto simp: effect_def request_of_def wf_inbox_def state_begin_input_def wf_input_def split: if_split_asm)
    with r q show ?thesis by (simp add: on_success_def effect_after_quiet)
  qed
qed

lemma on_success_snd [simp]: "snd (on_success l r) = snd r"
  by (simp add: on_success_def)

lemma on_success_none [simp]: "l \<noteq> Began \<Longrightarrow> Began \<notin> set (fst (on_success l r))"
  by (simp add: on_success_def split: option.split sum.split)

lemma effect_completed:
  assumes "in_active (ib_input_state ib)" and "in_completed_observed_at (ib_input_state ib) \<noteq> None"
  shows "effect [Completed] ib (reset_request_progress ib)"
  using assms
  by (auto simp: effect_def reset_request_progress_def update_input_def request_of_def clear_request_progress_def
      wf_inbox_def wf_input_def)

lemma effect_completion_checks:
  "effect (fst (on_success Completed (completion_checks ib))) ib (snd (completion_checks ib))"
proof (cases "request_completion_precedes_latched_protocol_error ib")
  case True
  then have "effect [Completed] ib (reset_request_progress ib)"
    by (intro effect_completed)
      (auto simp: request_completion_precedes_latched_protocol_error_def request_completion_precedes_protocol_error_def
        split: option.split_asm)
  with True show ?thesis
    by (simp add: completion_checks_def take_request_completion_before_latched_protocol_error_def on_success_def)
next
  case False
  obtain e ib1 where e: "ipc_take_protocol_error ib = (e, ib1)" by fastforce
  obtain se ib2 where se: "ipc_take_session_end ib1 = (se, ib2)" by fastforce
  have q1: "quiet ib ib1" using quiet_take_error [of ib] e by simp
  have q2: "quiet ib ib2" using q1 quiet_trans quiet_take_session_end [of ib1] se by fastforce
  show ?thesis
  proof (cases "e = None \<and> \<not> se \<and> request_completion_ready ib2")
    case True
    then have "effect [Completed] ib2 (reset_request_progress ib2)"
      by (intro effect_completed) (auto simp: request_completion_ready_def state_request_completion_ready_def)
    with True False e se q2 show ?thesis
      by (simp add: completion_checks_def take_request_completion_before_latched_protocol_error_def
          take_request_completion_def on_success_def effect_after_quiet)
  next
    case nothing: False
    then have "quiet ib (snd (completion_checks ib))" "fst (on_success Completed (completion_checks ib)) = []"
      using False e se q1 q2
      by (auto simp: completion_checks_def take_request_completion_before_latched_protocol_error_def
          take_request_completion_def on_success_def split: option.split bool.split)
    then show ?thesis by (simp add: effect_quiet)
  qed
qed

lemma effect_completion_turn:
  "effect (fst (on_success Completed (completion_turn now deadline ib))) ib (snd (completion_turn now deadline ib))"
  using effect_completion_checks [of ib]
  by (cases "completion_checks ib")
    (auto simp: completion_turn_def on_success_def split: option.split)

lemma effect_completion_woken:
  "effect (fst (on_success Completed (completion_woken timed_out woken_at now deadline ib))) ib
     (snd (completion_woken timed_out woken_at now deadline ib))"
proof (cases "completion_checks ib")
  case (Pair r ib1)
  note checks = effect_completion_checks [of ib] and turn = effect_completion_turn
  show ?thesis
  proof (cases "timed_out \<and> r = None \<and> \<not> completion_timed_out woken_at deadline ib1")
    case True
    have "quiet ib ib1" using checks Pair True by (auto simp: on_success_def effect_def quiet_def)
    with True Pair turn [of now deadline ib1] show ?thesis
      by (auto simp: completion_woken_def intro: effect_after_quiet)
  next
    case False
    with checks Pair turn [of now deadline ib] show ?thesis
      by (auto simp: completion_woken_def on_success_def split: option.split)
  qed
qed

lemma effect_call: "call_server k ib = (ls, ib') \<Longrightarrow> effect ls ib ib'"
proof -
  have "effect (fst (call_server k ib)) ib (snd (call_server k ib))"
  proof (cases k)
    case (BeginInput now deadline)
    then show ?thesis
      using effect_after_reset [OF effect_reset _ effect_begin_turn [of now deadline "reset_after_completed_request ib"]]
      by (simp add: begin_input_when_ready_def case_prod_beta)
  next
    case (BeginInputWoken timed_out now deadline)
    then show ?thesis
      using effect_begin_turn [of now deadline ib] effect_quiet [OF quiet_refl]
      by (simp add: begin_input_woken_def on_success_def)
  qed (simp_all add: effect_begin_request effect_completion_turn effect_completion_woken effect_quiet quiet_intros)
  then show "call_server k ib = (ls, ib') \<Longrightarrow> effect ls ib ib'" by simp
qed

section \<open>The reader\<close>

lemma wf_latch [simp]: "wf_inbox (latch_error now m ib) = wf_inbox ib"
  by (simp add: wf_inbox_def latch_error_def update_input_def latch_protocol_error_def wf_input_def)

lemma request_latch [simp]: "request_of (latch_error now m ib) = request_of ib"
  by (simp add: request_of_def latch_error_def update_input_def latch_protocol_error_def)

lemma final_latch [simp]:
  "in_session_end_final (ib_input_state (latch_error now m ib)) = in_session_end_final (ib_input_state ib)"
  "ib_request_image_id (latch_error now m ib) = ib_request_image_id ib"
  "ib_request_output_source_image_ids (latch_error now m ib) = ib_request_output_source_image_ids ib"
  by (simp_all add: latch_error_def update_input_def latch_protocol_error_def)

lemma history_bounded:
  assumes "length xs \<le> MAX_PROMPT_HISTORY" and "distinct_adj xs" and "xs = [] \<or> last xs \<noteq> x"
  shows "length (if length (xs @ [x]) > MAX_PROMPT_HISTORY then drop 1 (xs @ [x]) else xs @ [x]) \<le> MAX_PROMPT_HISTORY"
    "distinct_adj (if length (xs @ [x]) > MAX_PROMPT_HISTORY then drop 1 (xs @ [x]) else xs @ [x])"
proof -
  have "distinct_adj (xs @ [x])" using assms by (auto simp: distinct_adj_append_iff)
  then have "distinct_adj (drop 1 (xs @ [x]))" by (cases "xs @ [x]") (auto simp: distinct_adj_Cons)
  with \<open>distinct_adj (xs @ [x])\<close> show "distinct_adj (if length (xs @ [x]) > MAX_PROMPT_HISTORY then drop 1 (xs @ [x]) else xs @ [x])"
    by simp
qed (use assms in auto)

lemma push_history_fields [simp]:
  "ib_input_state (push_prompt_history p ib) = ib_input_state ib"
  "ib_last_prompt (push_prompt_history p ib) = ib_last_prompt ib"
  "ib_last_prompt_observed_at (push_prompt_history p ib) = ib_last_prompt_observed_at ib"
  "ib_queue (push_prompt_history p ib) = ib_queue ib"
  "ib_interrupt_armed_at (push_prompt_history p ib) = ib_interrupt_armed_at ib"
  "ib_interrupt_complete_at (push_prompt_history p ib) = ib_interrupt_complete_at ib"
  "ib_readiness_after_interrupt (push_prompt_history p ib) = ib_readiness_after_interrupt ib"
  "ib_request_image_id (push_prompt_history p ib) = ib_request_image_id ib"
  "ib_request_output_source_image_ids (push_prompt_history p ib) = ib_request_output_source_image_ids ib"
  by (simp_all add: push_prompt_history_def Let_def)

lemma push_history_wf:
  "length (ib_prompt_history ib) \<le> MAX_PROMPT_HISTORY \<Longrightarrow> distinct_adj (ib_prompt_history ib) \<Longrightarrow>
   length (ib_prompt_history (push_prompt_history p ib)) \<le> MAX_PROMPT_HISTORY \<and>
   distinct_adj (ib_prompt_history (push_prompt_history p ib))"
  using history_bounded [of "ib_prompt_history ib" p]
  by (simp add: push_prompt_history_def Let_def)

lemma note_readiness_fields [simp]:
  "ib_input_state (note_readiness_after_interrupt ib) = ib_input_state ib"
  "ib_last_prompt (note_readiness_after_interrupt ib) = ib_last_prompt ib"
  "ib_last_prompt_observed_at (note_readiness_after_interrupt ib) = ib_last_prompt_observed_at ib"
  "ib_prompt_history (note_readiness_after_interrupt ib) = ib_prompt_history ib"
  "ib_queue (note_readiness_after_interrupt ib) = ib_queue ib"
  "ib_interrupt_armed_at (note_readiness_after_interrupt ib) = ib_interrupt_armed_at ib"
  "ib_interrupt_complete_at (note_readiness_after_interrupt ib) = ib_interrupt_complete_at ib"
  "ib_request_image_id (note_readiness_after_interrupt ib) = ib_request_image_id ib"
  "ib_request_output_source_image_ids (note_readiness_after_interrupt ib) = ib_request_output_source_image_ids ib"
  "ib_readiness_after_interrupt (note_readiness_after_interrupt ib) \<longleftrightarrow>
     ib_readiness_after_interrupt ib \<or> ib_pending_interrupt_started_at ib \<noteq> None \<and> ib_interrupt_complete_at ib \<noteq> None"
  by (auto simp: note_readiness_after_interrupt_def)

text \<open>What the handling of a message keeps and changes, but for the identities of images.\<close>

definition handled :: "ipc_label list \<Rightarrow> inbox \<Rightarrow> inbox \<Rightarrow> bool" where
  "handled ls ib ib' \<longleftrightarrow> request_run ls (request_of ib) = Some (request_of ib') \<and> wf_inbox ib'"

lemma handled_latch: "wf_inbox ib \<Longrightarrow> handled [] ib (latch_error now m ib)"
  by (simp add: handled_def)

lemma handled_input_line:
  assumes "wf_inbox ib" and "handle_input_line h enabled now prompt line ib = (outcome, events, ib')"
  shows "handled [] ib ib'"
proof (cases "validate_active_input ''input_line'' (ib_input_state ib)")
  case (Inl err)
  with assms handled_latch show ?thesis by (auto simp: handle_input_line_def)
next
  case (Inr u)
  let ?ib1 = "ib\<lparr>ib_readline_result_count := sat_add (ib_readline_result_count ib) 1\<rparr>"
  let ?ib2 = "push_prompt_history prompt ?ib1"
  have "ib' = ?ib2\<lparr>ib_input_line_events := ib_input_line_events ?ib2 @ [\<lparr>il_prompt = prompt, il_line = line\<rparr>]\<rparr>"
    using assms(2) Inr by (simp add: handle_input_line_def Let_def)
  with assms(1) push_history_wf [of ?ib1 prompt] show ?thesis
    by (simp add: handled_def wf_inbox_def request_of_def)
qed

lemma request_reported:
  "request_run [Reported] (request_of ib) = Some (request_of (update_input (record_ready_at now w) ib))"
  by (simp add: request_of_def update_input_def record_ready_at_def Let_def)

lemma wf_reported: "wf_inbox ib \<Longrightarrow> wf_inbox (note_readiness_after_interrupt (update_input (record_ready_at now w) ib))"
proof -
  assume "wf_inbox ib"
  moreover have "in_session_end (record_ready_at now w (ib_input_state ib)) = in_session_end (ib_input_state ib)"
    by (simp add: record_ready_at_def Let_def)
  ultimately show ?thesis by (auto simp: wf_inbox_def update_input_def)
qed

lemma handled_input_wait:
  assumes "wf_inbox ib" and "handle_input_wait h enabled now prompt ib = (outcome, events, ib')"
  shows "handled [Reported] ib ib'"
proof -
  let ?ib1 = "note_readiness_after_interrupt (update_input (record_ready_at now True) ib)"
  let ?ib2 = "?ib1\<lparr>ib_last_prompt_observed_at := Some now\<rparr>"
  have ib': "ib' = (push_prompt_history prompt ?ib2)\<lparr>ib_last_prompt := Some prompt\<rparr>"
    using assms(2) by (simp add: handle_input_wait_def Let_def record_input_wait_def [abs_def])
  have "wf_inbox ?ib1" by (rule wf_reported [OF assms(1)])
  with push_history_wf [of ?ib2 prompt] ib' have "wf_inbox ib'" by (simp add: wf_inbox_def)
  moreover have "request_of ib' = request_of (update_input (record_ready_at now True) ib)"
    using ib' by (simp add: request_of_def)
  ultimately show ?thesis using request_reported [of ib now True] by (simp add: handled_def)
qed

lemma handled_ready:
  assumes "wf_inbox ib" and "handle_ready now ib = (outcome, events, ib')"
  shows "handled [Reported] ib ib'"
proof -
  let ?ib1 = "note_readiness_after_interrupt (update_input (record_ready_at now False) ib)"
  have ib': "ib' = ?ib1\<lparr>ib_last_prompt := None, ib_last_prompt_observed_at := None, ib_prompt_history := []\<rparr>"
    using assms(2) by (simp add: handle_ready_def Let_def record_ready_def [abs_def])
  have "wf_inbox ?ib1" by (rule wf_reported [OF assms(1)])
  with ib' have "wf_inbox ib'" by (simp add: wf_inbox_def)
  moreover have "request_of ib' = request_of (update_input (record_ready_at now False) ib)"
    using ib' by (simp add: request_of_def)
  ultimately show ?thesis using request_reported [of ib now False] by (simp add: handled_def)
qed

lemma handled_interrupt_armed:
  assumes "wf_inbox ib" and "handle_interrupt_armed now ib = (outcome, events, ib')"
  shows "handled [] ib ib'"
proof (cases "ib_pending_interrupt_started_at ib = None \<or> ib_interrupt_armed_at ib \<noteq> None")
  case True
  with assms handled_latch show ?thesis by (auto simp: handle_interrupt_armed_def split: if_split_asm)
next
  case False
  then have "ib' = ib\<lparr>ib_interrupt_armed_at := Some now\<rparr>" using assms(2) by (auto simp: handle_interrupt_armed_def)
  with assms(1) show ?thesis by (simp add: handled_def wf_inbox_def request_of_def)
qed

lemma handled_interrupt_complete:
  assumes "wf_inbox ib" and "handle_interrupt_complete now ib = (outcome, events, ib')"
  shows "handled [] ib ib'"
proof (cases "ib_pending_interrupt_started_at ib = None \<or> \<not> interrupt_transaction_armed ib \<or> ib_interrupt_complete_at ib \<noteq> None")
  case True
  with assms handled_latch show ?thesis by (auto simp: handle_interrupt_complete_def split: if_split_asm)
next
  case False
  then have "ib_interrupt_armed_at ib \<noteq> None" by (auto simp: interrupt_transaction_armed_def split: option.split_asm)
  moreover have "ib' = ib\<lparr>ib_interrupt_complete_at := Some now, ib_readiness_after_interrupt := False\<rparr>"
    using False assms(2) by (auto simp: handle_interrupt_complete_def)
  ultimately show ?thesis using assms(1) by (simp add: handled_def wf_inbox_def request_of_def)
qed

lemma handled_session_end:
  assumes "wf_inbox ib" and "\<not> in_session_end_final (ib_input_state ib)"
    and "handle_session_end h enabled now is_first reason m ib = (outcome, events, ib')"
  shows "handled [] ib ib'"
proof (cases "validate_session_end reason")
  case (Inl err)
  with assms handled_latch show ?thesis by (auto simp: handle_session_end_def)
next
  case (Inr u)
  define ib1 where "ib1 = (case m of Some m \<Rightarrow> if is_first \<and> reason = Some ''protocol_error'' then latch_error now m ib else ib | None \<Rightarrow> ib)"
  have ib1: "wf_inbox ib1" "request_of ib1 = request_of ib" "\<not> in_session_end_final (ib_input_state ib1)"
    using assms(1,2) by (auto simp: ib1_def split: option.split)
  have "\<not> in_session_end (ib_input_state ib1)" using ib1(1,3) by (auto simp: wf_inbox_def wf_input_def)
  moreover have "wf_input (state_note_session_end (ib_input_state ib1))" using ib1(1) by (simp add: wf_inbox_def)
  moreover have "ib' = (update_input state_note_session_end ib1)\<lparr>ib_queue := ib_queue ib1 @ [MsgSessionEnd reason m]\<rparr>"
    using assms(3) Inr by (simp add: handle_session_end_def Let_def ib1_def update_input_def)
  ultimately show ?thesis
    using ib1(1,2)
    by (simp add: handled_def wf_inbox_def request_of_def update_input_def state_note_session_end_def is_session_end_def)
qed

lemma handled_push_queue: "wf_inbox ib \<Longrightarrow> \<not> is_session_end m \<Longrightarrow> handled [] ib (push_queue m ib)"
  by (simp add: handled_def push_queue_def wf_inbox_def request_of_def)

lemma handled_output_text:
  "wf_inbox ib \<Longrightarrow> handle_output_text decode h enabled now stream data cont ib = (outcome, events, ib') \<Longrightarrow> handled [] ib ib'"
  using handled_push_queue [of ib "MsgOutputText stream data cont"]
  by (auto simp: handle_output_text_def handled_def is_session_end_def split: option.split_asm if_split_asm)

section \<open>Images\<close>

text \<open>
  The images announced as new since the last request began; that every update refers to one of
  them; all new images; how many identities were allocated.
\<close>

fun note_image :: "string set \<Rightarrow> ipc_label \<Rightarrow> string set" where
  "note_image S Began = {}"
| "note_image S (Assigned i True) = insert i S"
| "note_image S _ = S"

fun updates_in_request :: "string set \<Rightarrow> ipc_label list \<Rightarrow> bool" where
  "updates_in_request S [] = True"
| "updates_in_request S (l # ls) =
     ((case l of Assigned i False \<Rightarrow> i \<in> S | _ \<Rightarrow> True) \<and> updates_in_request (note_image S l) ls)"

fun new_images :: "ipc_label list \<Rightarrow> string list" where
  "new_images [] = []"
| "new_images (Assigned i True # ls) = i # new_images ls"
| "new_images (_ # ls) = new_images ls"

fun allocated :: "ipc_label list \<Rightarrow> nat" where
  "allocated [] = 0"
| "allocated (Assigned i True # ls) = Suc (allocated ls)"
| "allocated (OtherImage # ls) = Suc (allocated ls)"
| "allocated (_ # ls) = allocated ls"

definition image_name :: "nat \<Rightarrow> string" where
  "image_name n = ''image-'' @ dec (sat_add n 1)"

definition request_ids :: "inbox \<Rightarrow> string set" where
  "request_ids ib = set_option (ib_request_image_id ib) \<union> ran (ib_request_output_source_image_ids ib)"

lemma image_name_inj: "image_name m = image_name n \<Longrightarrow> m < u64_max \<Longrightarrow> n < u64_max \<Longrightarrow> m = n"
  by (auto simp: image_name_def sat_add_def dest: arg_cong [of _ _ digits_value] simp: dec_value)

lemma note_image_mono: "S \<subseteq> T \<Longrightarrow> note_image S l \<subseteq> note_image T l"
  by (cases "(S, l)" rule: note_image.cases) auto

lemma foldl_note_mono: "S \<subseteq> T \<Longrightarrow> foldl note_image S ls \<subseteq> foldl note_image T ls"
  by (induction ls arbitrary: S T) (simp_all add: note_image_mono)

lemma updates_mono: "updates_in_request S ls \<Longrightarrow> S \<subseteq> T \<Longrightarrow> updates_in_request T ls"
proof (induction ls arbitrary: S T)
  case (Cons l ls)
  then show ?case using note_image_mono [of S T l] by (auto split: ipc_label.split bool.split)
qed simp

lemma updates_append:
  "updates_in_request S (xs @ ys) \<longleftrightarrow> updates_in_request S xs \<and> updates_in_request (foldl note_image S xs) ys"
  by (induction xs arbitrary: S) auto

lemma new_images_append [simp]: "new_images (xs @ ys) = new_images xs @ new_images ys"
  by (induction xs rule: new_images.induct) simp_all

lemma allocated_append [simp]: "allocated (xs @ ys) = allocated xs + allocated ys"
  by (induction xs rule: allocated.induct) simp_all

lemma allocated_le: "allocated ls \<le> length ls"
  by (induction ls rule: allocated.induct) simp_all

definition image_step :: "ipc_label list \<Rightarrow> inbox \<Rightarrow> nat \<Rightarrow> inbox \<Rightarrow> nat \<Rightarrow> bool" where
  "image_step ls ib n ib' n' \<longleftrightarrow>
     request_ids ib' \<subseteq> foldl note_image (request_ids ib) ls \<and> updates_in_request (request_ids ib) ls \<and>
     n' = (n + allocated ls) mod 2 ^ 64 \<and>
     (new_images ls = [] \<or> new_images ls = [image_name n] \<and> allocated ls = 1)"

lemma assign_image:
  assumes "assign_output_image_id n source is_update ib = r" and "wf_inbox ib" and "n < 2 ^ 64"
  shows "\<exists>i is_new u ib' n'. r = Some ((i, is_new, u), ib', n') \<and>
           handled [Assigned i is_new] ib ib' \<and> image_step [Assigned i is_new] ib n ib' n' \<and>
           in_session_end_final (ib_input_state ib') = in_session_end_final (ib_input_state ib)"
proof (cases source)
  case (Some src)
  show ?thesis
  proof (cases "is_update \<and> ib_request_output_source_image_ids ib src \<noteq> None")
    case True
    then obtain i where i: "is_update" "ib_request_output_source_image_ids ib src = Some i" by blast
    let ?ib = "ib\<lparr>ib_current_image_id := Some i\<rparr>"
    have "r = Some ((i, False, False), ?ib, n)" using assms(1) Some i by (simp add: assign_output_image_id_def)
    moreover have "handled [Assigned i False] ib ?ib"
      using assms(2) by (simp add: handled_def request_of_def wf_inbox_def)
    moreover have "image_step [Assigned i False] ib n ?ib n"
      using i assms(3) by (auto simp: image_step_def request_ids_def intro: ranI)
    ultimately show ?thesis by (intro exI [of _ i] exI [of _ False] exI [of _ ?ib] exI [of _ n]) simp
  next
    case False
    let ?ib = "ib\<lparr>ib_output_source_image_ids := (ib_output_source_image_ids ib)(src \<mapsto> image_name n),
      ib_request_output_source_image_ids := (ib_request_output_source_image_ids ib)(src \<mapsto> image_name n),
      ib_current_image_id := Some (image_name n)\<rparr>"
    from False assms(1) Some
    have "r = Some ((image_name n, True, is_update \<and> ib_output_source_image_ids ib src \<noteq> None), ?ib, (n + 1) mod 2 ^ 64)"
      by (cases is_update)
        (auto simp: assign_output_image_id_def allocate_output_image_id_def image_name_def Let_def split: option.split)
    moreover have "handled [Assigned (image_name n) True] ib ?ib"
      using assms(2) by (simp add: handled_def request_of_def wf_inbox_def)
    moreover have "image_step [Assigned (image_name n) True] ib n ?ib ((n + 1) mod 2 ^ 64)"
      by (auto simp: image_step_def request_ids_def ran_def split: if_split_asm)
    ultimately show ?thesis by auto
  qed
next
  case None
  let ?u = "is_update \<and> ib_current_image_id ib \<noteq> None \<and> ib_request_image_id ib = None"
  show ?thesis
  proof (cases "\<not> is_update \<or> ib_current_image_id ib = None \<or> ?u")
    case True
    let ?ib = "ib\<lparr>ib_request_image_id := Some (image_name n), ib_current_image_id := Some (image_name n)\<rparr>"
    from True assms(1) None have "r = Some ((image_name n, True, ?u), ?ib, (n + 1) mod 2 ^ 64)"
      by (auto simp: assign_output_image_id_def allocate_output_image_id_def image_name_def Let_def)
    moreover have "handled [Assigned (image_name n) True] ib ?ib"
      using assms(2) by (simp add: handled_def request_of_def wf_inbox_def)
    moreover have "image_step [Assigned (image_name n) True] ib n ?ib ((n + 1) mod 2 ^ 64)"
      by (auto simp: image_step_def request_ids_def)
    ultimately show ?thesis by auto
  next
    case False
    then obtain i where i: "ib_request_image_id ib = Some i" by auto
    with False assms(1) None have "r = Some ((i, False, False), ib, n)"
      by (auto simp: assign_output_image_id_def Let_def)
    moreover have "handled [Assigned i False] ib ib" "image_step [Assigned i False] ib n ib n"
      using i assms(2,3) by (simp_all add: handled_def image_step_def request_ids_def)
    ultimately show ?thesis by (intro exI [of _ i] exI [of _ False] exI [of _ ib] exI [of _ n]) simp
  qed
qed

lemma image_step_none:
  "request_ids ib' = request_ids ib \<Longrightarrow> n < 2 ^ 64 \<Longrightarrow> image_step [] ib n ib' n"
  "request_ids ib' = request_ids ib \<Longrightarrow> n < 2 ^ 64 \<Longrightarrow> image_step [Reported] ib n ib' n"
  by (simp_all add: image_step_def)

lemma message_ids:
  "handle_input_line h enabled now prompt line ib = (outcome, events, ib') \<Longrightarrow> request_ids ib' = request_ids ib"
  "handle_input_wait h enabled now prompt ib = (outcome, events, ib') \<Longrightarrow> request_ids ib' = request_ids ib"
  "handle_interrupt_armed now ib = (outcome, events, ib') \<Longrightarrow> request_ids ib' = request_ids ib"
  "handle_interrupt_complete now ib = (outcome, events, ib') \<Longrightarrow> request_ids ib' = request_ids ib"
  "handle_ready now ib = (outcome, events, ib') \<Longrightarrow> request_ids ib' = request_ids ib"
  "handle_session_end h enabled now is_first reason m ib = (outcome, events, ib') \<Longrightarrow> request_ids ib' = request_ids ib"
  "handle_output_text decode h enabled now stream data cont ib = (outcome, events, ib') \<Longrightarrow> request_ids ib' = request_ids ib"
  by (auto simp: request_ids_def handle_input_line_def handle_input_wait_def handle_interrupt_armed_def
      handle_interrupt_complete_def handle_ready_def handle_session_end_def handle_output_text_def Let_def
      update_input_def push_queue_def split: if_split_asm option.split_asm sum.split_asm)

lemma message_outcome_simple:
  "handle_input_line h enabled now prompt line ib = (outcome, events, ib') \<Longrightarrow> outcome \<noteq> ReaderPanic"
  "handle_input_wait h enabled now prompt ib = (outcome, events, ib') \<Longrightarrow> outcome \<noteq> ReaderPanic"
  "handle_interrupt_armed now ib = (outcome, events, ib') \<Longrightarrow> outcome \<noteq> ReaderPanic"
  "handle_interrupt_complete now ib = (outcome, events, ib') \<Longrightarrow> outcome \<noteq> ReaderPanic"
  "handle_ready now ib = (outcome, events, ib') \<Longrightarrow> outcome \<noteq> ReaderPanic"
  "handle_session_end h enabled now is_first reason m ib = (outcome, events, ib') \<Longrightarrow> outcome \<noteq> ReaderPanic"
  "handle_output_text decode h enabled now stream data cont ib = (outcome, events, ib') \<Longrightarrow> outcome \<noteq> ReaderPanic"
  by (auto simp: handle_input_line_def handle_input_wait_def handle_interrupt_armed_def
      handle_interrupt_complete_def handle_ready_def handle_session_end_def handle_output_text_def Let_def
      split: if_split_asm option.split_asm sum.split_asm)

lemmas message_simple = handled_input_line handled_input_wait handled_interrupt_armed handled_interrupt_complete handled_ready
  handled_session_end handled_output_text

lemma handled_image:
  assumes "handle_output_image decode h enabled now mime data is_update source ib n = (outcome, events, ib', n')"
    and "wf_inbox ib" and "n < 2 ^ 64"
  shows "outcome \<noteq> ReaderPanic \<and>
         handled (message_labels decode (MsgOutputImage mime data is_update source) ib n) ib ib' \<and>
         image_step (message_labels decode (MsgOutputImage mime data is_update source) ib n) ib n ib' n'"
proof (cases "decode data")
  case None
  have "request_ids (latch_error now m ib) = request_ids ib" for m by (simp add: request_ids_def)
  with None assms show ?thesis
    by (auto simp: handle_output_image_def message_labels_def handled_def image_step_none)
next
  case (Some bs)
  from assign_image [OF refl assms(2,3), of source is_update] obtain i is_new u ib1 n1 where
    a: "assign_output_image_id n source is_update ib = Some ((i, is_new, u), ib1, n1)"
    and h: "handled [Assigned i is_new] ib ib1" and st: "image_step [Assigned i is_new] ib n ib1 n1" by blast
  have l: "message_labels decode (MsgOutputImage mime data is_update source) ib n = [Assigned i is_new]"
    using Some a by (simp add: message_labels_def)
  have q: "handled [Assigned i is_new] ib (push_queue (MsgOutputImage mime data is_update source) ib1)"
    "request_ids (push_queue (MsgOutputImage mime data is_update source) ib1) = request_ids ib1"
    using h handled_push_queue [of ib1 "MsgOutputImage mime data is_update source"]
    by (auto simp: handled_def is_session_end_def push_queue_def request_ids_def)
  have "image_step [Assigned i is_new] ib n (push_queue (MsgOutputImage mime data is_update source) ib1) n1"
    using st q(2) by (simp add: image_step_def)
  with assms(1) Some a h st l q show ?thesis
    by (auto simp: handle_output_image_def split: if_split_asm)
qed

lemma keep_counter:
  "(case r of (outcome, events, ib) \<Rightarrow> (outcome, events, ib, n)) = (outcome, events, ib', n') \<longleftrightarrow>
   r = (outcome, events, ib') \<and> n' = n"
  by (cases r) auto

lemma simple_message:
  assumes "handled ls ib ib'" and "request_ids ib' = request_ids ib" and "outcome \<noteq> ReaderPanic"
    and "n < 2 ^ 64" and "ls = [] \<or> ls = [Reported]"
  shows "outcome \<noteq> ReaderPanic \<and> handled ls ib ib' \<and> image_step ls ib n ib' n"
  using assms image_step_none [OF assms(2,4)] by auto

lemma handled_message:
  assumes "handle_message decode h enabled now m is_first ib n = (outcome, events, ib', n')"
    and "wf_inbox ib" and "\<not> in_session_end_final (ib_input_state ib)" and "n < 2 ^ 64"
  shows "outcome \<noteq> ReaderPanic \<and> handled (message_labels decode m ib n) ib ib' \<and>
    image_step (message_labels decode m ib n) ib n ib' n'"
proof (cases m)
  case (MsgOutputImage mime data is_update source)
  with handled_image [OF _ assms(2,4)] assms(1) show ?thesis by (simp add: handle_message_def)
next
  case (MsgWorkerReady p w c)
  have "request_ids (push_queue m ib) = request_ids ib" by (simp add: push_queue_def request_ids_def)
  with MsgWorkerReady assms handled_push_queue [OF assms(2), of m] show ?thesis
    by (auto simp: handle_message_def message_labels_def is_session_end_def image_step_none)
next
  case (MsgInputLine prompt line)
  with assms(1) have r: "handle_input_line h enabled now prompt line ib = (outcome, events, ib')" and n': "n' = n"
    by (simp_all add: handle_message_def keep_counter)
  from simple_message [OF message_simple(1) [OF assms(2) r] message_ids(1) [OF r] message_outcome_simple(1) [OF r] assms(4)] MsgInputLine
  show ?thesis by (simp add: message_labels_def n')
next
  case (MsgInputWait prompt)
  with assms(1) have r: "handle_input_wait h enabled now prompt ib = (outcome, events, ib')" and n': "n' = n"
    by (simp_all add: handle_message_def keep_counter)
  from simple_message [OF message_simple(2) [OF assms(2) r] message_ids(2) [OF r] message_outcome_simple(2) [OF r] assms(4)] MsgInputWait
  show ?thesis by (simp add: message_labels_def n')
next
  case MsgInterruptArmed
  with assms(1) have r: "handle_interrupt_armed now ib = (outcome, events, ib')" and n': "n' = n"
    by (simp_all add: handle_message_def keep_counter)
  from simple_message [OF message_simple(3) [OF assms(2) r] message_ids(3) [OF r] message_outcome_simple(3) [OF r] assms(4)] MsgInterruptArmed
  show ?thesis by (simp add: message_labels_def n')
next
  case MsgInterruptComplete
  with assms(1) have r: "handle_interrupt_complete now ib = (outcome, events, ib')" and n': "n' = n"
    by (simp_all add: handle_message_def keep_counter)
  from simple_message [OF message_simple(4) [OF assms(2) r] message_ids(4) [OF r] message_outcome_simple(4) [OF r] assms(4)] MsgInterruptComplete
  show ?thesis by (simp add: message_labels_def n')
next
  case MsgReady
  with assms(1) have r: "handle_ready now ib = (outcome, events, ib')" and n': "n' = n"
    by (simp_all add: handle_message_def keep_counter)
  from simple_message [OF message_simple(5) [OF assms(2) r] message_ids(5) [OF r] message_outcome_simple(5) [OF r] assms(4)] MsgReady
  show ?thesis by (simp add: message_labels_def n')
next
  case (MsgSessionEnd reason message)
  with assms(1) have r: "handle_session_end h enabled now is_first reason message ib = (outcome, events, ib')" and n': "n' = n"
    by (simp_all add: handle_message_def keep_counter)
  from simple_message [OF message_simple(6) [OF assms(2,3) r] message_ids(6) [OF r] message_outcome_simple(6) [OF r] assms(4)] MsgSessionEnd
  show ?thesis by (simp add: message_labels_def n')
next
  case (MsgOutputText stream data cont)
  with assms(1) have r: "handle_output_text decode h enabled now stream data cont ib = (outcome, events, ib')" and n': "n' = n"
    by (simp_all add: handle_message_def keep_counter)
  from simple_message [OF message_simple(7) [OF assms(2) r] message_ids(7) [OF r] message_outcome_simple(7) [OF r] assms(4)] MsgOutputText
  show ?thesis by (simp add: message_labels_def n')
qed

section \<open>Runs\<close>

text \<open>What holds of a connection after a run with the given labels.\<close>

definition run_inv :: "nat \<Rightarrow> ipc_label list \<Rightarrow> connection \<Rightarrow> bool" where
  "run_inv n ls c \<longleftrightarrow>
     wf_connection c \<and> request_run ls (RequestState False False False) = Some (request_of (cn_inbox c)) \<and>
     request_ids (cn_inbox c) \<subseteq> foldl note_image {} ls \<and> updates_in_request {} ls \<and>
     cn_next_image c = (n + allocated ls) mod 2 ^ 64 \<and>
     (n + allocated ls < 2 ^ 64 - 1 \<longrightarrow>
        distinct (new_images ls) \<and> set (new_images ls) \<subseteq> image_name ` {n..<n + allocated ls})"

lemma run_inv_step:
  assumes "run_inv n ls c" and "wf_connection c'"
    and "request_run ls1 (request_of (cn_inbox c)) = Some (request_of (cn_inbox c'))"
    and "image_step ls1 (cn_inbox c) (cn_next_image c) (cn_inbox c') (cn_next_image c')"
  shows "run_inv n (ls @ ls1) c'"
proof -
  let ?n = "cn_next_image c"
  have ids: "request_ids (cn_inbox c') \<subseteq> foldl note_image {} (ls @ ls1)"
    using assms(1,4) foldl_note_mono [of "request_ids (cn_inbox c)" "foldl note_image {} ls" ls1]
    by (auto simp: run_inv_def image_step_def)
  have upd: "updates_in_request {} (ls @ ls1)"
    using assms(1,4) updates_mono [of "request_ids (cn_inbox c)" ls1 "foldl note_image {} ls"]
    by (auto simp: run_inv_def image_step_def updates_append)
  have n': "cn_next_image c' = (n + allocated (ls @ ls1)) mod 2 ^ 64"
    using assms(1,4) by (simp add: run_inv_def image_step_def mod_simps ac_simps)
  have "distinct (new_images (ls @ ls1)) \<and> set (new_images (ls @ ls1)) \<subseteq> image_name ` {n..<n + allocated (ls @ ls1)}"
    if b: "n + allocated (ls @ ls1) < 2 ^ 64 - 1"
  proof -
    have n: "?n = n + allocated ls" using assms(1) b by (simp add: run_inv_def)
    have old: "distinct (new_images ls)" "set (new_images ls) \<subseteq> image_name ` {n..<n + allocated ls}"
      using assms(1) b by (simp_all add: run_inv_def)
    have "image_name ?n \<notin> image_name ` {n..<n + allocated ls}"
    proof
      assume "image_name ?n \<in> image_name ` {n..<n + allocated ls}"
      then obtain k where "image_name ?n = image_name k" "k < n + allocated ls" by auto
      with image_name_inj [of ?n k] b n show False by (simp add: u64_max_def)
    qed
    with old have fresh: "image_name ?n \<notin> set (new_images ls)" by blast
    have new: "new_images ls1 = [] \<or> new_images ls1 = [image_name ?n] \<and> allocated ls1 = 1"
      using assms(4) by (simp add: image_step_def)
    have "image_name ?n \<in> image_name ` {n..<n + allocated ls + 1}" using n by simp
    moreover have "image_name ` {n..<n + allocated ls} \<subseteq> image_name ` {n..<n + allocated (ls @ ls1)}" by auto
    ultimately show ?thesis using old fresh new by auto
  qed
  with assms(1-3) ids upd n' show ?thesis by (auto simp: run_inv_def request_run_append)
qed

lemma call_labels: "l \<in> set (fst (call_server k ib)) \<Longrightarrow> l \<in> {Began, Accepted, Completed}"
  by (cases k) (auto simp: on_success_def case_prod_beta split: option.split_asm sum.split_asm)

lemma call_images:
  assumes "call_server k ib = (ls, ib')" and "n < 2 ^ 64"
  shows "image_step ls ib n ib' n"
proof -
  have ls: "set ls \<subseteq> {Began, Accepted, Completed}" using call_labels [of _ k ib] assms(1) by auto
  then have "foldl note_image S ls = (if Began \<in> set ls then {} else S)" "updates_in_request S ls"
    "new_images ls = []" "allocated ls = 0" for S
    by (induction ls arbitrary: S) auto
  with effect_call [OF assms(1)] assms(2) show ?thesis
    by (auto simp: image_step_def effect_def request_ids_def split: if_split_asm)
qed

lemma admitted:
  assumes "read_line from_str now line ib = (outcome, hand, ib')" and "wf_inbox ib"
  shows "wf_inbox ib' \<and> request_of ib' = request_of ib \<and> request_ids ib' = request_ids ib \<and> outcome \<noteq> ReaderPanic \<and>
         (hand \<noteq> None \<longrightarrow> \<not> in_session_end_final (ib_input_state ib'))"
proof -
  have ids: "request_ids (latch_error now m ib) = request_ids ib" for m by (simp add: request_ids_def)
  have "wf_inbox (ib\<lparr>ib_startup_message_seen := True\<rparr>) = wf_inbox ib"
    "request_of (ib\<lparr>ib_startup_message_seen := True\<rparr>) = request_of ib"
    "request_ids (ib\<lparr>ib_startup_message_seen := True\<rparr>) = request_ids ib"
    by (simp_all add: wf_inbox_def request_of_def request_ids_def)
  with assms ids show ?thesis
    by (auto simp: read_line_def admit_message_def Let_def split: if_split_asm sum.split_asm)
qed

lemma step_inv:
  assumes "run_inv n ls c" and "ipc_step from_str decode h c ls1 c'"
  shows "run_inv n (ls @ ls1) c'"
proof -
  have wf: "wf_inbox (cn_inbox c)" "cn_in_hand c \<noteq> None \<Longrightarrow> \<not> in_session_end_final (ib_input_state (cn_inbox c))"
    and small: "cn_next_image c < 2 ^ 64" using assms(1) by (auto simp: run_inv_def wf_connection_def)
  have still: "image_step [] (cn_inbox c) (cn_next_image c) ib (cn_next_image c)"
    if "request_ids ib = request_ids (cn_inbox c)" for ib
    using that small by (intro image_step_none)
  from assms(2) show ?thesis
  proof (cases rule: ipc_step.cases)
    case (line now line outcome hand ib)
    note a = admitted [OF line(5) wf(1)]
    show ?thesis
      using a still [of ib] by (intro run_inv_step [OF assms(1)]) (auto simp: line wf_connection_def)
  next
    case (message m is_first now outcome events ib next_image)
    note a = handled_message [OF message(4) wf(1) _ small]
    show ?thesis
      using a wf(2) message(3) by (intro run_inv_step [OF assms(1)]) (auto simp: message(1,2) wf_connection_def handled_def)
  next
    case closed
    have "wf_inbox (reader_disconnected ib) = wf_inbox ib" "request_of (reader_disconnected ib) = request_of ib"
      "request_ids (reader_disconnected ib) = request_ids ib" for ib
      by (simp_all add: reader_disconnected_def wf_inbox_def request_of_def request_ids_def)
    with wf still closed show ?thesis
      by (intro run_inv_step [OF assms(1)]) (auto simp: wf_connection_def)
  next
    case (called k ib)
    note e = effect_call [OF called(2)] and i = call_images [OF called(2) small]
    show ?thesis
      using e i wf by (intro run_inv_step [OF assms(1)]) (auto simp: called(1) wf_connection_def effect_def)
  next
    case disabled
    with wf still show ?thesis by (intro run_inv_step [OF assms(1)]) (auto simp: wf_connection_def)
  next
    case other
    with wf show ?thesis
      by (intro run_inv_step [OF assms(1)])
        (auto simp: wf_connection_def image_step_def allocate_output_image_id_def)
  qed
qed

lemma run_invariant:
  assumes "ipc_run from_str decode h (connection_start n) ls c" and "n < 2 ^ 64"
  shows "run_inv n ls c"
  using assms(1)
proof (induction rule: ipc_run.induct)
  case start
  show ?case
    using assms(2)
    by (simp add: run_inv_def connection_start_def wf_connection_def request_of_def inbox_default_def
        input_state_default_def wf_inbox_def wf_input_def request_ids_def)
next
  case (step ls c1 ls1 c2)
  then show ?case by (blast intro: step_inv)
qed

lemma not_ready_until_reported:
  "request_run ls rq = Some rq' \<Longrightarrow> \<not> rq_ready rq \<Longrightarrow> Reported \<notin> set ls \<Longrightarrow> \<not> rq_ready rq'"
proof (induction ls arbitrary: rq)
  case (Cons l ls)
  then obtain rq1 where rq1: "request_step l rq = Some rq1" "request_run ls rq1 = Some rq'"
    by (cases "request_step l rq") auto
  have "\<not> rq_ready rq1" using rq1(1) Cons.prems(2,3) by (cases "(l, rq)" rule: request_step.cases) (auto split: if_split_asm)
  with Cons rq1 show ?case by simp
qed simp

lemma extends_segment:
  assumes "(d \<longrightarrow> x) \<and> (x \<longrightarrow> (\<exists>a b. ls = a @ Accepted # b \<and> {Accepted, Completed, Began} \<inter> set b = {} \<and>
      (d \<longrightarrow> Reported \<in> set b)))" and "l \<notin> {Accepted, Completed, Began}"
  shows "(d \<longrightarrow> x) \<and> (x \<longrightarrow> (\<exists>a b. ls @ [l] = a @ Accepted # b \<and> {Accepted, Completed, Began} \<inter> set b = {} \<and>
      (d \<longrightarrow> Reported \<in> set b)))"
proof -
  have "\<exists>a b. ls @ [l] = a @ Accepted # b \<and> {Accepted, Completed, Began} \<inter> set b = {} \<and> (d \<longrightarrow> Reported \<in> set b)" if x
  proof -
    from assms that obtain a b where "ls = a @ Accepted # b" "{Accepted, Completed, Began} \<inter> set b = {}"
      "d \<longrightarrow> Reported \<in> set b" by blast
    with assms(2) show ?thesis by (intro exI [of _ a] exI [of _ "b @ [l]"]) auto
  qed
  with assms(1) show ?thesis by blast
qed

lemma active_since_accepted:
  assumes "request_run ls (RequestState False False False) = Some rq"
  shows "(rq_done rq \<longrightarrow> rq_active rq) \<and>
    (rq_active rq \<longrightarrow> (\<exists>a b. ls = a @ Accepted # b \<and> {Accepted, Completed, Began} \<inter> set b = {} \<and>
       (rq_done rq \<longrightarrow> Reported \<in> set b)))"
  using assms
proof (induction ls arbitrary: rq rule: rev_induct)
  case (snoc l ls)
  then obtain rq1 where rq1: "request_run ls (RequestState False False False) = Some rq1" "request_step l rq1 = Some rq"
    by (cases "request_run ls (RequestState False False False)") (auto simp: request_run_append split: Option.bind_split_asm)
  show ?case
  proof (cases l)
    case Accepted
    with rq1(2) have "rq = RequestState False True False" by (cases rq1) (auto split: if_split_asm)
    moreover have "ls @ [l] = ls @ Accepted # []" using Accepted by simp
    ultimately show ?thesis by (metis empty_set inf_bot_right request_state.sel(2,3))
  next
    case Reported
    with rq1(2) have rq: "rq_active rq = rq_active rq1" "rq_done rq = (rq_done rq1 \<or> rq_active rq1)" by (cases rq1, auto)+
    with snoc.IH [OF rq1(1)] have imp: "rq_done rq \<longrightarrow> rq_active rq" by auto
    have "\<exists>a b. ls @ [l] = a @ Accepted # b \<and> {Accepted, Completed, Began} \<inter> set b = {} \<and> Reported \<in> set b"
      if "rq_active rq"
    proof -
      from that rq snoc.IH [OF rq1(1)] obtain a b where "ls = a @ Accepted # b" "{Accepted, Completed, Began} \<inter> set b = {}"
        by auto
      with Reported show ?thesis by (intro exI [of _ a] exI [of _ "b @ [l]"]) auto
    qed
    with imp show ?thesis by blast
  next
    case (Assigned i is_new)
    with rq1(2) have "rq = rq1" by simp
    with snoc.IH [OF rq1(1)] Assigned show ?thesis by (intro extends_segment) auto
  next
    case OtherImage
    with rq1(2) have "rq = rq1" by simp
    with snoc.IH [OF rq1(1)] OtherImage show ?thesis by (intro extends_segment) auto
  qed (use rq1(2) in \<open>cases rq1; auto split: if_split_asm\<close>)+
qed simp

text \<open>
  C6. The inbox implements the request protocol: whatever the worker sends and however the reader
  and the server interleave, the reports, accepted inputs and completions of a connection form a
  run of the protocol that ends in the state the inbox shows.
\<close>

theorem inbox_refines_request_protocol:
  assumes "ipc_run from_str decode h (connection_start n) ls c" and "n < 2 ^ 64"
  shows "request_run ls (RequestState False False False) = Some (request_of (cn_inbox c))"
  using run_invariant [OF assms] by (simp add: run_inv_def)

text \<open>
  C5. Inputs are not sent to a busy worker and requests do not complete early: between two accepted
  inputs the worker has reported that it waits for input, and so it has before the first; and a
  completion is preceded by an accepted input and, after that input, by such a report, with no
  other input, completion or new request in between.
\<close>

theorem inputs_wait_for_readiness:
  assumes "ipc_run from_str decode h (connection_start n) ls c" and "n < 2 ^ 64"
  shows "(\<forall>t1 t2. ls = t1 @ Accepted # t2 \<longrightarrow> Reported \<in> set t1) \<and>
         (\<forall>t1 t2 t3. ls = t1 @ Accepted # t2 @ Accepted # t3 \<longrightarrow> Reported \<in> set t2) \<and>
         (\<forall>t1 t2. ls = t1 @ Completed # t2 \<longrightarrow>
            (\<exists>a b. t1 = a @ Accepted # b \<and> {Accepted, Completed, Began} \<inter> set b = {} \<and> Reported \<in> set b))"
proof -
  let ?rq = "RequestState False False False"
  obtain rq where run: "request_run ls ?rq = Some rq" using run_invariant [OF assms] by (simp add: run_inv_def)
  have upto: "\<exists>rq1 rq2. request_run t1 ?rq = Some rq1 \<and> request_step l rq1 = Some rq2 \<and> request_run t2 rq2 \<noteq> None"
    if "ls = t1 @ l # t2" for t1 l t2
    using run that by (auto simp: request_run_append split: Option.bind_split_asm)
  have ready: "request_step Accepted rq1 = Some rq2 \<Longrightarrow> rq_ready rq1 \<and> \<not> rq_ready rq2" for rq1 rq2
    by (cases rq1) (auto split: if_split_asm)
  have "Reported \<in> set t1" if ls: "ls = t1 @ Accepted # t2" for t1 t2
  proof (rule ccontr)
    assume "Reported \<notin> set t1"
    with upto [OF ls] ready not_ready_until_reported [of t1 ?rq] show False by fastforce
  qed
  moreover have "Reported \<in> set t2" if ls: "ls = t1 @ Accepted # t2 @ Accepted # t3" for t1 t2 t3
  proof (rule ccontr)
    assume none: "Reported \<notin> set t2"
    from upto [OF ls] obtain rq1 rq2 where first: "request_step Accepted rq1 = Some rq2" "request_run (t2 @ Accepted # t3) rq2 \<noteq> None"
      by blast
    then obtain rq3 rq4 where "request_run t2 rq2 = Some rq3" "request_step Accepted rq3 = Some rq4"
      by (auto simp: request_run_append split: Option.bind_split_asm)
    with first(1) ready not_ready_until_reported none show False by blast
  qed
  moreover have "\<exists>a b. t1 = a @ Accepted # b \<and> {Accepted, Completed, Began} \<inter> set b = {} \<and> Reported \<in> set b"
    if ls: "ls = t1 @ Completed # t2" for t1 t2
  proof -
    from upto [OF ls] obtain rq1 rq2 where rq1: "request_run t1 ?rq = Some rq1" "request_step Completed rq1 = Some rq2" by blast
    then have "rq_active rq1" "rq_done rq1" by (cases rq1, auto split: if_split_asm)+
    with active_since_accepted [OF rq1(1)] show ?thesis by blast
  qed
  ultimately show ?thesis by blast
qed

text \<open>
  C7. The inbox stays consistent in every run: readiness, completion and session end agree with
  each other; the prompt has a time exactly if there is one; at most 16 prompts are remembered
  and none twice in a row; a session end is queued exactly while it is pending; interrupt facts
  are ordered. And the reader never panics on a message it holds.
\<close>

theorem inbox_stays_wf:
  assumes "ipc_run from_str decode h (connection_start n) ls c" and "n < 2 ^ 64"
  shows "wf_inbox (cn_inbox c) \<and>
         (case cn_in_hand c of
            None \<Rightarrow> True
          | Some (m, is_first) \<Rightarrow>
              fst (handle_message decode h (cn_enabled c) now m is_first (cn_inbox c) (cn_next_image c)) \<noteq> ReaderPanic)"
proof -
  have inv: "wf_connection c" "cn_next_image c < 2 ^ 64" using run_invariant [OF assms] by (auto simp: run_inv_def)
  have "fst (handle_message decode h (cn_enabled c) now m is_first (cn_inbox c) (cn_next_image c)) \<noteq> ReaderPanic"
    if "cn_in_hand c = Some (m, is_first)" for m is_first
    using handled_message [of decode h "cn_enabled c" now m is_first "cn_inbox c" "cn_next_image c"] inv that
    by (cases "handle_message decode h (cn_enabled c) now m is_first (cn_inbox c) (cn_next_image c)")
      (auto simp: wf_connection_def)
  with inv show ?thesis by (auto simp: wf_connection_def split: option.split)
qed

text \<open>
  Images keep their identity: an image that is not new carries the identity of one that was
  announced as new since the present request began, and no two new images ever get the same
  identity, as long as fewer than \<open>2 ^ 64 - 1\<close> have been allocated by all connections.
\<close>

theorem image_updates_stay_in_request:
  assumes "ipc_run from_str decode h (connection_start n) ls c" and "n + length ls < 2 ^ 64 - 1"
  shows "updates_in_request {} ls \<and> distinct (new_images ls)"
proof -
  have "n + allocated ls < 2 ^ 64 - 1" "n < 2 ^ 64" using assms(2) allocated_le [of ls] by simp_all
  with run_invariant [OF assms(1)] show ?thesis by (simp add: run_inv_def)
qed

section \<open>An example\<close>

datatype action = DoLine string | DoMessage | DoCall server_call

definition example_from_str :: "string \<Rightarrow> string + ipc_message" where
  "example_from_str line =
     (if line = ''w'' then Inr (MsgWorkerReady \<lparr>wp_name = [], wp_version = 7\<rparr> \<lparr>wi_name = [], wi_version = []\<rparr> \<lparr>wc_images = True\<rparr>)
      else if line = ''r'' then Inr MsgReady
      else if line = ''p'' then Inr (MsgOutputImage [] [] False None)
      else if line = ''u'' then Inr (MsgOutputImage [] [] True None)
      else Inl ''unknown'')"

definition example_decode :: "string \<Rightarrow> bytes option" where "example_decode s = Some s"

definition example_handlers :: ipc_handlers where
  "example_handlers = \<lparr>on_output_text = True, on_output_image = True, on_input_wait = True, on_input_line = True, on_session_end = True\<rparr>"

fun perform :: "action \<Rightarrow> connection \<Rightarrow> ipc_label list \<times> connection" where
  "perform (DoLine line) c =
     (if cn_reading c \<and> cn_in_hand c = None
      then (let (outcome, hand, ib) = read_line example_from_str 1 line (cn_inbox c)
            in ([], c\<lparr>cn_inbox := ib, cn_in_hand := hand, cn_reading := (outcome = ReadOn)\<rparr>))
      else ([], c\<lparr>cn_enabled := False\<rparr>))"
| "perform DoMessage c =
     (case cn_in_hand c of
        None \<Rightarrow> ([], c\<lparr>cn_enabled := False\<rparr>)
      | Some (m, is_first) \<Rightarrow>
          (let (outcome, events, ib, n) = handle_message example_decode example_handlers (cn_enabled c) 1 m is_first (cn_inbox c) (cn_next_image c)
           in (message_labels example_decode m (cn_inbox c) (cn_next_image c),
               c\<lparr>cn_inbox := ib, cn_in_hand := None, cn_reading := (outcome = ReadOn), cn_next_image := n\<rparr>)))"
| "perform (DoCall k) c = (let (ls, ib) = call_server k (cn_inbox c) in (ls, c\<lparr>cn_inbox := ib\<rparr>))"

fun performs :: "action list \<Rightarrow> ipc_label list \<times> connection \<Rightarrow> ipc_label list \<times> connection" where
  "performs [] s = s"
| "performs (a # as) (ls, c) = (let (ls1, c1) = perform a c in performs as (ls @ ls1, c1))"

lemma perform_step: "perform a c = (ls, c') \<Longrightarrow> ipc_step example_from_str example_decode example_handlers c ls c'"
  by (cases "(a, c)" rule: perform.cases)
    (auto split: if_split_asm option.split_asm prod.split_asm intro: ipc_step.intros)

lemma performs_run:
  "ipc_run example_from_str example_decode example_handlers c0 ls c \<Longrightarrow> performs as (ls, c) = (ls', c') \<Longrightarrow>
   ipc_run example_from_str example_decode example_handlers c0 ls' c'"
proof (induction as arbitrary: ls c)
  case (Cons a as)
  obtain ls1 c1 where a: "perform a c = (ls1, c1)" by fastforce
  then have "performs as (ls @ ls1, c1) = (ls', c')" using Cons.prems(2) by simp
  from Cons.IH [OF ipc_run.step [OF Cons.prems(1) perform_step [OF a]] this] show ?case .
qed simp

text \<open>A worker starts, reports, gets an input, plots twice and updates the second plot, reports again.\<close>

definition example_script :: "action list" where
  "example_script =
     concat (map (\<lambda>l. [DoLine [l], DoMessage]) ''wr'') @ [DoCall (BeginInput 1 9)] @
     concat (map (\<lambda>l. [DoLine [l], DoMessage]) ''ppur'') @ [DoCall (CompletionTurn 2 9), DoLine ''r'']"

definition example_run :: "ipc_label list \<times> connection" where
  "example_run = performs example_script ([], connection_start 0)"

lemma example_run:
  "ipc_run example_from_str example_decode example_handlers (connection_start 0) (fst example_run) (snd example_run)"
  by (rule performs_run [OF ipc_run.start, of example_script]) (simp add: example_run_def)

lemma example_labels:
  "fst example_run = [Reported, Began, Accepted, Assigned ''image-1'' True, Assigned ''image-2'' True,
     Assigned ''image-2'' False, Reported, Completed]"
  "cn_in_hand (snd example_run) = Some (MsgReady, False)"
  by code_simp+

theorem inbox_refines_request_protocol_witness:
  "request_run (fst example_run) (RequestState False False False) = Some (request_of (cn_inbox (snd example_run)))"
  using inbox_refines_request_protocol [OF example_run] by simp

theorem inputs_wait_for_readiness_witness:
  "\<exists>a b. [Reported, Began, Accepted, Assigned ''image-1'' True, Assigned ''image-2'' True,
       Assigned ''image-2'' False, Reported] = a @ Accepted # b \<and>
     {Accepted, Completed, Began} \<inter> set b = {} \<and> Reported \<in> set b"
proof -
  let ?t = "[Reported, Began, Accepted, Assigned ''image-1'' True, Assigned ''image-2'' True, Assigned ''image-2'' False, Reported]"
  have "fst example_run = ?t @ Completed # []" by (simp add: example_labels)
  with inputs_wait_for_readiness [OF example_run, THEN conjunct2, THEN conjunct2, rule_format, of ?t "[]"]
  show ?thesis by (simp only: zero_less_numeral zero_less_power simp_thms)
qed

theorem inbox_stays_wf_witness:
  "wf_inbox (cn_inbox (snd example_run)) \<and>
   fst (handle_message example_decode example_handlers (cn_enabled (snd example_run)) 3 MsgReady False
     (cn_inbox (snd example_run)) (cn_next_image (snd example_run))) \<noteq> ReaderPanic"
  using inbox_stays_wf [OF example_run, of 3] example_labels(2) by simp

theorem image_updates_stay_in_request_witness:
  "updates_in_request {} (fst example_run) \<and> new_images (fst example_run) = [''image-1'', ''image-2'']"
proof -
  have "(0::nat) + length (fst example_run) < 2 ^ 64 - 1" by (simp add: example_labels)
  from image_updates_stay_in_request [OF example_run this] show ?thesis by (simp add: example_labels)
qed

end
