(* ===== verification/Response_Items.thy ===== *)
theory Response_Items
  imports Worker_Manager
begin

text \<open>
  \<^verbatim>\<open>src/src/server/response.rs\<close>, the part that computes without the disk: a worker reply as items,
  the collapsing of image updates, the contents of a tool result, and the previews that stand for
  text that is too long.
\<close>

section \<open>Items\<close>

definition INLINE_TEXT_BUDGET :: nat where "INLINE_TEXT_BUDGET = 3500"

definition INLINE_TEXT_HARD_SPILL_THRESHOLD :: nat where
  "INLINE_TEXT_HARD_SPILL_THRESHOLD = INLINE_TEXT_BUDGET * 5 div 4"

definition IMAGE_OUTPUT_BUNDLE_THRESHOLD :: nat where "IMAGE_OUTPUT_BUNDLE_THRESHOLD = 5"

definition HEAD_TEXT_BUDGET :: nat where "HEAD_TEXT_BUDGET = INLINE_TEXT_BUDGET div 3"

definition PRE_LAST_TEXT_BUDGET :: nat where "PRE_LAST_TEXT_BUDGET = INLINE_TEXT_BUDGET div 5"

definition POST_LAST_TEXT_BUDGET :: nat where "POST_LAST_TEXT_BUDGET = INLINE_TEXT_BUDGET div 8"

definition TEXT_STREAM_META_KEY :: string where "TEXT_STREAM_META_KEY = ''mcpReplTextStream''"

record reply_image =
  ri_id :: string
  ri_data :: string
  ri_mime_type :: string

datatype reply_item =
    WorkerText string text_stream content_visibility
  | ServerText string text_stream
  | ReplyImage reply_image

fun is_image_item :: "reply_item \<Rightarrow> bool" where
  "is_image_item (ReplyImage _) = True"
| "is_image_item _ = False"

record reply_material =
  rm_inline_items :: "reply_item list"
  rm_bundle_items :: "reply_item list"
  rm_worker_text :: string
  rm_detached_prefix_items :: "reply_item list"
  rm_detached_prefix_inline_items :: "reply_item list"
  rm_detached_prefix_worker_text :: string
  rm_reply_inline_items :: "reply_item list"
  rm_reply_bundle_items :: "reply_item list"
  rm_reply_worker_text :: string
  rm_is_error :: bool
  rm_error_code :: "worker_error_code option"

text \<open>A content of a tool result: text with its metadata, or an image.\<close>

datatype tool_content =
    ToolText string "(string \<times> string) list option"
  | ToolImage string string

record call_tool_result =
  ct_content :: "tool_content list"
  ct_is_error :: bool

section \<open>From a reply to items\<close>

text \<open>\<^verbatim>\<open>str::split_inclusive('\n')\<close>: the lines with their line ends.\<close>

fun split_lines :: "string \<Rightarrow> string list" where
  "split_lines [] = []"
| "split_lines (c # s) =
     (if c = CHR 0x0A then [c] # split_lines s
      else case split_lines s of [] \<Rightarrow> [[c]] | l # ls \<Rightarrow> (c # l) # ls)"

definition normalize_error_line :: "string \<Rightarrow> string option" where
  "normalize_error_line line =
     (case strip_prefix line ''> '' of
        Some rest \<Rightarrow> if starts_with rest ''Error'' then Some rest else None
      | None \<Rightarrow> None)"

definition normalize_error_prompt :: "string \<Rightarrow> bool \<Rightarrow> string" where
  "normalize_error_prompt txt is_error =
     (if \<not> is_error then txt
      else
        (let ls = split_lines txt;
             normalized = concat (map (\<lambda>line. unwrap_or (normalize_error_line line) line) ls);
             normalized_any = list_ex (\<lambda>line. normalize_error_line line \<noteq> None) ls;
             normalized =
               (if normalized_any \<and> \<not> ends_with normalized (nl @ ''> '') \<and> \<not> ends_with normalized ''> ''
                then (if ends_with normalized nl then normalized else normalized @ nl) @ ''> ''
                else normalized)
         in if normalized_any then normalized else txt))"

text \<open>
  Updates of an image: the images that follow each other with the same identity form a group, of
  which only the last stays.
\<close>

record collapse_state =
  cl_group_for_index :: "nat option list"
  cl_last_in_group :: "nat list"
  cl_current_group :: "nat option"
  cl_current_image_id :: "string option"

definition collapse_turn :: "nat \<times> reply_item \<Rightarrow> collapse_state \<Rightarrow> collapse_state" where
  "collapse_turn entry st =
     (case entry of
        (idx, ReplyImage img) \<Rightarrow>
          (let st1 =
                 (if cl_current_group st = None \<or> cl_current_image_id st \<noteq> Some (ri_id img)
                  then st\<lparr>cl_current_group := Some (length (cl_last_in_group st)),
                          cl_last_in_group := cl_last_in_group st @ [idx],
                          cl_current_image_id := Some (ri_id img)\<rparr>
                  else st)
           in case cl_current_group st1 of
                None \<Rightarrow> st1
              | Some grp \<Rightarrow>
                  st1\<lparr>cl_group_for_index := (cl_group_for_index st1)[idx := Some grp],
                      cl_last_in_group := (cl_last_in_group st1)[grp := idx]\<rparr>)
      | _ \<Rightarrow> st)"

definition collapse_groups :: "reply_item list \<Rightarrow> collapse_state" where
  "collapse_groups items =
     foldl (\<lambda>st entry. collapse_turn entry st)
       \<lparr>cl_group_for_index = replicate (length items) None, cl_last_in_group = [],
        cl_current_group = None, cl_current_image_id = None\<rparr>
       (enumerate 0 items)"

definition collapse_keeps :: "collapse_state \<Rightarrow> nat \<times> reply_item \<Rightarrow> bool" where
  "collapse_keeps st entry =
     (case entry of
        (idx, ReplyImage _) \<Rightarrow>
          (case cl_group_for_index st ! idx of
             Some grp \<Rightarrow> list_get (cl_last_in_group st) grp = Some idx
           | None \<Rightarrow> False)
      | _ \<Rightarrow> True)"

definition collapse_image_updates :: "reply_item list \<Rightarrow> reply_item list" where
  "collapse_image_updates items =
     map snd (filter (collapse_keeps (collapse_groups items)) (enumerate 0 items))"

text \<open>One content of the reply as an item; text that is empty gives none.\<close>

definition content_item :: "bool \<Rightarrow> worker_content \<Rightarrow> reply_item option" where
  "content_item is_error content =
     (case content of
        ContentText txt stream origin visibility \<Rightarrow>
          (let txt =
                 (if origin = Worker \<and> is_reply_visible visibility
                  then normalize_error_prompt txt is_error else txt)
           in if txt = [] then None
              else Some (case origin of
                           Worker \<Rightarrow> WorkerText txt stream visibility
                         | Server \<Rightarrow> ServerText txt stream))
      | ContentImage data mime_type i is_new \<Rightarrow>
          Some (ReplyImage \<lparr>ri_id = i, ri_data = data, ri_mime_type = mime_type\<rparr>))"

fun item_worker_text :: "reply_item \<Rightarrow> string" where
  "item_worker_text (WorkerText txt _ _) = txt"
| "item_worker_text _ = []"

definition worker_text_from_items :: "reply_item list \<Rightarrow> string" where
  "worker_text_from_items items = concat (map item_worker_text items)"

definition prepare_reply_material :: "worker_reply \<Rightarrow> nat \<Rightarrow> reply_material" where
  "prepare_reply_material reply detached_prefix_item_count =
     (let item = content_item (reply_is_error reply);
          bundle_items = List.map_filter item (reply_contents reply);
          detached = List.map_filter item (take detached_prefix_item_count (reply_contents reply));
          rest = List.map_filter item (drop detached_prefix_item_count (reply_contents reply))
      in \<lparr>rm_inline_items = collapse_image_updates bundle_items, rm_bundle_items = bundle_items,
          rm_worker_text = worker_text_from_items bundle_items, rm_detached_prefix_items = detached,
          rm_detached_prefix_inline_items = collapse_image_updates detached,
          rm_detached_prefix_worker_text = worker_text_from_items detached,
          rm_reply_inline_items = collapse_image_updates rest, rm_reply_bundle_items = rest,
          rm_reply_worker_text = worker_text_from_items rest, rm_is_error = reply_is_error reply,
          rm_error_code = reply_error_code reply\<rparr>)"

section \<open>Contents of a tool result\<close>

definition plain_text :: "string \<Rightarrow> tool_content" where
  "plain_text txt = ToolText txt None"

definition text_stream_meta :: "text_stream \<Rightarrow> (string \<times> string) list option" where
  "text_stream_meta stream =
     (case stream of Stderr \<Rightarrow> Some [(TEXT_STREAM_META_KEY, ''stderr'')] | Stdout \<Rightarrow> None)"

definition text_content :: "string \<Rightarrow> text_stream \<Rightarrow> tool_content" where
  "text_content txt stream = ToolText txt (text_stream_meta stream)"

definition image_to_content :: "reply_image \<Rightarrow> tool_content" where
  "image_to_content img = ToolImage (ri_data img) (ri_mime_type img)"

definition flush_pending_worker_text ::
  "tool_content list \<Rightarrow> (string \<times> text_stream) option \<Rightarrow> tool_content list" where
  "flush_pending_worker_text out pending =
     (case pending of Some (txt, stream) \<Rightarrow> out @ [text_content txt stream] | None \<Rightarrow> out)"

fun materialize_loop ::
  "reply_item list \<Rightarrow> tool_content list \<Rightarrow> (string \<times> text_stream) option \<Rightarrow> tool_content list" where
  "materialize_loop [] out pending = flush_pending_worker_text out pending"
| "materialize_loop (WorkerText txt stream visibility # items) out pending =
     (if \<not> is_reply_visible visibility then materialize_loop items out pending
      else case pending of
             Some (before, pending_stream) \<Rightarrow>
               if pending_stream = stream then materialize_loop items out (Some (before @ txt, stream))
               else materialize_loop items (flush_pending_worker_text out pending) (Some (txt, stream))
           | None \<Rightarrow> materialize_loop items out (Some (txt, stream)))"
| "materialize_loop (ServerText txt stream # items) out pending =
     materialize_loop items (flush_pending_worker_text out pending @ [text_content txt stream]) None"
| "materialize_loop (ReplyImage img # items) out pending =
     materialize_loop items (flush_pending_worker_text out pending @ [image_to_content img]) None"

definition materialize_items :: "reply_item list \<Rightarrow> tool_content list" where
  "materialize_items items = materialize_loop items [] None"

definition ensure_nonempty_contents :: "tool_content list \<Rightarrow> tool_content list" where
  "ensure_nonempty_contents contents = (if contents = [] then [plain_text []] else contents)"

definition finalize_batch :: "tool_content list \<Rightarrow> bool \<Rightarrow> call_tool_result" where
  "finalize_batch contents is_error =
     \<lparr>ct_content = ensure_nonempty_contents contents, ct_is_error = False\<rparr>"

definition finalize_error_batch :: "tool_content list \<Rightarrow> call_tool_result" where
  "finalize_error_batch contents =
     \<lparr>ct_content = ensure_nonempty_contents contents, ct_is_error = True\<rparr>"

definition strip_content_meta :: "tool_content \<Rightarrow> tool_content" where
  "strip_content_meta content =
     (case content of
        ToolText txt (Some meta) \<Rightarrow>
          (let meta = filter (\<lambda>(key, _). key \<noteq> TEXT_STREAM_META_KEY) meta
           in ToolText txt (if meta = [] then None else Some meta))
      | _ \<Rightarrow> content)"

definition strip_text_stream_meta :: "call_tool_result \<Rightarrow> call_tool_result" where
  "strip_text_stream_meta result = result\<lparr>ct_content := map strip_content_meta (ct_content result)\<rparr>"

definition count_images :: "reply_item list \<Rightarrow> nat" where
  "count_images items = length (filter is_image_item items)"

fun item_visible_worker_text :: "reply_item \<Rightarrow> string" where
  "item_visible_worker_text (WorkerText txt _ visibility) =
     (if is_reply_visible visibility then txt else [])"
| "item_visible_worker_text _ = []"

definition reply_visible_worker_text_from_items :: "reply_item list \<Rightarrow> string" where
  "reply_visible_worker_text_from_items items = concat (map item_visible_worker_text items)"

definition text_should_spill :: "nat \<Rightarrow> bool" where
  "text_should_spill worker_text_chars \<longleftrightarrow> worker_text_chars > INLINE_TEXT_HARD_SPILL_THRESHOLD"

definition should_use_output_bundle :: "nat \<Rightarrow> nat \<Rightarrow> bool" where
  "should_use_output_bundle image_count worker_text_chars \<longleftrightarrow>
     image_count \<ge> IMAGE_OUTPUT_BUNDLE_THRESHOLD \<or> text_should_spill worker_text_chars"

abbreviation char_count :: "string \<Rightarrow> nat" where
  "char_count s \<equiv> length (chars s)"

definition should_spill_detached_prefix :: "reply_material \<Rightarrow> bool" where
  "should_spill_detached_prefix material \<longleftrightarrow>
     rm_detached_prefix_items material \<noteq> [] \<and> count_images (rm_detached_prefix_items material) = 0 \<and>
     text_should_spill (char_count (rm_detached_prefix_worker_text material))"

definition should_spill_detached_prefix_only :: "reply_material \<Rightarrow> bool" where
  "should_spill_detached_prefix_only material \<longleftrightarrow>
     should_spill_detached_prefix material \<and>
     \<not> should_use_output_bundle (count_images (rm_reply_bundle_items material))
         (char_count (rm_reply_worker_text material))"

section \<open>Excerpts\<close>

definition item_text :: "reply_item \<Rightarrow> string option" where
  "item_text item =
     (case item of
        WorkerText txt _ visibility \<Rightarrow> if is_reply_visible visibility then Some txt else None
      | ServerText txt _ \<Rightarrow> if txt = OUTPUT_TRUNCATION_NOTICE then None else Some txt
      | ReplyImage _ \<Rightarrow> None)"

definition take_prefix_chars :: "string \<Rightarrow> nat \<Rightarrow> string" where
  "take_prefix_chars txt limit = concat (take limit (chars txt))"

definition take_suffix_chars :: "string \<Rightarrow> nat \<Rightarrow> string" where
  "take_suffix_chars txt limit = concat (drop (char_count txt - limit) (chars txt))"

definition drop_prefix_chars :: "string \<Rightarrow> nat \<Rightarrow> string" where
  "drop_prefix_chars txt count = (if count = 0 then txt else concat (drop count (chars txt)))"

definition push_prefix_text :: "string \<Rightarrow> string \<Rightarrow> nat \<Rightarrow> string" where
  "push_prefix_text out txt budget =
     (if budget = 0 then out
      else
        (let remaining = budget - char_count out
         in if remaining = 0 then out else out @ take_prefix_chars txt remaining))"

fun prefix_text_loop :: "reply_item list \<Rightarrow> nat \<Rightarrow> string \<Rightarrow> string" where
  "prefix_text_loop [] budget out = out"
| "prefix_text_loop (item # items) budget out =
     (case item_text item of
        None \<Rightarrow> prefix_text_loop items budget out
      | Some txt \<Rightarrow>
          (let out = push_prefix_text out txt budget
           in if char_count out \<ge> budget then out else prefix_text_loop items budget out))"

definition collect_prefix_text :: "reply_item list \<Rightarrow> nat \<Rightarrow> nat \<Rightarrow> string" where
  "collect_prefix_text items end_exclusive budget = prefix_text_loop (take end_exclusive items) budget []"

text \<open>The loop runs over the items from the last to the first; the result is their order again.\<close>

fun suffix_text_loop :: "reply_item list \<Rightarrow> nat \<Rightarrow> string list \<Rightarrow> string list" where
  "suffix_text_loop [] remaining parts = parts"
| "suffix_text_loop (item # items) remaining parts =
     (case item_text item of
        None \<Rightarrow> suffix_text_loop items remaining parts
      | Some txt \<Rightarrow>
          (let suffix = take_suffix_chars txt remaining
           in if suffix = [] then suffix_text_loop items remaining parts
              else
                (let remaining = remaining - char_count suffix
                 in if remaining = 0 then parts @ [suffix]
                    else suffix_text_loop items remaining (parts @ [suffix]))))"

definition collect_suffix_text_before :: "reply_item list \<Rightarrow> nat option \<Rightarrow> nat \<Rightarrow> string" where
  "collect_suffix_text_before items index budget =
     (case index of
        None \<Rightarrow> []
      | Some index \<Rightarrow> concat (rev (suffix_text_loop (rev (take index items)) budget [])))"

definition collect_non_overlapping_suffix_text_before ::
  "reply_item list \<Rightarrow> nat option \<Rightarrow> string \<Rightarrow> nat \<Rightarrow> string" where
  "collect_non_overlapping_suffix_text_before items index head_text budget =
     (let tail_text = collect_suffix_text_before items index budget
      in case index of
           None \<Rightarrow> tail_text
         | Some index \<Rightarrow>
             (let total_chars =
                    sum_list (map char_count (List.map_filter item_text (take index items)));
                  overlap = char_count head_text + char_count tail_text - total_chars
              in drop_prefix_chars tail_text overlap))"

definition collect_prefix_text_after :: "reply_item list \<Rightarrow> nat option \<Rightarrow> nat \<Rightarrow> string" where
  "collect_prefix_text_after items index budget =
     (case index of
        None \<Rightarrow> []
      | Some index \<Rightarrow>
          (let rest = drop (Suc index) items in collect_prefix_text rest (length rest) budget))"

section \<open>Previews\<close>

definition preview_storage_clause :: "string option \<Rightarrow> string" where
  "preview_storage_clause path =
     (case path of
        Some path \<Rightarrow> ''full output: '' @ path
      | None \<Rightarrow> ''output bundle unavailable'')"

definition omitted_clause :: "bool \<Rightarrow> string" where
  "omitted_clause omitted_tail = (if omitted_tail then ''; later content omitted'' else [])"

definition build_short_preview :: "string \<Rightarrow> string option \<Rightarrow> bool \<Rightarrow> string" where
  "build_short_preview txt path omitted_tail =
     txt @ (if txt \<noteq> [] \<and> \<not> ends_with txt nl then nl else []) @
     ''...['' @ preview_storage_clause path @ omitted_clause omitted_tail @ '']...''"

definition build_char_preview :: "string \<Rightarrow> string option \<Rightarrow> bool \<Rightarrow> string" where
  "build_char_preview txt path omitted_tail =
     (let cs = chars txt;
          total = length cs;
          head_end = min (INLINE_TEXT_BUDGET * 2 div 3) total;
          tail_start = total - INLINE_TEXT_BUDGET div 3;
          marker =
            ''...[middle truncated; shown chars 1-'' @ dec head_end @ '' and '' @ dec (tail_start + 1) @
            ''-'' @ dec total @ '' of '' @ dec total @ '' total; '' @ preview_storage_clause path @
            omitted_clause omitted_tail @ '']...''
      in concat (take head_end cs) @ nl @ marker @ nl @ concat (drop tail_start cs))"

text \<open>How many lines fit into a budget, the first one whatever its length.\<close>

fun lines_within :: "string list \<Rightarrow> nat \<Rightarrow> nat \<Rightarrow> nat \<Rightarrow> nat" where
  "lines_within [] budget count len = count"
| "lines_within (line # ls) budget count len =
     (let next = len + char_count line
      in if next > budget \<and> count > 0 then count
         else lines_within ls budget (count + 1) next)"

definition build_line_preview :: "string \<Rightarrow> string option \<Rightarrow> bool \<Rightarrow> string option" where
  "build_line_preview txt path omitted_tail =
     (let ls = split_lines txt; n = length ls
      in if CHR 0x0A \<notin> set txt \<or> n < 3 then None
         else
           (let head_count = lines_within ls (INLINE_TEXT_BUDGET * 2 div 3) 0 0;
                tail_count =
                  lines_within (take (n - head_count) (rev ls)) (INLINE_TEXT_BUDGET div 3) 0 0
            in if head_count + tail_count \<ge> n \<or> head_count = 0 \<or> tail_count = 0 then None
               else
                 (let marker =
                        ''...[middle truncated; shown lines 1-'' @ dec head_count @ '' and '' @
                        dec (n - tail_count + 1) @ ''-'' @ dec n @ '' of '' @ dec n @ '' total; '' @
                        preview_storage_clause path @ omitted_clause omitted_tail @ '']...''
                  in Some (concat (take head_count ls) @ marker @ nl @
                           concat (drop (n - tail_count) ls)))))"

definition build_preview :: "string \<Rightarrow> string option \<Rightarrow> bool \<Rightarrow> string" where
  "build_preview txt path omitted_tail =
     (if char_count txt \<le> INLINE_TEXT_BUDGET then build_short_preview txt path omitted_tail
      else case build_line_preview txt path omitted_tail of
             Some preview \<Rightarrow> preview
           | None \<Rightarrow> build_char_preview txt path omitted_tail)"

section \<open>Properties\<close>

text \<open>Items without the images that the next image updates.\<close>

fun next_image_id :: "reply_item list \<Rightarrow> string option" where
  "next_image_id [] = None"
| "next_image_id (ReplyImage img # items) = Some (ri_id img)"
| "next_image_id (_ # items) = next_image_id items"

fun without_superseded :: "reply_item list \<Rightarrow> reply_item list" where
  "without_superseded [] = []"
| "without_superseded (ReplyImage img # items) =
     (if next_image_id items = Some (ri_id img) then without_superseded items
      else ReplyImage img # without_superseded items)"
| "without_superseded (item # items) = item # without_superseded items"

definition grouped :: "collapse_state \<Rightarrow> bool" where
  "grouped st \<longleftrightarrow> pred_option (\<lambda>g. g < length (cl_last_in_group st)) (cl_current_group st)"

definition updated_next :: "collapse_state \<Rightarrow> reply_item list \<Rightarrow> nat \<Rightarrow> bool" where
  "updated_next st items g \<longleftrightarrow>
     cl_current_group st = Some g \<and> next_image_id items \<noteq> None \<and> next_image_id items = cl_current_image_id st"

lemma collapse_turn_image:
  fixes img st n
  assumes "grouped st" "n < length (cl_group_for_index st)"
  defines "st' \<equiv> collapse_turn (n, ReplyImage img) st"
  shows "\<exists>g. cl_current_group st' = Some g \<and> g < length (cl_last_in_group st') \<and>
           cl_last_in_group st' ! g = n \<and> cl_group_for_index st' = (cl_group_for_index st)[n := Some g] \<and>
           cl_current_image_id st' = Some (ri_id img) \<and>
           (\<forall>h < length (cl_last_in_group st). h \<noteq> g \<longrightarrow> cl_last_in_group st' ! h = cl_last_in_group st ! h) \<and>
           length (cl_last_in_group st) \<le> length (cl_last_in_group st') \<and>
           (if cl_current_group st \<noteq> None \<and> cl_current_image_id st = Some (ri_id img)
            then cl_current_group st = Some g else g = length (cl_last_in_group st))"
  using assms
  by (cases "cl_current_group st")
    (auto simp: collapse_turn_def grouped_def Let_def nth_append nth_list_update)

lemma collapse_fold:
  fixes items st n
  assumes "grouped st" and "n + length items \<le> length (cl_group_for_index st)"
  defines "st' \<equiv> foldl (\<lambda>st entry. collapse_turn entry st) st (enumerate n items)"
  shows "(\<forall>i < n. cl_group_for_index st' ! i = cl_group_for_index st ! i) \<and>
         length (cl_last_in_group st) \<le> length (cl_last_in_group st') \<and>
         (\<forall>g < length (cl_last_in_group st).
            if updated_next st items g then n \<le> cl_last_in_group st' ! g
            else cl_last_in_group st' ! g = cl_last_in_group st ! g) \<and>
         map snd (filter (collapse_keeps st') (enumerate n items)) = without_superseded items"
  using assms(1,2) unfolding st'_def
proof (induction items arbitrary: n st)
  case Nil
  then show ?case by (simp add: updated_next_def)
next
  case (Cons item items)
  show ?case
  proof (cases "item")
    case (ReplyImage img)
    let ?st1 = "collapse_turn (n, ReplyImage img) st"
    let ?st' = "foldl (\<lambda>st entry. collapse_turn entry st) ?st1 (enumerate (Suc n) items)"
    obtain g where g: "cl_current_group ?st1 = Some g" "g < length (cl_last_in_group ?st1)"
      "cl_last_in_group ?st1 ! g = n" "cl_group_for_index ?st1 = (cl_group_for_index st)[n := Some g]"
      "cl_current_image_id ?st1 = Some (ri_id img)"
      "\<forall>h < length (cl_last_in_group st). h \<noteq> g \<longrightarrow> cl_last_in_group ?st1 ! h = cl_last_in_group st ! h"
      "length (cl_last_in_group st) \<le> length (cl_last_in_group ?st1)"
      "if cl_current_group st \<noteq> None \<and> cl_current_image_id st = Some (ri_id img)
       then cl_current_group st = Some g else g = length (cl_last_in_group st)"
      using collapse_turn_image [OF Cons.prems(1), of n img] Cons.prems(2) by auto
    have "grouped ?st1" using g by (simp add: grouped_def)
    moreover have "Suc n + length items \<le> length (cl_group_for_index ?st1)" using g(4) Cons.prems(2) by simp
    ultimately have ih: "\<forall>i < Suc n. cl_group_for_index ?st' ! i = cl_group_for_index ?st1 ! i"
      "length (cl_last_in_group ?st1) \<le> length (cl_last_in_group ?st')"
      "\<forall>h < length (cl_last_in_group ?st1).
         if updated_next ?st1 items h then Suc n \<le> cl_last_in_group ?st' ! h
         else cl_last_in_group ?st' ! h = cl_last_in_group ?st1 ! h"
      "map snd (filter (collapse_keeps ?st') (enumerate (Suc n) items)) = without_superseded items"
      using Cons.IH [of ?st1 "Suc n"] by auto
    have up1: "updated_next ?st1 items h \<longleftrightarrow> h = g \<and> next_image_id items = Some (ri_id img)" for h
      using g by (auto simp: updated_next_def)
    have keep: "collapse_keeps ?st' (n, ReplyImage img) \<longleftrightarrow> next_image_id items \<noteq> Some (ri_id img)"
      using ih(1,2) ih(3) [rule_format, of g] g(2,3,4) Cons.prems(2)
      by (auto simp: collapse_keeps_def list_get_def up1 split: if_splits)
    have "if updated_next st (ReplyImage img # items) h then n \<le> cl_last_in_group ?st' ! h
          else cl_last_in_group ?st' ! h = cl_last_in_group st ! h" if "h < length (cl_last_in_group st)" for h
      using that ih(3) [rule_format, of h] g by (auto simp: updated_next_def up1 split: if_splits)
    moreover have "map snd (filter (collapse_keeps ?st') (enumerate n (ReplyImage img # items))) =
        without_superseded (ReplyImage img # items)"
      using ih(4) keep by simp
    ultimately show ?thesis
      unfolding ReplyImage using ih(1,2) g(4,7) by (auto intro: order_trans)
  next
    case (WorkerText t s v)
    then show ?thesis
      using Cons.IH [of st "Suc n"] Cons.prems
      by (auto simp: collapse_turn_def collapse_keeps_def updated_next_def split: if_splits)
  next
    case (ServerText t s)
    then show ?thesis
      using Cons.IH [of st "Suc n"] Cons.prems
      by (auto simp: collapse_turn_def collapse_keeps_def updated_next_def split: if_splits)
  qed
qed

text \<open>
  C39. The bookkeeping of groups and last indices in \<^verbatim>\<open>collapse_image_updates\<close> has the effect it is
  meant to have: every text stays in its place, and of the images exactly those stay that the next
  image, whatever text lies between, does not update.
\<close>

theorem collapse_keeps_last_update: "collapse_image_updates items = without_superseded items"
  unfolding collapse_image_updates_def collapse_groups_def
  by (rule collapse_fold [THEN conjunct2, THEN conjunct2, THEN conjunct2]) (simp_all add: grouped_def)

text \<open>
  What a reader of the result sees: the bytes of the texts, each with its metadata, and the images.
\<close>

definition marked :: "string \<Rightarrow> (string \<times> string) list option \<Rightarrow>
    (char \<times> (string \<times> string) list option + string \<times> string) list" where
  "marked txt meta = map (\<lambda>c. Inl (c, meta)) txt"

fun seen_content :: "tool_content \<Rightarrow> (char \<times> (string \<times> string) list option + string \<times> string) list" where
  "seen_content (ToolText txt meta) = marked txt meta"
| "seen_content (ToolImage data mime_type) = [Inr (data, mime_type)]"

fun seen_item :: "reply_item \<Rightarrow> (char \<times> (string \<times> string) list option + string \<times> string) list" where
  "seen_item (WorkerText txt stream visibility) =
     (if is_reply_visible visibility then marked txt (text_stream_meta stream) else [])"
| "seen_item (ServerText txt stream) = marked txt (text_stream_meta stream)"
| "seen_item (ReplyImage img) = [Inr (ri_data img, ri_mime_type img)]"

lemma marked_append [simp]: "marked (a @ b) meta = marked a meta @ marked b meta"
  by (simp add: marked_def)

lemma seen_flush [simp]:
  "concat (map seen_content (flush_pending_worker_text out pending)) =
     concat (map seen_content out) @
     (case pending of Some (txt, stream) \<Rightarrow> marked txt (text_stream_meta stream) | None \<Rightarrow> [])"
  by (simp add: flush_pending_worker_text_def text_content_def split: option.split)

lemma materialize_loop_seen:
  "concat (map seen_content (materialize_loop items out pending)) =
     concat (map seen_content (flush_pending_worker_text out pending)) @ concat (map seen_item items)"
proof (induction items out pending rule: materialize_loop.induct)
  case (2 t stream visibility items out pending)
  then show ?case by (cases pending) auto
qed (simp_all add: text_content_def image_to_content_def)

text \<open>
  Putting items into a result merges neighbouring texts of the worker and nothing else: the
  result shows the visible texts byte for byte, on the streams they were written to, and the images,
  in the order of the items.
\<close>

theorem materialize_shows_items:
  "concat (map seen_content (materialize_items items)) = concat (map seen_item items)"
  by (simp add: materialize_items_def materialize_loop_seen flush_pending_worker_text_def)

section \<open>Long lines in previews\<close>

lemma split_lines_line:
  "CHR 0x0A \<notin> set line \<Longrightarrow> split_lines (line @ CHR 0x0A # rest) = (line @ nl) # split_lines rest"
  by (induction line) auto

definition long_first_line :: "nat \<Rightarrow> string" where
  "long_first_line n =
     replicate n CHR ''x'' @ nl @ replicate 1200 CHR ''y'' @ nl @ replicate 1200 CHR ''z'' @ nl"

lemma long_first_line_split:
  "split_lines (long_first_line n) =
     [replicate n CHR ''x'' @ nl, replicate 1200 CHR ''y'' @ nl, replicate 1200 CHR ''z'' @ nl]"
  by (simp add: long_first_line_def split_lines_line)

lemma is_ascii_replicate [simp]: "is_ascii (replicate n c) \<longleftrightarrow> n = 0 \<or> ord c < 128"
  by (induction n) (auto simp: is_ascii_def)

lemma char_count_ascii: "is_ascii s \<Longrightarrow> char_count s = length s"
  by (simp add: chars_ascii)

lemma line_preview_three:
  assumes "split_lines s = [a, b, c]" and "CHR 0x0A \<in> set s"
    and "char_count a = n + 1" and "char_count b = 1201" and "char_count c = 1201"
  shows "if 1131 < n then \<exists>rest. build_line_preview s path omitted_tail = Some (a @ rest)
         else build_line_preview s path omitted_tail = None"
  using assms by (simp add: build_line_preview_def INLINE_TEXT_BUDGET_def Let_def)

lemma line_preview_long:
  "if 1131 < n then \<exists>rest. build_line_preview (long_first_line n) path omitted_tail =
       Some ((replicate n CHR ''x'' @ nl) @ rest)
   else build_line_preview (long_first_line n) path omitted_tail = None"
  by (rule line_preview_three [OF long_first_line_split])
    (simp add: long_first_line_def, simp_all add: char_count_ascii)

lemma char_preview_long:
  assumes "n \<le> 1131"
  shows "n \<le> length (build_char_preview (long_first_line n) path omitted_tail)"
proof -
  have "is_ascii (long_first_line n)" by (simp add: long_first_line_def)
  then have "length (concat (take (min 2333 (char_count (long_first_line n))) (chars (long_first_line n)))) =
      min 2333 (length (long_first_line n))"
    by (simp add: chars_ascii take_map concat_map_single)
  with assms show ?thesis
    by (simp add: build_char_preview_def INLINE_TEXT_BUDGET_def Let_def long_first_line_def)
qed


end
