(* ===== verification/Output_Store.thy ===== *)
theory Output_Store
  imports Response_Items "HOL-Library.State_Monad"
begin

text \<open>
  \<^verbatim>\<open>OutputStore\<close> and \<^verbatim>\<open>ActiveOutputBundle\<close> of \<^verbatim>\<open>src/src/server/response.rs\<close>: directories on disk that
  hold output too long for a reply, with quotas on their number and size.

  A method is a computation of the state monad over the store, which carries the files it has
  written. It returns, fails with an error or panics. Every call of the file system may fail: an
  environment tells, for the number of the call, with which error; a call that fails changes no
  file. The directory of a bundle is named by the number of the bundle, so the files are those of
  a bundle number, by their path in its directory.
\<close>

section \<open>Computations\<close>

datatype 'a outcome = Done 'a | Failed worker_error | Panicked string

record output_store_limits =
  lim_max_bundle_count :: nat
  lim_max_bundle_bytes :: nat
  lim_max_total_bytes :: nat

record stored_bundle =
  sb_id :: nat
  sb_dir :: string
  sb_bytes_on_disk :: nat
  sb_reserved_events_log_bytes :: nat

type_synonym file_path = "nat \<times> string"

record output_store =
  st_root :: "string option"
  st_next_id :: nat
  st_total_bytes :: nat
  st_limits :: output_store_limits
  st_bundles :: "stored_bundle list"
  st_files :: "(file_path \<times> bytes) list"
  st_dirs :: "file_path list"
  st_calls :: nat

type_synonym 'a store_flow = "(output_store, 'a outcome) state"

text \<open>
  The environment: the failures of the file system, the name of a new temporary directory (in the
  default directory or in a given one), which variables of the process hold no unicode, the
  directory for temporary files and whether it exists, the working directory, and the crates for
  base64 and JSON.
\<close>

datatype io_error = NotFound string | OtherIo string

fun io_message :: "io_error \<Rightarrow> string" where
  "io_message (NotFound message) = message"
| "io_message (OtherIo message) = message"

record store_env =
  fs_failure :: "nat \<Rightarrow> io_error option"
  fs_tempdir :: "string option \<Rightarrow> nat \<Rightarrow> string"
  fs_non_unicode_var :: "string \<Rightarrow> bool"
  fs_temp_dir :: string
  fs_temp_dir_exists :: bool
  fs_current_dir :: "string option"
  fs_unix :: bool
  fs_decode :: "string \<Rightarrow> string + bytes"
  fs_to_json :: "string \<Rightarrow> string"

definition finish :: "'a \<Rightarrow> 'a store_flow" where
  "finish x = State_Monad.return (Done x)"

definition refuse :: "worker_error \<Rightarrow> 'a store_flow" where
  "refuse err = State_Monad.return (Failed err)"

definition panic :: "string \<Rightarrow> 'a store_flow" where
  "panic message = State_Monad.return (Panicked message)"

definition follow :: "'a store_flow \<Rightarrow> ('a \<Rightarrow> 'b store_flow) \<Rightarrow> 'b store_flow" where
  "follow f g =
     do { r \<leftarrow> f;
          case r of Done x \<Rightarrow> g x | Failed err \<Rightarrow> refuse err | Panicked message \<Rightarrow> panic message }"

text \<open>A match on the \<^verbatim>\<open>Result\<close> of a call.\<close>

definition attempt :: "'a store_flow \<Rightarrow> (worker_error + 'a) store_flow" where
  "attempt f =
     do { r \<leftarrow> f;
          case r of
            Done x \<Rightarrow> finish (Inr x)
          | Failed err \<Rightarrow> finish (Inl err)
          | Panicked message \<Rightarrow> panic message }"

definition look :: "(output_store \<Rightarrow> 'a) \<Rightarrow> 'a store_flow" where
  "look f = State (\<lambda>s. (Done (f s), s))"

definition adjust :: "(output_store \<Rightarrow> output_store) \<Rightarrow> unit store_flow" where
  "adjust f = State (\<lambda>s. (Done (), f s))"

definition io_result :: "store_env \<Rightarrow> (output_store \<Rightarrow> output_store) \<Rightarrow> (io_error + unit) store_flow" where
  "io_result env f =
     State (\<lambda>s. case fs_failure env (st_calls s) of
                  Some err \<Rightarrow> (Done (Inl err), s\<lparr>st_calls := Suc (st_calls s)\<rparr>)
                | None \<Rightarrow> (Done (Inr ()), (f s)\<lparr>st_calls := Suc (st_calls s)\<rparr>))"

definition io_call :: "store_env \<Rightarrow> (output_store \<Rightarrow> output_store) \<Rightarrow> unit store_flow" where
  "io_call env f =
     follow (io_result env f) (\<lambda>r.
       case r of Inl err \<Rightarrow> refuse (IoError (io_message err)) | Inr _ \<Rightarrow> finish ())"

section \<open>Files\<close>

definition file_size :: "file_path \<Rightarrow> output_store \<Rightarrow> nat" where
  "file_size p s = (case map_of (st_files s) p of Some bs \<Rightarrow> length bs | None \<Rightarrow> 0)"

definition file_exists :: "file_path \<Rightarrow> output_store \<Rightarrow> bool" where
  "file_exists p s \<longleftrightarrow> map_of (st_files s) p \<noteq> None"

definition file_text :: "file_path \<Rightarrow> output_store \<Rightarrow> bytes" where
  "file_text p s = unwrap_or (map_of (st_files s) p) []"

definition remove_file :: "file_path \<Rightarrow> output_store \<Rightarrow> output_store" where
  "remove_file p s = s\<lparr>st_files := filter (\<lambda>(q, _). q \<noteq> p) (st_files s)\<rparr>"

definition write_file :: "file_path \<Rightarrow> bytes \<Rightarrow> output_store \<Rightarrow> output_store" where
  "write_file p bs s = s\<lparr>st_files := (p, bs) # filter (\<lambda>(q, _). q \<noteq> p) (st_files s)\<rparr>"

definition append_file :: "file_path \<Rightarrow> bytes \<Rightarrow> output_store \<Rightarrow> output_store" where
  "append_file p bs s = write_file p (file_text p s @ bs) s"

definition make_dir :: "file_path \<Rightarrow> output_store \<Rightarrow> output_store" where
  "make_dir p s = s\<lparr>st_dirs := p # st_dirs s\<rparr>"

definition remove_dir :: "nat \<Rightarrow> output_store \<Rightarrow> output_store" where
  "remove_dir i s =
     s\<lparr>st_files := filter (\<lambda>((j, _), _). j \<noteq> i) (st_files s),
       st_dirs := filter (\<lambda>(j, _). j \<noteq> i) (st_dirs s)\<rparr>"

section \<open>The store\<close>

definition TEXT_ROW_OVERHEAD_BYTES :: nat where "TEXT_ROW_OVERHEAD_BYTES = 160"

definition OUTPUT_BUNDLE_HEADER :: bytes where
  "OUTPUT_BUNDLE_HEADER = ''v1'' @ nl @ ''text transcript.txt'' @ nl @ ''images images/'' @ nl"

definition OUTPUT_BUNDLE_OMITTED_NOTICE :: string where
  "OUTPUT_BUNDLE_OMITTED_NOTICE = ''output bundle quota reached; later content omitted''"

text \<open>\<^verbatim>\<open>{n:0k}\<close>: a number filled up with zeros.\<close>

definition padded :: "nat \<Rightarrow> nat \<Rightarrow> string" where
  "padded k n = replicate (k - length (dec n)) CHR ''0'' @ dec n"

definition output_store_new :: "output_store_limits \<Rightarrow> output_store" where
  "output_store_new limits =
     \<lparr>st_root = None, st_next_id = 0, st_total_bytes = 0, st_limits = limits, st_bundles = [],
      st_files = [], st_dirs = [], st_calls = 0\<rparr>"

text \<open>The message of \<^verbatim>\<open>ParseIntError\<close>: of the first digit that does not parse or overflows.\<close>

fun parse_digits_error :: "nat \<Rightarrow> string \<Rightarrow> string" where
  "parse_digits_error acc [] = []"
| "parse_digits_error acc (b # bs) =
     (if \<not> is_digit b then ''invalid digit found in string''
      else if 10 * acc + (ord b - 48) > u64_max then ''number too large to fit in target type''
      else parse_digits_error (10 * acc + (ord b - 48)) bs)"

definition parse_int_error :: "string \<Rightarrow> string" where
  "parse_int_error v =
     (case v of
        [] \<Rightarrow> ''cannot parse integer from empty string''
      | b # r \<Rightarrow> parse_digits_error 0 (if b = CHR ''+'' \<and> r \<noteq> [] then r else v))"

definition parse_limit_env :: "string \<Rightarrow> string option \<Rightarrow> nat \<Rightarrow> worker_error + nat" where
  "parse_limit_env name value fallback =
     (case value of
        None \<Rightarrow> Inr fallback
      | Some v \<Rightarrow>
          (let v = from_utf8_lossy v
           in case parse_u64 v of
                Some n \<Rightarrow> Inr n
              | None \<Rightarrow> Inl (ProtocolError (''invalid '' @ name @ '': '' @ parse_int_error v))))"

definition limits_from_env :: "(string \<Rightarrow> string option) \<Rightarrow> worker_error + output_store_limits" where
  "limits_from_env var =
     (let limit = (\<lambda>name. parse_limit_env name (var name))
      in case limit ''MCP_REPL_OUTPUT_BUNDLE_MAX_COUNT'' 20 of
           Inl err \<Rightarrow> Inl err
         | Inr max_bundle_count \<Rightarrow>
             (case limit ''MCP_REPL_OUTPUT_BUNDLE_MAX_BYTES'' (2 ^ 30) of
                Inl err \<Rightarrow> Inl err
              | Inr max_bundle_bytes \<Rightarrow>
                  (case limit ''MCP_REPL_OUTPUT_BUNDLE_MAX_TOTAL_BYTES'' (2 * 2 ^ 30) of
                     Inl err \<Rightarrow> Inl err
                   | Inr max_total_bytes \<Rightarrow>
                       if max_bundle_count = 0
                       then Inl (ProtocolError ''output bundle count quota must be greater than zero'')
                       else Inr \<lparr>lim_max_bundle_count = max_bundle_count,
                                 lim_max_bundle_bytes = max_bundle_bytes,
                                 lim_max_total_bytes = max_total_bytes\<rparr>)))"

definition accounted_bytes :: "stored_bundle \<Rightarrow> nat" where
  "accounted_bytes b = sat_add (sb_bytes_on_disk b) (sb_reserved_events_log_bytes b)"

definition find_bundle :: "nat \<Rightarrow> output_store \<Rightarrow> stored_bundle option" where
  "find_bundle i s = find (\<lambda>b. sb_id b = i) (st_bundles s)"

definition bundle_bytes :: "nat \<Rightarrow> output_store \<Rightarrow> nat option" where
  "bundle_bytes i s = map_option accounted_bytes (find_bundle i s)"

definition reserved_events_log_bytes :: "nat \<Rightarrow> output_store \<Rightarrow> nat option" where
  "reserved_events_log_bytes i s = map_option sb_reserved_events_log_bytes (find_bundle i s)"

text \<open>An update of the first bundle with the given number; without one, the code panics.\<close>

fun update_first_bundle :: "nat \<Rightarrow> (stored_bundle \<Rightarrow> stored_bundle) \<Rightarrow> stored_bundle list \<Rightarrow> stored_bundle list" where
  "update_first_bundle i f [] = []"
| "update_first_bundle i f (b # bs) = (if sb_id b = i then f b # bs else b # update_first_bundle i f bs)"

definition with_bundle ::
  "nat \<Rightarrow> string \<Rightarrow> (stored_bundle \<Rightarrow> stored_bundle) \<Rightarrow> (stored_bundle \<Rightarrow> nat \<Rightarrow> nat) \<Rightarrow> unit store_flow" where
  "with_bundle i message f count =
     State (\<lambda>s. case find_bundle i s of
                  None \<Rightarrow> (Panicked message, s)
                | Some b \<Rightarrow>
                    (Done (), s\<lparr>st_bundles := update_first_bundle i f (st_bundles s),
                                st_total_bytes := count b (st_total_bytes s)\<rparr>))"

definition record_append :: "nat \<Rightarrow> nat \<Rightarrow> unit store_flow" where
  "record_append i bs =
     (if bs = 0 then finish ()
      else with_bundle i ''bundle metadata should exist for append''
             (\<lambda>b. b\<lparr>sb_bytes_on_disk := sat_add (sb_bytes_on_disk b) bs\<rparr>)
             (\<lambda>_ n. sat_add n bs))"

definition reserve_events_log_bytes :: "nat \<Rightarrow> nat \<Rightarrow> unit store_flow" where
  "reserve_events_log_bytes i bs =
     (if bs = 0 then finish ()
      else with_bundle i ''bundle metadata should exist for events.log reservation''
             (\<lambda>b. b\<lparr>sb_reserved_events_log_bytes := sat_add (sb_reserved_events_log_bytes b) bs\<rparr>)
             (\<lambda>_ n. sat_add n bs))"

definition record_events_log_append :: "nat \<Rightarrow> nat \<Rightarrow> unit store_flow" where
  "record_events_log_append i bs =
     (if bs = 0 then finish ()
      else with_bundle i ''bundle metadata should exist for events.log append''
             (\<lambda>b. b\<lparr>sb_reserved_events_log_bytes :=
                      sb_reserved_events_log_bytes b - min bs (sb_reserved_events_log_bytes b),
                    sb_bytes_on_disk := sat_add (sb_bytes_on_disk b) bs\<rparr>)
             (\<lambda>b n. sat_add n (bs - min bs (sb_reserved_events_log_bytes b))))"

definition record_file_replace :: "nat \<Rightarrow> nat \<Rightarrow> nat \<Rightarrow> unit store_flow" where
  "record_file_replace i old_bytes new_bytes =
     (if old_bytes = new_bytes then finish ()
      else with_bundle i ''bundle metadata should exist for file replacement''
             (\<lambda>b. b\<lparr>sb_bytes_on_disk :=
                      (if new_bytes > old_bytes then sat_add (sb_bytes_on_disk b) (new_bytes - old_bytes)
                       else sb_bytes_on_disk b - (old_bytes - new_bytes))\<rparr>)
             (\<lambda>_ n. if new_bytes > old_bytes then sat_add n (new_bytes - old_bytes)
                    else n - (old_bytes - new_bytes)))"

definition record_file_removal :: "nat \<Rightarrow> nat \<Rightarrow> unit store_flow" where
  "record_file_removal i bs =
     (if bs = 0 then finish ()
      else with_bundle i ''bundle metadata should exist for file removal''
             (\<lambda>b. b\<lparr>sb_bytes_on_disk := sb_bytes_on_disk b - bs\<rparr>)
             (\<lambda>_ n. n - bs))"

definition append_bundle_bytes :: "store_env \<Rightarrow> nat \<Rightarrow> file_path \<Rightarrow> bytes \<Rightarrow> unit store_flow" where
  "append_bundle_bytes env i p bs =
     (if bs = [] then finish ()
      else follow (io_call env (append_file p bs)) (\<lambda>_. record_append i (length bs)))"

definition append_events_log_bytes :: "store_env \<Rightarrow> nat \<Rightarrow> file_path \<Rightarrow> bytes \<Rightarrow> unit store_flow" where
  "append_events_log_bytes env i p bs =
     (if bs = [] then finish ()
      else follow (io_call env (append_file p bs)) (\<lambda>_. record_events_log_append i (length bs)))"

subsection \<open>Removing bundles\<close>

text \<open>A directory that is not found is gone with its files.\<close>

definition remove_bundle_at :: "store_env \<Rightarrow> nat \<Rightarrow> unit store_flow" where
  "remove_bundle_at env idx =
     follow (look (\<lambda>s. list_get (st_bundles s) idx)) (\<lambda>found.
       case found of
         None \<Rightarrow> panic ''bundle index should exist''
       | Some b \<Rightarrow>
           follow (io_result env (remove_dir (sb_id b))) (\<lambda>r.
             follow
               (case r of
                  Inr _ \<Rightarrow> finish ()
                | Inl (NotFound _) \<Rightarrow> adjust (remove_dir (sb_id b))
                | Inl (OtherIo message) \<Rightarrow> refuse (IoError message))
               (\<lambda>_. adjust (\<lambda>s. s\<lparr>st_bundles := remove_at idx (st_bundles s),
                                  st_total_bytes := st_total_bytes s - accounted_bytes b\<rparr>))))"

definition remove_bundle :: "store_env \<Rightarrow> nat \<Rightarrow> unit store_flow" where
  "remove_bundle env i =
     follow (look (\<lambda>s. position (\<lambda>b. sb_id b = i) (st_bundles s))) (\<lambda>found.
       case found of None \<Rightarrow> finish () | Some idx \<Rightarrow> remove_bundle_at env idx)"

definition prune_oldest_inactive_bundle :: "store_env \<Rightarrow> nat option \<Rightarrow> bool store_flow" where
  "prune_oldest_inactive_bundle env active_bundle_id =
     follow (look (\<lambda>s. position (\<lambda>b. Some (sb_id b) \<noteq> active_bundle_id) (st_bundles s))) (\<lambda>found.
       case found of
         None \<Rightarrow> finish False
       | Some idx \<Rightarrow> follow (remove_bundle_at env idx) (\<lambda>_. finish True))"

lemma remove_bundle_at_shrinks:
  assumes "run_state (remove_bundle_at env idx) s = (Done (), s')"
  shows "length (st_bundles s') < length (st_bundles s)"
  using assms
  by (auto simp: remove_bundle_at_def follow_def look_def io_result_def adjust_def panic_def refuse_def
      finish_def list_get_def remove_at_def remove_dir_def split: option.splits if_splits io_error.splits)

lemma prune_oldest_shrinks:
  assumes "run_state (prune_oldest_inactive_bundle env active) s = (Done True, s')"
  shows "length (st_bundles s') < length (st_bundles s)"
  using assms remove_bundle_at_shrinks
  by (auto simp: prune_oldest_inactive_bundle_def follow_def look_def finish_def refuse_def panic_def
      split: option.splits outcome.splits prod.splits)

function prune_until_total_capacity ::
  "store_env \<Rightarrow> nat \<Rightarrow> nat \<Rightarrow> output_store \<Rightarrow> unit outcome \<times> output_store" where
  "prune_until_total_capacity env active_bundle_id needed_bytes s =
     (if sat_add (st_total_bytes s) needed_bytes > lim_max_total_bytes (st_limits s)
      then
        (case run_state (prune_oldest_inactive_bundle env (Some active_bundle_id)) s of
           (Done True, s1) \<Rightarrow> prune_until_total_capacity env active_bundle_id needed_bytes s1
         | (Done False, s1) \<Rightarrow> (Done (), s1)
         | (Failed err, s1) \<Rightarrow> (Failed err, s1)
         | (Panicked message, s1) \<Rightarrow> (Panicked message, s1))
      else (Done (), s))"
  by pat_completeness auto

termination
  by (relation "measure (\<lambda>(env, active_bundle_id, needed_bytes, s). length (st_bundles s))")
    (auto intro: prune_oldest_shrinks [OF sym])

declare prune_until_total_capacity.simps [simp del]

function prune_for_count ::
  "store_env \<Rightarrow> nat option \<Rightarrow> output_store \<Rightarrow> unit outcome \<times> output_store" where
  "prune_for_count env protected s =
     (if length (st_bundles s) \<ge> lim_max_bundle_count (st_limits s)
      then
        (case run_state (prune_oldest_inactive_bundle env protected) s of
           (Done True, s1) \<Rightarrow> prune_for_count env protected s1
         | (Done False, s1) \<Rightarrow>
             (Failed (ProtocolError ''output bundle count quota left no room for a new bundle''), s1)
         | (Failed err, s1) \<Rightarrow> (Failed err, s1)
         | (Panicked message, s1) \<Rightarrow> (Panicked message, s1))
      else (Done (), s))"
  by pat_completeness auto

termination
  by (relation "measure (\<lambda>(env, protected, s). length (st_bundles s))") (auto intro: prune_oldest_shrinks [OF sym])

declare prune_for_count.simps [simp del]

definition prune_for_new_bundle :: "store_env \<Rightarrow> nat \<Rightarrow> nat option \<Rightarrow> unit store_flow" where
  "prune_for_new_bundle env initial_bytes protected =
     follow (State (prune_for_count env protected)) (\<lambda>_.
       follow (State (prune_until_total_capacity env (unwrap_or protected 0) initial_bytes)) (\<lambda>_.
         follow (look (\<lambda>s. sat_add (st_total_bytes s) initial_bytes > lim_max_total_bytes (st_limits s)))
           (\<lambda>too_small.
             if too_small
             then refuse (ProtocolError ''output bundle total quota is too small for a new bundle'')
             else finish ())))"

definition prepare_append_capacity :: "store_env \<Rightarrow> nat \<Rightarrow> nat \<Rightarrow> nat store_flow" where
  "prepare_append_capacity env i requested_bytes =
     follow (look (\<lambda>s. (bundle_bytes i s, st_limits s))) (\<lambda>(found, limits).
       case found of
         None \<Rightarrow> panic ''bundle metadata should exist for append''
       | Some in_bundle \<Rightarrow>
           (let target = min requested_bytes (lim_max_bundle_bytes limits - in_bundle)
            in follow (State (prune_until_total_capacity env i target)) (\<lambda>_.
                 look (\<lambda>s. min target (lim_max_total_bytes limits - st_total_bytes s)))))"

definition cleanup_now :: "store_env \<Rightarrow> unit store_flow" where
  "cleanup_now env =
     follow (look st_root) (\<lambda>root.
       follow
         (case root of
            None \<Rightarrow> finish ()
          | Some _ \<Rightarrow>
              follow (adjust (\<lambda>s. s\<lparr>st_root := None\<rparr>)) (\<lambda>_.
                io_call env (\<lambda>s. s\<lparr>st_files := [], st_dirs := []\<rparr>)))
         (\<lambda>_. adjust (\<lambda>s. s\<lparr>st_bundles := [], st_total_bytes := 0\<rparr>)))"

definition output_store_temp_env_has_non_unicode_value :: "store_env \<Rightarrow> bool" where
  "output_store_temp_env_has_non_unicode_value env \<longleftrightarrow>
     list_ex (fs_non_unicode_var env) [''TMPDIR'', ''TMP'', ''TEMP'']"

definition fallback_output_store_root_dir :: "store_env \<Rightarrow> string" where
  "fallback_output_store_root_dir env =
     (if fs_temp_dir_exists env then fs_temp_dir env
      else if fs_unix env then ''/tmp''
      else unwrap_or (fs_current_dir env) (fs_temp_dir env))"

text \<open>A new temporary directory; the call that makes it names it.\<close>

definition tempdir :: "store_env \<Rightarrow> string option \<Rightarrow> (io_error + string) store_flow" where
  "tempdir env base =
     follow (look st_calls) (\<lambda>n.
       follow (io_result env (\<lambda>s. s)) (\<lambda>r.
         finish (case r of Inl err \<Rightarrow> Inl err | Inr _ \<Rightarrow> Inr (fs_tempdir env base n))))"

definition create_output_store_root :: "store_env \<Rightarrow> string store_flow" where
  "create_output_store_root env =
     (let returned = (\<lambda>r. case r of Inr path \<Rightarrow> finish path | Inl err \<Rightarrow> refuse (IoError (io_message err)))
      in follow (tempdir env None) (\<lambda>r.
           case r of
             Inl (NotFound _) \<Rightarrow>
               if output_store_temp_env_has_non_unicode_value env
               then follow (tempdir env (Some (fallback_output_store_root_dir env))) returned
               else returned r
           | _ \<Rightarrow> returned r))"

definition ensure_root_path :: "store_env \<Rightarrow> string store_flow" where
  "ensure_root_path env =
     follow (look st_root) (\<lambda>root.
       case root of
         Some path \<Rightarrow> finish path
       | None \<Rightarrow>
           follow (create_output_store_root env) (\<lambda>path.
             follow (adjust (\<lambda>s. s\<lparr>st_root := Some path\<rparr>)) (\<lambda>_. finish path)))"

section \<open>Bundles\<close>

record active_output_bundle =
  ab_id :: nat
  ab_dir :: string
  ab_next_image_number :: nat
  ab_current_image_id :: "string option"
  ab_current_image_history_number :: nat
  ab_history_image_count :: nat
  ab_first_history_image :: "reply_image option"
  ab_last_image :: "reply_image option"
  ab_transcript_bytes :: nat
  ab_transcript_lines :: nat
  ab_transcript_has_partial_line :: bool
  ab_omitted_tail :: bool
  ab_omitted_reply_visible_tail :: bool
  ab_omission_recorded :: bool
  ab_pre_index_image_paths :: "string list"
  ab_disclosed :: bool

definition transcript_path :: "active_output_bundle \<Rightarrow> file_path" where
  "transcript_path a = (ab_id a, ''transcript.txt'')"

definition events_log_path :: "active_output_bundle \<Rightarrow> file_path" where
  "events_log_path a = (ab_id a, ''events.log'')"

definition images_dir_path :: "active_output_bundle \<Rightarrow> file_path" where
  "images_dir_path a = (ab_id a, ''images'')"

definition new_bundle_preserving :: "store_env \<Rightarrow> nat option \<Rightarrow> active_output_bundle store_flow" where
  "new_bundle_preserving env protected =
     follow (prune_for_new_bundle env 0 protected) (\<lambda>_.
       follow (adjust (\<lambda>s. s\<lparr>st_next_id := sat_add (st_next_id s) 1\<rparr>)) (\<lambda>_.
         follow (look st_next_id) (\<lambda>i.
           follow (ensure_root_path env) (\<lambda>root_path.
             (let dir = root_path @ ''/output-'' @ padded 4 i
              in follow (io_call env (make_dir (i, []))) (\<lambda>_.
                   follow (adjust (\<lambda>s. s\<lparr>st_bundles := st_bundles s @
                       [\<lparr>sb_id = i, sb_dir = dir, sb_bytes_on_disk = 0, sb_reserved_events_log_bytes = 0\<rparr>]\<rparr>)) (\<lambda>_.
                     finish
                       \<lparr>ab_id = i, ab_dir = dir, ab_next_image_number = 0, ab_current_image_id = None,
                        ab_current_image_history_number = 0, ab_history_image_count = 0,
                        ab_first_history_image = None, ab_last_image = None, ab_transcript_bytes = 0,
                        ab_transcript_lines = 0, ab_transcript_has_partial_line = False,
                        ab_omitted_tail = False, ab_omitted_reply_visible_tail = False,
                        ab_omission_recorded = False, ab_pre_index_image_paths = [],
                        ab_disclosed = False\<rparr>)))))))"

definition new_bundle :: "store_env \<Rightarrow> active_output_bundle store_flow" where
  "new_bundle env = new_bundle_preserving env None"

definition has_text :: "active_output_bundle \<Rightarrow> bool" where
  "has_text a \<longleftrightarrow> ab_transcript_bytes a > 0"

definition has_images :: "active_output_bundle \<Rightarrow> bool" where
  "has_images a \<longleftrightarrow> ab_next_image_number a > 0"

definition has_events_log :: "active_output_bundle \<Rightarrow> output_store \<Rightarrow> bool" where
  "has_events_log a s \<longleftrightarrow> file_exists (events_log_path a) s"

definition backfill_text_row :: "active_output_bundle \<Rightarrow> string" where
  "backfill_text_row a =
     ''T lines=1-'' @ dec (max (ab_transcript_lines a) 1) @ '' bytes=0-'' @ dec (ab_transcript_bytes a) @ nl"

definition disclosure_path :: "active_output_bundle \<Rightarrow> output_store \<Rightarrow> string" where
  "disclosure_path a s =
     ab_dir a @
     (if has_events_log a s then ''/events.log''
      else if has_text a then ''/transcript.txt''
      else if has_images a then ''/images''
      else [])"

definition inline_preview_images ::
  "active_output_bundle \<Rightarrow> reply_image option \<times> reply_image option" where
  "inline_preview_images a =
     (if ab_next_image_number a = 0 then (None, None)
      else if ab_next_image_number a = 1 then (ab_last_image a, None)
      else (ab_first_history_image a, ab_last_image a))"

definition image_extension :: "string \<Rightarrow> string" where
  "image_extension mime_type =
     (let m = to_ascii_lowercase (trim mime_type)
      in if m = ''image/png'' then ''png''
         else if m = ''image/jpeg'' \<or> m = ''image/jpg'' then ''jpg''
         else if m = ''image/gif'' then ''gif''
         else if m = ''image/webp'' then ''webp''
         else if m = ''image/svg+xml'' then ''svg''
         else ''png'')"

definition existing_image_alias_path :: "active_output_bundle \<Rightarrow> nat \<Rightarrow> output_store \<Rightarrow> file_path option" where
  "existing_image_alias_path a n s =
     find (\<lambda>p. file_exists p s)
       (map (\<lambda>extension. (ab_id a, ''images/'' @ padded 3 n @ ''.'' @ extension))
          [''png'', ''jpg'', ''jpeg'', ''gif'', ''webp'', ''svg''])"

definition truncate_utf8_prefix :: "string \<Rightarrow> nat \<Rightarrow> string" where
  "truncate_utf8_prefix txt limit_bytes = take (floor_loop txt (min limit_bytes (length txt))) txt"

definition build_events_log_server_line :: "store_env \<Rightarrow> string \<Rightarrow> string" where
  "build_events_log_server_line env txt = ''S '' @ fs_to_json env txt @ nl"

definition omission_event_line_len :: "store_env \<Rightarrow> nat" where
  "omission_event_line_len env = length (build_events_log_server_line env OUTPUT_BUNDLE_OMITTED_NOTICE)"

definition reply_visible_image_bundle_reserve :: "store_env \<Rightarrow> reply_image \<Rightarrow> nat" where
  "reply_visible_image_bundle_reserve env img =
     sat_add (sat_add (sat_add (sat_mul (length (ri_data img)) 2) TEXT_ROW_OVERHEAD_BYTES)
       (length OUTPUT_BUNDLE_HEADER)) (omission_event_line_len env)"

definition reply_visible_bundle_reserve :: "store_env \<Rightarrow> reply_item list \<Rightarrow> nat" where
  "reply_visible_bundle_reserve env items =
     foldl (\<lambda>reserve item.
       case item of
         WorkerText txt _ visibility \<Rightarrow>
           if is_reply_visible visibility
           then sat_add (sat_add reserve (length txt)) TEXT_ROW_OVERHEAD_BYTES else reserve
       | ReplyImage img \<Rightarrow> sat_add reserve (reply_visible_image_bundle_reserve env img)
       | ServerText _ _ \<Rightarrow> reserve) 0 items"

text \<open>The lines a text takes in the transcript: first, last, the new number of lines, and whether the last is open.\<close>

definition append_text_line_span :: "string \<Rightarrow> nat \<Rightarrow> bool \<Rightarrow> nat \<times> nat \<times> nat \<times> bool" where
  "append_text_line_span txt transcript_lines transcript_has_partial_line =
     (let newline_count = length (filter (\<lambda>b. b = CHR 0x0A) txt);
          start_line =
            (if transcript_lines = 0 then 1
             else if transcript_has_partial_line then transcript_lines
             else sat_add transcript_lines 1);
          open_line = \<not> ends_with txt nl;
          lines_after = sat_add (sat_add transcript_lines newline_count) (if open_line then 1 else 0);
          next_line_count =
            max (if transcript_has_partial_line then lines_after - 1 else lines_after) start_line
      in (start_line, next_line_count, next_line_count, open_line))"

subsection \<open>Appending\<close>

definition ensure_transcript :: "store_env \<Rightarrow> active_output_bundle \<Rightarrow> unit store_flow" where
  "ensure_transcript env a =
     follow (look (file_exists (transcript_path a))) (\<lambda>there.
       if there then finish () else io_call env (write_file (transcript_path a) []))"

definition ensure_images_dir :: "store_env \<Rightarrow> active_output_bundle \<Rightarrow> unit store_flow" where
  "ensure_images_dir env a =
     follow (look (\<lambda>s. images_dir_path a \<in> set (st_dirs s))) (\<lambda>there.
       if there then finish () else io_call env (make_dir (images_dir_path a)))"

definition events_log_start :: "store_env \<Rightarrow> active_output_bundle \<Rightarrow> bytes" where
  "events_log_start env a =
     OUTPUT_BUNDLE_HEADER @
     (if has_text a then backfill_text_row a
      else concat (map (\<lambda>path. ''I '' @ path @ nl) (ab_pre_index_image_paths a))) @
     (if ab_omitted_tail a then build_events_log_server_line env OUTPUT_BUNDLE_OMITTED_NOTICE else [])"

definition materialize_events_log :: "store_env \<Rightarrow> active_output_bundle \<Rightarrow> active_output_bundle store_flow" where
  "materialize_events_log env a =
     follow (look (has_events_log a)) (\<lambda>there.
       if there then finish a
       else
         (let bs = events_log_start env a;
              a1 = (if ab_omitted_tail a then a\<lparr>ab_omission_recorded := True\<rparr> else a)
          in follow (look (reserved_events_log_bytes (ab_id a))) (\<lambda>found.
               case found of
                 None \<Rightarrow> panic ''bundle metadata should exist for events.log reservation tracking''
               | Some reserved \<Rightarrow>
                   (let needed = length bs - reserved
                    in follow (prepare_append_capacity env (ab_id a) needed) (\<lambda>granted.
                         if granted < needed
                         then refuse (ProtocolError ''output bundle could not materialize events.log within quota'')
                         else
                           follow (io_call env (write_file (events_log_path a) [])) (\<lambda>_.
                             follow (append_events_log_bytes env (ab_id a) (events_log_path a) bs) (\<lambda>_.
                               finish (a1\<lparr>ab_pre_index_image_paths := []\<rparr>))))))))"

definition append_events_log_text ::
  "store_env \<Rightarrow> active_output_bundle \<Rightarrow> string \<Rightarrow> bool store_flow" where
  "append_events_log_text env a txt =
     (if txt = [] then finish False
      else
        (let line = build_events_log_server_line env txt
         in follow (prepare_append_capacity env (ab_id a) (length line)) (\<lambda>granted.
              if granted < length line then finish False
              else
                follow (append_events_log_bytes env (ab_id a) (events_log_path a) line) (\<lambda>_.
                  finish True))))"

definition apply_omission ::
  "store_env \<Rightarrow> active_output_bundle \<Rightarrow> bool \<Rightarrow> active_output_bundle store_flow" where
  "apply_omission env a reply_visible =
     (let a1 = a\<lparr>ab_omitted_tail := True,
                 ab_omitted_reply_visible_tail := (ab_omitted_reply_visible_tail a \<or> reply_visible)\<rparr>
      in follow (look (has_events_log a1)) (\<lambda>there.
           if ab_omission_recorded a1 \<or> \<not> there then finish a1
           else
             follow (append_events_log_text env a1 OUTPUT_BUNDLE_OMITTED_NOTICE) (\<lambda>written.
               finish (if written then a1\<lparr>ab_omission_recorded := True\<rparr> else a1))))"

text \<open>
  How much of a text fits: the text is cut until it, its row in the index and the reserve fit into
  what was granted.
\<close>

record text_fit =
  tf_retained :: string
  tf_row :: string
  tf_lines :: nat
  tf_partial :: bool

lemma truncate_length_le: "length (truncate_utf8_prefix txt n) \<le> length txt"
  by (simp add: truncate_utf8_prefix_def)

function fit_text ::
  "active_output_bundle \<Rightarrow> string \<Rightarrow> nat \<Rightarrow> nat \<Rightarrow> nat \<Rightarrow> string \<Rightarrow> text_fit option" where
  "fit_text a txt granted reserved_capacity_after omission_reserve retained =
     (let (start_line, end_line, next_line_count, next_has_partial_line) =
            append_text_line_span retained (ab_transcript_lines a) (ab_transcript_has_partial_line a);
          start_byte = ab_transcript_bytes a;
          end_byte = sat_add start_byte (length retained);
          row = ''T lines='' @ dec start_line @ ''-'' @ dec end_line @ '' bytes='' @ dec start_byte @
                ''-'' @ dec end_byte @ nl;
          reserve =
            (if length retained < length txt then reserved_capacity_after
             else reserved_capacity_after - omission_reserve)
      in if sat_add (sat_add (length retained) (length row)) reserve \<le> granted
         then Some \<lparr>tf_retained = retained, tf_row = row, tf_lines = next_line_count,
                    tf_partial = next_has_partial_line\<rparr>
         else
           (let allowed = granted - sat_add (length row) reserve;
                shorter = truncate_utf8_prefix retained allowed
            in if shorter = [] \<or> length shorter = length retained then None
               else fit_text a txt granted reserved_capacity_after omission_reserve shorter))"
  by pat_completeness auto

termination
  by (relation "measure (\<lambda>(a, txt, granted, after, omission, retained). length retained)")
    (auto simp: le_neq_implies_less truncate_length_le)

declare fit_text.simps [simp del]

definition write_fitted_text ::
  "store_env \<Rightarrow> active_output_bundle \<Rightarrow> bool \<Rightarrow> text_stream \<Rightarrow> content_visibility \<Rightarrow> text_fit \<Rightarrow>
   (active_output_bundle \<times> reply_item option) store_flow" where
  "write_fitted_text env a there stream visibility fit =
     follow (append_bundle_bytes env (ab_id a) (transcript_path a) (tf_retained fit)) (\<lambda>_.
       follow
         (if there then append_events_log_bytes env (ab_id a) (events_log_path a) (tf_row fit) else finish ())
         (\<lambda>_. finish
           (a\<lparr>ab_transcript_bytes := sat_add (ab_transcript_bytes a) (length (tf_retained fit)),
              ab_transcript_lines := tf_lines fit, ab_transcript_has_partial_line := tf_partial fit\<rparr>,
            Some (WorkerText (tf_retained fit) stream visibility))))"

definition write_granted_text ::
  "store_env \<Rightarrow> active_output_bundle \<Rightarrow> bool \<Rightarrow> string \<Rightarrow> text_stream \<Rightarrow> content_visibility \<Rightarrow>
   nat \<Rightarrow> nat \<Rightarrow> nat \<Rightarrow> (active_output_bundle \<times> reply_item option) store_flow" where
  "write_granted_text env a there txt stream visibility reserved omission_reserve granted =
     (if granted = 0 \<or> truncate_utf8_prefix txt granted = [] then finish (a, None)
      else
        (case fit_text a txt granted reserved omission_reserve (truncate_utf8_prefix txt granted) of
           None \<Rightarrow> finish (a, None)
         | Some fit \<Rightarrow> write_fitted_text env a there stream visibility fit))"

definition append_transcript_text ::
  "store_env \<Rightarrow> active_output_bundle \<Rightarrow> string \<Rightarrow> text_stream \<Rightarrow> content_visibility \<Rightarrow> nat \<Rightarrow>
   (active_output_bundle \<times> reply_item option) store_flow" where
  "append_transcript_text env a txt stream visibility reserved_capacity_after =
     follow (ensure_transcript env a) (\<lambda>_.
       follow (look (has_events_log a)) (\<lambda>there.
         (let omission_reserve =
                (if ab_omission_recorded a then 0 else if there then omission_event_line_len env else 0);
              reserved = sat_add reserved_capacity_after omission_reserve
          in follow (prepare_append_capacity env (ab_id a) (length txt + TEXT_ROW_OVERHEAD_BYTES + reserved))
               (write_granted_text env a there txt stream visibility reserved omission_reserve))))"

definition append_worker_text_with_visibility ::
  "store_env \<Rightarrow> active_output_bundle \<Rightarrow> string \<Rightarrow> text_stream \<Rightarrow> content_visibility \<Rightarrow> nat \<Rightarrow>
   (active_output_bundle \<times> reply_item option) store_flow" where
  "append_worker_text_with_visibility env a txt stream visibility reserved_capacity_after =
     (if txt = [] then finish (a, None)
      else
        follow (look (has_events_log a)) (\<lambda>there.
          follow
            (if \<not> there \<and>
                (has_images a \<or>
                 (ab_omitted_tail a \<and> \<not> ab_omission_recorded a \<and> is_reply_visible visibility))
             then materialize_events_log env a else finish a)
            (\<lambda>a1. append_transcript_text env a1 txt stream visibility reserved_capacity_after)))"

text \<open>The number of an image, of its version, and the paths of the version and of the current image.\<close>

definition starts_new_image :: "active_output_bundle \<Rightarrow> reply_image \<Rightarrow> bool" where
  "starts_new_image a img \<longleftrightarrow> ab_current_image_id a \<noteq> Some (ri_id img)"

definition image_numbers :: "active_output_bundle \<Rightarrow> reply_image \<Rightarrow> nat \<times> nat" where
  "image_numbers a img =
     (if starts_new_image a img then (sat_add (ab_next_image_number a) 1, 1)
      else (ab_next_image_number a, sat_add (ab_current_image_history_number a) 1))"

definition history_rel_path :: "active_output_bundle \<Rightarrow> reply_image \<Rightarrow> string" where
  "history_rel_path a img =
     (let (image_number, history_number) = image_numbers a img
      in ''images/history/'' @ padded 3 image_number @ ''/'' @ padded 3 history_number @ ''.'' @
         image_extension (ri_mime_type img))"

definition alias_path :: "active_output_bundle \<Rightarrow> reply_image \<Rightarrow> file_path" where
  "alias_path a img =
     (ab_id a, ''images/'' @ padded 3 (fst (image_numbers a img)) @ ''.'' @ image_extension (ri_mime_type img))"

definition image_noted :: "active_output_bundle \<Rightarrow> reply_image \<Rightarrow> active_output_bundle" where
  "image_noted a img =
     (let (image_number, history_number) = image_numbers a img
      in a\<lparr>ab_next_image_number := image_number, ab_current_image_id := Some (ri_id img),
           ab_current_image_history_number := history_number,
           ab_history_image_count := sat_add (ab_history_image_count a) 1,
           ab_first_history_image :=
             (if image_number = 1 \<and> history_number = 1 then Some img else ab_first_history_image a),
           ab_last_image := Some img\<rparr>)"

text \<open>The size of the current image; a file whose size cannot be read counts as empty.\<close>

definition alias_size :: "store_env \<Rightarrow> file_path option \<Rightarrow> nat store_flow" where
  "alias_size env alias =
     (case alias of
        None \<Rightarrow> finish 0
      | Some p \<Rightarrow>
          follow (attempt (io_call env (\<lambda>s. s))) (\<lambda>r.
            case r of Inr _ \<Rightarrow> look (file_size p) | Inl _ \<Rightarrow> finish 0))"

definition replace_image_alias ::
  "store_env \<Rightarrow> nat \<Rightarrow> file_path \<Rightarrow> bytes \<Rightarrow> file_path option \<Rightarrow> nat \<Rightarrow> unit store_flow" where
  "replace_image_alias env i p bs alias_old alias_old_len =
     follow
       (case alias_old of
          Some old \<Rightarrow>
            if old \<noteq> p
            then follow (io_call env (remove_file old)) (\<lambda>_. record_file_removal i alias_old_len)
            else finish ()
        | None \<Rightarrow> finish ())
       (\<lambda>_. follow (io_call env (write_file p bs)) (\<lambda>_.
         record_file_replace i (if alias_old = Some p then alias_old_len else 0) (length bs)))"

definition write_image ::
  "store_env \<Rightarrow> active_output_bundle \<Rightarrow> reply_image \<Rightarrow> bytes \<Rightarrow> file_path option \<Rightarrow> nat \<Rightarrow> unit store_flow" where
  "write_image env a img bs alias_old alias_old_len =
     (let h = (ab_id a, history_rel_path a img)
      in follow (io_call env (make_dir h)) (\<lambda>_.
           follow (io_call env (write_file h bs)) (\<lambda>_.
             follow (record_append (ab_id a) (length bs)) (\<lambda>_.
               replace_image_alias env (ab_id a) (alias_path a img) bs alias_old alias_old_len))))"

definition image_row :: "active_output_bundle \<Rightarrow> reply_image \<Rightarrow> string" where
  "image_row a img = ''I '' @ history_rel_path a img @ nl"

text \<open>The bytes an image takes in the index of the bundle, or will take once there is one.\<close>

definition image_row_bytes :: "active_output_bundle \<Rightarrow> reply_image \<Rightarrow> bool \<Rightarrow> nat" where
  "image_row_bytes a img there =
     length (image_row a img) +
     (if \<not> there \<and> ab_pre_index_image_paths a = [] then length OUTPUT_BUNDLE_HEADER else 0)"

definition index_image :: "store_env \<Rightarrow> active_output_bundle \<Rightarrow> reply_image \<Rightarrow> bool \<Rightarrow> active_output_bundle store_flow" where
  "index_image env a img there =
     (if there
      then follow (append_events_log_bytes env (ab_id a) (events_log_path a) (image_row a img)) (\<lambda>_. finish a)
      else follow (reserve_events_log_bytes (ab_id a) (image_row_bytes a img there)) (\<lambda>_.
             finish (a\<lparr>ab_pre_index_image_paths := ab_pre_index_image_paths a @ [history_rel_path a img]\<rparr>)))"

definition append_decoded_image ::
  "store_env \<Rightarrow> active_output_bundle \<Rightarrow> reply_image \<Rightarrow> bytes \<Rightarrow>
   (active_output_bundle \<times> reply_item option) store_flow" where
  "append_decoded_image env a img bs =
     follow (look (existing_image_alias_path a (fst (image_numbers a img)))) (\<lambda>alias_old.
       follow (alias_size env alias_old) (\<lambda>alias_old_len.
         follow (look (has_events_log a)) (\<lambda>there.
           (let required = length bs + (length bs - alias_old_len) + image_row_bytes a img there
            in follow (prepare_append_capacity env (ab_id a) required) (\<lambda>granted.
                 if granted < required then finish (a, None)
                 else
                   follow (write_image env a img bs alias_old alias_old_len) (\<lambda>_.
                     follow (index_image env a img there) (\<lambda>a2.
                       finish (image_noted a2 img, Some (ReplyImage img)))))))))"

definition bundle_append_image ::
  "store_env \<Rightarrow> active_output_bundle \<Rightarrow> reply_image \<Rightarrow>
   (active_output_bundle \<times> reply_item option) store_flow" where
  "bundle_append_image env a img =
     follow (ensure_images_dir env a) (\<lambda>_.
       follow (look (has_events_log a)) (\<lambda>there.
         follow (if has_text a \<and> \<not> there then materialize_events_log env a else finish a) (\<lambda>a1.
           case fs_decode env (ri_data img) of
             Inl err \<Rightarrow> refuse (ProtocolError (''invalid image data: '' @ err))
           | Inr bs \<Rightarrow> append_decoded_image env a1 img bs)))"

record append_progress =
  ap_bundle :: active_output_bundle
  ap_retained_items :: "reply_item list"
  ap_omitted_this_reply :: bool

definition note_omission :: "store_env \<Rightarrow> append_progress \<Rightarrow> bool \<Rightarrow> append_progress store_flow" where
  "note_omission env pr reply_visible =
     follow (apply_omission env (ap_bundle pr) reply_visible) (\<lambda>a.
       finish (pr\<lparr>ap_bundle := a, ap_omitted_this_reply := True\<rparr>))"

definition append_worker_text_item ::
  "store_env \<Rightarrow> append_progress \<Rightarrow> string \<Rightarrow> text_stream \<Rightarrow> content_visibility \<Rightarrow> nat \<Rightarrow>
   append_progress store_flow" where
  "append_worker_text_item env pr txt stream visibility reserved_capacity_after =
     follow (append_worker_text_with_visibility env (ap_bundle pr) txt stream visibility
               reserved_capacity_after) (\<lambda>(a, appended).
       case appended of
         Some retained_item \<Rightarrow>
           (let pr1 = pr\<lparr>ap_bundle := a, ap_retained_items := ap_retained_items pr @ [retained_item]\<rparr>
            in if length (item_worker_text retained_item) < length txt
               then note_omission env pr1 (is_reply_visible visibility)
               else finish pr1)
       | None \<Rightarrow> note_omission env (pr\<lparr>ap_bundle := a\<rparr>) (is_reply_visible visibility))"

definition retain :: "reply_item \<Rightarrow> append_progress \<Rightarrow> append_progress" where
  "retain item pr = pr\<lparr>ap_retained_items := ap_retained_items pr @ [item]\<rparr>"

text \<open>An item after something was left out: visible output may still be kept, the rest is not.\<close>

definition append_item_after_omission ::
  "store_env \<Rightarrow> append_progress \<Rightarrow> reply_item \<Rightarrow> reply_item list \<Rightarrow> append_progress store_flow" where
  "append_item_after_omission env pr item later =
     (case item of
        WorkerText txt stream visibility \<Rightarrow>
          if is_reply_visible visibility \<and> \<not> ab_omitted_reply_visible_tail (ap_bundle pr)
          then append_worker_text_item env pr txt stream visibility (reply_visible_bundle_reserve env later)
          else finish pr
      | ServerText txt stream \<Rightarrow> finish (retain (ServerText txt stream) pr)
      | ReplyImage img \<Rightarrow>
          if ab_omitted_reply_visible_tail (ap_bundle pr) then finish pr
          else
            follow (bundle_append_image env (ap_bundle pr) img) (\<lambda>(a, appended).
              case appended of
                Some retained_item \<Rightarrow> finish (retain retained_item (pr\<lparr>ap_bundle := a\<rparr>))
              | None \<Rightarrow> note_omission env (retain (ReplyImage img) (pr\<lparr>ap_bundle := a\<rparr>)) False))"

definition append_item ::
  "store_env \<Rightarrow> append_progress \<Rightarrow> reply_item \<Rightarrow> reply_item list \<Rightarrow> append_progress store_flow" where
  "append_item env pr item later =
     (if ab_omitted_tail (ap_bundle pr) then append_item_after_omission env pr item later
      else
        (case item of
           WorkerText txt stream visibility \<Rightarrow>
             append_worker_text_item env pr txt stream visibility
               (if is_reply_visible visibility then 0 else reply_visible_bundle_reserve env later)
         | ServerText txt stream \<Rightarrow> finish (retain (ServerText txt stream) pr)
         | ReplyImage img \<Rightarrow>
             follow (bundle_append_image env (ap_bundle pr) img) (\<lambda>(a, appended).
               case appended of
                 Some retained_item \<Rightarrow> finish (retain retained_item (pr\<lparr>ap_bundle := a\<rparr>))
               | None \<Rightarrow> note_omission env (pr\<lparr>ap_bundle := a\<rparr>) True)))"

fun append_items_loop ::
  "store_env \<Rightarrow> append_progress \<Rightarrow> reply_item list \<Rightarrow> append_progress store_flow" where
  "append_items_loop env pr [] = finish pr"
| "append_items_loop env pr (item # items) =
     follow (append_item env pr item items) (\<lambda>pr1. append_items_loop env pr1 items)"

definition append_items ::
  "store_env \<Rightarrow> active_output_bundle \<Rightarrow> reply_item list \<Rightarrow> append_progress store_flow" where
  "append_items env a items =
     append_items_loop env
       \<lparr>ap_bundle = a, ap_retained_items = [], ap_omitted_this_reply = False\<rparr> items"

end
