(* ===== verification/Response_State.thy ===== *)
theory Response_State
  imports Output_Store
begin

text \<open>
  \<^verbatim>\<open>ResponseState\<close> of \<^verbatim>\<open>src/src/server/response.rs\<close>: which part of a worker reply goes into the result
  of the tool call, which into a bundle on disk, and which bundle a request that timed out keeps
  for its later polls.

  The methods are computations over the output store; the bundle of the timed-out request and the
  output staged for it are passed as arguments, as the code takes them out of the state. Errors of
  the store are caught here, with a message in the log; what is left is the result or a panic.
\<close>

section \<open>Rendering with a bundle\<close>

definition position_last :: "('a \<Rightarrow> bool) \<Rightarrow> 'a list \<Rightarrow> nat option" where
  "position_last P xs = map_option (\<lambda>i. length xs - 1 - i) (position P (rev xs))"

text \<open>The contents of the items, with one preview in place of all text of the worker.\<close>

fun preview_loop :: "tool_content \<Rightarrow> reply_item list \<Rightarrow> bool \<Rightarrow> tool_content list" where
  "preview_loop preview [] inserted = []"
| "preview_loop preview (WorkerText _ _ _ # items) inserted =
     (if inserted then [] else [preview]) @ preview_loop preview items True"
| "preview_loop preview (ServerText txt stream # items) inserted =
     text_content txt stream # preview_loop preview items inserted"
| "preview_loop preview (ReplyImage img # items) inserted =
     image_to_content img # preview_loop preview items inserted"

fun is_worker_text :: "reply_item \<Rightarrow> bool" where
  "is_worker_text (WorkerText _ _ _) = True"
| "is_worker_text _ = False"

definition compact_text_bundle_items ::
  "reply_item list \<Rightarrow> string \<Rightarrow> active_output_bundle \<Rightarrow> output_store \<Rightarrow> tool_content list" where
  "compact_text_bundle_items items preview_worker_text bundle s =
     (let preview =
            plain_text (build_preview preview_worker_text (Some (disclosure_path bundle s))
              (ab_omitted_tail bundle));
          out = preview_loop preview items False
      in if list_ex is_worker_text items then out else preview # out)"

definition compact_text_without_bundle_items :: "reply_item list \<Rightarrow> string \<Rightarrow> tool_content list" where
  "compact_text_without_bundle_items items preview_worker_text =
     preview_loop (plain_text (build_preview preview_worker_text None False)) items False"

definition build_output_bundle_notice :: "active_output_bundle \<Rightarrow> nat \<Rightarrow> output_store \<Rightarrow> string" where
  "build_output_bundle_notice bundle displayed_anchor_count s =
     (let label =
            (if has_events_log bundle s then ''ordered output bundle index''
             else if has_images bundle \<and> \<not> has_text bundle then ''output bundle images''
             else ''full output'');
          shown =
            (if displayed_anchor_count = 0 then []
             else if displayed_anchor_count = 1
             then (if ab_next_image_number bundle \<le> 1 \<and> ab_history_image_count bundle \<le> 1
                   then ''first image shown inline; '' else ''one image shown inline; '')
             else ''first and last images shown inline; '')
      in ''...[middle truncated; '' @ shown @ label @ '': '' @ disclosure_path bundle s @
         omitted_clause (ab_omitted_tail bundle) @ '']...'')"

definition build_output_bundle_unavailable_notice :: "nat \<Rightarrow> string" where
  "build_output_bundle_unavailable_notice image_count =
     ''...[middle truncated; '' @
     (if image_count = 0 then [] else if image_count = 1 then ''first image shown inline; ''
      else ''first and last images shown inline; '') @
     ''output bundle unavailable]...''"

definition nonempty_text :: "string \<Rightarrow> tool_content list" where
  "nonempty_text txt = (if txt = [] then [] else [plain_text txt])"

definition anchor :: "reply_image option \<Rightarrow> tool_content list" where
  "anchor img = (case img of Some img \<Rightarrow> [image_to_content img] | None \<Rightarrow> [])"

text \<open>
  Text before the first image, the first image, a notice, text around the last image and the last
  image; the two functions that share this differ in the images and the notice.
\<close>

definition compact_around_images ::
  "reply_item list \<Rightarrow> reply_image option \<Rightarrow> string \<Rightarrow> reply_image option \<Rightarrow> tool_content list" where
  "compact_around_images items first_anchor notice last_anchor =
     (let first_image_idx = position is_image_item items;
          last_image_idx = position_last is_image_item items;
          head_text =
            collect_prefix_text items (unwrap_or first_image_idx (length items)) HEAD_TEXT_BUDGET;
          head = nonempty_text head_text @ anchor first_anchor @ [plain_text notice]
      in if first_image_idx \<noteq> None \<and> last_image_idx = first_image_idx
         then head @ nonempty_text (collect_non_overlapping_suffix_text_before items (Some (length items))
                head_text (PRE_LAST_TEXT_BUDGET + POST_LAST_TEXT_BUDGET))
         else
           head @
           nonempty_text
             (if last_image_idx = first_image_idx
              then collect_non_overlapping_suffix_text_before items last_image_idx head_text PRE_LAST_TEXT_BUDGET
              else collect_suffix_text_before items last_image_idx PRE_LAST_TEXT_BUDGET) @
           anchor last_anchor @
           nonempty_text (collect_prefix_text_after items last_image_idx POST_LAST_TEXT_BUDGET))"

definition compact_output_bundle_items ::
  "reply_item list \<Rightarrow> active_output_bundle \<Rightarrow> output_store \<Rightarrow> tool_content list" where
  "compact_output_bundle_items items bundle s =
     (let (first_anchor, last_anchor) = inline_preview_images bundle;
          displayed_anchor_count =
            (if first_anchor \<noteq> None then 1 else 0) + (if last_anchor \<noteq> None then 1 else 0)
      in compact_around_images items first_anchor
           (build_output_bundle_notice bundle displayed_anchor_count s) last_anchor)"

definition image_at :: "reply_item list \<Rightarrow> nat option \<Rightarrow> reply_image option" where
  "image_at items index =
     (case index of
        Some index \<Rightarrow>
          (case list_get items index of Some (ReplyImage img) \<Rightarrow> Some img | _ \<Rightarrow> None)
      | None \<Rightarrow> None)"

definition compact_output_without_bundle_items :: "reply_item list \<Rightarrow> tool_content list" where
  "compact_output_without_bundle_items items =
     (let first_image_idx = position is_image_item items;
          last_image_idx = position_last is_image_item items
      in compact_around_images items (image_at items first_image_idx)
           (build_output_bundle_unavailable_notice (count_images items))
           (if last_image_idx = first_image_idx then None else image_at items last_image_idx))"

definition compact_omitted_bundle_items ::
  "reply_item list \<Rightarrow> string \<Rightarrow> active_output_bundle \<Rightarrow> output_store \<Rightarrow> tool_content list" where
  "compact_omitted_bundle_items retained_items preview_worker_text bundle s =
     (if ab_next_image_number bundle > 0 then compact_output_bundle_items retained_items bundle s
      else if count_images retained_items \<ge> IMAGE_OUTPUT_BUNDLE_THRESHOLD
      then compact_output_without_bundle_items retained_items @
           (if ab_omitted_tail bundle then [plain_text (build_output_bundle_notice bundle 0 s)] else [])
      else compact_text_bundle_items retained_items preview_worker_text bundle s)"

definition materialize_items_with_output_bundle_notice ::
  "reply_item list \<Rightarrow> active_output_bundle \<Rightarrow> nat \<Rightarrow> output_store \<Rightarrow> tool_content list" where
  "materialize_items_with_output_bundle_notice items bundle displayed_anchor_count s =
     materialize_items items @ [plain_text (build_output_bundle_notice bundle displayed_anchor_count s)]"

definition disclosed :: "active_output_bundle \<Rightarrow> active_output_bundle" where
  "disclosed bundle = bundle\<lparr>ab_disclosed := True\<rparr>"

text \<open>What a reply shows after its items went to the bundle, and the bundle, disclosed or not.\<close>

definition active_bundle_contents ::
  "append_progress \<Rightarrow> reply_item list \<Rightarrow> reply_item list \<Rightarrow> nat \<Rightarrow> output_store \<Rightarrow>
   active_output_bundle \<times> tool_content list" where
  "active_bundle_contents pr bundle_items inline_items spill_worker_text_chars s =
     (let active = ap_bundle pr;
          retained_items = ap_retained_items pr;
          retained_image_count = count_images retained_items;
          retained_worker_text = worker_text_from_items retained_items;
          retained_reply_worker_text = reply_visible_worker_text_from_items retained_items;
          has_incremental_content = (retained_items \<noteq> []);
          has_worker_or_image_incremental_content = (retained_image_count > 0 \<or> retained_worker_text \<noteq> []);
          image_bundle_still_needed =
            (ab_next_image_number active > 0 \<and>
             should_use_output_bundle (ab_history_image_count active) spill_worker_text_chars);
          retained_images_need_inline_cap =
            (ab_omitted_tail active \<and> ab_next_image_number active = 0 \<and>
             retained_image_count \<ge> IMAGE_OUTPUT_BUNDLE_THRESHOLD)
      in if ap_omitted_this_reply pr
         then (disclosed active,
               compact_omitted_bundle_items retained_items retained_reply_worker_text active s)
         else if retained_images_need_inline_cap
         then (active, compact_output_without_bundle_items retained_items)
         else if retained_image_count > 0 \<and> image_bundle_still_needed
         then (disclosed active, compact_output_bundle_items bundle_items active s)
         else if text_should_spill spill_worker_text_chars
         then (disclosed active,
               compact_text_bundle_items retained_items retained_reply_worker_text active s)
         else if ab_disclosed active \<and> image_bundle_still_needed \<and> has_incremental_content \<and>
                 \<not> has_worker_or_image_incremental_content
         then (disclosed active, compact_output_bundle_items inline_items active s)
         else if ab_disclosed active \<and> image_bundle_still_needed \<and> has_incremental_content
         then (disclosed active, materialize_items_with_output_bundle_notice inline_items active 0 s)
         else (active, materialize_items inline_items))"

definition render_active_bundle_contents ::
  "store_env \<Rightarrow> active_output_bundle \<Rightarrow> reply_item list \<Rightarrow> reply_item list \<Rightarrow> nat \<Rightarrow>
   (active_output_bundle \<times> tool_content list) store_flow" where
  "render_active_bundle_contents env active bundle_items inline_items spill_worker_text_chars =
     follow (append_items env active bundle_items) (\<lambda>pr.
       look (active_bundle_contents pr bundle_items inline_items spill_worker_text_chars))"

definition compact_items_without_output_bundle ::
  "reply_item list \<Rightarrow> reply_item list \<Rightarrow> string \<Rightarrow> tool_content list" where
  "compact_items_without_output_bundle bundle_items inline_items worker_text =
     (let image_count = count_images bundle_items
      in if image_count > 0 \<and> should_use_output_bundle image_count (char_count worker_text)
         then compact_output_without_bundle_items bundle_items
         else if text_should_spill (char_count worker_text)
         then compact_text_without_bundle_items inline_items
                (reply_visible_worker_text_from_items inline_items)
         else materialize_items inline_items)"

definition compact_detached_prefix_without_output_bundle :: "reply_material \<Rightarrow> tool_content list" where
  "compact_detached_prefix_without_output_bundle material =
     compact_items_without_output_bundle (rm_detached_prefix_items material)
       (rm_detached_prefix_inline_items material) (rm_detached_prefix_worker_text material)"

section \<open>Output staged for a request that timed out\<close>

definition retained_items :: "reply_item list \<Rightarrow> reply_item list" where
  "retained_items items = filter (\<lambda>item. is_worker_text item \<or> is_image_item item) items"

record staged_timeout_output =
  sto_items :: "reply_item list"

definition staged_from_items :: "reply_item list \<Rightarrow> staged_timeout_output option" where
  "staged_from_items items =
     (if retained_items items = [] then None else Some \<lparr>sto_items = retained_items items\<rparr>)"

definition staged_extend :: "reply_item list \<Rightarrow> staged_timeout_output \<Rightarrow> staged_timeout_output" where
  "staged_extend items staged = staged\<lparr>sto_items := sto_items staged @ retained_items items\<rparr>"

definition staged_image_count :: "staged_timeout_output \<Rightarrow> nat" where
  "staged_image_count staged = count_images (sto_items staged)"

definition staged_worker_text_chars :: "staged_timeout_output \<Rightarrow> nat" where
  "staged_worker_text_chars staged =
     sum_list (map (\<lambda>item. char_count (item_worker_text item)) (sto_items staged))"

definition has_retained_worker_output :: "staged_timeout_output \<Rightarrow> bool" where
  "has_retained_worker_output staged \<longleftrightarrow>
     list_ex (\<lambda>item. is_worker_text item \<or> is_image_item item) (sto_items staged)"

definition compact_staged_timeout_without_output_bundle ::
  "staged_timeout_output \<Rightarrow> reply_item list \<Rightarrow> tool_content list" where
  "compact_staged_timeout_without_output_bundle staged current_bundle_items =
     (let combined_bundle_items = sto_items staged @ current_bundle_items
      in compact_items_without_output_bundle combined_bundle_items
           (collapse_image_updates combined_bundle_items) (worker_text_from_items combined_bundle_items))"

section \<open>Bundles of a reply\<close>

definition finish_bundle :: "store_env \<Rightarrow> active_output_bundle \<Rightarrow> unit store_flow" where
  "finish_bundle env active = (if ab_disclosed active then finish () else remove_bundle env (ab_id active))"

text \<open>A bundle that is not needed any more; an error goes to the log.\<close>

definition drop_bundle :: "store_env \<Rightarrow> active_output_bundle \<Rightarrow> unit store_flow" where
  "drop_bundle env active = follow (attempt (finish_bundle env active)) (\<lambda>_. finish ())"

definition drop_optional_bundle :: "store_env \<Rightarrow> active_output_bundle option \<Rightarrow> unit store_flow" where
  "drop_optional_bundle env active = (case active of Some active \<Rightarrow> drop_bundle env active | None \<Rightarrow> finish ())"

definition materialize_staged_timeout_output ::
  "store_env \<Rightarrow> staged_timeout_output \<Rightarrow> nat option \<Rightarrow> active_output_bundle store_flow" where
  "materialize_staged_timeout_output env staged protected_bundle_id =
     follow (new_bundle_preserving env protected_bundle_id) (\<lambda>bundle.
       if sto_items staged = [] then finish bundle
       else
         follow (attempt (append_items env bundle (sto_items staged))) (\<lambda>r.
           case r of
             Inr pr \<Rightarrow> finish (ap_bundle pr)
           | Inl err \<Rightarrow> follow (drop_bundle env bundle) (\<lambda>_. refuse err)))"

definition pathless_reply_items :: "reply_item list \<Rightarrow> bool \<Rightarrow> tool_content list" where
  "pathless_reply_items reply_inline_items text_only =
     (if text_only
      then compact_text_without_bundle_items reply_inline_items
             (reply_visible_worker_text_from_items reply_inline_items)
      else compact_output_without_bundle_items reply_inline_items)"

definition bundled_reply_items ::
  "append_progress \<Rightarrow> reply_item list \<Rightarrow> bool \<Rightarrow> output_store \<Rightarrow> tool_content list" where
  "bundled_reply_items pr reply_bundle_items text_only s =
     (let retained_worker_text = reply_visible_worker_text_from_items (ap_retained_items pr)
      in if text_only
         then compact_text_bundle_items (ap_retained_items pr) retained_worker_text (ap_bundle pr) s
         else if ap_omitted_this_reply pr
         then compact_omitted_bundle_items (ap_retained_items pr) retained_worker_text (ap_bundle pr) s
         else compact_output_bundle_items reply_bundle_items (ap_bundle pr) s)"

definition compact_reply_items_with_new_bundle ::
  "store_env \<Rightarrow> reply_item list \<Rightarrow> reply_item list \<Rightarrow> bool \<Rightarrow> nat option \<Rightarrow> tool_content list store_flow" where
  "compact_reply_items_with_new_bundle env reply_bundle_items reply_inline_items text_only protected_bundle_id =
     follow (attempt (new_bundle_preserving env protected_bundle_id)) (\<lambda>r.
       case r of
         Inl _ \<Rightarrow> finish (pathless_reply_items reply_inline_items text_only)
       | Inr bundle \<Rightarrow>
           follow (attempt (append_items env bundle reply_bundle_items)) (\<lambda>r.
             case r of
               Inr pr \<Rightarrow> look (bundled_reply_items pr reply_bundle_items text_only)
             | Inl _ \<Rightarrow>
                 follow (attempt (remove_bundle env (ab_id bundle))) (\<lambda>_.
                   finish (pathless_reply_items reply_inline_items text_only))))"

definition render_reply_items ::
  "store_env \<Rightarrow> reply_item list \<Rightarrow> reply_item list \<Rightarrow> string \<Rightarrow> nat option \<Rightarrow> tool_content list store_flow" where
  "render_reply_items env reply_bundle_items reply_inline_items reply_worker_text protected_bundle_id =
     (let reply_image_count = count_images reply_bundle_items
      in if reply_image_count > 0 \<and>
            should_use_output_bundle reply_image_count (char_count reply_worker_text)
         then compact_reply_items_with_new_bundle env reply_bundle_items reply_inline_items False
                protected_bundle_id
         else if text_should_spill (char_count reply_worker_text)
         then compact_reply_items_with_new_bundle env reply_bundle_items reply_inline_items True
                protected_bundle_id
         else finish (materialize_items reply_inline_items))"

section \<open>Replies of a request that timed out\<close>

record timeout_reply_view =
  tv_bundle_items :: "reply_item list"
  tv_inline_items :: "reply_item list"
  tv_worker_text :: string
  tv_error_code :: "worker_error_code option"
  tv_protected_bundle_id :: "nat option"

record timeout_reply_segment =
  ts_contents :: "tool_content list"
  ts_retained_active_timeout_bundle :: "active_output_bundle option"
  ts_retained_staged_timeout_output :: "staged_timeout_output option"

definition plain_segment :: "tool_content list \<Rightarrow> timeout_reply_segment" where
  "plain_segment contents =
     \<lparr>ts_contents = contents, ts_retained_active_timeout_bundle = None,
      ts_retained_staged_timeout_output = None\<rparr>"

text \<open>
  A reply rendered into a bundle: the bundle is kept for later polls while the request is pending.
  When the bundle cannot take the reply, it is dropped and \<open>fallback\<close> is shown.
\<close>

definition segment_with_bundle ::
  "store_env \<Rightarrow> active_output_bundle \<Rightarrow> timeout_reply_view \<Rightarrow> nat \<Rightarrow> bool \<Rightarrow> tool_content list \<Rightarrow>
   timeout_reply_segment store_flow" where
  "segment_with_bundle env active view spill_worker_text_chars pending_request_after fallback =
     follow (attempt (render_active_bundle_contents env active (tv_bundle_items view) (tv_inline_items view)
               spill_worker_text_chars)) (\<lambda>r.
       case r of
         Inr (active1, contents) \<Rightarrow>
           if pending_request_after
           then finish ((plain_segment contents)\<lparr>ts_retained_active_timeout_bundle := Some active1\<rparr>)
           else follow (drop_bundle env active1) (\<lambda>_. finish (plain_segment contents))
       | Inl _ \<Rightarrow> follow (drop_bundle env active) (\<lambda>_. finish (plain_segment fallback)))"

definition segment_from_staged ::
  "store_env \<Rightarrow> timeout_reply_view \<Rightarrow> bool \<Rightarrow> staged_timeout_output \<Rightarrow> bool \<Rightarrow> nat \<Rightarrow>
   timeout_reply_segment store_flow" where
  "segment_from_staged env view pending_request_after staged spills combined_worker_text_chars =
     (let fallback = compact_staged_timeout_without_output_bundle staged (tv_bundle_items view)
      in if spills
         then follow (attempt (materialize_staged_timeout_output env staged (tv_protected_bundle_id view)))
                (\<lambda>r. case r of
                   Inr active \<Rightarrow>
                     segment_with_bundle env active view combined_worker_text_chars pending_request_after fallback
                 | Inl _ \<Rightarrow> finish (plain_segment fallback))
         else
           finish ((plain_segment (materialize_items (tv_inline_items view)))
             \<lparr>ts_retained_staged_timeout_output :=
                (if pending_request_after then Some (staged_extend (tv_bundle_items view) staged) else None)\<rparr>))"

definition segment_of_timeout ::
  "store_env \<Rightarrow> timeout_reply_view \<Rightarrow> bool \<Rightarrow> bool \<Rightarrow> timeout_reply_segment store_flow" where
  "segment_of_timeout env view pending_request_after spills =
     (let fallback =
            compact_items_without_output_bundle (tv_bundle_items view) (tv_inline_items view)
              (tv_worker_text view)
      in if spills
         then follow (attempt (new_bundle_preserving env (tv_protected_bundle_id view))) (\<lambda>r.
                case r of
                  Inr bundle \<Rightarrow>
                    segment_with_bundle env bundle view (char_count (tv_worker_text view))
                      pending_request_after fallback
                | Inl _ \<Rightarrow> finish (plain_segment fallback))
         else
           finish ((plain_segment (materialize_items (tv_inline_items view)))
             \<lparr>ts_retained_staged_timeout_output :=
                (if pending_request_after then staged_from_items (tv_bundle_items view) else None)\<rparr>))"

definition render_timeout_reply_segment ::
  "store_env \<Rightarrow> timeout_reply_view \<Rightarrow> bool \<Rightarrow> active_output_bundle option \<Rightarrow>
   staged_timeout_output option \<Rightarrow> timeout_reply_segment store_flow" where
  "render_timeout_reply_segment env view pending_request_after active_timeout_bundle staged_timeout_output =
     (case active_timeout_bundle of
        Some active \<Rightarrow>
          segment_with_bundle env active view (char_count (tv_worker_text view)) pending_request_after
            (compact_items_without_output_bundle (tv_bundle_items view) (tv_inline_items view)
               (tv_worker_text view))
      | None \<Rightarrow>
          (let current_image_count = count_images (tv_bundle_items view);
               staged_chars =
                 (case staged_timeout_output of Some staged \<Rightarrow> staged_worker_text_chars staged | None \<Rightarrow> 0);
               combined_worker_text_chars = sat_add staged_chars (char_count (tv_worker_text view));
               combined_image_count =
                 (case staged_timeout_output of
                    Some staged \<Rightarrow> sat_add (staged_image_count staged) current_image_count
                  | None \<Rightarrow> current_image_count);
               use_output_bundle =
                 (combined_image_count > 0 \<and>
                  should_use_output_bundle combined_image_count combined_worker_text_chars);
               spills = (use_output_bundle \<or> text_should_spill combined_worker_text_chars)
           in case staged_timeout_output of
                Some staged \<Rightarrow>
                  segment_from_staged env view pending_request_after staged spills combined_worker_text_chars
              | None \<Rightarrow>
                  if tv_error_code view = Some Timeout
                  then segment_of_timeout env view pending_request_after spills
                  else
                    follow (render_reply_items env (tv_bundle_items view) (tv_inline_items view)
                              (tv_worker_text view) (tv_protected_bundle_id view)) (\<lambda>contents.
                      finish (plain_segment contents))))"

section \<open>Output that came before the reply\<close>

record follow_up_detached_prefix =
  fd_contents :: "tool_content list"
  fd_protected_bundle_id :: "nat option"
  fd_retained_active_timeout_bundle :: "active_output_bundle option"
  fd_retained_staged_timeout_output :: "staged_timeout_output option"
  fd_retained_bundle_is_detached_prefix_only :: bool

definition plain_prefix :: "tool_content list \<Rightarrow> follow_up_detached_prefix" where
  "plain_prefix contents =
     \<lparr>fd_contents = contents, fd_protected_bundle_id = None, fd_retained_active_timeout_bundle = None,
      fd_retained_staged_timeout_output = None, fd_retained_bundle_is_detached_prefix_only = False\<rparr>"

definition disclosed_id :: "active_output_bundle \<Rightarrow> nat option" where
  "disclosed_id active = (if ab_disclosed active then Some (ab_id active) else None)"

definition render_follow_up_detached_prefix_with_active_bundle ::
  "store_env \<Rightarrow> reply_material \<Rightarrow> active_output_bundle \<Rightarrow> nat \<Rightarrow> follow_up_detached_prefix store_flow" where
  "render_follow_up_detached_prefix_with_active_bundle env material active spill_worker_text_chars =
     follow (attempt (render_active_bundle_contents env active (rm_detached_prefix_items material)
               (rm_detached_prefix_inline_items material) spill_worker_text_chars)) (\<lambda>r.
       case r of
         Inr (active1, contents) \<Rightarrow>
           finish ((plain_prefix contents)\<lparr>fd_protected_bundle_id := disclosed_id active1,
                     fd_retained_active_timeout_bundle := Some active1\<rparr>)
       | Inl _ \<Rightarrow>
           follow (drop_bundle env active) (\<lambda>_.
             finish ((plain_prefix (compact_detached_prefix_without_output_bundle material))
                       \<lparr>fd_protected_bundle_id := disclosed_id active\<rparr>)))"

text \<open>The prefix of a reply without a bundle or staged output of its own: it may get a new bundle.\<close>

definition bundled_prefix ::
  "append_progress \<Rightarrow> bool \<Rightarrow> output_store \<Rightarrow> follow_up_detached_prefix" where
  "bundled_prefix pr use_output_bundle s =
     (let bundle = disclosed (ap_bundle pr)
      in (plain_prefix
            (if use_output_bundle then compact_output_bundle_items (ap_retained_items pr) bundle s
             else compact_text_bundle_items (ap_retained_items pr)
                    (reply_visible_worker_text_from_items (ap_retained_items pr)) bundle s))
           \<lparr>fd_protected_bundle_id := Some (ab_id bundle),
            fd_retained_active_timeout_bundle := Some bundle,
            fd_retained_bundle_is_detached_prefix_only := True\<rparr>)"

definition prefix_with_new_bundle ::
  "store_env \<Rightarrow> reply_material \<Rightarrow> bool \<Rightarrow> follow_up_detached_prefix store_flow" where
  "prefix_with_new_bundle env material use_output_bundle =
     (let without_bundle = plain_prefix (compact_detached_prefix_without_output_bundle material)
      in follow (attempt (new_bundle env)) (\<lambda>r.
           case r of
             Inl _ \<Rightarrow> finish without_bundle
           | Inr bundle \<Rightarrow>
               follow (attempt (append_items env bundle (rm_detached_prefix_items material))) (\<lambda>r.
                 case r of
                   Inr pr \<Rightarrow> look (bundled_prefix pr use_output_bundle)
                 | Inl _ \<Rightarrow> follow (drop_bundle env bundle) (\<lambda>_. finish without_bundle))))"

definition prefix_from_staged ::
  "store_env \<Rightarrow> reply_material \<Rightarrow> staged_timeout_output \<Rightarrow> bool \<Rightarrow> nat \<Rightarrow>
   follow_up_detached_prefix store_flow" where
  "prefix_from_staged env material staged spills combined_worker_text_chars =
     (if spills
      then follow (attempt (materialize_staged_timeout_output env staged None)) (\<lambda>r.
             case r of
               Inr active \<Rightarrow>
                 render_follow_up_detached_prefix_with_active_bundle env material active
                   combined_worker_text_chars
             | Inl _ \<Rightarrow>
                 finish (plain_prefix (compact_staged_timeout_without_output_bundle staged
                   (rm_detached_prefix_items material))))
      else
        (let staged1 = staged_extend (rm_detached_prefix_items material) staged
         in finish ((plain_prefix (materialize_items (rm_detached_prefix_inline_items material)))
              \<lparr>fd_retained_staged_timeout_output :=
                 (if has_retained_worker_output staged1 then Some staged1 else None)\<rparr>)))"

definition render_follow_up_detached_prefix ::
  "store_env \<Rightarrow> reply_material \<Rightarrow> active_output_bundle option \<Rightarrow> staged_timeout_output option \<Rightarrow>
   follow_up_detached_prefix store_flow" where
  "render_follow_up_detached_prefix env material active_timeout_bundle staged_timeout_output =
     (let prefix_items = rm_detached_prefix_items material;
          prefix_chars = char_count (rm_detached_prefix_worker_text material)
      in case active_timeout_bundle of
           Some active \<Rightarrow>
             render_follow_up_detached_prefix_with_active_bundle env material active prefix_chars
         | None \<Rightarrow>
             (let reply_image_count =
                    (if prefix_items = [] then 0 else count_images (rm_reply_bundle_items material));
                  reply_chars =
                    (if prefix_items = [] then 0 else char_count (rm_reply_worker_text material));
                  combined_image_count =
                    (case staged_timeout_output of
                       None \<Rightarrow> sat_add (count_images prefix_items) reply_image_count
                     | Some staged \<Rightarrow>
                         sat_add (sat_add (staged_image_count staged) (count_images prefix_items))
                           reply_image_count);
                  combined_worker_text_chars =
                    (case staged_timeout_output of
                       None \<Rightarrow> sat_add prefix_chars reply_chars
                     | Some staged \<Rightarrow>
                         sat_add (sat_add (staged_worker_text_chars staged) prefix_chars) reply_chars);
                  use_output_bundle =
                    (combined_image_count > 0 \<and>
                     should_use_output_bundle combined_image_count combined_worker_text_chars);
                  spills = (use_output_bundle \<or> text_should_spill combined_worker_text_chars)
              in case staged_timeout_output of
                   Some staged \<Rightarrow> prefix_from_staged env material staged spills combined_worker_text_chars
                 | None \<Rightarrow>
                     if spills then prefix_with_new_bundle env material use_output_bundle
                     else finish (plain_prefix (materialize_items (rm_detached_prefix_inline_items material)))))"

section \<open>The state of the replies\<close>

record response_state =
  rs_output_store :: output_store
  rs_active_timeout_bundle :: "active_output_bundle option"
  rs_staged_timeout_output :: "staged_timeout_output option"

text \<open>The view of the reply proper, after its prefix.\<close>

definition reply_view :: "reply_material \<Rightarrow> nat option \<Rightarrow> timeout_reply_view" where
  "reply_view material protected_bundle_id =
     \<lparr>tv_bundle_items = rm_reply_bundle_items material, tv_inline_items = rm_reply_inline_items material,
      tv_worker_text = rm_reply_worker_text material, tv_error_code = rm_error_code material,
      tv_protected_bundle_id = protected_bundle_id\<rparr>"

definition finalize_reply_with_spilled_detached_prefix ::
  "store_env \<Rightarrow> reply_material \<Rightarrow> bool \<Rightarrow> timeout_reply_segment store_flow" where
  "finalize_reply_with_spilled_detached_prefix env material pending_request_after =
     follow (render_follow_up_detached_prefix env material None None) (\<lambda>prefix.
       follow (render_timeout_reply_segment env (reply_view material (fd_protected_bundle_id prefix))
                 pending_request_after None None) (\<lambda>segment.
         follow (drop_optional_bundle env (fd_retained_active_timeout_bundle prefix)) (\<lambda>_.
           finish (segment\<lparr>ts_contents := fd_contents prefix @ ts_contents segment\<rparr>))))"

text \<open>
  Which timeout state stays after a follow-up: that of the reply, or, when the reply has none and
  the request is still pending, that of the output before it.
\<close>

definition reply_is_server_only_follow_up :: "reply_material \<Rightarrow> bool" where
  "reply_is_server_only_follow_up material \<longleftrightarrow>
     rm_reply_worker_text material = [] \<and> count_images (rm_reply_bundle_items material) = 0"

definition keeps_prefix_bundle :: "reply_material \<Rightarrow> bool \<Rightarrow> follow_up_detached_prefix \<Rightarrow> bool" where
  "keeps_prefix_bundle material pending_request_after prefix \<longleftrightarrow>
     pending_request_after \<and>
     (if fd_retained_bundle_is_detached_prefix_only prefix then reply_is_server_only_follow_up material
      else rm_error_code material \<noteq> Some Timeout \<or> reply_is_server_only_follow_up material)"

definition finalize_follow_up_reply ::
  "store_env \<Rightarrow> reply_material \<Rightarrow> bool \<Rightarrow> active_output_bundle option \<Rightarrow> staged_timeout_output option \<Rightarrow>
   timeout_reply_segment store_flow" where
  "finalize_follow_up_reply env material pending_request_after active_timeout_bundle staged_timeout_output =
     follow (render_follow_up_detached_prefix env material active_timeout_bundle staged_timeout_output)
       (\<lambda>prefix.
       follow (render_timeout_reply_segment env (reply_view material (fd_protected_bundle_id prefix))
                 pending_request_after None None) (\<lambda>segment.
         (let contents = fd_contents prefix @ ts_contents segment;
              server_only = (pending_request_after \<and> reply_is_server_only_follow_up material)
          in follow
               (if server_only then drop_optional_bundle env (ts_retained_active_timeout_bundle segment)
                else finish ()) (\<lambda>_.
               (let active = (if server_only then None else ts_retained_active_timeout_bundle segment);
                    staged = (if server_only then None else ts_retained_staged_timeout_output segment)
                in if active = None \<and> staged = None \<and> keeps_prefix_bundle material pending_request_after prefix
                   then finish
                     \<lparr>ts_contents = contents,
                      ts_retained_active_timeout_bundle = fd_retained_active_timeout_bundle prefix,
                      ts_retained_staged_timeout_output =
                        (if fd_retained_bundle_is_detached_prefix_only prefix then None
                         else fd_retained_staged_timeout_output prefix)\<rparr>
                   else
                     follow (drop_optional_bundle env (fd_retained_active_timeout_bundle prefix)) (\<lambda>_.
                       finish \<lparr>ts_contents = contents, ts_retained_active_timeout_bundle = active,
                               ts_retained_staged_timeout_output = staged\<rparr>))))))"

text \<open>
  A method of the state: it takes the timeout bundle and the staged output out of the state and
  puts back what the computation retains; after a panic nothing is put back.
\<close>

definition with_timeout_state ::
  "(active_output_bundle option \<Rightarrow> staged_timeout_output option \<Rightarrow> timeout_reply_segment store_flow) \<Rightarrow>
   response_state \<Rightarrow> tool_content list outcome \<times> response_state" where
  "with_timeout_state f st =
     (case run_state (f (rs_active_timeout_bundle st) (rs_staged_timeout_output st)) (rs_output_store st) of
        (Done segment, s) \<Rightarrow>
          (Done (ts_contents segment),
           \<lparr>rs_output_store = s, rs_active_timeout_bundle = ts_retained_active_timeout_bundle segment,
            rs_staged_timeout_output = ts_retained_staged_timeout_output segment\<rparr>)
      | (Failed err, s) \<Rightarrow>
          (Failed err, \<lparr>rs_output_store = s, rs_active_timeout_bundle = None, rs_staged_timeout_output = None\<rparr>)
      | (Panicked message, s) \<Rightarrow>
          (Panicked message,
           \<lparr>rs_output_store = s, rs_active_timeout_bundle = None, rs_staged_timeout_output = None\<rparr>))"

definition response_state_new :: "output_store_limits \<Rightarrow> response_state" where
  "response_state_new limits =
     \<lparr>rs_output_store = output_store_new limits, rs_active_timeout_bundle = None,
      rs_staged_timeout_output = None\<rparr>"

definition clear_active_timeout_bundle :: "store_env \<Rightarrow> response_state \<Rightarrow> unit outcome \<times> response_state" where
  "clear_active_timeout_bundle env st =
     (case rs_active_timeout_bundle st of
        None \<Rightarrow> (Done (), st\<lparr>rs_staged_timeout_output := None\<rparr>)
      | Some active \<Rightarrow>
          (case run_state (finish_bundle env active) (rs_output_store st) of
             (Done _, s) \<Rightarrow>
               (Done (), \<lparr>rs_output_store = s, rs_active_timeout_bundle = None,
                          rs_staged_timeout_output = None\<rparr>)
           | (r, s) \<Rightarrow> (r, st\<lparr>rs_output_store := s, rs_active_timeout_bundle := None\<rparr>)))"

definition shutdown_responses :: "store_env \<Rightarrow> response_state \<Rightarrow> unit outcome \<times> response_state" where
  "shutdown_responses env st =
     (case run_state (cleanup_now env) (rs_output_store st) of
        (r, s) \<Rightarrow>
          (r, \<lparr>rs_output_store = s, rs_active_timeout_bundle = None, rs_staged_timeout_output = None\<rparr>))"

definition has_timeout_bundle_state :: "response_state \<Rightarrow> bool" where
  "has_timeout_bundle_state st \<longleftrightarrow>
     rs_active_timeout_bundle st \<noteq> None \<or> rs_staged_timeout_output st \<noteq> None"

definition disclosed_timeout_bundle_id :: "response_state \<Rightarrow> nat option" where
  "disclosed_timeout_bundle_id st =
     (case rs_active_timeout_bundle st of Some active \<Rightarrow> disclosed_id active | None \<Rightarrow> None)"

definition retire_disclosed_timeout_bundle :: "response_state \<Rightarrow> response_state" where
  "retire_disclosed_timeout_bundle st =
     (if pred_option ab_disclosed (rs_active_timeout_bundle st) \<and> rs_active_timeout_bundle st \<noteq> None
      then st\<lparr>rs_active_timeout_bundle := None\<rparr> else st)"

definition retire_timeout_bundle_if_matches :: "nat option \<Rightarrow> response_state \<Rightarrow> response_state" where
  "retire_timeout_bundle_if_matches bundle_id st =
     (if bundle_id \<noteq> None \<and> map_option ab_id (rs_active_timeout_bundle st) = bundle_id
      then st\<lparr>rs_active_timeout_bundle := None\<rparr> else st)"

section \<open>Results of tool calls\<close>

definition finalize_reply_segment ::
  "store_env \<Rightarrow> reply_material \<Rightarrow> bool \<Rightarrow> timeout_bundle_reuse \<Rightarrow> active_output_bundle option \<Rightarrow>
   staged_timeout_output option \<Rightarrow> timeout_reply_segment store_flow" where
  "finalize_reply_segment env material pending_request_after timeout_bundle_reuse
     active_timeout_bundle staged_timeout_output =
     (if timeout_bundle_reuse = FollowUpInput
      then finalize_follow_up_reply env material pending_request_after active_timeout_bundle
             staged_timeout_output
      else
        follow
          (if timeout_bundle_reuse = FullReply then finish ()
           else drop_optional_bundle env active_timeout_bundle) (\<lambda>_.
          (let active = (if timeout_bundle_reuse = FullReply then active_timeout_bundle else None);
               staged = (if timeout_bundle_reuse = FullReply then staged_timeout_output else None)
           in if active = None \<and> staged = None \<and> should_spill_detached_prefix_only material
              then finalize_reply_with_spilled_detached_prefix env material pending_request_after
              else
                render_timeout_reply_segment env
                  \<lparr>tv_bundle_items = rm_bundle_items material, tv_inline_items = rm_inline_items material,
                   tv_worker_text = rm_worker_text material, tv_error_code = rm_error_code material,
                   tv_protected_bundle_id = None\<rparr>
                  pending_request_after active staged)))"

definition finalize_reply ::
  "store_env \<Rightarrow> worker_reply \<Rightarrow> bool \<Rightarrow> timeout_bundle_reuse \<Rightarrow> nat \<Rightarrow> response_state \<Rightarrow>
   call_tool_result outcome \<times> response_state" where
  "finalize_reply env reply pending_request_after timeout_bundle_reuse detached_prefix_item_count st =
     (let material = prepare_reply_material reply detached_prefix_item_count
      in case with_timeout_state
                (finalize_reply_segment env material pending_request_after timeout_bundle_reuse) st of
           (Done contents, st1) \<Rightarrow> (Done (finalize_batch contents (rm_is_error material)), st1)
         | (Failed err, st1) \<Rightarrow> (Failed err, st1)
         | (Panicked message, st1) \<Rightarrow> (Panicked message, st1))"

definition worker_error_result :: "worker_error \<Rightarrow> call_tool_result" where
  "worker_error_result err = finalize_error_batch [plain_text (''worker error: '' @ display_error err)]"

text \<open>After an error of the worker the timeout state is cleared; an error of that goes to the log.\<close>

definition cleared :: "store_env \<Rightarrow> response_state \<Rightarrow> call_tool_result \<Rightarrow> call_tool_result outcome \<times> response_state" where
  "cleared env st result =
     (case clear_active_timeout_bundle env st of
        (Panicked message, st1) \<Rightarrow> (Panicked message, st1)
      | (_, st1) \<Rightarrow> (Done result, st1))"

definition finalize_worker_result ::
  "store_env \<Rightarrow> worker_error + worker_reply \<Rightarrow> bool \<Rightarrow> timeout_bundle_reuse \<Rightarrow> nat \<Rightarrow> response_state \<Rightarrow>
   call_tool_result outcome \<times> response_state" where
  "finalize_worker_result env result pending_request_after timeout_bundle_reuse detached_prefix_item_count st =
     (case result of
        Inr reply \<Rightarrow>
          finalize_reply env reply pending_request_after timeout_bundle_reuse detached_prefix_item_count st
      | Inl err \<Rightarrow> cleared env st (worker_error_result err))"

definition finalize_local_error :: "worker_error \<Rightarrow> bool \<Rightarrow> call_tool_result" where
  "finalize_local_error err is_mcp_error =
     \<lparr>ct_content = ensure_nonempty_contents [plain_text (''worker error: '' @ display_error err)],
      ct_is_error = is_mcp_error\<rparr>"

definition materialize_worker_result_inline ::
  "store_env \<Rightarrow> worker_error + worker_reply \<Rightarrow> nat \<Rightarrow> response_state \<Rightarrow>
   call_tool_result outcome \<times> response_state" where
  "materialize_worker_result_inline env result detached_prefix_item_count st =
     (let shown =
            (case result of
               Inr reply \<Rightarrow>
                 (let material = prepare_reply_material reply detached_prefix_item_count
                  in finalize_batch (materialize_items (rm_inline_items material)) (rm_is_error material))
             | Inl err \<Rightarrow> worker_error_result err)
      in if has_timeout_bundle_state st then cleared env st shown else (Done shown, st))"

end
