(* ===== verification/Store_Quota.thy ===== *)
theory Store_Quota
  imports Output_Store
begin

text \<open>
  The quotas of the output store of \<^verbatim>\<open>src/src/server/response.rs\<close>. The store counts, for every
  bundle, the bytes it has written and the bytes it has reserved for the index of the bundle, and
  their total. The invariant says that the counters cover what lies on disk and stay within the
  limits; every operation keeps it, whichever calls of the file system fail. The proofs are in a
  small calculus of preconditions and postconditions for store computations.
\<close>

section \<open>A calculus for store computations\<close>

text \<open>
  From a store with \<open>P\<close>, the computation returns with \<open>Q\<close>, fails with \<open>E\<close> or panics with \<open>K\<close>.
\<close>

definition keeps ::
  "(output_store \<Rightarrow> bool) \<Rightarrow> 'a store_flow \<Rightarrow> ('a \<Rightarrow> output_store \<Rightarrow> bool) \<Rightarrow>
   (output_store \<Rightarrow> bool) \<Rightarrow> (output_store \<Rightarrow> bool) \<Rightarrow> bool" where
  "keeps P f Q E K \<longleftrightarrow>
     (\<forall>s. P s \<longrightarrow>
        (case run_state f s of
           (Done x, s') \<Rightarrow> Q x s' | (Failed err, s') \<Rightarrow> E s' | (Panicked message, s') \<Rightarrow> K s'))"

lemma keepsI:
  assumes "\<And>s. P s \<Longrightarrow>
    (case run_state f s of
       (Done x, s') \<Rightarrow> Q x s' | (Failed err, s') \<Rightarrow> E s' | (Panicked message, s') \<Rightarrow> K s')"
  shows "keeps P f Q E K"
  using assms by (simp add: keeps_def)

lemma keepsD:
  assumes "keeps P f Q E K" "P s" "run_state f s = (r, s')"
  shows "r = Done x \<Longrightarrow> Q x s'" "r = Failed err \<Longrightarrow> E s'" "r = Panicked message \<Longrightarrow> K s'"
proof -
  have "case run_state f s of
      (Done x, s') \<Rightarrow> Q x s' | (Failed err, s') \<Rightarrow> E s' | (Panicked message, s') \<Rightarrow> K s'"
    using assms(1,2) by (simp add: keeps_def)
  with assms(3) show "r = Done x \<Longrightarrow> Q x s'" "r = Failed err \<Longrightarrow> E s'" "r = Panicked message \<Longrightarrow> K s'"
    by simp_all
qed

lemma keeps_conseq:
  assumes "keeps P' f Q' E K" "\<And>s. P s \<Longrightarrow> P' s" "\<And>x s. Q' x s \<Longrightarrow> Q x s"
  shows "keeps P f Q E K"
  using assms by (fastforce simp: keeps_def split: prod.splits outcome.splits)

lemma keeps_pre: "keeps P' f Q E K \<Longrightarrow> (\<And>s. P s \<Longrightarrow> P' s) \<Longrightarrow> keeps P f Q E K"
  by (erule keeps_conseq)

lemma keeps_post: "keeps P f Q' E K \<Longrightarrow> (\<And>x s. Q' x s \<Longrightarrow> Q x s) \<Longrightarrow> keeps P f Q E K"
  by (erule keeps_conseq)

lemma keeps_exits:
  "keeps P f Q E K \<Longrightarrow> (\<And>s. E s \<Longrightarrow> E' s) \<Longrightarrow> (\<And>s. K s \<Longrightarrow> K' s) \<Longrightarrow> keeps P f Q E' K'"
  by (fastforce simp: keeps_def split: prod.splits outcome.splits)

lemma keeps_fixed:
  "(\<And>c. C c \<Longrightarrow> keeps (\<lambda>s. P s \<and> v s = c) f Q E K) \<Longrightarrow> (\<And>s. P s \<Longrightarrow> C (v s)) \<Longrightarrow> keeps P f Q E K"
  by (fastforce simp: keeps_def)

lemma keeps_premise: "(C \<Longrightarrow> keeps P f Q E K) \<Longrightarrow> keeps (\<lambda>s. P s \<and> C) f Q E K"
  by (auto simp: keeps_def)

lemma keeps_follow:
  assumes "keeps P f Q E K" "\<And>x. keeps (Q x) (g x) Q' E K"
  shows "keeps P (follow f g) Q' E K"
proof (rule keepsI)
  fix s assume P: "P s"
  obtain r s1 where r: "run_state f s = (r, s1)" by force
  note first = keepsD [OF assms(1) P r]
  show "case run_state (follow f g) s of
      (Done x, s') \<Rightarrow> Q' x s' | (Failed err, s') \<Rightarrow> E s' | (Panicked message, s') \<Rightarrow> K s'"
  proof (cases r)
    case (Done x)
    with first(1) assms(2) [of x] r show ?thesis
      by (auto simp: follow_def keeps_def)
  qed (use first r in \<open>auto simp: follow_def refuse_def panic_def\<close>)
qed

lemma keeps_done: "(\<And>s. P s \<Longrightarrow> Q x s) \<Longrightarrow> keeps P (finish x) Q E K"
  by (simp add: keeps_def finish_def)

lemma keeps_refuse: "(\<And>s. P s \<Longrightarrow> E s) \<Longrightarrow> keeps P (refuse err) Q E K"
  by (simp add: keeps_def refuse_def)

lemma keeps_panic: "(\<And>s. P s \<Longrightarrow> K s) \<Longrightarrow> keeps P (panic message) Q E K"
  by (simp add: keeps_def panic_def)

lemma keeps_look: "(\<And>s. P s \<Longrightarrow> Q (f s) s) \<Longrightarrow> keeps P (look f) Q E K"
  by (simp add: keeps_def look_def)

lemma keeps_adjust: "(\<And>s. P s \<Longrightarrow> Q () (f s)) \<Longrightarrow> keeps P (adjust f) Q E K"
  by (simp add: keeps_def adjust_def)

lemma keeps_io_result:
  assumes "\<And>s err. P s \<Longrightarrow> Q (Inl err) (s\<lparr>st_calls := Suc (st_calls s)\<rparr>)"
    "\<And>s. P s \<Longrightarrow> Q (Inr ()) ((f s)\<lparr>st_calls := Suc (st_calls s)\<rparr>)"
  shows "keeps P (io_result env f) Q E K"
  using assms by (auto simp: keeps_def io_result_def split: option.splits)

lemma keeps_io_call:
  assumes "\<And>s. P s \<Longrightarrow> E (s\<lparr>st_calls := Suc (st_calls s)\<rparr>)"
    "\<And>s. P s \<Longrightarrow> Q () ((f s)\<lparr>st_calls := Suc (st_calls s)\<rparr>)"
  shows "keeps P (io_call env f) Q E K"
  using assms by (auto simp: keeps_def io_call_def io_result_def follow_def refuse_def finish_def
      split: option.splits)

lemma keeps_attempt:
  assumes "keeps P f (\<lambda>x. Q (Inr x)) (\<lambda>s. \<forall>err. Q (Inl err) s) K"
  shows "keeps P (attempt f) Q E K"
  using assms by (fastforce simp: keeps_def attempt_def finish_def panic_def
      split: outcome.splits prod.splits)

lemma keeps_cond:
  "(c \<Longrightarrow> keeps P f Q E K) \<Longrightarrow> (\<not> c \<Longrightarrow> keeps P g Q E K) \<Longrightarrow> keeps P (if c then f else g) Q E K"
  by simp

section \<open>Sizes of files\<close>

definition files_bytes :: "nat \<Rightarrow> (file_path \<times> bytes) list \<Rightarrow> nat" where
  "files_bytes i fs = sum_list (map (\<lambda>(_, bs). length bs) (filter (\<lambda>((j, _), _). j = i) fs))"

abbreviation disk_bytes :: "nat \<Rightarrow> output_store \<Rightarrow> nat" where
  "disk_bytes i s \<equiv> files_bytes i (st_files s)"

lemma files_bytes_Cons:
  "files_bytes i ((p, bs) # fs) = (if fst p = i then length bs else 0) + files_bytes i fs"
  by (cases p) (simp add: files_bytes_def)

lemma files_bytes_none: "(\<And>p bs. (p, bs) \<in> set fs \<Longrightarrow> fst p \<noteq> i) \<Longrightarrow> files_bytes i fs = 0"
proof -
  assume "\<And>p bs. (p, bs) \<in> set fs \<Longrightarrow> fst p \<noteq> i"
  then have "filter (\<lambda>((j, _), _). j = i) fs = []" by (force simp: filter_empty_conv)
  then show ?thesis by (simp add: files_bytes_def)
qed

lemma files_bytes_without:
  assumes "distinct (map fst fs)"
  shows "files_bytes i (filter (\<lambda>(q, _). q \<noteq> p) fs) +
      (if fst p = i then case map_of fs p of Some bs \<Rightarrow> length bs | None \<Rightarrow> 0 else 0) = files_bytes i fs"
  using assms
proof (induction fs)
  case Nil
  then show ?case by (simp add: files_bytes_def)
next
  case (Cons e fs)
  obtain q bs where e: "e = (q, bs)" by (cases e)
  show ?case
  proof (cases "q = p")
    case True
    with Cons.prems e have "filter (\<lambda>(q, _). q \<noteq> p) fs = fs" by (force simp: filter_id_conv)
    with True e show ?thesis by (simp add: files_bytes_Cons)
  next
    case False
    with Cons e show ?thesis by (cases "fst p = i") (simp_all add: files_bytes_Cons)
  qed
qed

lemma disk_bytes_write:
  assumes "distinct (map fst (st_files s))"
  shows "disk_bytes j (write_file p bs s) + (if fst p = j then file_size p s else 0) =
      disk_bytes j s + (if fst p = j then length bs else 0)"
  using files_bytes_without [OF assms, of j p]
  by (cases "fst p = j") (auto simp: write_file_def file_size_def files_bytes_Cons split: option.splits)

lemma disk_bytes_remove:
  assumes "distinct (map fst (st_files s))"
  shows "disk_bytes j (remove_file p s) + (if fst p = j then file_size p s else 0) = disk_bytes j s"
  using files_bytes_without [OF assms, of j p]
  by (cases "fst p = j") (auto simp: remove_file_def file_size_def split: option.splits)

lemma length_file_text: "length (file_text p s) = file_size p s"
  by (simp add: file_text_def file_size_def unwrap_or_def split: option.splits)

lemma disk_bytes_remove_dir: "j \<noteq> i \<Longrightarrow> disk_bytes j (remove_dir i s) = disk_bytes j s"
proof -
  assume "j \<noteq> i"
  then have "filter (\<lambda>((k, _), _). k = j) (filter (\<lambda>((k, _), _). k \<noteq> i) fs) =
      filter (\<lambda>((k, _), _). k = j) fs" for fs :: "(file_path \<times> bytes) list"
    by (induction fs) auto
  then show ?thesis by (simp add: files_bytes_def remove_dir_def)
qed

lemma file_size_le_disk:
  assumes "distinct (map fst (st_files s))"
  shows "file_size p s \<le> disk_bytes (fst p) s"
  using disk_bytes_remove [OF assms, of "fst p" p] by simp

lemma distinct_files:
  assumes "distinct (map fst (st_files s))"
  shows "distinct (map fst (st_files (write_file p bs s)))"
    "distinct (map fst (st_files (remove_file p s)))"
    "distinct (map fst (st_files (remove_dir i s)))"
  using assms by (auto simp: write_file_def remove_file_def remove_dir_def distinct_map_filter)

section \<open>The invariant\<close>

text \<open>
  The bytes a bundle counts. The counters of the store cover the files, except for what is owed
  while a file is written and its bytes are not counted yet.
\<close>

definition counted :: "stored_bundle \<Rightarrow> nat" where
  "counted b = sb_bytes_on_disk b + sb_reserved_events_log_bytes b"

definition books :: "(nat \<Rightarrow> nat) \<Rightarrow> output_store \<Rightarrow> bool" where
  "books owed s \<longleftrightarrow>
     lim_max_bundle_bytes (st_limits s) \<le> u64_max \<and> lim_max_total_bytes (st_limits s) < u64_max \<and>
     length (st_bundles s) \<le> lim_max_bundle_count (st_limits s) \<and>
     distinct (map sb_id (st_bundles s)) \<and>
     (\<forall>b \<in> set (st_bundles s). sb_id b \<le> st_next_id s) \<and>
     distinct (map fst (st_files s)) \<and> (\<forall>(p, _) \<in> set (st_files s). fst p \<le> st_next_id s) \<and>
     st_total_bytes s = sum_list (map counted (st_bundles s)) \<and>
     st_total_bytes s \<le> lim_max_total_bytes (st_limits s) \<and>
     (\<forall>b \<in> set (st_bundles s).
        counted b \<le> lim_max_bundle_bytes (st_limits s) \<and>
        disk_bytes (sb_id b) s \<le> sb_bytes_on_disk b + owed (sb_id b))"

abbreviation nothing_owed :: "nat \<Rightarrow> nat" where
  "nothing_owed \<equiv> (\<lambda>_. 0)"

text \<open>Bundle numbers are unique as long as their counter, which saturates, has not reached its end;
  \<open>N\<close> is a number already given.\<close>

definition store_ok :: "nat \<Rightarrow> output_store \<Rightarrow> bool" where
  "store_ok N s \<longleftrightarrow> N \<le> st_next_id s \<and> st_next_id s \<le> u64_max \<and> (st_next_id s < u64_max \<longrightarrow> books nothing_owed s)"

text \<open>The store while bundle \<open>i\<close> is written: it may take \<open>n\<close> more bytes, the store \<open>m\<close> more;
  with \<open>h\<close> the bundle is known to be in the store.\<close>

definition room :: "nat \<Rightarrow> bool \<Rightarrow> nat \<Rightarrow> nat \<Rightarrow> nat \<Rightarrow> nat \<Rightarrow> output_store \<Rightarrow> bool" where
  "room N h i k n m s \<longleftrightarrow> N \<le> st_next_id s \<and> st_next_id s \<le> u64_max \<and>
     (h \<longrightarrow> find_bundle i s \<noteq> None) \<and>
     (st_next_id s < u64_max \<longrightarrow>
        books (nothing_owed(i := k)) s \<and> i \<le> st_next_id s \<and>
        (\<forall>b \<in> set (st_bundles s). sb_id b = i \<longrightarrow> counted b + n \<le> lim_max_bundle_bytes (st_limits s)) \<and>
        st_total_bytes s + m \<le> lim_max_total_bytes (st_limits s))"

text \<open>What a bundle owns in the store.\<close>

definition own :: 
  "nat \<Rightarrow> output_store \<Rightarrow> stored_bundle list \<times> (file_path \<times> bytes) list \<times> output_store_limits" where
  "own i s = (filter (\<lambda>b. sb_id b = i) (st_bundles s),
     filter (\<lambda>((j, _), _). j = i) (st_files s), st_limits s)"

lemma nothing_owed_upd [simp]: "nothing_owed(i := 0) = nothing_owed"
  by auto

lemma room_store_ok: "room N h i 0 n m s \<Longrightarrow> store_ok N s"
  by (simp add: room_def store_ok_def)

lemma store_ok_room:
  "store_ok N s \<Longrightarrow> i \<le> st_next_id s \<Longrightarrow> (h \<Longrightarrow> find_bundle i s \<noteq> None) \<Longrightarrow> room N h i 0 0 0 s"
  by (auto simp: room_def store_ok_def books_def)

lemma room_less: "room N h i k n m s \<Longrightarrow> n' \<le> n \<Longrightarrow> m' \<le> m \<Longrightarrow> room N h i k n' m' s"
  by (fastforce simp: room_def)

lemma room_without_bundle:
  assumes "room N h i k n m s" "find_bundle i s = None"
  shows "store_ok N s"
  using assms by (auto simp: room_def store_ok_def books_def find_bundle_def find_None_iff)

lemma accounted_counted:
  assumes "books owed s" "b \<in> set (st_bundles s)"
  shows "accounted_bytes b = counted b"
  using assms by (force simp: accounted_bytes_def counted_def books_def intro!: sat_add_exact)

lemma find_bundle_files [simp]:
  "find_bundle i (write_file p bs s) = find_bundle i s"
  "find_bundle i (append_file p bs s) = find_bundle i s"
  "find_bundle i (remove_file p s) = find_bundle i s"
  "find_bundle i (make_dir d s) = find_bundle i s"
  "find_bundle i (s\<lparr>st_calls := c\<rparr>) = find_bundle i s"
  "find_bundle i (s\<lparr>st_root := rt\<rparr>) = find_bundle i s"
  "find_bundle i (s\<lparr>st_files := fs\<rparr>) = find_bundle i s"
  "st_next_id (write_file p bs s) = st_next_id s"
  "st_next_id (append_file p bs s) = st_next_id s"
  "st_next_id (remove_file p s) = st_next_id s"
  "st_next_id (make_dir d s) = st_next_id s"
  by (simp_all add: find_bundle_def write_file_def append_file_def remove_file_def make_dir_def)

lemma room_calls [simp]:
  "room N h i k n m (s\<lparr>st_calls := c\<rparr>) = room N h i k n m s"
  "room N h i k n m (s\<lparr>st_root := rt\<rparr>) = room N h i k n m s"
  "room N h i k n m (make_dir p s) = room N h i k n m s"
  "store_ok N (s\<lparr>st_calls := c\<rparr>) = store_ok N s"
  "store_ok N (s\<lparr>st_root := rt\<rparr>) = store_ok N s"
  "store_ok N (make_dir p s) = store_ok N s"
  "own i (s\<lparr>st_calls := c\<rparr>) = own i s"
  "own i (make_dir p s) = own i s"
  by (simp_all add: room_def store_ok_def books_def own_def) (simp_all add: make_dir_def)

subsection \<open>Writing files\<close>

text \<open>A file that is written is owed until its bytes are counted.\<close>

lemma books_new_files:
  assumes "books owed s" "distinct (map fst fs)" "\<And>p bs. (p, bs) \<in> set fs \<Longrightarrow> fst p \<le> st_next_id s"
    "\<And>b. b \<in> set (st_bundles s) \<Longrightarrow> files_bytes (sb_id b) fs \<le> sb_bytes_on_disk b + owed' (sb_id b)"
  shows "books owed' (s\<lparr>st_files := fs\<rparr>)"
  using assms by (auto simp: books_def)

text \<open>A change of the files of bundle \<open>i\<close> only.\<close>

lemma room_new_files:
  assumes "room N h i k n m s" "s' = s\<lparr>st_files := st_files s'\<rparr>"
    and new: "distinct (map fst (st_files s)) \<Longrightarrow> distinct (map fst (st_files s'))"
      "\<And>p bs. (p, bs) \<in> set (st_files s') \<Longrightarrow> fst p = i \<or> p \<in> fst ` set (st_files s)"
      "distinct (map fst (st_files s)) \<Longrightarrow> disk_bytes i s' + k \<le> disk_bytes i s + k'"
      "\<And>j. distinct (map fst (st_files s)) \<Longrightarrow> j \<noteq> i \<Longrightarrow> disk_bytes j s' \<le> disk_bytes j s"
  shows "room N h i k' n m s'"
proof (cases "st_next_id s < u64_max")
  case True
  with assms(1) have b: "books (nothing_owed(i := k)) s" and i: "i \<le> st_next_id s"
    by (simp_all add: room_def)
  then have d: "distinct (map fst (st_files s))" by (simp add: books_def)
  have "books (nothing_owed(i := k')) (s\<lparr>st_files := st_files s'\<rparr>)"
  proof (rule books_new_files [OF b new(1) [OF d]])
    show "fst p \<le> st_next_id s" if "(p, bs) \<in> set (st_files s')" for p bs
      using new(2) [OF that] b i by (force simp: books_def)
    show "disk_bytes (sb_id x) s' \<le> sb_bytes_on_disk x + (nothing_owed(i := k')) (sb_id x)"
      if "x \<in> set (st_bundles s)" for x
    proof -
      have "disk_bytes (sb_id x) s \<le> sb_bytes_on_disk x + (nothing_owed(i := k)) (sb_id x)"
        using b that by (simp add: books_def)
      then show ?thesis using new(3) [OF d] new(4) [OF d, of "sb_id x"]
        by (cases "sb_id x = i") auto
    qed
  qed
  with assms(1) True have "room N h i k' n m (s\<lparr>st_files := st_files s'\<rparr>)" using assms(1) by (simp add: room_def)
  then show ?thesis by (simp only: assms(2) [symmetric])
next
  case False
  then have "room N h i k' n m (s\<lparr>st_files := st_files s'\<rparr>)" using assms(1) by (simp add: room_def)
  then show ?thesis by (simp only: assms(2) [symmetric])
qed

lemma room_write:
  assumes "room N h (fst p) k n m s" "length bs + k \<le> k' + file_size p s"
  shows "room N h (fst p) k' n m (write_file p bs s)"
proof (rule room_new_files [OF assms(1)])
  show "fst q = fst p \<or> q \<in> fst ` set (st_files s)" if "(q, r) \<in> set (st_files (write_file p bs s))" for q r
    using that by (force simp: write_file_def)
  assume d: "distinct (map fst (st_files s))"
  show "disk_bytes (fst p) (write_file p bs s) + k \<le> disk_bytes (fst p) s + k'"
    using disk_bytes_write [OF d, of "fst p" p bs] assms(2) by simp
  show "disk_bytes j (write_file p bs s) \<le> disk_bytes j s" if "j \<noteq> fst p" for j
    using disk_bytes_write [OF d, of j p bs] that by (simp split: if_splits)
qed (simp add: write_file_def, erule distinct_files(1))

lemma room_remove:
  assumes "room N h (fst p) k n m s" "k \<le> k' + file_size p s"
  shows "room N h (fst p) k' n m (remove_file p s)"
proof (rule room_new_files [OF assms(1)])
  show "fst q = fst p \<or> q \<in> fst ` set (st_files s)" if "(q, r) \<in> set (st_files (remove_file p s))" for q r
    using that by (force simp: remove_file_def)
  assume d: "distinct (map fst (st_files s))"
  show "disk_bytes (fst p) (remove_file p s) + k \<le> disk_bytes (fst p) s + k'"
    using disk_bytes_remove [OF d, of "fst p" p] assms(2) by simp
  show "disk_bytes j (remove_file p s) \<le> disk_bytes j s" if "j \<noteq> fst p" for j
    using disk_bytes_remove [OF d, of j p] that by (simp split: if_splits)
qed (simp add: remove_file_def, erule distinct_files(2))

lemma room_append:
  assumes "room N h (fst p) k n m s"
  shows "room N h (fst p) (k + length bs) n m (append_file p bs s)"
  unfolding append_file_def by (rule room_write [OF assms]) (simp add: length_file_text)

subsection \<open>Counting bytes\<close>

lemma find_bundle_split:
  assumes "find_bundle i s = Some b" "distinct (map sb_id (st_bundles s))"
  shows "\<exists>bs1 bs2. st_bundles s = bs1 @ b # bs2 \<and> sb_id b = i \<and>
      (\<forall>x \<in> set (bs1 @ bs2). sb_id x \<noteq> i) \<and>
      (\<forall>f. update_first_bundle i f (st_bundles s) = bs1 @ f b # bs2)"
proof -
  have "\<exists>bs1 bs2. bs = bs1 @ b # bs2 \<and> sb_id b = i \<and> (\<forall>x \<in> set (bs1 @ bs2). sb_id x \<noteq> i) \<and>
      (\<forall>f. update_first_bundle i f bs = bs1 @ f b # bs2)"
    if "find (\<lambda>b. sb_id b = i) bs = Some b" "distinct (map sb_id bs)" for bs
    using that
  proof (induction bs)
    case (Cons x bs)
    show ?case
    proof (cases "sb_id x = i")
      case True
      with Cons.prems have "b = x" "\<forall>y \<in> set bs. sb_id y \<noteq> i" by (auto simp: image_iff)
      with True have "x # bs = [] @ b # bs \<and> sb_id b = i \<and> (\<forall>x \<in> set ([] @ bs). sb_id x \<noteq> i) \<and>
          (\<forall>f. update_first_bundle i f (x # bs) = [] @ f b # bs)" by simp
      then show ?thesis by blast
    next
      case False
      with Cons obtain bs1 bs2 where "bs = bs1 @ b # bs2 \<and> sb_id b = i \<and>
          (\<forall>x \<in> set (bs1 @ bs2). sb_id x \<noteq> i) \<and> (\<forall>f. update_first_bundle i f bs = bs1 @ f b # bs2)"
        by auto
      with False have "x # bs = (x # bs1) @ b # bs2 \<and> sb_id b = i \<and>
          (\<forall>y \<in> set ((x # bs1) @ bs2). sb_id y \<noteq> i) \<and>
          (\<forall>f. update_first_bundle i f (x # bs) = (x # bs1) @ f b # bs2)" by auto
      then show ?thesis by blast
    qed
  qed simp
  from this [OF assms(1) [unfolded find_bundle_def] assms(2)] show ?thesis .
qed

definition gone :: "nat \<Rightarrow> bool \<Rightarrow> nat \<Rightarrow> output_store \<Rightarrow> bool" where
  "gone N h i s \<longleftrightarrow> store_ok N s \<and> find_bundle i s = None \<and> \<not> h"

lemma room_gone: "room N h i k n m s \<Longrightarrow> find_bundle i s = None \<Longrightarrow> gone N h i s"
  using room_without_bundle [of N h i k n m s] by (cases h) (auto simp: gone_def, simp add: room_def)

text \<open>
  A change of the counters of bundle \<open>i\<close>: it stays within the room, covers what is owed, and the
  total follows. Without the bundle the code panics.
\<close>

lemma find_bundle_update_first:
  assumes "\<And>b. sb_id (f b) = sb_id b"
  shows "(find (\<lambda>b. sb_id b = i) (update_first_bundle j f bs) = None) =
      (find (\<lambda>b. sb_id b = i) bs = None)"
  using assms by (induction bs) auto

lemma keeps_with_bundle:
  assumes same: "\<And>b. sb_id (f b) = sb_id b" and fact: "\<And>s b. \<lbrakk>P s; st_next_id s < u64_max; find_bundle i s = Some b;
      counted b + n \<le> lim_max_bundle_bytes (st_limits s); lim_max_bundle_bytes (st_limits s) \<le> u64_max;
      counted b \<le> st_total_bytes s; st_total_bytes s + m \<le> u64_max;
      disk_bytes i s \<le> sb_bytes_on_disk b + k\<rbrakk> \<Longrightarrow>
      counted (f b) + n' \<le> counted b + n \<and>
      disk_bytes i s \<le> sb_bytes_on_disk (f b) + k' \<and>
      count b (st_total_bytes s) + counted b = st_total_bytes s + counted (f b) \<and>
      count b (st_total_bytes s) + m' \<le> st_total_bytes s + m"
  shows "keeps (\<lambda>s. room N h i k n m s \<and> P s) (with_bundle i message f count) (\<lambda>_. room N h i k' n' m') E
      (gone N h i)"
proof (rule keepsI)
  fix s assume "room N h i k n m s \<and> P s"
  then have room: "room N h i k n m s" and P: "P s" by simp_all
  show "case run_state (with_bundle i message f count) s of
      (Done x, s') \<Rightarrow> room N h i k' n' m' s' | (Failed err, s') \<Rightarrow> E s'
    | (Panicked message, s') \<Rightarrow> gone N h i s'"
  proof (cases "find_bundle i s")
    case None
    with room room_without_bundle [OF room None] show ?thesis
      by (auto simp: with_bundle_def gone_def room_def)
  next
    case (Some b)
    then have there: "find_bundle i (s\<lparr>st_bundles := update_first_bundle i f (st_bundles s),
        st_total_bytes := count b (st_total_bytes s)\<rparr>) \<noteq> None"
      using find_bundle_update_first [of f i i "st_bundles s"] same by (simp add: find_bundle_def)
    have "room N h i k' n' m' (s\<lparr>st_bundles := update_first_bundle i f (st_bundles s),
        st_total_bytes := count b (st_total_bytes s)\<rparr>)"
    proof (cases "st_next_id s < u64_max")
      case True
      with room have bk: "books (nothing_owed(i := k)) s" and i: "i \<le> st_next_id s"
          and t: "st_total_bytes s + m \<le> lim_max_total_bytes (st_limits s)"
        by (simp_all add: room_def)
      then have d: "distinct (map sb_id (st_bundles s))" by (simp add: books_def)
      obtain bs1 bs2 where sp: "st_bundles s = bs1 @ b # bs2" "sb_id b = i"
          "\<forall>x \<in> set (bs1 @ bs2). sb_id x \<noteq> i"
          "\<forall>f. update_first_bundle i f (st_bundles s) = bs1 @ f b # bs2"
        using find_bundle_split [OF Some d] by blast
      have *: "counted (f b) + n' \<le> counted b + n \<and>
          disk_bytes i s \<le> sb_bytes_on_disk (f b) + k' \<and>
          count b (st_total_bytes s) + counted b = st_total_bytes s + counted (f b) \<and>
          count b (st_total_bytes s) + m' \<le> st_total_bytes s + m"
        using bk room True sp t by (intro fact [OF P True Some]) (auto simp: room_def books_def)
      have "books (nothing_owed(i := k')) (s\<lparr>st_bundles := update_first_bundle i f (st_bundles s),
          st_total_bytes := count b (st_total_bytes s)\<rparr>)"
        using bk sp * t room True same by (auto simp: books_def room_def)
      then show ?thesis using * sp bk i t room True same there by (auto simp: room_def)
    qed (use room there in \<open>simp add: room_def\<close>)
    with Some show ?thesis by (simp add: with_bundle_def)
  qed
qed

lemmas keeps_with_bundle_plain = keeps_with_bundle [where P = "\<lambda>_. True", simplified]

lemma keeps_record_append:
  "keeps (room N h i k (n + l) (m + l)) (record_append i l) (\<lambda>_. room N h i (k - l) n m) E (gone N h i)"
  unfolding record_append_def
  by (rule keeps_cond; (rule keeps_done)?; (rule keeps_with_bundle_plain)?)
    (auto simp: counted_def sat_add_def)

lemma keeps_reserve:
  "keeps (room N h i k (n + l) (m + l)) (reserve_events_log_bytes i l) (\<lambda>_. room N h i k n m) E (gone N h i)"
  unfolding reserve_events_log_bytes_def
  by (rule keeps_cond; (rule keeps_done)?; (rule keeps_with_bundle_plain)?)
    (auto simp: counted_def sat_add_def)

lemma keeps_record_events_log_append:
  "keeps (\<lambda>s. room N h i k (n + (l - r)) (m + (l - r)) s \<and>
       (\<forall>b. find_bundle i s = Some b \<longrightarrow> r \<le> sb_reserved_events_log_bytes b))
     (record_events_log_append i l) (\<lambda>_. room N h i (k - l) n m) E (gone N h i)"
  unfolding record_events_log_append_def
  by (rule keeps_cond; (rule keeps_done)?; (rule keeps_with_bundle)?)
    (auto simp: counted_def sat_add_def)

text \<open>The bytes on disk compared with those counted, when a file is replaced or removed.\<close>

definition covered :: "nat \<Rightarrow> nat \<Rightarrow> nat \<Rightarrow> output_store \<Rightarrow> bool" where
  "covered i l u s \<longleftrightarrow>
     (\<forall>b. st_next_id s < u64_max \<longrightarrow> find_bundle i s = Some b \<longrightarrow> disk_bytes i s + l \<le> sb_bytes_on_disk b + u)"

lemma covered_calls [simp]: "covered i l u (s\<lparr>st_calls := c\<rparr>) = covered i l u s"
  by (simp add: covered_def find_bundle_def)

lemma keeps_record_file_removal:
  "keeps (\<lambda>s. room N h i 0 n m s \<and> covered i l 0 s) (record_file_removal i l)
     (\<lambda>_. room N h i 0 (n + l) (m + l)) E (gone N h i)"
  unfolding record_file_removal_def
  by (rule keeps_cond; (rule keeps_done)?; (rule keeps_with_bundle)?)
    (auto simp: counted_def covered_def)

lemma bundle_unique:
  assumes "books owed s" "find_bundle i s = Some b" "x \<in> set (st_bundles s)" "sb_id x = i"
  shows "x = b"
proof -
  from assms(2) have "b \<in> set (st_bundles s)" "sb_id b = i"
    by (auto simp: find_bundle_def find_Some_iff)
  with assms show ?thesis by (auto simp: books_def distinct_map dest: inj_onD)
qed

lemma room_settled:
  assumes "room N h i k n m s" "covered i l l s"
  shows "room N h i 0 n m s"
proof (cases "st_next_id s < u64_max")
  case True
  with assms(1) have b: "books (nothing_owed(i := k)) s" by (simp add: room_def)
  have "disk_bytes (sb_id x) s \<le> sb_bytes_on_disk x" if x: "x \<in> set (st_bundles s)" for x
  proof (cases "sb_id x = i")
    case True
    with x obtain y where y: "find_bundle i s = Some y"
      by (cases "find_bundle i s") (auto simp: find_bundle_def find_None_iff)
    from bundle_unique [OF b y x True] y True assms(2) \<open>st_next_id s < u64_max\<close> show ?thesis by (simp add: covered_def)
  next
    case False
    with b x show ?thesis by (force simp: books_def)
  qed
  with b have "books nothing_owed s" by (auto simp: books_def)
  with assms(1) show ?thesis by (simp add: room_def)
qed (use assms(1) in \<open>simp add: room_def\<close>)

lemma keeps_record_file_replace:
  "keeps (\<lambda>s. room N h i k (n + (new - old)) (m + (new - old)) s \<and> covered i old new s)
     (record_file_replace i old new) (\<lambda>_. room N h i 0 n m) E (gone N h i)"
  unfolding record_file_replace_def
  by (rule keeps_cond; (rule keeps_done)?; (rule keeps_with_bundle)?)
    (auto simp: counted_def covered_def sat_add_def intro: room_settled)

subsection \<open>Files and their bytes together\<close>

lemma room_covered:
  assumes "room N h i 0 n m s"
  shows "covered i 0 0 s"
proof -
  have "disk_bytes i s \<le> sb_bytes_on_disk b" if "find_bundle i s = Some b" "st_next_id s < u64_max" for b
    using that assms by (auto simp: room_def books_def find_bundle_def find_Some_iff)
  then show ?thesis by (simp add: covered_def)
qed

lemma room_distinct: "room N h i k n m s \<Longrightarrow> st_next_id s < u64_max \<Longrightarrow> distinct (map fst (st_files s))"
  by (simp add: room_def books_def)

lemma keeps_append_bundle_bytes:
  assumes "fst p = i"
  shows "keeps (room N h i 0 (n + length bs) (m + length bs)) (append_bundle_bytes env i p bs)
     (\<lambda>_. room N h i 0 n m) (store_ok N) (gone N h i)"
  unfolding append_bundle_bytes_def
proof (rule keeps_cond)
  show "keeps (room N h i 0 (n + length bs) (m + length bs))
      (follow (io_call env (append_file p bs)) (\<lambda>_. record_append i (length bs)))
      (\<lambda>_. room N h i 0 n m) (store_ok N) (gone N h i)"
  proof (rule keeps_follow)
    show "keeps (room N h i 0 (n + length bs) (m + length bs)) (io_call env (append_file p bs))
        (\<lambda>_. room N h i (length bs) (n + length bs) (m + length bs)) (store_ok N) (gone N h i)"
      using room_append [of N h p 0] assms by (intro keeps_io_call) (auto intro: room_store_ok)
    show "keeps (room N h i (length bs) (n + length bs) (m + length bs)) (record_append i (length bs))
        (\<lambda>_. room N h i 0 n m) (store_ok N) (gone N h i)"
      using keeps_record_append [of N h i "length bs" n "length bs" m] by simp
  qed
qed (auto intro: keeps_done)

definition reserved_at_least :: "nat \<Rightarrow> nat \<Rightarrow> output_store \<Rightarrow> bool" where
  "reserved_at_least i r s \<longleftrightarrow>
     (\<forall>b. find_bundle i s = Some b \<longrightarrow> r \<le> sb_reserved_events_log_bytes b)"

lemma keeps_append_events_log_bytes:
  assumes "fst p = i"
  shows "keeps (\<lambda>s. room N h i 0 (n + (length bs - r)) (m + (length bs - r)) s \<and> reserved_at_least i r s)
     (append_events_log_bytes env i p bs)
     (\<lambda>_. room N h i 0 n m) (store_ok N) (gone N h i)"
  unfolding append_events_log_bytes_def
proof (rule keeps_cond)
  let ?n = "n + (length bs - r)" and ?m = "m + (length bs - r)"
  show "keeps (\<lambda>s. room N h i 0 ?n ?m s \<and> reserved_at_least i r s)
      (follow (io_call env (append_file p bs)) (\<lambda>_. record_events_log_append i (length bs)))
      (\<lambda>_. room N h i 0 n m) (store_ok N) (gone N h i)"
  proof (rule keeps_follow)
    show "keeps (\<lambda>s. room N h i 0 ?n ?m s \<and> reserved_at_least i r s) (io_call env (append_file p bs))
        (\<lambda>_ s. room N h i (length bs) ?n ?m s \<and>
           (\<forall>b. find_bundle i s = Some b \<longrightarrow> r \<le> sb_reserved_events_log_bytes b))
        (store_ok N) (gone N h i)"
      using room_append [of N h p 0] assms
      by (intro keeps_io_call) (auto intro: room_store_ok simp: reserved_at_least_def)
    show "keeps (\<lambda>s. room N h i (length bs) ?n ?m s \<and>
           (\<forall>b. find_bundle i s = Some b \<longrightarrow> r \<le> sb_reserved_events_log_bytes b))
        (record_events_log_append i (length bs)) (\<lambda>_. room N h i 0 n m) (store_ok N) (gone N h i)"
      using keeps_record_events_log_append [of N h i "length bs" n "length bs" r m] by simp
  qed
qed (auto intro: keeps_done room_less)

lemma keeps_remove_file:
  assumes "fst p = i"
  shows "keeps (\<lambda>s. room N h i 0 n m s \<and> l \<le> file_size p s)
     (follow (io_call env (remove_file p)) (\<lambda>_. record_file_removal i l))
     (\<lambda>_. room N h i 0 (n + l) (m + l)) (store_ok N) (gone N h i)"
proof (rule keeps_follow)
  have "covered i l 0 (remove_file p s)" if r: "room N h i 0 n m s" "l \<le> file_size p s" for s
    using room_covered [OF r(1)] disk_bytes_remove [OF room_distinct [OF r(1)], of i p] r(2) assms
    by (force simp: covered_def)
  moreover have "room N h i 0 n m (remove_file p s)" if "room N h i 0 n m s" for s
    using room_remove [of N h p 0 n m s 0] assms that by simp
  ultimately show "keeps (\<lambda>s. room N h i 0 n m s \<and> l \<le> file_size p s) (io_call env (remove_file p))
      (\<lambda>_ s. room N h i 0 n m s \<and> covered i l 0 s) (store_ok N) (gone N h i)"
    by (intro keeps_io_call) (auto intro: room_store_ok)
qed (rule keeps_record_file_removal)

lemma keeps_replace_file:
  assumes "fst p = i"
  shows "keeps (\<lambda>s. room N h i 0 (n + (length bs - old)) (m + (length bs - old)) s \<and> old \<le> file_size p s)
     (follow (io_call env (write_file p bs)) (\<lambda>_. record_file_replace i old (length bs)))
     (\<lambda>_. room N h i 0 n m) (store_ok N) (gone N h i)"
    (is "keeps (\<lambda>s. room N h i 0 ?n ?m s \<and> _) _ _ _ _")
proof (rule keeps_follow)
  have "covered i old (length bs) (write_file p bs s)"
    if r: "room N h i 0 ?n ?m s" "old \<le> file_size p s" for s
    using room_covered [OF r(1)] disk_bytes_write [OF room_distinct [OF r(1)], of i p bs] r(2) assms
    by (force simp: covered_def)
  moreover have "room N h i (length bs) ?n ?m (write_file p bs s)" if "room N h i 0 ?n ?m s" for s
    using room_write [of N h p 0 ?n ?m s bs "length bs"] assms that by simp
  ultimately show "keeps (\<lambda>s. room N h i 0 ?n ?m s \<and> old \<le> file_size p s) (io_call env (write_file p bs))
      (\<lambda>_ s. room N h i (length bs) ?n ?m s \<and> covered i old (length bs) s) (store_ok N) (gone N h i)"
    by (intro keeps_io_call) (auto intro: room_store_ok)
qed (rule keeps_record_file_replace)

subsection \<open>Removing bundles\<close>

lemma books_without:
  assumes "books owed s" "st_bundles s = bs1 @ b # bs2"
  shows "books owed ((remove_dir (sb_id b) s)\<lparr>st_bundles := bs1 @ bs2,
      st_total_bytes := st_total_bytes s - accounted_bytes b\<rparr>)"
proof -
  have a: "accounted_bytes b = counted b" using assms by (intro accounted_counted) auto
  have d: "distinct (map fst (st_files (remove_dir (sb_id b) s)))"
    using assms(1) by (intro distinct_files) (simp add: books_def)
  have same: "disk_bytes (sb_id x) (remove_dir (sb_id b) s) = disk_bytes (sb_id x) s"
    if "x \<in> set bs1 \<union> set bs2" for x
  proof (rule disk_bytes_remove_dir)
    have "distinct (map sb_id (bs1 @ b # bs2))" using assms by (simp add: books_def)
    then have "sb_id b \<notin> sb_id ` (set bs1 \<union> set bs2)" by auto
    with that show "sb_id x \<noteq> sb_id b" by (metis imageI)
  qed
  have "\<forall>(p, _) \<in> set (st_files (remove_dir (sb_id b) s)). fst p \<le> st_next_id s"
    using assms(1) by (auto simp: books_def remove_dir_def)
  moreover have "st_next_id (remove_dir (sb_id b) s) = st_next_id s"
      "st_limits (remove_dir (sb_id b) s) = st_limits s"
    by (simp_all add: remove_dir_def)
  ultimately show ?thesis
    using assms a d same by (auto simp: books_def)
qed

lemma list_get_split:
  assumes "list_get xs idx = Some x"
  obtains xs1 xs2 where "xs = xs1 @ x # xs2" "remove_at idx xs = xs1 @ xs2"
proof
  show "xs = take idx xs @ x # drop (Suc idx) xs" "remove_at idx xs = take idx xs @ drop (Suc idx) xs"
    using assms by (auto simp: list_get_def remove_at_def id_take_nth_drop split: if_splits)
qed

lemma position_get: "position P xs = Some idx \<Longrightarrow> \<exists>x. list_get xs idx = Some x \<and> P x"
proof (induction xs arbitrary: idx)
  case (Cons x xs)
  then show ?case by (fastforce simp: list_get_def split: if_splits)
qed simp

text \<open>The removal of a bundle other than \<open>i\<close>, or of any bundle.\<close>

definition without_bundle :: "nat \<Rightarrow> output_store \<Rightarrow> output_store" where
  "without_bundle idx s =
     (remove_dir (sb_id (st_bundles s ! idx)) s)\<lparr>st_bundles := remove_at idx (st_bundles s),
       st_total_bytes := st_total_bytes s - accounted_bytes (st_bundles s ! idx)\<rparr>"

lemma keeps_remove_bundle_at:
  assumes "\<And>s. P s \<Longrightarrow> idx < length (st_bundles s)"
    "\<And>s c. P s \<Longrightarrow> Q () ((without_bundle idx s)\<lparr>st_calls := c\<rparr>)"
    "\<And>s c. P s \<Longrightarrow> E (s\<lparr>st_calls := c\<rparr>)"
  shows "keeps P (remove_bundle_at env idx) Q E K"
proof (rule keepsI)
  fix s assume P: "P s"
  from assms(1) [OF this] have "list_get (st_bundles s) idx = Some (st_bundles s ! idx)"
    by (simp add: list_get_def)
  then show "case run_state (remove_bundle_at env idx) s of
      (Done x, s') \<Rightarrow> Q x s' | (Failed err, s') \<Rightarrow> E s' | (Panicked message, s') \<Rightarrow> K s'"
    using assms(2) [OF P, of "Suc (st_calls s)"] assms(3) [OF P, of "Suc (st_calls s)"]
    by (cases s) (auto simp: remove_bundle_at_def follow_def look_def io_result_def adjust_def finish_def
        refuse_def without_bundle_def remove_dir_def split: option.splits io_error.splits)
qed

lemma books_without_bundle:
  assumes "books owed s" "idx < length (st_bundles s)"
  shows "books owed (without_bundle idx s)"
proof -
  have "list_get (st_bundles s) idx = Some (st_bundles s ! idx)"
    using assms(2) by (simp add: list_get_def)
  then obtain bs1 bs2 where "st_bundles s = bs1 @ st_bundles s ! idx # bs2"
      "remove_at idx (st_bundles s) = bs1 @ bs2"
    by (rule list_get_split)
  with books_without [OF assms(1)] show ?thesis by (simp add: without_bundle_def)
qed

lemma without_bundle_kept [simp]:
  "st_next_id (without_bundle idx s) = st_next_id s"
  "st_limits (without_bundle idx s) = st_limits s"
  by (simp_all add: without_bundle_def remove_dir_def)

lemma without_bundle_le:
  "st_total_bytes (without_bundle idx s) \<le> st_total_bytes s"
  "b \<in> set (st_bundles (without_bundle idx s)) \<Longrightarrow> b \<in> set (st_bundles s)"
  by (auto simp: without_bundle_def remove_at_def dest: in_set_takeD in_set_dropD)

lemma store_ok_without:
  assumes "store_ok N s" "idx < length (st_bundles s)"
  shows "store_ok N (without_bundle idx s)"
  using assms books_without_bundle by (auto simp: store_ok_def)

lemma own_without:
  assumes "idx < length (st_bundles s)" "sb_id (st_bundles s ! idx) \<noteq> i"
  shows "own i (without_bundle idx s) = own i s"
proof -
  have "list_get (st_bundles s) idx = Some (st_bundles s ! idx)"
    using assms(1) by (simp add: list_get_def)
  then obtain bs1 bs2 where b: "st_bundles s = bs1 @ st_bundles s ! idx # bs2"
      "remove_at idx (st_bundles s) = bs1 @ bs2"
    by (rule list_get_split)
  have f: "filter (\<lambda>((j, _), _). j = i) (filter (\<lambda>((j, _), _). j \<noteq> sb_id (st_bundles s ! idx)) fs) =
      filter (\<lambda>((j, _), _). j = i) fs" for fs :: "(file_path \<times> bytes) list"
    using assms(2) by (induction fs) auto
  have "filter (\<lambda>b. sb_id b = i) (st_bundles s) = filter (\<lambda>b. sb_id b = i) (bs1 @ bs2)"
    using b(1) assms(2) by (metis (mono_tags, lifting) filter.simps(2) filter_append)
  with b(2) f show ?thesis by (simp add: own_def without_bundle_def remove_dir_def)
qed

lemma own_bundle:
  assumes "own i s = own i s'" "find_bundle i s = r"
  shows "find_bundle i s' = r"
proof -
  have "find_bundle i t = (case fst (own i t) of [] \<Rightarrow> None | b # _ \<Rightarrow> Some b)" for t
  proof -
    have "find P bs = (case filter P bs of [] \<Rightarrow> None | b # _ \<Rightarrow> Some b)" for P and bs :: "stored_bundle list"
      by (induction bs) auto
    then show ?thesis by (simp add: find_bundle_def own_def)
  qed
  with assms show ?thesis by simp
qed

lemma room_without:
  assumes "room N h i k n m s" "idx < length (st_bundles s)" "sb_id (st_bundles s ! idx) \<noteq> i"
  shows "room N h i k n m (without_bundle idx s)"
proof -
  have "find_bundle i (without_bundle idx s) = find_bundle i s"
    using own_bundle [OF own_without [OF assms(2,3), symmetric] refl] .
  with assms(1,2) books_without_bundle [of _ s idx] without_bundle_le(1) [of idx s]
    without_bundle_le(2) [of _ idx s] show ?thesis
    by (fastforce simp: room_def)
qed

lemma keeps_prune_oldest:
  "keeps (\<lambda>s. room N h i k n m s \<and> own i s = o\<^sub>1) (prune_oldest_inactive_bundle env (Some i))
     (\<lambda>_ s. room N h i k n m s \<and> own i s = o\<^sub>1) (room N h i k n m) K"
  unfolding prune_oldest_inactive_bundle_def
proof (rule keeps_follow)
  let ?P = "\<lambda>s. room N h i k n m s \<and> own i s = o\<^sub>1"
  show "keeps ?P (look (\<lambda>s. position (\<lambda>b. Some (sb_id b) \<noteq> Some i) (st_bundles s)))
      (\<lambda>found s. ?P s \<and> found = position (\<lambda>b. Some (sb_id b) \<noteq> Some i) (st_bundles s))
      (room N h i k n m) K"
    by (rule keeps_look) simp
  show "keeps (\<lambda>s. ?P s \<and> found = position (\<lambda>b. Some (sb_id b) \<noteq> Some i) (st_bundles s))
      (case found of None \<Rightarrow> finish False
       | Some idx \<Rightarrow> follow (remove_bundle_at env idx) (\<lambda>_. finish True))
      (\<lambda>_. ?P) (room N h i k n m) K" for found
  proof (cases found)
    case None
    then show ?thesis by (auto intro: keeps_done)
  next
    case (Some idx)
    have "keeps (\<lambda>s. ?P s \<and> idx < length (st_bundles s) \<and> sb_id (st_bundles s ! idx) \<noteq> i)
        (follow (remove_bundle_at env idx) (\<lambda>_. finish True)) (\<lambda>_. ?P) (room N h i k n m) K"
      by (rule keeps_follow [where Q = "\<lambda>_. ?P"], rule keeps_remove_bundle_at)
        (auto intro: keeps_done simp: room_without own_without)
    then have "keeps (\<lambda>s. ?P s \<and> Some idx = position (\<lambda>b. Some (sb_id b) \<noteq> Some i) (st_bundles s))
        (follow (remove_bundle_at env idx) (\<lambda>_. finish True)) (\<lambda>_. ?P) (room N h i k n m) K"
      by (rule keeps_pre) (auto dest!: sym [of "Some idx"] position_get simp: list_get_def split: if_splits)
    with Some show ?thesis by simp
  qed
qed

lemma prune_until_steps:
  assumes "room N h i k n m s" "own i s = o\<^sub>1"
  shows "case prune_until_total_capacity env i needed s of
      (Done _, s') \<Rightarrow> room N h i k n m s' \<and> own i s' = o\<^sub>1 | (Failed err, s') \<Rightarrow> room N h i k n m s'
    | (Panicked message, s') \<Rightarrow> K s'"
  using assms
proof (induction env i needed s rule: prune_until_total_capacity.induct)
  case (1 env i needed s)
  obtain r s1 where r: "run_state (prune_oldest_inactive_bundle env (Some i)) s = (r, s1)" by force
  have P: "room N h i k n m s \<and> own i s = o\<^sub>1" using 1 by simp
  note after = keepsD [OF keeps_prune_oldest [where K = K] P r]
  show ?case
  proof (cases "sat_add (st_total_bytes s) needed > lim_max_total_bytes (st_limits s)")
    case True
    show ?thesis
    proof (cases r)
      case (Done more)
      with after(1) have "room N h i k n m s1" "own i s1 = o\<^sub>1" by simp_all
      with 1(1) [OF True r [unfolded Done, symmetric]] True Done r show ?thesis
        by (subst prune_until_total_capacity.simps) (auto split: bool.splits)
    qed (use True r after in \<open>subst prune_until_total_capacity.simps, simp\<close>)+
  next
    case False
    with P show ?thesis by (subst prune_until_total_capacity.simps) simp
  qed
qed

lemma keeps_prune_until:
  "keeps (\<lambda>s. room N h i k n m s \<and> own i s = o\<^sub>1) (State (prune_until_total_capacity env i needed))
     (\<lambda>_ s. room N h i k n m s \<and> own i s = o\<^sub>1) (room N h i k n m) K"
  by (rule keepsI) (simp add: prune_until_steps)

text \<open>What is granted fits into the bundle and into the store.\<close>

lemma room_grant:
  assumes "room N h i 0 0 0 s" "bundle_bytes i s = Some in_bundle"
    "n \<le> lim_max_bundle_bytes (st_limits s) - in_bundle"
  shows "room N h i 0 n 0 s"
proof -
  obtain b where b: "find_bundle i s = Some b" "in_bundle = accounted_bytes b"
    using assms(2) by (auto simp: bundle_bytes_def)
  have "counted x + n \<le> lim_max_bundle_bytes (st_limits s)"
    if bk: "books nothing_owed s" and x: "x \<in> set (st_bundles s)" "sb_id x = i" for x
  proof -
    have "counted x \<le> lim_max_bundle_bytes (st_limits s)" using bk x by (auto simp: books_def)
    with bundle_unique [OF bk b(1) x] accounted_counted [OF bk x(1)] b(2) assms(3) show ?thesis by simp
  qed
  with assms(1) show ?thesis by (simp add: room_def)
qed

lemma keeps_prepare_append_capacity:
  "keeps (\<lambda>s. room N h i 0 0 0 s \<and> own i s = o\<^sub>1) (prepare_append_capacity env i requested)
     (\<lambda>granted s. room N h i 0 granted granted s \<and> own i s = o\<^sub>1 \<and> granted \<le> requested)
     (store_ok N) (gone N h i)"
  unfolding prepare_append_capacity_def
proof (rule keeps_follow)
  let ?P = "\<lambda>s. room N h i 0 0 0 s \<and> own i s = o\<^sub>1"
  show "keeps ?P (look (\<lambda>s. (bundle_bytes i s, st_limits s)))
      (\<lambda>x s. ?P s \<and> x = (bundle_bytes i s, st_limits s)) (store_ok N) (gone N h i)"
    by (rule keeps_look) simp
  show "keeps (\<lambda>s. ?P s \<and> x = (bundle_bytes i s, st_limits s))
      (case x of (found, limits) \<Rightarrow>
         (case found of
            None \<Rightarrow> panic ''bundle metadata should exist for append''
          | Some in_bundle \<Rightarrow>
              (let target = min requested (lim_max_bundle_bytes limits - in_bundle)
               in follow (State (prune_until_total_capacity env i target)) (\<lambda>_.
                    look (\<lambda>s. min target (lim_max_total_bytes limits - st_total_bytes s))))))
      (\<lambda>granted s. room N h i 0 granted granted s \<and> own i s = o\<^sub>1 \<and> granted \<le> requested)
      (store_ok N) (gone N h i)" for x
  proof (cases x)
    case (Pair found limits)
    show ?thesis
    proof (cases found)
      case None
      with Pair show ?thesis
        by (auto intro!: keeps_panic room_gone simp: bundle_bytes_def)
    next
      case (Some in_bundle)
      let ?t = "min requested (lim_max_bundle_bytes limits - in_bundle)"
      have "keeps (\<lambda>s. (room N h i 0 ?t 0 s \<and> own i s = o\<^sub>1) \<and> limits = snd (snd o\<^sub>1))
          (follow (State (prune_until_total_capacity env i ?t))
             (\<lambda>_. look (\<lambda>s. min ?t (lim_max_total_bytes limits - st_total_bytes s))))
          (\<lambda>granted s. room N h i 0 granted granted s \<and> own i s = o\<^sub>1 \<and> granted \<le> requested)
          (store_ok N) (gone N h i)"
      proof (rule keeps_premise, rule keeps_follow)
        show "keeps (\<lambda>s. room N h i 0 ?t 0 s \<and> own i s = o\<^sub>1) (State (prune_until_total_capacity env i ?t))
            (\<lambda>_ s. room N h i 0 ?t 0 s \<and> own i s = o\<^sub>1) (store_ok N) (gone N h i)"
          by (rule keeps_exits [OF keeps_prune_until]) (auto intro: room_store_ok)
        show "keeps (\<lambda>s. room N h i 0 ?t 0 s \<and> own i s = o\<^sub>1)
            (look (\<lambda>s. min ?t (lim_max_total_bytes limits - st_total_bytes s)))
            (\<lambda>granted s. room N h i 0 granted granted s \<and> own i s = o\<^sub>1 \<and> granted \<le> requested)
            (store_ok N) (gone N h i)" if "limits = snd (snd o\<^sub>1)"
          using that by (intro keeps_look) (fastforce simp: room_def own_def)
      qed
      then have "keeps (\<lambda>s. ?P s \<and> x = (bundle_bytes i s, st_limits s))
          (follow (State (prune_until_total_capacity env i ?t))
             (\<lambda>_. look (\<lambda>s. min ?t (lim_max_total_bytes limits - st_total_bytes s))))
          (\<lambda>granted s. room N h i 0 granted granted s \<and> own i s = o\<^sub>1 \<and> granted \<le> requested)
          (store_ok N) (gone N h i)"
        by (rule keeps_pre) (use Pair Some in \<open>auto intro!: room_grant [where in_bundle = in_bundle] simp: own_def\<close>)
      with Pair Some show ?thesis by (simp add: Let_def)
    qed
  qed
qed

section \<open>Appending to a bundle\<close>

text \<open>The operations on a bundle with number \<open>i\<close>: they keep the counters right and return the bundle.\<close>

abbreviation ready :: "nat \<Rightarrow> bool \<Rightarrow> nat \<Rightarrow> output_store \<Rightarrow> bool" where
  "ready N h i \<equiv> room N h i 0 0 0"

lemma room_ready: "room N h i 0 n m s \<Longrightarrow> ready N h i s"
  by (erule room_less) simp_all

lemma own_reserved:
  assumes "reserved_events_log_bytes i s = Some r"
  shows "reserved_at_least i r s"
  using assms by (auto simp: reserved_events_log_bytes_def reserved_at_least_def)

lemma own_reserved_at_least:
  assumes "own i s = own i s'" "reserved_at_least i r s"
  shows "reserved_at_least i r s'"
  using assms own_bundle [OF assms(1) refl] by (simp add: reserved_at_least_def)

lemma reserved_at_least_simps [simp]:
  "reserved_at_least i r (s\<lparr>st_calls := c\<rparr>) = reserved_at_least i r s"
  "reserved_at_least i r (write_file p bs s) = reserved_at_least i r s"
  by (simp_all add: reserved_at_least_def)

lemma reserved_at_least_0 [simp]: "reserved_at_least i 0 s"
  by (simp add: reserved_at_least_def)

lemma keeps_write_empty:
  assumes "fst p = i"
  shows "keeps (\<lambda>s. room N h i 0 n m s \<and> reserved_at_least i r s) (io_call env (write_file p []))
     (\<lambda>_ s. room N h i 0 n m s \<and> reserved_at_least i r s) (store_ok N) K"
  using room_write [of N h p 0 n m _ "[]" 0] assms
  by (intro keeps_io_call) (auto intro: room_store_ok)

lemma keeps_ensure_transcript:
  assumes "ab_id a = i"
  shows "keeps (room N h i 0 n m) (ensure_transcript env a) (\<lambda>_. room N h i 0 n m) (store_ok N) K"
  unfolding ensure_transcript_def
proof (rule keeps_follow [OF keeps_look], assumption, rule keeps_cond)
  show "keeps (room N h i 0 n m) (io_call env (write_file (transcript_path a) []))
      (\<lambda>_. room N h i 0 n m) (store_ok N) K"
    using keeps_write_empty [of "transcript_path a" i N h n m 0 env K] assms
    by (simp add: transcript_path_def)
qed (rule keeps_done)

lemma keeps_ensure_images_dir:
  "keeps (room N h i 0 n m) (ensure_images_dir env a) (\<lambda>_. room N h i 0 n m) (store_ok N) K"
  unfolding ensure_images_dir_def
  by (rule keeps_follow [OF keeps_look], assumption, rule keeps_cond, rule keeps_done, assumption,
      rule keeps_io_call) (auto intro: room_store_ok)

text \<open>A grant that covers what is to be written.\<close>

lemma keeps_prepare:
  "keeps (ready N h i) (prepare_append_capacity env i requested)
     (\<lambda>granted s. room N h i 0 granted granted s \<and> granted \<le> requested) (store_ok N) (gone N h i)"
  by (rule keeps_fixed [where v = "own i" and C = "\<lambda>_. True"],
      rule keeps_post [OF keeps_prepare_append_capacity]) auto

lemma keeps_prepare_reserved:
  "keeps (\<lambda>s. ready N h i s \<and> reserved_at_least i r s) (prepare_append_capacity env i requested)
     (\<lambda>granted s. room N h i 0 granted granted s \<and> reserved_at_least i r s)
     (store_ok N) (gone N h i)"
proof (rule keepsI)
  fix s assume s: "ready N h i s \<and> reserved_at_least i r s"
  then have P: "ready N h i s \<and> own i s = own i s" by simp
  obtain x s' where x: "run_state (prepare_append_capacity env i requested) s = (x, s')" by force
  note after = keepsD [OF keeps_prepare_append_capacity P x]
  from after s x show "case run_state (prepare_append_capacity env i requested) s of
      (Done granted, s') \<Rightarrow> room N h i 0 granted granted s' \<and> reserved_at_least i r s'
    | (Failed err, s') \<Rightarrow> store_ok N s' | (Panicked message, s') \<Rightarrow> gone N h i s'"
    by (cases x) (auto intro: own_reserved_at_least)
qed

lemma keeps_materialize_events_log:
  assumes "ab_id a = i"
  shows "keeps (ready N h i) (materialize_events_log env a) (\<lambda>a' s. ready N h i s \<and> ab_id a' = i)
     (store_ok N) (gone N h i)"
  unfolding materialize_events_log_def Let_def
proof (rule keeps_follow [OF keeps_look], assumption, rule keeps_cond)
  let ?bs = "events_log_start env a"
  let ?writing = "\<lambda>reserved. follow (prepare_append_capacity env (ab_id a) (length ?bs - reserved)) (\<lambda>granted.
      if granted < length ?bs - reserved
      then refuse (ProtocolError ''output bundle could not materialize events.log within quota'')
      else
        follow (io_call env (write_file (events_log_path a) [])) (\<lambda>_.
          follow (append_events_log_bytes env (ab_id a) (events_log_path a) ?bs) (\<lambda>_.
            finish ((if ab_omitted_tail a then a\<lparr>ab_omission_recorded := True\<rparr> else a)
              \<lparr>ab_pre_index_image_paths := []\<rparr>))))"
  have p: "fst (events_log_path a) = i" using assms by (simp add: events_log_path_def)
  have body: "keeps (\<lambda>s. ready N h i s \<and> reserved_at_least i r s) (?writing r)
      (\<lambda>a' s. ready N h i s \<and> ab_id a' = i) (store_ok N) (gone N h i)" for r
    unfolding assms
  proof (rule keeps_follow [OF keeps_prepare_reserved], rule keeps_cond)
    fix granted
    show "keeps (\<lambda>s. room N h i 0 granted granted s \<and> reserved_at_least i r s)
        (refuse (ProtocolError ''output bundle could not materialize events.log within quota''))
        (\<lambda>a' s. ready N h i s \<and> ab_id a' = i) (store_ok N) (gone N h i)"
      by (rule keeps_refuse) (auto intro: room_store_ok)
    assume g: "\<not> granted < length ?bs - r"
    show "keeps (\<lambda>s. room N h i 0 granted granted s \<and> reserved_at_least i r s)
        (follow (io_call env (write_file (events_log_path a) [])) (\<lambda>_.
          follow (append_events_log_bytes env i (events_log_path a) ?bs) (\<lambda>_.
            finish ((if ab_omitted_tail a then a\<lparr>ab_omission_recorded := True\<rparr> else a)
              \<lparr>ab_pre_index_image_paths := []\<rparr>))))
        (\<lambda>a' s. ready N h i s \<and> ab_id a' = i) (store_ok N) (gone N h i)"
    proof (rule keeps_follow [OF keeps_write_empty [OF p]], rule keeps_follow)
      show "keeps (\<lambda>s. room N h i 0 granted granted s \<and> reserved_at_least i r s)
          (append_events_log_bytes env i (events_log_path a) ?bs) (\<lambda>_. ready N h i)
          (store_ok N) (gone N h i)"
        using keeps_append_events_log_bytes [OF p, of N h 0 ?bs r 0 env] g
        by (elim keeps_pre) (auto elim: room_less)
      show "keeps (ready N h i) (finish ((if ab_omitted_tail a then a\<lparr>ab_omission_recorded := True\<rparr> else a)
              \<lparr>ab_pre_index_image_paths := []\<rparr>)) (\<lambda>a' s. ready N h i s \<and> ab_id a' = i)
          (store_ok N) (gone N h i)"
        using assms by (intro keeps_done) simp
    qed
  qed
  show "keeps (ready N h i)
      (follow (look (reserved_events_log_bytes (ab_id a))) (\<lambda>found.
         case found of
           None \<Rightarrow> panic ''bundle metadata should exist for events.log reservation tracking''
         | Some reserved \<Rightarrow> ?writing reserved))
      (\<lambda>a' s. ready N h i s \<and> ab_id a' = i) (store_ok N) (gone N h i)"
  proof (rule keeps_follow)
    show "keeps (ready N h i) (look (reserved_events_log_bytes (ab_id a)))
        (\<lambda>found s. ready N h i s \<and> found = reserved_events_log_bytes i s) (store_ok N) (gone N h i)"
      using assms by (intro keeps_look) simp
    show "keeps (\<lambda>s. ready N h i s \<and> found = reserved_events_log_bytes i s)
        (case found of
           None \<Rightarrow> panic ''bundle metadata should exist for events.log reservation tracking''
         | Some reserved \<Rightarrow> ?writing reserved)
        (\<lambda>a' s. ready N h i s \<and> ab_id a' = i) (store_ok N) (gone N h i)" for found
    proof (cases found)
      case None
      then show ?thesis
        by (auto intro!: keeps_panic room_gone simp: reserved_events_log_bytes_def)
    next
      case (Some r)
      show ?thesis
        unfolding Some option.case by (rule keeps_pre [OF body [of r]]) (auto intro: own_reserved sym)
    qed
  qed
qed (use assms in \<open>auto intro: keeps_done\<close>)

lemma keeps_append_events_log_text:
  assumes "ab_id a = i"
  shows "keeps (ready N h i) (append_events_log_text env a txt) (\<lambda>_. ready N h i) (store_ok N) (gone N h i)"
  unfolding append_events_log_text_def Let_def assms
proof (rule keeps_cond, rule keeps_done, assumption, rule keeps_follow [OF keeps_prepare], rule keeps_cond)
  fix granted let ?line = "build_events_log_server_line env txt"
  show "keeps (\<lambda>s. room N h i 0 granted granted s \<and> granted \<le> length ?line) (finish False)
      (\<lambda>_. ready N h i) (store_ok N) (gone N h i)"
    by (rule keeps_done) (auto intro: room_ready)
  assume g: "\<not> granted < length ?line"
  have p: "fst (events_log_path a) = i" using assms by (simp add: events_log_path_def)
  show "keeps (\<lambda>s. room N h i 0 granted granted s \<and> granted \<le> length ?line)
      (follow (append_events_log_bytes env i (events_log_path a) ?line) (\<lambda>_. finish True))
      (\<lambda>_. ready N h i) (store_ok N) (gone N h i)"
  proof (rule keeps_follow)
    show "keeps (\<lambda>s. room N h i 0 granted granted s \<and> granted \<le> length ?line)
        (append_events_log_bytes env i (events_log_path a) ?line) (\<lambda>_. ready N h i) (store_ok N) (gone N h i)"
      using g by (intro keeps_pre [OF keeps_append_events_log_bytes [OF p, of N h 0 ?line 0 0]])
        (auto elim: room_less)
  qed (rule keeps_done)
qed

lemma keeps_apply_omission:
  assumes "ab_id a = i"
  shows "keeps (ready N h i) (apply_omission env a v) (\<lambda>a' s. ready N h i s \<and> ab_id a' = i)
     (store_ok N) (gone N h i)"
  unfolding apply_omission_def Let_def
  using assms
  by (intro keeps_follow [OF keeps_look [where Q = "\<lambda>_. ready N h i"]] keeps_cond keeps_done
      keeps_follow [OF keeps_append_events_log_text]) auto

lemma fit_text_fits:
  assumes "fit_text a txt granted after omission retained = Some fit" "granted < u64_max"
  shows "length (tf_retained fit) + length (tf_row fit) \<le> granted"
  using assms(1)
proof (induction "length retained" arbitrary: retained rule: less_induct)
  case less
  obtain start_line end_line lines_after open_line where span:
    "append_text_line_span retained (ab_transcript_lines a) (ab_transcript_has_partial_line a) =
      (start_line, end_line, lines_after, open_line)"
    using prod_cases4 by blast
  define row where "row = ''T lines='' @ dec start_line @ ''-'' @ dec end_line @ '' bytes='' @
      dec (ab_transcript_bytes a) @ ''-'' @ dec (sat_add (ab_transcript_bytes a) (length retained)) @ nl"
  define reserve where "reserve = (if length retained < length txt then after else after - omission)"
  define shorter where
    "shorter = truncate_utf8_prefix retained (granted - sat_add (length row) reserve)"
  have eq: "fit_text a txt granted after omission retained =
      (if sat_add (sat_add (length retained) (length row)) reserve \<le> granted
       then Some \<lparr>tf_retained = retained, tf_row = row, tf_lines = lines_after, tf_partial = open_line\<rparr>
       else if shorter = [] \<or> length shorter = length retained then None
       else fit_text a txt granted after omission shorter)"
    by (subst fit_text.simps) (simp add: span row_def reserve_def shorter_def Let_def)
  have "length shorter \<le> length retained" by (simp add: shorter_def truncate_length_le)
  with less(2) less(1) [of shorter] eq assms(2) show ?case by (auto simp: sat_add_def split: if_splits)
qed

text \<open>A text and its row in the index.\<close>

lemma room_fit:
  assumes "room N h i 0 granted granted s" "granted < u64_max \<Longrightarrow> n + m \<le> granted"
  shows "room N h i 0 (n + m) (n + m) s"
proof (cases "st_next_id s < u64_max")
  case True
  with assms(1) have "granted < u64_max" by (auto simp: room_def books_def)
  with assms show ?thesis by (auto elim: room_less)
next
  case False
  with assms(1) show ?thesis by (simp add: room_def)
qed

lemma keeps_write_fitted_text:
  assumes a: "ab_id a = i"
    and fit: "granted < u64_max \<Longrightarrow> length (tf_retained fit) + length (tf_row fit) \<le> granted"
  shows "keeps (room N h i 0 granted granted) (write_fitted_text env a there stream visibility fit)
     (\<lambda>r s. ready N h i s \<and> ab_id (fst r) = i) (store_ok N) (gone N h i)"
  unfolding write_fitted_text_def a
proof (rule keeps_follow)
  let ?row = "tf_row fit"
  have p: "fst (events_log_path a) = i" "fst (transcript_path a) = i"
    using a by (simp_all add: events_log_path_def transcript_path_def)
  show "keeps (room N h i 0 granted granted) (append_bundle_bytes env i (transcript_path a) (tf_retained fit))
      (\<lambda>_. room N h i 0 (length ?row) (length ?row)) (store_ok N) (gone N h i)"
    by (rule keeps_pre [OF keeps_append_bundle_bytes [OF p(2)]])
      (use fit in \<open>auto dest: room_fit simp: add.commute\<close>)
  show "keeps (room N h i 0 (length ?row) (length ?row))
      (follow (if there then append_events_log_bytes env i (events_log_path a) ?row else finish ())
        (\<lambda>_. finish
           (a\<lparr>ab_transcript_bytes := sat_add (ab_transcript_bytes a) (length (tf_retained fit)),
              ab_transcript_lines := tf_lines fit, ab_transcript_has_partial_line := tf_partial fit\<rparr>,
            Some (WorkerText (tf_retained fit) stream visibility))))
      (\<lambda>r s. ready N h i s \<and> ab_id (fst r) = i) (store_ok N) (gone N h i)"
  proof (rule keeps_follow [where Q = "\<lambda>_. ready N h i"], rule keeps_cond)
    show "keeps (room N h i 0 (length ?row) (length ?row)) (append_events_log_bytes env i (events_log_path a) ?row)
        (\<lambda>_. ready N h i) (store_ok N) (gone N h i)"
      by (rule keeps_pre [OF keeps_append_events_log_bytes [OF p(1), of N h 0 ?row 0 0]]) simp
  qed (use a in \<open>auto intro: keeps_done room_ready\<close>)
qed

lemma keeps_write_granted_text:
  assumes a: "ab_id a = i"
  shows "keeps (room N h i 0 granted granted)
     (write_granted_text env a there txt stream visibility reserved omission granted)
     (\<lambda>r s. ready N h i s \<and> ab_id (fst r) = i) (store_ok N) (gone N h i)"
proof (cases "fit_text a txt granted reserved omission (truncate_utf8_prefix txt granted)")
  case None
  then show ?thesis using a by (auto simp: write_granted_text_def intro!: keeps_done room_ready)
next
  case (Some fit)
  have fits: "length (tf_retained fit) + length (tf_row fit) \<le> granted" if "granted < u64_max"
    by (rule fit_text_fits [OF Some that])
  show ?thesis
    unfolding write_granted_text_def Some option.case
    by (rule keeps_cond, rule keeps_done, use a in \<open>force intro: room_ready\<close>)
      (rule keeps_write_fitted_text [OF a fits])
qed

lemma keeps_append_transcript_text:
  assumes a: "ab_id a = i"
  shows "keeps (ready N h i) (append_transcript_text env a txt stream visibility after)
     (\<lambda>r s. ready N h i s \<and> ab_id (fst r) = i) (store_ok N) (gone N h i)"
  unfolding append_transcript_text_def Let_def a
  by (rule keeps_follow [OF keeps_ensure_transcript [OF a]],
      rule keeps_follow [OF keeps_look [where Q = "\<lambda>_. ready N h i"]], assumption,
      rule keeps_follow [OF keeps_prepare], rule keeps_pre [OF keeps_write_granted_text [OF a]]) simp

lemma keeps_index:
  assumes a: "ab_id a = i"
  shows "keeps (ready N h i) (if c then materialize_events_log env a else finish a)
     (\<lambda>a1 s. ready N h i s \<and> ab_id a1 = i) (store_ok N) (gone N h i)"
  by (rule keeps_cond, rule keeps_materialize_events_log) (use a in \<open>auto intro: keeps_done\<close>)

lemma keeps_append_worker_text:
  assumes a: "ab_id a = i"
  shows "keeps (ready N h i) (append_worker_text_with_visibility env a txt stream visibility after)
     (\<lambda>r s. ready N h i s \<and> ab_id (fst r) = i) (store_ok N) (gone N h i)"
  unfolding append_worker_text_with_visibility_def
proof (rule keeps_cond)
  show "keeps (ready N h i) (finish (a, None)) (\<lambda>r s. ready N h i s \<and> ab_id (fst r) = i) (store_ok N) (gone N h i)"
    using a by (auto intro: keeps_done)
qed (rule keeps_follow [OF keeps_look [where Q = "\<lambda>_. ready N h i"]], assumption,
    rule keeps_follow [OF keeps_index [OF a]],
    rule keeps_premise, rule keeps_append_transcript_text)

subsection \<open>Images\<close>

lemma file_size_write_other: "q \<noteq> p \<Longrightarrow> file_size q (write_file p bs s) = file_size q s"
proof -
  assume "q \<noteq> p"
  then have "map_of (filter (\<lambda>(q, _). q \<noteq> p) fs) q = map_of fs q" for fs :: "(file_path \<times> bytes) list"
    by (induction fs) auto
  with \<open>q \<noteq> p\<close> show ?thesis by (simp add: file_size_def write_file_def)
qed

text \<open>The versions of an image lie beside its current file, under other names.\<close>

lemma padded_Cons: "\<exists>b r. padded k n = b # r \<and> is_digit b"
  using dec_Cons [of n] by (cases "k - length (dec n)") (auto simp: padded_def is_digit_def)

lemma history_not_alias: "history_rel_path a img \<noteq> ''images/'' @ padded 3 n @ r"
proof -
  obtain b r' where p: "padded 3 n = b # r'" "is_digit b" using padded_Cons by blast
  then have "b \<noteq> CHR ''h''" by (auto simp: is_digit_def)
  with p show ?thesis by (simp add: history_rel_path_def split: prod.splits)
qed

definition alias_name :: "nat \<Rightarrow> file_path \<Rightarrow> bool" where
  "alias_name i p \<longleftrightarrow> fst p = i \<and> (\<exists>n r. snd p = ''images/'' @ padded 3 n @ r)"

definition alias_known :: "nat \<Rightarrow> file_path option \<Rightarrow> nat \<Rightarrow> output_store \<Rightarrow> bool" where
  "alias_known i cur l s \<longleftrightarrow>
     (case cur of
        None \<Rightarrow> l = 0
      | Some p \<Rightarrow> alias_name i p \<and> l \<le> file_size p s)"

lemma file_size_own: "fst p = i \<Longrightarrow> own i s = own i s' \<Longrightarrow> file_size p s = file_size p s'"
proof -
  assume i: "fst p = i" and o: "own i s = own i s'"
  have "map_of (filter (\<lambda>((j, _), _). j = i) fs) p = map_of fs p" for fs :: "(file_path \<times> bytes) list"
    using i by (induction fs) auto
  with o show ?thesis by (metis (no_types, lifting) file_size_def fst_conv own_def snd_conv)
qed

lemma alias_name_id: "alias_name i p \<Longrightarrow> fst p = i"
  by (simp add: alias_name_def)

lemma alias_not_history: "alias_name i p \<Longrightarrow> p \<noteq> (j, history_rel_path a img)"
  using history_not_alias [of a img] by (auto simp: alias_name_def)

lemma alias_known_own: "own i s = own i s' \<Longrightarrow> alias_known i cur l s \<Longrightarrow> alias_known i cur l s'"
  using file_size_own [of "the cur" i s s'] alias_name_id [of i "the cur"]
  by (cases cur) (simp_all add: alias_known_def)

lemma alias_known_simps [simp]:
  "alias_known i cur l (s\<lparr>st_calls := c\<rparr>) = alias_known i cur l s"
  "alias_known i cur l (make_dir p s) = alias_known i cur l s"
  by (auto simp: alias_known_def file_size_def make_dir_def split: option.splits)

lemma alias_known_history:
  "alias_known i cur l s \<Longrightarrow> alias_known i cur l (write_file (i, history_rel_path a img) bs s)"
  using file_size_write_other [of "the cur" "(i, history_rel_path a img)" bs s]
    alias_not_history [of i "the cur" i a img]
  by (cases cur) (simp_all add: alias_known_def)

lemma alias_known_files: "st_files s = st_files s' \<Longrightarrow> alias_known i cur l s = alias_known i cur l s'"
  by (simp add: alias_known_def file_size_def split: option.split)

lemma keeps_frame:
  assumes "keeps P f Q E K" "\<And>s. st_files (snd (run_state f s)) = st_files s"
  shows "keeps (\<lambda>s. P s \<and> alias_known i cur l s) f (\<lambda>x s. Q x s \<and> alias_known i cur l s) E K"
proof (rule keepsI)
  fix s assume s: "P s \<and> alias_known i cur l s"
  obtain r s' where r: "run_state f s = (r, s')" by force
  with assms(2) [of s] have "alias_known i cur l s'" using s alias_known_files [of s' s] by simp
  with keepsD [OF assms(1) _ r] s r show "case run_state f s of
      (Done x, s') \<Rightarrow> Q x s' \<and> alias_known i cur l s' | (Failed err, s') \<Rightarrow> E s'
    | (Panicked message, s') \<Rightarrow> K s'"
    by (cases r) auto
qed

lemma record_append_files: "st_files (snd (run_state (record_append i l) s)) = st_files s"
  by (simp add: record_append_def with_bundle_def finish_def split: option.splits)

lemma keeps_alias_size:
  assumes "case cur of None \<Rightarrow> True | Some p \<Rightarrow> alias_name i p"
  shows "keeps (ready N h i) (alias_size env cur) (\<lambda>l s. ready N h i s \<and> alias_known i cur l s) E K"
proof (cases cur)
  case None
  then show ?thesis by (auto simp: alias_size_def alias_known_def intro: keeps_done)
next
  case (Some p)
  with assms show ?thesis
    unfolding alias_size_def Some option.case
    by (intro keeps_follow [where Q = "\<lambda>_. ready N h i"] keeps_attempt keeps_io_call)
      (auto simp: alias_known_def intro!: keeps_look keeps_done split: sum.split)
qed

lemma keeps_replace_image_alias:
  assumes "fst p = i"
  shows "keeps (\<lambda>s. room N h i 0 (n + (length bs - l)) (n + (length bs - l)) s \<and> alias_known i cur l s)
     (replace_image_alias env i p bs cur l) (\<lambda>_. room N h i 0 n n) (store_ok N) (gone N h i)"
    (is "keeps (\<lambda>s. room N h i 0 ?n ?n s \<and> _) _ _ _ _")
  unfolding replace_image_alias_def
proof (rule keeps_follow)
  let ?old = "if cur = Some p then l else 0"
  show "keeps (\<lambda>s. room N h i 0 ?n ?n s \<and> alias_known i cur l s)
      (case cur of
         Some old \<Rightarrow>
           if old \<noteq> p then follow (io_call env (remove_file old)) (\<lambda>_. record_file_removal i l) else finish ()
       | None \<Rightarrow> finish ())
      (\<lambda>_ s. room N h i 0 (n + (length bs - ?old)) (n + (length bs - ?old)) s \<and> ?old \<le> file_size p s)
      (store_ok N) (gone N h i)"
  proof (cases "cur = None \<or> cur = Some p")
    case True
    then show ?thesis
      by (auto intro!: keeps_done simp: alias_known_def)
  next
    case False
    then obtain old where old: "cur = Some old" "old \<noteq> p" by auto
    show ?thesis
    proof (cases "fst old = i")
      case True
      show ?thesis
        by (simp add: old, rule keeps_conseq [OF keeps_remove_file [OF True, where l = l and n = ?n and m = ?n]])
          (auto simp: alias_known_def old elim!: room_less)
    next
      case False
      then show ?thesis by (simp add: alias_known_def alias_name_def old keeps_def)
    qed
  qed
qed (rule keeps_replace_file [OF assms])

lemma keeps_write_image:
  assumes a: "ab_id a = i"
  shows "keeps (\<lambda>s. room N h i 0 (n + length bs + (length bs - l)) (n + length bs + (length bs - l)) s \<and>
       alias_known i cur l s)
     (write_image env a img bs cur l) (\<lambda>_. room N h i 0 n n) (store_ok N) (gone N h i)"
    (is "keeps (\<lambda>s. room N h i 0 ?n ?n s \<and> _) _ _ _ _")
  unfolding write_image_def Let_def a
proof (rule keeps_follow [where Q = "\<lambda>_ s. room N h i 0 ?n ?n s \<and> alias_known i cur l s"])
  let ?h = "(i, history_rel_path a img)" and ?m = "n + (length bs - l)"
  show "keeps (\<lambda>s. room N h i 0 ?n ?n s \<and> alias_known i cur l s) (io_call env (make_dir ?h))
      (\<lambda>_ s. room N h i 0 ?n ?n s \<and> alias_known i cur l s) (store_ok N) (gone N h i)"
    by (rule keeps_io_call) (auto intro: room_store_ok)
  have p: "fst (alias_path a img) = i" using a by (simp add: alias_path_def)
  show "keeps (\<lambda>s. room N h i 0 ?n ?n s \<and> alias_known i cur l s)
      (follow (io_call env (write_file ?h bs)) (\<lambda>_. follow (record_append i (length bs)) (\<lambda>_.
         replace_image_alias env i (alias_path a img) bs cur l)))
      (\<lambda>_. room N h i 0 n n) (store_ok N) (gone N h i)"
  proof (rule keeps_follow [where Q = "\<lambda>_ s. room N h i (length bs) ?n ?n s \<and> alias_known i cur l s"])
    show "keeps (\<lambda>s. room N h i 0 ?n ?n s \<and> alias_known i cur l s) (io_call env (write_file ?h bs))
        (\<lambda>_ s. room N h i (length bs) ?n ?n s \<and> alias_known i cur l s) (store_ok N) (gone N h i)"
      using room_write [of N h ?h 0 ?n ?n _ bs "length bs"]
      by (intro keeps_io_call) (auto intro: room_store_ok alias_known_history)
    have "keeps (\<lambda>s. room N h i (length bs) ?n ?n s \<and> alias_known i cur l s) (record_append i (length bs))
        (\<lambda>_ s. room N h i 0 ?m ?m s \<and> alias_known i cur l s) (store_ok N) (gone N h i)"
      using keeps_record_append [of N h i "length bs" ?m "length bs" ?m "store_ok N"]
      by (intro keeps_frame record_append_files) (simp add: ac_simps)
    then show "keeps (\<lambda>s. room N h i (length bs) ?n ?n s \<and> alias_known i cur l s)
        (follow (record_append i (length bs)) (\<lambda>_. replace_image_alias env i (alias_path a img) bs cur l))
        (\<lambda>_. room N h i 0 n n) (store_ok N) (gone N h i)"
      by (rule keeps_follow) (rule keeps_replace_image_alias [OF p])
  qed
qed

lemma find_mem: "find P xs = Some x \<Longrightarrow> x \<in> set xs"
  by (induction xs) (auto split: if_splits)

lemma existing_alias_name:
  assumes "ab_id a = i"
  shows "case existing_image_alias_path a n s of None \<Rightarrow> True | Some p \<Rightarrow> alias_name i p"
proof (cases "existing_image_alias_path a n s")
  case (Some p)
  then have "p \<in> set (map (\<lambda>extension. (ab_id a, ''images/'' @ padded 3 n @ ''.'' @ extension))
      [''png'', ''jpg'', ''jpeg'', ''gif'', ''webp'', ''svg''])"
    unfolding existing_image_alias_path_def by (rule find_mem)
  then have "fst p = i" "\<exists>extension. snd p = ''images/'' @ padded 3 n @ ''.'' @ extension"
    using assms by (force, auto)
  then have "alias_name i p" unfolding alias_name_def by blast
  with Some show ?thesis by simp
qed simp

lemma keeps_index_image:
  assumes a: "ab_id a = i"
  shows "keeps (room N h i 0 (image_row_bytes a img there) (image_row_bytes a img there))
     (index_image env a img there) (\<lambda>a2 s. ready N h i s \<and> ab_id a2 = i) (store_ok N) (gone N h i)"
  unfolding index_image_def a
proof (rule keeps_cond)
  let ?n = "image_row_bytes a img there" and ?row = "image_row a img"
  have p: "fst (events_log_path a) = i" using a by (simp add: events_log_path_def)
  have "keeps (room N h i 0 ?n ?n) (append_events_log_bytes env i (events_log_path a) ?row)
      (\<lambda>_. ready N h i) (store_ok N) (gone N h i)"
    by (rule keeps_pre [OF keeps_append_events_log_bytes [OF p, of N h 0 ?row 0 0]])
      (auto simp: image_row_bytes_def elim: room_less)
  then show "keeps (room N h i 0 ?n ?n)
      (follow (append_events_log_bytes env i (events_log_path a) ?row) (\<lambda>_. finish a))
      (\<lambda>a2 s. ready N h i s \<and> ab_id a2 = i) (store_ok N) (gone N h i)"
    by (rule keeps_follow) (use a in \<open>auto intro: keeps_done\<close>)
  have "keeps (room N h i 0 ?n ?n) (reserve_events_log_bytes i ?n) (\<lambda>_. ready N h i) (store_ok N) (gone N h i)"
    using keeps_reserve [of N h i 0 0 ?n 0] by simp
  then show "keeps (room N h i 0 ?n ?n)
      (follow (reserve_events_log_bytes i ?n) (\<lambda>_.
         finish (a\<lparr>ab_pre_index_image_paths := ab_pre_index_image_paths a @ [history_rel_path a img]\<rparr>)))
      (\<lambda>a2 s. ready N h i s \<and> ab_id a2 = i) (store_ok N) (gone N h i)"
    by (rule keeps_follow) (use a in \<open>auto intro: keeps_done\<close>)
qed

lemma keeps_prepare_alias:
  "keeps (\<lambda>s. ready N h i s \<and> alias_known i cur l s) (prepare_append_capacity env i requested)
     (\<lambda>granted s. room N h i 0 granted granted s \<and> alias_known i cur l s) (store_ok N) (gone N h i)"
proof (rule keepsI)
  fix s assume s: "ready N h i s \<and> alias_known i cur l s"
  then have P: "ready N h i s \<and> own i s = own i s" by simp
  obtain x s' where x: "run_state (prepare_append_capacity env i requested) s = (x, s')" by force
  note after = keepsD [OF keeps_prepare_append_capacity P x]
  from after s x show "case run_state (prepare_append_capacity env i requested) s of
      (Done granted, s') \<Rightarrow> room N h i 0 granted granted s' \<and> alias_known i cur l s'
    | (Failed err, s') \<Rightarrow> store_ok N s' | (Panicked message, s') \<Rightarrow> gone N h i s'"
    by (cases x) (auto intro: alias_known_own [OF sym])
qed

lemma image_noted_id [simp]: "ab_id (image_noted a img) = ab_id a"
  by (simp add: image_noted_def split: prod.split)

lemma keeps_append_decoded_image:
  assumes a: "ab_id a = i"
  shows "keeps (ready N h i) (append_decoded_image env a img bs)
     (\<lambda>r s. ready N h i s \<and> ab_id (fst r) = i) (store_ok N) (gone N h i)"
  unfolding append_decoded_image_def Let_def a
proof (rule keeps_follow)
  let ?Q = "\<lambda>(r :: active_output_bundle \<times> reply_item option) s. ready N h i s \<and> ab_id (fst r) = i"
  let ?named = "\<lambda>cur. case cur of None \<Rightarrow> True | Some p \<Rightarrow> alias_name i p"
  show "keeps (ready N h i) (look (existing_image_alias_path a (fst (image_numbers a img))))
      (\<lambda>cur s. ready N h i s \<and> ?named cur) (store_ok N) (gone N h i)"
    by (rule keeps_look) (simp add: existing_alias_name [OF a])
  show "keeps (\<lambda>s. ready N h i s \<and> ?named cur)
     (follow (alias_size env cur) (\<lambda>l. follow (look (has_events_log a)) (\<lambda>there.
        follow (prepare_append_capacity env i (length bs + (length bs - l) + image_row_bytes a img there)) (\<lambda>granted.
          if granted < length bs + (length bs - l) + image_row_bytes a img there then finish (a, None)
          else follow (write_image env a img bs cur l) (\<lambda>_. follow (index_image env a img there) (\<lambda>a2.
                 finish (image_noted a2 img, Some (ReplyImage img))))))))
     ?Q (store_ok N) (gone N h i)" for cur
  proof (rule keeps_premise, rule keeps_follow [OF keeps_alias_size], assumption,
      rule keeps_follow [OF keeps_look [where Q = "\<lambda>_ s. ready N h i s \<and> alias_known i cur _ s"]], assumption,
      rule keeps_follow [OF keeps_prepare_alias], rule keeps_cond)
    fix l there granted
    let ?n = "image_row_bytes a img there"
    show "keeps (\<lambda>s. room N h i 0 granted granted s \<and> alias_known i cur l s) (finish (a, None)) ?Q
        (store_ok N) (gone N h i)"
      using a by (auto intro: keeps_done room_ready)
    assume g: "\<not> granted < length bs + (length bs - l) + ?n"
    have "keeps (\<lambda>s. room N h i 0 granted granted s \<and> alias_known i cur l s) (write_image env a img bs cur l)
        (\<lambda>_. room N h i 0 ?n ?n) (store_ok N) (gone N h i)"
      using g by (intro keeps_pre [OF keeps_write_image [OF a]]) (auto elim: room_less)
    then show "keeps (\<lambda>s. room N h i 0 granted granted s \<and> alias_known i cur l s)
        (follow (write_image env a img bs cur l) (\<lambda>_. follow (index_image env a img there) (\<lambda>a2.
           finish (image_noted a2 img, Some (ReplyImage img))))) ?Q (store_ok N) (gone N h i)"
      by (rule keeps_follow) (rule keeps_follow [OF keeps_index_image [OF a]], auto intro: keeps_done)
  qed
qed

lemma keeps_bundle_append_image:
  assumes a: "ab_id a = i"
  shows "keeps (ready N h i) (bundle_append_image env a img)
     (\<lambda>r s. ready N h i s \<and> ab_id (fst r) = i) (store_ok N) (gone N h i)"
  unfolding bundle_append_image_def
proof (rule keeps_follow [OF keeps_ensure_images_dir],
    rule keeps_follow [OF keeps_look [where Q = "\<lambda>_. ready N h i"]], assumption,
    rule keeps_follow [OF keeps_index [OF a]], rule keeps_premise)
  fix a1 :: active_output_bundle assume a1: "ab_id a1 = i"
  show "keeps (ready N h i)
      (case fs_decode env (ri_data img) of
         Inl err \<Rightarrow> refuse (ProtocolError (''invalid image data: '' @ err))
       | Inr bs \<Rightarrow> append_decoded_image env a1 img bs)
      (\<lambda>r s. ready N h i s \<and> ab_id (fst r) = i) (store_ok N) (gone N h i)"
    by (auto intro: keeps_refuse room_store_ok keeps_append_decoded_image [OF a1] split: sum.split)
qed

subsection \<open>Items\<close>

lemma keeps_note_omission:
  assumes "ab_id (ap_bundle pr) = i"
  shows "keeps (ready N h i) (note_omission env pr v) (\<lambda>pr' s. ready N h i s \<and> ab_id (ap_bundle pr') = i)
     (store_ok N) (gone N h i)"
  unfolding note_omission_def
  by (rule keeps_follow [OF keeps_apply_omission [OF assms]], rule keeps_done) simp

lemma retain_bundle [simp]: "ap_bundle (retain item pr) = ap_bundle pr"
  by (simp add: retain_def)

lemma keeps_append_worker_text_item:
  assumes a: "ab_id (ap_bundle pr) = i"
  shows "keeps (ready N h i) (append_worker_text_item env pr txt stream visibility after)
     (\<lambda>pr' s. ready N h i s \<and> ab_id (ap_bundle pr') = i) (store_ok N) (gone N h i)"
  unfolding append_worker_text_item_def
proof (rule keeps_follow [OF keeps_append_worker_text [OF a]], rule keeps_premise)
  fix r :: "active_output_bundle \<times> reply_item option" assume r: "ab_id (fst r) = i"
  show "keeps (ready N h i)
      (case r of (a, appended) \<Rightarrow>
         (case appended of
            Some retained_item \<Rightarrow>
              (let pr1 = pr\<lparr>ap_bundle := a, ap_retained_items := ap_retained_items pr @ [retained_item]\<rparr>
               in if length (item_worker_text retained_item) < length txt
                  then note_omission env pr1 (is_reply_visible visibility)
                  else finish pr1)
          | None \<Rightarrow> note_omission env (pr\<lparr>ap_bundle := a\<rparr>) (is_reply_visible visibility)))
      (\<lambda>pr' s. ready N h i s \<and> ab_id (ap_bundle pr') = i) (store_ok N) (gone N h i)"
    using r by (auto simp: Let_def intro!: keeps_note_omission keeps_done split: option.split prod.split)
qed

lemma keeps_image_item:
  assumes "ab_id a = i" "\<And>a'. ab_id a' = i \<Longrightarrow> ab_id (ap_bundle (omit a')) = i"
    "\<And>item a'. ab_id a' = i \<Longrightarrow> ab_id (ap_bundle (keep item a')) = i"
  shows "keeps (ready N h i)
     (follow (bundle_append_image env a img) (\<lambda>(a', appended).
        case appended of
          Some retained_item \<Rightarrow> finish (keep retained_item a')
        | None \<Rightarrow> note_omission env (omit a') v))
     (\<lambda>pr' s. ready N h i s \<and> ab_id (ap_bundle pr') = i) (store_ok N) (gone N h i)"
  by (rule keeps_follow [OF keeps_bundle_append_image [OF assms(1)]], rule keeps_premise)
    (use assms(2,3) in \<open>auto intro!: keeps_note_omission keeps_done split: option.split prod.split\<close>)

lemma keeps_append_item_after_omission:
  assumes a: "ab_id (ap_bundle pr) = i"
  shows "keeps (ready N h i) (append_item_after_omission env pr item later)
     (\<lambda>pr' s. ready N h i s \<and> ab_id (ap_bundle pr') = i) (store_ok N) (gone N h i)"
proof (cases item)
  case (ReplyImage img)
  then show ?thesis using a
    by (auto simp: append_item_after_omission_def
        intro!: keeps_done keeps_image_item [where omit = "\<lambda>a. retain (ReplyImage img) (pr\<lparr>ap_bundle := a\<rparr>)"
          and keep = "\<lambda>item a. retain item (pr\<lparr>ap_bundle := a\<rparr>)"])
qed (use a in \<open>auto simp: append_item_after_omission_def intro!: keeps_done keeps_append_worker_text_item\<close>)

lemma keeps_append_item:
  assumes a: "ab_id (ap_bundle pr) = i"
  shows "keeps (ready N h i) (append_item env pr item later)
     (\<lambda>pr' s. ready N h i s \<and> ab_id (ap_bundle pr') = i) (store_ok N) (gone N h i)"
  unfolding append_item_def
proof (rule keeps_cond, rule keeps_append_item_after_omission [OF a])
  show "keeps (ready N h i)
      (case item of
         WorkerText txt stream visibility \<Rightarrow>
           append_worker_text_item env pr txt stream visibility
             (if is_reply_visible visibility then 0 else reply_visible_bundle_reserve env later)
       | ServerText txt stream \<Rightarrow> finish (retain (ServerText txt stream) pr)
       | ReplyImage img \<Rightarrow>
           follow (bundle_append_image env (ap_bundle pr) img) (\<lambda>(a, appended).
             case appended of
               Some retained_item \<Rightarrow> finish (retain retained_item (pr\<lparr>ap_bundle := a\<rparr>))
             | None \<Rightarrow> note_omission env (pr\<lparr>ap_bundle := a\<rparr>) True))
      (\<lambda>pr' s. ready N h i s \<and> ab_id (ap_bundle pr') = i) (store_ok N) (gone N h i)"
  proof (cases item)
    case (ReplyImage img)
    then show ?thesis using a
      by (auto intro!: keeps_image_item [where omit = "\<lambda>a. pr\<lparr>ap_bundle := a\<rparr>"
            and keep = "\<lambda>item a. retain item (pr\<lparr>ap_bundle := a\<rparr>)"])
  qed (use a in \<open>auto intro!: keeps_done keeps_append_worker_text_item\<close>)
qed

lemma keeps_append_items_loop:
  "ab_id (ap_bundle pr) = i \<Longrightarrow>
   keeps (ready N h i) (append_items_loop env pr items)
     (\<lambda>pr' s. ready N h i s \<and> ab_id (ap_bundle pr') = i) (store_ok N) (gone N h i)"
proof (induction items arbitrary: pr)
  case Nil
  then show ?case by (auto intro: keeps_done)
next
  case (Cons item items)
  show ?case
    unfolding append_items_loop.simps
    by (rule keeps_follow [OF keeps_append_item [OF Cons.prems]], rule keeps_premise, rule Cons.IH)
qed

lemma keeps_append_items:
  assumes "ab_id a = i"
  shows "keeps (ready N h i) (append_items env a items)
     (\<lambda>pr s. ready N h i s \<and> ab_id (ap_bundle pr) = i) (store_ok N) (gone N h i)"
  unfolding append_items_def using assms by (intro keeps_append_items_loop) simp

section \<open>Bundles come and go\<close>

abbreviation never :: "output_store \<Rightarrow> bool" where
  "never \<equiv> (\<lambda>_. False)"

definition free :: "nat \<Rightarrow> bool \<Rightarrow> output_store \<Rightarrow> bool" where
  "free N c s \<longleftrightarrow> store_ok N s \<and> (c \<longrightarrow> length (st_bundles s) < lim_max_bundle_count (st_limits s))"

lemma free_without:
  assumes "free N c s" "idx < length (st_bundles s)"
  shows "free N c (without_bundle idx s)"
proof -
  have "length (st_bundles (without_bundle idx s)) < length (st_bundles s)"
    using assms(2) by (auto simp: without_bundle_def remove_at_def)
  with assms show ?thesis by (auto simp: free_def store_ok_without)
qed

lemma free_calls [simp]: "free N c (s\<lparr>st_calls := k\<rparr>) = free N c s"
  by (simp add: free_def)

lemma free_store_ok: "free N c s \<Longrightarrow> store_ok N s"
  by (simp add: free_def)

lemma keeps_prune_oldest_any:
  "keeps (free N c) (prune_oldest_inactive_bundle env protected) (\<lambda>_. free N c) (store_ok N) never"
  unfolding prune_oldest_inactive_bundle_def
proof (rule keeps_follow)
  let ?found = "\<lambda>s. position (\<lambda>b. Some (sb_id b) \<noteq> protected) (st_bundles s)"
  show "keeps (free N c) (look ?found) (\<lambda>found s. free N c s \<and> found = ?found s) (store_ok N) never"
    by (rule keeps_look) simp
  show "keeps (\<lambda>s. free N c s \<and> found = ?found s)
      (case found of None \<Rightarrow> finish False
       | Some idx \<Rightarrow> follow (remove_bundle_at env idx) (\<lambda>_. finish True))
      (\<lambda>_. free N c) (store_ok N) never" for found
  proof (cases found)
    case None
    then show ?thesis by (auto intro: keeps_done)
  next
    case (Some idx)
    have "keeps (\<lambda>s. free N c s \<and> idx < length (st_bundles s))
        (follow (remove_bundle_at env idx) (\<lambda>_. finish True)) (\<lambda>_. free N c) (store_ok N) never"
      by (rule keeps_follow [where Q = "\<lambda>_. free N c"], rule keeps_remove_bundle_at)
        (auto intro: keeps_done free_store_ok simp: free_without)
    then have "keeps (\<lambda>s. free N c s \<and> Some idx = ?found s)
        (follow (remove_bundle_at env idx) (\<lambda>_. finish True)) (\<lambda>_. free N c) (store_ok N) never"
      by (rule keeps_pre) (auto dest!: sym [of "Some idx"] position_get simp: list_get_def split: if_splits)
    with Some show ?thesis by simp
  qed
qed

lemma keeps_remove_bundle:
  "keeps (store_ok N) (remove_bundle env i) (\<lambda>_. store_ok N) (store_ok N) never"
  unfolding remove_bundle_def
proof (rule keeps_follow)
  let ?found = "\<lambda>s. position (\<lambda>b. sb_id b = i) (st_bundles s)"
  show "keeps (store_ok N) (look ?found) (\<lambda>found s. store_ok N s \<and> found = ?found s) (store_ok N) never"
    by (rule keeps_look) simp
  show "keeps (\<lambda>s. store_ok N s \<and> found = ?found s)
      (case found of None \<Rightarrow> finish () | Some idx \<Rightarrow> remove_bundle_at env idx)
      (\<lambda>_. store_ok N) (store_ok N) never" for found
  proof (cases found)
    case None
    then show ?thesis by (auto intro: keeps_done)
  next
    case (Some idx)
    have "keeps (\<lambda>s. store_ok N s \<and> idx < length (st_bundles s)) (remove_bundle_at env idx)
        (\<lambda>_. store_ok N) (store_ok N) never"
      by (rule keeps_remove_bundle_at) (auto simp: store_ok_without)
    then have "keeps (\<lambda>s. store_ok N s \<and> Some idx = ?found s) (remove_bundle_at env idx)
        (\<lambda>_. store_ok N) (store_ok N) never"
      by (rule keeps_pre) (auto dest!: sym [of "Some idx"] position_get simp: list_get_def split: if_splits)
    with Some show ?thesis by simp
  qed
qed

lemma keeps_prune_for_count:
  "keeps (store_ok N) (State (prune_for_count env protected))
     (\<lambda>_ s. store_ok N s \<and> length (st_bundles s) < lim_max_bundle_count (st_limits s)) (store_ok N) never"
proof (rule keepsI, simp)
  fix s assume "store_ok N s"
  then show "case prune_for_count env protected s of
      (Done _, s') \<Rightarrow> store_ok N s' \<and> length (st_bundles s') < lim_max_bundle_count (st_limits s')
    | (Failed err, s') \<Rightarrow> store_ok N s' | (Panicked message, s') \<Rightarrow> False"
  proof (induction env protected s rule: prune_for_count.induct)
    case (1 env protected s)
    obtain r s1 where r: "run_state (prune_oldest_inactive_bundle env protected) s = (r, s1)" by force
    note after = keepsD [OF keeps_prune_oldest_any [of N False, unfolded free_def, simplified] 1(2) r]
    show ?case
    proof (cases "lim_max_bundle_count (st_limits s) \<le> length (st_bundles s)")
      case True
      show ?thesis
      proof (cases r)
        case (Done more)
        with 1(1) [OF True r [unfolded Done, symmetric]] True Done r after(1) show ?thesis
          by (subst prune_for_count.simps) (auto split: bool.splits)
      qed (use True r after in \<open>subst prune_for_count.simps, simp\<close>)+
    next
      case False
      with 1(2) show ?thesis by (subst prune_for_count.simps) simp
    qed
  qed
qed

lemma keeps_prune_until_any:
  "keeps (free N c) (State (prune_until_total_capacity env j needed)) (\<lambda>_. free N c) (store_ok N) never"
proof (rule keepsI, simp)
  fix s assume "free N c s"
  then show "case prune_until_total_capacity env j needed s of
      (Done _, s') \<Rightarrow> free N c s' | (Failed err, s') \<Rightarrow> store_ok N s' | (Panicked message, s') \<Rightarrow> False"
  proof (induction env j needed s rule: prune_until_total_capacity.induct)
    case (1 env j needed s)
    obtain r s1 where r: "run_state (prune_oldest_inactive_bundle env (Some j)) s = (r, s1)" by force
    note after = keepsD [OF keeps_prune_oldest_any 1(2) r]
    show ?case
    proof (cases "sat_add (st_total_bytes s) needed > lim_max_total_bytes (st_limits s)")
      case True
      show ?thesis
      proof (cases r)
        case (Done more)
        with 1(1) [OF True r [unfolded Done, symmetric]] True Done r after(1) show ?thesis
          by (subst prune_until_total_capacity.simps) (auto split: bool.splits)
      qed (use True r after in \<open>subst prune_until_total_capacity.simps, simp\<close>)+
    next
      case False
      with 1(2) show ?thesis by (subst prune_until_total_capacity.simps) simp
    qed
  qed
qed

lemma keeps_prune_for_new_bundle:
  "keeps (store_ok N) (prune_for_new_bundle env initial protected) (\<lambda>_. free N True) (store_ok N) never"
  unfolding prune_for_new_bundle_def
  by (intro keeps_follow [OF keeps_post [OF keeps_prune_for_count, where Q = "\<lambda>_. free N True"]]
      keeps_follow [OF keeps_prune_until_any] keeps_follow [OF keeps_look [where Q = "\<lambda>_. free N True"]]
      keeps_cond keeps_refuse keeps_done) (auto simp: free_def)

text \<open>A new bundle has a number of its own and no files.\<close>

definition given :: "nat \<Rightarrow> nat \<Rightarrow> output_store \<Rightarrow> bool" where
  "given N i s \<longleftrightarrow> st_next_id s = i \<and> N \<le> st_next_id s \<and> st_next_id s \<le> u64_max \<and> 0 < st_next_id s \<and>
     (st_next_id s < u64_max \<longrightarrow> books nothing_owed s \<and>
        length (st_bundles s) < lim_max_bundle_count (st_limits s) \<and>
        (\<forall>b \<in> set (st_bundles s). sb_id b < st_next_id s) \<and>
        (\<forall>(p, _) \<in> set (st_files s). fst p < st_next_id s))"

lemma given_simps [simp]:
  "given N i (s\<lparr>st_calls := c\<rparr>) = given N i s" "given N i (s\<lparr>st_root := rt\<rparr>) = given N i s"
  "given N i (make_dir p s) = given N i s"
  by (simp_all add: given_def books_def make_dir_def)

lemma given_id: "given N i s \<Longrightarrow> st_next_id s = i"
  by (simp add: given_def)

lemma given_store_ok: "given N i s \<Longrightarrow> store_ok N s"
  by (simp add: given_def store_ok_def)

lemma given_next:
  assumes "free N True s"
  shows "given N (sat_add (st_next_id s) 1) (s\<lparr>st_next_id := sat_add (st_next_id s) 1\<rparr>)"
proof (cases "sat_add (st_next_id s) 1 < u64_max")
  case True
  then have n: "sat_add (st_next_id s) 1 = Suc (st_next_id s)" "st_next_id s < u64_max"
    by (auto simp: sat_add_def)
  with assms have "books nothing_owed s" by (simp add: free_def store_ok_def)
  with n assms show ?thesis by (fastforce simp: given_def free_def store_ok_def books_def)
next
  case False
  moreover from this have "sat_add (st_next_id s) 1 = u64_max" by (auto simp: sat_add_def)
  ultimately show ?thesis using assms by (simp add: given_def free_def store_ok_def u64_max_def)
qed

lemma given_pushed:
  assumes "given N i s" "sb_id b = i" "counted b = 0"
  shows "ready N h i (s\<lparr>st_bundles := st_bundles s @ [b]\<rparr>)"
proof -
  have there: "find_bundle i (s\<lparr>st_bundles := st_bundles s @ [b]\<rparr>) \<noteq> None"
    using assms(2) by (auto simp: find_bundle_def find_None_iff)
  show ?thesis
proof (cases "st_next_id s < u64_max")
  case True
  with assms(1) have i: "i = st_next_id s" and bk: "books nothing_owed s" "length (st_bundles s) < lim_max_bundle_count (st_limits s)"
      "\<forall>b \<in> set (st_bundles s). sb_id b < st_next_id s" "\<forall>(p, _) \<in> set (st_files s). fst p < st_next_id s"
    by (auto simp: given_def)
  have "disk_bytes i s = 0" using bk(4) i by (intro files_bytes_none) auto
  moreover have "sb_id b \<notin> sb_id ` set (st_bundles s)" using bk(3) assms(2) i by auto
  ultimately have "books nothing_owed (s\<lparr>st_bundles := st_bundles s @ [b]\<rparr>)"
    using bk assms i by (auto simp: books_def)
  with assms True there show ?thesis by (auto simp: room_def books_def given_def)
next
  case False
  with assms there show ?thesis by (simp add: room_def given_def)
qed
qed

lemma keeps_tempdir: "keeps (given N i) (tempdir env base) (\<lambda>_. given N i) E K"
  unfolding tempdir_def
  by (rule keeps_follow [OF keeps_look [where Q = "\<lambda>_. given N i"]], assumption,
      rule keeps_follow [OF keeps_io_result [where Q = "\<lambda>_. given N i"]]) (auto intro: keeps_done)

lemma keeps_create_root: "keeps (given N i) (create_output_store_root env) (\<lambda>_. given N i) (store_ok N) K"
proof -
  have returned: "keeps (given N i) (case r of Inr path \<Rightarrow> finish path | Inl err \<Rightarrow> refuse (IoError (io_message err)))
      (\<lambda>_. given N i) (store_ok N) K" for r
    by (cases r) (auto intro: keeps_done keeps_refuse given_store_ok)
  show ?thesis
    unfolding create_output_store_root_def Let_def
    by (rule keeps_follow [OF keeps_tempdir])
      (use returned in \<open>auto intro!: keeps_follow [OF keeps_tempdir] keeps_done keeps_refuse given_store_ok
        split: sum.splits io_error.splits\<close>)
qed

lemma keeps_ensure_root_path: "keeps (given N i) (ensure_root_path env) (\<lambda>_. given N i) (store_ok N) K"
  unfolding ensure_root_path_def
  by (rule keeps_follow [OF keeps_look [where Q = "\<lambda>_. given N i"]], assumption)
    (auto intro!: keeps_done keeps_follow [OF keeps_create_root]
      keeps_follow [OF keeps_adjust [where Q = "\<lambda>_. given N i"]] split: option.split)

lemma keeps_new_bundle:
  "keeps (store_ok N) (new_bundle_preserving env protected)
     (\<lambda>a s. ready N True (ab_id a) s \<and> st_next_id s = ab_id a) (store_ok N) never"
  unfolding new_bundle_preserving_def Let_def
proof (rule keeps_follow [OF keeps_prune_for_new_bundle],
    rule keeps_follow [OF keeps_adjust [where Q = "\<lambda>_ s. given N (st_next_id s) s"]],
    use given_next in force,
    rule keeps_follow [OF keeps_look [where Q = "given N"]], assumption,
    rule keeps_follow [OF keeps_ensure_root_path])
  fix i root_path
  let ?dir = "root_path @ ''/output-'' @ padded 4 i"
  let ?b = "\<lparr>sb_id = i, sb_dir = ?dir, sb_bytes_on_disk = 0, sb_reserved_events_log_bytes = 0\<rparr>"
  have "keeps (given N i) (io_call env (make_dir (i, []))) (\<lambda>_. given N i) (store_ok N) never"
    by (rule keeps_io_call) (auto intro: given_store_ok)
  moreover have "keeps (given N i) (adjust (\<lambda>s. s\<lparr>st_bundles := st_bundles s @ [?b]\<rparr>))
      (\<lambda>_ s. ready N True i s \<and> st_next_id s = i) (store_ok N) never"
    by (rule keeps_adjust) (auto simp: counted_def intro: given_pushed dest: given_id)
  ultimately show "keeps (given N i)
      (follow (io_call env (make_dir (i, []))) (\<lambda>_. follow (adjust (\<lambda>s. s\<lparr>st_bundles := st_bundles s @ [?b]\<rparr>)) (\<lambda>_.
         finish \<lparr>ab_id = i, ab_dir = ?dir, ab_next_image_number = 0, ab_current_image_id = None,
                 ab_current_image_history_number = 0, ab_history_image_count = 0,
                 ab_first_history_image = None, ab_last_image = None, ab_transcript_bytes = 0,
                 ab_transcript_lines = 0, ab_transcript_has_partial_line = False,
                 ab_omitted_tail = False, ab_omitted_reply_visible_tail = False,
                 ab_omission_recorded = False, ab_pre_index_image_paths = [], ab_disclosed = False\<rparr>)))
      (\<lambda>a s. ready N True (ab_id a) s \<and> st_next_id s = ab_id a) (store_ok N) never"
    by (intro keeps_follow [OF _ keeps_follow] keeps_done) (assumption | simp)+
qed

lemma keeps_cleanup_now: "keeps (store_ok N) (cleanup_now env) (\<lambda>_. store_ok N) (store_ok N) never"
  unfolding cleanup_now_def
proof (rule keeps_follow [OF keeps_look [where Q = "\<lambda>_. store_ok N"]], assumption,
    rule keeps_follow [where Q = "\<lambda>_. store_ok N"])
  have cleared: "store_ok N (s\<lparr>st_files := [], st_dirs := []\<rparr>)" if "store_ok N s" for s
    using that by (auto simp: store_ok_def books_def files_bytes_def)
  show "keeps (store_ok N)
      (case root of None \<Rightarrow> finish ()
       | Some _ \<Rightarrow> follow (adjust (\<lambda>s. s\<lparr>st_root := None\<rparr>)) (\<lambda>_.
           io_call env (\<lambda>s. s\<lparr>st_files := [], st_dirs := []\<rparr>)))
      (\<lambda>_. store_ok N) (store_ok N) never" for root
    using cleared
    by (auto intro!: keeps_done keeps_follow [OF keeps_adjust [where Q = "\<lambda>_. store_ok N"]] keeps_io_call
        split: option.split)
  show "keeps (store_ok N) (adjust (\<lambda>s. s\<lparr>st_bundles := [], st_total_bytes := 0\<rparr>))
      (\<lambda>_. store_ok N) (store_ok N) never"
    by (rule keeps_adjust) (auto simp: store_ok_def books_def)
qed

lemma store_ok_new:
  assumes "lim_max_bundle_bytes limits \<le> u64_max" "lim_max_total_bytes limits < u64_max"
  shows "store_ok 0 (output_store_new limits)"
  using assms by (simp add: store_ok_def books_def output_store_new_def)

section \<open>The quotas\<close>

text \<open>What the limits promise of the files on disk.\<close>

definition within_quota :: "output_store \<Rightarrow> bool" where
  "within_quota s \<longleftrightarrow>
     length (st_bundles s) \<le> lim_max_bundle_count (st_limits s) \<and>
     (\<forall>b \<in> set (st_bundles s). disk_bytes (sb_id b) s \<le> lim_max_bundle_bytes (st_limits s)) \<and>
     sum_list (map (\<lambda>b. disk_bytes (sb_id b) s) (st_bundles s)) \<le> lim_max_total_bytes (st_limits s)"

lemma books_within_quota:
  assumes "books nothing_owed s"
  shows "within_quota s"
proof -
  have le: "disk_bytes (sb_id b) s \<le> counted b" if "b \<in> set (st_bundles s)" for b
    using assms that by (force simp: books_def counted_def)
  have "sum_list (map (\<lambda>b. disk_bytes (sb_id b) s) (st_bundles s)) \<le> sum_list (map counted (st_bundles s))"
    by (rule sum_list_mono) (rule le)
  with assms le show ?thesis by (fastforce simp: books_def within_quota_def)
qed

lemma room_present: "room N True i k n m s \<Longrightarrow> find_bundle i s \<noteq> None"
  by (simp add: room_def)

definition quotas_hold :: "output_store \<Rightarrow> bool" where
  "quotas_hold s \<longleftrightarrow> (st_next_id s < u64_max \<longrightarrow> within_quota s)"

lemma store_ok_quotas: "store_ok N s \<Longrightarrow> quotas_hold s"
  by (simp add: store_ok_def quotas_hold_def books_within_quota)


definition sample_store :: output_store where
  "sample_store =
     (output_store_new \<lparr>lim_max_bundle_count = 1, lim_max_bundle_bytes = 300, lim_max_total_bytes = 300\<rparr>)
       \<lparr>st_next_id := 1, st_bundles := [\<lparr>sb_id = 1, sb_dir = [], sb_bytes_on_disk = 0,
          sb_reserved_events_log_bytes = 0\<rparr>]\<rparr>"

definition sample_bundle :: active_output_bundle where
  "sample_bundle =
     \<lparr>ab_id = 1, ab_dir = [], ab_next_image_number = 0, ab_current_image_id = None,
      ab_current_image_history_number = 0, ab_history_image_count = 0, ab_first_history_image = None,
      ab_last_image = None, ab_transcript_bytes = 0, ab_transcript_lines = 0,
      ab_transcript_has_partial_line = False, ab_omitted_tail = False,
      ab_omitted_reply_visible_tail = False, ab_omission_recorded = False,
      ab_pre_index_image_paths = [], ab_disclosed = False\<rparr>"

definition sample_env :: store_env where
  "sample_env =
     \<lparr>fs_failure = (\<lambda>_. None), fs_tempdir = (\<lambda>_ _. ''/tmp/x''), fs_non_unicode_var = (\<lambda>_. False),
      fs_temp_dir = ''/tmp'', fs_temp_dir_exists = True, fs_current_dir = None, fs_unix = True,
      fs_decode = Inr, fs_to_json = (\<lambda>txt. txt)\<rparr>"

lemma sample_store_ok: "store_ok 0 sample_store" "find_bundle (ab_id sample_bundle) sample_store \<noteq> None"
  by (simp_all add: sample_store_def sample_bundle_def output_store_new_def store_ok_def books_def
      u64_max_def counted_def files_bytes_def find_bundle_def)


end
