(* ===== verification/Response_Quota.thy ===== *)
theory Response_Quota
  imports Response_State Store_Quota
begin

text \<open>
  What the replies rely on from the output store, as a locale: an invariant of the store that new
  bundles, writes to bundles, removals and the cleanup keep. Every method of the state of the
  replies keeps it then, and returns instead of failing. The interpretation on the counters of the
  store gives that the quotas hold after any sequence of replies.
\<close>

section \<open>The store as the replies see it\<close>

text \<open>A result of the replies whose retained bundle has a number that was given.\<close>

definition seg_ok ::
  "(nat \<Rightarrow> output_store \<Rightarrow> bool) \<Rightarrow> nat \<Rightarrow> timeout_reply_segment \<Rightarrow> output_store \<Rightarrow> bool" where
  "seg_ok ok N seg s \<longleftrightarrow>
     ok N s \<and> pred_option (\<lambda>a. ok (ab_id a) s) (ts_retained_active_timeout_bundle seg)"

definition prefix_ok ::
  "(nat \<Rightarrow> output_store \<Rightarrow> bool) \<Rightarrow> nat \<Rightarrow> follow_up_detached_prefix \<Rightarrow> output_store \<Rightarrow> bool" where
  "prefix_ok ok N prefix s \<longleftrightarrow>
     ok N s \<and> pred_option (\<lambda>a. ok (ab_id a) s) (fd_retained_active_timeout_bundle prefix)"

definition state_ok :: "(nat \<Rightarrow> output_store \<Rightarrow> bool) \<Rightarrow> response_state \<Rightarrow> bool" where
  "state_ok ok st \<longleftrightarrow> ok 0 (rs_output_store st) \<and>
     pred_option (\<lambda>a. ok (ab_id a) (rs_output_store st)) (rs_active_timeout_bundle st)"

text \<open>\<open>ok N\<close> holds of stores in which the bundle numbers up to \<open>N\<close> have been given.\<close>

locale bundle_store =
  fixes ok :: "nat \<Rightarrow> output_store \<Rightarrow> bool"
  assumes ok_less: "ok N s \<Longrightarrow> M \<le> N \<Longrightarrow> ok M s"
    and ok_max: "ok N s \<Longrightarrow> ok M s \<Longrightarrow> ok (max N M) s"
    and new_ok: "keeps (ok N) (new_bundle_preserving env protected)
      (\<lambda>a s. ok N s \<and> ok (ab_id a) s) (ok N) (ok N)"
    and append_ok: "ab_id a \<le> N \<Longrightarrow> keeps (ok N) (append_items env a items)
      (\<lambda>pr s. ok N s \<and> ab_id (ap_bundle pr) = ab_id a) (ok N) (ok N)"
    and remove_ok: "keeps (ok N) (remove_bundle env i) (\<lambda>_. ok N) (ok N) (ok N)"
    and cleanup_ok: "keeps (ok N) (cleanup_now env) (\<lambda>_. ok N) (ok N) (ok N)"
begin

lemma weaken_ok:
  assumes "keeps (ok M) f Q never (ok M)" "N \<le> M" "\<And>x s. Q x s \<Longrightarrow> Q' x s"
  shows "keeps (ok M) f Q' never (ok N)"
  by (rule keeps_post [OF keeps_exits [OF assms(1)]]) (auto intro: ok_less [OF _ assms(2)] assms(3))

lemma finish_bundle_ok: "keeps (ok N) (finish_bundle env a) (\<lambda>_. ok N) (ok N) (ok N)"
  unfolding finish_bundle_def by (rule keeps_cond, rule keeps_done, assumption, rule remove_ok)

lemma drop_bundle_ok: "keeps (ok N) (drop_bundle env a) (\<lambda>_. ok N) never (ok N)"
  unfolding drop_bundle_def
  by (rule keeps_follow [where Q = "\<lambda>_. ok N"], rule keeps_attempt)
    (auto intro: keeps_done keeps_exits [OF finish_bundle_ok])

lemma drop_then_ok:
  assumes "\<And>s. ok N s \<Longrightarrow> Q x s"
  shows "keeps (ok N) (follow (drop_bundle env a) (\<lambda>_. finish x)) Q never (ok N)"
  by (rule keeps_follow [OF drop_bundle_ok], rule keeps_done) (rule assms)

lemma drop_optional_ok: "keeps (ok N) (drop_optional_bundle env a) (\<lambda>_. ok N) never (ok N)"
  unfolding drop_optional_bundle_def by (auto intro: keeps_done drop_bundle_ok split: option.split)

text \<open>A computation tried, with what follows when it fails.\<close>

lemma attempt_then:
  assumes "keeps P f Q E K" "\<And>x. keeps (Q x) (g (Inr x)) Q' E' K" "\<And>err. keeps E (g (Inl err)) Q' E' K"
  shows "keeps P (follow (attempt f) g) Q' E' K"
proof (rule keeps_follow)
  show "keeps P (attempt f) (\<lambda>r. case r of Inr x \<Rightarrow> Q x | Inl err \<Rightarrow> E) E' K"
    using assms(1) by (intro keeps_attempt) simp
  show "keeps (case r of Inr x \<Rightarrow> Q x | Inl err \<Rightarrow> E) (g r) Q' E' K" for r
    using assms(2,3) by (cases r) simp_all
qed

text \<open>A new bundle: what follows may use its number.\<close>

lemma new_then:
  assumes "\<And>a M. N \<le> M \<Longrightarrow> ab_id a \<le> M \<Longrightarrow> keeps (ok M) (g (Inr a)) Q never (ok N)"
    "\<And>err. keeps (ok N) (g (Inl err)) Q never (ok N)"
  shows "keeps (ok N) (follow (attempt (new_bundle_preserving env protected)) g) Q never (ok N)"
proof (rule attempt_then [OF new_ok])
  fix a
  show "keeps (\<lambda>s. ok N s \<and> ok (ab_id a) s) (g (Inr a)) Q never (ok N)"
    by (rule keeps_pre [OF assms(1) [of "max N (ab_id a)"]]) (auto intro: ok_max)
qed (rule assms(2))

section \<open>Replies keep the invariant\<close>

lemma seg_ok_plain [simp]:
  "seg_ok ok N (plain_segment contents) s = ok N s"
  "seg_ok ok N ((plain_segment contents)\<lparr>ts_retained_staged_timeout_output := staged\<rparr>) s = ok N s"
  "seg_ok ok N ((plain_segment contents)\<lparr>ts_retained_active_timeout_bundle := Some a\<rparr>) s =
     (ok N s \<and> ok (ab_id a) s)"
  by (simp_all add: seg_ok_def plain_segment_def)

lemma prefix_ok_plain [simp]:
  "prefix_ok ok N (plain_prefix contents) s = ok N s"
  "prefix_ok ok N ((plain_prefix contents)\<lparr>fd_protected_bundle_id := i\<rparr>) s = ok N s"
  "prefix_ok ok N ((plain_prefix contents)\<lparr>fd_retained_staged_timeout_output := staged\<rparr>) s = ok N s"
  "prefix_ok ok N ((plain_prefix contents)\<lparr>fd_protected_bundle_id := i,
      fd_retained_active_timeout_bundle := Some a\<rparr>) s = (ok N s \<and> ok (ab_id a) s)"
  by (simp_all add: prefix_ok_def plain_prefix_def)

lemma seg_ok_less: "seg_ok ok M seg s \<Longrightarrow> N \<le> M \<Longrightarrow> seg_ok ok N seg s"
  using ok_less by (auto simp: seg_ok_def)

lemma prefix_ok_less: "prefix_ok ok M prefix s \<Longrightarrow> N \<le> M \<Longrightarrow> prefix_ok ok N prefix s"
  using ok_less by (auto simp: prefix_ok_def)

lemma render_active_ok:
  assumes "ab_id a \<le> N"
  shows "keeps (ok N) (render_active_bundle_contents env a bundle_items inline_items n)
     (\<lambda>r s. ok N s \<and> ab_id (fst r) = ab_id a) (ok N) (ok N)"
  unfolding render_active_bundle_contents_def
  by (rule keeps_follow [OF append_ok [OF assms]], rule keeps_look)
    (simp add: active_bundle_contents_def disclosed_def Let_def)

lemma segment_with_bundle_ok:
  assumes "ab_id a \<le> N"
  shows "keeps (ok N) (segment_with_bundle env a view n pending fallback) (seg_ok ok N) never (ok N)"
  unfolding segment_with_bundle_def
proof (rule attempt_then [OF render_active_ok [OF assms]])
  fix r :: "active_output_bundle \<times> tool_content list"
  show "keeps (\<lambda>s. ok N s \<and> ab_id (fst r) = ab_id a)
      (case Inr r of
         Inr (active1, contents) \<Rightarrow>
           if pending
           then finish ((plain_segment contents)\<lparr>ts_retained_active_timeout_bundle := Some active1\<rparr>)
           else follow (drop_bundle env active1) (\<lambda>_. finish (plain_segment contents))
       | Inl _ \<Rightarrow> follow (drop_bundle env a) (\<lambda>_. finish (plain_segment fallback)))
      (seg_ok ok N) never (ok N)"
    using assms by (intro keeps_premise)
      (auto intro!: keeps_done drop_then_ok intro: ok_less split: prod.split)
next
  fix err
  show "keeps (ok N)
      (case Inl err of
         Inr (active1, contents) \<Rightarrow>
           if pending
           then finish ((plain_segment contents)\<lparr>ts_retained_active_timeout_bundle := Some active1\<rparr>)
           else follow (drop_bundle env active1) (\<lambda>_. finish (plain_segment contents))
       | Inl _ \<Rightarrow> follow (drop_bundle env a) (\<lambda>_. finish (plain_segment fallback)))
      (seg_ok ok N) never (ok N)"
    by (auto intro!: drop_then_ok)
qed

lemma materialize_staged_ok:
  "keeps (ok N) (materialize_staged_timeout_output env staged protected)
     (\<lambda>a s. ok N s \<and> ok (ab_id a) s) (ok N) (ok N)"
  unfolding materialize_staged_timeout_output_def
proof (rule keeps_follow [OF new_ok], rule keeps_cond, rule keeps_done, assumption)
  fix a :: active_output_bundle
  let ?M = "max N (ab_id a)"
  have "keeps (ok ?M)
      (follow (attempt (append_items env a (sto_items staged))) (\<lambda>r.
         case r of Inr pr \<Rightarrow> finish (ap_bundle pr)
         | Inl err \<Rightarrow> follow (drop_bundle env a) (\<lambda>_. refuse err)))
      (\<lambda>a s. ok N s \<and> ok (ab_id a) s) (ok N) (ok ?M)"
  proof (rule attempt_then [OF append_ok])
    show "keeps (ok ?M) (case Inl err of Inr pr \<Rightarrow> finish (ap_bundle pr)
        | Inl err \<Rightarrow> follow (drop_bundle env a) (\<lambda>_. refuse err))
        (\<lambda>a s. ok N s \<and> ok (ab_id a) s) (ok N) (ok ?M)" for err
      by (simp, rule keeps_follow [OF keeps_exits [OF drop_bundle_ok]])
        (auto intro!: keeps_refuse intro: ok_less)
  qed (auto intro!: keeps_done intro: ok_less)
  then have "keeps (ok ?M)
      (follow (attempt (append_items env a (sto_items staged))) (\<lambda>r.
         case r of Inr pr \<Rightarrow> finish (ap_bundle pr)
         | Inl err \<Rightarrow> follow (drop_bundle env a) (\<lambda>_. refuse err)))
      (\<lambda>a s. ok N s \<and> ok (ab_id a) s) (ok N) (ok N)"
    by (rule keeps_exits) (auto intro: ok_less)
  then show "keeps (\<lambda>s. ok N s \<and> ok (ab_id a) s)
      (follow (attempt (append_items env a (sto_items staged))) (\<lambda>r.
         case r of Inr pr \<Rightarrow> finish (ap_bundle pr)
         | Inl err \<Rightarrow> follow (drop_bundle env a) (\<lambda>_. refuse err)))
      (\<lambda>a s. ok N s \<and> ok (ab_id a) s) (ok N) (ok N)"
    by (rule keeps_pre) (auto intro: ok_max)
qed

lemma staged_then:
  assumes "\<And>a M. N \<le> M \<Longrightarrow> ab_id a \<le> M \<Longrightarrow> keeps (ok M) (g (Inr a)) Q never (ok N)"
    "\<And>err. keeps (ok N) (g (Inl err)) Q never (ok N)"
  shows "keeps (ok N) (follow (attempt (materialize_staged_timeout_output env staged protected)) g)
     Q never (ok N)"
proof (rule attempt_then [OF materialize_staged_ok])
  fix a
  show "keeps (\<lambda>s. ok N s \<and> ok (ab_id a) s) (g (Inr a)) Q never (ok N)"
    by (rule keeps_pre [OF assms(1) [of "max N (ab_id a)"]]) (auto intro: ok_max)
qed (rule assms(2))

lemma segment_with_new_bundle_ok:
  assumes "N \<le> M" "ab_id a \<le> M"
  shows "keeps (ok M) (segment_with_bundle env a view n pending fallback) (seg_ok ok N) never (ok N)"
  by (rule weaken_ok [OF segment_with_bundle_ok [OF assms(2)] assms(1)]) (rule seg_ok_less [OF _ assms(1)])

lemma segment_from_staged_ok:
  "keeps (ok N) (segment_from_staged env view pending staged spills n) (seg_ok ok N) never (ok N)"
  unfolding segment_from_staged_def Let_def
  by (rule keeps_cond, rule staged_then)
    (auto intro!: segment_with_new_bundle_ok keeps_done)

lemma segment_of_timeout_ok:
  "keeps (ok N) (segment_of_timeout env view pending spills) (seg_ok ok N) never (ok N)"
  unfolding segment_of_timeout_def Let_def
  by (rule keeps_cond, rule new_then)
    (auto intro!: segment_with_new_bundle_ok keeps_done)

lemma compact_with_new_bundle_ok:
  "keeps (ok N) (compact_reply_items_with_new_bundle env bundle_items inline_items text_only protected)
     (\<lambda>_. ok N) never (ok N)"
  unfolding compact_reply_items_with_new_bundle_def
proof (rule new_then)
  fix a :: active_output_bundle and M assume M: "N \<le> M" "ab_id a \<le> M"
  have "keeps (ok M)
      (follow (attempt (append_items env a bundle_items)) (\<lambda>r.
         case r of
           Inr pr \<Rightarrow> look (bundled_reply_items pr bundle_items text_only)
         | Inl _ \<Rightarrow>
             follow (attempt (remove_bundle env (ab_id a))) (\<lambda>_.
               finish (pathless_reply_items inline_items text_only))))
      (\<lambda>_. ok M) never (ok M)"
    by (rule attempt_then [OF append_ok [OF M(2)]])
      (auto intro!: keeps_look keeps_done attempt_then [OF remove_ok])
  then show "keeps (ok M)
      (case Inr a of
         Inl _ \<Rightarrow> finish (pathless_reply_items inline_items text_only)
       | Inr bundle \<Rightarrow>
           follow (attempt (append_items env bundle bundle_items)) (\<lambda>r.
             case r of
               Inr pr \<Rightarrow> look (bundled_reply_items pr bundle_items text_only)
             | Inl _ \<Rightarrow>
                 follow (attempt (remove_bundle env (ab_id bundle))) (\<lambda>_.
                   finish (pathless_reply_items inline_items text_only))))
      (\<lambda>_. ok N) never (ok N)"
    by (simp, elim weaken_ok [OF _ M(1)]) (rule ok_less [OF _ M(1)])
qed (auto intro!: keeps_done)

lemma render_reply_items_ok:
  "keeps (ok N) (render_reply_items env bundle_items inline_items txt protected) (\<lambda>_. ok N) never (ok N)"
  unfolding render_reply_items_def Let_def
  by (intro keeps_cond compact_with_new_bundle_ok keeps_done)

lemma render_timeout_reply_segment_ok:
  assumes "pred_option (\<lambda>a. ab_id a \<le> N) active"
  shows "keeps (ok N) (render_timeout_reply_segment env view pending active staged) (seg_ok ok N) never (ok N)"
proof (cases active)
  case None
  show ?thesis
    unfolding render_timeout_reply_segment_def None option.case Let_def
    by (auto intro!: segment_from_staged_ok segment_of_timeout_ok keeps_follow [OF render_reply_items_ok]
        keeps_done split: option.split)
next
  case (Some a)
  with assms show ?thesis by (auto simp: render_timeout_reply_segment_def intro!: segment_with_bundle_ok)
qed

lemma prefix_with_active_ok:
  assumes "ab_id a \<le> N"
  shows "keeps (ok N) (render_follow_up_detached_prefix_with_active_bundle env material a n)
     (prefix_ok ok N) never (ok N)"
  unfolding render_follow_up_detached_prefix_with_active_bundle_def
proof (rule attempt_then [OF render_active_ok [OF assms]])
  fix r :: "active_output_bundle \<times> tool_content list"
  show "keeps (\<lambda>s. ok N s \<and> ab_id (fst r) = ab_id a)
      (case Inr r of
         Inr (active1, contents) \<Rightarrow>
           finish ((plain_prefix contents)\<lparr>fd_protected_bundle_id := disclosed_id active1,
                     fd_retained_active_timeout_bundle := Some active1\<rparr>)
       | Inl _ \<Rightarrow>
           follow (drop_bundle env a) (\<lambda>_.
             finish ((plain_prefix (compact_detached_prefix_without_output_bundle material))
                       \<lparr>fd_protected_bundle_id := disclosed_id a\<rparr>)))
      (prefix_ok ok N) never (ok N)"
    using assms by (intro keeps_premise) (auto intro!: keeps_done intro: ok_less split: prod.split)
qed (auto intro!: drop_then_ok)

lemma prefix_with_active_later_ok:
  assumes "N \<le> M" "ab_id a \<le> M"
  shows "keeps (ok M) (render_follow_up_detached_prefix_with_active_bundle env material a n)
     (prefix_ok ok N) never (ok N)"
  by (rule weaken_ok [OF prefix_with_active_ok [OF assms(2)] assms(1)]) (rule prefix_ok_less [OF _ assms(1)])

lemma prefix_with_new_bundle_ok:
  "keeps (ok N) (prefix_with_new_bundle env material use) (prefix_ok ok N) never (ok N)"
  unfolding prefix_with_new_bundle_def Let_def new_bundle_def
proof (rule new_then)
  let ?without = "plain_prefix (compact_detached_prefix_without_output_bundle material)"
  fix a :: active_output_bundle and M assume M: "N \<le> M" "ab_id a \<le> M"
  have kept: "prefix_ok ok M (bundled_prefix pr use s) s" if "ok M s \<and> ab_id (ap_bundle pr) = ab_id a" for pr s
    using that M ok_less [of M s "ab_id a"]
    by (simp add: prefix_ok_def bundled_prefix_def plain_prefix_def disclosed_def Let_def)
  have "keeps (ok M)
      (follow (attempt (append_items env a (rm_detached_prefix_items material))) (\<lambda>r.
         case r of
           Inr pr \<Rightarrow> look (bundled_prefix pr use)
         | Inl _ \<Rightarrow> follow (drop_bundle env a) (\<lambda>_. finish ?without)))
      (prefix_ok ok M) never (ok M)"
    by (rule attempt_then [OF append_ok [OF M(2)]]) (use kept in \<open>auto intro!: keeps_look drop_then_ok\<close>)
  then show "keeps (ok M)
      (case Inr a of
         Inl _ \<Rightarrow> finish ?without
       | Inr bundle \<Rightarrow>
           follow (attempt (append_items env bundle (rm_detached_prefix_items material))) (\<lambda>r.
             case r of
               Inr pr \<Rightarrow> look (bundled_prefix pr use)
             | Inl _ \<Rightarrow> follow (drop_bundle env bundle) (\<lambda>_. finish ?without)))
      (prefix_ok ok N) never (ok N)"
    by (simp, elim weaken_ok [OF _ M(1)]) (rule prefix_ok_less [OF _ M(1)])
qed (auto intro!: keeps_done)

lemma prefix_from_staged_ok:
  "keeps (ok N) (prefix_from_staged env material staged spills n) (prefix_ok ok N) never (ok N)"
  unfolding prefix_from_staged_def Let_def
  by (rule keeps_cond, rule staged_then)
    (auto intro!: prefix_with_active_later_ok keeps_done)

lemma render_follow_up_detached_prefix_ok:
  assumes "pred_option (\<lambda>a. ab_id a \<le> N) active"
  shows "keeps (ok N) (render_follow_up_detached_prefix env material active staged)
     (prefix_ok ok N) never (ok N)"
proof (cases active)
  case None
  show ?thesis
    unfolding render_follow_up_detached_prefix_def None option.case Let_def
    by (auto intro!: prefix_from_staged_ok prefix_with_new_bundle_ok keeps_done split: option.split)
next
  case (Some a)
  with assms show ?thesis
    by (auto simp: render_follow_up_detached_prefix_def Let_def intro!: prefix_with_active_ok)
qed

text \<open>The prefix and then the reply, which may retain bundles of their own.\<close>

abbreviation both_ok ::
  "nat \<Rightarrow> follow_up_detached_prefix \<Rightarrow> timeout_reply_segment \<Rightarrow> output_store \<Rightarrow> bool" where
  "both_ok N prefix segment s \<equiv> prefix_ok ok N prefix s \<and> seg_ok ok N segment s"

lemma reply_after_prefix_ok:
  "keeps (prefix_ok ok N prefix) (render_timeout_reply_segment env view pending None None)
     (both_ok N prefix) never (ok N)"
proof (cases "fd_retained_active_timeout_bundle prefix")
  case None
  show ?thesis
    by (rule keeps_conseq [OF render_timeout_reply_segment_ok [where N = N]])
      (use None in \<open>auto simp: prefix_ok_def seg_ok_def\<close>)
next
  case (Some a)
  let ?M = "max N (ab_id a)"
  have "keeps (ok ?M) (render_timeout_reply_segment env view pending None None) (both_ok N prefix) never (ok N)"
    by (rule weaken_ok [OF render_timeout_reply_segment_ok])
      (use Some ok_less in \<open>auto simp: prefix_ok_def seg_ok_def\<close>)
  then show ?thesis by (rule keeps_pre) (use Some in \<open>auto simp: prefix_ok_def intro: ok_max\<close>)
qed

text \<open>A bundle dropped while another is retained.\<close>

lemma drop_beside_ok:
  assumes "\<And>s. P s \<Longrightarrow> ok N s \<and> pred_option (\<lambda>a. ok (ab_id a) s) b"
  shows "keeps P (drop_optional_bundle env a) (\<lambda>_ s. ok N s \<and> pred_option (\<lambda>a. ok (ab_id a) s) b) never (ok N)"
proof (cases b)
  case None
  show ?thesis by (rule keeps_conseq [OF drop_optional_ok]) (use assms None in auto)
next
  case (Some c)
  have "keeps (ok (max N (ab_id c))) (drop_optional_bundle env a)
      (\<lambda>_ s. ok N s \<and> pred_option (\<lambda>a. ok (ab_id a) s) b) never (ok N)"
    by (rule weaken_ok [OF drop_optional_ok]) (use Some ok_less in auto)
  then show ?thesis by (rule keeps_pre) (use assms Some in \<open>auto intro: ok_max\<close>)
qed

lemma finalize_spilled_ok:
  "keeps (ok N) (finalize_reply_with_spilled_detached_prefix env material pending) (seg_ok ok N) never (ok N)"
  unfolding finalize_reply_with_spilled_detached_prefix_def
proof (rule keeps_follow [OF render_follow_up_detached_prefix_ok], simp,
    rule keeps_follow [OF reply_after_prefix_ok])
  fix prefix segment
  show "keeps (both_ok N prefix segment)
      (follow (drop_optional_bundle env (fd_retained_active_timeout_bundle prefix)) (\<lambda>_.
         finish (segment\<lparr>ts_contents := fd_contents prefix @ ts_contents segment\<rparr>)))
      (seg_ok ok N) never (ok N)"
    by (rule keeps_follow [OF drop_beside_ok [where N = N and b = "ts_retained_active_timeout_bundle segment"]])
      (auto simp: seg_ok_def intro!: keeps_done)
qed

lemma finalize_follow_up_ok:
  assumes "pred_option (\<lambda>a. ab_id a \<le> N) active"
  shows "keeps (ok N) (finalize_follow_up_reply env material pending active staged) (seg_ok ok N) never (ok N)"
  unfolding finalize_follow_up_reply_def Let_def
proof (rule keeps_follow [OF render_follow_up_detached_prefix_ok [OF assms]],
    rule keeps_follow [OF reply_after_prefix_ok])
  fix prefix :: follow_up_detached_prefix and segment :: timeout_reply_segment
  let ?server_only = "pending \<and> reply_is_server_only_follow_up material"
  let ?mine = "if ?server_only then None else ts_retained_active_timeout_bundle segment"
  let ?P = "\<lambda>s. ok N s \<and> pred_option (\<lambda>a. ok (ab_id a) s) (fd_retained_active_timeout_bundle prefix) \<and>
      pred_option (\<lambda>a. ok (ab_id a) s) ?mine"
  have first: "keeps (both_ok N prefix segment)
      (if ?server_only then drop_optional_bundle env (ts_retained_active_timeout_bundle segment) else finish ())
      (\<lambda>_. ?P) never (ok N)"
  proof (rule keeps_cond)
    assume ?server_only
    then show "keeps (both_ok N prefix segment)
        (drop_optional_bundle env (ts_retained_active_timeout_bundle segment)) (\<lambda>_. ?P) never (ok N)"
      by (intro keeps_post [OF drop_beside_ok [where N = N and b = "fd_retained_active_timeout_bundle prefix"]])
        (auto simp: prefix_ok_def)
  qed (auto intro!: keeps_done simp: prefix_ok_def seg_ok_def)
  have last: "keeps ?P
      (follow (drop_optional_bundle env (fd_retained_active_timeout_bundle prefix)) (\<lambda>_.
         finish \<lparr>ts_contents = contents, ts_retained_active_timeout_bundle = ?mine,
                 ts_retained_staged_timeout_output = staged1\<rparr>)) (seg_ok ok N) never (ok N)" for contents staged1
    by (rule keeps_follow [OF drop_beside_ok [where N = N and b = ?mine]])
      (auto simp: seg_ok_def intro!: keeps_done)
  show "keeps (both_ok N prefix segment)
      (follow
        (if ?server_only then drop_optional_bundle env (ts_retained_active_timeout_bundle segment) else finish ())
        (\<lambda>_. if ?mine = None \<and>
               (if ?server_only then None else ts_retained_staged_timeout_output segment) = None \<and>
               keeps_prefix_bundle material pending prefix
            then finish
              \<lparr>ts_contents = fd_contents prefix @ ts_contents segment,
               ts_retained_active_timeout_bundle = fd_retained_active_timeout_bundle prefix,
               ts_retained_staged_timeout_output =
                 (if fd_retained_bundle_is_detached_prefix_only prefix then None
                  else fd_retained_staged_timeout_output prefix)\<rparr>
            else
              follow (drop_optional_bundle env (fd_retained_active_timeout_bundle prefix)) (\<lambda>_.
                finish \<lparr>ts_contents = fd_contents prefix @ ts_contents segment,
                        ts_retained_active_timeout_bundle = ?mine,
                        ts_retained_staged_timeout_output =
                          (if ?server_only then None else ts_retained_staged_timeout_output segment)\<rparr>)))
      (seg_ok ok N) never (ok N)"
    by (rule keeps_follow [OF first], rule keeps_cond, rule keeps_done, use seg_ok_def in force) (rule last)
qed

lemma finalize_reply_segment_ok:
  assumes "pred_option (\<lambda>a. ab_id a \<le> N) active"
  shows "keeps (ok N) (finalize_reply_segment env material pending reuse active staged) (seg_ok ok N) never (ok N)"
  unfolding finalize_reply_segment_def Let_def
  by (rule keeps_cond, rule finalize_follow_up_ok [OF assms], rule keeps_follow [where Q = "\<lambda>_. ok N"])
    (use assms in \<open>auto intro!: keeps_cond keeps_done drop_optional_ok finalize_spilled_ok
       render_timeout_reply_segment_ok\<close>)

section \<open>Sequences of replies\<close>

lemma with_timeout_state_ok:
  assumes "\<And>N active staged. pred_option (\<lambda>a. ab_id a \<le> N) active \<Longrightarrow>
      keeps (ok N) (f active staged) (seg_ok ok N) never (ok N)"
    and "state_ok ok st" "with_timeout_state f st = (r, st')"
  shows "state_ok ok st' \<and> (\<forall>err. r \<noteq> Failed err)"
proof -
  let ?N = "case rs_active_timeout_bundle st of None \<Rightarrow> 0 | Some a \<Rightarrow> ab_id a"
  obtain x s' where x: "run_state (f (rs_active_timeout_bundle st) (rs_staged_timeout_output st))
      (rs_output_store st) = (x, s')" by force
  have "pred_option (\<lambda>a. ab_id a \<le> ?N) (rs_active_timeout_bundle st)" by (auto split: option.split)
  note after = keepsD [OF assms(1) [OF this] _ x]
  have "ok ?N (rs_output_store st)" using assms(2) by (auto simp: state_ok_def split: option.split)
  with after assms(3) x show ?thesis
    by (cases x) (auto simp: with_timeout_state_def seg_ok_def state_ok_def intro: ok_less)
qed

lemma finalize_reply_ok:
  assumes "state_ok ok st" "finalize_reply env reply pending reuse n st = (r, st')"
  shows "state_ok ok st' \<and> (\<forall>err. r \<noteq> Failed err)"
proof -
  let ?f = "finalize_reply_segment env (prepare_reply_material reply n) pending reuse"
  obtain x st1 where x: "with_timeout_state ?f st = (x, st1)" by force
  have "state_ok ok st1 \<and> (\<forall>err. x \<noteq> Failed err)"
    by (rule with_timeout_state_ok [OF finalize_reply_segment_ok assms(1) x])
  with x assms(2) show ?thesis by (cases x) (auto simp: finalize_reply_def Let_def)
qed

lemma clear_ok:
  assumes "state_ok ok st" "clear_active_timeout_bundle env st = (r, st')"
  shows "state_ok ok st'"
proof (cases "rs_active_timeout_bundle st")
  case None
  with assms show ?thesis by (auto simp: clear_active_timeout_bundle_def state_ok_def)
next
  case (Some a)
  obtain x s' where x: "run_state (finish_bundle env a) (rs_output_store st) = (x, s')" by force
  have "ok 0 s'" using keepsD [OF finish_bundle_ok _ x, of 0] assms(1) by (cases x) (auto simp: state_ok_def)
  with assms(2) Some x show ?thesis by (cases x) (auto simp: clear_active_timeout_bundle_def state_ok_def)
qed

lemma cleared_ok:
  assumes "state_ok ok st" "cleared env st result = (r, st')"
  shows "state_ok ok st' \<and> (\<forall>err. r \<noteq> Failed err)"
proof -
  obtain x st1 where x: "clear_active_timeout_bundle env st = (x, st1)" by force
  with clear_ok [OF assms(1) x] assms(2) show ?thesis by (cases x) (auto simp: cleared_def)
qed

lemma finalize_worker_result_ok:
  assumes "state_ok ok st" "finalize_worker_result env result pending reuse n st = (r, st')"
  shows "state_ok ok st' \<and> (\<forall>err. r \<noteq> Failed err)"
proof (cases result)
  case (Inl err)
  with cleared_ok [OF assms(1)] assms(2) show ?thesis by (simp add: finalize_worker_result_def)
next
  case (Inr reply)
  with finalize_reply_ok [OF assms(1)] assms(2) show ?thesis by (simp add: finalize_worker_result_def)
qed

lemma materialize_inline_ok:
  assumes "state_ok ok st" "materialize_worker_result_inline env result n st = (r, st')"
  shows "state_ok ok st' \<and> (\<forall>err. r \<noteq> Failed err)"
proof (cases "has_timeout_bundle_state st")
  case True
  with cleared_ok [OF assms(1)] assms(2) show ?thesis by (simp add: materialize_worker_result_inline_def Let_def)
next
  case False
  with assms show ?thesis by (auto simp: materialize_worker_result_inline_def Let_def)
qed

lemma shutdown_ok:
  assumes "state_ok ok st" "shutdown_responses env st = (r, st')"
  shows "state_ok ok st'"
proof -
  obtain x s' where x: "run_state (cleanup_now env) (rs_output_store st) = (x, s')" by force
  have "ok 0 s'" using keepsD [OF cleanup_ok _ x, of 0] assms(1) by (cases x) (auto simp: state_ok_def)
  with assms(2) x show ?thesis by (auto simp: shutdown_responses_def state_ok_def)
qed

lemma retire_ok:
  assumes "state_ok ok st"
  shows "state_ok ok (retire_disclosed_timeout_bundle st)" "state_ok ok (retire_timeout_bundle_if_matches i st)"
  using assms by (auto simp: retire_disclosed_timeout_bundle_def retire_timeout_bundle_if_matches_def state_ok_def)

end

section \<open>The quotas hold\<close>

lemma store_ok_ready: "store_ok N s \<Longrightarrow> i \<le> N \<Longrightarrow> ready N False i s"
  by (rule store_ok_room) (auto simp: store_ok_def)

interpretation counters: bundle_store store_ok
proof
  show "store_ok M s" if "store_ok N s" "M \<le> N" for N M s using that by (simp add: store_ok_def)
  show "store_ok (max N M) s" if "store_ok N s" "store_ok M s" for N M s using that by (simp add: store_ok_def)
  show "keeps (store_ok N) (new_bundle_preserving env protected) (\<lambda>a s. store_ok N s \<and> store_ok (ab_id a) s)
      (store_ok N) (store_ok N)" for N env protected
    by (rule keeps_post [OF keeps_exits [OF keeps_new_bundle]])
      (auto dest: room_store_ok simp: store_ok_def)
  show "keeps (store_ok N) (append_items env a items) (\<lambda>pr s. store_ok N s \<and> ab_id (ap_bundle pr) = ab_id a)
      (store_ok N) (store_ok N)" if "ab_id a \<le> N" for a N env items
    by (rule keeps_exits [OF keeps_conseq [OF keeps_append_items [OF refl, of N False]]])
      (use that in \<open>auto simp: gone_def intro: room_store_ok store_ok_ready\<close>)
  show "keeps (store_ok N) (remove_bundle env i) (\<lambda>_. store_ok N) (store_ok N) (store_ok N)" for N env i
    by (rule keeps_exits [OF keeps_remove_bundle]) auto
  show "keeps (store_ok N) (cleanup_now env) (\<lambda>_. store_ok N) (store_ok N) (store_ok N)" for N env
    by (rule keeps_exits [OF keeps_cleanup_now]) auto
qed

text \<open>The states that the methods reach from a new one, with any failures of the file system.\<close>

inductive responds :: "output_store_limits \<Rightarrow> response_state \<Rightarrow> bool" for limits where
  start: "responds limits (response_state_new limits)"
| reply: "responds limits st \<Longrightarrow> finalize_worker_result env result pending reuse n st = (r, st') \<Longrightarrow>
    responds limits st'"
| inline: "responds limits st \<Longrightarrow> materialize_worker_result_inline env result n st = (r, st') \<Longrightarrow>
    responds limits st'"
| clear: "responds limits st \<Longrightarrow> clear_active_timeout_bundle env st = (r', st') \<Longrightarrow> responds limits st'"
| retire: "responds limits st \<Longrightarrow> responds limits (retire_disclosed_timeout_bundle st)"
| retire_matching: "responds limits st \<Longrightarrow> responds limits (retire_timeout_bundle_if_matches i st)"
| shutdown: "responds limits st \<Longrightarrow> shutdown_responses env st = (r', st') \<Longrightarrow> responds limits st'"

lemma responds_counters:
  assumes "responds limits st" "lim_max_bundle_bytes limits \<le> u64_max" "lim_max_total_bytes limits < u64_max"
  shows "state_ok store_ok st"
  using assms(1)
proof induction
  case start
  show ?case using store_ok_new [OF assms(2,3)] by (simp add: response_state_new_def state_ok_def)
qed (blast dest: counters.finalize_worker_result_ok counters.materialize_inline_ok counters.clear_ok
    counters.shutdown_ok counters.retire_ok)+


definition sample_state :: response_state where
  "sample_state = response_state_new
     \<lparr>lim_max_bundle_count = 20, lim_max_bundle_bytes = 2 ^ 30, lim_max_total_bytes = 2 * 2 ^ 30\<rparr>"

text \<open>A reply with five plots, which goes to a bundle.\<close>

definition sample_reply :: worker_reply where
  "sample_reply =
     \<lparr>reply_contents = map (\<lambda>i. ContentImage ''iVBO'' ''image/png'' [i] True) ''abcde'', reply_is_error = False,
      reply_error_code = Some Timeout, reply_prompt = None, reply_prompt_variants = None\<rparr>"




end
