(* ===== verification/Host_Policy.thy ===== *)
theory Host_Policy
  imports Rust_Prelude
begin

text \<open>
  The rules by which the managed proxy (\<^verbatim>\<open>src/src/managed_network.rs\<close>) decides which hosts and addresses
  a worker may reach: domain patterns, the normal form of a host name, the ranges of addresses that are
  not public, and \<^verbatim>\<open>HostPolicy\<close> with its two questions. The parser and the printer of IP addresses in
  \<^verbatim>\<open>std::net\<close> are modelled as the standard library has them: an address is its octets, a name that is not
  an address in the strict notation of the parser is a host name.
\<close>

section \<open>Addresses\<close>

datatype ip_addr = V4 u8 u8 u8 u8 | V6 (ip_octets: "u8 list")

type_synonym socket_addr = "ip_addr \<times> nat"

abbreviation addr_ip :: "socket_addr \<Rightarrow> ip_addr" where
  "addr_ip \<equiv> fst"

fun digit_value :: "nat \<Rightarrow> char \<Rightarrow> nat option" where
  "digit_value radix b =
     (if is_digit b then Some (ord b - 48)
      else if radix = 16 \<and> 97 \<le> ord b \<and> ord b \<le> 102 then Some (ord b - 87)
      else if radix = 16 \<and> 65 \<le> ord b \<and> ord b \<le> 70 then Some (ord b - 55)
      else None)"

declare digit_value.simps [simp del]

text \<open>
  \<^verbatim>\<open>Parser::read_number\<close>: as many digits as there are, with a limit on their number and on the value,
  and with or without a leading zero. The rest of the input is returned beside the number.
\<close>

definition read_number :: "nat \<Rightarrow> nat \<Rightarrow> nat \<Rightarrow> bool \<Rightarrow> string \<Rightarrow> (nat \<times> string) option" where
  "read_number radix largest max_digits allow_zero_prefix s =
     (let ds = takeWhile (\<lambda>b. digit_value radix b \<noteq> None) s;
          v = foldl (\<lambda>acc b. radix * acc + unwrap_or (digit_value radix b) 0) 0 ds
      in if ds = [] \<or> length ds > max_digits \<or> v > largest then None
         else if \<not> allow_zero_prefix \<and> hd ds = CHR ''0'' \<and> length ds > 1 then None
         else Some (v, drop (length ds) s))"

definition read_given_char :: "char \<Rightarrow> string \<Rightarrow> string option" where
  "read_given_char b s = (case s of [] \<Rightarrow> None | c # r \<Rightarrow> if c = b then Some r else None)"

definition read_separator :: "char \<Rightarrow> nat \<Rightarrow> (string \<Rightarrow> 'a option) \<Rightarrow> string \<Rightarrow> 'a option" where
  "read_separator sep index inner s =
     (if index > 0 then Option.bind (read_given_char sep s) inner else inner s)"

definition read_octet :: "nat \<Rightarrow> string \<Rightarrow> (nat \<times> string) option" where
  "read_octet index = read_separator (CHR ''.'') index (read_number 10 255 3 False)"

definition read_ipv4_addr :: "string \<Rightarrow> ((nat \<times> nat \<times> nat \<times> nat) \<times> string) option" where
  "read_ipv4_addr s =
     Option.bind (read_octet 0 s) (\<lambda>(a, s1).
     Option.bind (read_octet 1 s1) (\<lambda>(b, s2).
     Option.bind (read_octet 2 s2) (\<lambda>(c, s3).
     Option.bind (read_octet 3 s3) (\<lambda>(d, s4). Some ((a, b, c, d), s4)))))"

text \<open>
  \<^verbatim>\<open>read_groups\<close> of the IPv6 parser: the groups that were read so far, whether they end in an embedded
  IPv4 address, and the rest of the input.
\<close>

function read_groups :: "nat \<Rightarrow> nat list \<Rightarrow> string \<Rightarrow> nat list \<times> bool \<times> string" where
  "read_groups limit groups s =
     (let i = length groups
      in if i \<ge> limit then (groups, False, s)
         else case (if i < limit - 1 then read_separator (CHR '':'') i read_ipv4_addr s else None) of
                Some ((a, b, c, d), r) \<Rightarrow> (groups @ [a * 256 + b, c * 256 + d], True, r)
              | None \<Rightarrow>
                  (case read_separator (CHR '':'') i (read_number 16 65535 4 True) s of
                     Some (g, r) \<Rightarrow> read_groups limit (groups @ [g]) r
                   | None \<Rightarrow> (groups, False, s)))"
  by pat_completeness auto
termination
  by (relation "measure (\<lambda>(limit, groups, s). limit - length groups)") auto

declare read_groups.simps [simp del]

definition octets_of_groups :: "nat list \<Rightarrow> u8 list" where
  "octets_of_groups groups = concat (map (\<lambda>g. [char_of (g div 256), char_of (g mod 256)]) groups)"

definition read_ipv6_addr :: "string \<Rightarrow> (nat list \<times> string) option" where
  "read_ipv6_addr s =
     (case read_groups 8 [] s of
        (front, front_ipv4, r) \<Rightarrow>
          if length front = 8 then Some (front, r)
          else if front_ipv4 then None
          else Option.bind (read_given_char (CHR '':'') r) (\<lambda>r1.
               Option.bind (read_given_char (CHR '':'') r1) (\<lambda>r2.
                 case read_groups (8 - (length front + 1)) [] r2 of
                   (back, _, r3) \<Rightarrow>
                     Some (front @ replicate (8 - length front - length back) 0 @ back, r3))))"

text \<open>\<^verbatim>\<open>str::parse::<Ipv4Addr>\<close> and \<^verbatim>\<open>str::parse::<IpAddr>\<close>: the whole input has to be read.\<close>

definition ipv4_of_numbers :: "nat \<times> nat \<times> nat \<times> nat \<Rightarrow> ip_addr" where
  "ipv4_of_numbers n = (case n of (a, b, c, d) \<Rightarrow> V4 (char_of a) (char_of b) (char_of c) (char_of d))"

definition parse_ipv4 :: "string \<Rightarrow> ip_addr option" where
  "parse_ipv4 s =
     (if length s > 15 then None
      else case read_ipv4_addr s of
             Some (n, r) \<Rightarrow> if r = [] then Some (ipv4_of_numbers n) else None
           | None \<Rightarrow> None)"

definition parse_ip :: "string \<Rightarrow> ip_addr option" where
  "parse_ip s =
     (case (case read_ipv4_addr s of
              Some (n, r) \<Rightarrow> Some (ipv4_of_numbers n, r)
            | None \<Rightarrow> map_option (\<lambda>(gs, r). (V6 (octets_of_groups gs), r)) (read_ipv6_addr s)) of
        Some (ip, r) \<Rightarrow> if r = [] then Some ip else None
      | None \<Rightarrow> None)"

text \<open>\<^verbatim>\<open>Display\<close> of addresses: dotted decimal, and the shortest form of an IPv6 address.\<close>

definition ipv4_to_string :: "u8 \<Rightarrow> u8 \<Rightarrow> u8 \<Rightarrow> u8 \<Rightarrow> string" where
  "ipv4_to_string a b c d = join ''.'' (map (\<lambda>o'. dec (ord o')) [a, b, c, d])"

definition lower_hex_digit :: "nat \<Rightarrow> char" where
  "lower_hex_digit n = (if n < 10 then char_of (48 + n) else char_of (87 + n))"

fun lower_hex :: "nat \<Rightarrow> string" where
  "lower_hex n = (if n < 16 then [lower_hex_digit n] else lower_hex (n div 16) @ [lower_hex_digit (n mod 16)])"

declare lower_hex.simps [simp del]

fun segments :: "u8 list \<Rightarrow> nat list" where
  "segments (a # b # r) = (ord a * 256 + ord b) # segments r"
| "segments _ = []"

text \<open>The first longest run of zero segments, as its start and its length.\<close>

fun zero_span :: "nat \<Rightarrow> nat \<times> nat \<Rightarrow> nat \<times> nat \<Rightarrow> nat list \<Rightarrow> nat \<times> nat" where
  "zero_span i current longest [] = longest"
| "zero_span i current longest (g # gs) =
     (if g = 0 then
        (let current1 = (if snd current = 0 then i else fst current, snd current + 1)
         in zero_span (i + 1) current1 (if snd current1 > snd longest then current1 else longest) gs)
      else zero_span (i + 1) (0, 0) longest gs)"

definition ipv4_mapped_from_ipv6 :: "u8 list \<Rightarrow> ip_addr option" where
  "ipv4_mapped_from_ipv6 octets =
     (if take 10 octets = replicate 10 (CHR 0x00) \<and> octets ! 10 = CHR 0xFF \<and> octets ! 11 = CHR 0xFF
      then Some (V4 (octets ! 12) (octets ! 13) (octets ! 14) (octets ! 15))
      else None)"

definition ipv6_to_string :: "u8 list \<Rightarrow> string" where
  "ipv6_to_string octets =
     (case ipv4_mapped_from_ipv6 octets of
        Some (V4 a b c d) \<Rightarrow> ''::ffff:'' @ ipv4_to_string a b c d
      | _ \<Rightarrow>
          (let gs = segments octets;
               (start, len) = zero_span 0 (0, 0) (0, 0) gs;
               show_groups = (\<lambda>xs. join '':'' (map lower_hex xs))
           in if len > 1 then show_groups (take start gs) @ ''::'' @ show_groups (drop (start + len) gs)
              else show_groups gs))"

section \<open>Addresses that are not public\<close>

definition ipv4_is_loopback :: "u8 \<Rightarrow> bool" where
  "ipv4_is_loopback a \<longleftrightarrow> ord a = 127"

definition ipv4_is_private :: "u8 \<Rightarrow> u8 \<Rightarrow> bool" where
  "ipv4_is_private a b \<longleftrightarrow>
     ord a = 10 \<or> (ord a = 172 \<and> 16 \<le> ord b \<and> ord b \<le> 31) \<or> (ord a = 192 \<and> ord b = 168)"

definition is_non_public_ipv4 :: "u8 \<Rightarrow> u8 \<Rightarrow> u8 \<Rightarrow> u8 \<Rightarrow> bool" where
  "is_non_public_ipv4 a b c d \<longleftrightarrow>
     ipv4_is_loopback a \<or>
     ipv4_is_private a b \<or>
     (ord a = 169 \<and> ord b = 254) \<or>
     (ord a = 0 \<and> ord b = 0 \<and> ord c = 0 \<and> ord d = 0) \<or>
     (ord a = 255 \<and> ord b = 255 \<and> ord c = 255 \<and> ord d = 255) \<or>
     (224 \<le> ord a \<and> ord a \<le> 239) \<or>
     ord a = 0 \<or>
     (ord a = 100 \<and> 64 \<le> ord b \<and> ord b \<le> 127) \<or>
     (ord a = 192 \<and> ord b = 0 \<and> ord c = 0) \<or>
     (ord a = 192 \<and> ord b = 0 \<and> ord c = 2) \<or>
     (ord a = 192 \<and> ord b = 88 \<and> ord c = 99) \<or>
     (ord a = 198 \<and> (ord b = 18 \<or> ord b = 19)) \<or>
     (ord a = 198 \<and> ord b = 51 \<and> ord c = 100) \<or>
     (ord a = 203 \<and> ord b = 0 \<and> ord c = 113) \<or>
     ord a \<ge> 240"

definition ipv6_is_loopback :: "u8 list \<Rightarrow> bool" where
  "ipv6_is_loopback octets \<longleftrightarrow> octets = replicate 15 (CHR 0x00) @ [CHR 0x01]"

definition is_non_public_ipv6 :: "u8 list \<Rightarrow> bool" where
  "is_non_public_ipv6 octets \<longleftrightarrow>
     (case ipv4_mapped_from_ipv6 octets of
        Some (V4 a b c d) \<Rightarrow> is_non_public_ipv4 a b c d
      | _ \<Rightarrow>
          ipv6_is_loopback octets \<or>
          octets = replicate 16 (CHR 0x00) \<or>
          ord (octets ! 0) div 2 = 126 \<or>
          (ord (octets ! 0) = 254 \<and> ord (octets ! 1) div 64 = 2) \<or>
          ord (octets ! 0) = 255)"

definition is_non_public_ip :: "ip_addr \<Rightarrow> bool" where
  "is_non_public_ip ip =
     (case ip of V4 a b c d \<Rightarrow> is_non_public_ipv4 a b c d | V6 octets \<Rightarrow> is_non_public_ipv6 octets)"

definition is_loopback_ip :: "ip_addr \<Rightarrow> bool" where
  "is_loopback_ip ip =
     (case ip of
        V4 a b c d \<Rightarrow> ipv4_is_loopback a
      | V6 octets \<Rightarrow>
          (case ipv4_mapped_from_ipv6 octets of Some (V4 a b c d) \<Rightarrow> ipv4_is_loopback a | _ \<Rightarrow> False) \<or>
          ipv6_is_loopback octets)"

definition is_local_or_private_host :: "string \<Rightarrow> bool" where
  "is_local_or_private_host host \<longleftrightarrow>
     host = ''localhost'' \<or>
     (case parse_ip host of Some ip \<Rightarrow> is_non_public_ip ip | None \<Rightarrow> False)"

section \<open>Host names and domain patterns\<close>

definition eq_ignore_ascii_case :: "bytes \<Rightarrow> bytes \<Rightarrow> bool" where
  "eq_ignore_ascii_case s t \<longleftrightarrow> to_ascii_lowercase s = to_ascii_lowercase t"

definition normalize_host :: "string \<Rightarrow> string" where
  "normalize_host raw =
     (let host = to_ascii_lowercase (trim_end_matches (\<lambda>c. c = ''.'') (trim raw))
      in if starts_with host ''['' \<and> ends_with host '']'' \<and> length host > 2
         then slice host 1 (length host - 1)
         else host)"

definition host_contains_control_chars :: "string \<Rightarrow> bool" where
  "host_contains_control_chars host \<longleftrightarrow> list_ex (\<lambda>b. ord b < 32 \<or> ord b = 127) host"

datatype dns_error =
    DomainWithoutDot | DomainDotAtEnd | EmptyLabel | LabelHyphenAtEnd | LabelCharacter

text \<open>The messages of \<^verbatim>\<open>validate_domain_pattern\<close>; a constructor keeps what its message quotes.\<close>

datatype pattern_error =
    EmptyPattern
  | NotAHostPattern string
  | GlobalWildcard
  | UnsupportedWildcard string
  | InvalidDnsName string dns_error

fun validate_labels :: "string list \<Rightarrow> dns_error + unit" where
  "validate_labels [] = Inr ()"
| "validate_labels (part # parts) =
     (if part = [] then Inl EmptyLabel
      else if starts_with part ''-'' \<or> ends_with part ''-'' then Inl LabelHyphenAtEnd
      else if \<not> list_all (\<lambda>b. is_digit b \<or> (65 \<le> ord b \<and> ord b \<le> 90) \<or> (97 \<le> ord b \<and> ord b \<le> 122) \<or>
                              b = CHR ''-'') part
      then Inl LabelCharacter
      else validate_labels parts)"

abbreviation split_dots :: "string \<Rightarrow> string list" where
  "split_dots \<equiv> split_on (\<lambda>b. b = CHR ''.'')"

definition validate_dns_name :: "string \<Rightarrow> dns_error + unit" where
  "validate_dns_name domain =
     (if CHR ''.'' \<notin> set domain then Inl DomainWithoutDot
      else if starts_with domain ''.'' \<or> ends_with domain ''.'' then Inl DomainDotAtEnd
      else validate_labels (split_dots domain))"

fun contains_str :: "string \<Rightarrow> string \<Rightarrow> bool" where
  "contains_str [] t \<longleftrightarrow> t = []"
| "contains_str (b # s) t \<longleftrightarrow> starts_with (b # s) t \<or> contains_str s t"

definition strip_wildcard :: "string \<Rightarrow> string" where
  "strip_wildcard pattern =
     (case strip_prefix pattern ''**.'' of
        Some domain \<Rightarrow> domain
      | None \<Rightarrow> (case strip_prefix pattern ''*.'' of Some domain \<Rightarrow> domain | None \<Rightarrow> pattern))"

definition validate_domain_pattern :: "string \<Rightarrow> pattern_error + unit" where
  "validate_domain_pattern raw =
     (let pattern = trim raw
      in if pattern = [] then Inl EmptyPattern
         else if contains_str pattern ''://'' \<or> CHR ''/'' \<in> set pattern \<or> CHR '':'' \<in> set pattern
         then Inl (NotAHostPattern pattern)
         else if pattern = ''*'' then Inl GlobalWildcard
         else
           (let domain = strip_wildcard pattern
            in if CHR ''*'' \<in> set domain then Inl (UnsupportedWildcard pattern)
               else if eq_ignore_ascii_case domain ''localhost'' \<or> parse_ipv4 domain \<noteq> None then Inr ()
               else case validate_dns_name domain of
                      Inl e \<Rightarrow> Inl (InvalidDnsName pattern e)
                    | Inr _ \<Rightarrow> Inr ()))"

fun validate_domain_patterns :: "string \<Rightarrow> string list \<Rightarrow> (string \<times> pattern_error) + unit" where
  "validate_domain_patterns label [] = Inr ()"
| "validate_domain_patterns label (pattern # patterns) =
     (case validate_domain_pattern pattern of
        Inl e \<Rightarrow> Inl (label, e)
      | Inr _ \<Rightarrow> validate_domain_patterns label patterns)"

datatype domain_pattern =
    Exact string | SubdomainsOnly string | ApexAndSubdomains string

definition pattern_parse :: "string \<Rightarrow> pattern_error + domain_pattern" where
  "pattern_parse raw =
     (case validate_domain_pattern raw of
        Inl e \<Rightarrow> Inl e
      | Inr _ \<Rightarrow>
          (let normalized = normalize_host raw
           in case strip_prefix normalized ''**.'' of
                Some domain \<Rightarrow> Inr (ApexAndSubdomains domain)
              | None \<Rightarrow>
                  (case strip_prefix normalized ''*.'' of
                     Some domain \<Rightarrow> Inr (SubdomainsOnly domain)
                   | None \<Rightarrow> Inr (Exact normalized))))"

definition is_subdomain :: "string \<Rightarrow> string \<Rightarrow> bool" where
  "is_subdomain host domain \<longleftrightarrow>
     length host > length domain \<and> ends_with host domain \<and>
     list_get host (length host - length domain - 1) = Some (CHR ''.'')"

fun pattern_matches :: "domain_pattern \<Rightarrow> string \<Rightarrow> bool" where
  "pattern_matches (Exact pattern) host \<longleftrightarrow> host = pattern"
| "pattern_matches (SubdomainsOnly domain) host \<longleftrightarrow> is_subdomain host domain"
| "pattern_matches (ApexAndSubdomains domain) host \<longleftrightarrow> host = domain \<or> is_subdomain host domain"

section \<open>The policy\<close>

record managed_network_policy =
  np_allowed_domains :: "string list"
  np_denied_domains :: "string list"
  np_allow_local_binding :: bool

definition has_domain_restrictions :: "managed_network_policy \<Rightarrow> bool" where
  "has_domain_restrictions policy \<longleftrightarrow> np_allowed_domains policy \<noteq> [] \<or> np_denied_domains policy \<noteq> []"

record managed_proxy_config =
  pc_allowed_domains :: "string list"
  pc_denied_domains :: "string list"
  pc_allow_local_binding :: bool

datatype managed_network_error =
    InvalidDomainPatterns string pattern_error
  | InvalidDomainPattern pattern_error
  | NetworkIo string

definition config_from_policy :: "managed_network_policy \<Rightarrow> managed_network_error + managed_proxy_config" where
  "config_from_policy policy =
     (case validate_domain_patterns ''permissions.network.allowed_domains'' (np_allowed_domains policy) of
        Inl (label, e) \<Rightarrow> Inl (InvalidDomainPatterns label e)
      | Inr _ \<Rightarrow>
          (case validate_domain_patterns ''permissions.network.denied_domains'' (np_denied_domains policy) of
             Inl (label, e) \<Rightarrow> Inl (InvalidDomainPatterns label e)
           | Inr _ \<Rightarrow>
               Inr \<lparr>pc_allowed_domains = np_allowed_domains policy,
                    pc_denied_domains = np_denied_domains policy,
                    pc_allow_local_binding = np_allow_local_binding policy\<rparr>))"

record host_policy =
  hp_allowed :: "domain_pattern list"
  hp_denied :: "domain_pattern list"
  hp_allow_local_binding :: bool

fun parse_patterns :: "string list \<Rightarrow> pattern_error + domain_pattern list" where
  "parse_patterns [] = Inr []"
| "parse_patterns (raw # raws) =
     (case pattern_parse raw of
        Inl e \<Rightarrow> Inl e
      | Inr p \<Rightarrow> (case parse_patterns raws of Inl e \<Rightarrow> Inl e | Inr ps \<Rightarrow> Inr (p # ps)))"

definition host_policy_new :: "managed_proxy_config \<Rightarrow> managed_network_error + host_policy" where
  "host_policy_new config =
     (case parse_patterns (pc_allowed_domains config) of
        Inl e \<Rightarrow> Inl (InvalidDomainPattern e)
      | Inr allowed \<Rightarrow>
          (case parse_patterns (pc_denied_domains config) of
             Inl e \<Rightarrow> Inl (InvalidDomainPattern e)
           | Inr denied \<Rightarrow>
               Inr \<lparr>hp_allowed = allowed, hp_denied = denied,
                    hp_allow_local_binding = pc_allow_local_binding config\<rparr>))"

definition policy_allows :: "host_policy \<Rightarrow> string \<Rightarrow> bool" where
  "policy_allows policy raw =
     (let host = normalize_host raw
      in if host = [] \<or> host_contains_control_chars host then False
         else if list_ex (\<lambda>p. pattern_matches p host) (hp_denied policy) then False
         else if \<not> hp_allow_local_binding policy \<and> is_local_or_private_host host then False
         else hp_allowed policy \<noteq> [] \<and> list_ex (\<lambda>p. pattern_matches p host) (hp_allowed policy))"

definition allows_socket_addr :: "host_policy \<Rightarrow> socket_addr \<Rightarrow> bool" where
  "allows_socket_addr policy addr \<longleftrightarrow>
     \<not> is_non_public_ip (addr_ip addr) \<or> (hp_allow_local_binding policy \<and> is_loopback_ip (addr_ip addr))"

section \<open>Patterns match whole labels\<close>

lemma split_on_ne [simp]: "split_on p xs \<noteq> []"
  by (induction xs) (auto split: list.splits)

lemma split_on_append:
  "p x \<Longrightarrow> split_on p (xs @ x # ys) = split_on p xs @ split_on p ys"
  by (induction xs) (auto split: list.splits)

lemma join_append: "us \<noteq> [] \<Longrightarrow> vs \<noteq> [] \<Longrightarrow> join sep (us @ vs) = join sep us @ sep @ join sep vs"
proof (induction us)
  case (Cons u us)
  obtain v vs' where "vs = v # vs'" using Cons.prems by (cases vs) auto
  with Cons show ?case by (cases us) simp_all
qed simp

lemma join_split_on: "join [b :: char] (split_on (\<lambda>c. c = b) s) = s"
proof (induction s)
  case (Cons c s)
  show ?case
  proof (cases "c = b")
    case True
    then have "join [b] (split_on (\<lambda>c. c = b) (c # s)) = [b] @ join [b] (split_on (\<lambda>c. c = b) s)"
      by (cases "split_on (\<lambda>c. c = b) s") auto
    with Cons True show ?thesis by simp
  next
    case False
    obtain w ws where sp: "split_on (\<lambda>c. c = b) s = w # ws"
      using split_on_ne [of "\<lambda>c. c = b" s] by (cases "split_on (\<lambda>c. c = b) s") blast+
    then have "join [b] (split_on (\<lambda>c. c = b) (c # s)) = c # join [b] (w # ws)"
      using False by (cases ws) auto
    with Cons sp show ?thesis by simp
  qed
qed simp

lemma split_on_inject: "split_on (\<lambda>c. c = (b :: char)) s = split_on (\<lambda>c. c = b) t \<longleftrightarrow> s = t"
  using join_split_on [of b s] join_split_on [of b t] by metis

lemma is_subdomain_append: "is_subdomain host domain \<longleftrightarrow> (\<exists>p. host = p @ ''.'' @ domain)"
proof
  assume h: "is_subdomain host domain"
  let ?k = "length host - length domain"
  from h have d: "drop ?k host = domain" and k: "?k - 1 < length host" "0 < ?k"
    and dot: "host ! (?k - 1) = CHR ''.''"
    by (auto simp: is_subdomain_def ends_with_def list_get_Some)
  have "host = take (?k - 1) host @ host ! (?k - 1) # drop (Suc (?k - 1)) host"
    using k by (simp add: id_take_nth_drop)
  moreover have "drop (Suc (?k - 1)) host = domain" using d k by (metis Suc_pred')
  ultimately have "host = take (?k - 1) host @ ''.'' @ domain" using dot by simp
  then show "\<exists>p. host = p @ ''.'' @ domain" by blast
next
  assume "\<exists>p. host = p @ ''.'' @ domain"
  then show "is_subdomain host domain"
    by (auto simp: is_subdomain_def ends_with_def list_get_def nth_append)
qed

lemma is_subdomain_labels:
  "is_subdomain host domain \<longleftrightarrow> (\<exists>ls. ls \<noteq> [] \<and> split_dots host = ls @ split_dots domain)"
proof
  assume "is_subdomain host domain"
  then obtain p where "host = p @ CHR ''.'' # domain" by (auto simp: is_subdomain_append)
  then have "split_dots host = split_dots p @ split_dots domain" by (simp add: split_on_append)
  then show "\<exists>ls. ls \<noteq> [] \<and> split_dots host = ls @ split_dots domain"
    by (intro exI [of _ "split_dots p"]) simp
next
  assume "\<exists>ls. ls \<noteq> [] \<and> split_dots host = ls @ split_dots domain"
  then obtain ls where ls: "ls \<noteq> []" "split_dots host = ls @ split_dots domain" by blast
  have "host = join ''.'' (split_dots host)" by (simp add: join_split_on)
  also have "\<dots> = join ''.'' ls @ ''.'' @ domain" using ls by (simp add: join_append join_split_on)
  finally show "is_subdomain host domain" by (auto simp: is_subdomain_append)
qed

text \<open>
  C34. A domain pattern matches by whole labels: an exact pattern its own labels, \<^verbatim>\<open>*.domain\<close> the
  domain's labels behind at least one more, \<^verbatim>\<open>**.domain\<close> behind any number. So \<^verbatim>\<open>*.example.com\<close> does not
  match \<^verbatim>\<open>badexample.com\<close>.
\<close>

theorem pattern_matches_labels:
  "pattern_matches p host \<longleftrightarrow>
     (case p of
        Exact domain \<Rightarrow> split_dots host = split_dots domain
      | SubdomainsOnly domain \<Rightarrow> (\<exists>ls. ls \<noteq> [] \<and> split_dots host = ls @ split_dots domain)
      | ApexAndSubdomains domain \<Rightarrow> (\<exists>ls. split_dots host = ls @ split_dots domain))"
proof (cases p)
  case (ApexAndSubdomains domain)
  have "(\<exists>ls. split_dots host = ls @ split_dots domain) \<longleftrightarrow>
        split_dots host = split_dots domain \<or> is_subdomain host domain"
    by (metis append_Nil is_subdomain_labels)
  with ApexAndSubdomains show ?thesis by (simp add: split_on_inject)
qed (simp_all add: split_on_inject is_subdomain_labels)

section \<open>The ranges that are not public\<close>

definition ipv4_number :: "u8 \<Rightarrow> u8 \<Rightarrow> u8 \<Rightarrow> u8 \<Rightarrow> nat" where
  "ipv4_number a b c d = ((ord a * 256 + ord b) * 256 + ord c) * 256 + ord d"

definition in_block :: "nat \<Rightarrow> nat list \<times> nat \<Rightarrow> bool" where
  "in_block n block \<longleftrightarrow>
     (case block of (base, len) \<Rightarrow>
        n div 2 ^ (32 - len) = foldl (\<lambda>acc x. acc * 256 + x) 0 base div 2 ^ (32 - len))"

definition special_blocks :: "(nat list \<times> nat) list" where
  "special_blocks =
     [([0, 0, 0, 0], 8), ([10, 0, 0, 0], 8), ([100, 64, 0, 0], 10), ([127, 0, 0, 0], 8),
      ([169, 254, 0, 0], 16), ([172, 16, 0, 0], 12), ([192, 0, 0, 0], 24), ([192, 0, 2, 0], 24),
      ([192, 88, 99, 0], 24), ([192, 168, 0, 0], 16), ([198, 18, 0, 0], 15), ([198, 51, 100, 0], 24),
      ([203, 0, 113, 0], 24), ([224, 0, 0, 0], 4), ([240, 0, 0, 0], 4)]"

lemma ord_less [simp]: "ord (c :: char) < 256"
  using of_char_mod_256 [of c] by (metis mod_less_divisor zero_less_numeral)

lemma shifted_div: "d < 256 \<Longrightarrow> (x * 256 + d) div (256 * m) = x div (m :: nat)"
  by (simp add: div_mult2_eq)

lemma block_sizes:
  "(2 :: nat) ^ 28 = 256 * (256 * (256 * 16))" "(2 :: nat) ^ 24 = 256 * (256 * (256 * 1))"
  "(2 :: nat) ^ 22 = 256 * (256 * 64)" "(2 :: nat) ^ 20 = 256 * (256 * 16)"
  "(2 :: nat) ^ 17 = 256 * (256 * 2)" "(2 :: nat) ^ 16 = 256 * (256 * 1)"
  "(2 :: nat) ^ 8 = 256 * 1"
  by simp_all

lemma mixed_digits:
  fixes k :: nat
  assumes "b < k" "y < k"
  shows "a * k + b = x * k + y \<longleftrightarrow> a = x \<and> b = y"
proof
  assume eq: "a * k + b = x * k + y"
  then have "(a * k + b) div k = (x * k + y) div k" "(a * k + b) mod k = (x * k + y) mod k" by simp_all
  with assms show "a = x \<and> b = y" by simp
qed simp

lemma range_of_div: "m \<noteq> 0 \<Longrightarrow> (b :: nat) div m = q \<longleftrightarrow> q * m \<le> b \<and> b < q * m + m"
  by (metis div_nat_eqI dividend_less_div_times less_eq_div_iff_mult_less_eq mult.commute
      mult_Suc_right not_gr_zero order_refl add.commute)

text \<open>Membership in a block, octet by octet.\<close>

lemma block_octets:
  fixes n :: nat
  assumes n: "n = ((a * 256 + b) * 256 + c) * 256 + d" and lt: "b < 256" "c < 256" "d < 256"
  shows "n div 2 ^ 28 = q \<longleftrightarrow> q * 16 \<le> a \<and> a < q * 16 + 16"
    and "n div 2 ^ 24 = a"
    and "y < 4 \<Longrightarrow> n div 2 ^ 22 = x * 4 + y \<longleftrightarrow> a = x \<and> y * 64 \<le> b \<and> b < y * 64 + 64"
    and "y < 16 \<Longrightarrow> n div 2 ^ 20 = x * 16 + y \<longleftrightarrow> a = x \<and> y * 16 \<le> b \<and> b < y * 16 + 16"
    and "y < 128 \<Longrightarrow> n div 2 ^ 17 = x * 128 + y \<longleftrightarrow> a = x \<and> y * 2 \<le> b \<and> b < y * 2 + 2"
    and "y < 256 \<Longrightarrow> n div 2 ^ 16 = x * 256 + y \<longleftrightarrow> a = x \<and> b = y"
    and "y < 256 \<Longrightarrow> z < 256 \<Longrightarrow> n div 2 ^ 8 = (x * 256 + y) * 256 + z \<longleftrightarrow> a = x \<and> b = y \<and> c = z"
proof -
  note sizes = n block_sizes shifted_div [OF lt(1)] shifted_div [OF lt(2)] shifted_div [OF lt(3)]
  have parts: "(a * 256 + b) div 64 = a * 4 + b div 64" "(a * 256 + b) div 16 = a * 16 + b div 16"
    "(a * 256 + b) div 2 = a * 128 + b div 2"
    using div_mult_self3 [of 64 "a * 4" b] div_mult_self3 [of 16 "a * 16" b]
      div_mult_self3 [of 2 "a * 128" b] by simp_all
  have small: "b div 64 < 4" "b div 16 < 16" "b div 2 < 128" using lt by simp_all
  show "n div 2 ^ 28 = q \<longleftrightarrow> q * 16 \<le> a \<and> a < q * 16 + 16"
    unfolding sizes by (rule range_of_div) simp
  show "n div 2 ^ 24 = a" unfolding sizes by simp
  show "n div 2 ^ 22 = x * 4 + y \<longleftrightarrow> a = x \<and> y * 64 \<le> b \<and> b < y * 64 + 64" if "y < 4"
    unfolding sizes parts mixed_digits [OF small(1) that] by (simp add: range_of_div)
  show "n div 2 ^ 20 = x * 16 + y \<longleftrightarrow> a = x \<and> y * 16 \<le> b \<and> b < y * 16 + 16" if "y < 16"
    unfolding sizes parts mixed_digits [OF small(2) that] by (simp add: range_of_div)
  show "n div 2 ^ 17 = x * 128 + y \<longleftrightarrow> a = x \<and> y * 2 \<le> b \<and> b < y * 2 + 2" if "y < 128"
    unfolding sizes parts mixed_digits [OF small(3) that] by (simp add: range_of_div)
  show "n div 2 ^ 16 = x * 256 + y \<longleftrightarrow> a = x \<and> b = y" if "y < 256"
    unfolding sizes div_by_1 by (rule mixed_digits [OF lt(1) that])
  show "n div 2 ^ 8 = (x * 256 + y) * 256 + z \<longleftrightarrow> a = x \<and> b = y \<and> c = z" if "y < 256" "z < 256"
    unfolding sizes div_by_1 by (simp only: mixed_digits [OF lt(2) that(2)] mixed_digits [OF lt(1) that(1)] conj_assoc)
qed

text \<open>
  C35. The addresses that are not public are those of the special-purpose blocks: this network, private
  use, shared address space, loopback, link local, protocol assignments, documentation, 6to4 relays,
  benchmarking, multicast and reserved.
\<close>

theorem non_public_ipv4_blocks:
  "is_non_public_ipv4 a b c d \<longleftrightarrow> list_ex (in_block (ipv4_number a b c d)) special_blocks"
proof -
  let ?n = "ipv4_number a b c d"
  note oct = block_octets [OF ipv4_number_def [of a b c d] ord_less ord_less ord_less]
  have b0: "?n div 268435456 = 14 \<longleftrightarrow> 224 \<le> ord a \<and> ord a \<le> 239"
    using oct(1) [of 14] by (simp; linarith)
  have b1: "?n div 268435456 = 15 \<longleftrightarrow> 240 \<le> ord a"
    using oct(1) [of 15] ord_less [of a] by (simp; linarith)
  have b2: "?n div 16777216 = ord a"
    using oct(2) by (simp; linarith)
  have b3: "?n div 4194304 = 401 \<longleftrightarrow> ord a = 100 \<and> 64 \<le> ord b \<and> ord b \<le> 127"
    using oct(3) [of 1 100] by (simp; linarith)
  have b4: "?n div 1048576 = 2753 \<longleftrightarrow> ord a = 172 \<and> 16 \<le> ord b \<and> ord b \<le> 31"
    using oct(4) [of 1 172] by (simp; linarith)
  have b5: "?n div 131072 = 25353 \<longleftrightarrow> ord a = 198 \<and> (ord b = 18 \<or> ord b = 19)"
    using oct(5) [of 9 198] by (simp; linarith)
  have pre:
    "?n div 65536 = 43518 \<longleftrightarrow> ord a = 169 \<and> ord b = 254"
    "?n div 65536 = 49320 \<longleftrightarrow> ord a = 192 \<and> ord b = 168"
    "?n div 256 = 12582912 \<longleftrightarrow> ord a = 192 \<and> ord b = 0 \<and> ord c = 0"
    "?n div 256 = 12582914 \<longleftrightarrow> ord a = 192 \<and> ord b = 0 \<and> ord c = 2"
    "?n div 256 = 12605539 \<longleftrightarrow> ord a = 192 \<and> ord b = 88 \<and> ord c = 99"
    "?n div 256 = 12989284 \<longleftrightarrow> ord a = 198 \<and> ord b = 51 \<and> ord c = 100"
    "?n div 256 = 13303921 \<longleftrightarrow> ord a = 203 \<and> ord b = 0 \<and> ord c = 113"
    using oct(6) [of 254 169]
      oct(6) [of 168 192]
      oct(7) [of 0 0 192]
      oct(7) [of 0 2 192]
      oct(7) [of 88 99 192]
      oct(7) [of 51 100 198]
      oct(7) [of 0 113 203] by simp_all
  note blocks = b0 b1 b2 b3 b4 b5 pre
  show ?thesis
    unfolding is_non_public_ipv4_def ipv4_is_loopback_def ipv4_is_private_def special_blocks_def
      in_block_def
    by (simp add: blocks) (rule iffI; elim disjE conjE; simp)
qed

section \<open>IPv4 literals\<close>

lemma digit_value_10: "digit_value 10 b = (if is_digit b then Some (ord b - 48) else None)"
  by (simp add: digit_value.simps)

lemma dec_small: "n < 10 \<Longrightarrow> dec n = [char_of (48 + n)]"
  by (simp add: dec.simps)

lemma dec_hundreds:
  "10 \<le> n \<Longrightarrow> n < 100 \<Longrightarrow> dec n = [char_of (48 + n div 10), char_of (48 + n mod 10)]"
  "100 \<le> n \<Longrightarrow> n < 1000 \<Longrightarrow>
   dec n = [char_of (48 + n div 100), char_of (48 + n div 10 mod 10), char_of (48 + n mod 10)]"
  by (simp_all add: dec.simps [of n] dec.simps [of "n div 10"] dec_small div_mult2_eq [symmetric])

lemma dec_octet:
  assumes "n < 256"
  shows "length (dec n) \<le> 3" "length (dec n) > 1 \<Longrightarrow> hd (dec n) \<noteq> CHR ''0''"
proof -
  have "char_of (48 + k) \<noteq> CHR ''0''" if "0 < k" "k < 10" for k :: nat
  proof
    assume "char_of (48 + k) = CHR ''0''"
    then have "ord (char_of (48 + k)) = ord (CHR ''0'')" by simp
    with that show False by simp
  qed
  moreover have "0 < n div 10" if "10 \<le> n" using that by simp
  ultimately show "length (dec n) \<le> 3" "length (dec n) > 1 \<Longrightarrow> hd (dec n) \<noteq> CHR ''0''"
    using assms dec_small [of n] dec_hundreds [of n]
    by (cases "n < 10"; cases "n < 100"; simp)+
qed

lemma read_number_dec:
  assumes "n < 256" "r = [] \<or> \<not> is_digit (hd r)"
  shows "read_number 10 255 3 False (dec n @ r) = Some (n, r)"
proof -
  have digits: "list_all is_digit (dec n)" "dec n \<noteq> []" by (simp_all add: dec_digits)
  have tw: "takeWhile (\<lambda>b. digit_value 10 b \<noteq> None) (dec n @ r) = dec n"
    using digits assms(2) by (cases r) (auto simp: digit_value_10 list_all_iff takeWhile_append)
  have "foldl (\<lambda>acc b. 10 * acc + unwrap_or (digit_value 10 b) 0) 0 ds = digits_value ds"
    if "list_all is_digit ds" for ds
    using that by (induction ds rule: rev_induct) (simp_all add: digits_value_def digit_value_10 unwrap_or_def)
  then have "foldl (\<lambda>acc b. 10 * acc + unwrap_or (digit_value 10 b) 0) 0 (dec n) = n"
    using digits by (simp add: dec_value)
  with tw digits dec_octet [OF assms(1)] assms(1) show ?thesis
    by (auto simp: read_number_def Let_def)
qed

lemma read_octet_dec:
  assumes "n < 256" "r = [] \<or> \<not> is_digit (hd r)"
  shows "read_octet 0 (dec n @ r) = Some (n, r)"
    and "0 < i \<Longrightarrow> read_octet i (CHR ''.'' # dec n @ r) = Some (n, r)"
  using read_number_dec [OF assms]
  by (simp_all add: read_octet_def read_separator_def read_given_char_def)

lemma parse_ip_ipv4: "parse_ip (ipv4_to_string a b c d) = Some (V4 a b c d)"
proof -
  have nd: "\<not> is_digit (CHR ''.'')" by (simp add: is_digit_def)
  have "read_ipv4_addr (ipv4_to_string a b c d) = Some ((ord a, ord b, ord c, ord d), [])"
    using read_octet_dec(2) [of "ord d" "[]" 3]
    by (simp add: ipv4_to_string_def read_ipv4_addr_def read_octet_dec nd)
  then show ?thesis by (simp add: parse_ip_def ipv4_of_numbers_def)
qed

lemma ipv4_literal_is_checked:
  "is_local_or_private_host (ipv4_to_string a b c d) \<longleftrightarrow> is_non_public_ipv4 a b c d"
proof -
  obtain x r where "dec (ord a) = x # r" "is_digit x" using dec_Cons by blast
  then have "ipv4_to_string a b c d \<noteq> ''localhost''"
    by (auto simp: ipv4_to_string_def is_digit_def)
  then show ?thesis by (simp add: is_local_or_private_host_def parse_ip_ipv4 is_non_public_ip_def)
qed

end
