(* ===== verification/Sandbox_Policy.thy ===== *)
theory Sandbox_Policy
  imports Host_Policy "HOL-Library.Product_Lexorder" "HOL-Library.List_Lexorder" "HOL-Library.Char_ord"
begin

text \<open>
  The sandbox policies of \<^verbatim>\<open>src/src/sandbox.rs\<close>: their types, and how the entries of a file-system policy
  decide what may be read and written. A path is its components, as \<^verbatim>\<open>std::path\<close> compares it; what the
  file system says of a path (its canonical form, whether it is a directory or a file, its contents)
  and the environment variables are answers of an environment. The variants for Linux are modelled.
\<close>

section \<open>Paths\<close>

datatype path = Path (is_absolute: bool) (parts: "string list")

definition path_join :: "path \<Rightarrow> path \<Rightarrow> path" where
  "path_join base p = (if is_absolute p then p else Path (is_absolute base) (parts base @ parts p))"

abbreviation path_child :: "path \<Rightarrow> string \<Rightarrow> path" where
  "path_child base name \<equiv> path_join base (Path False [name])"

definition path_starts_with :: "path \<Rightarrow> path \<Rightarrow> bool" where
  "path_starts_with p base \<longleftrightarrow>
     is_absolute p = is_absolute base \<and> take (length (parts base)) (parts p) = parts base"

definition path_strip_prefix :: "path \<Rightarrow> path \<Rightarrow> string list option" where
  "path_strip_prefix p base =
     (if path_starts_with p base then Some (drop (length (parts base)) (parts p)) else None)"

definition component_count :: "path \<Rightarrow> nat" where
  "component_count p = (if is_absolute p then 1 else 0) + length (parts p)"

definition path_parent :: "path \<Rightarrow> path option" where
  "path_parent p = (if parts p = [] then None else Some (Path (is_absolute p) (butlast (parts p))))"

definition file_name :: "path \<Rightarrow> string option" where
  "file_name p = (if parts p = [] \<or> last (parts p) = ''..'' then None else Some (last (parts p)))"

definition path_root :: path where
  "path_root = Path True []"

record file_env =
  fe_canonicalize :: "path \<Rightarrow> path option"
  fe_is_dir :: "path \<Rightarrow> bool"
  fe_is_file :: "path \<Rightarrow> bool"
  fe_contents :: "path \<Rightarrow> string option"
  fe_path_of :: "string \<Rightarrow> path"
  fe_show :: "path \<Rightarrow> string"
  fe_tmpdir :: "string option"

definition fe_exists :: "file_env \<Rightarrow> path \<Rightarrow> bool" where
  "fe_exists env p \<longleftrightarrow> fe_is_dir env p \<or> fe_is_file env p"

section \<open>Types\<close>

datatype network_access = NetRestricted | NetEnabled

definition is_enabled :: "network_access \<Rightarrow> bool" where
  "is_enabled a \<longleftrightarrow> a = NetEnabled"

datatype access_mode = AccessRead | AccessWrite | AccessDeny

definition can_read :: "access_mode \<Rightarrow> bool" where
  "can_read a \<longleftrightarrow> a \<noteq> AccessDeny"

definition can_write :: "access_mode \<Rightarrow> bool" where
  "can_write a \<longleftrightarrow> a = AccessWrite"

text \<open>The derived order of the modes: \<^verbatim>\<open>Read < Write < Deny\<close>.\<close>

fun access_rank :: "access_mode \<Rightarrow> nat" where
  "access_rank AccessRead = 0"
| "access_rank AccessWrite = 1"
| "access_rank AccessDeny = 2"

lemma access_rank_inject: "access_rank a = access_rank b \<longleftrightarrow> a = b"
  by (cases a; cases b) simp_all

instantiation access_mode :: linorder
begin

definition less_eq_access_mode :: "access_mode \<Rightarrow> access_mode \<Rightarrow> bool" where
  "less_eq_access_mode a b \<longleftrightarrow> access_rank a \<le> access_rank b"

definition less_access_mode :: "access_mode \<Rightarrow> access_mode \<Rightarrow> bool" where
  "less_access_mode a b \<longleftrightarrow> access_rank a < access_rank b"

instance
  by standard (auto simp: less_eq_access_mode_def less_access_mode_def access_rank_inject)

end

datatype special_path =
    SpRoot | SpMinimal | SpProjectRoots "path option" | SpTmpdir | SpSlashTmp

datatype file_system_path = FsPath path | FsGlobPattern string | FsSpecial special_path

record fs_entry =
  en_path :: file_system_path
  en_access :: access_mode

datatype fs_kind = FsRestricted | FsUnrestricted | FsExternalSandbox

record fs_policy =
  fs_kind_of :: fs_kind
  fs_glob_scan_max_depth :: "nat option"
  fs_entries :: "fs_entry list"

record resolved_entry =
  re_path :: path
  re_access :: access_mode

record writable_root =
  wr_root :: path
  wr_read_only_subpaths :: "path list"
  wr_protected_metadata_names :: "string list"

datatype sandbox_policy =
    DangerFullAccess
  | ReadOnly bool
  | ExternalSandbox network_access
  | is_WorkspaceWrite: WorkspaceWrite (ww_writable_roots: "path list") (ww_network_access: bool)
      (ww_exclude_tmpdir_env_var: bool) (ww_exclude_slash_tmp: bool)
  | Managed fs_policy network_access

record sandbox_state =
  ss_policy :: sandbox_policy
  ss_cwd :: path
  ss_use_linux_sandbox_bwrap :: bool
  ss_managed_network_policy :: managed_network_policy
  ss_session_temp_dir :: path

section \<open>Resolving paths\<close>

definition PROTECTED_METADATA_SUBPATHS :: "string list" where
  "PROTECTED_METADATA_SUBPATHS = [''.git'', ''.agents'', ''.codex'']"

definition ensure_absolute :: "path \<Rightarrow> path option" where
  "ensure_absolute p = (if is_absolute p then Some p else None)"

fun dedup_loop :: "path list \<Rightarrow> path list \<Rightarrow> path list" where
  "dedup_loop seen [] = []"
| "dedup_loop seen (p # ps) =
     (if p \<in> set seen then dedup_loop seen ps else p # dedup_loop (p # seen) ps)"

definition dedup_paths :: "path list \<Rightarrow> path list" where
  "dedup_paths ps = dedup_loop [] ps"

definition filesystem_root_for_cwd :: "path \<Rightarrow> path option" where
  "filesystem_root_for_cwd cwd = (if is_absolute cwd then Some path_root else None)"

definition resolve_candidate_path :: "path \<Rightarrow> path \<Rightarrow> path option" where
  "resolve_candidate_path p cwd =
     (if is_absolute p then Some p else if is_absolute cwd then Some (path_join cwd p) else None)"

definition tmpdir_from_env :: "file_env \<Rightarrow> path option" where
  "tmpdir_from_env env =
     Option.bind (fe_tmpdir env) (\<lambda>tmpdir.
       if tmpdir = [] then None else ensure_absolute (fe_path_of env tmpdir))"

definition slash_tmp :: path where
  "slash_tmp = Path True [''tmp'']"

definition resolve_file_system_special_path ::
  "file_env \<Rightarrow> special_path \<Rightarrow> path \<Rightarrow> path option \<Rightarrow> path option" where
  "resolve_file_system_special_path env v cwd session_temp_dir =
     (case v of
        SpRoot \<Rightarrow> filesystem_root_for_cwd cwd
      | SpMinimal \<Rightarrow> None
      | SpProjectRoots subpath \<Rightarrow>
          Option.bind (ensure_absolute cwd) (\<lambda>cwd.
            case subpath of
              Some p \<Rightarrow> if is_absolute p then Some p else Some (path_join cwd p)
            | None \<Rightarrow> Some cwd)
      | SpTmpdir \<Rightarrow>
          (case Option.bind session_temp_dir ensure_absolute of
             Some p \<Rightarrow> Some p
           | None \<Rightarrow> tmpdir_from_env env)
      | SpSlashTmp \<Rightarrow> if fe_is_dir env slash_tmp then Some slash_tmp else None)"

definition resolve_entry_path ::
  "file_env \<Rightarrow> file_system_path \<Rightarrow> path \<Rightarrow> path option \<Rightarrow> path option" where
  "resolve_entry_path env p cwd session_temp_dir =
     (case p of
        FsPath p \<Rightarrow> Some p
      | FsGlobPattern _ \<Rightarrow> None
      | FsSpecial v \<Rightarrow> resolve_file_system_special_path env v cwd session_temp_dir)"

definition resolve_glob_pattern_against_cwd :: "file_env \<Rightarrow> string \<Rightarrow> path \<Rightarrow> string" where
  "resolve_glob_pattern_against_cwd env pattern cwd =
     (let p = fe_path_of env pattern
      in if is_absolute p then pattern else fe_show env (path_join cwd p))"

definition temp_roots_from_system :: "file_env \<Rightarrow> bool \<Rightarrow> bool \<Rightarrow> path list" where
  "temp_roots_from_system env exclude_tmpdir_env_var exclude_slash_tmp =
     (if \<not> exclude_slash_tmp \<and> fe_is_dir env slash_tmp then [slash_tmp] else []) @
     (if \<not> exclude_tmpdir_env_var
      then (case tmpdir_from_env env of Some p \<Rightarrow> [p] | None \<Rightarrow> []) else [])"

definition is_linux_ambient_temp_writable_root :: "file_env \<Rightarrow> path \<Rightarrow> path option \<Rightarrow> bool" where
  "is_linux_ambient_temp_writable_root env root session_temp_dir =
     (case ensure_absolute root of
        None \<Rightarrow> False
      | Some root \<Rightarrow>
          if Option.bind session_temp_dir ensure_absolute = Some root then False
          else root \<in> set (temp_roots_from_system env False False))"

text \<open>The variants of a path: itself, its canonical form, and the canonical form of its longest existing
  ancestor with the rest of the path behind it.\<close>

function canonicalize_loop :: "file_env \<Rightarrow> string list \<Rightarrow> path \<Rightarrow> path option" where
  "canonicalize_loop env suffix current =
     (case fe_canonicalize env current of
        Some canonical \<Rightarrow> Some (foldl path_child canonical (rev suffix))
      | None \<Rightarrow>
          Option.bind (file_name current) (\<lambda>name.
          Option.bind (path_parent current) (\<lambda>up. canonicalize_loop env (suffix @ [name]) up)))"
  by pat_completeness auto
termination
  by (relation "measure (\<lambda>(env, suffix, current). length (parts current))")
    (auto simp: path_parent_def split: if_splits)

declare canonicalize_loop.simps [simp del]

definition canonicalize_from_existing_parent :: "file_env \<Rightarrow> path \<Rightarrow> path option" where
  "canonicalize_from_existing_parent env p = canonicalize_loop env [] p"

definition push_unique_path :: "path list \<Rightarrow> path \<Rightarrow> path list" where
  "push_unique_path ps p = (if p \<in> set ps then ps else ps @ [p])"

definition sandbox_path_variants :: "file_env \<Rightarrow> path \<Rightarrow> path list" where
  "sandbox_path_variants env p =
     (let v1 = push_unique_path [] p;
          v2 = (case fe_canonicalize env p of Some c \<Rightarrow> push_unique_path v1 c | None \<Rightarrow> v1)
      in case canonicalize_from_existing_parent env p of Some c \<Rightarrow> push_unique_path v2 c | None \<Rightarrow> v2)"

datatype sandbox_path_relation = SamePath | DescendantPath

definition path_relation :: "file_env \<Rightarrow> path \<Rightarrow> path \<Rightarrow> sandbox_path_relation option" where
  "path_relation env p root =
     (let ps = sandbox_path_variants env p; rs = sandbox_path_variants env root
      in if list_ex (\<lambda>p. list_ex (\<lambda>r. p = r) rs) ps then Some SamePath
         else if list_ex (\<lambda>p. list_ex (\<lambda>r. path_starts_with p r) rs) ps then Some DescendantPath
         else None)"

definition path_is_at_or_under_root :: "file_env \<Rightarrow> path \<Rightarrow> path \<Rightarrow> bool" where
  "path_is_at_or_under_root env p root \<longleftrightarrow> path_relation env p root \<noteq> None"

definition path_is_descendant_of_root :: "file_env \<Rightarrow> path \<Rightarrow> path \<Rightarrow> bool" where
  "path_is_descendant_of_root env p root \<longleftrightarrow> path_relation env p root = Some DescendantPath"

definition sandbox_path_specificity :: "file_env \<Rightarrow> path \<Rightarrow> nat" where
  "sandbox_path_specificity env p = foldl max 0 (map component_count (sandbox_path_variants env p))"

section \<open>File-system policies\<close>

definition fs_restricted :: "fs_entry list \<Rightarrow> fs_policy" where
  "fs_restricted entries =
     \<lparr>fs_kind_of = FsRestricted, fs_glob_scan_max_depth = None, fs_entries = entries\<rparr>"

definition fs_unrestricted :: fs_policy where
  "fs_unrestricted = \<lparr>fs_kind_of = FsUnrestricted, fs_glob_scan_max_depth = None, fs_entries = []\<rparr>"

definition fs_external_sandbox :: fs_policy where
  "fs_external_sandbox = \<lparr>fs_kind_of = FsExternalSandbox, fs_glob_scan_max_depth = None, fs_entries = []\<rparr>"

abbreviation fs_entry_for :: "file_system_path \<Rightarrow> access_mode \<Rightarrow> fs_entry" where
  "fs_entry_for p a \<equiv> \<lparr>en_path = p, en_access = a\<rparr>"

definition fs_read_only :: fs_policy where
  "fs_read_only = fs_restricted [fs_entry_for (FsSpecial SpRoot) AccessRead]"

text \<open>\<^verbatim>\<open>.git\<close> as a file names the directory that holds the repository.\<close>

definition resolve_gitdir_from_file :: "file_env \<Rightarrow> path \<Rightarrow> path option" where
  "resolve_gitdir_from_file env dot_git =
     Option.bind (fe_contents env dot_git) (\<lambda>contents.
       let trimmed = trim contents
       in Option.bind (position (\<lambda>b. b = CHR '':'') trimmed) (\<lambda>colon.
            let gitdir_raw = trim (drop (colon + 1) trimmed)
            in if gitdir_raw = [] then None
               else Option.bind (path_parent dot_git) (\<lambda>base.
                      let gitdir = path_join base (fe_path_of env gitdir_raw)
                      in if fe_exists env gitdir then Some gitdir else None)))"

definition compute_read_only_subpaths :: "file_env \<Rightarrow> path \<Rightarrow> path list" where
  "compute_read_only_subpaths env root =
     (let dot_git = path_child root ''.git'';
          dot_codex = path_child root ''.codex'';
          dot_agents = path_child root ''.agents''
      in (if fe_is_dir env dot_git \<or> fe_is_file env dot_git then
            (if fe_is_file env dot_git
             then (case resolve_gitdir_from_file env dot_git of Some gitdir \<Rightarrow> [gitdir] | None \<Rightarrow> [])
             else []) @ [dot_git]
          else []) @
         (if fe_is_dir env dot_codex then [dot_codex] else []) @
         (if fe_is_dir env dot_agents then [dot_agents] else []))"

definition compute_writable_root_exclusions :: "file_env \<Rightarrow> path \<Rightarrow> path \<Rightarrow> path list" where
  "compute_writable_root_exclusions env root cwd =
     (let subpaths = compute_read_only_subpaths env root;
          codex_path = path_child root ''.codex''
      in if path_is_at_or_under_root env cwd root \<and> codex_path \<notin> set subpaths
         then subpaths @ [codex_path] else subpaths)"

definition fs_workspace_write :: "file_env \<Rightarrow> path list \<Rightarrow> bool \<Rightarrow> bool \<Rightarrow> fs_policy" where
  "fs_workspace_write env writable_roots exclude_tmpdir_env_var exclude_slash_tmp =
     fs_restricted
       ([fs_entry_for (FsSpecial SpRoot) AccessRead,
         fs_entry_for (FsSpecial (SpProjectRoots None)) AccessWrite] @
        (if \<not> exclude_slash_tmp then [fs_entry_for (FsSpecial SpSlashTmp) AccessWrite] else []) @
        (if \<not> exclude_tmpdir_env_var then [fs_entry_for (FsSpecial SpTmpdir) AccessWrite] else []) @
        map (\<lambda>p. fs_entry_for (FsPath p) AccessWrite) writable_roots @
        map (\<lambda>subpath. fs_entry_for (FsSpecial (SpProjectRoots (Some (Path False [subpath])))) AccessRead)
          PROTECTED_METADATA_SUBPATHS @
        concat (map (\<lambda>root. map (\<lambda>subpath. fs_entry_for (FsPath subpath) AccessRead)
                              (compute_read_only_subpaths env root)) writable_roots))"

definition has_root_access :: "(access_mode \<Rightarrow> bool) \<Rightarrow> fs_policy \<Rightarrow> bool" where
  "has_root_access pred fs \<longleftrightarrow>
     fs_kind_of fs = FsRestricted \<and>
     list_ex (\<lambda>e. en_path e = FsSpecial SpRoot \<and> pred (en_access e)) (fs_entries fs)"

definition has_denied_read_restrictions :: "fs_policy \<Rightarrow> bool" where
  "has_denied_read_restrictions fs \<longleftrightarrow>
     fs_kind_of fs = FsRestricted \<and> list_ex (\<lambda>e. en_access e = AccessDeny) (fs_entries fs)"

definition has_write_narrowing_entries :: "fs_policy \<Rightarrow> bool" where
  "has_write_narrowing_entries fs \<longleftrightarrow>
     fs_kind_of fs = FsRestricted \<and>
     list_ex (\<lambda>e. if can_write (en_access e) then False
                  else \<not> (en_path e = FsSpecial SpRoot \<and> en_access e = AccessRead)) (fs_entries fs)"

definition has_full_disk_read_access :: "fs_policy \<Rightarrow> bool" where
  "has_full_disk_read_access fs \<longleftrightarrow>
     (case fs_kind_of fs of
        FsRestricted \<Rightarrow> has_root_access can_read fs \<and> \<not> has_denied_read_restrictions fs
      | _ \<Rightarrow> True)"

definition has_full_disk_write_access :: "fs_policy \<Rightarrow> bool" where
  "has_full_disk_write_access fs \<longleftrightarrow>
     (case fs_kind_of fs of
        FsRestricted \<Rightarrow> has_root_access can_write fs \<and> \<not> has_write_narrowing_entries fs
      | _ \<Rightarrow> True)"

definition include_platform_defaults :: "fs_policy \<Rightarrow> bool" where
  "include_platform_defaults fs \<longleftrightarrow> \<not> has_full_disk_read_access fs"

definition resolved_entries_with_cwd ::
  "file_env \<Rightarrow> fs_policy \<Rightarrow> path \<Rightarrow> path option \<Rightarrow> resolved_entry list" where
  "resolved_entries_with_cwd env fs cwd session_temp_dir =
     List.map_filter (\<lambda>e.
       map_option (\<lambda>p. \<lparr>re_path = p, re_access = en_access e\<rparr>)
         (resolve_entry_path env (en_path e) cwd session_temp_dir)) (fs_entries fs)"

text \<open>\<^verbatim>\<open>Iterator::max_by_key\<close>: the last of the elements with the largest key.\<close>

definition max_by_key :: "('a \<Rightarrow> 'k :: linorder) \<Rightarrow> 'a list \<Rightarrow> 'a option" where
  "max_by_key key xs =
     foldl (\<lambda>best x. case best of None \<Rightarrow> Some x | Some b \<Rightarrow> if key b \<le> key x then Some x else Some b) None xs"

definition resolve_access_with_cwd ::
  "file_env \<Rightarrow> fs_policy \<Rightarrow> path \<Rightarrow> path \<Rightarrow> path option \<Rightarrow> access_mode" where
  "resolve_access_with_cwd env fs p cwd session_temp_dir =
     (if fs_kind_of fs \<noteq> FsRestricted then AccessWrite
      else case resolve_candidate_path p cwd of
             None \<Rightarrow> AccessDeny
           | Some target \<Rightarrow>
               (case max_by_key (\<lambda>e. (sandbox_path_specificity env (re_path e), re_access e))
                       (filter (\<lambda>e. path_is_at_or_under_root env target (re_path e))
                          (resolved_entries_with_cwd env fs cwd session_temp_dir)) of
                  Some e \<Rightarrow> re_access e
                | None \<Rightarrow> AccessDeny))"

definition can_read_path_with_cwd :: "file_env \<Rightarrow> fs_policy \<Rightarrow> path \<Rightarrow> path \<Rightarrow> path option \<Rightarrow> bool" where
  "can_read_path_with_cwd env fs p cwd session_temp_dir =
     can_read (resolve_access_with_cwd env fs p cwd session_temp_dir)"

definition metadata_child_of_writable_root ::
  "file_env \<Rightarrow> fs_policy \<Rightarrow> path \<Rightarrow> path \<Rightarrow> path option \<Rightarrow> path option" where
  "metadata_child_of_writable_root env fs target cwd session_temp_dir =
     (case List.map_filter (\<lambda>e.
             case path_strip_prefix target (re_path e) of
               Some (first # _) \<Rightarrow>
                 if first \<in> set PROTECTED_METADATA_SUBPATHS then Some (path_child (re_path e) first) else None
             | _ \<Rightarrow> None)
           (filter (\<lambda>e. can_write (re_access e)) (resolved_entries_with_cwd env fs cwd session_temp_dir)) of
        [] \<Rightarrow> None
      | p # _ \<Rightarrow> Some p)"

definition has_explicit_write_entry_for_metadata_path ::
  "file_env \<Rightarrow> fs_policy \<Rightarrow> path \<Rightarrow> path \<Rightarrow> path \<Rightarrow> path option \<Rightarrow> bool" where
  "has_explicit_write_entry_for_metadata_path env fs protected_metadata_path target cwd session_temp_dir \<longleftrightarrow>
     list_ex (\<lambda>e. can_write (re_access e) \<and> path_starts_with target (re_path e) \<and>
                  path_starts_with (re_path e) protected_metadata_path)
       (resolved_entries_with_cwd env fs cwd session_temp_dir)"

definition is_metadata_write_denied ::
  "file_env \<Rightarrow> fs_policy \<Rightarrow> path \<Rightarrow> path \<Rightarrow> path option \<Rightarrow> bool" where
  "is_metadata_write_denied env fs p cwd session_temp_dir =
     (if fs_kind_of fs \<noteq> FsRestricted then False
      else case resolve_candidate_path p cwd of
             None \<Rightarrow> True
           | Some target \<Rightarrow>
               (case metadata_child_of_writable_root env fs target cwd session_temp_dir of
                  None \<Rightarrow> False
                | Some protected_metadata_path \<Rightarrow>
                    \<not> has_explicit_write_entry_for_metadata_path env fs protected_metadata_path target cwd
                        session_temp_dir))"

definition can_write_path_with_cwd :: "file_env \<Rightarrow> fs_policy \<Rightarrow> path \<Rightarrow> path \<Rightarrow> path option \<Rightarrow> bool" where
  "can_write_path_with_cwd env fs p cwd session_temp_dir =
     (if \<not> can_write (resolve_access_with_cwd env fs p cwd session_temp_dir) then False
      else if has_full_disk_write_access fs then True
      else \<not> is_metadata_write_denied env fs p cwd session_temp_dir)"

definition get_readable_roots_with_cwd :: "file_env \<Rightarrow> fs_policy \<Rightarrow> path \<Rightarrow> path option \<Rightarrow> path list" where
  "get_readable_roots_with_cwd env fs cwd session_temp_dir =
     (if has_full_disk_read_access fs then []
      else dedup_paths
             (map re_path
                (filter (\<lambda>e. can_read_path_with_cwd env fs (re_path e) cwd session_temp_dir)
                   (filter (\<lambda>e. can_read (re_access e))
                      (resolved_entries_with_cwd env fs cwd session_temp_dir)))))"

definition writable_entries :: "file_env \<Rightarrow> fs_policy \<Rightarrow> path \<Rightarrow> path option \<Rightarrow> path list" where
  "writable_entries env fs cwd session_temp_dir =
     map re_path
       (filter (\<lambda>e. can_write_path_with_cwd env fs (re_path e) cwd session_temp_dir)
          (filter (\<lambda>e. can_write (re_access e)) (resolved_entries_with_cwd env fs cwd session_temp_dir)))"

definition protected_metadata_names_for_writable_root ::
  "file_env \<Rightarrow> fs_policy \<Rightarrow> path \<Rightarrow> path \<Rightarrow> path option \<Rightarrow> string list" where
  "protected_metadata_names_for_writable_root env fs root cwd session_temp_dir =
     (let raw_writable_roots =
            filter (\<lambda>p. path_relation env p root \<noteq> None) (writable_entries env fs cwd session_temp_dir)
      in filter (\<lambda>name.
           list_all (\<lambda>p. \<not> can_write_path_with_cwd env fs p cwd session_temp_dir)
             (path_child root name # map (\<lambda>raw. path_child raw name) raw_writable_roots))
           PROTECTED_METADATA_SUBPATHS)"

definition writable_root_for :: "file_env \<Rightarrow> fs_policy \<Rightarrow> path \<Rightarrow> path option \<Rightarrow> path \<Rightarrow> writable_root" where
  "writable_root_for env fs cwd session_temp_dir root =
     (let protect_metadata = (\<not> is_linux_ambient_temp_writable_root env root session_temp_dir);
          exclusions = (if protect_metadata then compute_writable_root_exclusions env root cwd else []);
          narrowed =
            filter (\<lambda>p. path_is_descendant_of_root env p root)
              (map re_path
                 (filter (\<lambda>e. \<not> can_write_path_with_cwd env fs (re_path e) cwd session_temp_dir)
                    (filter (\<lambda>e. \<not> can_write (re_access e))
                       (resolved_entries_with_cwd env fs cwd session_temp_dir))))
      in \<lparr>wr_root = root, wr_read_only_subpaths = dedup_paths (exclusions @ narrowed),
          wr_protected_metadata_names =
            (if protect_metadata
             then protected_metadata_names_for_writable_root env fs root cwd session_temp_dir else [])\<rparr>)"

definition get_writable_roots_with_cwd ::
  "file_env \<Rightarrow> fs_policy \<Rightarrow> path \<Rightarrow> path option \<Rightarrow> writable_root list" where
  "get_writable_roots_with_cwd env fs cwd session_temp_dir =
     (if has_full_disk_write_access fs then []
      else map (writable_root_for env fs cwd session_temp_dir)
             (dedup_paths (writable_entries env fs cwd session_temp_dir)))"

definition get_unreadable_roots_with_cwd :: "file_env \<Rightarrow> fs_policy \<Rightarrow> path \<Rightarrow> path option \<Rightarrow> path list" where
  "get_unreadable_roots_with_cwd env fs cwd session_temp_dir =
     (if fs_kind_of fs \<noteq> FsRestricted then []
      else dedup_paths
             (map re_path
                (filter (\<lambda>e. Some (re_path e) \<noteq> filesystem_root_for_cwd cwd)
                   (filter (\<lambda>e. \<not> can_read_path_with_cwd env fs (re_path e) cwd session_temp_dir)
                      (filter (\<lambda>e. re_access e = AccessDeny)
                         (resolved_entries_with_cwd env fs cwd session_temp_dir))))))"

definition get_unreadable_globs_with_cwd :: "file_env \<Rightarrow> fs_policy \<Rightarrow> path \<Rightarrow> string list" where
  "get_unreadable_globs_with_cwd env fs cwd =
     (if fs_kind_of fs \<noteq> FsRestricted then []
      else remdups_adj (sort
             (List.map_filter (\<lambda>e.
                case en_path e of
                  FsGlobPattern pattern \<Rightarrow> Some (resolve_glob_pattern_against_cwd env pattern cwd)
                | _ \<Rightarrow> None)
                (filter (\<lambda>e. en_access e = AccessDeny) (fs_entries fs)))))"

section \<open>Sandbox policies\<close>

definition policy_full_disk_write_access :: "sandbox_policy \<Rightarrow> bool" where
  "policy_full_disk_write_access policy =
     (case policy of
        DangerFullAccess \<Rightarrow> True
      | ExternalSandbox _ \<Rightarrow> True
      | ReadOnly _ \<Rightarrow> False
      | WorkspaceWrite _ _ _ _ \<Rightarrow> False
      | Managed fs _ \<Rightarrow> has_full_disk_write_access fs)"

definition policy_full_disk_read_access :: "sandbox_policy \<Rightarrow> bool" where
  "policy_full_disk_read_access policy =
     (case policy of Managed fs _ \<Rightarrow> has_full_disk_read_access fs | _ \<Rightarrow> True)"

definition has_full_network_access :: "sandbox_policy \<Rightarrow> bool" where
  "has_full_network_access policy =
     (case policy of
        DangerFullAccess \<Rightarrow> True
      | ExternalSandbox a \<Rightarrow> is_enabled a
      | ReadOnly a \<Rightarrow> a
      | WorkspaceWrite _ a _ _ \<Rightarrow> a
      | Managed _ a \<Rightarrow> is_enabled a)"

definition requires_sandbox :: "sandbox_policy \<Rightarrow> bool" where
  "requires_sandbox policy =
     (case policy of
        DangerFullAccess \<Rightarrow> False
      | ExternalSandbox _ \<Rightarrow> False
      | Managed fs a \<Rightarrow> \<not> has_full_disk_write_access fs \<or> \<not> is_enabled a
      | _ \<Rightarrow> True)"

definition file_system_policy_from_legacy :: "file_env \<Rightarrow> sandbox_policy \<Rightarrow> fs_policy" where
  "file_system_policy_from_legacy env policy =
     (case policy of
        DangerFullAccess \<Rightarrow> fs_unrestricted
      | ExternalSandbox _ \<Rightarrow> fs_external_sandbox
      | ReadOnly _ \<Rightarrow> fs_read_only
      | WorkspaceWrite roots _ exclude_tmpdir_env_var exclude_slash_tmp \<Rightarrow>
          fs_workspace_write env roots exclude_tmpdir_env_var exclude_slash_tmp
      | Managed fs _ \<Rightarrow> fs)"

record sandbox_state_update =
  su_policy :: sandbox_policy
  su_cwd :: "path option"
  su_use_linux_sandbox_bwrap :: "bool option"
  su_use_legacy_landlock :: "bool option"

definition apply_update :: "sandbox_state \<Rightarrow> sandbox_state_update \<Rightarrow> bool \<times> sandbox_state" where
  "apply_update st u =
     (let n1 = st\<lparr>ss_policy := su_policy u\<rparr>;
          n2 = (case su_cwd u of Some cwd \<Rightarrow> n1\<lparr>ss_cwd := cwd\<rparr> | None \<Rightarrow> n1);
          next_state = (case su_use_linux_sandbox_bwrap u of
                    Some b \<Rightarrow> n2\<lparr>ss_use_linux_sandbox_bwrap := b\<rparr> | None \<Rightarrow> n2)
      in (next_state \<noteq> st, next_state))"

section \<open>The most specific entry decides\<close>

lemma max_by_key_snoc:
  "max_by_key key (xs @ [x]) =
     (case max_by_key key xs of None \<Rightarrow> Some x | Some b \<Rightarrow> if key b \<le> key x then Some x else Some b)"
  by (simp add: max_by_key_def)

lemma max_by_key_Nil [simp]: "max_by_key key [] = None"
  by (simp add: max_by_key_def)

lemma max_by_key_None: "max_by_key key xs = None \<longleftrightarrow> xs = []"
  by (induction xs rule: rev_induct) (auto simp: max_by_key_snoc max_by_key_def split: option.splits)

lemma max_by_key_Some:
  "max_by_key key xs = Some b \<Longrightarrow> b \<in> set xs \<and> (\<forall>x\<in>set xs. key x \<le> key b)"
proof (induction xs arbitrary: b rule: rev_induct)
  case Nil
  then show ?case by (simp add: max_by_key_def)
next
  case (snoc x xs)
  show ?case
  proof (cases "max_by_key key xs")
    case None
    with snoc.prems show ?thesis by (simp add: max_by_key_snoc max_by_key_None)
  next
    case (Some a)
    with snoc.IH have a: "a \<in> set xs" "\<forall>x\<in>set xs. key x \<le> key a" by auto
    with Some snoc.prems show ?thesis
      by (auto simp: max_by_key_snoc split: if_splits intro: order_trans)
  qed
qed

abbreviation covering ::
  "file_env \<Rightarrow> fs_policy \<Rightarrow> path \<Rightarrow> path option \<Rightarrow> path \<Rightarrow> resolved_entry list" where
  "covering env fs cwd session_temp_dir target \<equiv>
     filter (\<lambda>e. path_is_at_or_under_root env target (re_path e))
       (resolved_entries_with_cwd env fs cwd session_temp_dir)"

lemma resolve_access_covering:
  assumes "fs_kind_of fs = FsRestricted" "resolve_candidate_path p cwd = Some target"
  shows "(covering env fs cwd tmp target = [] \<and> resolve_access_with_cwd env fs p cwd tmp = AccessDeny) \<or>
         (\<exists>e \<in> set (covering env fs cwd tmp target).
            resolve_access_with_cwd env fs p cwd tmp = re_access e \<and>
            (\<forall>e' \<in> set (covering env fs cwd tmp target).
               (sandbox_path_specificity env (re_path e'), re_access e')
                 \<le> (sandbox_path_specificity env (re_path e), re_access e)))"
proof (cases "max_by_key (\<lambda>e. (sandbox_path_specificity env (re_path e), re_access e))
                (covering env fs cwd tmp target)")
  case None
  with assms show ?thesis by (auto simp: resolve_access_with_cwd_def max_by_key_None)
next
  case (Some e)
  from max_by_key_Some [OF this] assms Some show ?thesis
    by (intro disjI2 bexI [of _ e]) (auto simp: resolve_access_with_cwd_def)
qed

lemma path_in_variants: "p \<in> set (sandbox_path_variants env p)"
  by (auto simp: sandbox_path_variants_def push_unique_path_def Let_def split: option.splits)

lemma starts_with_under: "path_starts_with p root \<Longrightarrow> path_is_at_or_under_root env p root"
  unfolding path_is_at_or_under_root_def path_relation_def Let_def list_ex_iff
  using path_in_variants [of p env] path_in_variants [of root env] by auto

lemma under_root: "is_absolute p \<Longrightarrow> path_is_at_or_under_root env p path_root"
  by (rule starts_with_under) (simp add: path_starts_with_def path_root_def)

lemma resolve_candidate_absolute:
  "is_absolute cwd \<Longrightarrow> \<exists>target. resolve_candidate_path p cwd = Some target \<and> is_absolute target"
  by (auto simp: resolve_candidate_path_def path_join_def)

lemma set_map_filter: "y \<in> set (List.map_filter f xs) \<longleftrightarrow> (\<exists>x\<in>set xs. f x = Some y)"
  by (induction xs) (auto simp: List.map_filter_simps split: option.splits)

lemma resolved_entry:
  "e \<in> set (resolved_entries_with_cwd env fs cwd tmp) \<longleftrightarrow>
     (\<exists>en\<in>set (fs_entries fs). resolve_entry_path env (en_path en) cwd tmp = Some (re_path e) \<and>
        re_access e = en_access en)"
  unfolding resolved_entries_with_cwd_def set_map_filter
  by (auto intro!: bexI)

text \<open>A policy that counts as full access to the disk gives that access to every path.\<close>

lemma root_entry_covers:
  assumes "list_ex (\<lambda>e. en_path e = FsSpecial SpRoot \<and> en_access e = a) (fs_entries fs)"
    "is_absolute cwd" "is_absolute target"
  shows "\<lparr>re_path = path_root, re_access = a\<rparr> \<in> set (covering env fs cwd tmp target)"
  using assms
  by (auto simp: resolved_entry list_ex_iff under_root resolve_entry_path_def
      resolve_file_system_special_path_def filesystem_root_for_cwd_def intro!: bexI)

lemma read_access_sound:
  assumes "has_full_disk_read_access fs" "is_absolute cwd"
  shows "can_read_path_with_cwd env fs p cwd tmp"
proof (cases "fs_kind_of fs = FsRestricted")
  case False
  then show ?thesis by (simp add: can_read_path_with_cwd_def resolve_access_with_cwd_def can_read_def)
next
  case True
  obtain target where t: "resolve_candidate_path p cwd = Some target" "is_absolute target"
    using resolve_candidate_absolute [OF assms(2)] by blast
  from True assms(1) obtain en where en: "en \<in> set (fs_entries fs)" "en_path en = FsSpecial SpRoot"
    by (auto simp: has_full_disk_read_access_def has_root_access_def list_ex_iff)
  have "\<lparr>re_path = path_root, re_access = en_access en\<rparr> \<in> set (covering env fs cwd tmp target)"
    using en assms(2) t(2) by (intro root_entry_covers) (auto simp: list_ex_iff)
  then have "covering env fs cwd tmp target \<noteq> []" by (metis empty_iff list.set(1))
  with resolve_access_covering [OF True t(1), of env tmp] obtain e where
    "e \<in> set (covering env fs cwd tmp target)" "resolve_access_with_cwd env fs p cwd tmp = re_access e" by auto
  with True assms(1) show ?thesis
    by (auto simp: can_read_path_with_cwd_def can_read_def resolved_entry has_full_disk_read_access_def
        has_denied_read_restrictions_def list_ex_iff)
qed

lemma write_access_sound:
  assumes "has_full_disk_write_access fs" "is_absolute cwd"
  shows "can_write_path_with_cwd env fs p cwd tmp"
proof (cases "fs_kind_of fs = FsRestricted")
  case False
  then show ?thesis
    using assms(1) by (simp add: can_write_path_with_cwd_def resolve_access_with_cwd_def can_write_def)
next
  case True
  obtain target where t: "resolve_candidate_path p cwd = Some target" "is_absolute target"
    using resolve_candidate_absolute [OF assms(2)] by blast
  let ?root = "\<lparr>re_path = path_root, re_access = AccessWrite\<rparr>"
  have root: "?root \<in> set (covering env fs cwd tmp target)"
    using True assms t(2)
    by (intro root_entry_covers) (auto simp: has_full_disk_write_access_def has_root_access_def can_write_def)
  with resolve_access_covering [OF True t(1), of env tmp] obtain e where
    e: "e \<in> set (covering env fs cwd tmp target)" "resolve_access_with_cwd env fs p cwd tmp = re_access e"
    and top: "(sandbox_path_specificity env path_root, AccessWrite)
                \<le> (sandbox_path_specificity env (re_path e), re_access e)"
    by (metis (no_types, lifting) empty_iff empty_set resolved_entry.select_convs(1,2))
  from e(1) obtain en where en: "en \<in> set (fs_entries fs)" "re_access e = en_access en"
    "resolve_entry_path env (en_path en) cwd tmp = Some (re_path e)"
    by (auto simp: resolved_entry)
  have "can_write (en_access en)"
  proof (rule ccontr)
    assume nw: "\<not> can_write (en_access en)"
    with en(1) True assms(1) have "en_path en = FsSpecial SpRoot" "en_access en = AccessRead"
      by (auto simp: has_full_disk_write_access_def has_write_narrowing_entries_def list_ex_iff)
    with en top show False
      by (auto simp: resolve_entry_path_def resolve_file_system_special_path_def filesystem_root_for_cwd_def
          less_eq_access_mode_def split: if_splits)
  qed
  with e(2) en(2) assms(1) show ?thesis by (simp add: can_write_path_with_cwd_def)
qed

text \<open>
  C33. The summary of a file-system policy is right: where it says that the whole disk may be read or
  written, every path resolves to that access, whatever entries the policy has, whatever links the file
  system holds, and wherever the temporary directories are.
\<close>

theorem full_access_means_every_path:
  assumes "is_absolute cwd"
  shows "(has_full_disk_read_access fs \<longrightarrow> can_read_path_with_cwd env fs p cwd tmp) \<and>
         (has_full_disk_write_access fs \<longrightarrow> can_write_path_with_cwd env fs p cwd tmp)"
  using assms read_access_sound write_access_sound by blast

text \<open>A file system without links, for the concrete inputs below.\<close>

definition sample_files :: file_env where
  "sample_files =
     \<lparr>fe_canonicalize = Some, fe_is_dir = (\<lambda>p. p \<in> {slash_tmp, Path True [''work'', ''.git'']}),
      fe_is_file = (\<lambda>_. False), fe_contents = (\<lambda>_. None), fe_path_of = (\<lambda>s. Path False [s]),
      fe_show = (\<lambda>p. join ''/'' (parts p)), fe_tmpdir = None\<rparr>"

definition sample_fs :: fs_policy where
  "sample_fs =
     fs_restricted
       [fs_entry_for (FsSpecial SpRoot) AccessRead, fs_entry_for (FsPath (Path True [''data''])) AccessWrite,
        fs_entry_for (FsSpecial SpRoot) AccessWrite]"

theorem full_access_means_every_path_witness:
  "can_read_path_with_cwd sample_files sample_fs (Path True [''etc'']) (Path True [''work'']) None \<and>
   can_write_path_with_cwd sample_files sample_fs (Path True [''etc'']) (Path True [''work'']) None"
proof -
  have "has_full_disk_read_access sample_fs" "has_full_disk_write_access sample_fs" by code_simp+
  then show ?thesis
    using full_access_means_every_path [of "Path True [''work'']" sample_fs sample_files "Path True [''etc'']" None]
    by simp
qed

section \<open>The metadata of the workspace\<close>

definition resolves_write_below :: "file_env \<Rightarrow> fs_policy \<Rightarrow> path \<Rightarrow> path option \<Rightarrow> path \<Rightarrow> bool" where
  "resolves_write_below env fs cwd tmp p \<longleftrightarrow>
     list_ex (\<lambda>e. can_write (re_access e) \<and> path_starts_with (re_path e) p)
       (resolved_entries_with_cwd env fs cwd tmp)"

lemma workspace_first_write_entry:
  assumes "is_absolute cwd"
  shows "\<exists>rest. filter (\<lambda>e. can_write (re_access e))
      (resolved_entries_with_cwd env (fs_workspace_write env roots no_tmpdir no_slash_tmp) cwd tmp) =
      \<lparr>re_path = cwd, re_access = AccessWrite\<rparr> # rest"
  using assms
  by (simp add: resolved_entries_with_cwd_def fs_workspace_write_def fs_restricted_def
      List.map_filter_simps resolve_entry_path_def resolve_file_system_special_path_def
      filesystem_root_for_cwd_def ensure_absolute_def can_write_def)

lemma workspace_not_full_write:
  "\<not> has_full_disk_write_access (fs_workspace_write env roots no_tmpdir no_slash_tmp)"
  by (simp add: has_full_disk_write_access_def fs_workspace_write_def fs_restricted_def
      has_write_narrowing_entries_def has_root_access_def can_write_def PROTECTED_METADATA_SUBPATHS_def)

text \<open>
  C15. In workspace-write mode the version control and agent metadata of the workspace, \<^verbatim>\<open>.git\<close>,
  \<^verbatim>\<open>.agents\<close> and \<^verbatim>\<open>.codex\<close> in the working directory and everything below them, cannot be written, whether
  or not they exist and whatever links there are; only a writable root that lies inside such a directory
  itself makes an exception.
\<close>

theorem workspace_metadata_is_protected:
  assumes "is_absolute cwd" "name \<in> set PROTECTED_METADATA_SUBPATHS"
    and "\<not> resolves_write_below env (fs_workspace_write env roots no_tmpdir no_slash_tmp) cwd tmp (path_child cwd name)"
  shows "\<not> can_write_path_with_cwd env (fs_workspace_write env roots no_tmpdir no_slash_tmp)
           (path_join (path_child cwd name) (Path False below)) cwd tmp"
proof -
  let ?fs = "fs_workspace_write env roots no_tmpdir no_slash_tmp"
  let ?target = "path_join (path_child cwd name) (Path False below)"
  have cand: "resolve_candidate_path ?target cwd = Some ?target"
    using assms(1) by (simp add: resolve_candidate_path_def path_join_def)
  obtain rest where first: "filter (\<lambda>e. can_write (re_access e)) (resolved_entries_with_cwd env ?fs cwd tmp) =
      \<lparr>re_path = cwd, re_access = AccessWrite\<rparr> # rest"
    using workspace_first_write_entry [OF assms(1)] by blast
  have "metadata_child_of_writable_root env ?fs ?target cwd tmp = Some (path_child cwd name)"
    using assms(1,2) first
    by (simp add: metadata_child_of_writable_root_def List.map_filter_simps path_strip_prefix_def
        path_starts_with_def path_join_def)
  moreover have "\<not> has_explicit_write_entry_for_metadata_path env ?fs (path_child cwd name) ?target cwd tmp"
    using assms(3) by (auto simp: has_explicit_write_entry_for_metadata_path_def resolves_write_below_def list_ex_iff)
  ultimately have "is_metadata_write_denied env ?fs ?target cwd tmp"
    using cand by (simp add: is_metadata_write_denied_def fs_workspace_write_def fs_restricted_def)
  then show ?thesis by (simp add: can_write_path_with_cwd_def workspace_not_full_write)
qed

theorem workspace_metadata_is_protected_witness:
  "\<not> can_write_path_with_cwd sample_files (fs_workspace_write sample_files [Path True [''data'']] False False)
      (path_join (path_child (Path True [''work'']) ''.git'') (Path False [''config''])) (Path True [''work'']) None \<and>
   can_write_path_with_cwd sample_files (fs_workspace_write sample_files [Path True [''data'']] False False)
      (Path True [''work'', ''main.R'']) (Path True [''work'']) None"
proof -
  have "\<not> resolves_write_below sample_files (fs_workspace_write sample_files [Path True [''data'']] False False)
      (Path True [''work'']) None (path_child (Path True [''work'']) ''.git'')"
    by code_simp
  moreover have "can_write_path_with_cwd sample_files
      (fs_workspace_write sample_files [Path True [''data'']] False False)
      (Path True [''work'', ''main.R'']) (Path True [''work'']) None"
    by code_simp
  ultimately show ?thesis
    using workspace_metadata_is_protected [of "Path True [''work'']" "''.git''" sample_files
        "[Path True [''data'']]" False False None "[''config'']"]
    by (simp add: PROTECTED_METADATA_SUBPATHS_def)
qed

lemma legacy_policy_summaries:
  "has_full_disk_write_access (file_system_policy_from_legacy env policy) = policy_full_disk_write_access policy"
  "has_full_disk_read_access (file_system_policy_from_legacy env policy) = policy_full_disk_read_access policy"
  by (cases policy; simp add: file_system_policy_from_legacy_def policy_full_disk_write_access_def
      policy_full_disk_read_access_def workspace_not_full_write;
      auto simp: has_full_disk_write_access_def has_full_disk_read_access_def fs_unrestricted_def
        fs_external_sandbox_def fs_read_only_def fs_restricted_def has_root_access_def can_write_def can_read_def
        has_denied_read_restrictions_def fs_workspace_write_def list_ex_iff)+

end
