(* ===== verification/Managed_Network.thy ===== *)
theory Managed_Network
  imports Host_Policy
begin

text \<open>
  The managed proxy of \<^verbatim>\<open>src/src/managed_network.rs\<close>: the handlers of HTTP and SOCKS clients and the
  loops that accept them, the environment variables that route a worker through the proxy, and what
  all this may connect to. A connection is the bytes its client sends, what has been written to the
  client and upstream, and the addresses dialled for it. Sockets and name resolution are answers of an
  environment: a socket call fails with an error or does its whole work, a lookup gives addresses or
  an error, and the copying threads of a tunnel stop at any point. An \<^verbatim>\<open>io::Error\<close> is the text it shows.
\<close>

section \<open>Connections\<close>

record conn =
  cn_input :: bytes
  cn_client :: bytes
  cn_dialled :: "(string \<times> nat \<times> socket_addr) list"
  cn_upstream :: "(socket_addr \<times> bytes) option"
  cn_calls :: nat

definition accepted :: "bytes \<Rightarrow> conn" where
  "accepted input =
     \<lparr>cn_input = input, cn_client = [], cn_dialled = [], cn_upstream = None, cn_calls = 0\<rparr>"

record net_env =
  ne_fails :: "nat \<Rightarrow> string option"
  ne_resolve :: "string \<Rightarrow> nat \<Rightarrow> string + socket_addr list"
  ne_connect :: "socket_addr \<Rightarrow> string option"
  ne_response :: bytes
  ne_forwarded :: nat
  ne_returned :: nat
  ne_copy_error :: "string option"

type_synonym 'a net = "conn \<Rightarrow> (string + 'a) \<times> conn"

definition net_ok :: "'a \<Rightarrow> 'a net" where
  "net_ok x = (\<lambda>c. (Inr x, c))"

definition net_err :: "string \<Rightarrow> 'a net" where
  "net_err e = (\<lambda>c. (Inl e, c))"

definition net_then :: "'a net \<Rightarrow> ('a \<Rightarrow> 'b net) \<Rightarrow> 'b net" where
  "net_then m k = (\<lambda>c. case m c of (Inl e, c1) \<Rightarrow> (Inl e, c1) | (Inr x, c1) \<Rightarrow> k x c1)"

definition socket_call :: "net_env \<Rightarrow> 'a net \<Rightarrow> 'a net" where
  "socket_call env f = (\<lambda>c.
     case ne_fails env (cn_calls c) of
       Some e \<Rightarrow> (Inl e, c\<lparr>cn_calls := cn_calls c + 1\<rparr>)
     | None \<Rightarrow> f (c\<lparr>cn_calls := cn_calls c + 1\<rparr>))"

definition read_byte :: "net_env \<Rightarrow> u8 option net" where
  "read_byte env =
     socket_call env (\<lambda>c.
       case cn_input c of [] \<Rightarrow> (Inr None, c) | b # r \<Rightarrow> (Inr (Some b), c\<lparr>cn_input := r\<rparr>))"

definition read_exact :: "net_env \<Rightarrow> nat \<Rightarrow> bytes net" where
  "read_exact env n =
     (if n = 0 then net_ok []
      else socket_call env (\<lambda>c.
             if length (cn_input c) < n then (Inl ''failed to fill whole buffer'', c\<lparr>cn_input := []\<rparr>)
             else (Inr (take n (cn_input c)), c\<lparr>cn_input := drop n (cn_input c)\<rparr>)))"

definition write_client :: "net_env \<Rightarrow> bytes \<Rightarrow> unit net" where
  "write_client env bs = socket_call env (\<lambda>c. (Inr (), c\<lparr>cn_client := cn_client c @ bs\<rparr>))"

definition write_upstream :: "net_env \<Rightarrow> bytes \<Rightarrow> unit net" where
  "write_upstream env bs =
     socket_call env (\<lambda>c. (Inr (), c\<lparr>cn_upstream := map_option (\<lambda>(a, sent). (a, sent @ bs)) (cn_upstream c)\<rparr>))"

section \<open>HTTP texts\<close>

abbreviation crlf :: bytes where
  "crlf \<equiv> [CHR 0x0D, CHR 0x0A]"

definition MAX_HTTP_HEADER_BYTES :: nat where
  "MAX_HTTP_HEADER_BYTES = 64 * 1024"

fun header_loop :: "net_env \<Rightarrow> nat \<Rightarrow> bytes \<Rightarrow> bytes net" where
  "header_loop env 0 header = net_err ''HTTP headers exceeded proxy limit''"
| "header_loop env (Suc room) header =
     net_then (read_byte env) (\<lambda>b.
       case b of
         None \<Rightarrow> net_err ''connection closed before HTTP headers completed''
       | Some x \<Rightarrow>
           if ends_with (header @ [x]) (crlf @ crlf) then net_ok (header @ [x])
           else header_loop env room (header @ [x]))"

definition read_http_header :: "net_env \<Rightarrow> bytes net" where
  "read_http_header env = header_loop env MAX_HTTP_HEADER_BYTES []"

fun find_crlf :: "bytes \<Rightarrow> nat option" where
  "find_crlf (a # b # r) = (if [a, b] = crlf then Some 0 else map_option Suc (find_crlf (b # r)))"
| "find_crlf _ = None"

definition trim_ascii_bytes :: "bytes \<Rightarrow> bytes" where
  "trim_ascii_bytes bs = rev (dropWhile is_ascii_whitespace (rev (dropWhile is_ascii_whitespace bs)))"

text \<open>The lines of a header block up to the first empty one, without their line ends.\<close>

definition header_lines :: "bytes \<Rightarrow> bytes list" where
  "header_lines header_tail =
     takeWhile (\<lambda>line. line \<noteq> [])
       (map (\<lambda>line. unwrap_or (strip_suffix line [CHR 0x0D]) line)
          (split_on (\<lambda>b. b = CHR 0x0A) header_tail))"

definition header_line_value :: "bytes \<Rightarrow> string \<Rightarrow> bytes option" where
  "header_line_value line name =
     (case position (\<lambda>b. b = CHR '':'') line of
        None \<Rightarrow> None
      | Some colon \<Rightarrow>
          if eq_ignore_ascii_case (trim_ascii_bytes (take colon line)) name
          then Some (drop (colon + 1) line) else None)"

definition header_line_has_name :: "bytes \<Rightarrow> string \<Rightarrow> bool" where
  "header_line_has_name line name \<longleftrightarrow> header_line_value line name \<noteq> None"

definition header_has_name :: "bytes \<Rightarrow> string \<Rightarrow> bool" where
  "header_has_name header_tail name \<longleftrightarrow>
     list_ex (\<lambda>line. header_line_has_name line name) (header_lines header_tail)"

fun content_length_loop :: "nat option \<Rightarrow> bytes list \<Rightarrow> string + nat" where
  "content_length_loop found [] = Inr (unwrap_or found 0)"
| "content_length_loop found (line # rest) =
     (case header_line_value line ''content-length'' of
        None \<Rightarrow> content_length_loop found rest
      | Some raw \<Rightarrow>
          (let v = trim_ascii_bytes raw
           in if \<not> valid_utf8 v then Inl ''Content-Length is not UTF-8''
              else case parse_u64 v of
                     None \<Rightarrow> Inl ''Content-Length is invalid''
                   | Some n \<Rightarrow>
                       if found \<noteq> None \<and> found \<noteq> Some n then Inl ''conflicting Content-Length headers''
                       else content_length_loop (Some n) rest))"

definition content_length_from_headers :: "bytes \<Rightarrow> string + nat" where
  "content_length_from_headers header_tail = content_length_loop None (header_lines header_tail)"

definition parse_u16 :: "string \<Rightarrow> nat option" where
  "parse_u16 s = (case parse_u64 s of Some n \<Rightarrow> if n < 65536 then Some n else None | None \<Rightarrow> None)"

definition rsplit_once :: "char \<Rightarrow> string \<Rightarrow> (string \<times> string) option" where
  "rsplit_once b s =
     (case position (\<lambda>c. c = b) (rev s) of
        None \<Rightarrow> None
      | Some k \<Rightarrow> Some (take (length s - k - 1) s, drop (length s - k) s))"

definition parse_host_port :: "string \<Rightarrow> nat \<Rightarrow> (string \<times> nat) option" where
  "parse_host_port authority default_port =
     (if starts_with authority ''['' then
        (case position (\<lambda>b. b = CHR '']'') authority of
           None \<Rightarrow> None
         | Some e \<Rightarrow>
             Some (slice authority 1 e,
                   unwrap_or (Option.bind (strip_prefix (drop (e + 1) authority) '':'') parse_u16)
                     default_port))
      else
        let unsplit = (if authority \<noteq> [] then Some (authority, default_port) else None)
        in case rsplit_once (CHR '':'') authority of
             Some (host, port) \<Rightarrow>
               if host \<noteq> [] then map_option (\<lambda>p. (host, p)) (parse_u16 port) else unsplit
           | None \<Rightarrow> unsplit)"

record absolute_http_target =
  at_host :: string
  at_port :: nat
  at_path :: string

definition parse_absolute_http_target :: "string \<Rightarrow> absolute_http_target option" where
  "parse_absolute_http_target target =
     Option.bind (strip_prefix target ''http://'') (\<lambda>rest.
       let (authority, path) =
             (case position (\<lambda>b. b = CHR ''/'') rest of
                Some index \<Rightarrow> (take index rest, drop index rest)
              | None \<Rightarrow> (rest, ''/''))
       in map_option (\<lambda>(host, port). \<lparr>at_host = host, at_port = port, at_path = path\<rparr>)
            (parse_host_port authority 80))"

fun host_lines_match :: "string \<Rightarrow> nat \<Rightarrow> bytes list \<Rightarrow> bool" where
  "host_lines_match target_host target_port [] \<longleftrightarrow> True"
| "host_lines_match target_host target_port (line # rest) \<longleftrightarrow>
     (case position (\<lambda>b. b = CHR '':'') line of
        None \<Rightarrow> host_lines_match target_host target_port rest
      | Some colon \<Rightarrow>
          if \<not> eq_ignore_ascii_case (take colon line) ''host''
          then host_lines_match target_host target_port rest
          else
            (let authority = trim_ascii_bytes (drop (colon + 1) line)
             in if \<not> valid_utf8 authority then False
                else case parse_host_port authority target_port of
                       None \<Rightarrow> False
                     | Some (host, port) \<Rightarrow>
                         if normalize_host host \<noteq> normalize_host target_host \<or> port \<noteq> target_port
                         then False
                         else host_lines_match target_host target_port rest))"

definition host_headers_match_target :: "bytes \<Rightarrow> string \<Rightarrow> nat \<Rightarrow> bool" where
  "host_headers_match_target header_tail target_host target_port =
     host_lines_match target_host target_port (header_lines header_tail)"

definition write_http_error :: "net_env \<Rightarrow> nat \<Rightarrow> string \<Rightarrow> unit net" where
  "write_http_error env status message =
     (let reason = (if status = 400 then ''Bad Request''
                    else if status = 403 then ''Forbidden''
                    else if status = 502 then ''Bad Gateway''
                    else ''Error'')
      in write_client env
           (''HTTP/1.1 '' @ dec status @ '' '' @ reason @ crlf @ ''Content-Type: text/plain'' @ crlf @
            ''Content-Length: '' @ dec (length message) @ crlf @ crlf @ message))"

section \<open>Upstream connections\<close>

definition note_dial :: "string \<Rightarrow> nat \<Rightarrow> socket_addr \<Rightarrow> conn \<Rightarrow> conn" where
  "note_dial host port addr c = c\<lparr>cn_dialled := cn_dialled c @ [(host, port, addr)]\<rparr>"

fun dial_loop ::
  "net_env \<Rightarrow> host_policy \<Rightarrow> string \<Rightarrow> nat \<Rightarrow> string option \<Rightarrow> socket_addr list \<Rightarrow> bool net" where
  "dial_loop env policy host port last_err [] c =
     (case last_err of Some e \<Rightarrow> (Inl e, c) | None \<Rightarrow> (Inr False, c))"
| "dial_loop env policy host port last_err (addr # addrs) c =
     (if \<not> allows_socket_addr policy addr then dial_loop env policy host port last_err addrs c
      else case ne_connect env addr of
             None \<Rightarrow> (Inr True, (note_dial host port addr c)\<lparr>cn_upstream := Some (addr, [])\<rparr>)
           | Some e \<Rightarrow> dial_loop env policy host port (Some e) addrs (note_dial host port addr c))"

definition connect_upstream :: "net_env \<Rightarrow> string \<Rightarrow> nat \<Rightarrow> host_policy \<Rightarrow> bool net" where
  "connect_upstream env host port policy =
     (case ne_resolve env host port of
        Inl e \<Rightarrow> net_err e
      | Inr addrs \<Rightarrow> dial_loop env policy host port None addrs)"

text \<open>
  \<^verbatim>\<open>write_one_request_http_header\<close>: the request line, the client's header lines with the two that
  control the connection replaced by a single \<^verbatim>\<open>Connection: close\<close>, and the empty line.
\<close>

fun write_header_lines :: "net_env \<Rightarrow> bool \<Rightarrow> bytes list \<Rightarrow> bool net" where
  "write_header_lines env wrote [] = net_ok wrote"
| "write_header_lines env wrote (line # rest) =
     (if header_line_has_name line ''proxy-connection'' then write_header_lines env wrote rest
      else if header_line_has_name line ''connection'' then
        (if wrote then write_header_lines env wrote rest
         else net_then (write_upstream env (''Connection: close'' @ crlf)) (\<lambda>_.
                write_header_lines env True rest))
      else net_then (write_upstream env line) (\<lambda>_.
             net_then (write_upstream env crlf) (\<lambda>_. write_header_lines env wrote rest)))"

definition write_one_request_http_header ::
  "net_env \<Rightarrow> string \<Rightarrow> string \<Rightarrow> string \<Rightarrow> bytes \<Rightarrow> unit net" where
  "write_one_request_http_header env verb path version header_tail =
     net_then (write_upstream env (verb @ '' '' @ path @ '' '' @ version @ crlf)) (\<lambda>_.
     net_then (write_header_lines env False (header_lines header_tail)) (\<lambda>wrote.
     net_then (if wrote then net_ok () else write_upstream env (''Connection: close'' @ crlf)) (\<lambda>_.
       write_upstream env crlf)))"

function copy_exact_bytes :: "net_env \<Rightarrow> nat \<Rightarrow> unit net" where
  "copy_exact_bytes env n =
     (if n = 0 then net_ok ()
      else net_then (read_exact env (min 8192 n)) (\<lambda>chunk.
           net_then (write_upstream env chunk) (\<lambda>_. copy_exact_bytes env (n - min 8192 n))))"
  by pat_completeness auto
termination
  by (relation "measure snd") auto

declare copy_exact_bytes.simps [simp del]

definition copy_response :: "net_env \<Rightarrow> unit net" where
  "copy_response env = (\<lambda>c.
     (case ne_copy_error env of Some e \<Rightarrow> Inl e | None \<Rightarrow> Inr (),
      c\<lparr>cn_client := cn_client c @ take (ne_returned env) (ne_response env)\<rparr>))"

definition relay_plain_http_response :: "net_env \<Rightarrow> unit net" where
  "relay_plain_http_response env = copy_response env"

definition try_clone :: "net_env \<Rightarrow> unit net" where
  "try_clone env = socket_call env (net_ok ())"

definition copy_request :: "net_env \<Rightarrow> conn \<Rightarrow> conn" where
  "copy_request env c =
     c\<lparr>cn_upstream :=
         map_option (\<lambda>(a, sent). (a, sent @ take (ne_forwarded env) (cn_input c))) (cn_upstream c),
       cn_input := drop (ne_forwarded env) (cn_input c)\<rparr>"

definition proxy_bidirectional :: "net_env \<Rightarrow> unit net" where
  "proxy_bidirectional env =
     net_then (try_clone env) (\<lambda>_.
     net_then (try_clone env) (\<lambda>_. (\<lambda>c. copy_response env (copy_request env c))))"

section \<open>The HTTP handler\<close>

definition handle_connect :: "net_env \<Rightarrow> host_policy \<Rightarrow> string \<Rightarrow> unit net" where
  "handle_connect env policy target =
     (case parse_host_port target 443 of
        None \<Rightarrow> write_http_error env 400 ''invalid CONNECT target''
      | Some (host, port) \<Rightarrow>
          if \<not> policy_allows policy host
          then write_http_error env 403 ''Connection blocked by network allowlist''
          else net_then (connect_upstream env host port policy) (\<lambda>connected.
                 if \<not> connected
                 then write_http_error env 403 ''Connection blocked by network allowlist''
                 else net_then (write_client env (''HTTP/1.1 200 Connection Established'' @ crlf @ crlf)) (\<lambda>_.
                      net_then (try_clone env) (\<lambda>_. proxy_bidirectional env))))"

definition forward_plain_request ::
  "net_env \<Rightarrow> string \<Rightarrow> string \<Rightarrow> string \<Rightarrow> bytes \<Rightarrow> unit net" where
  "forward_plain_request env verb path version header_tail =
     (if header_has_name header_tail ''transfer-encoding''
      then write_http_error env 400 ''chunked HTTP proxy request bodies are not supported''
      else case content_length_from_headers header_tail of
             Inl e \<Rightarrow> net_err e
           | Inr content_length \<Rightarrow>
               net_then (write_one_request_http_header env verb path version header_tail) (\<lambda>_.
               net_then (copy_exact_bytes env content_length) (\<lambda>_. relay_plain_http_response env)))"

definition handle_plain ::
  "net_env \<Rightarrow> host_policy \<Rightarrow> string \<Rightarrow> string \<Rightarrow> string \<Rightarrow> bytes \<Rightarrow> unit net" where
  "handle_plain env policy verb target version header_tail =
     (case parse_absolute_http_target target of
        None \<Rightarrow> write_http_error env 400 ''expected absolute HTTP proxy request target''
      | Some absolute \<Rightarrow>
          if \<not> policy_allows policy (at_host absolute)
          then write_http_error env 403 ''Connection blocked by network allowlist''
          else if \<not> host_headers_match_target header_tail (at_host absolute) (at_port absolute)
          then write_http_error env 403 ''Host header does not match proxy target''
          else net_then (connect_upstream env (at_host absolute) (at_port absolute) policy) (\<lambda>connected.
                 if \<not> connected
                 then write_http_error env 403 ''Connection blocked by network allowlist''
                 else forward_plain_request env verb (at_path absolute) version header_tail))"

text \<open>The request line as its words; an \<^verbatim>\<open>Err\<close> of the handler is the text of its error.\<close>

definition request_words :: "bytes \<Rightarrow> string + string list \<times> bytes" where
  "request_words header =
     (case find_crlf header of
        None \<Rightarrow> Inl ''missing request line''
      | Some e \<Rightarrow>
          if \<not> valid_utf8 (take e header) then Inl ''request line is not UTF-8''
          else Inr (split_whitespace (take e header), drop (e + 2) header))"

definition handle_http_client_impl :: "net_env \<Rightarrow> host_policy \<Rightarrow> unit net" where
  "handle_http_client_impl env policy =
     net_then (read_http_header env) (\<lambda>header.
       case request_words header of
         Inl e \<Rightarrow> net_err e
       | Inr ([], _) \<Rightarrow> net_err ''missing HTTP method''
       | Inr ([_], _) \<Rightarrow> net_err ''missing HTTP target''
       | Inr (verb # target # rest, header_tail) \<Rightarrow>
           if eq_ignore_ascii_case verb ''CONNECT'' then handle_connect env policy target
           else handle_plain env policy verb target
                  (case rest of [] \<Rightarrow> ''HTTP/1.1'' | version # _ \<Rightarrow> version) header_tail)"

definition handle_http_client :: "net_env \<Rightarrow> host_policy \<Rightarrow> conn \<Rightarrow> conn" where
  "handle_http_client env policy c =
     (case handle_http_client_impl env policy c of
        (Inl err, c1) \<Rightarrow> snd (write_http_error env 502 (''proxy error: '' @ err) c1)
      | (Inr _, c1) \<Rightarrow> c1)"

section \<open>The SOCKS handler\<close>

definition write_socks_reply :: "net_env \<Rightarrow> nat \<Rightarrow> unit net" where
  "write_socks_reply env status =
     write_client env (map char_of [5, status, 0, 1, 0, 0, 0, 0, 0, 0 :: nat])"

text \<open>The host of a request: \<open>None\<close> is an address type that is not supported.\<close>

definition read_socks_host :: "net_env \<Rightarrow> nat \<Rightarrow> string option net" where
  "read_socks_host env kind =
     (if kind = 1 then
        net_then (read_exact env 4) (\<lambda>o'. net_ok (Some (ipv4_to_string (o' ! 0) (o' ! 1) (o' ! 2) (o' ! 3))))
      else if kind = 3 then
        net_then (read_exact env 1) (\<lambda>len.
        net_then (read_exact env (ord (len ! 0))) (\<lambda>name.
          if valid_utf8 name then net_ok (Some name) else net_err ''SOCKS domain is not UTF-8''))
      else if kind = 4 then
        net_then (read_exact env 16) (\<lambda>o'. net_ok (Some (ipv6_to_string o')))
      else net_ok None)"

definition serve_socks_request :: "net_env \<Rightarrow> host_policy \<Rightarrow> string \<Rightarrow> nat \<Rightarrow> unit net" where
  "serve_socks_request env policy host port =
     (if \<not> policy_allows policy host then write_socks_reply env 2
      else (\<lambda>c.
        case connect_upstream env host port policy c of
          (Inr True, c1) \<Rightarrow>
            net_then (write_socks_reply env 0) (\<lambda>_.
            net_then (try_clone env) (\<lambda>_. proxy_bidirectional env)) c1
        | (Inr False, c1) \<Rightarrow> write_socks_reply env 2 c1
        | (Inl _, c1) \<Rightarrow> write_socks_reply env 4 c1))"

definition handle_socks_client_impl :: "net_env \<Rightarrow> host_policy \<Rightarrow> unit net" where
  "handle_socks_client_impl env policy =
     net_then (read_exact env 2) (\<lambda>greeting.
       if ord (greeting ! 0) \<noteq> 5 then net_err ''unsupported SOCKS version''
       else
         net_then (read_exact env (ord (greeting ! 1))) (\<lambda>_.
         net_then (write_client env (map char_of [5, 0 :: nat])) (\<lambda>_.
         net_then (read_exact env 4) (\<lambda>request.
           if ord (request ! 0) \<noteq> 5 \<or> ord (request ! 1) \<noteq> 1 then write_socks_reply env 7
           else
             net_then (read_socks_host env (ord (request ! 3))) (\<lambda>found.
               case found of
                 None \<Rightarrow> write_socks_reply env 8
               | Some host \<Rightarrow>
                   net_then (read_exact env 2) (\<lambda>p.
                     serve_socks_request env policy host (ord (p ! 0) * 256 + ord (p ! 1))))))))"

definition handle_socks_client :: "net_env \<Rightarrow> host_policy \<Rightarrow> conn \<Rightarrow> conn" where
  "handle_socks_client env policy c = snd (handle_socks_client_impl env policy c)"

section \<open>The listeners\<close>

text \<open>
  A turn of the accept loop: the shutdown flag is set, a client is accepted (with what it will send and
  the answers the environment gives while it is served), there is none yet, or the listener failed.
\<close>

datatype listener_turn = ShutdownSet | ClientAccepted net_env bytes | WouldBlock | AcceptFailed

fun listener_loop :: "(net_env \<Rightarrow> conn \<Rightarrow> conn) \<Rightarrow> listener_turn list \<Rightarrow> (net_env \<times> conn) list" where
  "listener_loop handler [] = []"
| "listener_loop handler (turn # turns) =
     (case turn of
        ShutdownSet \<Rightarrow> []
      | ClientAccepted env input \<Rightarrow> (env, handler env (accepted input)) # listener_loop handler turns
      | WouldBlock \<Rightarrow> listener_loop handler turns
      | AcceptFailed \<Rightarrow> [])"

definition spawn_http_listener :: "host_policy \<Rightarrow> listener_turn list \<Rightarrow> (net_env \<times> conn) list" where
  "spawn_http_listener policy = listener_loop (\<lambda>env. handle_http_client env policy)"

definition spawn_socks_listener :: "host_policy \<Rightarrow> listener_turn list \<Rightarrow> (net_env \<times> conn) list" where
  "spawn_socks_listener policy = listener_loop (\<lambda>env. handle_socks_client env policy)"

section \<open>The proxy and the environment of the worker\<close>

record managed_network_proxy =
  mp_config :: managed_proxy_config
  mp_http_addr :: socket_addr
  mp_socks_addr :: socket_addr

text \<open>\<open>bind\<close> is the outcome of binding a listener and asking for its address.\<close>

definition start_with_addrs ::
  "(socket_addr \<Rightarrow> string + socket_addr) \<Rightarrow> managed_proxy_config \<Rightarrow> socket_addr \<Rightarrow> socket_addr \<Rightarrow>
   managed_network_error + (managed_network_proxy \<times> host_policy)" where
  "start_with_addrs bind config http_bind_addr socks_bind_addr =
     (case host_policy_new config of
        Inl e \<Rightarrow> Inl e
      | Inr policy \<Rightarrow>
          (case bind http_bind_addr of
             Inl e \<Rightarrow> Inl (NetworkIo e)
           | Inr http_addr \<Rightarrow>
               (case bind socks_bind_addr of
                  Inl e \<Rightarrow> Inl (NetworkIo e)
                | Inr socks_addr \<Rightarrow>
                    Inr (\<lparr>mp_config = config, mp_http_addr = http_addr, mp_socks_addr = socks_addr\<rparr>,
                         policy))))"

definition any_loopback_port :: socket_addr where
  "any_loopback_port = (V4 (char_of (127 :: nat)) (CHR 0x00) (CHR 0x00) (CHR 0x01), 0)"

definition proxy_start ::
  "(socket_addr \<Rightarrow> string + socket_addr) \<Rightarrow> managed_proxy_config \<Rightarrow>
   managed_network_error + (managed_network_proxy \<times> host_policy)" where
  "proxy_start bind config = start_with_addrs bind config any_loopback_port any_loopback_port"

type_synonym env_vars = "string \<rightharpoonup> string"

definition set_env_keys :: "string list \<Rightarrow> string \<Rightarrow> env_vars \<Rightarrow> env_vars" where
  "set_env_keys keys v env = foldl (\<lambda>e key. e(key \<mapsto> v)) env keys"

definition PROXY_ACTIVE_ENV_KEY :: string where
  "PROXY_ACTIVE_ENV_KEY = ''MCP_REPL_MANAGED_NETWORK_PROXY_ACTIVE''"

definition DEFAULT_NO_PROXY_VALUE :: string where
  "DEFAULT_NO_PROXY_VALUE = ''localhost,127.0.0.1,::1,10.0.0.0/8,172.16.0.0/12,192.168.0.0/16''"

definition HTTP_PROXY_ENV_KEYS :: "string list" where
  "HTTP_PROXY_ENV_KEYS =
     [''HTTP_PROXY'', ''HTTPS_PROXY'', ''http_proxy'', ''https_proxy'', ''YARN_HTTP_PROXY'',
      ''YARN_HTTPS_PROXY'', ''npm_config_http_proxy'', ''npm_config_https_proxy'', ''npm_config_proxy'',
      ''NPM_CONFIG_HTTP_PROXY'', ''NPM_CONFIG_HTTPS_PROXY'', ''NPM_CONFIG_PROXY'', ''BUNDLE_HTTP_PROXY'',
      ''BUNDLE_HTTPS_PROXY'', ''PIP_PROXY'', ''DOCKER_HTTP_PROXY'', ''DOCKER_HTTPS_PROXY'', ''WS_PROXY'',
      ''WSS_PROXY'', ''ws_proxy'', ''wss_proxy'']"

definition SOCKS_PROXY_ENV_KEYS :: "string list" where
  "SOCKS_PROXY_ENV_KEYS = [''ALL_PROXY'', ''all_proxy'', ''FTP_PROXY'', ''ftp_proxy'']"

definition NO_PROXY_ENV_KEYS :: "string list" where
  "NO_PROXY_ENV_KEYS = [''NO_PROXY'', ''no_proxy'', ''npm_config_noproxy'']"

definition socket_addr_to_string :: "socket_addr \<Rightarrow> string" where
  "socket_addr_to_string addr =
     (case addr_ip addr of
        V4 a b c d \<Rightarrow> ipv4_to_string a b c d @ '':'' @ dec (snd addr)
      | V6 octets \<Rightarrow> ''['' @ ipv6_to_string octets @ '']:'' @ dec (snd addr))"

definition apply_to_env :: "managed_network_proxy \<Rightarrow> env_vars \<Rightarrow> env_vars" where
  "apply_to_env proxy env =
     (let http_proxy_url = ''http://'' @ socket_addr_to_string (mp_http_addr proxy);
          socks_proxy_url = ''socks5h://'' @ socket_addr_to_string (mp_socks_addr proxy);
          env1 = env(PROXY_ACTIVE_ENV_KEY \<mapsto> ''1'');
          env2 = set_env_keys HTTP_PROXY_ENV_KEYS http_proxy_url env1;
          env3 = set_env_keys SOCKS_PROXY_ENV_KEYS socks_proxy_url env2
      in set_env_keys NO_PROXY_ENV_KEYS DEFAULT_NO_PROXY_VALUE env3)"

definition LINUX_MANAGED_NETWORK_HTTP_BRIDGE_PORT :: nat where
  "LINUX_MANAGED_NETWORK_HTTP_BRIDGE_PORT = 39080"

definition LINUX_MANAGED_NETWORK_SOCKS_BRIDGE_PORT :: nat where
  "LINUX_MANAGED_NETWORK_SOCKS_BRIDGE_PORT = 39081"

text \<open>On Linux the worker reaches the proxy over a bridge, whose start (\<open>relay\<close>) may fail.\<close>

definition apply_linux_bridge_to_env ::
  "managed_network_error + 'b \<Rightarrow> managed_network_proxy \<Rightarrow> env_vars \<Rightarrow>
   (managed_network_error + 'b) \<times> env_vars" where
  "apply_linux_bridge_to_env relay proxy env =
     (case relay of
        Inl e \<Rightarrow> (Inl e, env)
      | Inr bridge \<Rightarrow>
          (let env1 = env(PROXY_ACTIVE_ENV_KEY \<mapsto> ''1'');
               env2 = set_env_keys HTTP_PROXY_ENV_KEYS
                        (''http://127.0.0.1:'' @ dec LINUX_MANAGED_NETWORK_HTTP_BRIDGE_PORT) env1;
               env3 = set_env_keys SOCKS_PROXY_ENV_KEYS
                        (''socks5h://127.0.0.1:'' @ dec LINUX_MANAGED_NETWORK_SOCKS_BRIDGE_PORT) env2;
               env4 = set_env_keys NO_PROXY_ENV_KEYS
                        (if pc_allow_local_binding (mp_config proxy) then [] else DEFAULT_NO_PROXY_VALUE) env3
           in (Inr bridge, env4)))"

definition route_local_targets_through_proxy :: "env_vars \<Rightarrow> env_vars" where
  "route_local_targets_through_proxy env = set_env_keys NO_PROXY_ENV_KEYS [] env"

section \<open>What is dialled is allowed\<close>

definition dial_allowed :: "net_env \<Rightarrow> host_policy \<Rightarrow> string \<times> nat \<times> socket_addr \<Rightarrow> bool" where
  "dial_allowed env policy d \<longleftrightarrow>
     (case d of (host, port, addr) \<Rightarrow>
        policy_allows policy host \<and> allows_socket_addr policy addr \<and>
        (\<exists>addrs. ne_resolve env host port = Inr addrs \<and> addr \<in> set addrs))"

definition conn_safe :: "net_env \<Rightarrow> host_policy \<Rightarrow> conn \<Rightarrow> bool" where
  "conn_safe env policy c \<longleftrightarrow>
     (\<forall>d\<in>set (cn_dialled c). dial_allowed env policy d) \<and>
     (\<forall>addr sent. cn_upstream c = Some (addr, sent) \<longrightarrow> addr \<in> (snd \<circ> snd) ` set (cn_dialled c))"

definition safe_net :: "net_env \<Rightarrow> host_policy \<Rightarrow> 'a net \<Rightarrow> bool" where
  "safe_net env policy m \<longleftrightarrow> (\<forall>c. conn_safe env policy c \<longrightarrow> conn_safe env policy (snd (m c)))"

named_theorems safe_rules \<open>computations that dial only what the policy allows\<close>

lemma conn_safe_accepted: "conn_safe env policy (accepted input)"
  by (simp add: conn_safe_def accepted_def)

text \<open>Changes to anything but the dialled addresses and the peer.\<close>

definition peer :: "conn \<Rightarrow> socket_addr option" where
  "peer c = map_option fst (cn_upstream c)"

lemma conn_safe_peer:
  "conn_safe env policy c \<Longrightarrow> cn_dialled c' = cn_dialled c \<Longrightarrow> peer c' = peer c \<Longrightarrow> conn_safe env policy c'"
  by (fastforce simp: conn_safe_def peer_def map_option_case split: option.splits)

lemma peer_simps [simp]:
  "peer (c\<lparr>cn_calls := n\<rparr>) = peer c" "peer (c\<lparr>cn_input := i\<rparr>) = peer c" "peer (c\<lparr>cn_client := out\<rparr>) = peer c"
  "peer (c\<lparr>cn_upstream := map_option (\<lambda>(a, sent). (a, sent @ bs)) (cn_upstream c)\<rparr>) = peer c"
  by (simp_all add: peer_def option.map_comp comp_def case_prod_beta)

definition quiet_net :: "'a net \<Rightarrow> bool" where
  "quiet_net m \<longleftrightarrow> (\<forall>c. cn_dialled (snd (m c)) = cn_dialled c \<and> peer (snd (m c)) = peer c)"

lemma safe_quiet: "quiet_net m \<Longrightarrow> safe_net env policy m"
  by (auto simp: safe_net_def quiet_net_def intro: conn_safe_peer)

lemma safe_net_then [safe_rules]:
  assumes m: "safe_net env policy m" and k: "\<And>x. safe_net env policy (k x)"
  shows "safe_net env policy (net_then m k)"
  unfolding safe_net_def
proof (intro allI impI)
  fix c
  assume c: "conn_safe env policy c"
  obtain r c1 where r: "m c = (r, c1)" by force
  with m c have "conn_safe env policy c1" unfolding safe_net_def by (metis snd_conv)
  with k r show "conn_safe env policy (snd (net_then m k c))"
    unfolding safe_net_def net_then_def by (cases r) simp_all
qed

named_theorems quiet_rules \<open>computations that dial nothing\<close>

lemma quiet_net_then [quiet_rules]:
  assumes m: "quiet_net m" and k: "\<And>x. quiet_net (k x)"
  shows "quiet_net (net_then m k)"
  unfolding quiet_net_def
proof (intro allI)
  fix c
  obtain r c1 where r: "m c = (r, c1)" by force
  with m have "cn_dialled c1 = cn_dialled c \<and> peer c1 = peer c" unfolding quiet_net_def by (metis snd_conv)
  with k r show "cn_dialled (snd (net_then m k c)) = cn_dialled c \<and> peer (snd (net_then m k c)) = peer c"
    unfolding quiet_net_def net_then_def by (cases r) simp_all
qed

lemma quiet_units [quiet_rules]: "quiet_net (net_ok x)" "quiet_net (net_err e)"
  by (simp_all add: quiet_net_def net_ok_def net_err_def)

lemma quiet_socket_call [quiet_rules]: "quiet_net f \<Longrightarrow> quiet_net (socket_call env f)"
  by (auto simp: quiet_net_def socket_call_def split: option.split)

lemma quiet_io [quiet_rules]:
  "quiet_net (read_byte env)" "quiet_net (read_exact env n)"
  "quiet_net (write_client env bs)" "quiet_net (write_upstream env bs)"
  unfolding read_byte_def read_exact_def write_client_def write_upstream_def
  by (auto simp: quiet_net_def socket_call_def net_ok_def peer_def option.map_comp comp_def
      case_prod_beta split: list.split option.split)

lemma quiet_header_loop [quiet_rules]: "quiet_net (header_loop env room header)"
  by (induction room arbitrary: header) (auto intro!: quiet_rules split: option.split)

lemma quiet_write_header_lines [quiet_rules]: "quiet_net (write_header_lines env wrote ls)"
  by (induction ls arbitrary: wrote) (auto intro!: quiet_rules)

lemma quiet_copy_exact_bytes [quiet_rules]: "quiet_net (copy_exact_bytes env n)"
proof (induction n rule: less_induct)
  case (less n)
  show ?case
    by (subst copy_exact_bytes.simps) (auto intro!: quiet_rules less)
qed

lemma quiet_copies [quiet_rules]:
  "quiet_net (copy_response env)" "quiet_net (\<lambda>c. copy_response env (copy_request env c))"
  by (auto simp: quiet_net_def copy_response_def copy_request_def)

lemma quiet_exchanges [quiet_rules]:
  "quiet_net (read_http_header env)" "quiet_net (write_http_error env status message)"
  "quiet_net (write_one_request_http_header env verb path version tail)"
  "quiet_net (relay_plain_http_response env)" "quiet_net (try_clone env)"
  "quiet_net (proxy_bidirectional env)" "quiet_net (write_socks_reply env code)"
  "quiet_net (read_socks_host env kind)"
  unfolding read_http_header_def write_http_error_def write_one_request_http_header_def
    relay_plain_http_response_def try_clone_def proxy_bidirectional_def write_socks_reply_def
    read_socks_host_def Let_def
  by (auto intro!: quiet_rules)

lemma quiet_forward_plain_request [quiet_rules]:
  "quiet_net (forward_plain_request env verb path version tail)"
  unfolding forward_plain_request_def by (auto intro!: quiet_rules split: sum.split)

lemma safe_dial_loop:
  assumes "policy_allows policy host" "ne_resolve env host port = Inr all" "set addrs \<subseteq> set all"
  shows "safe_net env policy (dial_loop env policy host port last_err addrs)"
  using assms(3)
proof (induction addrs arbitrary: last_err)
  case Nil
  then show ?case by (auto simp: safe_net_def split: option.split)
next
  case (Cons addr addrs)
  have dial: "conn_safe env policy (note_dial host port addr c)"
    "conn_safe env policy ((note_dial host port addr c)\<lparr>cn_upstream := Some (addr, [])\<rparr>)"
    if "allows_socket_addr policy addr" "conn_safe env policy c" for c
    using that assms Cons.prems by (auto simp: conn_safe_def note_dial_def dial_allowed_def)
  with Cons show ?case by (auto simp: safe_net_def split: option.split)
qed

lemma safe_connect_upstream:
  "policy_allows policy host \<Longrightarrow> safe_net env policy (connect_upstream env host port policy)"
  unfolding connect_upstream_def
  by (auto intro: safe_dial_loop safe_quiet quiet_rules split: sum.split)

lemmas quiet_atoms = quiet_units quiet_io quiet_exchanges quiet_forward_plain_request

lemmas safe_intros = safe_net_then safe_connect_upstream quiet_atoms [THEN safe_quiet]

lemma safe_handle_connect [safe_rules]: "safe_net env policy (handle_connect env policy target)"
  unfolding handle_connect_def by (auto intro!: safe_intros split: option.split)

lemma safe_handle_plain [safe_rules]:
  "safe_net env policy (handle_plain env policy verb target version tail)"
  unfolding handle_plain_def by (auto intro!: safe_intros split: option.split)

lemma safe_http_impl: "safe_net env policy (handle_http_client_impl env policy)"
  unfolding handle_http_client_impl_def
  by (auto intro!: safe_intros safe_handle_connect safe_handle_plain split: sum.split prod.split list.split)

lemma safe_socks_request [safe_rules]: "safe_net env policy (serve_socks_request env policy host port)"
proof (cases "policy_allows policy host")
  case True
  have tunnel: "safe_net env policy
      (net_then (write_socks_reply env 0) (\<lambda>_. net_then (try_clone env) (\<lambda>_. proxy_bidirectional env)))"
    and reply: "\<And>code. safe_net env policy (write_socks_reply env code)"
    by (auto intro!: safe_intros)
  have dial: "safe_net env policy (connect_upstream env host port policy)"
    using True by (rule safe_connect_upstream)
  show ?thesis
    unfolding safe_net_def
  proof (intro allI impI)
    fix c
    assume c: "conn_safe env policy c"
    obtain r c1 where r: "connect_upstream env host port policy c = (r, c1)" by force
    with dial c have "conn_safe env policy c1" unfolding safe_net_def by (metis snd_conv)
    with True r tunnel reply show "conn_safe env policy (snd (serve_socks_request env policy host port c))"
      by (auto simp: serve_socks_request_def safe_net_def split: sum.split bool.split)
  qed
next
  case False
  then show ?thesis by (auto simp: serve_socks_request_def intro!: safe_intros)
qed

lemma safe_socks_impl: "safe_net env policy (handle_socks_client_impl env policy)"
  unfolding handle_socks_client_impl_def
  by (auto intro!: safe_intros safe_socks_request split: option.split)

text \<open>The contract of a client handler, and what the accept loop makes of it.\<close>

locale client_handler =
  fixes handler :: "host_policy \<Rightarrow> net_env \<Rightarrow> conn \<Rightarrow> conn"
  assumes handler_safe: "conn_safe env policy c \<Longrightarrow> conn_safe env policy (handler policy env c)"
begin

lemma served_safe: "(env, c) \<in> set (listener_loop (handler policy) turns) \<Longrightarrow> conn_safe env policy c"
  by (induction turns) (auto intro: handler_safe conn_safe_accepted split: listener_turn.splits)

lemma served_dials:
  assumes "(env, c) \<in> set (listener_loop (handler policy) turns)"
  shows "(host, port, addr) \<in> set (cn_dialled c) \<Longrightarrow> dial_allowed env policy (host, port, addr)"
    and "cn_upstream c = Some (addr, sent) \<Longrightarrow>
         \<exists>host port. (host, port, addr) \<in> set (cn_dialled c) \<and> dial_allowed env policy (host, port, addr)"
  using served_safe [OF assms] by (force simp: conn_safe_def)+

end

interpretation http: client_handler "\<lambda>policy env. handle_http_client env policy"
proof
  fix env policy c
  assume c: "conn_safe env policy c"
  obtain r c1 where r: "handle_http_client_impl env policy c = (r, c1)" by force
  with safe_http_impl c have "conn_safe env policy c1" unfolding safe_net_def by (metis snd_conv)
  moreover have "safe_net env policy (write_http_error env 502 message)" for message
    by (rule safe_quiet) (rule quiet_exchanges)
  ultimately show "conn_safe env policy (handle_http_client env policy c)"
    using r by (auto simp: handle_http_client_def safe_net_def split: sum.split)
qed

interpretation socks: client_handler "\<lambda>policy env. handle_socks_client env policy"
  by unfold_locales (use safe_socks_impl in \<open>auto simp: handle_socks_client_def safe_net_def\<close>)

text \<open>A policy and a network for the concrete inputs below.\<close>

definition sample_policy :: host_policy where
  "sample_policy =
     \<lparr>hp_allowed = [Exact ''pypi.org'', SubdomainsOnly ''example.com''],
      hp_denied = [Exact ''bad.example.com''], hp_allow_local_binding = False\<rparr>"

definition private_addr :: socket_addr where
  "private_addr = (V4 (CHR 0x0A) (CHR 0x00) (CHR 0x00) (CHR 0x01), 80)"

definition public_addr :: socket_addr where
  "public_addr = (V4 (CHR 0x97) (CHR 0x65) (CHR 0x00) (CHR 0xDF), 80)"

definition sample_net :: net_env where
  "sample_net =
     \<lparr>ne_fails = (\<lambda>_. None),
      ne_resolve = (\<lambda>host port. if host = ''pypi.org'' then Inr [private_addr, public_addr] else Inl ''unknown''),
      ne_connect = (\<lambda>_. None), ne_response = ''HTTP/1.1 200 OK'' @ crlf @ crlf,
      ne_forwarded = 1000, ne_returned = 1000, ne_copy_error = None\<rparr>"

definition sample_request :: bytes where
  "sample_request =
     ''POST http://pypi.org/simple HTTP/1.1'' @ crlf @ ''Host: pypi.org'' @ crlf @
     ''Connection: keep-alive'' @ crlf @ ''Content-Length: 2'' @ crlf @ crlf @ ''okGET ''"

definition sample_conn :: conn where
  "sample_conn = handle_http_client sample_net sample_policy (accepted sample_request)"

definition sample_tail :: bytes where
  "sample_tail =
     ''Host: pypi.org'' @ crlf @ ''Connection: keep-alive'' @ crlf @ ''Content-Length: 2'' @ crlf @ crlf"

definition sample_head :: bytes where
  "sample_head = ''POST http://pypi.org/simple HTTP/1.1'' @ crlf @ sample_tail"

definition sample_read :: conn where
  "sample_read = (accepted ''okGET '')\<lparr>cn_calls := length sample_head\<rparr>"

definition sample_open :: conn where
  "sample_open = (note_dial ''pypi.org'' 80 public_addr sample_read)\<lparr>cn_upstream := Some (public_addr, [])\<rparr>"

lemma sample_header: "read_http_header sample_net (accepted sample_request) = (Inr sample_head, sample_read)"
  by code_simp

lemma sample_words:
  "request_words sample_head = Inr (''POST'' # ''http://pypi.org/simple'' # [''HTTP/1.1''], sample_tail)"
  by code_simp

lemma sample_connect: "connect_upstream sample_net ''pypi.org'' 80 sample_policy sample_read = (Inr True, sample_open)"
  by code_simp

lemma sample_checks:
  "parse_absolute_http_target ''http://pypi.org/simple'' =
     Some \<lparr>at_host = ''pypi.org'', at_port = 80, at_path = ''/simple''\<rparr>"
  "policy_allows sample_policy ''pypi.org''" "host_headers_match_target sample_tail ''pypi.org'' 80"
  "\<not> eq_ignore_ascii_case ''POST'' ''CONNECT''"
  by code_simp+

lemma sample_impl:
  "handle_http_client_impl sample_net sample_policy (accepted sample_request) =
     forward_plain_request sample_net ''POST'' ''/simple'' ''HTTP/1.1'' sample_tail sample_open"
proof -
  have "handle_http_client_impl sample_net sample_policy (accepted sample_request) =
        handle_plain sample_net sample_policy ''POST'' ''http://pypi.org/simple'' ''HTTP/1.1'' sample_tail sample_read"
    unfolding handle_http_client_impl_def net_then_def sample_header by (simp add: sample_words sample_checks)
  also have "\<dots> = forward_plain_request sample_net ''POST'' ''/simple'' ''HTTP/1.1'' sample_tail sample_open"
    unfolding handle_plain_def sample_checks by (simp add: sample_checks net_then_def sample_connect)
  finally show ?thesis .
qed

lemma sample_lines:
  "header_lines sample_tail = [''Host: pypi.org'', ''Connection: keep-alive'', ''Content-Length: 2'']"
  "\<not> header_has_name sample_tail ''transfer-encoding''"
  "content_length_from_headers sample_tail = Inr 2"
  by code_simp+

lemma sample_names:
  "\<not> header_line_has_name ''Host: pypi.org'' ''proxy-connection''"
  "\<not> header_line_has_name ''Host: pypi.org'' ''connection''"
  "\<not> header_line_has_name ''Connection: keep-alive'' ''proxy-connection''"
  "header_line_has_name ''Connection: keep-alive'' ''connection''"
  "\<not> header_line_has_name ''Content-Length: 2'' ''proxy-connection''"
  "\<not> header_line_has_name ''Content-Length: 2'' ''connection''"
  by code_simp+

lemma sample_writes:
  "write_upstream sample_net bs c =
     (Inr (), c\<lparr>cn_calls := cn_calls c + 1,
                cn_upstream := map_option (\<lambda>(a, sent). (a, sent @ bs)) (cn_upstream c)\<rparr>)"
  "0 < n \<Longrightarrow> n \<le> length (cn_input c) \<Longrightarrow>
   read_exact sample_net n c =
     (Inr (take n (cn_input c)), c\<lparr>cn_calls := cn_calls c + 1, cn_input := drop n (cn_input c)\<rparr>)"
  by (simp_all add: write_upstream_def read_exact_def socket_call_def sample_net_def)

lemma sample_forward:
  "\<exists>c' sent. forward_plain_request sample_net ''POST'' ''/simple'' ''HTTP/1.1'' sample_tail sample_open = (Inr (), c') \<and>
     cn_dialled c' = [(''pypi.org'', 80, public_addr)] \<and> cn_upstream c' = Some (public_addr, sent) \<and> sent \<noteq> []"
  unfolding forward_plain_request_def sample_lines write_one_request_http_header_def
    write_header_lines.simps net_then_def
  by (simp add: sample_lines sample_names sample_writes net_ok_def sample_open_def sample_read_def note_dial_def
      accepted_def copy_exact_bytes.simps net_then_def relay_plain_http_response_def copy_response_def)
    (simp add: sample_net_def)

lemma sample_run:
  obtains sent where
    "handle_http_client_impl sample_net sample_policy (accepted sample_request) = (Inr (), sample_conn)"
    "cn_dialled sample_conn = [(''pypi.org'', 80, public_addr)]"
    "cn_upstream sample_conn = Some (public_addr, sent)" "sent \<noteq> []"
  using sample_forward by (auto simp: sample_conn_def handle_http_client_def sample_impl)

lemma sample_served:
  "(sample_net, sample_conn) \<in>
     set (spawn_http_listener sample_policy [ClientAccepted sample_net sample_request])"
  by (simp add: spawn_http_listener_def sample_conn_def)

text \<open>
  C14. The proxy connects only where the policy lets it. Whatever clients send to its HTTP and its
  SOCKS listener, in any number, and whatever lookups and sockets answer, every address the proxy dials
  for a client was the answer of a lookup for a host that the allowlist admits and is a public address
  (or a loopback address, where local targets are permitted); and bytes are written upstream only to
  such an address.
\<close>

theorem proxy_dials_only_allowed_hosts:
  assumes "(env, c) \<in> set (spawn_http_listener policy turns) \<union> set (spawn_socks_listener policy turns)"
  shows "(\<forall>(host, port, addr) \<in> set (cn_dialled c).
            policy_allows policy host \<and> allows_socket_addr policy addr \<and>
            (\<exists>addrs. ne_resolve env host port = Inr addrs \<and> addr \<in> set addrs)) \<and>
         (\<forall>addr sent. cn_upstream c = Some (addr, sent) \<longrightarrow>
            addr \<in> (\<lambda>(host, port, addr). addr) ` set (cn_dialled c))"
proof -
  have "conn_safe env policy c"
    using assms http.served_safe socks.served_safe
    unfolding spawn_http_listener_def spawn_socks_listener_def by blast
  then have "(\<forall>d \<in> set (cn_dialled c). dial_allowed env policy d) \<and>
      (\<forall>addr sent. cn_upstream c = Some (addr, sent) \<longrightarrow> addr \<in> (\<lambda>(host, port, addr). addr) ` set (cn_dialled c))"
    by (force simp: conn_safe_def)
  then show ?thesis by (auto simp: dial_allowed_def)
qed

theorem proxy_dials_only_allowed_hosts_witness:
  "cn_dialled sample_conn = [(''pypi.org'', 80, public_addr)] \<and>
   policy_allows sample_policy ''pypi.org'' \<and> allows_socket_addr sample_policy public_addr \<and>
   \<not> allows_socket_addr sample_policy private_addr"
proof -
  have "cn_dialled sample_conn = [(''pypi.org'', 80, public_addr)]" by (rule sample_run)
  moreover have "\<not> allows_socket_addr sample_policy private_addr" by code_simp
  moreover note proxy_dials_only_allowed_hosts [of sample_net sample_conn sample_policy
      "[ClientAccepted sample_net sample_request]"]
  ultimately show ?thesis using sample_served by simp
qed

section \<open>One plain request is forwarded\<close>

text \<open>
  What a computation that succeeds does to an open upstream connection: the bytes it sends and the
  bytes of the client it uses up.
\<close>

definition sends :: "('a \<Rightarrow> bytes \<Rightarrow> bytes \<Rightarrow> bool) \<Rightarrow> 'a net \<Rightarrow> bool" where
  "sends P m \<longleftrightarrow>
     (\<forall>c r c' a sent. m c = (Inr r, c') \<and> cn_upstream c = Some (a, sent) \<longrightarrow>
        (\<exists>out used. cn_upstream c' = Some (a, sent @ out) \<and> cn_input c = used @ cn_input c' \<and> P r out used))"

lemma sendsD:
  assumes "sends P m" "m c = (Inr r, c')" "cn_upstream c = Some (a, sent)"
  obtains out used where "cn_upstream c' = Some (a, sent @ out)" "cn_input c = used @ cn_input c'" "P r out used"
  using assms unfolding sends_def by blast

lemma net_then_Inr:
  "net_then m k c = (Inr r, c') \<longleftrightarrow> (\<exists>x c1. m c = (Inr x, c1) \<and> k x c1 = (Inr r, c'))"
  by (auto simp: net_then_def split: prod.splits sum.splits)

lemma sends_then:
  assumes "sends P m" "\<And>x. sends (Q x) (k x)"
    and "\<And>x r o1 u1 o2 u2. P x o1 u1 \<Longrightarrow> Q x r o2 u2 \<Longrightarrow> S r (o1 @ o2) (u1 @ u2)"
  shows "sends S (net_then m k)"
  unfolding sends_def net_then_Inr
proof (intro allI impI, elim conjE exE)
  fix c r c' a sent x c1
  assume run: "m c = (Inr x, c1)" "k x c1 = (Inr r, c')" and up: "cn_upstream c = Some (a, sent)"
  from sendsD [OF assms(1) run(1) up] obtain o1 u1 where
    1: "cn_upstream c1 = Some (a, sent @ o1)" "cn_input c = u1 @ cn_input c1" "P x o1 u1" .
  from sendsD [OF assms(2) run(2) 1(1)] obtain o2 u2 where
    2: "cn_upstream c' = Some (a, (sent @ o1) @ o2)" "cn_input c1 = u2 @ cn_input c'" "Q x r o2 u2" .
  from 1 2 assms(3) [OF 1(3) 2(3)]
  show "\<exists>out used. cn_upstream c' = Some (a, sent @ out) \<and> cn_input c = used @ cn_input c' \<and> S r out used"
    by (intro exI [of _ "o1 @ o2"] exI [of _ "u1 @ u2"]) simp
qed

lemma sends_mono: "sends P m \<Longrightarrow> (\<And>r out used. P r out used \<Longrightarrow> Q r out used) \<Longrightarrow> sends Q m"
  unfolding sends_def by blast

lemma sends_ok: "sends (\<lambda>r out used. r = x \<and> out = [] \<and> used = []) (net_ok x)"
  by (simp add: sends_def net_ok_def)

lemma sends_write: "sends (\<lambda>r out used. out = bs \<and> used = []) (write_upstream env bs)"
  by (auto simp: sends_def write_upstream_def socket_call_def split: option.splits)

lemma sends_read: "sends (\<lambda>r out used. out = [] \<and> used = r \<and> length r = n) (read_exact env n)"
  by (auto simp: sends_def read_exact_def socket_call_def net_ok_def split: option.splits if_splits)

lemma sends_copy_exact: "sends (\<lambda>r out used. out = used \<and> length used = n) (copy_exact_bytes env n)"
proof (induction n rule: less_induct)
  case (less n)
  show ?case
  proof (cases "n = 0")
    case True
    then show ?thesis
      by (subst copy_exact_bytes.simps) (simp, rule sends_mono [OF sends_ok], simp)
  next
    case False
    have rest: "sends (\<lambda>r out used. out = used \<and> length used = n - min 8192 n)
        (copy_exact_bytes env (n - min 8192 n))"
      using False by (intro less) simp
    have "sends (\<lambda>r out used. out = chunk @ used \<and> length used = n - min 8192 n)
        (net_then (write_upstream env chunk) (\<lambda>_. copy_exact_bytes env (n - min 8192 n)))" for chunk
      by (rule sends_then [OF sends_write rest]) simp
    then have "sends (\<lambda>r out used. out = used \<and> length used = n)
        (net_then (read_exact env (min 8192 n)) (\<lambda>chunk.
           net_then (write_upstream env chunk) (\<lambda>_. copy_exact_bytes env (n - min 8192 n))))"
      by (rule sends_then [OF sends_read]) auto
    with False show ?thesis by (subst copy_exact_bytes.simps) simp
  qed
qed

text \<open>The header lines that are sent on.\<close>

fun rewritten_lines :: "bool \<Rightarrow> bytes list \<Rightarrow> bytes list" where
  "rewritten_lines wrote [] = (if wrote then [] else [''Connection: close''])"
| "rewritten_lines wrote (line # rest) =
     (if header_line_has_name line ''proxy-connection'' then rewritten_lines wrote rest
      else if header_line_has_name line ''connection'' then
        (if wrote then rewritten_lines wrote rest else ''Connection: close'' # rewritten_lines True rest)
      else line # rewritten_lines wrote rest)"

abbreviation header_block :: "bytes list \<Rightarrow> bytes" where
  "header_block ls \<equiv> concat (map (\<lambda>line. line @ crlf) ls)"

lemma sends_header_lines:
  "sends (\<lambda>r out used. used = [] \<and>
            out @ (if r then [] else ''Connection: close'' @ crlf) = header_block (rewritten_lines wrote ls))
     (write_header_lines env wrote ls)"
proof (induction ls arbitrary: wrote)
  case Nil
  show ?case unfolding write_header_lines.simps by (rule sends_mono [OF sends_ok]) auto
next
  case (Cons line ls)
  let ?P = "\<lambda>wrote r out used. used = [] \<and>
    out @ (if r then [] else ''Connection: close'' @ crlf) = header_block (rewritten_lines wrote ls)"
  have close: "sends (\<lambda>r out used. used = [] \<and>
        out @ (if r then [] else ''Connection: close'' @ crlf) =
          ''Connection: close'' @ crlf @ header_block (rewritten_lines True ls))
      (net_then (write_upstream env (''Connection: close'' @ crlf)) (\<lambda>_. write_header_lines env True ls))"
    by (rule sends_then [OF sends_write Cons.IH]) auto
  have "sends (\<lambda>r out used. used = [] \<and>
        out @ (if r then [] else ''Connection: close'' @ crlf) =
          crlf @ header_block (rewritten_lines wrote ls))
      (net_then (write_upstream env crlf) (\<lambda>_. write_header_lines env wrote ls))"
    by (rule sends_then [OF sends_write Cons.IH]) auto
  then have keep: "sends (\<lambda>r out used. used = [] \<and>
        out @ (if r then [] else ''Connection: close'' @ crlf) =
          line @ crlf @ header_block (rewritten_lines wrote ls))
      (net_then (write_upstream env line) (\<lambda>_.
         net_then (write_upstream env crlf) (\<lambda>_. write_header_lines env wrote ls)))"
    by (rule sends_then [OF sends_write]) auto
  show ?case
    using Cons.IH [of wrote] close keep
    by (cases "header_line_has_name line ''proxy-connection''";
        cases "header_line_has_name line ''connection''"; cases wrote) simp_all
qed

definition request_head :: "string \<Rightarrow> string \<Rightarrow> string \<Rightarrow> bytes list \<Rightarrow> bytes" where
  "request_head verb path version ls =
     verb @ '' '' @ path @ '' '' @ version @ crlf @ header_block ls @ crlf"

lemma sends_request_header:
  "sends (\<lambda>r out used. used = [] \<and>
            out = request_head verb path version (rewritten_lines False (header_lines tail)))
     (write_one_request_http_header env verb path version tail)"
proof -
  let ?close = "''Connection: close'' @ crlf"
  have last: "sends (\<lambda>r out used. used = [] \<and> out = (if wrote then [] else ?close) @ crlf)
      (net_then (if wrote then net_ok () else write_upstream env ?close) (\<lambda>_. write_upstream env crlf))" for wrote
  proof (cases wrote)
    case True
    show ?thesis
      using True by (simp only: if_True) (rule sends_then [OF sends_ok sends_write], auto)
  next
    case False
    show ?thesis
      using False by (simp only: if_False) (rule sends_then [OF sends_write sends_write], auto)
  qed
  show ?thesis
    unfolding write_one_request_http_header_def request_head_def
    by (rule sends_then [OF sends_write sends_then [OF sends_header_lines last]]) (assumption | auto)+
qed

lemma close_names:
  "header_line_has_name ''Connection: close'' ''connection''"
  "\<not> header_line_has_name ''Connection: close'' ''proxy-connection''"
  by code_simp+

abbreviation plain_line :: "bytes \<Rightarrow> bool" where
  "plain_line line \<equiv>
     \<not> header_line_has_name line ''connection'' \<and> \<not> header_line_has_name line ''proxy-connection''"

lemma rewritten_lines_connection:
  "filter (\<lambda>line. header_line_has_name line ''connection'') (rewritten_lines wrote ls) =
     (if wrote then [] else [''Connection: close''])"
  by (induction ls arbitrary: wrote) (simp_all add: close_names)

lemma rewritten_lines_proxy:
  "line \<in> set (rewritten_lines wrote ls) \<Longrightarrow> \<not> header_line_has_name line ''proxy-connection''"
  by (induction ls arbitrary: wrote) (auto simp only: rewritten_lines.simps list.set close_names split: if_splits)

lemma rewritten_lines_plain: "filter plain_line (rewritten_lines wrote ls) = filter plain_line ls"
  by (induction ls arbitrary: wrote) (simp_all add: close_names)

lemma sends_copy_response: "sends (\<lambda>r out used. out = [] \<and> used = []) (relay_plain_http_response env)"
  by (auto simp: sends_def relay_plain_http_response_def copy_response_def)

lemma sends_error: "sends (\<lambda>r out used. out = [] \<and> used = []) (write_http_error env status message)"
  by (auto simp: sends_def write_http_error_def write_client_def socket_call_def Let_def split: option.splits)

lemma sends_forward:
  "sends (\<lambda>r out used. out \<noteq> [] \<longrightarrow>
            (\<exists>n. content_length_from_headers tail = Inr n \<and> length used = n \<and>
                 out = request_head verb path version (rewritten_lines False (header_lines tail)) @ used))
     (forward_plain_request env verb path version tail)"
proof (cases "header_has_name tail ''transfer-encoding''")
  case True
  then show ?thesis
    unfolding forward_plain_request_def by (simp only: if_True) (rule sends_mono [OF sends_error], simp)
next
  case False
  show ?thesis
  proof (cases "content_length_from_headers tail")
    case (Inl e)
    with False show ?thesis by (simp add: forward_plain_request_def sends_def net_err_def)
  next
    case (Inr n)
    have "sends (\<lambda>r out used. out = used \<and> length used = n)
        (net_then (copy_exact_bytes env n) (\<lambda>_. relay_plain_http_response env))"
      by (rule sends_then [OF sends_copy_exact sends_copy_response]) auto
    then have "sends (\<lambda>r out used. length used = n \<and>
          out = request_head verb path version (rewritten_lines False (header_lines tail)) @ used)
        (net_then (write_one_request_http_header env verb path version tail) (\<lambda>_.
           net_then (copy_exact_bytes env n) (\<lambda>_. relay_plain_http_response env)))"
      by (rule sends_then [OF sends_request_header]) auto
    then show ?thesis
      unfolding forward_plain_request_def using False Inr
      by (simp only: if_False sum.case) (erule sends_mono, auto)
  qed
qed

lemma dial_loop_fresh:
  assumes "dial_loop env policy host port last_err addrs c = (Inr b, c')" "cn_upstream c = None"
  shows "cn_input c' = cn_input c \<and> (if b then \<exists>addr. cn_upstream c' = Some (addr, []) else cn_upstream c' = None)"
  using assms
  by (induction addrs arbitrary: c last_err)
    (auto simp: note_dial_def split: if_splits option.splits)

lemma connect_upstream_fresh:
  assumes "connect_upstream env host port policy c = (Inr b, c')" "cn_upstream c = None"
  shows "cn_input c' = cn_input c \<and> (if b then \<exists>addr. cn_upstream c' = Some (addr, []) else cn_upstream c' = None)"
proof (cases "ne_resolve env host port")
  case (Inl e)
  with assms show ?thesis by (simp add: connect_upstream_def net_err_def)
next
  case (Inr addrs)
  with assms have "dial_loop env policy host port None addrs c = (Inr b, c')" by (simp add: connect_upstream_def)
  from this assms(2) show ?thesis by (rule dial_loop_fresh)
qed

lemma error_opens_nothing:
  "cn_upstream c = None \<Longrightarrow> cn_upstream (snd (write_http_error env status message c)) = None"
  by (simp add: write_http_error_def write_client_def socket_call_def Let_def split: option.split)

lemma handle_plain_forwards:
  assumes run: "handle_plain env policy verb target version tail c = (Inr (), c')"
    and fresh: "cn_upstream c = None" and sent: "cn_upstream c' = Some (addr, sent)" "sent \<noteq> []"
  shows "\<exists>absolute n body.
      parse_absolute_http_target target = Some absolute \<and> policy_allows policy (at_host absolute) \<and>
      content_length_from_headers tail = Inr n \<and> length body = n \<and> cn_input c = body @ cn_input c' \<and>
      sent = request_head verb (at_path absolute) version (rewritten_lines False (header_lines tail)) @ body"
proof -
  have opened: "write_http_error env status message c = (Inr (), c') \<Longrightarrow> False" for status message
    using error_opens_nothing [OF fresh, of env status message] sent by simp
  from run opened obtain absolute where
    abs: "parse_absolute_http_target target = Some absolute" "policy_allows policy (at_host absolute)"
    and rest: "net_then (connect_upstream env (at_host absolute) (at_port absolute) policy) (\<lambda>connected.
                 if \<not> connected
                 then write_http_error env 403 ''Connection blocked by network allowlist''
                 else forward_plain_request env verb (at_path absolute) version tail) c = (Inr (), c')"
    by (auto simp: handle_plain_def split: option.splits if_splits)
  then obtain b c1 where con: "connect_upstream env (at_host absolute) (at_port absolute) policy c = (Inr b, c1)"
    and k: "(if \<not> b then write_http_error env 403 ''Connection blocked by network allowlist''
             else forward_plain_request env verb (at_path absolute) version tail) c1 = (Inr (), c')"
    unfolding net_then_Inr by blast
  note c1 = connect_upstream_fresh [OF con fresh]
  have b: b
  proof (rule ccontr)
    assume "\<not> b"
    with k have "write_http_error env 403 ''Connection blocked by network allowlist'' c1 = (Inr (), c')" by simp
    moreover have "cn_upstream c1 = None" using c1 \<open>\<not> b\<close> by simp
    ultimately have "cn_upstream c' = None"
      using error_opens_nothing [of c1 env 403 "''Connection blocked by network allowlist''"] by simp
    with sent show False by simp
  qed
  with c1 obtain a where up: "cn_upstream c1 = Some (a, [])" "cn_input c1 = cn_input c" by auto
  from b k have fw: "forward_plain_request env verb (at_path absolute) version tail c1 = (Inr (), c')" by simp
  from sendsD [OF sends_forward fw up(1)] obtain out used where
    o: "cn_upstream c' = Some (a, [] @ out)" "cn_input c1 = used @ cn_input c'"
    and n: "out \<noteq> [] \<longrightarrow>
       (\<exists>n. content_length_from_headers tail = Inr n \<and> length used = n \<and>
            out = request_head verb (at_path absolute) version (rewritten_lines False (header_lines tail)) @ used)" .
  with abs sent up show ?thesis by auto
qed

lemma quiet_header_upstream: "read_http_header env c = (r, c1) \<Longrightarrow> cn_upstream c = None \<Longrightarrow> cn_upstream c1 = None"
  using quiet_exchanges(1) [of env] by (auto simp: quiet_net_def peer_def dest: spec [of _ c])

text \<open>
  C30. A plain HTTP request reaches the target once and only as far as it was declared. When a
  request other than CONNECT succeeds and something was sent upstream, then it was sent for a target
  the allowlist admits, and what was sent is one request: the request line with the target's path, the
  client's header lines in their order but for those that control the connection, in whose place there
  is exactly one \<^verbatim>\<open>Connection: close\<close>, an empty line, and of what the client sent after its header
  exactly as many bytes as its Content-Length says.
\<close>

theorem plain_request_forwarded_once:
  assumes run: "handle_http_client_impl env policy (accepted input) = (Inr (), c')"
    and header: "read_http_header env (accepted input) = (Inr header, c1)"
    and words: "request_words header = Inr (verb # target # rest, tail)"
    and plain: "\<not> eq_ignore_ascii_case verb ''CONNECT''"
    and sent: "cn_upstream c' = Some (addr, sent)" "sent \<noteq> []"
  shows "\<exists>absolute ls body.
      parse_absolute_http_target target = Some absolute \<and> policy_allows policy (at_host absolute) \<and>
      sent = verb @ '' '' @ at_path absolute @ '' '' @ (if rest = [] then ''HTTP/1.1'' else hd rest) @ crlf @
             concat (map (\<lambda>line. line @ crlf) ls) @ crlf @ body \<and>
      filter plain_line ls = filter plain_line (header_lines tail) \<and>
      filter (\<lambda>line. \<not> plain_line line) ls = [''Connection: close''] \<and>
      content_length_from_headers tail = Inr (length body) \<and>
      cn_input c1 = body @ cn_input c'"
proof -
  let ?version = "if rest = [] then ''HTTP/1.1'' else hd rest"
  let ?ls = "rewritten_lines False (header_lines tail)"
  have "handle_plain env policy verb target ?version tail c1 = (Inr (), c')"
    using run header words plain
    by (auto simp: handle_http_client_impl_def net_then_def split: list.splits)
  moreover have "cn_upstream c1 = None"
    using quiet_header_upstream [OF header] by (simp add: accepted_def)
  ultimately obtain absolute n body where
    "parse_absolute_http_target target = Some absolute" "policy_allows policy (at_host absolute)"
    "content_length_from_headers tail = Inr n" "length body = n" "cn_input c1 = body @ cn_input c'"
    "sent = request_head verb (at_path absolute) ?version ?ls @ body"
    using handle_plain_forwards sent by metis
  moreover have "filter (\<lambda>line. \<not> plain_line line) ?ls = [''Connection: close'']"
  proof -
    have "filter (\<lambda>line. \<not> plain_line line) ?ls = filter (\<lambda>line. header_line_has_name line ''connection'') ?ls"
      by (rule filter_cong) (auto dest: rewritten_lines_proxy)
    then show ?thesis by (simp add: rewritten_lines_connection)
  qed
  ultimately show ?thesis
    using rewritten_lines_plain [of False "header_lines tail"]
    by (intro exI [of _ absolute] exI [of _ ?ls] exI [of _ body]) (simp add: request_head_def)
qed

theorem plain_request_forwarded_once_witness:
  "\<exists>absolute ls body sent.
      parse_absolute_http_target ''http://pypi.org/simple'' = Some absolute \<and>
      cn_upstream sample_conn = Some (public_addr, sent) \<and>
      sent = ''POST'' @ '' '' @ at_path absolute @ '' '' @ ''HTTP/1.1'' @ crlf @
             concat (map (\<lambda>line. line @ crlf) ls) @ crlf @ body \<and>
      filter (\<lambda>line. \<not> plain_line line) ls = [''Connection: close''] \<and> length body = 2"
proof -
  obtain sent where run:
    "handle_http_client_impl sample_net sample_policy (accepted sample_request) = (Inr (), sample_conn)"
    and sent: "cn_upstream sample_conn = Some (public_addr, sent)" "sent \<noteq> []"
    by (rule sample_run)
  show ?thesis
    using plain_request_forwarded_once [OF run sample_header sample_words sample_checks(4) sent] sent
    by (fastforce simp: sample_lines)
qed

section \<open>A gap in the check of Host headers\<close>


end
