(* ===== verification/Sandbox_Plan.thy ===== *)
theory Sandbox_Plan
  imports Sandbox_Policy Managed_Network
begin

text \<open>
  The command line of the sandbox (\<^verbatim>\<open>src/src/sandbox_cli.rs\<close>): options as operations, the parser of
  configuration overrides, and the state of the sandbox that a plan of operations gives over the
  defaults and an inherited state. Decoding of JSON arrays is a parameter.
\<close>

section \<open>Operations\<close>

datatype sandbox_mode_arg = ModeInherit | ModeReadOnly | ModeWorkspaceWrite | ModeDangerFullAccess

datatype config_operation =
    ConfigSetMode sandbox_mode_arg
  | SetWorkspaceNetworkAccess bool
  | SetWorkspaceWritableRoots "path list"
  | SetWorkspaceExcludeTmpdirEnvVar bool
  | SetWorkspaceExcludeSlashTmp bool
  | SetAllowedDomains "string list"
  | SetDeniedDomains "string list"
  | SetAllowLocalBinding bool
  | SetUseLinuxSandboxBwrap bool

datatype cli_operation =
    SetMode sandbox_mode_arg
  | AddWritableRoot path
  | AddAllowedDomain string
  | Config config_operation

type_synonym sandbox_cli_plan = "cli_operation list"

text \<open>An error is its message; the messages about domain patterns are kept as what they are about.\<close>

datatype plan_error = PlanMessage string | PlanPatterns string pattern_error

definition missing_inherited_message :: string where
  "missing_inherited_message =
     ''--sandbox inherit-codex (or its inherit alias) requires Codex per-tool-call '' @
     ''sandbox metadata in _meta['' @ [CHR 0x22] @ ''codex/sandbox-state-meta'' @ [CHR 0x22] @
     '']; Claude Code and other '' @
     ''generic MCP clients do not provide that metadata, so use an explicit mode such '' @
     ''as --sandbox workspace-write with those clients''"

definition mode_parse :: "string \<Rightarrow> plan_error + sandbox_mode_arg" where
  "mode_parse v =
     (let t = trim v
      in if t = ''inherit-codex'' \<or> t = ''inherit'' then Inr ModeInherit
         else if t = ''read-only'' then Inr ModeReadOnly
         else if t = ''workspace-write'' then Inr ModeWorkspaceWrite
         else if t = ''danger-full-access'' then Inr ModeDangerFullAccess
         else Inl (PlanMessage (''invalid sandbox mode: '' @ v @
                '' (expected read-only|workspace-write|danger-full-access|inherit-codex)'')))"

fun mode_of :: "cli_operation \<Rightarrow> sandbox_mode_arg option" where
  "mode_of (SetMode mode) = Some mode"
| "mode_of (Config (ConfigSetMode mode)) = Some mode"
| "mode_of _ = None"

fun last_mode_from :: "(nat \<times> cli_operation) list \<Rightarrow> (nat \<times> sandbox_mode_arg) option" where
  "last_mode_from [] = None"
| "last_mode_from ((index, op) # rest) =
     (case mode_of op of Some mode \<Rightarrow> Some (index, mode) | None \<Rightarrow> last_mode_from rest)"

definition last_mode_operation :: "sandbox_cli_plan \<Rightarrow> (nat \<times> sandbox_mode_arg) option" where
  "last_mode_operation plan = last_mode_from (rev (enumerate 0 plan))"

definition sandbox_plan_requests_inherited_state :: "sandbox_cli_plan \<Rightarrow> bool" where
  "sandbox_plan_requests_inherited_state plan \<longleftrightarrow> map_option snd (last_mode_operation plan) = Some ModeInherit"

section \<open>Configuration overrides\<close>

definition split_at_first :: "char \<Rightarrow> string \<Rightarrow> (string \<times> string) option" where
  "split_at_first b s = map_option (\<lambda>k. (take k s, drop (k + 1) s)) (position (\<lambda>c. c = b) s)"

definition canonicalize_config_key :: "string \<Rightarrow> string" where
  "canonicalize_config_key key =
     (if key = ''use_linux_sandbox_bwrap'' then ''features.use_linux_sandbox_bwrap'' else key)"

definition parse_bool_value :: "string \<Rightarrow> plan_error + bool" where
  "parse_bool_value raw =
     (if trim raw = ''true'' then Inr True
      else if trim raw = ''false'' then Inr False
      else Inl (PlanMessage (''expected boolean value (true|false), got: '' @ raw)))"

definition parse_string_value :: "string \<Rightarrow> string" where
  "parse_string_value raw =
     (let trimmed = trim raw; q = [CHR 0x22]; a = [CHR 0x27]
      in if length trimmed \<ge> 2 \<and>
            ((starts_with trimmed q \<and> ends_with trimmed q) \<or> (starts_with trimmed a \<and> ends_with trimmed a))
         then slice trimmed 1 (length trimmed - 1)
         else trimmed)"

text \<open>\<open>json\<close> decodes an array of strings, or gives the text of the error.\<close>

definition parse_string_array_value :: "(string \<Rightarrow> string + string list) \<Rightarrow> string \<Rightarrow> plan_error + string list" where
  "parse_string_array_value json raw =
     (case json (trim raw) of
        Inl e \<Rightarrow> Inl (PlanMessage (''expected JSON string array value, got '' @ raw @ '': '' @ e))
      | Inr vs \<Rightarrow> Inr (filter (\<lambda>v. v \<noteq> []) (map trim vs)))"

fun absolute_roots :: "file_env \<Rightarrow> string list \<Rightarrow> plan_error + path list" where
  "absolute_roots env [] = Inr []"
| "absolute_roots env (entry # entries) =
     (let p = fe_path_of env entry
      in if is_absolute p
         then (case absolute_roots env entries of Inl e \<Rightarrow> Inl e | Inr ps \<Rightarrow> Inr (p # ps))
         else Inl (PlanMessage (''sandbox_workspace_write.writable_roots requires absolute paths: '' @ fe_show env p)))"

definition map_ok :: "('a \<Rightarrow> 'b) \<Rightarrow> plan_error + 'a \<Rightarrow> plan_error + 'b" where
  "map_ok f r = (case r of Inl e \<Rightarrow> Inl e | Inr x \<Rightarrow> Inr (f x))"

definition and_then :: "plan_error + 'a \<Rightarrow> ('a \<Rightarrow> plan_error + 'b) \<Rightarrow> plan_error + 'b" where
  "and_then r f = (case r of Inl e \<Rightarrow> Inl e | Inr x \<Rightarrow> f x)"

definition check_patterns :: "string \<Rightarrow> string list \<Rightarrow> plan_error + unit" where
  "check_patterns label patterns =
     (case validate_domain_patterns label patterns of
        Inl (l, e) \<Rightarrow> Inl (PlanPatterns l e) | Inr _ \<Rightarrow> Inr ())"

definition parse_sandbox_config_override ::
  "file_env \<Rightarrow> (string \<Rightarrow> string + string list) \<Rightarrow> string \<Rightarrow> plan_error + config_operation" where
  "parse_sandbox_config_override env json raw =
     (case split_at_first (CHR ''='') raw of
        None \<Rightarrow> Inl (PlanMessage (''invalid --config override (missing '' @ [CHR 0x27] @ ''='' @ [CHR 0x27] @ ''): '' @ raw))
      | Some (raw_key, raw_value) \<Rightarrow>
          (let key = canonicalize_config_key (trim raw_key); v = trim raw_value
           in if key = [] then Inl (PlanMessage (''invalid --config override (empty key): '' @ raw))
              else if key = ''sandbox_mode'' then map_ok ConfigSetMode (mode_parse (parse_string_value v))
              else if key = ''sandbox_workspace_write.network_access''
              then map_ok SetWorkspaceNetworkAccess (parse_bool_value v)
              else if key = ''sandbox_workspace_write.writable_roots''
              then map_ok SetWorkspaceWritableRoots (and_then (parse_string_array_value json v) (absolute_roots env))
              else if key = ''sandbox_workspace_write.exclude_tmpdir_env_var''
              then map_ok SetWorkspaceExcludeTmpdirEnvVar (parse_bool_value v)
              else if key = ''sandbox_workspace_write.exclude_slash_tmp''
              then map_ok SetWorkspaceExcludeSlashTmp (parse_bool_value v)
              else if key = ''permissions.network.allowed_domains''
              then and_then (parse_string_array_value json v) (\<lambda>vs.
                     map_ok (\<lambda>_. SetAllowedDomains vs) (check_patterns ''permissions.network.allowed_domains'' vs))
              else if key = ''permissions.network.denied_domains''
              then and_then (parse_string_array_value json v) (\<lambda>vs.
                     map_ok (\<lambda>_. SetDeniedDomains vs) (check_patterns ''permissions.network.denied_domains'' vs))
              else if key = ''permissions.network.allow_local_binding''
              then map_ok SetAllowLocalBinding (parse_bool_value v)
              else if key = ''features.use_linux_sandbox_bwrap''
              then map_ok SetUseLinuxSandboxBwrap (parse_bool_value v)
              else Inl (PlanMessage (''unsupported --config key: '' @ key))))"

section \<open>Validation\<close>

datatype validation_mode = VReadOnly | VWorkspaceWrite | VDangerFullAccess | VDeferredInherit | VUnresolvedInherit

definition validation_from_policy :: "sandbox_policy \<Rightarrow> validation_mode" where
  "validation_from_policy policy =
     (case policy of
        ReadOnly _ \<Rightarrow> VReadOnly
      | WorkspaceWrite _ _ _ _ \<Rightarrow> VWorkspaceWrite
      | Managed fs _ \<Rightarrow> if has_full_disk_write_access fs then VDangerFullAccess else VReadOnly
      | _ \<Rightarrow> VDangerFullAccess)"

definition validation_mode_for_mode_arg ::
  "sandbox_mode_arg \<Rightarrow> sandbox_state option \<Rightarrow> bool \<Rightarrow> validation_mode" where
  "validation_mode_for_mode_arg mode inherited allow_deferred =
     (case mode of
        ModeInherit \<Rightarrow>
          (case inherited of
             Some st \<Rightarrow> validation_from_policy (ss_policy st)
           | None \<Rightarrow> if allow_deferred then VDeferredInherit else VUnresolvedInherit)
      | ModeReadOnly \<Rightarrow> VReadOnly
      | ModeWorkspaceWrite \<Rightarrow> VWorkspaceWrite
      | ModeDangerFullAccess \<Rightarrow> VDangerFullAccess)"

definition require_workspace_write_mode :: "validation_mode \<Rightarrow> string \<Rightarrow> plan_error + unit" where
  "require_workspace_write_mode mode message =
     (if mode = VWorkspaceWrite \<or> mode = VDeferredInherit then Inr () else Inl (PlanMessage message))"

definition add_root_message :: string where
  "add_root_message = ''--add-writable-root can only be used while sandbox mode is workspace-write''"

definition add_domain_message :: string where
  "add_domain_message = ''--add-allowed-domain requires a non-empty value''"

definition config_message :: "string \<Rightarrow> string" where
  "config_message key = ''sandbox_workspace_write.'' @ key @ '' requires workspace-write mode''"

definition validate_config_op ::
  "sandbox_state option \<Rightarrow> bool \<Rightarrow> validation_mode \<Rightarrow> config_operation \<Rightarrow> plan_error + validation_mode" where
  "validate_config_op inherited allow_deferred mode op =
     (case op of
        ConfigSetMode next_mode \<Rightarrow> Inr (validation_mode_for_mode_arg next_mode inherited allow_deferred)
      | SetWorkspaceNetworkAccess _ \<Rightarrow>
          map_ok (\<lambda>_. mode) (require_workspace_write_mode mode (config_message ''network_access''))
      | SetWorkspaceWritableRoots _ \<Rightarrow>
          map_ok (\<lambda>_. mode) (require_workspace_write_mode mode (config_message ''writable_roots''))
      | SetWorkspaceExcludeTmpdirEnvVar _ \<Rightarrow>
          map_ok (\<lambda>_. mode) (require_workspace_write_mode mode (config_message ''exclude_tmpdir_env_var''))
      | SetWorkspaceExcludeSlashTmp _ \<Rightarrow>
          map_ok (\<lambda>_. mode) (require_workspace_write_mode mode (config_message ''exclude_slash_tmp''))
      | _ \<Rightarrow> Inr mode)"

definition validate_op ::
  "sandbox_state option \<Rightarrow> bool \<Rightarrow> validation_mode \<Rightarrow> cli_operation \<Rightarrow> plan_error + validation_mode" where
  "validate_op inherited allow_deferred mode op =
     (case op of
        SetMode next_mode \<Rightarrow> Inr (validation_mode_for_mode_arg next_mode inherited allow_deferred)
      | AddWritableRoot _ \<Rightarrow> map_ok (\<lambda>_. mode) (require_workspace_write_mode mode add_root_message)
      | AddAllowedDomain domain \<Rightarrow>
          if trim domain = [] then Inl (PlanMessage add_domain_message)
          else map_ok (\<lambda>_. mode) (check_patterns ''--add-allowed-domain'' [domain])
      | Config config_op \<Rightarrow> validate_config_op inherited allow_deferred mode config_op)"

fun validate_loop ::
  "sandbox_state option \<Rightarrow> bool \<Rightarrow> validation_mode \<Rightarrow> sandbox_cli_plan \<Rightarrow> plan_error + unit" where
  "validate_loop inherited allow_deferred mode [] = Inr ()"
| "validate_loop inherited allow_deferred mode (op # ops) =
     and_then (validate_op inherited allow_deferred mode op) (\<lambda>mode.
       validate_loop inherited allow_deferred mode ops)"

definition validate_sandbox_plan_operations ::
  "sandbox_cli_plan \<Rightarrow> sandbox_state option \<Rightarrow> sandbox_state \<Rightarrow> plan_error + unit" where
  "validate_sandbox_plan_operations plan inherited defaults =
     validate_loop inherited (inherited = None \<and> sandbox_plan_requests_inherited_state plan)
       (validation_from_policy (ss_policy defaults)) plan"

definition validate_sandbox_plan_with_defaults :: "sandbox_cli_plan \<Rightarrow> sandbox_state \<Rightarrow> plan_error + unit" where
  "validate_sandbox_plan_with_defaults plan defaults = validate_sandbox_plan_operations plan None defaults"

section \<open>The effective state\<close>

definition apply_mode ::
  "sandbox_mode_arg \<Rightarrow> sandbox_state option \<Rightarrow> sandbox_state \<Rightarrow> plan_error + sandbox_state" where
  "apply_mode mode inherited defaults =
     (case mode of
        ModeInherit \<Rightarrow>
          (case inherited of
             None \<Rightarrow> Inl (PlanMessage missing_inherited_message)
           | Some st \<Rightarrow> Inr st)
      | ModeReadOnly \<Rightarrow> Inr (defaults\<lparr>ss_policy := ReadOnly False\<rparr>)
      | ModeWorkspaceWrite \<Rightarrow> Inr (defaults\<lparr>ss_policy := WorkspaceWrite [] False False False\<rparr>)
      | ModeDangerFullAccess \<Rightarrow> Inr (defaults\<lparr>ss_policy := DangerFullAccess\<rparr>))"

definition change_workspace ::
  "string \<Rightarrow> (sandbox_policy \<Rightarrow> sandbox_policy) \<Rightarrow> sandbox_state \<Rightarrow> plan_error + sandbox_state" where
  "change_workspace message f st =
     (case ss_policy st of
        WorkspaceWrite _ _ _ _ \<Rightarrow> Inr (st\<lparr>ss_policy := f (ss_policy st)\<rparr>)
      | _ \<Rightarrow> Inl (PlanMessage message))"

fun with_network_access :: "bool \<Rightarrow> sandbox_policy \<Rightarrow> sandbox_policy" where
  "with_network_access v (WorkspaceWrite roots _ no_tmpdir no_slash) = WorkspaceWrite roots v no_tmpdir no_slash"
| "with_network_access v policy = policy"

fun with_writable_roots :: "path list \<Rightarrow> sandbox_policy \<Rightarrow> sandbox_policy" where
  "with_writable_roots v (WorkspaceWrite _ network no_tmpdir no_slash) = WorkspaceWrite v network no_tmpdir no_slash"
| "with_writable_roots v policy = policy"

fun with_exclude_tmpdir :: "bool \<Rightarrow> sandbox_policy \<Rightarrow> sandbox_policy" where
  "with_exclude_tmpdir v (WorkspaceWrite roots network _ no_slash) = WorkspaceWrite roots network v no_slash"
| "with_exclude_tmpdir v policy = policy"

fun with_exclude_slash_tmp :: "bool \<Rightarrow> sandbox_policy \<Rightarrow> sandbox_policy" where
  "with_exclude_slash_tmp v (WorkspaceWrite roots network no_tmpdir _) = WorkspaceWrite roots network no_tmpdir v"
| "with_exclude_slash_tmp v policy = policy"

fun with_added_root :: "path \<Rightarrow> sandbox_policy \<Rightarrow> sandbox_policy" where
  "with_added_root p (WorkspaceWrite roots network no_tmpdir no_slash) =
     WorkspaceWrite (if p \<in> set roots then roots else roots @ [p]) network no_tmpdir no_slash"
| "with_added_root p policy = policy"

definition change_network ::
  "(managed_network_policy \<Rightarrow> managed_network_policy) \<Rightarrow> sandbox_state \<Rightarrow> sandbox_state" where
  "change_network f st = st\<lparr>ss_managed_network_policy := f (ss_managed_network_policy st)\<rparr>"

definition apply_config_op ::
  "sandbox_state option \<Rightarrow> sandbox_state \<Rightarrow> config_operation \<Rightarrow> sandbox_state \<Rightarrow> plan_error + sandbox_state" where
  "apply_config_op inherited defaults op st =
     (case op of
        ConfigSetMode mode \<Rightarrow> apply_mode mode inherited defaults
      | SetWorkspaceNetworkAccess v \<Rightarrow>
          change_workspace (config_message ''network_access'') (with_network_access v) st
      | SetWorkspaceWritableRoots roots \<Rightarrow>
          change_workspace (config_message ''writable_roots'') (with_writable_roots roots) st
      | SetWorkspaceExcludeTmpdirEnvVar v \<Rightarrow>
          change_workspace (config_message ''exclude_tmpdir_env_var'') (with_exclude_tmpdir v) st
      | SetWorkspaceExcludeSlashTmp v \<Rightarrow>
          change_workspace (config_message ''exclude_slash_tmp'') (with_exclude_slash_tmp v) st
      | SetAllowedDomains vs \<Rightarrow> Inr (change_network (\<lambda>n. n\<lparr>np_allowed_domains := vs\<rparr>) st)
      | SetDeniedDomains vs \<Rightarrow> Inr (change_network (\<lambda>n. n\<lparr>np_denied_domains := vs\<rparr>) st)
      | SetAllowLocalBinding v \<Rightarrow> Inr (change_network (\<lambda>n. n\<lparr>np_allow_local_binding := v\<rparr>) st)
      | SetUseLinuxSandboxBwrap v \<Rightarrow> Inr (st\<lparr>ss_use_linux_sandbox_bwrap := v\<rparr>))"

definition add_allowed_domain :: "string \<Rightarrow> managed_network_policy \<Rightarrow> managed_network_policy" where
  "add_allowed_domain domain n =
     (if domain \<in> set (np_allowed_domains n) then n
      else n\<lparr>np_allowed_domains := np_allowed_domains n @ [domain]\<rparr>)"

definition apply_op ::
  "sandbox_state option \<Rightarrow> sandbox_state \<Rightarrow> cli_operation \<Rightarrow> sandbox_state \<Rightarrow> plan_error + sandbox_state" where
  "apply_op inherited defaults op st =
     (case op of
        SetMode mode \<Rightarrow> apply_mode mode inherited defaults
      | AddWritableRoot p \<Rightarrow> change_workspace add_root_message (with_added_root p) st
      | AddAllowedDomain domain \<Rightarrow>
          if trim domain = [] then Inl (PlanMessage add_domain_message)
          else Inr (change_network (add_allowed_domain (trim domain)) st)
      | Config config_op \<Rightarrow> apply_config_op inherited defaults config_op st)"

fun apply_loop ::
  "sandbox_state option \<Rightarrow> sandbox_state \<Rightarrow> sandbox_cli_plan \<Rightarrow> sandbox_state \<Rightarrow> plan_error + sandbox_state" where
  "apply_loop inherited defaults [] st = Inr st"
| "apply_loop inherited defaults (op # ops) st =
     and_then (apply_op inherited defaults op st) (apply_loop inherited defaults ops)"

definition start_index :: "sandbox_cli_plan \<Rightarrow> nat" where
  "start_index plan =
     (case last_mode_operation plan of
        Some (index, mode) \<Rightarrow> if mode \<noteq> ModeInherit then index else 0
      | None \<Rightarrow> 0)"

definition resolve_effective_sandbox_state_with_defaults ::
  "sandbox_cli_plan \<Rightarrow> sandbox_state option \<Rightarrow> sandbox_state \<Rightarrow> plan_error + sandbox_state" where
  "resolve_effective_sandbox_state_with_defaults plan inherited defaults =
     (if plan = [] then Inr (unwrap_or inherited defaults)
      else and_then (validate_sandbox_plan_operations plan inherited defaults) (\<lambda>_.
             apply_loop inherited defaults (drop (start_index plan) plan) defaults))"

section \<open>The last mode of a plan\<close>

lemma last_mode_snoc:
  "last_mode_operation (ops @ [op]) =
     (case mode_of op of Some mode \<Rightarrow> Some (length ops, mode) | None \<Rightarrow> last_mode_operation ops)"
  by (simp add: last_mode_operation_def enumerate_append_eq split: option.split)

lemma last_mode_Nil [simp]: "last_mode_operation [] = None"
  by (simp add: last_mode_operation_def)

lemma last_mode_None: "last_mode_operation plan = None \<longleftrightarrow> (\<forall>op\<in>set plan. mode_of op = None)"
  by (induction plan rule: rev_induct) (auto simp: last_mode_snoc split: option.splits)

lemma last_mode_Some:
  "last_mode_operation plan = Some (i, mode) \<Longrightarrow>
   \<exists>before op after. plan = before @ op # after \<and> length before = i \<and> mode_of op = Some mode \<and>
     (\<forall>op\<in>set after. mode_of op = None)"
proof (induction plan rule: rev_induct)
  case (snoc op ops)
  show ?case
  proof (cases "mode_of op")
    case None
    with snoc obtain before op' after where
      "ops = before @ op' # after" "length before = i" "mode_of op' = Some mode" "\<forall>op\<in>set after. mode_of op = None"
      by (auto simp: last_mode_snoc)
    with None show ?thesis
      by (intro exI [of _ before] exI [of _ op'] exI [of _ "after @ [op]"]) auto
  next
    case (Some m)
    with snoc.prems show ?thesis
      by (intro exI [of _ ops] exI [of _ op] exI [of _ "[]"]) (auto simp: last_mode_snoc)
  qed
qed simp

section \<open>A valid plan resolves\<close>

lemma and_then_Inr: "and_then r f = Inr y \<longleftrightarrow> (\<exists>x. r = Inr x \<and> f x = Inr y)"
  by (auto simp: and_then_def split: sum.splits)

definition agrees :: "validation_mode \<Rightarrow> sandbox_state \<Rightarrow> bool" where
  "agrees mode st \<longleftrightarrow>
     mode \<noteq> VDeferredInherit \<and> (mode = VWorkspaceWrite \<longrightarrow> is_WorkspaceWrite (ss_policy st))"

lemma agrees_policy: "agrees (validation_from_policy (ss_policy st)) st"
  by (cases "ss_policy st") (auto simp: agrees_def validation_from_policy_def)

lemma change_workspace_ok:
  assumes "is_WorkspaceWrite (ss_policy st)" "is_WorkspaceWrite (f (ss_policy st))"
  shows "\<exists>st'. change_workspace message f st = Inr st' \<and> is_WorkspaceWrite (ss_policy st')"
  using assms by (cases "ss_policy st") (auto simp: change_workspace_def)

lemma with_workspace:
  assumes "is_WorkspaceWrite policy"
  shows "is_WorkspaceWrite (with_network_access v policy)" "is_WorkspaceWrite (with_writable_roots roots policy)"
    "is_WorkspaceWrite (with_exclude_tmpdir v policy)" "is_WorkspaceWrite (with_exclude_slash_tmp v policy)"
    "is_WorkspaceWrite (with_added_root p policy)"
  using assms by (cases policy; simp)+

abbreviation missing_state :: plan_error where
  "missing_state \<equiv> PlanMessage missing_inherited_message"

lemma mode_step:
  "(\<exists>st'. apply_mode mode inherited defaults = Inr st' \<and>
      agrees (validation_mode_for_mode_arg mode inherited allow_deferred) st') \<or>
   (inherited = None \<and> mode = ModeInherit \<and> apply_mode mode inherited defaults = Inl missing_state)"
  by (cases mode)
    (auto simp: apply_mode_def validation_mode_for_mode_arg_def agrees_policy split: option.split,
     auto simp: agrees_def)

lemma map_ok_Inr: "map_ok f r = Inr y \<longleftrightarrow> (\<exists>x. r = Inr x \<and> y = f x)"
  by (auto simp: map_ok_def split: sum.splits)

lemma require_workspace:
  "map_ok (\<lambda>_. mode) (require_workspace_write_mode mode message) = Inr mode' \<Longrightarrow> agrees mode st \<Longrightarrow>
   mode' = mode \<and> is_WorkspaceWrite (ss_policy st)"
  by (auto simp: map_ok_Inr require_workspace_write_mode_def agrees_def split: if_splits)

lemma workspace_step:
  assumes "map_ok (\<lambda>_. mode) (require_workspace_write_mode mode message) = Inr mode'" "agrees mode st"
    and "is_WorkspaceWrite (ss_policy st) \<Longrightarrow> is_WorkspaceWrite (f (ss_policy st))"
  shows "\<exists>st'. change_workspace message' f st = Inr st' \<and> agrees mode' st'"
  using require_workspace [OF assms(1,2)] assms(2,3) change_workspace_ok [of st f message']
  by (auto simp: agrees_def)

lemma agrees_same_policy: "agrees mode st \<Longrightarrow> ss_policy st' = ss_policy st \<Longrightarrow> agrees mode st'"
  by (simp add: agrees_def)

lemma config_step:
  assumes "validate_config_op inherited allow_deferred mode op = Inr mode'"
    and "mode_of (Config op) = None \<Longrightarrow> agrees mode st"
  shows "(\<exists>st'. apply_config_op inherited defaults op st = Inr st' \<and> agrees mode' st') \<or>
     (inherited = None \<and> mode_of (Config op) = Some ModeInherit \<and>
      apply_config_op inherited defaults op st = Inl missing_state)"
proof (cases op)
  case (ConfigSetMode m)
  with assms mode_step [of m inherited defaults allow_deferred] show ?thesis
    by (auto simp: validate_config_op_def apply_config_op_def)
next
  case (SetWorkspaceNetworkAccess v)
  with assms have "\<exists>st'. change_workspace (config_message ''network_access'') (with_network_access v) st = Inr st' \<and>
      agrees mode' st'"
    by (intro workspace_step) (auto simp: validate_config_op_def intro: with_workspace)
  with SetWorkspaceNetworkAccess show ?thesis by (simp add: apply_config_op_def)
next
  case (SetWorkspaceWritableRoots v)
  with assms have "\<exists>st'. change_workspace (config_message ''writable_roots'') (with_writable_roots v) st = Inr st' \<and>
      agrees mode' st'"
    by (intro workspace_step) (auto simp: validate_config_op_def intro: with_workspace)
  with SetWorkspaceWritableRoots show ?thesis by (simp add: apply_config_op_def)
next
  case (SetWorkspaceExcludeTmpdirEnvVar v)
  with assms have "\<exists>st'. change_workspace (config_message ''exclude_tmpdir_env_var'') (with_exclude_tmpdir v) st =
      Inr st' \<and> agrees mode' st'"
    by (intro workspace_step) (auto simp: validate_config_op_def intro: with_workspace)
  with SetWorkspaceExcludeTmpdirEnvVar show ?thesis by (simp add: apply_config_op_def)
next
  case (SetWorkspaceExcludeSlashTmp v)
  with assms have "\<exists>st'. change_workspace (config_message ''exclude_slash_tmp'') (with_exclude_slash_tmp v) st =
      Inr st' \<and> agrees mode' st'"
    by (intro workspace_step) (auto simp: validate_config_op_def intro: with_workspace)
  with SetWorkspaceExcludeSlashTmp show ?thesis by (simp add: apply_config_op_def)
qed (use assms in \<open>auto simp: validate_config_op_def apply_config_op_def change_network_def agrees_def\<close>)

lemma op_step:
  assumes "validate_op inherited allow_deferred mode op = Inr mode'"
    and "mode_of op = None \<Longrightarrow> agrees mode st"
  shows "(\<exists>st'. apply_op inherited defaults op st = Inr st' \<and> agrees mode' st') \<or>
     (inherited = None \<and> mode_of op = Some ModeInherit \<and> apply_op inherited defaults op st = Inl missing_state)"
proof (cases op)
  case (SetMode m)
  with assms mode_step [of m inherited defaults allow_deferred] show ?thesis
    by (auto simp: validate_op_def apply_op_def)
next
  case (AddWritableRoot p)
  with assms have "\<exists>st'. change_workspace add_root_message (with_added_root p) st = Inr st' \<and> agrees mode' st'"
    by (intro workspace_step) (auto simp: validate_op_def intro: with_workspace)
  with AddWritableRoot show ?thesis by (simp add: apply_op_def)
next
  case (AddAllowedDomain d)
  with assms show ?thesis
    by (auto simp: validate_op_def apply_op_def change_network_def agrees_def map_ok_Inr split: if_splits)
next
  case (Config c)
  with assms config_step [of inherited allow_deferred mode c mode' st defaults] show ?thesis
    by (simp add: validate_op_def apply_op_def)
qed

lemma loop_resolves:
  assumes "validate_loop inherited allow_deferred mode ops = Inr ()"
    and "ops \<noteq> [] \<Longrightarrow> mode_of (hd ops) = None \<Longrightarrow> agrees mode st"
  shows "(\<exists>st'. apply_loop inherited defaults ops st = Inr st') \<or>
     (inherited = None \<and> (\<exists>op\<in>set ops. mode_of op = Some ModeInherit) \<and>
      apply_loop inherited defaults ops st = Inl missing_state)"
  using assms
proof (induction ops arbitrary: mode st)
  case (Cons op ops)
  from Cons.prems(1) obtain mode' where
    v: "validate_op inherited allow_deferred mode op = Inr mode'" "validate_loop inherited allow_deferred mode' ops = Inr ()"
    by (auto simp: and_then_Inr)
  from op_step [OF v(1), of st defaults] Cons.prems(2) consider
    (ok) st' where "apply_op inherited defaults op st = Inr st'" "agrees mode' st'"
  | (missing) "inherited = None" "mode_of op = Some ModeInherit" "apply_op inherited defaults op st = Inl missing_state"
    by auto
  then show ?case
  proof cases
    case ok
    with Cons.IH [OF v(2), of st'] show ?thesis by (auto simp: and_then_def)
  next
    case missing
    then show ?thesis by (auto simp: and_then_def)
  qed
qed simp

lemma validate_loop_suffix:
  "validate_loop inherited allow_deferred mode (before @ ops) = Inr () \<Longrightarrow>
   \<exists>mode'. validate_loop inherited allow_deferred mode' ops = Inr ()"
  by (induction before arbitrary: mode) (auto simp: and_then_Inr)

text \<open>
  C31. Validation is complete. A plan of options that passes the validation gives a state of the
  sandbox: no operation of it is refused when it is applied, although the operations before the last
  explicit mode are validated but not applied. The only exception is a plan that ends in the inherited
  mode where there is nothing to inherit, and it is refused with the message for that.
\<close>

theorem valid_plan_resolves:
  assumes "validate_sandbox_plan_operations plan inherited defaults = Inr ()"
  shows "(\<exists>st. resolve_effective_sandbox_state_with_defaults plan inherited defaults = Inr st) \<or>
     (resolve_effective_sandbox_state_with_defaults plan inherited defaults =
        Inl (PlanMessage missing_inherited_message) \<and>
      inherited = None \<and> sandbox_plan_requests_inherited_state plan)"
proof (cases "plan = []")
  case False
  let ?d = "inherited = None \<and> sandbox_plan_requests_inherited_state plan"
  have run: "resolve_effective_sandbox_state_with_defaults plan inherited defaults =
      apply_loop inherited defaults (drop (start_index plan) plan) defaults"
    using False assms by (simp add: resolve_effective_sandbox_state_with_defaults_def and_then_def)
  have v: "validate_loop inherited ?d (validation_from_policy (ss_policy defaults)) plan = Inr ()"
    using assms by (simp add: validate_sandbox_plan_operations_def)
  consider (explicit) i mode where "last_mode_operation plan = Some (i, mode)" "mode \<noteq> ModeInherit"
    | (whole) "start_index plan = 0" "last_mode_operation plan = None \<or> sandbox_plan_requests_inherited_state plan"
    by (cases "last_mode_operation plan")
      (auto simp: start_index_def sandbox_plan_requests_inherited_state_def, blast)
  then show ?thesis
  proof cases
    case explicit
    from last_mode_Some [OF explicit(1)] obtain before op after where
      plan: "plan = before @ op # after" "length before = i" "mode_of op = Some mode" "\<forall>op\<in>set after. mode_of op = None"
      by blast
    then have "drop (start_index plan) plan = op # after" using explicit by (simp add: start_index_def)
    moreover obtain mode' where "validate_loop inherited ?d mode' (op # after) = Inr ()"
      using validate_loop_suffix v plan(1) by blast
    ultimately show ?thesis
      using loop_resolves [of inherited ?d mode' "op # after" defaults defaults] plan(3,4) explicit(2) run by fastforce
  next
    case whole
    with loop_resolves [OF v agrees_policy, of defaults] run last_mode_None [of plan] show ?thesis by auto
  qed
qed (simp add: resolve_effective_sandbox_state_with_defaults_def)

definition sample_defaults :: sandbox_state where
  "sample_defaults =
     \<lparr>ss_policy = WorkspaceWrite [] False False False, ss_cwd = Path True [''work''],
      ss_use_linux_sandbox_bwrap = True,
      ss_managed_network_policy =
        \<lparr>np_allowed_domains = [], np_denied_domains = [], np_allow_local_binding = False\<rparr>,
      ss_session_temp_dir = Path True [''tmp'', ''session'']\<rparr>"

definition sample_plan :: sandbox_cli_plan where
  "sample_plan =
     [AddWritableRoot (Path True [''scratch'']), SetMode ModeReadOnly, Config (SetAllowLocalBinding True),
      Config (ConfigSetMode ModeWorkspaceWrite), AddWritableRoot (Path True [''data'']),
      AddAllowedDomain '' pypi.org '', Config (SetDeniedDomains [''bad.example.com''])]"

theorem valid_plan_resolves_witness:
  "(\<exists>st. resolve_effective_sandbox_state_with_defaults sample_plan None sample_defaults = Inr st) \<and>
   \<not> sandbox_plan_requests_inherited_state sample_plan"
proof -
  have "validate_sandbox_plan_operations sample_plan None sample_defaults = Inr ()" by code_simp
  moreover have "\<not> sandbox_plan_requests_inherited_state sample_plan" by code_simp
  ultimately show ?thesis using valid_plan_resolves [of sample_plan None sample_defaults] by blast
qed

section \<open>What a plan grants\<close>

abbreviation names_mode :: "sandbox_mode_arg \<Rightarrow> cli_operation \<Rightarrow> bool" where
  "names_mode mode op \<equiv> mode_of op = Some mode"

definition named_roots :: "cli_operation \<Rightarrow> path set" where
  "named_roots op =
     (case op of
        AddWritableRoot p \<Rightarrow> {p}
      | Config (SetWorkspaceWritableRoots ps) \<Rightarrow> set ps
      | _ \<Rightarrow> {})"

definition policy_roots :: "sandbox_policy \<Rightarrow> path set" where
  "policy_roots policy = (case policy of WorkspaceWrite roots _ _ _ \<Rightarrow> set roots | _ \<Rightarrow> {})"

text \<open>What the plan, the defaults and an inherited state allow the result to have.\<close>

definition sources :: "sandbox_state option \<Rightarrow> sandbox_state \<Rightarrow> sandbox_policy set" where
  "sources inherited defaults = insert (ss_policy defaults) (ss_policy ` set_option inherited)"

definition granted :: "sandbox_cli_plan \<Rightarrow> sandbox_policy set \<Rightarrow> sandbox_policy \<Rightarrow> bool" where
  "granted plan given policy \<longleftrightarrow>
     (has_full_network_access policy \<longrightarrow>
        (\<exists>q\<in>given. has_full_network_access q) \<or>
        (\<exists>op\<in>set plan. names_mode ModeDangerFullAccess op \<or> op = Config (SetWorkspaceNetworkAccess True))) \<and>
     (policy_full_disk_write_access policy \<longrightarrow>
        (\<exists>q\<in>given. policy_full_disk_write_access q) \<or> (\<exists>op\<in>set plan. names_mode ModeDangerFullAccess op)) \<and>
     policy_roots policy \<subseteq> \<Union> (policy_roots ` given) \<union> \<Union> (named_roots ` set plan)"

lemma granted_given: "policy \<in> given \<Longrightarrow> granted plan given policy"
  by (auto simp: granted_def)

lemma granted_mode:
  assumes "apply_mode mode inherited defaults = Inr st" "op \<in> set plan" "names_mode mode op"
  shows "granted plan (sources inherited defaults) (ss_policy st)"
proof (cases mode)
  case ModeInherit
  with assms show ?thesis
    by (auto simp: apply_mode_def sources_def intro!: granted_given split: option.splits)
qed (use assms in \<open>auto simp: apply_mode_def granted_def has_full_network_access_def
      policy_full_disk_write_access_def policy_roots_def\<close>)

lemma granted_change:
  assumes "change_workspace message f st = Inr st'" "granted plan given (ss_policy st)" "op \<in> set plan"
    and "f = with_network_access v \<and> op = Config (SetWorkspaceNetworkAccess v) \<or>
         f = with_writable_roots roots \<and> op = Config (SetWorkspaceWritableRoots roots) \<or>
         f = with_exclude_tmpdir v \<or> f = with_exclude_slash_tmp v \<or>
         f = with_added_root p \<and> op = AddWritableRoot p"
  shows "granted plan given (ss_policy st')"
proof -
  obtain roots0 network no_tmpdir no_slash where policy: "ss_policy st = WorkspaceWrite roots0 network no_tmpdir no_slash"
    and st': "ss_policy st' = f (ss_policy st)"
    using assms(1) by (cases "ss_policy st") (auto simp: change_workspace_def)
  have roots: "named_roots op \<subseteq> \<Union> (named_roots ` set plan)" using assms(3) by blast
  show ?thesis
    using assms(2-4) roots unfolding st' policy
    by (elim disjE conjE)
      (auto simp: granted_def has_full_network_access_def policy_full_disk_write_access_def policy_roots_def
        named_roots_def)
qed

lemma granted_step:
  assumes run: "apply_op inherited defaults op st = Inr st'" and op: "op \<in> set plan"
    and st: "granted plan (sources inherited defaults) (ss_policy st)"
  shows "granted plan (sources inherited defaults) (ss_policy st')"
proof (cases op)
  case (SetMode mode)
  with run op show ?thesis by (auto simp: apply_op_def intro: granted_mode)
next
  case (AddWritableRoot p)
  with run op st show ?thesis by (auto simp: apply_op_def intro: granted_change)
next
  case (AddAllowedDomain domain)
  with run st show ?thesis by (auto simp: apply_op_def change_network_def split: if_splits)
next
  case (Config c)
  show ?thesis
  proof (cases c)
    case (ConfigSetMode mode)
    with Config run op show ?thesis
      by (auto simp: apply_op_def apply_config_op_def intro!: granted_mode [of mode inherited defaults st' op])
  qed (use Config run op st in \<open>auto simp: apply_op_def apply_config_op_def change_network_def
        intro: granted_change\<close>)
qed

lemma granted_loop:
  assumes "apply_loop inherited defaults ops st = Inr st'" "set ops \<subseteq> set plan"
    and "granted plan (sources inherited defaults) (ss_policy st)"
  shows "granted plan (sources inherited defaults) (ss_policy st')"
  using assms
  by (induction ops arbitrary: st) (auto simp: and_then_Inr dest: granted_step)

text \<open>
  C16. A plan grants only what somebody asked for. The state a plan resolves to has network access
  only if the defaults or the inherited state have it or the plan names full access or switches it on;
  it may write to the whole disk only if they may or the plan names full access; and every writable root
  it lists was listed there or is named by the plan.
\<close>

theorem plan_grants_only_requested:
  assumes "resolve_effective_sandbox_state_with_defaults plan inherited defaults = Inr st"
  shows "granted plan (sources inherited defaults) (ss_policy st)"
proof (cases "plan = []")
  case True
  with assms show ?thesis
    by (cases inherited)
      (auto simp: resolve_effective_sandbox_state_with_defaults_def unwrap_or_def sources_def intro!: granted_given)
next
  case False
  with assms have "apply_loop inherited defaults (drop (start_index plan) plan) defaults = Inr st"
    by (auto simp: resolve_effective_sandbox_state_with_defaults_def and_then_Inr)
  then show ?thesis
    by (rule granted_loop) (auto simp: sources_def set_drop_subset intro: granted_given dest: in_set_dropD)
qed

definition sample_resolved :: sandbox_state where
  "sample_resolved =
     sample_defaults\<lparr>ss_policy := WorkspaceWrite [Path True [''data'']] False False False,
       ss_managed_network_policy :=
         \<lparr>np_allowed_domains = [''pypi.org''], np_denied_domains = [''bad.example.com''],
          np_allow_local_binding = False\<rparr>\<rparr>"

lemma sample_plan_resolves:
  "resolve_effective_sandbox_state_with_defaults sample_plan None sample_defaults = Inr sample_resolved"
  by code_simp

theorem plan_grants_only_requested_witness:
  "granted sample_plan (sources None sample_defaults) (ss_policy sample_resolved) \<and>
   \<not> has_full_network_access (ss_policy sample_resolved) \<and>
   policy_roots (ss_policy sample_resolved) = {Path True [''data'']}"
  using plan_grants_only_requested [OF sample_plan_resolves]
  by (simp add: sample_resolved_def policy_roots_def has_full_network_access_def)

section \<open>The proxy of a plan\<close>

lemma dropWhile_id: "xs = [] \<or> \<not> p (hd xs) \<Longrightarrow> dropWhile p xs = xs"
  by (cases xs) auto

lemma dropWhile_hd: "dropWhile p xs \<noteq> [] \<Longrightarrow> \<not> p (hd (dropWhile p xs))"
  by (induction xs) auto

lemma trim_twice:
  fixes xs :: "'a list" and p :: "'a \<Rightarrow> bool"
  defines "ys \<equiv> rev (dropWhile p (rev (dropWhile p xs)))"
  shows "rev (dropWhile p (rev (dropWhile p ys))) = ys"
proof (cases "ys = []")
  case False
  have l: "\<not> p (hd (rev ys))"
    unfolding ys_def using False dropWhile_hd [of p "rev (dropWhile p xs)"] by (simp add: ys_def)
  obtain zs where zs: "dropWhile p xs = ys @ zs"
    unfolding ys_def by (metis rev_append rev_rev_ident takeWhile_dropWhile_id)
  then have "hd ys = hd (dropWhile p xs)" "dropWhile p xs \<noteq> []" using False by auto
  then have "\<not> p (hd ys)" using dropWhile_hd [of p xs] by metis
  with l show ?thesis by (simp add: dropWhile_id)
qed simp

lemma trim_trim: "trim (trim s) = trim s"
proof -
  have "chars (trim s) = rev (dropWhile is_whitespace (rev (dropWhile is_whitespace (chars s))))" for s
    by (simp add: trim_def chars_trim_end chars_trim_start)
  then have "chars (trim (trim s)) = chars (trim s)" by (simp add: trim_twice)
  then show ?thesis by (metis concat_chars)
qed

lemma validate_trim: "validate_domain_pattern (trim d) = validate_domain_pattern d"
  by (simp add: validate_domain_pattern_def trim_trim)

abbreviation valid_patterns :: "string list \<Rightarrow> bool" where
  "valid_patterns ps \<equiv> list_all (\<lambda>p. validate_domain_pattern p = Inr ()) ps"

lemma validate_domain_patterns_ok: "validate_domain_patterns label ps = Inr () \<longleftrightarrow> valid_patterns ps"
  by (induction ps) (auto split: sum.splits)

lemma parse_patterns_ok: "valid_patterns ps \<Longrightarrow> \<exists>qs. parse_patterns ps = Inr qs"
  by (induction ps) (auto simp: pattern_parse_def Let_def split: option.splits sum.splits)

definition valid_network :: "managed_network_policy \<Rightarrow> bool" where
  "valid_network n \<longleftrightarrow> valid_patterns (np_allowed_domains n) \<and> valid_patterns (np_denied_domains n)"

lemma valid_network_starts:
  assumes "valid_network n"
  shows "\<exists>config policy. config_from_policy n = Inr config \<and> host_policy_new config = Inr policy"
proof -
  have "config_from_policy n =
      Inr \<lparr>pc_allowed_domains = np_allowed_domains n, pc_denied_domains = np_denied_domains n,
           pc_allow_local_binding = np_allow_local_binding n\<rparr>"
    using assms
    by (simp add: config_from_policy_def valid_network_def validate_domain_patterns_ok [THEN iffD2])
  moreover obtain ps qs where "parse_patterns (np_allowed_domains n) = Inr ps" "parse_patterns (np_denied_domains n) = Inr qs"
    using assms parse_patterns_ok unfolding valid_network_def by blast
  ultimately show ?thesis by (simp add: host_policy_new_def)
qed

fun checked_op :: "cli_operation \<Rightarrow> bool" where
  "checked_op (Config (SetAllowedDomains vs)) = valid_patterns vs"
| "checked_op (Config (SetDeniedDomains vs)) = valid_patterns vs"
| "checked_op _ = True"

text \<open>Overrides that the parser accepts are checked.\<close>

lemma parsed_override_checked:
  assumes "parse_sandbox_config_override env json raw = Inr op"
  shows "checked_op (Config op)"
proof -
  have "check_patterns label vs = Inr u \<Longrightarrow> valid_patterns vs" for label vs and u :: unit
    using validate_domain_patterns_ok [of label vs] by (auto simp: check_patterns_def split: sum.splits)
  with assms show ?thesis
    by (auto simp: parse_sandbox_config_override_def Let_def map_ok_Inr and_then_Inr split: option.splits if_splits)
qed

lemma valid_network_step:
  assumes run: "apply_op inherited defaults op st = Inr st'" and v: "validate_op inherited allow_deferred mode op = Inr mode'"
    and op: "checked_op op" and st: "valid_network (ss_managed_network_policy st)"
    and given: "valid_network (ss_managed_network_policy defaults)"
      "\<And>i. inherited = Some i \<Longrightarrow> valid_network (ss_managed_network_policy i)"
  shows "valid_network (ss_managed_network_policy st')"
proof -
  have mode: "apply_mode m inherited defaults = Inr st' \<Longrightarrow> ?thesis" for m
    using given by (cases m) (auto simp: apply_mode_def split: option.splits)
  have ws: "change_workspace message f st = Inr st' \<Longrightarrow> ?thesis" for message f
    using st by (auto simp: change_workspace_def split: sandbox_policy.splits)
  show ?thesis
  proof (cases op)
    case (AddAllowedDomain d)
    then have "validate_domain_pattern (trim d) = Inr ()"
      using v validate_domain_patterns_ok [of "''--add-allowed-domain''" "[d]"]
      by (auto simp: validate_op_def map_ok_Inr check_patterns_def validate_trim split: if_splits sum.splits)
    with AddAllowedDomain run st show ?thesis
      by (auto simp: apply_op_def change_network_def add_allowed_domain_def valid_network_def split: if_splits)
  next
    case (Config c)
    then show ?thesis
      using run op st mode ws
      by (cases c) (auto simp: apply_op_def apply_config_op_def change_network_def valid_network_def)
  qed (use run mode ws in \<open>auto simp: apply_op_def\<close>)
qed

lemma valid_network_loop:
  assumes "apply_loop inherited defaults ops st = Inr st'" "validate_loop inherited allow_deferred mode ops = Inr ()"
    and "\<forall>op\<in>set ops. checked_op op" "valid_network (ss_managed_network_policy st)"
    and given: "valid_network (ss_managed_network_policy defaults)"
      "\<And>i. inherited = Some i \<Longrightarrow> valid_network (ss_managed_network_policy i)"
  shows "valid_network (ss_managed_network_policy st')"
  using assms(1-4)
proof (induction ops arbitrary: st mode)
  case (Cons op ops)
  then obtain st1 mode1 where
    "apply_op inherited defaults op st = Inr st1" "apply_loop inherited defaults ops st1 = Inr st'"
    "validate_op inherited allow_deferred mode op = Inr mode1" "validate_loop inherited allow_deferred mode1 ops = Inr ()"
    by (auto simp: and_then_Inr)
  with Cons.prems Cons.IH [of st1 mode1] valid_network_step [OF _ _ _ _ given] show ?case by auto
qed simp

text \<open>
  C32. The managed proxy of a resolved plan always has a policy. If the options that set lists of
  domains come from the parser of overrides and the defaults and an inherited state hold patterns that
  validate, then so does the state the plan resolves to: the configuration of the proxy is accepted and
  its host policy is built, so no pattern is rejected only when the proxy is started.
\<close>

theorem resolved_plan_starts_proxy:
  assumes "resolve_effective_sandbox_state_with_defaults plan inherited defaults = Inr st"
    and "\<forall>c. Config c \<in> set plan \<longrightarrow> (\<exists>env json raw. parse_sandbox_config_override env json raw = Inr c)"
    and "valid_network (ss_managed_network_policy defaults)"
    and "\<forall>i. inherited = Some i \<longrightarrow> valid_network (ss_managed_network_policy i)"
  shows "\<exists>config policy. config_from_policy (ss_managed_network_policy st) = Inr config \<and>
           host_policy_new config = Inr policy"
proof -
  have ops: "\<forall>op\<in>set plan. checked_op op"
  proof
    fix op
    assume "op \<in> set plan"
    with assms(2) parsed_override_checked show "checked_op op" by (cases op) auto
  qed
  have "valid_network (ss_managed_network_policy st)"
  proof (cases "plan = []")
    case True
    with assms show ?thesis
      by (cases inherited) (auto simp: resolve_effective_sandbox_state_with_defaults_def unwrap_or_def)
  next
    case False
    let ?ops = "drop (start_index plan) plan"
    from False assms(1) have "apply_loop inherited defaults ?ops defaults = Inr st"
      "validate_sandbox_plan_operations plan inherited defaults = Inr ()"
      by (auto simp: resolve_effective_sandbox_state_with_defaults_def and_then_Inr)
    moreover from this(2) obtain mode where "validate_loop inherited
        (inherited = None \<and> sandbox_plan_requests_inherited_state plan) mode ?ops = Inr ()"
      unfolding validate_sandbox_plan_operations_def by (metis append_take_drop_id validate_loop_suffix)
    ultimately show ?thesis
      using valid_network_loop assms(3,4) ops by (blast dest: in_set_dropD)
  qed
  then show ?thesis by (rule valid_network_starts)
qed

definition sample_json :: "string \<Rightarrow> string + string list" where
  "sample_json s = Inr [''bad.example.com'']"

lemma sample_override_parts:
  "split_at_first (CHR ''='') ''permissions.network.allow_local_binding=true'' =
     Some (''permissions.network.allow_local_binding'', ''true'')"
  "split_at_first (CHR ''='') ''sandbox_mode=workspace-write'' = Some (''sandbox_mode'', ''workspace-write'')"
  "split_at_first (CHR ''='') ''permissions.network.denied_domains=[]'' =
     Some (''permissions.network.denied_domains'', ''[]'')"
  "trim ''permissions.network.allow_local_binding'' = ''permissions.network.allow_local_binding''"
  "trim ''sandbox_mode'' = ''sandbox_mode''"
  "trim ''permissions.network.denied_domains'' = ''permissions.network.denied_domains''"
  "trim ''true'' = ''true''" "trim ''workspace-write'' = ''workspace-write''" "trim ''[]'' = ''[]''"
  "trim ''bad.example.com'' = ''bad.example.com''"
  "mode_parse (parse_string_value ''workspace-write'') = Inr ModeWorkspaceWrite"
  "check_patterns ''permissions.network.denied_domains'' [''bad.example.com''] = Inr ()"
  by code_simp+

theorem resolved_plan_starts_proxy_witness:
  "\<exists>config policy. config_from_policy (ss_managed_network_policy sample_resolved) = Inr config \<and>
     host_policy_new config = Inr policy"
proof -
  have "parse_sandbox_config_override sample_files sample_json ''permissions.network.allow_local_binding=true'' =
      Inr (SetAllowLocalBinding True)"
    "parse_sandbox_config_override sample_files sample_json ''sandbox_mode=workspace-write'' =
      Inr (ConfigSetMode ModeWorkspaceWrite)"
    "parse_sandbox_config_override sample_files sample_json ''permissions.network.denied_domains=[]'' =
      Inr (SetDeniedDomains [''bad.example.com''])"
    by (simp_all add: parse_sandbox_config_override_def sample_override_parts canonicalize_config_key_def
        parse_bool_value_def parse_string_array_value_def sample_json_def map_ok_def and_then_def)
  then have "\<forall>c. Config c \<in> set sample_plan \<longrightarrow> (\<exists>env json raw. parse_sandbox_config_override env json raw = Inr c)"
    unfolding sample_plan_def by auto
  moreover have "valid_network (ss_managed_network_policy sample_defaults)" by code_simp
  ultimately show ?thesis using resolved_plan_starts_proxy [OF sample_plan_resolves] by blast
qed

end
