(* ===== verification/Codex_Profile.thy ===== *)
theory Codex_Profile
  imports Sandbox_Policy
begin

text \<open>
  The permission profiles that a Codex client sends with a call (\<^verbatim>\<open>src/src/sandbox.rs\<close>,
  \<^verbatim>\<open>sandbox_state_update_from_codex_meta\<close> and what it calls): their translation into a sandbox policy, by
  a projection onto the older policies where one fits, and otherwise entry by entry. The decoded
  metadata is the input; parsing of file URIs is a parameter.
\<close>

section \<open>Profiles\<close>

record codex_url =
  cu_scheme :: string
  cu_has_metadata :: bool
  cu_file_path :: "path option"

record codex_env =
  ce_url :: "string \<Rightarrow> string + codex_url"
  ce_files :: file_env

datatype codex_special_path =
    CxRoot | CxMinimal | CxProjectRoots "path option" | CxTmpdir | CxSlashTmp | CxUnknown string "path option"

datatype codex_path = CxPath string | CxGlobPattern string | CxSpecial codex_special_path

datatype codex_access = CxRead | CxWrite | CxDeny

record codex_entry =
  cx_path :: codex_path
  cx_access :: codex_access

datatype codex_file_system = CxRestricted "codex_entry list" "nat option" | CxUnrestricted

datatype codex_profile = CxManaged codex_file_system network_access | CxDisabled | CxExternal network_access

record codex_meta =
  cm_sandbox_policy :: "sandbox_policy option"
  cm_permission_profile :: "codex_profile option"
  cm_sandbox_cwd :: string
  cm_use_legacy_landlock :: bool

section \<open>Paths and accepted policies\<close>

definition parse_codex_path_uri :: "codex_env \<Rightarrow> string \<Rightarrow> string \<Rightarrow> string + path" where
  "parse_codex_path_uri env v field =
     (case (if starts_with v ''file:'' then
              (case ce_url env v of
                 Inl err \<Rightarrow> Inl (''Codex sandbox metadata has invalid '' @ field @ '': '' @ err)
               | Inr url \<Rightarrow>
                   if cu_scheme url \<noteq> ''file''
                   then Inl (''Codex sandbox metadata requires '' @ field @ '' to be a file URI, got: '' @ v)
                   else if cu_has_metadata url
                   then Inl (''Codex sandbox metadata '' @ field @ '' file URI has unsupported metadata: '' @ v)
                   else case cu_file_path url of
                          Some p \<Rightarrow> Inr p
                        | None \<Rightarrow>
                            Inl (''Codex sandbox metadata requires local file URI '' @ field @ '', got: '' @ v))
            else Inr (fe_path_of (ce_files env) v)) of
        Inl e \<Rightarrow> Inl e
      | Inr p \<Rightarrow>
          if is_absolute p then Inr p
          else Inl (''Codex sandbox metadata requires an absolute '' @ field @ '', got: '' @
                 fe_show (ce_files env) p))"

definition validate_codex_sandbox_policy :: "codex_env \<Rightarrow> sandbox_policy \<Rightarrow> string + sandbox_policy" where
  "validate_codex_sandbox_policy env policy =
     (case policy of
        WorkspaceWrite roots _ _ _ \<Rightarrow>
          (case find (\<lambda>root. \<not> is_absolute root) roots of
             Some root \<Rightarrow>
               Inl (''Codex sandbox metadata requires absolute sandboxPolicy.writable_roots entries, got: '' @
                 fe_show (ce_files env) root)
           | None \<Rightarrow> Inr policy)
      | _ \<Rightarrow> Inr policy)"

abbreviation entry_field :: string where
  "entry_field \<equiv> ''permissionProfile.file_system.entries.path''"

section \<open>Entry by entry\<close>

definition file_system_path_from_codex :: "codex_env \<Rightarrow> codex_path \<Rightarrow> string + file_system_path option" where
  "file_system_path_from_codex env p =
     (case p of
        CxPath v \<Rightarrow>
          (case parse_codex_path_uri env v entry_field of Inl e \<Rightarrow> Inl e | Inr q \<Rightarrow> Inr (Some (FsPath q)))
      | CxGlobPattern pattern \<Rightarrow> Inr (Some (FsGlobPattern pattern))
      | CxSpecial v \<Rightarrow>
          (case v of
             CxRoot \<Rightarrow> Inr (Some (FsSpecial SpRoot))
           | CxMinimal \<Rightarrow> Inr (Some (FsSpecial SpMinimal))
           | CxProjectRoots subpath \<Rightarrow> Inr (Some (FsSpecial (SpProjectRoots subpath)))
           | CxTmpdir \<Rightarrow> Inr (Some (FsSpecial SpTmpdir))
           | CxSlashTmp \<Rightarrow> Inr (Some (FsSpecial SpSlashTmp))
           | CxUnknown _ _ \<Rightarrow> Inr None))"

fun access_from_codex :: "codex_access \<Rightarrow> access_mode" where
  "access_from_codex CxRead = AccessRead"
| "access_from_codex CxWrite = AccessWrite"
| "access_from_codex CxDeny = AccessDeny"

definition check_codex_entry :: "file_system_path \<Rightarrow> codex_access \<Rightarrow> string + unit" where
  "check_codex_entry p a =
     (case p of
        FsGlobPattern _ \<Rightarrow>
          if a = CxDeny then Inr ()
          else Inl ''Codex permissionProfile.file_system glob pattern entries only support deny access''
      | FsSpecial SpMinimal \<Rightarrow>
          if a = CxWrite
          then Inl ''Codex permissionProfile.file_system minimal write access is not supported''
          else Inr ()
      | _ \<Rightarrow> Inr ())"

fun runtime_entries :: "codex_env \<Rightarrow> codex_entry list \<Rightarrow> string + fs_entry list" where
  "runtime_entries env [] = Inr []"
| "runtime_entries env (e # es) =
     (case file_system_path_from_codex env (cx_path e) of
        Inl err \<Rightarrow> Inl err
      | Inr None \<Rightarrow> runtime_entries env es
      | Inr (Some p) \<Rightarrow>
          (case check_codex_entry p (cx_access e) of
             Inl err \<Rightarrow> Inl err
           | Inr _ \<Rightarrow>
               (case runtime_entries env es of
                  Inl err \<Rightarrow> Inl err
                | Inr rs \<Rightarrow> Inr (fs_entry_for p (access_from_codex (cx_access e)) # rs))))"

definition file_system_policy_from_codex_restricted_entries ::
  "codex_env \<Rightarrow> codex_entry list \<Rightarrow> nat option \<Rightarrow> string + fs_policy" where
  "file_system_policy_from_codex_restricted_entries env entries glob_scan_max_depth =
     (case runtime_entries env entries of
        Inl e \<Rightarrow> Inl e
      | Inr rs \<Rightarrow>
          if \<not> list_ex (\<lambda>e. can_read (en_access e)) rs
          then Inl ''Codex permissionProfile.file_system restricted policy requires at least one readable entry''
          else Inr \<lparr>fs_kind_of = FsRestricted, fs_glob_scan_max_depth = glob_scan_max_depth, fs_entries = rs\<rparr>)"

section \<open>The projection onto older policies\<close>

record projection =
  pj_root_read :: bool
  pj_root_write :: bool
  pj_workspace_root_writable :: bool
  pj_writable_roots :: "path list"
  pj_tmpdir_writable :: bool
  pj_slash_tmp_writable :: bool
  pj_read_entries :: "codex_path list"

definition projection_default :: projection where
  "projection_default =
     \<lparr>pj_root_read = False, pj_root_write = False, pj_workspace_root_writable = False, pj_writable_roots = [],
      pj_tmpdir_writable = False, pj_slash_tmp_writable = False, pj_read_entries = []\<rparr>"

definition codex_path_is_unknown_special :: "codex_path \<Rightarrow> bool" where
  "codex_path_is_unknown_special p = (case p of CxSpecial (CxUnknown _ _) \<Rightarrow> True | _ \<Rightarrow> False)"

definition resolve_codex_project_root_subpath :: "path \<Rightarrow> path \<Rightarrow> path" where
  "resolve_codex_project_root_subpath cwd subpath = (if is_absolute subpath then subpath else path_join cwd subpath)"

definition push_root :: "path \<Rightarrow> projection \<Rightarrow> projection" where
  "push_root p pj = pj\<lparr>pj_writable_roots := pj_writable_roots pj @ [p]\<rparr>"

definition project_codex_write_entry :: "codex_env \<Rightarrow> codex_path \<Rightarrow> path \<Rightarrow> projection \<Rightarrow> string + projection" where
  "project_codex_write_entry env p cwd pj =
     (case p of
        CxPath v \<Rightarrow>
          (case parse_codex_path_uri env v entry_field of
             Inl e \<Rightarrow> Inl e
           | Inr q \<Rightarrow> Inr (if q = cwd then pj\<lparr>pj_workspace_root_writable := True\<rparr> else push_root q pj))
      | CxSpecial v \<Rightarrow>
          (case v of
             CxRoot \<Rightarrow> Inr (pj\<lparr>pj_root_write := True\<rparr>)
           | CxProjectRoots None \<Rightarrow> Inr (pj\<lparr>pj_workspace_root_writable := True\<rparr>)
           | CxProjectRoots (Some subpath) \<Rightarrow> Inr (push_root (resolve_codex_project_root_subpath cwd subpath) pj)
           | CxTmpdir \<Rightarrow> Inr (pj\<lparr>pj_tmpdir_writable := True\<rparr>)
           | CxSlashTmp \<Rightarrow> Inr (pj\<lparr>pj_slash_tmp_writable := True\<rparr>)
           | CxMinimal \<Rightarrow> Inl ''Codex permissionProfile.file_system minimal write access is not supported''
           | CxUnknown _ _ \<Rightarrow> Inr pj)
      | CxGlobPattern _ \<Rightarrow> Inl ''Codex permissionProfile.file_system glob pattern writes are not supported'')"

fun project_entries :: "codex_env \<Rightarrow> path \<Rightarrow> codex_entry list \<Rightarrow> projection \<Rightarrow> string + projection" where
  "project_entries env cwd [] pj = Inr pj"
| "project_entries env cwd (e # es) pj =
     (if codex_path_is_unknown_special (cx_path e) then project_entries env cwd es pj
      else case cx_access e of
             CxDeny \<Rightarrow> Inl ''Codex permissionProfile.file_system deny entries are not supported''
           | CxRead \<Rightarrow>
               project_entries env cwd es
                 (pj\<lparr>pj_root_read := pj_root_read pj \<or> cx_path e = CxSpecial CxRoot,
                     pj_read_entries := pj_read_entries pj @ [cx_path e]\<rparr>)
           | CxWrite \<Rightarrow>
               (case project_codex_write_entry env (cx_path e) cwd pj of
                  Inl err \<Rightarrow> Inl err
                | Inr pj1 \<Rightarrow> project_entries env cwd es pj1))"

definition validate_root_write_projection :: "projection \<Rightarrow> string + unit" where
  "validate_root_write_projection pj =
     (if list_all (\<lambda>r. r = CxSpecial CxRoot) (pj_read_entries pj) then Inr ()
      else Inl ''Codex permissionProfile root write policy with read carveouts is not supported'')"

definition is_protected_metadata_subpath :: "string list \<Rightarrow> bool" where
  "is_protected_metadata_subpath components =
     (case components of [] \<Rightarrow> False | first # _ \<Rightarrow> first \<in> set PROTECTED_METADATA_SUBPATHS)"

definition is_protected_metadata_path_under_root :: "path \<Rightarrow> path \<Rightarrow> bool" where
  "is_protected_metadata_path_under_root p root =
     (case path_strip_prefix p root of None \<Rightarrow> False | Some suffix \<Rightarrow> is_protected_metadata_subpath suffix)"

definition is_protected_metadata_path_under_roots :: "path \<Rightarrow> path \<Rightarrow> path list \<Rightarrow> bool" where
  "is_protected_metadata_path_under_roots p cwd roots \<longleftrightarrow>
     is_protected_metadata_path_under_root p cwd \<or> list_ex (is_protected_metadata_path_under_root p) roots"

definition is_under_any_root :: "path \<Rightarrow> path \<Rightarrow> path list \<Rightarrow> bool" where
  "is_under_any_root p cwd roots \<longleftrightarrow> path_starts_with p cwd \<or> list_ex (path_starts_with p) roots"

definition workspace_write_read_entry_is_representable ::
  "codex_env \<Rightarrow> codex_path \<Rightarrow> path \<Rightarrow> path list \<Rightarrow> bool \<Rightarrow> string + bool" where
  "workspace_write_read_entry_is_representable env read_entry cwd roots root_read =
     (case read_entry of
        CxSpecial v \<Rightarrow>
          (case v of
             CxRoot \<Rightarrow> Inr True
           | CxProjectRoots subpath \<Rightarrow>
               Inr (case subpath of
                      None \<Rightarrow> False
                    | Some p \<Rightarrow> \<not> is_absolute p \<and> is_protected_metadata_subpath (parts p))
           | CxUnknown _ _ \<Rightarrow> Inr True
           | _ \<Rightarrow> Inr root_read)
      | CxPath v \<Rightarrow>
          (case parse_codex_path_uri env v entry_field of
             Inl e \<Rightarrow> Inl e
           | Inr p \<Rightarrow>
               if is_protected_metadata_path_under_roots p cwd roots then Inr True
               else Inr (root_read \<and> \<not> is_under_any_root p cwd roots))
      | CxGlobPattern _ \<Rightarrow> Inr False)"

fun validate_read_entries :: "codex_env \<Rightarrow> path \<Rightarrow> path list \<Rightarrow> bool \<Rightarrow> codex_path list \<Rightarrow> string + unit" where
  "validate_read_entries env cwd roots root_read [] = Inr ()"
| "validate_read_entries env cwd roots root_read (r # rs) =
     (case workspace_write_read_entry_is_representable env r cwd roots root_read of
        Inl e \<Rightarrow> Inl e
      | Inr True \<Rightarrow> validate_read_entries env cwd roots root_read rs
      | Inr False \<Rightarrow>
          Inl ''Codex permissionProfile.file_system read entry cannot be represented by mcp-repl workspace-write'')"

definition validate_workspace_write_read_entries :: "codex_env \<Rightarrow> projection \<Rightarrow> path \<Rightarrow> string + unit" where
  "validate_workspace_write_read_entries env pj cwd =
     validate_read_entries env cwd (pj_writable_roots pj) (pj_root_read pj) (pj_read_entries pj)"

text \<open>The order in which \<^verbatim>\<open>Vec<PathBuf>::sort\<close> puts paths: by component, the root first, then \<^verbatim>\<open>..\<close>, then names.\<close>

definition path_key :: "path \<Rightarrow> (nat \<times> string) list" where
  "path_key p =
     (if is_absolute p then [(0, [])] else []) @
     map (\<lambda>name. if name = ''.'' then (1, []) else if name = ''..'' then (2, []) else (3, name)) (parts p)"

definition CODEX_FULL_WRITE_RESTRICTED_NETWORK_ERROR :: string where
  "CODEX_FULL_WRITE_RESTRICTED_NETWORK_ERROR =
     ''Codex permissionProfile full write access with restricted network access is not supported''"

definition legacy_policy_of_projection :: "codex_env \<Rightarrow> bool \<Rightarrow> path \<Rightarrow> projection \<Rightarrow> string + sandbox_policy" where
  "legacy_policy_of_projection env network_access cwd pj =
     (if pj_root_write pj then
        (case validate_root_write_projection pj of
           Inl e \<Rightarrow> Inl e
         | Inr _ \<Rightarrow>
             if \<not> network_access then Inl CODEX_FULL_WRITE_RESTRICTED_NETWORK_ERROR else Inr DangerFullAccess)
      else
        let pj = pj\<lparr>pj_writable_roots := remdups_adj (sort_key path_key (pj_writable_roots pj))\<rparr>
        in if pj_workspace_root_writable pj then
             (case validate_workspace_write_read_entries env pj cwd of
                Inl e \<Rightarrow> Inl e
              | Inr _ \<Rightarrow>
                  Inr (WorkspaceWrite (pj_writable_roots pj) network_access (\<not> pj_tmpdir_writable pj)
                         (\<not> pj_slash_tmp_writable pj)))
           else if pj_writable_roots pj \<noteq> [] \<or> pj_tmpdir_writable pj \<or> pj_slash_tmp_writable pj
           then Inl (''Codex permissionProfile requests writes outside the workspace root, '' @
                  ''which mcp-repl cannot represent'')
           else if \<not> pj_root_read pj
           then Inl ''Codex permissionProfile read-only policy without root read access is not supported''
           else Inr (ReadOnly network_access))"

definition legacy_sandbox_policy_from_codex_restricted_entries ::
  "codex_env \<Rightarrow> codex_entry list \<Rightarrow> bool \<Rightarrow> path \<Rightarrow> string + sandbox_policy" where
  "legacy_sandbox_policy_from_codex_restricted_entries env entries network_access cwd =
     (case project_entries env cwd entries projection_default of
        Inl e \<Rightarrow> Inl e
      | Inr pj \<Rightarrow> legacy_policy_of_projection env network_access cwd pj)"

text \<open>\<open>macos\<close> is the \<^verbatim>\<open>cfg!\<close> of the code.\<close>

definition sandbox_policy_from_codex_restricted_entries ::
  "bool \<Rightarrow> codex_env \<Rightarrow> codex_entry list \<Rightarrow> nat option \<Rightarrow> network_access \<Rightarrow> path \<Rightarrow> string + sandbox_policy" where
  "sandbox_policy_from_codex_restricted_entries macos env entries glob_scan_max_depth network cwd =
     (case file_system_policy_from_codex_restricted_entries env entries glob_scan_max_depth of
        Inl e \<Rightarrow> Inl e
      | Inr fs \<Rightarrow>
          (case legacy_sandbox_policy_from_codex_restricted_entries env entries (is_enabled network) cwd of
             Inl _ \<Rightarrow> Inr (Managed fs network)
           | Inr policy \<Rightarrow>
               if macos \<and> (case policy of ReadOnly _ \<Rightarrow> True | _ \<Rightarrow> False) then Inr (Managed fs network)
               else Inr policy))"

definition sandbox_policy_from_codex_managed_profile ::
  "bool \<Rightarrow> codex_env \<Rightarrow> codex_file_system \<Rightarrow> network_access \<Rightarrow> path \<Rightarrow> string + sandbox_policy" where
  "sandbox_policy_from_codex_managed_profile macos env fs network cwd =
     (case fs of
        CxUnrestricted \<Rightarrow>
          if is_enabled network then Inr DangerFullAccess else Inr (Managed fs_unrestricted network)
      | CxRestricted entries depth \<Rightarrow>
          sandbox_policy_from_codex_restricted_entries macos env entries depth network cwd)"

definition sandbox_policy_from_codex_permission_profile ::
  "bool \<Rightarrow> codex_env \<Rightarrow> codex_profile \<Rightarrow> path \<Rightarrow> string + sandbox_policy" where
  "sandbox_policy_from_codex_permission_profile macos env profile cwd =
     (case profile of
        CxDisabled \<Rightarrow> Inr DangerFullAccess
      | CxExternal network \<Rightarrow> Inr (ExternalSandbox network)
      | CxManaged fs network \<Rightarrow> sandbox_policy_from_codex_managed_profile macos env fs network cwd)"

text \<open>\<open>parsed\<close> is the outcome of decoding the metadata; \<open>linux\<close> selects what is reported of the sandbox in use.\<close>

definition sandbox_state_update_from_codex_meta ::
  "bool \<Rightarrow> bool \<Rightarrow> codex_env \<Rightarrow> string + codex_meta \<Rightarrow> string + sandbox_state_update" where
  "sandbox_state_update_from_codex_meta macos linux env parsed =
     (case parsed of
        Inl err \<Rightarrow> Inl (''failed to parse Codex sandbox state metadata: '' @ err)
      | Inr meta \<Rightarrow>
          (case parse_codex_path_uri env (cm_sandbox_cwd meta) ''sandboxCwd'' of
             Inl e \<Rightarrow> Inl e
           | Inr cwd \<Rightarrow>
               (case (case (cm_sandbox_policy meta, cm_permission_profile meta) of
                        (Some policy, _) \<Rightarrow> validate_codex_sandbox_policy env policy
                      | (None, Some profile) \<Rightarrow>
                          sandbox_policy_from_codex_permission_profile macos env profile cwd
                      | (None, None) \<Rightarrow>
                          Inl (''failed to parse Codex sandbox state metadata: missing field '' @
                            [CHR 0x60] @ ''sandboxPolicy'' @ [CHR 0x60] @ '' or '' @ [CHR 0x60] @
                            ''permissionProfile'' @ [CHR 0x60])) of
                  Inl e \<Rightarrow> Inl e
                | Inr policy \<Rightarrow>
                    Inr \<lparr>su_policy = policy, su_cwd = Some cwd,
                         su_use_linux_sandbox_bwrap =
                           (if linux then Some (\<not> cm_use_legacy_landlock meta) else None),
                         su_use_legacy_landlock =
                           (if linux then Some (cm_use_legacy_landlock meta) else None)\<rparr>)))"

section \<open>Writes are not widened\<close>

definition entry_root :: "codex_env \<Rightarrow> path \<Rightarrow> codex_entry \<Rightarrow> path option" where
  "entry_root env cwd e =
     (case cx_path e of
        CxPath v \<Rightarrow> (case parse_codex_path_uri env v entry_field of Inr q \<Rightarrow> Some q | Inl _ \<Rightarrow> None)
      | CxSpecial (CxProjectRoots None) \<Rightarrow> Some cwd
      | CxSpecial (CxProjectRoots (Some subpath)) \<Rightarrow> Some (resolve_codex_project_root_subpath cwd subpath)
      | _ \<Rightarrow> None)"

definition write_entries :: "codex_entry list \<Rightarrow> codex_entry set" where
  "write_entries entries = {e \<in> set entries. cx_access e = CxWrite}"

definition asked :: "codex_env \<Rightarrow> path \<Rightarrow> codex_entry set \<Rightarrow> projection \<Rightarrow> bool" where
  "asked env cwd W pj \<longleftrightarrow>
     (pj_root_write pj \<longrightarrow> (\<exists>e\<in>W. cx_path e = CxSpecial CxRoot)) \<and>
     (pj_workspace_root_writable pj \<longrightarrow> (\<exists>e\<in>W. entry_root env cwd e = Some cwd)) \<and>
     (\<forall>r\<in>set (pj_writable_roots pj). \<exists>e\<in>W. entry_root env cwd e = Some r) \<and>
     (pj_tmpdir_writable pj \<longrightarrow> (\<exists>e\<in>W. cx_path e = CxSpecial CxTmpdir)) \<and>
     (pj_slash_tmp_writable pj \<longrightarrow> (\<exists>e\<in>W. cx_path e = CxSpecial CxSlashTmp))"

lemma asked_default: "asked env cwd W projection_default"
  by (simp add: asked_def projection_default_def)

lemma asked_updates:
  assumes "asked env cwd W pj" "e \<in> W"
  shows "entry_root env cwd e = Some cwd \<Longrightarrow> asked env cwd W (pj\<lparr>pj_workspace_root_writable := True\<rparr>)"
    and "entry_root env cwd e = Some q \<Longrightarrow> asked env cwd W (push_root q pj)"
    and "cx_path e = CxSpecial CxRoot \<Longrightarrow> asked env cwd W (pj\<lparr>pj_root_write := True\<rparr>)"
    and "cx_path e = CxSpecial CxTmpdir \<Longrightarrow> asked env cwd W (pj\<lparr>pj_tmpdir_writable := True\<rparr>)"
    and "cx_path e = CxSpecial CxSlashTmp \<Longrightarrow> asked env cwd W (pj\<lparr>pj_slash_tmp_writable := True\<rparr>)"
  using assms unfolding asked_def push_root_def by auto

lemma asked_write:
  assumes run: "project_codex_write_entry env (cx_path e) cwd pj = Inr pj1" and e: "asked env cwd W pj" "e \<in> W"
  shows "asked env cwd W pj1"
proof (cases "cx_path e")
  case (CxPath v)
  with run obtain q where q: "parse_codex_path_uri env v entry_field = Inr q"
    and pj1: "pj1 = (if q = cwd then pj\<lparr>pj_workspace_root_writable := True\<rparr> else push_root q pj)"
    by (auto simp: project_codex_write_entry_def split: sum.splits)
  from CxPath q have "entry_root env cwd e = Some q" by (simp add: entry_root_def)
  with pj1 asked_updates [OF e] show ?thesis by simp
next
  case (CxGlobPattern g)
  with run show ?thesis by (simp add: project_codex_write_entry_def)
next
  case (CxSpecial v)
  with run e asked_updates [OF e] show ?thesis
    by (cases v) (auto simp: project_codex_write_entry_def entry_root_def split: option.splits)
qed

lemma asked_project:
  assumes "project_entries env cwd es pj = Inr pj1" "asked env cwd W pj" "write_entries es \<subseteq> W"
  shows "asked env cwd W pj1"
  using assms
proof (induction es arbitrary: pj)
  case (Cons e es)
  have W: "write_entries es \<subseteq> W" "cx_access e = CxWrite \<Longrightarrow> e \<in> W"
    using Cons.prems(3) by (auto simp: write_entries_def)
  have read: "asked env cwd W (pj\<lparr>pj_root_read := b, pj_read_entries := rs\<rparr>)" for b rs
    using Cons.prems(2) by (simp add: asked_def)
  show ?case
  proof (cases "codex_path_is_unknown_special (cx_path e)")
    case True
    with Cons W show ?thesis by auto
  next
    case False
    show ?thesis
    proof (cases "cx_access e")
      case CxRead
      with False Cons.prems(1) show ?thesis by (auto intro!: Cons.IH read W)
    next
      case CxWrite
      with False Cons.prems(1) obtain pj2 where
        "project_codex_write_entry env (cx_path e) cwd pj = Inr pj2" "project_entries env cwd es pj2 = Inr pj1"
        by (auto split: sum.splits)
      with CxWrite W Cons.prems(2) show ?thesis by (blast intro: Cons.IH asked_write)
    next
      case CxDeny
      with False Cons.prems(1) show ?thesis by simp
    qed
  qed
qed simp

lemma runtime_entries_from_codex:
  "runtime_entries env es = Inr rs \<Longrightarrow> r \<in> set rs \<Longrightarrow>
   \<exists>e\<in>set es. file_system_path_from_codex env (cx_path e) = Inr (Some (en_path r)) \<and>
     en_access r = access_from_codex (cx_access e)"
  by (induction es arbitrary: rs) (auto split: sum.splits option.splits)

lemma root_from_codex:
  "file_system_path_from_codex env p = Inr (Some (FsSpecial SpRoot)) \<Longrightarrow> p = CxSpecial CxRoot"
  by (auto simp: file_system_path_from_codex_def split: codex_path.splits codex_special_path.splits sum.splits)

lemma managed_full_write_asked:
  assumes "file_system_policy_from_codex_restricted_entries env entries depth = Inr fs" "has_full_disk_write_access fs"
  shows "\<exists>e\<in>write_entries entries. cx_path e = CxSpecial CxRoot"
proof -
  obtain rs where rs: "runtime_entries env entries = Inr rs" "fs_entries fs = rs" "fs_kind_of fs = FsRestricted"
    using assms(1) by (auto simp: file_system_policy_from_codex_restricted_entries_def split: sum.splits if_splits)
  with assms(2) obtain r where r: "r \<in> set rs" "en_path r = FsSpecial SpRoot" "en_access r = AccessWrite"
    by (auto simp: has_full_disk_write_access_def has_root_access_def can_write_def list_ex_iff)
  with runtime_entries_from_codex [OF rs(1) r(1)] root_from_codex obtain e where
    "e \<in> set entries" "cx_path e = CxSpecial CxRoot" "access_from_codex (cx_access e) = AccessWrite" by metis
  then show ?thesis by (cases "cx_access e") (auto simp: write_entries_def)
qed

definition workspace_asked :: "codex_env \<Rightarrow> path \<Rightarrow> codex_entry set \<Rightarrow> sandbox_policy \<Rightarrow> bool" where
  "workspace_asked env cwd W policy =
     (case policy of
        WorkspaceWrite roots _ no_tmpdir no_slash_tmp \<Rightarrow>
          (\<exists>e\<in>W. entry_root env cwd e = Some cwd) \<and>
          (\<forall>r\<in>set roots. \<exists>e\<in>W. entry_root env cwd e = Some r) \<and>
          (\<not> no_tmpdir \<longrightarrow> (\<exists>e\<in>W. cx_path e = CxSpecial CxTmpdir)) \<and>
          (\<not> no_slash_tmp \<longrightarrow> (\<exists>e\<in>W. cx_path e = CxSpecial CxSlashTmp))
      | _ \<Rightarrow> True)"

lemma legacy_asked:
  assumes "legacy_policy_of_projection env network_access cwd pj = Inr policy" "asked env cwd W pj"
  shows "(has_full_network_access policy \<longrightarrow> network_access) \<and>
    (policy_full_disk_write_access policy \<longrightarrow> (\<exists>e\<in>W. cx_path e = CxSpecial CxRoot)) \<and>
    workspace_asked env cwd W policy"
  using assms
  by (auto simp: legacy_policy_of_projection_def asked_def workspace_asked_def has_full_network_access_def
      policy_full_disk_write_access_def Let_def split: if_splits sum.splits)


definition sample_codex :: codex_env where
  "sample_codex =
     \<lparr>ce_url = (\<lambda>_. Inl ''not a URL''), ce_files = sample_files\<lparr>fe_path_of := (\<lambda>s. Path True [s])\<rparr>\<rparr>"

definition sample_entries :: "codex_entry list" where
  "sample_entries =
     [\<lparr>cx_path = CxSpecial CxRoot, cx_access = CxRead\<rparr>,
      \<lparr>cx_path = CxSpecial (CxProjectRoots None), cx_access = CxWrite\<rparr>,
      \<lparr>cx_path = CxSpecial CxSlashTmp, cx_access = CxWrite\<rparr>,
      \<lparr>cx_path = CxPath ''data'', cx_access = CxWrite\<rparr>]"


section \<open>Reads are\<close>

definition write_only_entries :: "codex_entry list" where
  "write_only_entries = [\<lparr>cx_path = CxSpecial (CxProjectRoots None), cx_access = CxWrite\<rparr>]"

definition write_only_fs :: fs_policy where
  "write_only_fs = fs_restricted [fs_entry_for (FsSpecial (SpProjectRoots None)) AccessWrite]"

text \<open>
  C37. A profile that asks only to write in the working directory, without any right to read
  elsewhere, allows reading nothing but the working directory when its entries are taken as they are;
  but it is translated into workspace-write mode, in which every path may be read.
\<close>

theorem write_only_profile_reads_everything:
  "file_system_policy_from_codex_restricted_entries env write_only_entries None = Inr write_only_fs \<and>
   can_read_path_with_cwd (ce_files env) write_only_fs (Path True ps) (Path True cs) tmp =
     path_is_at_or_under_root (ce_files env) (Path True ps) (Path True cs) \<and>
   sandbox_policy_from_codex_restricted_entries False env write_only_entries None NetRestricted (Path True cs) =
     Inr (WorkspaceWrite [] False True True) \<and>
   can_read_path_with_cwd (ce_files env)
     (file_system_policy_from_legacy (ce_files env) (WorkspaceWrite [] False True True))
     (Path True ps) (Path True cs) tmp"
proof (intro conjI)
  show fs: "file_system_policy_from_codex_restricted_entries env write_only_entries None = Inr write_only_fs"
    by (simp add: write_only_entries_def write_only_fs_def fs_restricted_def can_read_def
        file_system_policy_from_codex_restricted_entries_def file_system_path_from_codex_def check_codex_entry_def)
  have "legacy_sandbox_policy_from_codex_restricted_entries env write_only_entries (is_enabled NetRestricted)
      (Path True cs) = Inr (WorkspaceWrite [] False True True)"
    by (simp add: legacy_sandbox_policy_from_codex_restricted_entries_def write_only_entries_def
        codex_path_is_unknown_special_def project_codex_write_entry_def projection_default_def
        legacy_policy_of_projection_def validate_workspace_write_read_entries_def is_enabled_def)
  with fs show "sandbox_policy_from_codex_restricted_entries False env write_only_entries None NetRestricted
      (Path True cs) = Inr (WorkspaceWrite [] False True True)"
    by (simp add: sandbox_policy_from_codex_restricted_entries_def)
  show "can_read_path_with_cwd (ce_files env)
      (file_system_policy_from_legacy (ce_files env) (WorkspaceWrite [] False True True))
      (Path True ps) (Path True cs) tmp"
    by (rule read_access_sound) (simp_all add: legacy_policy_summaries policy_full_disk_read_access_def)
  show "can_read_path_with_cwd (ce_files env) write_only_fs (Path True ps) (Path True cs) tmp =
      path_is_at_or_under_root (ce_files env) (Path True ps) (Path True cs)"
    by (simp add: can_read_path_with_cwd_def resolve_access_with_cwd_def write_only_fs_def fs_restricted_def
        resolve_candidate_path_def resolved_entries_with_cwd_def List.map_filter_simps resolve_entry_path_def
        resolve_file_system_special_path_def ensure_absolute_def max_by_key_def can_read_def)
qed

end
