(* ===== verification/Spec2Isabelle.thy ===== *)
theory Spec2Isabelle
  imports Pager_Life Search_Commands Flow_Replies Python_Input Ipc_Protocol Response_Quota Sandbox_Plan Codex_Profile
begin

text \<open>
  A verification development for \<^verbatim>\<open>mcp-repl\<close>, an MCP server that keeps an R or Python worker alive
  across tool calls, captures what it prints and returns it to the client in replies of limited size.
  The Rust code is under \<^verbatim>\<open>src/src\<close>; file names below are relative to it.

  \<^bold>\<open>The program.\<close> The worker is a process of its own. Reader threads of the server capture its output
  (\<^verbatim>\<open>worker_supervisor.rs\<close>) into an output timeline over a bounded ring buffer
  (\<^verbatim>\<open>output_capture.rs\<close>), and a sideband channel (\<^verbatim>\<open>ipc/\<close>) tells the server when the worker is ready,
  when a request is complete and which images it produced. The worker manager
  (\<^verbatim>\<open>worker_process.rs\<close>, \<^verbatim>\<open>worker_process/\<close>) takes one input of the client at a time: it polls or
  interrupts a pending request, restarts the worker, or passes the input on, waits for a completion or
  a timeout and builds a reply out of the captured output (\<^verbatim>\<open>resolved_output.rs\<close>,
  \<^verbatim>\<open>completion_reply.rs\<close>, \<^verbatim>\<open>reply_presentation.rs\<close>, \<^verbatim>\<open>output_snapshot.rs\<close>). Output that is too long is
  handled in one of two modes. In pager mode the reply is a first page, and further inputs are commands
  of a pager (\<^verbatim>\<open>pager/\<close>). In files mode the reply goes to \<^verbatim>\<open>server/response.rs\<close>, which keeps it inline
  when it is short and otherwise writes an output bundle, a directory on disk with a transcript, the
  images and an index, under quotas on bundles and bytes. The worker runs in a sandbox of the operating
  system whose policy comes from the defaults, the options and the client (\<^verbatim>\<open>sandbox.rs\<close>,
  \<^verbatim>\<open>sandbox_cli.rs\<close>); where its network is restricted by domain, it reaches the network through a proxy
  of the server (\<^verbatim>\<open>managed_network.rs\<close>).

  \<^bold>\<open>The theories\<close>, in the order in which they build on each other.

  \<^item> \<open>Rust_Prelude\<close>: what the code uses of Rust's standard library (strings as byte lists, UTF-8
    decoding with \<^verbatim>\<open>from_utf8\<close>, saturating and wrapping arithmetic of \<^verbatim>\<open>usize\<close> and \<^verbatim>\<open>u64\<close>, trimming,
    splitting, decimal printing and parsing) and the shared lemmas.
  \<^item> \<open>Worker_Protocol\<close>: the types of \<^verbatim>\<open>worker_protocol.rs\<close>.
  \<^item> \<open>Ranges\<close>: \<^verbatim>\<open>pager/ranges.rs\<close>. A \<^verbatim>\<open>RangeSet\<close> stays sorted and disjoint and denotes exactly the
    union of what was inserted (locale \<open>interval_store\<close>, interpreted on its operations).
  \<^item> \<open>Presentation\<close>: \<^verbatim>\<open>pager/presentation.rs\<close>, the footers, markers and the help text.
  \<^item> \<open>Pager_Command\<close>: \<^verbatim>\<open>pager/command.rs\<close>, the command parser: the numbers it accepts are bounded, and
    printed commands parse back.
  \<^item> \<open>Resolved_Output\<close>: \<^verbatim>\<open>resolved_output.rs\<close>, a range of bytes, spans and events rendered as contents.
  \<^item> \<open>Pager_Buffer\<close>, \<open>Buffer_Invariant\<close>: \<^verbatim>\<open>PagerBuffer\<close> of \<^verbatim>\<open>pager/mod.rs\<close>, its character index and its
    byte search; the index describes the characters of the text (locale \<open>text_index\<close>), appending
    keeps that, and the search returns the leftmost match.
  \<^item> \<open>Pager_Pages\<close>: the functions of \<^verbatim>\<open>pager/mod.rs\<close> that take a page: a page shows text that was not
    shown before, and repeated pages reach the end unless images pile up at one offset.
  \<^item> \<open>Output_Ring\<close>, \<open>Ring_Refinement\<close>: \<^verbatim>\<open>OutputRing\<close> of \<^verbatim>\<open>output_capture.rs\<close>. Its state after any
    interleaving of locked sections (\<open>ring_step\<close>) is a suffix of the byte stream written so far within
    the capacity, and reads return slices of the stream (locales \<open>front_cleanup\<close> and \<open>stream_store\<close>).
  \<^item> \<open>Output_Timeline\<close>: \<^verbatim>\<open>OutputUtf8Tails\<close>, \<^verbatim>\<open>OutputTimeline\<close>, \<^verbatim>\<open>OutputBuffer\<close>, the pending output tape
    (\<^verbatim>\<open>pending_output_tape.rs\<close>): no byte is lost at a cut through a character, and drained output is
    delivered once.
  \<^item> \<open>Pager_Search\<close>, \<open>Search_Sessions\<close>: \<^verbatim>\<open>pager/search.rs\<close>. A session lists exactly the lines in which a
    match starts; moving in it finds the next such line; snippets contain the match.
  \<^item> \<open>Pager\<close>, \<open>Pager_Invariant\<close>, \<open>Pager_Life\<close>, \<open>Search_Commands\<close>: the \<^verbatim>\<open>Pager\<close> with all its commands, its
    invariant over every branch of \<^verbatim>\<open>handle_command\<close> (locale \<open>paging_op\<close>), the pager as a state machine
    over the ring it reads from, and what the search commands promise.
  \<^item> \<open>Replies\<close>: \<^verbatim>\<open>reply_presentation.rs\<close>, \<^verbatim>\<open>completion_reply.rs\<close>, \<^verbatim>\<open>output_snapshot.rs\<close> and the
    \<^verbatim>\<open>LiveOutputCapture\<close> of \<^verbatim>\<open>worker_supervisor.rs\<close>: how the prompt and the images end up in a reply.
  \<^item> \<open>Input_State\<close>, \<open>Ipc_Connection\<close>, \<open>Ipc_Protocol\<close>: \<^verbatim>\<open>input_state.rs\<close>, \<^verbatim>\<open>ipc/protocol.rs\<close> and
    \<^verbatim>\<open>ipc/server_connection.rs\<close>. The reader thread and the server as a system of two threads that take
    one step per time they hold the lock; it refines a small protocol in which an input is begun only
    when the worker is ready and a completion is taken once.
  \<^item> \<open>Python_Input\<close>: \<^verbatim>\<open>python_input_queue.rs\<close>; what is read is what was pushed, in order.
  \<^item> \<open>Worker_Manager\<close>, \<open>Worker_Flow\<close>, \<open>Flow_Invariant\<close>, \<open>Flow_Replies\<close>: \<^verbatim>\<open>worker_process.rs\<close> and
    \<^verbatim>\<open>worker_process/\<close>: every input from \<^verbatim>\<open>write_stdin\<close> to its reply in both modes, as computations in a
    state monad over the manager and its environment. The manager's view of the request stays
    consistent (locales \<open>request_invariant\<close> and \<open>count_free_invariant\<close>), a second request is not started
    while one is pending, and the item count a reply reports is within the reply.
  \<^item> \<open>Response_Items\<close>: the part of \<^verbatim>\<open>server/response.rs\<close> that does not touch the disk: replies as items,
    image updates, inline contents, previews.
  \<^item> \<open>Output_Store\<close>, \<open>Store_Quota\<close>: \<^verbatim>\<open>OutputStore\<close> and \<^verbatim>\<open>ActiveOutputBundle\<close> of the same file, over a file
    system whose calls may fail. A calculus of computations that keep a relation between the states
    before and after shows that every operation keeps the counters of the store: the bytes per bundle
    and in all, and the number of bundles stay within the limits on success and on every error path.
  \<^item> \<open>Response_State\<close>, \<open>Response_Quota\<close>: \<^verbatim>\<open>ResponseState\<close>, over every branch of \<^verbatim>\<open>finalize_worker_result\<close>
    and its helpers; what it relies on from the store is the locale \<open>bundle_store\<close>, interpreted on the
    counters of the store, so the quotas hold after any sequence of replies (\<open>responds\<close>) and a failing
    store does not cost a reply.
  \<^item> \<open>Host_Policy\<close>: the rules of \<^verbatim>\<open>managed_network.rs\<close>. Domain patterns match whole labels, and the addresses
    that count as not public are the special-purpose blocks.
  \<^item> \<open>Managed_Network\<close>: the proxy of \<^verbatim>\<open>managed_network.rs\<close>: its HTTP and SOCKS handlers, as computations over a
    connection and an environment of sockets and lookups. Both satisfy the contract \<open>client_handler\<close>, from
    which follows that only admitted hosts and public addresses are dialled; a plain request is sent on
    once, with exactly the body it declares.
  \<^item> \<open>Sandbox_Policy\<close>: the policy types of \<^verbatim>\<open>sandbox.rs\<close> and the resolution of file-system entries: the most
    specific entry decides, full access means every path, and the metadata of the workspace is protected.
  \<^item> \<open>Sandbox_Plan\<close>: \<^verbatim>\<open>sandbox_cli.rs\<close>: options resolve to a state of the sandbox whenever they validate, grant
    only what was asked for, and leave patterns the proxy accepts.
  \<^item> \<open>Codex_Profile\<close>: the permission profiles of a Codex client in \<^verbatim>\<open>sandbox.rs\<close> and their translation into a
    policy, which widens no writes but may widen reads.

  \<^bold>\<open>How the code is translated.\<close> Structs are records and enums datatypes; a method is a function from the
  old to the new state; \<^verbatim>\<open>Result\<close> and panics are values of sum types. Bytes are \<^typ>\<open>char\<close>, and a Rust
  string is the list of its UTF-8 bytes; \<^verbatim>\<open>usize\<close> and \<^verbatim>\<open>u64\<close> are \<^typ>\<open>nat\<close> with saturation, wrap-around or
  a bound written out where the code can reach it. Instants and durations are milliseconds. Methods
  that hold a mutex are one step; threads that run in the background take their steps where the
  modelled thread waits. Log messages are left out.

  \<^bold>\<open>Parameters.\<close> \<open>pager_lib\<close> holds the third-party searches the pager calls, with the documented behaviour
  as \<open>lib_documented\<close> and an instance \<open>lib_reference\<close> that has it; the page size comes from the process
  environment; the argument \<open>unix\<close> selects between the \<^verbatim>\<open>cfg\<close> variants; JSON and base64 decoding are
  arguments of the IPC reader; \<open>worker_env\<close> answers what the manager asks of the process, the clock, the
  waits and the sandbox configuration; \<open>store_env\<close> answers the calls of the file system, base64
  decoding, JSON escaping and the names of temporary directories; \<open>net_env\<close> answers sockets and name
  lookups, \<open>file_env\<close> what the file system says of a path; decoding of JSON arrays is an argument of the
  parser of overrides, and the parser of URLs (\<open>codex_env\<close>) and decoded metadata are arguments of the
  translation of profiles.

  \<^bold>\<open>Bounds.\<close> The scan and room-making loops and the loops over the matches of a buffer (\<open>index_loop\<close>,
  \<open>unseen_match_loop\<close>, \<open>earlier_match_loop\<close>) carry fuel. For the latter it is one more than the length of the
  buffer in characters, and each turn moves past one line; that more fuel makes no difference is
  proved. \<open>make_room_loop\<close> removes one item of the ring per turn and has one turn per item. The waits
  for session metadata and for the exit of the worker end after the number of turns their deadline
  allows (6 and 26). The quota theorems ask for byte limits below the largest \<^verbatim>\<open>u64\<close> and for bundle
  numbers that have not run out of \<^verbatim>\<open>u64\<close>.

  \<^bold>\<open>Not modelled.\<close> \<^verbatim>\<open>server.rs\<close> and \<^verbatim>\<open>server/timeouts.rs\<close> (the asynchronous service of the rmcp library and
  timeouts in floating point); spawning, signalling and watching of processes in \<^verbatim>\<open>worker_supervisor.rs\<close>
  and the filter for the console of Windows; the pipes and sockets of \<^verbatim>\<open>ipc.rs\<close>, \<^verbatim>\<open>ipc/transport.rs\<close>,
  \<^verbatim>\<open>ipc/worker_connection.rs\<close> and \<^verbatim>\<open>ipc/emit.rs\<close>; the embedding of R and Python through their C interfaces
  (\<^verbatim>\<open>r_*.rs\<close>, \<^verbatim>\<open>python_*.rs\<close> but for the input queue, \<^verbatim>\<open>worker.rs\<close>); of \<^verbatim>\<open>sandbox.rs\<close> the command
  lines of the operating-system sandboxes and the variants for macOS, of
  \<^verbatim>\<open>managed_network.rs\<close> the relay over Unix sockets; Windows process control (\<^verbatim>\<open>windows_*.rs\<close>), which
  consists of calls of the operating system;
  command line, installation, logging. A call of the file system that fails is taken to change no
  file; a write that fails half way is not modelled. The wake-ups of waiting threads, the writer half of
  the IPC connection and the handler closures are left out.
\<close>

end
